(* ===== verification/Prelude.thy ===== *)
theory Prelude
  imports Main "HOL-Library.AList"
begin

text \<open>
  Shared vocabulary of the development.

  \<^item> Go maps that the code iterates over are association lists with distinct keys
    (\<open>gm_wf\<close>): \<^const>\<open>map_of\<close> is the look-up, \<^const>\<open>AList.update\<close> the
    assignment and \<^const>\<open>AList.delete\<close> the \<^verbatim>\<open>delete\<close> built-in.  The order
    of the list stands for the order in which one \<^verbatim>\<open>range\<close> loop visits the map; Go
    leaves that order open, so a statement about every well-formed list is a statement
    about every iteration order.
  \<^item> \<open>gm_update_where\<close>, \<open>gm_count\<close> and \<open>gm_delete_where\<close> are the three shapes of
    maintenance loop the stores share: rewrite, count and delete the entries that satisfy
    a predicate.
  \<^item> \<open>itoa\<close> and \<open>atoi\<close> are \<^verbatim>\<open>strconv.Itoa\<close> and \<^verbatim>\<open>strconv.Atoi\<close> on 64-bit
    integers, \<open>splitN2\<close> is \<^verbatim>\<open>strings.SplitN(s, sep, 2)\<close> for a one-byte separator.
\<close>

named_theorems gm_simps "look-up and well-formedness of iterated Go maps"
named_theorems store_defs "definitions of the store operations"

section \<open>Go maps with iteration\<close>

type_synonym ('k, 'v) gomap = "('k \<times> 'v) list"

abbreviation gm_wf :: "('k, 'v) gomap \<Rightarrow> bool" where
  "gm_wf m \<equiv> distinct (map fst m)"

definition gm_update_where :: "('v \<Rightarrow> bool) \<Rightarrow> ('v \<Rightarrow> 'v) \<Rightarrow> ('k, 'v) gomap \<Rightarrow> ('k, 'v) gomap" where
  "gm_update_where P f m = map (\<lambda>(k, v). (k, if P v then f v else v)) m"

definition gm_count :: "('v \<Rightarrow> bool) \<Rightarrow> ('k, 'v) gomap \<Rightarrow> nat" where
  "gm_count P m = length (filter (\<lambda>(k, v). P v) m)"

definition gm_delete_where :: "('v \<Rightarrow> bool) \<Rightarrow> ('k, 'v) gomap \<Rightarrow> ('k, 'v) gomap" where
  "gm_delete_where P m = filter (\<lambda>(k, v). \<not> P v) m"

lemma map_of_gm_update_where [gm_simps]:
  "map_of (gm_update_where P f m) k =
     map_option (\<lambda>v. if P v then f v else v) (map_of m k)"
  unfolding gm_update_where_def by (induction m) auto

lemma keys_gm_update_where [gm_simps]: "map fst (gm_update_where P f m) = map fst m"
  unfolding gm_update_where_def by (induction m) auto

lemma fst_set_filter: "fst ` set (filter Q m) \<subseteq> fst ` set m"
  by auto

lemma gm_wf_filter: "gm_wf m \<Longrightarrow> gm_wf (filter Q m)"
  by (induction m) auto

lemma gm_wf_delete_where [gm_simps]: "gm_wf m \<Longrightarrow> gm_wf (gm_delete_where P m)"
  unfolding gm_delete_where_def by (rule gm_wf_filter)

lemma map_of_filter_wf:
  "gm_wf m \<Longrightarrow> map_of (filter (\<lambda>(k, v). Q v) m) k =
     (case map_of m k of None \<Rightarrow> None | Some v \<Rightarrow> if Q v then Some v else None)"
proof (induction m)
  case (Cons kv m)
  obtain k' v' where [simp]: "kv = (k', v')" by (cases kv)
  have "k' \<notin> fst ` set (filter (\<lambda>(k, v). Q v) m)"
    using Cons.prems by auto
  then have "map_of (filter (\<lambda>(k, v). Q v) m) k' = None"
    by (simp add: map_of_eq_None_iff)
  with Cons show ?case by auto
qed simp

lemma map_of_gm_delete_where [gm_simps]:
  "gm_wf m \<Longrightarrow> map_of (gm_delete_where P m) k =
     (case map_of m k of None \<Rightarrow> None | Some v \<Rightarrow> if P v then None else Some v)"
  unfolding gm_delete_where_def
  by (simp add: map_of_filter_wf [where Q = "\<lambda>v. \<not> P v"] split: option.splits)

lemma set_update_subset: "set (AList.update k v m) \<subseteq> insert (k, v) (set m)"
  by (induction m) auto

lemma set_delete_subset: "set (AList.delete k m) \<subseteq> set m"
  by (induction m) auto

lemma set_gm_delete_where: "set (gm_delete_where P m) = {(k, v) \<in> set m. \<not> P v}"
  unfolding gm_delete_where_def by auto

lemma gm_count_conservation:
  "gm_count P m + length (gm_delete_where P m) = length m"
  unfolding gm_count_def gm_delete_where_def by (induction m) auto

lemma gm_count_delete_where [gm_simps]: "gm_count P (gm_delete_where P m) = 0"
  unfolding gm_count_def gm_delete_where_def by (induction m) auto

lemma gm_count_card:
  "gm_wf m \<Longrightarrow> gm_count P m = card {k. \<exists>v. map_of m k = Some v \<and> P v}"
proof -
  assume wf: "gm_wf m"
  have "gm_count P m = length (map fst (filter (\<lambda>(k, v). P v) m))"
    by (simp add: gm_count_def)
  also have "\<dots> = card (set (map fst (filter (\<lambda>(k, v). P v) m)))"
    using wf by (metis distinct_card gm_wf_filter)
  also have "set (map fst (filter (\<lambda>(k, v). P v) m)) = {k. \<exists>v. map_of m k = Some v \<and> P v}"
    using wf by (auto simp: image_iff)
  finally show ?thesis .
qed

lemma gm_count_zero_iff:
  "gm_wf m \<Longrightarrow> gm_count P m = 0 \<longleftrightarrow> (\<forall>k v. map_of m k = Some v \<longrightarrow> \<not> P v)"
  unfolding gm_count_def
  by (auto simp: filter_empty_conv)

lemmas gm_map_simps [gm_simps] = update_conv delete_conv distinct_update distinct_delete

section \<open>Decimal conversion\<close>

definition digit :: "nat \<Rightarrow> char" where
  "digit n = char_of (48 + n)"

definition digit_val :: "char \<Rightarrow> nat option" where
  "digit_val c = (let n = of_char c in if 48 \<le> n \<and> n \<le> 57 then Some (n - 48) else None)"

fun nat_digits :: "nat \<Rightarrow> string" where
  "nat_digits n = (if n < 10 then [digit n] else nat_digits (n div 10) @ [digit (n mod 10)])"

declare nat_digits.simps [simp del]

definition itoa :: "int \<Rightarrow> string" where
  "itoa i = (if i < 0 then CHR ''-'' # nat_digits (nat (- i)) else nat_digits (nat i))"

fun parse_digits :: "nat \<Rightarrow> string \<Rightarrow> nat option" where
  "parse_digits acc [] = Some acc"
| "parse_digits acc (c # cs) =
     (case digit_val c of None \<Rightarrow> None | Some d \<Rightarrow> parse_digits (10 * acc + d) cs)"

definition parse_nat :: "string \<Rightarrow> nat option" where
  "parse_nat s = (if s = [] then None else parse_digits 0 s)"

definition in_int64 :: "int \<Rightarrow> bool" where
  "in_int64 i \<longleftrightarrow> - (2 ^ 63) \<le> i \<and> i < 2 ^ 63"

definition atoi :: "string \<Rightarrow> int option" where
  "atoi s =
     (let r = (case s of
                 [] \<Rightarrow> None
               | c # cs \<Rightarrow>
                   if c = CHR ''-'' then map_option (\<lambda>n. - int n) (parse_nat cs)
                   else if c = CHR ''+'' then map_option int (parse_nat cs)
                   else map_option int (parse_nat s))
      in case r of None \<Rightarrow> None | Some i \<Rightarrow> if in_int64 i then Some i else None)"

lemma of_char_digit: "n < 10 \<Longrightarrow> of_char (digit n) = 48 + n"
  by (simp add: digit_def of_char_of)

lemma digit_val_digit [simp]: "n < 10 \<Longrightarrow> digit_val (digit n) = Some n"
  by (simp add: digit_val_def of_char_digit Let_def)

lemma digit_val_not_digit [simp]:
  "digit_val CHR ''-'' = None" "digit_val CHR ''+'' = None" "digit_val CHR '':'' = None"
  "digit_val CHR ''|'' = None"
  by (simp_all add: digit_val_def)

lemma nat_digits_not_Nil [simp]: "nat_digits n \<noteq> []"
  by (subst nat_digits.simps) simp

lemma set_nat_digits: "c \<in> set (nat_digits n) \<Longrightarrow> \<exists>d. digit_val c = Some d"
proof (induction n arbitrary: c rule: nat_digits.induct)
  case (1 n)
  then show ?case
    by (cases "n < 10") (auto simp: nat_digits.simps [of n])
qed

lemma set_nat_digits_val: "c \<in> set (nat_digits n) \<Longrightarrow> digit_val c \<noteq> None"
  using set_nat_digits by fastforce

lemma colon_notin_nat_digits [simp]: "CHR '':'' \<notin> set (nat_digits n)"
  using set_nat_digits_val by force

lemma bar_notin_nat_digits [simp]: "CHR ''|'' \<notin> set (nat_digits n)"
  using set_nat_digits_val by force

lemma parse_digits_append:
  "parse_digits acc (xs @ ys) =
     (case parse_digits acc xs of None \<Rightarrow> None | Some n \<Rightarrow> parse_digits n ys)"
  by (induction xs arbitrary: acc) (auto split: option.splits)

lemma parse_digits_nat_digits [simp]: "parse_digits 0 (nat_digits n) = Some n"
proof (induction n rule: nat_digits.induct)
  case (1 n)
  then show ?case
    by (cases "n < 10") (simp_all add: nat_digits.simps [of n] parse_digits_append)
qed

lemma nat_digits_inj: "nat_digits m = nat_digits n \<Longrightarrow> m = n"
  by (metis option.inject parse_digits_nat_digits)

lemma hd_nat_digits: "\<exists>c cs. nat_digits n = c # cs \<and> c \<noteq> CHR ''-'' \<and> c \<noteq> CHR ''+''"
proof (cases "nat_digits n")
  case (Cons c cs)
  then have "digit_val c \<noteq> None"
    using set_nat_digits_val by (metis list.set_intros(1))
  then have "c \<noteq> CHR ''-'' \<and> c \<noteq> CHR ''+''" by auto
  with Cons show ?thesis by simp
qed simp

lemma atoi_itoa [simp]:
  assumes "in_int64 i"
  shows "atoi (itoa i) = Some i"
proof (cases "i < 0")
  case True
  with assms show ?thesis
    by (simp add: atoi_def itoa_def parse_nat_def)
next
  case False
  obtain c cs where c: "nat_digits (nat i) = c # cs" "c \<noteq> CHR ''-''" "c \<noteq> CHR ''+''"
    using hd_nat_digits by blast
  then have "parse_nat (c # cs) = Some (nat i)"
    by (metis list.distinct(1) parse_digits_nat_digits parse_nat_def)
  with False assms c show ?thesis
    by (simp add: atoi_def itoa_def)
qed

section \<open>Strings\<close>

definition splitN2 :: "char \<Rightarrow> string \<Rightarrow> string list" where
  "splitN2 c s =
     (if c \<in> set s then [takeWhile (\<lambda>x. x \<noteq> c) s, tl (dropWhile (\<lambda>x. x \<noteq> c) s)] else [s])"

definition hasPrefix :: "string \<Rightarrow> string \<Rightarrow> bool" where
  "hasPrefix s p \<longleftrightarrow> length s \<ge> length p \<and> take (length p) s = p"

lemma hasPrefix_iff: "hasPrefix s p \<longleftrightarrow> (\<exists>r. s = p @ r)"
  unfolding hasPrefix_def by (metis append_eq_conv_conj append_take_drop_id length_append le_add1)

lemma dropWhile_hd_neq:
  "c \<in> set s \<Longrightarrow> dropWhile (\<lambda>x. x \<noteq> c) s = c # tl (dropWhile (\<lambda>x. x \<noteq> c) s)"
  by (induction s) auto

lemma splitN2_join:
  "c \<in> set s \<Longrightarrow> splitN2 c s = [a, b] \<Longrightarrow> s = a @ c # b"
  unfolding splitN2_def
  by (auto) (metis dropWhile_hd_neq takeWhile_dropWhile_id)

lemma splitN2_sep: "c \<notin> set a \<Longrightarrow> splitN2 c (a @ c # b) = [a, b]"
  unfolding splitN2_def by (induction a) auto

text \<open>A separator that occurs in neither suffix splits a string in one way only.\<close>

lemma last_sep_unique:
  assumes "a @ c # x = b @ c # y" and "c \<notin> set x" and "c \<notin> set y"
  shows "a = b \<and> x = y"
  using assms
proof (induction a arbitrary: b)
  case Nil
  then show ?case by (cases b) auto
next
  case (Cons z a)
  then show ?case by (cases b) auto
qed

lemma first_sep_unique:
  assumes "a @ c # x = b @ c # y" and "c \<notin> set a" and "c \<notin> set b"
  shows "a = b \<and> x = y"
  using assms
proof (induction a arbitrary: b)
  case Nil
  then show ?case by (cases b) auto
next
  case (Cons z a)
  then show ?case by (cases b) auto
qed

text \<open>The runes of a string as a \<^verbatim>\<open>range\<close> loop yields them: UTF-8 decoded, each with its bytes; a byte that
  starts no valid sequence is the rune U+FFFD.  \<open>decode_rune c s\<close> is the rune that starts with the byte
  \<open>c\<close> before \<open>s\<close>, and the number of bytes of \<open>s\<close> that belong to it.\<close>

abbreviation RuneError :: nat where
  "RuneError \<equiv> 65533"

definition is_continuation :: "nat \<Rightarrow> bool" where
  "is_continuation b \<longleftrightarrow> 128 \<le> b \<and> b \<le> 191"

definition decode_rune :: "char \<Rightarrow> string \<Rightarrow> nat \<times> nat" where
  "decode_rune c s =
     (let b0 = of_char c; bad = (RuneError, 0) in
      if b0 < 128 then (b0, 0)
      else if 194 \<le> b0 \<and> b0 \<le> 223
      then (case map of_char (take 1 s) of
              [b1] \<Rightarrow> if is_continuation b1 then ((b0 - 192) * 64 + (b1 - 128), 1) else bad
            | _ \<Rightarrow> bad)
      else if 224 \<le> b0 \<and> b0 \<le> 239
      then (case map of_char (take 2 s) of
              [b1, b2] \<Rightarrow>
                if (if b0 = 224 then 160 else 128) \<le> b1 \<and> b1 \<le> (if b0 = 237 then 159 else 191) \<and> is_continuation b2
                then ((b0 - 224) * 4096 + (b1 - 128) * 64 + (b2 - 128), 2) else bad
            | _ \<Rightarrow> bad)
      else if 240 \<le> b0 \<and> b0 \<le> 244
      then (case map of_char (take 3 s) of
              [b1, b2, b3] \<Rightarrow>
                if (if b0 = 240 then 144 else 128) \<le> b1 \<and> b1 \<le> (if b0 = 244 then 143 else 191) \<and>
                  is_continuation b2 \<and> is_continuation b3
                then ((b0 - 240) * 262144 + (b1 - 128) * 4096 + (b2 - 128) * 64 + (b3 - 128), 3) else bad
            | _ \<Rightarrow> bad)
      else bad)"

fun runes :: "string \<Rightarrow> (nat \<times> string) list" where
  "runes [] = []"
| "runes (c # s) =
     (fst (decode_rune c s), c # take (snd (decode_rune c s)) s) # runes (drop (snd (decode_rune c s)) s)"

text \<open>\<^verbatim>\<open>strings.Map\<close> with a function that keeps or drops a rune; an invalid byte becomes U+FFFD.\<close>

definition filter_runes :: "(nat \<Rightarrow> bool) \<Rightarrow> string \<Rightarrow> string" where
  "filter_runes keep s = concat (map (\<lambda>(r, bs).
     if \<not> keep r then [] else if r = RuneError then map char_of [239, 191, 189 :: nat] else bs) (runes s))"

section \<open>Lists\<close>

lemma filter_take_sorted_gt:
  fixes f :: "'a \<Rightarrow> nat"
  assumes "sorted_wrt (<) (map f xs)" and "i < length xs" and "f (xs ! i) = p"
  shows "filter (\<lambda>x. p < f x) xs = drop (Suc i) xs"
  using assms
proof (induction xs arbitrary: i)
  case (Cons x xs)
  show ?case
  proof (cases i)
    case 0
    with Cons.prems have "\<forall>y \<in> set xs. p < f y" by auto
    with 0 Cons.prems show ?thesis by simp
  next
    case (Suc j)
    with Cons.prems have "f x < p" by auto
    with Suc Cons show ?thesis by simp
  qed
qed simp

lemma distinct_set_singleton: "distinct xs \<Longrightarrow> set xs = {x} \<Longrightarrow> xs = [x]"
  by (cases xs; cases "tl xs") auto

lemma filter_all_sorted_gt:
  fixes f :: "'a \<Rightarrow> nat"
  assumes "\<forall>x \<in> set xs. p < f x"
  shows "filter (\<lambda>x. p < f x) xs = xs"
  using assms by simp

end
