(* ===== verification/Adapter_Common.thy ===== *)
theory Adapter_Common
  imports Prelude
begin

text \<open>
  The vocabulary every adapter shares: \<^verbatim>\<open>adapters/common.go\<close> and the data types of
  \<^verbatim>\<open>adapters/adapter.go\<close>.

  Go errors are values of the datatype \<open>error\<close>: the package-level \<^verbatim>\<open>errors.New\<close>
  values are the enumeration \<open>sentinel\<close> (\<^verbatim>\<open>ErrNoEvents\<close>, ...), each error struct
  (\<^verbatim>\<open>*ConcurrencyError\<close>, ...) is a constructor of its own;
  \<open>Errorf\<close> is \<^verbatim>\<open>fmt.Errorf\<close> without a wrapped error, \<open>Wrap\<close> is
  \<^verbatim>\<open>fmt.Errorf("...: %w", err)\<close>, \<open>Joined\<close> is \<^verbatim>\<open>errors.Join\<close> of two errors, \<open>AppError\<close> an error the application's own
  callbacks return and \<open>GoPanic\<close> a panic that leaves the operation.  \<open>errors_Is\<close> is \<^verbatim>\<open>errors.Is\<close>: it follows \<open>Wrap\<close> and applies
  the \<^verbatim>\<open>Is\<close> methods of the error structs.

  A context argument is the value \<^verbatim>\<open>ctx.Err()\<close> has when the operation looks at it
  (\<open>None\<close> for a live context); a clock reading is an \<open>int\<close> of nanoseconds with
  \<open>0\<close> for the zero \<^verbatim>\<open>time.Time\<close>.  64-bit counters that only ever count stored
  events (\<^verbatim>\<open>Version\<close>, \<^verbatim>\<open>GlobalPosition\<close>) are \<open>int\<close> and \<open>nat\<close>; byte
  slices are \<open>char\<close> lists, nil and empty slices being the same value.
\<close>

section \<open>Errors\<close>

type_synonym time = int
type_synonym duration = int
type_synonym bytes = "char list"

datatype (plugins only: code size) sentinel =
    S_ConcurrencyConflict | S_StreamNotFound | S_EmptyStreamID | S_NoEvents
  | S_InvalidVersion | S_AdapterClosed | S_SagaNotFound | S_NilAggregate
  | S_OutboxMessageNotFound | S_NilOutboxStore | S_ContextCanceled | S_ContextDeadlineExceeded
  | S_SagaNotRetryable | S_SagaTypeMismatch | S_SagaTimedOut | S_CommandUnsuccessful
  | S_CommandAlreadyProcessed | S_PublisherNotFound | S_SubscriptionNotSupported | S_FilteredFeedNotSupported
  | S_NotImplemented | S_HandlerNotFound | S_SchemaNotFound | S_UpcastFailed
  | S_SchemaVersionGap | S_IncompatibleSchema | S_HandlerPanicked | S_ValidationFailed
  | S_NilCommand | S_CommandBusClosed | S_OutboxProcessorRunning | S_SerializationFailed
  | S_EventTypeNotRegistered | S_UnregisteredEventType | S_EventTooLarge | S_NilStore
  | S_SagaCompleted | S_SagaFailed | S_SagaCompensating
  | S_AggregateTypeNotRegistered
  | S_Transient | S_NilProjection | S_EmptyProjectionName | S_ProjectionAlreadyRegistered
  | S_ProjectionNotFound | S_NotFound
  | S_EncryptionFailed | S_DecryptionFailed | S_KeyNotFound | S_KeyRevoked
  | S_RevocationUnsupported | S_ProviderClosed | S_InvalidEncryptedFieldPath
  | S_KeyResolutionFailed | S_RewriteNotSupported | S_BinarySerializerUnsupported
  | S_ProjectionEngineAlreadyRunning | S_NoCheckpointStore | S_ProjectionFailed
  | S_ErasureFailed | S_ErasureSubjectRequired | S_NoErasureSources | S_ErasureNotConfigured
  | S_ErasureScanNotSupported | S_SharedKeyRevocation | S_ResidualCountUnsupported
  | S_RetentionMaxScanNeedsCheckpoint | S_RetentionUnscopedPolicy | S_RetentionSharedKey
  | S_RetentionUnencryptedMatches
  | S_ExportFailed | S_SubjectIDRequired | S_ExportScanNotSupported | S_ExportPartialFootprint
  | S_NoExportSources | S_NilAuditEntry | S_NilAuditStore | S_AlreadyExists | S_InvalidQuery
  | S_UnknownFilterField | S_AnonymizerSecretRequired

text \<open>The compatibility levels of \<^verbatim>\<open>schema_registry.go\<close>, carried by one of the errors; any other integer of
  the Go type is \<open>SchemaUnknown\<close>.\<close>

datatype schema_compatibility =
  SchemaFullyCompatible | SchemaBackwardCompatible | SchemaForwardCompatible | SchemaBreaking | SchemaUnknown int

datatype (plugins only: code size) error =
    Sentinel sentinel
  | ConcurrencyError string int int
  | StreamNotFoundError string
  | SagaNotFoundError string string
  | SagaNotRetryableError string string string
  | SagaTypeMismatchError string string string string
  | SchemaVersionGapError string int int
  | UpcastError string int int error
  | IncompatibleSchemaError string int int schema_compatibility string
  | IdempotencyReplayError string string
  | HandlerNotFoundError string
  | PanicError string string
  | ValidationError string string string
  | SerializationError string string error
  | UnregisteredEventTypeError string string int
  | EncryptionError string string string error
  | KeyNotFoundError string
  | KeyRevokedError string
  | KeyResolutionError string string string
  | ProjectionError string string nat error
  | ErasureError string error
  | SharedKeyError string "string list" "string list" nat
  | RetentionSharedKeyError string nat
  | ExportError string error
  | UnknownFilterFieldError string
  | Joined error error
  | AppError string
  | GoPanic string
  | Errorf string
  | Wrap string error

abbreviation ErrConcurrencyConflict :: error where "ErrConcurrencyConflict \<equiv> Sentinel S_ConcurrencyConflict"
abbreviation ErrStreamNotFound :: error where "ErrStreamNotFound \<equiv> Sentinel S_StreamNotFound"
abbreviation ErrEmptyStreamID :: error where "ErrEmptyStreamID \<equiv> Sentinel S_EmptyStreamID"
abbreviation ErrNoEvents :: error where "ErrNoEvents \<equiv> Sentinel S_NoEvents"
abbreviation ErrInvalidVersion :: error where "ErrInvalidVersion \<equiv> Sentinel S_InvalidVersion"
abbreviation ErrAdapterClosed :: error where "ErrAdapterClosed \<equiv> Sentinel S_AdapterClosed"
abbreviation ErrSagaNotFound :: error where "ErrSagaNotFound \<equiv> Sentinel S_SagaNotFound"
abbreviation ErrNilAggregate :: error where "ErrNilAggregate \<equiv> Sentinel S_NilAggregate"
abbreviation ErrOutboxMessageNotFound :: error where "ErrOutboxMessageNotFound \<equiv> Sentinel S_OutboxMessageNotFound"
abbreviation ErrNilOutboxStore :: error where "ErrNilOutboxStore \<equiv> Sentinel S_NilOutboxStore"
abbreviation ErrContextCanceled :: error where "ErrContextCanceled \<equiv> Sentinel S_ContextCanceled"
abbreviation ErrContextDeadlineExceeded :: error where "ErrContextDeadlineExceeded \<equiv> Sentinel S_ContextDeadlineExceeded"
abbreviation ErrSagaNotRetryable :: error where "ErrSagaNotRetryable \<equiv> Sentinel S_SagaNotRetryable"
abbreviation ErrSagaTypeMismatch :: error where "ErrSagaTypeMismatch \<equiv> Sentinel S_SagaTypeMismatch"
abbreviation ErrSagaTimedOut :: error where "ErrSagaTimedOut \<equiv> Sentinel S_SagaTimedOut"
abbreviation ErrCommandUnsuccessful :: error where "ErrCommandUnsuccessful \<equiv> Sentinel S_CommandUnsuccessful"
abbreviation ErrCommandAlreadyProcessed :: error where "ErrCommandAlreadyProcessed \<equiv> Sentinel S_CommandAlreadyProcessed"
abbreviation ErrPublisherNotFound :: error where "ErrPublisherNotFound \<equiv> Sentinel S_PublisherNotFound"
abbreviation ErrSubscriptionNotSupported :: error where "ErrSubscriptionNotSupported \<equiv> Sentinel S_SubscriptionNotSupported"
abbreviation ErrFilteredFeedNotSupported :: error where "ErrFilteredFeedNotSupported \<equiv> Sentinel S_FilteredFeedNotSupported"
abbreviation ErrNotImplemented :: error where "ErrNotImplemented \<equiv> Sentinel S_NotImplemented"
abbreviation ErrHandlerNotFound :: error where "ErrHandlerNotFound \<equiv> Sentinel S_HandlerNotFound"
abbreviation ErrSchemaNotFound :: error where "ErrSchemaNotFound \<equiv> Sentinel S_SchemaNotFound"
abbreviation ErrUpcastFailed :: error where "ErrUpcastFailed \<equiv> Sentinel S_UpcastFailed"
abbreviation ErrSchemaVersionGap :: error where "ErrSchemaVersionGap \<equiv> Sentinel S_SchemaVersionGap"
abbreviation ErrIncompatibleSchema :: error where "ErrIncompatibleSchema \<equiv> Sentinel S_IncompatibleSchema"
abbreviation ErrHandlerPanicked :: error where "ErrHandlerPanicked \<equiv> Sentinel S_HandlerPanicked"
abbreviation ErrValidationFailed :: error where "ErrValidationFailed \<equiv> Sentinel S_ValidationFailed"
abbreviation ErrNilCommand :: error where "ErrNilCommand \<equiv> Sentinel S_NilCommand"
abbreviation ErrCommandBusClosed :: error where "ErrCommandBusClosed \<equiv> Sentinel S_CommandBusClosed"
abbreviation ErrOutboxProcessorRunning :: error where "ErrOutboxProcessorRunning \<equiv> Sentinel S_OutboxProcessorRunning"
abbreviation ErrSerializationFailed :: error where "ErrSerializationFailed \<equiv> Sentinel S_SerializationFailed"
abbreviation ErrEventTypeNotRegistered :: error where "ErrEventTypeNotRegistered \<equiv> Sentinel S_EventTypeNotRegistered"
abbreviation ErrUnregisteredEventType :: error where "ErrUnregisteredEventType \<equiv> Sentinel S_UnregisteredEventType"
abbreviation ErrEventTooLarge :: error where "ErrEventTooLarge \<equiv> Sentinel S_EventTooLarge"
abbreviation ErrNilStore :: error where "ErrNilStore \<equiv> Sentinel S_NilStore"
abbreviation ErrSagaCompleted :: error where "ErrSagaCompleted \<equiv> Sentinel S_SagaCompleted"
abbreviation ErrSagaFailed :: error where "ErrSagaFailed \<equiv> Sentinel S_SagaFailed"
abbreviation ErrAggregateTypeNotRegistered :: error where
  "ErrAggregateTypeNotRegistered \<equiv> Sentinel S_AggregateTypeNotRegistered"
abbreviation ErrTransient :: error where "ErrTransient \<equiv> Sentinel S_Transient"
abbreviation ErrNilProjection :: error where "ErrNilProjection \<equiv> Sentinel S_NilProjection"
abbreviation ErrEmptyProjectionName :: error where "ErrEmptyProjectionName \<equiv> Sentinel S_EmptyProjectionName"
abbreviation ErrProjectionAlreadyRegistered :: error where "ErrProjectionAlreadyRegistered \<equiv> Sentinel S_ProjectionAlreadyRegistered"
abbreviation ErrProjectionNotFound :: error where "ErrProjectionNotFound \<equiv> Sentinel S_ProjectionNotFound"
abbreviation ErrNotFound :: error where "ErrNotFound \<equiv> Sentinel S_NotFound"
abbreviation ErrSagaCompensating :: error where "ErrSagaCompensating \<equiv> Sentinel S_SagaCompensating"
abbreviation ErrEncryptionFailed :: error where "ErrEncryptionFailed \<equiv> Sentinel S_EncryptionFailed"
abbreviation ErrDecryptionFailed :: error where "ErrDecryptionFailed \<equiv> Sentinel S_DecryptionFailed"
abbreviation ErrKeyNotFound :: error where "ErrKeyNotFound \<equiv> Sentinel S_KeyNotFound"
abbreviation ErrKeyRevoked :: error where "ErrKeyRevoked \<equiv> Sentinel S_KeyRevoked"
abbreviation ErrRevocationUnsupported :: error where "ErrRevocationUnsupported \<equiv> Sentinel S_RevocationUnsupported"
abbreviation ErrProviderClosed :: error where "ErrProviderClosed \<equiv> Sentinel S_ProviderClosed"
abbreviation ErrInvalidEncryptedFieldPath :: error where "ErrInvalidEncryptedFieldPath \<equiv> Sentinel S_InvalidEncryptedFieldPath"
abbreviation ErrKeyResolutionFailed :: error where "ErrKeyResolutionFailed \<equiv> Sentinel S_KeyResolutionFailed"
abbreviation ErrRewriteNotSupported :: error where "ErrRewriteNotSupported \<equiv> Sentinel S_RewriteNotSupported"
abbreviation ErrBinarySerializerUnsupported :: error where "ErrBinarySerializerUnsupported \<equiv> Sentinel S_BinarySerializerUnsupported"
abbreviation ErrProjectionEngineAlreadyRunning :: error where "ErrProjectionEngineAlreadyRunning \<equiv> Sentinel S_ProjectionEngineAlreadyRunning"
abbreviation ErrNoCheckpointStore :: error where "ErrNoCheckpointStore \<equiv> Sentinel S_NoCheckpointStore"
abbreviation ErrProjectionFailed :: error where "ErrProjectionFailed \<equiv> Sentinel S_ProjectionFailed"
abbreviation ErrErasureFailed :: error where "ErrErasureFailed \<equiv> Sentinel S_ErasureFailed"
abbreviation ErrErasureSubjectRequired :: error where "ErrErasureSubjectRequired \<equiv> Sentinel S_ErasureSubjectRequired"
abbreviation ErrNoErasureSources :: error where "ErrNoErasureSources \<equiv> Sentinel S_NoErasureSources"
abbreviation ErrErasureNotConfigured :: error where "ErrErasureNotConfigured \<equiv> Sentinel S_ErasureNotConfigured"
abbreviation ErrErasureScanNotSupported :: error where "ErrErasureScanNotSupported \<equiv> Sentinel S_ErasureScanNotSupported"
abbreviation ErrSharedKeyRevocation :: error where "ErrSharedKeyRevocation \<equiv> Sentinel S_SharedKeyRevocation"
abbreviation ErrResidualCountUnsupported :: error where "ErrResidualCountUnsupported \<equiv> Sentinel S_ResidualCountUnsupported"
abbreviation ErrRetentionMaxScanNeedsCheckpoint :: error where "ErrRetentionMaxScanNeedsCheckpoint \<equiv> Sentinel S_RetentionMaxScanNeedsCheckpoint"
abbreviation ErrRetentionUnscopedPolicy :: error where "ErrRetentionUnscopedPolicy \<equiv> Sentinel S_RetentionUnscopedPolicy"
abbreviation ErrRetentionSharedKey :: error where "ErrRetentionSharedKey \<equiv> Sentinel S_RetentionSharedKey"
abbreviation ErrRetentionUnencryptedMatches :: error where "ErrRetentionUnencryptedMatches \<equiv> Sentinel S_RetentionUnencryptedMatches"
abbreviation ErrExportFailed :: error where "ErrExportFailed \<equiv> Sentinel S_ExportFailed"
abbreviation ErrSubjectIDRequired :: error where "ErrSubjectIDRequired \<equiv> Sentinel S_SubjectIDRequired"
abbreviation ErrExportScanNotSupported :: error where "ErrExportScanNotSupported \<equiv> Sentinel S_ExportScanNotSupported"
abbreviation ErrExportPartialFootprint :: error where "ErrExportPartialFootprint \<equiv> Sentinel S_ExportPartialFootprint"
abbreviation ErrNoExportSources :: error where "ErrNoExportSources \<equiv> Sentinel S_NoExportSources"
abbreviation ErrNilAuditEntry :: error where "ErrNilAuditEntry \<equiv> Sentinel S_NilAuditEntry"
abbreviation ErrNilAuditStore :: error where "ErrNilAuditStore \<equiv> Sentinel S_NilAuditStore"
abbreviation ErrAlreadyExists :: error where "ErrAlreadyExists \<equiv> Sentinel S_AlreadyExists"
abbreviation ErrInvalidQuery :: error where "ErrInvalidQuery \<equiv> Sentinel S_InvalidQuery"
abbreviation ErrUnknownFilterField :: error where "ErrUnknownFilterField \<equiv> Sentinel S_UnknownFilterField"
abbreviation ErrAnonymizerSecretRequired :: error where "ErrAnonymizerSecretRequired \<equiv> Sentinel S_AnonymizerSecretRequired"

text \<open>\<^verbatim>\<open>errors.Is\<close>: identity of the value, the \<^verbatim>\<open>Is\<close> method of the struct, and the
  chain of \<^verbatim>\<open>Unwrap\<close>.\<close>

fun errors_Is :: "error \<Rightarrow> error \<Rightarrow> bool" where
  "errors_Is (ConcurrencyError s e a) t \<longleftrightarrow> t = ConcurrencyError s e a \<or> t = ErrConcurrencyConflict"
| "errors_Is (StreamNotFoundError s) t \<longleftrightarrow> t = StreamNotFoundError s \<or> t = ErrStreamNotFound"
| "errors_Is (SagaNotFoundError s c) t \<longleftrightarrow> t = SagaNotFoundError s c \<or> t = ErrSagaNotFound"
| "errors_Is (SagaNotRetryableError s st r) t \<longleftrightarrow> t = SagaNotRetryableError s st r \<or> t = ErrSagaNotRetryable"
| "errors_Is (SagaTypeMismatchError c s e a) t \<longleftrightarrow>
     t = SagaTypeMismatchError c s e a \<or> t = ErrSagaTypeMismatch"
| "errors_Is (IdempotencyReplayError k m) t \<longleftrightarrow>
     t = IdempotencyReplayError k m \<or> t = ErrCommandAlreadyProcessed"
| "errors_Is (UpcastError ty f u e) t \<longleftrightarrow>
     t = UpcastError ty f u e \<or> t = ErrUpcastFailed \<or> errors_Is e t"
| "errors_Is (SchemaVersionGapError ty m e) t \<longleftrightarrow>
     t = SchemaVersionGapError ty m e \<or> t = ErrSchemaVersionGap"
| "errors_Is (IncompatibleSchemaError ty v w c r) t \<longleftrightarrow>
     t = IncompatibleSchemaError ty v w c r \<or> t = ErrIncompatibleSchema"
| "errors_Is (HandlerNotFoundError c) t \<longleftrightarrow> t = HandlerNotFoundError c \<or> t = ErrHandlerNotFound"
| "errors_Is (ValidationError c f m) t \<longleftrightarrow> t = ValidationError c f m \<or> t = ErrValidationFailed"
| "errors_Is (PanicError c s) t \<longleftrightarrow> t = PanicError c s \<or> t = ErrHandlerPanicked"
| "errors_Is (SerializationError ty op e) t \<longleftrightarrow>
     t = SerializationError ty op e \<or> t = ErrSerializationFailed \<or> errors_Is e t"
| "errors_Is (UnregisteredEventTypeError s ty v) t \<longleftrightarrow>
     t = UnregisteredEventTypeError s ty v \<or> t = ErrUnregisteredEventType"
| "errors_Is (EncryptionError op k f e) t \<longleftrightarrow>
     t = EncryptionError op k f e \<or>
     t = (if op = ''encrypt'' then ErrEncryptionFailed else ErrDecryptionFailed) \<or> errors_Is e t"
| "errors_Is (KeyNotFoundError k) t \<longleftrightarrow> t = KeyNotFoundError k \<or> t = ErrKeyNotFound"
| "errors_Is (KeyRevokedError k) t \<longleftrightarrow> t = KeyRevokedError k \<or> t = ErrKeyRevoked"
| "errors_Is (KeyResolutionError ty n s) t \<longleftrightarrow>
     t = KeyResolutionError ty n s \<or> t = ErrKeyResolutionFailed"
| "errors_Is (ProjectionError p ty n e) t \<longleftrightarrow>
     t = ProjectionError p ty n e \<or> t = ErrProjectionFailed \<or> errors_Is e t"
| "errors_Is (ErasureError s e) t \<longleftrightarrow> t = ErasureError s e \<or> t = ErrErasureFailed \<or> errors_Is e t"
| "errors_Is (SharedKeyError s ks os n) t \<longleftrightarrow> t = SharedKeyError s ks os n \<or> t = ErrSharedKeyRevocation"
| "errors_Is (RetentionSharedKeyError k n) t \<longleftrightarrow> t = RetentionSharedKeyError k n \<or> t = ErrRetentionSharedKey"
| "errors_Is (ExportError s e) t \<longleftrightarrow> t = ExportError s e \<or> t = ErrExportFailed \<or> errors_Is e t"
| "errors_Is (UnknownFilterFieldError f) t \<longleftrightarrow>
     t = UnknownFilterFieldError f \<or> t = ErrUnknownFilterField \<or> t = ErrInvalidQuery"
| "errors_Is (Joined e f) t \<longleftrightarrow> t = Joined e f \<or> errors_Is e t \<or> errors_Is f t"
| "errors_Is (Wrap s e) t \<longleftrightarrow> t = Wrap s e \<or> errors_Is e t"
| "errors_Is (Sentinel s) t \<longleftrightarrow> t = Sentinel s"
| "errors_Is (AppError s) t \<longleftrightarrow> t = AppError s"
| "errors_Is (GoPanic s) t \<longleftrightarrow> t = GoPanic s"
| "errors_Is (Errorf s) t \<longleftrightarrow> t = Errorf s"

type_synonym ctx = "error option"

section \<open>Version constants and the optimistic concurrency check\<close>

definition AnyVersion :: int where "AnyVersion = -1"
definition NoStream :: int where "NoStream = 0"
definition StreamExists :: int where "StreamExists = -2"

lemmas version_defs [simp] = AnyVersion_def NoStream_def StreamExists_def

text \<open>\<^verbatim>\<open>ExtractCategory\<close>: the part of the stream id before its first hyphen.\<close>

definition ExtractCategory :: "string \<Rightarrow> string" where
  "ExtractCategory streamID =
     (if streamID = [] then [] else hd (splitN2 CHR ''-'' streamID))"

text \<open>\<^verbatim>\<open>CheckVersion\<close>; \<open>None\<close> is the nil error.\<close>

definition CheckVersion :: "string \<Rightarrow> int \<Rightarrow> int \<Rightarrow> bool \<Rightarrow> error option" where
  "CheckVersion streamID expected current exists =
     (if expected = AnyVersion then None
      else if expected = NoStream then
        (if exists then Some (ConcurrencyError streamID expected current) else None)
      else if expected = StreamExists then
        (if \<not> exists then Some (StreamNotFoundError streamID) else None)
      else if expected < 0 then Some ErrInvalidVersion
      else if current \<noteq> expected then Some (ConcurrencyError streamID expected current)
      else None)"

definition DefaultLimit :: "int \<Rightarrow> int \<Rightarrow> int" where
  "DefaultLimit limit defaultValue = (if limit \<le> 0 then defaultValue else limit)"

text \<open>\<^verbatim>\<open>unicode.IsControl\<close> holds of the C0 and C1 control characters and DEL.\<close>

definition IsControl :: "nat \<Rightarrow> bool" where
  "IsControl r \<longleftrightarrow> r < 32 \<or> 127 \<le> r \<and> r < 160"

definition SanitizeSQLComment :: "string \<Rightarrow> string" where
  "SanitizeSQLComment s =
     concat (map (\<lambda>c. if c = char_of (39 :: nat) then [c, c] else [c])
       (filter_runes (\<lambda>r. \<not> (IsControl r \<or> r = 8232 \<or> r = 8233)) s))"

section \<open>Events, streams and the feed filter\<close>

record metadata =
  md_CorrelationID :: string
  md_CausationID :: string
  md_UserID :: string
  md_TenantID :: string
  md_Custom :: "(string, string) gomap option"

record stored_event =
  se_ID :: string
  se_StreamID :: string
  se_Type :: string
  se_Data :: bytes
  se_Metadata :: metadata
  se_Version :: int
  se_GlobalPosition :: nat
  se_Timestamp :: time

record stream_info =
  si_StreamID :: string
  si_Category :: string
  si_Version :: int
  si_EventCount :: int
  si_CreatedAt :: time
  si_UpdatedAt :: time

record event_record =
  er_Type :: string
  er_Data :: bytes
  er_Metadata :: metadata

record snapshot_record =
  sn_StreamID :: string
  sn_Version :: int
  sn_Data :: bytes

definition empty_metadata :: metadata where
  "empty_metadata = \<lparr>md_CorrelationID = [], md_CausationID = [], md_UserID = [],
     md_TenantID = [], md_Custom = None\<rparr>"

record feed_filter =
  ff_EventTypes :: "string list"
  ff_StreamIDs :: "string list"
  ff_Category :: string

definition CategoryStreamPrefix :: "string \<Rightarrow> string" where
  "CategoryStreamPrefix category = category @ ''-''"

definition FeedFilter_IsEmpty :: "feed_filter \<Rightarrow> bool" where
  "FeedFilter_IsEmpty f \<longleftrightarrow>
     length (ff_EventTypes f) = 0 \<and> length (ff_StreamIDs f) = 0 \<and> ff_Category f = []"

definition FeedFilter_Matches :: "feed_filter \<Rightarrow> stored_event \<Rightarrow> bool" where
  "FeedFilter_Matches f ev =
     (if length (ff_EventTypes f) > 0 \<and> se_Type ev \<notin> set (ff_EventTypes f) then False
      else if length (ff_StreamIDs f) > 0 \<and> se_StreamID ev \<notin> set (ff_StreamIDs f) then False
      else if ff_Category f \<noteq> [] \<and>
              \<not> hasPrefix (se_StreamID ev) (CategoryStreamPrefix (ff_Category f)) then False
      else True)"

definition empty_filter :: feed_filter where
  "empty_filter = \<lparr>ff_EventTypes = [], ff_StreamIDs = [], ff_Category = []\<rparr>"

section \<open>Lemmas\<close>

lemma CheckVersion_None_iff:
  "CheckVersion sid expected current exists = None \<longleftrightarrow>
     expected = -1 \<or> (expected = 0 \<and> \<not> exists) \<or> (expected = -2 \<and> exists) \<or>
     (expected > 0 \<and> current = expected)"
  by (auto simp: CheckVersion_def)

lemma CheckVersion_error_cases:
  "CheckVersion sid expected current exists = Some e \<Longrightarrow>
     (e = ErrInvalidVersion \<and> expected < -2) \<or>
     (e = StreamNotFoundError sid \<and> expected = -2 \<and> \<not> exists) \<or>
     (e = ConcurrencyError sid expected current \<and> expected \<ge> 0 \<and>
        (expected = 0 \<and> exists \<or> expected > 0 \<and> current \<noteq> expected))"
  by (auto simp: CheckVersion_def split: if_splits)

lemma FeedFilter_empty_matches: "FeedFilter_IsEmpty f \<Longrightarrow> FeedFilter_Matches f ev"
  by (simp add: FeedFilter_IsEmpty_def FeedFilter_Matches_def)

lemma empty_filter_matches [simp]: "FeedFilter_Matches empty_filter ev"
  by (simp add: FeedFilter_empty_matches FeedFilter_IsEmpty_def empty_filter_def)

lemma ExtractCategory_prefix: "CHR ''-'' \<notin> set c \<Longrightarrow> ExtractCategory (c @ ''-'' @ r) = c"
  by (simp add: ExtractCategory_def splitN2_sep)

lemma category_filter_iff_ExtractCategory:
  assumes "CHR ''-'' \<notin> set c" and "c \<noteq> []"
  shows "FeedFilter_Matches (empty_filter\<lparr>ff_Category := c\<rparr>) ev \<longleftrightarrow>
           CHR ''-'' \<in> set (se_StreamID ev) \<and> ExtractCategory (se_StreamID ev) = c"
proof
  assume "FeedFilter_Matches (empty_filter\<lparr>ff_Category := c\<rparr>) ev"
  then obtain r where "se_StreamID ev = c @ ''-'' @ r"
    using assms
    by (auto simp: FeedFilter_Matches_def empty_filter_def CategoryStreamPrefix_def
        hasPrefix_iff split: if_splits)
  with assms show "CHR ''-'' \<in> set (se_StreamID ev) \<and> ExtractCategory (se_StreamID ev) = c"
    by (simp add: ExtractCategory_prefix [simplified])
next
  assume h: "CHR ''-'' \<in> set (se_StreamID ev) \<and> ExtractCategory (se_StreamID ev) = c"
  then have ne: "se_StreamID ev \<noteq> []" by auto
  obtain a b where ab: "splitN2 CHR ''-'' (se_StreamID ev) = [a, b]"
    using h by (auto simp: splitN2_def)
  then have "se_StreamID ev = a @ CHR ''-'' # b"
    using h splitN2_join by blast
  moreover have "a = c"
    using h ne ab by (simp add: ExtractCategory_def)
  ultimately show "FeedFilter_Matches (empty_filter\<lparr>ff_Category := c\<rparr>) ev"
    by (simp add: FeedFilter_Matches_def empty_filter_def CategoryStreamPrefix_def hasPrefix_iff)
qed

end
