(* ===== verification/Footprint.thy ===== *)
theory Footprint
  imports Adapter_Common
begin

text \<open>
  The GDPR footprint contract of \<^verbatim>\<open>adapters/adapter.go\<close>
  (\<^verbatim>\<open>Subject...FootprintPurger\<close> and \<^verbatim>\<open>Subject...Counter\<close>): a store that can delete
  and count the records owned by a list of ids.  Three in-memory stores implement it (the
  outbox, the saga store and the idempotency store); the eraser and the erasure verifier
  are its clients.  The interface is the locale \<open>footprint_store\<close>, and what a client
  may rely on is proved once, inside it.
\<close>

text \<open>\<^verbatim>\<open>idSet\<close> drops the empty strings; \<open>None\<close> is the nil set.\<close>

definition idSet :: "string list \<Rightarrow> string list option" where
  "idSet ids = (let set = filter (\<lambda>i. i \<noteq> []) ids in if set = [] then None else Some set)"

lemma idSet_None_iff: "idSet ids = None \<longleftrightarrow> set ids \<subseteq> {[]}"
  by (auto simp: idSet_def Let_def filter_empty_conv)

lemma idSet_Some: "idSet ids = Some st \<Longrightarrow> set st = set ids - {[]}"
  by (auto simp: idSet_def Let_def split: if_splits)

text \<open>The nil-set short cut of the three stores is no special case.\<close>

lemma delete_ids_cases:
  "idSet ids = None \<Longrightarrow> gm_delete_where (\<lambda>r. f r \<in> set ids - {[]}) m = m"
  "idSet ids = Some st \<Longrightarrow>
     gm_delete_where (\<lambda>r. f r \<in> set st) m = gm_delete_where (\<lambda>r. f r \<in> set ids - {[]}) m"
  by (auto simp: gm_delete_where_def filter_id_conv idSet_None_iff dest: idSet_Some)

lemma count_ids_cases:
  "idSet ids = None \<Longrightarrow> gm_count (\<lambda>r. f r \<in> set ids - {[]}) m = 0"
  "idSet ids = Some st \<Longrightarrow>
     gm_count (\<lambda>r. f r \<in> set st) m = gm_count (\<lambda>r. f r \<in> set ids - {[]}) m"
  by (auto simp: gm_count_def filter_empty_conv idSet_None_iff dest: idSet_Some)

lemmas footprint_ids = delete_ids_cases count_ids_cases

locale footprint_store =
  fixes recs :: "'s \<Rightarrow> (string, 'r) gomap"
    and owner :: "'r \<Rightarrow> string"
    and del :: "ctx \<Rightarrow> 's \<Rightarrow> string list \<Rightarrow> 's \<times> (error + nat)"
    and cnt :: "ctx \<Rightarrow> 's \<Rightarrow> string list \<Rightarrow> error + nat"
  assumes del_recs: "recs (fst (del None s ids)) =
      gm_delete_where (\<lambda>r. owner r \<in> set ids - {[]}) (recs s)"
    and del_count: "snd (del None s ids) = Inr (gm_count (\<lambda>r. owner r \<in> set ids - {[]}) (recs s))"
    and cnt_count: "cnt None s ids = Inr (gm_count (\<lambda>r. owner r \<in> set ids - {[]}) (recs s))"
    and del_cancelled: "fst (del (Some e) s ids) = s"
begin

text \<open>An erasure verifies itself: right after a purge the counter reports zero.\<close>

lemma purge_then_count_zero: "cnt None (fst (del None s ids)) ids = Inr 0"
  by (simp add: cnt_count del_recs gm_simps)

text \<open>The purge reports exactly what the counter announced.\<close>

lemma purge_reports_count: "snd (del None s ids) = cnt None s ids"
  by (simp add: del_count cnt_count)

text \<open>Records of other owners survive, records of the subject do not.\<close>

lemma purge_lookup:
  "gm_wf (recs s) \<Longrightarrow>
   map_of (recs (fst (del None s ids))) k =
     (case map_of (recs s) k of
        None \<Rightarrow> None
      | Some r \<Rightarrow> if owner r \<in> set ids - {[]} then None else Some r)"
  by (simp add: del_recs gm_simps split: option.splits)

lemma purge_keeps_others:
  assumes "gm_wf (recs s)" "map_of (recs s) k = Some r" "owner r \<notin> set ids"
  shows "map_of (recs (fst (del None s ids))) k = Some r"
  using assms purge_lookup by simp

text \<open>A purge is idempotent: repeating it removes nothing more.\<close>

lemma purge_idempotent: "snd (del None (fst (del None s ids)) ids) = Inr 0"
  by (simp add: purge_reports_count purge_then_count_zero)

lemma purge_empty_ids: "set ids \<subseteq> {[]} \<Longrightarrow> snd (del None s ids) = Inr 0"
  by (auto simp: del_count gm_count_def filter_empty_conv)

end

end
