(* ===== verification/Saga_Store.thy ===== *)
theory Saga_Store
  imports Footprint
begin

text \<open>
  The persisted saga state (\<^verbatim>\<open>adapters/adapter.go\<close>) and the in-memory saga store
  (\<^verbatim>\<open>adapters/memory/saga_store.go\<close> and the saga part of
  \<^verbatim>\<open>adapters/memory/subject_footprint.go\<close>).

  The application data of a saga is a \<^verbatim>\<open>map[string]interface{}\<close>, a value of the
  datatype \<open>gvalue\<close>; the deep copies the store makes are shown to be faithful.
\<close>

section \<open>Data\<close>

datatype saga_status =
    SagaStatusStarted | SagaStatusRunning | SagaStatusCompleted | SagaStatusFailed
  | SagaStatusCompensating | SagaStatusCompensated | SagaStatusCompensationFailed

fun SagaStatus_String :: "saga_status \<Rightarrow> string" where
  "SagaStatus_String SagaStatusStarted = ''started''"
| "SagaStatus_String SagaStatusRunning = ''running''"
| "SagaStatus_String SagaStatusCompleted = ''completed''"
| "SagaStatus_String SagaStatusFailed = ''failed''"
| "SagaStatus_String SagaStatusCompensating = ''compensating''"
| "SagaStatus_String SagaStatusCompensated = ''compensated''"
| "SagaStatus_String SagaStatusCompensationFailed = ''compensation_failed''"

definition SagaStatus_IsTerminal :: "saga_status \<Rightarrow> bool" where
  "SagaStatus_IsTerminal s \<longleftrightarrow>
     s = SagaStatusCompleted \<or> s = SagaStatusFailed \<or> s = SagaStatusCompensated \<or>
     s = SagaStatusCompensationFailed"

definition SagaStatus_IsRetryable :: "saga_status \<Rightarrow> bool" where
  "SagaStatus_IsRetryable s \<longleftrightarrow>
     s = SagaStatusFailed \<or> s = SagaStatusCompensated \<or> s = SagaStatusCompensationFailed"

datatype saga_step_status =
  SagaStepPending | SagaStepRunning | SagaStepCompleted | SagaStepFailed | SagaStepCompensated

record saga_step =
  ss_Name :: string
  ss_Index :: int
  ss_Status :: saga_step_status
  ss_Command :: string
  ss_CompletedAt :: "time option"
  ss_Error :: string

datatype gvalue =
    GNil | GString string | GNumber int | GBool bool
  | GStoredEvent stored_event
  | GMap "(string \<times> gvalue) list" | GSlice "gvalue list"

type_synonym gdata = "(string, gvalue) gomap"

record saga_state =
  sg_ID :: string
  sg_Type :: string
  sg_CorrelationID :: string
  sg_Status :: saga_status
  sg_CurrentStep :: int
  sg_Data :: "gdata option"
  sg_ProcessedEvents :: "string list"
  sg_Steps :: "saga_step list"
  sg_StartedAt :: time
  sg_UpdatedAt :: time
  sg_CompletedAt :: "time option"
  sg_FailureReason :: string
  sg_Version :: int

definition SagaState_IsTerminal :: "saga_state \<Rightarrow> bool" where
  "SagaState_IsTerminal s \<longleftrightarrow>
     sg_Status s = SagaStatusCompleted \<or> sg_Status s = SagaStatusFailed \<or>
     sg_Status s = SagaStatusCompensated \<or> sg_Status s = SagaStatusCompensationFailed"

definition SagaState_IsRetryable :: "saga_state \<Rightarrow> bool" where
  "SagaState_IsRetryable s \<longleftrightarrow> SagaStatus_IsRetryable (sg_Status s)"

record saga_store =
  st_sagas :: "(string, saga_state) gomap"

definition NewSagaStore :: saga_store where "NewSagaStore = \<lparr>st_sagas = []\<rparr>"

section \<open>Deep copies\<close>

fun deepCopyValue :: "gvalue \<Rightarrow> gvalue" where
  "deepCopyValue (GMap m) = GMap (map (\<lambda>(k, v). (k, deepCopyValue v)) m)"
| "deepCopyValue (GSlice vs) = GSlice (map deepCopyValue vs)"
| "deepCopyValue v = v"

definition deepCopyMap :: "gdata \<Rightarrow> gdata" where
  "deepCopyMap m = map (\<lambda>(k, v). (k, deepCopyValue v)) m"

lemma deepCopyValue_id [simp]: "deepCopyValue v = v"
  by (induction v) (auto intro!: map_idI)

lemma deepCopyMap_id [simp]: "deepCopyMap m = m"
  by (auto simp: deepCopyMap_def intro!: map_idI)

lemma map_deepCopyMap_id [simp]: "map_option deepCopyMap d = d"
  by (cases d) simp_all

definition copyState :: "saga_state \<Rightarrow> saga_state" where
  "copyState state =
     \<lparr>sg_ID = sg_ID state, sg_Type = sg_Type state, sg_CorrelationID = sg_CorrelationID state,
      sg_Status = sg_Status state, sg_CurrentStep = sg_CurrentStep state,
      sg_Data = map_option deepCopyMap (sg_Data state),
      sg_ProcessedEvents = map (\<lambda>x. x) (sg_ProcessedEvents state),
      sg_Steps = map (\<lambda>x. x) (sg_Steps state), sg_StartedAt = sg_StartedAt state,
      sg_UpdatedAt = sg_UpdatedAt state, sg_CompletedAt = sg_CompletedAt state,
      sg_FailureReason = sg_FailureReason state, sg_Version = sg_Version state\<rparr>"

lemma copyState_id [simp]: "copyState s = s"
  by (simp add: copyState_def)

section \<open>Operations\<close>

text \<open>\<^verbatim>\<open>Save\<close> updates the version of the caller's state, so the state is part of the
  result; \<open>None\<close> for the state is the nil pointer.\<close>

definition Saga_Save ::
  "ctx \<Rightarrow> time \<Rightarrow> saga_store \<Rightarrow> saga_state option \<Rightarrow> saga_store \<times> saga_state option \<times> error option" where
  "Saga_Save ctx now s state =
     (case state of
        None \<Rightarrow> (s, None, Some ErrNilAggregate)
      | Some st \<Rightarrow>
          if sg_ID st = [] then (s, Some st, Some ErrEmptyStreamID)
          else (case ctx of
            Some e \<Rightarrow> (s, Some st, Some e)
          | None \<Rightarrow>
              let existing = map_of (st_sagas s) (sg_ID st);
                  conflict =
                    (case existing of
                       Some ex \<Rightarrow>
                         if sg_Version st \<noteq> sg_Version ex
                         then Some (ConcurrencyError (sg_ID st) (sg_Version st) (sg_Version ex)) else None
                     | None \<Rightarrow>
                         if sg_Version st > 0 then Some (SagaNotFoundError (sg_ID st) []) else None)
              in (case conflict of
                    Some e \<Rightarrow> (s, Some st, Some e)
                  | None \<Rightarrow>
                      let saved = (copyState st)\<lparr>sg_UpdatedAt := now, sg_Version := sg_Version st + 1\<rparr>
                      in (s\<lparr>st_sagas := AList.update (sg_ID st) saved (st_sagas s)\<rparr>,
                          Some (st\<lparr>sg_Version := sg_Version saved\<rparr>), None))))"

definition Saga_Load :: "ctx \<Rightarrow> saga_store \<Rightarrow> string \<Rightarrow> error + saga_state" where
  "Saga_Load ctx s sagaID =
     (if sagaID = [] then Inl ErrEmptyStreamID
      else (case ctx of
        Some e \<Rightarrow> Inl e
      | None \<Rightarrow>
          (case map_of (st_sagas s) sagaID of
             None \<Rightarrow> Inl (SagaNotFoundError sagaID [])
           | Some state \<Rightarrow> Inr (copyState state))))"

text \<open>The scan both correlation look-ups share: the latest-started state that matches.\<close>

fun latest_loop :: "(saga_state \<Rightarrow> bool) \<Rightarrow> (string, saga_state) gomap \<Rightarrow> saga_state option \<Rightarrow> saga_state option" where
  "latest_loop P [] latest = latest"
| "latest_loop P ((k, state) # rest) latest =
     latest_loop P rest
       (if P state \<and> (case latest of None \<Rightarrow> True | Some l \<Rightarrow> sg_StartedAt state > sg_StartedAt l)
        then Some state else latest)"

definition FindByCorrelationID :: "ctx \<Rightarrow> saga_store \<Rightarrow> string \<Rightarrow> error + saga_state" where
  "FindByCorrelationID ctx s correlationID =
     (if correlationID = [] then Inl ErrEmptyStreamID
      else (case ctx of
        Some e \<Rightarrow> Inl e
      | None \<Rightarrow>
          (case latest_loop (\<lambda>st. sg_CorrelationID st = correlationID) (st_sagas s) None of
             None \<Rightarrow> Inl (SagaNotFoundError [] correlationID)
           | Some l \<Rightarrow> Inr (copyState l))))"

definition FindByCorrelationIDAndType :: "ctx \<Rightarrow> saga_store \<Rightarrow> string \<Rightarrow> string \<Rightarrow> error + saga_state" where
  "FindByCorrelationIDAndType ctx s correlationID sagaType =
     (if correlationID = [] \<or> sagaType = [] then Inl ErrEmptyStreamID
      else (case ctx of
        Some e \<Rightarrow> Inl e
      | None \<Rightarrow>
          (case latest_loop (\<lambda>st. \<not> (sg_CorrelationID st \<noteq> correlationID \<or> sg_Type st \<noteq> sagaType)) (st_sagas s) None of
             None \<Rightarrow> Inl (SagaNotFoundError [] correlationID)
           | Some l \<Rightarrow> Inr (copyState l))))"

definition FindByType :: "ctx \<Rightarrow> saga_store \<Rightarrow> string \<Rightarrow> saga_status list \<Rightarrow> error + saga_state list" where
  "FindByType ctx s sagaType statuses =
     (if sagaType = [] then Inl ErrEmptyStreamID
      else (case ctx of
        Some e \<Rightarrow> Inl e
      | None \<Rightarrow>
          Inr (map (\<lambda>(k, st). copyState st)
            (filter (\<lambda>(k, st). sg_Type st = sagaType \<and>
               (length statuses = 0 \<or> sg_Status st \<in> set statuses)) (st_sagas s)))))"

definition Saga_Delete :: "ctx \<Rightarrow> saga_store \<Rightarrow> string \<Rightarrow> saga_store \<times> error option" where
  "Saga_Delete ctx s sagaID =
     (if sagaID = [] then (s, Some ErrEmptyStreamID)
      else (case ctx of
        Some e \<Rightarrow> (s, Some e)
      | None \<Rightarrow>
          (case map_of (st_sagas s) sagaID of
             None \<Rightarrow> (s, Some (SagaNotFoundError sagaID []))
           | Some _ \<Rightarrow> (s\<lparr>st_sagas := AList.delete sagaID (st_sagas s)\<rparr>, None))))"

definition DeleteSagasBySubject :: "ctx \<Rightarrow> saga_store \<Rightarrow> string \<Rightarrow> saga_store \<times> (error + nat)" where
  "DeleteSagasBySubject ctx s subjectID =
     (if subjectID = [] then (s, Inr 0)
      else (case ctx of
        Some e \<Rightarrow> (s, Inl e)
      | None \<Rightarrow>
          (s\<lparr>st_sagas := gm_delete_where (\<lambda>st. sg_CorrelationID st = subjectID) (st_sagas s)\<rparr>,
           Inr (gm_count (\<lambda>st. sg_CorrelationID st = subjectID) (st_sagas s)))))"

definition DeleteSagasByCorrelationIDs :: "ctx \<Rightarrow> saga_store \<Rightarrow> string list \<Rightarrow> saga_store \<times> (error + nat)" where
  "DeleteSagasByCorrelationIDs ctx s correlationIDs =
     (case idSet correlationIDs of
        None \<Rightarrow> (s, Inr 0)
      | Some st \<Rightarrow>
          (case ctx of
             Some e \<Rightarrow> (s, Inl e)
           | None \<Rightarrow>
               (s\<lparr>st_sagas := gm_delete_where (\<lambda>sg. sg_CorrelationID sg \<in> set st) (st_sagas s)\<rparr>,
                Inr (gm_count (\<lambda>sg. sg_CorrelationID sg \<in> set st) (st_sagas s)))))"

definition CountSagasByCorrelationIDs :: "ctx \<Rightarrow> saga_store \<Rightarrow> string list \<Rightarrow> error + nat" where
  "CountSagasByCorrelationIDs ctx s correlationIDs =
     (case idSet correlationIDs of
        None \<Rightarrow> Inr 0
      | Some st \<Rightarrow>
          (case ctx of
             Some e \<Rightarrow> Inl e
           | None \<Rightarrow> Inr (gm_count (\<lambda>sg. sg_CorrelationID sg \<in> set st) (st_sagas s))))"

definition Saga_Clear :: "saga_store \<Rightarrow> saga_store" where
  "Saga_Clear s = s\<lparr>st_sagas := []\<rparr>"

definition Saga_Count :: "saga_store \<Rightarrow> nat" where
  "Saga_Count s = length (st_sagas s)"

definition Saga_CountByStatus :: "ctx \<Rightarrow> saga_store \<Rightarrow> error + (saga_status \<Rightarrow> nat)" where
  "Saga_CountByStatus ctx s =
     (case ctx of
        Some e \<Rightarrow> Inl e
      | None \<Rightarrow> Inr (fold (\<lambda>(k, st) counts. counts(sg_Status st := counts (sg_Status st) + 1)) (st_sagas s) (\<lambda>_. 0)))"

definition Saga_All :: "saga_store \<Rightarrow> saga_state list" where
  "Saga_All s = map (\<lambda>(k, st). copyState st) (st_sagas s)"

section \<open>Invariant and contracts\<close>

definition sagas_inv :: "(string, saga_state) gomap \<Rightarrow> bool" where
  "sagas_inv m \<longleftrightarrow> gm_wf m \<and> (\<forall>(k, st) \<in> set m. sg_ID st = k \<and> k \<noteq> [])"

definition saga_inv :: "saga_store \<Rightarrow> bool" where
  "saga_inv s \<longleftrightarrow> sagas_inv (st_sagas s)"

lemma sagas_inv_update:
  "sagas_inv m \<Longrightarrow> sg_ID st = k \<Longrightarrow> k \<noteq> [] \<Longrightarrow> sagas_inv (AList.update k st m)"
  using set_update_subset [of k st m] by (auto simp: sagas_inv_def distinct_update)

lemma sagas_inv_delete:
  "sagas_inv m \<Longrightarrow> sagas_inv (AList.delete k m)" "sagas_inv m \<Longrightarrow> sagas_inv (gm_delete_where P m)"
  using set_delete_subset [of k m]
  by (auto simp: sagas_inv_def distinct_delete gm_wf_delete_where set_gm_delete_where)

lemma Saga_Save_inv: "saga_inv s \<Longrightarrow> saga_inv (fst (Saga_Save ctx now s st))"
  by (auto simp: saga_inv_def Saga_Save_def Let_def intro!: sagas_inv_update split: option.splits)

lemma Saga_deletes_inv:
  assumes "saga_inv s"
  shows "saga_inv (fst (Saga_Delete ctx s k))" "saga_inv (fst (DeleteSagasBySubject ctx s sub))"
    "saga_inv (fst (DeleteSagasByCorrelationIDs ctx s ids))" "saga_inv (Saga_Clear s)"
  using assms
  by (simp_all add: saga_inv_def Saga_Delete_def DeleteSagasBySubject_def DeleteSagasByCorrelationIDs_def
      Saga_Clear_def sagas_inv_delete split: option.split) (simp add: sagas_inv_def)

interpretation saga_footprint:
  footprint_store st_sagas sg_CorrelationID DeleteSagasByCorrelationIDs CountSagasByCorrelationIDs
  by unfold_locales
    (simp_all add: DeleteSagasByCorrelationIDs_def CountSagasByCorrelationIDs_def footprint_ids
      split: option.splits del: Diff_iff)

lemma latest_loop_sound:
  assumes "\<And>l. latest = Some l \<Longrightarrow> P l"
  shows "case latest_loop P m latest of
      None \<Rightarrow> latest = None \<and> (\<forall>(k, st) \<in> set m. \<not> P st)
    | Some l \<Rightarrow> P l \<and> (latest = Some l \<or> l \<in> snd ` set m) \<and>
        (\<forall>l0. latest = Some l0 \<longrightarrow> sg_StartedAt l0 \<le> sg_StartedAt l) \<and>
        (\<forall>(k, st) \<in> set m. P st \<longrightarrow> sg_StartedAt st \<le> sg_StartedAt l)"
  using assms
proof (induction m arbitrary: latest)
  case (Cons kv m)
  obtain k st where kv [simp]: "kv = (k, st)" by (cases kv)
  let ?n = "if P st \<and> (case latest of None \<Rightarrow> True | Some l \<Rightarrow> sg_StartedAt st > sg_StartedAt l)
        then Some st else latest"
  have "\<And>l. ?n = Some l \<Longrightarrow> P l" using Cons.prems by (auto split: if_splits)
  note ih = Cons.IH [of ?n, OF this]
  have eq: "latest_loop P (kv # m) latest = latest_loop P m ?n" by simp
  show ?case
  proof (cases "latest_loop P m ?n")
    case None
    with ih show ?thesis unfolding eq by (auto split: option.splits if_splits)
  next
    case (Some l)
    with ih have l: "P l" "?n = Some l \<or> l \<in> snd ` set m" "\<And>l0. ?n = Some l0 \<Longrightarrow> sg_StartedAt l0 \<le> sg_StartedAt l"
      "\<forall>(k, st) \<in> set m. P st \<longrightarrow> sg_StartedAt st \<le> sg_StartedAt l" by simp_all
    have "\<And>l0. latest = Some l0 \<Longrightarrow> sg_StartedAt l0 \<le> sg_StartedAt l"
      "P st \<Longrightarrow> sg_StartedAt st \<le> sg_StartedAt l"
      using l(3) [of st] l(3) [of "the latest"] by (cases latest; force split: if_splits)+
    moreover have "latest = Some l \<or> l \<in> snd ` set (kv # m)" using l(2) by (auto split: if_splits)
    ultimately show ?thesis unfolding eq using Some l(1,4) by simp
  qed
qed (auto split: option.splits)

lemma FindByCorrelationIDAndType_latest:
  assumes "FindByCorrelationIDAndType None s cid ty = Inr l"
  shows "l \<in> snd ` set (st_sagas s) \<and> sg_CorrelationID l = cid \<and> sg_Type l = ty \<and>
    (\<forall>(k, st) \<in> set (st_sagas s). sg_CorrelationID st = cid \<longrightarrow> sg_Type st = ty \<longrightarrow>
       sg_StartedAt st \<le> sg_StartedAt l)"
proof -
  let ?P = "\<lambda>st. \<not> (sg_CorrelationID st \<noteq> cid \<or> sg_Type st \<noteq> ty)"
  have "latest_loop ?P (st_sagas s) None = Some l"
    using assms by (auto simp: FindByCorrelationIDAndType_def split: if_splits option.splits)
  with latest_loop_sound [of None ?P "st_sagas s"] show ?thesis by fastforce
qed

lemma Saga_Load_Save:
  assumes "saga_inv s" and "Saga_Save None now s (Some st) = (s', Some st', None)"
  shows "Saga_Load None s' (sg_ID st) = Inr (st'\<lparr>sg_UpdatedAt := now\<rparr>)"
    and "st' = st\<lparr>sg_Version := sg_Version st + 1\<rparr>"
    and "k \<noteq> sg_ID st \<Longrightarrow> Saga_Load None s' k = Saga_Load None s k"
  using assms
  by (auto simp: Saga_Save_def Saga_Load_def Let_def gm_simps split: option.splits if_splits)

text \<open>Saga states are saved under optimistic concurrency.  Of two workers that start from
  the same loaded state, the first save wins, bumps the version by one and can be read
  back; the second is refused with a ConcurrencyError that names both versions and
  changes nothing; other sagas are not affected.\<close>

theorem saga_no_lost_update:
  assumes "saga_inv s" and "Saga_Load None s k = Inr st"
    and "Saga_Save None now s (Some (f st)) = (s1, Some st1, None)"
    and "sg_ID (f st) = k" and "sg_Version (f st) = sg_Version st"
    and "sg_ID (g st) = k" and "sg_Version (g st) = sg_Version st"
  shows "Saga_Load None s1 k = Inr ((f st)\<lparr>sg_Version := sg_Version st + 1, sg_UpdatedAt := now\<rparr>) \<and>
         Saga_Save None now' s1 (Some (g st)) =
           (s1, Some (g st), Some (ConcurrencyError k (sg_Version st) (sg_Version st + 1))) \<and>
         (\<forall>k'. k' \<noteq> k \<longrightarrow> Saga_Load None s1 k' = Saga_Load None s k')"
proof -
  note sl = Saga_Load_Save [OF assms(1,3)]
  have ld: "Saga_Load None s1 k = Inr ((f st)\<lparr>sg_Version := sg_Version st + 1, sg_UpdatedAt := now\<rparr>)"
    using sl(1,2) assms(4,5) by simp
  then have "map_of (st_sagas s1) k = Some ((f st)\<lparr>sg_Version := sg_Version st + 1, sg_UpdatedAt := now\<rparr>)"
    "k \<noteq> []"
    by (auto simp: Saga_Load_def split: if_splits option.splits)
  then show ?thesis
    using ld sl(3) assms(4,6,7) by (auto simp: Saga_Save_def)
qed

definition demo_saga :: "string \<Rightarrow> saga_state" where
  "demo_saga k = \<lparr>sg_ID = k, sg_Type = ''Checkout'', sg_CorrelationID = ''Order-1'',
     sg_Status = SagaStatusRunning, sg_CurrentStep = 0, sg_Data = None, sg_ProcessedEvents = [],
     sg_Steps = [], sg_StartedAt = 1, sg_UpdatedAt = 1, sg_CompletedAt = None, sg_FailureReason = [],
     sg_Version = 0\<rparr>"

definition demo_saga_store :: saga_store where
  "demo_saga_store = fst (Saga_Save None 2 NewSagaStore (Some (demo_saga ''s1'')))"

lemma NewSagaStore_inv: "saga_inv NewSagaStore"
  by (simp add: saga_inv_def sagas_inv_def NewSagaStore_def)

lemma demo_saga_store_inv: "saga_inv demo_saga_store"
  unfolding demo_saga_store_def by (rule Saga_Save_inv [OF NewSagaStore_inv])

lemma demo_saga_load:
  "Saga_Load None demo_saga_store ''s1'' = Inr ((demo_saga ''s1'')\<lparr>sg_Version := 1, sg_UpdatedAt := 2\<rparr>)"
  by (simp add: demo_saga_store_def Saga_Save_def Saga_Load_def NewSagaStore_def demo_saga_def)

theorem saga_no_lost_update_witness:
  "\<exists>s1 st1. Saga_Save None 3 demo_saga_store
       (Some ((demo_saga ''s1'')\<lparr>sg_Version := 1, sg_UpdatedAt := 2, sg_CurrentStep := 1\<rparr>)) = (s1, Some st1, None) \<and>
     snd (snd (Saga_Save None 4 s1 (Some ((demo_saga ''s1'')\<lparr>sg_Version := 1, sg_UpdatedAt := 2\<rparr>)))) =
       Some (ConcurrencyError ''s1'' 1 2)"
proof -
  let ?st = "(demo_saga ''s1'')\<lparr>sg_Version := 1, sg_UpdatedAt := 2\<rparr>"
  let ?f = "\<lambda>s. s\<lparr>sg_CurrentStep := 1\<rparr>"
  obtain s1 st1 where sv: "Saga_Save None 3 demo_saga_store (Some (?f ?st)) = (s1, Some st1, None)"
    by (simp add: demo_saga_store_def Saga_Save_def NewSagaStore_def demo_saga_def)
  from saga_no_lost_update [where f = ?f and g = "\<lambda>s. s" and now' = 4,
      OF demo_saga_store_inv demo_saga_load sv] sv show ?thesis
    by (simp add: demo_saga_def)
qed

text \<open>A saga is never hydrated from another type.  FindByCorrelationIDAndType returns a
  stored saga with that correlation id and that type, the most recently started one,
  whatever order the map is scanned in; it fails exactly when there is none.\<close>

theorem FindByCorrelationIDAndType_correct:
  "case FindByCorrelationIDAndType None s cid ty of
     Inr l \<Rightarrow> l \<in> snd ` set (st_sagas s) \<and> sg_CorrelationID l = cid \<and> sg_Type l = ty \<and>
        (\<forall>st \<in> snd ` set (st_sagas s). sg_CorrelationID st = cid \<longrightarrow> sg_Type st = ty \<longrightarrow>
           sg_StartedAt st \<le> sg_StartedAt l)
   | Inl e \<Rightarrow> (cid = [] \<or> ty = []) \<and> e = ErrEmptyStreamID \<or>
        e = SagaNotFoundError [] cid \<and>
        (\<forall>st \<in> snd ` set (st_sagas s). sg_CorrelationID st = cid \<longrightarrow> sg_Type st \<noteq> ty)"
proof (cases "FindByCorrelationIDAndType None s cid ty")
  case (Inl e)
  let ?P = "\<lambda>st. \<not> (sg_CorrelationID st \<noteq> cid \<or> sg_Type st \<noteq> ty)"
  from Inl have "(cid = [] \<or> ty = []) \<and> e = ErrEmptyStreamID \<or>
      latest_loop ?P (st_sagas s) None = None \<and> e = SagaNotFoundError [] cid"
    by (auto simp: FindByCorrelationIDAndType_def split: if_splits option.splits)
  with latest_loop_sound [of None ?P "st_sagas s"] Inl show ?thesis by auto
next
  case (Inr l)
  with FindByCorrelationIDAndType_latest [OF Inr] show ?thesis by auto
qed

theorem FindByCorrelationIDAndType_correct_witness:
  "FindByCorrelationIDAndType None demo_saga_store ''Order-1'' ''Refund'' = Inl (SagaNotFoundError [] ''Order-1'')"
  using FindByCorrelationIDAndType_correct [where s = demo_saga_store and cid = "''Order-1''" and ty = "''Refund''"]
  by (auto simp: demo_saga_store_def Saga_Save_def NewSagaStore_def demo_saga_def split: sum.splits)

end
