(* ===== verification/Idempotency.thy ===== *)
theory Idempotency
  imports Footprint
begin

text \<open>
  Idempotent command processing: the middleware and its keys (\<^verbatim>\<open>idempotency.go\<close>) and
  the in-memory store (\<^verbatim>\<open>adapters/memory/idempotency.go\<close>, the idempotency part of
  \<^verbatim>\<open>adapters/memory/subject_footprint.go\<close>).

  The middleware is split at its store calls, because other commands run between them:
  \<open>idem_lookup\<close> (the \<^verbatim>\<open>Get\<close>), \<open>idem_reserve\<close> (the \<^verbatim>\<open>StoreIfAbsent\<close>), the handler,
  \<open>idem_finish\<close> (the \<^verbatim>\<open>Store\<close> or \<^verbatim>\<open>Delete\<close>).  \<open>IdempotencyMiddleware\<close> is
  their sequential composition; \<open>idem_step\<close> interleaves them for any number of workers
  that present the same key.  SHA-256 in hexadecimal is the argument \<open>sha256hex\<close>.
\<close>

section \<open>Records and the in-memory store\<close>

record idempotency_record =
  ir_Key :: string
  ir_CommandType :: string
  ir_AggregateID :: string
  ir_Version :: int
  ir_Response :: bytes
  ir_Error :: string
  ir_Success :: bool
  ir_ProcessedAt :: time
  ir_ExpiresAt :: time

definition IsExpired :: "time \<Rightarrow> idempotency_record \<Rightarrow> bool" where
  "IsExpired now r \<longleftrightarrow> now > ir_ExpiresAt r"

definition CopyIdempotencyRecord :: "idempotency_record \<Rightarrow> idempotency_record" where
  "CopyIdempotencyRecord r =
     \<lparr>ir_Key = ir_Key r, ir_CommandType = ir_CommandType r, ir_AggregateID = ir_AggregateID r,
      ir_Version = ir_Version r, ir_Response = map (\<lambda>x. x) (ir_Response r), ir_Error = ir_Error r,
      ir_Success = ir_Success r, ir_ProcessedAt = ir_ProcessedAt r, ir_ExpiresAt = ir_ExpiresAt r\<rparr>"

lemma CopyIdempotencyRecord_id [simp]: "CopyIdempotencyRecord r = r"
  by (simp add: CopyIdempotencyRecord_def)

record idempotency_store =
  is_records :: "(string, idempotency_record) gomap"

definition NewIdempotencyStore :: idempotency_store where
  "NewIdempotencyStore = \<lparr>is_records = []\<rparr>"

definition Idem_Exists :: "time \<Rightarrow> idempotency_store \<Rightarrow> string \<Rightarrow> bool" where
  "Idem_Exists now s key =
     (case map_of (is_records s) key of None \<Rightarrow> False | Some r \<Rightarrow> if IsExpired now r then False else True)"

definition Idem_Store :: "idempotency_store \<Rightarrow> idempotency_record \<Rightarrow> idempotency_store" where
  "Idem_Store s r = s\<lparr>is_records := AList.update (ir_Key r) (CopyIdempotencyRecord r) (is_records s)\<rparr>"

definition Idem_StoreIfAbsent ::
  "time \<Rightarrow> idempotency_store \<Rightarrow> idempotency_record \<Rightarrow> idempotency_store \<times> bool" where
  "Idem_StoreIfAbsent now s r =
     (if (case map_of (is_records s) (ir_Key r) of None \<Rightarrow> False | Some ex \<Rightarrow> \<not> IsExpired now ex)
      then (s, False)
      else (s\<lparr>is_records := AList.update (ir_Key r) (CopyIdempotencyRecord r) (is_records s)\<rparr>, True))"

definition Idem_Get :: "time \<Rightarrow> idempotency_store \<Rightarrow> string \<Rightarrow> idempotency_record option" where
  "Idem_Get now s key =
     (case map_of (is_records s) key of
        None \<Rightarrow> None
      | Some r \<Rightarrow> if IsExpired now r then None else Some (CopyIdempotencyRecord r))"

definition Idem_Delete :: "idempotency_store \<Rightarrow> string \<Rightarrow> idempotency_store" where
  "Idem_Delete s key = s\<lparr>is_records := AList.delete key (is_records s)\<rparr>"

definition DeleteIdempotencyBySubject :: "idempotency_store \<Rightarrow> string \<Rightarrow> idempotency_store \<times> nat" where
  "DeleteIdempotencyBySubject s subjectID =
     (if subjectID = [] then (s, 0)
      else (s\<lparr>is_records := gm_delete_where (\<lambda>r. ir_AggregateID r = subjectID) (is_records s)\<rparr>,
            gm_count (\<lambda>r. ir_AggregateID r = subjectID) (is_records s)))"

definition DeleteIdempotencyByAggregateIDs ::
  "ctx \<Rightarrow> idempotency_store \<Rightarrow> string list \<Rightarrow> idempotency_store \<times> (error + nat)" where
  "DeleteIdempotencyByAggregateIDs ctx s aggregateIDs =
     (case idSet aggregateIDs of
        None \<Rightarrow> (s, Inr 0)
      | Some st \<Rightarrow>
          (case ctx of
             Some e \<Rightarrow> (s, Inl e)
           | None \<Rightarrow>
               (s\<lparr>is_records := gm_delete_where (\<lambda>r. ir_AggregateID r \<in> set st) (is_records s)\<rparr>,
                Inr (gm_count (\<lambda>r. ir_AggregateID r \<in> set st) (is_records s)))))"

definition CountIdempotencyByAggregateIDs :: "ctx \<Rightarrow> idempotency_store \<Rightarrow> string list \<Rightarrow> error + nat" where
  "CountIdempotencyByAggregateIDs ctx s aggregateIDs =
     (case idSet aggregateIDs of
        None \<Rightarrow> Inr 0
      | Some st \<Rightarrow>
          (case ctx of
             Some e \<Rightarrow> Inl e
           | None \<Rightarrow> Inr (gm_count (\<lambda>r. ir_AggregateID r \<in> set st) (is_records s))))"

definition idem_cleanable :: "time \<Rightarrow> duration \<Rightarrow> idempotency_record \<Rightarrow> bool" where
  "idem_cleanable now olderThan r \<longleftrightarrow> ir_ProcessedAt r < now - olderThan \<or> IsExpired now r"

definition Idem_Cleanup :: "time \<Rightarrow> idempotency_store \<Rightarrow> duration \<Rightarrow> idempotency_store \<times> nat" where
  "Idem_Cleanup now s olderThan =
     (s\<lparr>is_records := gm_delete_where (idem_cleanable now olderThan) (is_records s)\<rparr>,
      gm_count (idem_cleanable now olderThan) (is_records s))"

definition Idem_Clear :: "idempotency_store \<Rightarrow> idempotency_store" where
  "Idem_Clear s = s\<lparr>is_records := []\<rparr>"

definition Idem_Len :: "idempotency_store \<Rightarrow> nat" where
  "Idem_Len s = length (is_records s)"

interpretation idem_footprint:
  footprint_store is_records ir_AggregateID DeleteIdempotencyByAggregateIDs CountIdempotencyByAggregateIDs
  by unfold_locales
    (simp_all add: DeleteIdempotencyByAggregateIDs_def CountIdempotencyByAggregateIDs_def footprint_ids
      split: option.splits del: Diff_iff)

section \<open>Commands and keys\<close>

record command_result =
  cr_Success :: bool
  cr_AggregateID :: string
  cr_Version :: int
  cr_Error :: "error option"

definition NewSuccessResult :: "string \<Rightarrow> int \<Rightarrow> command_result" where
  "NewSuccessResult aggregateID version =
     \<lparr>cr_Success = True, cr_AggregateID = aggregateID, cr_Version = version, cr_Error = None\<rparr>"

definition NewErrorResult :: "error option \<Rightarrow> command_result" where
  "NewErrorResult err = \<lparr>cr_Success = False, cr_AggregateID = [], cr_Version = 0, cr_Error = err\<rparr>"

definition IsSuccess :: "command_result \<Rightarrow> bool" where
  "IsSuccess r \<longleftrightarrow> cr_Success r \<and> cr_Error r = None"

definition IsError :: "command_result \<Rightarrow> bool" where
  "IsError r \<longleftrightarrow> \<not> cr_Success r \<or> cr_Error r \<noteq> None"

definition MaxIdempotencyKeyLength :: nat where [simp]: "MaxIdempotencyKeyLength = 255"
definition MaxIdempotencyFieldLength :: nat where [simp]: "MaxIdempotencyFieldLength = 255"

text \<open>\<^verbatim>\<open>utf8.RuneStart\<close>: not a continuation byte.\<close>

definition RuneStart :: "char \<Rightarrow> bool" where
  "RuneStart c \<longleftrightarrow> \<not> (128 \<le> (of_char c :: nat) \<and> (of_char c :: nat) < 192)"

fun rune_cut :: "string \<Rightarrow> nat \<Rightarrow> nat" where
  "rune_cut s 0 = 0"
| "rune_cut s (Suc n) = (if \<not> RuneStart (s ! Suc n) then rune_cut s n else Suc n)"

definition truncateUTF8Bytes :: "string \<Rightarrow> nat \<Rightarrow> string" where
  "truncateUTF8Bytes s maxBytes =
     (if length s \<le> maxBytes then s
      else if maxBytes = 0 then []
      else take (rune_cut s maxBytes) s)"

definition EffectiveIdempotencyKey :: "(string \<Rightarrow> string) \<Rightarrow> string \<Rightarrow> string \<Rightarrow> string \<Rightarrow> string" where
  "EffectiveIdempotencyKey sha256hex cmdType scope key =
     (if key = [] then []
      else
        let scopePrefix = (if scope \<noteq> [] then itoa (int (length scope)) @ '':'' @ scope @ ''|'' else []);
            scoped = scopePrefix @ key
        in if length scoped \<le> MaxIdempotencyKeyLength then scoped
           else let suffix = '':sha256:'' @ sha256hex scoped
                in truncateUTF8Bytes (scopePrefix @ cmdType) (MaxIdempotencyKeyLength - length suffix) @ suffix)"

definition NewIdempotencyRecord ::
  "(error \<Rightarrow> string) \<Rightarrow> time \<Rightarrow> string \<Rightarrow> string \<Rightarrow> command_result \<Rightarrow> duration \<Rightarrow> idempotency_record" where
  "NewIdempotencyRecord errText now key cmdType result ttl =
     \<lparr>ir_Key = key, ir_CommandType = truncateUTF8Bytes cmdType MaxIdempotencyFieldLength,
      ir_AggregateID = truncateUTF8Bytes (cr_AggregateID result) MaxIdempotencyFieldLength,
      ir_Version = cr_Version result, ir_Response = [],
      ir_Error = (case cr_Error result of None \<Rightarrow> [] | Some e \<Rightarrow> errText e),
      ir_Success = IsSuccess result, ir_ProcessedAt = now, ir_ExpiresAt = now + ttl\<rparr>"

definition IdempotencyRecordToResult :: "idempotency_record \<Rightarrow> command_result" where
  "IdempotencyRecordToResult r =
     (if ir_Success r then NewSuccessResult (ir_AggregateID r) (ir_Version r)
      else if ir_Error r \<noteq> [] then NewErrorResult (Some (IdempotencyReplayError (ir_Key r) (ir_Error r)))
      else NewErrorResult (Some (IdempotencyReplayError (ir_Key r) ''unknown error'')))"

definition idempotencyProcessingMarker :: string where
  "idempotencyProcessingMarker = ''mink:processing''"

definition newProcessingRecord :: "time \<Rightarrow> string \<Rightarrow> string \<Rightarrow> duration \<Rightarrow> idempotency_record" where
  "newProcessingRecord now key cmdType ttl =
     \<lparr>ir_Key = key, ir_CommandType = truncateUTF8Bytes cmdType MaxIdempotencyFieldLength,
      ir_AggregateID = [], ir_Version = 0, ir_Response = [], ir_Error = idempotencyProcessingMarker,
      ir_Success = False, ir_ProcessedAt = now, ir_ExpiresAt = now + ttl\<rparr>"

definition isProcessingRecord :: "idempotency_record \<Rightarrow> bool" where
  "isProcessingRecord r \<longleftrightarrow> \<not> ir_Success r \<and> ir_Error r = idempotencyProcessingMarker"

section \<open>The middleware\<close>

text \<open>The store the middleware is configured with, every call able to fail.\<close>

record 's idem_ops =
  io_Get :: "time \<Rightarrow> 's \<Rightarrow> string \<Rightarrow> error + idempotency_record option"
  io_StoreIfAbsent :: "time \<Rightarrow> 's \<Rightarrow> idempotency_record \<Rightarrow> 's \<times> (error + bool)"
  io_Store :: "'s \<Rightarrow> idempotency_record \<Rightarrow> 's \<times> error option"
  io_Delete :: "'s \<Rightarrow> string \<Rightarrow> 's \<times> error option"

record 'c idem_config =
  ic_TTL :: duration
  ic_KeyGenerator :: "'c \<Rightarrow> string"
  ic_Scope :: "'c \<Rightarrow> string"
  ic_StoreErrors :: bool
  ic_FailClosed :: bool
  ic_ReservationTTL :: duration
  ic_SkipCommands :: "string list"

definition effective_config :: "'c idem_config \<Rightarrow> 'c idem_config" where
  "effective_config cfg =
     cfg\<lparr>ic_TTL := (if ic_TTL cfg \<le> 0 then 24 * 3600 * 1000000000 else ic_TTL cfg),
         ic_ReservationTTL := (if ic_ReservationTTL cfg \<le> 0 then 300 * 1000000000 else ic_ReservationTTL cfg)\<rparr>"

datatype idem_verdict = Reply command_result "error option" | Bypass | Proceed bool

definition in_progress :: "string \<Rightarrow> command_result" where
  "in_progress key = NewErrorResult (Some (IdempotencyReplayError key ''command in progress''))"

text \<open>\<^verbatim>\<open>Get\<close> and the switch on its result; \<open>Proceed\<close> goes on to the reservation.\<close>

definition idem_lookup ::
  "'s idem_ops \<Rightarrow> 'c idem_config \<Rightarrow> time \<Rightarrow> 's \<Rightarrow> string \<Rightarrow> 's \<times> idem_verdict" where
  "idem_lookup ops cfg now s key =
     (case io_Get ops now s key of
        Inl err \<Rightarrow> if ic_FailClosed cfg then (s, Reply (NewErrorResult (Some err)) (Some err)) else (s, Bypass)
      | Inr None \<Rightarrow> (s, Proceed False)
      | Inr (Some r) \<Rightarrow>
          if isProcessingRecord r \<and> \<not> IsExpired now r then (s, Reply (in_progress key) None)
          else if \<not> IsExpired now r then (s, Reply (IdempotencyRecordToResult r) None)
          else (fst (io_Delete ops s key), Proceed False))"

text \<open>\<^verbatim>\<open>StoreIfAbsent\<close>; \<open>Proceed reserved\<close> runs the handler.\<close>

definition idem_reserve ::
  "'s idem_ops \<Rightarrow> 'c idem_config \<Rightarrow> time \<Rightarrow> 's \<Rightarrow> string \<Rightarrow> string \<Rightarrow> 's \<times> idem_verdict" where
  "idem_reserve ops cfg now s key cmdType =
     (case io_StoreIfAbsent ops now s (newProcessingRecord now key cmdType (ic_ReservationTTL cfg)) of
        (s', Inl serr) \<Rightarrow>
          if ic_FailClosed cfg then (s', Reply (NewErrorResult (Some serr)) (Some serr)) else (s', Proceed False)
      | (s', Inr True) \<Rightarrow> (s', Proceed True)
      | (s', Inr False) \<Rightarrow>
          (case io_Get ops now s' key of
             Inr (Some ex) \<Rightarrow>
               if \<not> IsExpired now ex \<and> \<not> isProcessingRecord ex then (s', Reply (IdempotencyRecordToResult ex) None)
               else (s', Reply (in_progress key) None)
           | _ \<Rightarrow> (s', Reply (in_progress key) None)))"

definition idem_finish ::
  "'s idem_ops \<Rightarrow> 'c idem_config \<Rightarrow> (error \<Rightarrow> string) \<Rightarrow> time \<Rightarrow> 's \<Rightarrow> string \<Rightarrow> string \<Rightarrow> bool \<Rightarrow>
   command_result \<Rightarrow> error option \<Rightarrow> 's" where
  "idem_finish ops cfg errText now s key cmdType reserved result cmdErr =
     (let shouldStore = (IsSuccess result \<or> (ic_StoreErrors cfg \<and> cmdErr \<noteq> None))
      in if shouldStore then
           (case io_Store ops s (NewIdempotencyRecord errText now key cmdType result (ic_TTL cfg)) of
              (s', None) \<Rightarrow> s'
            | (s', Some serr) \<Rightarrow> if reserved then fst (io_Delete ops s' key) else s')
         else if reserved then fst (io_Delete ops s key) else s)"

text \<open>The whole middleware around a handler \<open>next\<close> with state \<open>'h\<close>; \<open>t i\<close> is the clock at
  the i-th store call.\<close>

definition IdempotencyMiddleware ::
  "(string \<Rightarrow> string) \<Rightarrow> (error \<Rightarrow> string) \<Rightarrow> ('c \<Rightarrow> string) \<Rightarrow> 's idem_ops \<Rightarrow> 'c idem_config \<Rightarrow> (nat \<Rightarrow> time) \<Rightarrow>
   ('h \<Rightarrow> 'c \<Rightarrow> 'h \<times> command_result \<times> error option) \<Rightarrow> 's \<Rightarrow> 'h \<Rightarrow> 'c \<Rightarrow>
   's \<times> 'h \<times> command_result \<times> error option" where
  "IdempotencyMiddleware sha256hex errText commandType ops config t next s h cmd =
     (let cfg = effective_config config;
          pass = (\<lambda>s. let (h', r, e) = next h cmd in (s, h', r, e))
      in if commandType cmd \<in> set (ic_SkipCommands cfg) then pass s
         else
           let key = EffectiveIdempotencyKey sha256hex (commandType cmd) (ic_Scope cfg cmd) (ic_KeyGenerator cfg cmd)
           in if key = [] then pass s
              else (case idem_lookup ops cfg (t 0) s key of
                (s1, Reply r e) \<Rightarrow> (s1, h, r, e)
              | (s1, Bypass) \<Rightarrow> pass s1
              | (s1, Proceed _) \<Rightarrow>
                  (case idem_reserve ops cfg (t 1) s1 key (commandType cmd) of
                     (s2, Reply r e) \<Rightarrow> (s2, h, r, e)
                   | (s2, Bypass) \<Rightarrow> pass s2
                   | (s2, Proceed reserved) \<Rightarrow>
                       let (h', r, e) = next h cmd
                       in (idem_finish ops cfg errText (t 2) s2 key (commandType cmd) reserved r e, h', r, e))))"

definition mem_idem_ops :: "idempotency_store idem_ops" where
  "mem_idem_ops =
     \<lparr>io_Get = (\<lambda>now s k. Inr (Idem_Get now s k)),
      io_StoreIfAbsent = (\<lambda>now s r. let (s', b) = Idem_StoreIfAbsent now s r in (s', Inr b)),
      io_Store = (\<lambda>s r. (Idem_Store s r, None)),
      io_Delete = (\<lambda>s k. (Idem_Delete s k, None))\<rparr>"

section \<open>Keys\<close>

lemma rune_cut_le: "rune_cut s n \<le> n"
  by (induction n) (simp_all add: le_SucI)

lemma length_truncate: "length (truncateUTF8Bytes s n) \<le> n"
  using rune_cut_le [of s n] by (simp add: truncateUTF8Bytes_def)

text \<open>Every key fits the store's column: whatever the command type, scope and client key,
  the key handed to the store has at most 255 bytes (SHA-256 in hexadecimal has 64).\<close>

theorem EffectiveIdempotencyKey_bounded:
  assumes "\<And>x. length (sha256hex x) = 64"
  shows "length (EffectiveIdempotencyKey sha256hex cmdType scope key) \<le> MaxIdempotencyKeyLength"
proof -
  have "length (truncateUTF8Bytes s 183) \<le> 183" for s by (rule length_truncate)
  then show ?thesis
    using assms by (simp add: EffectiveIdempotencyKey_def Let_def)
qed

definition scoped_key :: "string \<Rightarrow> string \<Rightarrow> string" where
  "scoped_key scope key = itoa (int (length scope)) @ '':'' @ scope @ ''|'' @ key"

lemma scoped_key_inj:
  assumes "scoped_key s k = scoped_key s' k'"
  shows "s = s' \<and> k = k'"
proof -
  have "nat_digits (length s) @ CHR '':'' # (s @ ''|'' @ k) = nat_digits (length s') @ CHR '':'' # (s' @ ''|'' @ k')"
    using assms by (simp add: scoped_key_def itoa_def)
  from first_sep_unique [OF this] have "nat_digits (length s) = nat_digits (length s')"
    and r: "s @ ''|'' @ k = s' @ ''|'' @ k'" by simp_all
  then have "length s = length s'" using nat_digits_inj by blast
  with r show ?thesis by simp
qed

text \<open>Scopes do not share keys: for non-empty scopes the length-prefixed encoding is
  injective, so two principals that present any client keys, with '|' and ':' in them or
  not, never get the same store key as long as neither key is digested.\<close>

theorem scoped_keys_disjoint:
  assumes "scope \<noteq> []" and "scope' \<noteq> []" and "key \<noteq> []" and "key' \<noteq> []"
    and "length (scoped_key scope key) \<le> 255" and "length (scoped_key scope' key') \<le> 255"
    and "EffectiveIdempotencyKey sha256hex cmdType scope key = EffectiveIdempotencyKey sha256hex cmdType' scope' key'"
  shows "scope = scope' \<and> key = key'"
proof -
  have "EffectiveIdempotencyKey sha256hex c s k = scoped_key s k"
    if "s \<noteq> []" "k \<noteq> []" "length (scoped_key s k) \<le> 255" for c s k
    using that by (simp add: EffectiveIdempotencyKey_def scoped_key_def Let_def)
  with assms have "scoped_key scope key = scoped_key scope' key'" by simp
  then show ?thesis by (rule scoped_key_inj)
qed

theorem EffectiveIdempotencyKey_bounded_witness:
  "length (EffectiveIdempotencyKey (\<lambda>x. replicate 64 CHR ''0'') ''Place'' ''acme'' (replicate 300 CHR ''k'')) \<le> 255"
  using EffectiveIdempotencyKey_bounded [of "\<lambda>x. replicate 64 CHR ''0''" "''Place''" "''acme''" "replicate 300 CHR ''k''"]
  by simp

lemma nat_digits_small: "n < 10 \<Longrightarrow> nat_digits n = [digit n]"
  by (simp add: nat_digits.simps)

theorem scoped_keys_disjoint_witness:
  "EffectiveIdempotencyKey (\<lambda>x. x) ''C'' ''a'' ''b|x'' \<noteq> EffectiveIdempotencyKey (\<lambda>x. x) ''C'' ''a|b'' ''x''"
  using scoped_keys_disjoint [where scope = "''a''" and scope' = "''a|b''" and key = "''b|x''" and key' = "''x''"
      and sha256hex = "\<lambda>x. x" and cmdType = "''C''" and cmdType' = "''C''"]
  by (auto simp: scoped_key_def itoa_def nat_digits_small)

text \<open>An empty scope is not disjoint from the others: the store key of an unscoped
  command whose client key spells out a scope prefix is the store key of a scoped
  command.\<close>

theorem unscoped_key_collides:
  "EffectiveIdempotencyKey sha256hex cmdType [] (scoped_key ''a'' ''x'') =
   EffectiveIdempotencyKey sha256hex cmdType' ''a'' ''x''"
  by (simp add: EffectiveIdempotencyKey_def scoped_key_def itoa_def nat_digits_small Let_def)

section \<open>Replay\<close>

lemma mem_ops_sel [simp]:
  "io_Get mem_idem_ops now s k = Inr (Idem_Get now s k)"
  "io_Store mem_idem_ops s r = (Idem_Store s r, None)"
  "io_Delete mem_idem_ops s k = (Idem_Delete s k, None)"
  by (simp_all add: mem_idem_ops_def)

lemma mem_ops_StoreIfAbsent [simp]:
  "io_StoreIfAbsent mem_idem_ops now s r =
     (fst (Idem_StoreIfAbsent now s r), Inr (snd (Idem_StoreIfAbsent now s r)))"
  by (simp add: mem_idem_ops_def split: prod.split)

lemma Idem_Get_Store:
  "Idem_Get now (Idem_Store s r) k =
     (if k = ir_Key r then if IsExpired now r then None else Some r else Idem_Get now s k)"
  by (simp add: Idem_Get_def Idem_Store_def update_conv)

text \<open>A command that succeeded is not executed again.  If a run of the middleware over
  the in-memory store executed the handler and it succeeded, then a later command with the
  same key, at any time within the TTL, is answered with the recorded result and the
  handler is not called: its state is unchanged.\<close>

theorem middleware_replays_success:
  assumes "IdempotencyMiddleware sha256hex errText commandType mem_idem_ops config t next s h cmd = (s1, h1, r, None)"
    and "commandType cmd \<notin> set (ic_SkipCommands config)"
    and "EffectiveIdempotencyKey sha256hex (commandType cmd) (ic_Scope config cmd) (ic_KeyGenerator config cmd) = key"
    and "key \<noteq> []" and "Idem_Get (t 0) s key = None" and "Idem_Get (t 1) s key = None" and "IsSuccess r"
    and "commandType cmd' \<notin> set (ic_SkipCommands config)"
    and "EffectiveIdempotencyKey sha256hex (commandType cmd') (ic_Scope config cmd') (ic_KeyGenerator config cmd') = key"
    and "t' 0 \<le> t 2 + ic_TTL (effective_config config)"
  shows "IdempotencyMiddleware sha256hex errText commandType mem_idem_ops config t' next s1 h1 cmd' =
           (s1, h1, NewSuccessResult (truncateUTF8Bytes (cr_AggregateID r) 255) (cr_Version r), None)"
proof -
  let ?cfg = "effective_config config"
  have cfg: "ic_SkipCommands ?cfg = ic_SkipCommands config" "ic_Scope ?cfg = ic_Scope config"
    "ic_KeyGenerator ?cfg = ic_KeyGenerator config" by (simp_all add: effective_config_def)
  let ?rec = "NewIdempotencyRecord errText (t 2) key (commandType cmd) r (ic_TTL ?cfg)"
  have look: "idem_lookup mem_idem_ops ?cfg (t 0) s key = (s, Proceed False)"
    using assms(5) by (simp add: idem_lookup_def)
  obtain s2 where res: "idem_reserve mem_idem_ops ?cfg (t 1) s key (commandType cmd) = (s2, Proceed True)"
    using assms(6)
    by (auto simp: idem_reserve_def Idem_StoreIfAbsent_def newProcessingRecord_def Idem_Get_def
        split: option.splits if_splits)
  have "s1 = Idem_Store s2 ?rec"
    using assms(1-4,7) look res
    by (auto simp: IdempotencyMiddleware_def cfg Let_def idem_finish_def split: prod.splits)
  moreover have "ir_Key ?rec = key" "\<not> IsExpired (t' 0) ?rec" "ir_Success ?rec"
    using assms(7,10) by (simp_all add: NewIdempotencyRecord_def IsExpired_def)
  ultimately have "idem_lookup mem_idem_ops ?cfg (t' 0) s1 key = (s1, Reply (IdempotencyRecordToResult ?rec) None)"
    by (simp add: idem_lookup_def Idem_Get_Store isProcessingRecord_def)
  then show ?thesis
    using assms(4,7-9)
    by (simp add: IdempotencyMiddleware_def cfg IdempotencyRecordToResult_def NewIdempotencyRecord_def)
qed

definition demo_config :: "string idem_config" where
  "demo_config = \<lparr>ic_TTL = 100, ic_KeyGenerator = (\<lambda>c. ''k''), ic_Scope = (\<lambda>c. []), ic_StoreErrors = False,
     ic_FailClosed = False, ic_ReservationTTL = 10, ic_SkipCommands = []\<rparr>"

definition demo_next :: "nat \<Rightarrow> string \<Rightarrow> nat \<times> command_result \<times> error option" where
  "demo_next h c = (Suc h, NewSuccessResult ''Order-1'' 3, None)"

lemma demo_key: "EffectiveIdempotencyKey f c [] ''k'' = ''k''"
  by (simp add: EffectiveIdempotencyKey_def)

theorem middleware_replays_success_witness:
  "\<exists>s1. IdempotencyMiddleware (\<lambda>x. x) (\<lambda>e. []) (\<lambda>c. c) mem_idem_ops demo_config int demo_next NewIdempotencyStore 0 ''Place''
      = (s1, 1, NewSuccessResult ''Order-1'' 3, None) \<and>
    IdempotencyMiddleware (\<lambda>x. x) (\<lambda>e. []) (\<lambda>c. c) mem_idem_ops demo_config (\<lambda>i. 50) demo_next s1 1 ''Place''
      = (s1, 1, NewSuccessResult ''Order-1'' 3, None)"
proof -
  obtain s1 where run: "IdempotencyMiddleware (\<lambda>x. x) (\<lambda>e. []) (\<lambda>c. c) mem_idem_ops demo_config int demo_next
      NewIdempotencyStore 0 ''Place'' = (s1, 1, NewSuccessResult ''Order-1'' 3, None)"
    by (simp add: IdempotencyMiddleware_def demo_config_def effective_config_def demo_key idem_lookup_def
        idem_reserve_def Idem_Get_def Idem_StoreIfAbsent_def NewIdempotencyStore_def newProcessingRecord_def
        demo_next_def Let_def)
  have "truncateUTF8Bytes ''Order-1'' 255 = ''Order-1''" by (simp add: truncateUTF8Bytes_def)
  with middleware_replays_success [OF run, where cmd' = "''Place''" and key = "''k''" and t' = "\<lambda>i. 50"] run
  show ?thesis
    by (simp add: demo_config_def effective_config_def demo_key Idem_Get_def NewIdempotencyStore_def
        NewSuccessResult_def IsSuccess_def)
qed

section \<open>Concurrent duplicates\<close>













end
