(* ===== verification/Key_Provider.thy ===== *)
theory Key_Provider
  imports Adapter_Common
begin

text \<open>
  Encryption providers: the AES-GCM helpers of \<^verbatim>\<open>encryption/aes.go\<close>, the revocation
  vocabulary of \<^verbatim>\<open>encryption/provider.go\<close> and the in-memory provider of
  \<^verbatim>\<open>encryption/local/local.go\<close> with hard and soft (grace window) key revocation.

  The cipher itself is the standard library's: \<open>aead\<close> holds the two operations of a
  \<^verbatim>\<open>cipher.AEAD\<close>, \<open>aead_laws\<close> what its documentation promises (a sealed text opens
  under the same key, nonce and additional data, and under no other additional data).
  Random bytes (nonces, data keys) are arguments.
\<close>

section \<open>AES-GCM\<close>

record aead =
  gcm_Seal :: "bytes \<Rightarrow> bytes \<Rightarrow> bytes \<Rightarrow> bytes \<Rightarrow> bytes"
  gcm_Open :: "bytes \<Rightarrow> bytes \<Rightarrow> bytes \<Rightarrow> bytes \<Rightarrow> bytes option"

definition aead_laws :: "aead \<Rightarrow> bool" where
  "aead_laws g \<longleftrightarrow>
     (\<forall>key nonce plaintext aad.
        gcm_Open g key nonce (gcm_Seal g key nonce plaintext aad) aad = Some plaintext) \<and>
     (\<forall>key nonce plaintext aad aad'. aad' \<noteq> aad \<longrightarrow>
        gcm_Open g key nonce (gcm_Seal g key nonce plaintext aad) aad' = None)"

definition NonceSize :: nat where "NonceSize = 12"

text \<open>\<^verbatim>\<open>aes.NewCipher\<close> accepts the three AES key sizes.\<close>

definition aes_key_ok :: "bytes \<Rightarrow> bool" where
  "aes_key_ok key \<longleftrightarrow> length key \<in> {16, 24, 32}"

definition AESGCMEncrypt :: "aead \<Rightarrow> bytes \<Rightarrow> bytes \<Rightarrow> bytes \<Rightarrow> bytes \<Rightarrow> error + bytes" where
  "AESGCMEncrypt g nonce key plaintext aad =
     (if \<not> aes_key_ok key then Inl (Errorf ''mink: failed to create cipher'')
      else Inr (nonce @ gcm_Seal g key nonce plaintext aad))"

definition AESGCMDecrypt :: "aead \<Rightarrow> bytes \<Rightarrow> bytes \<Rightarrow> bytes \<Rightarrow> error + bytes" where
  "AESGCMDecrypt g key ciphertext aad =
     (if \<not> aes_key_ok key then Inl (Errorf ''mink: failed to create cipher'')
      else if length ciphertext < NonceSize then Inl (Errorf ''mink: ciphertext too short'')
      else (case gcm_Open g key (take NonceSize ciphertext) (drop NonceSize ciphertext) aad of
              None \<Rightarrow> Inl (Errorf ''cipher: message authentication failed'')
            | Some plaintext \<Rightarrow> Inr plaintext))"

lemma AESGCM_roundtrip:
  assumes "aead_laws g" and "length nonce = NonceSize"
    and "AESGCMEncrypt g nonce key plaintext aad = Inr c"
  shows "AESGCMDecrypt g key c aad = Inr plaintext"
  using assms by (auto simp: aead_laws_def AESGCMEncrypt_def AESGCMDecrypt_def split: if_splits)

lemma AESGCM_wrong_aad:
  assumes "aead_laws g" and "length nonce = NonceSize"
    and "AESGCMEncrypt g nonce key plaintext aad = Inr c" and "aad' \<noteq> aad"
  shows "\<exists>e. AESGCMDecrypt g key c aad' = Inl e"
  using assms by (auto simp: aead_laws_def AESGCMEncrypt_def AESGCMDecrypt_def split: if_splits)

section \<open>Revocation state\<close>

datatype RevocationState = NotRevoked | SoftRevoked | Revoked

record data_key =
  dk_Plaintext :: bytes
  dk_Ciphertext :: bytes
  dk_KeyID :: string

definition ClearBytes :: "bytes \<Rightarrow> bytes" where
  "ClearBytes b = map (\<lambda>_. CHR 0x00) b"

definition NewEncryptionError :: "string \<Rightarrow> string \<Rightarrow> error \<Rightarrow> error" where
  "NewEncryptionError keyID field cause = EncryptionError ''encrypt'' keyID field cause"

definition NewDecryptionError :: "string \<Rightarrow> string \<Rightarrow> error \<Rightarrow> error" where
  "NewDecryptionError keyID field cause = EncryptionError ''decrypt'' keyID field cause"

section \<open>The in-memory provider\<close>

record local_provider =
  lp_keys :: "(string, bytes) gomap"
  lp_revoked :: "string list"
  lp_softRevoked :: "(string, time) gomap"
  lp_closed :: bool

text \<open>\<open>lp_revoked\<close> lists the keys of the \<^verbatim>\<open>revoked\<close> map, whose values are always true.\<close>

definition empty_provider :: local_provider where
  "empty_provider = \<lparr>lp_keys = [], lp_revoked = [], lp_softRevoked = [], lp_closed = False\<rparr>"

definition WithKey :: "string \<Rightarrow> bytes \<Rightarrow> local_provider \<Rightarrow> error + local_provider" where
  "WithKey keyID key p =
     (if length key \<noteq> 32 then Inl (Errorf ''mink/local: key must be 32 bytes'')
      else if lp_closed p then Inl ErrProviderClosed
      else Inr (p\<lparr>lp_keys := AList.update keyID key (lp_keys p)\<rparr>))"

fun apply_options :: "(local_provider \<Rightarrow> error + local_provider) list \<Rightarrow> local_provider \<Rightarrow> error + local_provider" where
  "apply_options [] p = Inr p"
| "apply_options (opt # opts) p =
     (case opt p of Inl e \<Rightarrow> Inl e | Inr p' \<Rightarrow> apply_options opts p')"

definition NewLocalProvider :: "(local_provider \<Rightarrow> error + local_provider) list \<Rightarrow> error + local_provider" where
  "NewLocalProvider opts = apply_options opts empty_provider"

definition AddKey :: "local_provider \<Rightarrow> string \<Rightarrow> bytes \<Rightarrow> local_provider \<times> error option" where
  "AddKey p keyID key =
     (if length key \<noteq> 32 then (p, Some (Errorf ''mink: key must be 32 bytes''))
      else if lp_closed p then (p, Some ErrProviderClosed)
      else (p\<lparr>lp_keys := AList.update keyID key (lp_keys p)\<rparr>, None))"

definition RevokeKey :: "local_provider \<Rightarrow> string \<Rightarrow> local_provider \<times> error option" where
  "RevokeKey p keyID =
     (if lp_closed p then (p, Some ErrProviderClosed)
      else if keyID \<in> set (lp_revoked p) then (p, None)
      else (case map_of (lp_keys p) keyID of
              None \<Rightarrow> (p, Some (KeyNotFoundError keyID))
            | Some key \<Rightarrow>
                (p\<lparr>lp_keys := AList.delete keyID (lp_keys p),
                   lp_softRevoked := AList.delete keyID (lp_softRevoked p),
                   lp_revoked := keyID # lp_revoked p\<rparr>, None)))"

definition promoteIfExpiredLocked :: "time \<Rightarrow> local_provider \<Rightarrow> string \<Rightarrow> local_provider" where
  "promoteIfExpiredLocked now p keyID =
     (case map_of (lp_softRevoked p) keyID of
        None \<Rightarrow> p
      | Some expiry \<Rightarrow>
          if now < expiry then p
          else p\<lparr>lp_keys := AList.delete keyID (lp_keys p),
                 lp_softRevoked := AList.delete keyID (lp_softRevoked p),
                 lp_revoked := keyID # lp_revoked p\<rparr>)"

definition stateLocked :: "time \<Rightarrow> local_provider \<Rightarrow> string \<Rightarrow> local_provider \<times> RevocationState" where
  "stateLocked now p keyID =
     (let p' = promoteIfExpiredLocked now p keyID
      in (p', if keyID \<in> set (lp_revoked p') then Revoked
              else if map_of (lp_softRevoked p') keyID \<noteq> None then SoftRevoked
              else NotRevoked))"

definition IsRevoked :: "time \<Rightarrow> local_provider \<Rightarrow> string \<Rightarrow> local_provider \<times> (error + bool)" where
  "IsRevoked now p keyID =
     (if lp_closed p then (p, Inl ErrProviderClosed)
      else let (p', st) = stateLocked now p keyID in (p', Inr (st = Revoked \<or> st = SoftRevoked)))"

definition RevocationState_of :: "time \<Rightarrow> local_provider \<Rightarrow> string \<Rightarrow> local_provider \<times> (error + RevocationState)" where
  "RevocationState_of now p keyID =
     (if lp_closed p then (p, Inl ErrProviderClosed)
      else let (p', st) = stateLocked now p keyID in (p', Inr st))"

definition getKey :: "time \<Rightarrow> local_provider \<Rightarrow> string \<Rightarrow> local_provider \<times> (error + bytes)" where
  "getKey now p keyID =
     (if lp_closed p then (p, Inl ErrProviderClosed)
      else let (p', st) = stateLocked now p keyID
           in if st = Revoked \<or> st = SoftRevoked then (p', Inl (KeyRevokedError keyID))
              else (case map_of (lp_keys p') keyID of
                      None \<Rightarrow> (p', Inl (KeyNotFoundError keyID))
                    | Some key \<Rightarrow> (p', Inr key)))"

definition Provider_Encrypt ::
  "aead \<Rightarrow> bytes \<Rightarrow> time \<Rightarrow> local_provider \<Rightarrow> string \<Rightarrow> bytes \<Rightarrow> local_provider \<times> (error + bytes)" where
  "Provider_Encrypt g nonce now p keyID plaintext =
     (case getKey now p keyID of
        (p', Inl e) \<Rightarrow> (p', Inl e)
      | (p', Inr key) \<Rightarrow> (p', AESGCMEncrypt g nonce key plaintext keyID))"

definition Provider_Decrypt ::
  "aead \<Rightarrow> time \<Rightarrow> local_provider \<Rightarrow> string \<Rightarrow> bytes \<Rightarrow> local_provider \<times> (error + bytes)" where
  "Provider_Decrypt g now p keyID ciphertext =
     (case getKey now p keyID of
        (p', Inl e) \<Rightarrow> (p', Inl e)
      | (p', Inr key) \<Rightarrow> (p', AESGCMDecrypt g key ciphertext keyID))"

definition GenerateDataKey ::
  "aead \<Rightarrow> bytes \<Rightarrow> bytes \<Rightarrow> time \<Rightarrow> local_provider \<Rightarrow> string \<Rightarrow> local_provider \<times> (error + data_key)" where
  "GenerateDataKey g dek nonce now p keyID =
     (case getKey now p keyID of
        (p', Inl e) \<Rightarrow> (p', Inl e)
      | (p', Inr key) \<Rightarrow>
          (case AESGCMEncrypt g nonce key dek keyID of
             Inl e \<Rightarrow> (p', Inl (NewEncryptionError keyID [] (Wrap ''failed to encrypt DEK'' e)))
           | Inr c \<Rightarrow> (p', Inr \<lparr>dk_Plaintext = dek, dk_Ciphertext = c, dk_KeyID = keyID\<rparr>)))"

definition DecryptDataKey ::
  "aead \<Rightarrow> time \<Rightarrow> local_provider \<Rightarrow> string \<Rightarrow> bytes \<Rightarrow> local_provider \<times> (error + bytes)" where
  "DecryptDataKey g now p keyID encryptedKey =
     (case getKey now p keyID of
        (p', Inl e) \<Rightarrow> (p', Inl e)
      | (p', Inr key) \<Rightarrow>
          (case AESGCMDecrypt g key encryptedKey keyID of
             Inl e \<Rightarrow> (p', Inl (NewDecryptionError keyID [] (Wrap ''failed to decrypt DEK'' e)))
           | Inr plaintext \<Rightarrow> (p', Inr plaintext)))"

definition Provider_Close :: "local_provider \<Rightarrow> local_provider" where
  "Provider_Close p =
     (if lp_closed p then p else p\<lparr>lp_keys := [], lp_revoked := [], lp_closed := True\<rparr>)"

definition SoftRevokeKey ::
  "time \<Rightarrow> local_provider \<Rightarrow> string \<Rightarrow> duration \<Rightarrow> local_provider \<times> error option" where
  "SoftRevokeKey now p keyID graceWindow =
     (if lp_closed p then (p, Some ErrProviderClosed)
      else let p' = promoteIfExpiredLocked now p keyID
           in if keyID \<in> set (lp_revoked p') then (p', None)
              else if map_of (lp_keys p') keyID = None then (p', Some (KeyNotFoundError keyID))
              else (p'\<lparr>lp_softRevoked := AList.update keyID (now + graceWindow) (lp_softRevoked p')\<rparr>, None))"

definition UnrevokeKey :: "time \<Rightarrow> local_provider \<Rightarrow> string \<Rightarrow> local_provider \<times> error option" where
  "UnrevokeKey now p keyID =
     (if lp_closed p then (p, Some ErrProviderClosed)
      else let p' = promoteIfExpiredLocked now p keyID
           in if keyID \<in> set (lp_revoked p')
              then (p', Some (Errorf ''mink/local: grace window elapsed; revocation is permanent''))
              else if map_of (lp_softRevoked p') keyID = None then (p', None)
              else (p'\<lparr>lp_softRevoked := AList.delete keyID (lp_softRevoked p')\<rparr>, None))"

section \<open>Runs of the provider\<close>

text \<open>Everything a client can do to a provider at a clock reading, and sequences of such steps
  under a clock that does not run backwards.\<close>

inductive provider_step :: "time \<Rightarrow> local_provider \<Rightarrow> local_provider \<Rightarrow> bool" where
  step_AddKey: "provider_step now p (fst (AddKey p k key))"
| step_RevokeKey: "provider_step now p (fst (RevokeKey p k))"
| step_SoftRevokeKey: "provider_step now p (fst (SoftRevokeKey now p k w))"
| step_UnrevokeKey: "provider_step now p (fst (UnrevokeKey now p k))"
| step_IsRevoked: "provider_step now p (fst (IsRevoked now p k))"
| step_RevocationState: "provider_step now p (fst (RevocationState_of now p k))"
| step_Encrypt: "provider_step now p (fst (Provider_Encrypt g nonce now p k d))"
| step_Decrypt: "provider_step now p (fst (Provider_Decrypt g now p k d))"
| step_GenerateDataKey: "provider_step now p (fst (GenerateDataKey g dek nonce now p k))"
| step_DecryptDataKey: "provider_step now p (fst (DecryptDataKey g now p k d))"
| step_Close: "provider_step now p (Provider_Close p)"

inductive provider_run :: "time \<Rightarrow> local_provider \<Rightarrow> time \<Rightarrow> local_provider \<Rightarrow> bool" where
  run_refl: "provider_run t p t p"
| run_step: "provider_run t p t' p' \<Longrightarrow> t' \<le> t'' \<Longrightarrow> provider_step t'' p' p'' \<Longrightarrow> provider_run t p t'' p''"

lemma provider_run_time: "provider_run t p t' p' \<Longrightarrow> t \<le> t'"
  by (induction rule: provider_run.induct) auto

text \<open>A key is gone for good at a time when the provider is closed, the key is revoked, or its
  grace window has passed.\<close>

definition key_gone :: "time \<Rightarrow> local_provider \<Rightarrow> string \<Rightarrow> bool" where
  "key_gone now p k \<longleftrightarrow>
     lp_closed p \<or> k \<in> set (lp_revoked p) \<or>
     (\<exists>expiry. map_of (lp_softRevoked p) k = Some expiry \<and> expiry \<le> now)"

lemma key_gone_mono: "key_gone now p k \<Longrightarrow> now \<le> now' \<Longrightarrow> key_gone now' p k"
  unfolding key_gone_def by force

lemma promote_closed [simp]: "lp_closed (promoteIfExpiredLocked now p k') = lp_closed p"
  by (simp add: promoteIfExpiredLocked_def split: option.splits)

lemma promote_gone:
  "key_gone now p k \<Longrightarrow> key_gone now (promoteIfExpiredLocked now p k') k"
  by (auto simp: promoteIfExpiredLocked_def key_gone_def delete_conv split: option.splits)

lemma promote_self_gone:
  "key_gone now p k \<Longrightarrow> \<not> lp_closed p \<Longrightarrow> k \<in> set (lp_revoked (promoteIfExpiredLocked now p k))"
  by (auto simp: promoteIfExpiredLocked_def key_gone_def split: option.splits)

lemma getKey_state:
  "fst (getKey now p k) = (if lp_closed p then p else promoteIfExpiredLocked now p k)"
  by (simp add: getKey_def stateLocked_def Let_def split: option.splits)

lemma getKey_gone:
  assumes "key_gone now p k"
  shows "snd (getKey now p k) = Inl (if lp_closed p then ErrProviderClosed else KeyRevokedError k)"
  using assms promote_self_gone [OF assms]
  by (simp add: getKey_def stateLocked_def Let_def)

lemma provider_op_states:
  "fst (Provider_Encrypt g nonce now p k d) = fst (getKey now p k)"
  "fst (Provider_Decrypt g now p k d) = fst (getKey now p k)"
  "fst (GenerateDataKey g dek nonce now p k) = fst (getKey now p k)"
  "fst (DecryptDataKey g now p k d) = fst (getKey now p k)"
  by (simp_all add: Provider_Encrypt_def Provider_Decrypt_def GenerateDataKey_def DecryptDataKey_def
      split: prod.splits sum.splits)

lemma getKey_keeps_gone: "key_gone now p k \<Longrightarrow> key_gone now (fst (getKey now p k')) k"
  by (simp add: getKey_state promote_gone)

lemma AddKey_keeps_gone: "key_gone now p k \<Longrightarrow> key_gone now (fst (AddKey p k' key)) k"
  by (auto simp: AddKey_def key_gone_def)

lemma RevokeKey_keeps_gone: "key_gone now p k \<Longrightarrow> key_gone now (fst (RevokeKey p k')) k"
  by (auto simp: RevokeKey_def key_gone_def delete_conv split: option.splits)

lemma SoftRevokeKey_keeps_gone:
  assumes "key_gone now p k"
  shows "key_gone now (fst (SoftRevokeKey now p k' w)) k"
  using assms promote_gone [OF assms, of k'] promote_self_gone [OF assms]
  by (cases "k' = k") (auto simp: SoftRevokeKey_def Let_def key_gone_def update_conv)

lemma UnrevokeKey_keeps_gone:
  assumes "key_gone now p k"
  shows "key_gone now (fst (UnrevokeKey now p k')) k"
  using assms promote_gone [OF assms, of k'] promote_self_gone [OF assms]
  by (cases "k' = k") (auto simp: UnrevokeKey_def Let_def key_gone_def delete_conv)

lemma state_reads_keep_gone:
  assumes "key_gone now p k"
  shows "key_gone now (fst (IsRevoked now p k')) k" "key_gone now (fst (RevocationState_of now p k')) k"
  using assms promote_gone [OF assms, of k']
  by (auto simp: IsRevoked_def RevocationState_of_def stateLocked_def Let_def)

lemma Close_keeps_gone: "key_gone now p k \<Longrightarrow> key_gone now (Provider_Close p) k"
  by (simp add: Provider_Close_def key_gone_def)

lemmas keeps_gone = getKey_keeps_gone AddKey_keeps_gone RevokeKey_keeps_gone SoftRevokeKey_keeps_gone
  UnrevokeKey_keeps_gone state_reads_keep_gone Close_keeps_gone

lemma provider_step_gone:
  "provider_step now p p' \<Longrightarrow> key_gone now p k \<Longrightarrow> key_gone now p' k"
  by (induction rule: provider_step.induct) (simp_all add: keeps_gone provider_op_states)

lemma provider_run_gone:
  "provider_run t p t' p' \<Longrightarrow> key_gone t p k \<Longrightarrow> key_gone t' p' k"
  by (induction rule: provider_run.induct) (auto intro: provider_step_gone key_gone_mono)

lemma RevokeKey_gone: "snd (RevokeKey p k) = None \<Longrightarrow> key_gone t (fst (RevokeKey p k)) k"
  by (auto simp: RevokeKey_def key_gone_def split: if_splits option.splits)

lemma SoftRevokeKey_gone:
  "snd (SoftRevokeKey t p k w) = None \<Longrightarrow> key_gone (t + w) (fst (SoftRevokeKey t p k w)) k"
  by (auto simp: SoftRevokeKey_def Let_def key_gone_def update_conv split: if_splits)

section \<open>Properties\<close>

text \<open>C16: crypto-shredding is permanent.  Once \<^verbatim>\<open>RevokeKey\<close> succeeded, or the grace
  window of a successful \<^verbatim>\<open>SoftRevokeKey\<close> has passed, no sequence of provider operations
  (adding the key again, soft-revoking, un-revoking, closing) makes a data key wrapped under
  it decryptable: \<^verbatim>\<open>DecryptDataKey\<close> and \<^verbatim>\<open>GenerateDataKey\<close> fail with a revoked or
  closed error for ever.\<close>

theorem crypto_shred_permanent:
  assumes "(p1, None) = RevokeKey p k \<and> t1 = t \<or> (p1, None) = SoftRevokeKey t p k w \<and> t1 = t + w"
    and "provider_run t1 p1 t2 p2"
  shows "\<exists>e. snd (DecryptDataKey g t2 p2 k c) = Inl e \<and>
             snd (GenerateDataKey g dek nonce t2 p2 k) = Inl e \<and>
             (errors_Is e ErrKeyRevoked \<or> errors_Is e ErrProviderClosed)"
proof -
  have "key_gone t1 p1 k"
    using assms(1) RevokeKey_gone [of p k t] SoftRevokeKey_gone [of t p k w]
    by (metis fst_conv snd_conv)
  with assms(2) have "key_gone t2 p2 k"
    by (rule provider_run_gone)
  from getKey_gone [OF this] obtain p3 where
    "getKey t2 p2 k = (p3, Inl (if lp_closed p2 then ErrProviderClosed else KeyRevokedError k))"
    by (metis prod.collapse)
  then show ?thesis
    by (simp add: DecryptDataKey_def GenerateDataKey_def)
qed

definition demo_provider :: local_provider where
  "demo_provider = empty_provider\<lparr>lp_keys := [(''k'', replicate 32 CHR ''x'')]\<rparr>"

theorem crypto_shred_permanent_witness:
  "\<exists>e. snd (DecryptDataKey \<lparr>gcm_Seal = \<lambda>_ _ d _. d, gcm_Open = \<lambda>_ _ d _. Some d\<rparr> 20
             (fst (UnrevokeKey 20 (fst (SoftRevokeKey 0 demo_provider ''k'' 10)) ''k'')) ''k'' ''dek'') = Inl e \<and>
        snd (GenerateDataKey \<lparr>gcm_Seal = \<lambda>_ _ d _. d, gcm_Open = \<lambda>_ _ d _. Some d\<rparr> ''d'' ''n'' 20
             (fst (UnrevokeKey 20 (fst (SoftRevokeKey 0 demo_provider ''k'' 10)) ''k'')) ''k'') = Inl e \<and>
        (errors_Is e ErrKeyRevoked \<or> errors_Is e ErrProviderClosed)"
proof (rule crypto_shred_permanent [where t = 0 and w = 10 and ?t1.0 = 10 and p = demo_provider])
  show "(fst (SoftRevokeKey 0 demo_provider ''k'' 10), None) = RevokeKey demo_provider ''k'' \<and> (10 :: time) = 0 \<or>
        (fst (SoftRevokeKey 0 demo_provider ''k'' 10), None) = SoftRevokeKey 0 demo_provider ''k'' 10 \<and> (10 :: time) = 0 + 10"
    by (simp add: SoftRevokeKey_def demo_provider_def empty_provider_def promoteIfExpiredLocked_def Let_def)
  show "provider_run 10 (fst (SoftRevokeKey 0 demo_provider ''k'' 10)) 20
          (fst (UnrevokeKey 20 (fst (SoftRevokeKey 0 demo_provider ''k'' 10)) ''k''))"
    by (rule run_step [OF run_refl _ step_UnrevokeKey]) simp
qed

text \<open>Within the window the same key comes back: soft revocation destroys nothing.\<close>

lemma getKey_Inr:
  assumes "getKey t p k = (p', Inr key)"
  shows "\<not> lp_closed p" "k \<notin> set (lp_revoked p)" "map_of (lp_softRevoked p) k = None"
    "map_of (lp_keys p) k = Some key"
  using assms
  by (auto simp: getKey_def stateLocked_def promoteIfExpiredLocked_def Let_def
      split: if_splits option.splits)

lemma soft_revocation_recoverable:
  assumes "getKey t p k = (p', Inr key)" and "SoftRevokeKey t p k w = (p1, None)"
    and "t \<le> t'" and "t' < t + w"
  shows "snd (getKey t' p1 k) = Inl (KeyRevokedError k)"
    and "snd (getKey t' (fst (UnrevokeKey t' p1 k)) k) = Inr key"
proof -
  note k = getKey_Inr [OF assms(1)]
  have p1: "p1 = p\<lparr>lp_softRevoked := AList.update k (t + w) (lp_softRevoked p)\<rparr>"
    using assms(2) k by (simp add: SoftRevokeKey_def promoteIfExpiredLocked_def)
  show "snd (getKey t' p1 k) = Inl (KeyRevokedError k)"
    using k assms(4) by (simp add: p1 getKey_def stateLocked_def promoteIfExpiredLocked_def update_conv)
  have "fst (UnrevokeKey t' p1 k) =
      p1\<lparr>lp_softRevoked := AList.delete k (lp_softRevoked p1)\<rparr>"
    using k assms(4) by (simp add: p1 UnrevokeKey_def promoteIfExpiredLocked_def update_conv)
  then show "snd (getKey t' (fst (UnrevokeKey t' p1 k)) k) = Inr key"
    using k by (simp add: p1 getKey_def stateLocked_def promoteIfExpiredLocked_def delete_conv)
qed

lemma data_key_roundtrip:
  assumes "aead_laws g" and "length nonce = NonceSize"
    and "GenerateDataKey g dek nonce now p k = (p', Inr dk)"
    and "getKey now' p'' k = (p3, Inr key)" and "snd (getKey now p k) = Inr key"
  shows "DecryptDataKey g now' p'' (dk_KeyID dk) (dk_Ciphertext dk) = (p3, Inr (dk_Plaintext dk))"
  using assms AESGCM_roundtrip [OF assms(1,2)]
  by (auto simp: GenerateDataKey_def DecryptDataKey_def split: prod.splits sum.splits)

end
