(* ===== verification/Event_Model.thy ===== *)
theory Event_Model
  imports Adapter_Common
begin

text \<open>
  The event vocabulary of the public package: stream identifiers, metadata and event data
  (\<^verbatim>\<open>event.go\<close>), the aggregate base (\<^verbatim>\<open>aggregate.go\<close>) and the stream naming
  convention (\<^verbatim>\<open>mink.go\<close>).  \<^verbatim>\<open>mink.Metadata\<close> and \<^verbatim>\<open>mink.EventData\<close> have the
  fields of the adapter types and share their records.
\<close>

section \<open>Stream identifiers\<close>

record stream_id =
  sid_Category :: string
  sid_ID :: string

definition NewStreamID :: "string \<Rightarrow> string \<Rightarrow> stream_id" where
  "NewStreamID category i = \<lparr>sid_Category = category, sid_ID = i\<rparr>"

definition ParseStreamID :: "string \<Rightarrow> error + stream_id" where
  "ParseStreamID s =
     (let parts = splitN2 CHR ''-'' s
      in if length parts \<noteq> 2 \<or> parts ! 0 = [] \<or> parts ! 1 = []
         then Inl (Errorf ''mink: invalid stream ID format'')
         else Inr \<lparr>sid_Category = parts ! 0, sid_ID = parts ! 1\<rparr>)"

definition StreamID_String :: "stream_id \<Rightarrow> string" where
  "StreamID_String s = sid_Category s @ ''-'' @ sid_ID s"

definition StreamID_IsZero :: "stream_id \<Rightarrow> bool" where
  "StreamID_IsZero s \<longleftrightarrow> sid_Category s = [] \<and> sid_ID s = []"

definition StreamID_Validate :: "stream_id \<Rightarrow> error option" where
  "StreamID_Validate s =
     (if sid_Category s = [] then Some (Errorf ''mink: stream category is required'')
      else if sid_ID s = [] then Some (Errorf ''mink: stream ID is required'')
      else None)"

definition BuildStreamID :: "string \<Rightarrow> string \<Rightarrow> string" where
  "BuildStreamID aggregateType aggregateID = aggregateType @ ''-'' @ aggregateID"

section \<open>Metadata\<close>

definition WithCorrelationID :: "metadata \<Rightarrow> string \<Rightarrow> metadata" where
  "WithCorrelationID m i = m\<lparr>md_CorrelationID := i\<rparr>"

definition WithCausationID :: "metadata \<Rightarrow> string \<Rightarrow> metadata" where
  "WithCausationID m i = m\<lparr>md_CausationID := i\<rparr>"

definition WithUserID :: "metadata \<Rightarrow> string \<Rightarrow> metadata" where
  "WithUserID m i = m\<lparr>md_UserID := i\<rparr>"

definition WithTenantID :: "metadata \<Rightarrow> string \<Rightarrow> metadata" where
  "WithTenantID m i = m\<lparr>md_TenantID := i\<rparr>"

text \<open>The custom entries of a nil map are those of an empty one.\<close>

definition custom_entries :: "metadata \<Rightarrow> (string, string) gomap" where
  "custom_entries m = (case md_Custom m of None \<Rightarrow> [] | Some c \<Rightarrow> c)"

definition custom_get :: "metadata \<Rightarrow> string \<Rightarrow> string option" where
  "custom_get m k = map_of (custom_entries m) k"

definition WithCustom :: "metadata \<Rightarrow> string \<Rightarrow> string \<Rightarrow> metadata" where
  "WithCustom m key val = m\<lparr>md_Custom := Some (AList.update key val (custom_entries m))\<rparr>"

definition withoutCustomKeys :: "metadata \<Rightarrow> string list \<Rightarrow> metadata" where
  "withoutCustomKeys m keys =
     (if length (custom_entries m) = 0 then m
      else let present = length (filter (\<lambda>k. custom_get m k \<noteq> None) keys)
           in if present = 0 then m
              else let custom = fold (\<lambda>k c. AList.delete k c) keys (custom_entries m)
                   in if length custom = 0 then m\<lparr>md_Custom := None\<rparr>
                      else m\<lparr>md_Custom := Some custom\<rparr>)"

definition Metadata_IsEmpty :: "metadata \<Rightarrow> bool" where
  "Metadata_IsEmpty m \<longleftrightarrow>
     md_CorrelationID m = [] \<and> md_CausationID m = [] \<and> md_UserID m = [] \<and> md_TenantID m = [] \<and>
     length (custom_entries m) = 0"

section \<open>Event data and events\<close>

definition NewEventData :: "string \<Rightarrow> bytes \<Rightarrow> event_record" where
  "NewEventData eventType data =
     \<lparr>er_Type = eventType, er_Data = data, er_Metadata = empty_metadata\<rparr>"

definition WithMetadata :: "event_record \<Rightarrow> metadata \<Rightarrow> event_record" where
  "WithMetadata e m = e\<lparr>er_Metadata := m\<rparr>"

definition EventData_Validate :: "event_record \<Rightarrow> error option" where
  "EventData_Validate e =
     (if er_Type e = [] then Some (Errorf ''mink: event type is required'')
      else if length (er_Data e) = 0 then Some (Errorf ''mink: event data is required'')
      else None)"

record 'd event =
  ev_ID :: string
  ev_StreamID :: string
  ev_Type :: string
  ev_Data :: 'd
  ev_Metadata :: metadata
  ev_Version :: int
  ev_GlobalPosition :: nat
  ev_Timestamp :: time

definition EventFromStored :: "stored_event \<Rightarrow> 'd \<Rightarrow> 'd event" where
  "EventFromStored stored data =
     \<lparr>ev_ID = se_ID stored, ev_StreamID = se_StreamID stored, ev_Type = se_Type stored,
      ev_Data = data, ev_Metadata = se_Metadata stored, ev_Version = se_Version stored,
      ev_GlobalPosition = se_GlobalPosition stored, ev_Timestamp = se_Timestamp stored\<rparr>"

section \<open>Aggregates\<close>

record 'd aggregate_base =
  ab_id :: string
  ab_aggregateType :: string
  ab_version :: int
  ab_originalVersion :: int
  ab_uncommittedEvents :: "'d list"

definition NewAggregateBase :: "string \<Rightarrow> string \<Rightarrow> 'd aggregate_base" where
  "NewAggregateBase i aggregateType =
     \<lparr>ab_id = i, ab_aggregateType = aggregateType, ab_version = 0, ab_originalVersion = 0,
      ab_uncommittedEvents = []\<rparr>"

definition SetVersion :: "'d aggregate_base \<Rightarrow> int \<Rightarrow> 'd aggregate_base" where
  "SetVersion a v = a\<lparr>ab_version := v\<rparr>"

definition IncrementVersion :: "'d aggregate_base \<Rightarrow> 'd aggregate_base" where
  "IncrementVersion a = a\<lparr>ab_version := ab_version a + 1\<rparr>"

definition setOriginalVersion :: "'d aggregate_base \<Rightarrow> int \<Rightarrow> 'd aggregate_base" where
  "setOriginalVersion a v = a\<lparr>ab_originalVersion := v\<rparr>"

definition ClearUncommittedEvents :: "'d aggregate_base \<Rightarrow> 'd aggregate_base" where
  "ClearUncommittedEvents a = a\<lparr>ab_uncommittedEvents := []\<rparr>"

definition Aggregate_Apply :: "'d aggregate_base \<Rightarrow> 'd \<Rightarrow> 'd aggregate_base" where
  "Aggregate_Apply a event = a\<lparr>ab_uncommittedEvents := ab_uncommittedEvents a @ [event]\<rparr>"

definition HasUncommittedEvents :: "'d aggregate_base \<Rightarrow> bool" where
  "HasUncommittedEvents a \<longleftrightarrow> length (ab_uncommittedEvents a) > 0"

definition Aggregate_StreamID :: "'d aggregate_base \<Rightarrow> stream_id" where
  "Aggregate_StreamID a = NewStreamID (ab_aggregateType a) (ab_id a)"

fun ReplayEvents :: "('t \<Rightarrow> 'd \<Rightarrow> 't \<times> error option) \<Rightarrow> 't \<Rightarrow> 'd list \<Rightarrow> 't \<times> error option" where
  "ReplayEvents applier target [] = (target, None)"
| "ReplayEvents applier target (e # es) =
     (case applier target e of
        (target', Some err) \<Rightarrow> (target', Some err)
      | (target', None) \<Rightarrow> ReplayEvents applier target' es)"

type_synonym 'a aggregate_registry = "string \<rightharpoonup> (string \<Rightarrow> 'a)"

definition AggregateRegistry_Register ::
  "'a aggregate_registry \<Rightarrow> string \<Rightarrow> (string \<Rightarrow> 'a) \<Rightarrow> 'a aggregate_registry" where
  "AggregateRegistry_Register r aggregateType factory = r(aggregateType \<mapsto> factory)"

definition AggregateRegistry_Create :: "'a aggregate_registry \<Rightarrow> string \<Rightarrow> string \<Rightarrow> error + 'a" where
  "AggregateRegistry_Create r aggregateType i =
     (case r aggregateType of
        None \<Rightarrow> Inl (Wrap aggregateType ErrAggregateTypeNotRegistered)
      | Some factory \<Rightarrow> Inr (factory i))"

section \<open>Lemmas\<close>

lemma custom_get_WithCustom [simp]:
  "custom_get (WithCustom m k v) k' = (if k' = k then Some v else custom_get m k')"
  by (simp add: custom_get_def WithCustom_def custom_entries_def update_conv split: option.split)

lemma map_of_fold_delete:
  "map_of (fold (\<lambda>k c. AList.delete k c) keys c) k = (if k \<in> set keys then None else map_of c k)"
  by (induction keys arbitrary: c) (auto simp: delete_conv)

lemma custom_get_withoutCustomKeys [simp]:
  "custom_get (withoutCustomKeys m keys) k = (if k \<in> set keys then None else custom_get m k)"
proof -
  let ?c = "fold (\<lambda>k c. AList.delete k c) keys (custom_entries m)"
  have mo: "map_of ?c k = (if k \<in> set keys then None else custom_get m k)"
    by (simp add: map_of_fold_delete custom_get_def)
  consider "custom_entries m = []" | "custom_entries m \<noteq> []" "filter (\<lambda>k. custom_get m k \<noteq> None) keys = []"
    | "custom_entries m \<noteq> []" "filter (\<lambda>k. custom_get m k \<noteq> None) keys \<noteq> []" by blast
  then show ?thesis
  proof cases
    case 1
    then show ?thesis by (simp add: withoutCustomKeys_def custom_get_def)
  next
    case 2
    then have "withoutCustomKeys m keys = m" by (simp add: withoutCustomKeys_def)
    with 2 show ?thesis by (auto simp: filter_empty_conv)
  next
    case 3
    then have "custom_entries (withoutCustomKeys m keys) = ?c"
      by (simp add: withoutCustomKeys_def Let_def custom_entries_def)
    then show ?thesis unfolding custom_get_def [of "withoutCustomKeys m keys"] by (simp add: mo)
  qed
qed

lemma splitN2_two: "splitN2 c s = [a, b] \<longleftrightarrow> s = a @ c # b \<and> c \<notin> set a"
proof
  assume h: "splitN2 c s = [a, b]"
  then have "c \<in> set s" by (auto simp: splitN2_def split: if_splits)
  moreover have "c \<notin> set a" using h by (auto simp: splitN2_def split: if_splits dest: set_takeWhileD)
  ultimately show "s = a @ c # b \<and> c \<notin> set a" using splitN2_join h by blast
qed (auto simp: splitN2_sep)

lemma splitN2_length: "length (splitN2 c s) = 2 \<longleftrightarrow> (\<exists>a b. splitN2 c s = [a, b])"
  by (auto simp: splitN2_def)

text \<open>Parsing and printing stream ids are inverse: a string parses to a stream id exactly
  when it is that id's printed form, the id is valid and its category has no hyphen - so
  distinct valid ids never share a stream, and the category the adapters extract from the
  printed form is the id's own.\<close>

theorem ParseStreamID_iff:
  "(ParseStreamID x = Inr s \<longleftrightarrow>
      x = StreamID_String s \<and> StreamID_Validate s = None \<and> CHR ''-'' \<notin> set (sid_Category s)) \<and>
   (\<forall>s'. ParseStreamID x = Inr s' \<longrightarrow> ExtractCategory x = sid_Category s')"
proof -
  have parse: "ParseStreamID x = Inr s' \<longleftrightarrow>
      splitN2 CHR ''-'' x = [sid_Category s', sid_ID s'] \<and> sid_Category s' \<noteq> [] \<and> sid_ID s' \<noteq> []" for s'
  proof (cases "length (splitN2 CHR ''-'' x) = 2")
    case True
    then obtain a b where "splitN2 CHR ''-'' x = [a, b]" unfolding splitN2_length by blast
    then show ?thesis by (cases s') (auto simp: ParseStreamID_def Let_def split: if_splits)
  next
    case False
    then show ?thesis by (auto simp: ParseStreamID_def Let_def)
  qed
  show ?thesis
    unfolding parse splitN2_two
    by (auto simp: StreamID_String_def StreamID_Validate_def ExtractCategory_prefix [simplified])
qed

theorem ParseStreamID_iff_witness:
  "ParseStreamID ''Order-a-1'' = Inr \<lparr>sid_Category = ''Order'', sid_ID = ''a-1''\<rparr> \<and>
   ExtractCategory ''Order-a-1'' = ''Order''"
  using ParseStreamID_iff [of "''Order-a-1''" "\<lparr>sid_Category = ''Order'', sid_ID = ''a-1''\<rparr>"]
  by (simp add: StreamID_String_def StreamID_Validate_def)

end
