(* ===== verification/Field_Encryption.thy ===== *)
theory Field_Encryption
  imports Key_Provider Event_Model "HOL-Library.Countable"
begin

text \<open>
  Field-level encryption of event payloads (\<^verbatim>\<open>encryption.go\<close>) and subject tags in
  metadata (\<^verbatim>\<open>subject.go\<close>).

  A JSON value is the datatype \<open>json\<close>; numbers keep their literal
  (\<^verbatim>\<open>json.Number\<close>), an object is the association list of a Go map.  The standard
  library's encodings are the fields of \<open>codec\<close>: \<^verbatim>\<open>json.Marshal\<close>, the strict
  decoder behind \<^verbatim>\<open>decodeJSON\<close>, base64 and the AEAD.  \<open>codec_laws\<close> states their
  documented behaviour: decoding yields values with valid text and distinct keys, such values
  survive encoding and decoding, base64 text is valid and decodes.

  The walk along a dotted path is the code's recursion on \<^verbatim>\<open>SplitN(path, ".", 2)\<close>.
\<close>

section \<open>JSON values and encodings\<close>

datatype json =
    JNull | JBool bool | JNumber string | JString string
  | JArray "json list" | JObject "(string \<times> json) list"

instance json :: countable
  by countable_datatype

type_synonym jobject = "(string, json) gomap"

fun json_valid :: "(string \<Rightarrow> bool) \<Rightarrow> (string \<Rightarrow> bool) \<Rightarrow> json \<Rightarrow> bool" where
  "json_valid txt num JNull \<longleftrightarrow> True"
| "json_valid txt num (JBool b) \<longleftrightarrow> True"
| "json_valid txt num (JNumber s) \<longleftrightarrow> num s"
| "json_valid txt num (JString s) \<longleftrightarrow> txt s"
| "json_valid txt num (JArray vs) \<longleftrightarrow> (\<forall>v \<in> set vs. json_valid txt num v)"
| "json_valid txt num (JObject kvs) \<longleftrightarrow>
     distinct (map fst kvs) \<and> (\<forall>(k, v) \<in> set kvs. txt k \<and> json_valid txt num v)"

record codec =
  cd_Marshal :: "json \<Rightarrow> bytes"
  cd_Unmarshal :: "bytes \<Rightarrow> json option"
  cd_EncodeToString :: "bytes \<Rightarrow> string"
  cd_DecodeString :: "string \<Rightarrow> bytes option"
  cd_gcm :: aead

definition codec_laws :: "(string \<Rightarrow> bool) \<Rightarrow> (string \<Rightarrow> bool) \<Rightarrow> codec \<Rightarrow> bool" where
  "codec_laws txt num cd \<longleftrightarrow>
     (\<forall>d v. cd_Unmarshal cd d = Some v \<longrightarrow> json_valid txt num v) \<and>
     (\<forall>v. json_valid txt num v \<longrightarrow> cd_Unmarshal cd (cd_Marshal cd v) = Some v) \<and>
     (\<forall>b. txt (cd_EncodeToString cd b) \<and> cd_DecodeString cd (cd_EncodeToString cd b) = Some b) \<and>
     aead_laws (cd_gcm cd)"

text \<open>Decoding into a Go map: \<^verbatim>\<open>null\<close> gives the nil map, any other non-object an error.\<close>

definition decodeJSON_object :: "codec \<Rightarrow> bytes \<Rightarrow> error + jobject" where
  "decodeJSON_object cd data =
     (case cd_Unmarshal cd data of
        Some (JObject kvs) \<Rightarrow> Inr kvs
      | Some JNull \<Rightarrow> Inr []
      | _ \<Rightarrow> Inl (Errorf ''json: cannot unmarshal into map''))"

text \<open>Decoding into \<^verbatim>\<open>[]string\<close>: \<^verbatim>\<open>null\<close> leaves the zero value.\<close>

fun json_string :: "json \<Rightarrow> string option" where
  "json_string (JString s) = Some s"
| "json_string JNull = Some []"
| "json_string _ = None"

definition decode_strings :: "codec \<Rightarrow> string \<Rightarrow> string list option" where
  "decode_strings cd s =
     (case cd_Unmarshal cd s of
        Some (JArray vs) \<Rightarrow> those (map json_string vs)
      | Some JNull \<Rightarrow> Some []
      | _ \<Rightarrow> None)"

definition encode_strings :: "codec \<Rightarrow> string list \<Rightarrow> string" where
  "encode_strings cd ss = cd_Marshal cd (JArray (map JString ss))"

section \<open>Metadata keys and subject tags\<close>

definition encryptedFieldsKey :: string where "encryptedFieldsKey = ''$encrypted_fields''"
definition encryptionKeyIDKey :: string where "encryptionKeyIDKey = ''$encryption_key_id''"
definition encryptedDEKKey :: string where "encryptedDEKKey = ''$encrypted_dek''"
definition encryptionAlgorithmKey :: string where "encryptionAlgorithmKey = ''$encryption_algorithm''"
definition encryptionAlgorithm :: string where "encryptionAlgorithm = ''AES-256-GCM''"
definition subjectTagsKey :: string where "subjectTagsKey = ''$subjects''"

lemmas metadata_keys = encryptedFieldsKey_def encryptionKeyIDKey_def encryptedDEKKey_def
  encryptionAlgorithmKey_def subjectTagsKey_def

definition GetSubjectTags :: "codec \<Rightarrow> metadata \<Rightarrow> string list" where
  "GetSubjectTags cd m =
     (case custom_get m subjectTagsKey of
        None \<Rightarrow> []
      | Some v \<Rightarrow> (case decode_strings cd v of None \<Rightarrow> [] | Some subjects \<Rightarrow> subjects))"

fun merge_tags :: "string list \<Rightarrow> string list \<Rightarrow> string list" where
  "merge_tags [] merged = merged"
| "merge_tags (s # ss) merged =
     (if s = [] then merge_tags ss merged
      else if s \<in> set merged then merge_tags ss merged
      else merge_tags ss (merged @ [s]))"

definition setSubjectTags :: "codec \<Rightarrow> metadata \<Rightarrow> string list \<Rightarrow> metadata" where
  "setSubjectTags cd m subjects =
     (let merged = merge_tags (GetSubjectTags cd m @ subjects) []
      in if length merged = 0 then m
         else WithCustom m subjectTagsKey (encode_strings cd merged))"

definition replaceSubjectTags :: "codec \<Rightarrow> metadata \<Rightarrow> string list \<Rightarrow> metadata" where
  "replaceSubjectTags cd m0 subjects =
     (let m = withoutCustomKeys m0 [subjectTagsKey]
      in if length subjects = 0 then m else setSubjectTags cd m subjects)"

definition eventTagsSubject :: "codec \<Rightarrow> metadata \<Rightarrow> string \<Rightarrow> bool" where
  "eventTagsSubject cd m subjectID \<longleftrightarrow> subjectID \<in> set (GetSubjectTags cd m)"

definition GetEncryptedFields :: "codec \<Rightarrow> metadata \<Rightarrow> string list" where
  "GetEncryptedFields cd m =
     (case custom_get m encryptedFieldsKey of
        None \<Rightarrow> []
      | Some v \<Rightarrow> (case decode_strings cd v of None \<Rightarrow> [] | Some flds \<Rightarrow> flds))"

definition custom_or_empty :: "metadata \<Rightarrow> string \<Rightarrow> string" where
  "custom_or_empty m k = (case custom_get m k of None \<Rightarrow> [] | Some v \<Rightarrow> v)"

definition GetEncryptionKeyID :: "metadata \<Rightarrow> string" where
  "GetEncryptionKeyID m = custom_or_empty m encryptionKeyIDKey"

definition GetEncryptionAlgorithm :: "metadata \<Rightarrow> string" where
  "GetEncryptionAlgorithm m = custom_or_empty m encryptionAlgorithmKey"

definition IsEncrypted :: "metadata \<Rightarrow> bool" where
  "IsEncrypted m \<longleftrightarrow> custom_get m encryptedFieldsKey \<noteq> None"

definition HasEncryptionEnvelope :: "metadata \<Rightarrow> bool" where
  "HasEncryptionEnvelope m \<longleftrightarrow>
     IsEncrypted m \<and> custom_or_empty m encryptionKeyIDKey \<noteq> [] \<and> custom_or_empty m encryptedDEKKey \<noteq> []"

section \<open>Sealing and unsealing one field\<close>

definition fieldAAD :: "string \<Rightarrow> string \<Rightarrow> bytes" where
  "fieldAAD streamID fieldPath = (if streamID = [] then fieldPath else streamID @ CHR 0x00 # fieldPath)"

abbreviation dot :: char where "dot \<equiv> CHR ''.''"

text \<open>The two branches of \<^verbatim>\<open>strings.SplitN(fieldPath, ".", 2)\<close>.\<close>

definition path_head :: "string \<Rightarrow> string" where
  "path_head p = takeWhile (\<lambda>c. c \<noteq> dot) p"

definition path_rest :: "string \<Rightarrow> string" where
  "path_rest p = tl (dropWhile (\<lambda>c. c \<noteq> dot) p)"

lemma splitN2_dot:
  "splitN2 dot p = (if dot \<in> set p then [path_head p, path_rest p] else [p])"
  by (simp add: splitN2_def path_head_def path_rest_def)

lemma length_path_rest: "dot \<in> set p \<Longrightarrow> length (path_rest p) < length p"
  unfolding path_rest_def by (induction p) (auto simp: less_Suc_eq)

function encryptJSONFieldWithPath ::
  "codec \<Rightarrow> bytes \<Rightarrow> jobject \<Rightarrow> string \<Rightarrow> string \<Rightarrow> string \<Rightarrow> bytes \<Rightarrow> error + (jobject \<times> bool)" where
  "encryptJSONFieldWithPath cd nonce data fieldPath fullPath streamID key =
     (if dot \<notin> set fieldPath then
        (case map_of data fieldPath of
           None \<Rightarrow> Inr (data, False)
         | Some val \<Rightarrow>
             (case AESGCMEncrypt (cd_gcm cd) nonce key (cd_Marshal cd val) (fieldAAD streamID fullPath) of
                Inl e \<Rightarrow> Inl e
              | Inr ciphertext \<Rightarrow>
                  Inr (AList.update fieldPath (JString (cd_EncodeToString cd ciphertext)) data, True)))
      else
        (case map_of data (path_head fieldPath) of
           None \<Rightarrow> Inr (data, False)
         | Some JNull \<Rightarrow> Inr (data, False)
         | Some (JObject childMap) \<Rightarrow>
             (case encryptJSONFieldWithPath cd nonce childMap (path_rest fieldPath) fullPath streamID key of
                Inl e \<Rightarrow> Inl e
              | Inr (child', b) \<Rightarrow> Inr (AList.update (path_head fieldPath) (JObject child') data, b))
         | Some _ \<Rightarrow> Inl (Errorf ''parent of encrypted field is not a JSON object'')))"
  by pat_completeness auto
termination
  by (relation "measure (\<lambda>(cd, nonce, data, fieldPath, fullPath, streamID, key). length fieldPath)")
     (auto simp: length_path_rest)

definition encryptJSONField ::
  "codec \<Rightarrow> bytes \<Rightarrow> jobject \<Rightarrow> string \<Rightarrow> string \<Rightarrow> bytes \<Rightarrow> error + (jobject \<times> bool)" where
  "encryptJSONField cd nonce data fieldPath streamID key =
     encryptJSONFieldWithPath cd nonce data fieldPath fieldPath streamID key"

definition tamperedFieldError :: "string \<Rightarrow> error" where
  "tamperedFieldError fullPath = Wrap fullPath ErrDecryptionFailed"

fun try_candidates ::
  "codec \<Rightarrow> bytes \<Rightarrow> bytes \<Rightarrow> bytes list \<Rightarrow> bytes list \<Rightarrow> error option \<Rightarrow> error + bytes" where
  "try_candidates cd key ciphertext [] seen firstErr =
     Inl (case firstErr of None \<Rightarrow> Errorf [] | Some e \<Rightarrow> e)"
| "try_candidates cd key ciphertext (aad # aads) seen firstErr =
     (if aad \<in> set seen then try_candidates cd key ciphertext aads seen firstErr
      else (case AESGCMDecrypt (cd_gcm cd) key ciphertext aad of
              Inr plaintext \<Rightarrow> Inr plaintext
            | Inl e \<Rightarrow> try_candidates cd key ciphertext aads (aad # seen)
                         (case firstErr of None \<Rightarrow> Some e | Some e' \<Rightarrow> Some e')))"

definition aad_candidates :: "string \<Rightarrow> string \<Rightarrow> string \<Rightarrow> bytes list" where
  "aad_candidates streamID fullPath leaf =
     [fieldAAD streamID fullPath, fieldAAD streamID leaf, fullPath, leaf]"

definition decryptFieldValue ::
  "codec \<Rightarrow> bytes \<Rightarrow> bytes \<Rightarrow> string \<Rightarrow> string \<Rightarrow> string \<Rightarrow> error + bytes" where
  "decryptFieldValue cd key ciphertext streamID fullPath leaf =
     try_candidates cd key ciphertext (aad_candidates streamID fullPath leaf) [] None"

function decryptJSONFieldWithPath ::
  "codec \<Rightarrow> jobject \<Rightarrow> string \<Rightarrow> string \<Rightarrow> string \<Rightarrow> bytes \<Rightarrow> error + jobject" where
  "decryptJSONFieldWithPath cd data fieldPath fullPath streamID key =
     (if dot \<notin> set fieldPath then
        (case map_of data fieldPath of
           None \<Rightarrow> Inl (tamperedFieldError fullPath)
         | Some (JString encoded) \<Rightarrow>
             (case cd_DecodeString cd encoded of
                None \<Rightarrow> Inl (Errorf ''failed to decode field'')
              | Some ciphertext \<Rightarrow>
                  (case decryptFieldValue cd key ciphertext streamID fullPath fieldPath of
                     Inl e \<Rightarrow> Inl e
                   | Inr plaintext \<Rightarrow>
                       (case cd_Unmarshal cd plaintext of
                          None \<Rightarrow> Inl (Errorf ''failed to unmarshal decrypted field'')
                        | Some restored \<Rightarrow> Inr (AList.update fieldPath restored data))))
         | Some _ \<Rightarrow> Inl (tamperedFieldError fullPath))
      else
        (case map_of data (path_head fieldPath) of
           None \<Rightarrow> Inl (tamperedFieldError fullPath)
         | Some (JObject childMap) \<Rightarrow>
             (case decryptJSONFieldWithPath cd childMap (path_rest fieldPath) fullPath streamID key of
                Inl e \<Rightarrow> Inl e
              | Inr child' \<Rightarrow> Inr (AList.update (path_head fieldPath) (JObject child') data))
         | Some _ \<Rightarrow> Inl (tamperedFieldError fullPath)))"
  by pat_completeness auto
termination
  by (relation "measure (\<lambda>(cd, data, fieldPath, fullPath, streamID, key). length fieldPath)")
     (auto simp: length_path_rest)

declare encryptJSONFieldWithPath.simps [simp del] decryptJSONFieldWithPath.simps [simp del]

definition decryptJSONField ::
  "codec \<Rightarrow> jobject \<Rightarrow> string \<Rightarrow> string \<Rightarrow> bytes \<Rightarrow> error + jobject" where
  "decryptJSONField cd data fieldPath streamID key =
     decryptJSONFieldWithPath cd data fieldPath fieldPath streamID key"

section \<open>Field order and configuration\<close>

definition fieldDepth :: "string \<Rightarrow> nat" where
  "fieldDepth path = length (filter (\<lambda>c. c = dot) path) + 1"

definition orderByDepth :: "string list \<Rightarrow> bool \<Rightarrow> string list" where
  "orderByDepth paths deepestFirst =
     (if \<not> list_ex (\<lambda>p. dot \<in> set p) paths then paths
      else if deepestFirst then sort_key (\<lambda>p. - int (fieldDepth p)) paths
      else sort_key (\<lambda>p. int (fieldDepth p)) paths)"

definition unsealOrder :: "string list \<Rightarrow> string list" where
  "unsealOrder recorded = orderByDepth recorded False"

record provider_ops =
  po_GenerateDataKey :: "bytes \<Rightarrow> string \<Rightarrow> error + data_key"
  po_DecryptDataKey :: "string \<Rightarrow> bytes \<Rightarrow> error + bytes"

record field_encryption_config =
  fe_provider :: "provider_ops option"
  fe_fields :: "(string, string list) gomap"
  fe_sealOrder :: "(string, string list) gomap"
  fe_defaultKeyID :: string
  fe_tenantKeyResolver :: "(string \<Rightarrow> string) option"
  fe_onDecryptionError :: "(error \<Rightarrow> string \<Rightarrow> metadata \<Rightarrow> error option) option"
  fe_requireKeyResolution :: bool
  fe_configErr :: "(string, error) gomap"

definition fields_of :: "field_encryption_config \<Rightarrow> string \<Rightarrow> string list" where
  "fields_of c eventType = (case map_of (fe_fields c) eventType of None \<Rightarrow> [] | Some ps \<Rightarrow> ps)"

fun add_fields :: "string list \<Rightarrow> string list \<Rightarrow> string list" where
  "add_fields existing [] = existing"
| "add_fields existing (f # fs) =
     (if f \<notin> set existing then add_fields (existing @ [f]) fs else add_fields existing fs)"

definition WithEncryptedFields ::
  "string \<Rightarrow> string list \<Rightarrow> field_encryption_config \<Rightarrow> field_encryption_config" where
  "WithEncryptedFields eventType flds c =
     c\<lparr>fe_fields := AList.update eventType (add_fields (fields_of c eventType) flds) (fe_fields c)\<rparr>"

text \<open>\<^verbatim>\<open>strings.Split(path, ".")\<close>.\<close>

function segs :: "string \<Rightarrow> string list" where
  "segs p = (if dot \<in> set p then path_head p # segs (path_rest p) else [p])"
  by pat_completeness auto
termination
  by (relation "measure length") (auto simp: length_path_rest)

declare segs.simps [simp del]

definition validateFieldPath :: "string \<Rightarrow> error option" where
  "validateFieldPath path =
     (if path = [] then Some (Wrap ''empty field path'' ErrInvalidEncryptedFieldPath)
      else if list_ex (\<lambda>seg. seg = []) (segs path)
      then Some (Wrap ''empty segment'' ErrInvalidEncryptedFieldPath)
      else None)"

definition first_path_error :: "string list \<Rightarrow> error option" where
  "first_path_error paths =
     (case filter (\<lambda>p. validateFieldPath p \<noteq> None) paths of
        [] \<Rightarrow> None
      | p # _ \<Rightarrow> validateFieldPath p)"

definition fe_finalize :: "field_encryption_config \<Rightarrow> field_encryption_config" where
  "fe_finalize c =
     c\<lparr>fe_configErr := concat (map (\<lambda>(ty, paths).
           (case first_path_error paths of None \<Rightarrow> [] | Some e \<Rightarrow> [(ty, e)])) (fe_fields c)),
       fe_sealOrder := concat (map (\<lambda>(ty, paths).
           (if list_ex (\<lambda>p. dot \<in> set p) paths then [(ty, orderByDepth paths True)] else []))
           (fe_fields c))\<rparr>"

definition NewFieldEncryptionConfig ::
  "(field_encryption_config \<Rightarrow> field_encryption_config) list \<Rightarrow> field_encryption_config" where
  "NewFieldEncryptionConfig opts =
     fe_finalize (fold (\<lambda>opt c. opt c) opts
       \<lparr>fe_provider = None, fe_fields = [], fe_sealOrder = [], fe_defaultKeyID = [],
        fe_tenantKeyResolver = None, fe_onDecryptionError = None, fe_requireKeyResolution = False,
        fe_configErr = []\<rparr>)"

definition sealPaths :: "field_encryption_config \<Rightarrow> string \<Rightarrow> string list" where
  "sealPaths c eventType =
     (case map_of (fe_sealOrder c) eventType of
        Some ordered \<Rightarrow> ordered
      | None \<Rightarrow> fields_of c eventType)"

definition HasEncryptedFields :: "field_encryption_config \<Rightarrow> string \<Rightarrow> bool" where
  "HasEncryptedFields c eventType \<longleftrightarrow> length (fields_of c eventType) > 0"

text \<open>The in-memory provider as a provider: at a clock reading, with the data key and the nonce
  taken from the seed.\<close>

definition local_ops :: "aead \<Rightarrow> time \<Rightarrow> local_provider \<Rightarrow> provider_ops" where
  "local_ops g now p =
     \<lparr>po_GenerateDataKey = \<lambda>seed k. snd (GenerateDataKey g (take 32 seed) (drop 32 seed) now p k),
      po_DecryptDataKey = \<lambda>k c. snd (DecryptDataKey g now p k c)\<rparr>"

section \<open>Key selection\<close>

definition primary_subject :: "codec \<Rightarrow> metadata \<Rightarrow> string" where
  "primary_subject cd m =
     (if md_TenantID m \<noteq> [] then md_TenantID m
      else (case GetSubjectTags cd m of [] \<Rightarrow> [] | t # _ \<Rightarrow> t))"

definition resolveKeyID :: "codec \<Rightarrow> field_encryption_config \<Rightarrow> metadata \<Rightarrow> string" where
  "resolveKeyID cd c m =
     (case fe_tenantKeyResolver c of
        None \<Rightarrow> fe_defaultKeyID c
      | Some resolver \<Rightarrow>
          let subject = primary_subject cd m
          in if subject \<noteq> [] \<and> resolver subject \<noteq> [] then resolver subject else fe_defaultKeyID c)"

definition selectKeyID ::
  "codec \<Rightarrow> field_encryption_config \<Rightarrow> string \<Rightarrow> metadata \<Rightarrow> error + string" where
  "selectKeyID cd c eventType m =
     (case (fe_requireKeyResolution c, fe_tenantKeyResolver c) of
        (True, Some resolver) \<Rightarrow>
          let i = primary_subject cd m;
              subjectID = (if md_TenantID m = [] then i else []);
              keyID = (if i \<noteq> [] then resolver i else [])
          in if keyID = []
             then Inl (NewEncryptionError [] [] (KeyResolutionError eventType (md_TenantID m) subjectID))
             else Inr keyID
      | _ \<Rightarrow>
          let keyID = resolveKeyID cd c m
          in if keyID = []
             then Inl (NewEncryptionError [] [] (Errorf ''no encryption key ID configured''))
             else Inr keyID)"

section \<open>Sealing and unsealing an event\<close>

text \<open>The random bytes one event draws: those the provider uses for the data key and the nonce of
  each field.\<close>

record entropy =
  en_seed :: bytes
  en_nonce :: "nat \<Rightarrow> bytes"

text \<open>The loop over the configured fields; \<open>nonce i\<close> is the random nonce drawn for the
  i-th field.\<close>

fun encrypt_loop ::
  "codec \<Rightarrow> (nat \<Rightarrow> bytes) \<Rightarrow> nat \<Rightarrow> string \<Rightarrow> string \<Rightarrow> bytes \<Rightarrow> string list \<Rightarrow> jobject \<Rightarrow> string list \<Rightarrow>
   error + (jobject \<times> string list)" where
  "encrypt_loop cd nonce i keyID streamID key [] data names = Inr (data, names)"
| "encrypt_loop cd nonce i keyID streamID key (fieldPath # paths) data names =
     (case encryptJSONField cd (nonce i) data fieldPath streamID key of
        Inl e \<Rightarrow> Inl (NewEncryptionError keyID fieldPath e)
      | Inr (data', encrypted) \<Rightarrow>
          encrypt_loop cd nonce (Suc i) keyID streamID key paths data'
            (if encrypted then names @ [fieldPath] else names))"

definition encryptFields ::
  "codec \<Rightarrow> entropy \<Rightarrow> field_encryption_config \<Rightarrow> string \<Rightarrow> string \<Rightarrow> bytes \<Rightarrow> metadata \<Rightarrow>
   error + (bytes \<times> metadata)" where
  "encryptFields cd en c streamID eventType data m =
     (let fieldPaths = sealPaths c eventType
      in if length fieldPaths = 0 then Inr (data, m)
         else (case map_of (fe_configErr c) eventType of
           Some err \<Rightarrow> Inl (NewEncryptionError [] [] err)
         | None \<Rightarrow>
         (case fe_provider c of
           None \<Rightarrow> Inl (NewEncryptionError [] [] (Errorf ''encryption provider not configured''))
         | Some provider \<Rightarrow>
         (case selectKeyID cd c eventType m of
           Inl e \<Rightarrow> Inl e
         | Inr keyID \<Rightarrow>
         (case po_GenerateDataKey provider (en_seed en) keyID of
           Inl e \<Rightarrow> Inl e
         | Inr dk \<Rightarrow>
         (case decodeJSON_object cd data of
           Inl e \<Rightarrow> Inl (NewEncryptionError keyID [] (Wrap ''field-level encryption requires JSON-encoded event data'' e))
         | Inr jsonData \<Rightarrow>
         (case encrypt_loop cd (en_nonce en) 0 keyID streamID (dk_Plaintext dk) fieldPaths jsonData [] of
           Inl e \<Rightarrow> Inl e
         | Inr (jsonData', names) \<Rightarrow>
             if length names = 0 then Inr (data, m)
             else Inr (cd_Marshal cd (JObject jsonData'),
                WithCustom (WithCustom (WithCustom (WithCustom m
                  encryptedFieldsKey (encode_strings cd names))
                  encryptionKeyIDKey (dk_KeyID dk))
                  encryptedDEKKey (cd_EncodeToString cd (dk_Ciphertext dk)))
                  encryptionAlgorithmKey encryptionAlgorithm))))))))"

fun decrypt_loop ::
  "codec \<Rightarrow> string \<Rightarrow> string \<Rightarrow> bytes \<Rightarrow> string list \<Rightarrow> jobject \<Rightarrow> error + jobject" where
  "decrypt_loop cd keyID streamID key [] data = Inr data"
| "decrypt_loop cd keyID streamID key (fieldPath # paths) data =
     (case decryptJSONField cd data fieldPath streamID key of
        Inl e \<Rightarrow> Inl (NewDecryptionError keyID fieldPath e)
      | Inr data' \<Rightarrow> decrypt_loop cd keyID streamID key paths data')"

definition decryptFields ::
  "codec \<Rightarrow> field_encryption_config \<Rightarrow> string \<Rightarrow> string \<Rightarrow> bytes \<Rightarrow> metadata \<Rightarrow> error + bytes" where
  "decryptFields cd c streamID eventType data m =
     (if \<not> IsEncrypted m then Inr data
      else (case fe_provider c of
        None \<Rightarrow> Inl (NewDecryptionError [] [] (Errorf ''encryption provider not configured''))
      | Some provider \<Rightarrow>
          let keyID = GetEncryptionKeyID m; alg = GetEncryptionAlgorithm m
          in if alg \<noteq> [] \<and> alg \<noteq> encryptionAlgorithm
             then Inl (NewDecryptionError keyID [] (Errorf ''unsupported algorithm''))
             else (case cd_DecodeString cd (custom_or_empty m encryptedDEKKey) of
               None \<Rightarrow> Inl (NewDecryptionError keyID [] (Errorf ''failed to decode encrypted DEK''))
             | Some encryptedDEK \<Rightarrow>
             (case po_DecryptDataKey provider keyID encryptedDEK of
               Inl err \<Rightarrow>
                 (case fe_onDecryptionError c of
                    None \<Rightarrow> Inl err
                  | Some handler \<Rightarrow>
                      (case handler err eventType m of None \<Rightarrow> Inr data | Some handlerErr \<Rightarrow> Inl handlerErr))
             | Inr dekPlaintext \<Rightarrow>
                 let fieldNames = GetEncryptedFields cd m
                 in if length fieldNames = 0 then Inr data
                    else (case decodeJSON_object cd data of
                      Inl e \<Rightarrow> Inl (NewDecryptionError keyID [] (Wrap ''failed to parse event data'' e))
                    | Inr jsonData \<Rightarrow>
                    (case decrypt_loop cd keyID streamID dekPlaintext (unsealOrder fieldNames) jsonData of
                      Inl e \<Rightarrow> Inl e
                    | Inr jsonData' \<Rightarrow> Inr (cd_Marshal cd (JObject jsonData'))))))))"

end
