(* ===== verification/Sealing.thy ===== *)
theory Sealing
  imports Field_Encryption
begin

text \<open>
  Correctness of field encryption.  \<open>jget\<close> and \<open>jput\<close> read and replace the value at a
  list of path segments; \<open>encrypt_walk\<close> and \<open>decrypt_walk\<close> show that the code's
  recursive walks are a \<open>jget\<close> followed by a \<open>jput\<close>.  Unsealing two different
  fields of equal depth commutes (\<open>unseal_swap\<close>), so unsealing shallowest-first undoes
  sealing deepest-first even for overlapping paths (\<open>encrypt_loop_undo\<close>).
\<close>

section \<open>The walk on path segments\<close>

fun jget :: "string list \<Rightarrow> jobject \<Rightarrow> json option" where
  "jget [] ob = None"
| "jget [k] ob = map_of ob k"
| "jget (k # k' # ks) ob = (case map_of ob k of Some (JObject c) \<Rightarrow> jget (k' # ks) c | _ \<Rightarrow> None)"

fun jput :: "string list \<Rightarrow> json \<Rightarrow> jobject \<Rightarrow> jobject" where
  "jput [] v ob = ob"
| "jput [k] v ob = AList.update k v ob"
| "jput (k # k' # ks) v ob =
     (case map_of ob k of
        Some (JObject c) \<Rightarrow> AList.update k (JObject (jput (k' # ks) v c)) ob
      | _ \<Rightarrow> ob)"

lemma update_commute:
  "k \<noteq> k' \<Longrightarrow> map_of al k \<noteq> None \<Longrightarrow>
   AList.update k v (AList.update k' v' al) = AList.update k' v' (AList.update k v al)"
  by (induction al) auto

lemma update_same: "map_of al k = Some v \<Longrightarrow> AList.update k v al = al"
  by (induction al) auto

lemma map_of_update: "map_of (AList.update k v al) k' = (if k' = k then Some v else map_of al k')"
  by (simp add: update_conv)

lemma update_update [simp]: "AList.update k v (AList.update k w al) = AList.update k v al"
  by (induction al) auto

lemma jget_jput: "jget ss ob \<noteq> None \<Longrightarrow> jget ss (jput ss v ob) = Some v"
  by (induction ss ob rule: jget.induct)
     (auto simp: map_of_update split: option.splits json.splits)

lemma jput_jput: "jget ss ob \<noteq> None \<Longrightarrow> jput ss v (jput ss w ob) = jput ss v ob"
  by (induction ss ob rule: jget.induct)
     (auto simp: map_of_update split: option.splits json.splits)

lemma jput_same: "jget ss ob = Some v \<Longrightarrow> jput ss v ob = ob"
  by (induction ss ob rule: jget.induct)
     (auto simp: update_same split: option.splits json.splits)

lemma jget_jput_other:
  "length ss = length tt \<Longrightarrow> ss \<noteq> tt \<Longrightarrow> jget tt (jput ss v ob) = jget tt ob"
proof (induction ss ob arbitrary: tt rule: jget.induct)
  case (2 k ob)
  then show ?case by (cases tt) (auto simp: map_of_update)
next
  case (3 k k' ks ob)
  then obtain t t' ts where tt: "tt = t # t' # ts"
    by (metis length_Suc_conv)
  show ?case
    using 3 by (auto simp: tt map_of_update split: option.splits json.splits)
qed auto

lemma jput_commute:
  "length ss = length tt \<Longrightarrow> ss \<noteq> tt \<Longrightarrow> jget ss ob \<noteq> None \<Longrightarrow> jget tt ob \<noteq> None \<Longrightarrow>
   jput ss v (jput tt w ob) = jput tt w (jput ss v ob)"
proof (induction ss ob arbitrary: tt rule: jget.induct)
  case (2 k ob)
  then obtain t where "tt = [t]" by (cases tt) auto
  with 2 show ?case by (simp add: update_commute)
next
  case (3 k k' ks ob)
  then obtain t t' ts where tt: "tt = t # t' # ts"
    by (metis length_Suc_conv)
  obtain c where c: "map_of ob k = Some (JObject c)" and gc: "jget (k' # ks) c \<noteq> None"
    using 3 by (auto split: option.splits json.splits)
  obtain d where d: "map_of ob t = Some (JObject d)" and gd: "jget (t' # ts) d \<noteq> None"
    using 3 by (auto simp: tt split: option.splits json.splits)
  show ?case
  proof (cases "k = t")
    case True
    with 3 c d gc gd show ?thesis by (simp add: tt map_of_update)
  next
    case False
    with c d show ?thesis by (simp add: tt map_of_update update_commute)
  qed
qed auto

lemma json_valid_member:
  "json_valid txt num (JObject ob) \<Longrightarrow> map_of ob k = Some v \<Longrightarrow> json_valid txt num v"
  using map_of_SomeD [of ob k v] by fastforce

lemma jget_valid:
  "json_valid txt num (JObject ob) \<Longrightarrow> jget ss ob = Some v \<Longrightarrow> json_valid txt num v"
proof (induction ss ob rule: jget.induct)
  case (2 k ob)
  then show ?case by (simp only: jget.simps json_valid_member)
next
  case (3 k k' ks ob)
  then obtain c where c: "map_of ob k = Some (JObject c)" "jget (k' # ks) c = Some v"
    by (auto split: option.splits json.splits)
  from "3.prems"(1) c(1) have "json_valid txt num (JObject c)" by (rule json_valid_member)
  with "3.IH" c show ?case by blast
qed simp

lemma update_valid:
  assumes "json_valid txt num (JObject ob)" and "json_valid txt num v" and "map_of ob k \<noteq> None"
  shows "json_valid txt num (JObject (AList.update k v ob))"
proof -
  have "txt k" using assms(1,3) by (auto dest: map_of_SomeD)
  then show ?thesis
    using assms set_update_subset [of k v ob] by (auto simp: distinct_update)
qed

lemma jput_valid:
  "json_valid txt num (JObject ob) \<Longrightarrow> json_valid txt num v \<Longrightarrow> jget ss ob \<noteq> None \<Longrightarrow>
   json_valid txt num (JObject (jput ss v ob))"
proof (induction ss ob rule: jget.induct)
  case (2 k ob)
  then show ?case by (simp only: jput.simps jget.simps) (rule update_valid)
next
  case (3 k k' ks ob)
  then obtain c where c: "map_of ob k = Some (JObject c)" "jget (k' # ks) c \<noteq> None"
    by (auto split: option.splits json.splits)
  from "3.prems"(1) c(1) have "json_valid txt num (JObject c)" by (rule json_valid_member)
  with "3.IH" "3.prems" c have "json_valid txt num (JObject (jput (k' # ks) v c))" by blast
  with "3.prems" c show ?case
    using update_valid [of "txt" num ob "JObject (jput (k' # ks) v c)" k]
    by (simp only: jput.simps option.case json.case) blast
qed simp

section \<open>Paths and segments\<close>

lemma path_join: "dot \<in> set p \<Longrightarrow> p = path_head p @ dot # path_rest p"
  unfolding path_head_def path_rest_def by (induction p) auto

lemma segs_nonempty [simp]: "segs p \<noteq> []"
  by (subst segs.simps) simp

lemma segs_leaf: "dot \<notin> set p \<Longrightarrow> segs p = [p]"
  by (subst segs.simps) simp

lemma segs_nested: "dot \<in> set p \<Longrightarrow> segs p = path_head p # segs (path_rest p)"
  by (subst segs.simps) simp

lemma dot_notin_head: "dot \<notin> set (path_head p)"
  unfolding path_head_def by (metis (mono_tags, lifting) set_takeWhileD)

lemma length_segs: "length (segs p) = fieldDepth p"
proof (induction p rule: segs.induct)
  case (1 p)
  show ?case
  proof (cases "dot \<in> set p")
    case True
    have "filter (\<lambda>c. c = dot) p = filter (\<lambda>c. c = dot) (path_head p @ dot # path_rest p)"
      using path_join [OF True] by simp
    moreover have "filter (\<lambda>c. c = dot) (path_head p) = []"
      using dot_notin_head by (auto simp: filter_empty_conv)
    ultimately show ?thesis
      using True 1 by (simp add: segs_nested fieldDepth_def)
  next
    case False
    then have "filter (\<lambda>c. c = dot) p = []" by (auto simp: filter_empty_conv)
    with False show ?thesis by (simp add: segs_leaf fieldDepth_def)
  qed
qed

lemma segs_cases_len: "segs p = [a] \<Longrightarrow> dot \<notin> set p \<and> a = p"
  by (cases "dot \<in> set p") (auto simp: segs_leaf segs_nested)

lemma segs_inj: "segs p = segs q \<Longrightarrow> p = q"
proof (induction p arbitrary: q rule: segs.induct)
  case (1 p)
  show ?case
  proof (cases "dot \<in> set p")
    case True
    with 1(2) have q: "dot \<in> set q"
      by (metis list.inject segs_leaf segs_nested segs_nonempty)
    with True 1 have "path_head p = path_head q" "path_rest p = path_rest q"
      by (simp_all add: segs_nested)
    with True q show ?thesis by (metis path_join)
  next
    case False
    with 1(2) show ?thesis by (metis segs_cases_len segs_leaf)
  qed
qed

lemma jget_segs:
  "jget (segs p) ob =
     (if dot \<in> set p
      then (case map_of ob (path_head p) of Some (JObject c) \<Rightarrow> jget (segs (path_rest p)) c | _ \<Rightarrow> None)
      else map_of ob p)"
  by (cases "segs (path_rest p)")
     (auto simp: segs_leaf segs_nested split: option.splits json.splits)

lemma jput_segs:
  "jput (segs p) v ob =
     (if dot \<in> set p
      then (case map_of ob (path_head p) of
              Some (JObject c) \<Rightarrow> AList.update (path_head p) (JObject (jput (segs (path_rest p)) v c)) ob
            | _ \<Rightarrow> ob)
      else AList.update p v ob)"
  by (cases "segs (path_rest p)")
     (auto simp: segs_leaf segs_nested split: option.splits json.splits)

lemma last_segs_nested: "dot \<in> set p \<Longrightarrow> last (segs p) = last (segs (path_rest p))"
  by (simp add: segs_nested)

section \<open>Sealing and unsealing\<close>

lemma encrypt_walk:
  "encryptJSONFieldWithPath cd nonce ob p full sid key = Inr (ob', b) \<Longrightarrow>
   (if b
    then \<exists>val c. jget (segs p) ob = Some val \<and>
           AESGCMEncrypt (cd_gcm cd) nonce key (cd_Marshal cd val) (fieldAAD sid full) = Inr c \<and>
           ob' = jput (segs p) (JString (cd_EncodeToString cd c)) ob
    else ob' = ob)"
proof (induction cd nonce ob p full sid key arbitrary: ob' b rule: encryptJSONFieldWithPath.induct)
  case (1 cd nonce ob p full sid key)
  show ?case
  proof (cases "dot \<in> set p")
    case False
    with "1.prems" show ?thesis
      by (subst (asm) encryptJSONFieldWithPath.simps)
         (auto simp: segs_leaf split: option.splits sum.splits)
  next
    case nested: True
    note eq = "1.prems" [unfolded encryptJSONFieldWithPath.simps [of cd nonce ob p full sid key], simplified nested, simplified]
    show ?thesis
    proof (cases "\<exists>c. map_of ob (path_head p) = Some (JObject c)")
      case False
      with eq show ?thesis by (auto split: option.splits json.splits)
    next
      case True
      then obtain c where c: "map_of ob (path_head p) = Some (JObject c)" by blast
      with eq obtain c' where c': "encryptJSONFieldWithPath cd nonce c (path_rest p) full sid key = Inr (c', b)"
        and ob': "ob' = AList.update (path_head p) (JObject c') ob"
        by (auto split: sum.splits)
      have "if b
        then \<exists>val d. jget (segs (path_rest p)) c = Some val \<and>
               AESGCMEncrypt (cd_gcm cd) nonce key (cd_Marshal cd val) (fieldAAD sid full) = Inr d \<and>
               c' = jput (segs (path_rest p)) (JString (cd_EncodeToString cd d)) c
        else c' = c"
        by (rule "1.IH" [OF _ c refl c']) (use nested in simp)
      with c ob' nested show ?thesis
        by (auto simp: jget_segs [of p] jput_segs [of p] update_same split: if_splits)
    qed
  qed
qed

definition unsealed ::
  "codec \<Rightarrow> jobject \<Rightarrow> string \<Rightarrow> string \<Rightarrow> string \<Rightarrow> bytes \<Rightarrow> json \<Rightarrow> bool" where
  "unsealed cd ob p full sid key v \<longleftrightarrow>
     (\<exists>s c d. jget (segs p) ob = Some (JString s) \<and> cd_DecodeString cd s = Some c \<and>
        decryptFieldValue cd key c sid full (last (segs p)) = Inr d \<and> cd_Unmarshal cd d = Some v)"

lemma decrypt_walk:
  "decryptJSONFieldWithPath cd ob p full sid key = Inr ob' \<longleftrightarrow>
   (\<exists>v. unsealed cd ob p full sid key v \<and> ob' = jput (segs p) v ob)"
proof (induction cd ob p full sid key arbitrary: ob' rule: decryptJSONFieldWithPath.induct)
  case (1 cd ob p full sid key)
  show ?case
  proof (cases "dot \<in> set p")
    case False
    then show ?thesis
      by (subst decryptJSONFieldWithPath.simps)
         (auto simp: segs_leaf unsealed_def split: option.splits sum.splits json.splits)
  next
    case nested: True
    show ?thesis
    proof (cases "\<exists>c. map_of ob (path_head p) = Some (JObject c)")
      case False
      with nested show ?thesis
        by (subst decryptJSONFieldWithPath.simps)
           (auto simp: unsealed_def jget_segs [of p] split: option.splits json.splits)
    next
      case True
      then obtain c where c: "map_of ob (path_head p) = Some (JObject c)" by blast
      have "decryptJSONFieldWithPath cd ob p full sid key = Inr ob' \<longleftrightarrow>
          (\<exists>c'. decryptJSONFieldWithPath cd c (path_rest p) full sid key = Inr c' \<and>
                ob' = AList.update (path_head p) (JObject c') ob)"
        using nested c by (subst decryptJSONFieldWithPath.simps) (auto split: sum.splits)
      also have "\<dots> \<longleftrightarrow>
          (\<exists>v. unsealed cd c (path_rest p) full sid key v \<and>
               ob' = AList.update (path_head p) (JObject (jput (segs (path_rest p)) v c)) ob)"
        using "1.IH" [OF _ c] nested by auto
      also have "\<dots> \<longleftrightarrow> (\<exists>v. unsealed cd ob p full sid key v \<and> ob' = jput (segs p) v ob)"
        using nested c by (simp add: unsealed_def jget_segs [of p] jput_segs [of p] last_segs_nested)
      finally show ?thesis .
    qed
  qed
qed

lemma first_candidate:
  assumes "AESGCMDecrypt (cd_gcm cd) key c (fieldAAD sid full) = Inr d"
  shows "decryptFieldValue cd key c sid full leaf = Inr d"
  using assms by (simp add: decryptFieldValue_def aad_candidates_def)

lemma codec_lawsD:
  assumes "codec_laws txt num cd"
  shows "cd_Unmarshal cd d = Some v \<Longrightarrow> json_valid txt num v"
    "json_valid txt num v \<Longrightarrow> cd_Unmarshal cd (cd_Marshal cd v) = Some v"
    "txt (cd_EncodeToString cd b)" "cd_DecodeString cd (cd_EncodeToString cd b) = Some b"
    "aead_laws (cd_gcm cd)"
  using assms by (auto simp: codec_laws_def)

text \<open>Sealing a field and unsealing it again gives the object back.\<close>

lemma seal_unseal_field:
  assumes laws: "codec_laws txt num cd" and n: "length nonce = NonceSize"
    and valid: "json_valid txt num (JObject ob)"
    and enc: "encryptJSONField cd nonce ob p sid key = Inr (ob', True)"
  shows "decryptJSONField cd ob' p sid key = Inr ob" and "json_valid txt num (JObject ob')"
proof -
  obtain val c where val: "jget (segs p) ob = Some val"
    and c: "AESGCMEncrypt (cd_gcm cd) nonce key (cd_Marshal cd val) (fieldAAD sid p) = Inr c"
    and ob': "ob' = jput (segs p) (JString (cd_EncodeToString cd c)) ob"
    using encrypt_walk [OF enc [unfolded encryptJSONField_def]] by auto
  have v: "json_valid txt num val" using valid val by (rule jget_valid)
  have "decryptFieldValue cd key c sid p (last (segs p)) = Inr (cd_Marshal cd val)"
    by (rule first_candidate) (rule AESGCM_roundtrip [OF codec_lawsD(5) [OF laws] n c])
  then have "unsealed cd ob' p p sid key val"
    using val codec_lawsD [OF laws] v by (auto simp: unsealed_def ob' jget_jput)
  moreover have "jput (segs p) val ob' = ob"
    using val by (simp add: ob' jput_jput jput_same)
  ultimately show "decryptJSONField cd ob' p sid key = Inr ob"
    by (auto simp: decryptJSONField_def decrypt_walk)
  show "json_valid txt num (JObject ob')"
    unfolding ob' by (rule jput_valid) (use valid val codec_lawsD(3) [OF laws] in simp_all)
qed

section \<open>Seal order and unseal order\<close>

lemma depth_one: "dot \<notin> set p \<Longrightarrow> fieldDepth p = 1"
  by (auto simp: fieldDepth_def filter_empty_conv)

lemma flat_depths: "\<not> list_ex (\<lambda>p. dot \<in> set p) ps \<Longrightarrow> p \<in> set ps \<Longrightarrow> fieldDepth p = 1"
  by (auto simp: list_ex_iff depth_one)

lemma sorted_const: "\<forall>x \<in> set xs. f x = c \<Longrightarrow> sorted (map f xs)" for c :: "'b :: linorder"
  by (induction xs) auto

lemma unsealOrder_sort: "unsealOrder ps = sort_key (\<lambda>p. int (fieldDepth p)) ps"
proof (cases "list_ex (\<lambda>p. dot \<in> set p) ps")
  case False
  then have "sorted (map (\<lambda>p. int (fieldDepth p)) ps)"
    by (intro sorted_const [where c = 1]) (auto simp: flat_depths)
  then have "sort_key (\<lambda>p. int (fieldDepth p)) ps = ps" by (rule sort_key_id_if_sorted)
  with False show ?thesis by (simp add: unsealOrder_def orderByDepth_def)
qed (simp add: unsealOrder_def orderByDepth_def)

lemma map_of_concat_options:
  assumes "gm_wf fs"
  shows "map_of (concat (map (\<lambda>(k, v). if Q v then [(k, g v)] else []) fs)) k =
     (case map_of fs k of None \<Rightarrow> None | Some v \<Rightarrow> if Q v then Some (g v) else None)"
  using assms
proof (induction fs)
  case (Cons kv fs)
  obtain k' v' where kv: "kv = (k', v')" by (cases kv)
  have "k' \<notin> fst ` set (concat (map (\<lambda>(k, v). if Q v then [(k, g v)] else []) fs))"
    using Cons.prems by (force simp: kv split: if_splits)
  then have "map_of (concat (map (\<lambda>(k, v). if Q v then [(k, g v)] else []) fs)) k' = None"
    by (simp add: map_of_eq_None_iff)
  with Cons show ?case by (auto simp: kv map_add_def split: option.splits)
qed simp

lemma sealPaths_finalize:
  assumes "gm_wf (fe_fields c)"
  shows "sealPaths (fe_finalize c) ty = orderByDepth (fields_of c ty) True"
  using assms
  by (simp add: sealPaths_def fe_finalize_def map_of_concat_options fields_of_def orderByDepth_def
      split: option.splits)

lemma sealPaths_deepest_first:
  assumes "gm_wf (fe_fields c)"
  shows "sorted (map (\<lambda>p. - int (fieldDepth p)) (sealPaths (fe_finalize c) ty))"
proof (cases "list_ex (\<lambda>p. dot \<in> set p) (fields_of c ty)")
  case True
  then show ?thesis by (simp add: sealPaths_finalize [OF assms] orderByDepth_def sorted_sort_key)
next
  case False
  then have "sorted (map (\<lambda>p. - int (fieldDepth p)) (fields_of c ty))"
    by (intro sorted_const [where c = "- 1"]) (auto simp: flat_depths)
  with False show ?thesis by (simp add: sealPaths_finalize [OF assms] orderByDepth_def)
qed

text \<open>Unsealing two different fields of the same depth commutes.\<close>

lemma unsealed_other:
  assumes "fieldDepth p = fieldDepth q" and "p \<noteq> q"
  shows "unsealed cd (jput (segs q) w ob) p full sid key v = unsealed cd ob p full sid key v"
proof -
  have "segs q \<noteq> segs p" using assms(2) segs_inj by metis
  then have "jget (segs p) (jput (segs q) w ob) = jget (segs p) ob"
    by (rule jget_jput_other [rotated]) (simp add: length_segs assms(1))
  then show ?thesis by (simp add: unsealed_def)
qed

lemma unseal_swap:
  assumes d: "fieldDepth p = fieldDepth q"
    and "decryptJSONField cd ob q sid key = Inr ob1" and "decryptJSONField cd ob1 p sid key = Inr ob2"
  shows "\<exists>ob1'. decryptJSONField cd ob p sid key = Inr ob1' \<and> decryptJSONField cd ob1' q sid key = Inr ob2"
proof (cases "p = q")
  case True
  with assms show ?thesis by blast
next
  case False
  from assms(2) obtain w where w: "unsealed cd ob q q sid key w" "ob1 = jput (segs q) w ob"
    by (auto simp: decryptJSONField_def decrypt_walk)
  from assms(3) obtain v where v: "unsealed cd ob1 p p sid key v" "ob2 = jput (segs p) v ob1"
    by (auto simp: decryptJSONField_def decrypt_walk)
  have v': "unsealed cd ob p p sid key v"
    using v(1) unsealed_other [OF d False] by (simp add: w(2))
  have w': "unsealed cd (jput (segs p) v ob) q q sid key w"
    using w(1) unsealed_other [OF d [symmetric]] False by auto
  have "segs p \<noteq> segs q" using False segs_inj by metis
  then have "jput (segs p) v (jput (segs q) w ob) = jput (segs q) w (jput (segs p) v ob)"
    using v' w(1) by (intro jput_commute) (auto simp: length_segs d unsealed_def)
  with v' w' v(2) w(2) show ?thesis
    by (auto simp: decryptJSONField_def decrypt_walk)
qed

lemma decrypt_loop_append:
  "decrypt_loop cd k sid key (ps @ qs) ob =
     (case decrypt_loop cd k sid key ps ob of Inl e \<Rightarrow> Inl e | Inr ob' \<Rightarrow> decrypt_loop cd k sid key qs ob')"
  by (induction ps arbitrary: ob) (auto split: sum.splits)

lemma unseal_move_front:
  assumes "\<forall>q \<in> set E. fieldDepth q = fieldDepth p"
    and "decrypt_loop cd k sid key E ob = Inr ob1" and "decryptJSONField cd ob1 p sid key = Inr ob2"
  shows "decrypt_loop cd k sid key (p # E) ob = Inr ob2"
  using assms
proof (induction E arbitrary: ob)
  case (Cons q E)
  from Cons.prems(2) obtain obq where q: "decryptJSONField cd ob q sid key = Inr obq"
    and rest: "decrypt_loop cd k sid key E obq = Inr ob1"
    by (auto split: sum.splits)
  from Cons.IH [OF _ rest Cons.prems(3)] Cons.prems(1)
  have "decrypt_loop cd k sid key (p # E) obq = Inr ob2" by simp
  then obtain obp where p: "decryptJSONField cd obq p sid key = Inr obp"
    and r2: "decrypt_loop cd k sid key E obp = Inr ob2"
    by (auto split: sum.splits)
  from unseal_swap [OF _ q p] Cons.prems(1)
  obtain ob1' where "decryptJSONField cd ob p sid key = Inr ob1'" "decryptJSONField cd ob1' q sid key = Inr obp"
    by auto
  with r2 show ?case by simp
qed simp

lemma insort_key_max:
  fixes f :: "'a \<Rightarrow> 'b :: linorder"
  assumes "sorted (map f xs)" and "\<forall>x \<in> set xs. f x \<le> f p"
  shows "\<exists>L E. xs = L @ E \<and> insort_key f p xs = L @ p # E \<and> (\<forall>x \<in> set E. f x = f p)"
  using assms
proof (induction xs)
  case (Cons x xs)
  show ?case
  proof (cases "f p \<le> f x")
    case True
    then have "\<forall>y \<in> set (x # xs). f y = f p"
      using Cons.prems by (auto intro: order.antisym order.trans)
    with True show ?thesis by (intro exI [of _ "[]"] exI [of _ "x # xs"]) simp
  next
    case False
    from Cons obtain L E where "xs = L @ E" "insort_key f p xs = L @ p # E" "\<forall>x \<in> set E. f x = f p"
      by auto
    with False show ?thesis by (intro exI [of _ "x # L"] exI [of _ E]) simp
  qed
qed simp

lemma encrypt_loop_undo:
  assumes laws: "codec_laws txt num cd" and n: "\<forall>i. length (nonce i) = NonceSize"
  shows "encrypt_loop cd nonce i k sid key ps ob names = Inr (ob', names') \<Longrightarrow>
    json_valid txt num (JObject ob) \<Longrightarrow> sorted (map (\<lambda>p. - int (fieldDepth p)) ps) \<Longrightarrow>
    json_valid txt num (JObject ob') \<and>
    (\<exists>es. names' = names @ es \<and> set es \<subseteq> set ps \<and>
       decrypt_loop cd k' sid key (sort_key (\<lambda>p. int (fieldDepth p)) es) ob' = Inr ob)"
proof (induction ps arbitrary: i ob names)
  case (Cons p ps)
  from Cons.prems(1) obtain ob1 b where one: "encryptJSONField cd (nonce i) ob p sid key = Inr (ob1, b)"
    and rest: "encrypt_loop cd nonce (Suc i) k sid key ps ob1 (if b then names @ [p] else names) = Inr (ob', names')"
    by (auto split: sum.splits)
  show ?case
  proof (cases b)
    case False
    with encrypt_walk [OF one [unfolded encryptJSONField_def]] have "ob1 = ob" by simp
    with Cons.IH [OF rest] Cons.prems False show ?thesis by fastforce
  next
    case True
    with one have one': "encryptJSONField cd (nonce i) ob p sid key = Inr (ob1, True)" by simp
    note undo = seal_unseal_field [OF laws n [rule_format] Cons.prems(2) one']
    from Cons.IH [OF rest undo(2)] Cons.prems(3) True obtain es where
      v: "json_valid txt num (JObject ob')" and es: "names' = (names @ [p]) @ es" "set es \<subseteq> set ps"
      and d: "decrypt_loop cd k' sid key (sort_key (\<lambda>p. int (fieldDepth p)) es) ob' = Inr ob1"
      by auto
    let ?f = "\<lambda>p. int (fieldDepth p)"
    have "\<forall>q \<in> set (sort_key ?f es). ?f q \<le> ?f p"
      using es(2) Cons.prems(3) by auto
    from insort_key_max [OF sorted_sort_key this] obtain L E where
      LE: "sort_key ?f es = L @ E" "insort_key ?f p (sort_key ?f es) = L @ p # E"
        "\<forall>q \<in> set E. fieldDepth q = fieldDepth p"
      by auto
    from d LE(1) obtain obL where L: "decrypt_loop cd k' sid key L ob' = Inr obL"
      and E: "decrypt_loop cd k' sid key E obL = Inr ob1"
      by (auto simp: decrypt_loop_append split: sum.splits)
    from unseal_move_front [OF LE(3) E undo(1)] L
    have "decrypt_loop cd k' sid key (sort_key ?f (p # es)) ob' = Inr ob"
      using LE(2) by (simp add: decrypt_loop_append del: decrypt_loop.simps)
    with v es show ?thesis by (intro conjI exI [of _ "p # es"]) auto
  qed
qed simp

section \<open>Whole events\<close>

lemma jget_Nil [simp]: "jget ss [] = None"
  by (cases ss; cases "tl ss") (auto split: option.splits)

lemma decode_encode_strings:
  assumes "codec_laws txt num cd" and "\<forall>s \<in> set ss. txt s"
  shows "decode_strings cd (encode_strings cd ss) = Some ss"
proof -
  have "json_valid txt num (JArray (map JString ss))" using assms(2) by simp
  then have "cd_Unmarshal cd (encode_strings cd ss) = Some (JArray (map JString ss))"
    unfolding encode_strings_def by (rule codec_lawsD(2) [OF assms(1)])
  moreover have "those (map json_string (map JString ss)) = Some ss"
    by (induction ss) auto
  ultimately show ?thesis by (simp add: decode_strings_def)
qed

lemma encrypt_loop_empty:
  "encrypt_loop cd nonce i k sid key ps [] names = Inr (ob', names') \<Longrightarrow> names' = names"
proof (induction ps arbitrary: i names)
  case (Cons p ps)
  then obtain ob1 b where one: "encryptJSONField cd (nonce i) [] p sid key = Inr (ob1, b)"
    and rest: "encrypt_loop cd nonce (Suc i) k sid key ps ob1 (if b then names @ [p] else names) = Inr (ob', names')"
    by (auto split: sum.splits)
  from encrypt_walk [OF one [unfolded encryptJSONField_def]] have "\<not> b" "ob1 = []"
    by (auto split: if_splits)
  with Cons.IH rest show ?case by simp
qed simp

lemma decodeJSON_objectD:
  assumes "decodeJSON_object cd data = Inr ob" and "ob \<noteq> []"
  shows "cd_Unmarshal cd data = Some (JObject ob)"
  using assms by (auto simp: decodeJSON_object_def split: option.splits json.splits)

lemma decodeJSON_object_valid:
  assumes "codec_laws txt num cd" and "decodeJSON_object cd data = Inr ob"
  shows "json_valid txt num (JObject ob)"
proof (cases "ob = []")
  case False
  with decodeJSON_objectD assms(2) show ?thesis by (metis codec_lawsD(1) [OF assms(1)])
qed simp

lemma encryptFields_cases:
  assumes "encryptFields cd en c sid ty data m = Inr (data', m')"
  obtains (plain) "data' = data" "m' = m"
  | (sealed) pr keyID dk ob ob' names where
      "fe_provider c = Some pr" "po_GenerateDataKey pr (en_seed en) keyID = Inr dk"
      "decodeJSON_object cd data = Inr ob"
      "encrypt_loop cd (en_nonce en) 0 keyID sid (dk_Plaintext dk) (sealPaths c ty) ob [] = Inr (ob', names)"
      "names \<noteq> []" "data' = cd_Marshal cd (JObject ob')"
      "m' = WithCustom (WithCustom (WithCustom (WithCustom m
        encryptedFieldsKey (encode_strings cd names)) encryptionKeyIDKey (dk_KeyID dk))
        encryptedDEKKey (cd_EncodeToString cd (dk_Ciphertext dk))) encryptionAlgorithmKey encryptionAlgorithm"
  using assms unfolding encryptFields_def Let_def
  by (auto split: if_splits option.splits sum.splits)

text \<open>What the envelope adds to the metadata.\<close>

lemma encryptFields_metadata:
  assumes "encryptFields cd en c sid ty data m = Inr (data', m')"
  shows "k \<notin> {encryptedFieldsKey, encryptionKeyIDKey, encryptedDEKKey, encryptionAlgorithmKey} \<Longrightarrow>
      custom_get m' k = custom_get m k"
    and "\<not> IsEncrypted m' \<Longrightarrow> data' = data \<and> m' = m"
  using assms by (cases rule: encryptFields_cases; auto simp: IsEncrypted_def metadata_keys)+

text \<open>Only payloads that decode to a JSON object are sealed.\<close>

lemma sealed_payload_decodes:
  assumes "encryptFields cd en c sid ty data m = Inr (data', m')"
    and "IsEncrypted m'" and "\<not> IsEncrypted m"
  shows "\<exists>v. cd_Unmarshal cd data = Some v"
  using assms(1)
proof (cases rule: encryptFields_cases)
  case (sealed pr keyID dk ob ob' names)
  then have "ob \<noteq> []" using encrypt_loop_empty by fastforce
  with decodeJSON_objectD [OF sealed(3)] show ?thesis by blast
qed (use assms(2,3) in simp)

lemma encryptFields_undo:
  assumes laws: "codec_laws txt num cd" and nonces: "\<forall>i. length (en_nonce en i) = NonceSize"
    and wf: "gm_wf (fe_fields c0)" and c: "c = fe_finalize c0"
    and paths: "\<forall>p \<in> set (sealPaths c ty). txt p"
    and prov: "fe_provider c = Some pr"
    and unwrap: "\<forall>k dk. po_GenerateDataKey pr (en_seed en) k = Inr dk \<longrightarrow>
       po_DecryptDataKey pr (dk_KeyID dk) (dk_Ciphertext dk) = Inr (dk_Plaintext dk)"
    and plain: "\<not> IsEncrypted m"
    and enc: "encryptFields cd en c sid ty data m = Inr (data', m')"
  shows "\<exists>data''. decryptFields cd c sid ty data' m' = Inr data'' \<and>
           cd_Unmarshal cd data'' = cd_Unmarshal cd data"
  using enc
proof (cases rule: encryptFields_cases)
  case plain
  with assms(8) show ?thesis by (simp add: decryptFields_def)
next
  case (sealed pr' keyID dk ob ob' names)
  note gen = sealed(2) and ob = sealed(3) and loop = sealed(4) and names = sealed(5)
    and data' = sealed(6) and m' = sealed(7)
  have ne: "ob \<noteq> []" using encrypt_loop_empty loop names by fastforce
  have valid: "json_valid txt num (JObject ob)" using laws ob by (rule decodeJSON_object_valid)
  have sorted: "sorted (map (\<lambda>p. - int (fieldDepth p)) (sealPaths c ty))"
    unfolding c using wf by (rule sealPaths_deepest_first)
  from encrypt_loop_undo [OF laws nonces loop valid sorted, of "dk_KeyID dk"]
  have valid': "json_valid txt num (JObject ob')" and sub: "set names \<subseteq> set (sealPaths c ty)"
    and undo: "decrypt_loop cd (dk_KeyID dk) sid (dk_Plaintext dk) (unsealOrder names) ob' = Inr ob"
    by (auto simp: unsealOrder_sort)
  have "decode_strings cd (encode_strings cd names) = Some names"
    using laws by (rule decode_encode_strings) (use sub paths in blast)
  then have md: "IsEncrypted m'" "GetEncryptedFields cd m' = names" "GetEncryptionKeyID m' = dk_KeyID dk"
    "GetEncryptionAlgorithm m' = encryptionAlgorithm"
    "custom_or_empty m' encryptedDEKKey = cd_EncodeToString cd (dk_Ciphertext dk)"
    by (simp_all add: m' IsEncrypted_def GetEncryptedFields_def GetEncryptionKeyID_def
        GetEncryptionAlgorithm_def custom_or_empty_def custom_get_WithCustom metadata_keys)
  have "decodeJSON_object cd data' = Inr ob'"
    using codec_lawsD(2) [OF laws valid'] by (simp add: data' decodeJSON_object_def)
  then have "decryptFields cd c sid ty data' m' = Inr (cd_Marshal cd (JObject ob))"
    using prov unwrap gen sealed(1) names undo codec_lawsD(4) [OF laws]
    by (simp add: decryptFields_def md Let_def)
  moreover have "cd_Unmarshal cd (cd_Marshal cd (JObject ob)) = cd_Unmarshal cd data"
    using codec_lawsD(2) [OF laws valid] decodeJSON_objectD [OF ob ne] by simp
  ultimately show ?thesis by blast
qed

section \<open>Properties\<close>

text \<open>C17: encryption round trip.  Whatever fields are configured for an event type, nested or
  overlapping ones included, decrypting what \<^verbatim>\<open>encryptFields\<close> produced returns a payload
  that decodes to the same JSON value as the original, provided the provider unwraps the data
  key it generated and the encodings behave as documented.\<close>

theorem field_encryption_roundtrip:
  assumes laws: "codec_laws txt num cd" and nonces: "\<forall>i. length (en_nonce en i) = NonceSize"
    and wf: "gm_wf (fe_fields c0)" and c: "c = fe_finalize c0"
    and paths: "\<forall>p \<in> set (sealPaths c ty). txt p"
    and prov: "fe_provider c = Some pr"
    and unwrap: "\<forall>k dk. po_GenerateDataKey pr (en_seed en) k = Inr dk \<longrightarrow>
       po_DecryptDataKey pr (dk_KeyID dk) (dk_Ciphertext dk) = Inr (dk_Plaintext dk)"
    and plain: "\<not> IsEncrypted m"
    and enc: "encryptFields cd en c sid ty data m = Inr (data', m')"
  shows "\<exists>data''. decryptFields cd c sid ty data' m' = Inr data'' \<and>
           cd_Unmarshal cd data'' = cd_Unmarshal cd data"
  using assms by (rule encryptFields_undo)

text \<open>A concrete codec for the examples: values are numbered, so that every law holds.\<close>

definition demo_gcm :: aead where
  "demo_gcm =
     \<lparr>gcm_Seal = \<lambda>key nonce plaintext aad. replicate (to_nat (plaintext, aad)) CHR ''1'',
      gcm_Open = \<lambda>key nonce c aad.
        (let (plaintext, aad') = from_nat (length c) in if aad' = aad then Some plaintext else None)\<rparr>"

definition demo_codec :: codec where
  "demo_codec =
     \<lparr>cd_Marshal = \<lambda>v. replicate (Suc (to_nat v)) CHR ''1'',
      cd_Unmarshal = \<lambda>d. (let v = from_nat (length d - 1)
         in if d \<noteq> [] \<and> json_valid (\<lambda>_. True) (\<lambda>_. True) v then Some v else None),
      cd_EncodeToString = \<lambda>b. b, cd_DecodeString = Some, cd_gcm = demo_gcm\<rparr>"

lemma demo_codec_laws: "codec_laws (\<lambda>_. True) (\<lambda>_. True) demo_codec"
  by (simp add: codec_laws_def demo_codec_def aead_laws_def demo_gcm_def Let_def)

definition demo_pops :: provider_ops where
  "demo_pops =
     \<lparr>po_GenerateDataKey = \<lambda>seed k. Inr \<lparr>dk_Plaintext = replicate 32 CHR ''x'', dk_Ciphertext = ''w'', dk_KeyID = k\<rparr>,
      po_DecryptDataKey = \<lambda>k c. Inr (replicate 32 CHR ''x'')\<rparr>"

definition demo_entropy :: entropy where
  "demo_entropy = \<lparr>en_seed = [], en_nonce = \<lambda>i. replicate NonceSize CHR ''n''\<rparr>"

definition demo_config :: field_encryption_config where
  "demo_config = (NewFieldEncryptionConfig [WithEncryptedFields ''T'' [''a'', ''a.b'']])
     \<lparr>fe_provider := Some demo_pops, fe_defaultKeyID := ''k''\<rparr>"

definition demo_payload :: bytes where
  "demo_payload = cd_Marshal demo_codec (JObject [(''a'', JObject [(''b'', JNumber ''1'')])])"

lemma demo_config_finalized: "demo_config = fe_finalize demo_config"
  by (simp add: demo_config_def NewFieldEncryptionConfig_def fe_finalize_def WithEncryptedFields_def)

lemma demo_sealPaths: "sealPaths demo_config ''T'' = [''a.b'', ''a'']"
  by (simp add: demo_config_def NewFieldEncryptionConfig_def fe_finalize_def WithEncryptedFields_def
      fields_of_def sealPaths_def orderByDepth_def fieldDepth_def)

lemma demo_fields_wf: "gm_wf (fe_fields demo_config)"
  by (simp add: demo_config_def NewFieldEncryptionConfig_def fe_finalize_def WithEncryptedFields_def)

lemma demo_decode:
  "decodeJSON_object demo_codec demo_payload = Inr [(''a'', JObject [(''b'', JNumber ''1'')])]"
proof -
  have "cd_Unmarshal demo_codec demo_payload = Some (JObject [(''a'', JObject [(''b'', JNumber ''1'')])])"
    unfolding demo_payload_def by (rule codec_lawsD(2) [OF demo_codec_laws]) simp
  then show ?thesis by (simp add: decodeJSON_object_def)
qed

lemma encrypt_leaf:
  "dot \<notin> set p \<Longrightarrow> map_of ob p = Some val \<Longrightarrow> aes_key_ok key \<Longrightarrow>
   encryptJSONFieldWithPath cd nonce ob p full sid key =
     Inr (AList.update p (JString (cd_EncodeToString cd
       (nonce @ gcm_Seal (cd_gcm cd) key nonce (cd_Marshal cd val) (fieldAAD sid full)))) ob, True)"
  by (simp add: encryptJSONFieldWithPath.simps [of cd nonce ob p full] AESGCMEncrypt_def)

lemma encrypt_nested:
  "dot \<in> set p \<Longrightarrow> map_of ob (path_head p) = Some (JObject child) \<Longrightarrow>
   encryptJSONFieldWithPath cd nonce ob p full sid key =
     (case encryptJSONFieldWithPath cd nonce child (path_rest p) full sid key of
        Inl e \<Rightarrow> Inl e
      | Inr (child', b) \<Rightarrow> Inr (AList.update (path_head p) (JObject child') ob, b))"
  by (simp add: encryptJSONFieldWithPath.simps [of cd nonce ob p full])

lemma demo_config_simps:
  "map_of (fe_configErr demo_config) ''T'' = None" "fe_provider demo_config = Some demo_pops"
  "fe_tenantKeyResolver demo_config = None" "fe_defaultKeyID demo_config = ''k''"
  by (simp_all add: demo_config_def NewFieldEncryptionConfig_def fe_finalize_def WithEncryptedFields_def
      fields_of_def first_path_error_def validateFieldPath_def segs_leaf segs_nested path_head_def path_rest_def)

lemma demo_encrypt:
  "\<exists>d m. encryptFields demo_codec demo_entropy demo_config sid ''T''
     demo_payload empty_metadata = Inr (d, m) \<and> IsEncrypted m"
  by (simp add: encryptFields_def demo_sealPaths demo_decode demo_config_simps selectKeyID_def
      resolveKeyID_def demo_pops_def encryptJSONField_def encrypt_nested encrypt_leaf path_head_def
      path_rest_def aes_key_ok_def IsEncrypted_def custom_get_WithCustom split: bool.splits)

theorem field_encryption_roundtrip_witness:
  "\<exists>d m d'. encryptFields demo_codec demo_entropy demo_config ''s'' ''T''
       demo_payload empty_metadata = Inr (d, m) \<and> IsEncrypted m \<and>
     decryptFields demo_codec demo_config ''s'' ''T'' d m = Inr d' \<and>
     cd_Unmarshal demo_codec d' = cd_Unmarshal demo_codec demo_payload"
proof -
  obtain d m where e: "encryptFields demo_codec demo_entropy demo_config ''s'' ''T''
       demo_payload empty_metadata = Inr (d, m)" "IsEncrypted m"
    using demo_encrypt by blast
  have "\<exists>d'. decryptFields demo_codec demo_config ''s'' ''T'' d m = Inr d' \<and>
     cd_Unmarshal demo_codec d' = cd_Unmarshal demo_codec demo_payload"
    by (rule field_encryption_roundtrip [OF demo_codec_laws _ demo_fields_wf demo_config_finalized _ _ _ _ e(1),
          where pr = demo_pops])
       (simp_all add: demo_config_def demo_pops_def demo_entropy_def IsEncrypted_def custom_get_def custom_entries_def
          empty_metadata_def)
  with e show ?thesis by blast
qed

text \<open>The in-memory provider unwraps the keys it generated while the master key is live.\<close>

lemma local_ops_unwrap:
  assumes "aead_laws g" and "length (drop 32 seed) = NonceSize"
    and "po_GenerateDataKey (local_ops g now p) seed k = Inr dk"
  shows "po_DecryptDataKey (local_ops g now p) (dk_KeyID dk) (dk_Ciphertext dk) = Inr (dk_Plaintext dk)"
proof -
  from assms(3) obtain p' key where key: "getKey now p k = (p', Inr key)"
    by (auto simp: local_ops_def GenerateDataKey_def split: prod.splits sum.splits)
  from assms(3) obtain p1 where "GenerateDataKey g (take 32 seed) (drop 32 seed) now p k = (p1, Inr dk)"
    by (auto simp: local_ops_def) (metis prod.collapse)
  from data_key_roundtrip [OF assms(1,2) this key] key show ?thesis
    by (simp add: local_ops_def)
qed

section \<open>Relocated ciphertext\<close>

lemma try_candidates_Inr:
  "(\<exists>d. try_candidates cd key c aads seen fe = Inr d) \<longleftrightarrow>
   (\<exists>aad \<in> set aads. aad \<notin> set seen \<and> (\<exists>d. AESGCMDecrypt (cd_gcm cd) key c aad = Inr d))"
proof (induction aads arbitrary: seen fe)
  case (Cons a aads)
  then show ?case
    by (cases "AESGCMDecrypt (cd_gcm cd) key c a") (auto simp: Cons, metis Inl_Inr_False)
qed simp

lemma try_candidates_value:
  "try_candidates cd key c aads seen fe = Inr d \<Longrightarrow>
   \<exists>aad \<in> set aads. AESGCMDecrypt (cd_gcm cd) key c aad = Inr d"
  by (induction aads arbitrary: seen fe) (auto split: if_splits sum.splits)

lemma last_segs_chars: "set (last (segs q)) \<subseteq> set q"
proof (induction q rule: segs.induct)
  case (1 q)
  show ?case
  proof (cases "dot \<in> set q")
    case True
    then have "set (path_rest q) \<subseteq> set q"
      using path_join [OF True] by (metis Un_upper2 set_ConsD set_append set_subset_Cons subset_trans)
    with 1 True show ?thesis by (auto simp: last_segs_nested)
  qed (simp add: segs_leaf)
qed

lemma candidate_iff:
  assumes "sid \<noteq> []" and "CHR 0x00 \<notin> set p" and "CHR 0x00 \<notin> set q" and "CHR 0x00 \<notin> set l"
  shows "fieldAAD sid p \<in> set (aad_candidates sid' q l) \<longleftrightarrow> sid' = sid \<and> (q = p \<or> l = p)"
proof -
  have "CHR 0x00 \<in> set (fieldAAD sid p)" using assms(1) by (simp add: fieldAAD_def)
  then have plain: "fieldAAD sid p \<noteq> q" "fieldAAD sid p \<noteq> l" using assms by auto
  have bound: "fieldAAD sid p = fieldAAD sid' x \<longleftrightarrow> sid' = sid \<and> x = p" if "CHR 0x00 \<notin> set x" for x
    using assms(1,2) that last_sep_unique [of sid "CHR 0x00" p sid' x]
      \<open>CHR 0x00 \<in> set (fieldAAD sid p)\<close>
    by (auto simp: fieldAAD_def)
  show ?thesis
    using plain bound [OF assms(3)] bound [OF assms(4)] by (auto simp: aad_candidates_def)
qed

text \<open>C18: where a sealed field can be opened.  A ciphertext sealed in stream \<open>sid\<close> at path
  \<open>p\<close> and copied, with its data key, to path \<open>q\<close> of an event of stream \<open>sid'\<close> decrypts exactly when the stream
  is the same and \<open>q\<close> is \<open>p\<close> or ends in the segment \<open>p\<close>.  It never opens in another stream,
  but the leaf-only fallback lets a top-level field be moved under any parent object.\<close>

theorem sealed_field_opens_iff:
  assumes laws: "codec_laws txt num cd" and n: "length nonce = NonceSize"
    and valid: "json_valid txt num (JObject ob)"
    and sid: "sid \<noteq> []" and nul: "CHR 0x00 \<notin> set p" "CHR 0x00 \<notin> set q"
    and enc: "encryptJSONField cd nonce ob p sid key = Inr (ob', True)"
    and copied: "jget (segs q) ob2 = jget (segs p) ob'"
  shows "(\<exists>ob3. decryptJSONField cd ob2 q sid' key = Inr ob3) \<longleftrightarrow> sid' = sid \<and> (q = p \<or> last (segs q) = p)"
proof -
  obtain val c where val: "jget (segs p) ob = Some val"
    and c: "AESGCMEncrypt (cd_gcm cd) nonce key (cd_Marshal cd val) (fieldAAD sid p) = Inr c"
    and ob': "ob' = jput (segs p) (JString (cd_EncodeToString cd c)) ob"
    using encrypt_walk [OF enc [unfolded encryptJSONField_def]] by auto
  note g = codec_lawsD(5) [OF laws]
  have dec: "AESGCMDecrypt (cd_gcm cd) key c aad = Inr d \<longleftrightarrow> aad = fieldAAD sid p \<and> d = cd_Marshal cd val" for aad d
    using AESGCM_roundtrip [OF g n c] AESGCM_wrong_aad [OF g n c, of aad] by (cases "aad = fieldAAD sid p") auto
  have sealed: "jget (segs q) ob2 = Some (JString (cd_EncodeToString cd c))"
    using copied val by (simp add: ob' jget_jput)
  have "cd_Unmarshal cd (cd_Marshal cd val) = Some val"
    using codec_lawsD(2) [OF laws] jget_valid [OF valid val] by blast
  moreover have "d = cd_Marshal cd val" if "decryptFieldValue cd key c sid' q (last (segs q)) = Inr d" for d
    using try_candidates_value [OF that [unfolded decryptFieldValue_def]] by (simp add: dec)
  ultimately have opened: "decryptFieldValue cd key c sid' q (last (segs q)) = Inr d \<Longrightarrow>
      cd_Unmarshal cd d = Some val" for d
    by metis
  have "(\<exists>ob3. decryptJSONField cd ob2 q sid' key = Inr ob3) \<longleftrightarrow>
      (\<exists>d. decryptFieldValue cd key c sid' q (last (segs q)) = Inr d)"
    using opened by (auto simp: decryptJSONField_def decrypt_walk unsealed_def sealed codec_lawsD(4) [OF laws])
  also have "\<dots> \<longleftrightarrow> fieldAAD sid p \<in> set (aad_candidates sid' q (last (segs q)))"
    unfolding decryptFieldValue_def try_candidates_Inr by (simp add: dec)
  also have "\<dots> \<longleftrightarrow> sid' = sid \<and> (q = p \<or> last (segs q) = p)"
    using sid nul last_segs_chars by (intro candidate_iff) auto
  finally show ?thesis .
qed

theorem sealed_field_opens_iff_witness:
  "\<exists>ob' sealed ob3.
     encryptJSONField demo_codec (replicate NonceSize CHR ''n'') [(''n'', JNumber ''1'')] ''n'' ''s''
       (replicate 32 CHR ''x'') = Inr (ob', True) \<and>
     map_of ob' ''n'' = Some sealed \<and>
     decryptJSONField demo_codec [(''x'', JObject [(''n'', sealed)])] ''x.n'' ''s'' (replicate 32 CHR ''x'') = Inr ob3"
proof -
  obtain ob' sealed where e: "encryptJSONField demo_codec (replicate NonceSize CHR ''n'') [(''n'', JNumber ''1'')]
      ''n'' ''s'' (replicate 32 CHR ''x'') = Inr (ob', True)" and s: "map_of ob' ''n'' = Some sealed"
    by (simp add: encryptJSONField_def encrypt_leaf aes_key_ok_def)
  have "(\<exists>ob3. decryptJSONField demo_codec [(''x'', JObject [(''n'', sealed)])] ''x.n'' ''s''
      (replicate 32 CHR ''x'') = Inr ob3) \<longleftrightarrow> ''s'' = ''s'' \<and> (''x.n'' = ''n'' \<or> last (segs ''x.n'') = ''n'')"
    by (rule sealed_field_opens_iff [OF demo_codec_laws _ _ _ _ _ e])
       (simp_all add: s segs_leaf segs_nested path_head_def path_rest_def)
  then have "\<exists>ob3. decryptJSONField demo_codec [(''x'', JObject [(''n'', sealed)])] ''x.n'' ''s''
      (replicate 32 CHR ''x'') = Inr ob3"
    by (simp add: segs_leaf segs_nested path_head_def path_rest_def)
  with e s show ?thesis by blast
qed

end
