(* ===== verification/Versioning.thy ===== *)
theory Versioning
  imports Event_Model "HOL-Library.List_Lexorder" "HOL-Library.Char_ord"
begin

text \<open>
  Event schema versions and upcasting: \<^verbatim>\<open>versioning.go\<close> and
  \<^verbatim>\<open>upcasting_serializer.go\<close>.

  An \<^verbatim>\<open>Upcaster\<close> is application code: a record of the values its accessors return and
  of its \<^verbatim>\<open>Upcast\<close> function, which may return bytes, return an error or panic.  The
  chain keeps the upcasters of each event type sorted by source version.
\<close>

section \<open>The upcaster chain\<close>

definition schemaVersionKey :: string where "schemaVersionKey = ''$schema_version''"

definition DefaultSchemaVersion :: int where [simp]: "DefaultSchemaVersion = 1"

datatype 'a outcome = Returned "error + 'a" | Panicked string

record upcaster =
  up_EventType :: string
  up_FromVersion :: int
  up_ToVersion :: int
  up_Upcast :: "bytes \<Rightarrow> metadata \<Rightarrow> bytes outcome"

record upcaster_chain =
  uc_upcasters :: "(string, upcaster list) gomap"
  uc_latest :: "(string, int) gomap"

definition NewUpcasterChain :: upcaster_chain where
  "NewUpcasterChain = \<lparr>uc_upcasters = [], uc_latest = []\<rparr>"

definition upcasters_of :: "upcaster_chain \<Rightarrow> string \<Rightarrow> upcaster list" where
  "upcasters_of c eventType = (case map_of (uc_upcasters c) eventType of None \<Rightarrow> [] | Some us \<Rightarrow> us)"

definition latest_of :: "upcaster_chain \<Rightarrow> string \<Rightarrow> int" where
  "latest_of c eventType = (case map_of (uc_latest c) eventType of None \<Rightarrow> 0 | Some v \<Rightarrow> v)"

text \<open>\<^verbatim>\<open>Register\<close>.  \<^verbatim>\<open>sort.Slice\<close> sorts by \<^verbatim>\<open>FromVersion\<close>; the keys are
  distinct, so every sorting of the slice is the same list.\<close>

definition Upcaster_Register :: "upcaster_chain \<Rightarrow> upcaster \<Rightarrow> upcaster_chain \<times> error option" where
  "Upcaster_Register c u =
     (if up_ToVersion u \<noteq> up_FromVersion u + 1
      then (c, Some (Errorf ''mink: upcaster must have ToVersion == FromVersion + 1''))
      else if up_FromVersion u < 1
      then (c, Some (Errorf ''mink: upcaster must have FromVersion >= 1''))
      else
        let eventType = up_EventType u;
            existing = upcasters_of c eventType
        in if \<exists>e \<in> set existing. up_FromVersion e = up_FromVersion u
           then (c, Some (Errorf ''mink: duplicate upcaster''))
           else (c\<lparr>uc_upcasters := AList.update eventType
                     (sort_key up_FromVersion (existing @ [u])) (uc_upcasters c),
                   uc_latest := (if up_ToVersion u > latest_of c eventType
                     then AList.update eventType (up_ToVersion u) (uc_latest c) else uc_latest c)\<rparr>, None))"

fun find_gap :: "string \<Rightarrow> upcaster list \<Rightarrow> error option" where
  "find_gap eventType (u # w # us) =
     (let expected = up_ToVersion u; actual = up_FromVersion w
      in if actual \<noteq> expected then Some (SchemaVersionGapError eventType expected actual)
         else find_gap eventType (w # us))"
| "find_gap eventType us = None"

fun validate_loop :: "(string, upcaster list) gomap \<Rightarrow> error option" where
  "validate_loop [] = None"
| "validate_loop ((eventType, us) # rest) =
     (case find_gap eventType us of Some e \<Rightarrow> Some e | None \<Rightarrow> validate_loop rest)"

definition Chain_Validate :: "upcaster_chain \<Rightarrow> error option" where
  "Chain_Validate c = validate_loop (uc_upcasters c)"

text \<open>\<^verbatim>\<open>safeUpcast\<close> turns a panic into an ordinary error.\<close>

definition safeUpcast :: "upcaster \<Rightarrow> bytes \<Rightarrow> metadata \<Rightarrow> error + bytes" where
  "safeUpcast u data md =
     (case up_Upcast u data md of
        Returned r \<Rightarrow> r
      | Panicked summary \<Rightarrow> Inl (Errorf (''mink: upcaster panicked: '' @ summary)))"

fun upcast_loop ::
  "string \<Rightarrow> metadata \<Rightarrow> upcaster list \<Rightarrow> int \<Rightarrow> bytes \<Rightarrow> (error + bytes) \<times> int" where
  "upcast_loop eventType md [] currentVersion currentData = (Inr currentData, currentVersion)"
| "upcast_loop eventType md (u # us) currentVersion currentData =
     (let f = up_FromVersion u; t = up_ToVersion u
      in if f < currentVersion then upcast_loop eventType md us currentVersion currentData
         else if f > currentVersion
         then (Inl (SchemaVersionGapError eventType currentVersion f), currentVersion)
         else (case safeUpcast u currentData md of
                 Inl err \<Rightarrow> (Inl (UpcastError eventType f t err), currentVersion)
               | Inr result \<Rightarrow> upcast_loop eventType md us t result))"

definition Upcast ::
  "upcaster_chain \<Rightarrow> string \<Rightarrow> int \<Rightarrow> bytes \<Rightarrow> metadata \<Rightarrow> (error + bytes) \<times> int" where
  "Upcast c eventType fromVersion data md =
     (if length (upcasters_of c eventType) = 0 then (Inr data, fromVersion)
      else upcast_loop eventType md (upcasters_of c eventType) fromVersion data)"

definition HasUpcasters :: "upcaster_chain \<Rightarrow> string \<Rightarrow> bool" where
  "HasUpcasters c eventType \<longleftrightarrow> length (upcasters_of c eventType) > 0"

definition LatestVersion :: "upcaster_chain \<Rightarrow> string \<Rightarrow> int" where
  "LatestVersion c eventType =
     (case map_of (uc_latest c) eventType of Some v \<Rightarrow> v | None \<Rightarrow> DefaultSchemaVersion)"

definition Chain_RegisteredEventTypes :: "upcaster_chain \<Rightarrow> string list" where
  "Chain_RegisteredEventTypes c = sort (map fst (uc_upcasters c))"

section \<open>The version in the metadata\<close>

definition GetSchemaVersion :: "metadata \<Rightarrow> int" where
  "GetSchemaVersion m =
     (case md_Custom m of
        None \<Rightarrow> DefaultSchemaVersion
      | Some c \<Rightarrow>
          (case map_of c schemaVersionKey of
             None \<Rightarrow> DefaultSchemaVersion
           | Some v \<Rightarrow>
               (case atoi v of
                  None \<Rightarrow> DefaultSchemaVersion
                | Some n \<Rightarrow> if n < DefaultSchemaVersion then DefaultSchemaVersion else n)))"

definition SetSchemaVersion :: "metadata \<Rightarrow> int \<Rightarrow> metadata" where
  "SetSchemaVersion m v = WithCustom m schemaVersionKey (itoa v)"

definition hasSchemaVersion :: "metadata \<Rightarrow> bool" where
  "hasSchemaVersion m \<longleftrightarrow>
     (case md_Custom m of None \<Rightarrow> False | Some c \<Rightarrow> map_of c schemaVersionKey \<noteq> None)"

section \<open>The upcasting serializer\<close>

text \<open>A serializer is a pair of functions; the decorated one passes serialization through
  and upcasts before it deserializes.\<close>

record 'e serializer =
  sr_Serialize :: "'e \<Rightarrow> error + bytes"
  sr_Deserialize :: "bytes \<Rightarrow> string \<Rightarrow> error + 'e"

definition Upcasting_Serialize :: "'e serializer \<Rightarrow> 'e \<Rightarrow> error + bytes" where
  "Upcasting_Serialize inner event = sr_Serialize inner event"

definition DeserializeWithVersion ::
  "'e serializer \<Rightarrow> upcaster_chain option \<Rightarrow> bytes \<Rightarrow> string \<Rightarrow> int \<Rightarrow> metadata \<Rightarrow> error + 'e" where
  "DeserializeWithVersion inner chain data eventType schemaVersion md =
     (case chain of
        Some c \<Rightarrow>
          if HasUpcasters c eventType
          then (case Upcast c eventType schemaVersion data md of
                  (Inl err, _) \<Rightarrow> Inl err
                | (Inr upcasted, _) \<Rightarrow> sr_Deserialize inner upcasted eventType)
          else sr_Deserialize inner data eventType
      | None \<Rightarrow> sr_Deserialize inner data eventType)"

definition Upcasting_Deserialize ::
  "'e serializer \<Rightarrow> upcaster_chain option \<Rightarrow> bytes \<Rightarrow> string \<Rightarrow> error + 'e" where
  "Upcasting_Deserialize inner chain data eventType =
     DeserializeWithVersion inner chain data eventType DefaultSchemaVersion empty_metadata"

section \<open>The chain invariant\<close>

definition ups_ok :: "string \<Rightarrow> upcaster list \<Rightarrow> bool" where
  "ups_ok ty us \<longleftrightarrow> sorted_wrt (<) (map up_FromVersion us) \<and>
     (\<forall>u \<in> set us. up_EventType u = ty \<and> up_ToVersion u = up_FromVersion u + 1 \<and> 1 \<le> up_FromVersion u)"

definition chain_inv :: "upcaster_chain \<Rightarrow> bool" where
  "chain_inv c \<longleftrightarrow> gm_wf (uc_upcasters c) \<and> (\<forall>ty. ups_ok ty (upcasters_of c ty) \<and>
     latest_of c ty = (if upcasters_of c ty = [] then 0 else up_ToVersion (last (upcasters_of c ty))) \<and>
     (map_of (uc_latest c) ty = None \<longleftrightarrow> upcasters_of c ty = []))"

lemma NewUpcasterChain_inv: "chain_inv NewUpcasterChain"
  by (simp add: chain_inv_def NewUpcasterChain_def upcasters_of_def latest_of_def ups_ok_def)

lemma sorted_insert_strict:
  assumes "sorted_wrt (<) (map f us)" and "\<forall>e \<in> set us. f e \<noteq> (f u :: int)"
  shows "sorted_wrt (<) (map f (sort_key f (us @ [u])))"
proof -
  have "distinct (map f (us @ [u]))"
    using assms strict_sorted_iff [of "map f us"] by auto
  then have "distinct (map f (sort_key f (us @ [u])))"
    by (metis distinct_map distinct_sort set_sort)
  then show ?thesis by (simp only: strict_sorted_iff sorted_sort_key)
qed

lemma last_sorted_max:
  assumes "sorted_wrt (<) (map f us)" and "us \<noteq> []" and "e \<in> set us"
  shows "(f e :: int) \<le> f (last us)"
proof -
  have "sorted_wrt (<) (map f (butlast us @ [last us]))" using assms by simp
  moreover have "e \<in> set (butlast us @ [last us])" using assms by simp
  ultimately show ?thesis by (auto simp: sorted_wrt_append intro: less_imp_le)
qed

lemma last_sort_key_snoc:
  assumes "sorted_wrt (<) (map f us)" and "\<forall>e \<in> set us. f e \<noteq> (f u :: int)"
  shows "f (last (sort_key f (us @ [u]))) = (if us = [] then f u else max (f (last us)) (f u))"
proof -
  let ?s = "sort_key f (us @ [u])"
  have ss: "sorted_wrt (<) (map f ?s)" using assms by (rule sorted_insert_strict)
  have ne: "?s \<noteq> []" by (metis Nil_is_append_conv list.distinct(1) set_empty set_sort)
  have mem: "last ?s \<in> set us \<union> {u}" using last_in_set [OF ne] by simp
  have ge: "f e \<le> f (last ?s)" if "e \<in> set us \<union> {u}" for e
    using that by (intro last_sorted_max [OF ss ne]) simp
  show ?thesis
  proof (cases "us = []")
    case False
    have "f (last ?s) \<le> f (last us) \<or> f (last ?s) = f u"
      using mem last_sorted_max [OF assms(1) False] by auto
    moreover have "f (last us) \<le> f (last ?s)" "f u \<le> f (last ?s)" using ge False by auto
    ultimately show ?thesis using False by (auto simp: max_def)
  qed simp
qed

lemma upcasters_of_Register:
  assumes "Upcaster_Register c u = (c', None)"
  shows "upcasters_of c' ty =
      (if ty = up_EventType u then sort_key up_FromVersion (upcasters_of c ty @ [u]) else upcasters_of c ty)"
    and "latest_of c' ty =
      (if ty = up_EventType u then max (up_ToVersion u) (latest_of c ty) else latest_of c ty)"
    and "map_of (uc_latest c') ty = None \<longleftrightarrow> map_of (uc_latest c) ty = None \<and>
      \<not> (ty = up_EventType u \<and> latest_of c ty < up_ToVersion u)"
    and "gm_wf (uc_upcasters c) \<Longrightarrow> gm_wf (uc_upcasters c')"
  using assms
  by (auto simp: Upcaster_Register_def Let_def upcasters_of_def latest_of_def gm_simps max_def
      split: if_splits option.splits)

lemma Register_ok_cond:
  assumes "Upcaster_Register c u = (c', None)"
  shows "up_ToVersion u = up_FromVersion u + 1" "1 \<le> up_FromVersion u"
    "\<forall>e \<in> set (upcasters_of c (up_EventType u)). up_FromVersion e \<noteq> up_FromVersion u"
  using assms by (auto simp: Upcaster_Register_def Let_def split: if_splits)

lemma Register_fail: "Upcaster_Register c u = (c', Some e) \<Longrightarrow> c' = c"
  by (auto simp: Upcaster_Register_def Let_def split: if_splits)

lemma Register_inv:
  assumes inv: "chain_inv c"
  shows "chain_inv (fst (Upcaster_Register c u))"
proof (cases "snd (Upcaster_Register c u)")
  case (Some e)
  then show ?thesis using inv Register_fail by (metis prod.collapse)
next
  case None
  then obtain c' where reg: "Upcaster_Register c u = (c', None)" by (metis prod.collapse)
  let ?us = "upcasters_of c (up_EventType u)"
  let ?s = "sort_key up_FromVersion (?us @ [u])"
  note new = upcasters_of_Register [OF reg] and cond = Register_ok_cond [OF reg]
  have us: "ups_ok (up_EventType u) ?us" using inv by (simp add: chain_inv_def)
  have lt: "latest_of c (up_EventType u) = (if ?us = [] then 0 else up_ToVersion (last ?us))"
    using inv by (simp add: chain_inv_def)
  have srt: "sorted_wrt (<) (map up_FromVersion ?us)" using us by (simp add: ups_ok_def)
  have s_ok: "ups_ok (up_EventType u) ?s"
    using us cond sorted_insert_strict [OF srt cond(3)] by (auto simp: ups_ok_def)
  have ne: "?s \<noteq> []" by (metis Nil_is_append_conv list.distinct(1) set_empty set_sort)
  have to: "up_ToVersion x = up_FromVersion x + 1" if "x \<in> set ?us \<or> x \<in> set ?s" for x
    using that us s_ok by (auto simp: ups_ok_def)
  have "max (up_ToVersion u) (latest_of c (up_EventType u)) = up_ToVersion (last ?s)"
    using last_sort_key_snoc [OF srt cond(3)] cond(1,2) lt to [of "last ?s"] to [of "last ?us"] last_in_set [OF ne]
    by (cases "?us = []") (auto simp: max_def)
  then have "chain_inv c'"
    unfolding chain_inv_def
    using inv s_ok ne new cond(1,2) lt
    by (auto simp: chain_inv_def)
  then show ?thesis by (simp add: reg)
qed

definition build_chain :: "upcaster list \<Rightarrow> upcaster_chain" where
  "build_chain us = fold (\<lambda>u c. fst (Upcaster_Register c u)) us NewUpcasterChain"

lemma build_chain_inv: "chain_inv (build_chain us)"
proof -
  have "chain_inv c \<Longrightarrow> chain_inv (fold (\<lambda>u c. fst (Upcaster_Register c u)) us c)" for c
    by (induction us arbitrary: c) (auto intro: Register_inv)
  then show ?thesis unfolding build_chain_def using NewUpcasterChain_inv by blast
qed

lemma LatestVersion_last:
  assumes "chain_inv c" and "upcasters_of c ty \<noteq> []"
  shows "LatestVersion c ty = up_ToVersion (last (upcasters_of c ty))"
proof -
  have "map_of (uc_latest c) ty \<noteq> None" using assms by (simp add: chain_inv_def)
  moreover have "latest_of c ty = up_ToVersion (last (upcasters_of c ty))"
    using assms by (simp add: chain_inv_def)
  ultimately show ?thesis by (auto simp: LatestVersion_def latest_of_def)
qed

section \<open>Upcasting\<close>

text \<open>The steps one after the other, as a reference.\<close>

fun apply_steps :: "metadata \<Rightarrow> upcaster list \<Rightarrow> bytes \<Rightarrow> error + bytes" where
  "apply_steps md [] data = Inr data"
| "apply_steps md (u # us) data =
     (case safeUpcast u data md of Inl e \<Rightarrow> Inl e | Inr d \<Rightarrow> apply_steps md us d)"

lemma ups_ok_Cons:
  "ups_ok ty (u # us) \<longleftrightarrow> ups_ok ty us \<and> (\<forall>w \<in> set us. up_FromVersion u < up_FromVersion w) \<and>
     up_EventType u = ty \<and> up_ToVersion u = up_FromVersion u + 1 \<and> 1 \<le> up_FromVersion u"
  by (auto simp: ups_ok_def)

lemma upcast_loop_Inr:
  assumes "ups_ok ty us" and "upcast_loop ty md us v d = (Inr d', w)"
  shows "w = (if us = [] then v else max v (up_ToVersion (last us))) \<and>
         apply_steps md (filter (\<lambda>u. v \<le> up_FromVersion u) us) d = Inr d'"
  using assms
proof (induction us arbitrary: v d)
  case (Cons u us)
  have ok: "ups_ok ty us" "\<forall>w \<in> set us. up_FromVersion u < up_FromVersion w"
    "up_ToVersion u = up_FromVersion u + 1"
    using Cons.prems(1) by (simp_all add: ups_ok_Cons)
  have lst: "up_FromVersion u < up_FromVersion (last us) \<and>
      up_ToVersion (last us) = up_FromVersion (last us) + 1" if "us \<noteq> []"
    using that ok(1,2) last_in_set [OF that] by (auto simp: ups_ok_def)
  consider "up_FromVersion u < v" | "up_FromVersion u = v"
    using Cons.prems(2) by (fastforce simp: Let_def split: if_splits)
  then show ?case
  proof cases
    case 1
    with Cons.prems(2) have "upcast_loop ty md us v d = (Inr d', w)" by simp
    from Cons.IH [OF ok(1) this] 1 ok(3) lst show ?thesis by (auto simp: max_def)
  next
    case 2
    with Cons.prems(2) obtain r where r: "safeUpcast u d md = Inr r"
      "upcast_loop ty md us (v + 1) r = (Inr d', w)"
      using ok(3) by (auto simp: Let_def split: sum.splits)
    have "filter (\<lambda>u. v + 1 \<le> up_FromVersion u) us = filter (\<lambda>u. v \<le> up_FromVersion u) us"
      using ok(2) 2 by (intro filter_cong) auto
    with Cons.IH [OF ok(1) r(2)] 2 ok(3) lst r(1) show ?thesis by (cases "us = []") (auto simp: max_def)
  qed
qed simp

lemma upcast_loop_progress:
  assumes "ups_ok ty us" and "find_gap ty us = None" and "us \<noteq> []" and "up_FromVersion (hd us) \<le> v"
    and "\<And>u d. u \<in> set us \<Longrightarrow> \<exists>d'. safeUpcast u d md = Inr d'"
  shows "\<exists>d' w. upcast_loop ty md us v d = (Inr d', w)"
  using assms
proof (induction us arbitrary: v d)
  case (Cons u us)
  have ok: "ups_ok ty us" "up_ToVersion u = up_FromVersion u + 1"
    using Cons.prems(1) by (simp_all add: ups_ok_Cons)
  obtain r where r: "safeUpcast u d md = Inr r" using Cons.prems(5) by force
  show ?case
  proof (cases us)
    case Nil
    then show ?thesis using Cons.prems(4) r by (auto simp: Let_def)
  next
    case (Cons w ws)
    have gap: "up_FromVersion w = up_FromVersion u + 1" "find_gap ty us = None"
      using Cons.prems(2) Cons ok(2) by (auto simp: Let_def split: if_splits)
    have "\<exists>d' w. upcast_loop ty md us v' e = (Inr d', w)" if "up_FromVersion u + 1 \<le> v'" for v' e
      using Cons.IH [OF ok(1) gap(2), of v' e] Cons.prems(5) that gap(1) Cons by simp
    then show ?thesis using Cons.prems(4) ok(2) r by (auto simp: Let_def)
  qed
qed simp

lemma validate_loop_None: "validate_loop m = None \<Longrightarrow> (ty, us) \<in> set m \<Longrightarrow> find_gap ty us = None"
  by (induction m) (auto split: option.splits)

text \<open>C14: A chain never hands stale bytes to the deserializer.  Whatever upcasters were
  registered, in whatever order, if Upcast succeeds for a type that has upcasters then the
  reported version is the latest version (or the stored one when it is newer), and the
  bytes are the result of applying exactly the steps from the stored version on, in
  ascending order, each once.\<close>

theorem Upcast_never_stale:
  assumes "HasUpcasters (build_chain us) ty" and "Upcast (build_chain us) ty v d md = (Inr d', w)"
  shows "w = max v (LatestVersion (build_chain us) ty) \<and>
         apply_steps md (filter (\<lambda>u. v \<le> up_FromVersion u) (upcasters_of (build_chain us) ty)) d = Inr d' \<and>
         sorted_wrt (<) (map up_FromVersion (upcasters_of (build_chain us) ty))"
proof -
  let ?us = "upcasters_of (build_chain us) ty"
  have ne: "?us \<noteq> []" using assms(1) by (auto simp: HasUpcasters_def)
  have ok: "ups_ok ty ?us" using build_chain_inv by (simp add: chain_inv_def)
  have "upcast_loop ty md ?us v d = (Inr d', w)" using assms(2) ne by (simp add: Upcast_def)
  from upcast_loop_Inr [OF ok this] ne LatestVersion_last [OF build_chain_inv ne] ok
  show ?thesis by (simp add: ups_ok_def)
qed

definition demo_upcaster :: "int \<Rightarrow> upcaster" where
  "demo_upcaster v = \<lparr>up_EventType = ''Placed'', up_FromVersion = v, up_ToVersion = v + 1,
     up_Upcast = (\<lambda>d md. Returned (Inr (d @ itoa v)))\<rparr>"

lemma demo_chain: "upcasters_of (build_chain [demo_upcaster 2, demo_upcaster 1]) ''Placed'' =
    [demo_upcaster 1, demo_upcaster 2]"
  by (simp add: build_chain_def Upcaster_Register_def NewUpcasterChain_def demo_upcaster_def
      upcasters_of_def latest_of_def Let_def)

lemma demo_chain_latest: "LatestVersion (build_chain [demo_upcaster 2, demo_upcaster 1]) ''Placed'' = 3"
  using LatestVersion_last [OF build_chain_inv, of "[demo_upcaster 2, demo_upcaster 1]" "''Placed''"]
  by (simp add: demo_chain) (simp add: demo_upcaster_def)

lemma demo_upcast: "Upcast (build_chain [demo_upcaster 2, demo_upcaster 1]) ''Placed'' 1 ''x'' empty_metadata =
    (Inr ((''x'' @ itoa 1) @ itoa 2), 3)"
  by (simp add: Upcast_def demo_chain) (simp add: demo_upcaster_def safeUpcast_def Let_def)

theorem Upcast_never_stale_witness:
  "HasUpcasters (build_chain [demo_upcaster 2, demo_upcaster 1]) ''Placed'' \<and>
   snd (Upcast (build_chain [demo_upcaster 2, demo_upcaster 1]) ''Placed'' 1 ''x'' empty_metadata) =
     max 1 (LatestVersion (build_chain [demo_upcaster 2, demo_upcaster 1]) ''Placed'')"
proof -
  have h: "HasUpcasters (build_chain [demo_upcaster 2, demo_upcaster 1]) ''Placed''"
    by (simp add: HasUpcasters_def demo_chain)
  from Upcast_never_stale [OF h demo_upcast] h demo_upcast show ?thesis by simp
qed

text \<open>A chain that Validate accepts upcasts every event from its first version on: if no
  upcaster fails, Upcast returns, without a gap error, the data at the latest version.\<close>

theorem validated_chain_upcasts:
  assumes "Chain_Validate (build_chain us) = None" and "HasUpcasters (build_chain us) ty"
    and "up_FromVersion (hd (upcasters_of (build_chain us) ty)) \<le> v"
    and "\<And>u d. u \<in> set (upcasters_of (build_chain us) ty) \<Longrightarrow> \<exists>d'. safeUpcast u d md = Inr d'"
  shows "\<exists>d'. Upcast (build_chain us) ty v d md = (Inr d', max v (LatestVersion (build_chain us) ty))"
proof -
  let ?us = "upcasters_of (build_chain us) ty"
  have ne: "?us \<noteq> []" using assms(2) by (auto simp: HasUpcasters_def)
  have ok: "ups_ok ty ?us" using build_chain_inv by (simp add: chain_inv_def)
  have "(ty, ?us) \<in> set (uc_upcasters (build_chain us))"
    using ne by (auto simp: upcasters_of_def split: option.splits dest: map_of_SomeD)
  with assms(1) have "find_gap ty ?us = None" by (simp add: Chain_Validate_def validate_loop_None)
  from upcast_loop_progress [OF ok this ne assms(3,4)] obtain d' w where
    "upcast_loop ty md ?us v d = (Inr d', w)" by blast
  moreover from upcast_loop_Inr [OF ok this] have "w = max v (LatestVersion (build_chain us) ty)"
    using ne LatestVersion_last [OF build_chain_inv ne] by simp
  ultimately show ?thesis using ne by (simp add: Upcast_def)
qed

theorem validated_chain_upcasts_witness:
  "Chain_Validate (build_chain [demo_upcaster 2, demo_upcaster 1]) = None \<and>
   (\<exists>d'. Upcast (build_chain [demo_upcaster 2, demo_upcaster 1]) ''Placed'' 2 ''x'' empty_metadata = (Inr d', 3))"
proof -
  let ?c = "build_chain [demo_upcaster 2, demo_upcaster 1]"
  have v: "Chain_Validate ?c = None"
    by (simp add: Chain_Validate_def build_chain_def Upcaster_Register_def NewUpcasterChain_def
        demo_upcaster_def upcasters_of_def latest_of_def Let_def)
  have h: "HasUpcasters ?c ''Placed''" by (simp add: HasUpcasters_def demo_chain)
  have "up_FromVersion (hd (upcasters_of ?c ''Placed'')) \<le> 2"
    by (simp add: demo_chain) (simp add: demo_upcaster_def)
  moreover have "\<exists>d'. safeUpcast u d empty_metadata = Inr d'" if "u \<in> set (upcasters_of ?c ''Placed'')" for u d
    using that unfolding demo_chain by (auto simp: demo_upcaster_def safeUpcast_def)
  ultimately have "\<exists>d'. Upcast ?c ''Placed'' 2 ''x'' empty_metadata = (Inr d', max 2 (LatestVersion ?c ''Placed''))"
    by (rule validated_chain_upcasts [OF v h])
  with v demo_chain_latest show ?thesis by simp
qed

text \<open>The schema version survives the metadata: what SetSchemaVersion records is what
  GetSchemaVersion reads back, with everything below 1 read as 1, and no other custom
  entry changes.\<close>

theorem schema_version_roundtrip:
  assumes "in_int64 v"
  shows "GetSchemaVersion (SetSchemaVersion m v) = max 1 v \<and> hasSchemaVersion (SetSchemaVersion m v) \<and>
         (\<forall>k. k \<noteq> schemaVersionKey \<longrightarrow> custom_get (SetSchemaVersion m v) k = custom_get m k)"
  using assms
  by (auto simp: SetSchemaVersion_def GetSchemaVersion_def hasSchemaVersion_def WithCustom_def
      update_conv custom_get_def custom_entries_def max_def split: option.split)

theorem schema_version_roundtrip_witness:
  "in_int64 7 \<and> GetSchemaVersion (SetSchemaVersion empty_metadata 7) = 7"
proof -
  have "in_int64 7" by (simp add: in_int64_def)
  with schema_version_roundtrip [OF this, of empty_metadata] show ?thesis by simp
qed

end
