(* ===== verification/Serializer.thy ===== *)
theory Serializer
  imports Versioning
begin

text \<open>
  Event serialization (\<^verbatim>\<open>serializer.go\<close>): the registry of Go types, the JSON serializer
  and the helpers that turn an event value into event data and back.

  An application event is a value of the type variable \<open>'d\<close>.  What the code uses of
  \<^verbatim>\<open>encoding/json\<close> and \<^verbatim>\<open>reflect\<close> on such values is the record \<open>json_lib\<close>:
  marshalling, unmarshalling into a fresh value of a Go type or into a generic map, and the
  dynamic type of a value (\<open>None\<close> for a nil interface).
\<close>

section \<open>Go types\<close>

datatype gotype = GoNamed string string | GoPointer gotype

fun type_Name :: "gotype \<Rightarrow> string" where
  "type_Name (GoNamed pkg name) = name"
| "type_Name (GoPointer t) = []"

fun indirectEventType :: "gotype \<Rightarrow> gotype" where
  "indirectEventType (GoPointer t) = t"
| "indirectEventType t = t"

record 'd json_lib =
  jl_Marshal :: "'d \<Rightarrow> error + bytes"
  jl_UnmarshalInto :: "gotype \<Rightarrow> bytes \<Rightarrow> error + 'd"
  jl_UnmarshalMap :: "bytes \<Rightarrow> error + 'd"
  jl_TypeOf :: "'d \<Rightarrow> gotype option"
  jl_IsMap :: "'d \<Rightarrow> bool"

section \<open>The registry\<close>

record event_registry =
  reg_types :: "(string, gotype) gomap"
  reg_conflicts :: "string list"

definition NewEventRegistry :: event_registry where
  "NewEventRegistry = \<lparr>reg_types = [], reg_conflicts = []\<rparr>"

definition registry_register :: "event_registry \<Rightarrow> string \<Rightarrow> gotype \<Rightarrow> event_registry" where
  "registry_register r eventType t =
     (case map_of (reg_types r) eventType of
        Some existing \<Rightarrow>
          if existing \<noteq> t
          then r\<lparr>reg_conflicts := List.insert eventType (reg_conflicts r)\<rparr>
          else r
      | None \<Rightarrow> r\<lparr>reg_types := AList.update eventType t (reg_types r)\<rparr>)"

text \<open>Registering a nil example panics in \<^verbatim>\<open>reflect\<close>.\<close>

definition Registry_Register ::
  "'d json_lib \<Rightarrow> event_registry \<Rightarrow> string \<Rightarrow> 'd \<Rightarrow> event_registry \<times> error option" where
  "Registry_Register jl r eventType example =
     (case jl_TypeOf jl example of
        None \<Rightarrow> (r, Some (GoPanic ''nil pointer dereference''))
      | Some t \<Rightarrow> (registry_register r eventType (indirectEventType t), None))"

fun RegisterAll :: "'d json_lib \<Rightarrow> event_registry \<Rightarrow> 'd list \<Rightarrow> event_registry \<times> error option" where
  "RegisterAll jl r [] = (r, None)"
| "RegisterAll jl r (example # examples) =
     (case jl_TypeOf jl example of
        None \<Rightarrow> (r, Some (GoPanic ''nil pointer dereference''))
      | Some t0 \<Rightarrow>
          let t = indirectEventType t0
          in RegisterAll jl (registry_register r (type_Name t) t) examples)"

definition Conflicts :: "event_registry \<Rightarrow> string list" where
  "Conflicts r = sort (reg_conflicts r)"

definition Registry_Lookup :: "event_registry \<Rightarrow> string \<Rightarrow> gotype option" where
  "Registry_Lookup r eventType = map_of (reg_types r) eventType"

definition RegisteredTypes :: "event_registry \<Rightarrow> string list" where
  "RegisteredTypes r = map fst (reg_types r)"

definition Registry_Count :: "event_registry \<Rightarrow> nat" where
  "Registry_Count r = length (reg_types r)"

section \<open>The JSON serializer\<close>

definition JSON_Serialize :: "'d json_lib \<Rightarrow> 'd \<Rightarrow> error + bytes" where
  "JSON_Serialize jl event =
     (case jl_TypeOf jl event of
        None \<Rightarrow> Inl (SerializationError ''nil'' ''serialize'' (Errorf ''event cannot be nil''))
      | Some t \<Rightarrow>
          (case jl_Marshal jl event of
             Inl err \<Rightarrow> Inl (SerializationError (type_Name t) ''serialize'' err)
           | Inr data \<Rightarrow> Inr data))"

definition JSON_Deserialize :: "'d json_lib \<Rightarrow> event_registry \<Rightarrow> bytes \<Rightarrow> string \<Rightarrow> error + 'd" where
  "JSON_Deserialize jl r data eventType =
     (if length data = 0
      then Inl (SerializationError eventType ''deserialize'' (Errorf ''data cannot be empty''))
      else (case Registry_Lookup r eventType of
        None \<Rightarrow>
          (case jl_UnmarshalMap jl data of
             Inl err \<Rightarrow> Inl (SerializationError eventType ''deserialize'' err)
           | Inr v \<Rightarrow> Inr v)
      | Some t \<Rightarrow>
          (case jl_UnmarshalInto jl t data of
             Inl err \<Rightarrow> Inl (SerializationError eventType ''deserialize'' err)
           | Inr v \<Rightarrow> Inr v)))"

text \<open>The serializers a store can be given: the JSON serializer with its registry, or any
  other one with the optional \<^verbatim>\<open>IsRegistered\<close> and \<^verbatim>\<open>BinaryFormat\<close> methods.\<close>

datatype 'd event_serializer =
    JSONSerializer event_registry
  | CustomSerializer "'d serializer" "(string \<Rightarrow> bool) option" bool

fun Serialize :: "'d json_lib \<Rightarrow> 'd event_serializer \<Rightarrow> 'd \<Rightarrow> error + bytes" where
  "Serialize jl (JSONSerializer r) event = JSON_Serialize jl event"
| "Serialize jl (CustomSerializer s reg bin) event = sr_Serialize s event"

fun Deserialize :: "'d json_lib \<Rightarrow> 'd event_serializer \<Rightarrow> bytes \<Rightarrow> string \<Rightarrow> error + 'd" where
  "Deserialize jl (JSONSerializer r) data eventType = JSON_Deserialize jl r data eventType"
| "Deserialize jl (CustomSerializer s reg bin) data eventType = sr_Deserialize s data eventType"

fun producesBinary :: "'d event_serializer \<Rightarrow> bool" where
  "producesBinary (JSONSerializer r) = False"
| "producesBinary (CustomSerializer s reg bin) = bin"

fun eventTypeRegistrar :: "'d event_serializer \<Rightarrow> (string \<Rightarrow> bool) option" where
  "eventTypeRegistrar (JSONSerializer r) = Some (\<lambda>ty. Registry_Lookup r ty \<noteq> None)"
| "eventTypeRegistrar (CustomSerializer s reg bin) = reg"

fun register_events :: "'d json_lib \<Rightarrow> 'd event_serializer \<Rightarrow> 'd list \<Rightarrow> 'd event_serializer \<times> error option" where
  "register_events jl (JSONSerializer r) events =
     (let (r', e) = RegisterAll jl r events in (JSONSerializer r', e))"
| "register_events jl s events = (s, None)"

definition GetEventType :: "'d json_lib \<Rightarrow> 'd \<Rightarrow> string" where
  "GetEventType jl event =
     (case jl_TypeOf jl event of None \<Rightarrow> [] | Some t \<Rightarrow> type_Name (indirectEventType t))"

definition SerializeEvent ::
  "'d json_lib \<Rightarrow> 'd event_serializer \<Rightarrow> 'd \<Rightarrow> metadata \<Rightarrow> error + event_record" where
  "SerializeEvent jl s event md =
     (let eventType = GetEventType jl event
      in if eventType = []
         then Inl (SerializationError [] ''serialize'' (Errorf ''cannot determine event type''))
         else (case Serialize jl s event of
                 Inl err \<Rightarrow> Inl err
               | Inr data \<Rightarrow> Inr \<lparr>er_Type = eventType, er_Data = data, er_Metadata = md\<rparr>))"

definition SerializeEventWithVersion ::
  "'d json_lib \<Rightarrow> 'd event_serializer \<Rightarrow> 'd \<Rightarrow> metadata \<Rightarrow> int \<Rightarrow> error + event_record" where
  "SerializeEventWithVersion jl s event md schemaVersion =
     (case SerializeEvent jl s event md of
        Inl err \<Rightarrow> Inl err
      | Inr ed \<Rightarrow> Inr (ed\<lparr>er_Metadata := SetSchemaVersion (er_Metadata ed) schemaVersion\<rparr>))"

definition DeserializeEvent ::
  "'d json_lib \<Rightarrow> 'd event_serializer \<Rightarrow> stored_event \<Rightarrow> error + 'd event" where
  "DeserializeEvent jl s stored =
     (case Deserialize jl s (se_Data stored) (se_Type stored) of
        Inl err \<Rightarrow> Inl err
      | Inr data \<Rightarrow> Inr (EventFromStored stored data))"

section \<open>First registration wins\<close>

lemma Lookup_register:
  "Registry_Lookup (registry_register r ty t) ty' =
     (if ty' = ty \<and> Registry_Lookup r ty = None then Some t else Registry_Lookup r ty')"
  by (auto simp: registry_register_def Registry_Lookup_def update_conv split: option.splits)

lemma Lookup_register_keeps:
  "Registry_Lookup r ty = Some t \<Longrightarrow> Registry_Lookup (registry_register r ty' t') ty = Some t"
  by (auto simp: Lookup_register)

lemma Lookup_RegisterAll_keeps:
  "Registry_Lookup r ty = Some t \<Longrightarrow> Registry_Lookup (fst (RegisterAll jl r es)) ty = Some t"
  by (induction es arbitrary: r) (auto simp: Lookup_register_keeps Let_def split: option.splits)

lemma Lookup_RegisterAll_new:
  assumes "\<forall>e \<in> set es. jl_TypeOf jl e \<noteq> None" and "e \<in> set es"
  shows "Registry_Lookup (fst (RegisterAll jl r es)) (GetEventType jl e) \<noteq> None"
  using assms
proof (induction es arbitrary: r)
  case (Cons x xs)
  then obtain t where t: "jl_TypeOf jl x = Some t" by auto
  show ?case
  proof (cases "x = e")
    case True
    have "Registry_Lookup (registry_register r (type_Name (indirectEventType t)) (indirectEventType t))
        (type_Name (indirectEventType t)) \<noteq> None"
      by (auto simp: Lookup_register)
    with t True show ?thesis
      by (auto simp: GetEventType_def Let_def dest: Lookup_RegisterAll_keeps)
  next
    case False
    with Cons t show ?thesis by (simp add: Let_def)
  qed
qed simp

end
