(* ===== verification/Outbox_Store.thy ===== *)
theory Outbox_Store
  imports Footprint
begin

text \<open>
  The in-memory transactional outbox, \<^verbatim>\<open>adapters/memory/outbox_store.go\<close>, with the
  outbox data types of \<^verbatim>\<open>adapters/adapter.go\<close> and the footprint operations of
  \<^verbatim>\<open>adapters/memory/subject_footprint.go\<close>.

  The store is the map from message ids to messages.  Every operation first looks at its
  context, then runs under the store's lock, so one call is one atomic step; the clock
  reading \<^verbatim>\<open>time.Now()\<close> of a call is its argument \<open>now\<close> and the ids that
  \<^verbatim>\<open>uuid.New()\<close> produces are the argument \<open>uuid\<close>.  \<^verbatim>\<open>sort.Slice\<close> orders
  messages with equal keys arbitrarily; the model's stable sort of an arbitrarily ordered
  map reaches each of those orders.
\<close>

section \<open>Data\<close>

datatype outbox_status =
    OutboxPending | OutboxProcessing | OutboxCompleted | OutboxFailed | OutboxDeadLetter

fun OutboxStatus_String :: "outbox_status \<Rightarrow> string" where
  "OutboxStatus_String OutboxPending = ''pending''"
| "OutboxStatus_String OutboxProcessing = ''processing''"
| "OutboxStatus_String OutboxCompleted = ''completed''"
| "OutboxStatus_String OutboxFailed = ''failed''"
| "OutboxStatus_String OutboxDeadLetter = ''dead_letter''"

record outbox_message =
  om_ID :: string
  om_AggregateID :: string
  om_EventType :: string
  om_Destination :: string
  om_Payload :: bytes
  om_Headers :: "(string, string) gomap option"
  om_Status :: outbox_status
  om_Attempts :: int
  om_MaxAttempts :: int
  om_LastError :: string
  om_ScheduledAt :: time
  om_LastAttemptAt :: "time option"
  om_ProcessedAt :: "time option"
  om_CreatedAt :: time

record outbox_store =
  os_messages :: "(string, outbox_message) gomap"

definition NewOutboxStore :: outbox_store where
  "NewOutboxStore = \<lparr>os_messages = []\<rparr>"

text \<open>\<^verbatim>\<open>copyMessage\<close>: a field-by-field copy with fresh buffers.\<close>

definition copyMessage :: "outbox_message \<Rightarrow> outbox_message" where
  "copyMessage msg =
     \<lparr>om_ID = om_ID msg, om_AggregateID = om_AggregateID msg, om_EventType = om_EventType msg,
      om_Destination = om_Destination msg, om_Payload = om_Payload msg,
      om_Headers = om_Headers msg, om_Status = om_Status msg, om_Attempts = om_Attempts msg,
      om_MaxAttempts = om_MaxAttempts msg, om_LastError = om_LastError msg,
      om_ScheduledAt = om_ScheduledAt msg, om_LastAttemptAt = om_LastAttemptAt msg,
      om_ProcessedAt = om_ProcessedAt msg, om_CreatedAt = om_CreatedAt msg\<rparr>"

lemma copyMessage_id [simp]: "copyMessage msg = msg"
  by (simp add: copyMessage_def)

section \<open>Operations\<close>

text \<open>\<^verbatim>\<open>Schedule\<close> fills in the missing fields of each message (through the caller's
  pointer, so the filled-in messages are part of the result) and stores a copy.\<close>

definition fill_message :: "string \<Rightarrow> time \<Rightarrow> outbox_message \<Rightarrow> outbox_message" where
  "fill_message newID now msg =
     msg\<lparr>om_ID := (if om_ID msg = [] then newID else om_ID msg),
         om_CreatedAt := (if om_CreatedAt msg = 0 then now else om_CreatedAt msg),
         om_ScheduledAt := (if om_ScheduledAt msg = 0 then now else om_ScheduledAt msg),
         om_MaxAttempts := (if om_MaxAttempts msg = 0 then 5 else om_MaxAttempts msg),
         om_Status := OutboxPending\<rparr>"

fun schedule_loop ::
  "(nat \<Rightarrow> string) \<Rightarrow> time \<Rightarrow> nat \<Rightarrow> outbox_message list \<Rightarrow> (string, outbox_message) gomap \<Rightarrow>
   (string, outbox_message) gomap \<times> outbox_message list" where
  "schedule_loop uuid now i [] ms = (ms, [])"
| "schedule_loop uuid now i (msg # rest) ms =
     (let msg' = fill_message (uuid i) now msg;
          copied = copyMessage msg';
          (ms', out) = schedule_loop uuid now (Suc i) rest (AList.update (om_ID copied) copied ms)
      in (ms', msg' # out))"

definition Schedule ::
  "ctx \<Rightarrow> (nat \<Rightarrow> string) \<Rightarrow> time \<Rightarrow> outbox_store \<Rightarrow> outbox_message list \<Rightarrow>
   outbox_store \<times> outbox_message list \<times> error option" where
  "Schedule ctx uuid now s messages =
     (case ctx of
        Some e \<Rightarrow> (s, messages, Some e)
      | None \<Rightarrow>
          let (ms, out) = schedule_loop uuid now 0 messages (os_messages s)
          in (s\<lparr>os_messages := ms\<rparr>, out, None))"

definition ScheduleInTx ::
  "ctx \<Rightarrow> (nat \<Rightarrow> string) \<Rightarrow> time \<Rightarrow> outbox_store \<Rightarrow> outbox_message list \<Rightarrow>
   outbox_store \<times> outbox_message list \<times> error option" where
  "ScheduleInTx ctx uuid now s messages = Schedule ctx uuid now s messages"

definition due :: "time \<Rightarrow> outbox_message \<Rightarrow> bool" where
  "due now msg \<longleftrightarrow> om_Status msg = OutboxPending \<and> \<not> om_ScheduledAt msg > now"

definition claim :: "time \<Rightarrow> outbox_message \<Rightarrow> outbox_message" where
  "claim now msg =
     msg\<lparr>om_Status := OutboxProcessing, om_Attempts := om_Attempts msg + 1,
         om_LastAttemptAt := Some now\<rparr>"

definition pending_selection ::
  "time \<Rightarrow> int \<Rightarrow> (string, outbox_message) gomap \<Rightarrow> (string, outbox_message) gomap" where
  "pending_selection now limit ms =
     (let pending = sort_key (\<lambda>(k, m). om_ScheduledAt m) (filter (\<lambda>(k, m). due now m) ms)
      in if limit > 0 \<and> int (length pending) > limit then take (nat limit) pending else pending)"

definition FetchPending ::
  "ctx \<Rightarrow> time \<Rightarrow> outbox_store \<Rightarrow> int \<Rightarrow> outbox_store \<times> (error + outbox_message list)" where
  "FetchPending ctx now s limit =
     (case ctx of
        Some e \<Rightarrow> (s, Inl e)
      | None \<Rightarrow>
          let sel = pending_selection now limit (os_messages s);
              ms = fold (\<lambda>(k, m) ms. AList.update k (claim now m) ms) sel (os_messages s)
          in (s\<lparr>os_messages := ms\<rparr>, Inr (map (\<lambda>(k, m). copyMessage (claim now m)) sel)))"

definition complete_message ::
  "time \<Rightarrow> string \<Rightarrow> (string, outbox_message) gomap \<Rightarrow> (string, outbox_message) gomap" where
  "complete_message now mid ms =
     (case map_of ms mid of
        None \<Rightarrow> ms
      | Some msg \<Rightarrow>
          AList.update mid (msg\<lparr>om_Status := OutboxCompleted, om_ProcessedAt := Some now\<rparr>) ms)"

definition MarkCompleted ::
  "ctx \<Rightarrow> time \<Rightarrow> outbox_store \<Rightarrow> string list \<Rightarrow> outbox_store \<times> error option" where
  "MarkCompleted ctx now s ids =
     (case ctx of
        Some e \<Rightarrow> (s, Some e)
      | None \<Rightarrow> (s\<lparr>os_messages := fold (complete_message now) ids (os_messages s)\<rparr>, None))"

text \<open>The second argument of \<^verbatim>\<open>MarkFailed\<close> is the text of the error, \<open>None\<close> for a nil
  error.\<close>

definition MarkFailed ::
  "ctx \<Rightarrow> outbox_store \<Rightarrow> string \<Rightarrow> string option \<Rightarrow> outbox_store \<times> error option" where
  "MarkFailed ctx s mid lastErr =
     (case ctx of
        Some e \<Rightarrow> (s, Some e)
      | None \<Rightarrow>
          (case map_of (os_messages s) mid of
             None \<Rightarrow> (s, Some ErrOutboxMessageNotFound)
           | Some msg \<Rightarrow>
               (s\<lparr>os_messages :=
                    AList.update mid
                      (msg\<lparr>om_Status := OutboxFailed,
                           om_LastError := (case lastErr of Some t \<Rightarrow> t | None \<Rightarrow> [])\<rparr>)
                      (os_messages s)\<rparr>, None)))"

definition retry_eligible :: "int \<Rightarrow> outbox_message \<Rightarrow> bool" where
  "retry_eligible maxAttempts msg \<longleftrightarrow>
     om_Status msg = OutboxFailed \<and> om_Attempts msg < min maxAttempts (om_MaxAttempts msg)"

definition RetryFailed :: "ctx \<Rightarrow> outbox_store \<Rightarrow> int \<Rightarrow> outbox_store \<times> (error + nat)" where
  "RetryFailed ctx s maxAttempts =
     (case ctx of
        Some e \<Rightarrow> (s, Inl e)
      | None \<Rightarrow>
          (s\<lparr>os_messages := gm_update_where (retry_eligible maxAttempts)
                (\<lambda>msg. msg\<lparr>om_Status := OutboxPending\<rparr>) (os_messages s)\<rparr>,
           Inr (gm_count (retry_eligible maxAttempts) (os_messages s))))"

definition stale :: "time \<Rightarrow> outbox_message \<Rightarrow> bool" where
  "stale cutoff msg \<longleftrightarrow>
     om_Status msg = OutboxProcessing \<and>
     (case om_LastAttemptAt msg of None \<Rightarrow> False | Some t \<Rightarrow> t < cutoff)"

definition ReclaimStale ::
  "ctx \<Rightarrow> time \<Rightarrow> outbox_store \<Rightarrow> duration \<Rightarrow> outbox_store \<times> (error + nat)" where
  "ReclaimStale ctx now s olderThan =
     (case ctx of
        Some e \<Rightarrow> (s, Inl e)
      | None \<Rightarrow>
          (s\<lparr>os_messages := gm_update_where (stale (now - olderThan))
                (\<lambda>msg. msg\<lparr>om_Status := OutboxPending\<rparr>) (os_messages s)\<rparr>,
           Inr (gm_count (stale (now - olderThan)) (os_messages s))))"

definition exhausted :: "int \<Rightarrow> outbox_message \<Rightarrow> bool" where
  "exhausted maxAttempts msg \<longleftrightarrow>
     om_Status msg = OutboxFailed \<and> om_Attempts msg \<ge> min maxAttempts (om_MaxAttempts msg)"

definition MoveToDeadLetter :: "ctx \<Rightarrow> outbox_store \<Rightarrow> int \<Rightarrow> outbox_store \<times> (error + nat)" where
  "MoveToDeadLetter ctx s maxAttempts =
     (case ctx of
        Some e \<Rightarrow> (s, Inl e)
      | None \<Rightarrow>
          (s\<lparr>os_messages := gm_update_where (exhausted maxAttempts)
                (\<lambda>msg. msg\<lparr>om_Status := OutboxDeadLetter\<rparr>) (os_messages s)\<rparr>,
           Inr (gm_count (exhausted maxAttempts) (os_messages s))))"

fun dead_letter_loop :: "int \<Rightarrow> outbox_message list \<Rightarrow> outbox_message list \<Rightarrow> outbox_message list" where
  "dead_letter_loop limit [] result = result"
| "dead_letter_loop limit (msg # rest) result =
     (if om_Status msg = OutboxDeadLetter then
        (let result' = result @ [copyMessage msg]
         in if limit > 0 \<and> int (length result') \<ge> limit then result'
            else dead_letter_loop limit rest result')
      else dead_letter_loop limit rest result)"

definition GetDeadLetterMessages ::
  "ctx \<Rightarrow> outbox_store \<Rightarrow> int \<Rightarrow> error + outbox_message list" where
  "GetDeadLetterMessages ctx s limit =
     (case ctx of
        Some e \<Rightarrow> Inl e
      | None \<Rightarrow> Inr (dead_letter_loop limit (map snd (os_messages s)) []))"

definition cleanable :: "time \<Rightarrow> outbox_message \<Rightarrow> bool" where
  "cleanable cutoff msg \<longleftrightarrow>
     om_Status msg = OutboxCompleted \<and>
     (case om_ProcessedAt msg of None \<Rightarrow> False | Some t \<Rightarrow> \<not> t > cutoff)"

definition Outbox_Cleanup ::
  "ctx \<Rightarrow> time \<Rightarrow> outbox_store \<Rightarrow> duration \<Rightarrow> outbox_store \<times> (error + nat)" where
  "Outbox_Cleanup ctx now s olderThan =
     (case ctx of
        Some e \<Rightarrow> (s, Inl e)
      | None \<Rightarrow>
          (s\<lparr>os_messages := gm_delete_where (cleanable (now - olderThan)) (os_messages s)\<rparr>,
           Inr (gm_count (cleanable (now - olderThan)) (os_messages s))))"

definition DeleteOutboxBySubject :: "ctx \<Rightarrow> outbox_store \<Rightarrow> string \<Rightarrow> outbox_store \<times> (error + nat)" where
  "DeleteOutboxBySubject ctx s subjectID =
     (if subjectID = [] then (s, Inr 0)
      else (case ctx of
        Some e \<Rightarrow> (s, Inl e)
      | None \<Rightarrow>
          (s\<lparr>os_messages := gm_delete_where (\<lambda>msg. om_AggregateID msg = subjectID) (os_messages s)\<rparr>,
           Inr (gm_count (\<lambda>msg. om_AggregateID msg = subjectID) (os_messages s)))))"

definition DeleteOutboxByAggregateIDs ::
  "ctx \<Rightarrow> outbox_store \<Rightarrow> string list \<Rightarrow> outbox_store \<times> (error + nat)" where
  "DeleteOutboxByAggregateIDs ctx s aggregateIDs =
     (case idSet aggregateIDs of
        None \<Rightarrow> (s, Inr 0)
      | Some st \<Rightarrow>
          (case ctx of
             Some e \<Rightarrow> (s, Inl e)
           | None \<Rightarrow>
               (s\<lparr>os_messages := gm_delete_where (\<lambda>msg. om_AggregateID msg \<in> set st) (os_messages s)\<rparr>,
                Inr (gm_count (\<lambda>msg. om_AggregateID msg \<in> set st) (os_messages s)))))"

definition CountOutboxByAggregateIDs :: "ctx \<Rightarrow> outbox_store \<Rightarrow> string list \<Rightarrow> error + nat" where
  "CountOutboxByAggregateIDs ctx s aggregateIDs =
     (case idSet aggregateIDs of
        None \<Rightarrow> Inr 0
      | Some st \<Rightarrow>
          (case ctx of
             Some e \<Rightarrow> Inl e
           | None \<Rightarrow> Inr (gm_count (\<lambda>msg. om_AggregateID msg \<in> set st) (os_messages s))))"

definition Outbox_Clear :: "outbox_store \<Rightarrow> outbox_store" where
  "Outbox_Clear s = s\<lparr>os_messages := []\<rparr>"

definition Outbox_Count :: "outbox_store \<Rightarrow> nat" where
  "Outbox_Count s = length (os_messages s)"

definition Outbox_CountByStatus :: "outbox_store \<Rightarrow> outbox_status \<Rightarrow> nat" where
  "Outbox_CountByStatus s st = gm_count (\<lambda>msg. om_Status msg = st) (os_messages s)"

section \<open>The store invariant\<close>

text \<open>Keys are unique and a message is stored under its own id.\<close>

definition msgs_inv :: "(string, outbox_message) gomap \<Rightarrow> bool" where
  "msgs_inv ms \<longleftrightarrow> gm_wf ms \<and> (\<forall>k m. map_of ms k = Some m \<longrightarrow> om_ID m = k)"

definition outbox_inv :: "outbox_store \<Rightarrow> bool" where
  "outbox_inv s \<longleftrightarrow> msgs_inv (os_messages s)"

lemmas outbox_op_defs [store_defs] =
  Schedule_def FetchPending_def MarkCompleted_def MarkFailed_def RetryFailed_def
  ReclaimStale_def MoveToDeadLetter_def Outbox_Cleanup_def DeleteOutboxBySubject_def
  DeleteOutboxByAggregateIDs_def Outbox_Clear_def

abbreviation get_message :: "outbox_store \<Rightarrow> string \<Rightarrow> outbox_message option" where
  "get_message s k \<equiv> map_of (os_messages s) k"

lemma msgs_inv_ID: "msgs_inv ms \<Longrightarrow> map_of ms k = Some m \<Longrightarrow> om_ID m = k"
  by (simp add: msgs_inv_def)

lemma msgs_inv_wf: "msgs_inv ms \<Longrightarrow> gm_wf ms"
  by (simp add: msgs_inv_def)

lemma msgs_inv_update: "msgs_inv ms \<Longrightarrow> om_ID m = k \<Longrightarrow> msgs_inv (AList.update k m ms)"
  by (auto simp: msgs_inv_def gm_simps split: if_splits)

lemma msgs_inv_update_where:
  "msgs_inv ms \<Longrightarrow> (\<And>m. om_ID (f m) = om_ID m) \<Longrightarrow> msgs_inv (gm_update_where P f ms)"
  by (auto simp: msgs_inv_def gm_simps split: if_splits)

lemma msgs_inv_delete_where: "msgs_inv ms \<Longrightarrow> msgs_inv (gm_delete_where P ms)"
  by (auto simp: msgs_inv_def gm_simps split: option.splits if_splits)

lemmas msgs_inv_intros = msgs_inv_update msgs_inv_update_where msgs_inv_delete_where

lemma msgs_inv_fold:
  "msgs_inv ms \<Longrightarrow> (\<And>x ms. msgs_inv ms \<Longrightarrow> x \<in> set xs \<Longrightarrow> msgs_inv (f x ms)) \<Longrightarrow> msgs_inv (fold f xs ms)"
  by (induction xs arbitrary: ms) auto

text \<open>The maintenance loops keep the invariant, whatever their predicate.\<close>

lemma maintenance_inv:
  assumes "outbox_inv s"
  shows "outbox_inv (fst (RetryFailed ctx s n))" "outbox_inv (fst (ReclaimStale ctx now s d))"
    "outbox_inv (fst (MoveToDeadLetter ctx s n))" "outbox_inv (fst (Outbox_Cleanup ctx now s d))"
    "outbox_inv (fst (DeleteOutboxBySubject ctx s sub))"
    "outbox_inv (fst (DeleteOutboxByAggregateIDs ctx s ids))"
  using assms
  by (auto simp: store_defs outbox_inv_def intro!: msgs_inv_intros split: option.splits)

lemma schedule_loop_inv: "msgs_inv ms \<Longrightarrow> msgs_inv (fst (schedule_loop uuid now i msgs ms))"
proof (induction msgs arbitrary: i ms)
  case (Cons msg msgs)
  let ?m = "fill_message (uuid i) now msg"
  have "msgs_inv (AList.update (om_ID ?m) ?m ms)"
    using Cons.prems by (simp add: msgs_inv_update)
  from Cons.IH [OF this, of "Suc i"] show ?case
    by (auto simp: Let_def split: prod.splits)
qed simp

lemma Schedule_inv: "outbox_inv s \<Longrightarrow> outbox_inv (fst (Schedule ctx uuid now s msgs))"
  using schedule_loop_inv [of "os_messages s" uuid now 0 msgs]
  by (auto simp: Schedule_def outbox_inv_def split: option.splits prod.splits)

lemma MarkFailed_inv: "outbox_inv s \<Longrightarrow> outbox_inv (fst (MarkFailed ctx s mid e))"
  by (auto simp: MarkFailed_def outbox_inv_def msgs_inv_ID intro!: msgs_inv_update split: option.splits)

lemma complete_message_inv: "msgs_inv ms \<Longrightarrow> msgs_inv (complete_message now mid ms)"
  by (auto simp: complete_message_def msgs_inv_ID intro!: msgs_inv_update split: option.splits)

lemma MarkCompleted_inv: "outbox_inv s \<Longrightarrow> outbox_inv (fst (MarkCompleted ctx now s ids))"
  by (auto simp: MarkCompleted_def outbox_inv_def complete_message_inv
      intro!: msgs_inv_fold split: option.splits)

section \<open>What FetchPending selects\<close>

lemma set_pending_selection: "set (pending_selection now limit ms) \<subseteq> {(k, m) \<in> set ms. due now m}"
  unfolding pending_selection_def Let_def
  by (auto dest: in_set_takeD split: if_splits)

lemma wf_sort_filter: "gm_wf ms \<Longrightarrow> gm_wf (sort_key f (filter P ms))"
  by (metis distinct_map distinct_sort gm_wf_filter set_sort)

lemma wf_pending_selection: "gm_wf ms \<Longrightarrow> gm_wf (pending_selection now limit ms)"
  unfolding pending_selection_def Let_def
  by (simp add: wf_sort_filter take_map [symmetric])

lemma sorted_pending_selection:
  "sorted (map (\<lambda>(k, m). om_ScheduledAt m) (pending_selection now limit ms))"
  unfolding pending_selection_def Let_def
  by (simp add: sorted_sort_key take_map [symmetric])

lemma length_pending_selection:
  "0 < limit \<Longrightarrow> int (length (pending_selection now limit ms)) \<le> limit"
  unfolding pending_selection_def Let_def by auto

text \<open>A due message that was left behind is not older than any that was taken.\<close>

lemma pending_selection_oldest:
  assumes "(k, m) \<in> set ms" and "due now m" and "(k, m) \<notin> set (pending_selection now limit ms)"
    and "(k', m') \<in> set (pending_selection now limit ms)"
  shows "om_ScheduledAt m' \<le> om_ScheduledAt m"
proof -
  let ?p = "sort_key (\<lambda>(k, m). om_ScheduledAt m) (filter (\<lambda>(k, m). due now m) ms)"
  have mem: "(k, m) \<in> set ?p" using assms(1,2) by auto
  obtain n where n: "pending_selection now limit ms = take n ?p"
    unfolding pending_selection_def Let_def by (metis (no_types) order_refl take_all)
  have "(k, m) \<in> set (drop n ?p)"
    using mem assms(3) n by (metis Un_iff append_take_drop_id set_append)
  moreover have "(k', m') \<in> set (take n ?p)"
    using assms(4) n by simp
  moreover have "sorted (map (\<lambda>(k, m). om_ScheduledAt m) (take n ?p @ drop n ?p))"
    using sorted_sort_key [of "\<lambda>(k, m). om_ScheduledAt m"] by (simp only: append_take_drop_id)
  then have "\<forall>x \<in> set (take n ?p). \<forall>y \<in> set (drop n ?p).
      (\<lambda>(k, m). om_ScheduledAt m) x \<le> (\<lambda>(k, m). om_ScheduledAt m) y"
    unfolding map_append sorted_append set_map ball_simps by blast
  ultimately show ?thesis by fastforce
qed

lemma map_of_fold_update:
  "gm_wf sel \<Longrightarrow>
   map_of (fold (\<lambda>(k, m) ms. AList.update k (g m) ms) sel ms) k =
     (case map_of sel k of Some m \<Rightarrow> Some (g m) | None \<Rightarrow> map_of ms k)"
proof (induction sel arbitrary: ms)
  case (Cons km sel)
  obtain k' m' where [simp]: "km = (k', m')" by (cases km)
  have "map_of sel k' = None" using Cons.prems by (simp add: map_of_eq_None_iff)
  with Cons show ?case by (auto simp: gm_simps split: option.splits)
qed simp

lemma map_of_subset_wf:
  "gm_wf ms \<Longrightarrow> set sel \<subseteq> set ms \<Longrightarrow> map_of sel k = Some m \<Longrightarrow> map_of ms k = Some m"
  by (meson map_of_SomeD map_of_is_SomeI subsetD)

lemma selected_message:
  assumes "gm_wf ms" and "map_of (pending_selection now limit ms) k = Some m"
  shows "map_of ms k = Some m \<and> due now m"
proof -
  have "(k, m) \<in> set (pending_selection now limit ms)"
    using assms(2) by (rule map_of_SomeD)
  then have "(k, m) \<in> set ms" "due now m"
    using set_pending_selection by blast+
  with assms(1) show ?thesis by simp
qed

lemma get_message_FetchPending:
  assumes "gm_wf (os_messages s)"
  shows "get_message (fst (FetchPending None now s limit)) k =
    (case map_of (pending_selection now limit (os_messages s)) k of
       Some m \<Rightarrow> Some (claim now m) | None \<Rightarrow> get_message s k)"
  using assms by (simp add: FetchPending_def Let_def map_of_fold_update wf_pending_selection)

lemma FetchPending_inv: "outbox_inv s \<Longrightarrow> outbox_inv (fst (FetchPending ctx now s limit))"
proof (cases ctx)
  case None
  assume inv: "outbox_inv s"
  then have wf: "gm_wf (os_messages s)" by (simp add: outbox_inv_def msgs_inv_wf)
  have "om_ID m = k" if "(k, m) \<in> set (pending_selection now limit (os_messages s))" for k m
    using that set_pending_selection inv wf
    by (fastforce simp: outbox_inv_def intro: msgs_inv_ID)
  then have "msgs_inv (fold (\<lambda>(k, m) ms. AList.update k (claim now m) ms)
      (pending_selection now limit (os_messages s)) (os_messages s))"
    using inv
    by (intro msgs_inv_fold) (auto simp: outbox_inv_def claim_def intro!: msgs_inv_update)
  with None show ?thesis by (simp add: FetchPending_def outbox_inv_def Let_def)
qed (simp add: FetchPending_def)

interpretation outbox_footprint:
  footprint_store os_messages om_AggregateID DeleteOutboxByAggregateIDs CountOutboxByAggregateIDs
  by unfold_locales
    (simp_all add: DeleteOutboxByAggregateIDs_def CountOutboxByAggregateIDs_def footprint_ids
      split: option.splits del: Diff_iff)

section \<open>Properties\<close>

lemma FetchPending_result:
  assumes "outbox_inv s" and "FetchPending None now s limit = (s', Inr out)"
  shows "out = map (\<lambda>(k, m). claim now m) (pending_selection now limit (os_messages s))"
    and "m \<in> set out \<Longrightarrow> \<exists>m0. get_message s (om_ID m) = Some m0 \<and> due now m0 \<and> m = claim now m0"
    and "map om_ID out = map fst (pending_selection now limit (os_messages s))"
proof -
  let ?sel = "pending_selection now limit (os_messages s)"
  show out: "out = map (\<lambda>(k, m). claim now m) ?sel"
    using assms(2) by (auto simp: FetchPending_def Let_def)
  have inv: "msgs_inv (os_messages s)" using assms(1) by (simp add: outbox_inv_def)
  have sel: "map_of (os_messages s) k = Some m \<and> due now m \<and> om_ID m = k"
    if "(k, m) \<in> set ?sel" for k m
    using that set_pending_selection [of now limit "os_messages s"] inv msgs_inv_wf [OF inv]
    by (fastforce intro: msgs_inv_ID)
  show "m \<in> set out \<Longrightarrow> \<exists>m0. get_message s (om_ID m) = Some m0 \<and> due now m0 \<and> m = claim now m0"
    using sel by (fastforce simp: out claim_def)
  show "map om_ID out = map fst ?sel"
    using sel by (auto simp: out claim_def)
qed

text \<open>FetchPending claims exclusively.  Each message it returns was pending and due,
  is stored as Processing with one more attempt, the batch is ordered by due time and
  within the limit, and no other message of the store changes.\<close>

theorem FetchPending_claims:
  assumes "outbox_inv s" and "FetchPending None now s limit = (s', Inr out)"
  shows "(\<forall>m \<in> set out. get_message s' (om_ID m) = Some m \<and> om_Status m = OutboxProcessing \<and>
            (\<exists>m0. get_message s (om_ID m) = Some m0 \<and> due now m0 \<and>
                  om_Attempts m = om_Attempts m0 + 1)) \<and>
         distinct (map om_ID out) \<and> sorted (map om_ScheduledAt out) \<and>
         (0 < limit \<longrightarrow> int (length out) \<le> limit) \<and>
         (\<forall>k. k \<notin> set (map om_ID out) \<longrightarrow> get_message s' k = get_message s k) \<and>
         outbox_inv s'"
proof -
  let ?sel = "pending_selection now limit (os_messages s)"
  note res = FetchPending_result [OF assms]
  have wf: "gm_wf (os_messages s)" using assms(1) by (simp add: outbox_inv_def msgs_inv_wf)
  have s': "s' = fst (FetchPending None now s limit)" using assms(2) by simp
  have look: "get_message s' k = (case map_of ?sel k of Some m \<Rightarrow> Some (claim now m) | None \<Rightarrow> get_message s k)"
    for k using get_message_FetchPending [OF wf] s' by simp
  have dist: "distinct (map om_ID out)" using wf by (simp add: res(3) wf_pending_selection)
  have "get_message s' (om_ID m) = Some m" if m: "m \<in> set out" for m
  proof -
    have "om_ID m \<in> set (map fst ?sel)" using m res(3) by (metis image_eqI list.set_map)
    then obtain m1 where m1: "map_of ?sel (om_ID m) = Some m1"
      by (metis list.set_map map_of_eq_None_iff not_Some_eq)
    then have "get_message s (om_ID m) = Some m1" using selected_message [OF wf] by blast
    with res(2) [OF m] m1 look show ?thesis by auto
  qed
  moreover have "sorted (map om_ScheduledAt out)"
    using sorted_pending_selection [of now limit "os_messages s"]
    by (simp add: res(1) comp_def case_prod_unfold claim_def)
  moreover have "0 < limit \<longrightarrow> int (length out) \<le> limit"
    by (simp add: res(1) length_pending_selection)
  moreover have "get_message s' k = get_message s k" if "k \<notin> set (map om_ID out)" for k
    using that look by (simp add: res(3) map_of_eq_None_iff [symmetric] split: option.splits)
  moreover have "outbox_inv s'" using assms(1) FetchPending_inv s' by blast
  ultimately show ?thesis using dist res(2) by (fastforce simp: claim_def)
qed

text \<open>Two messages for the witnesses below.\<close>

definition demo_message :: "string \<Rightarrow> time \<Rightarrow> outbox_message" where
  "demo_message k t =
     \<lparr>om_ID = k, om_AggregateID = ''Order-1'', om_EventType = ''Placed'',
      om_Destination = ''kafka:orders'', om_Payload = ''p'', om_Headers = None,
      om_Status = OutboxPending, om_Attempts = 0, om_MaxAttempts = 1, om_LastError = [],
      om_ScheduledAt = t, om_LastAttemptAt = None, om_ProcessedAt = None, om_CreatedAt = t\<rparr>"

definition demo_store :: outbox_store where
  "demo_store = \<lparr>os_messages = [(''b'', demo_message ''b'' 2), (''a'', demo_message ''a'' 1)]\<rparr>"

lemma demo_store_inv: "outbox_inv demo_store"
  by (simp add: outbox_inv_def msgs_inv_def demo_store_def demo_message_def)

lemma demo_selection:
  "pending_selection 10 1 (os_messages demo_store) = [(''a'', demo_message ''a'' 1)]"
  by (simp add: pending_selection_def demo_store_def demo_message_def due_def)

lemma demo_fetch:
  "FetchPending None 10 demo_store 1 =
     (\<lparr>os_messages = [(''b'', demo_message ''b'' 2), (''a'', claim 10 (demo_message ''a'' 1))]\<rparr>,
      Inr [claim 10 (demo_message ''a'' 1)])"
  by (simp add: FetchPending_def demo_selection) (simp add: demo_store_def)

theorem FetchPending_claims_witness:
  "outbox_inv demo_store \<and>
   get_message (fst (FetchPending None 10 demo_store 1)) ''a'' = Some (claim 10 (demo_message ''a'' 1)) \<and>
   get_message (fst (FetchPending None 10 demo_store 1)) ''b'' = Some (demo_message ''b'' 2)"
  using FetchPending_claims [OF demo_store_inv demo_fetch] demo_store_inv
  unfolding demo_fetch by simp

lemma claimed_not_due:
  assumes "outbox_inv s" and "FetchPending None now s limit = (s', Inr out)"
    and "k \<in> set (map om_ID out)" and "get_message s' k = Some m"
  shows "\<not> due now' m"
proof -
  have wf: "gm_wf (os_messages s)" using assms(1) by (simp add: outbox_inv_def msgs_inv_wf)
  have "map_of (pending_selection now limit (os_messages s)) k \<noteq> None"
    using assms(3) FetchPending_result(3) [OF assms(1,2)] by (simp add: map_of_eq_None_iff)
  then show ?thesis
    using get_message_FetchPending [OF wf, of now limit k] assms(2,4)
    by (auto simp: claim_def due_def)
qed

text \<open>C11: Two batches fetched one after the other never share a message, whatever the two
  clock readings and limits: a claimed message is handed out again only after it was
  failed and retried, or reclaimed.\<close>

theorem FetchPending_no_double_claim:
  assumes "outbox_inv s" and "FetchPending None now s limit = (s1, Inr out1)"
    and "FetchPending None now' s1 limit' = (s2, Inr out2)"
  shows "set (map om_ID out1) \<inter> set (map om_ID out2) = {}"
proof -
  have inv1: "outbox_inv s1" using FetchPending_inv [OF assms(1), of None now limit] assms(2) by simp
  have "om_ID m \<notin> set (map om_ID out1)" if "m \<in> set out2" for m
    using FetchPending_result(2) [OF inv1 assms(3) that] claimed_not_due [OF assms(1,2)] by blast
  then have "\<forall>k \<in> set (map om_ID out2). k \<notin> set (map om_ID out1)" by (metis imageE list.set_map)
  then show ?thesis by blast
qed

theorem FetchPending_no_double_claim_witness:
  "\<exists>out2. snd (FetchPending None 20 (fst (FetchPending None 10 demo_store 1)) 5) = Inr out2 \<and>
     set (map om_ID [claim 10 (demo_message ''a'' 1)]) \<inter> set (map om_ID out2) = {}"
proof -
  obtain s2 out2 where h: "FetchPending None 20 (fst (FetchPending None 10 demo_store 1)) 5 = (s2, Inr out2)"
    by (simp add: FetchPending_def Let_def)
  have "FetchPending None 10 demo_store 1 =
      (fst (FetchPending None 10 demo_store 1), Inr [claim 10 (demo_message ''a'' 1)])"
    by (simp add: demo_fetch)
  from FetchPending_no_double_claim [OF demo_store_inv this h] h show ?thesis by (metis snd_conv)
qed

lemma get_message_maintenance:
  "get_message (fst (MoveToDeadLetter None (fst (RetryFailed None s n)) n)) k =
     map_option (\<lambda>m. if om_Status m = OutboxFailed then
         (if om_Attempts m < min n (om_MaxAttempts m) then m\<lparr>om_Status := OutboxPending\<rparr>
          else m\<lparr>om_Status := OutboxDeadLetter\<rparr>) else m) (get_message s k)"
  by (cases "get_message s k")
    (auto simp: RetryFailed_def MoveToDeadLetter_def gm_simps retry_eligible_def exhausted_def)

text \<open>One maintenance pass (RetryFailed, then MoveToDeadLetter with the same budget)
  settles every failed message: none stays Failed, a message with attempts left is Pending
  again, an exhausted one is DeadLetter, and every message that was not Failed is
  untouched.\<close>

theorem maintenance_settles_failed:
  "\<forall>k. get_message (fst (MoveToDeadLetter None (fst (RetryFailed None s n)) n)) k =
     (case get_message s k of
        None \<Rightarrow> None
      | Some m \<Rightarrow>
          Some (if om_Status m \<noteq> OutboxFailed then m
                else if om_Attempts m < min n (om_MaxAttempts m) then m\<lparr>om_Status := OutboxPending\<rparr>
                else m\<lparr>om_Status := OutboxDeadLetter\<rparr>))"
  by (simp add: get_message_maintenance split: option.splits)

text \<open>MaxAttempts is no bound on deliveries.  ReclaimStale returns a stale Processing
  message to Pending whatever its attempt count, so the next fetch delivers it once more
  even though its budget is spent.\<close>

theorem ReclaimStale_ignores_MaxAttempts:
  assumes "outbox_inv s" and "get_message s k = Some m" and "om_Status m = OutboxProcessing"
    and "om_LastAttemptAt m = Some t" and "t < now - olderThan" and "om_ScheduledAt m \<le> now"
    and "om_MaxAttempts m \<le> om_Attempts m"
    and "FetchPending None now (fst (ReclaimStale None now s olderThan)) 0 = (s', Inr out)"
  shows "\<exists>m' \<in> set out. om_ID m' = k \<and> om_MaxAttempts m' < om_Attempts m'"
proof -
  let ?s1 = "fst (ReclaimStale None now s olderThan)"
  let ?m1 = "m\<lparr>om_Status := OutboxPending\<rparr>"
  have inv1: "outbox_inv ?s1" using assms(1) by (rule maintenance_inv)
  have get1: "get_message ?s1 k = Some ?m1"
    using assms(2-5) by (simp add: ReclaimStale_def gm_simps stale_def)
  then have "(k, ?m1) \<in> set (os_messages ?s1)" by (rule map_of_SomeD)
  then have "(k, ?m1) \<in> set (pending_selection now 0 (os_messages ?s1))"
    using assms(6) by (simp add: pending_selection_def due_def)
  then have "claim now ?m1 \<in> set out"
    using FetchPending_result(1) [OF inv1 assms(8)] by force
  moreover have "om_ID m = k"
    using assms(1,2) by (simp add: outbox_inv_def msgs_inv_ID)
  ultimately show ?thesis
    using assms(7) by (intro bexI [of _ "claim now ?m1"]) (auto simp: claim_def)
qed

theorem ReclaimStale_ignores_MaxAttempts_witness:
  "\<exists>out. snd (FetchPending None 1000
       (fst (ReclaimStale None 1000 (fst (FetchPending None 10 demo_store 1)) 300)) 0) = Inr out \<and>
     (\<exists>m' \<in> set out. om_ID m' = ''a'' \<and> om_MaxAttempts m' < om_Attempts m')"
proof -
  let ?s = "fst (FetchPending None 10 demo_store 1)"
  let ?s1 = "fst (ReclaimStale None 1000 ?s 300)"
  obtain s2 out where h: "FetchPending None 1000 ?s1 0 = (s2, Inr out)"
    by (simp add: FetchPending_def Let_def)
  have inv: "outbox_inv ?s" by (rule FetchPending_inv [OF demo_store_inv])
  have "get_message ?s ''a'' = Some (claim 10 (demo_message ''a'' 1))" by (simp add: demo_fetch)
  from ReclaimStale_ignores_MaxAttempts [OF inv this _ _ _ _ _ h, of 10] h
  show ?thesis by (simp add: claim_def demo_message_def)
qed

text \<open>Erasing a subject's outbox footprint is complete, exact and idempotent: the purge
  reports what the counter announced, the counter then reports zero, records of other
  owners are untouched, and a repeated purge removes nothing.\<close>

theorem outbox_erasure_verified:
  assumes "gm_wf (os_messages s)"
  shows "snd (DeleteOutboxByAggregateIDs None s ids) = CountOutboxByAggregateIDs None s ids \<and>
         CountOutboxByAggregateIDs None (fst (DeleteOutboxByAggregateIDs None s ids)) ids = Inr 0 \<and>
         snd (DeleteOutboxByAggregateIDs None (fst (DeleteOutboxByAggregateIDs None s ids)) ids) = Inr 0 \<and>
         (\<forall>k m. get_message s k = Some m \<longrightarrow> om_AggregateID m \<notin> set ids \<longrightarrow>
            get_message (fst (DeleteOutboxByAggregateIDs None s ids)) k = Some m)"
  using assms outbox_footprint.purge_keeps_others
  by (auto simp: outbox_footprint.purge_reports_count outbox_footprint.purge_then_count_zero)

theorem outbox_erasure_verified_witness:
  "gm_wf (os_messages demo_store) \<and>
   CountOutboxByAggregateIDs None demo_store [''Order-1''] = Inr 2 \<and>
   CountOutboxByAggregateIDs None
     (fst (DeleteOutboxByAggregateIDs None demo_store [''Order-1''])) [''Order-1''] = Inr 0"
proof -
  have "gm_wf (os_messages demo_store)" by (simp add: demo_store_def)
  with outbox_erasure_verified [OF this, of "[''Order-1'']"] show ?thesis
    by (simp add: CountOutboxByAggregateIDs_def idSet_def gm_count_def demo_store_def demo_message_def)
qed

end
