(* ===== verification/Memory_Adapter.thy ===== *)
theory Memory_Adapter
  imports Outbox_Store
begin

text \<open>
  The in-memory event store, \<^verbatim>\<open>adapters/memory/memory.go\<close> and
  \<^verbatim>\<open>adapters/memory/rewrite.go\<close>.

  \<open>memory_adapter\<close> has the fields of \<^verbatim>\<open>MemoryAdapter\<close>; the mutexes are gone because
  every operation runs under the adapter's lock, so that one call is one atomic step.  A
  subscriber's channel is its identity (\<open>sub_ch\<close>), its capacity and the events buffered
  in it; \<open>ma_closedChs\<close> records the channels \<^verbatim>\<open>close\<close> was called on, which is state
  of the Go runtime, not of the adapter.  \<^verbatim>\<open>uuid.New()\<close> is the argument \<open>uuid\<close>,
  \<^verbatim>\<open>time.Now()\<close> the argument \<open>now\<close>, and \<^verbatim>\<open>make(chan ...)\<close> takes the identity of
  the new channel as the argument \<open>ch\<close>.
\<close>

section \<open>State\<close>

record stream_data =
  sd_info :: stream_info
  sd_events :: "stored_event list"

record subscription_options =
  so_BufferSize :: int
  so_OnError :: bool

record subscriber =
  sub_ch :: nat
  sub_cap :: nat
  sub_buf :: "stored_event list"
  sub_onError :: bool

record pending_drop =
  pd_ch :: nat
  pd_StreamID :: string
  pd_GlobalPosition :: nat

record projection_info =
  pi_name :: string
  pi_position :: int
  pi_status :: string
  pi_updatedAt :: time

record migration_record =
  mr_name :: string
  mr_appliedAt :: time

record memory_adapter =
  ma_streams :: "(string, stream_data) gomap"
  ma_globalEvents :: "stored_event list"
  ma_globalPosition :: nat
  ma_snapshots :: "(string, snapshot_record) gomap"
  ma_checkpoints :: "(string, nat) gomap"
  ma_closed :: bool
  ma_subscribers :: "subscriber list"
  ma_projections :: "(string, projection_info) gomap"
  ma_migrations :: "(string, migration_record) gomap"
  ma_closedChs :: "nat list"

definition NewAdapter :: memory_adapter where
  "NewAdapter = \<lparr>ma_streams = [], ma_globalEvents = [], ma_globalPosition = 0,
     ma_snapshots = [], ma_checkpoints = [], ma_closed = False, ma_subscribers = [],
     ma_projections = [], ma_migrations = [], ma_closedChs = []\<rparr>"

definition getBufferSize :: "subscription_options list \<Rightarrow> nat" where
  "getBufferSize opts =
     (case opts of
        o1 # _ \<Rightarrow> if so_BufferSize o1 > 0 then nat (so_BufferSize o1) else 100
      | [] \<Rightarrow> 100)"

definition getOnError :: "subscription_options list \<Rightarrow> bool" where
  "getOnError opts = (case opts of o1 # _ \<Rightarrow> so_OnError o1 | [] \<Rightarrow> False)"

text \<open>The guard most operations open with: a cancelled context, then a closed adapter.\<close>

definition guarded :: "ctx \<Rightarrow> memory_adapter \<Rightarrow> (error + 'b) \<Rightarrow> error + 'b" where
  "guarded ctx a r = (case ctx of Some e \<Rightarrow> Inl e | None \<Rightarrow> if ma_closed a then Inl ErrAdapterClosed else r)"

definition Migrate :: "ctx \<Rightarrow> memory_adapter \<Rightarrow> error + unit" where
  "Migrate ctx a = guarded ctx a (Inr ())"

definition MigrationVersion :: "ctx \<Rightarrow> memory_adapter \<Rightarrow> error + int" where
  "MigrationVersion ctx a = guarded ctx a (Inr 1)"

section \<open>Copies\<close>

definition copyBytes :: "bytes \<Rightarrow> bytes" where
  "copyBytes b = map (\<lambda>x. x) b"

definition copyMetadata :: "metadata \<Rightarrow> metadata" where
  "copyMetadata md =
     (case md_Custom md of
        None \<Rightarrow> md
      | Some c \<Rightarrow> md\<lparr>md_Custom := Some (map (\<lambda>(k, v). (k, v)) c)\<rparr>)"

definition cloneStoredEvent :: "stored_event \<Rightarrow> stored_event" where
  "cloneStoredEvent e =
     e\<lparr>se_Data := copyBytes (se_Data e), se_Metadata := copyMetadata (se_Metadata e)\<rparr>"

lemma copyBytes_id [simp]: "copyBytes b = b"
  by (simp add: copyBytes_def)

lemma copyMetadata_id [simp]: "copyMetadata md = md"
  by (simp add: copyMetadata_def split: option.splits)

lemma cloneStoredEvent_id [simp]: "cloneStoredEvent e = e"
  by (simp add: cloneStoredEvent_def)

lemma map_cloneStoredEvent [simp]: "map cloneStoredEvent es = es"
  by (simp add: map_idI)

section \<open>Append\<close>

definition checkAppendLocked ::
  "memory_adapter \<Rightarrow> string \<Rightarrow> event_record list \<Rightarrow> int \<Rightarrow> error option" where
  "checkAppendLocked a streamID events expectedVersion =
     (if ma_closed a then Some ErrAdapterClosed
      else if streamID = [] then Some ErrEmptyStreamID
      else if length events = 0 then Some ErrNoEvents
      else (case map_of (ma_streams a) streamID of
              None \<Rightarrow> CheckVersion streamID expectedVersion 0 False
            | Some sd \<Rightarrow> CheckVersion streamID expectedVersion (si_Version (sd_info sd)) True))"

definition mk_stored :: "string \<Rightarrow> string \<Rightarrow> time \<Rightarrow> nat \<Rightarrow> int \<Rightarrow> event_record \<Rightarrow> stored_event" where
  "mk_stored eid streamID now gp cv event =
     \<lparr>se_ID = eid, se_StreamID = streamID, se_Type = er_Type event,
      se_Data = copyBytes (er_Data event), se_Metadata = copyMetadata (er_Metadata event),
      se_Version = cv, se_GlobalPosition = gp, se_Timestamp = now\<rparr>"

text \<open>The loop of \<^verbatim>\<open>appendLocked\<close>: it moves the global position and the version, appends
  to the stream and to the global log, and collects what is returned to the caller.\<close>

fun append_loop ::
  "(nat \<Rightarrow> string) \<Rightarrow> string \<Rightarrow> time \<Rightarrow> nat \<Rightarrow> event_record list \<Rightarrow>
   memory_adapter \<Rightarrow> int \<Rightarrow> stream_data \<Rightarrow> stored_event list \<Rightarrow>
   memory_adapter \<times> int \<times> stream_data \<times> stored_event list" where
  "append_loop uuid streamID now i [] a currentVersion stream storedEvents =
     (a, currentVersion, stream, storedEvents)"
| "append_loop uuid streamID now i (event # events) a currentVersion stream storedEvents =
     (let gp = ma_globalPosition a + 1;
          cv = currentVersion + 1;
          stored = mk_stored (uuid i) streamID now gp cv event;
          stream' = stream\<lparr>sd_events := sd_events stream @ [stored]\<rparr>;
          a' = a\<lparr>ma_globalPosition := gp, ma_globalEvents := ma_globalEvents a @ [stored]\<rparr>;
          returned = stored\<lparr>se_Data := er_Data event, se_Metadata := er_Metadata event\<rparr>
      in append_loop uuid streamID now (Suc i) events a' cv stream' (storedEvents @ [returned]))"

definition new_stream :: "string \<Rightarrow> time \<Rightarrow> stream_data" where
  "new_stream streamID now =
     \<lparr>sd_info = \<lparr>si_StreamID = streamID, si_Category = ExtractCategory streamID, si_Version = 0,
        si_EventCount = 0, si_CreatedAt = now, si_UpdatedAt = now\<rparr>, sd_events = []\<rparr>"

definition appendLocked ::
  "(nat \<Rightarrow> string) \<Rightarrow> time \<Rightarrow> memory_adapter \<Rightarrow> string \<Rightarrow> event_record list \<Rightarrow> int \<Rightarrow>
   memory_adapter \<times> (error + stored_event list)" where
  "appendLocked uuid now a streamID events expectedVersion =
     (case checkAppendLocked a streamID events expectedVersion of
        Some e \<Rightarrow> (a, Inl e)
      | None \<Rightarrow>
          let (currentVersion, stream) =
                (case map_of (ma_streams a) streamID of
                   None \<Rightarrow> (0, new_stream streamID now)
                 | Some sd \<Rightarrow> (si_Version (sd_info sd), sd));
              (a', cv, stream', stored) =
                append_loop uuid streamID now 0 events a currentVersion stream [];
              stream'' = stream'\<lparr>sd_info := (sd_info stream')\<lparr>si_Version := cv,
                 si_EventCount := int (length (sd_events stream')), si_UpdatedAt := now\<rparr>\<rparr>
          in (a'\<lparr>ma_streams := AList.update streamID stream'' (ma_streams a')\<rparr>, Inr stored))"

fun deliver :: "stored_event list \<Rightarrow> subscriber \<Rightarrow> subscriber \<times> pending_drop list" where
  "deliver [] sub = (sub, [])"
| "deliver (event # events) sub =
     (if length (sub_buf sub) < sub_cap sub
      then deliver events (sub\<lparr>sub_buf := sub_buf sub @ [cloneStoredEvent event]\<rparr>)
      else let (sub', drops) = deliver events sub
           in (sub', (if sub_onError sub then [\<lparr>pd_ch = sub_ch sub, pd_StreamID = se_StreamID event,
                  pd_GlobalPosition = se_GlobalPosition event\<rparr>] else []) @ drops))"

definition notifySubscribers ::
  "memory_adapter \<Rightarrow> stored_event list \<Rightarrow> memory_adapter \<times> pending_drop list" where
  "notifySubscribers a events =
     (let rs = map (deliver events) (ma_subscribers a)
      in (a\<lparr>ma_subscribers := map fst rs\<rparr>, concat (map snd rs)))"

text \<open>\<^verbatim>\<open>Append\<close>; the second component lists the \<^verbatim>\<open>OnError\<close> callbacks that
  \<^verbatim>\<open>fireDrops\<close> invokes, in order.\<close>

definition Append ::
  "ctx \<Rightarrow> (nat \<Rightarrow> string) \<Rightarrow> time \<Rightarrow> memory_adapter \<Rightarrow> string \<Rightarrow> event_record list \<Rightarrow> int \<Rightarrow>
   memory_adapter \<times> pending_drop list \<times> (error + stored_event list)" where
  "Append ctx uuid now a streamID events expectedVersion =
     (case ctx of
        Some e \<Rightarrow> (a, [], Inl e)
      | None \<Rightarrow>
          (case appendLocked uuid now a streamID events expectedVersion of
             (a', Inl e) \<Rightarrow> (a', [], Inl e)
           | (a', Inr storedEvents) \<Rightarrow>
               let (a'', drops) = notifySubscribers a' storedEvents
               in (a'', drops, Inr storedEvents)))"

text \<open>\<^verbatim>\<open>AppendWithOutbox\<close> over any outbox store: \<open>schedule\<close> is the store's
  \<^verbatim>\<open>Schedule\<close>, \<open>None\<close> for \<open>outbox\<close> is the nil interface.\<close>

definition AppendWithOutbox ::
  "ctx \<Rightarrow> (nat \<Rightarrow> string) \<Rightarrow> time \<Rightarrow>
   ('ob \<Rightarrow> outbox_message list \<Rightarrow> 'ob \<times> outbox_message list \<times> error option) \<Rightarrow>
   memory_adapter \<Rightarrow> string \<Rightarrow> event_record list \<Rightarrow> int \<Rightarrow> 'ob option \<Rightarrow> outbox_message list \<Rightarrow>
   memory_adapter \<times> 'ob option \<times> pending_drop list \<times> (error + stored_event list)" where
  "AppendWithOutbox ctx uuid now schedule a streamID events expectedVersion outbox messages =
     (case ctx of
        Some e \<Rightarrow> (a, outbox, [], Inl e)
      | None \<Rightarrow>
          if length messages > 0 \<and> outbox = None then (a, outbox, [], Inl ErrNilOutboxStore)
          else (case checkAppendLocked a streamID events expectedVersion of
            Some e \<Rightarrow> (a, outbox, [], Inl e)
          | None \<Rightarrow>
              let (outbox', err) =
                    (if length messages > 0 then
                       (case outbox of
                          None \<Rightarrow> (None, None)
                        | Some ob \<Rightarrow> let (ob', _, err) = schedule ob messages in (Some ob', err))
                     else (outbox, None))
              in (case err of
                    Some e \<Rightarrow> (a, outbox', [], Inl e)
                  | None \<Rightarrow>
                      (case appendLocked uuid now a streamID events expectedVersion of
                         (a', Inl e) \<Rightarrow> (a', outbox', [], Inl e)
                       | (a', Inr storedEvents) \<Rightarrow>
                           let (a'', drops) = notifySubscribers a' storedEvents
                           in (a'', outbox', drops, Inr storedEvents)))))"

section \<open>Reads\<close>

definition Load :: "ctx \<Rightarrow> memory_adapter \<Rightarrow> string \<Rightarrow> int \<Rightarrow> error + stored_event list" where
  "Load ctx a streamID fromVersion =
     guarded ctx a
       (if streamID = [] then Inl ErrEmptyStreamID
        else (case map_of (ma_streams a) streamID of
                None \<Rightarrow> Inr []
              | Some sd \<Rightarrow>
                  Inr (map cloneStoredEvent (filter (\<lambda>e. se_Version e > fromVersion) (sd_events sd)))))"

definition GetStreamInfo :: "ctx \<Rightarrow> memory_adapter \<Rightarrow> string \<Rightarrow> error + stream_info" where
  "GetStreamInfo ctx a streamID =
     guarded ctx a
       (case map_of (ma_streams a) streamID of
          None \<Rightarrow> Inl (StreamNotFoundError streamID)
        | Some sd \<Rightarrow> Inr (sd_info sd))"

definition GetLastPosition :: "ctx \<Rightarrow> memory_adapter \<Rightarrow> error + nat" where
  "GetLastPosition ctx a = guarded ctx a (Inr (ma_globalPosition a))"

fun feed_loop ::
  "nat \<Rightarrow> feed_filter \<Rightarrow> int \<Rightarrow> stored_event list \<Rightarrow> stored_event list \<Rightarrow> stored_event list" where
  "feed_loop fromPosition flt limit [] events = events"
| "feed_loop fromPosition flt limit (event # rest) events =
     (if se_GlobalPosition event \<le> fromPosition then feed_loop fromPosition flt limit rest events
      else if \<not> FeedFilter_Matches flt event then feed_loop fromPosition flt limit rest events
      else let events' = events @ [cloneStoredEvent event]
           in if int (length events') \<ge> limit then events'
              else feed_loop fromPosition flt limit rest events')"

definition LoadFromPositionFiltered ::
  "ctx \<Rightarrow> memory_adapter \<Rightarrow> nat \<Rightarrow> int \<Rightarrow> feed_filter \<Rightarrow> error + stored_event list" where
  "LoadFromPositionFiltered ctx a fromPosition limit flt =
     guarded ctx a
       (Inr (feed_loop fromPosition flt (DefaultLimit limit 1000) (ma_globalEvents a) []))"

definition LoadFromPosition ::
  "ctx \<Rightarrow> memory_adapter \<Rightarrow> nat \<Rightarrow> int \<Rightarrow> error + stored_event list" where
  "LoadFromPosition ctx a fromPosition limit =
     LoadFromPositionFiltered ctx a fromPosition limit empty_filter"

fun stream_page_loop :: "int \<Rightarrow> int \<Rightarrow> stored_event list \<Rightarrow> stored_event list \<Rightarrow> stored_event list" where
  "stream_page_loop fromVersion limit [] events = events"
| "stream_page_loop fromVersion limit (event # rest) events =
     (if se_Version event > fromVersion then
        (let events' = events @ [cloneStoredEvent event]
         in if limit > 0 \<and> int (length events') \<ge> limit then events'
            else stream_page_loop fromVersion limit rest events')
      else stream_page_loop fromVersion limit rest events)"

definition GetStreamEvents ::
  "ctx \<Rightarrow> memory_adapter \<Rightarrow> string \<Rightarrow> int \<Rightarrow> int \<Rightarrow> error + stored_event list" where
  "GetStreamEvents ctx a streamID fromVersion limit =
     guarded ctx a
       (case map_of (ma_streams a) streamID of
          None \<Rightarrow> Inr []
        | Some sd \<Rightarrow> Inr (stream_page_loop fromVersion limit (sd_events sd) []))"

section \<open>Subscriptions\<close>

definition removeSubscriber :: "memory_adapter \<Rightarrow> nat \<Rightarrow> memory_adapter" where
  "removeSubscriber a ch =
     (case dropWhile (\<lambda>s. sub_ch s \<noteq> ch) (ma_subscribers a) of
        [] \<Rightarrow> a
      | _ # rest \<Rightarrow>
          a\<lparr>ma_subscribers := takeWhile (\<lambda>s. sub_ch s \<noteq> ch) (ma_subscribers a) @ rest,
            ma_closedChs := ma_closedChs a @ [ch]\<rparr>)"

text \<open>\<^verbatim>\<open>SubscribeAll\<close>.  \<open>interrupt\<close> is \<open>Some (i, e)\<close> when the select of the i-th
  historical send takes the \<^verbatim>\<open>ctx.Done()\<close> branch with error \<open>e\<close>.\<close>

definition SubscribeAll ::
  "ctx \<Rightarrow> (nat \<times> error) option \<Rightarrow> nat \<Rightarrow> memory_adapter \<Rightarrow> nat \<Rightarrow> subscription_options list \<Rightarrow>
   memory_adapter \<times> (error + nat)" where
  "SubscribeAll ctx interrupt ch a fromPosition opts =
     (case ctx of
        Some e \<Rightarrow> (a, Inl e)
      | None \<Rightarrow>
          if ma_closed a then (a, Inl ErrAdapterClosed)
          else
            let history = filter (\<lambda>e. se_GlobalPosition e > fromPosition) (ma_globalEvents a);
                sub = \<lparr>sub_ch = ch, sub_cap = getBufferSize opts + length history,
                       sub_buf = [], sub_onError = getOnError opts\<rparr>;
                drained = (\<lambda>n. a\<lparr>ma_subscribers := ma_subscribers a @
                   [sub\<lparr>sub_buf := map cloneStoredEvent (take n history)\<rparr>]\<rparr>)
            in (case interrupt of
                  Some (i, e) \<Rightarrow>
                    if i < length history then (removeSubscriber (drained i) ch, Inl e)
                    else (drained (length history), Inr ch)
                | None \<Rightarrow> (drained (length history), Inr ch)))"

text \<open>What the forwarding goroutine of \<^verbatim>\<open>filterEvents\<close> sends for a sequence received
  from its source.\<close>

definition filterEvents :: "(stored_event \<Rightarrow> bool) \<Rightarrow> stored_event list \<Rightarrow> stored_event list" where
  "filterEvents flt source = filter flt source"

definition SubscribeStream_filter :: "string \<Rightarrow> int \<Rightarrow> stored_event \<Rightarrow> bool" where
  "SubscribeStream_filter streamID fromVersion e \<longleftrightarrow>
     se_StreamID e = streamID \<and> se_Version e > fromVersion"

definition SubscribeCategory_filter :: "string \<Rightarrow> stored_event \<Rightarrow> bool" where
  "SubscribeCategory_filter category e \<longleftrightarrow> ExtractCategory (se_StreamID e) = category"

text \<open>The two filtered subscriptions: the channel they return is fed by \<^verbatim>\<open>filterEvents\<close>
  from the channel of \<^verbatim>\<open>SubscribeAll\<close>, so the result names that source channel and
  the predicate.\<close>

definition SubscribeStream ::
  "ctx \<Rightarrow> (nat \<times> error) option \<Rightarrow> nat \<Rightarrow> memory_adapter \<Rightarrow> string \<Rightarrow> int \<Rightarrow> subscription_options list \<Rightarrow>
   memory_adapter \<times> (error + nat \<times> (stored_event \<Rightarrow> bool))" where
  "SubscribeStream ctx interrupt ch a streamID fromVersion opts =
     (case ctx of
        Some e \<Rightarrow> (a, Inl e)
      | None \<Rightarrow>
          (case SubscribeAll ctx interrupt ch a 0 opts of
             (a', Inl e) \<Rightarrow> (a', Inl e)
           | (a', Inr allEvents) \<Rightarrow> (a', Inr (allEvents, SubscribeStream_filter streamID fromVersion))))"

definition SubscribeCategory ::
  "ctx \<Rightarrow> (nat \<times> error) option \<Rightarrow> nat \<Rightarrow> memory_adapter \<Rightarrow> string \<Rightarrow> nat \<Rightarrow> subscription_options list \<Rightarrow>
   memory_adapter \<times> (error + nat \<times> (stored_event \<Rightarrow> bool))" where
  "SubscribeCategory ctx interrupt ch a category fromPosition opts =
     (case ctx of
        Some e \<Rightarrow> (a, Inl e)
      | None \<Rightarrow>
          (case SubscribeAll ctx interrupt ch a fromPosition opts of
             (a', Inl e) \<Rightarrow> (a', Inl e)
           | (a', Inr allEvents) \<Rightarrow> (a', Inr (allEvents, SubscribeCategory_filter category))))"

definition Close :: "memory_adapter \<Rightarrow> memory_adapter" where
  "Close a = a\<lparr>ma_closed := True, ma_closedChs := ma_closedChs a @ map sub_ch (ma_subscribers a),
     ma_subscribers := []\<rparr>"

section \<open>Snapshots, checkpoints, rewriting, reset\<close>

definition SaveSnapshot ::
  "ctx \<Rightarrow> memory_adapter \<Rightarrow> string \<Rightarrow> int \<Rightarrow> bytes \<Rightarrow> memory_adapter \<times> error option" where
  "SaveSnapshot ctx a streamID version data =
     (case ctx of
        Some e \<Rightarrow> (a, Some e)
      | None \<Rightarrow>
          if ma_closed a then (a, Some ErrAdapterClosed)
          else (a\<lparr>ma_snapshots := AList.update streamID
                  \<lparr>sn_StreamID = streamID, sn_Version = version, sn_Data = copyBytes data\<rparr>
                  (ma_snapshots a)\<rparr>, None))"

definition LoadSnapshot :: "ctx \<Rightarrow> memory_adapter \<Rightarrow> string \<Rightarrow> error + snapshot_record option" where
  "LoadSnapshot ctx a streamID =
     guarded ctx a
       (case map_of (ma_snapshots a) streamID of
          None \<Rightarrow> Inr None
        | Some sn \<Rightarrow> Inr (Some \<lparr>sn_StreamID = sn_StreamID sn, sn_Version = sn_Version sn,
                         sn_Data = copyBytes (sn_Data sn)\<rparr>))"

definition DeleteSnapshot :: "ctx \<Rightarrow> memory_adapter \<Rightarrow> string \<Rightarrow> memory_adapter \<times> error option" where
  "DeleteSnapshot ctx a streamID =
     (case ctx of
        Some e \<Rightarrow> (a, Some e)
      | None \<Rightarrow>
          if ma_closed a then (a, Some ErrAdapterClosed)
          else (a\<lparr>ma_snapshots := AList.delete streamID (ma_snapshots a)\<rparr>, None))"

definition GetCheckpoint :: "ctx \<Rightarrow> memory_adapter \<Rightarrow> string \<Rightarrow> error + nat" where
  "GetCheckpoint ctx a projectionName =
     guarded ctx a
       (Inr (case map_of (ma_checkpoints a) projectionName of None \<Rightarrow> 0 | Some p \<Rightarrow> p))"

definition SetCheckpoint ::
  "ctx \<Rightarrow> memory_adapter \<Rightarrow> string \<Rightarrow> nat \<Rightarrow> memory_adapter \<times> error option" where
  "SetCheckpoint ctx a projectionName position =
     (case ctx of
        Some e \<Rightarrow> (a, Some e)
      | None \<Rightarrow>
          if ma_closed a then (a, Some ErrAdapterClosed)
          else (a\<lparr>ma_checkpoints := AList.update projectionName position (ma_checkpoints a)\<rparr>, None))"

definition Ping :: "ctx \<Rightarrow> memory_adapter \<Rightarrow> error + unit" where
  "Ping ctx a = guarded ctx a (Inr ())"

text \<open>\<^verbatim>\<open>RewriteEventData\<close>: replace data and metadata of the first event that matches, in
  the stream and in the global log.\<close>

fun rewrite_first :: "(stored_event \<Rightarrow> bool) \<Rightarrow> bytes \<Rightarrow> metadata \<Rightarrow> stored_event list \<Rightarrow> stored_event list" where
  "rewrite_first P data md [] = []"
| "rewrite_first P data md (e # es) =
     (if P e then e\<lparr>se_Data := data, se_Metadata := md\<rparr> # es else e # rewrite_first P data md es)"

definition RewriteEventData ::
  "ctx \<Rightarrow> memory_adapter \<Rightarrow> string \<Rightarrow> int \<Rightarrow> bytes \<Rightarrow> metadata \<Rightarrow> memory_adapter \<times> error option" where
  "RewriteEventData ctx a streamID version data md =
     (case ctx of
        Some e \<Rightarrow> (a, Some e)
      | None \<Rightarrow>
          if ma_closed a then (a, Some ErrAdapterClosed)
          else (case map_of (ma_streams a) streamID of
            None \<Rightarrow> (a, Some (Errorf ''mink/memory: no event to rewrite''))
          | Some sd \<Rightarrow>
              if \<not> (\<exists>e \<in> set (sd_events sd). se_Version e = version)
              then (a, Some (Errorf ''mink/memory: no event to rewrite''))
              else
                (a\<lparr>ma_streams := AList.update streamID
                     (sd\<lparr>sd_events := rewrite_first (\<lambda>e. se_Version e = version)
                           (copyBytes data) (copyMetadata md) (sd_events sd)\<rparr>) (ma_streams a),
                   ma_globalEvents := rewrite_first
                     (\<lambda>e. se_StreamID e = streamID \<and> se_Version e = version)
                     (copyBytes data) (copyMetadata md) (ma_globalEvents a)\<rparr>, None)))"

definition Reset :: "memory_adapter \<Rightarrow> memory_adapter" where
  "Reset a = a\<lparr>ma_streams := [], ma_globalEvents := [], ma_globalPosition := 0,
     ma_snapshots := [], ma_checkpoints := [], ma_projections := [], ma_migrations := []\<rparr>"

definition EventCount :: "memory_adapter \<Rightarrow> nat" where
  "EventCount a = length (ma_globalEvents a)"

definition StreamCount :: "memory_adapter \<Rightarrow> nat" where
  "StreamCount a = length (ma_streams a)"

section \<open>Operations behind the command-line tool\<close>

definition GetProjection :: "ctx \<Rightarrow> memory_adapter \<Rightarrow> string \<Rightarrow> error + projection_info option" where
  "GetProjection ctx a name = guarded ctx a (Inr (map_of (ma_projections a) name))"

definition ListProjections :: "ctx \<Rightarrow> memory_adapter \<Rightarrow> error + projection_info list" where
  "ListProjections ctx a = guarded ctx a (Inr (map snd (ma_projections a)))"

definition SetProjectionStatus ::
  "ctx \<Rightarrow> time \<Rightarrow> memory_adapter \<Rightarrow> string \<Rightarrow> string \<Rightarrow> memory_adapter \<times> error option" where
  "SetProjectionStatus ctx now a name status =
     (case ctx of
        Some e \<Rightarrow> (a, Some e)
      | None \<Rightarrow>
          if ma_closed a then (a, Some ErrAdapterClosed)
          else (case map_of (ma_projections a) name of
            None \<Rightarrow> (a, Some ErrStreamNotFound)
          | Some p \<Rightarrow>
              (a\<lparr>ma_projections := AList.update name
                   (p\<lparr>pi_status := status, pi_updatedAt := now\<rparr>) (ma_projections a)\<rparr>, None)))"

definition ResetProjectionCheckpoint ::
  "ctx \<Rightarrow> time \<Rightarrow> memory_adapter \<Rightarrow> string \<Rightarrow> memory_adapter \<times> error option" where
  "ResetProjectionCheckpoint ctx now a name =
     (case ctx of
        Some e \<Rightarrow> (a, Some e)
      | None \<Rightarrow>
          if ma_closed a then (a, Some ErrAdapterClosed)
          else
            (a\<lparr>ma_checkpoints := AList.update name 0 (ma_checkpoints a),
               ma_projections :=
                 (case map_of (ma_projections a) name of
                    None \<Rightarrow> ma_projections a
                  | Some p \<Rightarrow> AList.update name (p\<lparr>pi_position := 0, pi_updatedAt := now\<rparr>)
                               (ma_projections a))\<rparr>, None))"

definition GetTotalEventCount :: "ctx \<Rightarrow> memory_adapter \<Rightarrow> error + int" where
  "GetTotalEventCount ctx a = guarded ctx a (Inr (int (ma_globalPosition a)))"

definition RecordMigration ::
  "ctx \<Rightarrow> time \<Rightarrow> memory_adapter \<Rightarrow> string \<Rightarrow> memory_adapter \<times> error option" where
  "RecordMigration ctx now a name =
     (case ctx of
        Some e \<Rightarrow> (a, Some e)
      | None \<Rightarrow>
          if ma_closed a then (a, Some ErrAdapterClosed)
          else (a\<lparr>ma_migrations := AList.update name \<lparr>mr_name = name, mr_appliedAt = now\<rparr>
                  (ma_migrations a)\<rparr>, None))"

definition RemoveMigrationRecord ::
  "ctx \<Rightarrow> memory_adapter \<Rightarrow> string \<Rightarrow> memory_adapter \<times> error option" where
  "RemoveMigrationRecord ctx a name =
     (case ctx of
        Some e \<Rightarrow> (a, Some e)
      | None \<Rightarrow>
          if ma_closed a then (a, Some ErrAdapterClosed)
          else (a\<lparr>ma_migrations := AList.delete name (ma_migrations a)\<rparr>, None))"

record schema_check_result =
  sc_TableExists :: bool
  sc_EventCount :: int
  sc_Message :: string

definition CheckSchema :: "ctx \<Rightarrow> memory_adapter \<Rightarrow> string \<Rightarrow> error + schema_check_result" where
  "CheckSchema ctx a tableName =
     guarded ctx a
       (let totalEvents = fold (\<lambda>(k, sd) n. n + int (length (sd_events sd))) (ma_streams a) 0
        in Inr \<lparr>sc_TableExists = True, sc_EventCount = totalEvents,
             sc_Message = (if totalEvents > 0
               then ''In-memory storage active ('' @ itoa totalEvents @ '' events)''
               else ''In-memory storage active'')\<rparr>)"

record projection_health_result =
  ph_TotalProjections :: int
  ph_ProjectionsBehind :: int
  ph_MaxPosition :: int
  ph_Message :: string

definition GetProjectionHealth :: "ctx \<Rightarrow> memory_adapter \<Rightarrow> error + projection_health_result" where
  "GetProjectionHealth ctx a =
     guarded ctx a
       (let total = int (length (ma_projections a));
            maxPos = int (ma_globalPosition a);
            behind = int (gm_count (\<lambda>p. pi_position p < maxPos) (ma_projections a))
        in Inr \<lparr>ph_TotalProjections = total, ph_ProjectionsBehind = behind, ph_MaxPosition = maxPos,
             ph_Message =
               (if total = 0 then ''No projections registered''
                else if behind > 0 then itoa behind @ ''/'' @ itoa total @ '' projections behind''
                else itoa total @ '' projections, all up to date'')\<rparr>)"

end
