(* ===== verification/Event_Store.thy ===== *)
theory Event_Store
  imports Field_Encryption Serializer Memory_Adapter
begin

text \<open>
  The event store of the public package (\<^verbatim>\<open>store.go\<close>): configuration, preparation of
  event data (reserved metadata, schema version, subject tags, field encryption, size limit),
  \<^verbatim>\<open>Append\<close>, \<^verbatim>\<open>Load\<close>, \<^verbatim>\<open>SaveAggregate\<close>, \<^verbatim>\<open>LoadAggregate\<close> and in-place
  re-encryption.

  The store talks to its adapter through \<open>adapter_ops\<close> on an adapter state \<open>'a\<close>; the
  locale \<open>stream_adapter\<close> states what it relies on, and the in-memory adapter provides it.
  Writes to a configured subject index are returned as a list of calls (they are best effort
  and never change the outcome), the replay warnings as the list of keys already warned about.
\<close>

section \<open>Configuration\<close>

record 'd event_store =
  es_serializer :: "'d event_serializer"
  es_upcasters :: "upcaster_chain option"
  es_maxEventSize :: int
  es_encryption :: "field_encryption_config option"
  es_subjectTagger :: "(string \<Rightarrow> bytes \<Rightarrow> metadata \<Rightarrow> string list) option"
  es_callerSubjectTags :: bool
  es_callerSchemaVersion :: bool
  es_subjectIndex :: bool
  es_strictReplay :: bool
  es_autoRegister :: bool
  es_serializerErr :: "error option"
  es_replayWarned :: "(string \<times> string \<times> int) list"

record 'd go_lib =
  gl_json :: "'d json_lib"
  gl_codec :: codec

type_synonym 'd store_option = "'d event_store \<Rightarrow> 'd event_store"

definition WithSerializer :: "'d event_serializer \<Rightarrow> 'd store_option" where
  "WithSerializer s es = es\<lparr>es_serializer := s\<rparr>"

definition WithUpcasters :: "upcaster_chain \<Rightarrow> 'd store_option" where
  "WithUpcasters chain es = es\<lparr>es_upcasters := Some chain\<rparr>"

definition WithMaxEventSize :: "int \<Rightarrow> 'd store_option" where
  "WithMaxEventSize maxBytes es = es\<lparr>es_maxEventSize := maxBytes\<rparr>"

definition WithFieldEncryption :: "field_encryption_config \<Rightarrow> 'd store_option" where
  "WithFieldEncryption config es = es\<lparr>es_encryption := Some config\<rparr>"

definition WithSubjectTagger :: "(string \<Rightarrow> bytes \<Rightarrow> metadata \<Rightarrow> string list) \<Rightarrow> 'd store_option" where
  "WithSubjectTagger tagger es = es\<lparr>es_subjectTagger := Some tagger\<rparr>"

definition WithCallerSubjectTags :: "'d store_option" where
  "WithCallerSubjectTags es = es\<lparr>es_callerSubjectTags := True\<rparr>"

definition WithCallerSchemaVersion :: "'d store_option" where
  "WithCallerSchemaVersion es = es\<lparr>es_callerSchemaVersion := True\<rparr>"

definition WithSubjectIndexWriter :: "'d store_option" where
  "WithSubjectIndexWriter es = es\<lparr>es_subjectIndex := True\<rparr>"

definition WithStrictReplay :: "'d store_option" where
  "WithStrictReplay es = es\<lparr>es_strictReplay := True\<rparr>"

definition WithAutoRegisterOnAppend :: "'d store_option" where
  "WithAutoRegisterOnAppend es = es\<lparr>es_autoRegister := True\<rparr>"

text \<open>\<open>requiresJSON\<close> is the adapter's \<^verbatim>\<open>RequiresJSONData\<close>, false when it has no such
  method.\<close>

definition checkSerializerAdapterCompatible :: "'d event_serializer \<Rightarrow> bool \<Rightarrow> error option" where
  "checkSerializerAdapterCompatible s requiresJSON =
     (if \<not> requiresJSON then None
      else if \<not> producesBinary s then None
      else Some (Wrap ''this serializer emits binary event data'' ErrBinarySerializerUnsupported))"

definition New :: "bool \<Rightarrow> 'd store_option list \<Rightarrow> 'd event_store" where
  "New requiresJSON opts =
     (let es = fold (\<lambda>opt es. opt es) opts
            \<lparr>es_serializer = JSONSerializer NewEventRegistry, es_upcasters = None, es_maxEventSize = 0,
             es_encryption = None, es_subjectTagger = None, es_callerSubjectTags = False,
             es_callerSchemaVersion = False, es_subjectIndex = False, es_strictReplay = False,
             es_autoRegister = False, es_serializerErr = None, es_replayWarned = []\<rparr>
      in es\<lparr>es_serializerErr := checkSerializerAdapterCompatible (es_serializer es) requiresJSON\<rparr>)"

definition RegisterEvents :: "'d json_lib \<Rightarrow> 'd event_store \<Rightarrow> 'd list \<Rightarrow> 'd event_store \<times> error option" where
  "RegisterEvents jl s events =
     (let (ser, e) = register_events jl (es_serializer s) events in (s\<lparr>es_serializer := ser\<rparr>, e))"

definition autoRegisterEvents :: "'d json_lib \<Rightarrow> 'd event_store \<Rightarrow> 'd list \<Rightarrow> 'd event_store \<times> error option" where
  "autoRegisterEvents jl s events =
     (if \<not> es_autoRegister s then (s, None) else RegisterEvents jl s events)"

fun register_loop :: "upcaster_chain \<Rightarrow> upcaster list \<Rightarrow> upcaster_chain \<times> error option" where
  "register_loop chain [] = (chain, None)"
| "register_loop chain (u # us) =
     (case Upcaster_Register chain u of
        (chain', Some err) \<Rightarrow> (chain', Some err)
      | (chain', None) \<Rightarrow> register_loop chain' us)"

definition RegisterUpcasters :: "'d event_store \<Rightarrow> upcaster list \<Rightarrow> 'd event_store \<times> error option" where
  "RegisterUpcasters s us =
     (let chain = (case es_upcasters s of None \<Rightarrow> NewUpcasterChain | Some c \<Rightarrow> c);
          (chain', err) = register_loop chain us
      in (s\<lparr>es_upcasters := Some chain'\<rparr>, err))"

section \<open>Reserved metadata and preparation\<close>

definition SanitizeReservedMetadata :: "metadata \<Rightarrow> metadata" where
  "SanitizeReservedMetadata m =
     withoutCustomKeys m [encryptedFieldsKey, encryptionKeyIDKey, encryptedDEKKey, encryptionAlgorithmKey]"

definition explicitSchemaVersionValid :: "metadata \<Rightarrow> int \<Rightarrow> bool" where
  "explicitSchemaVersionValid m latest \<longleftrightarrow>
     hasSchemaVersion m \<and>
     (case custom_get m schemaVersionKey of
        None \<Rightarrow> False
      | Some t \<Rightarrow> (case atoi t of None \<Rightarrow> False | Some v \<Rightarrow> v \<ge> DefaultSchemaVersion \<and> v \<le> latest))"

definition applySchemaVersionPolicy :: "'d event_store \<Rightarrow> string \<Rightarrow> metadata \<Rightarrow> metadata" where
  "applySchemaVersionPolicy s eventType m =
     (case es_upcasters s of
        None \<Rightarrow> if hasSchemaVersion m then withoutCustomKeys m [schemaVersionKey] else m
      | Some upcasters \<Rightarrow>
          let latest = LatestVersion upcasters eventType
          in if es_callerSchemaVersion s \<and> HasUpcasters upcasters eventType \<and>
                explicitSchemaVersionValid m latest
             then m else SetSchemaVersion m latest)"

definition applySubjectTagPolicy :: "codec \<Rightarrow> 'd event_store \<Rightarrow> string \<Rightarrow> bytes \<Rightarrow> metadata \<Rightarrow> metadata" where
  "applySubjectTagPolicy cd s eventType data m =
     (case es_subjectTagger s of
        None \<Rightarrow> m
      | Some tagger \<Rightarrow>
          let subjects = tagger eventType data m
          in if es_callerSubjectTags s
             then (if length subjects > 0 then setSubjectTags cd m subjects else m)
             else replaceSubjectTags cd m subjects)"

definition prepareEventDataWith ::
  "codec \<Rightarrow> entropy \<Rightarrow> 'd event_store \<Rightarrow> string \<Rightarrow> event_record \<Rightarrow> bool \<Rightarrow> error + event_record" where
  "prepareEventDataWith cd en s streamID ed trusted =
     (let m1 = SanitizeReservedMetadata (er_Metadata ed);
          m2 = (if \<not> trusted then applySchemaVersionPolicy s (er_Type ed) m1 else m1);
          m3 = applySubjectTagPolicy cd s (er_Type ed) (er_Data ed) m2;
          sealed = (case es_encryption s of
             None \<Rightarrow> Inr (er_Data ed, m3)
           | Some enc \<Rightarrow>
               if HasEncryptedFields enc (er_Type ed)
               then encryptFields cd en enc streamID (er_Type ed) (er_Data ed) m3
               else Inr (er_Data ed, m3))
      in case sealed of
           Inl err \<Rightarrow> Inl err
         | Inr (data, m) \<Rightarrow>
             if es_maxEventSize s > 0 \<and> int (length data) > es_maxEventSize s
             then Inl (Wrap ''event too large'' ErrEventTooLarge)
             else Inr (ed\<lparr>er_Data := data, er_Metadata := m\<rparr>))"

definition prepareEventData ::
  "codec \<Rightarrow> entropy \<Rightarrow> 'd event_store \<Rightarrow> string \<Rightarrow> event_record \<Rightarrow> error + event_record" where
  "prepareEventData cd en s streamID ed = prepareEventDataWith cd en s streamID ed False"

section \<open>Subject index\<close>

definition collectSubjects :: "codec \<Rightarrow> 'd event_store \<Rightarrow> metadata \<Rightarrow> string list" where
  "collectSubjects cd s m = (if es_subjectIndex s then GetSubjectTags cd m else [])"

definition writeSubjectIndex :: "'d event_store \<Rightarrow> string \<Rightarrow> string list \<Rightarrow> (string \<times> string list) list" where
  "writeSubjectIndex s streamID subs =
     (if \<not> es_subjectIndex s \<or> length subs = 0 then [] else [(streamID, remdups subs)])"

section \<open>Appending\<close>

record 'a adapter_ops =
  ao_Append :: "'a \<Rightarrow> string \<Rightarrow> event_record list \<Rightarrow> int \<Rightarrow> 'a \<times> (error + stored_event list)"
  ao_Load :: "'a \<Rightarrow> string \<Rightarrow> int \<Rightarrow> error + stored_event list"
  ao_RewriteEventData ::
    "('a \<Rightarrow> string \<Rightarrow> int \<Rightarrow> bytes \<Rightarrow> metadata \<Rightarrow> 'a \<times> error option) option"

text \<open>The conversion loop shared by \<^verbatim>\<open>Append\<close> and \<^verbatim>\<open>SaveAggregate\<close>: \<open>ens i\<close> is the
  randomness of the i-th event, the second result the subjects collected for the index.\<close>

fun prepare_loop ::
  "'d go_lib \<Rightarrow> (nat \<Rightarrow> entropy) \<Rightarrow> 'd event_store \<Rightarrow> string \<Rightarrow> metadata \<Rightarrow> bool \<Rightarrow> string \<Rightarrow> nat \<Rightarrow> 'd list \<Rightarrow>
   error + (event_record list \<times> string list)" where
  "prepare_loop gl ens s streamID md trusted what i [] = Inr ([], [])"
| "prepare_loop gl ens s streamID md trusted what i (event # events) =
     (case SerializeEvent (gl_json gl) (es_serializer s) event md of
        Inl err \<Rightarrow> Inl (Wrap (''mink: failed to serialize '' @ what) err)
      | Inr ed \<Rightarrow>
          (case prepareEventDataWith (gl_codec gl) (ens i) s streamID ed trusted of
             Inl err \<Rightarrow> Inl (Wrap (''mink: failed to prepare '' @ what) err)
           | Inr ed' \<Rightarrow>
               (case prepare_loop gl ens s streamID md trusted what (Suc i) events of
                  Inl err \<Rightarrow> Inl err
                | Inr (records, subs) \<Rightarrow>
                    Inr (ed' # records, collectSubjects (gl_codec gl) s (er_Metadata ed') @ subs))))"

record append_config =
  ac_metadata :: metadata
  ac_expectedVersion :: int
  ac_trustedMetadata :: bool

definition ExpectVersion :: "int \<Rightarrow> append_config \<Rightarrow> append_config" where
  "ExpectVersion v c = c\<lparr>ac_expectedVersion := v\<rparr>"

definition WithAppendMetadata :: "metadata \<Rightarrow> append_config \<Rightarrow> append_config" where
  "WithAppendMetadata m c = c\<lparr>ac_metadata := m\<rparr>"

definition withTrustedMetadata :: "append_config \<Rightarrow> append_config" where
  "withTrustedMetadata c = c\<lparr>ac_trustedMetadata := True\<rparr>"

definition Store_Append ::
  "'d go_lib \<Rightarrow> (nat \<Rightarrow> entropy) \<Rightarrow> 'a adapter_ops \<Rightarrow> 'd event_store \<Rightarrow> 'a \<Rightarrow> string \<Rightarrow> 'd list \<Rightarrow>
   (append_config \<Rightarrow> append_config) list \<Rightarrow>
   'd event_store \<times> 'a \<times> (string \<times> string list) list \<times> error option" where
  "Store_Append gl ens ops s a streamID events opts =
     (case es_serializerErr s of
        Some e \<Rightarrow> (s, a, [], Some e)
      | None \<Rightarrow>
          if streamID = [] then (s, a, [], Some ErrEmptyStreamID)
          else if length events = 0 then (s, a, [], Some ErrNoEvents)
          else (case autoRegisterEvents (gl_json gl) s events of
            (s', Some e) \<Rightarrow> (s', a, [], Some e)
          | (s', None) \<Rightarrow>
              let config = fold (\<lambda>opt c. opt c) opts
                    \<lparr>ac_metadata = empty_metadata, ac_expectedVersion = AnyVersion, ac_trustedMetadata = False\<rparr>
              in if ac_expectedVersion config < StreamExists then (s', a, [], Some ErrInvalidVersion)
                 else (case prepare_loop gl ens s' streamID (ac_metadata config) (ac_trustedMetadata config)
                              ''event'' 0 events of
                   Inl err \<Rightarrow> (s', a, [], Some err)
                 | Inr (records, subs) \<Rightarrow>
                     (case ao_Append ops a streamID records (ac_expectedVersion config) of
                        (a', Inl err) \<Rightarrow> (s', a', [], Some err)
                      | (a', Inr _) \<Rightarrow> (s', a', writeSubjectIndex s' streamID subs, None)))))"

section \<open>Loading\<close>

definition deserializeWithUpcast :: "'d go_lib \<Rightarrow> 'd event_store \<Rightarrow> stored_event \<Rightarrow> error + 'd event" where
  "deserializeWithUpcast gl s stored =
     (let needsDecryption = (es_encryption s \<noteq> None \<and> IsEncrypted (se_Metadata stored));
          needsUpcast = (case es_upcasters s of None \<Rightarrow> False | Some c \<Rightarrow> HasUpcasters c (se_Type stored))
      in if \<not> needsDecryption \<and> \<not> needsUpcast
         then DeserializeEvent (gl_json gl) (es_serializer s) stored
         else
           (case (if needsDecryption
                  then decryptFields (gl_codec gl) (the (es_encryption s)) (se_StreamID stored)
                         (se_Type stored) (se_Data stored) (se_Metadata stored)
                  else Inr (se_Data stored)) of
              Inl err \<Rightarrow> Inl err
            | Inr eventData \<Rightarrow>
                (case (if needsUpcast
                       then fst (Upcast (the (es_upcasters s)) (se_Type stored)
                              (GetSchemaVersion (se_Metadata stored)) eventData (se_Metadata stored))
                       else Inr eventData) of
                   Inl err \<Rightarrow> Inl err
                 | Inr upcasted \<Rightarrow>
                     (case Deserialize (gl_json gl) (es_serializer s) upcasted (se_Type stored) of
                        Inl err \<Rightarrow> Inl err
                      | Inr data \<Rightarrow> Inr (EventFromStored stored data)))))"

definition ProcessStoredEvent :: "'d go_lib \<Rightarrow> 'd event_store \<Rightarrow> stored_event \<Rightarrow> error + 'd event" where
  "ProcessStoredEvent gl s stored = deserializeWithUpcast gl s stored"

fun load_loop :: "'d go_lib \<Rightarrow> 'd event_store \<Rightarrow> stored_event list \<Rightarrow> error + 'd event list" where
  "load_loop gl s [] = Inr []"
| "load_loop gl s (stored # rest) =
     (case deserializeWithUpcast gl s stored of
        Inl err \<Rightarrow> Inl (Wrap ''mink: failed to deserialize event'' err)
      | Inr event \<Rightarrow> (case load_loop gl s rest of Inl err \<Rightarrow> Inl err | Inr events \<Rightarrow> Inr (event # events)))"

definition LoadFrom ::
  "'d go_lib \<Rightarrow> 'a adapter_ops \<Rightarrow> 'd event_store \<Rightarrow> 'a \<Rightarrow> string \<Rightarrow> int \<Rightarrow> error + 'd event list" where
  "LoadFrom gl ops s a streamID fromVersion =
     (if streamID = [] then Inl ErrEmptyStreamID
      else (case ao_Load ops a streamID fromVersion of
              Inl err \<Rightarrow> Inl err
            | Inr storedEvents \<Rightarrow> load_loop gl s storedEvents))"

definition Store_Load :: "'d go_lib \<Rightarrow> 'a adapter_ops \<Rightarrow> 'd event_store \<Rightarrow> 'a \<Rightarrow> string \<Rightarrow> error + 'd event list" where
  "Store_Load gl ops s a streamID = LoadFrom gl ops s a streamID 0"

definition LoadRaw :: "'a adapter_ops \<Rightarrow> 'a \<Rightarrow> string \<Rightarrow> int \<Rightarrow> error + stored_event list" where
  "LoadRaw ops a streamID fromVersion =
     (if streamID = [] then Inl ErrEmptyStreamID else ao_Load ops a streamID fromVersion)"

section \<open>Aggregates\<close>

text \<open>An aggregate: the embedded base, the application's state, and which optional interfaces
  it implements.  \<open>applyEvent\<close> is its \<^verbatim>\<open>ApplyEvent\<close> method.\<close>

record ('d, 's) aggregate =
  ag_base :: "'d aggregate_base"
  ag_state :: 's
  ag_versionSetter :: bool
  ag_originalVersionSetter :: bool

definition aggregate_stream :: "('d, 's) aggregate \<Rightarrow> string" where
  "aggregate_stream agg = ab_aggregateType (ag_base agg) @ ''-'' @ ab_id (ag_base agg)"

definition set_versions :: "('d, 's) aggregate \<Rightarrow> int \<Rightarrow> ('d, 's) aggregate" where
  "set_versions agg v =
     (let b = ag_base agg;
          b1 = (if ag_versionSetter agg then SetVersion b v else b);
          b2 = (if ag_originalVersionSetter agg then setOriginalVersion b1 v else b1)
      in agg\<lparr>ag_base := b2\<rparr>)"

definition SaveAggregate ::
  "'d go_lib \<Rightarrow> (nat \<Rightarrow> entropy) \<Rightarrow> 'a adapter_ops \<Rightarrow> 'd event_store \<Rightarrow> 'a \<Rightarrow> ('d, 's) aggregate option \<Rightarrow>
   'd event_store \<times> 'a \<times> ('d, 's) aggregate option \<times> (string \<times> string list) list \<times> error option" where
  "SaveAggregate gl ens ops s a agg =
     (case es_serializerErr s of
        Some e \<Rightarrow> (s, a, agg, [], Some e)
      | None \<Rightarrow>
        (case agg of
           None \<Rightarrow> (s, a, None, [], Some ErrNilAggregate)
         | Some ag \<Rightarrow>
             let events = ab_uncommittedEvents (ag_base ag)
             in if length events = 0 then (s, a, Some ag, [], None)
                else (case autoRegisterEvents (gl_json gl) s events of
                  (s', Some e) \<Rightarrow> (s', a, Some ag, [], Some e)
                | (s', None) \<Rightarrow>
                    let streamID = aggregate_stream ag
                    in (case prepare_loop gl ens s' streamID empty_metadata False ''aggregate event'' 0 events of
                      Inl err \<Rightarrow> (s', a, Some ag, [], Some err)
                    | Inr (records, subs) \<Rightarrow>
                        let expectedVersion = ab_version (ag_base ag)
                        in (case ao_Append ops a streamID records expectedVersion of
                          (a', Inl err) \<Rightarrow> (s', a', Some ag, [], Some err)
                        | (a', Inr _) \<Rightarrow>
                            let ag1 = set_versions ag (expectedVersion + int (length events));
                                ag2 = ag1\<lparr>ag_base := ClearUncommittedEvents (ag_base ag1)\<rparr>
                            in (s', a', Some ag2, writeSubjectIndex s' streamID subs, None))))))"

definition isUnresolvedReplayType :: "'d go_lib \<Rightarrow> 'd event_store \<Rightarrow> stored_event \<Rightarrow> 'd \<Rightarrow> bool" where
  "isUnresolvedReplayType gl s stored data =
     (case eventTypeRegistrar (es_serializer s) of
        Some isRegistered \<Rightarrow> \<not> isRegistered (se_Type stored)
      | None \<Rightarrow> jl_IsMap (gl_json gl) data)"

definition warnUnresolvedReplayType ::
  "'d event_store \<Rightarrow> string \<Rightarrow> string \<Rightarrow> int \<Rightarrow> 'd event_store" where
  "warnUnresolvedReplayType s streamID eventType version =
     s\<lparr>es_replayWarned := List.insert (streamID, eventType, version) (es_replayWarned s)\<rparr>"

fun replay_loop ::
  "'d go_lib \<Rightarrow> (('d, 's) aggregate \<Rightarrow> 'd \<Rightarrow> ('d, 's) aggregate \<times> error option) \<Rightarrow> string \<Rightarrow>
   'd event_store \<Rightarrow> ('d, 's) aggregate \<Rightarrow> stored_event list \<Rightarrow>
   'd event_store \<times> ('d, 's) aggregate \<times> error option" where
  "replay_loop gl applyEvent streamID s agg [] = (s, agg, None)"
| "replay_loop gl applyEvent streamID s agg (stored # rest) =
     (case deserializeWithUpcast gl s stored of
        Inl err \<Rightarrow> (s, agg, Some (Wrap ''mink: failed to deserialize event'' err))
      | Inr event \<Rightarrow>
          let unresolved = isUnresolvedReplayType gl s stored (ev_Data event)
          in if unresolved \<and> es_strictReplay s
             then (s, agg, Some (UnregisteredEventTypeError streamID (se_Type stored) (se_Version stored)))
             else
               let s' = (if unresolved
                         then warnUnresolvedReplayType s streamID (se_Type stored) (se_Version stored) else s)
               in (case applyEvent agg (ev_Data event) of
                     (agg', Some err) \<Rightarrow> (s', agg', Some (Wrap ''mink: failed to apply event'' err))
                   | (agg', None) \<Rightarrow> replay_loop gl applyEvent streamID s' agg' rest))"

definition LoadAggregate ::
  "'d go_lib \<Rightarrow> (('d, 's) aggregate \<Rightarrow> 'd \<Rightarrow> ('d, 's) aggregate \<times> error option) \<Rightarrow> 'a adapter_ops \<Rightarrow>
   'd event_store \<Rightarrow> 'a \<Rightarrow> ('d, 's) aggregate option \<Rightarrow>
   'd event_store \<times> ('d, 's) aggregate option \<times> error option" where
  "LoadAggregate gl applyEvent ops s a agg =
     (case agg of
        None \<Rightarrow> (s, None, Some ErrNilAggregate)
      | Some ag \<Rightarrow>
          let streamID = aggregate_stream ag
          in (case ao_Load ops a streamID 0 of
                Inl err \<Rightarrow> (s, Some ag, Some err)
              | Inr storedEvents \<Rightarrow>
                  (case replay_loop gl applyEvent streamID s ag storedEvents of
                     (s', ag', Some err) \<Rightarrow> (s', Some ag', Some err)
                   | (s', ag', None) \<Rightarrow>
                       (s', Some (set_versions ag' (int (length storedEvents))), None))))"

section \<open>Stored events and re-encryption\<close>

definition DecryptStoredEvent :: "'d go_lib \<Rightarrow> 'd event_store \<Rightarrow> stored_event \<Rightarrow> error + stored_event" where
  "DecryptStoredEvent gl s stored =
     (case es_encryption s of
        None \<Rightarrow> Inr stored
      | Some enc \<Rightarrow>
          if \<not> IsEncrypted (se_Metadata stored) then Inr stored
          else (case decryptFields (gl_codec gl) enc (se_StreamID stored) (se_Type stored)
                       (se_Data stored) (se_Metadata stored) of
                  Inl err \<Rightarrow> Inl err
                | Inr dec \<Rightarrow>
                    Inr (stored\<lparr>se_Metadata := (if dec \<noteq> se_Data stored
                                  then SanitizeReservedMetadata (se_Metadata stored) else se_Metadata stored),
                                se_Data := dec\<rparr>)))"

fun decrypt_events_loop :: "'d go_lib \<Rightarrow> 'd event_store \<Rightarrow> stored_event list \<Rightarrow> error + stored_event list" where
  "decrypt_events_loop gl s [] = Inr []"
| "decrypt_events_loop gl s (e # es) =
     (case DecryptStoredEvent gl s e of
        Inl err \<Rightarrow> Inl (Wrap ''decrypt event at position'' err)
      | Inr dec \<Rightarrow> (case decrypt_events_loop gl s es of Inl err \<Rightarrow> Inl err | Inr rest \<Rightarrow> Inr (dec # rest)))"

definition decryptStoredEvents :: "'d go_lib \<Rightarrow> 'd event_store \<Rightarrow> stored_event list \<Rightarrow> error + stored_event list" where
  "decryptStoredEvents gl s events =
     (if es_encryption s = None then Inr events else decrypt_events_loop gl s events)"

definition EncryptStoredEvent ::
  "'d go_lib \<Rightarrow> entropy \<Rightarrow> 'd event_store \<Rightarrow> stored_event \<Rightarrow> error + stored_event" where
  "EncryptStoredEvent gl en s stored =
     (case es_encryption s of
        None \<Rightarrow> Inr stored
      | Some enc \<Rightarrow>
          if IsEncrypted (se_Metadata stored) \<or> \<not> HasEncryptedFields enc (se_Type stored) then Inr stored
          else
            let md1 = SanitizeReservedMetadata (se_Metadata stored);
                md = applySubjectTagPolicy (gl_codec gl) s (se_Type stored) (se_Data stored) md1
            in (case encryptFields (gl_codec gl) en enc (se_StreamID stored) (se_Type stored) (se_Data stored) md of
                  Inl err \<Rightarrow> Inl err
                | Inr (encData, encMeta) \<Rightarrow> Inr (stored\<lparr>se_Data := encData, se_Metadata := encMeta\<rparr>)))"

fun reencrypt_loop ::
  "'d go_lib \<Rightarrow> (nat \<Rightarrow> entropy) \<Rightarrow> ('a \<Rightarrow> string \<Rightarrow> int \<Rightarrow> bytes \<Rightarrow> metadata \<Rightarrow> 'a \<times> error option) \<Rightarrow>
   'd event_store \<Rightarrow> field_encryption_config \<Rightarrow> string \<Rightarrow> nat \<Rightarrow> stored_event list \<Rightarrow> 'a \<Rightarrow> nat \<Rightarrow> string list \<Rightarrow>
   'a \<times> nat \<times> string list \<times> error option" where
  "reencrypt_loop gl ens rw s enc streamID i [] a n keys = (a, n, keys, None)"
| "reencrypt_loop gl ens rw s enc streamID i (ev # evs) a n keys =
     (if IsEncrypted (se_Metadata ev) \<or> \<not> HasEncryptedFields enc (se_Type ev)
      then reencrypt_loop gl ens rw s enc streamID (Suc i) evs a n keys
      else (case EncryptStoredEvent gl (ens i) s ev of
        Inl err \<Rightarrow> (a, n, keys, Some err)
      | Inr sealed \<Rightarrow>
          if \<not> IsEncrypted (se_Metadata sealed)
          then reencrypt_loop gl ens rw s enc streamID (Suc i) evs a n keys
          else (case rw a streamID (se_Version ev) (se_Data sealed) (se_Metadata sealed) of
            (a', Some err) \<Rightarrow> (a', n, keys, Some err)
          | (a', None) \<Rightarrow>
              let k = GetEncryptionKeyID (se_Metadata sealed)
              in reencrypt_loop gl ens rw s enc streamID (Suc i) evs a' (Suc n)
                   (if k \<noteq> [] then List.insert k keys else keys))))"

definition ReEncryptStreamInPlace ::
  "'d go_lib \<Rightarrow> (nat \<Rightarrow> entropy) \<Rightarrow> 'a adapter_ops \<Rightarrow> 'd event_store \<Rightarrow> 'a \<Rightarrow> string \<Rightarrow>
   'a \<times> nat \<times> string list \<times> error option" where
  "ReEncryptStreamInPlace gl ens ops s a streamID =
     (case ao_RewriteEventData ops of
        None \<Rightarrow> (a, 0, [], Some ErrRewriteNotSupported)
      | Some rw \<Rightarrow>
          (case es_encryption s of
             None \<Rightarrow> (a, 0, [], None)
           | Some enc \<Rightarrow>
               (case LoadRaw ops a streamID 0 of
                  Inl err \<Rightarrow> (a, 0, [], Some err)
                | Inr events \<Rightarrow>
                    let (a', n, keys, err) = reencrypt_loop gl ens rw s enc streamID 0 events a 0 []
                    in (a', n, sort keys, err))))"

end
