(* ===== verification/Event_Log.thy ===== *)
theory Event_Log
  imports Memory_Adapter
begin

text \<open>
  What the in-memory event store promises, stated on the global log alone, and the proof
  that \<^verbatim>\<open>adapters/memory/memory.go\<close> keeps the promise.

  The specification is a list of events: a stream is the sub-list of its events, its
  version their number, and an append adds the new events at the end with the next
  versions and positions.  \<open>mem_inv\<close> ties the adapter's redundant state (the stream map,
  the stream infos, the position counter, the subscriber channels) to that list; \<open>mem_step\<close>
  is one operation of any caller, and every reachable state satisfies \<open>mem_inv\<close>.
\<close>

section \<open>The specification\<close>

definition stream_events :: "stored_event list \<Rightarrow> string \<Rightarrow> stored_event list" where
  "stream_events g sid = filter (\<lambda>e. se_StreamID e = sid) g"

definition new_events ::
  "(nat \<Rightarrow> string) \<Rightarrow> string \<Rightarrow> time \<Rightarrow> nat \<Rightarrow> int \<Rightarrow> event_record list \<Rightarrow> stored_event list" where
  "new_events uuid sid now gp v events =
     map (\<lambda>i. mk_stored (uuid i) sid now (gp + Suc i) (v + int (Suc i)) (events ! i))
       [0..<length events]"

definition log_append ::
  "(nat \<Rightarrow> string) \<Rightarrow> time \<Rightarrow> stored_event list \<Rightarrow> string \<Rightarrow> event_record list \<Rightarrow> stored_event list" where
  "log_append uuid now g sid events =
     g @ new_events uuid sid now (length g) (int (length (stream_events g sid))) events"

text \<open>The optimistic check on the log: version 0 is the absence of the stream.\<close>

definition log_check :: "stored_event list \<Rightarrow> string \<Rightarrow> int \<Rightarrow> error option" where
  "log_check g sid expected =
     CheckVersion sid expected (int (length (stream_events g sid))) (stream_events g sid \<noteq> [])"

definition info_ok :: "string \<Rightarrow> stored_event list \<Rightarrow> stream_info \<Rightarrow> bool" where
  "info_ok sid es info \<longleftrightarrow> si_StreamID info = sid \<and> si_Category info = ExtractCategory sid \<and>
     si_Version info = int (length es) \<and> si_EventCount info = int (length es)"

fun stream_ok :: "stored_event list \<Rightarrow> string \<Rightarrow> stream_data option \<Rightarrow> bool" where
  "stream_ok g sid None \<longleftrightarrow> stream_events g sid = []"
| "stream_ok g sid (Some sd) \<longleftrightarrow>
     sd_events sd = stream_events g sid \<and> sd_events sd \<noteq> [] \<and> info_ok sid (sd_events sd) (sd_info sd)"

definition log_ok :: "stored_event list \<Rightarrow> bool" where
  "log_ok g \<longleftrightarrow>
     map se_GlobalPosition g = [1..<Suc (length g)] \<and>
     (\<forall>sid. map se_Version (stream_events g sid) =
        map int [1..<Suc (length (stream_events g sid))]) \<and>
     stream_events g [] = []"

definition subs_ok :: "memory_adapter \<Rightarrow> bool" where
  "subs_ok a \<longleftrightarrow> distinct (map sub_ch (ma_subscribers a) @ ma_closedChs a) \<and>
     (\<forall>s \<in> set (ma_subscribers a). length (sub_buf s) \<le> sub_cap s) \<and>
     (ma_closed a \<longrightarrow> ma_subscribers a = [])"

definition mem_inv :: "memory_adapter \<Rightarrow> bool" where
  "mem_inv a \<longleftrightarrow>
     gm_wf (ma_streams a) \<and> log_ok (ma_globalEvents a) \<and>
     ma_globalPosition a = length (ma_globalEvents a) \<and>
     (\<forall>sid. stream_ok (ma_globalEvents a) sid (map_of (ma_streams a) sid)) \<and> subs_ok a"

section \<open>Appending to the log\<close>

lemma stream_events_append [simp]:
  "stream_events (g @ h) sid = stream_events g sid @ stream_events h sid"
  by (simp add: stream_events_def)

lemma stream_events_Nil [simp]: "stream_events [] sid = []"
  by (simp add: stream_events_def)

lemma mk_stored_sel [simp]:
  "se_StreamID (mk_stored i sid now gp v e) = sid"
  "se_Version (mk_stored i sid now gp v e) = v"
  "se_GlobalPosition (mk_stored i sid now gp v e) = gp"
  "se_ID (mk_stored i sid now gp v e) = i"
  "se_Type (mk_stored i sid now gp v e) = er_Type e"
  "se_Data (mk_stored i sid now gp v e) = er_Data e"
  "se_Metadata (mk_stored i sid now gp v e) = er_Metadata e"
  "se_Timestamp (mk_stored i sid now gp v e) = now"
  by (simp_all add: mk_stored_def)

lemma mk_stored_returned [simp]:
  "(mk_stored i sid now gp v e)\<lparr>se_Data := er_Data e, se_Metadata := er_Metadata e\<rparr> =
     mk_stored i sid now gp v e"
  by (simp add: mk_stored_def)

lemma new_events_Nil [simp]: "new_events uuid sid now gp v [] = []"
  by (simp add: new_events_def)

lemma length_new_events [simp]: "length (new_events uuid sid now gp v es) = length es"
  by (simp add: new_events_def)

lemma new_events_eq_Nil [simp]: "new_events uuid sid now gp v es = [] \<longleftrightarrow> es = []"
  by (metis length_0_conv length_new_events)

lemma stream_events_new_events [simp]:
  "stream_events (new_events uuid sid now gp v es) sid' =
     (if sid' = sid then new_events uuid sid now gp v es else [])"
  by (auto simp: stream_events_def new_events_def filter_map comp_def)

lemma new_events_Cons:
  "new_events uuid sid now gp v (e # es) =
     mk_stored (uuid 0) sid now (Suc gp) (v + 1) e #
     new_events (\<lambda>i. uuid (Suc i)) sid now (Suc gp) (v + 1) es"
proof -
  have "[0..<length (e # es)] = 0 # map Suc [0..<length es]"
    by (simp only: list.size add_Suc_right add_0_right map_Suc_upt upt_conv_Cons zero_less_Suc)
  then show ?thesis
    by (simp add: new_events_def comp_def add_ac)
qed

text \<open>The accumulating loop of \<^verbatim>\<open>appendLocked\<close> computes the new events of the
  specification.\<close>

lemma append_loop_eq:
  "append_loop uuid sid now i es a v sd acc =
     (let ns = new_events (\<lambda>k. uuid (i + k)) sid now (ma_globalPosition a) v es
      in (a\<lparr>ma_globalPosition := ma_globalPosition a + length es,
            ma_globalEvents := ma_globalEvents a @ ns\<rparr>,
          v + int (length es), sd\<lparr>sd_events := sd_events sd @ ns\<rparr>, acc @ ns))"
proof (induction es arbitrary: i a v sd acc)
  case (Cons e es)
  show ?case
    by (simp add: Cons.IH new_events_Cons Let_def algebra_simps)
qed (simp add: Let_def)

lemma map_position_new_events:
  "map se_GlobalPosition (new_events uuid sid now gp v es) = [Suc gp..<Suc (gp + length es)]"
proof -
  have "map se_GlobalPosition (new_events uuid sid now gp v es) =
      map (\<lambda>i. i + Suc gp) [0..<length es]"
    by (simp add: new_events_def comp_def add.commute)
  then show ?thesis by (simp only: map_add_upt) (simp add: add.commute del: upt_Suc)
qed

lemma map_version_new_events:
  "map se_Version (new_events uuid sid now gp (int n) es) = map int [Suc n..<Suc (n + length es)]"
proof -
  have "map se_Version (new_events uuid sid now gp (int n) es) =
      map int (map (\<lambda>i. i + Suc n) [0..<length es])"
    by (simp add: new_events_def comp_def add.commute)
  then show ?thesis by (simp only: map_add_upt) (simp add: add.commute del: upt_Suc)
qed

lemma upt_Suc_split: "[Suc 0..<Suc (m + n)] = [Suc 0..<Suc m] @ [Suc m..<Suc (m + n)]"
  by (metis Suc_le_mono add_Suc le0 upt_add_eq_append)

lemma log_ok_append:
  assumes "log_ok g" and "sid \<noteq> []"
  shows "log_ok (log_append uuid now g sid es)"
  unfolding log_ok_def log_append_def
proof (intro conjI allI)
  show "map se_GlobalPosition (g @ new_events uuid sid now (length g)
      (int (length (stream_events g sid))) es) =
    [1..<Suc (length (g @ new_events uuid sid now (length g)
      (int (length (stream_events g sid))) es))]"
    using assms by (simp add: log_ok_def map_position_new_events upt_Suc_split del: upt_Suc)
next
  fix s
  show "map se_Version (stream_events (g @ new_events uuid sid now (length g)
      (int (length (stream_events g sid))) es) s) =
    map int [1..<Suc (length (stream_events (g @ new_events uuid sid now (length g)
      (int (length (stream_events g sid))) es) s))]"
    using assms
    by (cases "s = sid")
      (simp_all add: log_ok_def map_version_new_events upt_Suc_split del: upt_Suc)
qed (use assms in \<open>simp add: log_ok_def\<close>)

lemma stream_ok_other:
  "stream_ok g sid' o1 \<Longrightarrow> sid' \<noteq> sid \<Longrightarrow> stream_ok (log_append uuid now g sid es) sid' o1"
  by (cases o1) (auto simp: log_append_def)

text \<open>\<^verbatim>\<open>appendLocked\<close> on a consistent store: the guards, then exactly the append of the
  specification.\<close>

lemma checkAppendLocked_log:
  assumes "mem_inv a"
  shows "checkAppendLocked a sid es expected =
     (if ma_closed a then Some ErrAdapterClosed
      else if sid = [] then Some ErrEmptyStreamID
      else if es = [] then Some ErrNoEvents
      else log_check (ma_globalEvents a) sid expected)"
proof -
  have "stream_ok (ma_globalEvents a) sid (map_of (ma_streams a) sid)"
    using assms by (simp add: mem_inv_def)
  then show ?thesis
    by (cases "map_of (ma_streams a) sid")
      (auto simp: checkAppendLocked_def log_check_def info_ok_def)
qed

lemma appendLocked_Inl: "appendLocked uuid now a sid es expected = (a', Inl e) \<Longrightarrow>
    a' = a \<and> checkAppendLocked a sid es expected = Some e"
  by (auto simp: appendLocked_def Let_def split: option.splits prod.splits)

definition extended_stream :: "string \<Rightarrow> time \<Rightarrow> stored_event list \<Rightarrow> stream_data \<Rightarrow> stream_data" where
  "extended_stream sid now ns sd =
     sd\<lparr>sd_events := sd_events sd @ ns,
        sd_info := (sd_info sd)\<lparr>si_Version := si_Version (sd_info sd) + int (length ns),
          si_EventCount := int (length (sd_events sd @ ns)), si_UpdatedAt := now\<rparr>\<rparr>"

definition stream_or_new :: "memory_adapter \<Rightarrow> string \<Rightarrow> time \<Rightarrow> stream_data" where
  "stream_or_new a sid now =
     (case map_of (ma_streams a) sid of None \<Rightarrow> new_stream sid now | Some sd \<Rightarrow> sd)"

lemma appendLocked_eq:
  assumes "checkAppendLocked a sid es expected = None"
  shows "appendLocked uuid now a sid es expected =
     (let sd = stream_or_new a sid now;
          ns = new_events uuid sid now (ma_globalPosition a) (si_Version (sd_info sd)) es
      in (a\<lparr>ma_globalPosition := ma_globalPosition a + length es,
            ma_globalEvents := ma_globalEvents a @ ns,
            ma_streams := AList.update sid (extended_stream sid now ns sd) (ma_streams a)\<rparr>, Inr ns))"
  using assms
  by (cases "map_of (ma_streams a) sid")
    (simp_all add: appendLocked_def append_loop_eq Let_def stream_or_new_def extended_stream_def
      new_stream_def)

lemma stream_or_new_ok:
  assumes "mem_inv a"
  shows "si_Version (sd_info (stream_or_new a sid now)) =
           int (length (stream_events (ma_globalEvents a) sid))"
    and "sd_events (stream_or_new a sid now) = stream_events (ma_globalEvents a) sid"
    and "si_StreamID (sd_info (stream_or_new a sid now)) = sid"
    and "si_Category (sd_info (stream_or_new a sid now)) = ExtractCategory sid"
proof -
  have "stream_ok (ma_globalEvents a) sid (map_of (ma_streams a) sid)"
    using assms by (simp add: mem_inv_def)
  then show "si_Version (sd_info (stream_or_new a sid now)) =
           int (length (stream_events (ma_globalEvents a) sid))"
    and "sd_events (stream_or_new a sid now) = stream_events (ma_globalEvents a) sid"
    and "si_StreamID (sd_info (stream_or_new a sid now)) = sid"
    and "si_Category (sd_info (stream_or_new a sid now)) = ExtractCategory sid"
    by (cases "map_of (ma_streams a) sid";
        simp add: stream_or_new_def new_stream_def info_ok_def)+
qed

lemma appendLocked_Inr:
  assumes inv: "mem_inv a"
    and ok: "appendLocked uuid now a sid es expected = (a', Inr stored)"
  shows "checkAppendLocked a sid es expected = None"
    and "ma_globalEvents a' = log_append uuid now (ma_globalEvents a) sid es"
    and "stored = new_events uuid sid now (length (ma_globalEvents a))
           (int (length (stream_events (ma_globalEvents a) sid))) es"
    and "mem_inv a'" and "ma_subscribers a' = ma_subscribers a"
    and "ma_closedChs a' = ma_closedChs a"
proof -
  show chk: "checkAppendLocked a sid es expected = None"
    using ok by (auto simp: appendLocked_def split: option.splits)
  from inv have sok: "stream_ok (ma_globalEvents a) sid (map_of (ma_streams a) sid)"
    by (simp add: mem_inv_def)
  from chk have ne: "sid \<noteq> []" "es \<noteq> []"
    by (auto simp: checkAppendLocked_def split: if_splits)
  let ?g = "ma_globalEvents a"
  let ?ns = "new_events uuid sid now (length ?g) (int (length (stream_events ?g sid))) es"
  have gp: "ma_globalPosition a = length ?g" using inv by (simp add: mem_inv_def)
  define sd where "sd = extended_stream sid now ?ns (stream_or_new a sid now)"
  have a': "a' = a\<lparr>ma_globalPosition := length ?g + length es, ma_globalEvents := ?g @ ?ns,
      ma_streams := AList.update sid sd (ma_streams a)\<rparr>" and st: "stored = ?ns"
    using ok by (auto simp: appendLocked_eq [OF chk] Let_def gp stream_or_new_ok [OF inv] sd_def)
  have sd: "stream_ok (?g @ ?ns) sid (Some sd)"
    using ne by (simp add: sd_def extended_stream_def stream_or_new_ok [OF inv] info_ok_def)
  show g': "ma_globalEvents a' = log_append uuid now ?g sid es"
    by (simp add: a' log_append_def)
  show "stored = ?ns" by (fact st)
  show "mem_inv a'"
    unfolding mem_inv_def
  proof (intro conjI allI)
    show "gm_wf (ma_streams a')" using inv by (simp add: a' mem_inv_def gm_simps)
    show "log_ok (ma_globalEvents a')"
      using inv ne(1) unfolding g' mem_inv_def by (blast intro: log_ok_append)
    show "ma_globalPosition a' = length (ma_globalEvents a')" by (simp add: a')
    fix s
    show "stream_ok (ma_globalEvents a') s (map_of (ma_streams a') s)"
    proof (cases "s = sid")
      case False
      have "stream_ok ?g s (map_of (ma_streams a) s)" using inv by (simp add: mem_inv_def)
      from stream_ok_other [OF this False] False show ?thesis
        by (simp add: a' log_append_def gm_simps)
    qed (use sd in \<open>auto simp: a' gm_simps\<close>)
    show "subs_ok a'" using inv by (simp add: a' mem_inv_def subs_ok_def)
  qed
  show "ma_subscribers a' = ma_subscribers a" by (simp add: a')
  show "ma_closedChs a' = ma_closedChs a" by (simp add: a')
qed

section \<open>Delivery to subscribers\<close>

lemma deliver_eq:
  "deliver es sub =
     (let k = sub_cap sub - length (sub_buf sub)
      in (sub\<lparr>sub_buf := sub_buf sub @ take k es\<rparr>,
          if sub_onError sub then map (\<lambda>e. \<lparr>pd_ch = sub_ch sub, pd_StreamID = se_StreamID e,
            pd_GlobalPosition = se_GlobalPosition e\<rparr>) (drop k es) else []))"
proof (induction es arbitrary: sub)
  case (Cons e es)
  show ?case
  proof (cases "length (sub_buf sub) < sub_cap sub")
    case True
    then have "sub_cap sub - length (sub_buf sub) = Suc (sub_cap sub - Suc (length (sub_buf sub)))"
      by simp
    with True show ?thesis by (simp add: Cons.IH Let_def)
  next
    case False
    then show ?thesis by (simp add: Cons.IH Let_def)
  qed
qed (simp add: Let_def)

lemma notifySubscribers_fields [simp]:
  "ma_streams (fst (notifySubscribers a es)) = ma_streams a"
  "ma_globalEvents (fst (notifySubscribers a es)) = ma_globalEvents a"
  "ma_globalPosition (fst (notifySubscribers a es)) = ma_globalPosition a"
  "ma_closed (fst (notifySubscribers a es)) = ma_closed a"
  "ma_closedChs (fst (notifySubscribers a es)) = ma_closedChs a"
  "map sub_ch (ma_subscribers (fst (notifySubscribers a es))) = map sub_ch (ma_subscribers a)"
  by (simp_all add: notifySubscribers_def Let_def deliver_eq comp_def)

lemma notifySubscribers_inv:
  assumes "mem_inv a"
  shows "mem_inv (fst (notifySubscribers a es))"
proof -
  have "ma_subscribers (fst (notifySubscribers a es)) = [] \<longleftrightarrow> ma_subscribers a = []"
    by (simp add: notifySubscribers_def Let_def)
  moreover have "\<forall>s \<in> set (ma_subscribers (fst (notifySubscribers a es))). length (sub_buf s) \<le> sub_cap s"
    using assms by (auto simp: notifySubscribers_def Let_def deliver_eq mem_inv_def subs_ok_def)
  moreover have "distinct (map sub_ch (ma_subscribers (fst (notifySubscribers a es))) @ ma_closedChs a)"
    using assms unfolding mem_inv_def subs_ok_def by simp
  ultimately show ?thesis
    using assms unfolding mem_inv_def subs_ok_def by simp
qed

lemma Append_inv:
  assumes "mem_inv a"
  shows "mem_inv (fst (Append ctx uuid now a sid es v))"
proof (cases ctx)
  case None
  obtain a' r where ap: "appendLocked uuid now a sid es v = (a', r)" by fastforce
  show ?thesis
  proof (cases r)
    case (Inl e)
    with None ap assms show ?thesis by (auto simp: Append_def dest: appendLocked_Inl)
  next
    case (Inr stored)
    with ap assms have "mem_inv a'" by (auto dest: appendLocked_Inr)
    with None ap Inr show ?thesis
      using notifySubscribers_inv [of a' stored] by (auto simp: Append_def split: prod.splits)
  qed
qed (use assms in \<open>simp add: Append_def\<close>)

text \<open>\<^verbatim>\<open>AppendWithOutbox\<close> is \<^verbatim>\<open>Append\<close> with a scheduling step in the middle: on the
  event store it does what \<^verbatim>\<open>Append\<close> does, or nothing.\<close>

lemma AppendWithOutbox_cases:
  "fst (AppendWithOutbox ctx uuid now schedule a sid es v outbox msgs) =
     fst (Append ctx uuid now a sid es v) \<or>
   fst (AppendWithOutbox ctx uuid now schedule a sid es v outbox msgs) = a"
  by (auto simp: AppendWithOutbox_def Append_def Let_def split: option.splits prod.splits sum.splits)

lemma AppendWithOutbox_inv:
  "mem_inv a \<Longrightarrow> mem_inv (fst (AppendWithOutbox ctx uuid now schedule a sid es v outbox msgs))"
  using AppendWithOutbox_cases [of ctx uuid now schedule a sid es v outbox msgs] Append_inv
  by fastforce

section \<open>The other operations keep the invariant\<close>

lemma removeSubscriber_split:
  assumes "dropWhile (\<lambda>s. sub_ch s \<noteq> ch) subs = s # rest"
  shows "subs = takeWhile (\<lambda>s. sub_ch s \<noteq> ch) subs @ s # rest \<and> sub_ch s = ch"
  using assms by (metis (mono_tags, lifting) hd_dropWhile list.distinct(1) list.sel(1)
      takeWhile_dropWhile_id)

lemma removeSubscriber_inv:
  assumes "mem_inv a"
  shows "mem_inv (removeSubscriber a ch)"
proof (cases "dropWhile (\<lambda>s. sub_ch s \<noteq> ch) (ma_subscribers a)")
  case (Cons s rest)
  let ?pre = "takeWhile (\<lambda>s. sub_ch s \<noteq> ch) (ma_subscribers a)"
  have subs: "ma_subscribers a = ?pre @ s # rest" and s: "sub_ch s = ch"
    using removeSubscriber_split [OF Cons] by auto
  have rem: "removeSubscriber a ch =
      a\<lparr>ma_subscribers := ?pre @ rest, ma_closedChs := ma_closedChs a @ [ch]\<rparr>"
    using Cons by (simp add: removeSubscriber_def)
  have "subs_ok a" using assms by (simp add: mem_inv_def)
  then have "distinct (map sub_ch (?pre @ s # rest) @ ma_closedChs a)"
    "\<forall>x \<in> set (?pre @ s # rest). length (sub_buf x) \<le> sub_cap x" "\<not> ma_closed a"
    unfolding subs_ok_def using subs by (metis, metis, metis append_is_Nil_conv list.distinct(1))
  then have "subs_ok (removeSubscriber a ch)"
    unfolding rem subs_ok_def using s by auto
  with assms show ?thesis unfolding rem mem_inv_def by simp
next
  case Nil
  with assms show ?thesis by (simp only: removeSubscriber_def list.case)
qed

lemma SubscribeAll_inv:
  assumes "mem_inv a" and "ch \<notin> set (map sub_ch (ma_subscribers a) @ ma_closedChs a)"
  shows "mem_inv (fst (SubscribeAll ctx interrupt ch a from opts))"
proof (cases "ctx = None \<and> \<not> ma_closed a")
  case True
  let ?h = "filter (\<lambda>e. se_GlobalPosition e > from) (ma_globalEvents a)"
  let ?d = "\<lambda>n. a\<lparr>ma_subscribers := ma_subscribers a @ [\<lparr>sub_ch = ch,
     sub_cap = getBufferSize opts + length ?h, sub_buf = take n ?h, sub_onError = getOnError opts\<rparr>]\<rparr>"
  have d: "mem_inv (?d n)" for n
    using assms True by (auto simp: mem_inv_def subs_ok_def)
  with d [of "length ?h"] show ?thesis
    using True removeSubscriber_inv
    by (auto simp: SubscribeAll_def Let_def split: option.splits)
qed (use assms in \<open>auto simp: SubscribeAll_def split: option.splits\<close>)

lemma Close_inv: "mem_inv a \<Longrightarrow> mem_inv (Close a)"
  by (auto simp: mem_inv_def subs_ok_def Close_def)

lemma rewrite_first_map:
  assumes "\<And>e. f (e\<lparr>se_Data := d, se_Metadata := md\<rparr>) = f e"
  shows "map f (rewrite_first P d md es) = map f es"
  using assms by (induction es) auto

lemma rewrite_first_eq_Nil [simp]: "rewrite_first P d md es = [] \<longleftrightarrow> es = []"
  by (cases es) auto

lemma length_rewrite_first [simp]: "length (rewrite_first P d md es) = length es"
  by (induction es) auto

lemma stream_events_rewrite:
  "stream_events (rewrite_first (\<lambda>e. se_StreamID e = sid \<and> se_Version e = v) d md g) sid' =
     (if sid' = sid then rewrite_first (\<lambda>e. se_Version e = v) d md (stream_events g sid)
      else stream_events g sid')"
  by (induction g) (auto simp: stream_events_def)

lemma RewriteEventData_inv:
  assumes "mem_inv a"
  shows "mem_inv (fst (RewriteEventData ctx a sid v d md))"
proof (cases "ctx = None \<and> \<not> ma_closed a \<and>
    (\<exists>sd. map_of (ma_streams a) sid = Some sd \<and> (\<exists>e \<in> set (sd_events sd). se_Version e = v))")
  case True
  then obtain sd where sd: "map_of (ma_streams a) sid = Some sd" by blast
  let ?g = "rewrite_first (\<lambda>e. se_StreamID e = sid \<and> se_Version e = v) d md (ma_globalEvents a)"
  let ?sd = "sd\<lparr>sd_events := rewrite_first (\<lambda>e. se_Version e = v) d md (sd_events sd)\<rparr>"
  let ?a = "a\<lparr>ma_streams := AList.update sid ?sd (ma_streams a), ma_globalEvents := ?g\<rparr>"
  have a': "fst (RewriteEventData ctx a sid v d md) = ?a"
    using True sd by (auto simp: RewriteEventData_def)
  have ok: "stream_ok (ma_globalEvents a) s (map_of (ma_streams a) s)" for s
    using assms by (simp add: mem_inv_def)
  have "stream_ok ?g s (map_of (ma_streams ?a) s)" for s
    using ok [of s] sd
    by (cases "map_of (ma_streams a) s")
      (auto simp: gm_simps stream_events_rewrite info_ok_def)
  moreover have "log_ok ?g"
    using assms
    by (simp add: mem_inv_def log_ok_def stream_events_rewrite rewrite_first_map del: upt_Suc)
  ultimately show ?thesis
    unfolding a' using assms by (auto simp: mem_inv_def subs_ok_def gm_simps)
qed (use assms in \<open>auto simp: RewriteEventData_def split: option.splits\<close>)

lemma Reset_inv: "mem_inv a \<Longrightarrow> mem_inv (Reset a)"
  by (auto simp: mem_inv_def subs_ok_def Reset_def log_ok_def)

lemma NewAdapter_inv: "mem_inv NewAdapter"
  by (simp add: mem_inv_def subs_ok_def NewAdapter_def log_ok_def)

lemma mem_inv_cong:
  assumes "ma_streams a' = ma_streams a" "ma_globalEvents a' = ma_globalEvents a"
    "ma_globalPosition a' = ma_globalPosition a" "ma_closed a' = ma_closed a"
    "ma_subscribers a' = ma_subscribers a" "ma_closedChs a' = ma_closedChs a"
  shows "mem_inv a' \<longleftrightarrow> mem_inv a"
  using assms by (simp add: mem_inv_def subs_ok_def)

text \<open>The operations on the auxiliary tables leave the log and the subscribers alone.\<close>

lemma side_tables_inv:
  "mem_inv (fst (SaveSnapshot ctx a sid v d)) \<longleftrightarrow> mem_inv a"
  "mem_inv (fst (DeleteSnapshot ctx a sid)) \<longleftrightarrow> mem_inv a"
  "mem_inv (fst (SetCheckpoint ctx a name p)) \<longleftrightarrow> mem_inv a"
  "mem_inv (fst (SetProjectionStatus ctx now a name st)) \<longleftrightarrow> mem_inv a"
  "mem_inv (fst (ResetProjectionCheckpoint ctx now a name)) \<longleftrightarrow> mem_inv a"
  "mem_inv (fst (RecordMigration ctx now a name)) \<longleftrightarrow> mem_inv a"
  "mem_inv (fst (RemoveMigrationRecord ctx a name)) \<longleftrightarrow> mem_inv a"
  by (rule mem_inv_cong;
      simp add: SaveSnapshot_def DeleteSnapshot_def SetCheckpoint_def SetProjectionStatus_def
        ResetProjectionCheckpoint_def RecordMigration_def RemoveMigrationRecord_def
        split: option.split)+

section \<open>Reachable states\<close>

text \<open>A subscriber's consumer takes the head of its channel.\<close>

definition receive :: "memory_adapter \<Rightarrow> nat \<Rightarrow> memory_adapter" where
  "receive a ch = a\<lparr>ma_subscribers := map (\<lambda>s. if sub_ch s = ch then s\<lparr>sub_buf := tl (sub_buf s)\<rparr> else s)
     (ma_subscribers a)\<rparr>"

lemma receive_inv: "mem_inv a \<Longrightarrow> mem_inv (receive a ch)"
  by (force simp: mem_inv_def subs_ok_def receive_def comp_def if_distrib [of sub_ch] cong: if_cong)

text \<open>One step of any goroutine that shares the adapter; \<^verbatim>\<open>make(chan ...)\<close> never returns a
  channel that exists already.\<close>

inductive mem_step :: "memory_adapter \<Rightarrow> memory_adapter \<Rightarrow> bool" where
  append: "mem_step a (fst (Append ctx uuid now a sid es v))"
| append_outbox: "mem_step a (fst (AppendWithOutbox ctx uuid now (Schedule ctx' uuid' now') a sid es v outbox msgs))"
| subscribe: "ch \<notin> set (map sub_ch (ma_subscribers a) @ ma_closedChs a) \<Longrightarrow>
    mem_step a (fst (SubscribeAll ctx interrupt ch a from opts))"
| unsubscribe: "mem_step a (removeSubscriber a ch)"
| receive: "mem_step a (receive a ch)"
| close: "mem_step a (Close a)"
| save_snapshot: "mem_step a (fst (SaveSnapshot ctx a sid v d))"
| delete_snapshot: "mem_step a (fst (DeleteSnapshot ctx a sid))"
| set_checkpoint: "mem_step a (fst (SetCheckpoint ctx a name p))"
| rewrite: "mem_step a (fst (RewriteEventData ctx a sid v d md))"
| reset: "mem_step a (Reset a)"
| set_status: "mem_step a (fst (SetProjectionStatus ctx now a name st))"
| reset_checkpoint: "mem_step a (fst (ResetProjectionCheckpoint ctx now a name))"
| record_migration: "mem_step a (fst (RecordMigration ctx now a name))"
| remove_migration: "mem_step a (fst (RemoveMigrationRecord ctx a name))"

inductive mem_reachable :: "memory_adapter \<Rightarrow> bool" where
  init: "mem_reachable NewAdapter"
| step: "mem_reachable a \<Longrightarrow> mem_step a a' \<Longrightarrow> mem_reachable a'"

inductive_cases mem_step_elim: "mem_step a a'"

lemmas mem_op_invs = Append_inv AppendWithOutbox_inv SubscribeAll_inv removeSubscriber_inv
  receive_inv Close_inv RewriteEventData_inv Reset_inv

lemma mem_step_inv: "mem_step a a' \<Longrightarrow> mem_inv a \<Longrightarrow> mem_inv a'"
  by (induction rule: mem_step.induct) (blast intro: mem_op_invs side_tables_inv [THEN iffD2])+

lemma mem_reachable_inv: "mem_reachable a \<Longrightarrow> mem_inv a"
  by (induction rule: mem_reachable.induct) (auto intro: NewAdapter_inv mem_step_inv)

section \<open>Append refines the log\<close>

lemma Append_cases:
  assumes inv: "mem_inv a" and run: "Append None uuid now a sid es v = (a', drops, r)"
  obtains (fail) e where "checkAppendLocked a sid es v = Some e" "r = Inl e" "a' = a" "drops = []"
  | (success) a1 where "checkAppendLocked a sid es v = None"
      "appendLocked uuid now a sid es v = (a1, r)" "mem_inv a1"
      "r = Inr (new_events uuid sid now (length (ma_globalEvents a))
           (int (length (stream_events (ma_globalEvents a) sid))) es)"
      "ma_globalEvents a1 = log_append uuid now (ma_globalEvents a) sid es"
      "ma_subscribers a1 = ma_subscribers a" "ma_closedChs a1 = ma_closedChs a"
      "(a', drops) = notifySubscribers a1 (new_events uuid sid now (length (ma_globalEvents a))
           (int (length (stream_events (ma_globalEvents a) sid))) es)"
proof -
  obtain a1 r1 where ap: "appendLocked uuid now a sid es v = (a1, r1)" by fastforce
  show thesis
  proof (cases r1)
    case (Inl e)
    with ap run appendLocked_Inl [of uuid now a sid es v a1 e] show thesis
      by (intro fail [of e]) (auto simp: Append_def)
  next
    case (Inr stored)
    note res = appendLocked_Inr [OF inv ap [unfolded Inr]]
    show thesis
      using ap run Inr res
      by (intro success [of a1]) (auto simp: Append_def split: prod.splits)
  qed
qed

lemma Append_success_log:
  assumes "mem_inv a" and "Append None uuid now a sid es v = (a', drops, Inr stored)"
  shows "ma_globalEvents a' = log_append uuid now (ma_globalEvents a) sid es"
    and "stored = new_events uuid sid now (length (ma_globalEvents a))
           (int (length (stream_events (ma_globalEvents a) sid))) es"
    and "checkAppendLocked a sid es v = None" and "mem_inv a'" and "\<not> ma_closed a'" and "sid \<noteq> []"
proof -
  show "mem_inv a'" using Append_inv [OF assms(1), of None uuid now sid es v] assms(2) by simp
  have ms: "ma_closed a1 = ma_closed a" if "appendLocked uuid now a sid es v = (a1, r)"
      "checkAppendLocked a sid es v = None" for a1 r
    using that by (auto simp: appendLocked_eq Let_def)
  from assms have "ma_globalEvents a' = log_append uuid now (ma_globalEvents a) sid es \<and>
      stored = new_events uuid sid now (length (ma_globalEvents a))
           (int (length (stream_events (ma_globalEvents a) sid))) es \<and>
      checkAppendLocked a sid es v = None \<and> ma_closed a' = ma_closed a"
    by (cases rule: Append_cases [OF assms]) (auto dest: ms simp: notifySubscribers_def Let_def)
  then show "ma_globalEvents a' = log_append uuid now (ma_globalEvents a) sid es"
    and "stored = new_events uuid sid now (length (ma_globalEvents a))
           (int (length (stream_events (ma_globalEvents a) sid))) es"
    and "checkAppendLocked a sid es v = None" and "\<not> ma_closed a'" and "sid \<noteq> []"
    by (auto simp: checkAppendLocked_def split: if_splits)
qed

lemma Append_progress:
  assumes "mem_inv a" and "checkAppendLocked a sid es v = None"
  shows "ma_globalEvents (fst (Append None uuid now a sid es v)) =
           log_append uuid now (ma_globalEvents a) sid es"
proof -
  obtain a' drops r where run: "Append None uuid now a sid es v = (a', drops, r)" by (metis prod_cases3)
  from assms(1) run have "\<exists>stored. r = Inr stored"
    by (cases rule: Append_cases) (use assms(2) in auto)
  then obtain stored where "r = Inr stored" ..
  with run Append_success_log(1) [OF assms(1)] show ?thesis by simp
qed

lemma Load_eq_stream:
  assumes "mem_inv a" and "\<not> ma_closed a" and "sid \<noteq> []"
  shows "Load None a sid v = Inr (filter (\<lambda>e. v < se_Version e) (stream_events (ma_globalEvents a) sid))"
proof -
  have "stream_ok (ma_globalEvents a) sid (map_of (ma_streams a) sid)"
    using assms by (simp add: mem_inv_def)
  with assms show ?thesis
    by (cases "map_of (ma_streams a) sid") (simp_all add: Load_def guarded_def)
qed

lemma Load_all:
  assumes "mem_inv a" and "\<not> ma_closed a" and "sid \<noteq> []"
  shows "Load None a sid 0 = Inr (stream_events (ma_globalEvents a) sid)"
proof -
  let ?es = "stream_events (ma_globalEvents a) sid"
  have vs: "map se_Version ?es = map int [1..<Suc (length ?es)]"
    using assms(1) by (simp add: mem_inv_def log_ok_def del: upt_Suc)
  have "0 < se_Version e" if "e \<in> set ?es" for e
  proof -
    have "se_Version e \<in> set (map se_Version ?es)" using that by simp
    then show ?thesis unfolding vs by auto
  qed
  then show ?thesis using Load_eq_stream [OF assms, of 0] by (simp add: filter_id_conv)
qed

text \<open>C1: Append implements the append of the abstract log.  The outcome is decided by the
  guards on the log alone: on an error the store is unchanged and nobody is notified; on
  success the log grows by exactly the new events, numbered with the next versions of
  their stream and the next global positions, and those are the events returned.\<close>

theorem Append_refines_log:
  assumes "mem_inv a" and "Append None uuid now a sid es v = (a', drops, r)"
  shows "case (if ma_closed a then Some ErrAdapterClosed else if sid = [] then Some ErrEmptyStreamID
               else if es = [] then Some ErrNoEvents else log_check (ma_globalEvents a) sid v) of
           Some e \<Rightarrow> r = Inl e \<and> a' = a \<and> drops = []
         | None \<Rightarrow> ma_globalEvents a' = log_append uuid now (ma_globalEvents a) sid es \<and>
             r = Inr (drop (length (ma_globalEvents a)) (ma_globalEvents a')) \<and> mem_inv a'"
  using assms
proof (cases rule: Append_cases)
  case (fail e)
  then show ?thesis
    unfolding checkAppendLocked_log [OF assms(1), symmetric] by simp
next
  case (success a1)
  note s = Append_success_log [OF assms(1) assms(2) [unfolded success(4)]]
  have "drop (length (ma_globalEvents a)) (ma_globalEvents a') =
      new_events uuid sid now (length (ma_globalEvents a))
           (int (length (stream_events (ma_globalEvents a) sid))) es"
    unfolding s(1) log_append_def by simp
  with s success(1,4) show ?thesis
    unfolding checkAppendLocked_log [OF assms(1), symmetric] by simp
qed

definition demo_event :: event_record where
  "demo_event = \<lparr>er_Type = ''Placed'', er_Data = ''d'', er_Metadata = empty_metadata\<rparr>"

definition demo_uuid :: "nat \<Rightarrow> string" where
  "demo_uuid i = ''u'' @ nat_digits i"

definition demo_adapter :: memory_adapter where
  "demo_adapter = fst (Append None demo_uuid 7 NewAdapter ''Order-1'' [demo_event, demo_event] 0)"

lemma demo_append:
  "Append None demo_uuid 7 NewAdapter ''Order-1'' [demo_event, demo_event] 0 =
     (demo_adapter, [], Inr [mk_stored (demo_uuid 0) ''Order-1'' 7 1 1 demo_event,
        mk_stored (demo_uuid 1) ''Order-1'' 7 2 2 demo_event])"
  by (simp add: demo_adapter_def Append_def appendLocked_def checkAppendLocked_def NewAdapter_def
      CheckVersion_def Let_def mk_stored_def notifySubscribers_def)

lemma demo_adapter_inv: "mem_inv demo_adapter"
  using Append_inv [OF NewAdapter_inv] by (simp add: demo_adapter_def)

lemma demo_adapter_reachable: "mem_reachable demo_adapter"
  unfolding demo_adapter_def by (rule mem_reachable.step [OF mem_reachable.init mem_step.append])

lemma demo_adapter_log:
  "ma_globalEvents demo_adapter = [mk_stored (demo_uuid 0) ''Order-1'' 7 1 1 demo_event,
        mk_stored (demo_uuid 1) ''Order-1'' 7 2 2 demo_event]"
  "\<not> ma_closed demo_adapter" "ma_subscribers demo_adapter = []" "ma_closedChs demo_adapter = []"
  by (simp_all add: demo_adapter_def Append_def appendLocked_def checkAppendLocked_def NewAdapter_def
      CheckVersion_def Let_def mk_stored_def notifySubscribers_def)

theorem Append_refines_log_witness:
  "length (ma_globalEvents (fst (Append None demo_uuid 9 demo_adapter ''Order-1'' [demo_event] 2))) = 3 \<and>
   fst (Append None demo_uuid 9 demo_adapter ''Order-1'' [demo_event] 5) = demo_adapter"
proof
  obtain a' d r where h: "Append None demo_uuid 9 demo_adapter ''Order-1'' [demo_event] 2 = (a', d, r)"
    by (metis prod_cases3)
  show "length (ma_globalEvents (fst (Append None demo_uuid 9 demo_adapter ''Order-1'' [demo_event] 2))) = 3"
    using Append_refines_log [OF demo_adapter_inv h] h
    by (simp add: demo_adapter_log log_check_def CheckVersion_def stream_events_def log_append_def)
  obtain a' d r where h: "Append None demo_uuid 9 demo_adapter ''Order-1'' [demo_event] 5 = (a', d, r)"
    by (metis prod_cases3)
  show "fst (Append None demo_uuid 9 demo_adapter ''Order-1'' [demo_event] 5) = demo_adapter"
    using Append_refines_log [OF demo_adapter_inv h] h
    by (simp add: demo_adapter_log log_check_def CheckVersion_def stream_events_def)
qed

section \<open>Properties of the event store\<close>

text \<open>C2: In every state that any sequence of operations can reach, the global log has the
  positions 1, 2, ..., n without a gap, each stream has the versions 1, 2, ..., k, and what
  Load and GetStreamInfo report of a stream is what the log says of it.\<close>

theorem reachable_log_consistent:
  assumes "mem_reachable a" and "\<not> ma_closed a" and "sid \<noteq> []"
  shows "map se_GlobalPosition (ma_globalEvents a) = [1..<Suc (length (ma_globalEvents a))] \<and>
         GetLastPosition None a = Inr (length (ma_globalEvents a)) \<and>
         (\<exists>es. Load None a sid 0 = Inr es \<and>
            es = filter (\<lambda>e. se_StreamID e = sid) (ma_globalEvents a) \<and>
            map se_Version es = map int [1..<Suc (length es)] \<and>
            (case GetStreamInfo None a sid of
               Inl e \<Rightarrow> e = StreamNotFoundError sid \<and> es = []
             | Inr info \<Rightarrow> es \<noteq> [] \<and> si_Version info = int (length es) \<and>
                 si_EventCount info = int (length es) \<and> si_Category info = ExtractCategory sid))"
proof -
  let ?es = "stream_events (ma_globalEvents a) sid"
  have inv: "mem_inv a" using assms(1) by (rule mem_reachable_inv)
  then have vs: "map se_Version ?es = map int [1..<Suc (length ?es)]"
    by (simp add: mem_inv_def log_ok_def del: upt_Suc)
  have "Load None a sid 0 = Inr ?es" using inv assms(2,3) by (rule Load_all)
  moreover have "case GetStreamInfo None a sid of
       Inl e \<Rightarrow> e = StreamNotFoundError sid \<and> ?es = []
     | Inr info \<Rightarrow> ?es \<noteq> [] \<and> si_Version info = int (length ?es) \<and>
         si_EventCount info = int (length ?es) \<and> si_Category info = ExtractCategory sid"
  proof -
    have "stream_ok (ma_globalEvents a) sid (map_of (ma_streams a) sid)"
      using inv by (simp add: mem_inv_def)
    with assms show ?thesis
      by (cases "map_of (ma_streams a) sid") (auto simp: GetStreamInfo_def guarded_def info_ok_def)
  qed
  moreover have "map se_GlobalPosition (ma_globalEvents a) = [1..<Suc (length (ma_globalEvents a))]"
    "GetLastPosition None a = Inr (length (ma_globalEvents a))"
    using inv assms(2)
    by (simp_all add: mem_inv_def log_ok_def GetLastPosition_def guarded_def del: upt_Suc)
  ultimately show ?thesis
    using vs unfolding stream_events_def [symmetric] by blast
qed

theorem reachable_log_consistent_witness:
  "mem_reachable demo_adapter \<and> \<not> ma_closed demo_adapter \<and>
   map se_GlobalPosition (ma_globalEvents demo_adapter) = [1, 2]"
  using reachable_log_consistent [OF demo_adapter_reachable demo_adapter_log(2), of "''Order-1''"]
    demo_adapter_reachable demo_adapter_log(1,2) by simp

lemma log_check_ge0:
  "0 \<le> v \<Longrightarrow> log_check g sid v = None \<longleftrightarrow> v = int (length (stream_events g sid))"
  by (auto simp: log_check_def CheckVersion_None_iff)

text \<open>C3: No lost update.  When an append against an expected version succeeds, any later
  append against the same expected version is refused with the ConcurrencyError that
  reports the version the first writer left, and changes nothing.\<close>

theorem no_lost_update:
  assumes "mem_inv a" and "0 \<le> v" and "Append None uuid now a sid es v = (a1, d1, Inr st)"
    and "es' \<noteq> []"
  shows "Append None uuid' now' a1 sid es' v =
           (a1, [], Inl (ConcurrencyError sid v (v + int (length es))))"
proof -
  note s = Append_success_log [OF assms(1,3)]
  have ne: "es \<noteq> []" "\<not> ma_closed a" using s(3) by (auto simp: checkAppendLocked_def split: if_splits)
  have "log_check (ma_globalEvents a) sid v = None"
    using s(3) s(6) ne unfolding checkAppendLocked_log [OF assms(1)] by simp
  then have v: "v = int (length (stream_events (ma_globalEvents a) sid))"
    using assms(2) log_check_ge0 by blast
  then have "stream_events (ma_globalEvents a1) sid \<noteq> []"
    "int (length (stream_events (ma_globalEvents a1) sid)) = v + int (length es)"
    using ne by (simp_all add: s(1) log_append_def)
  then have "log_check (ma_globalEvents a1) sid v = Some (ConcurrencyError sid v (v + int (length es)))"
    using ne assms(2) by (auto simp: log_check_def CheckVersion_def)
  then have "checkAppendLocked a1 sid es' v = Some (ConcurrencyError sid v (v + int (length es)))"
    using s(5,6) assms(4) by (simp add: checkAppendLocked_log [OF s(4)])
  then show ?thesis by (simp add: Append_def appendLocked_def)
qed

theorem no_lost_update_witness:
  "Append None demo_uuid 9 demo_adapter ''Order-1'' [demo_event] 0 =
     (demo_adapter, [], Inl (ConcurrencyError ''Order-1'' 0 2))"
  using no_lost_update [OF NewAdapter_inv _ demo_append, of "[demo_event]"] by simp

lemma filter_version_new:
  "filter (\<lambda>e. v < se_Version e) (new_events uuid sid now gp v es) = new_events uuid sid now gp v es"
  by (simp add: new_events_def filter_id_conv)

lemma filter_version_old:
  assumes "log_ok g"
  shows "filter (\<lambda>e. int (length (stream_events g sid)) < se_Version e) (stream_events g sid) = []"
proof -
  have "map se_Version (stream_events g sid) = map int [1..<Suc (length (stream_events g sid))]"
    using assms by (simp add: log_ok_def)
  then have "se_Version e \<in> set (map int [1..<Suc (length (stream_events g sid))])"
    if "e \<in> set (stream_events g sid)" for e
    using that by (metis image_eqI list.set_map)
  then have "se_Version e \<le> int (length (stream_events g sid))" if "e \<in> set (stream_events g sid)" for e
    using that by force
  then show ?thesis by (auto simp: filter_empty_conv not_less)
qed

text \<open>C4: Read your writes.  After a successful append, loading the stream from the version
  it had before returns exactly the events the append returned, carrying the caller's
  types, payloads and metadata in order; every other stream reads as before.\<close>

theorem append_load_roundtrip:
  assumes "mem_inv a" and "Append None uuid now a sid es v = (a', drops, Inr stored)"
  shows "Load None a' sid (int (length (stream_events (ma_globalEvents a) sid))) = Inr stored \<and>
         map (\<lambda>e. (se_Type e, se_Data e, se_Metadata e)) stored =
           map (\<lambda>e. (er_Type e, er_Data e, er_Metadata e)) es \<and>
         (\<forall>sid' w. sid' \<noteq> sid \<longrightarrow> Load None a' sid' w = Load None a sid' w)"
proof (intro conjI allI impI)
  note s = Append_success_log [OF assms]
  have inv: "log_ok (ma_globalEvents a)" using assms(1) by (simp add: mem_inv_def)
  show "Load None a' sid (int (length (stream_events (ma_globalEvents a) sid))) = Inr stored"
    using Load_eq_stream [OF s(4,5,6)] s(2) filter_version_old [OF inv]
    by (simp add: s(1) log_append_def filter_version_new)
  show "map (\<lambda>e. (se_Type e, se_Data e, se_Metadata e)) stored =
           map (\<lambda>e. (er_Type e, er_Data e, er_Metadata e)) es"
    unfolding s(2) new_events_def by (rule nth_equalityI) simp_all
  have op: "\<not> ma_closed a" using s(3) by (auto simp: checkAppendLocked_def split: if_splits)
  fix sid' w assume "sid' \<noteq> sid"
  then show "Load None a' sid' w = Load None a sid' w"
    using Load_eq_stream [OF assms(1) op, of sid' w] Load_eq_stream [OF s(4,5), of sid' w] s(5) op
    by (cases "sid' = []") (simp_all add: s(1) log_append_def, simp add: Load_def guarded_def)
qed

theorem append_load_roundtrip_witness:
  "Load None demo_adapter ''Order-1'' 0 =
     Inr [mk_stored (demo_uuid 0) ''Order-1'' 7 1 1 demo_event,
          mk_stored (demo_uuid 1) ''Order-1'' 7 2 2 demo_event]"
  using append_load_roundtrip [OF NewAdapter_inv demo_append] by (simp add: NewAdapter_def)

text \<open>C5: AppendWithOutbox is all or nothing over the in-memory outbox.  If it returns an
  error, neither the event store nor the outbox has changed; if it succeeds, the events
  are in the log, and the outbox is the one Schedule leaves after storing every message.\<close>

theorem AppendWithOutbox_atomic:
  assumes "mem_inv a"
    and "AppendWithOutbox ctx uuid now (Schedule ctx uuid' now') a sid es v ob msgs = (a', ob', drops, r)"
  shows "case r of
           Inl e \<Rightarrow> a' = a \<and> ob' = ob \<and> drops = []
         | Inr stored \<Rightarrow>
             ma_globalEvents a' = log_append uuid now (ma_globalEvents a) sid es \<and>
             length stored = length es \<and>
             ob' = (if msgs = [] then ob
                    else map_option (\<lambda>s. s\<lparr>os_messages := fst (schedule_loop uuid' now' 0 msgs (os_messages s))\<rparr>) ob) \<and>
             (msgs \<noteq> [] \<longrightarrow> ob' \<noteq> None)"
proof (cases "ctx = None \<and> (msgs = [] \<or> ob \<noteq> None) \<and> checkAppendLocked a sid es v = None")
  case True
  then obtain a1 r1 where ap: "appendLocked uuid now a sid es v = (a1, Inr r1)"
    by (simp add: appendLocked_eq Let_def)
  note res = appendLocked_Inr [OF assms(1) ap]
  have n: "(a', drops) = notifySubscribers a1 r1" "r = Inr r1" and
    ob': "ob' = (if msgs = [] then ob
       else map_option (\<lambda>s. s\<lparr>os_messages := fst (schedule_loop uuid' now' 0 msgs (os_messages s))\<rparr>) ob)"
    using assms(2) True ap
    by (auto simp: AppendWithOutbox_def Schedule_def Let_def split: prod.splits option.splits if_splits)
  have "ma_globalEvents a' = ma_globalEvents a1" by (metis n(1) fst_conv notifySubscribers_fields(2))
  with n ob' res True show ?thesis by auto
next
  case False
  with assms(2) have "(\<exists>e. r = Inl e) \<and> a' = a \<and> ob' = ob \<and> drops = []"
    by (cases ctx; cases "checkAppendLocked a sid es v"; cases ob)
      (auto simp: AppendWithOutbox_def Let_def split: if_splits)
  then show ?thesis by auto
qed

theorem AppendWithOutbox_atomic_witness:
  "fst (snd (AppendWithOutbox None demo_uuid 9 (Schedule None demo_uuid 9) demo_adapter ''Order-1''
      [demo_event] 1 (Some demo_store) [demo_message ''c'' 3])) = Some demo_store"
proof -
  obtain a' ob' d r where h: "AppendWithOutbox None demo_uuid 9 (Schedule None demo_uuid 9) demo_adapter
      ''Order-1'' [demo_event] 1 (Some demo_store) [demo_message ''c'' 3] = (a', ob', d, r)"
    by (metis prod_cases4)
  have "checkAppendLocked demo_adapter ''Order-1'' [demo_event] 1 \<noteq> None"
    by (simp add: checkAppendLocked_log [OF demo_adapter_inv] demo_adapter_log log_check_def
        CheckVersion_def stream_events_def)
  then have "\<exists>e. r = Inl e" using h by (auto simp: AppendWithOutbox_def)
  with AppendWithOutbox_atomic [OF demo_adapter_inv h] h show ?thesis by auto
qed

text \<open>A channel is closed at most once and never sent on after it was closed: in every
  reachable state the channels of the registered subscribers and the closed channels are
  pairwise distinct, and after Close nobody is registered.\<close>

theorem channels_closed_once:
  assumes "mem_reachable a"
  shows "distinct (ma_closedChs a) \<and>
         (\<forall>s \<in> set (ma_subscribers a). sub_ch s \<notin> set (ma_closedChs a) \<and>
            length (sub_buf s) \<le> sub_cap s) \<and>
         (ma_closed a \<longrightarrow> ma_subscribers a = [])"
  using mem_reachable_inv [OF assms] by (auto simp: mem_inv_def subs_ok_def)

theorem channels_closed_once_witness:
  "mem_reachable (Close (fst (SubscribeAll None None 1 demo_adapter 0 []))) \<and>
   distinct (ma_closedChs (Close (fst (SubscribeAll None None 1 demo_adapter 0 []))))"
proof -
  have "mem_step demo_adapter (fst (SubscribeAll None None 1 demo_adapter 0 []))"
    by (rule mem_step.subscribe) (simp add: demo_adapter_log)
  then have "mem_reachable (Close (fst (SubscribeAll None None 1 demo_adapter 0 [])))"
    by (meson demo_adapter_reachable mem_reachable.step mem_step.close)
  with channels_closed_once [OF this] show ?thesis by simp
qed

section \<open>Catch-up subscriptions\<close>

type_synonym append_call = "(nat \<Rightarrow> string) \<times> time \<times> string \<times> event_record list \<times> int"

fun run_appends :: "memory_adapter \<Rightarrow> append_call list \<Rightarrow> memory_adapter" where
  "run_appends a [] = a"
| "run_appends a ((uuid, now, sid, es, v) # calls) =
     run_appends (fst (Append None uuid now a sid es v)) calls"

definition appended_total :: "append_call list \<Rightarrow> nat" where
  "appended_total calls = sum_list (map (\<lambda>(uuid, now, sid, es, v). length es) calls)"

text \<open>The channel holds the whole log after position \<open>p\<close>, and has room for \<open>n\<close> more.\<close>

definition caught_up :: "memory_adapter \<Rightarrow> nat \<Rightarrow> nat \<Rightarrow> nat \<Rightarrow> bool" where
  "caught_up a ch p n \<longleftrightarrow> p \<le> length (ma_globalEvents a) \<and>
     (\<exists>s \<in> set (ma_subscribers a). sub_ch s = ch \<and> length (sub_buf s) + n \<le> sub_cap s \<and>
        sub_buf s = filter (\<lambda>e. p < se_GlobalPosition e) (ma_globalEvents a))"

lemma caught_up_le: "caught_up a ch p n \<Longrightarrow> m \<le> n \<Longrightarrow> caught_up a ch p m"
  unfolding caught_up_def by (meson add_left_mono order_trans)

lemma filter_position_new:
  "p \<le> gp \<Longrightarrow> filter (\<lambda>e. p < se_GlobalPosition e) (new_events uuid sid now gp v es) =
     new_events uuid sid now gp v es"
  by (auto simp: new_events_def filter_id_conv)

lemma caught_up_Append:
  assumes inv: "mem_inv a" and cu: "caught_up a ch p (length es + n)"
  shows "caught_up (fst (Append None uuid now a sid es v)) ch p n"
proof -
  obtain a' drops r where run: "Append None uuid now a sid es v = (a', drops, r)" by (metis prod_cases3)
  show ?thesis
    using inv run
  proof (cases rule: Append_cases)
    case (fail e)
    with cu run show ?thesis by (simp add: caught_up_le)
  next
    case (success a1)
    let ?ns = "new_events uuid sid now (length (ma_globalEvents a))
           (int (length (stream_events (ma_globalEvents a) sid))) es"
    obtain s where s: "s \<in> set (ma_subscribers a)" "sub_ch s = ch"
      "length (sub_buf s) + (length es + n) \<le> sub_cap s" "p \<le> length (ma_globalEvents a)"
      "sub_buf s = filter (\<lambda>e. p < se_GlobalPosition e) (ma_globalEvents a)"
      using cu by (auto simp: caught_up_def)
    have a': "a' = fst (notifySubscribers a1 ?ns)" by (metis success(8) fst_conv)
    let ?s = "s\<lparr>sub_buf := sub_buf s @ ?ns\<rparr>"
    have "fst (deliver ?ns s) = ?s" using s(3) by (simp add: deliver_eq Let_def)
    then have "?s \<in> set (ma_subscribers a')"
      unfolding a' using s(1) success(6)
      by (force simp: notifySubscribers_def Let_def image_iff)
    moreover have "ma_globalEvents a' = ma_globalEvents a @ ?ns"
      by (simp add: a' success(5) log_append_def)
    ultimately show ?thesis
      using s unfolding caught_up_def run
      by (auto simp: filter_position_new intro!: bexI [of _ ?s])
  qed
qed

lemma caught_up_run:
  "mem_inv a \<Longrightarrow> caught_up a ch p (appended_total calls + n) \<Longrightarrow>
     caught_up (run_appends a calls) ch p n"
proof (induction calls arbitrary: a)
  case (Cons c calls)
  obtain uuid now sid es v where c: "c = (uuid, now, sid, es, v)" by (metis prod_cases5)
  have "caught_up (fst (Append None uuid now a sid es v)) ch p (appended_total calls + n)"
    using Cons.prems by (intro caught_up_Append) (simp_all add: c appended_total_def add.assoc)
  with Cons.IH Append_inv [OF Cons.prems(1)] show ?case by (simp add: c)
qed (simp add: appended_total_def)

text \<open>C6: A catch-up subscription has no gap and no duplicate.  A subscriber that starts at a
  position of the log finds in its channel, after any sequence of appends that fits its
  live buffer, exactly the events of the log after that position, in log order - history
  and live events alike.\<close>

theorem catch_up_complete:
  assumes "mem_inv a" and "p \<le> length (ma_globalEvents a)"
    and "SubscribeAll None None ch a p opts = (a1, Inr ch)"
    and "appended_total calls \<le> getBufferSize opts"
    and "ch \<notin> set (map sub_ch (ma_subscribers a) @ ma_closedChs a)"
  shows "\<exists>s \<in> set (ma_subscribers (run_appends a1 calls)). sub_ch s = ch \<and>
           sub_buf s = filter (\<lambda>e. p < se_GlobalPosition e) (ma_globalEvents (run_appends a1 calls))"
proof -
  have op: "\<not> ma_closed a" using assms(3) by (auto simp: SubscribeAll_def)
  have a1: "a1 = fst (SubscribeAll None None ch a p opts)" using assms(3) by simp
  have "mem_inv a1" unfolding a1 using assms(1,5) by (rule SubscribeAll_inv)
  moreover have "caught_up a1 ch p (appended_total calls + 0)"
    unfolding a1 using op assms(2,4) by (simp add: SubscribeAll_def Let_def caught_up_def)
  ultimately have "caught_up (run_appends a1 calls) ch p 0" by (rule caught_up_run)
  then show ?thesis by (auto simp: caught_up_def)
qed

theorem catch_up_complete_witness:
  "\<exists>s \<in> set (ma_subscribers (run_appends (fst (SubscribeAll None None 1 demo_adapter 1 []))
       [(demo_uuid, 9, ''Order-1'', [demo_event], 2)])).
     map se_GlobalPosition (sub_buf s) = [2, 3]"
proof -
  let ?a1 = "fst (SubscribeAll None None 1 demo_adapter 1 [])"
  let ?calls = "[(demo_uuid, 9, ''Order-1'', [demo_event], 2)]"
  have sub: "SubscribeAll None None 1 demo_adapter 1 [] = (?a1, Inr 1)"
    by (simp add: SubscribeAll_def demo_adapter_log Let_def)
  have inv1: "mem_inv ?a1" by (rule SubscribeAll_inv [OF demo_adapter_inv]) (simp add: demo_adapter_log)
  have g1: "ma_globalEvents ?a1 = ma_globalEvents demo_adapter" "\<not> ma_closed ?a1"
    by (simp_all add: SubscribeAll_def demo_adapter_log Let_def)
  have "checkAppendLocked ?a1 ''Order-1'' [demo_event] 2 = None"
    using g1(2) unfolding checkAppendLocked_log [OF inv1] g1(1)
    by (simp add: demo_adapter_log log_check_def CheckVersion_def stream_events_def)
  from Append_progress [OF inv1 this] g1(1)
  have "map se_GlobalPosition (filter (\<lambda>e. 1 < se_GlobalPosition e)
      (ma_globalEvents (run_appends ?a1 ?calls))) = [2, 3]"
    by (simp add: demo_adapter_log log_append_def new_events_def)
  then show ?thesis
    using catch_up_complete [OF demo_adapter_inv _ sub, of ?calls]
    by (force simp: demo_adapter_log appended_total_def getBufferSize_def simp del: run_appends.simps)
qed

section \<open>Redaction in place\<close>

lemma rewrite_first_nth:
  assumes "map se_Version es = map int [1..<Suc (length es)]" and "1 \<le> v" and "nat v \<le> length es"
  shows "rewrite_first (\<lambda>e. se_Version e = v) d md es =
           es[nat v - 1 := (es ! (nat v - 1))\<lparr>se_Data := d, se_Metadata := md\<rparr>]"
proof -
  have ver: "se_Version (es ! i) = int (Suc i)" if "i < length es" for i
  proof -
    have "map se_Version es ! i = map int [1..<Suc (length es)] ! i" using assms(1) by simp
    then show ?thesis using that by (simp del: upt_Suc)
  qed
  have gen: "\<forall>j < k. \<not> P (xs ! j) \<Longrightarrow> P (xs ! k) \<Longrightarrow> k < length xs \<Longrightarrow>
      rewrite_first P d md xs = xs[k := (xs ! k)\<lparr>se_Data := d, se_Metadata := md\<rparr>]"
    for P k and xs :: "stored_event list"
  proof (induction xs arbitrary: k)
    case (Cons x xs)
    show ?case
    proof (cases k)
      case (Suc k')
      have "\<not> P x" using Cons.prems(1) Suc by auto
      moreover have "\<forall>j < k'. \<not> P (xs ! j)" using Cons.prems(1) Suc by auto
      ultimately show ?thesis using Cons.IH [of k'] Cons.prems Suc by simp
    qed (use Cons.prems in simp)
  qed simp
  show ?thesis
    using assms(2,3) by (intro gen) (auto simp: ver)
qed

text \<open>RewriteEventData redacts exactly one event.  On an existing event it succeeds,
  and reading the stream back shows the new payload and metadata at that version and
  nothing else changed; identity, type, version, position and timestamp of every event of
  the log are kept, and the log and the stream map still agree.\<close>

theorem RewriteEventData_exact:
  assumes "mem_inv a" and "\<not> ma_closed a" and "sid \<noteq> []"
    and "Load None a sid 0 = Inr es" and "1 \<le> v" and "nat v \<le> length es"
  shows "\<exists>a'. RewriteEventData None a sid v d md = (a', None) \<and> mem_inv a' \<and>
     Load None a' sid 0 = Inr (es[nat v - 1 := (es ! (nat v - 1))\<lparr>se_Data := d, se_Metadata := md\<rparr>]) \<and>
     map (\<lambda>e. e\<lparr>se_Data := [], se_Metadata := empty_metadata\<rparr>) (ma_globalEvents a') =
       map (\<lambda>e. e\<lparr>se_Data := [], se_Metadata := empty_metadata\<rparr>) (ma_globalEvents a) \<and>
     (\<forall>sid' w. sid' \<noteq> sid \<longrightarrow> Load None a' sid' w = Load None a sid' w)"
proof -
  let ?g = "ma_globalEvents a"
  let ?P = "\<lambda>e. se_StreamID e = sid \<and> se_Version e = v"
  obtain a' r where run: "RewriteEventData None a sid v d md = (a', r)" by fastforce
  have es: "es = stream_events ?g sid" using Load_all [OF assms(1-3)] assms(4) by simp
  have vs: "map se_Version es = map int [1..<Suc (length es)]"
    using assms(1) by (simp add: es mem_inv_def log_ok_def del: upt_Suc)
  have "nat v \<in> set [1..<Suc (length es)]" "v = int (nat v)" using assms(5,6) by auto
  then have "v \<in> set (map se_Version es)" unfolding vs by (metis image_eqI list.set_map)
  then have ex: "\<exists>e \<in> set es. se_Version e = v" by auto
  have "stream_ok ?g sid (map_of (ma_streams a) sid)" using assms(1) by (simp add: mem_inv_def)
  with ex obtain sd where sd: "map_of (ma_streams a) sid = Some sd" "sd_events sd = es"
    by (cases "map_of (ma_streams a) sid") (auto simp: es)
  have res: "r = None" "ma_globalEvents a' = rewrite_first ?P d md ?g" "ma_closed a' = ma_closed a"
    using run sd ex assms(2) by (auto simp: RewriteEventData_def)
  have inv: "mem_inv a'" using RewriteEventData_inv [OF assms(1), of None sid v d md] run by simp
  have op: "\<not> ma_closed a'" using res assms(2) by simp
  have "Load None a' sid 0 = Inr (es[nat v - 1 := (es ! (nat v - 1))\<lparr>se_Data := d, se_Metadata := md\<rparr>])"
    using Load_all [OF inv op assms(3)] rewrite_first_nth [OF vs assms(5,6)]
    by (simp add: res stream_events_rewrite es)
  moreover have "Load None a' sid' w = Load None a sid' w" if "sid' \<noteq> sid" for sid' w
    using that Load_eq_stream [OF inv op, of sid' w] Load_eq_stream [OF assms(1,2), of sid' w] op assms(2)
    by (cases "sid' = []") (simp_all add: res(2) stream_events_rewrite, simp add: Load_def guarded_def)
  moreover have "map (\<lambda>e. e\<lparr>se_Data := [], se_Metadata := empty_metadata\<rparr>) (ma_globalEvents a') =
       map (\<lambda>e. e\<lparr>se_Data := [], se_Metadata := empty_metadata\<rparr>) ?g"
    unfolding res by (rule rewrite_first_map) simp
  ultimately show ?thesis using run res(1) inv by blast
qed

theorem RewriteEventData_exact_witness:
  "\<exists>a'. RewriteEventData None demo_adapter ''Order-1'' 2 ''x'' empty_metadata = (a', None) \<and>
     Load None a' ''Order-1'' 0 =
       Inr [mk_stored (demo_uuid 0) ''Order-1'' 7 1 1 demo_event,
            (mk_stored (demo_uuid 1) ''Order-1'' 7 2 2 demo_event)\<lparr>se_Data := ''x'',
               se_Metadata := empty_metadata\<rparr>]"
proof -
  have "Load None demo_adapter ''Order-1'' 0 = Inr (ma_globalEvents demo_adapter)"
    using Load_all [OF demo_adapter_inv demo_adapter_log(2), of "''Order-1''"]
    by (simp add: demo_adapter_log stream_events_def)
  from RewriteEventData_exact [OF demo_adapter_inv demo_adapter_log(2) _ this, of 2 "''x''" empty_metadata]
  show ?thesis by (auto simp: demo_adapter_log)
qed

end
