(* ===== verification/Store_Laws.thy ===== *)
theory Store_Laws
  imports Sealing Event_Store Event_Log
begin

text \<open>
  Correctness of the event store: what \<^verbatim>\<open>Append\<close> and \<^verbatim>\<open>SaveAggregate\<close> prepare is
  restored by \<^verbatim>\<open>Load\<close> and \<^verbatim>\<open>LoadAggregate\<close> across schema stamping, subject tagging
  and field encryption; aggregates are replayed exactly; a caller cannot forge reserved
  metadata.  The locale \<open>stream_adapter\<close> is the adapter contract the store relies on; it is
  interpreted on the in-memory adapter.
\<close>

section \<open>Metadata through the preparation\<close>

lemma GetSchemaVersion_custom:
  assumes "custom_get m schemaVersionKey = Some (itoa v)" and "in_int64 v" and "1 \<le> v"
  shows "GetSchemaVersion m = v"
  using assms by (auto simp: GetSchemaVersion_def custom_get_def custom_entries_def split: option.splits)

lemma hasSchemaVersion_custom: "hasSchemaVersion m \<longleftrightarrow> custom_get m schemaVersionKey \<noteq> None"
  by (simp add: hasSchemaVersion_def custom_get_def custom_entries_def split: option.splits)

lemma IsEncrypted_Sanitize [simp]: "\<not> IsEncrypted (SanitizeReservedMetadata m)"
  by (simp add: IsEncrypted_def SanitizeReservedMetadata_def)

lemma schemaVersionKey_distinct [simp]:
  "schemaVersionKey \<noteq> encryptedFieldsKey" "schemaVersionKey \<noteq> encryptionKeyIDKey"
  "schemaVersionKey \<noteq> encryptedDEKKey" "schemaVersionKey \<noteq> encryptionAlgorithmKey"
  "schemaVersionKey \<noteq> subjectTagsKey" "encryptedFieldsKey \<noteq> schemaVersionKey"
  "encryptedFieldsKey \<noteq> subjectTagsKey"
  by (simp_all add: schemaVersionKey_def metadata_keys)

lemma custom_get_setSubjectTags:
  "k \<noteq> subjectTagsKey \<Longrightarrow> custom_get (setSubjectTags cd m subs) k = custom_get m k"
  by (simp add: setSubjectTags_def Let_def)

lemma custom_get_tagPolicy:
  "k \<noteq> subjectTagsKey \<Longrightarrow> custom_get (applySubjectTagPolicy cd s ty d m) k = custom_get m k"
  by (simp add: applySubjectTagPolicy_def replaceSubjectTags_def Let_def custom_get_setSubjectTags
      split: option.splits)

lemma custom_get_schemaPolicy:
  "k \<noteq> schemaVersionKey \<Longrightarrow> custom_get (applySchemaVersionPolicy s ty m) k = custom_get m k"
  by (simp add: applySchemaVersionPolicy_def SetSchemaVersion_def Let_def split: option.splits)

definition prepared_metadata :: "codec \<Rightarrow> 'd event_store \<Rightarrow> event_record \<Rightarrow> metadata" where
  "prepared_metadata cd s ed =
     applySubjectTagPolicy cd s (er_Type ed) (er_Data ed)
       (applySchemaVersionPolicy s (er_Type ed) (SanitizeReservedMetadata (er_Metadata ed)))"

lemma prepared_not_encrypted: "\<not> IsEncrypted (prepared_metadata cd s ed)"
  using IsEncrypted_Sanitize [of "er_Metadata ed"]
  by (simp add: prepared_metadata_def IsEncrypted_def custom_get_tagPolicy custom_get_schemaPolicy)

lemma prepared_schema_version:
  assumes "es_upcasters s = Some c" and "\<not> es_callerSchemaVersion s"
    and "in_int64 (LatestVersion c (er_Type ed))" and "1 \<le> LatestVersion c (er_Type ed)"
    and "custom_get m schemaVersionKey = custom_get (prepared_metadata cd s ed) schemaVersionKey"
  shows "GetSchemaVersion m = LatestVersion c (er_Type ed)"
  using assms
  by (intro GetSchemaVersion_custom)
     (simp_all add: prepared_metadata_def custom_get_tagPolicy applySchemaVersionPolicy_def SetSchemaVersion_def)

lemma prepare_cases:
  assumes "prepareEventDataWith cd en s sid ed False = Inr ed'"
  obtains (plain) "er_Type ed' = er_Type ed" "er_Data ed' = er_Data ed"
      "er_Metadata ed' = prepared_metadata cd s ed"
  | (sealed) enc where "es_encryption s = Some enc" "er_Type ed' = er_Type ed"
      "encryptFields cd en enc sid (er_Type ed) (er_Data ed) (prepared_metadata cd s ed) =
         Inr (er_Data ed', er_Metadata ed')"
  using assms
  by (auto simp: prepareEventDataWith_def prepared_metadata_def Let_def
      split: option.splits if_splits sum.splits)

section \<open>Upcasting at the latest version does nothing\<close>

lemma upcast_loop_skip:
  "\<forall>u \<in> set us. up_FromVersion u < v \<Longrightarrow> upcast_loop ty md us v d = (Inr d, v)"
  by (induction us) auto

lemma LatestVersion_bound:
  assumes "chain_inv c" and "u \<in> set (upcasters_of c ty)"
  shows "up_FromVersion u < LatestVersion c ty"
proof -
  let ?us = "upcasters_of c ty"
  have ne: "?us \<noteq> []" using assms(2) by auto
  have ok: "ups_ok ty ?us" using assms(1) by (simp add: chain_inv_def)
  then have "up_FromVersion u \<le> up_FromVersion (last ?us)"
    using last_sorted_max [OF _ ne assms(2)] by (simp add: ups_ok_def)
  also have "\<dots> < up_ToVersion (last ?us)"
    using ok last_in_set [OF ne] by (auto simp: ups_ok_def)
  finally show ?thesis by (simp add: LatestVersion_last [OF assms(1) ne])
qed

lemma Upcast_latest:
  assumes "chain_inv c"
  shows "Upcast c ty (LatestVersion c ty) d md = (Inr d, LatestVersion c ty)"
  using LatestVersion_bound [OF assms] by (simp add: Upcast_def upcast_loop_skip)

lemma LatestVersion_pos: "chain_inv c \<Longrightarrow> 1 \<le> LatestVersion c ty"
proof (cases "upcasters_of c ty = []")
  case True
  moreover assume "chain_inv c"
  ultimately have "map_of (uc_latest c) ty = None" by (simp add: chain_inv_def)
  then show ?thesis by (simp add: LatestVersion_def)
next
  case False
  moreover assume "chain_inv c"
  ultimately show ?thesis
    using LatestVersion_bound [of c "last (upcasters_of c ty)" ty] last_in_set [OF False]
    by (auto simp: chain_inv_def ups_ok_def) (meson last_in_set less_imp_le order.trans)
qed

section \<open>A stored event is restored\<close>

text \<open>The assumptions under which a store loses nothing: faithful encodings, a serializer whose
  decoding inverts its encoding and reads the JSON value only, a well-formed upcaster chain, and
  an encryption configuration whose provider can unwrap its keys.\<close>

definition serializer_faithful :: "'d go_lib \<Rightarrow> 'd event_store \<Rightarrow> bool" where
  "serializer_faithful gl s \<longleftrightarrow>
     (\<forall>e data. Serialize (gl_json gl) (es_serializer s) e = Inr data \<longrightarrow>
        Deserialize (gl_json gl) (es_serializer s) data (GetEventType (gl_json gl) e) = Inr e) \<and>
     (es_encryption s \<noteq> None \<longrightarrow>
       (\<forall>b b' v ty. cd_Unmarshal (gl_codec gl) b = Some v \<and> cd_Unmarshal (gl_codec gl) b' = Some v \<longrightarrow>
          Deserialize (gl_json gl) (es_serializer s) b ty = Deserialize (gl_json gl) (es_serializer s) b' ty))"

definition chain_ok :: "'d event_store \<Rightarrow> bool" where
  "chain_ok s \<longleftrightarrow> \<not> es_callerSchemaVersion s \<and>
     (case es_upcasters s of None \<Rightarrow> True
      | Some c \<Rightarrow> chain_inv c \<and> (\<forall>ty. in_int64 (LatestVersion c ty)))"

definition encryption_ok :: "(string \<Rightarrow> bool) \<Rightarrow> 'd event_store \<Rightarrow> entropy \<Rightarrow> bool" where
  "encryption_ok txt s en \<longleftrightarrow>
     (\<forall>i. length (en_nonce en i) = NonceSize) \<and>
     (case es_encryption s of None \<Rightarrow> True
      | Some c \<Rightarrow>
          gm_wf (fe_fields c) \<and> c = fe_finalize c \<and> (\<forall>ty. \<forall>p \<in> set (sealPaths c ty). txt p) \<and>
          (\<forall>pr k dk. fe_provider c = Some pr \<and> po_GenerateDataKey pr (en_seed en) k = Inr dk \<longrightarrow>
             po_DecryptDataKey pr (dk_KeyID dk) (dk_Ciphertext dk) = Inr (dk_Plaintext dk)))"

definition holds_record :: "string \<Rightarrow> stored_event \<Rightarrow> event_record \<Rightarrow> bool" where
  "holds_record sid st r \<longleftrightarrow> se_StreamID st = sid \<and> se_Type st = er_Type r \<and>
     se_Data st = er_Data r \<and> se_Metadata st = er_Metadata r"

text \<open>Decryption of a prepared record gives back a payload the serializer reads alike.\<close>

lemma prepared_decrypts:
  assumes laws: "codec_laws txt num (gl_codec gl)" and enc: "encryption_ok txt s en"
    and prep: "prepareEventDataWith (gl_codec gl) en s sid ed False = Inr ed'"
  shows "\<exists>d. (if es_encryption s \<noteq> None \<and> IsEncrypted (er_Metadata ed')
              then decryptFields (gl_codec gl) (the (es_encryption s)) sid (er_Type ed')
                     (er_Data ed') (er_Metadata ed')
              else Inr (er_Data ed')) = Inr d \<and>
             (d = er_Data ed \<or> es_encryption s \<noteq> None \<and> (\<exists>v. cd_Unmarshal (gl_codec gl) d = Some v \<and>
                cd_Unmarshal (gl_codec gl) (er_Data ed) = Some v))"
  using prep
proof (cases rule: prepare_cases)
  case plain
  then show ?thesis using prepared_not_encrypted by auto
next
  case (sealed c)
  show ?thesis
  proof (cases "IsEncrypted (er_Metadata ed')")
    case False
    with encryptFields_metadata(2) [OF sealed(3)] show ?thesis by auto
  next
    case True
    from sealed(3) obtain pr where pr: "fe_provider c = Some pr"
      using True prepared_not_encrypted by (cases rule: encryptFields_cases) auto
    have "\<exists>d. decryptFields (gl_codec gl) c sid (er_Type ed) (er_Data ed') (er_Metadata ed') = Inr d \<and>
        cd_Unmarshal (gl_codec gl) d = cd_Unmarshal (gl_codec gl) (er_Data ed)"
      by (rule encryptFields_undo [OF laws _ _ _ _ pr _ prepared_not_encrypted sealed(3)])
         (use enc sealed(1) pr in \<open>auto simp: encryption_ok_def\<close>)
    with True sealed(1,2) sealed_payload_decodes [OF sealed(3) True prepared_not_encrypted]
    show ?thesis by auto
  qed
qed

lemma prepared_upcasts:
  assumes "chain_ok s" and prep: "prepareEventDataWith cd en s sid ed False = Inr ed'"
    and "es_upcasters s = Some c"
  shows "fst (Upcast c (er_Type ed') (GetSchemaVersion (er_Metadata ed')) d md) = Inr d"
proof -
  have c: "chain_inv c" "in_int64 (LatestVersion c (er_Type ed))" "\<not> es_callerSchemaVersion s"
    using assms(1,3) by (auto simp: chain_ok_def)
  have "custom_get (er_Metadata ed') schemaVersionKey = custom_get (prepared_metadata cd s ed) schemaVersionKey"
    using prep by (cases rule: prepare_cases) (auto dest: encryptFields_metadata(1) [of _ _ _ _ _ _ _ _ _ schemaVersionKey])
  from prepared_schema_version [OF assms(3) c(3,2) LatestVersion_pos [OF c(1)] this]
  have "GetSchemaVersion (er_Metadata ed') = LatestVersion c (er_Type ed)" .
  moreover have "er_Type ed' = er_Type ed" using prep by (cases rule: prepare_cases) auto
  ultimately show ?thesis by (simp add: Upcast_latest [OF c(1)])
qed

lemma deserialize_congr:
  assumes "serializer_faithful gl s"
    and "d = d0 \<or> es_encryption s \<noteq> None \<and>
      (\<exists>v. cd_Unmarshal (gl_codec gl) d = Some v \<and> cd_Unmarshal (gl_codec gl) d0 = Some v)"
  shows "Deserialize (gl_json gl) (es_serializer s) d ty = Deserialize (gl_json gl) (es_serializer s) d0 ty"
  using assms unfolding serializer_faithful_def by blast

lemma serialized_decodes:
  assumes "serializer_faithful gl s"
    and "SerializeEvent (gl_json gl) (es_serializer s) e md = Inr ed"
  shows "Deserialize (gl_json gl) (es_serializer s) (er_Data ed) (er_Type ed) = Inr e"
proof -
  from assms(2) have "Serialize (gl_json gl) (es_serializer s) e = Inr (er_Data ed)"
    and "er_Type ed = GetEventType (gl_json gl) e"
    by (auto simp: SerializeEvent_def Let_def split: if_splits sum.splits)
  with assms(1) show ?thesis unfolding serializer_faithful_def by metis
qed

lemma stored_event_restored:
  assumes laws: "codec_laws txt num (gl_codec gl)" and faith: "serializer_faithful gl s"
    and chain: "chain_ok s" and enc: "encryption_ok txt s en"
    and ser: "SerializeEvent (gl_json gl) (es_serializer s) e md = Inr ed"
    and prep: "prepareEventDataWith (gl_codec gl) en s sid ed False = Inr ed'"
    and st: "holds_record sid st ed'"
  shows "deserializeWithUpcast gl s st = Inr (EventFromStored st e)"
proof -
  have ty: "er_Type ed' = er_Type ed" using prep by (cases rule: prepare_cases) auto
  have restored: "Deserialize (gl_json gl) (es_serializer s) (er_Data ed) (er_Type ed) = Inr e"
    using serialized_decodes [OF faith ser] .
  obtain d where d: "(if es_encryption s \<noteq> None \<and> IsEncrypted (er_Metadata ed')
              then decryptFields (gl_codec gl) (the (es_encryption s)) sid (er_Type ed')
                     (er_Data ed') (er_Metadata ed')
              else Inr (er_Data ed')) = Inr d"
    and d': "d = er_Data ed \<or> es_encryption s \<noteq> None \<and> (\<exists>v. cd_Unmarshal (gl_codec gl) d = Some v \<and>
        cd_Unmarshal (gl_codec gl) (er_Data ed) = Some v)"
    using prepared_decrypts [OF laws enc prep] by blast
  have "Deserialize (gl_json gl) (es_serializer s) d (er_Type ed) = Inr e"
    using deserialize_congr [OF faith d'] restored by simp
  moreover have "fst (Upcast c (er_Type ed') (GetSchemaVersion (er_Metadata ed')) d (er_Metadata ed')) = Inr d"
    if "es_upcasters s = Some c" for c
    using prepared_upcasts [OF chain prep that] .
  ultimately show ?thesis
    using st d ty
    by (auto simp: deserializeWithUpcast_def DeserializeEvent_def holds_record_def Let_def
        split: option.splits if_splits)
qed

section \<open>Batches\<close>

lemma load_loop_append:
  "load_loop gl s (xs @ ys) =
     (case load_loop gl s xs of Inl e \<Rightarrow> Inl e
      | Inr es \<Rightarrow> (case load_loop gl s ys of Inl e \<Rightarrow> Inl e | Inr fs \<Rightarrow> Inr (es @ fs)))"
  by (induction xs) (auto split: sum.splits)

lemma load_loop_length: "load_loop gl s sts = Inr evs \<Longrightarrow> length evs = length sts"
  by (induction sts arbitrary: evs) (auto split: sum.splits)

lemma prepared_batch_restored:
  assumes laws: "codec_laws txt num (gl_codec gl)" and faith: "serializer_faithful gl s"
    and chain: "chain_ok s" and enc: "\<forall>i. encryption_ok txt s (ens i)"
    and "prepare_loop gl ens s sid md False what i events = Inr (records, subs)"
    and "list_all2 (holds_record sid) sts records"
  shows "\<exists>evs. load_loop gl s sts = Inr evs \<and> map ev_Data evs = events"
  using assms(5,6)
proof (induction events arbitrary: i records subs sts)
  case (Cons e events)
  from Cons.prems(1) obtain ed ed' rs subs' where
    ser: "SerializeEvent (gl_json gl) (es_serializer s) e md = Inr ed"
    and prep: "prepareEventDataWith (gl_codec gl) (ens i) s sid ed False = Inr ed'"
    and rest: "prepare_loop gl ens s sid md False what (Suc i) events = Inr (rs, subs')"
    and records: "records = ed' # rs"
    by (auto split: sum.splits)
  from Cons.prems(2) records obtain st sts' where sts: "sts = st # sts'"
    and st: "holds_record sid st ed'" and sts': "list_all2 (holds_record sid) sts' rs"
    by (cases sts) auto
  from stored_event_restored [OF laws faith chain enc [rule_format] ser prep st]
  have "deserializeWithUpcast gl s st = Inr (EventFromStored st e)" .
  moreover from Cons.IH [OF rest sts'] obtain evs where "load_loop gl s sts' = Inr evs" "map ev_Data evs = events"
    by blast
  ultimately show ?case by (simp add: sts EventFromStored_def)
qed simp

section \<open>Replay\<close>

lemma aggregate_stream_nonempty [simp]: "aggregate_stream agg \<noteq> []"
  by (simp add: aggregate_stream_def)

lemma deserialize_warned [simp]:
  "deserializeWithUpcast gl (s\<lparr>es_replayWarned := w\<rparr>) st = deserializeWithUpcast gl s st"
  by (simp add: deserializeWithUpcast_def Let_def cong: sum.case_cong if_cong)

lemma load_loop_warned [simp]: "load_loop gl (s\<lparr>es_replayWarned := w\<rparr>) sts = load_loop gl s sts"
  by (induction sts) (auto cong: sum.case_cong)

lemma replay_loop_ReplayEvents:
  assumes "load_loop gl s sts = Inr evs" and "\<not> es_strictReplay s"
  shows "\<exists>w. replay_loop gl applyEvent sid s agg sts =
     (s\<lparr>es_replayWarned := w\<rparr>, fst (ReplayEvents applyEvent agg (map ev_Data evs)),
      map_option (Wrap ''mink: failed to apply event'') (snd (ReplayEvents applyEvent agg (map ev_Data evs))))"
  using assms
proof (induction sts arbitrary: s agg evs)
  case Nil
  then show ?case by (auto intro!: exI [of _ "es_replayWarned s"])
next
  case (Cons st sts)
  from Cons.prems(1) obtain ev evs' where ev: "deserializeWithUpcast gl s st = Inr ev"
    and rest: "load_loop gl s sts = Inr evs'" and evs: "evs = ev # evs'"
    by (auto split: sum.splits)
  define s' where "s' = (if isUnresolvedReplayType gl s st (ev_Data ev)
      then warnUnresolvedReplayType s sid (se_Type st) (se_Version st) else s)"
  obtain w' where s': "s' = s\<lparr>es_replayWarned := w'\<rparr>"
    by (cases "isUnresolvedReplayType gl s st (ev_Data ev)")
       (auto simp: s'_def warnUnresolvedReplayType_def intro: that [of "es_replayWarned s"])
  obtain agg' r where app: "applyEvent agg (ev_Data ev) = (agg', r)" by (cases "applyEvent agg (ev_Data ev)")
  show ?case
  proof (cases r)
    case (Some err)
    with Cons.prems(2) ev app show ?thesis
      by (auto simp: evs s'_def [symmetric] s' Let_def intro!: exI [of _ w'])
  next
    case None
    have "load_loop gl s' sts = Inr evs'" "\<not> es_strictReplay s'"
      using rest Cons.prems(2) by (simp_all add: s')
    from Cons.IH [OF this, of agg'] None Cons.prems(2) ev app show ?thesis
      by (auto simp: evs s'_def [symmetric] s' Let_def)
  qed
qed

text \<open>Loading an aggregate is replaying its stream.  Outside strict mode
  \<^verbatim>\<open>LoadAggregate\<close> applies exactly the events \<^verbatim>\<open>Load\<close> returns for the aggregate's
  stream, in order, as \<^verbatim>\<open>ReplayEvents\<close> does; it sets the version to their number, or
  stops at the first event the aggregate refuses and reports it.\<close>

theorem LoadAggregate_replays:
  assumes "\<not> es_strictReplay s"
    and "Store_Load gl ops s a (aggregate_stream agg) = Inr evs"
  shows "\<exists>w. LoadAggregate gl applyEvent ops s a (Some agg) =
     (s\<lparr>es_replayWarned := w\<rparr>,
      case ReplayEvents applyEvent agg (map ev_Data evs) of
        (agg', None) \<Rightarrow> (Some (set_versions agg' (int (length evs))), None)
      | (agg', Some err) \<Rightarrow> (Some agg', Some (Wrap ''mink: failed to apply event'' err)))"
proof -
  obtain sts where ld: "ao_Load ops a (aggregate_stream agg) 0 = Inr sts" and ll: "load_loop gl s sts = Inr evs"
    using assms(2) by (auto simp: Store_Load_def LoadFrom_def split: sum.splits)
  have "length evs = length sts" using ll by (rule load_loop_length)
  with replay_loop_ReplayEvents [OF ll assms(1), of applyEvent "aggregate_stream agg" agg] ld
  show ?thesis
    by (auto simp: LoadAggregate_def Let_def split: prod.splits option.splits)
qed

section \<open>The adapter contract\<close>

locale stream_adapter =
  fixes ops :: "'a adapter_ops"
    and ok :: "'a \<Rightarrow> bool"
    and stream :: "'a \<Rightarrow> string \<Rightarrow> stored_event list"
  assumes load_stream: "ok a \<Longrightarrow> sid \<noteq> [] \<Longrightarrow> ao_Load ops a sid 0 = Inr (stream a sid)"
    and append_stored: "ok a \<Longrightarrow> ao_Append ops a sid rs v = (a', Inr sts) \<Longrightarrow>
      ok a' \<and> stream a' sid = stream a sid @ sts \<and> list_all2 (holds_record sid) sts rs"
    and append_refused: "ok a \<Longrightarrow> ao_Append ops a sid rs v = (a', Inl e) \<Longrightarrow> a' = a"
    and append_version: "ok a \<Longrightarrow> ao_Append ops a sid rs v = (a', Inr sts) \<Longrightarrow> 0 \<le> v \<Longrightarrow>
      v = int (length (stream a sid))"
begin

lemma load_after_append:
  assumes "ok a" and "sid \<noteq> []" and "ao_Append ops a sid rs v = (a', Inr sts)"
    and "load_loop gl s (stream a sid) = Inr old" and "load_loop gl s sts = Inr new"
  shows "Store_Load gl ops s a' sid = Inr (old @ new)"
  using append_stored [OF assms(1,3)] assms
  by (simp add: Store_Load_def LoadFrom_def load_stream load_loop_append)

lemma save_cases:
  assumes "SaveAggregate gl ens ops s a (Some ag) = (s', a', ag', idx, r)"
    and "ab_uncommittedEvents (ag_base ag) \<noteq> []"
  obtains (failed) e where "r = Some e" "ag' = Some ag" "idx = []"
      "a' = a \<or> (\<exists>rs e'. ao_Append ops a (aggregate_stream ag) rs (ab_version (ag_base ag)) = (a', Inl e'))"
  | (saved) rs subs sts where "r = None"
      "prepare_loop gl ens s' (aggregate_stream ag) empty_metadata False ''aggregate event'' 0
         (ab_uncommittedEvents (ag_base ag)) = Inr (rs, subs)"
      "ao_Append ops a (aggregate_stream ag) rs (ab_version (ag_base ag)) = (a', Inr sts)"
      "ag' = Some ((set_versions ag (ab_version (ag_base ag) + int (length (ab_uncommittedEvents (ag_base ag)))))
         \<lparr>ag_base := ClearUncommittedEvents (ag_base (set_versions ag (ab_version (ag_base ag) +
            int (length (ab_uncommittedEvents (ag_base ag))))))\<rparr>)"
proof (cases "es_serializerErr s")
  case (Some e)
  with assms show ?thesis by (intro failed [of e]) (simp_all add: SaveAggregate_def)
next
  case None
  with assms failed saved show ?thesis
    unfolding SaveAggregate_def Let_def
    by (auto split: prod.splits option.splits sum.splits if_splits)
qed

lemma prepare_loop_length:
  "prepare_loop gl ens s sid md tr what i es = Inr (rs, subs) \<Longrightarrow> length rs = length es"
  by (induction es arbitrary: i rs subs) (auto split: sum.splits)

text \<open>Of two aggregates at the same version only the first save succeeds.\<close>

lemma second_save_refused:
  assumes ok: "ok a"
    and same: "aggregate_stream ag2 = aggregate_stream ag1" "ab_version (ag_base ag2) = ab_version (ag_base ag1)"
    and v: "0 \<le> ab_version (ag_base ag1)"
    and ev: "ab_uncommittedEvents (ag_base ag1) \<noteq> []" "ab_uncommittedEvents (ag_base ag2) \<noteq> []"
    and save1: "SaveAggregate gl ens ops s a (Some ag1) = (s', a', Some ag1', idx, None)"
    and save2: "SaveAggregate gl ens' ops s2 a' (Some ag2) = (s2', a2, ag2', idx2, r)"
  shows "\<exists>e. r = Some e" and "ag2' = Some ag2" and "a2 = a'"
proof -
  from save1 ev(1) obtain rs subs sts where
    p: "prepare_loop gl ens s' (aggregate_stream ag1) empty_metadata False ''aggregate event'' 0
         (ab_uncommittedEvents (ag_base ag1)) = Inr (rs, subs)"
    and app: "ao_Append ops a (aggregate_stream ag1) rs (ab_version (ag_base ag1)) = (a', Inr sts)"
    by (cases rule: save_cases) auto
  have st: "ok a'" "stream a' (aggregate_stream ag1) = stream a (aggregate_stream ag1) @ sts"
    "list_all2 (holds_record (aggregate_stream ag1)) sts rs"
    using append_stored [OF ok app] by auto
  have "length rs \<noteq> 0" using prepare_loop_length [OF p] ev(1) by simp
  then have "length sts \<noteq> 0" using list_all2_lengthD [OF st(3)] by simp
  then have longer: "int (length (stream a' (aggregate_stream ag1))) \<noteq> ab_version (ag_base ag1)"
    using append_version [OF ok app v] st(2) by simp
  have "\<exists>e. r = Some e \<and> ag2' = Some ag2 \<and> a2 = a'"
    using save2 ev(2)
  proof (cases rule: save_cases)
    case (failed e)
    then show ?thesis using append_refused [OF st(1)] by blast
  next
    case (saved rs2 subs2 sts2)
    from append_version [OF st(1) saved(3)] v same longer show ?thesis by simp
  qed
  then show "\<exists>e. r = Some e" and "ag2' = Some ag2" and "a2 = a'" by auto
qed

end

section \<open>The in-memory adapter\<close>

definition mem_store_ops :: "(nat \<Rightarrow> string) \<Rightarrow> time \<Rightarrow> memory_adapter adapter_ops" where
  "mem_store_ops uuid now =
     \<lparr>ao_Append = \<lambda>a sid rs v. (let (a', drops, r) = Append None uuid now a sid rs v in (a', r)),
      ao_Load = Load None,
      ao_RewriteEventData = Some (RewriteEventData None)\<rparr>"

lemma holds_new_events: "list_all2 (holds_record sid) (new_events uuid sid now gp v rs) rs"
  by (simp add: list_all2_conv_all_nth new_events_def holds_record_def)

lemma checked_version:
  assumes "mem_inv a" and "checkAppendLocked a sid rs v = None" and "0 \<le> v"
  shows "v = int (length (stream_events (ma_globalEvents a) sid))"
  using assms
  by (auto simp: checkAppendLocked_log log_check_def CheckVersion_def NoStream_def AnyVersion_def
      StreamExists_def split: if_splits)

interpretation mem_streams: stream_adapter "mem_store_ops uuid now"
  "\<lambda>a. mem_inv a \<and> \<not> ma_closed a" "\<lambda>a sid. stream_events (ma_globalEvents a) sid"
  for uuid now
proof
  fix a and sid :: string assume "mem_inv a \<and> \<not> ma_closed a" "sid \<noteq> []"
  then show "ao_Load (mem_store_ops uuid now) a sid 0 = Inr (stream_events (ma_globalEvents a) sid)"
    by (simp add: mem_store_ops_def Load_all)
next
  fix a sid rs v a' sts
  assume ok: "mem_inv a \<and> \<not> ma_closed a" and app: "ao_Append (mem_store_ops uuid now) a sid rs v = (a', Inr sts)"
  then obtain drops where run: "Append None uuid now a sid rs v = (a', drops, Inr sts)"
    by (auto simp: mem_store_ops_def split: prod.splits)
  note log = Append_success_log [OF conjunct1 [OF ok] run]
  show "(mem_inv a' \<and> \<not> ma_closed a') \<and>
      stream_events (ma_globalEvents a') sid = stream_events (ma_globalEvents a) sid @ sts \<and>
      list_all2 (holds_record sid) sts rs"
    using log by (simp add: log_append_def holds_new_events)
  show "0 \<le> v \<Longrightarrow> v = int (length (stream_events (ma_globalEvents a) sid))"
    using checked_version ok log(3) by blast
next
  fix a sid rs v a' e
  assume "mem_inv a \<and> \<not> ma_closed a" and "ao_Append (mem_store_ops uuid now) a sid rs v = (a', Inl e)"
  then obtain drops where "mem_inv a" "Append None uuid now a sid rs v = (a', drops, Inl e)"
    by (auto simp: mem_store_ops_def split: prod.splits)
  then show "a' = a" by (cases rule: Append_cases) auto
qed

text \<open>C34: saving and loading are inverse.  After a successful \<^verbatim>\<open>SaveAggregate\<close> the
  stream loads as what it held before followed by exactly the events the aggregate had
  uncommitted, decrypted and at the current schema version; the aggregate has no uncommitted
  events left and carries the new stream version.\<close>

theorem aggregate_save_load:
  assumes laws: "codec_laws txt num (gl_codec gl)" and faith: "serializer_faithful gl s'"
    and chain: "chain_ok s'" and enc: "\<forall>i. encryption_ok txt s' (ens i)"
    and inv: "mem_inv a" "\<not> ma_closed a"
    and old: "Store_Load gl (mem_store_ops uuid now) s' a (aggregate_stream ag) = Inr old"
    and ev: "ab_uncommittedEvents (ag_base ag) \<noteq> []" and v: "0 \<le> ab_version (ag_base ag)"
    and save: "SaveAggregate gl ens (mem_store_ops uuid now) s a (Some ag) = (s', a', Some ag', idx, None)"
  shows "\<exists>new. Store_Load gl (mem_store_ops uuid now) s' a' (aggregate_stream ag) = Inr (old @ new) \<and>
           map ev_Data new = ab_uncommittedEvents (ag_base ag) \<and>
           ab_uncommittedEvents (ag_base ag') = [] \<and>
           (ag_versionSetter ag \<longrightarrow> ab_version (ag_base ag') = int (length (old @ new)))"
proof -
  let ?sid = "aggregate_stream ag" and ?ops = "mem_store_ops uuid now"
  from save ev obtain rs subs sts where
    prep: "prepare_loop gl ens s' ?sid empty_metadata False ''aggregate event'' 0
       (ab_uncommittedEvents (ag_base ag)) = Inr (rs, subs)"
    and app: "ao_Append ?ops a ?sid rs (ab_version (ag_base ag)) = (a', Inr sts)"
    and ag': "ag' = (set_versions ag (ab_version (ag_base ag) + int (length (ab_uncommittedEvents (ag_base ag)))))
         \<lparr>ag_base := ClearUncommittedEvents (ag_base (set_versions ag (ab_version (ag_base ag) +
            int (length (ab_uncommittedEvents (ag_base ag))))))\<rparr>"
    by (cases rule: mem_streams.save_cases) auto
  have ok: "mem_inv a \<and> \<not> ma_closed a" using inv by simp
  have held: "list_all2 (holds_record ?sid) sts rs"
    using mem_streams.append_stored [OF ok app] by simp
  obtain new where new: "load_loop gl s' sts = Inr new" "map ev_Data new = ab_uncommittedEvents (ag_base ag)"
    using prepared_batch_restored [OF laws faith chain enc prep held] by blast
  have ll: "load_loop gl s' (stream_events (ma_globalEvents a) ?sid) = Inr old"
    using old mem_streams.load_stream [OF ok, of ?sid] by (simp add: Store_Load_def LoadFrom_def)
  have "length old = length (stream_events (ma_globalEvents a) ?sid)"
    using ll by (rule load_loop_length)
  then have "ab_version (ag_base ag) = int (length old)"
    using mem_streams.append_version [OF ok app v] by simp
  moreover have "length new = length (ab_uncommittedEvents (ag_base ag))"
    using new(2) by (metis length_map)
  ultimately have "ag_versionSetter ag \<longrightarrow> ab_version (ag_base ag') = int (length (old @ new))"
    by (simp add: ag' set_versions_def ClearUncommittedEvents_def SetVersion_def setOriginalVersion_def Let_def)
  moreover have "ab_uncommittedEvents (ag_base ag') = []"
    by (simp add: ag' ClearUncommittedEvents_def)
  ultimately show ?thesis
    using mem_streams.load_after_append [OF ok _ app ll new(1)] new(2) by auto
qed

text \<open>No lost update between aggregates.  When two instances of an aggregate are at the same
  version and the first is saved, saving the second fails and changes neither the store nor the
  instance.\<close>

theorem aggregate_no_lost_update:
  assumes "mem_inv a" and "\<not> ma_closed a"
    and "aggregate_stream ag2 = aggregate_stream ag1"
    and "ab_version (ag_base ag2) = ab_version (ag_base ag1)" and "0 \<le> ab_version (ag_base ag1)"
    and "ab_uncommittedEvents (ag_base ag1) \<noteq> []" and "ab_uncommittedEvents (ag_base ag2) \<noteq> []"
    and "SaveAggregate gl ens (mem_store_ops uuid now) s a (Some ag1) = (s', a', Some ag1', idx, None)"
    and "SaveAggregate gl ens' (mem_store_ops uuid now) s2 a' (Some ag2) = (s2', a2, ag2', idx2, r)"
  shows "(\<exists>e. r = Some e) \<and> ag2' = Some ag2 \<and> a2 = a'"
  by (intro conjI mem_streams.second_save_refused [OF conjI [OF assms(1,2)] assms(3-9)])

section \<open>Examples\<close>

text \<open>A store of strings with an identity serializer, and a store of JSON values with two
  overlapping encrypted fields.\<close>

definition text_lib :: "string go_lib" where
  "text_lib =
     \<lparr>gl_json = \<lparr>jl_Marshal = Inr, jl_UnmarshalInto = \<lambda>t. Inr, jl_UnmarshalMap = Inr,
        jl_TypeOf = \<lambda>_. Some (GoNamed ''app'' ''Placed''), jl_IsMap = \<lambda>_. False\<rparr>,
      gl_codec = demo_codec\<rparr>"

definition text_store :: "string event_store" where
  "text_store = New False [WithSerializer (CustomSerializer
     \<lparr>sr_Serialize = Inr, sr_Deserialize = \<lambda>b ty. Inr b\<rparr> None False)]"

definition log_aggregate :: "string list \<Rightarrow> (string, string list) aggregate" where
  "log_aggregate es = \<lparr>ag_base = (NewAggregateBase ''1'' ''Order'')\<lparr>ab_uncommittedEvents := es\<rparr>,
     ag_state = [], ag_versionSetter = True, ag_originalVersionSetter = True\<rparr>"

definition log_apply ::
  "(string, string list) aggregate \<Rightarrow> string \<Rightarrow> (string, string list) aggregate \<times> error option" where
  "log_apply agg e = (agg\<lparr>ag_state := ag_state agg @ [e]\<rparr>, None)"

lemmas text_defs = text_lib_def text_store_def New_def WithSerializer_def checkSerializerAdapterCompatible_def

lemma log_aggregate_stream [simp]: "aggregate_stream (log_aggregate es) = ''Order-1''"
  by (simp add: aggregate_stream_def log_aggregate_def NewAggregateBase_def)

lemma text_store_load:
  "\<exists>evs. Store_Load text_lib (mem_store_ops demo_uuid 7) text_store demo_adapter ''Order-1'' = Inr evs \<and>
     map ev_Data evs = [''d'', ''d'']"
  using Load_all [OF demo_adapter_inv demo_adapter_log(2), of "''Order-1''"]
  by (simp add: Store_Load_def LoadFrom_def mem_store_ops_def demo_adapter_log stream_events_def
      deserializeWithUpcast_def DeserializeEvent_def text_defs EventFromStored_def demo_event_def)

theorem LoadAggregate_replays_witness:
  "\<exists>s' agg. LoadAggregate text_lib log_apply (mem_store_ops demo_uuid 7) text_store demo_adapter
       (Some (log_aggregate [])) = (s', Some agg, None) \<and>
     ag_state agg = [''d'', ''d''] \<and> ab_version (ag_base agg) = 2"
proof -
  obtain evs where evs: "Store_Load text_lib (mem_store_ops demo_uuid 7) text_store demo_adapter
      (aggregate_stream (log_aggregate [])) = Inr evs" "map ev_Data evs = [''d'', ''d'']"
    using text_store_load by auto
  have len: "length evs = 2" using arg_cong [OF evs(2), of length] by simp
  have "\<not> es_strictReplay text_store" by (simp add: text_defs)
  from LoadAggregate_replays [OF this evs(1), of log_apply] show ?thesis
    by (auto simp: evs(2) len log_apply_def log_aggregate_def set_versions_def SetVersion_def
        setOriginalVersion_def NewAggregateBase_def)
qed

lemma append_to_empty:
  assumes "sid \<noteq> []" and "rs \<noteq> []"
  shows "\<exists>a' sts. ao_Append (mem_store_ops uuid now) NewAdapter sid rs 0 = (a', Inr sts)"
  using assms
  by (simp add: mem_store_ops_def Append_def appendLocked_def checkAppendLocked_def NewAdapter_def
      CheckVersion_def append_loop_eq notifySubscribers_def Let_def split: prod.splits)

lemma text_save:
  assumes "es \<noteq> []"
  shows "\<exists>s' a' ag' idx. SaveAggregate text_lib (\<lambda>_. demo_entropy) (mem_store_ops demo_uuid 7) text_store
    NewAdapter (Some (log_aggregate es)) = (s', a', Some ag', idx, None)"
proof -
  have one: "prepare_loop text_lib (\<lambda>_. demo_entropy) text_store sid empty_metadata False what i es =
      Inr (map (\<lambda>e. \<lparr>er_Type = ''Placed'', er_Data = e, er_Metadata = empty_metadata\<rparr>) es, [])" for sid what i
    by (induction es arbitrary: i)
       (simp_all add: text_defs SerializeEvent_def GetEventType_def prepareEventDataWith_def
          SanitizeReservedMetadata_def withoutCustomKeys_def custom_entries_def empty_metadata_def
          applySchemaVersionPolicy_def hasSchemaVersion_def applySubjectTagPolicy_def collectSubjects_def)
  obtain a' sts where "ao_Append (mem_store_ops demo_uuid 7) NewAdapter ''Order-1''
      (map (\<lambda>e. \<lparr>er_Type = ''Placed'', er_Data = e, er_Metadata = empty_metadata\<rparr>) es) 0 = (a', Inr sts)"
    using append_to_empty [of "''Order-1''"] assms by fastforce
  moreover have "ab_version (ag_base (log_aggregate es)) = 0"
    "ab_uncommittedEvents (ag_base (log_aggregate es)) = es"
    by (simp_all add: log_aggregate_def NewAggregateBase_def)
  moreover have "es_serializerErr text_store = None" "autoRegisterEvents jl text_store es = (text_store, None)" for jl
    by (simp_all add: text_defs autoRegisterEvents_def)
  ultimately show ?thesis using assms one by (simp add: SaveAggregate_def Let_def)
qed

theorem aggregate_no_lost_update_witness:
  "\<exists>s' a' ag' idx s2 a2 idx2 e.
     SaveAggregate text_lib (\<lambda>_. demo_entropy) (mem_store_ops demo_uuid 7) text_store NewAdapter
       (Some (log_aggregate [''x''])) = (s', a', Some ag', idx, None) \<and>
     SaveAggregate text_lib (\<lambda>_. demo_entropy) (mem_store_ops demo_uuid 7) text_store a'
       (Some (log_aggregate [''y''])) = (s2, a2, Some (log_aggregate [''y'']), idx2, Some e) \<and> a2 = a'"
proof -
  obtain s' a' ag' idx where one: "SaveAggregate text_lib (\<lambda>_. demo_entropy) (mem_store_ops demo_uuid 7)
      text_store NewAdapter (Some (log_aggregate [''x''])) = (s', a', Some ag', idx, None)"
    using text_save [of "[''x'']"] by auto
  obtain s2 a2 ag2 idx2 r where two: "SaveAggregate text_lib (\<lambda>_. demo_entropy) (mem_store_ops demo_uuid 7)
      text_store a' (Some (log_aggregate [''y''])) = (s2, a2, ag2, idx2, r)"
    by (metis prod_cases5)
  have "(\<exists>e. r = Some e) \<and> ag2 = Some (log_aggregate [''y'']) \<and> a2 = a'"
    by (rule aggregate_no_lost_update [OF NewAdapter_inv _ _ _ _ _ _ one two])
       (simp_all add: NewAdapter_def log_aggregate_def NewAggregateBase_def aggregate_stream_def)
  with one two show ?thesis by blast
qed

definition demo_json :: "json json_lib" where
  "demo_json =
     \<lparr>jl_Marshal = \<lambda>v. (if json_valid (\<lambda>_. True) (\<lambda>_. True) v then Inr (cd_Marshal demo_codec v)
         else Inl (Errorf ''json: unsupported value'')),
      jl_UnmarshalInto = \<lambda>t b. (case cd_Unmarshal demo_codec b of Some v \<Rightarrow> Inr v
         | None \<Rightarrow> Inl (Errorf ''json: invalid input'')),
      jl_UnmarshalMap = \<lambda>b. (case cd_Unmarshal demo_codec b of Some v \<Rightarrow> Inr v
         | None \<Rightarrow> Inl (Errorf ''json: invalid input'')),
      jl_TypeOf = \<lambda>_. Some (GoNamed ''app'' ''T''), jl_IsMap = \<lambda>_. False\<rparr>"

definition demo_gl :: "json go_lib" where
  "demo_gl = \<lparr>gl_json = demo_json, gl_codec = demo_codec\<rparr>"

definition demo_es :: "json event_store" where
  "demo_es = New False [WithFieldEncryption demo_config]"

definition demo_value :: json where
  "demo_value = JObject [(''a'', JObject [(''b'', JNumber ''1'')])]"

definition demo_ag :: "(json, unit) aggregate" where
  "demo_ag = \<lparr>ag_base = (NewAggregateBase ''1'' ''Order'')\<lparr>ab_uncommittedEvents := [demo_value]\<rparr>,
     ag_state = (), ag_versionSetter = True, ag_originalVersionSetter = True\<rparr>"

lemma demo_ag_stream [simp]: "aggregate_stream demo_ag = ''Order-1''"
  by (simp add: aggregate_stream_def demo_ag_def NewAggregateBase_def)

lemma demo_es_sel [simp]:
  "es_encryption demo_es = Some demo_config" "es_serializer demo_es = JSONSerializer NewEventRegistry"
  "es_upcasters demo_es = None" "es_subjectTagger demo_es = None" "es_maxEventSize demo_es = 0"
  "es_serializerErr demo_es = None" "\<not> es_autoRegister demo_es" "\<not> es_callerSchemaVersion demo_es"
  "\<not> es_subjectIndex demo_es" "\<not> es_callerSubjectTags demo_es"
  by (simp_all add: demo_es_def New_def WithFieldEncryption_def checkSerializerAdapterCompatible_def)

lemma demo_faithful: "serializer_faithful demo_gl demo_es"
  unfolding serializer_faithful_def
proof (intro conjI allI impI, goal_cases)
  case (1 e data)
  then have v: "json_valid (\<lambda>_. True) (\<lambda>_. True) e" and d: "data = cd_Marshal demo_codec e"
    by (auto simp: demo_gl_def demo_json_def JSON_Serialize_def split: if_splits)
  have "data \<noteq> []" by (simp add: d demo_codec_def)
  with codec_lawsD(2) [OF demo_codec_laws v] show ?case
    by (simp add: demo_gl_def demo_json_def JSON_Deserialize_def Registry_Lookup_def NewEventRegistry_def
        GetEventType_def d [symmetric])
next
  case (2 b b' v ty)
  then have "b \<noteq> []" "b' \<noteq> []" by (auto simp: demo_gl_def demo_codec_def)
  with 2 show ?case
    by (simp add: demo_gl_def demo_json_def JSON_Deserialize_def Registry_Lookup_def NewEventRegistry_def)
qed

lemma demo_encryption_ok: "encryption_ok (\<lambda>_. True) demo_es demo_entropy"
  using demo_config_finalized demo_fields_wf
  by (simp add: encryption_ok_def demo_entropy_def demo_config_simps demo_pops_def)

lemma demo_save:
  "\<exists>a' ag' idx. SaveAggregate demo_gl (\<lambda>_. demo_entropy) (mem_store_ops demo_uuid 7) demo_es
    NewAdapter (Some demo_ag) = (demo_es, a', Some ag', idx, None)"
proof -
  obtain d m where enc: "encryptFields demo_codec demo_entropy demo_config ''Order-1'' ''T''
     demo_payload empty_metadata = Inr (d, m)"
    using demo_encrypt by blast
  have "HasEncryptedFields demo_config ''T''"
    by (simp add: HasEncryptedFields_def fields_of_def demo_config_def NewFieldEncryptionConfig_def
        fe_finalize_def WithEncryptedFields_def)
  moreover have "SanitizeReservedMetadata empty_metadata = empty_metadata"
    "\<not> hasSchemaVersion empty_metadata"
    by (simp_all add: SanitizeReservedMetadata_def withoutCustomKeys_def custom_entries_def empty_metadata_def
        hasSchemaVersion_def)
  moreover have "SerializeEvent demo_json (JSONSerializer NewEventRegistry) demo_value empty_metadata =
      Inr \<lparr>er_Type = ''T'', er_Data = demo_payload, er_Metadata = empty_metadata\<rparr>"
    by (simp add: SerializeEvent_def GetEventType_def JSON_Serialize_def demo_json_def demo_value_def
        demo_payload_def)
  ultimately have "prepare_loop demo_gl (\<lambda>_. demo_entropy) demo_es ''Order-1'' empty_metadata False
      ''aggregate event'' 0 [demo_value] = Inr ([\<lparr>er_Type = ''T'', er_Data = d, er_Metadata = m\<rparr>], [])"
    using enc by (simp add: demo_gl_def prepareEventDataWith_def applySchemaVersionPolicy_def
        applySubjectTagPolicy_def collectSubjects_def)
  moreover obtain a' sts where "ao_Append (mem_store_ops demo_uuid 7) NewAdapter ''Order-1''
      [\<lparr>er_Type = ''T'', er_Data = d, er_Metadata = m\<rparr>] 0 = (a', Inr sts)"
    using append_to_empty [of "''Order-1''"] by fastforce
  moreover have "ab_version (ag_base demo_ag) = 0" "ab_uncommittedEvents (ag_base demo_ag) = [demo_value]"
    by (simp_all add: demo_ag_def NewAggregateBase_def)
  ultimately show ?thesis by (simp add: SaveAggregate_def autoRegisterEvents_def Let_def)
qed

theorem aggregate_save_load_witness:
  "\<exists>a' ag' idx new. SaveAggregate demo_gl (\<lambda>_. demo_entropy) (mem_store_ops demo_uuid 7) demo_es
       NewAdapter (Some demo_ag) = (demo_es, a', Some ag', idx, None) \<and>
     Store_Load demo_gl (mem_store_ops demo_uuid 7) demo_es a' ''Order-1'' = Inr new \<and>
     map ev_Data new = [demo_value] \<and> ab_version (ag_base ag') = 1"
proof -
  obtain a' ag' idx where save: "SaveAggregate demo_gl (\<lambda>_. demo_entropy) (mem_store_ops demo_uuid 7) demo_es
       NewAdapter (Some demo_ag) = (demo_es, a', Some ag', idx, None)"
    using demo_save by blast
  have "Store_Load demo_gl (mem_store_ops demo_uuid 7) demo_es NewAdapter (aggregate_stream demo_ag) = Inr []"
    by (simp add: Store_Load_def LoadFrom_def mem_store_ops_def Load_def guarded_def NewAdapter_def)
  from aggregate_save_load [OF _ demo_faithful _ _ NewAdapter_inv _ this _ _ save, of "\<lambda>_. True" "\<lambda>_. True"]
  have "\<exists>new. Store_Load demo_gl (mem_store_ops demo_uuid 7) demo_es a' (aggregate_stream demo_ag) = Inr ([] @ new) \<and>
      map ev_Data new = ab_uncommittedEvents (ag_base demo_ag) \<and> ab_uncommittedEvents (ag_base ag') = [] \<and>
      (ag_versionSetter demo_ag \<longrightarrow> ab_version (ag_base ag') = int (length ([] @ new)))"
    using demo_codec_laws demo_encryption_ok
    by (simp add: demo_gl_def chain_ok_def NewAdapter_def demo_ag_def NewAggregateBase_def)
  then obtain new where new: "Store_Load demo_gl (mem_store_ops demo_uuid 7) demo_es a' ''Order-1'' = Inr new"
    "map ev_Data new = [demo_value]" "ab_version (ag_base ag') = int (length new)"
    by (auto simp: demo_ag_def NewAggregateBase_def aggregate_stream_def)
  moreover have "length new = 1" using arg_cong [OF new(2), of length] by simp
  ultimately show ?thesis using save by auto
qed

section \<open>Reserved metadata\<close>

definition reserved_keys :: "string list" where
  "reserved_keys = [encryptedFieldsKey, encryptionKeyIDKey, encryptedDEKKey, encryptionAlgorithmKey,
     schemaVersionKey, subjectTagsKey]"

definition same_ids :: "metadata \<Rightarrow> metadata \<Rightarrow> bool" where
  "same_ids m m' \<longleftrightarrow> md_CorrelationID m = md_CorrelationID m' \<and> md_CausationID m = md_CausationID m' \<and>
     md_UserID m = md_UserID m' \<and> md_TenantID m = md_TenantID m'"

text \<open>Metadata that agree as seen by a reader, and that agree outside the reserved keys.\<close>

definition md_equiv :: "metadata \<Rightarrow> metadata \<Rightarrow> bool" where
  "md_equiv m m' \<longleftrightarrow> same_ids m m' \<and> (\<forall>k. custom_get m k = custom_get m' k)"

definition same_core :: "metadata \<Rightarrow> metadata \<Rightarrow> bool" where
  "same_core m m' \<longleftrightarrow> same_ids m m' \<and> (\<forall>k. k \<notin> set reserved_keys \<longrightarrow> custom_get m k = custom_get m' k)"

lemma same_ids_without [simp]:
  "same_ids (withoutCustomKeys m ks) m' = same_ids m m'" "same_ids m (withoutCustomKeys m' ks) = same_ids m m'"
  "same_ids (WithCustom m k v) m' = same_ids m m'" "same_ids m (WithCustom m' k v) = same_ids m m'"
  by (auto simp: same_ids_def withoutCustomKeys_def WithCustom_def Let_def)

lemma md_equiv_WithCustom: "md_equiv m m' \<Longrightarrow> md_equiv (WithCustom m k v) (WithCustom m' k v)"
  by (simp add: md_equiv_def)

lemma md_equiv_tags: "md_equiv m m' \<Longrightarrow> GetSubjectTags cd m = GetSubjectTags cd m'"
  by (simp add: md_equiv_def GetSubjectTags_def)

lemma selectKeyID_equiv:
  assumes "md_equiv m m'" shows "selectKeyID cd c ty m = selectKeyID cd c ty m'"
proof -
  have tenant: "md_TenantID m = md_TenantID m'" using assms by (simp add: md_equiv_def same_ids_def)
  then have subject: "primary_subject cd m = primary_subject cd m'"
    by (simp add: primary_subject_def md_equiv_tags [OF assms])
  then have key: "resolveKeyID cd c m = resolveKeyID cd c m'"
    unfolding resolveKeyID_def by (simp only:)
  show ?thesis unfolding selectKeyID_def by (simp only: tenant subject key)
qed

lemma encryptFields_equiv:
  assumes "md_equiv m m'"
  shows "case encryptFields cd en c sid ty d m of
       Inl e \<Rightarrow> encryptFields cd en c sid ty d m' = Inl e
     | Inr (d1, m1) \<Rightarrow> \<exists>m1'. encryptFields cd en c sid ty d m' = Inr (d1, m1') \<and> md_equiv m1 m1'"
  unfolding encryptFields_def Let_def selectKeyID_equiv [OF assms]
  using assms by (auto split: option.splits sum.splits simp: md_equiv_WithCustom)

lemma setSubjectTags_equiv:
  assumes "md_equiv m m'" shows "md_equiv (setSubjectTags cd m subs) (setSubjectTags cd m' subs)"
  using assms md_equiv_tags [OF assms, of cd] by (simp add: setSubjectTags_def Let_def md_equiv_WithCustom)

lemma schemaPolicy_core:
  assumes "\<not> es_callerSchemaVersion s" and "same_core m m'"
  shows "same_core (applySchemaVersionPolicy s ty (SanitizeReservedMetadata m))
           (applySchemaVersionPolicy s ty (SanitizeReservedMetadata m'))"
    and "k \<noteq> subjectTagsKey \<Longrightarrow> custom_get (applySchemaVersionPolicy s ty (SanitizeReservedMetadata m)) k =
           custom_get (applySchemaVersionPolicy s ty (SanitizeReservedMetadata m')) k"
  using assms
  by (auto simp: same_core_def applySchemaVersionPolicy_def SetSchemaVersion_def SanitizeReservedMetadata_def
      reserved_keys_def hasSchemaVersion_custom Let_def split: option.splits)

lemma prepared_metadata_equiv:
  assumes "es_subjectTagger s = Some tagger" and "\<not> es_callerSubjectTags s" and "\<not> es_callerSchemaVersion s"
    and tag: "\<forall>ty d m m'. same_core m m' \<longrightarrow> tagger ty d m = tagger ty d m'"
    and core: "same_core m m'"
  shows "md_equiv (prepared_metadata cd s (ed\<lparr>er_Metadata := m\<rparr>)) (prepared_metadata cd s (ed\<lparr>er_Metadata := m'\<rparr>))"
proof -
  let ?p = "\<lambda>m. applySchemaVersionPolicy s (er_Type ed) (SanitizeReservedMetadata m)"
  have "md_equiv (withoutCustomKeys (?p m) [subjectTagsKey]) (withoutCustomKeys (?p m') [subjectTagsKey])"
    using schemaPolicy_core [OF assms(3) core] by (auto simp: md_equiv_def same_core_def)
  moreover have "tagger (er_Type ed) (er_Data ed) (?p m) = tagger (er_Type ed) (er_Data ed) (?p m')"
    using tag schemaPolicy_core(1) [OF assms(3) core] by blast
  ultimately show ?thesis
    using assms(1,2)
    by (simp add: prepared_metadata_def applySubjectTagPolicy_def replaceSubjectTags_def Let_def
        setSubjectTags_equiv)
qed

lemma prepareEventData_eq:
  "prepareEventData cd en s sid ed =
     (case (case es_encryption s of
              None \<Rightarrow> Inr (er_Data ed, prepared_metadata cd s ed)
            | Some enc \<Rightarrow>
                if HasEncryptedFields enc (er_Type ed)
                then encryptFields cd en enc sid (er_Type ed) (er_Data ed) (prepared_metadata cd s ed)
                else Inr (er_Data ed, prepared_metadata cd s ed)) of
        Inl err \<Rightarrow> Inl err
      | Inr (data, m) \<Rightarrow>
          if es_maxEventSize s > 0 \<and> int (length data) > es_maxEventSize s
          then Inl (Wrap ''event too large'' ErrEventTooLarge)
          else Inr (ed\<lparr>er_Data := data, er_Metadata := m\<rparr>))"
  unfolding prepareEventData_def prepareEventDataWith_def prepared_metadata_def Let_def by simp

text \<open>C35: reserved metadata cannot be forged.  With a subject tagger configured (one that does
  not itself read reserved keys) and without the two opt-in options, whatever a caller puts
  under the encryption envelope keys, the schema version key and the subject key of the metadata
  has no effect on what is stored: preparation gives the same error, or the same data and the
  same metadata, as without it.\<close>

theorem reserved_metadata_unforgeable:
  assumes "es_subjectTagger s = Some tagger" and "\<not> es_callerSubjectTags s" and "\<not> es_callerSchemaVersion s"
    and "\<forall>ty d m m'. same_core m m' \<longrightarrow> tagger ty d m = tagger ty d m'"
    and "same_core m m'"
  shows "case prepareEventData cd en s sid (ed\<lparr>er_Metadata := m\<rparr>) of
       Inl e \<Rightarrow> prepareEventData cd en s sid (ed\<lparr>er_Metadata := m'\<rparr>) = Inl e
     | Inr r \<Rightarrow> \<exists>r'. prepareEventData cd en s sid (ed\<lparr>er_Metadata := m'\<rparr>) = Inr r' \<and>
         er_Type r' = er_Type r \<and> er_Data r' = er_Data r \<and> md_equiv (er_Metadata r) (er_Metadata r')"
proof -
  note eq = prepared_metadata_equiv [OF assms, of cd ed]
  show ?thesis
  proof (cases "\<exists>enc. es_encryption s = Some enc \<and> HasEncryptedFields enc (er_Type ed)")
    case False
    with eq show ?thesis by (auto simp: prepareEventData_eq split: option.splits)
  next
    case True
    then obtain enc where enc: "es_encryption s = Some enc" "HasEncryptedFields enc (er_Type ed)" by blast
    from encryptFields_equiv [OF eq, of cd en enc sid "er_Type ed" "er_Data ed"] enc
    show ?thesis by (auto simp: prepareEventData_eq split: sum.splits)
  qed
qed

theorem reserved_metadata_unforgeable_witness:
  "case prepareEventData demo_codec demo_entropy (demo_es\<lparr>es_subjectTagger := Some (\<lambda>ty d m. [md_UserID m])\<rparr>) ''Order-1''
       \<lparr>er_Type = ''T'', er_Data = demo_payload, er_Metadata = WithCustom empty_metadata subjectTagsKey ''forged''\<rparr> of
     Inl e \<Rightarrow> prepareEventData demo_codec demo_entropy (demo_es\<lparr>es_subjectTagger := Some (\<lambda>ty d m. [md_UserID m])\<rparr>) ''Order-1''
       \<lparr>er_Type = ''T'', er_Data = demo_payload, er_Metadata = empty_metadata\<rparr> = Inl e
   | Inr r \<Rightarrow> \<exists>r'. prepareEventData demo_codec demo_entropy (demo_es\<lparr>es_subjectTagger := Some (\<lambda>ty d m. [md_UserID m])\<rparr>) ''Order-1''
       \<lparr>er_Type = ''T'', er_Data = demo_payload, er_Metadata = empty_metadata\<rparr> = Inr r' \<and>
       er_Type r' = er_Type r \<and> er_Data r' = er_Data r \<and> md_equiv (er_Metadata r) (er_Metadata r')"
proof -
  let ?s = "demo_es\<lparr>es_subjectTagger := Some (\<lambda>ty d m. [md_UserID m])\<rparr>"
  have core: "same_core (WithCustom empty_metadata subjectTagsKey ''forged'') empty_metadata"
    by (simp add: same_core_def reserved_keys_def) (simp add: same_ids_def)
  have h: "es_subjectTagger ?s = Some (\<lambda>ty d m. [md_UserID m])" "\<not> es_callerSubjectTags ?s"
    "\<not> es_callerSchemaVersion ?s"
    by (simp_all add: demo_es_def New_def WithFieldEncryption_def)
  have "\<forall>ty d m m'. same_core m m' \<longrightarrow> [md_UserID m] = [md_UserID m']"
    by (simp add: same_core_def same_ids_def)
  from reserved_metadata_unforgeable [OF h this core, of demo_codec demo_entropy
      "''Order-1''" "\<lparr>er_Type = ''T'', er_Data = demo_payload, er_Metadata = empty_metadata\<rparr>"]
  show ?thesis by (simp only: event_record.simps)
qed

end
