(* ===== verification/Command_Bus.thy ===== *)
theory Command_Bus
  imports Idempotency Store_Laws
begin

text \<open>
  The command side: the bus and its middleware pipeline (\<^verbatim>\<open>bus.go\<close>), the handler registry and
  the handlers (\<^verbatim>\<open>handler.go\<close>), the stock middleware (\<^verbatim>\<open>middleware.go\<close>) and the
  validation errors of \<^verbatim>\<open>command.go\<close>.

  \<open>'w\<close> is the world the handlers act on and \<open>'c\<close> the application's commands, whose methods
  are the fields of \<open>command_ops\<close> (\<open>None\<close> for a method the command does not have).  A
  context carries the values the middleware puts into it and \<^verbatim>\<open>ctx.Err()\<close> as a function of the
  world.  A call that panics is one whose error is \<open>GoPanic\<close>.
\<close>

section \<open>Commands, contexts and middleware\<close>

record 'c command_ops =
  co_CommandType :: "'c \<Rightarrow> string"
  co_Validate :: "'c \<Rightarrow> error option"
  co_AggregateID :: "'c \<Rightarrow> string option"
  co_CorrelationID :: "'c \<Rightarrow> string option"
  co_CausationID :: "'c \<Rightarrow> string option"
  co_CommandID :: "'c \<Rightarrow> string option"
  co_MetadataMap :: "'c \<Rightarrow> (string, string) gomap option"

record 'w go_context =
  cx_Err :: "'w \<Rightarrow> error option"
  cx_correlationID :: string
  cx_causationID :: string
  cx_tenantID :: string
  cx_actor :: string

type_synonym ('w, 'c) middleware_func = "'w go_context \<Rightarrow> 'w \<Rightarrow> 'c \<Rightarrow> 'w \<times> command_result \<times> error option"
type_synonym ('w, 'c) middleware = "('w, 'c) middleware_func \<Rightarrow> ('w, 'c) middleware_func"

definition fails :: "'w \<Rightarrow> error \<Rightarrow> 'w \<times> command_result \<times> error option" where
  "fails w e = (w, NewErrorResult (Some e), Some e)"

section \<open>Handlers\<close>

record ('w, 'c) command_handler =
  ch_CommandType :: string
  ch_Handle :: "('w, 'c) middleware_func"

type_synonym ('w, 'c) handler_registry = "(string, ('w, 'c) command_handler) gomap"

definition NewCommandHandlerFunc :: "string \<Rightarrow> ('w, 'c) middleware_func \<Rightarrow> ('w, 'c) command_handler" where
  "NewCommandHandlerFunc cmdType fn = \<lparr>ch_CommandType = cmdType, ch_Handle = fn\<rparr>"

text \<open>\<open>typed\<close> is the type assertion \<^verbatim>\<open>cmd.(C)\<close>.\<close>

definition GenericHandler_Handle ::
  "('c \<Rightarrow> 't option) \<Rightarrow> ('w, 't) middleware_func \<Rightarrow> ('w, 'c) middleware_func" where
  "GenericHandler_Handle typed handler ctx w cmd =
     (case typed cmd of
        None \<Rightarrow> (w, NewErrorResult (Some (Errorf ''mink: expected command type'')), None)
      | Some typedCmd \<Rightarrow> handler ctx w typedCmd)"

definition Handlers_Register ::
  "('w, 'c) handler_registry \<Rightarrow> ('w, 'c) command_handler \<Rightarrow> ('w, 'c) handler_registry" where
  "Handlers_Register r h = AList.update (ch_CommandType h) h r"

definition Handlers_Get :: "('w, 'c) handler_registry \<Rightarrow> string \<Rightarrow> ('w, 'c) command_handler option" where
  "Handlers_Get r cmdType = map_of r cmdType"

definition Handlers_Has :: "('w, 'c) handler_registry \<Rightarrow> string \<Rightarrow> bool" where
  "Handlers_Has r cmdType \<longleftrightarrow> map_of r cmdType \<noteq> None"

definition Handlers_Remove :: "('w, 'c) handler_registry \<Rightarrow> string \<Rightarrow> ('w, 'c) handler_registry" where
  "Handlers_Remove r cmdType = AList.delete cmdType r"

definition Handlers_Clear :: "('w, 'c) handler_registry \<Rightarrow> ('w, 'c) handler_registry" where
  "Handlers_Clear r = []"

definition Handlers_Count :: "('w, 'c) handler_registry \<Rightarrow> nat" where
  "Handlers_Count r = length r"

definition CommandTypes :: "('w, 'c) handler_registry \<Rightarrow> string list" where
  "CommandTypes r = map fst r"

definition SimpleDispatcher_Dispatch ::
  "'c command_ops \<Rightarrow> ('w, 'c) handler_registry \<Rightarrow> 'w go_context \<Rightarrow> 'w \<Rightarrow> 'c option \<Rightarrow>
   'w \<times> command_result \<times> error option" where
  "SimpleDispatcher_Dispatch co r ctx w cmd =
     (case cmd of
        None \<Rightarrow> fails w ErrNilCommand
      | Some c \<Rightarrow>
          (case Handlers_Get r (co_CommandType co c) of
             None \<Rightarrow> fails w (HandlerNotFoundError (co_CommandType co c))
           | Some handler \<Rightarrow> ch_Handle handler ctx w c))"

section \<open>The bus\<close>

record ('w, 'c) command_bus =
  cb_registry :: "('w, 'c) handler_registry"
  cb_middleware :: "('w, 'c) middleware list"
  cb_closed :: bool

type_synonym ('w, 'c) bus_option = "('w, 'c) command_bus \<Rightarrow> ('w, 'c) command_bus"

definition WithMiddleware :: "('w, 'c) middleware list \<Rightarrow> ('w, 'c) bus_option" where
  "WithMiddleware ms b = b\<lparr>cb_middleware := cb_middleware b @ ms\<rparr>"

definition WithHandlerRegistry :: "('w, 'c) handler_registry \<Rightarrow> ('w, 'c) bus_option" where
  "WithHandlerRegistry r b = b\<lparr>cb_registry := r\<rparr>"

definition NewCommandBus :: "('w, 'c) bus_option list \<Rightarrow> ('w, 'c) command_bus" where
  "NewCommandBus opts = fold (\<lambda>opt b. opt b) opts \<lparr>cb_registry = [], cb_middleware = [], cb_closed = False\<rparr>"

definition Bus_Register :: "('w, 'c) command_bus \<Rightarrow> ('w, 'c) command_handler \<Rightarrow> ('w, 'c) command_bus" where
  "Bus_Register b h = b\<lparr>cb_registry := Handlers_Register (cb_registry b) h\<rparr>"

definition Bus_RegisterFunc ::
  "('w, 'c) command_bus \<Rightarrow> string \<Rightarrow> ('w, 'c) middleware_func \<Rightarrow> ('w, 'c) command_bus" where
  "Bus_RegisterFunc b cmdType fn = Bus_Register b (NewCommandHandlerFunc cmdType fn)"

definition Use :: "('w, 'c) command_bus \<Rightarrow> ('w, 'c) middleware list \<Rightarrow> ('w, 'c) command_bus" where
  "Use b ms = b\<lparr>cb_middleware := cb_middleware b @ ms\<rparr>"

definition Bus_Close :: "('w, 'c) command_bus \<Rightarrow> ('w, 'c) command_bus" where
  "Bus_Close b = b\<lparr>cb_closed := True\<rparr>"

text \<open>The wrapping loop, from the last middleware to the first.\<close>

fun chain_loop :: "('w, 'c) middleware list \<Rightarrow> ('w, 'c) middleware_func \<Rightarrow> ('w, 'c) middleware_func" where
  "chain_loop [] chain = chain"
| "chain_loop (m # rest) chain = chain_loop rest (m chain)"

definition ChainMiddleware :: "('w, 'c) middleware list \<Rightarrow> ('w, 'c) middleware" where
  "ChainMiddleware ms nxt = chain_loop (rev ms) nxt"

definition Dispatch ::
  "'c command_ops \<Rightarrow> ('w, 'c) command_bus \<Rightarrow> 'w go_context \<Rightarrow> 'w \<Rightarrow> 'c option \<Rightarrow>
   'w \<times> command_result \<times> error option" where
  "Dispatch co b ctx w cmd =
     (case cmd of
        None \<Rightarrow> fails w ErrNilCommand
      | Some c \<Rightarrow>
          if cb_closed b then fails w ErrCommandBusClosed
          else (case Handlers_Get (cb_registry b) (co_CommandType co c) of
            None \<Rightarrow> fails w (HandlerNotFoundError (co_CommandType co c))
          | Some handler \<Rightarrow> chain_loop (rev (cb_middleware b)) (ch_Handle handler) ctx w c))"

fun DispatchAll ::
  "'c command_ops \<Rightarrow> ('w, 'c) command_bus \<Rightarrow> 'w go_context \<Rightarrow> 'w \<Rightarrow> 'c option list \<Rightarrow>
   'w \<times> (command_result \<times> error option) list \<times> error option" where
  "DispatchAll co b ctx w [] = (w, [], None)"
| "DispatchAll co b ctx w (cmd # cmds) =
     (case Dispatch co b ctx w cmd of
        (w1, result, err) \<Rightarrow>
          (case cx_Err ctx w1 of
             Some e \<Rightarrow> (w1, [(result, err)], Some e)
           | None \<Rightarrow>
               (case DispatchAll co b ctx w1 cmds of
                  (w2, results, e) \<Rightarrow> (w2, (result, err) # results, e))))"

definition DispatchResult_IsSuccess :: "command_result \<times> error option \<Rightarrow> bool" where
  "DispatchResult_IsSuccess r \<longleftrightarrow> snd r = None \<and> IsSuccess (fst r)"

section \<open>Stock middleware\<close>

definition ValidationMiddleware :: "'c command_ops \<Rightarrow> ('w, 'c) middleware" where
  "ValidationMiddleware co nxt ctx w cmd =
     (case co_Validate co cmd of Some err \<Rightarrow> fails w err | None \<Rightarrow> nxt ctx w cmd)"

text \<open>\<open>summary\<close> is \<^verbatim>\<open>PanicValueSummary\<close>, \<open>captureValue\<close> the option
  \<^verbatim>\<open>WithPanicValueCapture\<close>.\<close>

definition newRecoveredPanicError ::
  "'c command_ops \<Rightarrow> (string \<Rightarrow> string) \<Rightarrow> bool \<Rightarrow> 'c \<Rightarrow> string \<Rightarrow> error" where
  "newRecoveredPanicError co summary captureValue cmd r =
     PanicError (co_CommandType co cmd) (if captureValue then r else summary r)"

definition RecoveryMiddlewareWithOptions ::
  "'c command_ops \<Rightarrow> (string \<Rightarrow> string) \<Rightarrow> bool \<Rightarrow> ('w, 'c) middleware" where
  "RecoveryMiddlewareWithOptions co summary captureValue nxt ctx w cmd =
     (case nxt ctx w cmd of
        (w', result, Some (GoPanic r)) \<Rightarrow> fails w' (newRecoveredPanicError co summary captureValue cmd r)
      | res \<Rightarrow> res)"

text \<open>\<^verbatim>\<open>context.WithTimeout\<close>, with the clock read off the world.\<close>

definition TimeoutMiddleware :: "('w \<Rightarrow> time) \<Rightarrow> duration \<Rightarrow> ('w, 'c) middleware" where
  "TimeoutMiddleware clock timeout nxt ctx w cmd =
     (let deadline = clock w + timeout
      in nxt (ctx\<lparr>cx_Err := (\<lambda>w'. case cx_Err ctx w' of
                  Some e \<Rightarrow> Some e
                | None \<Rightarrow> if deadline \<le> clock w' then Some ErrContextDeadlineExceeded else None)\<rparr>) w cmd)"

text \<open>\<open>mulf\<close> is \<^verbatim>\<open>time.Duration(float64(d) * m)\<close>; \<open>wait\<close> lets the world run for a
  delay.\<close>

record retry_config =
  rc_MaxAttempts :: int
  rc_InitialDelay :: duration
  rc_MaxDelay :: duration
  rc_Multiplier :: rat
  rc_ShouldRetry :: "(error option \<Rightarrow> bool) option"

definition normalize_retry :: "retry_config \<Rightarrow> retry_config" where
  "normalize_retry config =
     config\<lparr>rc_MaxAttempts := (if rc_MaxAttempts config \<le> 0 then 1 else rc_MaxAttempts config),
            rc_InitialDelay := (if rc_InitialDelay config \<le> 0 then 100 * 1000000 else rc_InitialDelay config),
            rc_MaxDelay := (if rc_MaxDelay config \<le> 0 then 5 * 1000000000 else rc_MaxDelay config),
            rc_Multiplier := (if rc_Multiplier config \<le> 0 then 1 else rc_Multiplier config)\<rparr>"

fun panicked :: "error option \<Rightarrow> bool" where
  "panicked (Some (GoPanic r)) \<longleftrightarrow> True"
| "panicked _ \<longleftrightarrow> False"

text \<open>\<open>n\<close> counts the attempts that remain; a panic leaves the loop.\<close>

fun retry_loop ::
  "('w \<Rightarrow> duration \<Rightarrow> 'w) \<Rightarrow> (duration \<Rightarrow> rat \<Rightarrow> duration) \<Rightarrow> retry_config \<Rightarrow> ('w, 'c) middleware_func \<Rightarrow>
   'w go_context \<Rightarrow> 'c \<Rightarrow> nat \<Rightarrow> duration \<Rightarrow> 'w \<Rightarrow> command_result \<times> error option \<Rightarrow>
   'w \<times> command_result \<times> error option" where
  "retry_loop wait mulf config nxt ctx cmd 0 delay w lst = (w, lst)"
| "retry_loop wait mulf config nxt ctx cmd (Suc n) delay w lst =
     (case nxt ctx w cmd of
        (w1, lastResult, lastErr) \<Rightarrow>
          if panicked lastErr then (w1, lastResult, lastErr)
          else if lastErr = None \<and> IsSuccess lastResult then (w1, lastResult, None)
          else if n = 0 then (w1, lastResult, lastErr)
          else
            let errToCheck = (if lastErr = None \<and> cr_Error lastResult \<noteq> None then cr_Error lastResult else lastErr)
            in if (case rc_ShouldRetry config of None \<Rightarrow> False | Some should \<Rightarrow> \<not> should errToCheck)
               then (w1, lastResult, lastErr)
               else
                 let w2 = wait w1 delay
                 in (case cx_Err ctx w2 of
                       Some e \<Rightarrow> fails w2 e
                     | None \<Rightarrow>
                         let d = mulf delay (rc_Multiplier config)
                         in retry_loop wait mulf config nxt ctx cmd n
                              (if d > rc_MaxDelay config then rc_MaxDelay config else d) w2 (lastResult, lastErr)))"

definition RetryMiddleware ::
  "('w \<Rightarrow> duration \<Rightarrow> 'w) \<Rightarrow> (duration \<Rightarrow> rat \<Rightarrow> duration) \<Rightarrow> retry_config \<Rightarrow> ('w, 'c) middleware" where
  "RetryMiddleware wait mulf config nxt ctx w cmd =
     (let cfg = normalize_retry config
      in retry_loop wait mulf cfg nxt ctx cmd (nat (rc_MaxAttempts cfg)) (rc_InitialDelay cfg) w
           (NewErrorResult None, None))"

text \<open>\<open>gen\<close> is the id generator (random by default), drawing from the world.\<close>

definition CorrelationIDMiddleware :: "'c command_ops \<Rightarrow> ('w \<Rightarrow> 'w \<times> string) \<Rightarrow> ('w, 'c) middleware" where
  "CorrelationIDMiddleware co gen nxt ctx w cmd =
     (if cx_correlationID ctx \<noteq> [] then nxt ctx w cmd
      else
        let fromCmd = (case co_CorrelationID co cmd of None \<Rightarrow> [] | Some c \<Rightarrow> c);
            (w', correlationID) = (if fromCmd = [] then gen w else (w, fromCmd))
        in nxt (ctx\<lparr>cx_correlationID := correlationID\<rparr>) w' cmd)"

definition CausationIDMiddleware :: "'c command_ops \<Rightarrow> ('w, 'c) middleware" where
  "CausationIDMiddleware co nxt ctx w cmd =
     (if cx_causationID ctx \<noteq> [] then nxt ctx w cmd
      else
        let c0 = (case co_CausationID co cmd of None \<Rightarrow> [] | Some c \<Rightarrow> c);
            c1 = (if c0 = [] then (case co_CommandID co cmd of None \<Rightarrow> c0 | Some c \<Rightarrow> c) else c0)
        in nxt (if c1 \<noteq> [] then ctx\<lparr>cx_causationID := c1\<rparr> else ctx) w cmd)"

definition NewValidationError :: "string \<Rightarrow> string \<Rightarrow> string \<Rightarrow> error" where
  "NewValidationError cmdType field message = ValidationError cmdType field message"

definition TenantMiddleware ::
  "'c command_ops \<Rightarrow> ('c \<Rightarrow> string) option \<Rightarrow> bool \<Rightarrow> ('w, 'c) middleware" where
  "TenantMiddleware co extractor required nxt ctx w cmd =
     (if cx_tenantID ctx \<noteq> [] then nxt ctx w cmd
      else
        let tenantID = (case extractor of None \<Rightarrow> [] | Some f \<Rightarrow> f cmd)
        in if tenantID = [] \<and> required
           then fails w (NewValidationError (co_CommandType co cmd) ''tenantId'' ''tenant ID is required'')
           else nxt (if tenantID \<noteq> [] then ctx\<lparr>cx_tenantID := tenantID\<rparr> else ctx) w cmd)"

definition ConditionalMiddleware :: "('c \<Rightarrow> bool) \<Rightarrow> ('w, 'c) middleware \<Rightarrow> ('w, 'c) middleware" where
  "ConditionalMiddleware condition m nxt ctx w cmd =
     (if condition cmd then m nxt ctx w cmd else nxt ctx w cmd)"

definition CommandTypeMiddleware :: "'c command_ops \<Rightarrow> string list \<Rightarrow> ('w, 'c) middleware \<Rightarrow> ('w, 'c) middleware" where
  "CommandTypeMiddleware co types m = ConditionalMiddleware (\<lambda>cmd. co_CommandType co cmd \<in> set types) m"

section \<open>Aggregate handlers\<close>

text \<open>\<open>AggregateHandler.Handle\<close> over an event store and its adapter: \<open>fresh\<close> is a call of
  \<^verbatim>\<open>newIDFunc\<close> (\<open>None\<close> when it is nil), \<open>aggID\<close> the command's \<^verbatim>\<open>AggregateID()\<close> after
  the type assertion.\<close>

definition AggregateHandler_Handle ::
  "'d go_lib \<Rightarrow> (nat \<Rightarrow> entropy) \<Rightarrow> (('d, 's) aggregate \<Rightarrow> 'd \<Rightarrow> ('d, 's) aggregate \<times> error option) \<Rightarrow>
   'a adapter_ops \<Rightarrow> (string \<Rightarrow> ('d, 's) aggregate) \<Rightarrow>
   (('d, 's) aggregate \<Rightarrow> 't \<Rightarrow> ('d, 's) aggregate \<times> error option) \<Rightarrow> string option \<Rightarrow>
   ('c \<Rightarrow> 't option) \<Rightarrow> ('t \<Rightarrow> string) \<Rightarrow> 'd event_store \<Rightarrow> 'a \<Rightarrow> 'c \<Rightarrow>
   'd event_store \<times> 'a \<times> (string \<times> string list) list \<times> command_result \<times> error option" where
  "AggregateHandler_Handle gl ens applyEvent ops factory executor fresh typed aggregateID s a cmd =
     (let bad = (\<lambda>s a e. (s, a, [], NewErrorResult (Some e), None))
      in (case typed cmd of
            None \<Rightarrow> bad s a (Errorf ''mink: expected command type'')
          | Some typedCmd \<Rightarrow>
              let isNew = (aggregateID typedCmd = [])
              in (case (if isNew then fresh else Some (aggregateID typedCmd)) of
                    None \<Rightarrow> bad s a (Errorf ''mink: command has no aggregate ID and no ID generator configured'')
                  | Some aggID \<Rightarrow>
                      (case (if isNew then (s, Some (factory aggID), None)
                             else LoadAggregate gl applyEvent ops s a (Some (factory aggID))) of
                         (s1, _, Some err) \<Rightarrow> bad s1 a (Wrap ''mink: failed to load aggregate'' err)
                       | (s1, agg, None) \<Rightarrow>
                           (case executor (the agg) typedCmd of
                              (agg1, Some err) \<Rightarrow> bad s1 a err
                            | (agg1, None) \<Rightarrow>
                                (case SaveAggregate gl ens ops s1 a (Some agg1) of
                                   (s2, a2, _, _, Some err) \<Rightarrow> bad s2 a2 (Wrap ''mink: failed to save aggregate'' err)
                                 | (s2, a2, agg2, idx, None) \<Rightarrow>
                                     (s2, a2, idx,
                                      NewSuccessResult (ab_id (ag_base (the agg2))) (ab_version (ag_base (the agg2))),
                                      None)))))))"

section \<open>The pipeline\<close>

lemma chain_loop_append: "chain_loop (xs @ ys) f = chain_loop ys (chain_loop xs f)"
  by (induction xs arbitrary: f) simp_all

lemma chain_loop_rev: "chain_loop (rev ms) f = foldr (\<lambda>m k. m k) ms f"
  by (induction ms) (simp_all add: chain_loop_append)

lemma Dispatch_some:
  assumes "\<not> cb_closed b" and "map_of (cb_registry b) (co_CommandType co c) = Some h"
  shows "Dispatch co b ctx w (Some c) = foldr (\<lambda>m k. m k) (cb_middleware b) (ch_Handle h) ctx w c"
  using assms by (simp add: Dispatch_def Handlers_Get_def chain_loop_rev)

text \<open>the middleware runs in the order it was added.  Adding a list of middleware to a bus
  is adding their composition with \<^verbatim>\<open>ChainMiddleware\<close>, and what reaches the handler of a
  command has passed through the older middleware first and the newly added ones next.\<close>

theorem Use_is_ChainMiddleware:
  "Dispatch co (Use b ms) ctx w cmd = Dispatch co (Use b [ChainMiddleware ms]) ctx w cmd \<and>
   (\<forall>c h. \<not> cb_closed b \<longrightarrow> map_of (cb_registry b) (co_CommandType co c) = Some h \<longrightarrow>
      Dispatch co (Use b ms) ctx w (Some c) =
        foldr (\<lambda>m k. m k) (cb_middleware b) (foldr (\<lambda>m k. m k) ms (ch_Handle h)) ctx w c)"
  by (auto simp: Use_def Dispatch_def Handlers_Get_def ChainMiddleware_def chain_loop_append
      chain_loop_rev split: option.splits)

text \<open>Two logging middleware around a logging handler.\<close>

definition log_middleware :: "string \<Rightarrow> (string list, unit) middleware" where
  "log_middleware name nxt ctx w cmd = nxt ctx (w @ [name]) cmd"

definition log_bus :: "(string list, unit) command_bus" where
  "log_bus = Bus_RegisterFunc (NewCommandBus []) ''Log'' (\<lambda>ctx w c. (w @ [''handler''], NewSuccessResult [] 0, None))"

definition log_ops :: "unit command_ops" where
  "log_ops = \<lparr>co_CommandType = \<lambda>_. ''Log'', co_Validate = \<lambda>_. None, co_AggregateID = \<lambda>_. None,
     co_CorrelationID = \<lambda>_. None, co_CausationID = \<lambda>_. None, co_CommandID = \<lambda>_. None, co_MetadataMap = \<lambda>_. None\<rparr>"

theorem Use_is_ChainMiddleware_witness:
  "fst (Dispatch log_ops (Use log_bus [log_middleware ''first'', log_middleware ''second''])
     \<lparr>cx_Err = \<lambda>_. None, cx_correlationID = [], cx_causationID = [], cx_tenantID = [], cx_actor = []\<rparr> [] (Some ())) =
   [''first'', ''second'', ''handler'']"
proof -
  let ?h = "NewCommandHandlerFunc ''Log'' (\<lambda>ctx w (c :: unit). (w @ [''handler''], NewSuccessResult [] 0, None))"
  have bus: "\<not> cb_closed log_bus" "map_of (cb_registry log_bus) (co_CommandType log_ops ()) = Some ?h"
    "cb_middleware log_bus = []"
    by (simp_all add: log_bus_def log_ops_def Bus_RegisterFunc_def Bus_Register_def NewCommandBus_def
        Handlers_Register_def NewCommandHandlerFunc_def)
  note thm1 = Use_is_ChainMiddleware [of log_ops log_bus "[log_middleware ''first'', log_middleware ''second'']"
      "\<lparr>cx_Err = \<lambda>_. None, cx_correlationID = [], cx_causationID = [], cx_tenantID = [], cx_actor = []\<rparr>" "[]" "Some ()"]
  from conjunct2 [OF thm1, rule_format, OF bus(1,2)] show ?thesis
    by (simp add: bus(3) log_middleware_def NewCommandHandlerFunc_def)
qed

lemma normalize_retry_attempts: "1 \<le> rc_MaxAttempts (normalize_retry config)"
  by (simp add: normalize_retry_def)

text \<open>A quantity that every attempt raises by one and no wait changes counts the attempts.\<close>

lemma retry_loop_count:
  assumes "\<And>ctx w c. calls (fst (nxt ctx w c)) = Suc (calls w)" and "\<And>w d. calls (wait w d) = calls w"
    and "retry_loop wait mulf config nxt ctx cmd n delay w lst = (w', r, err)" and "0 < n"
  shows "calls w < calls w' \<and> calls w' \<le> calls w + n"
  using assms(3,4)
proof (induction n arbitrary: delay w lst)
  case (Suc n)
  obtain w1 lr le where nx: "nxt ctx w cmd = (w1, lr, le)" by (cases "nxt ctx w cmd") auto
  have c1: "calls w1 = Suc (calls w)" using assms(1) [of ctx w cmd] nx by simp
  show ?case
  proof (cases "calls w' = calls w1")
    case False
    then obtain d lst' where "retry_loop wait mulf config nxt ctx cmd n d (wait w1 delay) lst' = (w', r, err)" "0 < n"
      using Suc.prems(1) assms(2) [of w1 delay]
      by (auto simp: nx fails_def Let_def split: if_splits option.splits)
    from Suc.IH [OF this] c1 assms(2) show ?thesis by simp
  qed (simp add: c1)
qed simp

lemma retry_loop_exhausts:
  assumes "\<And>ctx w c. calls (fst (nxt ctx w c)) = Suc (calls w)" and "\<And>w d. calls (wait w d) = calls w"
    and "retry_loop wait mulf config nxt ctx cmd n delay w lst = (w', r, err)"
    and "rc_ShouldRetry config = None" and "\<And>w. cx_Err ctx w = None" and "\<not> panicked err"
    and "\<not> (err = None \<and> IsSuccess r)"
  shows "calls w' = calls w + n"
  using assms(3)
proof (induction n arbitrary: delay w lst)
  case (Suc n)
  obtain w1 lr le where nx: "nxt ctx w cmd = (w1, lr, le)" by (cases "nxt ctx w cmd") auto
  have c1: "calls w1 = Suc (calls w)" using assms(1) [of ctx w cmd] nx by simp
  show ?case
  proof (cases "n = 0")
    case True
    with Suc.prems have "w' = w1" by (auto simp: nx split: if_splits)
    with True c1 show ?thesis by simp
  next
    case False
    with Suc.prems assms(4-7) obtain d lst' where
      "retry_loop wait mulf config nxt ctx cmd n d (wait w1 delay) lst' = (w', r, err)"
      by (auto simp: nx Let_def split: if_splits)
    from Suc.IH [OF this] c1 assms(2) show ?thesis by simp
  qed
qed simp

text \<open>retries are bounded.  \<^verbatim>\<open>RetryMiddleware\<close> calls the next handler at least once
  and at most \<^verbatim>\<open>MaxAttempts\<close> times (once when that is not positive); with no
  \<^verbatim>\<open>ShouldRetry\<close> filter and a live context it gives up on an unsuccessful command only after
  exactly that many attempts.\<close>

theorem RetryMiddleware_attempts:
  assumes calls: "\<And>ctx w c. calls (fst (nxt ctx w c)) = Suc (calls w)" "\<And>w d. calls (wait w d) = calls w"
    and run: "RetryMiddleware wait mulf config nxt ctx w cmd = (w', r, err)"
  shows "calls w < calls w' \<and> calls w' \<le> calls w + nat (max 1 (rc_MaxAttempts config)) \<and>
    (rc_ShouldRetry config = None \<and> (\<forall>w. cx_Err ctx w = None) \<and> \<not> panicked err \<and>
      \<not> (err = None \<and> IsSuccess r) \<longrightarrow> calls w' = calls w + nat (max 1 (rc_MaxAttempts config)))"
proof -
  let ?cfg = "normalize_retry config"
  have n: "nat (rc_MaxAttempts ?cfg) = nat (max 1 (rc_MaxAttempts config))"
    "rc_ShouldRetry ?cfg = rc_ShouldRetry config"
    by (simp_all add: normalize_retry_def)
  have lp: "retry_loop wait mulf ?cfg nxt ctx cmd (nat (rc_MaxAttempts ?cfg)) (rc_InitialDelay ?cfg) w
      (NewErrorResult None, None) = (w', r, err)"
    using run by (simp add: RetryMiddleware_def Let_def)
  have "calls w < calls w' \<and> calls w' \<le> calls w + nat (rc_MaxAttempts ?cfg)"
    using normalize_retry_attempts [of config] by (intro retry_loop_count [OF calls lp]) simp
  with retry_loop_exhausts [OF calls lp] show ?thesis by (simp add: n)
qed

text \<open>A counting handler that always fails, retried three times.\<close>

theorem RetryMiddleware_attempts_witness:
  "fst (RetryMiddleware (\<lambda>w d. w) (\<lambda>d m. 2 * d)
     \<lparr>rc_MaxAttempts = 3, rc_InitialDelay = 1, rc_MaxDelay = 10, rc_Multiplier = 2, rc_ShouldRetry = None\<rparr>
     (\<lambda>ctx w c. (Suc w, NewErrorResult (Some ErrNotFound), None))
     \<lparr>cx_Err = \<lambda>_. None, cx_correlationID = [], cx_causationID = [], cx_tenantID = [], cx_actor = []\<rparr> 0 ()) = 3"
proof -
  let ?nxt = "\<lambda>(ctx :: nat go_context) w (c :: unit). (Suc w, NewErrorResult (Some ErrNotFound), None :: error option)"
  let ?cfg = "\<lparr>rc_MaxAttempts = 3, rc_InitialDelay = 1, rc_MaxDelay = 10, rc_Multiplier = 2, rc_ShouldRetry = None\<rparr>"
  let ?ctx = "\<lparr>cx_Err = \<lambda>_. None, cx_correlationID = [], cx_causationID = [], cx_tenantID = [], cx_actor = []\<rparr> :: nat go_context"
  obtain w' r err where run: "RetryMiddleware (\<lambda>w d. w) (\<lambda>d m. 2 * d) ?cfg ?nxt ?ctx 0 () = (w', r, err)"
    by (metis prod_cases3)
  have "\<not> panicked err \<and> \<not> (err = None \<and> IsSuccess r)"
    using run by (auto simp: RetryMiddleware_def normalize_retry_def IsSuccess_def NewErrorResult_def
        eval_nat_numeral Let_def)
  then have "w' = 0 + nat (max 1 (rc_MaxAttempts ?cfg))"
    using RetryMiddleware_attempts [where calls = "\<lambda>w. w" and nxt = ?nxt, OF _ _ run] by simp
  with run show ?thesis by simp
qed

section \<open>One command, one aggregate\<close>

lemma SaveAggregate_nothing:
  assumes "ab_uncommittedEvents (ag_base ag) = []"
    and "SaveAggregate gl ens ops s a (Some ag) = (s', a', ag', idx, r)"
  shows "a' = a" "idx = []" "\<exists>ag1. ag' = Some ag1"
  using assms by (auto simp: SaveAggregate_def Let_def split: option.splits)

text \<open>A stored event holds an event value of an aggregate: the record serialized from the value and
  prepared by the store, in the aggregate's stream.\<close>

definition stored_from ::
  "'d go_lib \<Rightarrow> entropy \<Rightarrow> 'd event_store \<Rightarrow> string \<Rightarrow> 'd \<Rightarrow> stored_event \<Rightarrow> bool" where
  "stored_from gl en s sid e st \<longleftrightarrow>
     (\<exists>ed ed'. SerializeEvent (gl_json gl) (es_serializer s) e empty_metadata = Inr ed \<and>
        prepareEventDataWith (gl_codec gl) en s sid ed False = Inr ed' \<and> holds_record sid st ed')"

definition stores_events ::
  "'d go_lib \<Rightarrow> (nat \<Rightarrow> entropy) \<Rightarrow> 'd event_store \<Rightarrow> string \<Rightarrow> 'd list \<Rightarrow> stored_event list \<Rightarrow> bool" where
  "stores_events gl ens s sid es sts \<longleftrightarrow>
     length sts = length es \<and> (\<forall>i < length es. stored_from gl (ens i) s sid (es ! i) (sts ! i))"

lemma prepare_loop_records:
  "prepare_loop gl ens s sid md tr what k es = Inr (rs, subs) \<Longrightarrow> i < length es \<Longrightarrow>
     \<exists>ed. SerializeEvent (gl_json gl) (es_serializer s) (es ! i) md = Inr ed \<and>
       prepareEventDataWith (gl_codec gl) (ens (k + i)) s sid ed tr = Inr (rs ! i)"
proof (induction es arbitrary: k rs subs i)
  case (Cons e es)
  from Cons.prems(1) obtain ed ed' rs' subs' where st: "SerializeEvent (gl_json gl) (es_serializer s) e md = Inr ed"
    "prepareEventDataWith (gl_codec gl) (ens k) s sid ed tr = Inr ed'"
    "prepare_loop gl ens s sid md tr what (Suc k) es = Inr (rs', subs')" "rs = ed' # rs'"
    by (auto split: sum.splits)
  show ?case using st Cons.IH [OF st(3)] Cons.prems(2) by (cases i) auto
qed simp

text \<open>What a save leaves in the log of the in-memory store.\<close>

lemma save_appends:
  assumes inv: "mem_inv a" "\<not> ma_closed a"
    and save: "SaveAggregate gl ens (mem_store_ops uuid now) s a (Some ag) = (s', a', ag', idx, r)"
  shows "mem_inv a' \<and> (r \<noteq> None \<longrightarrow> a' = a) \<and> (\<exists>ag1. ag' = Some ag1) \<and>
    (r = None \<longrightarrow> (\<exists>sts. ma_globalEvents a' = ma_globalEvents a @ sts \<and>
       stores_events gl ens s' (aggregate_stream ag) (ab_uncommittedEvents (ag_base ag)) sts))"
proof (cases "ab_uncommittedEvents (ag_base ag) = []")
  case True
  from SaveAggregate_nothing [OF True save] inv True show ?thesis by (simp add: stores_events_def)
next
  case False
  have ok: "mem_inv a \<and> \<not> ma_closed a" using inv by simp
  from save False show ?thesis
  proof (cases rule: mem_streams.save_cases)
    case failed
    then have "a' = a" using mem_streams.append_refused [OF ok] by blast
    with failed inv show ?thesis by simp
  next
    case (saved rs subs sts)
    let ?sid = "aggregate_stream ag" and ?es = "ab_uncommittedEvents (ag_base ag)"
    from saved(3) obtain drops where run: "Append None uuid now a ?sid rs (ab_version (ag_base ag)) = (a', drops, Inr sts)"
      by (auto simp: mem_store_ops_def split: prod.splits)
    note log = Append_success_log [OF inv(1) run]
    have held: "list_all2 (holds_record ?sid) sts rs" unfolding log(2) by (rule holds_new_events)
    have len: "length rs = length ?es" by (rule mem_streams.prepare_loop_length [OF saved(2)])
    have "stored_from gl (ens i) s' ?sid (?es ! i) (sts ! i)" if "i < length ?es" for i
      using prepare_loop_records [OF saved(2) that] list_all2_nthD2 [OF held, of i] that len by (auto simp: stored_from_def)
    then have "stores_events gl ens s' ?sid ?es sts"
      using list_all2_lengthD [OF held] len by (simp add: stores_events_def)
    moreover have "ma_globalEvents a' = ma_globalEvents a @ sts" by (simp add: log(1,2) log_append_def)
    ultimately show ?thesis using saved(1,4) log(4) by simp
  qed
qed

text \<open>C40: a command takes effect entirely or not at all.  Whatever the command and the executor,
  \<^verbatim>\<open>AggregateHandler.Handle\<close> reports failures in the result and never as a dispatch error, and an
  unsuccessful result leaves the event log as it was.  A successful one means that the executor
  accepted the command on the aggregate that was loaded from the log - or, for a command without an
  id, on a new one with a generated id - and that the log of all streams grew by exactly the events
  the executor had raised: one stored event for each, in order, in the aggregate's stream, holding the
  record serialized from that event and prepared by the store.\<close>

theorem command_all_or_nothing:
  assumes inv: "mem_inv a" "\<not> ma_closed a"
    and run: "AggregateHandler_Handle gl ens applyEvent (mem_store_ops uuid now) factory executor fresh typed
       aggregateID s a cmd = (s', a', idx, r, err)"
  shows "err = None \<and> mem_inv a' \<and> (\<not> IsSuccess r \<longrightarrow> a' = a) \<and>
    (IsSuccess r \<longrightarrow> (\<exists>tc s1 agg agg1 sts. typed cmd = Some tc \<and>
       (if aggregateID tc = [] then s1 = s \<and> (\<exists>i. fresh = Some i \<and> agg = factory i)
        else LoadAggregate gl applyEvent (mem_store_ops uuid now) s a (Some (factory (aggregateID tc))) = (s1, Some agg, None)) \<and>
       executor agg tc = (agg1, None) \<and>
       ma_globalEvents a' = ma_globalEvents a @ sts \<and>
       stores_events gl ens s' (aggregate_stream agg1) (ab_uncommittedEvents (ag_base agg1)) sts))"
proof -
  have loaded: "\<exists>agg. ag' = Some agg"
    if "LoadAggregate gl applyEvent (mem_store_ops uuid now) s a (Some ag) = (s1, ag', e)" for ag s1 ag' e
    using that by (auto simp: LoadAggregate_def Let_def split: sum.splits prod.splits option.splits)
  show ?thesis
  proof (cases "IsSuccess r")
    case False
    then show ?thesis
      using run inv
      by (auto simp: AggregateHandler_Handle_def Let_def IsSuccess_def NewErrorResult_def NewSuccessResult_def
          split: option.splits if_splits prod.splits dest!: save_appends [OF inv])
  next
    case True
    obtain tc where tc: "typed cmd = Some tc" using run True
      by (cases "typed cmd") (auto simp: AggregateHandler_Handle_def Let_def IsSuccess_def NewErrorResult_def)
    obtain i where i: "(if aggregateID tc = [] then fresh else Some (aggregateID tc)) = Some i" using run True tc
      by (cases "if aggregateID tc = [] then fresh else Some (aggregateID tc)")
        (auto simp: AggregateHandler_Handle_def Let_def IsSuccess_def NewErrorResult_def)
    let ?got = "if aggregateID tc = [] then (s, Some (factory i), None)
      else LoadAggregate gl applyEvent (mem_store_ops uuid now) s a (Some (factory i))"
    obtain s1 ago e where got: "?got = (s1, ago, e)" by (metis prod_cases3)
    obtain agg where agg: "ago = Some agg"
    proof (cases "aggregateID tc = []")
      case True
      then show thesis using got that by auto
    next
      case False
      then have "LoadAggregate gl applyEvent (mem_store_ops uuid now) s a (Some (factory i)) = (s1, ago, e)" using got by simp
      from loaded [OF this] show thesis using that by blast
    qed
    obtain agg1 e1 where ex: "executor agg tc = (agg1, e1)" by (rule prod.exhaust)
    obtain s2 a2 ag2 idx2 e2 where sv: "SaveAggregate gl ens (mem_store_ops uuid now) s1 a (Some agg1) = (s2, a2, ag2, idx2, e2)"
      by (metis prod_cases5)
    have res: "e = None" "e1 = None" "e2 = None" "s2 = s'" "a2 = a'" "err = None"
      using run True unfolding AggregateHandler_Handle_def Let_def tc option.case i got prod.case agg
      by (auto simp: ex sv IsSuccess_def NewErrorResult_def split: option.splits)
    have "if aggregateID tc = [] then s1 = s \<and> (\<exists>i. fresh = Some i \<and> agg = factory i)
        else LoadAggregate gl applyEvent (mem_store_ops uuid now) s a (Some (factory (aggregateID tc))) = (s1, Some agg, None)"
      using got i agg res(1) by (auto split: if_splits)
    then show ?thesis using save_appends [OF inv sv] True tc ex res by blast
  qed
qed

text \<open>A command without an aggregate id creates an aggregate with one event.\<close>

theorem command_all_or_nothing_witness:
  "\<exists>s' a' idx r. AggregateHandler_Handle text_lib (\<lambda>_. demo_entropy) log_apply (mem_store_ops demo_uuid 7)
       (\<lambda>_. log_aggregate []) (\<lambda>agg c. (log_aggregate [c], None)) (Some ''1'') Some (\<lambda>_. [])
       text_store NewAdapter ''x'' = (s', a', idx, r, None) \<and> IsSuccess r \<and>
     map se_Data (ma_globalEvents a') = [''x''] \<and> map se_StreamID (ma_globalEvents a') = [''Order-1'']"
proof -
  obtain s' a' ag' idx where save: "SaveAggregate text_lib (\<lambda>_. demo_entropy) (mem_store_ops demo_uuid 7)
      text_store NewAdapter (Some (log_aggregate [''x''])) = (s', a', Some ag', idx, None)"
    using text_save [of "[''x'']"] by auto
  define r where "r = NewSuccessResult (ab_id (ag_base ag')) (ab_version (ag_base ag'))"
  have run: "AggregateHandler_Handle text_lib (\<lambda>_. demo_entropy) log_apply (mem_store_ops demo_uuid 7)
       (\<lambda>_. log_aggregate []) (\<lambda>agg c. (log_aggregate [c], None)) (Some ''1'') Some (\<lambda>_. [])
       text_store NewAdapter ''x'' = (s', a', idx, r, None)"
    using save by (simp add: AggregateHandler_Handle_def r_def)
  have succ: "IsSuccess r" by (simp add: r_def IsSuccess_def NewSuccessResult_def)
  have "\<not> ma_closed NewAdapter" by (simp add: NewAdapter_def)
  from command_all_or_nothing [OF NewAdapter_inv this run] succ obtain sts where
    "ma_globalEvents a' = ma_globalEvents NewAdapter @ sts" "stores_events text_lib (\<lambda>_. demo_entropy) s' ''Order-1'' [''x''] sts"
    by (auto simp: log_aggregate_def aggregate_stream_def NewAggregateBase_def)
  moreover have "es_serializer s' = es_serializer text_store" "s' = text_store" using save
    by (auto simp: SaveAggregate_def Let_def text_defs autoRegisterEvents_def split: option.splits sum.splits prod.splits if_splits)
  ultimately have "map se_Data (ma_globalEvents a') = [''x''] \<and> map se_StreamID (ma_globalEvents a') = [''Order-1'']"
    by (auto simp: NewAdapter_def stores_events_def length_Suc_conv stored_from_def holds_record_def text_defs SerializeEvent_def
        GetEventType_def prepareEventDataWith_def SanitizeReservedMetadata_def withoutCustomKeys_def custom_entries_def empty_metadata_def
        applySchemaVersionPolicy_def hasSchemaVersion_def applySubjectTagPolicy_def)
  with run succ show ?thesis by (intro exI conjI) (assumption | erule conjunct1 conjunct2)+
qed

end
