(* ===== verification/Retry_Policy.thy ===== *)
theory Retry_Policy
  imports Adapter_Common "HOL-Library.Word"
begin

text \<open>
  Retry and restart policies and the classification of errors
  (\<^verbatim>\<open>projection_engine.go\<close>, lines 195 to 392).

  Durations are Go's signed 64-bit nanosecond counts, so a delay is a \<open>64 word\<close> read
  with \<^const>\<open>sint\<close>: the multiplication of the backoff wraps.
\<close>

unbundle bit_operations_syntax

section \<open>Backoff\<close>

type_synonym int64 = "64 word"

definition expBackoff :: "int \<Rightarrow> int64 \<Rightarrow> int64 \<Rightarrow> int64" where
  "expBackoff shift baseDelay maxDelay =
     (let shift = (if shift < 0 then 0 else shift)
      in if shift > 62 then maxDelay
         else let delay = baseDelay * push_bit (nat shift) 1
              in if sint delay \<le> 0 \<or> sint delay > sint maxDelay then maxDelay else delay)"

record retry_policy =
  rp_maxRetries :: int
  rp_baseDelay :: int64
  rp_maxDelay :: int64

definition ExponentialBackoffRetry :: "int \<Rightarrow> int64 \<Rightarrow> int64 \<Rightarrow> retry_policy" where
  "ExponentialBackoffRetry maxRetries baseDelay maxDelay =
     \<lparr>rp_maxRetries = maxRetries, rp_baseDelay = baseDelay, rp_maxDelay = maxDelay\<rparr>"

definition RetryForever :: "int64 \<Rightarrow> int64 \<Rightarrow> retry_policy" where
  "RetryForever baseDelay maxDelay = ExponentialBackoffRetry 0 baseDelay maxDelay"

definition ShouldRetry :: "retry_policy \<Rightarrow> int \<Rightarrow> error option \<Rightarrow> bool" where
  "ShouldRetry r attempt err \<longleftrightarrow>
     (if err = None then False
      else if rp_maxRetries r \<le> 0 then True
      else attempt < rp_maxRetries r)"

definition Retry_Delay :: "retry_policy \<Rightarrow> int \<Rightarrow> int64" where
  "Retry_Delay r attempt = expBackoff attempt (rp_baseDelay r) (rp_maxDelay r)"

definition NoRetry_ShouldRetry :: "int \<Rightarrow> error option \<Rightarrow> bool" where
  "NoRetry_ShouldRetry attempt err \<longleftrightarrow> False"

record restart_policy =
  rs_maxRestarts :: int
  rs_baseDelay :: int64
  rs_maxDelay :: int64

definition ExponentialBackoffRestart :: "int \<Rightarrow> int64 \<Rightarrow> int64 \<Rightarrow> restart_policy" where
  "ExponentialBackoffRestart maxRestarts baseDelay maxDelay =
     \<lparr>rs_maxRestarts = maxRestarts, rs_baseDelay = baseDelay, rs_maxDelay = maxDelay\<rparr>"

definition RestartForever :: "int64 \<Rightarrow> int64 \<Rightarrow> restart_policy" where
  "RestartForever baseDelay maxDelay = ExponentialBackoffRestart 0 baseDelay maxDelay"

definition ShouldRestart :: "restart_policy \<Rightarrow> int \<Rightarrow> bool" where
  "ShouldRestart r restartCount \<longleftrightarrow>
     (if rs_maxRestarts r \<le> 0 then True else restartCount \<le> rs_maxRestarts r)"

definition Restart_Delay :: "restart_policy \<Rightarrow> int \<Rightarrow> int64" where
  "Restart_Delay r restartCount = expBackoff (restartCount - 1) (rs_baseDelay r) (rs_maxDelay r)"

section \<open>Error classes\<close>

datatype error_class = ErrorClassPoison | ErrorClassTransient

text \<open>The chain \<^verbatim>\<open>err, errors.Unwrap(err), ...\<close>.\<close>

fun unwrap_chain :: "error \<Rightarrow> error list" where
  "unwrap_chain (Wrap s e) = Wrap s e # unwrap_chain e"
| "unwrap_chain (UpcastError ty f t e) = UpcastError ty f t e # unwrap_chain e"
| "unwrap_chain (SerializationError ty op e) = SerializationError ty op e # unwrap_chain e"
| "unwrap_chain (EncryptionError op k f e) = EncryptionError op k f e # unwrap_chain e"
| "unwrap_chain (ProjectionError p ty n e) = ProjectionError p ty n e # unwrap_chain e"
| "unwrap_chain (ErasureError s e) = ErasureError s e # unwrap_chain e"
| "unwrap_chain (SchemaVersionGapError ty m e) = [SchemaVersionGapError ty m e, ErrSchemaVersionGap]"
| "unwrap_chain (IncompatibleSchemaError ty v w c r) = [IncompatibleSchemaError ty v w c r, ErrIncompatibleSchema]"
| "unwrap_chain (ConcurrencyError s e a) = [ConcurrencyError s e a, ErrConcurrencyConflict]"
| "unwrap_chain (StreamNotFoundError s) = [StreamNotFoundError s, ErrStreamNotFound]"
| "unwrap_chain (SagaNotFoundError s c) = [SagaNotFoundError s c, ErrSagaNotFound]"
| "unwrap_chain (SagaNotRetryableError s st r) = [SagaNotRetryableError s st r, ErrSagaNotRetryable]"
| "unwrap_chain (SagaTypeMismatchError c s e a) = [SagaTypeMismatchError c s e a, ErrSagaTypeMismatch]"
| "unwrap_chain (IdempotencyReplayError k m) = [IdempotencyReplayError k m, ErrCommandAlreadyProcessed]"
| "unwrap_chain (HandlerNotFoundError c) = [HandlerNotFoundError c, ErrHandlerNotFound]"
| "unwrap_chain (PanicError c s) = [PanicError c s, ErrHandlerPanicked]"
| "unwrap_chain (UnregisteredEventTypeError s ty v) = [UnregisteredEventTypeError s ty v, ErrUnregisteredEventType]"
| "unwrap_chain (KeyNotFoundError k) = [KeyNotFoundError k, ErrKeyNotFound]"
| "unwrap_chain (KeyRevokedError k) = [KeyRevokedError k, ErrKeyRevoked]"
| "unwrap_chain (KeyResolutionError ty n s) = [KeyResolutionError ty n s, ErrKeyResolutionFailed]"
| "unwrap_chain (RetentionSharedKeyError k n) = [RetentionSharedKeyError k n, ErrRetentionSharedKey]"
| "unwrap_chain e = [e]"

text \<open>Which errors implement \<^verbatim>\<open>Retryable()\<close> or \<^verbatim>\<open>Temporary()\<close> and answer true is
  known to the code that made them: two predicates.\<close>

definition DefaultErrorClassifier ::
  "(error \<Rightarrow> bool) \<Rightarrow> (error \<Rightarrow> bool) \<Rightarrow> error option \<Rightarrow> error_class" where
  "DefaultErrorClassifier retryable temporary err =
     (case err of
        None \<Rightarrow> ErrorClassPoison
      | Some e \<Rightarrow>
          if errors_Is e ErrTransient then ErrorClassTransient
          else if errors_Is e ErrContextDeadlineExceeded then ErrorClassPoison
          else if \<exists>x \<in> set (unwrap_chain e). retryable x \<or> temporary x then ErrorClassTransient
          else ErrorClassPoison)"

section \<open>Properties\<close>

lemma sint_mult_push:
  fixes b :: int64
  assumes "0 \<le> sint b" and "sint b * 2 ^ n < 2 ^ 63"
  shows "sint (b * push_bit n 1) = sint b * 2 ^ n"
proof -
  have "b * push_bit n 1 = word_of_int (sint b) * word_of_int (2 ^ n)"
    by (simp add: push_bit_eq_mult)
  also have "\<dots> = (word_of_int (sint b * 2 ^ n) :: int64)" by (simp only: wi_homs)
  finally have "sint (b * push_bit n 1) = signed_take_bit 63 (sint b * 2 ^ n)"
    by (simp only: sint_sbintrunc') simp
  moreover have "0 \<le> sint b * 2 ^ n" using assms(1) by simp
  ultimately show ?thesis
    using assms(2) by (simp add: signed_take_bit_int_eq_self)
qed

text \<open>A backoff never exceeds its cap, whatever the attempt and whatever wraps; and as
  long as the product fits in 63 bits it is exactly base times two to the attempt,
  capped.\<close>

theorem expBackoff_capped:
  "sint (expBackoff shift b m) \<le> sint m \<and>
   (0 < sint m \<longrightarrow> 0 < sint (expBackoff shift b m)) \<and>
   (0 \<le> shift \<longrightarrow> shift \<le> 62 \<longrightarrow> 0 < sint b \<longrightarrow> sint b * 2 ^ nat shift < 2 ^ 63 \<longrightarrow>
      sint (expBackoff shift b m) = min (sint b * 2 ^ nat shift) (sint m))"
proof -
  have "0 < sint b \<Longrightarrow> \<not> sint b * 2 ^ nat shift \<le> 0" by (simp add: not_le)
  then show ?thesis
    using sint_mult_push [of b "nat shift"] by (auto simp: expBackoff_def Let_def min_def)
qed

theorem expBackoff_capped_witness:
  "expBackoff 3 100 5000 = 800 \<and> sint (expBackoff 3 100 5000) = min (100 * 2 ^ 3) 5000"
  using expBackoff_capped [of 3 100 5000] by (simp add: expBackoff_def push_bit_eq_mult)

text \<open>The lower clamp of the backoff does not survive wrap-around: the product can
  overflow to a small positive delay, below the base delay, which is returned instead of
  the cap.\<close>

theorem expBackoff_overflow_below_base:
  "\<exists>shift b m. 0 < sint b \<and> sint b \<le> sint m \<and> 2 ^ 63 \<le> sint b * 2 ^ nat shift \<and>
     sint (expBackoff shift b m) < sint b"
proof (intro exI conjI)
  let ?b = "8589934593 :: int64" and ?m = "9000000000 :: int64"
  show "0 < sint ?b" "sint ?b \<le> sint ?m" "2 ^ 63 \<le> sint ?b * 2 ^ nat 31" by simp_all
  show "sint (expBackoff 31 ?b ?m) < sint ?b" by (simp add: expBackoff_def push_bit_eq_mult)
qed

text \<open>A positive limit is a limit: the policy allows exactly \<^verbatim>\<open>maxRetries\<close> attempts
  beyond the first.\<close>

lemma ShouldRetry_count:
  assumes "0 < rp_maxRetries r"
  shows "card {a. 0 \<le> a \<and> ShouldRetry r a (Some e)} = nat (rp_maxRetries r)"
proof -
  have "{a. 0 \<le> a \<and> ShouldRetry r a (Some e)} = {0..<rp_maxRetries r}"
    using assms by (auto simp: ShouldRetry_def)
  then show ?thesis by simp
qed

end
