(* ===== verification/Saga_Manager.thy ===== *)
theory Saga_Manager
  imports Saga_Store Command_Bus Retry_Policy
begin

text \<open>
  Sagas (\<^verbatim>\<open>saga.go\<close>) and their manager (\<^verbatim>\<open>saga_manager.go\<close>).

  A saga is a Go struct that embeds \<^verbatim>\<open>SagaBase\<close>: an extension of the record \<open>saga_base\<close>,
  the extension being the application's own fields.  Its methods \<^verbatim>\<open>HandleEvent\<close>,
  \<^verbatim>\<open>Compensate\<close>, \<^verbatim>\<open>IsComplete\<close>, \<^verbatim>\<open>Data\<close> and \<^verbatim>\<open>SetData\<close> are the fields of
  \<open>saga_app\<close>.  \<open>'w\<close> is the world the manager acts on: the saga store, the event store and
  everything the dispatched commands change; the fields of \<open>saga_env\<close> are the calls the manager
  makes on it.  A context error, the clock and the outcome of a wait are read off the world, so
  that commands, other processes and the passing of time may change them.

  Per-saga locks only order the goroutines of one process; one call of the manager is one
  function here, and what other processes do to the store shows up as a change of the world
  during a dispatch or a wait.  Logging is left out.
\<close>

section \<open>Sagas\<close>

record saga_base =
  sb_id :: string
  sb_sagaType :: string
  sb_status :: saga_status
  sb_currentStep :: int
  sb_correlationID :: string
  sb_startedAt :: time
  sb_completedAt :: "time option"
  sb_version :: int
  sb_steps :: "saga_step list"
  sb_lastEvent :: "stored_event option"

definition NewSagaBase :: "time \<Rightarrow> string \<Rightarrow> string \<Rightarrow> saga_base" where
  "NewSagaBase now i sagaType =
     \<lparr>sb_id = i, sb_sagaType = sagaType, sb_status = SagaStatusStarted, sb_currentStep = 0,
      sb_correlationID = [], sb_startedAt = now, sb_completedAt = None, sb_version = 0,
      sb_steps = [], sb_lastEvent = None\<rparr>"

definition RecordStep :: "'a saga_base_scheme \<Rightarrow> saga_step \<Rightarrow> 'a saga_base_scheme" where
  "RecordStep s step = s\<lparr>sb_steps := sb_steps s @ [step]\<rparr>"

definition lastTriggerEvent :: "'a saga_base_scheme \<Rightarrow> stored_event option" where
  "lastTriggerEvent s = sb_lastEvent s"

definition setLastTriggerEvent :: "'a saga_base_scheme \<Rightarrow> stored_event \<Rightarrow> 'a saga_base_scheme" where
  "setLastTriggerEvent s e = s\<lparr>sb_lastEvent := Some e\<rparr>"

definition Complete :: "time \<Rightarrow> 'a saga_base_scheme \<Rightarrow> 'a saga_base_scheme" where
  "Complete now s = s\<lparr>sb_status := SagaStatusCompleted, sb_completedAt := Some now\<rparr>"

definition Fail :: "time \<Rightarrow> 'a saga_base_scheme \<Rightarrow> 'a saga_base_scheme" where
  "Fail now s = s\<lparr>sb_status := SagaStatusFailed, sb_completedAt := Some now\<rparr>"

definition StartCompensation :: "'a saga_base_scheme \<Rightarrow> 'a saga_base_scheme" where
  "StartCompensation s = s\<lparr>sb_status := SagaStatusCompensating\<rparr>"

definition MarkCompensated :: "time \<Rightarrow> 'a saga_base_scheme \<Rightarrow> 'a saga_base_scheme" where
  "MarkCompensated now s = s\<lparr>sb_status := SagaStatusCompensated, sb_completedAt := Some now\<rparr>"

record ('a, 'c) saga_app =
  ap_HandledEvents :: "'a saga_base_scheme \<Rightarrow> string list"
  ap_HandleEvent :: "'a saga_base_scheme \<Rightarrow> stored_event \<Rightarrow> 'a saga_base_scheme \<times> (error + 'c list)"
  ap_Compensate :: "'a saga_base_scheme \<Rightarrow> int \<Rightarrow> error \<Rightarrow> 'a saga_base_scheme \<times> (error + 'c list)"
  ap_IsComplete :: "'a saga_base_scheme \<Rightarrow> bool"
  ap_Data :: "'a saga_base_scheme \<Rightarrow> gdata option"
  ap_SetData :: "'a saga_base_scheme \<Rightarrow> gdata option \<Rightarrow> 'a saga_base_scheme"

record saga_correlation =
  sc_SagaType :: string
  sc_StartingEvents :: "string list"
  sc_CorrelationIDFunc :: "stored_event \<Rightarrow> string"

section \<open>The manager and what it calls\<close>

text \<open>The saga store.  The type-scoped look-up is optional; a look-up may return a nil state.\<close>

record 'w saga_ops =
  so_Save :: "ctx \<Rightarrow> time \<Rightarrow> 'w \<Rightarrow> saga_state option \<Rightarrow> 'w \<times> saga_state option \<times> error option"
  so_Load :: "ctx \<Rightarrow> 'w \<Rightarrow> string \<Rightarrow> error + saga_state option"
  so_FindByCorrelationID :: "ctx \<Rightarrow> 'w \<Rightarrow> string \<Rightarrow> error + saga_state option"
  so_FindByCorrelationIDAndType ::
    "(ctx \<Rightarrow> 'w \<Rightarrow> string \<Rightarrow> string \<Rightarrow> error + saga_state option) option"
  so_FindByType :: "ctx \<Rightarrow> 'w \<Rightarrow> string \<Rightarrow> saga_status list \<Rightarrow> error + saga_state list"

text \<open>\<open>sv_wait\<close> lets the world run for a delay, \<open>sv_jsonEvent\<close> is the JSON re-decode of a
  captured event, \<open>sv_eventStore\<close> is \<open>None\<close> for a manager built without an event store and
  \<open>sv_GetStreamEvents\<close> for an adapter that cannot page a stream.\<close>

record ('c, 'w, 'd) saga_env =
  sv_now :: "'w \<Rightarrow> time"
  sv_ctx :: "'w \<Rightarrow> ctx"
  sv_wait :: "'w \<Rightarrow> duration \<Rightarrow> 'w"
  sv_Dispatch :: "'w \<Rightarrow> 'c \<Rightarrow> 'w \<times> command_result \<times> error option"
  sv_store :: "'w saga_ops"
  sv_gl :: "'d go_lib"
  sv_eventStore :: "'d event_store option"
  sv_adapter :: "'w adapter_ops"
  sv_GetStreamEvents :: "('w \<Rightarrow> string \<Rightarrow> int \<Rightarrow> int \<Rightarrow> error + stored_event list) option"
  sv_jsonEvent :: "gvalue \<Rightarrow> stored_event option"

record retry_event =
  re_SagaID :: string
  re_SagaType :: string
  re_FromStatus :: saga_status
  re_ResultStatus :: saga_status
  re_At :: time
  re_Err :: "error option"

record 'a saga_manager =
  sm_registry :: "(string, time \<Rightarrow> string \<Rightarrow> 'a saga_base_scheme) gomap"
  sm_correlations :: "(string, saga_correlation list) gomap"
  sm_eventHandlers :: "(string, string list) gomap"
  sm_retryAttempts :: int
  sm_retryDelay :: duration
  sm_sagaTimeout :: duration
  sm_captureLastEvent :: bool
  sm_observed :: bool
  sm_notified :: "retry_event list"
  sm_position :: nat
  sm_running :: bool
  sm_processedEvents :: "(string, string list) gomap"

definition maxProcessedEventsToTrack :: nat where "maxProcessedEventsToTrack = 100"
definition reservedLastEventKey :: string where "reservedLastEventKey = ''__mink_last_event''"
definition sagaTriggerLocatorKey :: string where "sagaTriggerLocatorKey = CHR 0x24 # ''saga_trigger_locator''"

type_synonym 'a saga_option = "'a saga_manager \<Rightarrow> 'a saga_manager"

definition WithSagaTimeout :: "duration \<Rightarrow> 'a saga_option" where
  "WithSagaTimeout d m = m\<lparr>sm_sagaTimeout := d\<rparr>"

definition WithSagaRetryAttempts :: "int \<Rightarrow> 'a saga_option" where
  "WithSagaRetryAttempts attempts m = m\<lparr>sm_retryAttempts := (if attempts < 1 then 1 else attempts)\<rparr>"

definition WithSagaRetryDelay :: "duration \<Rightarrow> 'a saga_option" where
  "WithSagaRetryDelay d m = m\<lparr>sm_retryDelay := d\<rparr>"

definition WithSagaRetryCapture :: "'a saga_option" where
  "WithSagaRetryCapture m = m\<lparr>sm_captureLastEvent := True\<rparr>"

definition WithSagaRetryObserver :: "'a saga_option" where
  "WithSagaRetryObserver m = m\<lparr>sm_observed := True\<rparr>"

definition NewSagaManager :: "'a saga_option list \<Rightarrow> 'a saga_manager" where
  "NewSagaManager opts = fold (\<lambda>opt m. opt m) opts
     \<lparr>sm_registry = [], sm_correlations = [], sm_eventHandlers = [], sm_retryAttempts = 3,
      sm_retryDelay = 1000000000, sm_sagaTimeout = 0, sm_captureLastEvent = False, sm_observed = False,
      sm_notified = [], sm_position = 0, sm_running = False, sm_processedEvents = []\<rparr>"

definition gm_get_list :: "(string, 'v list) gomap \<Rightarrow> string \<Rightarrow> 'v list" where
  "gm_get_list m k = (case map_of m k of None \<Rightarrow> [] | Some vs \<Rightarrow> vs)"

definition Register ::
  "('a, 'c) saga_app \<Rightarrow> time \<Rightarrow> 'a saga_manager \<Rightarrow> string \<Rightarrow> (time \<Rightarrow> string \<Rightarrow> 'a saga_base_scheme) \<Rightarrow>
   saga_correlation \<Rightarrow> 'a saga_manager" where
  "Register app now m sagaType factory correlation =
     (let saga = factory now []
      in m\<lparr>sm_registry := AList.update sagaType factory (sm_registry m),
           sm_correlations := AList.update sagaType (gm_get_list (sm_correlations m) sagaType @ [correlation])
             (sm_correlations m),
           sm_eventHandlers := fold (\<lambda>eventType h. AList.update eventType (gm_get_list h eventType @ [sagaType]) h)
             (ap_HandledEvents app saga) (sm_eventHandlers m)\<rparr>)"

definition RegisterSimple ::
  "('a, 'c) saga_app \<Rightarrow> time \<Rightarrow> 'a saga_manager \<Rightarrow> string \<Rightarrow> (time \<Rightarrow> string \<Rightarrow> 'a saga_base_scheme) \<Rightarrow>
   string list \<Rightarrow> 'a saga_manager" where
  "RegisterSimple app now m sagaType factory startingEvents =
     Register app now m sagaType factory
       \<lparr>sc_SagaType = sagaType, sc_StartingEvents = startingEvents, sc_CorrelationIDFunc = se_StreamID\<rparr>"

definition SetPosition :: "'a saga_manager \<Rightarrow> nat \<Rightarrow> 'a saga_manager" where
  "SetPosition m pos = m\<lparr>sm_position := pos\<rparr>"

fun isShutdownError :: "error \<Rightarrow> bool" where
  "isShutdownError err \<longleftrightarrow> errors_Is err ErrContextCanceled \<or> errors_Is err ErrContextDeadlineExceeded"

fun isStartingEvent :: "string list \<Rightarrow> string \<Rightarrow> bool" where
  "isStartingEvent [] eventType \<longleftrightarrow> False"
| "isStartingEvent (e # es) eventType \<longleftrightarrow> e = eventType \<or> isStartingEvent es eventType"

section \<open>Idempotency keys and captured events\<close>

definition eventKey :: "stored_event \<Rightarrow> string" where
  "eventKey event = se_ID event @ '':'' @ itoa (int (se_GlobalPosition event))"

definition eventAlreadyProcessed :: "'a saga_manager \<Rightarrow> 'a saga_base_scheme \<Rightarrow> stored_event \<Rightarrow> bool" where
  "eventAlreadyProcessed m saga event =
     (case map_of (sm_processedEvents m) (sb_id saga) of
        None \<Rightarrow> False
      | Some events \<Rightarrow> eventKey event \<in> set events)"

definition removeProcessedEventKey :: "string list \<Rightarrow> string \<Rightarrow> string list" where
  "removeProcessedEventKey events key = filter (\<lambda>e. e \<noteq> key) events"

definition captureTriggerEvent ::
  "'a saga_manager \<Rightarrow> 'a saga_base_scheme \<Rightarrow> stored_event \<Rightarrow> 'a saga_base_scheme" where
  "captureTriggerEvent m saga event =
     (if \<not> sm_captureLastEvent m then saga
      else if se_ID event = [] \<and> se_Type event = [] then saga
      else setLastTriggerEvent saga event)"

definition captureCandidate :: "stored_event \<Rightarrow> stored_event" where
  "captureCandidate raw =
     (if \<not> IsEncrypted (se_Metadata raw) then raw
      else raw\<lparr>se_Data := [],
               se_Metadata := empty_metadata\<lparr>md_Custom := Some [(sagaTriggerLocatorKey, ''true'')]\<rparr>\<rparr>)"

definition isTriggerLocator :: "stored_event \<Rightarrow> bool" where
  "isTriggerLocator captured \<longleftrightarrow> custom_get (se_Metadata captured) sagaTriggerLocatorKey = Some ''true''"

definition matchTriggerLocator :: "stored_event \<Rightarrow> stored_event \<Rightarrow> error option" where
  "matchTriggerLocator ev loc =
     (let mismatch = (\<lambda>field. Some (Errorf (''mink: captured trigger event locator does not match the stored event: '' @ field)))
      in if se_ID loc \<noteq> [] \<and> se_ID ev \<noteq> se_ID loc then mismatch ''id''
         else if se_Type loc \<noteq> [] \<and> se_Type ev \<noteq> se_Type loc then mismatch ''type''
         else if se_Version loc > 0 \<and> se_Version ev \<noteq> se_Version loc then mismatch ''version''
         else if se_GlobalPosition loc > 0 \<and> se_GlobalPosition ev \<noteq> se_GlobalPosition loc
         then mismatch ''global position''
         else None)"

fun locator_scan :: "stored_event \<Rightarrow> stored_event list \<Rightarrow> stored_event option" where
  "locator_scan loc [] = None"
| "locator_scan loc (ev # rest) =
     (if se_Version loc > 0 \<and> se_Version ev = se_Version loc \<or>
         se_Version loc \<le> 0 \<and> se_ID loc \<noteq> [] \<and> se_ID ev = se_ID loc
      then Some ev else locator_scan loc rest)"

definition loadTriggerEventRaw ::
  "('c, 'w, 'd) saga_env \<Rightarrow> 'w \<Rightarrow> stored_event \<Rightarrow> error + stored_event option" where
  "loadTriggerEventRaw env w loc =
     (let fromVersion = (if se_Version loc - 1 < 0 then 0 else se_Version loc - 1)
      in (case (if se_Version loc > 0 then sv_GetStreamEvents env else None) of
            Some page \<Rightarrow>
              (case page w (se_StreamID loc) fromVersion 1 of
                 Inl err \<Rightarrow> Inl err
               | Inr [] \<Rightarrow> Inr None
               | Inr (ev # _) \<Rightarrow> if se_Version ev \<noteq> se_Version loc then Inr None else Inr (Some ev))
          | None \<Rightarrow>
              (case LoadRaw (sv_adapter env) w (se_StreamID loc) fromVersion of
                 Inl err \<Rightarrow> Inl err
               | Inr events \<Rightarrow> Inr (locator_scan loc events))))"

definition reloadTriggerEvent :: "('c, 'w, 'd) saga_env \<Rightarrow> 'w \<Rightarrow> stored_event \<Rightarrow> error + stored_event" where
  "reloadTriggerEvent env w loc =
     (case sv_eventStore env of
        None \<Rightarrow> Inl (Errorf ''mink: captured trigger event is a locator but the saga manager has no event store to reload it from'')
      | Some es \<Rightarrow>
          if se_StreamID loc = [] then Inl (Errorf ''mink: captured trigger event locator has no stream id'')
          else (case loadTriggerEventRaw env w loc of
            Inl err \<Rightarrow> Inl (Wrap ''mink: reload captured trigger event'' err)
          | Inr None \<Rightarrow> Inl (Errorf ''mink: captured trigger event not found in event store'')
          | Inr (Some raw) \<Rightarrow>
              (case matchTriggerLocator raw loc of
                 Some err \<Rightarrow> Inl err
               | None \<Rightarrow> DecryptStoredEvent (sv_gl env) es raw)))"

definition decryptEvent :: "('c, 'w, 'd) saga_env \<Rightarrow> stored_event \<Rightarrow> error + stored_event" where
  "decryptEvent env event =
     (case sv_eventStore env of None \<Rightarrow> Inr event | Some es \<Rightarrow> DecryptStoredEvent (sv_gl env) es event)"

definition decodeLastEvent :: "('c, 'w, 'd) saga_env \<Rightarrow> gvalue \<Rightarrow> stored_event option" where
  "decodeLastEvent env raw =
     (case raw of
        GStoredEvent v \<Rightarrow> Some v
      | _ \<Rightarrow>
          (case sv_jsonEvent env raw of
             None \<Rightarrow> None
           | Some ev \<Rightarrow> if se_ID ev = [] \<and> se_Type ev = [] then None else Some ev))"

definition data_entries :: "gdata option \<Rightarrow> gdata" where
  "data_entries d = (case d of None \<Rightarrow> [] | Some m \<Rightarrow> m)"

definition cloneSagaData :: "gdata option \<Rightarrow> gdata" where
  "cloneSagaData data = map (\<lambda>(k, v). (k, v)) (data_entries data)"

definition cloneSagaDataWithout :: "gdata option \<Rightarrow> string \<Rightarrow> gdata option" where
  "cloneSagaDataWithout data key =
     (if length (data_entries data) \<le> 1 then None
      else Some (filter (\<lambda>(k, v). k \<noteq> key) (data_entries data)))"

section \<open>Loading and saving\<close>

definition persistData :: "('a, 'c) saga_app \<Rightarrow> 'a saga_manager \<Rightarrow> 'a saga_base_scheme \<Rightarrow> gdata option" where
  "persistData app m saga =
     (if sm_captureLastEvent m
      then (case lastTriggerEvent saga of
              None \<Rightarrow> ap_Data app saga
            | Some ev \<Rightarrow>
                Some (AList.update reservedLastEventKey (GStoredEvent ev) (cloneSagaData (ap_Data app saga))))
      else ap_Data app saga)"

definition processed_keys :: "'a saga_manager \<Rightarrow> string \<Rightarrow> stored_event option \<Rightarrow> string list" where
  "processed_keys m sagaID currentEvent =
     (let known = gm_get_list (sm_processedEvents m) sagaID;
          keys = (case currentEvent of None \<Rightarrow> known | Some e \<Rightarrow> known @ [eventKey e])
      in if length keys > maxProcessedEventsToTrack
         then drop (length keys - maxProcessedEventsToTrack) keys else keys)"

definition saga_to_state ::
  "('a, 'c) saga_app \<Rightarrow> 'a saga_manager \<Rightarrow> time \<Rightarrow> 'a saga_base_scheme \<Rightarrow> stored_event option \<Rightarrow> saga_state" where
  "saga_to_state app m now saga currentEvent =
     \<lparr>sg_ID = sb_id saga, sg_Type = sb_sagaType saga, sg_CorrelationID = sb_correlationID saga,
      sg_Status = sb_status saga, sg_CurrentStep = sb_currentStep saga,
      sg_Data = persistData app m saga,
      sg_ProcessedEvents = processed_keys m (sb_id saga) currentEvent,
      sg_Steps = sb_steps saga, sg_StartedAt = sb_startedAt saga, sg_UpdatedAt = now,
      sg_CompletedAt = sb_completedAt saga, sg_FailureReason = [], sg_Version = sb_version saga\<rparr>"

definition saveSaga ::
  "('c, 'w, 'd) saga_env \<Rightarrow> ('a, 'c) saga_app \<Rightarrow> 'a saga_manager \<Rightarrow> 'w \<Rightarrow> 'a saga_base_scheme \<Rightarrow>
   stored_event option \<Rightarrow> 'a saga_manager \<times> 'w \<times> 'a saga_base_scheme \<times> error option" where
  "saveSaga env app m w saga currentEvent =
     (let sagaID = sb_id saga;
          state = saga_to_state app m (sv_now env w) saga currentEvent
      in (case so_Save (sv_store env) (sv_ctx env w) (sv_now env w) w (Some state) of
            (w', _, Some err) \<Rightarrow> (m, w', saga, Some err)
          | (w', state', None) \<Rightarrow>
              let saga' = saga\<lparr>sb_version := (case state' of None \<Rightarrow> sb_version saga | Some s \<Rightarrow> sg_Version s)\<rparr>;
                  cache = AList.update sagaID (sg_ProcessedEvents state) (sm_processedEvents m)
              in (m\<lparr>sm_processedEvents := (if SagaStatus_IsTerminal (sb_status saga)
                      then AList.delete sagaID cache else cache)\<rparr>, w', saga', None)))"

definition hydrateSaga ::
  "('c, 'w, 'd) saga_env \<Rightarrow> ('a, 'c) saga_app \<Rightarrow> 'a saga_manager \<Rightarrow> 'a saga_base_scheme \<Rightarrow> saga_state \<Rightarrow>
   'a saga_manager \<times> 'a saga_base_scheme" where
  "hydrateSaga env app m saga state =
     (let s1 = saga\<lparr>sb_status := sg_Status state, sb_currentStep := sg_CurrentStep state,
                    sb_correlationID := sg_CorrelationID state, sb_startedAt := sg_StartedAt state,
                    sb_completedAt := sg_CompletedAt state, sb_version := sg_Version state\<rparr>;
          (s2, data) =
            (case map_of (data_entries (sg_Data state)) reservedLastEventKey of
               None \<Rightarrow> (s1, sg_Data state)
             | Some raw \<Rightarrow>
                 ((case decodeLastEvent env raw of None \<Rightarrow> s1 | Some ev \<Rightarrow> setLastTriggerEvent s1 ev),
                  cloneSagaDataWithout (sg_Data state) reservedLastEventKey));
          s3 = (ap_SetData app s2 data)\<lparr>sb_steps := sg_Steps state\<rparr>
      in (if length (sg_ProcessedEvents state) > 0
          then m\<lparr>sm_processedEvents := AList.update (sb_id s3) (sg_ProcessedEvents state) (sm_processedEvents m)\<rparr>
          else m, s3))"

section \<open>Dispatching and compensating\<close>

text \<open>The delay before a retry, doubled each time in signed 64-bit arithmetic.\<close>

definition backoff_delay :: "duration \<Rightarrow> nat \<Rightarrow> duration" where
  "backoff_delay retryDelay attempt =
     sint ((word_of_int retryDelay :: int64) * push_bit (attempt - 1) 1)"

text \<open>\<open>n\<close> counts the attempts that remain of \<open>tot\<close>.\<close>

fun dispatch_loop ::
  "('c, 'w, 'd) saga_env \<Rightarrow> duration \<Rightarrow> nat \<Rightarrow> 'c \<Rightarrow> nat \<Rightarrow> error option \<Rightarrow> 'w \<Rightarrow> 'w \<times> error option" where
  "dispatch_loop env delay tot cmd 0 lastErr w =
     (w, Some (case lastErr of None \<Rightarrow> Errorf ''mink: command failed''
               | Some e \<Rightarrow> Wrap ''mink: command failed'' e))"
| "dispatch_loop env delay tot cmd (Suc n) lastErr w =
     (let attempt = tot - Suc n;
          w1 = (if attempt > 0 then sv_wait env w (backoff_delay delay attempt) else w)
      in (case (if attempt > 0 then sv_ctx env w1 else None) of
            Some e \<Rightarrow> (w1, Some e)
          | None \<Rightarrow>
              (case sv_Dispatch env w1 cmd of
                 (w2, result, err) \<Rightarrow>
                   if err = None \<and> cr_Success result then (w2, None)
                   else dispatch_loop env delay tot cmd n
                          (Some (case err of
                                   Some e \<Rightarrow> e
                                 | None \<Rightarrow> (case cr_Error result of Some e \<Rightarrow> e | None \<Rightarrow> ErrCommandUnsuccessful))) w2)))"

definition dispatchCommand ::
  "('c, 'w, 'd) saga_env \<Rightarrow> 'a saga_manager \<Rightarrow> 'w \<Rightarrow> 'c \<Rightarrow> 'w \<times> error option" where
  "dispatchCommand env m w cmd =
     dispatch_loop env (sm_retryDelay m) (nat (sm_retryAttempts m)) cmd (nat (sm_retryAttempts m)) None w"

fun compensate_loop ::
  "('c, 'w, 'd) saga_env \<Rightarrow> 'a saga_manager \<Rightarrow> 'w \<Rightarrow> 'c list \<Rightarrow> bool \<Rightarrow> 'w \<times> bool" where
  "compensate_loop env m w [] compensationFailed = (w, compensationFailed)"
| "compensate_loop env m w (cmd # cmds) compensationFailed =
     (case dispatchCommand env m w cmd of
        (w', None) \<Rightarrow> compensate_loop env m w' cmds compensationFailed
      | (w', Some err) \<Rightarrow> compensate_loop env m w' cmds True)"

definition handleSagaFailure ::
  "('c, 'w, 'd) saga_env \<Rightarrow> ('a, 'c) saga_app \<Rightarrow> 'a saga_manager \<Rightarrow> 'w \<Rightarrow> 'a saga_base_scheme \<Rightarrow> error \<Rightarrow>
   'a saga_manager \<times> 'w \<times> 'a saga_base_scheme \<times> error option" where
  "handleSagaFailure env app m w saga originalErr =
     (let s1 = saga\<lparr>sb_status := SagaStatusCompensating\<rparr>
      in (case ap_Compensate app s1 (sb_currentStep s1) originalErr of
            (s2, Inl err) \<Rightarrow> saveSaga env app m w (s2\<lparr>sb_status := SagaStatusFailed\<rparr>) None
          | (s2, Inr cmds) \<Rightarrow>
              (case compensate_loop env m w cmds False of
                 (w', compensationFailed) \<Rightarrow>
                   saveSaga env app m w'
                     (s2\<lparr>sb_status := (if compensationFailed then SagaStatusCompensationFailed else SagaStatusCompensated),
                         sb_completedAt := Some (sv_now env w')\<rparr>) None)))"

fun command_loop ::
  "('c, 'w, 'd) saga_env \<Rightarrow> 'a saga_manager \<Rightarrow> 'w \<Rightarrow> 'a saga_base_scheme \<Rightarrow> 'c list \<Rightarrow>
   'w \<times> 'a saga_base_scheme \<times> error option" where
  "command_loop env m w saga [] = (w, saga, None)"
| "command_loop env m w saga (cmd # cmds) =
     (case dispatchCommand env m w cmd of
        (w', Some err) \<Rightarrow> (w', saga, Some err)
      | (w', None) \<Rightarrow> command_loop env m w' (saga\<lparr>sb_currentStep := sb_currentStep saga + 1\<rparr>) cmds)"

definition redrive ::
  "('c, 'w, 'd) saga_env \<Rightarrow> ('a, 'c) saga_app \<Rightarrow> 'a saga_manager \<Rightarrow> 'w \<Rightarrow> 'a saga_base_scheme \<Rightarrow> stored_event \<Rightarrow>
   'a saga_manager \<times> 'w \<times> 'a saga_base_scheme \<times> error option" where
  "redrive env app m w saga event =
     (case ap_HandleEvent app (saga\<lparr>sb_status := SagaStatusRunning\<rparr>) event of
        (s1, Inl err) \<Rightarrow>
          if isShutdownError err then (m, w, s1, Some err) else handleSagaFailure env app m w s1 err
      | (s1, Inr commands) \<Rightarrow>
          (case command_loop env m w s1 commands of
             (w', s2, Some err) \<Rightarrow>
               if isShutdownError err then (m, w', s2, Some err) else handleSagaFailure env app m w' s2 err
           | (w', s2, None) \<Rightarrow>
               let s3 = (if ap_IsComplete app s2
                         then s2\<lparr>sb_status := SagaStatusCompleted, sb_completedAt := Some (sv_now env w')\<rparr> else s2)
               in saveSaga env app m w' s3 (Some event)))"

section \<open>Delivering an event\<close>

definition findSagaByCorrelation ::
  "('c, 'w, 'd) saga_env \<Rightarrow> 'w \<Rightarrow> string \<Rightarrow> string \<Rightarrow> error + saga_state" where
  "findSagaByCorrelation env w sagaType correlationID =
     (case (case so_FindByCorrelationIDAndType (sv_store env) of
              Some scoped \<Rightarrow> scoped (sv_ctx env w) w correlationID sagaType
            | None \<Rightarrow> so_FindByCorrelationID (sv_store env) (sv_ctx env w) w correlationID) of
        Inl err \<Rightarrow> Inl err
      | Inr None \<Rightarrow> Inl (SagaNotFoundError [] correlationID)
      | Inr (Some state) \<Rightarrow>
          if sg_Type state \<noteq> sagaType
          then Inl (SagaTypeMismatchError correlationID (sg_ID state) sagaType (sg_Type state))
          else Inr state)"

fun resolveSagaID ::
  "('c, 'w, 'd) saga_env \<Rightarrow> 'w \<Rightarrow> string \<Rightarrow> stored_event \<Rightarrow> saga_correlation list \<Rightarrow>
   string \<times> string \<times> saga_state option \<times> bool" where
  "resolveSagaID env w sagaType event [] = ([], [], None, False)"
| "resolveSagaID env w sagaType event (correlation # rest) =
     (let corrID = sc_CorrelationIDFunc correlation event
      in if corrID = [] then resolveSagaID env w sagaType event rest
         else (case findSagaByCorrelation env w sagaType corrID of
           Inr state \<Rightarrow> (sg_ID state, corrID, Some state, False)
         | Inl err \<Rightarrow>
             if errors_Is err ErrSagaTypeMismatch then ([], corrID, None, True)
             else if isStartingEvent (sc_StartingEvents correlation) (se_Type event) then ([], corrID, None, True)
             else resolveSagaID env w sagaType event rest))"

text \<open>The loop of \<^verbatim>\<open>attemptProcessSagaEvent\<close> that finds or creates the saga; the flag says
  that it is new, \<open>None\<close> that the event concerns no saga.\<close>

fun locate_loop ::
  "('c, 'w, 'd) saga_env \<Rightarrow> ('a, 'c) saga_app \<Rightarrow> 'w \<Rightarrow> string \<Rightarrow> stored_event \<Rightarrow>
   (time \<Rightarrow> string \<Rightarrow> 'a saga_base_scheme) \<Rightarrow> saga_state option \<Rightarrow> 'a saga_manager \<Rightarrow> saga_correlation list \<Rightarrow>
   'a saga_manager \<times> (error + ('a saga_base_scheme \<times> bool) option)" where
  "locate_loop env app w sagaType event factory preloaded m [] = (m, Inr None)"
| "locate_loop env app w sagaType event factory preloaded m (correlation # rest) =
     (let correlationID = sc_CorrelationIDFunc correlation event
      in if correlationID = [] then locate_loop env app w sagaType event factory preloaded m rest
         else
           (case (case (case preloaded of
                          None \<Rightarrow> None
                        | Some p \<Rightarrow> if sg_CorrelationID p = correlationID then Some p else None) of
                    Some p \<Rightarrow> Inr (Some p)
                  | None \<Rightarrow>
                      (case findSagaByCorrelation env w sagaType correlationID of
                         Inr state \<Rightarrow> Inr (Some state)
                       | Inl err \<Rightarrow> if errors_Is err ErrSagaNotFound then Inr None else Inl err)) of
              Inl err \<Rightarrow> (m, Inl (Wrap ''mink: failed to find saga'' err))
            | Inr (Some state) \<Rightarrow>
                (case hydrateSaga env app m (factory (sv_now env w) (sg_ID state)) state of
                   (m', saga) \<Rightarrow> (m', Inr (Some (saga, False))))
            | Inr None \<Rightarrow>
                if isStartingEvent (sc_StartingEvents correlation) (se_Type event)
                then
                  let sagaID = sagaType @ ''-'' @ correlationID;
                      saga = factory (sv_now env w) sagaID
                  in if sb_sagaType saga \<noteq> sagaType
                     then (m, Inl (SagaTypeMismatchError correlationID sagaID sagaType (sb_sagaType saga)))
                     else (m, Inr (Some (saga\<lparr>sb_correlationID := correlationID, sb_status := SagaStatusStarted,
                                             sb_startedAt := sv_now env w\<rparr>, True)))
                else locate_loop env app w sagaType event factory preloaded m rest))"

definition attemptProcessSagaEvent ::
  "('c, 'w, 'd) saga_env \<Rightarrow> ('a, 'c) saga_app \<Rightarrow> 'a saga_manager \<Rightarrow> 'w \<Rightarrow> string \<Rightarrow> stored_event \<Rightarrow> stored_event \<Rightarrow>
   saga_correlation list \<Rightarrow> (time \<Rightarrow> string \<Rightarrow> 'a saga_base_scheme) \<Rightarrow> saga_state option \<Rightarrow>
   'a saga_manager \<times> 'w \<times> error option" where
  "attemptProcessSagaEvent env app m w sagaType event capture correlations factory preloaded =
     (case locate_loop env app w sagaType event factory preloaded m correlations of
        (m1, Inl err) \<Rightarrow> (m1, w, Some err)
      | (m1, Inr None) \<Rightarrow> (m1, w, None)
      | (m1, Inr (Some (saga, isNew))) \<Rightarrow>
          if \<not> isNew \<and> SagaStatus_IsTerminal (sb_status saga) then (m1, w, None)
          else if eventAlreadyProcessed m1 saga event then (m1, w, None)
          else (case redrive env app m1 w (captureTriggerEvent m1 saga capture) event of
                  (m2, w2, _, err) \<Rightarrow> (m2, w2, err)))"

text \<open>The retry loop on conflicts; \<open>n\<close> counts the attempts that remain of \<open>tot\<close>.\<close>

fun conflict_loop ::
  "('c, 'w, 'd) saga_env \<Rightarrow> ('a, 'c) saga_app \<Rightarrow> string \<Rightarrow> stored_event \<Rightarrow> stored_event \<Rightarrow>
   saga_correlation list \<Rightarrow> (time \<Rightarrow> string \<Rightarrow> 'a saga_base_scheme) \<Rightarrow> nat \<Rightarrow> nat \<Rightarrow> error option \<Rightarrow>
   'a saga_manager \<Rightarrow> 'w \<Rightarrow> 'a saga_manager \<times> 'w \<times> error option" where
  "conflict_loop env app sagaType event capture correlations factory tot 0 lastErr m w =
     (m, w, Some (case lastErr of None \<Rightarrow> Errorf ''mink: saga event processing failed''
                  | Some e \<Rightarrow> Wrap ''mink: saga event processing failed'' e))"
| "conflict_loop env app sagaType event capture correlations factory tot (Suc n) lastErr m w =
     (let attempt = tot - Suc n;
          w1 = (if attempt > 0 then sv_wait env w (backoff_delay (sm_retryDelay m) attempt) else w)
      in (case (if attempt > 0 then sv_ctx env w1 else None) of
            Some e \<Rightarrow> (m, w1, Some e)
          | None \<Rightarrow>
              (case attemptProcessSagaEvent env app m w1 sagaType event capture correlations factory None of
                 (m2, w2, None) \<Rightarrow> (m2, w2, None)
               | (m2, w2, Some err) \<Rightarrow>
                   if errors_Is err ErrConcurrencyConflict
                   then conflict_loop env app sagaType event capture correlations factory tot n (Some err) m2 w2
                   else (m2, w2, Some err))))"

definition processSagaEvent ::
  "('c, 'w, 'd) saga_env \<Rightarrow> ('a, 'c) saga_app \<Rightarrow> 'a saga_manager \<Rightarrow> 'w \<Rightarrow> string \<Rightarrow> stored_event \<Rightarrow> stored_event \<Rightarrow>
   'a saga_manager \<times> 'w \<times> error option" where
  "processSagaEvent env app m w sagaType event capture =
     (let correlations = gm_get_list (sm_correlations m) sagaType
      in (case map_of (sm_registry m) sagaType of
            None \<Rightarrow> (m, w, Some (Errorf ''mink: saga factory not found''))
          | Some factory \<Rightarrow>
              (case resolveSagaID env w sagaType event correlations of
                 (sagaID, correlationID, _, isStarting) \<Rightarrow>
                   if sagaID = [] \<and> \<not> isStarting then (m, w, None)
                   else conflict_loop env app sagaType event capture correlations factory
                          (nat (sm_retryAttempts m)) (nat (sm_retryAttempts m)) None m w)))"

fun deliver_loop ::
  "('c, 'w, 'd) saga_env \<Rightarrow> ('a, 'c) saga_app \<Rightarrow> stored_event \<Rightarrow> stored_event \<Rightarrow> 'a saga_manager \<Rightarrow> 'w \<Rightarrow> string list \<Rightarrow>
   'a saga_manager \<times> 'w" where
  "deliver_loop env app event capture m w [] = (m, w)"
| "deliver_loop env app event capture m w (sagaType # rest) =
     (case processSagaEvent env app m w sagaType event capture of
        (m', w', _) \<Rightarrow> deliver_loop env app event capture m' w' rest)"

definition processEvent ::
  "('c, 'w, 'd) saga_env \<Rightarrow> ('a, 'c) saga_app \<Rightarrow> 'a saga_manager \<Rightarrow> 'w \<Rightarrow> stored_event \<Rightarrow>
   'a saga_manager \<times> 'w \<times> error option" where
  "processEvent env app m w event =
     (let sagaTypes = gm_get_list (sm_eventHandlers m) (se_Type event)
      in if length sagaTypes = 0 then (m, w, None)
         else (case decryptEvent env event of
           Inl err \<Rightarrow> (m, w, Some (Wrap ''mink: decrypt event for saga delivery'' err))
         | Inr decrypted \<Rightarrow>
             (case deliver_loop env app decrypted (captureCandidate event) m w sagaTypes of
                (m', w') \<Rightarrow> (m', w', None))))"

definition StartSaga ::
  "('c, 'w, 'd) saga_env \<Rightarrow> ('a, 'c) saga_app \<Rightarrow> 'a saga_manager \<Rightarrow> 'w \<Rightarrow> string \<Rightarrow> stored_event \<Rightarrow>
   'a saga_manager \<times> 'w \<times> error option" where
  "StartSaga env app m w sagaType triggerEvent =
     (case map_of (sm_registry m) sagaType of
        None \<Rightarrow> (m, w, Some (Errorf ''mink: saga type not registered''))
      | Some factory \<Rightarrow>
          let correlations = gm_get_list (sm_correlations m) sagaType
          in if length correlations = 0 then (m, w, Some (Errorf ''mink: no correlations defined for saga type''))
             else if \<not> list_ex (\<lambda>c. isStartingEvent (sc_StartingEvents c) (se_Type triggerEvent)) correlations
             then (m, w, Some (Errorf ''mink: event type is not a starting event for saga''))
             else processSagaEvent env app m w sagaType triggerEvent (captureCandidate triggerEvent))"

section \<open>Timeouts and the event loop\<close>

definition timeoutSaga ::
  "('c, 'w, 'd) saga_env \<Rightarrow> ('a, 'c) saga_app \<Rightarrow> string \<Rightarrow> saga_state \<Rightarrow> 'a saga_manager \<times> 'w \<Rightarrow> 'a saga_manager \<times> 'w" where
  "timeoutSaga env app sagaType state mw =
     (case mw of (m, w) \<Rightarrow>
        (case map_of (sm_registry m) sagaType of
           None \<Rightarrow> (m, w)
         | Some factory \<Rightarrow>
             (case so_Load (sv_store env) (sv_ctx env w) w (sg_ID state) of
                Inl err \<Rightarrow> (m, w)
              | Inr None \<Rightarrow> (m, w)
              | Inr (Some fresh) \<Rightarrow>
                  if SagaStatus_IsTerminal (sg_Status fresh) then (m, w)
                  else (case hydrateSaga env app m (factory (sv_now env w) (sg_ID fresh)) fresh of
                          (m1, saga) \<Rightarrow>
                            (case handleSagaFailure env app m1 w saga ErrSagaTimedOut of
                               (m2, w2, _, _) \<Rightarrow> (m2, w2))))))"

definition sweepTimeouts ::
  "('c, 'w, 'd) saga_env \<Rightarrow> ('a, 'c) saga_app \<Rightarrow> 'a saga_manager \<Rightarrow> 'w \<Rightarrow> 'a saga_manager \<times> 'w" where
  "sweepTimeouts env app m w =
     (if sm_sagaTimeout m \<le> 0 then (m, w)
      else
        let sagaTypes = map fst (sm_registry m);
            cutoff = sv_now env w - sm_sagaTimeout m
        in fold (\<lambda>sagaType mw.
             (case so_FindByType (sv_store env) (sv_ctx env (snd mw)) (snd mw) sagaType [SagaStatusRunning] of
                Inl err \<Rightarrow> mw
              | Inr states \<Rightarrow>
                  fold (\<lambda>state mw. if sg_UpdatedAt state > cutoff then mw
                                   else timeoutSaga env app sagaType state mw) states mw)) sagaTypes (m, w))"

text \<open>What one iteration of the select of \<^verbatim>\<open>Start\<close> receives: an event, a tick of the sweep, or
  the end of the context.  A run of the loop is the list of what it received; the list ends
  when the channel is closed.\<close>

datatype start_input = Deliver stored_event | SweepTick | Cancelled error

fun start_loop ::
  "('c, 'w, 'd) saga_env \<Rightarrow> ('a, 'c) saga_app \<Rightarrow> 'a saga_manager \<Rightarrow> 'w \<Rightarrow> start_input list \<Rightarrow>
   'a saga_manager \<times> 'w \<times> error option" where
  "start_loop env app m w [] = (m, w, None)"
| "start_loop env app m w (Cancelled e # rest) = (m, w, Some e)"
| "start_loop env app m w (SweepTick # rest) =
     (case sweepTimeouts env app m w of (m', w') \<Rightarrow> start_loop env app m' w' rest)"
| "start_loop env app m w (Deliver event # rest) =
     (case processEvent env app m w event of
        (m', w', _) \<Rightarrow>
          (case sv_ctx env w' of
             Some e \<Rightarrow> (m', w', Some e)
           | None \<Rightarrow> start_loop env app (m'\<lparr>sm_position := se_GlobalPosition event + 1\<rparr>) w' rest))"

text \<open>\<open>subscribe\<close> is the adapter's \<^verbatim>\<open>SubscribeAll\<close> from a position, \<open>None\<close> when it has none;
  \<open>store\<close> and \<open>bus\<close> say whether a saga store and a command bus are configured.\<close>

definition Start ::
  "('c, 'w, 'd) saga_env \<Rightarrow> ('a, 'c) saga_app \<Rightarrow> bool \<Rightarrow> bool \<Rightarrow> ('w \<Rightarrow> nat \<Rightarrow> 'w \<times> error option) option \<Rightarrow>
   'a saga_manager \<Rightarrow> 'w \<Rightarrow> start_input list \<Rightarrow> 'a saga_manager \<times> 'w \<times> error option" where
  "Start env app store bus subscribe m w inputs =
     (if sm_running m then (m, w, Some (Errorf ''mink: saga manager already running''))
      else if \<not> store then (m, w, Some (Errorf ''mink: saga store is required''))
      else if \<not> bus then (m, w, Some (Errorf ''mink: command bus is required''))
      else (case subscribe of
        None \<Rightarrow> (m, w, Some ErrSubscriptionNotSupported)
      | Some sub \<Rightarrow>
          (case sub w (sm_position m) of
             (w1, Some err) \<Rightarrow> (m, w1, Some (Wrap ''mink: failed to subscribe'' err))
           | (w1, None) \<Rightarrow>
               (case start_loop env app (m\<lparr>sm_running := True\<rparr>) w1 inputs of
                  (m', w', r) \<Rightarrow> (m'\<lparr>sm_running := False\<rparr>, w', r)))))"

section \<open>Operator re-drives\<close>

definition recordRetryStep :: "time \<Rightarrow> 'a saga_base_scheme \<Rightarrow> saga_status \<Rightarrow> 'a saga_base_scheme" where
  "recordRetryStep now saga fromStatus =
     RecordStep saga
       \<lparr>ss_Name = ''operator re-drive (from '' @ SagaStatus_String fromStatus @ '')'',
        ss_Index = sb_currentStep saga, ss_Status = SagaStepCompleted, ss_Command = [],
        ss_CompletedAt = Some now, ss_Error = []\<rparr>"

definition notifyRetry :: "'a saga_manager \<Rightarrow> retry_event \<Rightarrow> 'a saga_manager" where
  "notifyRetry m ev = (if sm_observed m then m\<lparr>sm_notified := sm_notified m @ [ev]\<rparr> else m)"

definition not_retryable :: "string \<Rightarrow> saga_status \<Rightarrow> string \<Rightarrow> error" where
  "not_retryable sagaID status reason = SagaNotRetryableError sagaID (SagaStatus_String status) reason"

text \<open>The result is a set-up error, or the driven saga with the status it was driven from and the
  error of the drive.\<close>

definition driveLocked ::
  "('c, 'w, 'd) saga_env \<Rightarrow> ('a, 'c) saga_app \<Rightarrow> 'a saga_manager \<Rightarrow> 'w \<Rightarrow> string \<Rightarrow> (saga_state \<Rightarrow> error option) \<Rightarrow>
   'a saga_manager \<times> 'w \<times> (error + 'a saga_base_scheme \<times> saga_status \<times> error option)" where
  "driveLocked env app m w sagaID accept =
     (case so_Load (sv_store env) (sv_ctx env w) w sagaID of
        Inl err \<Rightarrow> (m, w, Inl err)
      | Inr None \<Rightarrow> (m, w, Inl (SagaNotFoundError sagaID []))
      | Inr (Some state) \<Rightarrow>
          (case accept state of
             Some err \<Rightarrow> (m, w, Inl err)
           | None \<Rightarrow>
               (case map_of (data_entries (sg_Data state)) reservedLastEventKey of
                  None \<Rightarrow> (m, w, Inl (not_retryable sagaID (sg_Status state) ''no captured trigger event to re-drive''))
                | Some raw \<Rightarrow>
                    (case decodeLastEvent env raw of
                       None \<Rightarrow> (m, w, Inl (not_retryable sagaID (sg_Status state) ''captured trigger event could not be decoded''))
                     | Some captured \<Rightarrow>
                         (case (if isTriggerLocator captured
                                then (case reloadTriggerEvent env w captured of
                                        Inl err \<Rightarrow> Inl (Wrap ''mink: reload captured trigger event'' err) | Inr e \<Rightarrow> Inr e)
                                else (case decryptEvent env captured of
                                        Inl err \<Rightarrow> Inl (Wrap ''mink: decrypt captured trigger event'' err) | Inr e \<Rightarrow> Inr e)) of
                            Inl err \<Rightarrow> (m, w, Inl err)
                          | Inr event \<Rightarrow>
                              let state' = state\<lparr>sg_ProcessedEvents := removeProcessedEventKey (sg_ProcessedEvents state) (eventKey event),
                                             sg_Status := SagaStatusRunning, sg_FailureReason := [], sg_CompletedAt := None\<rparr>
                              in (case map_of (sm_registry m) (sg_Type state') of
                                    None \<Rightarrow> (m, w, Inl (Errorf ''mink: saga factory not found''))
                                  | Some factory \<Rightarrow>
                                      (case hydrateSaga env app m (factory (sv_now env w) (sg_ID state')) state' of
                                         (m1, saga) \<Rightarrow>
                                           let m2 = (if length (sg_ProcessedEvents state') = 0
                                                     then m1\<lparr>sm_processedEvents := AList.update sagaID [] (sm_processedEvents m1)\<rparr>
                                                     else m1);
                                               s1 = recordRetryStep (sv_now env w) saga (sg_Status state);
                                               s2 = captureTriggerEvent m2 s1 captured
                                           in (case redrive env app m2 w s2 event of
                                                 (m3, w3, s3, driveErr) \<Rightarrow>
                                                   (m3, w3, Inr (s3, sg_Status state, driveErr))))))))))"

definition reDriveUnderLock ::
  "('c, 'w, 'd) saga_env \<Rightarrow> ('a, 'c) saga_app \<Rightarrow> 'a saga_manager \<Rightarrow> 'w \<Rightarrow> string \<Rightarrow> (saga_state \<Rightarrow> error option) \<Rightarrow>
   'a saga_manager \<times> 'w \<times> saga_status \<times> error option" where
  "reDriveUnderLock env app m w sagaID accept =
     (case driveLocked env app m w sagaID accept of
        (m1, w1, Inl setupErr) \<Rightarrow> (m1, w1, SagaStatusStarted, Some setupErr)
      | (m1, w1, Inr (saga, fromStatus, driveErr)) \<Rightarrow>
          (notifyRetry m1 \<lparr>re_SagaID = sagaID, re_SagaType = sb_sagaType saga, re_FromStatus = fromStatus,
                           re_ResultStatus = sb_status saga, re_At = sv_now env w1, re_Err = driveErr\<rparr>,
           w1, sb_status saga, driveErr))"

definition retry_accept :: "string \<Rightarrow> saga_state \<Rightarrow> error option" where
  "retry_accept sagaID state =
     (if \<not> SagaStatus_IsRetryable (sg_Status state)
      then Some (not_retryable sagaID (sg_Status state)
             ''status is not retryable (expected Failed, Compensated, or CompensationFailed)'')
      else None)"

definition retrySaga ::
  "('c, 'w, 'd) saga_env \<Rightarrow> ('a, 'c) saga_app \<Rightarrow> 'a saga_manager \<Rightarrow> 'w \<Rightarrow> string \<Rightarrow>
   'a saga_manager \<times> 'w \<times> saga_status \<times> error option" where
  "retrySaga env app m w sagaID =
     (case so_Load (sv_store env) (sv_ctx env w) w sagaID of
        Inl err \<Rightarrow> (m, w, SagaStatusStarted, Some err)
      | Inr None \<Rightarrow> (m, w, SagaStatusStarted, Some (SagaNotFoundError sagaID []))
      | Inr (Some pre) \<Rightarrow>
          (case retry_accept sagaID pre of
             Some err \<Rightarrow> (m, w, SagaStatusStarted, Some err)
           | None \<Rightarrow> reDriveUnderLock env app m w sagaID (retry_accept sagaID)))"

definition RetrySaga ::
  "('c, 'w, 'd) saga_env \<Rightarrow> ('a, 'c) saga_app \<Rightarrow> 'a saga_manager \<Rightarrow> 'w \<Rightarrow> string \<Rightarrow> 'a saga_manager \<times> 'w \<times> error option" where
  "RetrySaga env app m w sagaID = (case retrySaga env app m w sagaID of (m', w', _, err) \<Rightarrow> (m', w', err))"

definition resume_accept :: "'a saga_manager \<Rightarrow> time \<Rightarrow> string \<Rightarrow> saga_state \<Rightarrow> error option" where
  "resume_accept m now sagaID state =
     (if sg_Status state \<noteq> SagaStatusRunning
      then Some (not_retryable sagaID (sg_Status state) ''only a Running saga can be resumed'')
      else if sm_sagaTimeout m \<le> 0
      then Some (not_retryable sagaID (sg_Status state) ''ResumeStalled requires a configured saga timeout'')
      else if now - sg_UpdatedAt state < sm_sagaTimeout m
      then Some (not_retryable sagaID (sg_Status state) ''saga was updated more recently than the timeout'')
      else None)"

definition ResumeStalled ::
  "('c, 'w, 'd) saga_env \<Rightarrow> ('a, 'c) saga_app \<Rightarrow> 'a saga_manager \<Rightarrow> 'w \<Rightarrow> string \<Rightarrow> 'a saga_manager \<times> 'w \<times> error option" where
  "ResumeStalled env app m w sagaID =
     (case so_Load (sv_store env) (sv_ctx env w) w sagaID of
        Inl err \<Rightarrow> (m, w, Some err)
      | Inr None \<Rightarrow> (m, w, Some (SagaNotFoundError sagaID []))
      | Inr (Some pre) \<Rightarrow>
          if sg_Status pre \<noteq> SagaStatusRunning
          then (m, w, Some (not_retryable sagaID (sg_Status pre) ''only a Running saga can be resumed''))
          else (case reDriveUnderLock env app m w sagaID (resume_accept m (sv_now env w) sagaID) of
                  (m', w', _, err) \<Rightarrow> (m', w', err)))"

datatype retry_outcome = RetrySucceeded | RetryFailedAgain | RetryConflicted | RetrySkipped

record saga_retry_result =
  rr_SagaID :: string
  rr_Outcome :: retry_outcome
  rr_Err :: "error option"

definition classify_retry :: "saga_status \<Rightarrow> error option \<Rightarrow> retry_outcome" where
  "classify_retry status retryErr =
     (case retryErr of
        None \<Rightarrow> if status = SagaStatusCompleted then RetrySucceeded else RetryFailedAgain
      | Some e \<Rightarrow>
          if errors_Is e ErrConcurrencyConflict then RetryConflicted
          else if errors_Is e ErrSagaNotRetryable then RetrySkipped
          else RetryFailedAgain)"

fun retry_batch_loop ::
  "('c, 'w, 'd) saga_env \<Rightarrow> ('a, 'c) saga_app \<Rightarrow> 'a saga_manager \<Rightarrow> 'w \<Rightarrow> saga_state list \<Rightarrow>
   'a saga_manager \<times> 'w \<times> saga_retry_result list" where
  "retry_batch_loop env app m w [] = (m, w, [])"
| "retry_batch_loop env app m w (s # rest) =
     (case retrySaga env app m w (sg_ID s) of
        (m1, w1, status, retryErr) \<Rightarrow>
          (case retry_batch_loop env app m1 w1 rest of
             (m2, w2, results) \<Rightarrow>
               (m2, w2, \<lparr>rr_SagaID = sg_ID s, rr_Outcome = classify_retry status retryErr, rr_Err = retryErr\<rparr> # results)))"

definition RetrySagasByType ::
  "('c, 'w, 'd) saga_env \<Rightarrow> ('a, 'c) saga_app \<Rightarrow> 'a saga_manager \<Rightarrow> 'w \<Rightarrow> string \<Rightarrow> saga_status list \<Rightarrow>
   'a saga_manager \<times> 'w \<times> (error + saga_retry_result list)" where
  "RetrySagasByType env app m w sagaType statuses =
     (case so_FindByType (sv_store env) (sv_ctx env w) w sagaType statuses of
        Inl err \<Rightarrow> (m, w, Inl err)
      | Inr sagas \<Rightarrow>
          (case retry_batch_loop env app m w sagas of (m', w', results) \<Rightarrow> (m', w', Inr results)))"

definition RetryReport_Count :: "saga_retry_result list \<Rightarrow> retry_outcome \<Rightarrow> nat" where
  "RetryReport_Count results o' = length (filter (\<lambda>res. rr_Outcome res = o') results)"

section \<open>The manager over the in-memory saga store\<close>

text \<open>A world with an in-memory saga store in it.\<close>

record saga_world =
  sw_store :: saga_store

definition mem_saga_ops :: "('x saga_world_scheme) saga_ops" where
  "mem_saga_ops =
     \<lparr>so_Save = (\<lambda>ctx now w st. case Saga_Save ctx now (sw_store w) st of (s', st', e) \<Rightarrow> (w\<lparr>sw_store := s'\<rparr>, st', e)),
      so_Load = (\<lambda>ctx w i. case Saga_Load ctx (sw_store w) i of Inl e \<Rightarrow> Inl e | Inr st \<Rightarrow> Inr (Some st)),
      so_FindByCorrelationID =
        (\<lambda>ctx w c. case FindByCorrelationID ctx (sw_store w) c of Inl e \<Rightarrow> Inl e | Inr st \<Rightarrow> Inr (Some st)),
      so_FindByCorrelationIDAndType =
        Some (\<lambda>ctx w c ty. case FindByCorrelationIDAndType ctx (sw_store w) c ty of
                              Inl e \<Rightarrow> Inl e | Inr st \<Rightarrow> Inr (Some st)),
      so_FindByType = (\<lambda>ctx w ty sts. FindByType ctx (sw_store w) ty sts)\<rparr>"

end
