(* ===== verification/Feed.thy ===== *)
theory Feed
  imports Event_Log "HOL-Library.List_Lexorder" "HOL-Library.Char_ord"
begin

text \<open>
  Position-ordered feeds and the paged scan over them.

  Half a dozen components walk the whole store with the same loop: load a batch after the
  last position seen, handle it, continue from the last event of the batch, stop at an
  empty batch (\<^verbatim>\<open>UnregisteredEventTypes\<close> of \<^verbatim>\<open>replay_safety.go\<close>, the subject scans of
  \<^verbatim>\<open>subject.go\<close> and \<^verbatim>\<open>subjectindex.go\<close>, the eraser, the retention manager, the
  projection rebuilder).  \<open>scan_loop\<close> is that loop; the locale \<open>position_feed\<close> is
  the \<^verbatim>\<open>LoadFromPosition\<close> contract of \<^verbatim>\<open>adapters.SubscriptionAdapter\<close>, and inside it
  the loop is shown to terminate and to visit every event exactly once, in order.  The
  in-memory adapter provides the contract.
\<close>

section \<open>The scan loop\<close>

text \<open>Handle events one by one, stop at the first error.\<close>

fun foldE :: "('e \<Rightarrow> 's \<Rightarrow> 's \<times> error option) \<Rightarrow> 'e list \<Rightarrow> 's \<Rightarrow> 's \<times> error option" where
  "foldE f [] s = (s, None)"
| "foldE f (e # es) s =
     (case f e s of (s', None) \<Rightarrow> foldE f es s' | (s', Some err) \<Rightarrow> (s', Some err))"

text \<open>The result is \<open>None\<close> only when the fuel is used up.\<close>

fun scan_loop ::
  "nat \<Rightarrow> (nat \<Rightarrow> error + 'e list) \<Rightarrow> ('e \<Rightarrow> nat) \<Rightarrow> ('e \<Rightarrow> 's \<Rightarrow> 's \<times> error option) \<Rightarrow> nat \<Rightarrow> 's \<Rightarrow>
   ('s \<times> error option) option" where
  "scan_loop 0 load pos f position s = None"
| "scan_loop (Suc fuel) load pos f position s =
     (case load position of
        Inl err \<Rightarrow> Some (s, Some err)
      | Inr batch \<Rightarrow>
          if batch = [] then Some (s, None)
          else (case foldE f batch s of
                  (s', Some err) \<Rightarrow> Some (s', Some err)
                | (s', None) \<Rightarrow> scan_loop fuel load pos f (pos (last batch)) s'))"

lemma foldE_append:
  "foldE f (xs @ ys) s =
     (case foldE f xs s of (s', None) \<Rightarrow> foldE f ys s' | (s', Some err) \<Rightarrow> (s', Some err))"
  by (induction xs arbitrary: s) (auto split: prod.splits option.splits)

lemma foldE_total:
  "(\<And>e s. e \<in> set es \<Longrightarrow> f e s = (g e s, None)) \<Longrightarrow> foldE f es s = (fold g es s, None)"
  by (induction es arbitrary: s) auto

lemma filter_gt_after_take:
  fixes pos :: "'e \<Rightarrow> nat"
  assumes "sorted_wrt (<) (map pos xs)" and "0 < n" and "xs \<noteq> []"
  shows "filter (\<lambda>e. pos (last (take n xs)) < pos e) xs = drop n xs"
proof (cases "n \<le> length xs")
  case True
  then have "last (take n xs) = xs ! (n - 1)"
    using assms(2,3) by (simp add: last_conv_nth min_def)
  moreover have "n - 1 < length xs" using True assms(2) by simp
  ultimately show ?thesis using filter_take_sorted_gt [OF assms(1), of "n - 1"] assms(2) by simp
next
  case False
  then have "take n xs = xs" "drop n xs = []" by simp_all
  moreover have "sorted_wrt (<) (map pos (butlast xs @ [last xs]))" using assms(1,3) by simp
  then have "pos e \<le> pos (last xs)" if "e \<in> set (butlast xs @ [last xs])" for e
    using that by (auto simp: sorted_wrt_append intro: less_imp_le)
  then have "pos e \<le> pos (last xs)" if "e \<in> set xs" for e
    using that assms(3) by (metis append_butlast_last_id)
  ultimately show ?thesis by (auto simp: filter_empty_conv not_less)
qed

lemma filter_gt_trans:
  fixes pos :: "'e \<Rightarrow> nat"
  assumes "p \<le> q"
  shows "filter (\<lambda>e. q < pos e) (filter (\<lambda>e. p < pos e) xs) = filter (\<lambda>e. q < pos e) xs"
  using assms by (induction xs) auto

section \<open>The contract and its client\<close>

locale position_feed =
  fixes ok :: "'a \<Rightarrow> bool"
    and events :: "'a \<Rightarrow> 'e list"
    and pos :: "'e \<Rightarrow> nat"
    and load :: "'a \<Rightarrow> nat \<Rightarrow> int \<Rightarrow> error + 'e list"
  assumes load_page: "ok a \<Longrightarrow> 0 < limit \<Longrightarrow>
      load a p limit = Inr (take (nat limit) (filter (\<lambda>e. p < pos e) (events a)))"
    and ascending: "ok a \<Longrightarrow> sorted_wrt (<) (map pos (events a))"
begin

lemma scan_visits_all:
  assumes "ok a" and "0 < limit" and "length (filter (\<lambda>e. p < pos e) (events a)) < fuel"
  shows "scan_loop fuel (\<lambda>p. load a p limit) pos f p s =
           Some (foldE f (filter (\<lambda>e. p < pos e) (events a)) s)"
  using assms(3)
proof (induction fuel arbitrary: p s)
  case (Suc fuel)
  let ?rest = "filter (\<lambda>e. p < pos e) (events a)"
  let ?n = "nat limit"
  let ?batch = "take ?n ?rest"
  have ld: "load a p limit = Inr ?batch" using assms(1,2) by (rule load_page)
  show ?case
  proof (cases "?rest = []")
    case False
    let ?q = "pos (last ?batch)"
    have ne: "?batch \<noteq> []" using False assms(2) by simp
    then have "last ?batch \<in> set ?rest" by (meson in_set_takeD last_in_set)
    then have pq: "p < ?q" by simp
    have srt: "sorted_wrt (<) (map pos ?rest)"
      using ascending [OF assms(1)] by (simp add: sorted_wrt_map sorted_wrt_filter)
    have "filter (\<lambda>e. ?q < pos e) (events a) = filter (\<lambda>e. ?q < pos e) ?rest"
      using pq by (intro filter_gt_trans [symmetric]) simp
    also have "\<dots> = drop ?n ?rest"
      using assms(2) by (intro filter_gt_after_take [OF srt _ False]) simp
    finally have rest': "filter (\<lambda>e. ?q < pos e) (events a) = drop ?n ?rest" .
    have "0 < length ?rest" "0 < ?n" using False assms(2) by auto
    then have "length (drop ?n ?rest) < fuel" using Suc.prems by (simp only: length_drop)
    then have ih: "scan_loop fuel (\<lambda>p. load a p limit) pos f ?q s' = Some (foldE f (drop ?n ?rest) s')" for s'
      using Suc.IH [of ?q s'] unfolding rest' by blast
    have "foldE f ?rest s = foldE f (?batch @ drop ?n ?rest) s" by simp
    then show ?thesis
      using ne by (simp only: scan_loop.simps ld sum.case if_False foldE_append ih)
        (auto split: prod.splits option.splits)
  qed (simp add: ld)
qed simp

text \<open>A client that starts at position 0 of a feed whose positions start at 1 sees the
  whole store.\<close>

lemma scan_whole_store:
  assumes "ok a" and "0 < limit" and "\<forall>e \<in> set (events a). 0 < pos e"
    and "length (events a) < fuel"
  shows "scan_loop fuel (\<lambda>p. load a p limit) pos f 0 s = Some (foldE f (events a) s)"
proof -
  have "filter (\<lambda>e. 0 < pos e) (events a) = events a" using assms(3) by (simp add: filter_id_conv)
  then show ?thesis using scan_visits_all [OF assms(1,2), of 0] assms(4) by simp
qed

end

section \<open>The in-memory adapter is a feed\<close>

lemma feed_loop_eq:
  assumes "int (length acc) < limit"
  shows "feed_loop p flt limit es acc =
     acc @ take (nat limit - length acc) (filter (\<lambda>e. p < se_GlobalPosition e \<and> FeedFilter_Matches flt e) es)"
  using assms
proof (induction es arbitrary: acc)
  case (Cons e es)
  show ?case
  proof (cases "p < se_GlobalPosition e \<and> FeedFilter_Matches flt e")
    case True
    have "nat limit - length acc = Suc (nat limit - Suc (length acc))" using Cons.prems by simp
    then show ?thesis
      using True Cons.prems Cons.IH [of "acc @ [e]"]
      by (auto simp: Let_def not_le)
  qed (use Cons in auto)
qed simp

lemma LoadFromPositionFiltered_eq:
  assumes "\<not> ma_closed a"
  shows "LoadFromPositionFiltered None a p limit flt =
     Inr (take (nat (DefaultLimit limit 1000))
       (filter (\<lambda>e. p < se_GlobalPosition e \<and> FeedFilter_Matches flt e) (ma_globalEvents a)))"
  using assms feed_loop_eq [of "[]" "DefaultLimit limit 1000" p flt "ma_globalEvents a"]
  by (simp add: LoadFromPositionFiltered_def guarded_def DefaultLimit_def)

definition feed_ready :: "memory_adapter \<Rightarrow> bool" where
  "feed_ready a \<longleftrightarrow> mem_inv a \<and> \<not> ma_closed a"

lemma sorted_positions: "mem_inv a \<Longrightarrow> sorted_wrt (<) (map se_GlobalPosition (ma_globalEvents a))"
  by (simp add: mem_inv_def log_ok_def del: upt_Suc)

lemma positive_positions:
  assumes "mem_inv a" and "e \<in> set (ma_globalEvents a)"
  shows "0 < se_GlobalPosition e"
proof -
  have "map se_GlobalPosition (ma_globalEvents a) = [1..<Suc (length (ma_globalEvents a))]"
    using assms(1) by (simp add: mem_inv_def log_ok_def del: upt_Suc)
  then have "se_GlobalPosition e \<in> set [1..<Suc (length (ma_globalEvents a))]"
    using assms(2) by (metis image_eqI list.set_map)
  then show ?thesis by auto
qed

interpretation mem_feed: position_feed feed_ready ma_globalEvents se_GlobalPosition "LoadFromPosition None"
  by unfold_locales
    (simp_all add: feed_ready_def LoadFromPosition_def LoadFromPositionFiltered_eq DefaultLimit_def
      sorted_positions)

section \<open>The event store's position reads and the type audit\<close>

text \<open>\<^verbatim>\<open>mink.StoredEvent\<close> and \<^verbatim>\<open>adapters.StoredEvent\<close> have the same fields and are one
  record here; the conversions copy field by field.\<close>

definition convertMetadataFromAdapter :: "metadata \<Rightarrow> metadata" where
  "convertMetadataFromAdapter m =
     \<lparr>md_CorrelationID = md_CorrelationID m, md_CausationID = md_CausationID m,
      md_UserID = md_UserID m, md_TenantID = md_TenantID m, md_Custom = md_Custom m\<rparr>"

definition convertMetadataToAdapter :: "metadata \<Rightarrow> metadata" where
  "convertMetadataToAdapter m =
     \<lparr>md_CorrelationID = md_CorrelationID m, md_CausationID = md_CausationID m,
      md_UserID = md_UserID m, md_TenantID = md_TenantID m, md_Custom = md_Custom m\<rparr>"

definition convertStoredEventFromAdapter :: "stored_event \<Rightarrow> stored_event" where
  "convertStoredEventFromAdapter s =
     \<lparr>se_ID = se_ID s, se_StreamID = se_StreamID s, se_Type = se_Type s, se_Data = se_Data s,
      se_Metadata = convertMetadataFromAdapter (se_Metadata s), se_Version = se_Version s,
      se_GlobalPosition = se_GlobalPosition s, se_Timestamp = se_Timestamp s\<rparr>"

lemma convert_id [simp]:
  "convertMetadataFromAdapter m = m" "convertMetadataToAdapter m = m"
  "convertStoredEventFromAdapter s = s"
  by (simp_all add: convertMetadataFromAdapter_def convertMetadataToAdapter_def
      convertStoredEventFromAdapter_def)

lemma map_convert_id [simp]: "map convertStoredEventFromAdapter es = es"
  by (simp add: map_idI)

text \<open>An optional capability of the adapter (\<^verbatim>\<open>s.adapter.(adapters.SubscriptionAdapter)\<close>)
  is an option: \<open>None\<close> when the adapter does not implement the interface.\<close>

definition LoadEventsFromPosition ::
  "(nat \<Rightarrow> int \<Rightarrow> error + stored_event list) option \<Rightarrow> nat \<Rightarrow> int \<Rightarrow> error + stored_event list" where
  "LoadEventsFromPosition subAdapter fromPosition limit =
     (case subAdapter of
        None \<Rightarrow> Inl ErrSubscriptionNotSupported
      | Some load \<Rightarrow>
          (case load fromPosition limit of
             Inl err \<Rightarrow> Inl err
           | Inr events \<Rightarrow> Inr (map convertStoredEventFromAdapter events)))"

definition unregisteredSorted :: "string list \<Rightarrow> (string \<Rightarrow> bool) \<Rightarrow> string list" where
  "unregisteredSorted seen isRegistered = sort (filter (\<lambda>t. \<not> isRegistered t) seen)"

definition UnregisteredStreamTypes ::
  "(string \<Rightarrow> bool) option \<Rightarrow> (string \<Rightarrow> int \<Rightarrow> error + stored_event list) \<Rightarrow> string \<Rightarrow> error + string list" where
  "UnregisteredStreamTypes registrar load streamID =
     (case registrar of
        None \<Rightarrow> Inr []
      | Some r \<Rightarrow>
          (case load streamID 0 of
             Inl err \<Rightarrow> Inl err
           | Inr stored \<Rightarrow>
               Inr (unregisteredSorted (fold (\<lambda>e seen. List.insert (se_Type e) seen) stored []) r)))"

definition UnregisteredEventTypes ::
  "nat \<Rightarrow> (string \<Rightarrow> bool) option \<Rightarrow> (nat \<Rightarrow> int \<Rightarrow> error + stored_event list) option \<Rightarrow>
   (error + string list) option" where
  "UnregisteredEventTypes fuel registrar subAdapter =
     (case registrar of
        None \<Rightarrow> Some (Inr [])
      | Some r \<Rightarrow>
          map_option (\<lambda>(seen, err). case err of
              Some e \<Rightarrow> Inl e
            | None \<Rightarrow> Inr (unregisteredSorted seen r))
            (scan_loop fuel (\<lambda>from. LoadEventsFromPosition subAdapter from 1000) se_GlobalPosition
               (\<lambda>e seen. (List.insert (se_Type e) seen, None)) 0 []))"

lemma set_fold_insert: "set (fold (\<lambda>e seen. List.insert (f e) seen) es acc) = f ` set es \<union> set acc"
  by (induction es arbitrary: acc) auto

lemma distinct_fold_insert: "distinct acc \<Longrightarrow> distinct (fold (\<lambda>e seen. List.insert (f e) seen) es acc)"
  by (induction es arbitrary: acc) auto

text \<open>C7: The pre-deploy type audit is complete and terminates.  On the in-memory adapter,
  with any fuel above the number of stored events, UnregisteredEventTypes returns the
  sorted list, without repetition, of exactly the event types in the log that are not
  registered - however many batches the paged scan needs.\<close>

theorem UnregisteredEventTypes_complete:
  assumes "mem_inv a" and "\<not> ma_closed a" and "length (ma_globalEvents a) < fuel"
  shows "\<exists>ts. UnregisteredEventTypes fuel (Some r) (Some (LoadFromPosition None a)) = Some (Inr ts) \<and>
           set ts = {se_Type e | e. e \<in> set (ma_globalEvents a) \<and> \<not> r (se_Type e)} \<and>
           distinct ts \<and> sorted ts"
proof -
  let ?f = "\<lambda>e seen. (List.insert (se_Type e) seen, None)"
  have rd: "feed_ready a" using assms by (simp add: feed_ready_def)
  have "(\<lambda>p. LoadEventsFromPosition (Some (LoadFromPosition None a)) p 1000) =
      (\<lambda>p. LoadFromPosition None a p 1000)"
    by (rule ext) (simp add: LoadEventsFromPosition_def split: sum.split)
  moreover have "scan_loop fuel (\<lambda>p. LoadFromPosition None a p 1000) se_GlobalPosition ?f 0 [] =
      Some (fold (\<lambda>e seen. List.insert (se_Type e) seen) (ma_globalEvents a) [], None)"
    using mem_feed.scan_whole_store [OF rd _ _ assms(3), of 1000 ?f "[]"] positive_positions [OF assms(1)]
      foldE_total [of "ma_globalEvents a" ?f] by simp
  ultimately show ?thesis
    by (auto simp: UnregisteredEventTypes_def unregisteredSorted_def set_fold_insert distinct_fold_insert)
qed

theorem UnregisteredEventTypes_complete_witness:
  "UnregisteredEventTypes 3 (Some (\<lambda>t. t = ''Shipped'')) (Some (LoadFromPosition None demo_adapter)) =
     Some (Inr [''Placed''])"
proof -
  have types: "{se_Type e | e. e \<in> set (ma_globalEvents demo_adapter) \<and> \<not> se_Type e = ''Shipped''} =
      {''Placed''}"
    unfolding demo_adapter_log(1) demo_event_def
    by (auto simp: mk_stored_def demo_event_def intro!: exI [of _ "mk_stored (demo_uuid 0) ''Order-1'' 7 1 1 demo_event"])
  obtain ts where ts: "UnregisteredEventTypes 3 (Some (\<lambda>t. t = ''Shipped''))
      (Some (LoadFromPosition None demo_adapter)) = Some (Inr ts)"
    "set ts = {''Placed''}" "distinct ts"
    using UnregisteredEventTypes_complete [OF demo_adapter_inv demo_adapter_log(2), of 3 "\<lambda>t. t = ''Shipped''"]
    unfolding types by (auto simp: demo_adapter_log)
  from ts(3,2) have "ts = [''Placed'']" by (rule distinct_set_singleton)
  with ts(1) show ?thesis by simp
qed

text \<open>The filtered feed read is the unfiltered contract restricted to the filter: at
  most the limit, in ascending position order, exclusive of the start position, exactly
  the matching events, and never skipping one that would still fit.\<close>

theorem filtered_feed_page:
  assumes "mem_inv a" and "\<not> ma_closed a"
  shows "\<exists>page. LoadFromPositionFiltered None a p limit flt = Inr page \<and>
      sorted_wrt (<) (map se_GlobalPosition page) \<and>
      int (length page) \<le> DefaultLimit limit 1000 \<and>
      (\<forall>e. e \<in> set page \<longrightarrow> e \<in> set (ma_globalEvents a) \<and> p < se_GlobalPosition e \<and> FeedFilter_Matches flt e) \<and>
      (\<forall>e. e \<in> set (ma_globalEvents a) \<longrightarrow> p < se_GlobalPosition e \<longrightarrow> FeedFilter_Matches flt e \<longrightarrow>
         e \<in> set page \<or> (int (length page) = DefaultLimit limit 1000 \<and>
           (\<forall>x \<in> set page. se_GlobalPosition x < se_GlobalPosition e)))"
proof -
  let ?sel = "filter (\<lambda>e. p < se_GlobalPosition e \<and> FeedFilter_Matches flt e) (ma_globalEvents a)"
  let ?n = "nat (DefaultLimit limit 1000)"
  have srt: "sorted_wrt (<) (map se_GlobalPosition ?sel)"
    using sorted_positions [OF assms(1)] by (simp add: sorted_wrt_map sorted_wrt_filter)
  then have split: "sorted_wrt (<) (map se_GlobalPosition (take ?n ?sel @ drop ?n ?sel))" by simp
  have page: "LoadFromPositionFiltered None a p limit flt = Inr (take ?n ?sel)"
    using assms(2) by (rule LoadFromPositionFiltered_eq)
  have pos: "0 < DefaultLimit limit 1000" by (simp add: DefaultLimit_def)
  have late: "int (length (take ?n ?sel)) = DefaultLimit limit 1000 \<and>
      (\<forall>x \<in> set (take ?n ?sel). se_GlobalPosition x < se_GlobalPosition e)"
    if "e \<in> set ?sel" "e \<notin> set (take ?n ?sel)" for e
  proof -
    have d: "e \<in> set (drop ?n ?sel)" using that by (metis Un_iff append_take_drop_id set_append)
    then have "?n < length ?sel" by (metis drop_all empty_iff list.set(1) not_le_imp_less)
    then have "int (length (take ?n ?sel)) = DefaultLimit limit 1000" using pos by simp
    moreover have "\<forall>x \<in> set (take ?n ?sel). se_GlobalPosition x < se_GlobalPosition e"
      using split d unfolding map_append sorted_wrt_append by simp
    ultimately show ?thesis by simp
  qed
  show ?thesis
  proof (intro exI conjI allI impI)
    show "LoadFromPositionFiltered None a p limit flt = Inr (take ?n ?sel)" by (fact page)
    show "sorted_wrt (<) (map se_GlobalPosition (take ?n ?sel))"
      using split by (simp only: map_append sorted_wrt_append)
    show "int (length (take ?n ?sel)) \<le> DefaultLimit limit 1000" using pos by simp
  next
    fix e assume "e \<in> set (take ?n ?sel)"
    then have "e \<in> set ?sel" by (rule in_set_takeD)
    then show "e \<in> set (ma_globalEvents a)" "p < se_GlobalPosition e" "FeedFilter_Matches flt e" by auto
  next
    fix e assume "e \<in> set (ma_globalEvents a)" "p < se_GlobalPosition e" "FeedFilter_Matches flt e"
    then have "e \<in> set ?sel" by simp
    then show "e \<in> set (take ?n ?sel) \<or> (int (length (take ?n ?sel)) = DefaultLimit limit 1000 \<and>
           (\<forall>x \<in> set (take ?n ?sel). se_GlobalPosition x < se_GlobalPosition e))"
      using late by blast
  qed
qed

theorem filtered_feed_page_witness:
  "\<exists>page. LoadFromPositionFiltered None demo_adapter 1 0 (empty_filter\<lparr>ff_Category := ''Order''\<rparr>) = Inr page \<and>
     int (length page) \<le> DefaultLimit 0 1000"
  using filtered_feed_page [OF demo_adapter_inv demo_adapter_log(2)] by blast

end
