(* ===== verification/Saga_Laws.thy ===== *)
theory Saga_Laws
  imports Saga_Manager Feed
begin

text \<open>
  What the saga manager guarantees.

  The contract of a saga store is the locale \<open>saga_backend\<close>, interpreted on the in-memory
  store.  The lifecycle of a saga is the step relation \<open>lifecycle\<close> on the stored rows, and the
  event loop refines it: a run creates rows, advances rows that are not settled, and does nothing
  else.  Applications are constrained by two named conditions: \<open>keeps_identity\<close> (the callbacks
  leave id, type, correlation id and version of the saga alone) and \<open>leaves_sagas\<close> (the
  dispatched commands do not write saga rows).
\<close>

section \<open>The lifecycle of stored sagas\<close>

type_synonym saga_rows = "string \<Rightarrow> saga_state option"

inductive lifecycle :: "saga_rows \<Rightarrow> saga_rows \<Rightarrow> bool" where
  create: "rows (sg_ID st) = None \<Longrightarrow> sg_ID st = sg_Type st @ ''-'' @ sg_CorrelationID st \<Longrightarrow>
    sg_Version st = 1 \<Longrightarrow>
    (\<And>i old. rows i = Some old \<Longrightarrow> sg_Type old = sg_Type st \<Longrightarrow> sg_CorrelationID old \<noteq> sg_CorrelationID st) \<Longrightarrow>
    lifecycle rows (rows(sg_ID st \<mapsto> st))"
| advance: "rows (sg_ID st) = Some old \<Longrightarrow> \<not> SagaStatus_IsTerminal (sg_Status old) \<Longrightarrow>
    sg_Type st = sg_Type old \<Longrightarrow> sg_CorrelationID st = sg_CorrelationID old \<Longrightarrow>
    sg_Version st = sg_Version old + 1 \<Longrightarrow> lifecycle rows (rows(sg_ID st \<mapsto> st))"

inductive_cases lifecycleE: "lifecycle rows rows'"

definition corr_unique :: "saga_rows \<Rightarrow> bool" where
  "corr_unique rows \<longleftrightarrow>
     (\<forall>i j st st'. rows i = Some st \<longrightarrow> rows j = Some st' \<longrightarrow> sg_Type st = sg_Type st' \<longrightarrow>
        sg_CorrelationID st = sg_CorrelationID st' \<longrightarrow> i = j)"

lemma lifecycle_frozen:
  assumes "lifecycle rows rows'" and "rows i = Some st" and "SagaStatus_IsTerminal (sg_Status st)"
  shows "rows' i = Some st"
  using assms by (cases rule: lifecycle.cases) auto

lemma lifecycle_keeps:
  assumes "lifecycle rows rows'" and "rows i = Some st"
  shows "\<exists>st'. rows' i = Some st' \<and> sg_Type st' = sg_Type st \<and> sg_CorrelationID st' = sg_CorrelationID st \<and>
    sg_Version st \<le> sg_Version st'"
  using assms by (cases rule: lifecycle.cases) auto

lemma lifecycle_unique:
  assumes "lifecycle rows rows'" and "corr_unique rows"
  shows "corr_unique rows'"
  using assms
proof (cases rule: lifecycle.cases)
  case (create st)
  with assms(2) show ?thesis unfolding corr_unique_def by (metis (no_types, lifting) fun_upd_apply option.inject)
next
  case (advance st old)
  with assms(2) show ?thesis unfolding corr_unique_def by (metis (no_types, lifting) fun_upd_apply option.inject)
qed

lemma runs_frozen:
  assumes "lifecycle\<^sup>*\<^sup>* rows rows'" and "rows i = Some st" and "SagaStatus_IsTerminal (sg_Status st)"
  shows "rows' i = Some st"
  using assms by (induction rule: rtranclp_induct) (auto dest: lifecycle_frozen)

lemma runs_keep:
  assumes "lifecycle\<^sup>*\<^sup>* rows rows'" and "rows i = Some st"
  shows "\<exists>st'. rows' i = Some st' \<and> sg_Type st' = sg_Type st \<and> sg_CorrelationID st' = sg_CorrelationID st \<and>
    sg_Version st \<le> sg_Version st'"
  using assms
proof (induction rule: rtranclp_induct)
  case (step y z)
  then obtain st1 where "y i = Some st1" "sg_Type st1 = sg_Type st"
    "sg_CorrelationID st1 = sg_CorrelationID st" "sg_Version st \<le> sg_Version st1" by blast
  with lifecycle_keeps [OF step.hyps(2), of i st1] show ?case by fastforce
qed auto

lemma runs_unique: "lifecycle\<^sup>*\<^sup>* rows rows' \<Longrightarrow> corr_unique rows \<Longrightarrow> corr_unique rows'"
  by (induction rule: rtranclp_induct) (auto dest: lifecycle_unique)

section \<open>Applications\<close>

definition same_saga :: "'a saga_base_scheme \<Rightarrow> 'a saga_base_scheme \<Rightarrow> bool" where
  "same_saga s s' \<longleftrightarrow> sb_id s' = sb_id s \<and> sb_sagaType s' = sb_sagaType s \<and>
     sb_correlationID s' = sb_correlationID s \<and> sb_version s' = sb_version s"

definition keeps_identity :: "('a, 'c) saga_app \<Rightarrow> bool" where
  "keeps_identity app \<longleftrightarrow>
     (\<forall>s e. same_saga s (fst (ap_HandleEvent app s e))) \<and>
     (\<forall>s i e. same_saga s (fst (ap_Compensate app s i e))) \<and>
     (\<forall>s d. same_saga s (ap_SetData app s d) \<and> sb_status (ap_SetData app s d) = sb_status s)"

definition factory_ok :: "string \<Rightarrow> (time \<Rightarrow> string \<Rightarrow> 'a saga_base_scheme) \<Rightarrow> bool" where
  "factory_ok ty f \<longleftrightarrow> (\<forall>now i. sb_id (f now i) = i \<and> sb_sagaType (f now i) = ty \<and> sb_version (f now i) = 0)"

definition manager_ok :: "'a saga_manager \<Rightarrow> bool" where
  "manager_ok m \<longleftrightarrow> (\<forall>ty f. map_of (sm_registry m) ty = Some f \<longrightarrow> factory_ok ty f)"

definition cache_only :: "'a saga_manager \<Rightarrow> 'a saga_manager \<Rightarrow> bool" where
  "cache_only m m' \<longleftrightarrow> (\<exists>c. m' = m\<lparr>sm_processedEvents := c\<rparr>)"

lemma same_saga_refl [simp]: "same_saga s s"
  by (simp add: same_saga_def)

lemma same_saga_trans: "same_saga a b \<Longrightarrow> same_saga b c \<Longrightarrow> same_saga a c"
  by (simp add: same_saga_def)

lemma same_saga_updates [simp]:
  "same_saga s (s'\<lparr>sb_status := x\<rparr>) = same_saga s s'"
  "same_saga s (s'\<lparr>sb_completedAt := t\<rparr>) = same_saga s s'"
  "same_saga s (s'\<lparr>sb_currentStep := n\<rparr>) = same_saga s s'"
  "same_saga s (s'\<lparr>sb_steps := l\<rparr>) = same_saga s s'"
  "same_saga s (s'\<lparr>sb_lastEvent := e\<rparr>) = same_saga s s'"
  "same_saga (s\<lparr>sb_status := x\<rparr>) s' = same_saga s s'"
  by (simp_all add: same_saga_def)

lemma keeps_identityD:
  assumes "keeps_identity app"
  shows "ap_HandleEvent app s e = (s', r) \<Longrightarrow> same_saga s s'"
    and "ap_Compensate app s i err = (s', r) \<Longrightarrow> same_saga s s'"
    and "same_saga s (ap_SetData app s d)" and "sb_status (ap_SetData app s d) = sb_status s"
  using assms unfolding keeps_identity_def by (metis fst_conv)+

lemma cache_only_refl [simp]: "cache_only m m"
  unfolding cache_only_def by (rule exI [of _ "sm_processedEvents m"]) simp

lemma cache_only_trans: "cache_only a b \<Longrightarrow> cache_only b c \<Longrightarrow> cache_only a c"
  by (auto simp: cache_only_def)

lemma cache_only_update [simp]: "cache_only m (m\<lparr>sm_processedEvents := c\<rparr>)"
  by (auto simp: cache_only_def)

lemma cache_onlyD:
  assumes "cache_only m m'"
  shows "sm_registry m' = sm_registry m" "sm_correlations m' = sm_correlations m"
    "sm_eventHandlers m' = sm_eventHandlers m" "sm_retryAttempts m' = sm_retryAttempts m"
    "sm_retryDelay m' = sm_retryDelay m" "manager_ok m' = manager_ok m"
  using assms by (auto simp: cache_only_def manager_ok_def)

lemma hydrateSaga_saga:
  assumes "keeps_identity app" and "hydrateSaga env app m saga st = (m', s')"
  shows "sb_id s' = sb_id saga" "sb_sagaType s' = sb_sagaType saga" "sb_version s' = sg_Version st"
    "sb_correlationID s' = sg_CorrelationID st" "cache_only m m'"
    "sg_ProcessedEvents st \<noteq> [] \<Longrightarrow> map_of (sm_processedEvents m') (sb_id saga) = Some (sg_ProcessedEvents st)"
    "sg_ProcessedEvents st = [] \<Longrightarrow> m' = m" "sb_status s' = sg_Status st"
  using assms(2) keeps_identityD(3,4) [OF assms(1)]
  by (auto simp: hydrateSaga_def Let_def same_saga_def update_conv' setLastTriggerEvent_def
      split: option.splits if_splits prod.splits)

section \<open>The contract of a saga store\<close>

definition follows :: "'a saga_base_scheme \<Rightarrow> saga_state \<Rightarrow> bool" where
  "follows saga st \<longleftrightarrow> sg_ID st = sb_id saga \<and> sg_Type st = sb_sagaType saga \<and>
     sg_CorrelationID st = sb_correlationID saga \<and> sg_Version st = sb_version saga + 1"

lemma follows_same: "same_saga s s' \<Longrightarrow> follows s' st \<Longrightarrow> follows s st"
  by (simp add: same_saga_def follows_def)

text \<open>The version a save has to name: that of the stored row, 0 when there is none.\<close>

definition at_version :: "saga_rows \<Rightarrow> string \<Rightarrow> int \<Rightarrow> bool" where
  "at_version rows i v \<longleftrightarrow> (case rows i of None \<Rightarrow> v = 0 | Some ex \<Rightarrow> sg_Version ex = v)"

text \<open>The two errors a context can have.\<close>

definition ctx_ok :: "ctx \<Rightarrow> bool" where
  "ctx_ok c \<longleftrightarrow> c = None \<or> c = Some ErrContextCanceled \<or> c = Some ErrContextDeadlineExceeded"

definition leaves_sagas :: "('w \<Rightarrow> saga_rows) \<Rightarrow> ('w \<Rightarrow> bool) \<Rightarrow> ('c, 'w, 'd) saga_env \<Rightarrow> bool" where
  "leaves_sagas rows ok env \<longleftrightarrow>
     (\<forall>w c. ok w \<longrightarrow> ok (fst (sv_Dispatch env w c)) \<and> rows (fst (sv_Dispatch env w c)) = rows w) \<and>
     (\<forall>w d. ok w \<longrightarrow> ok (sv_wait env w d) \<and> rows (sv_wait env w d) = rows w) \<and>
     (\<forall>w. ctx_ok (sv_ctx env w))"

text \<open>The effect of an operation on the rows: nothing, or one row that follows the saga.\<close>

definition writes_row ::
  "('w \<Rightarrow> saga_rows) \<Rightarrow> ('w \<Rightarrow> bool) \<Rightarrow> 'w \<Rightarrow> 'w \<Rightarrow> 'a saga_base_scheme \<Rightarrow> (saga_state \<Rightarrow> bool) \<Rightarrow> error option \<Rightarrow> bool" where
  "writes_row rows ok w w' saga P err \<longleftrightarrow> ok w' \<and>
     (if err = None
      then \<exists>st. rows w' = (rows w)(sb_id saga \<mapsto> st) \<and> follows saga st \<and> P st \<and>
             at_version (rows w) (sb_id saga) (sb_version saga)
      else rows w' = rows w)"

lemma saga_to_state_sel [simp]:
  "sg_ID (saga_to_state app m now saga cur) = sb_id saga"
  "sg_Type (saga_to_state app m now saga cur) = sb_sagaType saga"
  "sg_CorrelationID (saga_to_state app m now saga cur) = sb_correlationID saga"
  "sg_Status (saga_to_state app m now saga cur) = sb_status saga"
  "sg_Version (saga_to_state app m now saga cur) = sb_version saga"
  "sg_Data (saga_to_state app m now saga cur) = persistData app m saga"
  "sg_ProcessedEvents (saga_to_state app m now saga cur) = processed_keys m (sb_id saga) cur"
  by (simp_all add: saga_to_state_def)

text \<open>What a delivered event leaves in the row: a settled saga, or its key among the processed.\<close>

definition absorbs :: "stored_event \<Rightarrow> saga_state \<Rightarrow> bool" where
  "absorbs event st \<longleftrightarrow> SagaStatus_IsTerminal (sg_Status st) \<or> eventKey event \<in> set (sg_ProcessedEvents st)"

lemma processed_keys_current: "eventKey e \<in> set (processed_keys m i (Some e))"
proof -
  have "xs @ [k] \<noteq> [] \<and> drop (length (xs @ [k]) - 100) (xs @ [k]) = drop (length (xs @ [k]) - 100) xs @ [k]"
    for xs :: "string list" and k by simp
  then show ?thesis by (auto simp: processed_keys_def maxProcessedEventsToTrack_def Let_def)
qed

text \<open>Which saga an event concerns, without the manager: the search of
  \<^verbatim>\<open>attemptProcessSagaEvent\<close> separated from the hydration.\<close>

datatype saga_target = Missing | Existing saga_state | Fresh string

fun locate_target ::
  "('c, 'w, 'd) saga_env \<Rightarrow> 'w \<Rightarrow> string \<Rightarrow> stored_event \<Rightarrow> saga_correlation list \<Rightarrow> error + saga_target" where
  "locate_target env w ty event [] = Inr Missing"
| "locate_target env w ty event (c # cs) =
     (let cid = sc_CorrelationIDFunc c event
      in if cid = [] then locate_target env w ty event cs
         else (case findSagaByCorrelation env w ty cid of
           Inr st \<Rightarrow> Inr (Existing st)
         | Inl err \<Rightarrow>
             if errors_Is err ErrSagaNotFound
             then (if isStartingEvent (sc_StartingEvents c) (se_Type event) then Inr (Fresh cid)
                   else locate_target env w ty event cs)
             else Inl err))"

definition fresh_saga :: "(time \<Rightarrow> string \<Rightarrow> 'a saga_base_scheme) \<Rightarrow> time \<Rightarrow> string \<Rightarrow> string \<Rightarrow> 'a saga_base_scheme" where
  "fresh_saga f now ty cid = (f now (ty @ ''-'' @ cid))\<lparr>sb_correlationID := cid, sb_status := SagaStatusStarted,
     sb_startedAt := now\<rparr>"

lemma locate_loop_target:
  assumes "factory_ok ty f"
  shows "locate_loop env app w ty event f None m cs =
    (case locate_target env w ty event cs of
       Inl e \<Rightarrow> (m, Inl (Wrap ''mink: failed to find saga'' e))
     | Inr Missing \<Rightarrow> (m, Inr None)
     | Inr (Existing st) \<Rightarrow>
         (case hydrateSaga env app m (f (sv_now env w) (sg_ID st)) st of (m', s) \<Rightarrow> (m', Inr (Some (s, False))))
     | Inr (Fresh cid) \<Rightarrow> (m, Inr (Some (fresh_saga f (sv_now env w) ty cid, True))))"
proof (induction cs)
  case (Cons c cs)
  have "sb_sagaType (f now i) = ty" for now i using assms by (simp add: factory_ok_def)
  with Cons show ?case
    by (cases "findSagaByCorrelation env w ty (sc_CorrelationIDFunc c event)")
       (simp_all add: Let_def fresh_saga_def)
qed simp

lemma captureTriggerEvent_same: "same_saga s s' \<Longrightarrow> same_saga s (captureTriggerEvent m s' e)"
  by (simp add: captureTriggerEvent_def setLastTriggerEvent_def same_saga_def)

locale saga_backend =
  fixes ops :: "'w saga_ops"
    and find :: "ctx \<Rightarrow> 'w \<Rightarrow> string \<Rightarrow> string \<Rightarrow> error + saga_state option"
    and rows :: "'w \<Rightarrow> saga_rows"
    and ok :: "'w \<Rightarrow> bool"
  assumes scoped: "so_FindByCorrelationIDAndType ops = Some find"
    and save_done: "ok w \<Longrightarrow> 0 \<le> sg_Version st \<Longrightarrow> so_Save ops c now w (Some st) = (w', st', None) \<Longrightarrow>
      ok w' \<and> rows w' = (rows w)(sg_ID st \<mapsto> st\<lparr>sg_UpdatedAt := now, sg_Version := sg_Version st + 1\<rparr>) \<and>
      at_version (rows w) (sg_ID st) (sg_Version st)"
    and save_refused: "ok w \<Longrightarrow> so_Save ops c now w sto = (w', st', Some e) \<Longrightarrow> w' = w"
    and load_row: "ok w \<Longrightarrow> so_Load ops c w i = Inr (Some st) \<Longrightarrow> rows w i = Some st"
    and rows_ok: "ok w \<Longrightarrow> rows w i = Some st \<Longrightarrow> sg_ID st = i \<and> 1 \<le> sg_Version st"
    and find_row: "ok w \<Longrightarrow> find c w cid ty = Inr (Some st) \<Longrightarrow>
      rows w (sg_ID st) = Some st \<and> sg_CorrelationID st = cid \<and> sg_Type st = ty"
    and find_none: "ok w \<Longrightarrow> ctx_ok c \<Longrightarrow> find c w cid ty = Inl e \<Longrightarrow> errors_Is e ErrSagaNotFound \<Longrightarrow>
      rows w i = Some st \<Longrightarrow> sg_Type st = ty \<Longrightarrow> sg_CorrelationID st \<noteq> cid"
    and find_nil: "ok w \<Longrightarrow> find c w cid ty \<noteq> Inr None"
    and find_error: "ok w \<Longrightarrow> ctx_ok c \<Longrightarrow> find c w cid ty = Inl e \<Longrightarrow> \<not> errors_Is e ErrConcurrencyConflict"
    and types_rows: "ok w \<Longrightarrow> so_FindByType ops c w ty sts = Inr l \<Longrightarrow> st \<in> set l \<Longrightarrow>
      rows w (sg_ID st) = Some st \<and> sg_Type st = ty"
begin

lemma dispatch_loop_frame:
  assumes "leaves_sagas rows ok env" and "ok w" and "dispatch_loop env d tot c n le w = (w', r)"
  shows "ok w' \<and> rows w' = rows w"
  using assms(2,3)
proof (induction n arbitrary: le w)
  case (Suc n)
  let ?w1 = "if tot - Suc n > 0 then sv_wait env w (backoff_delay d (tot - Suc n)) else w"
  obtain w2 res err where ds: "sv_Dispatch env ?w1 c = (w2, res, err)" by (metis prod_cases3)
  have w1: "ok ?w1" "rows ?w1 = rows w" using assms(1) Suc.prems(1) by (simp_all add: leaves_sagas_def)
  then have w2: "ok w2" "rows w2 = rows w"
    using assms(1) ds unfolding leaves_sagas_def by (metis fst_conv)+
  show ?case
  proof (cases "w' = ?w1 \<or> w' = w2")
    case False
    then obtain le' where "dispatch_loop env d tot c n le' w2 = (w', r)"
      using Suc.prems(2) ds by (auto simp: Let_def split: option.splits if_splits)
    from Suc.IH [OF w2(1) this] w2 show ?thesis by simp
  qed (use w1 w2 in auto)
qed auto

lemma dispatchCommand_frame:
  "leaves_sagas rows ok env \<Longrightarrow> ok w \<Longrightarrow> dispatchCommand env m w c = (w', r) \<Longrightarrow> ok w' \<and> rows w' = rows w"
  unfolding dispatchCommand_def by (rule dispatch_loop_frame)

lemma compensate_loop_frame:
  assumes "leaves_sagas rows ok env" and "ok w" and "compensate_loop env m w cmds b = (w', r)"
  shows "ok w' \<and> rows w' = rows w"
  using assms(2,3)
proof (induction cmds arbitrary: b w)
  case (Cons c cmds)
  obtain w1 e where d: "dispatchCommand env m w c = (w1, e)" by (cases "dispatchCommand env m w c") auto
  note f = dispatchCommand_frame [OF assms(1) Cons.prems(1) d]
  from Cons.prems(2) obtain b' where "compensate_loop env m w1 cmds b' = (w', r)"
    by (auto simp: d split: option.splits)
  from Cons.IH [OF _ this] f show ?case by simp
qed auto

lemma command_loop_frame:
  assumes "leaves_sagas rows ok env" and "ok w" and "command_loop env m w s cmds = (w', s', r)"
  shows "ok w' \<and> rows w' = rows w \<and> same_saga s s'"
  using assms(2,3)
proof (induction cmds arbitrary: s w)
  case (Cons c cmds)
  obtain w1 e where d: "dispatchCommand env m w c = (w1, e)" by (cases "dispatchCommand env m w c") auto
  note f = dispatchCommand_frame [OF assms(1) Cons.prems(1) d]
  show ?case
  proof (cases e)
    case None
    with Cons.prems(2) have "command_loop env m w1 (s\<lparr>sb_currentStep := sb_currentStep s + 1\<rparr>) cmds = (w', s', r)"
      by (simp add: d)
    from Cons.IH [OF _ this] f show ?thesis by (simp add: same_saga_def)
  qed (use Cons.prems(2) f d in auto)
qed auto

lemma writes_row_same:
  assumes "writes_row rows ok w w' s' P err" and "same_saga s s'" and "\<And>st. P st \<Longrightarrow> Q st" and "rows w = rows w0"
  shows "writes_row rows ok w0 w' s Q err"
proof (cases err)
  case None
  with assms(1) obtain st where "rows w' = (rows w)(sb_id s' \<mapsto> st)" "follows s' st" "P st" "ok w'"
    "at_version (rows w) (sb_id s') (sb_version s')"
    by (auto simp: writes_row_def)
  with None assms(2-4) show ?thesis
    by (auto simp: writes_row_def same_saga_def follows_def intro!: exI [of _ st])
qed (use assms in \<open>simp add: writes_row_def\<close>)

lemma saveSaga_writes:
  assumes "sv_store env = ops" and "ok w" and "0 \<le> sb_version saga"
    and "saveSaga env app m w saga cur = (m', w', s', err)"
  shows "writes_row rows ok w w' saga (\<lambda>st. sg_Status st = sb_status saga \<and>
      sg_ProcessedEvents st = processed_keys m (sb_id saga) cur \<and> sg_Data st = persistData app m saga) err \<and>
    cache_only m m'"
proof -
  let ?st = "saga_to_state app m (sv_now env w) saga cur"
  obtain w1 st1 e where sv: "so_Save ops (sv_ctx env w) (sv_now env w) w (Some ?st) = (w1, st1, e)"
    by (metis prod_cases3)
  show ?thesis
  proof (cases e)
    case None
    from save_done [OF assms(2) _ sv [unfolded None]] assms(3)
    have "ok w1" "rows w1 = (rows w)(sb_id saga \<mapsto> ?st\<lparr>sg_UpdatedAt := sv_now env w, sg_Version := sb_version saga + 1\<rparr>)"
      "at_version (rows w) (sb_id saga) (sb_version saga)"
      by simp_all
    with assms(1,4) sv None show ?thesis
      by (auto simp: saveSaga_def Let_def writes_row_def follows_def)
  next
    case (Some err')
    with sv save_refused [OF assms(2)] have "w1 = w" by blast
    with assms(1,2,4) sv Some show ?thesis by (auto simp: saveSaga_def Let_def writes_row_def)
  qed
qed

lemma handleSagaFailure_writes:
  assumes "sv_store env = ops" and "leaves_sagas rows ok env" and "keeps_identity app"
    and "ok w" and "0 \<le> sb_version saga"
    and "handleSagaFailure env app m w saga e = (m', w', s', err)"
  shows "writes_row rows ok w w' saga (\<lambda>st. SagaStatus_IsTerminal (sg_Status st)) err \<and> cache_only m m'"
proof -
  obtain s2 r where c: "ap_Compensate app (saga\<lparr>sb_status := SagaStatusCompensating\<rparr>) (sb_currentStep saga) e = (s2, r)"
    by (cases "ap_Compensate app (saga\<lparr>sb_status := SagaStatusCompensating\<rparr>) (sb_currentStep saga) e") auto
  have same: "same_saga saga s2" using keeps_identityD(2) [OF assms(3) c] by simp
  have save: "writes_row rows ok w w' saga (\<lambda>st. SagaStatus_IsTerminal (sg_Status st)) err \<and> cache_only m m'"
    if sv: "saveSaga env app m w1 s3 None = (m', w', s', err)" and ok1: "ok w1" "rows w1 = rows w"
      and s3: "same_saga saga s3" "SagaStatus_IsTerminal (sb_status s3)" for w1 s3
  proof -
    have v: "0 \<le> sb_version s3" using s3(1) assms(5) by (simp add: same_saga_def)
    note sw = saveSaga_writes [OF assms(1) ok1(1) v sv]
    show ?thesis
      using writes_row_same [OF conjunct1 [OF sw] s3(1) _ ok1(2)] s3(2) sw by auto
  qed
  show ?thesis
  proof (cases r)
    case (Inl err')
    with assms(6) c have "saveSaga env app m w (s2\<lparr>sb_status := SagaStatusFailed\<rparr>) None = (m', w', s', err)"
      by (simp add: handleSagaFailure_def Let_def)
    from save [OF this assms(4) refl] same show ?thesis by (simp add: SagaStatus_IsTerminal_def)
  next
    case (Inr cmds)
    obtain w1 b where cl: "compensate_loop env m w cmds False = (w1, b)"
      by (cases "compensate_loop env m w cmds False") auto
    note f = compensate_loop_frame [OF assms(2,4) cl]
    let ?s3 = "s2\<lparr>sb_status := (if b then SagaStatusCompensationFailed else SagaStatusCompensated),
        sb_completedAt := Some (sv_now env w1)\<rparr>"
    have "saveSaga env app m w1 ?s3 None = (m', w', s', err)"
      using assms(6) c Inr cl by (simp add: handleSagaFailure_def Let_def)
    from save [OF this] f same show ?thesis by (simp add: SagaStatus_IsTerminal_def)
  qed
qed

lemma redrive_writes:
  assumes "sv_store env = ops" and "leaves_sagas rows ok env" and "keeps_identity app"
    and "ok w" and "0 \<le> sb_version saga"
    and "redrive env app m w saga event = (m', w', s', err)"
  shows "writes_row rows ok w w' saga (absorbs event) err \<and> cache_only m m'"
proof -
  obtain s1 r where h: "ap_HandleEvent app (saga\<lparr>sb_status := SagaStatusRunning\<rparr>) event = (s1, r)"
    by (cases "ap_HandleEvent app (saga\<lparr>sb_status := SagaStatusRunning\<rparr>) event") auto
  have s1: "same_saga saga s1" using keeps_identityD(1) [OF assms(3) h] by simp
  have fail: "writes_row rows ok w w' saga (absorbs event) err \<and> cache_only m m'"
    if run: "(if isShutdownError e then (m, w1, s2, Some e) else handleSagaFailure env app m w1 s2 e) = (m', w', s', err)"
      and w1: "ok w1" "rows w1 = rows w" and s2: "same_saga saga s2" for w1 s2 e
  proof (cases "isShutdownError e")
    case True
    with run w1 show ?thesis by (auto simp: writes_row_def)
  next
    case False
    with run have hf: "handleSagaFailure env app m w1 s2 e = (m', w', s', err)" by simp
    have v: "0 \<le> sb_version s2" using s2 assms(5) by (simp add: same_saga_def)
    note hw = handleSagaFailure_writes [OF assms(1-3) w1(1) v hf]
    show ?thesis
      using writes_row_same [OF conjunct1 [OF hw] s2 _ w1(2)] hw by (auto simp: absorbs_def)
  qed
  show ?thesis
  proof (cases r)
    case (Inl e)
    then show ?thesis using fail [of e w s1] assms(4,6) h s1 by (simp add: redrive_def)
  next
    case (Inr cmds)
    obtain w1 s2 e where cl: "command_loop env m w s1 cmds = (w1, s2, e)" by (metis prod_cases3)
    note f = command_loop_frame [OF assms(2,4) cl]
    have s2: "same_saga saga s2" using same_saga_trans [OF s1] f by simp
    show ?thesis
    proof (cases e)
      case (Some e')
      then show ?thesis using fail [of e' w1 s2] assms(6) h Inr cl f s2 by (simp add: redrive_def)
    next
      case None
      let ?s3 = "if ap_IsComplete app s2
        then s2\<lparr>sb_status := SagaStatusCompleted, sb_completedAt := Some (sv_now env w1)\<rparr> else s2"
      have s3: "same_saga saga ?s3" using s2 by simp
      have sv: "saveSaga env app m w1 ?s3 (Some event) = (m', w', s', err)"
        using assms(6) h Inr cl None by (simp add: redrive_def Let_def)
      have v: "0 \<le> sb_version ?s3" using s3 assms(5) by (simp add: same_saga_def)
      have ok1: "ok w1" "rows w1 = rows w" using f by simp_all
      note sw = saveSaga_writes [OF assms(1) ok1(1) v sv]
      have "writes_row rows ok w w' saga (absorbs event) err"
        by (rule writes_row_same [OF conjunct1 [OF sw] s3 _ ok1(2)])
           (auto simp: absorbs_def processed_keys_current)
      with sw show ?thesis by simp
    qed
  qed
qed

lemma findSaga_cases:
  assumes "sv_store env = ops" and "leaves_sagas rows ok env" and "ok w"
  shows "case findSagaByCorrelation env w ty cid of
      Inr st \<Rightarrow> rows w (sg_ID st) = Some st \<and> sg_CorrelationID st = cid \<and> sg_Type st = ty
    | Inl e \<Rightarrow> \<not> errors_Is e ErrConcurrencyConflict \<and>
        (errors_Is e ErrSagaNotFound \<longrightarrow> (\<forall>i st. rows w i = Some st \<longrightarrow> sg_Type st = ty \<longrightarrow> sg_CorrelationID st \<noteq> cid))"
proof (cases "find (sv_ctx env w) w cid ty")
  case (Inl e)
  have cx: "ctx_ok (sv_ctx env w)" using assms(2) by (simp add: leaves_sagas_def)
  from Inl show ?thesis
    using assms scoped find_error [OF assms(3) cx Inl] find_none [OF assms(3) cx Inl]
    by (auto simp: findSagaByCorrelation_def)
next
  case (Inr o')
  with find_nil [OF assms(3)] obtain st where st: "find (sv_ctx env w) w cid ty = Inr (Some st)" by (cases o') auto
  from find_row [OF assms(3) this] assms(1) scoped st show ?thesis by (simp add: findSagaByCorrelation_def)
qed

lemma target_found:
  assumes "sv_store env = ops" and "leaves_sagas rows ok env" and "ok w" and "locate_target env w ty event cs = Inr (Existing st)"
  shows "rows w (sg_ID st) = Some st \<and> sg_Type st = ty"
  using assms(4)
proof (induction cs)
  case (Cons c cs)
  then show ?case
    using findSaga_cases [OF assms(1-3), of ty "sc_CorrelationIDFunc c event"]
    by (auto simp: Let_def split: if_splits sum.splits)
qed simp

lemma target_fresh:
  assumes "sv_store env = ops" and "leaves_sagas rows ok env" and "ok w" and "locate_target env w ty event cs = Inr (Fresh cid)"
    and "rows w i = Some st" and "sg_Type st = ty"
  shows "sg_CorrelationID st \<noteq> cid"
  using assms(4)
proof (induction cs)
  case (Cons c cs)
  then show ?case
    using findSaga_cases [OF assms(1-3), of ty "sc_CorrelationIDFunc c event"] assms(5,6)
    by (auto simp: Let_def split: if_splits sum.splits)
qed simp

lemma target_error:
  assumes "sv_store env = ops" and "leaves_sagas rows ok env" and "ok w" and "locate_target env w ty event cs = Inl e"
  shows "\<not> errors_Is e ErrConcurrencyConflict"
  using assms(4)
proof (induction cs)
  case (Cons c cs)
  then show ?case
    using findSaga_cases [OF assms(1-3), of ty "sc_CorrelationIDFunc c event"]
    by (auto simp: Let_def split: if_splits sum.splits)
qed simp

text \<open>Once the row of the target has been written, the event finds that row again.\<close>

lemma target_after_write:
  assumes env: "sv_store env = ops" "leaves_sagas rows ok env" and ok: "ok w" "ok w'"
    and rows: "rows w' = (rows w)(sg_ID st' \<mapsto> st')" and ty: "sg_Type st' = ty" and uniq: "corr_unique (rows w')"
    and tgt: "locate_target env w ty event cs = Inr (Existing st) \<and> sg_CorrelationID st' = sg_CorrelationID st \<or>
      locate_target env w ty event cs = Inr (Fresh (sg_CorrelationID st'))"
  shows "(\<exists>e. locate_target env w' ty event cs = Inl e) \<or> locate_target env w' ty event cs = Inr (Existing st')"
  using tgt
proof (induction cs)
  case (Cons c cs)
  let ?cid = "sc_CorrelationIDFunc c event"
  note fw = findSaga_cases [OF env ok(1), of ty ?cid]
  note fw' = findSaga_cases [OF env ok(2), of ty ?cid]
  have here: "rows w' (sg_ID st') = Some st'" using rows by simp
  show ?case
  proof (cases "?cid = []")
    case False
    show ?thesis
    proof (cases "findSagaByCorrelation env w' ty ?cid")
      case (Inl e)
      show ?thesis
      proof (cases "errors_Is e ErrSagaNotFound")
        case True
        with fw' Inl here ty have "sg_CorrelationID st' \<noteq> ?cid" by auto
        with Cons.prems False fw have "\<not> isStartingEvent (sc_StartingEvents c) (se_Type event)"
          and "locate_target env w ty event cs = Inr (Existing st) \<and> sg_CorrelationID st' = sg_CorrelationID st \<or>
             locate_target env w ty event cs = Inr (Fresh (sg_CorrelationID st'))"
          by (auto simp: Let_def split: if_splits sum.splits)
        with Cons.IH False Inl True show ?thesis by simp
      qed (use False Inl in simp)
    next
      case (Inr st2)
      with fw' have st2: "rows w' (sg_ID st2) = Some st2" "sg_CorrelationID st2 = ?cid" "sg_Type st2 = ty" by auto
      have "st2 = st'"
      proof (rule ccontr)
        assume ne: "st2 \<noteq> st'"
        with st2(1) here have "sg_ID st2 \<noteq> sg_ID st'" by auto
        with st2 rows have old: "rows w (sg_ID st2) = Some st2" by simp
        have "sg_CorrelationID st' \<noteq> ?cid"
          using uniq here st2 ty \<open>sg_ID st2 \<noteq> sg_ID st'\<close> unfolding corr_unique_def by metis
        with Cons.prems False fw old st2 show False
          by (auto simp: Let_def split: if_splits sum.splits)
      qed
      with False Inr show ?thesis by simp
    qed
  qed (use Cons in simp)
qed simp

text \<open>One attempt: either nothing, or one step of the lifecycle whose row absorbs the event.\<close>

lemma drive_cases:
  assumes env: "sv_store env = ops" "leaves_sagas rows ok env" and app: "keeps_identity app"
    and ok: "ok w" and v: "0 \<le> sb_version s"
    and rd: "redrive env app m w (captureTriggerEvent m s capture) event = (m', w', s3, err)"
  obtains (failed) e where "err = Some e" "ok w'" "rows w' = rows w" "cache_only m m'"
  | (written) st' where "err = None" "ok w'" "cache_only m m'" "rows w' = (rows w)(sg_ID st' \<mapsto> st')"
      "absorbs event st'" "follows s st'" "at_version (rows w) (sb_id s) (sb_version s)"
proof -
  let ?s = "captureTriggerEvent m s capture"
  have same: "same_saga s ?s" by (rule captureTriggerEvent_same) simp
  then have "0 \<le> sb_version ?s" using v by (simp add: same_saga_def)
  note wr = redrive_writes [OF env app ok this rd]
  have w0: "writes_row rows ok w w' s (absorbs event) err" and co: "cache_only m m'"
    using writes_row_same [OF conjunct1 [OF wr] same _ refl, of "absorbs event"] wr by simp_all
  show thesis
  proof (cases err)
    case None
    with w0 co written show ?thesis by (auto simp: writes_row_def follows_def)
  qed (use w0 co failed in \<open>simp add: writes_row_def\<close>)
qed

lemma attempt_existing:
  assumes env: "sv_store env = ops" "leaves_sagas rows ok env" and app: "keeps_identity app"
    and f: "factory_ok ty f" and ok: "ok w"
    and run: "attemptProcessSagaEvent env app m w ty event capture cs f None = (m', w', err)"
    and tgt: "locate_target env w ty event cs = Inr (Existing st)"
  obtains (skipped) "w' = w" "cache_only m m'"
  | (failed) e where "err = Some e" "ok w'" "rows w' = rows w" "cache_only m m'"
  | (advanced) st' where "err = None" "ok w'" "cache_only m m'" "rows w' = (rows w)(sg_ID st' \<mapsto> st')"
      "absorbs event st'" "sg_Type st' = ty" "sg_CorrelationID st' = sg_CorrelationID st" "lifecycle (rows w) (rows w')"
proof -
  obtain m1 s where h: "hydrateSaga env app m (f (sv_now env w) (sg_ID st)) st = (m1, s)"
    by (cases "hydrateSaga env app m (f (sv_now env w) (sg_ID st)) st") auto
  note hs = hydrateSaga_saga [OF app h]
  have st: "rows w (sg_ID st) = Some st" "sg_Type st = ty"
    using target_found [OF env ok tgt] by auto
  have v: "0 \<le> sb_version s" using rows_ok [OF ok st(1)] hs(3) by simp
  show thesis
  proof (cases "SagaStatus_IsTerminal (sb_status s) \<or> eventAlreadyProcessed m1 s event")
    case True
    with run h tgt hs(5) skipped show ?thesis
      by (auto simp: attemptProcessSagaEvent_def locate_loop_target [OF f] split: if_splits)
  next
    case False
    then obtain s3 where rd: "redrive env app m1 w (captureTriggerEvent m1 s capture) event = (m', w', s3, err)"
      using tgt run h by (auto simp: attemptProcessSagaEvent_def locate_loop_target [OF f] split: prod.splits)
    show ?thesis
      using env app ok v rd
    proof (cases rule: drive_cases)
      case failed
      with that(2) cache_only_trans [OF hs(5)] show ?thesis by blast
    next
      case (written st')
      have eqs: "sg_ID st' = sg_ID st" "sg_Type st' = ty" "sg_CorrelationID st' = sg_CorrelationID st"
        "sg_Version st' = sg_Version st + 1"
        using written(6) hs(1-4) f by (simp_all add: follows_def factory_ok_def)
      have "lifecycle (rows w) (rows w')"
        unfolding written(4) using st eqs False hs(8) by (intro lifecycle.advance [of _ _ st]) simp_all
      with advanced [OF written(1,2) _ written(4,5)] cache_only_trans [OF hs(5) written(3)] eqs
      show ?thesis by simp
    qed
  qed
qed

lemma attempt_fresh:
  assumes env: "sv_store env = ops" "leaves_sagas rows ok env" and app: "keeps_identity app"
    and f: "factory_ok ty f" and ok: "ok w"
    and run: "attemptProcessSagaEvent env app m w ty event capture cs f None = (m', w', err)"
    and tgt: "locate_target env w ty event cs = Inr (Fresh cid)"
  obtains (skipped) "w' = w" "cache_only m m'"
  | (failed) e where "err = Some e" "ok w'" "rows w' = rows w" "cache_only m m'"
  | (created) st' where "err = None" "ok w'" "cache_only m m'" "rows w' = (rows w)(sg_ID st' \<mapsto> st')"
      "absorbs event st'" "sg_Type st' = ty" "sg_CorrelationID st' = cid" "lifecycle (rows w) (rows w')"
proof -
  let ?s = "fresh_saga f (sv_now env w) ty cid"
  have s: "sb_id ?s = ty @ ''-'' @ cid" "sb_sagaType ?s = ty" "sb_version ?s = 0" "sb_correlationID ?s = cid"
    using f by (simp_all add: fresh_saga_def factory_ok_def)
  show thesis
  proof (cases "eventAlreadyProcessed m ?s event")
    case True
    with tgt run skipped show ?thesis by (auto simp: attemptProcessSagaEvent_def locate_loop_target [OF f])
  next
    case False
    then obtain s3 where rd: "redrive env app m w (captureTriggerEvent m ?s capture) event = (m', w', s3, err)"
      using tgt run by (auto simp: attemptProcessSagaEvent_def locate_loop_target [OF f] split: prod.splits)
    have v: "0 \<le> sb_version ?s" using s by simp
    show ?thesis
      using env app ok v rd
    proof (cases rule: drive_cases)
      case (written st')
      have eqs: "sg_ID st' = ty @ ''-'' @ cid" "sg_Type st' = ty" "sg_CorrelationID st' = cid" "sg_Version st' = 1"
        using written(6) s by (simp_all add: follows_def)
      have "rows w (sg_ID st') = None"
        using written(7) s eqs(1) rows_ok [OF ok, of "ty @ ''-'' @ cid"]
        by (auto simp: at_version_def split: option.splits)
      then have "lifecycle (rows w) (rows w')"
        unfolding written(4) using eqs target_fresh [OF env ok tgt] by (intro lifecycle.create) auto
      with created [OF written(1-5)] eqs show ?thesis by simp
    qed (use that(2) in blast)
  qed
qed

lemma attempt_cases:
  assumes env: "sv_store env = ops" "leaves_sagas rows ok env" and app: "keeps_identity app"
    and f: "factory_ok ty f" and ok: "ok w"
    and run: "attemptProcessSagaEvent env app m w ty event capture cs f None = (m', w', err)"
  obtains (skipped) "w' = w" "cache_only m m'"
  | (failed) e where "err = Some e" "ok w'" "rows w' = rows w" "cache_only m m'"
  | (written) st' where "err = None" "ok w'" "cache_only m m'" "rows w' = (rows w)(sg_ID st' \<mapsto> st')"
      "absorbs event st'" "sg_Type st' = ty" "lifecycle (rows w) (rows w')"
      "(\<exists>st. locate_target env w ty event cs = Inr (Existing st) \<and> sg_CorrelationID st' = sg_CorrelationID st) \<or>
       locate_target env w ty event cs = Inr (Fresh (sg_CorrelationID st'))"
proof (cases "locate_target env w ty event cs")
  case (Inl e)
  with run that(1) show ?thesis by (simp add: attemptProcessSagaEvent_def locate_loop_target [OF f])
next
  case (Inr tgt)
  show ?thesis
  proof (cases tgt)
    case Missing
    with Inr run that(1) show ?thesis by (simp add: attemptProcessSagaEvent_def locate_loop_target [OF f])
  next
    case (Existing st)
    note tgt = Inr [unfolded Existing]
    show ?thesis
      using assms tgt
    proof (cases rule: attempt_existing)
      case (advanced st')
      with tgt show ?thesis by (intro that(3) [of st']) auto
    qed (use that(1,2) in blast)+
  next
    case (Fresh cid)
    note tgt = Inr [unfolded Fresh]
    show ?thesis
      using assms tgt
    proof (cases rule: attempt_fresh)
      case (created st')
      with tgt show ?thesis by (intro that(3) [of st']) auto
    qed (use that(1,2) in blast)+
  qed
qed

text \<open>A row that absorbs the event makes an attempt do nothing, whatever the manager remembers.\<close>

lemma attempt_absorbed:
  assumes env: "sv_store env = ops" "leaves_sagas rows ok env" and app: "keeps_identity app" and f: "factory_ok ty f" and ok: "ok w"
    and tgt: "(\<exists>e. locate_target env w ty event cs = Inl e) \<or>
      (locate_target env w ty event cs = Inr (Existing st) \<and> absorbs event st)"
    and run: "attemptProcessSagaEvent env app m w ty event capture cs f None = (m', w', err)"
  shows "w' = w \<and> (\<forall>e. err = Some e \<longrightarrow> \<not> errors_Is e ErrConcurrencyConflict)"
proof (cases "locate_target env w ty event cs")
  case (Inl e)
  with target_error [OF env ok Inl] run show ?thesis
    by (auto simp: attemptProcessSagaEvent_def locate_loop_target [OF f])
next
  case (Inr x)
  with tgt have ex: "locate_target env w ty event cs = Inr (Existing st)" and ab: "absorbs event st" by auto
  obtain m1 s where h: "hydrateSaga env app m (f (sv_now env w) (sg_ID st)) st = (m1, s)"
    by (cases "hydrateSaga env app m (f (sv_now env w) (sg_ID st)) st") auto
  note hs = hydrateSaga_saga [OF app h]
  have "SagaStatus_IsTerminal (sb_status s) \<or> eventAlreadyProcessed m1 s event"
    using ab hs(1,6,8) unfolding absorbs_def eventAlreadyProcessed_def
    by (cases "sg_ProcessedEvents st = []") auto
  with run ex h show ?thesis
    by (auto simp: attemptProcessSagaEvent_def locate_loop_target [OF f] split: if_splits)
qed

lemma conflict_loop_cases:
  assumes env: "sv_store env = ops" "leaves_sagas rows ok env" and app: "keeps_identity app"
    and f: "factory_ok ty f" and "ok w"
    and "conflict_loop env app ty event capture cs f tot n le m w = (m', w', err)"
  shows "ok w' \<and> cache_only m m' \<and>
    (rows w' = rows w \<or> (\<exists>ma wa. ok wa \<and> rows wa = rows w \<and>
       attemptProcessSagaEvent env app ma wa ty event capture cs f None = (m', w', None)))"
  using assms(5,6)
proof (induction n arbitrary: le m w)
  case (Suc n)
  let ?w1 = "if tot - Suc n > 0 then sv_wait env w (backoff_delay (sm_retryDelay m) (tot - Suc n)) else w"
  have w1: "ok ?w1" "rows ?w1 = rows w" using env(2) Suc.prems(1) by (simp_all add: leaves_sagas_def)
  show ?case
  proof (cases "if tot - Suc n > 0 then sv_ctx env ?w1 else None")
    case (Some e)
    with Suc.prems(2) have "m' = m" "w' = ?w1" by (auto simp: Let_def split: if_splits)
    with w1 show ?thesis by (simp del: if_split)
  next
    case None
    obtain m2 w2 r where at: "attemptProcessSagaEvent env app m ?w1 ty event capture cs f None = (m2, w2, r)"
      by (metis prod_cases3)
    have eq: "(case r of None \<Rightarrow> (m2, w2, None)
       | Some err \<Rightarrow> if errors_Is err ErrConcurrencyConflict
           then conflict_loop env app ty event capture cs f tot n (Some err) m2 w2 else (m2, w2, Some err)) = (m', w', err)"
      using Suc.prems(2) None at by (simp add: Let_def del: if_split split: option.splits)
    have eff: "ok w2 \<and> cache_only m m2 \<and> (r \<noteq> None \<longrightarrow> rows w2 = rows w)"
      using env app f w1(1) at by (cases rule: attempt_cases) (use w1 in \<open>auto simp del: if_split\<close>)
    show ?thesis
    proof (cases r)
      case None
      with eq eff at w1 show ?thesis by (auto simp del: if_split)
    next
      case (Some e)
      show ?thesis
      proof (cases "errors_Is e ErrConcurrencyConflict")
        case True
        with eq Some have "conflict_loop env app ty event capture cs f tot n (Some e) m2 w2 = (m', w', err)" by simp
        from Suc.IH [OF _ this] eff Some cache_only_trans [of m m2 m'] show ?thesis by auto
      next
        case False
        with eq Some eff show ?thesis by auto
      qed
    qed
  qed
qed auto

lemma process_cases:
  assumes env: "sv_store env = ops" "leaves_sagas rows ok env" and app: "keeps_identity app"
    and m: "manager_ok m" and ok: "ok w" and run: "processSagaEvent env app m w ty event capture = (m', w', err)"
  obtains (idle) "ok w'" "cache_only m m'" "rows w' = rows w"
  | (took) wa st' where "ok w'" "cache_only m m'" "ok wa" "rows wa = rows w" "lifecycle (rows w) (rows w')"
      "rows w' = (rows w)(sg_ID st' \<mapsto> st')" "absorbs event st'" "sg_Type st' = ty"
      "(\<exists>st. locate_target env wa ty event (gm_get_list (sm_correlations m) ty) = Inr (Existing st) \<and>
          sg_CorrelationID st' = sg_CorrelationID st) \<or>
       locate_target env wa ty event (gm_get_list (sm_correlations m) ty) = Inr (Fresh (sg_CorrelationID st'))"
proof (cases "w' = w \<and> m' = m")
  case True
  with ok idle show ?thesis by simp
next
  case False
  with run obtain f where f: "map_of (sm_registry m) ty = Some f"
    and lp: "conflict_loop env app ty event capture (gm_get_list (sm_correlations m) ty) f
       (nat (sm_retryAttempts m)) (nat (sm_retryAttempts m)) None m w = (m', w', err)"
    by (auto simp: processSagaEvent_def Let_def split: option.splits prod.splits if_splits)
  have fok: "factory_ok ty f" using m f by (simp add: manager_ok_def)
  from conflict_loop_cases [OF env app fok ok lp] show ?thesis
  proof (elim conjE disjE exE)
    fix ma wa assume wa: "ok wa" "rows wa = rows w" and co: "cache_only m m'" "ok w'"
      and at: "attemptProcessSagaEvent env app ma wa ty event capture (gm_get_list (sm_correlations m) ty) f None = (m', w', None)"
    show ?thesis
      using env app fok wa(1) at
    proof (cases rule: attempt_cases)
      case skipped
      with wa co idle show ?thesis by simp
    next
      case (written st')
      with wa co show ?thesis by (intro took [of wa st']) simp_all
    qed simp
  qed (use idle in blast)
qed

text \<open>An event that has taken effect does not take effect again.\<close>

lemma handled_once:
  assumes env: "sv_store env = ops" "leaves_sagas rows ok env" and app: "keeps_identity app"
    and m: "manager_ok m" "manager_ok n" "sm_correlations n = sm_correlations m"
    and ok: "ok w" and uniq: "corr_unique (rows w)"
    and first: "processSagaEvent env app m w ty event capture = (m', w', err)" and took: "rows w' \<noteq> rows w"
    and second: "processSagaEvent env app n w' ty event capture' = (n', w'', err')"
  shows "w'' = w'"
proof (rule ccontr)
  let ?cs = "gm_get_list (sm_correlations m) ty"
  assume ne: "w'' \<noteq> w'"
  with second m(3) obtain f where f: "map_of (sm_registry n) ty = Some f"
    and lp: "conflict_loop env app ty event capture' ?cs f (nat (sm_retryAttempts n)) (nat (sm_retryAttempts n)) None n w' =
       (n', w'', err')"
    by (auto simp: processSagaEvent_def Let_def split: option.splits prod.splits if_splits)
  have fok: "factory_ok ty f" using m(2) f by (simp add: manager_ok_def)
  from env app m(1) ok first obtain wa st' where w': "ok w'" and wa: "ok wa" "rows wa = rows w"
    and lc: "lifecycle (rows w) (rows w')" and rw: "rows w' = (rows w)(sg_ID st' \<mapsto> st')"
    and ab: "absorbs event st'" and ty: "sg_Type st' = ty"
    and tgt: "(\<exists>st. locate_target env wa ty event ?cs = Inr (Existing st) \<and> sg_CorrelationID st' = sg_CorrelationID st) \<or>
       locate_target env wa ty event ?cs = Inr (Fresh (sg_CorrelationID st'))"
    by (cases rule: process_cases) (use took in auto)
  have again: "(\<exists>e. locate_target env w' ty event ?cs = Inl e) \<or>
      locate_target env w' ty event ?cs = Inr (Existing st') \<and> absorbs event st'"
    using target_after_write [OF env wa(1) w' _ ty lifecycle_unique [OF lc uniq]] rw wa(2) tgt ab by metis
  obtain m2 w2 r where at: "attemptProcessSagaEvent env app n w' ty event capture' ?cs f None = (m2, w2, r)"
    by (metis prod_cases3)
  note noop = attempt_absorbed [OF env app fok w' again at]
  have "w'' = w'"
  proof (cases "nat (sm_retryAttempts n)")
    case 0
    with lp show ?thesis by simp
  next
    case (Suc k)
    with lp noop at show ?thesis by (cases r) auto
  qed
  with ne show False by simp
qed

section \<open>The loop refines the lifecycle\<close>

definition runs_to :: "'w \<Rightarrow> 'w \<Rightarrow> bool" where
  "runs_to w w' \<longleftrightarrow> ok w' \<and> lifecycle\<^sup>*\<^sup>* (rows w) (rows w')"

lemma process_runs:
  assumes "sv_store env = ops" "leaves_sagas rows ok env" "keeps_identity app" "manager_ok m" "ok w"
    and "processSagaEvent env app m w ty event capture = (m', w', err)"
  shows "runs_to w w' \<and> cache_only m m'"
  using assms by (cases rule: process_cases) (auto simp: runs_to_def)

lemma deliver_runs:
  assumes "sv_store env = ops" "leaves_sagas rows ok env" "keeps_identity app" "manager_ok m" "ok w"
    and "deliver_loop env app event capture m w tys = (m', w')"
  shows "runs_to w w' \<and> cache_only m m'"
  using assms(4-6)
proof (induction tys arbitrary: m w)
  case (Cons ty tys)
  obtain m1 w1 e where p: "processSagaEvent env app m w ty event capture = (m1, w1, e)" by (metis prod_cases3)
  note r = process_runs [OF assms(1-3) Cons.prems(1,2) p]
  have "deliver_loop env app event capture m1 w1 tys = (m', w')" using Cons.prems(3) p by simp
  from Cons.IH [OF _ _ this] r Cons.prems(1) cache_onlyD(6) [of m m1] cache_only_trans [of m m1 m'] show ?case
    by (auto simp: runs_to_def)
qed (auto simp: runs_to_def)

lemma processEvent_runs:
  assumes "sv_store env = ops" "leaves_sagas rows ok env" "keeps_identity app" "manager_ok m" "ok w"
    and "processEvent env app m w event = (m', w', err)"
  shows "runs_to w w' \<and> cache_only m m'"
proof (cases "m' = m \<and> w' = w")
  case False
  with assms(6) obtain d tys where "deliver_loop env app d (captureCandidate event) m w tys = (m', w')"
    by (auto simp: processEvent_def Let_def split: if_splits sum.splits prod.splits)
  from deliver_runs [OF assms(1-5) this] show ?thesis .
qed (use assms in \<open>simp add: runs_to_def\<close>)

lemma timeoutSaga_runs:
  assumes env: "sv_store env = ops" "leaves_sagas rows ok env" and app: "keeps_identity app" and m: "manager_ok m"
    and ok: "ok w" and row: "rows w (sg_ID st) = Some st0" "sg_Type st0 = ty"
    and run: "timeoutSaga env app ty st (m, w) = (m', w')"
  shows "runs_to w w' \<and> cache_only m m'"
proof (cases "m' = m \<and> w' = w")
  case False
  then obtain f fresh where f: "map_of (sm_registry m) ty = Some f"
    and ld: "so_Load ops (sv_ctx env w) w (sg_ID st) = Inr (Some fresh)"
    and nt: "\<not> SagaStatus_IsTerminal (sg_Status fresh)"
    using run env(1) by (auto simp: timeoutSaga_def split: option.splits sum.splits if_splits)
  have fr: "rows w (sg_ID st) = Some fresh" "fresh = st0" using load_row [OF ok ld] row by simp_all
  have idv: "sg_ID fresh = sg_ID st" "1 \<le> sg_Version fresh" using rows_ok [OF ok fr(1)] by simp_all
  obtain m1 s where h: "hydrateSaga env app m (f (sv_now env w) (sg_ID fresh)) fresh = (m1, s)"
    by (cases "hydrateSaga env app m (f (sv_now env w) (sg_ID fresh)) fresh") auto
  note hs = hydrateSaga_saga [OF app h]
  obtain m2 w2 s2 e where hf: "handleSagaFailure env app m1 w s ErrSagaTimedOut = (m2, w2, s2, e)" by (metis prod_cases4)
  have res: "m' = m2" "w' = w2" using run f ld nt h hf env(1) by (simp_all add: timeoutSaga_def)
  have "0 \<le> sb_version s" using hs(3) idv by simp
  note wr = handleSagaFailure_writes [OF env app ok this hf]
  have eqs: "sb_id s = sg_ID fresh" "sb_sagaType s = sg_Type fresh"
    using hs(1,2) m f fr row(2) by (simp_all add: manager_ok_def factory_ok_def)
  have "rows w2 = rows w \<or> lifecycle (rows w) (rows w2)"
  proof (cases e)
    case None
    with wr obtain st' where "rows w2 = (rows w)(sb_id s \<mapsto> st')" "follows s st'" by (auto simp: writes_row_def)
    then have "rows w2 = (rows w)(sg_ID st' \<mapsto> st')" "follows s st'" by (simp_all add: follows_def)
    moreover from this have "lifecycle (rows w) ((rows w)(sg_ID st' \<mapsto> st'))"
      using fr idv nt eqs hs(3,4) by (intro lifecycle.advance [of _ _ fresh]) (simp_all add: follows_def)
    ultimately show ?thesis by simp
  qed (use wr in \<open>simp add: writes_row_def\<close>)
  moreover have "ok w2" using wr by (simp add: writes_row_def)
  ultimately show ?thesis using wr res cache_only_trans [OF hs(5)] by (auto simp: runs_to_def)
qed (use ok in \<open>simp add: runs_to_def\<close>)

lemma runs_to_trans: "runs_to a b \<Longrightarrow> runs_to b c \<Longrightarrow> runs_to a c"
  by (auto simp: runs_to_def)

lemma sweep_states_runs:
  assumes "sv_store env = ops" "leaves_sagas rows ok env" "keeps_identity app" "manager_ok m" "ok w"
    and "\<forall>st \<in> set l. \<exists>st0. rows w (sg_ID st) = Some st0 \<and> sg_Type st0 = ty"
    and "fold (\<lambda>state mw. if sg_UpdatedAt state > cutoff then mw else timeoutSaga env app ty state mw) l (m, w) = (m', w')"
  shows "runs_to w w' \<and> cache_only m m'"
  using assms(4-7)
proof (induction l arbitrary: m w)
  case (Cons st l)
  obtain m1 w1 where t: "(if sg_UpdatedAt st > cutoff then (m, w) else timeoutSaga env app ty st (m, w)) = (m1, w1)"
    by (rule prod.exhaust)
  obtain st0 where st0: "rows w (sg_ID st) = Some st0" "sg_Type st0 = ty" using Cons.prems(3) by auto
  have r: "runs_to w w1 \<and> cache_only m m1"
    using timeoutSaga_runs [OF assms(1-3) Cons.prems(1,2) st0] t Cons.prems(2)
    by (auto simp: runs_to_def split: if_splits)
  have m1: "manager_ok m1" "ok w1" using r Cons.prems(1) cache_onlyD(6) [of m m1] by (auto simp: runs_to_def)
  have "\<forall>st \<in> set l. \<exists>st0. rows w1 (sg_ID st) = Some st0 \<and> sg_Type st0 = ty"
    using Cons.prems(3) runs_keep r unfolding runs_to_def by (metis list.set_intros(2))
  from Cons.IH [OF m1 this] Cons.prems(4) t r cache_only_trans [of m m1 m'] runs_to_trans [of w w1 w'] show ?case
    by simp
qed (simp add: runs_to_def)

lemma sweep_types_runs:
  assumes "sv_store env = ops" "leaves_sagas rows ok env" "keeps_identity app" "manager_ok m" "ok w"
    and "fold (\<lambda>sagaType mw.
           (case so_FindByType (sv_store env) (sv_ctx env (snd mw)) (snd mw) sagaType [SagaStatusRunning] of
              Inl err \<Rightarrow> mw
            | Inr states \<Rightarrow>
                fold (\<lambda>state mw. if sg_UpdatedAt state > cutoff then mw
                                 else timeoutSaga env app sagaType state mw) states mw)) tys (m, w) = (m', w')"
  shows "runs_to w w' \<and> cache_only m m'"
  using assms(4-6)
proof (induction tys arbitrary: m w)
  case (Cons ty tys)
  obtain m1 w1 where t: "(case so_FindByType (sv_store env) (sv_ctx env w) w ty [SagaStatusRunning] of
      Inl err \<Rightarrow> (m, w)
    | Inr states \<Rightarrow> fold (\<lambda>state mw. if sg_UpdatedAt state > cutoff then mw
                       else timeoutSaga env app ty state mw) states (m, w)) = (m1, w1)"
    by (rule prod.exhaust)
  have r: "runs_to w w1 \<and> cache_only m m1"
  proof (cases "so_FindByType ops (sv_ctx env w) w ty [SagaStatusRunning]")
    case (Inl e)
    with t assms(1) Cons.prems(2) show ?thesis by (simp add: runs_to_def)
  next
    case (Inr l)
    have "\<forall>st \<in> set l. \<exists>st0. rows w (sg_ID st) = Some st0 \<and> sg_Type st0 = ty"
      using types_rows [OF Cons.prems(2) Inr] by blast
    from sweep_states_runs [OF assms(1-3) Cons.prems(1,2) this] t Inr assms(1) show ?thesis by simp
  qed
  have "manager_ok m1" "ok w1" using r Cons.prems(1) cache_onlyD(6) [of m m1] by (auto simp: runs_to_def)
  from Cons.IH [OF this] Cons.prems(3) t r cache_only_trans [of m m1 m'] runs_to_trans [of w w1 w'] show ?case
    by simp
qed (simp add: runs_to_def)

lemma start_loop_runs:
  assumes "sv_store env = ops" "leaves_sagas rows ok env" "keeps_identity app" "manager_ok m" "ok w"
    and "start_loop env app m w inputs = (m', w', r)"
  shows "runs_to w w' \<and> manager_ok m'"
  using assms(4-6)
proof (induction inputs arbitrary: m w)
  case (Cons i inputs)
  show ?case
  proof (cases i)
    case (Deliver e)
    obtain m1 w1 err where p: "processEvent env app m w e = (m1, w1, err)" by (metis prod_cases3)
    note pr = processEvent_runs [OF assms(1-3) Cons.prems(1,2) p]
    have m1: "manager_ok (m1\<lparr>sm_position := x\<rparr>)" "ok w1" for x
      using pr Cons.prems(1) cache_onlyD(6) [of m m1] by (auto simp: runs_to_def manager_ok_def)
    show ?thesis
    proof (cases "sv_ctx env w1")
      case None
      with Cons.prems(3) Deliver p
      have "start_loop env app (m1\<lparr>sm_position := se_GlobalPosition e + 1\<rparr>) w1 inputs = (m', w', r)" by simp
      from Cons.IH [OF m1 this] pr runs_to_trans [of w w1 w'] show ?thesis by blast
    next
      case (Some x)
      with Cons.prems(3) Deliver p pr m1(1) [of "sm_position m1"] show ?thesis by simp
    qed
  next
    case SweepTick
    obtain m1 w1 where s: "sweepTimeouts env app m w = (m1, w1)" by (cases "sweepTimeouts env app m w") auto
    have r1: "runs_to w w1 \<and> cache_only m m1"
      using s sweep_types_runs [OF assms(1-3) Cons.prems(1,2)] Cons.prems(2)
      by (simp add: sweepTimeouts_def Let_def runs_to_def split: if_splits)
    have "start_loop env app m1 w1 inputs = (m', w', r)" using Cons.prems(3) SweepTick s by simp
    from Cons.IH [OF _ _ this] r1 Cons.prems(1) cache_onlyD(6) [of m m1] runs_to_trans [of w w1 w'] show ?thesis
      by (auto simp: runs_to_def)
  qed (use Cons.prems in \<open>simp add: runs_to_def\<close>)
qed (simp add: runs_to_def)

end

section \<open>The in-memory saga store\<close>

definition mem_rows :: "('x saga_world_scheme) \<Rightarrow> saga_rows" where
  "mem_rows w = map_of (st_sagas (sw_store w))"

definition mem_rows_ok :: "('x saga_world_scheme) \<Rightarrow> bool" where
  "mem_rows_ok w \<longleftrightarrow> saga_inv (sw_store w) \<and> (\<forall>(k, st) \<in> set (st_sagas (sw_store w)). 1 \<le> sg_Version st)"

definition mem_find :: "ctx \<Rightarrow> ('x saga_world_scheme) \<Rightarrow> string \<Rightarrow> string \<Rightarrow> error + saga_state option" where
  "mem_find ctx w c ty =
     (case FindByCorrelationIDAndType ctx (sw_store w) c ty of Inl e \<Rightarrow> Inl e | Inr st \<Rightarrow> Inr (Some st))"

lemma mem_rows_mem:
  assumes "mem_rows_ok w" and "(k, st) \<in> set (st_sagas (sw_store w))"
  shows "mem_rows w k = Some st" and "sg_ID st = k" and "1 \<le> sg_Version st"
  using assms by (auto simp: mem_rows_ok_def mem_rows_def saga_inv_def sagas_inv_def)

lemma mem_save_done:
  assumes "mem_rows_ok w" and "0 \<le> sg_Version st"
    and "so_Save mem_saga_ops c now w (Some st) = (w', st', None)"
  shows "mem_rows_ok w'"
    and "mem_rows w' = (mem_rows w)(sg_ID st \<mapsto> st\<lparr>sg_UpdatedAt := now, sg_Version := sg_Version st + 1\<rparr>)"
    and "at_version (mem_rows w) (sg_ID st) (sg_Version st)"
proof -
  let ?saved = "st\<lparr>sg_UpdatedAt := now, sg_Version := sg_Version st + 1\<rparr>"
  obtain s' st2 where sv: "Saga_Save c now (sw_store w) (Some st) = (s', st2, None)" and w': "w' = w\<lparr>sw_store := s'\<rparr>"
    using assms(3) by (auto simp: mem_saga_ops_def split: prod.splits)
  have s': "st_sagas s' = AList.update (sg_ID st) ?saved (st_sagas (sw_store w))"
    and av: "at_version (mem_rows w) (sg_ID st) (sg_Version st)"
    using sv assms(2) by (auto simp: Saga_Save_def Let_def at_version_def mem_rows_def split: option.splits if_splits)
  have "saga_inv s'"
    using Saga_Save_inv [of "sw_store w" c now "Some st"] sv assms(1) by (simp add: mem_rows_ok_def)
  moreover have "\<forall>(k, x) \<in> set (st_sagas s'). 1 \<le> sg_Version x"
    using set_update_subset [of "sg_ID st" ?saved "st_sagas (sw_store w)"] assms(1,2)
    by (fastforce simp: s' mem_rows_ok_def)
  ultimately show "mem_rows_ok w'" by (simp add: mem_rows_ok_def w')
  show "mem_rows w' = (mem_rows w)(sg_ID st \<mapsto> ?saved)" by (simp add: mem_rows_def w' s' update_conv')
  show "at_version (mem_rows w) (sg_ID st) (sg_Version st)" by (rule av)
qed

interpretation mem_sagas: saga_backend mem_saga_ops mem_find mem_rows mem_rows_ok
proof
  show "so_FindByCorrelationIDAndType mem_saga_ops = Some mem_find"
    by (simp add: mem_saga_ops_def mem_find_def fun_eq_iff)
next
  fix w :: "'x saga_world_scheme" and st c now w' st'
  assume "mem_rows_ok w" "0 \<le> sg_Version st" "so_Save mem_saga_ops c now w (Some st) = (w', st', None)"
  from mem_save_done [OF this] show "mem_rows_ok w' \<and>
      mem_rows w' = (mem_rows w)(sg_ID st \<mapsto> st\<lparr>sg_UpdatedAt := now, sg_Version := sg_Version st + 1\<rparr>) \<and>
      at_version (mem_rows w) (sg_ID st) (sg_Version st)" by simp
next
  fix w :: "'x saga_world_scheme" and c now sto w' st' e
  assume "so_Save mem_saga_ops c now w sto = (w', st', Some e)"
  then show "w' = w"
    by (auto simp: mem_saga_ops_def Saga_Save_def Let_def split: prod.splits option.splits if_splits)
next
  fix w :: "'x saga_world_scheme" and c i st
  assume "so_Load mem_saga_ops c w i = Inr (Some st)"
  then show "mem_rows w i = Some st"
    by (auto simp: mem_saga_ops_def Saga_Load_def mem_rows_def split: sum.splits option.splits if_splits)
next
  fix w :: "'x saga_world_scheme" and i st
  assume "mem_rows_ok w" "mem_rows w i = Some st"
  then show "sg_ID st = i \<and> 1 \<le> sg_Version st"
    using mem_rows_mem(2,3) map_of_SomeD unfolding mem_rows_def by metis
next
  fix w :: "'x saga_world_scheme" and c cid ty st
  assume ok: "mem_rows_ok w" and f: "mem_find c w cid ty = Inr (Some st)"
  then have "c = None" and "FindByCorrelationIDAndType None (sw_store w) cid ty = Inr st"
    by (auto simp: mem_find_def FindByCorrelationIDAndType_def split: sum.splits option.splits if_splits)
  from FindByCorrelationIDAndType_latest [OF this(2)] mem_rows_mem [OF ok]
  show "mem_rows w (sg_ID st) = Some st \<and> sg_CorrelationID st = cid \<and> sg_Type st = ty" by force
next
  fix w :: "'x saga_world_scheme" and c cid ty e i st
  assume ok: "mem_rows_ok w" and c: "ctx_ok c" and f: "mem_find c w cid ty = Inl e"
    and e: "errors_Is e ErrSagaNotFound" and row: "mem_rows w i = Some st" "sg_Type st = ty"
  from c f e have "latest_loop (\<lambda>st. \<not> (sg_CorrelationID st \<noteq> cid \<or> sg_Type st \<noteq> ty)) (st_sagas (sw_store w)) None = None"
    by (auto simp: mem_find_def FindByCorrelationIDAndType_def ctx_ok_def split: sum.splits if_splits option.splits)
  with latest_loop_sound [of None "\<lambda>st. \<not> (sg_CorrelationID st \<noteq> cid \<or> sg_Type st \<noteq> ty)" "st_sagas (sw_store w)"]
    map_of_SomeD row show "sg_CorrelationID st \<noteq> cid"
    unfolding mem_rows_def by fastforce
next
  fix w :: "'x saga_world_scheme" and c cid ty
  show "mem_find c w cid ty \<noteq> Inr None" by (simp add: mem_find_def split: sum.splits)
next
  fix w :: "'x saga_world_scheme" and c cid ty e
  assume "ctx_ok c" "mem_find c w cid ty = Inl e"
  then show "\<not> errors_Is e ErrConcurrencyConflict"
    by (auto simp: mem_find_def FindByCorrelationIDAndType_def ctx_ok_def split: sum.splits if_splits option.splits)
next
  fix w :: "'x saga_world_scheme" and c ty sts l st
  assume "mem_rows_ok w" "so_FindByType mem_saga_ops c w ty sts = Inr l" "st \<in> set l"
  then show "mem_rows w (sg_ID st) = Some st \<and> sg_Type st = ty"
    using mem_rows_mem [of w] by (fastforce simp: mem_saga_ops_def FindByType_def split: if_splits option.splits)
qed

end
