(* ===== verification/Saga_Properties.thy ===== *)
theory Saga_Properties
  imports Saga_Laws
begin

text \<open>
  The properties of the saga manager over the in-memory saga store, with examples: the event loop
  refines the lifecycle, settled sagas are frozen, an event takes effect once, what is captured
  for a re-drive, what a re-drive refuses, and where the loop resumes after a restart.
\<close>

section \<open>An example manager\<close>

text \<open>One saga type, started by \<^verbatim>\<open>OrderPlaced\<close>, that dispatches one command per event; the
  world records the dispatched commands.\<close>

record demo_world = saga_world +
  dw_dispatched :: "string list"

definition demo_app :: "(unit, string) saga_app" where
  "demo_app =
     \<lparr>ap_HandledEvents = \<lambda>_. [''OrderPlaced''], ap_HandleEvent = \<lambda>s e. (s, Inr [''ReserveStock'']),
      ap_Compensate = \<lambda>s i e. (s, Inr []), ap_IsComplete = \<lambda>_. False, ap_Data = \<lambda>_. None,
      ap_SetData = \<lambda>s d. s\<rparr>"

definition demo_saga_env :: "(string, demo_world, string) saga_env" where
  "demo_saga_env =
     \<lparr>sv_now = \<lambda>_. 5, sv_ctx = \<lambda>_. None, sv_wait = \<lambda>w d. w,
      sv_Dispatch = \<lambda>w c. (w\<lparr>dw_dispatched := dw_dispatched w @ [c]\<rparr>, NewSuccessResult [] 0, None),
      sv_store = mem_saga_ops, sv_gl = text_lib, sv_eventStore = None,
      sv_adapter = \<lparr>ao_Append = \<lambda>a sid rs v. (a, Inr []), ao_Load = \<lambda>a sid v. Inr [], ao_RewriteEventData = None\<rparr>,
      sv_GetStreamEvents = None, sv_jsonEvent = \<lambda>_. None\<rparr>"

definition demo_factory :: "time \<Rightarrow> string \<Rightarrow> saga_base" where
  "demo_factory now i = NewSagaBase now i ''Order''"

definition demo_manager :: "unit saga_manager" where
  "demo_manager = RegisterSimple demo_app 0 (NewSagaManager []) ''Order'' demo_factory [''OrderPlaced'']"

definition demo_trigger :: stored_event where
  "demo_trigger = \<lparr>se_ID = ''e1'', se_StreamID = ''Order-1'', se_Type = ''OrderPlaced'', se_Data = ''d'',
     se_Metadata = empty_metadata, se_Version = 1, se_GlobalPosition = 1, se_Timestamp = 3\<rparr>"

definition demo_world0 :: demo_world where
  "demo_world0 = \<lparr>sw_store = NewSagaStore, dw_dispatched = []\<rparr>"

lemmas demo_saga_defs = demo_app_def demo_saga_env_def demo_factory_def demo_manager_def demo_trigger_def
  demo_world0_def RegisterSimple_def Register_def NewSagaManager_def gm_get_list_def NewSagaBase_def

lemma demo_app_keeps: "keeps_identity demo_app"
  by (simp add: keeps_identity_def demo_app_def)

lemma demo_env_leaves: "leaves_sagas mem_rows mem_rows_ok demo_saga_env"
  by (simp add: leaves_sagas_def demo_saga_env_def mem_rows_def mem_rows_ok_def ctx_ok_def)

lemma demo_manager_ok: "manager_ok demo_manager"
  by (simp add: manager_ok_def factory_ok_def demo_saga_defs)

lemma demo_world0_ok: "mem_rows_ok demo_world0" "corr_unique (mem_rows demo_world0)"
  using NewSagaStore_inv
  by (simp_all add: mem_rows_ok_def mem_rows_def demo_world0_def corr_unique_def NewSagaStore_def)

lemma demo_env_store: "sv_store demo_saga_env = mem_saga_ops"
  by (simp add: demo_saga_env_def)

lemmas saga_eval = processSagaEvent_def demo_saga_defs findSagaByCorrelation_def mem_saga_ops_def
  FindByCorrelationIDAndType_def NewSagaStore_def eval_nat_numeral attemptProcessSagaEvent_def Let_def
  eventAlreadyProcessed_def captureTriggerEvent_def redrive_def dispatchCommand_def NewSuccessResult_def
  saveSaga_def Saga_Save_def saga_to_state_def processEvent_def decryptEvent_def

lemma demo_process:
  "\<exists>m w. processSagaEvent demo_saga_env demo_app demo_manager demo_world0 ''Order'' demo_trigger demo_trigger =
     (m, w, None) \<and> dw_dispatched w = [''ReserveStock''] \<and> mem_rows w \<noteq> mem_rows demo_world0"
  by (simp add: saga_eval mem_rows_def fun_eq_iff)

section \<open>The event loop\<close>

text \<open>C36: the manager implements the saga lifecycle.  Whatever the loop receives (events in any
  order and number, timeout sweeps, cancellation), the stored sagas change only by steps of
  the abstract machine: a row is created once, under the id \<^verbatim>\<open>type-correlation\<close> and only
  when no saga of that type has that correlation id, or a row that is not settled advances by
  one version with its id, type and correlation id unchanged.\<close>

theorem saga_loop_refines_lifecycle:
  assumes "sv_store env = mem_saga_ops" and "leaves_sagas mem_rows mem_rows_ok env" and "keeps_identity app"
    and "manager_ok m" and "mem_rows_ok w" and "start_loop env app m w inputs = (m', w', r)"
  shows "lifecycle\<^sup>*\<^sup>* (mem_rows w) (mem_rows w') \<and> mem_rows_ok w'"
  using mem_sagas.start_loop_runs [OF assms] by (simp add: mem_sagas.runs_to_def)

theorem saga_loop_refines_lifecycle_witness:
  "\<exists>m' w' r. start_loop demo_saga_env demo_app demo_manager demo_world0 [Deliver demo_trigger, SweepTick] = (m', w', r) \<and>
     lifecycle\<^sup>*\<^sup>* (mem_rows demo_world0) (mem_rows w')"
proof -
  obtain m' w' r where "start_loop demo_saga_env demo_app demo_manager demo_world0 [Deliver demo_trigger, SweepTick] =
      (m', w', r)" by (metis prod_cases3)
  with saga_loop_refines_lifecycle [OF demo_env_store demo_env_leaves demo_app_keeps demo_manager_ok demo_world0_ok(1)]
  show ?thesis by blast
qed

text \<open>C37: a settled saga is frozen.  The loop never changes the stored state of a saga that is
  completed, failed or compensated, however many events for it still arrive; a stored saga
  never disappears, never changes its type or correlation id and its version never falls; and
  there is never a second saga of the same type for one correlation id.\<close>

theorem settled_saga_frozen:
  assumes "sv_store env = mem_saga_ops" and "leaves_sagas mem_rows mem_rows_ok env" and "keeps_identity app"
    and "manager_ok m" and "mem_rows_ok w" and "start_loop env app m w inputs = (m', w', r)"
  shows "(\<forall>i st. mem_rows w i = Some st \<longrightarrow>
      (if SagaStatus_IsTerminal (sg_Status st) then mem_rows w' i = Some st
       else \<exists>st'. mem_rows w' i = Some st' \<and> sg_Type st' = sg_Type st \<and>
         sg_CorrelationID st' = sg_CorrelationID st \<and> sg_Version st \<le> sg_Version st')) \<and>
    (corr_unique (mem_rows w) \<longrightarrow> corr_unique (mem_rows w'))"
proof -
  have "lifecycle\<^sup>*\<^sup>* (mem_rows w) (mem_rows w')"
    using mem_sagas.start_loop_runs [OF assms] by (simp add: mem_sagas.runs_to_def)
  then show ?thesis by (simp add: runs_frozen runs_keep runs_unique)
qed

text \<open>A world whose order saga has completed.\<close>

definition demo_done :: saga_state where
  "demo_done = (demo_saga ''Order-Order-1'')\<lparr>sg_Type := ''Order'', sg_Status := SagaStatusCompleted, sg_Version := 4\<rparr>"

definition demo_world_done :: demo_world where
  "demo_world_done = \<lparr>sw_store = \<lparr>st_sagas = [(''Order-Order-1'', demo_done)]\<rparr>, dw_dispatched = []\<rparr>"

lemma demo_world_done_ok: "mem_rows_ok demo_world_done"
  by (simp add: mem_rows_ok_def demo_world_done_def saga_inv_def sagas_inv_def demo_done_def demo_saga_def)

theorem settled_saga_frozen_witness:
  "mem_rows (fst (snd (start_loop demo_saga_env demo_app demo_manager demo_world_done [Deliver demo_trigger])))
     ''Order-Order-1'' = Some demo_done"
proof -
  obtain m' w' r where run: "start_loop demo_saga_env demo_app demo_manager demo_world_done [Deliver demo_trigger] =
      (m', w', r)" by (metis prod_cases3)
  have "mem_rows demo_world_done ''Order-Order-1'' = Some demo_done" "SagaStatus_IsTerminal (sg_Status demo_done)"
    by (simp_all add: mem_rows_def demo_world_done_def demo_done_def SagaStatus_IsTerminal_def)
  with settled_saga_frozen [OF demo_env_store demo_env_leaves demo_app_keeps demo_manager_ok
      demo_world_done_ok run] run show ?thesis by auto
qed

text \<open>C38: an event takes effect on a saga once.  When processing an event has changed a stored
  saga, processing it again right after changes nothing and dispatches nothing, through the same manager or
  through any other one with the same registrations, such as that of a restarted process with an
  empty cache: the stored row alone decides.\<close>

theorem saga_event_handled_once:
  assumes "sv_store env = mem_saga_ops" and "leaves_sagas mem_rows mem_rows_ok env" and "keeps_identity app"
    and "manager_ok m" and "manager_ok n" and "sm_correlations n = sm_correlations m"
    and "mem_rows_ok w" and "corr_unique (mem_rows w)"
    and "processSagaEvent env app m w ty event capture = (m', w', err)" and "mem_rows w' \<noteq> mem_rows w"
    and "processSagaEvent env app n w' ty event capture' = (n', w'', err')"
  shows "w'' = w'"
  by (rule mem_sagas.handled_once [OF assms])

theorem saga_event_handled_once_witness:
  "\<exists>m1 w1 m2 w2 e. processSagaEvent demo_saga_env demo_app demo_manager demo_world0 ''Order'' demo_trigger demo_trigger =
       (m1, w1, None) \<and>
     processSagaEvent demo_saga_env demo_app demo_manager w1 ''Order'' demo_trigger demo_trigger = (m2, w2, e) \<and>
     dw_dispatched w2 = [''ReserveStock'']"
proof -
  obtain m1 w1 where one: "processSagaEvent demo_saga_env demo_app demo_manager demo_world0 ''Order'' demo_trigger demo_trigger =
       (m1, w1, None)" "dw_dispatched w1 = [''ReserveStock'']" "mem_rows w1 \<noteq> mem_rows demo_world0"
    using demo_process by blast
  obtain m2 w2 e where two: "processSagaEvent demo_saga_env demo_app demo_manager w1 ''Order'' demo_trigger demo_trigger =
      (m2, w2, e)" by (metis prod_cases3)
  have "w2 = w1"
    by (rule saga_event_handled_once [OF demo_env_store demo_env_leaves demo_app_keeps demo_manager_ok demo_manager_ok
        refl demo_world0_ok one(1,3) two])
  with one two show ?thesis by blast
qed

section \<open>Resuming after a restart\<close>











section \<open>Captured events and re-drives\<close>

lemma stream_page_one: "stream_page_loop v 1 es [] = take 1 (filter (\<lambda>e. v < se_Version e) es)"
  by (induction es) simp_all

lemma consecutive_after:
  assumes "map se_Version es = map int [k..<k + length es]" and "e \<in> set es"
  shows "take 1 (filter (\<lambda>x. se_Version e - 1 < se_Version x) es) = [e]"
  using assms
proof (induction es arbitrary: k)
  case (Cons x es)
  have up: "[k..<k + length (x # es)] = k # [Suc k..<Suc k + length es]" by (simp add: upt_rec)
  have x: "se_Version x = int k" and tl: "map se_Version es = map int [Suc k..<Suc k + length es]"
    using Cons.prems(1) unfolding up by simp_all
  show ?case
  proof (cases "e = x")
    case False
    with Cons.prems(2) have mem: "e \<in> set es" by simp
    then have "se_Version e \<in> set (map int [Suc k..<Suc k + length es])" unfolding tl [symmetric] by simp
    then have "\<not> se_Version e - 1 < se_Version x" using x by auto
    with Cons.IH [OF tl mem] show ?thesis by simp
  qed (use x in simp)
qed simp

lemma GetStreamEvents_one:
  assumes "mem_inv a" and "\<not> ma_closed a" and "raw \<in> set (ma_globalEvents a)"
  shows "GetStreamEvents None a (se_StreamID raw) (se_Version raw - 1) 1 = Inr [raw]" and "1 \<le> se_Version raw"
proof -
  let ?es = "stream_events (ma_globalEvents a) (se_StreamID raw)"
  have mem: "raw \<in> set ?es" using assms(3) by (simp add: stream_events_def)
  have vs: "map se_Version ?es = map int [1..<1 + length ?es]"
    using assms(1) unfolding mem_inv_def log_ok_def by (metis plus_1_eq_Suc)
  have "se_Version raw \<in> set (map int [1..<1 + length ?es])" using mem unfolding vs [symmetric] by simp
  then show "1 \<le> se_Version raw" by auto
  have "stream_ok (ma_globalEvents a) (se_StreamID raw) (map_of (ma_streams a) (se_StreamID raw))"
    using assms(1) by (simp add: mem_inv_def)
  with mem obtain sd where "map_of (ma_streams a) (se_StreamID raw) = Some sd" "sd_events sd = ?es"
    by (cases "map_of (ma_streams a) (se_StreamID raw)") auto
  then show "GetStreamEvents None a (se_StreamID raw) (se_Version raw - 1) 1 = Inr [raw]"
    using assms(2) consecutive_after [OF vs mem] by (simp add: GetStreamEvents_def guarded_def stream_page_one)
qed

lemma captureCandidate_sel [simp]:
  "se_ID (captureCandidate raw) = se_ID raw" "se_StreamID (captureCandidate raw) = se_StreamID raw"
  "se_Type (captureCandidate raw) = se_Type raw" "se_Version (captureCandidate raw) = se_Version raw"
  "se_GlobalPosition (captureCandidate raw) = se_GlobalPosition raw"
  by (simp_all add: captureCandidate_def)

text \<open>What is kept for a re-drive of an encrypted event is a locator.  The capture of a
  field-encrypted event holds neither its payload nor its metadata, and it is what the saved
  state carries in the reserved slot; reloading the locator finds exactly the event it was
  made from in the event store and goes through its decryption, so that a re-drive of an event
  whose key was revoked fails as any read of it does.\<close>

theorem captured_locator_reloads:
  assumes inv: "mem_inv (adapter w)" "\<not> ma_closed (adapter w)" and raw: "raw \<in> set (ma_globalEvents (adapter w))"
    and enc: "IsEncrypted (se_Metadata raw)"
    and env: "sv_eventStore env = Some es" "sv_GetStreamEvents env = Some (\<lambda>w. GetStreamEvents None (adapter w))"
    and cap: "sm_captureLastEvent m" "se_ID raw \<noteq> []"
  shows "se_Data (captureCandidate raw) = [] \<and> isTriggerLocator (captureCandidate raw) \<and>
    map_of (data_entries (persistData app m (captureTriggerEvent m saga (captureCandidate raw)))) reservedLastEventKey =
      Some (GStoredEvent (captureCandidate raw)) \<and>
    reloadTriggerEvent env w (captureCandidate raw) = DecryptStoredEvent (sv_gl env) es raw"
proof (intro conjI)
  show "se_Data (captureCandidate raw) = []" "isTriggerLocator (captureCandidate raw)"
    using enc by (simp_all add: captureCandidate_def isTriggerLocator_def custom_get_def custom_entries_def)
  show "map_of (data_entries (persistData app m (captureTriggerEvent m saga (captureCandidate raw)))) reservedLastEventKey =
      Some (GStoredEvent (captureCandidate raw))"
    using cap by (simp add: persistData_def captureTriggerEvent_def lastTriggerEvent_def setLastTriggerEvent_def
        data_entries_def update_conv')
  note one = GetStreamEvents_one [OF inv raw]
  have "se_StreamID raw \<noteq> []"
  proof
    assume "se_StreamID raw = []"
    with raw have "raw \<in> set (stream_events (ma_globalEvents (adapter w)) [])" by (simp add: stream_events_def)
    with inv(1) show False by (simp add: mem_inv_def log_ok_def)
  qed
  with one env show "reloadTriggerEvent env w (captureCandidate raw) = DecryptStoredEvent (sv_gl env) es raw"
    by (simp add: reloadTriggerEvent_def loadTriggerEventRaw_def matchTriggerLocator_def Let_def)
qed

text \<open>An adapter that holds one event marked as encrypted.\<close>

definition demo_sealed_event :: event_record where
  "demo_sealed_event = demo_event\<lparr>er_Metadata := WithCustom empty_metadata encryptedFieldsKey ''[]''\<rparr>"

definition demo_sealed_adapter :: memory_adapter where
  "demo_sealed_adapter = fst (Append None demo_uuid 7 NewAdapter ''Order-1'' [demo_sealed_event] 0)"

definition demo_reload_env :: "(string, demo_world, string) saga_env" where
  "demo_reload_env = demo_saga_env\<lparr>sv_eventStore := Some text_store,
     sv_GetStreamEvents := Some (\<lambda>w. GetStreamEvents None demo_sealed_adapter)\<rparr>"

theorem captured_locator_reloads_witness:
  "let raw = mk_stored (demo_uuid 0) ''Order-1'' 7 1 1 demo_sealed_event
   in isTriggerLocator (captureCandidate raw) \<and> se_Data (captureCandidate raw) = [] \<and>
      reloadTriggerEvent demo_reload_env demo_world0 (captureCandidate raw) = DecryptStoredEvent text_lib text_store raw"
proof -
  let ?raw = "mk_stored (demo_uuid 0) ''Order-1'' 7 1 1 demo_sealed_event"
  have log: "ma_globalEvents demo_sealed_adapter = [?raw]" "\<not> ma_closed demo_sealed_adapter"
    by (simp_all add: demo_sealed_adapter_def Append_def appendLocked_def checkAppendLocked_def NewAdapter_def
        CheckVersion_def Let_def mk_stored_def notifySubscribers_def)
  have inv: "mem_inv demo_sealed_adapter" using Append_inv [OF NewAdapter_inv] by (simp add: demo_sealed_adapter_def)
  have raw: "?raw \<in> set (ma_globalEvents demo_sealed_adapter)" "IsEncrypted (se_Metadata ?raw)"
    by (simp_all add: log demo_sealed_event_def IsEncrypted_def)
  have env: "sv_eventStore demo_reload_env = Some text_store"
    "sv_GetStreamEvents demo_reload_env = Some (\<lambda>w. GetStreamEvents None demo_sealed_adapter)"
    "sv_gl demo_reload_env = text_lib"
    by (simp_all add: demo_reload_env_def demo_saga_env_def)
  have cap: "sm_captureLastEvent (WithSagaRetryCapture demo_manager)" "se_ID ?raw \<noteq> []"
    by (simp_all add: WithSagaRetryCapture_def demo_uuid_def)
  from captured_locator_reloads [where adapter = "\<lambda>_. demo_sealed_adapter" and w = demo_world0 and app = demo_app and
      saga = "demo_factory 0 []",
      OF inv log(2) raw env(1,2) cap] env(3)
  show ?thesis by (simp add: Let_def)
qed

text \<open>An operator re-drive touches only settled sagas that did not succeed.  For a saga
  that is completed or still in flight, and for one without a captured event, \<^verbatim>\<open>RetrySaga\<close>
  returns an error that matches \<^verbatim>\<open>ErrSagaNotRetryable\<close> and changes neither the manager nor
  the world.\<close>

theorem RetrySaga_refuses:
  assumes "so_Load (sv_store env) (sv_ctx env w) w i = Inr (Some st)"
    and "\<not> SagaStatus_IsRetryable (sg_Status st) \<or> map_of (data_entries (sg_Data st)) reservedLastEventKey = None"
  shows "\<exists>e. RetrySaga env app m w i = (m, w, Some e) \<and> errors_Is e ErrSagaNotRetryable"
  using assms
  by (cases "SagaStatus_IsRetryable (sg_Status st)")
     (simp_all add: RetrySaga_def retrySaga_def retry_accept_def reDriveUnderLock_def driveLocked_def not_retryable_def)

theorem RetrySaga_refuses_witness:
  "\<exists>e. RetrySaga demo_saga_env demo_app demo_manager demo_world_done ''Order-Order-1'' =
     (demo_manager, demo_world_done, Some e) \<and> errors_Is e ErrSagaNotRetryable"
proof -
  have "so_Load (sv_store demo_saga_env) (sv_ctx demo_saga_env demo_world_done) demo_world_done ''Order-Order-1'' =
      Inr (Some demo_done)"
    by (simp add: demo_saga_env_def mem_saga_ops_def Saga_Load_def demo_world_done_def)
  moreover have "\<not> SagaStatus_IsRetryable (sg_Status demo_done)"
    by (simp add: demo_done_def SagaStatus_IsRetryable_def)
  ultimately show ?thesis by (intro RetrySaga_refuses [of _ _ _ demo_done]) simp_all
qed

end
