(* ===== verification/Outbox_Processor.thy ===== *)
theory Outbox_Processor
  imports Outbox_Store "HOL-Library.Multiset"
begin

text \<open>
  The outbox processor (\<^verbatim>\<open>outbox_processor.go\<close>) and the routing of events to outbox
  messages (\<^verbatim>\<open>outbox.go\<close>).

  The processor works against the interface \<^verbatim>\<open>adapters.OutboxStore\<close>: the record
  \<open>outbox_ops\<close> holds the operations it calls, with the context and the clock already
  applied.  What it relies on is the locale \<open>outbox_marks\<close>; the in-memory store is its
  instance.  A publisher is application code: its \<^verbatim>\<open>Publish\<close> is a function from the
  batch to an optional error.  Go visits the groups of a batch in an arbitrary order:
  \<open>ord\<close> is the permutation one run takes.  Calls of the metrics interface are
  collected in order; log lines are not modelled.
\<close>

section \<open>Configuration\<close>

type_synonym publisher = "outbox_message list \<Rightarrow> error option"

record outbox_processor =
  op_publishers :: "string \<rightharpoonup> publisher"
  op_batchSize :: int
  op_pollInterval :: duration
  op_maxRetries :: int
  op_retryBackoff :: duration
  op_cleanupInterval :: duration
  op_cleanupAge :: duration
  op_processingTimeout :: duration
  op_running :: bool
  op_stopping :: bool

definition Second :: duration where "Second = 1000000000"

datatype processor_option =
    WithBatchSize int | WithPollInterval duration | WithMaxRetries int | WithRetryBackoff duration
  | WithCleanupInterval duration | WithCleanupAge duration | WithProcessingTimeout duration
  | WithPublisher string publisher

fun apply_option :: "processor_option \<Rightarrow> outbox_processor \<Rightarrow> outbox_processor" where
  "apply_option (WithBatchSize n) p = (if n > 0 then p\<lparr>op_batchSize := n\<rparr> else p)"
| "apply_option (WithPollInterval d) p = (if d > 0 then p\<lparr>op_pollInterval := d\<rparr> else p)"
| "apply_option (WithMaxRetries n) p = (if n > 0 then p\<lparr>op_maxRetries := n\<rparr> else p)"
| "apply_option (WithRetryBackoff d) p = (if d > 0 then p\<lparr>op_retryBackoff := d\<rparr> else p)"
| "apply_option (WithCleanupInterval d) p = (if d > 0 then p\<lparr>op_cleanupInterval := d\<rparr> else p)"
| "apply_option (WithCleanupAge d) p = (if d > 0 then p\<lparr>op_cleanupAge := d\<rparr> else p)"
| "apply_option (WithProcessingTimeout d) p = (if d > 0 then p\<lparr>op_processingTimeout := d\<rparr> else p)"
| "apply_option (WithPublisher dest f) p = p\<lparr>op_publishers := (op_publishers p)(dest \<mapsto> f)\<rparr>"

definition NewOutboxProcessor :: "processor_option list \<Rightarrow> outbox_processor" where
  "NewOutboxProcessor opts =
     fold apply_option opts
       \<lparr>op_publishers = Map.empty, op_batchSize = 100, op_pollInterval = Second, op_maxRetries = 5,
        op_retryBackoff = 5 * Second, op_cleanupInterval = 3600 * Second,
        op_cleanupAge = 7 * 24 * 3600 * Second, op_processingTimeout = 5 * 60 * Second,
        op_running = False, op_stopping = False\<rparr>"

text \<open>\<^verbatim>\<open>Start\<close> and \<^verbatim>\<open>Stop\<close>, as far as the state of the processor goes: \<open>drained\<close>
  says that both loops ended before the context did.\<close>

definition Processor_Start :: "outbox_processor \<Rightarrow> outbox_processor \<times> error option" where
  "Processor_Start p =
     (if op_running p then (p, Some ErrOutboxProcessorRunning)
      else (p\<lparr>op_running := True, op_stopping := False\<rparr>, None))"

definition Processor_Stop :: "(unit + error) \<Rightarrow> outbox_processor \<Rightarrow> outbox_processor \<times> error option" where
  "Processor_Stop drained p =
     (if \<not> op_running p then (p, None)
      else if op_stopping p then (p, None)
      else (case drained of
              Inl _ \<Rightarrow> (p\<lparr>op_stopping := True, op_running := False\<rparr>, None)
            | Inr e \<Rightarrow> (p\<lparr>op_stopping := True, op_running := False\<rparr>, Some e)))"

section \<open>One batch\<close>

definition UnregisteredDestinationLabel :: string where
  "UnregisteredDestinationLabel = ''unregistered''"

definition destinationPrefix :: "string \<Rightarrow> string" where
  "destinationPrefix destination =
     (let idx = length (takeWhile (\<lambda>c. c \<noteq> CHR '':'') destination)
      in if idx < length destination \<and> idx > 0 then take idx destination else destination)"

definition isSchemeByte :: "char \<Rightarrow> bool" where
  "isSchemeByte c \<longleftrightarrow>
     (let n = of_char c :: nat
      in (97 \<le> n \<and> n \<le> 122) \<or> (65 \<le> n \<and> n \<le> 90) \<or> (48 \<le> n \<and> n \<le> 57) \<or>
         c = CHR ''+'' \<or> c = CHR ''-'' \<or> c = CHR ''.'')"

record 's outbox_ops =
  oo_FetchPending :: "'s \<Rightarrow> int \<Rightarrow> 's \<times> (error + outbox_message list)"
  oo_MarkFailed :: "'s \<Rightarrow> string \<Rightarrow> error option \<Rightarrow> 's \<times> error option"
  oo_MarkCompleted :: "'s \<Rightarrow> string list \<Rightarrow> 's \<times> error option"
  oo_ReclaimStale :: "'s \<Rightarrow> duration \<Rightarrow> 's \<times> (error + nat)"
  oo_RetryFailed :: "'s \<Rightarrow> int \<Rightarrow> 's \<times> (error + nat)"
  oo_MoveToDeadLetter :: "'s \<Rightarrow> int \<Rightarrow> 's \<times> (error + nat)"
  oo_Cleanup :: "'s \<Rightarrow> duration \<Rightarrow> 's \<times> (error + nat)"

datatype metric =
    RecordMessageProcessed string bool | RecordMessageFailed string | RecordMessageDeadLettered
  | RecordPendingMessages nat | RecordBatchDuration

definition group_append ::
  "outbox_message \<Rightarrow> (string, outbox_message list) gomap \<Rightarrow> (string, outbox_message list) gomap" where
  "group_append msg groups =
     (let prefix = destinationPrefix (om_Destination msg);
          old = (case map_of groups prefix of None \<Rightarrow> [] | Some ms \<Rightarrow> ms)
      in AList.update prefix (old @ [msg]) groups)"

definition group_messages :: "outbox_message list \<Rightarrow> (string, outbox_message list) gomap" where
  "group_messages messages = fold group_append messages []"

fun mark_all_failed ::
  "'s outbox_ops \<Rightarrow> (outbox_message \<Rightarrow> error) \<Rightarrow> outbox_message list \<Rightarrow> 's \<Rightarrow> 's" where
  "mark_all_failed ops err [] s = s"
| "mark_all_failed ops err (m # ms) s =
     mark_all_failed ops err ms (fst (oo_MarkFailed ops s (om_ID m) (Some (err m))))"

fun process_groups ::
  "outbox_processor \<Rightarrow> (string \<Rightarrow> string) \<Rightarrow> 's outbox_ops \<Rightarrow> (string \<times> outbox_message list) list \<Rightarrow> 's \<Rightarrow>
   's \<times> metric list \<times> error option" where
  "process_groups p digest ops [] s = (s, [], None)"
| "process_groups p digest ops ((prefix, msgs) # rest) s =
     (case op_publishers p prefix of
        None \<Rightarrow>
          let s' = mark_all_failed ops (\<lambda>m. Wrap (digest (om_Destination m)) ErrPublisherNotFound) msgs s;
              (s'', mt, e) = process_groups p digest ops rest s'
          in (s'', map (\<lambda>m. RecordMessageFailed UnregisteredDestinationLabel) msgs @ mt, e)
      | Some publish \<Rightarrow>
          (case publish msgs of
             Some err \<Rightarrow>
               let s' = mark_all_failed ops (\<lambda>m. err) msgs s;
                   (s'', mt, e) = process_groups p digest ops rest s'
               in (s'', concat (map (\<lambda>m. [RecordMessageProcessed prefix False, RecordMessageFailed prefix]) msgs) @ mt, e)
           | None \<Rightarrow>
               let mp = map (\<lambda>m. RecordMessageProcessed prefix True) msgs
               in (case oo_MarkCompleted ops s (map om_ID msgs) of
                     (s', Some err) \<Rightarrow> (s', mp, Some (Wrap ''failed to mark messages as completed'' err))
                   | (s', None) \<Rightarrow>
                       let (s'', mt, e) = process_groups p digest ops rest s' in (s'', mp @ mt, e))))"

definition processBatch ::
  "outbox_processor \<Rightarrow> (string \<Rightarrow> string) \<Rightarrow>
   ((string, outbox_message list) gomap \<Rightarrow> (string, outbox_message list) gomap) \<Rightarrow>
   's outbox_ops \<Rightarrow> 's \<Rightarrow> 's \<times> metric list \<times> error option" where
  "processBatch p digest ord ops s =
     (case oo_FetchPending ops s (op_batchSize p) of
        (s1, Inl err) \<Rightarrow> (s1, [], Some (Wrap ''failed to fetch pending messages'' err))
      | (s1, Inr messages) \<Rightarrow>
          if length messages = 0 then (s1, [RecordPendingMessages 0], None)
          else
            let (s2, mt, e) = process_groups p digest ops (ord (group_messages messages)) s1
            in (s2, RecordPendingMessages (length messages) # mt @
                  (if e = None then [RecordBatchDuration] else []), e))"

section \<open>Maintenance\<close>

definition runMaintenance :: "outbox_processor \<Rightarrow> 's outbox_ops \<Rightarrow> 's \<Rightarrow> 's \<times> metric list" where
  "runMaintenance p ops s =
     (let s1 = (if op_processingTimeout p > 0
                then fst (oo_ReclaimStale ops s (op_processingTimeout p)) else s);
          s2 = fst (oo_RetryFailed ops s1 (op_maxRetries p));
          (s3, r) = oo_MoveToDeadLetter ops s2 (op_maxRetries p)
      in (s3, case r of Inl _ \<Rightarrow> [] | Inr n \<Rightarrow> replicate n RecordMessageDeadLettered))"

definition runCleanup :: "outbox_processor \<Rightarrow> 's outbox_ops \<Rightarrow> 's \<Rightarrow> 's" where
  "runCleanup p ops s = fst (oo_Cleanup ops s (op_cleanupAge p))"

section \<open>The interface and its client\<close>

definition published :: "outbox_processor \<Rightarrow> string \<Rightarrow> outbox_message list \<Rightarrow> bool" where
  "published p prefix msgs \<longleftrightarrow> (\<exists>f. op_publishers p prefix = Some f \<and> f msgs = None)"

definition verdict :: "outbox_processor \<Rightarrow> string \<Rightarrow> outbox_message list \<Rightarrow> outbox_status" where
  "verdict p prefix msgs = (if published p prefix msgs then OutboxCompleted else OutboxFailed)"

text \<open>What the processor needs of a store to settle what it fetched: marking a stored message
  succeeds and changes the status of that message only.  \<open>look\<close> shows the status of a
  message beside whatever else of it marking must keep.\<close>

locale outbox_marks =
  fixes ops :: "'s outbox_ops"
    and look :: "'s \<Rightarrow> string \<Rightarrow> ('c \<times> outbox_status) option"
  assumes failed_ok: "look s k = Some (c, st) \<Longrightarrow>
      look (fst (oo_MarkFailed ops s k e)) = (look s)(k \<mapsto> (c, OutboxFailed))"
    and completed_ok: "\<forall>k \<in> set ks. look s k \<noteq> None \<Longrightarrow>
      snd (oo_MarkCompleted ops s ks) = None \<and>
      look (fst (oo_MarkCompleted ops s ks)) =
        (\<lambda>k. if k \<in> set ks then map_option (\<lambda>(c, _). (c, OutboxCompleted)) (look s k) else look s k)"
begin

lemma mark_all_failed_look:
  "\<forall>m \<in> set ms. look s (om_ID m) \<noteq> None \<Longrightarrow>
   look (mark_all_failed ops err ms s) =
     (\<lambda>k. if k \<in> om_ID ` set ms then map_option (\<lambda>(c, _). (c, OutboxFailed)) (look s k) else look s k)"
proof (induction ms arbitrary: s)
  case (Cons m ms)
  let ?s = "fst (oo_MarkFailed ops s (om_ID m) (Some (err m)))"
  obtain c st where cs: "look s (om_ID m) = Some (c, st)" using Cons.prems by auto
  then have lk: "look ?s = (look s)(om_ID m \<mapsto> (c, OutboxFailed))" by (rule failed_ok)
  then have "\<forall>m \<in> set ms. look ?s (om_ID m) \<noteq> None" using Cons.prems by auto
  from Cons.IH [OF this] cs show ?case by (auto simp: lk fun_eq_iff)
qed simp

text \<open>Every message of every group ends Completed when its group was published and Failed
  otherwise; nothing else moves, and the pass reports no error.\<close>

lemma process_groups_settles:
  assumes "\<forall>m \<in> set (concat (map snd groups)). look s (om_ID m) \<noteq> None"
    and "distinct (map om_ID (concat (map snd groups)))"
  shows "snd (snd (process_groups p digest ops groups s)) = None \<and>
     (\<forall>(prefix, msgs) \<in> set groups. \<forall>m \<in> set msgs.
        look (fst (process_groups p digest ops groups s)) (om_ID m) =
          map_option (\<lambda>(c, _). (c, verdict p prefix msgs)) (look s (om_ID m))) \<and>
     (\<forall>k. k \<notin> om_ID ` set (concat (map snd groups)) \<longrightarrow>
        look (fst (process_groups p digest ops groups s)) k = look s k)"
  using assms
proof (induction groups arbitrary: s)
  case (Cons g groups)
  obtain prefix msgs where g [simp]: "g = (prefix, msgs)" by (cases g)
  let ?s = "if published p prefix msgs then fst (oo_MarkCompleted ops s (map om_ID msgs))
     else mark_all_failed ops (\<lambda>m. case op_publishers p prefix of
        None \<Rightarrow> Wrap (digest (om_Destination m)) ErrPublisherNotFound | Some f \<Rightarrow> the (f msgs)) msgs s"
  have in_s: "\<forall>m \<in> set msgs. look s (om_ID m) \<noteq> None" using Cons.prems(1) by simp
  then have in_k: "\<forall>k \<in> set (map om_ID msgs). look s k \<noteq> None" by simp
  have lk: "look ?s = (\<lambda>k. if k \<in> om_ID ` set msgs
      then map_option (\<lambda>(c, _). (c, verdict p prefix msgs)) (look s k) else look s k)"
    using mark_all_failed_look [OF in_s] completed_ok [OF in_k] by (auto simp: verdict_def)
  have step: "fst (process_groups p digest ops (g # groups) s) = fst (process_groups p digest ops groups ?s) \<and>
      snd (snd (process_groups p digest ops (g # groups) s)) = snd (snd (process_groups p digest ops groups ?s))"
    using completed_ok [OF in_k]
    by (auto simp: published_def Let_def split: option.splits prod.splits)
  have disj: "om_ID m \<notin> om_ID ` set (concat (map snd groups))" if "m \<in> set msgs" for m
    using Cons.prems(2) that by auto
  have "\<forall>m \<in> set (concat (map snd groups)). look ?s (om_ID m) \<noteq> None"
    using Cons.prems(1) by (auto simp: lk)
  moreover have "distinct (map om_ID (concat (map snd groups)))" using Cons.prems(2) by simp
  ultimately have ih: "snd (snd (process_groups p digest ops groups ?s)) = None"
    "\<forall>(prefix, msgs) \<in> set groups. \<forall>m \<in> set msgs.
        look (fst (process_groups p digest ops groups ?s)) (om_ID m) =
          map_option (\<lambda>(c, _). (c, verdict p prefix msgs)) (look ?s (om_ID m))"
    "\<forall>k. k \<notin> om_ID ` set (concat (map snd groups)) \<longrightarrow>
        look (fst (process_groups p digest ops groups ?s)) k = look ?s k"
    using Cons.IH [of ?s] by blast+
  have same: "look ?s (om_ID m) = look s (om_ID m)" if "(q, ms) \<in> set groups" "m \<in> set ms" for q ms m
  proof -
    have "om_ID m \<in> om_ID ` set (concat (map snd groups))" using that by force
    then have "om_ID m \<notin> om_ID ` set msgs" using disj by (metis imageE)
    then show ?thesis by (simp add: lk)
  qed
  have "look (fst (process_groups p digest ops groups ?s)) (om_ID m) =
      map_option (\<lambda>(c, _). (c, verdict p prefix msgs)) (look s (om_ID m))" if "m \<in> set msgs" for m
    using ih(3) disj [OF that] that by (simp add: lk)
  moreover have "look (fst (process_groups p digest ops groups ?s)) k = look s k"
    if "k \<notin> om_ID ` set (concat (map snd (g # groups)))" for k
    using ih(3) that by (simp add: lk image_Un)
  ultimately show ?case using ih(1,2) step same by auto
qed simp

end

section \<open>Grouping by destination\<close>

lemma group_messages_snoc: "group_messages (ms @ [m]) = group_append m (group_messages ms)"
  by (simp add: group_messages_def)

lemma map_of_group_messages:
  "map_of (group_messages ms) k =
     (let f = filter (\<lambda>m. destinationPrefix (om_Destination m) = k) ms in if f = [] then None else Some f)"
proof (induction ms rule: rev_induct)
  case (snoc m ms)
  then show ?case
    by (auto simp: group_messages_snoc group_append_def Let_def update_conv)
qed (simp add: group_messages_def)

lemma group_messages_wf: "gm_wf (group_messages ms)"
  by (induction ms rule: rev_induct)
    (simp_all add: group_messages_snoc group_append_def Let_def distinct_update, simp add: group_messages_def)

lemma group_messages_mem:
  "(k, g) \<in> set (group_messages ms) \<Longrightarrow>
     g = filter (\<lambda>m. destinationPrefix (om_Destination m) = k) ms"
  using map_of_is_SomeI [OF group_messages_wf] map_of_group_messages [of ms k]
  by (fastforce simp: Let_def split: if_splits)

lemma distinct_concat_groups:
  assumes "distinct (map om_ID ms)" and "gm_wf gs"
    and "\<forall>(k, g) \<in> set gs. g = filter (\<lambda>m. destinationPrefix (om_Destination m) = k) ms"
  shows "distinct (map om_ID (concat (map snd gs)))"
  using assms(2,3)
proof (induction gs)
  case (Cons g gs)
  obtain k h where [simp]: "g = (k, h)" by (cases g)
  have h: "h = filter (\<lambda>m. destinationPrefix (om_Destination m) = k) ms" using Cons.prems by simp
  have "distinct (map om_ID h)" unfolding h using assms(1) by (rule distinct_map_filter)
  moreover have "om_ID m \<noteq> om_ID m'" if m: "m \<in> set h" and m': "(k', h') \<in> set gs" "m' \<in> set h'" for m m' k' h'
  proof
    assume eq: "om_ID m = om_ID m'"
    have h': "h' = filter (\<lambda>m. destinationPrefix (om_Destination m) = k') ms" using Cons.prems m'(1) by auto
    then have "m = m'" using assms(1) eq m m'(2) unfolding h by (auto simp: distinct_map dest: inj_onD)
    moreover have "k \<noteq> k'" using Cons.prems(1) m'(1) by force
    ultimately show False using m m'(2) unfolding h h' by simp
  qed
  ultimately show ?case using Cons by fastforce
qed simp

section \<open>The in-memory store behind the processor\<close>

text \<open>\<open>errText\<close> is \<^verbatim>\<open>err.Error()\<close>.\<close>

definition mem_outbox_ops :: "(error \<Rightarrow> string) \<Rightarrow> time \<Rightarrow> outbox_store outbox_ops" where
  "mem_outbox_ops errText now =
     \<lparr>oo_FetchPending = FetchPending None now,
      oo_MarkFailed = (\<lambda>s k e. MarkFailed None s k (map_option errText e)),
      oo_MarkCompleted = MarkCompleted None now,
      oo_ReclaimStale = ReclaimStale None now,
      oo_RetryFailed = RetryFailed None,
      oo_MoveToDeadLetter = MoveToDeadLetter None,
      oo_Cleanup = Outbox_Cleanup None now\<rparr>"

definition settled_core :: "outbox_message \<Rightarrow> outbox_message" where
  "settled_core m = m\<lparr>om_Status := OutboxPending, om_LastError := [], om_ProcessedAt := None\<rparr>"

lemma settled_core_sel:
  "om_ID (settled_core m) = om_ID m" "om_Destination (settled_core m) = om_Destination m"
  "om_Attempts (settled_core m) = om_Attempts m" "om_MaxAttempts (settled_core m) = om_MaxAttempts m"
  "om_ScheduledAt (settled_core m) = om_ScheduledAt m"
  by (simp_all add: settled_core_def)

lemma settled_core_eqD:
  assumes "settled_core m' = settled_core m"
  shows "om_ID m' = om_ID m \<and> om_Destination m' = om_Destination m \<and> om_Attempts m' = om_Attempts m \<and>
         om_MaxAttempts m' = om_MaxAttempts m \<and> om_ScheduledAt m' = om_ScheduledAt m"
  using assms by (metis settled_core_sel)

definition mem_look :: "outbox_store \<Rightarrow> string \<Rightarrow> (outbox_message \<times> outbox_status) option" where
  "mem_look s k = map_option (\<lambda>m. (settled_core m, om_Status m)) (get_message s k)"

lemma map_of_complete_all:
  "map_of (fold (complete_message now) ks ms) k =
     (if k \<in> set ks
      then map_option (\<lambda>m. m\<lparr>om_Status := OutboxCompleted, om_ProcessedAt := Some now\<rparr>) (map_of ms k)
      else map_of ms k)"
  by (induction ks arbitrary: ms) (auto simp: complete_message_def update_conv split: option.splits)

interpretation mem_outbox: outbox_marks "mem_outbox_ops errText now" mem_look for errText now
proof unfold_locales
  fix s k c st e assume "mem_look s k = Some (c, st)"
  then show "mem_look (fst (oo_MarkFailed (mem_outbox_ops errText now) s k e)) = (mem_look s)(k \<mapsto> (c, OutboxFailed))"
    by (auto simp: mem_look_def mem_outbox_ops_def MarkFailed_def update_conv settled_core_def fun_eq_iff)
next
  fix ks :: "string list" and s assume "\<forall>k \<in> set ks. mem_look s k \<noteq> None"
  show "snd (oo_MarkCompleted (mem_outbox_ops errText now) s ks) = None \<and>
      mem_look (fst (oo_MarkCompleted (mem_outbox_ops errText now) s ks)) =
        (\<lambda>k. if k \<in> set ks then map_option (\<lambda>(c, _). (c, OutboxCompleted)) (mem_look s k) else mem_look s k)"
    by (auto simp: mem_look_def mem_outbox_ops_def MarkCompleted_def map_of_complete_all settled_core_def
        option.map_comp comp_def fun_eq_iff)
qed

definition group_of :: "outbox_message list \<Rightarrow> outbox_message \<Rightarrow> outbox_message list" where
  "group_of ms m = filter (\<lambda>x. destinationPrefix (om_Destination x) = destinationPrefix (om_Destination m)) ms"

lemma group_member:
  "m \<in> set ms \<Longrightarrow> (destinationPrefix (om_Destination m), group_of ms m) \<in> set (group_messages ms)"
  using map_of_group_messages [of ms "destinationPrefix (om_Destination m)"]
  by (intro map_of_SomeD) (auto simp: Let_def group_of_def filter_empty_conv)

lemma processBatch_look:
  assumes inv: "outbox_inv s" and ord: "\<And>gs. mset (ord gs) = mset gs"
    and fetch: "FetchPending None now s (op_batchSize p) = (s1, Inr messages)"
    and run: "processBatch p digest ord (mem_outbox_ops errText now) s = (s2, mt, e)"
  shows "e = None"
    and "m \<in> set messages \<Longrightarrow> mem_look s2 (om_ID m) =
       Some (settled_core m, verdict p (destinationPrefix (om_Destination m)) (group_of messages m))"
    and "k \<notin> set (map om_ID messages) \<Longrightarrow> mem_look s2 k = mem_look s k"
proof -
  let ?ops = "mem_outbox_ops errText now"
  let ?gs = "ord (group_messages messages)"
  have wf: "gm_wf (os_messages s)" using inv by (simp add: outbox_inv_def msgs_inv_wf)
  note res = FetchPending_result [OF inv fetch]
  have dist: "distinct (map om_ID messages)" using wf by (simp add: res(3) wf_pending_selection)
  have look1: "mem_look s1 k = (case map_of (pending_selection now (op_batchSize p) (os_messages s)) k of
      Some m \<Rightarrow> Some (settled_core (claim now m), OutboxProcessing) | None \<Rightarrow> mem_look s k)" for k
    using get_message_FetchPending [OF wf, of now "op_batchSize p" k] fetch
    by (simp add: mem_look_def claim_def split: option.split)
  have look_in: "mem_look s1 (om_ID m) = Some (settled_core m, OutboxProcessing)" if m: "m \<in> set messages" for m
  proof -
    have "om_ID m \<in> set (map fst (pending_selection now (op_batchSize p) (os_messages s)))"
      using m res(3) by (metis image_eqI list.set_map)
    then obtain m1 where m1: "map_of (pending_selection now (op_batchSize p) (os_messages s)) (om_ID m) = Some m1"
      by (metis list.set_map map_of_eq_None_iff not_Some_eq)
    then have "get_message s (om_ID m) = Some m1" using selected_message [OF wf] by blast
    with res(2) [OF m] m1 show ?thesis by (auto simp: look1)
  qed
  have look_out: "mem_look s1 k = mem_look s k" if "k \<notin> set (map om_ID messages)" for k
    using that by (simp add: look1 res(3) map_of_eq_None_iff [symmetric] split: option.split)
  have gs: "set ?gs = set (group_messages messages)" "gm_wf ?gs"
    using ord [of "group_messages messages"] group_messages_wf [of messages]
    by (metis mset_eq_setD, metis mset_eq_imp_distinct_iff mset_map)
  have mem: "\<forall>(k, g) \<in> set ?gs. g = filter (\<lambda>m. destinationPrefix (om_Destination m) = k) messages"
    using gs(1) group_messages_mem by auto
  have cc: "set (concat (map snd ?gs)) = set messages"
  proof
    show "set (concat (map snd ?gs)) \<subseteq> set messages" using mem by auto
    show "set messages \<subseteq> set (concat (map snd ?gs))"
    proof
      fix m assume m: "m \<in> set messages"
      then have "m \<in> set (group_of messages m)" by (simp add: group_of_def)
      moreover have "group_of messages m \<in> set (map snd ?gs)"
        using group_member [OF m] gs(1) by force
      ultimately show "m \<in> set (concat (map snd ?gs))" by (simp only: set_concat) blast
    qed
  qed
  have prem: "\<forall>m \<in> set (concat (map snd ?gs)). mem_look s1 (om_ID m) \<noteq> None"
    unfolding cc using look_in by simp
  have dcc: "distinct (map om_ID (concat (map snd ?gs)))"
    using dist gs(2) mem by (rule distinct_concat_groups)
  note settle = mem_outbox.process_groups_settles [OF prem dcc, of p digest errText now]
  have es: "e = None \<and> s2 = (if messages = [] then s1 else fst (process_groups p digest ?ops ?gs s1))"
  proof -
    have "oo_FetchPending ?ops s (op_batchSize p) = (s1, Inr messages)"
      using fetch by (simp add: mem_outbox_ops_def)
    moreover obtain s' mt' e' where "process_groups p digest ?ops ?gs s1 = (s', mt', e')"
      by (metis prod_cases3)
    ultimately show ?thesis
      using run settle by (cases "messages = []") (simp_all add: processBatch_def)
  qed
  then show "e = None" by simp
  show "mem_look s2 (om_ID m) =
       Some (settled_core m, verdict p (destinationPrefix (om_Destination m)) (group_of messages m))"
    if m: "m \<in> set messages"
  proof -
    have "(destinationPrefix (om_Destination m), group_of messages m) \<in> set ?gs" "m \<in> set (group_of messages m)"
      using group_member [OF m] gs(1) m by (simp_all add: group_of_def)
    moreover from this have "mem_look (fst (process_groups p digest ?ops ?gs s1)) (om_ID m) =
        map_option (\<lambda>(c, _). (c, verdict p (destinationPrefix (om_Destination m)) (group_of messages m)))
          (mem_look s1 (om_ID m))"
      using settle by blast
    moreover have "messages \<noteq> []" using m by auto
    ultimately show ?thesis using look_in [OF m] es by simp
  qed
  show "mem_look s2 k = mem_look s k" if "k \<notin> set (map om_ID messages)"
  proof -
    have "mem_look (fst (process_groups p digest ?ops ?gs s1)) k = mem_look s1 k"
      using settle that unfolding cc by simp
    with look_out [OF that] es show ?thesis by simp
  qed
qed

text \<open>A batch settles everything it claims.  Whatever the publishers do and in whatever
  order the groups are visited, processBatch over the in-memory store reports no error,
  each claimed message ends Completed if the publisher of its destination prefix accepted
  its group and Failed otherwise (no publisher included), with the attempt counted once,
  and the status of every other message is untouched.\<close>

theorem processBatch_settles:
  assumes "outbox_inv s" and "\<And>gs. mset (ord gs) = mset gs"
    and "FetchPending None now s (op_batchSize p) = (s1, Inr messages)"
    and "processBatch p digest ord (mem_outbox_ops errText now) s = (s2, mt, e)"
  shows "e = None \<and>
     (\<forall>m \<in> set messages. \<exists>m'. get_message s2 (om_ID m) = Some m' \<and> om_Attempts m' = om_Attempts m \<and>
        om_Status m' = (if published p (destinationPrefix (om_Destination m)) (group_of messages m)
                        then OutboxCompleted else OutboxFailed)) \<and>
     (\<forall>k. k \<notin> set (map om_ID messages) \<longrightarrow>
        map_option om_Status (get_message s2 k) = map_option om_Status (get_message s k))"
proof (intro conjI ballI allI impI)
  note look = processBatch_look [OF assms]
  show "e = None" by (rule look(1))
  fix m assume "m \<in> set messages"
  from look(2) [OF this] obtain m' where m': "get_message s2 (om_ID m) = Some m'" "settled_core m' = settled_core m"
    "om_Status m' = verdict p (destinationPrefix (om_Destination m)) (group_of messages m)"
    by (auto simp: mem_look_def)
  with settled_core_eqD [OF m'(2)] show "\<exists>m'. get_message s2 (om_ID m) = Some m' \<and> om_Attempts m' = om_Attempts m \<and>
        om_Status m' = (if published p (destinationPrefix (om_Destination m)) (group_of messages m)
                        then OutboxCompleted else OutboxFailed)"
    by (auto simp: verdict_def)
next
  fix k assume "k \<notin> set (map om_ID messages)"
  from processBatch_look(3) [OF assms this]
  show "map_option om_Status (get_message s2 k) = map_option om_Status (get_message s k)"
    by (cases "get_message s2 k"; cases "get_message s k") (simp_all add: mem_look_def)
qed

lemma demo_prefix: "destinationPrefix ''kafka:orders'' = ''kafka''"
  by (simp add: destinationPrefix_def)

definition demo_processor :: outbox_processor where
  "demo_processor = NewOutboxProcessor [WithBatchSize 1, WithPublisher ''kafka'' (\<lambda>ms. None)]"

theorem processBatch_settles_witness:
  "\<exists>m'. get_message (fst (processBatch demo_processor (\<lambda>x. x) (\<lambda>gs. gs)
       (mem_outbox_ops (\<lambda>e. []) 10) demo_store)) ''a'' = Some m' \<and> om_Status m' = OutboxCompleted"
proof -
  let ?p = demo_processor
  have bs: "op_batchSize ?p = 1" "op_publishers ?p = [''kafka'' \<mapsto> (\<lambda>ms. None)]"
    by (simp_all add: demo_processor_def NewOutboxProcessor_def)
  obtain s2 mt e where run: "processBatch ?p (\<lambda>x. x) (\<lambda>gs. gs) (mem_outbox_ops (\<lambda>e. []) 10) demo_store = (s2, mt, e)"
    by (metis prod_cases3)
  have fetch: "FetchPending None 10 demo_store (op_batchSize ?p) =
      (fst (FetchPending None 10 demo_store 1), Inr [claim 10 (demo_message ''a'' 1)])"
    by (simp add: demo_fetch bs)
  have "published ?p (destinationPrefix (om_Destination (claim 10 (demo_message ''a'' 1))))
      (group_of [claim 10 (demo_message ''a'' 1)] (claim 10 (demo_message ''a'' 1)))"
    by (simp add: published_def bs claim_def demo_message_def demo_prefix)
  with processBatch_settles [OF demo_store_inv _ fetch run] run show ?thesis
    by (auto simp: claim_def demo_message_def)
qed

section \<open>Delivery cycles\<close>

text \<open>One poll followed by one maintenance sweep, and a run of them.\<close>

definition outbox_cycle ::
  "outbox_processor \<Rightarrow> (string \<Rightarrow> string) \<Rightarrow>
   ((string, outbox_message list) gomap \<Rightarrow> (string, outbox_message list) gomap) \<Rightarrow>
   (error \<Rightarrow> string) \<Rightarrow> time \<Rightarrow> outbox_store \<Rightarrow> outbox_store" where
  "outbox_cycle p digest ord errText now s =
     fst (runMaintenance p (mem_outbox_ops errText now)
       (fst (processBatch p digest ord (mem_outbox_ops errText now) s)))"

fun run_cycles ::
  "outbox_processor \<Rightarrow> (string \<Rightarrow> string) \<Rightarrow>
   ((string, outbox_message list) gomap \<Rightarrow> (string, outbox_message list) gomap) \<Rightarrow>
   (error \<Rightarrow> string) \<Rightarrow> (nat \<Rightarrow> time) \<Rightarrow> nat \<Rightarrow> outbox_store \<Rightarrow> outbox_store" where
  "run_cycles p digest ord errText nows 0 s = s"
| "run_cycles p digest ord errText nows (Suc n) s =
     outbox_cycle p digest ord errText (nows n) (run_cycles p digest ord errText nows n s)"

lemma process_groups_inv:
  assumes "\<And>s k e. P s \<Longrightarrow> P (fst (oo_MarkFailed ops s k e))"
    and "\<And>s ks. P s \<Longrightarrow> P (fst (oo_MarkCompleted ops s ks))"
  shows "P s \<Longrightarrow> P (fst (process_groups p digest ops groups s))"
proof (induction groups arbitrary: s)
  case (Cons g groups)
  have all: "P s \<Longrightarrow> P (mark_all_failed ops err ms s)" for err ms s
    by (induction ms arbitrary: s) (simp_all add: assms(1))
  obtain prefix msgs where g: "g = (prefix, msgs)" by (cases g)
  show ?case
    using Cons.IH Cons.prems all assms(2) [OF Cons.prems, of "map om_ID msgs"]
    by (auto simp: g Let_def split: option.split prod.split) (metis fst_conv)+
qed simp

lemma processBatch_inv:
  assumes "outbox_inv s"
  shows "outbox_inv (fst (processBatch p digest ord (mem_outbox_ops errText now) s))"
proof -
  let ?ops = "mem_outbox_ops errText now"
  have pg: "outbox_inv s \<Longrightarrow> outbox_inv (fst (process_groups p digest ?ops gs s))" for gs s
    by (rule process_groups_inv [where P = outbox_inv])
      (simp_all add: mem_outbox_ops_def MarkFailed_inv MarkCompleted_inv)
  obtain s1 r where f: "FetchPending None now s (op_batchSize p) = (s1, r)" by fastforce
  then have s1: "outbox_inv s1" using FetchPending_inv [OF assms, of None now "op_batchSize p"] by simp
  have f': "oo_FetchPending ?ops s (op_batchSize p) = (s1, r)" using f by (simp add: mem_outbox_ops_def)
  show ?thesis
    using s1 pg [OF s1] unfolding processBatch_def f'
    by (auto simp: Let_def split: sum.split prod.split) (metis fst_conv)
qed

lemma outbox_cycle_inv:
  "outbox_inv s \<Longrightarrow> outbox_inv (outbox_cycle p digest ord errText now s)"
proof -
  assume "outbox_inv s"
  then have "outbox_inv (fst (processBatch p digest ord (mem_outbox_ops errText now) s))"
    by (rule processBatch_inv)
  then show ?thesis
    by (simp add: outbox_cycle_def runMaintenance_def mem_outbox_ops_def Let_def maintenance_inv split: prod.split)
      (metis fst_conv maintenance_inv(1-3))
qed

definition swept :: "outbox_processor \<Rightarrow> outbox_message \<Rightarrow> outbox_message" where
  "swept p m =
     (if om_Status m \<noteq> OutboxFailed then m
      else if om_Attempts m < min (op_maxRetries p) (om_MaxAttempts m) then m\<lparr>om_Status := OutboxPending\<rparr>
      else m\<lparr>om_Status := OutboxDeadLetter\<rparr>)"

lemma runMaintenance_get:
  "get_message (fst (runMaintenance p (mem_outbox_ops errText now) s)) k =
     map_option (\<lambda>m. swept p (if op_processingTimeout p > 0 \<and> stale (now - op_processingTimeout p) m
        then m\<lparr>om_Status := OutboxPending\<rparr> else m)) (get_message s k)"
proof -
  let ?s1 = "if op_processingTimeout p > 0 then fst (ReclaimStale None now s (op_processingTimeout p)) else s"
  have "fst (runMaintenance p (mem_outbox_ops errText now) s) =
      fst (MoveToDeadLetter None (fst (RetryFailed None ?s1 (op_maxRetries p))) (op_maxRetries p))"
    by (simp add: runMaintenance_def mem_outbox_ops_def Let_def split: prod.split)
  then show ?thesis
    unfolding get_message_maintenance
    by (cases "get_message s k") (simp_all add: get_message_maintenance ReclaimStale_def gm_simps swept_def)
qed

lemma all_pending_fetched:
  assumes "int (length (os_messages s)) \<le> limit" and "get_message s k = Some m" and "due now m"
  shows "\<exists>s1 messages. FetchPending None now s limit = (s1, Inr messages) \<and> claim now m \<in> set messages"
proof -
  have "length (filter (\<lambda>(k, m). due now m) (os_messages s)) \<le> length (os_messages s)" by simp
  then have "\<not> (limit > 0 \<and> int (length (filter (\<lambda>(k, m). due now m) (os_messages s))) > limit)"
    using assms(1) by linarith
  then have "(k, m) \<in> set (pending_selection now limit (os_messages s))"
    using assms(2,3) by (auto simp: pending_selection_def Let_def dest: map_of_SomeD)
  then show ?thesis by (force simp: FetchPending_def Let_def)
qed

lemma length_os_messages:
  "outbox_inv s \<Longrightarrow> length (os_messages s) = card {k. get_message s k \<noteq> None}"
proof -
  assume "outbox_inv s"
  then have "gm_wf (os_messages s)" by (simp add: outbox_inv_def msgs_inv_wf)
  then have "length (os_messages s) = card (fst ` set (os_messages s))"
    by (metis distinct_card length_map list.set_map)
  also have "fst ` set (os_messages s) = {k. get_message s k \<noteq> None}"
    by (simp add: dom_map_of_conv_image_fst [symmetric] dom_def)
  finally show ?thesis .
qed

lemma outbox_cycle_keys:
  assumes "outbox_inv s" and "\<And>gs. mset (ord gs) = mset gs"
  shows "get_message (outbox_cycle p digest ord errText now s) k = None \<longleftrightarrow> get_message s k = None"
proof -
  obtain s1 messages where f: "FetchPending None now s (op_batchSize p) = (s1, Inr messages)"
    by (simp add: FetchPending_def Let_def)
  obtain s2 mt e where run: "processBatch p digest ord (mem_outbox_ops errText now) s = (s2, mt, e)"
    by (metis prod_cases3)
  note look = processBatch_look [OF assms f run]
  have "get_message s2 k = None \<longleftrightarrow> get_message s k = None"
  proof (cases "k \<in> set (map om_ID messages)")
    case True
    then obtain m where m: "m \<in> set messages" "k = om_ID m" by auto
    from look(2) [OF m(1)] FetchPending_result(2) [OF assms(1) f m(1)] m(2) show ?thesis
      by (auto simp: mem_look_def)
  next
    case False
    from look(3) [OF this] show ?thesis by (auto simp: mem_look_def)
  qed
  then show ?thesis by (simp add: outbox_cycle_def run runMaintenance_get)
qed

lemma outbox_cycle_length:
  assumes "outbox_inv s" and "\<And>gs. mset (ord gs) = mset gs"
  shows "length (os_messages (outbox_cycle p digest ord errText now s)) = length (os_messages s)"
  unfolding length_os_messages [OF outbox_cycle_inv [OF assms(1)]] length_os_messages [OF assms(1)]
    outbox_cycle_keys [OF assms] by simp

lemma outbox_cycle_undeliverable:
  assumes inv: "outbox_inv s" and ord: "\<And>gs. mset (ord gs) = mset gs"
    and room: "int (length (os_messages s)) \<le> op_batchSize p"
    and m: "get_message s k = Some m" "om_Status m = OutboxPending" "om_ScheduledAt m \<le> now"
    and no: "\<And>ms. \<not> published p (destinationPrefix (om_Destination m)) ms"
  shows "\<exists>m'. get_message (outbox_cycle p digest ord errText now s) k = Some m' \<and>
           om_Attempts m' = om_Attempts m + 1 \<and> om_MaxAttempts m' = om_MaxAttempts m \<and>
           om_ScheduledAt m' = om_ScheduledAt m \<and> om_Destination m' = om_Destination m \<and>
           om_Status m' = (if om_Attempts m + 1 < min (op_maxRetries p) (om_MaxAttempts m)
                           then OutboxPending else OutboxDeadLetter)"
proof -
  have "due now m" using m by (simp add: due_def)
  with all_pending_fetched [OF room m(1)] obtain s1 messages where
    f: "FetchPending None now s (op_batchSize p) = (s1, Inr messages)" and c: "claim now m \<in> set messages" by blast
  obtain s2 mt e where run: "processBatch p digest ord (mem_outbox_ops errText now) s = (s2, mt, e)"
    by (metis prod_cases3)
  have k: "om_ID m = k" using inv m(1) by (simp add: outbox_inv_def msgs_inv_ID)
  have v: "verdict p (destinationPrefix (om_Destination (claim now m))) ms = OutboxFailed" for ms
    using no by (simp add: verdict_def claim_def)
  from processBatch_look(2) [OF inv ord f run c] k obtain m2 where
    m2: "get_message s2 k = Some m2" "settled_core m2 = settled_core (claim now m)" "om_Status m2 = OutboxFailed"
    unfolding v by (auto simp: mem_look_def claim_def)
  have core: "om_Attempts m2 = om_Attempts m + 1" "om_MaxAttempts m2 = om_MaxAttempts m"
    "om_ScheduledAt m2 = om_ScheduledAt m" "om_Destination m2 = om_Destination m"
    using settled_core_eqD [OF m2(2)] by (simp_all add: claim_def)
  have "get_message (outbox_cycle p digest ord errText now s) k = Some (swept p m2)"
    using m2 by (simp add: outbox_cycle_def run runMaintenance_get stale_def)
  then show ?thesis using core m2(3) by (simp add: swept_def)
qed

text \<open>C12: A message nobody accepts is retried up to its budget and then dead-lettered.  With
  room for every message in a batch, a pending message whose destination no publisher
  accepts is Pending again after each of the first poll-and-sweep cycles and DeadLetter
  after exactly min(maxRetries, MaxAttempts) of them, having been attempted that often.\<close>

theorem undeliverable_dead_lettered:
  assumes "outbox_inv s" and "\<And>gs. mset (ord gs) = mset gs"
    and "int (length (os_messages s)) \<le> op_batchSize p"
    and "get_message s k = Some m" and "om_Status m = OutboxPending" and "om_Attempts m = 0"
    and "\<And>i. om_ScheduledAt m \<le> nows i"
    and "\<And>ms. \<not> published p (destinationPrefix (om_Destination m)) ms"
    and "budget = min (op_maxRetries p) (om_MaxAttempts m)" and "0 < n" and "int n \<le> budget"
  shows "\<exists>m'. get_message (run_cycles p digest ord errText nows n s) k = Some m' \<and>
           om_Attempts m' = int n \<and>
           om_Status m' = (if int n < budget then OutboxPending else OutboxDeadLetter)"
proof -
  have "outbox_inv (run_cycles p digest ord errText nows n s) \<and>
      length (os_messages (run_cycles p digest ord errText nows n s)) = length (os_messages s) \<and>
      (\<exists>m'. get_message (run_cycles p digest ord errText nows n s) k = Some m' \<and> om_Attempts m' = int n \<and>
         om_MaxAttempts m' = om_MaxAttempts m \<and> om_ScheduledAt m' = om_ScheduledAt m \<and>
         om_Destination m' = om_Destination m \<and>
         om_Status m' = (if int n < budget then OutboxPending else OutboxDeadLetter))"
    if "int n \<le> budget" "0 < budget" for n
    using that
  proof (induction n)
    case (Suc n)
    let ?s = "run_cycles p digest ord errText nows n s"
    from Suc obtain m1 where ih: "outbox_inv ?s" "length (os_messages ?s) = length (os_messages s)"
      "get_message ?s k = Some m1" "om_Attempts m1 = int n" "om_MaxAttempts m1 = om_MaxAttempts m"
      "om_ScheduledAt m1 = om_ScheduledAt m" "om_Destination m1 = om_Destination m" "om_Status m1 = OutboxPending"
      by auto
    have "om_ScheduledAt m1 \<le> nows n" "int (length (os_messages ?s)) \<le> op_batchSize p"
      using ih assms(3,7) by simp_all
    from outbox_cycle_undeliverable [OF ih(1) assms(2) this(2) ih(3,8) this(1)] assms(8) ih(7)
    obtain m2 where "get_message (outbox_cycle p digest ord errText (nows n) ?s) k = Some m2"
      "om_Attempts m2 = om_Attempts m1 + 1" "om_MaxAttempts m2 = om_MaxAttempts m1"
      "om_ScheduledAt m2 = om_ScheduledAt m1" "om_Destination m2 = om_Destination m1"
      "om_Status m2 = (if om_Attempts m1 + 1 < min (op_maxRetries p) (om_MaxAttempts m1)
                       then OutboxPending else OutboxDeadLetter)" by metis
    with ih outbox_cycle_inv [OF ih(1)] outbox_cycle_length [OF ih(1) assms(2)] assms(9) show ?case
      by simp
  qed (use assms in simp)
  from this [OF assms(11)] assms(10,11) show ?thesis by auto
qed

theorem undeliverable_dead_lettered_witness:
  "\<exists>m'. get_message (run_cycles (NewOutboxProcessor []) (\<lambda>x. x) (\<lambda>gs. gs) (\<lambda>e. []) (\<lambda>i. 10 + int i) 1 demo_store)
       ''a'' = Some m' \<and> om_Attempts m' = 1 \<and> om_Status m' = OutboxDeadLetter"
proof -
  have get: "get_message demo_store ''a'' = Some (demo_message ''a'' 1)" by (simp add: demo_store_def)
  have p: "op_publishers (NewOutboxProcessor []) = Map.empty" "op_batchSize (NewOutboxProcessor []) = 100"
    "op_maxRetries (NewOutboxProcessor []) = 5" by (simp_all add: NewOutboxProcessor_def)
  have m: "om_Status (demo_message ''a'' 1) = OutboxPending" "om_Attempts (demo_message ''a'' 1) = 0"
    "om_ScheduledAt (demo_message ''a'' 1) = 1" "om_MaxAttempts (demo_message ''a'' 1) = 1"
    by (simp_all add: demo_message_def)
  have "int (length (os_messages demo_store)) \<le> op_batchSize (NewOutboxProcessor [])"
    by (simp add: p demo_store_def)
  from undeliverable_dead_lettered [OF demo_store_inv _ this get m(1,2), of "\<lambda>gs. gs" "\<lambda>i. 10 + int i" 1 1
      "\<lambda>x. x" "\<lambda>e. []"]
  show ?thesis by (simp add: p m published_def)
qed

section \<open>Routing events to messages\<close>

text \<open>The callbacks of a route are application code; \<open>None\<close> is a nil callback.  Their first
  argument is always nil and is left out.\<close>

record outbox_route =
  rt_EventTypes :: "string list"
  rt_Destination :: string
  rt_Transform :: "(stored_event \<Rightarrow> error + bytes) option"
  rt_Filter :: "(stored_event \<Rightarrow> bool) option"

definition matchesEvent :: "outbox_route \<Rightarrow> string \<Rightarrow> bool" where
  "matchesEvent r eventType \<longleftrightarrow>
     (if length (rt_EventTypes r) = 0 then True else eventType \<in> set (rt_EventTypes r))"

definition buildMessageForRoute ::
  "int \<Rightarrow> outbox_route \<Rightarrow> string \<Rightarrow> string \<Rightarrow> bytes \<Rightarrow> stored_event \<Rightarrow> time \<Rightarrow> outbox_message option" where
  "buildMessageForRoute maxAttempts route streamID eventType data partial now =
     (if \<not> matchesEvent route eventType then None
      else (case (case rt_Transform route of None \<Rightarrow> Inr data | Some f \<Rightarrow> f partial) of
        Inl err \<Rightarrow> None
      | Inr payload \<Rightarrow>
          if (case rt_Filter route of None \<Rightarrow> False | Some f \<Rightarrow> \<not> f partial) then None
          else Some
            \<lparr>om_ID = [], om_AggregateID = streamID, om_EventType = eventType,
             om_Destination = rt_Destination route, om_Payload = payload,
             om_Headers = Some
               [(''stream-id'', streamID), (''event-type'', eventType),
                (''correlation-id'', md_CorrelationID (se_Metadata partial)),
                (''causation-id'', md_CausationID (se_Metadata partial))],
             om_Status = OutboxPending, om_Attempts = 0, om_MaxAttempts = maxAttempts,
             om_LastError = [], om_ScheduledAt = now, om_LastAttemptAt = None,
             om_ProcessedAt = None, om_CreatedAt = now\<rparr>))"

definition partial_event :: "string \<Rightarrow> event_record \<Rightarrow> stored_event" where
  "partial_event streamID r =
     \<lparr>se_ID = [], se_StreamID = streamID, se_Type = er_Type r, se_Data = er_Data r,
      se_Metadata = er_Metadata r, se_Version = 0, se_GlobalPosition = 0, se_Timestamp = 0\<rparr>"

definition buildOutboxMessagesFromRecords ::
  "int \<Rightarrow> outbox_route list \<Rightarrow> time \<Rightarrow> string \<Rightarrow> event_record list \<Rightarrow> outbox_message list" where
  "buildOutboxMessagesFromRecords maxAttempts routes now streamID records =
     concat (map (\<lambda>r. List.map_filter (\<lambda>route.
       buildMessageForRoute maxAttempts route streamID (er_Type r) (er_Data r) (partial_event streamID r) now)
       routes) records)"

definition buildOutboxMessages ::
  "int \<Rightarrow> outbox_route list \<Rightarrow> time \<Rightarrow> stored_event list \<Rightarrow> outbox_message list" where
  "buildOutboxMessages maxAttempts routes now storedEvents =
     concat (map (\<lambda>se. List.map_filter (\<lambda>route.
       map_option (\<lambda>msg. msg\<lparr>om_Headers := map_option (AList.update ''event-id'' (se_ID se)) (om_Headers msg)\<rparr>)
         (buildMessageForRoute maxAttempts route (se_StreamID se) (se_Type se) (se_Data se) se now))
       routes) storedEvents)"

end
