(* ===== verification/Schema_Registry.thy ===== *)
theory Schema_Registry
  imports Versioning
begin

text \<open>
  The schema registry (\<^verbatim>\<open>schema_registry.go\<close>): registration of schema versions and
  the classification of a change of schema.

  The classification is judged against what a payload is: \<open>conforms\<close> says that a payload
  (field names with the types of their values) satisfies a schema, and a payload written
  under a schema has only that schema's fields.
\<close>

section \<open>Data\<close>

fun SchemaCompatibility_String :: "schema_compatibility \<Rightarrow> string" where
  "SchemaCompatibility_String SchemaFullyCompatible = ''fully-compatible''"
| "SchemaCompatibility_String SchemaBackwardCompatible = ''backward-compatible''"
| "SchemaCompatibility_String SchemaForwardCompatible = ''forward-compatible''"
| "SchemaCompatibility_String SchemaBreaking = ''breaking''"
| "SchemaCompatibility_String (SchemaUnknown n) = ''unknown('' @ itoa n @ '')''"

record field_definition =
  fd_Name :: string
  fd_Type :: string
  fd_Required :: bool

record schema_definition =
  sd_Version :: int
  sd_Fields :: "field_definition list"
  sd_JSONSchema :: bytes
  sd_RegisteredAt :: time

type_synonym schema_registry = "(string, (int, schema_definition) gomap) gomap"

section \<open>Operations\<close>

definition NewSchemaRegistry :: schema_registry where "NewSchemaRegistry = []"

definition Schema_Register ::
  "time \<Rightarrow> schema_registry \<Rightarrow> string \<Rightarrow> schema_definition \<Rightarrow> schema_registry \<times> error option" where
  "Schema_Register now r eventType schema =
     (if sd_Version schema < 1 then (r, Some (Errorf ''mink: schema version must be >= 1''))
      else
        let (r', versions) =
              (case map_of r eventType of
                 None \<Rightarrow> (AList.update eventType [] r, [])
               | Some vs \<Rightarrow> (r, vs))
        in if map_of versions (sd_Version schema) \<noteq> None
           then (r', Some (Errorf ''mink: schema version already registered''))
           else
             let s = (if sd_RegisteredAt schema = 0 then schema\<lparr>sd_RegisteredAt := now\<rparr> else schema)
             in (AList.update eventType (AList.update (sd_Version schema) s versions) r', None))"

definition GetSchema :: "schema_registry \<Rightarrow> string \<Rightarrow> int \<Rightarrow> error + schema_definition" where
  "GetSchema r eventType version =
     (case map_of r eventType of
        None \<Rightarrow> Inl (Wrap eventType ErrSchemaNotFound)
      | Some versions \<Rightarrow>
          (case map_of versions version of
             None \<Rightarrow> Inl (Wrap eventType ErrSchemaNotFound)
           | Some schema \<Rightarrow> Inr schema))"

definition GetLatestVersion :: "schema_registry \<Rightarrow> string \<Rightarrow> error + int" where
  "GetLatestVersion r eventType =
     (case map_of r eventType of
        None \<Rightarrow> Inl (Wrap eventType ErrSchemaNotFound)
      | Some versions \<Rightarrow> Inr (fold (\<lambda>(v, _) latest. if v > latest then v else latest) versions 0))"

definition field_map :: "field_definition list \<Rightarrow> (string, field_definition) gomap" where
  "field_map fs = fold (\<lambda>f m. AList.update (fd_Name f) f m) fs []"

definition CheckCompatibility ::
  "schema_registry \<Rightarrow> string \<Rightarrow> int \<Rightarrow> int \<Rightarrow> error + schema_compatibility" where
  "CheckCompatibility r eventType oldVersion newVersion =
     (if newVersion \<le> oldVersion then Inl (Errorf ''mink: newVersion must be greater than oldVersion'')
      else (case GetSchema r eventType oldVersion of
        Inl e \<Rightarrow> Inl e
      | Inr oldSchema \<Rightarrow>
          (case GetSchema r eventType newVersion of
             Inl e \<Rightarrow> Inl e
           | Inr newSchema \<Rightarrow>
               let oldFields = field_map (sd_Fields oldSchema);
                   newFields = field_map (sd_Fields newSchema);
                   hasRemovedFields = (\<exists>(name, f) \<in> set oldFields. map_of newFields name = None);
                   hasChangedFields = (\<exists>(name, f) \<in> set oldFields.
                     case map_of newFields name of
                       None \<Rightarrow> False
                     | Some g \<Rightarrow> fd_Type f \<noteq> fd_Type g \<or> (fd_Required g \<and> \<not> fd_Required f));
                   hasAddedFields = (\<exists>(name, g) \<in> set newFields. map_of oldFields name = None);
                   hasBreakingAddition = (\<exists>(name, g) \<in> set newFields.
                     map_of oldFields name = None \<and> fd_Required g)
               in if hasChangedFields \<or> hasBreakingAddition then Inr SchemaBreaking
                  else if hasRemovedFields \<and> hasAddedFields then Inr SchemaBreaking
                  else if hasRemovedFields then Inr SchemaForwardCompatible
                  else if hasAddedFields then Inr SchemaBackwardCompatible
                  else Inr SchemaFullyCompatible)))"

definition RequireBackwardCompatible :: "schema_registry \<Rightarrow> string \<Rightarrow> int \<Rightarrow> int \<Rightarrow> error option" where
  "RequireBackwardCompatible r eventType oldVersion newVersion =
     (case CheckCompatibility r eventType oldVersion newVersion of
        Inl e \<Rightarrow> Some e
      | Inr level \<Rightarrow>
          if level = SchemaFullyCompatible \<or> level = SchemaBackwardCompatible then None
          else Some (IncompatibleSchemaError eventType oldVersion newVersion level
                 (''change is '' @ SchemaCompatibility_String level @ '', which is not backward compatible'')))"

definition Schema_RegisteredEventTypes :: "schema_registry \<Rightarrow> string list" where
  "Schema_RegisteredEventTypes r = sort (map fst r)"

section \<open>What a schema means\<close>

type_synonym payload = "string \<rightharpoonup> string"

text \<open>\<open>d\<close> maps the names of the fields that are present to the types of their values.\<close>

definition conforms :: "schema_definition \<Rightarrow> payload \<Rightarrow> bool" where
  "conforms s d \<longleftrightarrow> (\<forall>name f. map_of (field_map (sd_Fields s)) name = Some f \<longrightarrow>
     (case d name of None \<Rightarrow> \<not> fd_Required f | Some ty \<Rightarrow> ty = fd_Type f))"

definition written_under :: "schema_definition \<Rightarrow> payload \<Rightarrow> bool" where
  "written_under s d \<longleftrightarrow> conforms s d \<and> dom d \<subseteq> dom (map_of (field_map (sd_Fields s)))"

lemma field_map_wf: "gm_wf (field_map fs)"
proof -
  have "gm_wf m \<Longrightarrow> gm_wf (fold (\<lambda>f m. AList.update (fd_Name f) f m) fs m)" for m
    by (induction fs arbitrary: m) (auto simp: distinct_update)
  then show ?thesis by (simp add: field_map_def)
qed

lemma field_map_ex:
  "(\<exists>(name, f) \<in> set (field_map fs). P name f) \<longleftrightarrow> (\<exists>name f. map_of (field_map fs) name = Some f \<and> P name f)"
  using field_map_wf [of fs] by fastforce

lemma CheckCompatibility_eq:
  assumes "v < w" and "GetSchema r ty v = Inr old" and "GetSchema r ty w = Inr new"
    and "o1 = map_of (field_map (sd_Fields old))" and "n1 = map_of (field_map (sd_Fields new))"
    and "changed = (\<exists>name f g. o1 name = Some f \<and> n1 name = Some g \<and>
           (fd_Type f \<noteq> fd_Type g \<or> (fd_Required g \<and> \<not> fd_Required f)))"
    and "added = (\<exists>name g. n1 name = Some g \<and> o1 name = None)"
    and "breaking = (\<exists>name g. n1 name = Some g \<and> o1 name = None \<and> fd_Required g)"
    and "removed = (\<exists>name f. o1 name = Some f \<and> n1 name = None)"
  shows "CheckCompatibility r ty v w =
     Inr (if changed \<or> breaking \<or> (removed \<and> added) then SchemaBreaking
          else if removed then SchemaForwardCompatible
          else if added then SchemaBackwardCompatible else SchemaFullyCompatible)"
proof -
  have ch: "changed \<longleftrightarrow> (\<exists>(name, f) \<in> set (field_map (sd_Fields old)).
      case n1 name of None \<Rightarrow> False
      | Some g \<Rightarrow> fd_Type f \<noteq> fd_Type g \<or> (fd_Required g \<and> \<not> fd_Required f))"
    unfolding field_map_ex assms(4-6) by (auto split: option.splits)
  have ad: "added \<longleftrightarrow> (\<exists>(name, g) \<in> set (field_map (sd_Fields new)). o1 name = None)"
    unfolding field_map_ex assms(4,5,7) ..
  have br: "breaking \<longleftrightarrow> (\<exists>(name, g) \<in> set (field_map (sd_Fields new)). o1 name = None \<and> fd_Required g)"
    unfolding field_map_ex assms(4,5,8) ..
  have re: "removed \<longleftrightarrow> (\<exists>(name, f) \<in> set (field_map (sd_Fields old)). n1 name = None)"
    unfolding field_map_ex assms(4,5,9) ..
  show ?thesis
    using assms(1-3) unfolding ch ad br re assms(4,5)
    by (simp add: CheckCompatibility_def Let_def)
qed

text \<open>C15: A change that RequireBackwardCompatible lets pass is safe: every payload written
  under the old schema satisfies the new one.\<close>

theorem RequireBackwardCompatible_sound:
  assumes "RequireBackwardCompatible r ty v w = None"
    and "GetSchema r ty v = Inr old" and "GetSchema r ty w = Inr new"
    and "written_under old d"
  shows "conforms new d"
  unfolding conforms_def
proof (intro allI impI)
  let ?o = "map_of (field_map (sd_Fields old))" and ?n = "map_of (field_map (sd_Fields new))"
  fix name g assume g: "?n name = Some g"
  have "v < w" using assms(1)
    by (auto simp: RequireBackwardCompatible_def CheckCompatibility_def split: if_splits)
  from CheckCompatibility_eq [OF this assms(2,3) refl refl refl refl refl refl] assms(1)
  have unchanged: "\<And>name f g. ?o name = Some f \<Longrightarrow> ?n name = Some g \<Longrightarrow>
      fd_Type f = fd_Type g \<and> (fd_Required g \<longrightarrow> fd_Required f)"
    and added: "\<And>name g. ?n name = Some g \<Longrightarrow> ?o name = None \<Longrightarrow> \<not> fd_Required g"
    unfolding RequireBackwardCompatible_def by (fastforce split: if_splits)+
  show "case d name of None \<Rightarrow> \<not> fd_Required g | Some t \<Rightarrow> t = fd_Type g"
  proof (cases "?o name")
    case None
    then have "d name = None" using assms(4) by (auto simp: written_under_def)
    with added [OF g None] show ?thesis by simp
  next
    case (Some f)
    then have "case d name of None \<Rightarrow> \<not> fd_Required f | Some t \<Rightarrow> t = fd_Type f"
      using assms(4) by (simp add: written_under_def conforms_def)
    with unchanged [OF Some g] show ?thesis by (auto split: option.splits)
  qed
qed

text \<open>A registry with two versions of one event: a required name, to which version 2 adds an
  optional note and version 3 makes the name optional.\<close>

definition demo_field :: "string \<Rightarrow> bool \<Rightarrow> field_definition" where
  "demo_field name req = \<lparr>fd_Name = name, fd_Type = ''string'', fd_Required = req\<rparr>"

definition demo_schema :: "int \<Rightarrow> field_definition list \<Rightarrow> schema_definition" where
  "demo_schema v fs = \<lparr>sd_Version = v, sd_Fields = fs, sd_JSONSchema = [], sd_RegisteredAt = 5\<rparr>"

definition demo_registry :: schema_registry where
  "demo_registry = fold (\<lambda>s r. fst (Schema_Register 1 r ''Placed'' s))
     [demo_schema 1 [demo_field ''name'' True],
      demo_schema 2 [demo_field ''name'' True, demo_field ''note'' False],
      demo_schema 3 [demo_field ''name'' False, demo_field ''note'' False]] NewSchemaRegistry"

lemma demo_registry_eq: "demo_registry = [(''Placed'',
    [(1, demo_schema 1 [demo_field ''name'' True]),
     (2, demo_schema 2 [demo_field ''name'' True, demo_field ''note'' False]),
     (3, demo_schema 3 [demo_field ''name'' False, demo_field ''note'' False])])]"
  by (simp add: demo_registry_def Schema_Register_def NewSchemaRegistry_def demo_schema_def)

lemma demo_get:
  "GetSchema demo_registry ''Placed'' 1 = Inr (demo_schema 1 [demo_field ''name'' True])"
  "GetSchema demo_registry ''Placed'' 2 = Inr (demo_schema 2 [demo_field ''name'' True, demo_field ''note'' False])"
  "GetSchema demo_registry ''Placed'' 3 = Inr (demo_schema 3 [demo_field ''name'' False, demo_field ''note'' False])"
  by (simp_all add: GetSchema_def demo_registry_eq)

lemma demo_check:
  "CheckCompatibility demo_registry ''Placed'' 1 2 = Inr SchemaBackwardCompatible"
  "CheckCompatibility demo_registry ''Placed'' 2 3 = Inr SchemaFullyCompatible"
  by (simp_all add: CheckCompatibility_def demo_get Let_def demo_schema_def field_map_def demo_field_def)

lemma conforms_fields:
  "conforms s d \<longleftrightarrow> (\<forall>(name, f) \<in> set (field_map (sd_Fields s)).
     case d name of None \<Rightarrow> \<not> fd_Required f | Some ty \<Rightarrow> ty = fd_Type f)"
  using field_map_wf [of "sd_Fields s"] by (force simp: conforms_def)

lemma conforms_one:
  "conforms (demo_schema v [demo_field n b]) d \<longleftrightarrow>
     (case d n of None \<Rightarrow> \<not> b | Some ty \<Rightarrow> ty = ''string'')"
  by (simp add: conforms_fields demo_schema_def field_map_def demo_field_def split: option.split)

lemma conforms_two:
  "n \<noteq> m \<Longrightarrow> conforms (demo_schema v [demo_field n b, demo_field m c]) d \<longleftrightarrow>
     (case d n of None \<Rightarrow> \<not> b | Some ty \<Rightarrow> ty = ''string'') \<and>
     (case d m of None \<Rightarrow> \<not> c | Some ty \<Rightarrow> ty = ''string'')"
  by (simp add: conforms_fields demo_schema_def field_map_def demo_field_def split: option.split)

theorem RequireBackwardCompatible_sound_witness:
  "RequireBackwardCompatible demo_registry ''Placed'' 1 2 = None \<and>
   conforms (demo_schema 2 [demo_field ''name'' True, demo_field ''note'' False]) [''name'' \<mapsto> ''string'']"
proof -
  have r: "RequireBackwardCompatible demo_registry ''Placed'' 1 2 = None"
    by (simp add: RequireBackwardCompatible_def demo_check)
  have "written_under (demo_schema 1 [demo_field ''name'' True]) [''name'' \<mapsto> ''string'']"
    unfolding written_under_def conforms_one
    by (simp add: demo_schema_def field_map_def demo_field_def)
  from RequireBackwardCompatible_sound [OF r demo_get(1,2) this] r show ?thesis by simp
qed

text \<open>The forward half of the classification is not sound.  Making a required field
  optional is classified as fully compatible, although a payload written under the new
  schema need not satisfy the old one.\<close>

theorem fully_compatible_not_forward:
  "CheckCompatibility demo_registry ''Placed'' 2 3 = Inr SchemaFullyCompatible \<and>
   (\<exists>old new d. GetSchema demo_registry ''Placed'' 2 = Inr old \<and> GetSchema demo_registry ''Placed'' 3 = Inr new \<and>
      written_under new d \<and> \<not> conforms old d)"
proof (intro conjI exI)
  show "written_under (demo_schema 3 [demo_field ''name'' False, demo_field ''note'' False]) Map.empty"
    by (simp add: written_under_def conforms_two)
  show "\<not> conforms (demo_schema 2 [demo_field ''name'' True, demo_field ''note'' False]) Map.empty"
    by (simp add: conforms_two)
qed (simp_all add: demo_check demo_get)

end
