(* ===== verification/Projection_Engine.thy ===== *)
theory Projection_Engine
  imports Saga_Manager Feed
begin

text \<open>
  Projections (\<^verbatim>\<open>projection.go\<close>), their engine (\<^verbatim>\<open>projection_engine.go\<close>) and the in-memory
  checkpoint store (\<^verbatim>\<open>adapters/memory/checkpoint.go\<close>).

  \<open>'w\<close> is the world: the event log, the checkpoints and the read models.  A projection is the
  record of its methods; a handler that panics returns the error \<open>GoPanic\<close>.  A context is the
  function that reads \<^verbatim>\<open>ctx.Err()\<close> off the world, so that a batch deadline expires as the
  clock of the world advances.  The goroutine of an async worker is a run over the list of what
  its select receives, interleaved with what other goroutines do to the worker (pause, resume) and
  to the world (appends); stopping during a backoff is stopping at the next select.
\<close>

section \<open>Projections\<close>

datatype projection_state =
    ProjectionStateStopped | ProjectionStateRunning | ProjectionStatePaused | ProjectionStateFaulted
  | ProjectionStateRebuilding | ProjectionStateCatchingUp | ProjectionStateRestarting

record 'w projection =
  pj_Name :: string
  pj_HandledEvents :: "string list"
  pj_Apply :: "('w \<Rightarrow> ctx) \<Rightarrow> 'w \<Rightarrow> stored_event \<Rightarrow> 'w \<times> error option"
  pj_ApplyBatch :: "('w \<Rightarrow> ctx) \<Rightarrow> 'w \<Rightarrow> stored_event list \<Rightarrow> 'w \<times> error option"
  pj_OnEvent :: "'w \<Rightarrow> stored_event \<Rightarrow> 'w \<times> error option"

fun event_in_list :: "string list \<Rightarrow> string \<Rightarrow> bool" where
  "event_in_list [] eventType \<longleftrightarrow> False"
| "event_in_list (et # rest) eventType \<longleftrightarrow> et = eventType \<or> event_in_list rest eventType"

definition ShouldHandleEventType :: "string list \<Rightarrow> string \<Rightarrow> bool" where
  "ShouldHandleEventType handledEvents eventType \<longleftrightarrow>
     (if length handledEvents = 0 then True else event_in_list handledEvents eventType)"

definition shouldHandleEvent :: "'w projection \<Rightarrow> string \<Rightarrow> bool" where
  "shouldHandleEvent p eventType = ShouldHandleEventType (pj_HandledEvents p) eventType"

text \<open>The default \<^verbatim>\<open>ApplyBatch\<close> of \<^verbatim>\<open>AsyncProjectionBase\<close>.\<close>

definition Base_ApplyBatch :: "('w \<Rightarrow> ctx) \<Rightarrow> 'w \<Rightarrow> stored_event list \<Rightarrow> 'w \<times> error option" where
  "Base_ApplyBatch ctx w events = (w, Some ErrNotImplemented)"

section \<open>The in-memory checkpoint store\<close>

record checkpoint =
  cp_ProjectionName :: string
  cp_Position :: nat
  cp_UpdatedAt :: time

type_synonym checkpoint_store = "(string, checkpoint) gomap"

definition Ckpt_Get :: "checkpoint_store \<Rightarrow> string \<Rightarrow> error + nat" where
  "Ckpt_Get s name = (case map_of s name of Some cp \<Rightarrow> Inr (cp_Position cp) | None \<Rightarrow> Inr 0)"

definition Ckpt_Set :: "time \<Rightarrow> checkpoint_store \<Rightarrow> string \<Rightarrow> nat \<Rightarrow> checkpoint_store \<times> error option" where
  "Ckpt_Set now s name position =
     (AList.update name \<lparr>cp_ProjectionName = name, cp_Position = position, cp_UpdatedAt = now\<rparr> s, None)"

definition Ckpt_Delete :: "checkpoint_store \<Rightarrow> string \<Rightarrow> checkpoint_store \<times> error option" where
  "Ckpt_Delete s name = (AList.delete name s, None)"

definition Ckpt_GetAll :: "checkpoint_store \<Rightarrow> error + (string, nat) gomap" where
  "Ckpt_GetAll s = Inr (map (\<lambda>(name, cp). (name, cp_Position cp)) s)"

definition Ckpt_Clear :: "checkpoint_store \<Rightarrow> checkpoint_store" where
  "Ckpt_Clear s = []"

definition Ckpt_Len :: "checkpoint_store \<Rightarrow> nat" where
  "Ckpt_Len s = length s"

definition Ckpt_GetWithTimestamp :: "checkpoint_store \<Rightarrow> string \<Rightarrow> checkpoint option" where
  "Ckpt_GetWithTimestamp s name = map_of s name"

section \<open>Options and workers\<close>

record async_retry =
  ar_ShouldRetry :: "int \<Rightarrow> error \<Rightarrow> bool"
  ar_Delay :: "int \<Rightarrow> duration"

record async_restart =
  as_ShouldRestart :: "int \<Rightarrow> error option \<Rightarrow> bool"
  as_Delay :: "int \<Rightarrow> duration"

record async_options =
  op_BatchSize :: int
  op_BatchTimeout :: duration
  op_PollInterval :: duration
  op_RetryPolicy :: "async_retry option"
  op_MaxRetries :: int
  op_ErrorClassifier :: "(error \<Rightarrow> error_class) option"
  op_OnPoisonEvent :: "(stored_event \<Rightarrow> error \<Rightarrow> error option) option"
  op_RestartPolicy :: "async_restart option"
  op_StartFromBeginning :: bool

definition policy_of :: "retry_policy \<Rightarrow> async_retry" where
  "policy_of r = \<lparr>ar_ShouldRetry = \<lambda>n e. ShouldRetry r n (Some e), ar_Delay = \<lambda>n. sint (Retry_Delay r n)\<rparr>"

definition restart_of :: "restart_policy \<Rightarrow> async_restart" where
  "restart_of r = \<lparr>as_ShouldRestart = \<lambda>n e. ShouldRestart r n, as_Delay = \<lambda>n. sint (Restart_Delay r n)\<rparr>"

definition DefaultAsyncOptions :: async_options where
  "DefaultAsyncOptions =
     \<lparr>op_BatchSize = 100, op_BatchTimeout = 1000000000, op_PollInterval = 100000000,
      op_RetryPolicy = Some (policy_of (ExponentialBackoffRetry 3 100000000 10000000000)), op_MaxRetries = 3,
      op_ErrorClassifier = None, op_OnPoisonEvent = None, op_RestartPolicy = None, op_StartFromBeginning = False\<rparr>"

text \<open>\<open>aw_transitions\<close> is what the state observer has been told, \<open>aw_stopped\<close> that the stop
  channel of the worker is closed.\<close>

record 'w async_worker =
  aw_projection :: "'w projection"
  aw_options :: async_options
  aw_state :: projection_state
  aw_paused :: bool
  aw_supervising :: bool
  aw_stopped :: bool
  aw_lastPosition :: nat
  aw_eventsProcessed :: nat
  aw_lastProcessedAt :: time
  aw_lastError :: "error option"
  aw_failedEvent :: "stored_event option"
  aw_transitions :: "(projection_state \<times> projection_state \<times> error option) list"

definition NewAsyncWorker :: "'w projection \<Rightarrow> async_options \<Rightarrow> 'w async_worker" where
  "NewAsyncWorker p opts =
     \<lparr>aw_projection = p, aw_options = opts, aw_state = ProjectionStateStopped, aw_paused = False,
      aw_supervising = False, aw_stopped = False, aw_lastPosition = 0, aw_eventsProcessed = 0,
      aw_lastProcessedAt = 0, aw_lastError = None, aw_failedEvent = None, aw_transitions = []\<rparr>"

definition notifyStateObserver ::
  "'w async_worker \<Rightarrow> projection_state \<Rightarrow> projection_state \<Rightarrow> error option \<Rightarrow> 'w async_worker" where
  "notifyStateObserver wk old new err = wk\<lparr>aw_transitions := aw_transitions wk @ [(old, new, err)]\<rparr>"

definition setState :: "'w async_worker \<Rightarrow> projection_state \<Rightarrow> 'w async_worker" where
  "setState wk st =
     (let old = aw_state wk; wk' = wk\<lparr>aw_state := st\<rparr>
      in if old \<noteq> st then notifyStateObserver wk' old st None else wk')"

definition setError :: "'w async_worker \<Rightarrow> error \<Rightarrow> 'w async_worker" where
  "setError wk err =
     (let old = aw_state wk; wk' = wk\<lparr>aw_lastError := Some err, aw_state := ProjectionStateFaulted\<rparr>
      in if old \<noteq> ProjectionStateFaulted then notifyStateObserver wk' old ProjectionStateFaulted (Some err) else wk')"

definition setTransientError :: "'w async_worker \<Rightarrow> error \<Rightarrow> 'w async_worker" where
  "setTransientError wk err = wk\<lparr>aw_lastError := Some err\<rparr>"

definition clearError :: "'w async_worker \<Rightarrow> 'w async_worker" where
  "clearError wk =
     (let old = aw_state wk; wk' = wk\<lparr>aw_lastError := None, aw_state := ProjectionStateRunning\<rparr>
      in if old \<noteq> ProjectionStateRunning then notifyStateObserver wk' old ProjectionStateRunning None else wk')"

definition setFailedEvent :: "'w async_worker \<Rightarrow> stored_event \<Rightarrow> 'w async_worker" where
  "setFailedEvent wk e = wk\<lparr>aw_failedEvent := Some e\<rparr>"

definition clearFailedEvent :: "'w async_worker \<Rightarrow> 'w async_worker" where
  "clearFailedEvent wk = wk\<lparr>aw_failedEvent := None\<rparr>"

definition shouldRetry :: "'w async_worker \<Rightarrow> int \<Rightarrow> error \<Rightarrow> bool" where
  "shouldRetry wk consecutiveErrors err =
     (case op_RetryPolicy (aw_options wk) of
        Some r \<Rightarrow> ar_ShouldRetry r consecutiveErrors err
      | None \<Rightarrow>
          if op_MaxRetries (aw_options wk) > 0 then consecutiveErrors < op_MaxRetries (aw_options wk) else True)"

section \<open>What the engine calls\<close>

record 'w checkpoint_ops =
  ck_Get :: "'w \<Rightarrow> string \<Rightarrow> error + nat"
  ck_Set :: "'w \<Rightarrow> string \<Rightarrow> nat \<Rightarrow> 'w \<times> error option"
  ck_Delete :: "'w \<Rightarrow> string \<Rightarrow> 'w \<times> error option"

text \<open>\<open>pv_Decrypt\<close> is \<open>None\<close> when no encryption is configured, \<open>pv_checkpoints\<close> when there is
  no checkpoint store.\<close>

record 'w projection_env =
  pv_now :: "'w \<Rightarrow> time"
  pv_ctx :: "'w \<Rightarrow> ctx"
  pv_wait :: "'w \<Rightarrow> duration \<Rightarrow> 'w"
  pv_Load :: "('w \<Rightarrow> ctx) \<Rightarrow> 'w \<Rightarrow> nat \<Rightarrow> int \<Rightarrow> error + stored_event list"
  pv_Decrypt :: "(stored_event \<Rightarrow> error + stored_event) option"
  pv_checkpoints :: "'w checkpoint_ops option"
  pv_panicSummary :: "string \<Rightarrow> string"

definition save_checkpoint :: "'w projection_env \<Rightarrow> 'w \<Rightarrow> string \<Rightarrow> nat \<Rightarrow> 'w" where
  "save_checkpoint env w name position =
     (case pv_checkpoints env of None \<Rightarrow> w | Some ck \<Rightarrow> fst (ck_Set ck w name position))"

section \<open>One batch\<close>

text \<open>The selection loop: the events that are kept and, of these, the decrypted events the
  projection handles.  \<open>Inl\<close> is an undecryptable first event; a later one cuts the batch.\<close>

fun select_loop ::
  "(stored_event \<Rightarrow> error + stored_event) option \<Rightarrow> (string \<Rightarrow> bool) \<Rightarrow> nat \<Rightarrow> stored_event list \<Rightarrow>
   error + stored_event list \<times> stored_event list" where
  "select_loop decrypt handles i [] = Inr ([], [])"
| "select_loop decrypt handles i (event # rest) =
     (if \<not> handles (se_Type event)
      then (case select_loop decrypt handles (Suc i) rest of
              Inl e \<Rightarrow> Inl e | Inr (kept, sel) \<Rightarrow> Inr (event # kept, sel))
      else (case (case decrypt of None \<Rightarrow> Inr event | Some d \<Rightarrow> d event) of
              Inl derr \<Rightarrow> if i = 0 then Inl derr else Inr ([], [])
            | Inr event' \<Rightarrow>
                (case select_loop decrypt handles (Suc i) rest of
                   Inl e \<Rightarrow> Inl e | Inr (kept, sel) \<Rightarrow> Inr (event # kept, event' # sel))))"

text \<open>What the deferred recover makes of a panic.\<close>

definition panicked_event :: "(string \<Rightarrow> string) \<Rightarrow> stored_event \<Rightarrow> string \<Rightarrow> error" where
  "panicked_event summary event r =
     Errorf (''panic processing event '' @ se_Type event @ '' (stream '' @ se_StreamID event @
       '') at position '' @ itoa (int (se_GlobalPosition event)) @ '': '' @ summary r)"

definition panicked_batch :: "(string \<Rightarrow> string) \<Rightarrow> string \<Rightarrow> stored_event list \<Rightarrow> string \<Rightarrow> error" where
  "panicked_batch summary name filtered r =
     Errorf (''panic processing batch '' @ itoa (int (se_GlobalPosition (hd filtered))) @ ''-'' @
       itoa (int (se_GlobalPosition (last filtered))) @ '' in projection '' @ name @ '': '' @ summary r)"

text \<open>Sequential processing.  An error records the failing event; a panic unwinds past that.\<close>

fun apply_loop ::
  "'w projection_env \<Rightarrow> ('w \<Rightarrow> ctx) \<Rightarrow> 'w \<Rightarrow> 'w async_worker \<Rightarrow> stored_event list \<Rightarrow> 'w \<times> 'w async_worker \<times> error option" where
  "apply_loop env ctx w wk [] = (w, wk, None)"
| "apply_loop env ctx w wk (event # rest) =
     (case pj_Apply (aw_projection wk) ctx w event of
        (w', Some (GoPanic r)) \<Rightarrow> (w', wk, Some (panicked_event (pv_panicSummary env) event r))
      | (w', Some err) \<Rightarrow> (w', setFailedEvent wk event, Some (Wrap ''failed to apply event'' err))
      | (w', None) \<Rightarrow> apply_loop env ctx w' (wk\<lparr>aw_eventsProcessed := aw_eventsProcessed wk + 1\<rparr>) rest)"

definition apply_events ::
  "'w projection_env \<Rightarrow> ('w \<Rightarrow> ctx) \<Rightarrow> 'w \<Rightarrow> 'w async_worker \<Rightarrow> stored_event list \<Rightarrow> 'w \<times> 'w async_worker \<times> error option" where
  "apply_events env ctx w wk filtered =
     (case pj_ApplyBatch (aw_projection wk) ctx w filtered of
        (w', Some (GoPanic r)) \<Rightarrow> (w', wk, Some (panicked_batch (pv_panicSummary env) (pj_Name (aw_projection wk)) filtered r))
      | (w', Some err) \<Rightarrow>
          if errors_Is err ErrNotImplemented then apply_loop env ctx w' wk filtered
          else (w', setFailedEvent wk (last filtered), Some err)
      | (w', None) \<Rightarrow> (w', wk\<lparr>aw_eventsProcessed := aw_eventsProcessed wk + length filtered\<rparr>, None))"

definition batch_ctx :: "'w projection_env \<Rightarrow> 'w \<Rightarrow> duration \<Rightarrow> 'w \<Rightarrow> ctx" where
  "batch_ctx env w timeout =
     (if timeout > 0
      then (\<lambda>w'. case pv_ctx env w' of
                   Some e \<Rightarrow> Some e
                 | None \<Rightarrow> if pv_now env w + timeout \<le> pv_now env w' then Some ErrContextDeadlineExceeded else None)
      else pv_ctx env)"

definition processAsyncBatch ::
  "'w projection_env \<Rightarrow> 'w \<Rightarrow> 'w async_worker \<Rightarrow> 'w \<times> 'w async_worker \<times> error option" where
  "processAsyncBatch env w wk =
     (let ctx = batch_ctx env w (op_BatchTimeout (aw_options wk));
          name = pj_Name (aw_projection wk)
      in (case pv_Load env ctx w (aw_lastPosition wk) (op_BatchSize (aw_options wk)) of
            Inl err \<Rightarrow> (w, wk, Some (Wrap ''failed to load events'' err))
          | Inr events \<Rightarrow>
              if length events = 0
              then (let w' = pv_wait env w 100000000
                    in (case ctx w' of Some e \<Rightarrow> (w', wk, Some e) | None \<Rightarrow> (w', wk, None)))
              else (case select_loop (pv_Decrypt env) (shouldHandleEvent (aw_projection wk)) 0 events of
                Inl derr \<Rightarrow> (w, setFailedEvent wk (hd events), Some (Wrap ''failed to decrypt event'' derr))
              | Inr (kept, filtered) \<Rightarrow>
                  let newPosition = se_GlobalPosition (last kept)
                  in if length filtered = 0
                     then (let w' = save_checkpoint env w name newPosition
                           in (w', wk\<lparr>aw_lastPosition := newPosition, aw_lastProcessedAt := pv_now env w'\<rparr>, None))
                     else (case apply_events env ctx w wk filtered of
                       (w', wk', Some err) \<Rightarrow> (w', wk', Some err)
                     | (w', wk', None) \<Rightarrow>
                         let w'' = save_checkpoint env w' name newPosition
                         in (w'', (clearFailedEvent wk')\<lparr>aw_lastPosition := newPosition,
                               aw_lastProcessedAt := pv_now env w''\<rparr>, None)))))"

section \<open>The worker\<close>

definition handlePoisonEvent ::
  "'w projection_env \<Rightarrow> 'w \<Rightarrow> 'w async_worker \<Rightarrow> error \<Rightarrow> 'w \<times> 'w async_worker \<times> bool" where
  "handlePoisonEvent env w wk cause =
     (case (op_OnPoisonEvent (aw_options wk), aw_failedEvent wk) of
        (Some handler, Some failed) \<Rightarrow>
          (case handler failed cause of
             Some err \<Rightarrow> (w, wk, False)
           | None \<Rightarrow>
               (save_checkpoint env w (pj_Name (aw_projection wk)) (se_GlobalPosition failed),
                wk\<lparr>aw_lastPosition := se_GlobalPosition failed, aw_failedEvent := None\<rparr>, True))
      | _ \<Rightarrow> (w, wk, False))"

definition checkpointReadRetries :: nat where "checkpointReadRetries = 3"

text \<open>\<open>attempt\<close> counts from 1; \<open>n\<close> is what remains after it.\<close>

fun checkpoint_loop ::
  "'w projection_env \<Rightarrow> 'w checkpoint_ops \<Rightarrow> string \<Rightarrow> nat \<Rightarrow> nat \<Rightarrow> 'w \<Rightarrow> 'w \<times> (error + nat)" where
  "checkpoint_loop env ck name attempt n w =
     (case ck_Get ck w name of
        Inr pos \<Rightarrow> (w, Inr pos)
      | Inl err \<Rightarrow>
          if isShutdownError err then (w, Inl err)
          else (case n of
                  0 \<Rightarrow> (w, Inl err)
                | Suc n' \<Rightarrow>
                    let w' = pv_wait env w (50000000 * int attempt)
                    in (case pv_ctx env w' of
                          Some e \<Rightarrow> (w', Inl e)
                        | None \<Rightarrow> checkpoint_loop env ck name (Suc attempt) n' w')))"

definition getCheckpointWithRetry ::
  "'w projection_env \<Rightarrow> 'w checkpoint_ops \<Rightarrow> 'w \<Rightarrow> string \<Rightarrow> 'w \<times> (error + nat)" where
  "getCheckpointWithRetry env ck w name = checkpoint_loop env ck name 1 (checkpointReadRetries - 1) w"

datatype exit_reason = ExitStopped | ExitFaulted

text \<open>What a select of the worker receives, and what happens around it.\<close>

datatype 'w worker_input = WStop | WTick | WPause | WResume | WWorld "'w \<Rightarrow> 'w"

definition worker_pause :: "'w async_worker \<Rightarrow> 'w async_worker" where
  "worker_pause wk = setState (wk\<lparr>aw_paused := True\<rparr>) ProjectionStatePaused"

definition worker_resume :: "'w async_worker \<Rightarrow> 'w async_worker" where
  "worker_resume wk = setState (wk\<lparr>aw_paused := False\<rparr>) ProjectionStateRunning"

definition backoff_wait :: "'w async_worker \<Rightarrow> int \<Rightarrow> duration" where
  "backoff_wait wk backoffErrors =
     (case op_RetryPolicy (aw_options wk) of
        Some r \<Rightarrow> ar_Delay r (backoffErrors - 1)
      | None \<Rightarrow>
          let shift = (if backoffErrors - 1 > 18 then 18 else backoffErrors - 1);
              delay = 100000000 * 2 ^ nat shift
          in if delay > 30000000000 then 30000000000 else delay)"

definition is_poison :: "async_options \<Rightarrow> error \<Rightarrow> bool" where
  "is_poison opts err =
     (case op_ErrorClassifier opts of None \<Rightarrow> True | Some classify \<Rightarrow> classify err \<noteq> ErrorClassTransient)"

text \<open>One tick of the loop; the result is the new counters, or the reason to exit.\<close>

definition worker_tick ::
  "'w projection_env \<Rightarrow> 'w \<Rightarrow> 'w async_worker \<Rightarrow> int \<Rightarrow> int \<Rightarrow>
   'w \<times> 'w async_worker \<times> (exit_reason + int \<times> int)" where
  "worker_tick env w wk poisonErrors backoffErrors =
     (if aw_paused wk then (w, setState wk ProjectionStatePaused, Inr (poisonErrors, backoffErrors))
      else (case processAsyncBatch env w wk of
        (w1, wk1, None) \<Rightarrow>
          if backoffErrors > 0 then (w1, clearError wk1, Inr (0, 0))
          else (w1, wk1, Inr (poisonErrors, backoffErrors))
      | (w1, wk1, Some err) \<Rightarrow>
          if errors_Is err ErrContextCanceled then (w1, setState wk1 ProjectionStateStopped, Inl ExitStopped)
          else
            let b = backoffErrors + 1;
                poison = is_poison (aw_options wk1) err;
                p = (if poison then poisonErrors + 1 else poisonErrors);
                wk2 = (if poison then setError wk1 err else setTransientError wk1 err)
            in if poison \<and> \<not> shouldRetry wk2 p err
               then (case handlePoisonEvent env w1 wk2 err of
                       (w3, wk3, True) \<Rightarrow> (w3, clearError wk3, Inr (0, 0))
                     | (w3, wk3, False) \<Rightarrow> (w3, wk3, Inl ExitFaulted))
               else (pv_wait env w1 (backoff_wait wk2 b), wk2, Inr (p, b))))"

fun worker_loop ::
  "'w projection_env \<Rightarrow> 'w \<Rightarrow> 'w async_worker \<Rightarrow> int \<Rightarrow> int \<Rightarrow> 'w worker_input list \<Rightarrow>
   'w \<times> 'w async_worker \<times> exit_reason option" where
  "worker_loop env w wk p b [] = (w, wk, None)"
| "worker_loop env w wk p b (WStop # rest) = (w, setState wk ProjectionStateStopped, Some ExitStopped)"
| "worker_loop env w wk p b (WPause # rest) = worker_loop env w (worker_pause wk) p b rest"
| "worker_loop env w wk p b (WResume # rest) = worker_loop env w (worker_resume wk) p b rest"
| "worker_loop env w wk p b (WWorld f # rest) = worker_loop env (f w) wk p b rest"
| "worker_loop env w wk p b (WTick # rest) =
     (case worker_tick env w wk p b of
        (w', wk', Inl reason) \<Rightarrow> (w', wk', Some reason)
      | (w', wk', Inr (p', b')) \<Rightarrow> worker_loop env w' wk' p' b' rest)"

definition runAsyncWorkerOnce ::
  "'w projection_env \<Rightarrow> 'w \<Rightarrow> 'w async_worker \<Rightarrow> bool \<Rightarrow> 'w worker_input list \<Rightarrow>
   'w \<times> 'w async_worker \<times> exit_reason option" where
  "runAsyncWorkerOnce env w wk resumeFromCheckpoint inputs =
     (let wk1 = setState wk ProjectionStateCatchingUp
      in (case (if resumeFromCheckpoint \<or> \<not> op_StartFromBeginning (aw_options wk1) then pv_checkpoints env else None) of
            None \<Rightarrow> worker_loop env w (setState (wk1\<lparr>aw_lastPosition := 0\<rparr>) ProjectionStateRunning) 0 0 inputs
          | Some ck \<Rightarrow>
              (case getCheckpointWithRetry env ck w (pj_Name (aw_projection wk1)) of
                 (w1, Inl err) \<Rightarrow>
                   if isShutdownError err then (w1, setState wk1 ProjectionStateStopped, Some ExitStopped)
                   else (w1, setError wk1 (Wrap ''load checkpoint'' err), Some ExitFaulted)
               | (w1, Inr pos) \<Rightarrow>
                   worker_loop env w1 (setState (wk1\<lparr>aw_lastPosition := pos\<rparr>) ProjectionStateRunning) 0 0 inputs)))"

text \<open>The supervisor.  Each element of the list is one lifetime of the worker: what its select
  receives, and whether a stop arrives in the restart backoff after it.\<close>

fun supervise_loop ::
  "'w projection_env \<Rightarrow> bool \<Rightarrow> int \<Rightarrow> 'w \<Rightarrow> 'w async_worker \<Rightarrow> ('w worker_input list \<times> bool) list \<Rightarrow>
   'w \<times> 'w async_worker" where
  "supervise_loop env resumeFirst restarts w wk [] = (w, wk)"
| "supervise_loop env resumeFirst restarts w wk ((inputs, stopped) # rest) =
     (case runAsyncWorkerOnce env w wk (resumeFirst \<or> restarts > 0) inputs of
        (w1, wk1, Some ExitFaulted) \<Rightarrow>
          (case op_RestartPolicy (aw_options wk1) of
             None \<Rightarrow> (w1, wk1)
           | Some policy \<Rightarrow>
               if \<not> as_ShouldRestart policy (restarts + 1) (aw_lastError wk1) then (w1, wk1)
               else
                 let wk2 = setState wk1 ProjectionStateRestarting
                 in if stopped then (w1, setState wk2 ProjectionStateStopped)
                    else supervise_loop env resumeFirst (restarts + 1)
                           (pv_wait env w1 (as_Delay policy (restarts + 1))) wk2 rest)
      | (w1, wk1, _) \<Rightarrow> (w1, wk1))"

end
