(* ===== verification/Projection_Laws.thy ===== *)
theory Projection_Laws
  imports Projection_Engine "HOL-Library.Sublist"
begin

text \<open>
  Exactly-once projection of the event log.

  A batch changes the read model and then saves a checkpoint.  The locale \<open>projection_world\<close> is
  what the engine needs of the log, the checkpoint store and the clock, \<open>txn_projection\<close> adds a
  projection whose \<^verbatim>\<open>ApplyBatch\<close> applies a batch wholly or not at all.  Inside it the read model
  is shown to be, after any run of a supervised worker, the fold of the handled events up to the
  checkpoint: no event is lost or applied twice, whatever fails, stops, restarts or is appended
  meanwhile.  The in-memory adapter with the in-memory checkpoint store provides the contract.
\<close>

section \<open>Sorted logs\<close>

lemma sorted_le_last:
  fixes pos :: "'e \<Rightarrow> nat"
  assumes "sorted_wrt (<) (map pos xs)" and "e \<in> set xs"
  shows "pos e \<le> pos (last xs)"
proof -
  have ne: "xs \<noteq> []" using assms(2) by auto
  then have "sorted_wrt (<) (map pos (butlast xs @ [last xs]))" using assms(1) by simp
  moreover have "e \<in> set (butlast xs @ [last xs])" using assms(2) ne by simp
  ultimately show ?thesis by (auto simp: sorted_wrt_append intro: less_imp_le)
qed

lemma filter_le_after_take:
  fixes pos :: "'e \<Rightarrow> nat"
  assumes srt: "sorted_wrt (<) (map pos xs)" and k: "0 < k" "k \<le> length (filter (\<lambda>e. p < pos e) xs)"
  defines "page \<equiv> take k (filter (\<lambda>e. p < pos e) xs)"
  shows "filter (\<lambda>e. pos e \<le> pos (last page)) xs = filter (\<lambda>e. pos e \<le> p) xs @ page"
proof -
  let ?ys = "filter (\<lambda>e. p < pos e) xs"
  have split: "filter (\<lambda>e. pos e \<le> p) xs @ ?ys = xs"
    using srt
  proof (induction xs)
    case (Cons x xs)
    show ?case
    proof (cases "pos x \<le> p")
      case False
      have "p < pos e" if "e \<in> set xs" for e using Cons.prems False that by force
      then have "filter (\<lambda>e. pos e \<le> p) xs = []" "filter (\<lambda>e. p < pos e) xs = xs"
        by (auto simp: filter_empty_conv filter_id_conv not_le)
      then show ?thesis using False by simp
    qed (use Cons in simp)
  qed simp
  have ne: "page \<noteq> []" using k by (auto simp: page_def)
  have srt': "sorted_wrt (<) (map pos ?ys)" using srt by (simp add: sorted_wrt_map sorted_wrt_filter)
  have "?ys \<noteq> []" using k by auto
  then have gt: "filter (\<lambda>e. pos (last page) < pos e) ?ys = drop k ?ys"
    unfolding page_def by (intro filter_gt_after_take [OF srt' k(1)])
  have lp: "p < pos (last page)"
    using last_in_set [OF ne] in_set_takeD [of "last page" k ?ys] by (simp add: page_def)
  have gt_drop: "pos (last page) < pos e" if "e \<in> set (drop k ?ys)" for e
    using that unfolding gt [symmetric] by simp
  have le_page: "pos e \<le> pos (last page)" if "e \<in> set page" for e
    using srt' that by (intro sorted_le_last) (simp_all add: page_def take_map [symmetric] sorted_wrt_take)
  have "filter (\<lambda>e. pos e \<le> pos (last page)) ?ys = page"
  proof -
    have "?ys = page @ drop k ?ys" by (simp add: page_def)
    moreover have "filter (\<lambda>e. pos e \<le> pos (last page)) page = page"
      using le_page by (simp add: filter_id_conv)
    moreover have "filter (\<lambda>e. pos e \<le> pos (last page)) (drop k ?ys) = []"
      using gt_drop by (simp add: filter_empty_conv not_le)
    ultimately show ?thesis by (metis append_Nil2 filter_append)
  qed
  moreover have "filter (\<lambda>e. pos e \<le> pos (last page)) (filter (\<lambda>e. pos e \<le> p) xs) = filter (\<lambda>e. pos e \<le> p) xs"
    using lp by (auto intro!: filter_cong)
  ultimately show ?thesis by (metis filter_append split)
qed

section \<open>The selection of a batch\<close>

text \<open>What the projection is given for a stored event.\<close>

definition plain :: "(stored_event \<Rightarrow> error + stored_event) option \<Rightarrow> stored_event \<Rightarrow> stored_event" where
  "plain decrypt e = (case decrypt of None \<Rightarrow> e | Some d \<Rightarrow> (case d e of Inl _ \<Rightarrow> e | Inr e' \<Rightarrow> e'))"

definition delivered ::
  "(stored_event \<Rightarrow> error + stored_event) option \<Rightarrow> (string \<Rightarrow> bool) \<Rightarrow> stored_event list \<Rightarrow> stored_event list" where
  "delivered decrypt handles es = map (plain decrypt) (filter (\<lambda>e. handles (se_Type e)) es)"

lemma delivered_append [simp]: "delivered d h (xs @ ys) = delivered d h xs @ delivered d h ys"
  by (simp add: delivered_def)

lemma delivered_Nil [simp]: "delivered d h [] = []"
  by (simp add: delivered_def)

lemma delivered_None: "delivered None h es = filter (\<lambda>e. h (se_Type e)) es"
proof -
  have "plain None = (\<lambda>e. e)" by (rule ext) (simp add: plain_def)
  then show ?thesis by (simp add: delivered_def)
qed

lemma select_loop_prefix:
  "select_loop decrypt handles i es = Inr (kept, sel) \<Longrightarrow>
     prefix kept es \<and> sel = delivered decrypt handles kept \<and> (i = 0 \<longrightarrow> es \<noteq> [] \<longrightarrow> kept \<noteq> [])"
proof (induction es arbitrary: i kept sel)
  case (Cons e es)
  let ?d = "case decrypt of None \<Rightarrow> Inr e | Some d \<Rightarrow> d e"
  show ?case
  proof (cases "handles (se_Type e)")
    case False
    with Cons.prems obtain kept' where
      "select_loop decrypt handles (Suc i) es = Inr (kept', sel)" "kept = e # kept'"
      by (auto split: sum.splits prod.splits)
    with Cons.IH [of "Suc i" kept' sel] False show ?thesis by (simp add: delivered_def)
  next
    case True
    show ?thesis
    proof (cases ?d)
      case (Inl err)
      with Cons.prems True show ?thesis by (simp split: if_splits)
    next
      case (Inr e')
      with Cons.prems True obtain kept' sel' where
        "select_loop decrypt handles (Suc i) es = Inr (kept', sel')" "kept = e # kept'" "sel = e' # sel'"
        by (auto split: sum.splits prod.splits)
      moreover have "plain decrypt e = e'" using Inr by (simp add: plain_def split: option.splits)
      ultimately show ?thesis using Cons.IH [of "Suc i" kept' sel'] True by (simp add: delivered_def)
    qed
  qed
qed simp

lemma select_loop_plain:
  "select_loop None handles i es = Inr (es, delivered None handles es)"
  by (induction es arbitrary: i) (auto simp: delivered_def plain_def)

lemma apply_events_error:
  assumes "pj_ApplyBatch (aw_projection wk) ctx w es = (w', Some e)" and "\<not> errors_Is e ErrNotImplemented"
  obtains wk' e' where "apply_events env ctx w wk es = (w', wk', Some e')"
  using assms by (cases e) (simp_all add: apply_events_def)

section \<open>What the engine relies on\<close>

text \<open>Whatever the other goroutines append lies behind everything already there.\<close>

definition appended_after :: "stored_event list \<Rightarrow> stored_event list \<Rightarrow> bool" where
  "appended_after old new \<longleftrightarrow>
     (\<exists>more. new = old @ more \<and> (\<forall>e \<in> set more. \<forall>e' \<in> set old. se_GlobalPosition e' < se_GlobalPosition e))"

locale projection_world =
  fixes env :: "'w projection_env"
    and ck :: "'w checkpoint_ops"
    and name :: string
    and ok :: "'w \<Rightarrow> bool"
    and events :: "'w \<Rightarrow> stored_event list"
    and model :: "'w \<Rightarrow> 'm"
    and cp :: "'w \<Rightarrow> nat"
  assumes checkpoints: "pv_checkpoints env = Some ck"
    and load_page: "ok w \<Longrightarrow> 0 < n \<Longrightarrow> pv_Load env ctx w p n = Inr es \<Longrightarrow>
      es = take (nat n) (filter (\<lambda>e. p < se_GlobalPosition e) (events w))"
    and ascending: "ok w \<Longrightarrow> sorted_wrt (<) (map se_GlobalPosition (events w))"
    and positive: "ok w \<Longrightarrow> e \<in> set (events w) \<Longrightarrow> 0 < se_GlobalPosition e"
    and get_cp: "ok w \<Longrightarrow> ck_Get ck w name = Inr (cp w)"
    and set_cp: "ok w \<Longrightarrow> fst (ck_Set ck w name p) = w' \<Longrightarrow>
      ok w' \<and> events w' = events w \<and> model w' = model w \<and> cp w' = p"
    and del_cp: "ok w \<Longrightarrow> fst (ck_Delete ck w name) = w' \<Longrightarrow>
      ok w' \<and> events w' = events w \<and> model w' = model w \<and> cp w' = 0"
    and waits: "ok w \<Longrightarrow> pv_wait env w d = w' \<Longrightarrow>
      ok w' \<and> events w' = events w \<and> model w' = model w \<and> cp w' = cp w"

locale txn_projection = projection_world env ck "pj_Name pj" ok events model cp
  for env :: "'w projection_env" and ck :: "'w checkpoint_ops" and pj :: "'w projection"
    and ok :: "'w \<Rightarrow> bool" and events :: "'w \<Rightarrow> stored_event list" and model :: "'w \<Rightarrow> 'm" and cp :: "'w \<Rightarrow> nat" +
  fixes step :: "stored_event \<Rightarrow> 'm \<Rightarrow> 'm"
  assumes batch: "ok w \<Longrightarrow> pj_ApplyBatch pj ctx w es = (w', r) \<Longrightarrow>
      ok w' \<and> events w' = events w \<and> cp w' = cp w \<and>
      (case r of None \<Rightarrow> model w' = fold step es (model w)
       | Some e \<Rightarrow> model w' = model w \<and> \<not> errors_Is e ErrNotImplemented)"
begin

definition feed :: "'w \<Rightarrow> nat \<Rightarrow> stored_event list" where
  "feed w p = delivered (pv_Decrypt env) (shouldHandleEvent pj) (filter (\<lambda>e. se_GlobalPosition e \<le> p) (events w))"

text \<open>The read model is the fold of what was delivered up to the checkpoint.\<close>

definition synced :: "'m \<Rightarrow> 'w \<Rightarrow> bool" where
  "synced m0 w \<longleftrightarrow> ok w \<and> model w = fold step (feed w (cp w)) m0 \<and>
     (cp w = 0 \<or> cp w \<in> se_GlobalPosition ` set (events w))"

definition tracks :: "'w \<Rightarrow> 'w async_worker \<Rightarrow> bool" where
  "tracks w wk \<longleftrightarrow> aw_projection wk = pj \<and> 0 < op_BatchSize (aw_options wk) \<and>
     op_OnPoisonEvent (aw_options wk) = None \<and> aw_lastPosition wk = cp w"

lemma synced_cong:
  "synced m0 w \<Longrightarrow> ok w' \<Longrightarrow> events w' = events w \<Longrightarrow> model w' = model w \<Longrightarrow> cp w' = cp w \<Longrightarrow> synced m0 w'"
  by (simp add: synced_def feed_def)

lemma synced_wait:
  assumes "synced m0 w"
  shows "synced m0 (pv_wait env w d) \<and> cp (pv_wait env w d) = cp w"
  using assms waits [of w d] by (auto simp: synced_def feed_def)

lemma apply_events_txn:
  assumes "ok w" and "aw_projection wk = pj" and "apply_events env ctx w wk es = (w', wk', r)"
  shows "ok w' \<and> events w' = events w \<and> cp w' = cp w \<and>
    (case r of None \<Rightarrow> model w' = fold step es (model w) | Some e \<Rightarrow> model w' = model w)"
proof -
  obtain w1 r1 where run: "pj_ApplyBatch pj ctx w es = (w1, r1)" by (rule prod.exhaust)
  show ?thesis
    using assms(2,3) batch [OF assms(1) run]
    by (auto simp: apply_events_def run split: option.splits error.splits if_splits)
qed

lemma apply_events_worker:
  assumes "apply_events env ctx w wk es = (w', wk', r)"
    and "\<And>w' e. pj_ApplyBatch (aw_projection wk) ctx w es = (w', Some e) \<Longrightarrow> \<not> errors_Is e ErrNotImplemented"
  shows "aw_projection wk' = aw_projection wk \<and> aw_options wk' = aw_options wk \<and> aw_lastPosition wk' = aw_lastPosition wk"
  using assms
  by (auto simp: apply_events_def setFailedEvent_def split: prod.splits option.splits error.splits if_splits)

lemma feed_advance:
  assumes "ok w" and "prefix kept (take n (filter (\<lambda>e. p < se_GlobalPosition e) (events w)))" and "kept \<noteq> []"
  shows "feed w (se_GlobalPosition (last kept)) =
      feed w p @ delivered (pv_Decrypt env) (shouldHandleEvent pj) kept"
    and "se_GlobalPosition (last kept) \<in> se_GlobalPosition ` set (events w)"
proof -
  let ?ys = "filter (\<lambda>e. p < se_GlobalPosition e) (events w)"
  have pre: "prefix kept ?ys" using assms(2) take_is_prefix prefix_order.trans by blast
  then have tk: "kept = take (length kept) ?ys" and len: "length kept \<le> length ?ys"
    by (auto simp: prefix_def)
  have "filter (\<lambda>e. se_GlobalPosition e \<le> se_GlobalPosition (last kept)) (events w) =
      filter (\<lambda>e. se_GlobalPosition e \<le> p) (events w) @ kept"
    using filter_le_after_take [OF ascending [OF assms(1)], of "length kept" p] len assms(3)
    unfolding tk [symmetric] by simp
  then show "feed w (se_GlobalPosition (last kept)) =
      feed w p @ delivered (pv_Decrypt env) (shouldHandleEvent pj) kept"
    by (simp add: feed_def)
  have "last kept \<in> set ?ys" using last_in_set [OF assms(3)] set_mono_prefix [OF pre] by blast
  then show "se_GlobalPosition (last kept) \<in> se_GlobalPosition ` set (events w)" by simp
qed

lemma checkpoint_advance:
  assumes "synced m0 w" and "prefix kept (take n (filter (\<lambda>e. cp w < se_GlobalPosition e) (events w)))"
    and "kept \<noteq> []" and "ok w1" and "events w1 = events w"
    and "model w1 = fold step (delivered (pv_Decrypt env) (shouldHandleEvent pj) kept) (model w)"
    and "save_checkpoint env w1 (pj_Name pj) (se_GlobalPosition (last kept)) = w2"
  shows "synced m0 w2 \<and> cp w2 = se_GlobalPosition (last kept) \<and> events w2 = events w"
proof -
  have w2: "ok w2" "events w2 = events w" "model w2 = model w1" "cp w2 = se_GlobalPosition (last kept)"
    using set_cp [OF assms(4) refl, of "se_GlobalPosition (last kept)"] assms(5,7)
    by (auto simp: save_checkpoint_def checkpoints)
  have ok: "ok w" and mdl: "model w = fold step (feed w (cp w)) m0" using assms(1) by (simp_all add: synced_def)
  have "feed w2 (cp w2) = feed w (cp w) @ delivered (pv_Decrypt env) (shouldHandleEvent pj) kept"
    using feed_advance(1) [OF ok assms(2,3)] w2 by (simp add: feed_def)
  then show ?thesis
    using w2 mdl assms(6) feed_advance(2) [OF ok assms(2,3)] by (simp add: synced_def)
qed

lemma tracks_update [simp]:
  "tracks w (setFailedEvent wk e) = tracks w wk" "tracks w (clearFailedEvent wk) = tracks w wk"
  "tracks w (setState wk st) = tracks w wk" "tracks w (setError wk err) = tracks w wk"
  "tracks w (setTransientError wk err) = tracks w wk" "tracks w (clearError wk) = tracks w wk"
  "tracks w (worker_pause wk) = tracks w wk" "tracks w (worker_resume wk) = tracks w wk"
  by (simp_all add: tracks_def worker_pause_def worker_resume_def setState_def setError_def clearError_def
      setTransientError_def setFailedEvent_def clearFailedEvent_def notifyStateObserver_def Let_def)

lemma tracks_cong: "tracks w wk \<Longrightarrow> cp w' = cp w \<Longrightarrow> tracks w' wk"
  by (simp add: tracks_def)

lemma processAsyncBatch_synced:
  assumes sy: "synced m0 w" and tr: "tracks w wk" and run: "processAsyncBatch env w wk = (w', wk', r)"
  shows "synced m0 w' \<and> tracks w' wk' \<and> events w' = events w"
proof -
  let ?ctx = "batch_ctx env w (op_BatchTimeout (aw_options wk))"
  have ok: "ok w" using sy by (simp add: synced_def)
  have pj: "aw_projection wk = pj" and lp: "aw_lastPosition wk = cp w"
    and size: "0 < op_BatchSize (aw_options wk)" using tr by (simp_all add: tracks_def)
  show ?thesis
  proof (cases "pv_Load env ?ctx w (aw_lastPosition wk) (op_BatchSize (aw_options wk))")
    case (Inl err)
    then show ?thesis using run sy tr by (auto simp: processAsyncBatch_def Let_def)
  next
    case (Inr es)
    note page = load_page [OF ok size Inr, unfolded lp]
    show ?thesis
    proof (cases "es = []")
      case True
      then show ?thesis using run sy tr Inr synced_wait [OF sy] waits [OF ok]
        by (auto simp: processAsyncBatch_def Let_def intro: tracks_cong split: option.splits)
    next
      case ne: False
      show ?thesis
      proof (cases "select_loop (pv_Decrypt env) (shouldHandleEvent pj) 0 es")
        case (Inl derr)
        then have "w' = w" "wk' = setFailedEvent wk (hd es)"
          using run Inr ne pj by (auto simp: processAsyncBatch_def Let_def)
        then show ?thesis using sy tr by simp
      next
        case sel: (Inr ks)
        obtain kept fl where ks: "ks = (kept, fl)" by (rule prod.exhaust)
        have pre: "prefix kept (take (nat (op_BatchSize (aw_options wk)))
             (filter (\<lambda>e. cp w < se_GlobalPosition e) (events w)))"
          and fl: "fl = delivered (pv_Decrypt env) (shouldHandleEvent pj) kept" and kne: "kept \<noteq> []"
          using select_loop_prefix [OF sel [unfolded ks]] ne page by auto
        note adv = checkpoint_advance [OF sy pre kne, folded fl]
        obtain w1 wk1 r1 where ap: "apply_events env ?ctx w wk fl = (w1, wk1, r1)" by (metis prod_cases3)
        note txn = apply_events_txn [OF ok pj ap]
        have wk1: "aw_projection wk1 = pj \<and> aw_options wk1 = aw_options wk \<and> aw_lastPosition wk1 = cp w"
          using apply_events_worker [OF ap] batch [OF ok] pj lp by fastforce
        show ?thesis
        proof (cases "fl = []")
          case True
          then have "w' = save_checkpoint env w (pj_Name pj) (se_GlobalPosition (last kept))"
            "wk' = wk\<lparr>aw_lastPosition := se_GlobalPosition (last kept), aw_lastProcessedAt := pv_now env w'\<rparr>"
            using run Inr ne sel ks pj by (auto simp: processAsyncBatch_def Let_def)
          then show ?thesis using adv [of w w'] ok True tr by (auto simp: tracks_def)
        next
          case False
          show ?thesis
          proof (cases r1)
            case None
            with False have "w' = save_checkpoint env w1 (pj_Name pj) (se_GlobalPosition (last kept))"
              "wk' = (clearFailedEvent wk1)\<lparr>aw_lastPosition := se_GlobalPosition (last kept),
                 aw_lastProcessedAt := pv_now env w'\<rparr>"
              using run Inr ne sel ks pj ap wk1 by (auto simp: processAsyncBatch_def Let_def)
            then show ?thesis
              using adv [of w1 w'] txn None wk1 tr by (simp add: tracks_def clearFailedEvent_def)
          next
            case (Some err)
            with False have "w' = w1" "wk' = wk1"
              using run Inr ne sel ks pj ap by (auto simp: processAsyncBatch_def Let_def)
            then show ?thesis
              using txn Some wk1 tr synced_cong [OF sy, of w1] by (simp add: tracks_def)
          qed
        qed
      qed
    qed
  qed
qed

lemma worker_tick_synced:
  assumes sy: "synced m0 w" and tr: "tracks w wk" and run: "worker_tick env w wk p b = (w', wk', r)"
  shows "synced m0 w' \<and> tracks w' wk' \<and> events w' = events w"
proof (cases "aw_paused wk")
  case True
  then show ?thesis using assms by (auto simp: worker_tick_def)
next
  case False
  obtain w1 wk1 r1 where pb: "processAsyncBatch env w wk = (w1, wk1, r1)" by (metis prod_cases3)
  note inv = processAsyncBatch_synced [OF sy tr pb]
  have sy1: "synced m0 w1" and tr1: "tracks w1 wk1" and ev1: "events w1 = events w" using inv by auto
  have no: "op_OnPoisonEvent (aw_options wk1) = None" using tr1 by (simp add: tracks_def)
  have hp: "handlePoisonEvent env w1 wk2 e = (w1, wk2, False)" if "tracks w1 wk2" for wk2 e
    using that by (simp add: handlePoisonEvent_def tracks_def)
  show ?thesis
  proof (cases r1)
    case None
    then show ?thesis using run False pb inv by (auto simp: worker_tick_def split: if_splits)
  next
    case (Some err)
    note w = synced_wait [OF sy1] waits [of w1] sy1 [unfolded synced_def]
    show ?thesis
      using run False Some inv w tr1
      by (auto simp: worker_tick_def pb Let_def hp intro: tracks_cong split: if_splits)
  qed
qed

text \<open>What other goroutines may do to the world: append events.\<close>

definition appends :: "('w \<Rightarrow> 'w) \<Rightarrow> bool" where
  "appends f \<longleftrightarrow> (\<forall>w. ok w \<longrightarrow> ok (f w) \<and> model (f w) = model w \<and> cp (f w) = cp w \<and>
     appended_after (events w) (events (f w)))"

definition fair :: "'w worker_input list \<Rightarrow> bool" where
  "fair inputs \<longleftrightarrow> (\<forall>f. WWorld f \<in> set inputs \<longrightarrow> appends f)"

lemma synced_append:
  assumes "synced m0 w" and "appends f"
  shows "synced m0 (f w)" and "cp (f w) = cp w"
proof -
  have ok: "ok w" using assms(1) by (simp add: synced_def)
  obtain more where f: "ok (f w)" "model (f w) = model w" "cp (f w) = cp w" "events (f w) = events w @ more"
    and later: "\<forall>e \<in> set more. \<forall>e' \<in> set (events w). se_GlobalPosition e' < se_GlobalPosition e"
    using assms(2) ok by (auto simp: appends_def appended_after_def)
  have "cp w < se_GlobalPosition e" if "e \<in> set more" for e
    using assms(1) later that positive [OF f(1), of e] f(4) by (auto simp: synced_def)
  then have "feed (f w) (cp w) = feed w (cp w)" by (auto simp: feed_def f(4) filter_empty_conv not_le)
  then show "synced m0 (f w)" using assms(1) f by (auto simp: synced_def)
  show "cp (f w) = cp w" by (rule f)
qed

lemma worker_loop_synced:
  assumes "synced m0 w" and "tracks w wk" and "fair inputs"
    and "worker_loop env w wk p b inputs = (w', wk', r)"
  shows "synced m0 w' \<and> tracks w' wk'"
  using assms
proof (induction inputs arbitrary: w wk p b)
  case (Cons i rest)
  have fr: "fair rest" using Cons.prems(3) by (simp add: fair_def)
  show ?case
  proof (cases i)
    case WTick
    obtain w1 wk1 r1 where wt: "worker_tick env w wk p b = (w1, wk1, r1)" by (metis prod_cases3)
    then show ?thesis
      using Cons.prems(4) WTick Cons.IH [OF _ _ fr] worker_tick_synced [OF Cons.prems(1,2) wt]
      by (cases r1) (auto split: prod.splits)
  next
    case (WWorld f)
    then have "appends f" using Cons.prems(3) by (simp add: fair_def)
    then show ?thesis
      using Cons.prems(4) WWorld Cons.IH [OF _ _ fr, of "f w" wk] synced_append [OF Cons.prems(1)]
        tracks_cong [OF Cons.prems(2), of "f w"] by simp
  next
    case WPause
    then show ?thesis using Cons.prems Cons.IH [OF Cons.prems(1) _ fr, of "worker_pause wk"] by simp
  next
    case WResume
    then show ?thesis using Cons.prems Cons.IH [OF Cons.prems(1) _ fr, of "worker_resume wk"] by simp
  qed (use Cons.prems in auto)
qed auto

lemma getCheckpoint_ok:
  assumes "ok w"
  shows "getCheckpointWithRetry env ck w (pj_Name pj) = (w, Inr (cp w))"
  using get_cp [OF assms] by (simp add: getCheckpointWithRetry_def)

text \<open>A worker before its first run: everything but the position, which the run sets.\<close>

definition ready :: "'w async_worker \<Rightarrow> bool" where
  "ready wk \<longleftrightarrow> aw_projection wk = pj \<and> 0 < op_BatchSize (aw_options wk) \<and>
     op_OnPoisonEvent (aw_options wk) = None"

lemma runAsyncWorkerOnce_synced:
  assumes "synced m0 w" and "ready wk" and "fair inputs"
    and "resume \<or> \<not> op_StartFromBeginning (aw_options wk) \<or> cp w = 0"
    and "runAsyncWorkerOnce env w wk resume inputs = (w', wk', r)"
  shows "synced m0 w' \<and> tracks w' wk'"
proof -
  let ?wk = "setState (setState wk ProjectionStateCatchingUp\<lparr>aw_lastPosition := cp w\<rparr>) ProjectionStateRunning"
  have ok: "ok w" using assms(1) by (simp add: synced_def)
  have pj: "aw_projection wk = pj" using assms(2) by (simp add: ready_def)
  have opts: "aw_options (setState wk st) = aw_options wk" "aw_projection (setState wk st) = aw_projection wk" for st
    by (simp_all add: setState_def notifyStateObserver_def Let_def)
  have "tracks w (setState wk ProjectionStateCatchingUp\<lparr>aw_lastPosition := cp w\<rparr>)"
    using assms(2) by (simp add: tracks_def ready_def opts)
  then have tr: "tracks w ?wk" by simp
  have "worker_loop env w ?wk 0 0 inputs = (w', wk', r)"
    using assms(4,5) by (auto simp: runAsyncWorkerOnce_def Let_def opts pj checkpoints getCheckpoint_ok [OF ok] split: if_splits)
  then show ?thesis by (rule worker_loop_synced [OF assms(1) tr assms(3)])
qed

lemma supervise_synced:
  assumes "synced m0 w" and "ready wk" and "\<forall>(inputs, stopped) \<in> set runs. fair inputs"
    and "resume \<or> n > 0 \<or> \<not> op_StartFromBeginning (aw_options wk) \<or> cp w = 0" and "0 \<le> n"
    and "supervise_loop env resume n w wk runs = (w', wk')"
  shows "synced m0 w'"
  using assms
proof (induction runs arbitrary: n w wk)
  case (Cons run runs)
  obtain inputs stopped where run: "run = (inputs, stopped)" by (rule prod.exhaust)
  obtain w1 wk1 r1 where one: "runAsyncWorkerOnce env w wk (resume \<or> n > 0) inputs = (w1, wk1, r1)"
    by (metis prod_cases3)
  have "fair inputs" using Cons.prems(3) run by auto
  then have inv: "synced m0 w1" "tracks w1 wk1"
    using runAsyncWorkerOnce_synced [OF Cons.prems(1,2) _ _ one] Cons.prems(4) by auto
  have rd: "ready (setState wk1 st)" for st
    using inv(2) tracks_update(3) [of w1 wk1 st] by (auto simp: ready_def tracks_def)
  have ih: "synced m0 w'" if "supervise_loop env resume (n + 1) (pv_wait env w1 d) (setState wk1 st) runs = (w', wk')" for d st
    using Cons.IH [of "pv_wait env w1 d" "setState wk1 st" "n + 1"] synced_wait [OF inv(1), of d] rd Cons.prems(3,5) that
    by auto
  show ?case
    using Cons.prems(6) inv(1) ih
    by (auto simp: run one Let_def split: option.splits exit_reason.splits if_splits)
qed simp

text \<open>Progress: what is still to be delivered, and that a tick of an untroubled worker takes a
  page of it.\<close>

definition pending :: "'w \<Rightarrow> stored_event list" where
  "pending w = filter (\<lambda>e. cp w < se_GlobalPosition e) (events w)"

lemma pending_Nil_feed:
  assumes "pending w = []"
  shows "feed w (cp w) = delivered (pv_Decrypt env) (shouldHandleEvent pj) (events w)"
proof -
  have "filter (\<lambda>e. se_GlobalPosition e \<le> cp w) (events w) = events w"
    using assms by (auto simp: pending_def filter_empty_conv filter_id_conv not_less)
  then show ?thesis by (simp add: feed_def)
qed

lemma processAsyncBatch_progress:
  assumes sy: "synced m0 w" and tr: "tracks w wk"
    and ld: "pv_Load env (batch_ctx env w (op_BatchTimeout (aw_options wk))) w (cp w) (op_BatchSize (aw_options wk)) = Inr es"
    and idle: "batch_ctx env w (op_BatchTimeout (aw_options wk)) (pv_wait env w 100000000) = None"
    and dec: "pv_Decrypt env = None" and succ: "\<And>ctx w es. snd (pj_ApplyBatch pj ctx w es) = None"
    and run: "processAsyncBatch env w wk = (w', wk', r)"
  shows "r = None \<and> length (pending w') \<le> length (pending w) - 1 \<and> aw_paused wk' = aw_paused wk \<and>
    aw_state wk' = aw_state wk \<and> aw_options wk' = aw_options wk"
proof -
  have ok: "ok w" using sy by (simp add: synced_def)
  have pj: "aw_projection wk = pj" and lp: "aw_lastPosition wk = cp w"
    and size: "0 < op_BatchSize (aw_options wk)" using tr by (simp_all add: tracks_def)
  let ?n = "nat (op_BatchSize (aw_options wk))"
  have es: "es = take ?n (pending w)" using load_page [OF ok size ld] by (simp add: pending_def)
  note inv = processAsyncBatch_synced [OF sy tr run]
  show ?thesis
  proof (cases "pending w = []")
    case True
    then have "w' = pv_wait env w 100000000" "wk' = wk" "r = None"
      using run ld idle es lp by (auto simp: processAsyncBatch_def Let_def)
    then show ?thesis using True waits [OF ok, of 100000000] by (simp add: pending_def)
  next
    case ne: False
    then have esne: "es \<noteq> []" using es size by simp
    let ?ctx = "batch_ctx env w (op_BatchTimeout (aw_options wk))"
    let ?fl = "delivered None (shouldHandleEvent pj) es"
    obtain w1 where ab: "pj_ApplyBatch pj ?ctx w ?fl = (w1, None)" by (metis prod.collapse succ)
    have ev: "\<exists>q. r = None \<and> cp w' = se_GlobalPosition (last es) \<and> wk' = wk\<lparr>aw_lastPosition := cp w',
        aw_failedEvent := fst q, aw_eventsProcessed := fst (snd q), aw_lastProcessedAt := snd (snd q)\<rparr>"
    proof (cases "?fl = []")
      case True
      then have eqs: "r = None" "wk' = wk\<lparr>aw_lastPosition := se_GlobalPosition (last es), aw_lastProcessedAt := pv_now env w'\<rparr>"
        using run ld esne lp pj dec by (auto simp: processAsyncBatch_def Let_def select_loop_plain)
      then have "cp w' = se_GlobalPosition (last es)" using inv by (simp add: tracks_def)
      then show ?thesis
        using eqs by (intro exI [of _ "(aw_failedEvent wk, aw_eventsProcessed wk, pv_now env w')"]) simp
    next
      case False
      then have eqs: "r = None" "wk' = wk\<lparr>aw_lastPosition := se_GlobalPosition (last es), aw_failedEvent := None,
          aw_eventsProcessed := aw_eventsProcessed wk + length ?fl, aw_lastProcessedAt := pv_now env w'\<rparr>"
        using run ld esne lp pj dec ab
        by (auto simp: processAsyncBatch_def Let_def select_loop_plain apply_events_def clearFailedEvent_def)
      then have "cp w' = se_GlobalPosition (last es)" using inv by (simp add: tracks_def)
      then show ?thesis
        using eqs by (intro exI [of _ "(None, aw_eventsProcessed wk + length ?fl, pv_now env w')"]) simp
    qed
    have srt: "sorted_wrt (<) (map se_GlobalPosition (pending w))"
      using ascending [OF ok] by (simp add: pending_def sorted_wrt_map sorted_wrt_filter)
    have lt: "cp w < se_GlobalPosition (last es)"
      using last_in_set [OF esne] in_set_takeD [of "last es" ?n "pending w"] by (simp add: es pending_def)
    have "pending w' = filter (\<lambda>e. se_GlobalPosition (last es) < se_GlobalPosition e) (events w)"
      using ev inv by (auto simp: pending_def)
    also have "\<dots> = filter (\<lambda>e. se_GlobalPosition (last es) < se_GlobalPosition e) (pending w)"
      unfolding pending_def using lt by (intro filter_gt_trans [symmetric]) simp
    also have "\<dots> = drop ?n (pending w)"
      unfolding es using size ne by (intro filter_gt_after_take [OF srt]) auto
    finally have "length (pending w') \<le> length (pending w) - 1" using size by simp
    then show ?thesis using ev by auto
  qed
qed

lemma worker_loop_progress:
  assumes "synced m0 w" and "tracks w wk" and "\<not> aw_paused wk" and "op_BatchTimeout (aw_options wk) = d"
    and "op_BatchSize (aw_options wk) = n"
    and ld: "\<And>w p. ok w \<Longrightarrow> \<exists>es. pv_Load env (batch_ctx env w d) w p n = Inr es"
    and idle: "\<And>w. ok w \<Longrightarrow> batch_ctx env w d (pv_wait env w 100000000) = None"
    and dec: "pv_Decrypt env = None" and succ: "\<And>ctx w es. snd (pj_ApplyBatch pj ctx w es) = None"
    and "worker_loop env w wk 0 0 (replicate k WTick) = (w', wk', r)"
  shows "r = None \<and> length (pending w') \<le> length (pending w) - k \<and> synced m0 w' \<and> events w' = events w \<and>
    aw_state wk' = aw_state wk"
  using assms(1-5,10)
proof (induction k arbitrary: w wk)
  case (Suc k)
  obtain w1 wk1 r1 where pb: "processAsyncBatch env w wk = (w1, wk1, r1)" by (metis prod_cases3)
  have ok: "ok w" using Suc.prems(1) by (simp add: synced_def)
  note ready = ld [OF ok, of "cp w"] idle [OF ok]
  have prog: "r1 = None \<and> length (pending w1) \<le> length (pending w) - 1 \<and> aw_paused wk1 = aw_paused wk \<and>
      aw_state wk1 = aw_state wk \<and> aw_options wk1 = aw_options wk"
    using ready Suc.prems(4,5) processAsyncBatch_progress [OF Suc.prems(1,2) _ _ dec succ pb] by metis
  note inv = processAsyncBatch_synced [OF Suc.prems(1,2) pb]
  have "worker_tick env w wk 0 0 = (w1, wk1, Inr (0, 0))"
    using Suc.prems(3) prog by (simp add: worker_tick_def pb)
  then have "worker_loop env w1 wk1 0 0 (replicate k WTick) = (w', wk', r)" using Suc.prems(6) by simp
  with Suc.IH [of w1 wk1] inv prog Suc.prems(3-5) show ?case by auto
qed simp

end

section \<open>The in-memory store provides it\<close>

record 'm memory_world =
  mw_adapter :: memory_adapter
  mw_checkpoints :: checkpoint_store
  mw_model :: 'm
  mw_clock :: time

definition mem_checkpoint_ops :: "('m memory_world) checkpoint_ops" where
  "mem_checkpoint_ops =
     \<lparr>ck_Get = \<lambda>w name. Ckpt_Get (mw_checkpoints w) name,
      ck_Set = \<lambda>w name p. (case Ckpt_Set (mw_clock w) (mw_checkpoints w) name p of
                              (s, r) \<Rightarrow> (w\<lparr>mw_checkpoints := s\<rparr>, r)),
      ck_Delete = \<lambda>w name. (case Ckpt_Delete (mw_checkpoints w) name of (s, r) \<Rightarrow> (w\<lparr>mw_checkpoints := s\<rparr>, r))\<rparr>"

definition mem_projection_env ::
  "('m memory_world \<Rightarrow> ctx) \<Rightarrow> (stored_event \<Rightarrow> error + stored_event) option \<Rightarrow> (string \<Rightarrow> string) \<Rightarrow>
   ('m memory_world) projection_env" where
  "mem_projection_env ctx decrypt summary =
     \<lparr>pv_now = mw_clock, pv_ctx = ctx, pv_wait = \<lambda>w d. w\<lparr>mw_clock := mw_clock w + d\<rparr>,
      pv_Load = \<lambda>c w p n. LoadEventsFromPosition (Some (LoadFromPosition (c w) (mw_adapter w))) p n,
      pv_Decrypt = decrypt, pv_checkpoints = Some mem_checkpoint_ops, pv_panicSummary = summary\<rparr>"

definition checkpoint_of :: "string \<Rightarrow> 'm memory_world \<Rightarrow> nat" where
  "checkpoint_of name w = (case map_of (mw_checkpoints w) name of Some cp \<Rightarrow> cp_Position cp | None \<Rightarrow> 0)"

definition mem_events :: "'m memory_world \<Rightarrow> stored_event list" where
  "mem_events w = ma_globalEvents (mw_adapter w)"

definition mem_ready :: "'m memory_world \<Rightarrow> bool" where
  "mem_ready w \<longleftrightarrow> feed_ready (mw_adapter w)"

lemma LoadFromPosition_ctx:
  "LoadFromPosition ctx a p n = Inr es \<Longrightarrow> ctx = None"
  by (cases ctx) (auto simp: LoadFromPosition_def LoadFromPositionFiltered_def guarded_def)

lemma mem_load_page:
  assumes "mem_ready w" and "0 < n" and "pv_Load (mem_projection_env c d s) ctx w p n = Inr es"
  shows "es = take (nat n) (filter (\<lambda>e. p < se_GlobalPosition e) (mem_events w))"
proof -
  have ld: "LoadFromPosition (ctx w) (mw_adapter w) p n = Inr es"
    using assms(3) by (auto simp: mem_projection_env_def LoadEventsFromPosition_def split: sum.splits)
  then show ?thesis
    using LoadFromPosition_ctx [OF ld] mem_feed.load_page [of "mw_adapter w" n p] assms(1,2)
    by (simp add: mem_ready_def mem_events_def)
qed

interpretation mem_world: projection_world "mem_projection_env c d s" mem_checkpoint_ops name mem_ready mem_events mw_model
  "checkpoint_of name"
proof (unfold_locales, goal_cases)
  case (2 w n ctx p es)
  then show ?case by (rule mem_load_page)
next
  case (6 w p w')
  then show ?case
    by (auto simp: mem_checkpoint_ops_def Ckpt_Set_def checkpoint_of_def mem_ready_def mem_events_def update_conv')
next
  case (7 w w')
  then show ?case
    by (auto simp: mem_checkpoint_ops_def Ckpt_Delete_def checkpoint_of_def mem_ready_def mem_events_def delete_conv')
qed (auto simp: mem_projection_env_def mem_checkpoint_ops_def mem_ready_def mem_events_def checkpoint_of_def
    Ckpt_Get_def feed_ready_def sorted_positions positive_positions split: option.split)

text \<open>A projection that applies a batch in one transaction: on an error the read model is as
  before, on success every event has been applied in order; the log and the checkpoints are not
  its business, and time may pass.\<close>

definition transactional :: "('m memory_world) projection \<Rightarrow> (stored_event \<Rightarrow> 'm \<Rightarrow> 'm) \<Rightarrow> bool" where
  "transactional pj step \<longleftrightarrow> (\<forall>ctx w es. case pj_ApplyBatch pj ctx w es of (w', r) \<Rightarrow>
     \<exists>t. w' = w\<lparr>mw_clock := t, mw_model := (if r = None then fold step es (mw_model w) else mw_model w)\<rparr> \<and>
       (\<forall>e. r = Some e \<longrightarrow> \<not> errors_Is e ErrNotImplemented))"

lemma mem_txn:
  assumes "transactional pj step"
  shows "txn_projection (mem_projection_env c d s) mem_checkpoint_ops pj mem_ready mem_events mw_model
    (checkpoint_of (pj_Name pj)) step"
proof (intro txn_projection.intro txn_projection_axioms.intro)
  show "projection_world (mem_projection_env c d s) mem_checkpoint_ops (pj_Name pj) mem_ready mem_events mw_model
    (checkpoint_of (pj_Name pj))"
    by (rule mem_world.projection_world_axioms)
next
  fix w ctx es w' r
  assume "pj_ApplyBatch pj ctx w es = (w', r)" and rd: "mem_ready w"
  with assms obtain t where
    "w' = w\<lparr>mw_clock := t, mw_model := (if r = None then fold step es (mw_model w) else mw_model w)\<rparr>"
    "\<forall>e. r = Some e \<longrightarrow> \<not> errors_Is e ErrNotImplemented"
    by (fastforce simp: transactional_def split: prod.splits)
  then show "mem_ready w' \<and> mem_events w' = mem_events w \<and>
      checkpoint_of (pj_Name pj) w' = checkpoint_of (pj_Name pj) w \<and>
      (case r of None \<Rightarrow> mw_model w' = fold step es (mw_model w)
       | Some e \<Rightarrow> mw_model w' = mw_model w \<and> \<not> errors_Is e ErrNotImplemented)"
    using rd by (simp add: mem_ready_def mem_events_def checkpoint_of_def split: option.splits)
qed

text \<open>The transactional projections: \<open>refuses\<close> says whether the transaction fails, with which
  application error.\<close>

definition atomic_projection ::
  "string \<Rightarrow> string list \<Rightarrow> ('m \<Rightarrow> stored_event list \<Rightarrow> string option) \<Rightarrow> (stored_event \<Rightarrow> 'm \<Rightarrow> 'm) \<Rightarrow>
   ('m memory_world) projection" where
  "atomic_projection name handled refuses step =
     (let batch = \<lambda>w es. case refuses (mw_model w) es of
            Some msg \<Rightarrow> (w, Some (AppError msg))
          | None \<Rightarrow> (w\<lparr>mw_model := fold step es (mw_model w)\<rparr>, None)
      in \<lparr>pj_Name = name, pj_HandledEvents = handled, pj_Apply = \<lambda>ctx w e. batch w [e],
          pj_ApplyBatch = \<lambda>ctx w es. batch w es, pj_OnEvent = \<lambda>w e. (w, None)\<rparr>)"

lemma atomic_projection_sel [simp]:
  "pj_Name (atomic_projection name handled refuses step) = name"
  "pj_HandledEvents (atomic_projection name handled refuses step) = handled"
  by (simp_all add: atomic_projection_def Let_def)

lemma atomic_projection_transactional:
  fixes step :: "stored_event \<Rightarrow> 'm \<Rightarrow> 'm"
  shows "transactional (atomic_projection name handled refuses step) step"
proof -
  have "\<exists>t. w = w\<lparr>mw_clock := t, mw_model := mw_model w\<rparr>" for w :: "'m memory_world"
    by (rule exI [of _ "mw_clock w"]) simp
  moreover have "\<exists>t. w\<lparr>mw_model := m\<rparr> = w\<lparr>mw_clock := t, mw_model := m\<rparr>" for w :: "'m memory_world" and m
    by (rule exI [of _ "mw_clock w"]) simp
  ultimately show ?thesis
    by (auto simp: transactional_def atomic_projection_def Let_def split: option.split)
qed

interpretation mem_atomic: txn_projection "mem_projection_env c d s" mem_checkpoint_ops
  "atomic_projection name handled refuses step" mem_ready mem_events mw_model "checkpoint_of name" step
  using mem_txn [OF atomic_projection_transactional [of name handled refuses step]] by simp

end
