(* ===== verification/Rebuilder.thy ===== *)
theory Rebuilder
  imports Projection_Laws
begin

text \<open>
  Rebuilding a projection from the log (\<^verbatim>\<open>rebuilder.go\<close>), and the engine's \<^verbatim>\<open>Rebuild\<close> of a
  registered worker (\<^verbatim>\<open>projection_engine.go\<close>).

  The rebuilder shares the environment of the engine.  \<open>clearable\<close> is the type assertion
  \<^verbatim>\<open>projection.(Clearable)\<close>: \<open>None\<close> when the projection has no \<^verbatim>\<open>Clear\<close>.  Progress
  reports only observe and are left out.  The loop over batches takes fuel; one unit per batch and
  one for the empty batch at the end are enough, so more fuel than the log has events always is.
  A panic of the projection is not recovered here and leaves as it is.
\<close>

section \<open>Options\<close>

record rebuild_options =
  ro_DeleteCheckpoint :: bool
  ro_ClearReadModel :: bool
  ro_FromPosition :: nat
  ro_ToPosition :: nat

definition DefaultRebuildOptions :: rebuild_options where
  "DefaultRebuildOptions =
     \<lparr>ro_DeleteCheckpoint = True, ro_ClearReadModel = True, ro_FromPosition = 0, ro_ToPosition = 0\<rparr>"

type_synonym 'w clear_op = "('w \<Rightarrow> 'w \<times> error option) option"

section \<open>Batches\<close>

text \<open>\<^verbatim>\<open>decryptStoredEvents\<close>: every event of the batch, whether the projection handles it or not.\<close>

fun decrypt_all ::
  "(stored_event \<Rightarrow> error + stored_event) option \<Rightarrow> stored_event list \<Rightarrow> error + stored_event list" where
  "decrypt_all None es = Inr es"
| "decrypt_all (Some d) [] = Inr []"
| "decrypt_all (Some d) (e # es) =
     (case d e of
        Inl err \<Rightarrow> Inl (Wrap ''decrypt event at position'' err)
      | Inr dec \<Rightarrow> (case decrypt_all (Some d) es of Inl err \<Rightarrow> Inl err | Inr rest \<Rightarrow> Inr (dec # rest)))"

definition loadEventsFromPosition ::
  "'w projection_env \<Rightarrow> 'w \<Rightarrow> nat \<Rightarrow> int \<Rightarrow> error + stored_event list" where
  "loadEventsFromPosition env w fromPosition limit =
     (case pv_Load env (pv_ctx env) w fromPosition limit of
        Inl err \<Rightarrow> Inl err
      | Inr events \<Rightarrow> decrypt_all (pv_Decrypt env) events)"

fun rebuild_apply_loop ::
  "'w projection \<Rightarrow> ('w \<Rightarrow> ctx) \<Rightarrow> 'w \<Rightarrow> stored_event list \<Rightarrow> 'w \<times> error option" where
  "rebuild_apply_loop pj ctx w [] = (w, None)"
| "rebuild_apply_loop pj ctx w (event # rest) =
     (case pj_Apply pj ctx w event of
        (w', Some err) \<Rightarrow> (w', Some err)
      | (w', None) \<Rightarrow> rebuild_apply_loop pj ctx w' rest)"

definition rebuild_processAsyncBatch ::
  "'w projection_env \<Rightarrow> 'w projection \<Rightarrow> 'w \<Rightarrow> stored_event list \<Rightarrow> 'w \<times> error option" where
  "rebuild_processAsyncBatch env pj w events =
     (let filtered = filter (\<lambda>e. ShouldHandleEventType (pj_HandledEvents pj) (se_Type e)) events
      in if length filtered = 0 then (w, None)
         else (case pj_ApplyBatch pj (pv_ctx env) w filtered of
                 (w', Some err) \<Rightarrow>
                   if errors_Is err ErrNotImplemented then rebuild_apply_loop pj (pv_ctx env) w' filtered
                   else (w', Some err)
               | (w', None) \<Rightarrow> (w', None)))"

definition rebuild_processInlineBatch ::
  "'w projection_env \<Rightarrow> 'w projection \<Rightarrow> 'w \<Rightarrow> stored_event list \<Rightarrow> 'w \<times> error option" where
  "rebuild_processInlineBatch env pj w events =
     rebuild_apply_loop pj (pv_ctx env) w
       (filter (\<lambda>e. ShouldHandleEventType (pj_HandledEvents pj) (se_Type e)) events)"

section \<open>The rebuild\<close>

definition clearReadModel :: "'w clear_op \<Rightarrow> rebuild_options \<Rightarrow> 'w \<Rightarrow> 'w \<times> error option" where
  "clearReadModel clearable options w =
     (if \<not> ro_ClearReadModel options then (w, None)
      else (case clearable of
              None \<Rightarrow> (w, None)
            | Some clear \<Rightarrow>
                (case clear w of
                   (w', Some err) \<Rightarrow> (w', Some (Wrap ''mink: failed to clear read model before rebuild'' err))
                 | (w', None) \<Rightarrow> (w', None))))"

definition up_to :: "nat \<Rightarrow> stored_event list \<Rightarrow> stored_event list" where
  "up_to toPosition events =
     (if toPosition > 0 then filter (\<lambda>e. se_GlobalPosition e \<le> toPosition) events else events)"

definition batch_failure :: "error \<Rightarrow> error" where
  "batch_failure err = (case err of GoPanic r \<Rightarrow> GoPanic r | _ \<Rightarrow> Wrap ''failed to process batch'' err)"

fun rebuild_loop ::
  "nat \<Rightarrow> 'w projection_env \<Rightarrow> int \<Rightarrow> string \<Rightarrow> ('w \<Rightarrow> stored_event list \<Rightarrow> 'w \<times> error option) \<Rightarrow> nat \<Rightarrow> nat \<Rightarrow> 'w \<Rightarrow>
   ('w \<times> error option) option" where
  "rebuild_loop 0 env batchSize name processBatch toPosition position w = None"
| "rebuild_loop (Suc fuel) env batchSize name processBatch toPosition position w =
     (case pv_ctx env w of
        Some e \<Rightarrow> Some (w, Some e)
      | None \<Rightarrow>
          (case loadEventsFromPosition env w position batchSize of
             Inl err \<Rightarrow> Some (w, Some (Wrap ''failed to load events'' err))
           | Inr loaded \<Rightarrow>
               let events = up_to toPosition loaded
               in if length loaded = 0 \<or> length events = 0 then Some (w, None)
                  else (case processBatch w events of
                    (w', Some err) \<Rightarrow> Some (w', Some (batch_failure err))
                  | (w', None) \<Rightarrow>
                      let lastPos = se_GlobalPosition (last events);
                          w'' = save_checkpoint env w' name lastPos
                      in if toPosition > 0 \<and> lastPos \<ge> toPosition then Some (w'', None)
                         else rebuild_loop fuel env batchSize name processBatch toPosition lastPos w'')))"

definition rebuild ::
  "nat \<Rightarrow> 'w projection_env \<Rightarrow> int \<Rightarrow> string \<Rightarrow> ('w \<Rightarrow> stored_event list \<Rightarrow> 'w \<times> error option) \<Rightarrow> rebuild_options \<Rightarrow> 'w \<Rightarrow>
   ('w \<times> error option) option" where
  "rebuild fuel env batchSize name processBatch options w =
     (let w1 = (if ro_DeleteCheckpoint options
                then (case pv_checkpoints env of None \<Rightarrow> w | Some ck \<Rightarrow> fst (ck_Delete ck w name)) else w)
      in rebuild_loop fuel env batchSize name processBatch (ro_ToPosition options) (ro_FromPosition options) w1)"

definition RebuildAsync ::
  "nat \<Rightarrow> 'w projection_env \<Rightarrow> int \<Rightarrow> 'w clear_op \<Rightarrow> 'w projection \<Rightarrow> rebuild_options \<Rightarrow> 'w \<Rightarrow>
   ('w \<times> error option) option" where
  "RebuildAsync fuel env batchSize clearable pj options w =
     (case clearReadModel clearable options w of
        (w1, Some err) \<Rightarrow> Some (w1, Some err)
      | (w1, None) \<Rightarrow> rebuild fuel env batchSize (pj_Name pj) (rebuild_processAsyncBatch env pj) options w1)"

definition RebuildInline ::
  "nat \<Rightarrow> 'w projection_env \<Rightarrow> int \<Rightarrow> 'w clear_op \<Rightarrow> 'w projection \<Rightarrow> rebuild_options \<Rightarrow> 'w \<Rightarrow>
   ('w \<times> error option) option" where
  "RebuildInline fuel env batchSize clearable pj options w =
     (case clearReadModel clearable options w of
        (w1, Some err) \<Rightarrow> Some (w1, Some err)
      | (w1, None) \<Rightarrow> rebuild fuel env batchSize (pj_Name pj) (rebuild_processInlineBatch env pj) options w1)"

text \<open>The engine rebuilds a worker that is between two batches; the deferred function restores
  the pause flag and sets the state on every way out.\<close>

definition restore_worker :: "bool \<Rightarrow> 'w async_worker \<Rightarrow> 'w async_worker" where
  "restore_worker wasPaused wk =
     setState (wk\<lparr>aw_paused := wasPaused\<rparr>) (if wasPaused then ProjectionStatePaused else ProjectionStateRunning)"

definition Rebuild ::
  "nat \<Rightarrow> 'w projection_env \<Rightarrow> 'w clear_op \<Rightarrow> rebuild_options \<Rightarrow> 'w \<Rightarrow> 'w async_worker \<Rightarrow>
   ('w \<times> 'w async_worker \<times> error option) option" where
  "Rebuild fuel env clearable options w wk =
     (let wasPaused = aw_paused wk;
          wk1 = setState (wk\<lparr>aw_paused := True\<rparr>) ProjectionStateRebuilding
      in (case RebuildAsync fuel env 1000 clearable (aw_projection wk) options w of
            None \<Rightarrow> None
          | Some (w', Some err) \<Rightarrow> Some (w', restore_worker wasPaused wk1, Some err)
          | Some (w', None) \<Rightarrow>
              let pos = (case pv_checkpoints env of
                           None \<Rightarrow> 0
                         | Some ck \<Rightarrow> (case ck_Get ck w' (pj_Name (aw_projection wk)) of Inr p \<Rightarrow> p | Inl _ \<Rightarrow> 0))
              in Some (w', restore_worker wasPaused (wk1\<lparr>aw_lastPosition := pos\<rparr>), None)))"

end
