(* ===== verification/Projection_Properties.thy ===== *)
theory Projection_Properties
  imports Projection_Laws
begin

text \<open>
  What the projection engine guarantees over the in-memory store, and three situations in which
  it does not do what its options are documented to do.
\<close>

section \<open>The read model and the log\<close>

text \<open>The fold of the events the projection handles, decrypted and in log order, up to a position.\<close>

definition projected ::
  "(stored_event \<Rightarrow> error + stored_event) option \<Rightarrow> ('m memory_world) projection \<Rightarrow> (stored_event \<Rightarrow> 'm \<Rightarrow> 'm) \<Rightarrow>
   'm \<Rightarrow> 'm memory_world \<Rightarrow> nat \<Rightarrow> 'm" where
  "projected decrypt pj step m0 w p =
     fold step (delivered decrypt (shouldHandleEvent pj) (filter (\<lambda>e. se_GlobalPosition e \<le> p) (mem_events w))) m0"

definition in_sync ::
  "(stored_event \<Rightarrow> error + stored_event) option \<Rightarrow> ('m memory_world) projection \<Rightarrow> (stored_event \<Rightarrow> 'm \<Rightarrow> 'm) \<Rightarrow>
   'm \<Rightarrow> 'm memory_world \<Rightarrow> bool" where
  "in_sync decrypt pj step m0 w \<longleftrightarrow>
     mem_ready w \<and> mw_model w = projected decrypt pj step m0 w (checkpoint_of (pj_Name pj) w) \<and>
     (checkpoint_of (pj_Name pj) w = 0 \<or> checkpoint_of (pj_Name pj) w \<in> se_GlobalPosition ` set (mem_events w))"

text \<open>Another goroutine appends through the store.\<close>

definition append_events ::
  "(nat \<Rightarrow> string) \<Rightarrow> time \<Rightarrow> string \<Rightarrow> event_record list \<Rightarrow> int \<Rightarrow> 'm memory_world \<Rightarrow> 'm memory_world" where
  "append_events uuid now sid es v w =
     w\<lparr>mw_adapter := fst (Append None uuid now (mw_adapter w) sid es v)\<rparr>"

definition only_appends :: "('m memory_world) worker_input list \<Rightarrow> bool" where
  "only_appends inputs \<longleftrightarrow>
     (\<forall>f. WWorld f \<in> set inputs \<longrightarrow> (\<exists>uuid now sid es v. f = append_events uuid now sid es v))"

lemma Append_extends:
  assumes "feed_ready a"
  shows "feed_ready (fst (Append None uuid now a sid es v)) \<and>
    appended_after (ma_globalEvents a) (ma_globalEvents (fst (Append None uuid now a sid es v)))"
proof -
  have inv: "mem_inv a" and live: "\<not> ma_closed a" using assms by (simp_all add: feed_ready_def)
  obtain a' drops r where run: "Append None uuid now a sid es v = (a', drops, r)" by (metis prod_cases3)
  from inv run show ?thesis
  proof (cases rule: Append_cases)
    case (fail e)
    then show ?thesis using assms run by (simp add: appended_after_def)
  next
    case (success a1)
    let ?new = "new_events uuid sid now (length (ma_globalEvents a)) (int (length (stream_events (ma_globalEvents a) sid))) es"
    have r: "Append None uuid now a sid es v = (a', drops, Inr ?new)" using run success by simp
    have a': "ma_globalEvents a' = ma_globalEvents a @ ?new" "mem_inv a'" "\<not> ma_closed a'"
      using Append_success_log [OF inv r] by (simp_all add: log_append_def)
    have "sorted_wrt (<) (map se_GlobalPosition (ma_globalEvents a @ ?new))"
      using sorted_positions [OF a'(2)] a'(1) by simp
    then have "\<forall>e \<in> set ?new. \<forall>e' \<in> set (ma_globalEvents a). se_GlobalPosition e' < se_GlobalPosition e"
      by (simp add: sorted_wrt_append)
    then show ?thesis using run a' by (auto simp: feed_ready_def appended_after_def)
  qed
qed

lemma mem_env_Decrypt [simp]: "pv_Decrypt (mem_projection_env c d s) = d"
  by (simp add: mem_projection_env_def)

lemma in_sync_synced:
  assumes "transactional pj step"
  shows "in_sync decrypt pj step m0 w \<longleftrightarrow>
    txn_projection.synced (mem_projection_env c decrypt s) pj mem_ready mem_events mw_model
      (checkpoint_of (pj_Name pj)) step m0 w"
  using txn_projection.synced_def [OF mem_txn [OF assms, of c decrypt s], of m0 w]
    txn_projection.feed_def [OF mem_txn [OF assms, of c decrypt s], of w]
  by (simp add: in_sync_def projected_def)

lemma only_appends_fair:
  fixes pj :: "('m memory_world) projection" and inputs :: "('m memory_world) worker_input list"
  assumes "transactional pj step" and "only_appends inputs"
  shows "txn_projection.fair mem_ready mem_events mw_model (checkpoint_of (pj_Name pj)) inputs"
proof -
  note txn = mem_txn [OF assms(1), of "\<lambda>_. None" None "\<lambda>s. s"]
  have "txn_projection.appends mem_ready mem_events mw_model (checkpoint_of (pj_Name pj))
      (append_events uuid now sid es v :: 'm memory_world \<Rightarrow> 'm memory_world)"
    for uuid now sid es v
    unfolding txn_projection.appends_def [OF txn]
    using Append_extends by (auto simp: append_events_def mem_ready_def mem_events_def checkpoint_of_def)
  then show ?thesis unfolding txn_projection.fair_def [OF txn] using assms(2) by (auto simp: only_appends_def)
qed

text \<open>C8: Exactly once.  Let a projection apply its batches in transactions and let its read model
  hold exactly the events up to its checkpoint, kept in the in-memory checkpoint store, which does not
  fail.  Let the worker have a positive batch size and no poison-event handler, and let it not be told to
  start from the beginning when there is a checkpoint already.  (A poison-event handler that skips, and
  starting from the beginning over an existing model, do lose or repeat events; see the theorems on
  them.)  Whatever the worker and its supervisor then go through - ticks, pauses, failed batches, retries, faults, restarts by policy, stops, cancelled
  contexts, batch deadlines, undecryptable events, concurrent appends - the read model afterwards is
  again the fold, in log order, of exactly the handled events up to the stored checkpoint: no event is
  lost, reordered or applied twice.\<close>

theorem projection_exactly_once:
  assumes txn: "transactional pj step" and sync: "in_sync decrypt pj step m0 w"
    and worker: "aw_projection wk = pj" "0 < op_BatchSize (aw_options wk)" "op_OnPoisonEvent (aw_options wk) = None"
    and start: "resumeFirst \<or> \<not> op_StartFromBeginning (aw_options wk) \<or> checkpoint_of (pj_Name pj) w = 0"
    and inputs: "\<forall>(inputs, stopped) \<in> set runs. only_appends inputs"
    and run: "supervise_loop (mem_projection_env ctx decrypt summary) resumeFirst 0 w wk runs = (w', wk')"
  shows "in_sync decrypt pj step m0 w'"
proof -
  note loc = mem_txn [OF txn, of ctx decrypt summary]
  have "txn_projection.ready pj wk" unfolding txn_projection.ready_def [OF loc] using worker by simp
  moreover have "\<forall>(inputs, stopped) \<in> set runs.
      txn_projection.fair mem_ready mem_events mw_model (checkpoint_of (pj_Name pj)) inputs"
    using inputs only_appends_fair [OF txn] by auto
  ultimately show ?thesis
    using txn_projection.supervise_synced [OF loc, of m0 w wk runs resumeFirst 0 w' wk'] sync start run
    by (simp add: in_sync_synced [OF txn, of _ _ _ ctx summary])
qed

text \<open>The demonstration world: the two events of the demonstration log and a projection that
  counts them.\<close>

definition demo_counter :: "(nat memory_world) projection" where
  "demo_counter = atomic_projection ''counter'' [] (\<lambda>m es. None) (\<lambda>e m. m + 1)"

definition demo_world :: "nat memory_world" where
  "demo_world = \<lparr>mw_adapter = demo_adapter, mw_checkpoints = [], mw_model = 0, mw_clock = 0\<rparr>"

definition demo_penv :: "(nat memory_world) projection_env" where
  "demo_penv = mem_projection_env (\<lambda>_. None) None (\<lambda>s. s)"

lemma demo_ready: "mem_ready demo_world" "mem_events demo_world = ma_globalEvents demo_adapter"
  using demo_adapter_inv demo_adapter_log(2) by (simp_all add: demo_world_def mem_ready_def feed_ready_def mem_events_def)

lemma demo_positions: "map se_GlobalPosition (mem_events demo_world) = [1, 2]"
  by (simp add: demo_ready demo_adapter_log mk_stored_def)

lemma demo_in_sync: "in_sync None demo_counter (\<lambda>e m. m + 1) 0 demo_world"
proof -
  have "\<forall>e \<in> set (mem_events demo_world). 0 < se_GlobalPosition e"
    using positive_positions [OF demo_adapter_inv] by (simp add: demo_ready)
  then have "filter (\<lambda>e. se_GlobalPosition e = 0) (mem_events demo_world) = []" by (simp add: filter_empty_conv)
  then show ?thesis
    using demo_ready(1)
    by (simp add: in_sync_def projected_def checkpoint_of_def) (simp add: demo_world_def demo_counter_def)
qed

theorem projection_exactly_once_witness:
  "in_sync None demo_counter (\<lambda>e m. m + 1) 0
     (fst (supervise_loop demo_penv False 0 demo_world (NewAsyncWorker demo_counter DefaultAsyncOptions)
       [([WTick, WWorld (append_events demo_uuid 9 ''Order-1'' [demo_event] 2), WPause, WTick, WResume, WTick, WStop], False)]))"
proof -
  let ?runs = "[([WTick, WWorld (append_events demo_uuid 9 ''Order-1'' [demo_event] 2), WPause, WTick, WResume, WTick, WStop], False)]"
  obtain w' wk' where run: "supervise_loop demo_penv False 0 demo_world
      (NewAsyncWorker demo_counter DefaultAsyncOptions) ?runs = (w', wk')" by (rule prod.exhaust)
  have "transactional demo_counter (\<lambda>e m. m + 1)"
    unfolding demo_counter_def by (rule atomic_projection_transactional)
  moreover have "aw_projection (NewAsyncWorker demo_counter DefaultAsyncOptions) = demo_counter"
    "0 < op_BatchSize (aw_options (NewAsyncWorker demo_counter DefaultAsyncOptions))"
    "op_OnPoisonEvent (aw_options (NewAsyncWorker demo_counter DefaultAsyncOptions)) = None"
    "\<not> op_StartFromBeginning (aw_options (NewAsyncWorker demo_counter DefaultAsyncOptions))"
    by (simp_all add: NewAsyncWorker_def DefaultAsyncOptions_def)
  moreover have "\<forall>(inputs, stopped) \<in> set ?runs. only_appends inputs"
    by (simp add: only_appends_def) blast
  ultimately show ?thesis
    using projection_exactly_once [OF _ demo_in_sync, of "NewAsyncWorker demo_counter DefaultAsyncOptions" False ?runs
        "\<lambda>_. None" "\<lambda>s. s" w' wk'] run
    by (simp add: demo_penv_def)
qed

section \<open>Catching up\<close>

text \<open>C9: Catching up.  Let a transactional projection be in step with its checkpoint and never fail, on a
  store without field encryption.  Let its async worker have a positive batch size, no poison-event handler
  and a batch deadline that is either off or longer than the idle wait of 100ms (with a shorter one an idle
  worker faults), and be neither paused nor told to start from the beginning.  Then it needs at most one
  tick per event that is not projected yet: after as many ticks as the log has events it is still
  running, and the read model is the fold of every event of the log that the projection handles.\<close>

theorem projection_catches_up:
  assumes txn: "transactional pj step" and sync: "in_sync None pj step m0 w"
    and worker: "aw_projection wk = pj" "0 < op_BatchSize (aw_options wk)" "op_OnPoisonEvent (aw_options wk) = None"
      "\<not> aw_paused wk" "\<not> op_StartFromBeginning (aw_options wk)"
    and deadline: "op_BatchTimeout (aw_options wk) \<le> 0 \<or> 100000000 < op_BatchTimeout (aw_options wk)"
    and succ: "\<forall>ctx w es. snd (pj_ApplyBatch pj ctx w es) = None"
    and ticks: "length (mem_events w) \<le> k"
    and run: "runAsyncWorkerOnce (mem_projection_env (\<lambda>_. None) None summary) w wk False (replicate k WTick) = (w', wk', r)"
  shows "r = None \<and> mem_events w' = mem_events w \<and> aw_state wk' = ProjectionStateRunning \<and>
    mw_model w' = fold step (filter (\<lambda>e. shouldHandleEvent pj (se_Type e)) (mem_events w)) m0"
proof -
  let ?env = "mem_projection_env (\<lambda>_. None) None summary" and ?cp = "checkpoint_of (pj_Name pj)"
  let ?wk = "setState (setState wk ProjectionStateCatchingUp\<lparr>aw_lastPosition := ?cp w\<rparr>) ProjectionStateRunning"
  note loc = mem_txn [OF txn, of "\<lambda>_. None" None summary]
  have ready: "mem_ready w" using sync by (simp add: in_sync_def)
  have sy: "txn_projection.synced ?env pj mem_ready mem_events mw_model ?cp step m0 w"
    using sync in_sync_synced [OF txn] by blast
  have wk: "aw_projection ?wk = pj" "aw_options ?wk = aw_options wk" "aw_lastPosition ?wk = ?cp w"
    "\<not> aw_paused ?wk" "aw_state ?wk = ProjectionStateRunning" "pj_Name (aw_projection (setState wk ProjectionStateCatchingUp)) = pj_Name pj"
    "aw_options (setState wk ProjectionStateCatchingUp) = aw_options wk"
    using worker by (simp_all add: setState_def notifyStateObserver_def Let_def)
  then have tr: "txn_projection.tracks pj ?cp w ?wk"
    unfolding txn_projection.tracks_def [OF loc] using worker by simp
  have go: "worker_loop ?env w ?wk 0 0 (replicate k WTick) = (w', wk', r)"
    using run worker wk txn_projection.getCheckpoint_ok [OF loc ready]
    by (simp add: runAsyncWorkerOnce_def Let_def) (simp add: mem_projection_env_def)
  have ctx: "batch_ctx ?env v (op_BatchTimeout (aw_options wk)) v = None"
    "batch_ctx ?env v (op_BatchTimeout (aw_options wk)) (pv_wait ?env v 100000000) = None" for v
    using deadline by (auto simp: batch_ctx_def mem_projection_env_def)
  have ld: "\<exists>es. pv_Load ?env (batch_ctx ?env v (op_BatchTimeout (aw_options wk))) v p (op_BatchSize (aw_options wk)) = Inr es"
    if "mem_ready v" for v p
    using that ctx(1) [of v] worker(2) mem_feed.load_page [of "mw_adapter v"]
    by (simp add: mem_projection_env_def LoadEventsFromPosition_def mem_ready_def)
  note prog = txn_projection.worker_loop_progress [OF loc sy tr wk(4) arg_cong [OF wk(2), of op_BatchTimeout]
      arg_cong [OF wk(2), of op_BatchSize] ld ctx(2) mem_env_Decrypt _ go]
  have res: "r = None \<and> length (txn_projection.pending mem_events ?cp w') \<le> length (txn_projection.pending mem_events ?cp w) - k \<and>
    txn_projection.synced ?env pj mem_ready mem_events mw_model ?cp step m0 w' \<and> mem_events w' = mem_events w \<and>
    aw_state wk' = aw_state ?wk"
    using prog succ by blast
  have "length (txn_projection.pending mem_events ?cp w) \<le> length (mem_events w)"
    unfolding txn_projection.pending_def [OF loc] by simp
  then have nil: "txn_projection.pending mem_events ?cp w' = []" using res ticks by simp
  have "mw_model w' = fold step (txn_projection.feed ?env pj mem_events w' (?cp w')) m0"
    using res txn_projection.synced_def [OF loc] by blast
  then show ?thesis
    using res txn_projection.pending_Nil_feed [OF loc nil] wk(5)
    by (simp add: delivered_None)
qed

definition demo_progress :: "nat memory_world \<times> (nat memory_world) async_worker \<times> exit_reason option" where
  "demo_progress = runAsyncWorkerOnce demo_penv demo_world (NewAsyncWorker demo_counter DefaultAsyncOptions) False
     (replicate 2 WTick)"

theorem projection_catches_up_witness: "mw_model (fst demo_progress) = 2"
proof -
  let ?wk = "NewAsyncWorker demo_counter DefaultAsyncOptions"
  obtain w' wk' r where run: "demo_progress = (w', wk', r)" by (metis prod_cases3)
  have txn: "transactional demo_counter (\<lambda>e m. m + 1)"
    unfolding demo_counter_def by (rule atomic_projection_transactional)
  have wk: "aw_projection ?wk = demo_counter" "0 < op_BatchSize (aw_options ?wk)"
    "op_OnPoisonEvent (aw_options ?wk) = None" "\<not> aw_paused ?wk" "\<not> op_StartFromBeginning (aw_options ?wk)"
    "op_BatchTimeout (aw_options ?wk) \<le> 0 \<or> 100000000 < op_BatchTimeout (aw_options ?wk)"
    by (simp_all add: NewAsyncWorker_def DefaultAsyncOptions_def)
  have "\<forall>ctx w es. snd (pj_ApplyBatch demo_counter ctx w es) = None"
    by (simp add: demo_counter_def atomic_projection_def Let_def)
  moreover have "length (mem_events demo_world) \<le> 2" using arg_cong [OF demo_positions, of length] by simp
  ultimately have "mw_model w' =
      fold (\<lambda>e m. m + 1) (filter (\<lambda>e. shouldHandleEvent demo_counter (se_Type e)) (mem_events demo_world)) 0"
    using projection_catches_up [OF txn demo_in_sync wk] run
    unfolding demo_progress_def demo_penv_def by blast
  also have "filter (\<lambda>e. shouldHandleEvent demo_counter (se_Type e)) (mem_events demo_world) = mem_events demo_world"
    by (simp add: shouldHandleEvent_def ShouldHandleEventType_def demo_counter_def)
  also have "fold (\<lambda>e m. m + 1) (mem_events demo_world) 0 = (2 :: nat)"
    by (simp add: demo_ready demo_adapter_log)
  finally show ?thesis by (simp add: run)
qed

section \<open>Starting and restarting\<close>

text \<open>A checkpoint that cannot be read never restarts a projection from the beginning.  When
  every attempt to read the checkpoint fails with an error that is not a shutdown, a run of the worker
  makes three attempts with the waits of 50 and 100 milliseconds between them, calls the projection not
  once, leaves the worker's position alone and exits faulted with the wrapped error.\<close>

theorem checkpoint_failure_faults:
  assumes "pv_checkpoints env = Some ck" and "\<forall>w. ck_Get ck w (pj_Name (aw_projection wk)) = Inl err"
    and "\<not> isShutdownError err" and "\<forall>w. pv_ctx env w = None"
    and "resume \<or> \<not> op_StartFromBeginning (aw_options wk)"
  shows "runAsyncWorkerOnce env w wk resume inputs =
    (pv_wait env (pv_wait env w 50000000) 100000000,
     setError (setState wk ProjectionStateCatchingUp) (Wrap ''load checkpoint'' err), Some ExitFaulted)"
proof -
  have wk: "aw_projection (setState wk st) = aw_projection wk" "aw_options (setState wk st) = aw_options wk" for st
    by (simp_all add: setState_def notifyStateObserver_def Let_def)
  have "getCheckpointWithRetry env ck w (pj_Name (aw_projection wk)) =
      (pv_wait env (pv_wait env w 50000000) 100000000, Inl err)"
    using assms(2-4) by (simp add: getCheckpointWithRetry_def checkpointReadRetries_def eval_nat_numeral Let_def)
  then show ?thesis
    using assms(1,3,5) by (auto simp: runAsyncWorkerOnce_def Let_def wk)
qed

definition demo_broken_penv :: "(nat memory_world) projection_env" where
  "demo_broken_penv = demo_penv\<lparr>pv_checkpoints := Some (mem_checkpoint_ops\<lparr>ck_Get := \<lambda>w name. Inl (AppError ''down'')\<rparr>)\<rparr>"

theorem checkpoint_failure_faults_witness:
  "snd (snd (runAsyncWorkerOnce demo_broken_penv demo_world (NewAsyncWorker demo_counter DefaultAsyncOptions) True [WTick])) =
     Some ExitFaulted"
proof -
  have "pv_checkpoints demo_broken_penv = Some (mem_checkpoint_ops\<lparr>ck_Get := \<lambda>w name. Inl (AppError ''down'')\<rparr>)"
    "\<forall>w. ck_Get (mem_checkpoint_ops\<lparr>ck_Get := \<lambda>w name. Inl (AppError ''down'')\<rparr>) w
       (pj_Name (aw_projection (NewAsyncWorker demo_counter DefaultAsyncOptions))) = Inl (AppError ''down'')"
    "\<not> isShutdownError (AppError ''down'')" "\<forall>w. pv_ctx demo_broken_penv w = None"
    "True \<or> \<not> op_StartFromBeginning (aw_options (NewAsyncWorker demo_counter DefaultAsyncOptions))"
    by (simp_all add: demo_broken_penv_def demo_penv_def mem_projection_env_def)
  from checkpoint_failure_faults [OF this, of demo_world "[WTick]"] show ?thesis by simp
qed

text \<open>One batch over the in-memory store without field encryption, written out.\<close>

lemma mem_batch_load:
  assumes "mem_ready w" and "0 < n" and "ctx w = None"
  shows "pv_Load (mem_projection_env c d s) ctx w p n =
    Inr (take (nat n) (filter (\<lambda>e. p < se_GlobalPosition e) (mem_events w)))"
  using assms mem_feed.load_page [of "mw_adapter w" n p]
  by (simp add: mem_projection_env_def LoadEventsFromPosition_def mem_ready_def mem_events_def)

lemma batch_ctx_now: "pv_ctx env w = None \<Longrightarrow> batch_ctx env w d w = None"
  by (simp add: batch_ctx_def)

text \<open>StartFromBeginning ignores a stored checkpoint.  On its first run a worker with
  StartFromBeginning starts at position 0 whatever checkpoint is stored, so after a restart of the
  process one tick over a batch that holds the log applies every handled event to the read model the
  earlier process left behind, a second time; the option is documented to start at the beginning when
  no checkpoint exists.\<close>

theorem start_from_beginning_reapplies:
  assumes txn: "transactional pj step" and ready: "mem_ready w"
    and worker: "aw_projection wk = pj" "int (length (mem_events w)) \<le> op_BatchSize (aw_options wk)"
      "\<not> aw_paused wk" "op_StartFromBeginning (aw_options wk)"
    and succ: "\<forall>ctx w es. snd (pj_ApplyBatch pj ctx w es) = None"
    and handled: "e \<in> set (mem_events w)" "shouldHandleEvent pj (se_Type e)"
  shows "mw_model (fst (runAsyncWorkerOnce (mem_projection_env (\<lambda>_. None) None summary) w wk False [WTick])) =
    fold step (filter (\<lambda>e. shouldHandleEvent pj (se_Type e)) (mem_events w)) (mw_model w)"
proof -
  let ?env = "mem_projection_env (\<lambda>_. None) None summary"
  let ?wk = "setState (setState wk ProjectionStateCatchingUp\<lparr>aw_lastPosition := 0\<rparr>) ProjectionStateRunning"
  let ?fl = "filter (\<lambda>e. shouldHandleEvent pj (se_Type e)) (mem_events w)"
  let ?ctx = "batch_ctx ?env w (op_BatchTimeout (aw_options wk))"
  have wk: "aw_projection ?wk = pj" "aw_options ?wk = aw_options wk" "aw_lastPosition ?wk = 0" "\<not> aw_paused ?wk"
    "aw_options (setState wk ProjectionStateCatchingUp) = aw_options wk"
    using worker by (simp_all add: setState_def notifyStateObserver_def Let_def)
  have size: "0 < op_BatchSize (aw_options wk)" using handled(1) worker(2) by (cases "mem_events w") auto
  have all: "filter (\<lambda>e. 0 < se_GlobalPosition e) (mem_events w) = mem_events w"
    using mem_world.positive [OF ready] by (simp add: filter_id_conv)
  have ld: "pv_Load ?env ?ctx w 0 (op_BatchSize (aw_options wk)) = Inr (mem_events w)"
    using mem_batch_load [OF ready size, of ?ctx "\<lambda>_. None" None summary 0] worker(2) unfolding all
    by (simp add: batch_ctx_def mem_projection_env_def)
  have fl: "?fl \<noteq> []" "mem_events w \<noteq> []" using handled by (auto simp: filter_empty_conv)
  obtain w1 where ab: "pj_ApplyBatch pj ?ctx w ?fl = (w1, None)" by (metis prod.collapse succ)
  have m1: "mw_model w1 = fold step ?fl (mw_model w)" "mem_ready w1"
    using txn_projection.batch [OF mem_txn [OF txn] ready ab] by simp_all
  have "fst (processAsyncBatch ?env w ?wk) = save_checkpoint ?env w1 (pj_Name pj) (se_GlobalPosition (last (mem_events w))) \<and>
      snd (snd (processAsyncBatch ?env w ?wk)) = None"
    using ld fl ab wk by (simp add: processAsyncBatch_def Let_def select_loop_plain delivered_None apply_events_def)
  then have "mw_model (fst (processAsyncBatch ?env w ?wk)) = mw_model w1 \<and> snd (snd (processAsyncBatch ?env w ?wk)) = None"
    using mem_world.set_cp [OF m1(2) refl] by (simp add: save_checkpoint_def mem_projection_env_def)
  then show ?thesis
    using m1 worker(4) wk
    by (cases "processAsyncBatch ?env w ?wk") (simp add: runAsyncWorkerOnce_def Let_def worker_tick_def)
qed

definition demo_restarted :: "nat memory_world" where
  "demo_restarted = demo_world\<lparr>mw_checkpoints := [(''counter'', \<lparr>cp_ProjectionName = ''counter'', cp_Position = 2, cp_UpdatedAt = 0\<rparr>)],
     mw_model := 2\<rparr>"

theorem start_from_beginning_reapplies_witness:
  "checkpoint_of ''counter'' demo_restarted = 2 \<and> length (mem_events demo_restarted) = 2 \<and> mw_model demo_restarted = 2 \<and>
   mw_model (fst (runAsyncWorkerOnce demo_penv demo_restarted
     (NewAsyncWorker demo_counter (DefaultAsyncOptions\<lparr>op_StartFromBeginning := True\<rparr>)) False [WTick])) = 4"
proof -
  let ?wk = "NewAsyncWorker demo_counter (DefaultAsyncOptions\<lparr>op_StartFromBeginning := True\<rparr>)"
  have txn: "transactional demo_counter (\<lambda>e m. m + 1)"
    unfolding demo_counter_def by (rule atomic_projection_transactional)
  have ev: "mem_events demo_restarted = ma_globalEvents demo_adapter" "mem_ready demo_restarted" "mw_model demo_restarted = 2"
    using demo_ready by (simp_all add: demo_restarted_def demo_world_def mem_events_def mem_ready_def)
  have wk: "aw_projection ?wk = demo_counter" "int (length (mem_events demo_restarted)) \<le> op_BatchSize (aw_options ?wk)"
    "\<not> aw_paused ?wk" "op_StartFromBeginning (aw_options ?wk)"
    by (simp_all add: NewAsyncWorker_def DefaultAsyncOptions_def ev demo_adapter_log)
  have "\<forall>ctx w es. snd (pj_ApplyBatch demo_counter ctx w es) = None"
    by (simp add: demo_counter_def atomic_projection_def Let_def)
  moreover have "hd (mem_events demo_restarted) \<in> set (mem_events demo_restarted)" by (simp add: ev demo_adapter_log)
  moreover have handles: "shouldHandleEvent demo_counter ty" for ty
    by (simp add: shouldHandleEvent_def ShouldHandleEventType_def demo_counter_def)
  ultimately have "mw_model (fst (runAsyncWorkerOnce demo_penv demo_restarted ?wk False [WTick])) =
      fold (\<lambda>e m. m + 1) (mem_events demo_restarted) 2"
    using start_from_beginning_reapplies [OF txn ev(2) wk] ev(3) unfolding demo_penv_def by (simp add: handles)
  moreover have "checkpoint_of ''counter'' demo_restarted = 2" by (simp add: demo_restarted_def checkpoint_of_def)
  ultimately show ?thesis by (simp add: ev demo_adapter_log)
qed

section \<open>Poison events\<close>

definition next_page :: "'m memory_world \<Rightarrow> ('m memory_world) async_worker \<Rightarrow> stored_event list" where
  "next_page w wk = take (nat (op_BatchSize (aw_options wk)))
     (filter (\<lambda>e. aw_lastPosition wk < se_GlobalPosition e) (mem_events w))"

text \<open>A worker whose retry budget ends with this error.\<close>

definition budget_spent :: "async_options \<Rightarrow> int \<Rightarrow> bool" where
  "budget_spent opts poisonErrors \<longleftrightarrow> op_RetryPolicy opts = None \<and> op_ErrorClassifier opts = None \<and>
     0 < op_MaxRetries opts \<and> op_MaxRetries opts \<le> poisonErrors + 1"

lemma shouldRetry_spent: "budget_spent (aw_options wk) p \<Longrightarrow> \<not> shouldRetry wk (p + 1) err"
  by (simp add: budget_spent_def shouldRetry_def)

lemma setError_sel [simp]:
  "aw_options (setError wk err) = aw_options wk" "aw_projection (setError wk err) = aw_projection wk"
  "aw_failedEvent (setError wk err) = aw_failedEvent wk" "aw_lastPosition (setError wk err) = aw_lastPosition wk"
  "aw_state (setError wk err) = ProjectionStateFaulted" "aw_paused (setError wk err) = aw_paused wk"
  by (simp_all add: setError_def notifyStateObserver_def Let_def)

lemma clearError_sel [simp]:
  "aw_lastPosition (clearError wk) = aw_lastPosition wk" "aw_projection (clearError wk) = aw_projection wk"
  by (simp_all add: clearError_def notifyStateObserver_def Let_def)

text \<open>Skipping a poison event can drop a whole batch.  When a transactional ApplyBatch keeps
  failing because of one event, the engine asks OnPoisonEvent about the last event of the batch only;
  if the handler says skip, the worker's position and its checkpoint move behind that last event, the
  read model is unchanged, and every handled event of the batch - also those that never failed - lies
  behind the checkpoint and will not be delivered again.  OnPoisonEvent is documented to skip the event
  it is given.\<close>

theorem poison_skip_drops_batch:
  assumes ready: "mem_ready w" and live: "\<not> aw_paused wk" and size: "0 < op_BatchSize (aw_options wk)"
    and batch: "fl = filter (\<lambda>e. shouldHandleEvent (aw_projection wk) (se_Type e)) (next_page w wk)" "fl \<noteq> []"
    and rolled_back: "\<forall>ctx. pj_ApplyBatch (aw_projection wk) ctx w fl = (w, Some (AppError msg))"
    and spent: "budget_spent (aw_options wk) p"
    and skip: "op_OnPoisonEvent (aw_options wk) = Some handler" "handler (last fl) (AppError msg) = None"
  shows "\<exists>w' wk'. worker_tick (mem_projection_env (\<lambda>_. None) None summary) w wk p b = (w', wk', Inr (0, 0)) \<and>
    mw_model w' = mw_model w \<and> aw_lastPosition wk' = checkpoint_of (pj_Name (aw_projection wk)) w' \<and>
    (\<forall>e \<in> set fl. se_GlobalPosition e \<le> checkpoint_of (pj_Name (aw_projection wk)) w')"
proof -
  let ?env = "mem_projection_env (\<lambda>_. None) None summary" and ?es = "next_page w wk"
  let ?wk = "setError (setFailedEvent wk (last fl)) (AppError msg)"
  let ?pos = "se_GlobalPosition (last fl)"
  have ld: "pv_Load ?env (batch_ctx ?env w d) w (aw_lastPosition wk) (op_BatchSize (aw_options wk)) = Inr ?es" for d
    unfolding next_page_def
    by (rule mem_batch_load [OF ready size]) (simp add: batch_ctx_now mem_projection_env_def)
  have es: "?es \<noteq> []" using batch by (auto)
  have pb: "processAsyncBatch ?env w wk = (w, setFailedEvent wk (last fl), Some (AppError msg))"
    using ld es rolled_back batch
    by (simp add: processAsyncBatch_def Let_def select_loop_plain delivered_None apply_events_def)
  have opts: "aw_options (setFailedEvent wk e) = aw_options wk" "aw_projection (setFailedEvent wk e) = aw_projection wk"
    "aw_failedEvent (setFailedEvent wk e) = Some e" for e by (simp_all add: setFailedEvent_def)
  have hp: "handlePoisonEvent ?env w ?wk (AppError msg) =
      (save_checkpoint ?env w (pj_Name (aw_projection wk)) ?pos, ?wk\<lparr>aw_lastPosition := ?pos, aw_failedEvent := None\<rparr>, True)"
    using skip by (simp add: handlePoisonEvent_def opts)
  have "worker_tick ?env w wk p b = (save_checkpoint ?env w (pj_Name (aw_projection wk)) ?pos,
      clearError (?wk\<lparr>aw_lastPosition := ?pos, aw_failedEvent := None\<rparr>), Inr (0, 0))"
    using live spent shouldRetry_spent [of ?wk p "AppError msg"]
    by (simp add: worker_tick_def pb Let_def hp opts is_poison_def budget_spent_def)
  moreover have "mw_model (save_checkpoint ?env w (pj_Name (aw_projection wk)) ?pos) = mw_model w"
    "checkpoint_of (pj_Name (aw_projection wk)) (save_checkpoint ?env w (pj_Name (aw_projection wk)) ?pos) = ?pos"
    using mem_world.set_cp [OF ready refl] by (simp_all add: save_checkpoint_def mem_projection_env_def)
  moreover have "sorted_wrt (<) (map se_GlobalPosition fl)"
    using mem_world.ascending [OF ready]
    by (simp add: batch(1) next_page_def sorted_wrt_map sorted_wrt_filter sorted_wrt_take)
  then have "se_GlobalPosition e \<le> ?pos" if "e \<in> set fl" for e using that by (rule sorted_le_last)
  ultimately show ?thesis by simp
qed

definition demo_poison_worker :: "(nat memory_world) async_worker" where
  "demo_poison_worker = NewAsyncWorker (atomic_projection ''counter'' [] (\<lambda>m es. Some ''bad event'') (\<lambda>e m. m + 1))
     (DefaultAsyncOptions\<lparr>op_RetryPolicy := None, op_OnPoisonEvent := Some (\<lambda>e err. None)\<rparr>)"

theorem poison_skip_drops_batch_witness:
  "\<exists>w' wk'. worker_tick demo_penv demo_world demo_poison_worker 2 2 = (w', wk', Inr (0, 0)) \<and>
     mw_model w' = 0 \<and> 2 \<le> checkpoint_of ''counter'' w'"
proof -
  let ?pj = "atomic_projection ''counter'' [] (\<lambda>m es. Some ''bad event'') (\<lambda>e m. m + 1 :: nat)"
  have wk: "aw_projection demo_poison_worker = ?pj" "\<not> aw_paused demo_poison_worker"
    "0 < op_BatchSize (aw_options demo_poison_worker)" "budget_spent (aw_options demo_poison_worker) 2"
    "op_OnPoisonEvent (aw_options demo_poison_worker) = Some (\<lambda>e err. None)"
    by (simp_all add: demo_poison_worker_def NewAsyncWorker_def DefaultAsyncOptions_def budget_spent_def)
  have "next_page demo_world demo_poison_worker = ma_globalEvents demo_adapter"
    by (simp add: next_page_def demo_ready demo_adapter_log demo_poison_worker_def NewAsyncWorker_def
        DefaultAsyncOptions_def mk_stored_def)
  then have fl: "ma_globalEvents demo_adapter =
      filter (\<lambda>e. shouldHandleEvent (aw_projection demo_poison_worker) (se_Type e)) (next_page demo_world demo_poison_worker)"
    by (simp add: wk shouldHandleEvent_def ShouldHandleEventType_def)
  have ne: "ma_globalEvents demo_adapter \<noteq> []" by (simp add: demo_adapter_log)
  have fails: "\<forall>ctx. pj_ApplyBatch (aw_projection demo_poison_worker) ctx demo_world (ma_globalEvents demo_adapter) =
      (demo_world, Some (AppError ''bad event''))"
    by (simp add: wk atomic_projection_def Let_def)
  obtain w' wk' where res: "worker_tick demo_penv demo_world demo_poison_worker 2 2 = (w', wk', Inr (0, 0))"
    "mw_model w' = mw_model demo_world" "aw_lastPosition wk' = checkpoint_of ''counter'' w'"
    "\<forall>e \<in> set (ma_globalEvents demo_adapter). se_GlobalPosition e \<le> checkpoint_of ''counter'' w'"
    using poison_skip_drops_batch [OF demo_ready(1) wk(2,3) fl ne fails wk(4,5) refl, of "\<lambda>s. s" 2]
    by (auto simp: demo_penv_def wk(1))
  have "2 \<le> checkpoint_of ''counter'' w'" using res(4) by (simp add: demo_adapter_log mk_stored_def)
  then show ?thesis using res by (simp add: demo_world_def)
qed

text \<open>A panic in the projection is recovered before the failing event is recorded, so however often
  it repeats, OnPoisonEvent is not asked and the worker faults.\<close>

theorem panic_never_reaches_poison_handler:
  assumes ready: "mem_ready w" and live: "\<not> aw_paused wk" and size: "0 < op_BatchSize (aw_options wk)"
    and batch: "fl = filter (\<lambda>e. shouldHandleEvent (aw_projection wk) (se_Type e)) (next_page w wk)" "fl \<noteq> []"
    and panics: "\<forall>ctx. pj_ApplyBatch (aw_projection wk) ctx w fl = (w, Some (GoPanic r))"
    and spent: "budget_spent (aw_options wk) p" and fresh: "aw_failedEvent wk = None"
  shows "\<exists>wk'. worker_tick (mem_projection_env (\<lambda>_. None) None summary) w wk p b = (w, wk', Inl ExitFaulted) \<and>
    aw_failedEvent wk' = None \<and> aw_lastPosition wk' = aw_lastPosition wk"
proof -
  let ?env = "mem_projection_env (\<lambda>_. None) None summary"
  let ?err = "panicked_batch summary (pj_Name (aw_projection wk)) fl r"
  have ld: "pv_Load ?env (batch_ctx ?env w d) w (aw_lastPosition wk) (op_BatchSize (aw_options wk)) = Inr (next_page w wk)" for d
    unfolding next_page_def
    by (rule mem_batch_load [OF ready size]) (simp add: batch_ctx_now mem_projection_env_def)
  have es: "next_page w wk \<noteq> []" using batch by auto
  have pb: "processAsyncBatch ?env w wk = (w, wk, Some ?err)"
    using ld es panics batch
    by (simp add: processAsyncBatch_def Let_def select_loop_plain delivered_None apply_events_def)
      (simp add: mem_projection_env_def)
  have "handlePoisonEvent ?env w (setError wk ?err) ?err = (w, setError wk ?err, False)"
    using fresh by (simp add: handlePoisonEvent_def split: option.split)
  then show ?thesis
    using live spent fresh shouldRetry_spent [of "setError wk ?err" p ?err]
    by (simp add: worker_tick_def pb Let_def is_poison_def budget_spent_def panicked_batch_def)
qed

section \<open>Idle workers\<close>

lemma idle_tick:
  assumes ready: "mem_ready w" and live: "\<not> aw_paused wk" and size: "0 < op_BatchSize (aw_options wk)"
    and idle: "next_page w wk = []"
    and deadline: "0 < op_BatchTimeout (aw_options wk)" "op_BatchTimeout (aw_options wk) \<le> 100000000"
  shows "processAsyncBatch (mem_projection_env (\<lambda>_. None) None summary) w wk =
    (w\<lparr>mw_clock := mw_clock w + 100000000\<rparr>, wk, Some ErrContextDeadlineExceeded)"
proof -
  let ?env = "mem_projection_env (\<lambda>_. None) None summary"
  have ld: "pv_Load ?env (batch_ctx ?env w d) w (aw_lastPosition wk) (op_BatchSize (aw_options wk)) = Inr []" for d
    unfolding idle [symmetric] next_page_def
    by (rule mem_batch_load [OF ready size]) (simp add: batch_ctx_now mem_projection_env_def)
  have ctx: "batch_ctx ?env w (op_BatchTimeout (aw_options wk)) (pv_wait ?env w 100000000) = Some ErrContextDeadlineExceeded"
    using deadline by (simp add: batch_ctx_def mem_projection_env_def)
  have wt: "pv_wait ?env w 100000000 = w\<lparr>mw_clock := mw_clock w + 100000000\<rparr>" by (simp add: mem_projection_env_def)
  show ?thesis using ld ctx by (simp add: processAsyncBatch_def Let_def wt)
qed

text \<open>An idle projection faults.  With a batch deadline of at most the idle wait of 100
  milliseconds, a worker that has nothing to do runs into its own deadline in the idle wait; the error
  counts against the poison budget, and after MaxRetries idle ticks the worker has faulted although no
  event failed - none was even delivered.  The idle wait is meant to be a normal outcome of a batch.\<close>

theorem idle_deadline_faults:
  assumes "mem_ready w" and "\<not> aw_paused wk" and "0 < op_BatchSize (aw_options wk)" and "next_page w wk = []"
    and "0 < op_BatchTimeout (aw_options wk)" and "op_BatchTimeout (aw_options wk) \<le> 100000000"
    and "op_RetryPolicy (aw_options wk) = None" and "op_ErrorClassifier (aw_options wk) = None"
    and "op_OnPoisonEvent (aw_options wk) = None" and "op_MaxRetries (aw_options wk) = p + int (Suc k)" and "0 \<le> p"
  shows "\<exists>w' wk'. worker_loop (mem_projection_env (\<lambda>_. None) None summary) w wk p b (replicate (Suc k) WTick @ rest) =
      (w', wk', Some ExitFaulted) \<and> aw_state wk' = ProjectionStateFaulted \<and> mw_model w' = mw_model w"
  using assms
proof (induction k arbitrary: w wk p b)
  case 0
  let ?env = "mem_projection_env (\<lambda>_. None) None summary" and ?wk = "setError wk ErrContextDeadlineExceeded"
  have "\<not> shouldRetry ?wk (p + 1) ErrContextDeadlineExceeded" using 0 by (simp add: shouldRetry_def)
  moreover have "handlePoisonEvent ?env w ?wk e = (w, ?wk, False)" for w e using 0 by (simp add: handlePoisonEvent_def)
  ultimately show ?case
    using 0 by (simp add: worker_tick_def idle_tick [OF 0(1-6)] Let_def is_poison_def)
next
  case (Suc k)
  let ?env = "mem_projection_env (\<lambda>_. None) None summary" and ?wk = "setError wk ErrContextDeadlineExceeded"
  let ?w1 = "w\<lparr>mw_clock := mw_clock w + 100000000\<rparr>"
  let ?w2 = "?w1\<lparr>mw_clock := mw_clock ?w1 + backoff_wait ?wk (b + 1)\<rparr>"
  have "shouldRetry ?wk (p + 1) ErrContextDeadlineExceeded" using Suc.prems by (simp add: shouldRetry_def)
  moreover have "pv_wait ?env ?w1 (backoff_wait ?wk (b + 1)) = ?w2" by (simp add: mem_projection_env_def)
  ultimately have tick: "worker_tick ?env w wk p b = (?w2, ?wk, Inr (p + 1, b + 1))"
    using Suc.prems by (simp add: worker_tick_def idle_tick [OF Suc.prems(1-6)] Let_def is_poison_def)
  have "mem_ready ?w2" "next_page ?w2 ?wk = []"
    using Suc.prems(1,4) by (simp_all add: mem_ready_def next_page_def mem_events_def)
  then show ?case
    using Suc.IH [of ?w2 ?wk "p + 1" "b + 1"] Suc.prems by (simp add: tick algebra_simps)
qed

definition demo_idle_worker :: "(nat memory_world) async_worker" where
  "demo_idle_worker = (NewAsyncWorker demo_counter
     (DefaultAsyncOptions\<lparr>op_RetryPolicy := None, op_BatchTimeout := 50000000\<rparr>))\<lparr>aw_lastPosition := 2\<rparr>"

theorem idle_deadline_faults_witness:
  "\<exists>w' wk'. worker_loop demo_penv demo_world demo_idle_worker 0 0 [WTick, WTick, WTick] = (w', wk', Some ExitFaulted) \<and>
     aw_state wk' = ProjectionStateFaulted"
proof -
  have wk: "\<not> aw_paused demo_idle_worker" "0 < op_BatchSize (aw_options demo_idle_worker)"
    "next_page demo_world demo_idle_worker = []" "0 < op_BatchTimeout (aw_options demo_idle_worker)"
    "op_BatchTimeout (aw_options demo_idle_worker) \<le> 100000000" "op_RetryPolicy (aw_options demo_idle_worker) = None"
    "op_ErrorClassifier (aw_options demo_idle_worker) = None" "op_OnPoisonEvent (aw_options demo_idle_worker) = None"
    "op_MaxRetries (aw_options demo_idle_worker) = 0 + int (Suc 2)" "(0 :: int) \<le> 0"
    by (simp_all add: demo_idle_worker_def NewAsyncWorker_def DefaultAsyncOptions_def next_page_def demo_ready
        demo_adapter_log mk_stored_def)
  have "replicate (Suc 2) WTick @ [] = [WTick, WTick, WTick :: (nat memory_world) worker_input]" by (simp add: eval_nat_numeral)
  then show ?thesis
    using idle_deadline_faults [OF demo_ready(1) wk, of "\<lambda>s. s" 0 "[]"] unfolding demo_penv_def by auto
qed

end
