(* ===== verification/Rebuild_Properties.thy ===== *)
theory Rebuild_Properties
  imports Rebuilder Projection_Properties
begin

text \<open>
  What a rebuild leaves behind.  The locale of transactional projections is extended by the rebuild
  loop: it keeps the read model equal to the fold up to the checkpoint at every batch, so a rebuild
  that succeeds ends with the whole log and one that fails ends with a prefix.  The properties
  are stated over the in-memory store.
\<close>

section \<open>The loop keeps the read model in step\<close>

text \<open>Decryption changes payload and metadata only.\<close>

definition faithful_decrypt :: "(stored_event \<Rightarrow> error + stored_event) option \<Rightarrow> bool" where
  "faithful_decrypt decrypt \<longleftrightarrow> (\<forall>d e e'. decrypt = Some d \<longrightarrow> d e = Inr e' \<longrightarrow>
     se_GlobalPosition e' = se_GlobalPosition e \<and> se_Type e' = se_Type e)"

lemma plain_sel:
  assumes "faithful_decrypt decrypt"
  shows "se_GlobalPosition (plain decrypt e) = se_GlobalPosition e" "se_Type (plain decrypt e) = se_Type e"
  using assms by (auto simp: plain_def faithful_decrypt_def split: option.split sum.split)

lemma decrypt_all_plain: "decrypt_all decrypt es = Inr es' \<Longrightarrow> es' = map (plain decrypt) es"
proof (cases decrypt)
  case (Some d)
  assume "decrypt_all decrypt es = Inr es'"
  then show ?thesis
    unfolding Some by (induction es arbitrary: es') (auto simp: plain_def split: sum.splits)
qed (auto simp: plain_def map_idI)

lemma delivered_plain:
  assumes "faithful_decrypt decrypt"
  shows "filter (\<lambda>e. h (se_Type e)) (map (plain decrypt) es) = delivered decrypt h es"
  by (induction es) (simp_all add: delivered_def plain_sel [OF assms])

lemma up_to_prefix:
  assumes "sorted_wrt (<) (map se_GlobalPosition es)"
  shows "prefix (up_to p es) es"
proof (cases "p > 0")
  case True
  have "prefix (filter (\<lambda>e. se_GlobalPosition e \<le> p) es) es"
    using assms
  proof (induction es)
    case (Cons e es)
    show ?case
    proof (cases "se_GlobalPosition e \<le> p")
      case False
      with Cons.prems have "filter (\<lambda>e. se_GlobalPosition e \<le> p) es = []" by (force simp: filter_empty_conv)
      with False show ?thesis by simp
    qed (use Cons in simp)
  qed simp
  with True show ?thesis by (simp add: up_to_def)
qed (simp add: up_to_def)

context txn_projection
begin

lemma rebuild_batch_txn:
  assumes "ok w" and "rebuild_processAsyncBatch env pj w es = (w', r)"
  shows "ok w' \<and> events w' = events w \<and> cp w' = cp w \<and>
    (case r of None \<Rightarrow> model w' = fold step (filter (\<lambda>e. shouldHandleEvent pj (se_Type e)) es) (model w)
     | Some e \<Rightarrow> model w' = model w)"
proof -
  let ?fl = "filter (\<lambda>e. shouldHandleEvent pj (se_Type e)) es"
  obtain w1 r1 where ab: "pj_ApplyBatch pj (pv_ctx env) w ?fl = (w1, r1)" by (rule prod.exhaust)
  show ?thesis
    using assms batch [OF assms(1) ab] ab
    by (auto simp: rebuild_processAsyncBatch_def Let_def shouldHandleEvent_def split: if_splits option.splits)
qed

lemma pending_shrinks:
  assumes "prefix kept (take n (filter (\<lambda>e. cp w < se_GlobalPosition e) (events w)))" and "kept \<noteq> []"
    and "events w2 = events w" and "cp w2 = se_GlobalPosition (last kept)"
  shows "length (pending w2) < length (pending w)"
proof -
  have "last kept \<in> set (take n (pending w))"
    using assms(1,2) by (metis last_in_set pending_def set_mono_prefix subsetD)
  then have mem: "last kept \<in> set (pending w)" by (rule in_set_takeD)
  then have "cp w < se_GlobalPosition (last kept)" by (simp add: pending_def)
  then have "pending w2 = filter (\<lambda>e. se_GlobalPosition (last kept) < se_GlobalPosition e) (pending w)"
    by (simp add: pending_def assms(3,4) filter_gt_trans less_imp_le del: filter_filter)
  then show ?thesis using length_filter_less [OF mem, of "\<lambda>e. se_GlobalPosition (last kept) < se_GlobalPosition e"] by simp
qed

definition calm :: "int \<Rightarrow> bool" where
  "calm n \<longleftrightarrow> (\<forall>w. pv_ctx env w = None) \<and> pv_Decrypt env = None \<and>
     (\<forall>w p. ok w \<longrightarrow> (\<exists>es. pv_Load env (pv_ctx env) w p n = Inr es)) \<and>
     (\<forall>ctx w es. snd (pj_ApplyBatch pj ctx w es) = None)"

lemma calm_load: "calm n \<Longrightarrow> ok w \<Longrightarrow> loadEventsFromPosition env w p n \<noteq> Inl err"
  unfolding calm_def loadEventsFromPosition_def by (metis decrypt_all.simps(1) sum.distinct(1) sum.simps(6))

lemma calm_batch: "calm n \<Longrightarrow> snd (rebuild_processAsyncBatch env pj w es) = None"
  by (auto simp: calm_def rebuild_processAsyncBatch_def Let_def split: prod.split option.split) (metis option.distinct(1) snd_conv)+

lemma rebuild_loop_synced:
  assumes faith: "faithful_decrypt (pv_Decrypt env)" and size: "0 < n"
    and "synced m0 w" and "length (pending w) < fuel"
  shows "\<exists>w' r. rebuild_loop fuel env n (pj_Name pj) (rebuild_processAsyncBatch env pj) to (cp w) w = Some (w', r) \<and>
    synced m0 w' \<and> events w' = events w \<and> (r = None \<longrightarrow> to = 0 \<longrightarrow> pending w' = []) \<and>
    (calm n \<longrightarrow> r = None)"
  using assms(3,4)
proof (induction fuel arbitrary: w)
  case (Suc fuel)
  have ok: "ok w" using Suc.prems(1) by (simp add: synced_def)
  show ?case
  proof (cases "pv_ctx env w")
    case (Some e)
    then have "\<not> calm n" unfolding calm_def by (metis option.distinct(1))
    then show ?thesis using Suc.prems Some by simp
  next
    case live: None
    show ?thesis
    proof (cases "loadEventsFromPosition env w (cp w) n")
      case (Inl err)
      then show ?thesis using Suc.prems live calm_load [OF _ ok] by auto
    next
      case (Inr loaded)
      then obtain raw where raw: "pv_Load env (pv_ctx env) w (cp w) n = Inr raw"
        and dec: "decrypt_all (pv_Decrypt env) raw = Inr loaded"
        by (auto simp: loadEventsFromPosition_def split: sum.splits)
      have page: "raw = take (nat n) (pending w)" using load_page [OF ok size raw] by (simp add: pending_def)
      have ld: "loaded = map (plain (pv_Decrypt env)) raw" by (rule decrypt_all_plain [OF dec])
      have srt: "sorted_wrt (<) (map se_GlobalPosition raw)"
        using ascending [OF ok] by (simp add: page pending_def sorted_wrt_map sorted_wrt_filter sorted_wrt_take)
      define kept where "kept = up_to to raw"
      have pre: "prefix kept (take (nat n) (filter (\<lambda>e. cp w < se_GlobalPosition e) (events w)))"
        using up_to_prefix [OF srt] by (simp add: kept_def page pending_def)
      have upd: "up_to to loaded = map (plain (pv_Decrypt env)) kept"
        by (simp add: ld kept_def up_to_def filter_map o_def plain_sel [OF faith])
      show ?thesis
      proof (cases "kept = []")
        case True
        moreover have "to = 0 \<longrightarrow> pending w = []" using True size by (cases "to = 0") (simp_all add: kept_def up_to_def page)
        ultimately show ?thesis using Suc.prems live Inr upd by simp
      next
        case ne: False
        then have nel: "loaded \<noteq> []" using upd by (auto simp: up_to_def ld kept_def)
        obtain w1 r1 where pb: "rebuild_processAsyncBatch env pj w (up_to to loaded) = (w1, r1)" by (rule prod.exhaust)
        note txn = rebuild_batch_txn [OF ok pb]
        show ?thesis
        proof (cases r1)
          case (Some err)
          then show ?thesis
            using live Inr pb ne nel upd txn synced_cong [OF Suc.prems(1), of w1] calm_batch [of n w "up_to to loaded"]
            by (auto simp: Let_def)
        next
          case None
          let ?q = "se_GlobalPosition (last kept)" and ?w2 = "save_checkpoint env w1 (pj_Name pj) (se_GlobalPosition (last kept))"
          have q: "se_GlobalPosition (last (up_to to loaded)) = ?q"
            using ne by (simp add: upd last_map plain_sel [OF faith])
          have adv: "synced m0 ?w2" "cp ?w2 = ?q" "events ?w2 = events w"
            using checkpoint_advance [OF Suc.prems(1) pre ne, of w1 ?w2] txn None
            by (simp_all add: upd delivered_plain [OF faith])
          have "length (pending ?w2) < fuel" using pending_shrinks [OF pre ne adv(3,2)] Suc.prems(2) by simp
          note ih = Suc.IH [OF adv(1) this, unfolded adv(2,3)]
          show ?thesis
          proof (cases "to > 0 \<and> ?q \<ge> to")
            case True
            then show ?thesis using live Inr pb None ne nel upd q adv by (simp add: Let_def)
          next
            case False
            then show ?thesis using live Inr pb None ne nel upd q ih by (auto simp: Let_def)
          qed
        qed
      qed
    qed
  qed
qed simp

end

section \<open>A rebuild over the in-memory store\<close>

definition clears_to :: "('m memory_world \<Rightarrow> 'm memory_world \<times> error option) \<Rightarrow> 'm \<Rightarrow> bool" where
  "clears_to clear m0 \<longleftrightarrow> (\<forall>w. clear w = (w\<lparr>mw_model := m0\<rparr>, None))"

lemma restore_worker_sel [simp]:
  "aw_lastPosition (restore_worker b wk) = aw_lastPosition wk" "aw_paused (restore_worker b wk) = b"
  "aw_projection (restore_worker b wk) = aw_projection wk" "aw_options (restore_worker b wk) = aw_options wk"
  "aw_state (restore_worker b wk) = (if b then ProjectionStatePaused else ProjectionStateRunning)"
  by (simp_all add: restore_worker_def setState_def notifyStateObserver_def Let_def)

lemma setState_sel [simp]:
  "aw_lastPosition (setState wk st) = aw_lastPosition wk" "aw_projection (setState wk st) = aw_projection wk"
  "aw_options (setState wk st) = aw_options wk" "aw_state (setState wk st) = st" "aw_paused (setState wk st) = aw_paused wk"
  "aw_supervising (setState wk st) = aw_supervising wk"
  by (simp_all add: setState_def notifyStateObserver_def Let_def)

lemma Rebuild_outcome:
  assumes txn: "transactional pj step" and ready: "mem_ready w" and faith: "faithful_decrypt decrypt"
    and clr: "clears_to clear m0" and fuel: "length (mem_events w) < fuel" and pj: "aw_projection wk = pj"
  obtains w' wk' r where
    "Rebuild fuel (mem_projection_env ctx decrypt summary) (Some clear) DefaultRebuildOptions w wk = Some (w', wk', r)"
    "mem_events w' = mem_events w" "in_sync decrypt pj step m0 w'" "aw_paused wk' = aw_paused wk"
    "aw_projection wk' = pj" "aw_options wk' = aw_options wk"
    "aw_state wk' = (if aw_paused wk then ProjectionStatePaused else ProjectionStateRunning)"
    "aw_lastPosition wk' = (if r = None then checkpoint_of (pj_Name pj) w' else aw_lastPosition wk)"
    "r = None \<Longrightarrow> mw_model w' = fold step (delivered decrypt (shouldHandleEvent pj) (mem_events w)) m0"
    "ctx = (\<lambda>_. None) \<Longrightarrow> decrypt = None \<Longrightarrow> \<forall>ctx w es. snd (pj_ApplyBatch pj ctx w es) = None \<Longrightarrow> r = None"
proof -
  let ?env = "mem_projection_env ctx decrypt summary" and ?cp = "checkpoint_of (pj_Name pj)"
  note loc = mem_txn [OF txn, of ctx decrypt summary]
  let ?wc = "w\<lparr>mw_model := m0\<rparr>"
  let ?w0 = "fst (ck_Delete mem_checkpoint_ops ?wc (pj_Name pj))"
  have rc: "mem_ready ?wc" using ready by (simp add: mem_ready_def)
  have w0: "mem_ready ?w0" "mem_events ?w0 = mem_events w" "mw_model ?w0 = m0" "?cp ?w0 = 0"
    using mem_world.del_cp [OF rc refl, of "pj_Name pj"] by (simp_all add: mem_events_def)
  have "filter (\<lambda>e. se_GlobalPosition e = 0) (mem_events w) = []"
    using mem_world.positive [OF ready] by (force simp: filter_empty_conv)
  then have "in_sync decrypt pj step m0 ?w0" using w0 by (simp add: in_sync_def projected_def)
  then have sy: "txn_projection.synced ?env pj mem_ready mem_events mw_model ?cp step m0 ?w0"
    using in_sync_synced [OF txn] by blast
  have "length (txn_projection.pending mem_events ?cp ?w0) \<le> length (mem_events w)"
    unfolding txn_projection.pending_def [OF loc] using w0(2) by simp
  then have fl: "length (txn_projection.pending mem_events ?cp ?w0) < fuel" using fuel by simp
  have faith': "faithful_decrypt (pv_Decrypt ?env)" using faith by simp
  obtain w' r where rl: "rebuild_loop fuel ?env 1000 (pj_Name pj) (rebuild_processAsyncBatch ?env pj) 0 0 ?w0 = Some (w', r)"
    and sy': "txn_projection.synced ?env pj mem_ready mem_events mw_model ?cp step m0 w'"
    and ev': "mem_events w' = mem_events w" and fin: "r = None \<Longrightarrow> txn_projection.pending mem_events ?cp w' = []"
    and ok: "txn_projection.calm ?env pj mem_ready 1000 \<Longrightarrow> r = None"
    using txn_projection.rebuild_loop_synced [OF loc faith' _ sy fl, of 1000 0] w0(2,4) by auto
  have sync: "in_sync decrypt pj step m0 w'" using sy' in_sync_synced [OF txn] by blast
  have ra: "RebuildAsync fuel ?env 1000 (Some clear) pj DefaultRebuildOptions w = Some (w', r)"
    using rl clr
    by (simp add: RebuildAsync_def clearReadModel_def DefaultRebuildOptions_def clears_to_def rebuild_def)
      (simp add: mem_projection_env_def)
  have get: "ck_Get mem_checkpoint_ops w' (pj_Name pj) = Inr (?cp w')"
    using mem_world.get_cp sync by (auto simp: in_sync_def)
  have cks: "pv_checkpoints ?env = Some mem_checkpoint_ops" by (simp add: mem_projection_env_def)
  let ?wk1 = "setState (wk\<lparr>aw_paused := True\<rparr>) ProjectionStateRebuilding"
  let ?wk' = "restore_worker (aw_paused wk) (case r of None \<Rightarrow> ?wk1\<lparr>aw_lastPosition := ?cp w'\<rparr> | Some e \<Rightarrow> ?wk1)"
  show thesis
  proof (rule that)
    show "Rebuild fuel ?env (Some clear) DefaultRebuildOptions w wk = Some (w', ?wk', r)"
      using ra pj by (cases r) (simp_all add: Rebuild_def Let_def cks get)
    show "mw_model w' = fold step (delivered decrypt (shouldHandleEvent pj) (mem_events w)) m0" if "r = None"
    proof -
      have "mw_model w' = fold step (txn_projection.feed ?env pj mem_events w' (?cp w')) m0"
        using sy' txn_projection.synced_def [OF loc] by blast
      then show ?thesis using txn_projection.pending_Nil_feed [OF loc fin [OF that]] ev' by simp
    qed
    show "r = None" if "ctx = (\<lambda>_. None)" "decrypt = None" "\<forall>ctx w es. snd (pj_ApplyBatch pj ctx w es) = None"
    proof (rule ok)
      show "txn_projection.calm ?env pj mem_ready 1000"
        unfolding txn_projection.calm_def [OF loc]
        using that mem_batch_load [of _ 1000 ctx ctx decrypt summary] by (auto simp: mem_projection_env_def)
    qed
  qed (use ev' sync pj in \<open>simp_all split: option.split\<close>)
qed

text \<open>C10: A rebuild reproduces the projection.  Whatever the read model and the checkpoint were before,
  Rebuild with the default options always returns, successfully unless the context, the decryption or
  the projection fails; when it reports success, the read model is the fold
  of every handled event of the log over the cleared model, the worker's position and the stored
  checkpoint agree with it - so the worker carries on without loss or repetition - and the worker is
  running or paused as before.\<close>

theorem rebuild_reproduces_projection:
  assumes "transactional pj step" and "mem_ready w" and "faithful_decrypt decrypt" and "clears_to clear m0"
    and "length (mem_events w) < fuel" and "aw_projection wk = pj"
  shows "\<exists>w' wk' r. Rebuild fuel (mem_projection_env ctx decrypt summary) (Some clear) DefaultRebuildOptions w wk =
      Some (w', wk', r) \<and> mem_events w' = mem_events w \<and> aw_paused wk' = aw_paused wk \<and>
      (r = None \<longrightarrow> in_sync decrypt pj step m0 w' \<and> aw_lastPosition wk' = checkpoint_of (pj_Name pj) w' \<and>
         mw_model w' = fold step (delivered decrypt (shouldHandleEvent pj) (mem_events w)) m0) \<and>
      (ctx = (\<lambda>_. None) \<and> decrypt = None \<and> (\<forall>ctx w es. snd (pj_ApplyBatch pj ctx w es) = None) \<longrightarrow> r = None)"
proof (rule Rebuild_outcome [OF assms, of ctx summary], goal_cases)
  case (1 w' wk' r)
  then show ?case by (intro exI [of _ w'] exI [of _ wk'] exI [of _ r]) simp
qed

definition demo_clear :: "nat memory_world \<Rightarrow> nat memory_world \<times> error option" where
  "demo_clear w = (w\<lparr>mw_model := 0\<rparr>, None)"

lemma demo_clear: "clears_to demo_clear 0"
  by (simp add: clears_to_def demo_clear_def)

theorem rebuild_reproduces_projection_witness:
  "\<exists>w' wk'. Rebuild 3 demo_penv (Some demo_clear) DefaultRebuildOptions (demo_world\<lparr>mw_model := 77\<rparr>)
     (NewAsyncWorker demo_counter DefaultAsyncOptions) = Some (w', wk', None) \<and> mw_model w' = 2"
proof -
  let ?w = "demo_world\<lparr>mw_model := 77\<rparr>" and ?wk = "NewAsyncWorker demo_counter DefaultAsyncOptions"
  have txn: "transactional demo_counter (\<lambda>e m. m + 1)"
    unfolding demo_counter_def by (rule atomic_projection_transactional)
  have w: "mem_ready ?w" "mem_events ?w = mem_events demo_world"
    using demo_ready by (simp_all add: mem_ready_def mem_events_def)
  have len: "length (mem_events ?w) < 3" using arg_cong [OF demo_positions, of length] w(2) by simp
  have wk: "aw_projection ?wk = demo_counter" by (simp add: NewAsyncWorker_def)
  have ok: "\<forall>ctx w es. snd (pj_ApplyBatch demo_counter ctx w es) = None"
    by (simp add: demo_counter_def atomic_projection_def Let_def)
  have faith: "faithful_decrypt None" by (simp add: faithful_decrypt_def)
  obtain w' wk' r where run: "Rebuild 3 demo_penv (Some demo_clear) DefaultRebuildOptions ?w ?wk = Some (w', wk', r)" "r = None"
    "mw_model w' = fold (\<lambda>e m. m + 1) (delivered None (shouldHandleEvent demo_counter) (mem_events ?w)) 0"
    using rebuild_reproduces_projection [OF txn w(1) faith demo_clear len wk, of "\<lambda>_. None" "\<lambda>s. s"] ok
    unfolding demo_penv_def by blast
  have "delivered None (shouldHandleEvent demo_counter) (mem_events ?w) = mem_events demo_world"
    by (simp add: delivered_None w(2) shouldHandleEvent_def ShouldHandleEventType_def demo_counter_def)
  then have "mw_model w' = fold (\<lambda>e m. m + 1) (mem_events demo_world) 0" using run(3) by simp
  then have "mw_model w' = 2" by (simp add: demo_ready demo_adapter_log)
  then show ?thesis using run by blast
qed

section \<open>A rebuild that fails\<close>

lemma mem_batch_success:
  assumes txn: "transactional pj step" and ready: "mem_ready w" and pj: "aw_projection wk = pj"
    and size: "0 < op_BatchSize (aw_options wk)" and page: "next_page w wk \<noteq> []"
    and run: "processAsyncBatch (mem_projection_env (\<lambda>_. None) None summary) w wk = (w', wk', None)"
  shows "mw_model w' = fold step (filter (\<lambda>e. shouldHandleEvent pj (se_Type e)) (next_page w wk)) (mw_model w) \<and>
    checkpoint_of (pj_Name pj) w' = se_GlobalPosition (last (next_page w wk)) \<and> mem_events w' = mem_events w"
proof -
  let ?env = "mem_projection_env (\<lambda>_. None) None summary" and ?es = "next_page w wk"
  let ?ctx = "batch_ctx ?env w (op_BatchTimeout (aw_options wk))"
  let ?fl = "filter (\<lambda>e. shouldHandleEvent pj (se_Type e)) ?es"
  have ld: "pv_Load ?env ?ctx w (aw_lastPosition wk) (op_BatchSize (aw_options wk)) = Inr ?es"
    unfolding next_page_def
    by (rule mem_batch_load [OF ready size]) (simp add: batch_ctx_now mem_projection_env_def)
  have save: "mw_model (save_checkpoint ?env v (pj_Name pj) p) = mw_model v"
    "checkpoint_of (pj_Name pj) (save_checkpoint ?env v (pj_Name pj) p) = p"
    "mem_events (save_checkpoint ?env v (pj_Name pj) p) = mem_events v" if "mem_ready v" for v p
    using mem_world.set_cp [OF that refl] by (simp_all add: save_checkpoint_def mem_projection_env_def)
  show ?thesis
  proof (cases "?fl = []")
    case True
    then have "w' = save_checkpoint ?env w (pj_Name pj) (se_GlobalPosition (last ?es))"
      using run ld page pj by (auto simp: processAsyncBatch_def Let_def select_loop_plain delivered_None)
    then show ?thesis using True save [OF ready] by simp
  next
    case False
    obtain w1 r1 where ab: "pj_ApplyBatch pj ?ctx w ?fl = (w1, r1)" by (rule prod.exhaust)
    note law = txn_projection.batch [OF mem_txn [OF txn] ready ab]
    show ?thesis
    proof (cases r1)
      case None
      then have "w' = save_checkpoint ?env w1 (pj_Name pj) (se_GlobalPosition (last ?es))"
        using run ld page pj False ab
        by (auto simp: processAsyncBatch_def Let_def select_loop_plain delivered_None apply_events_def)
      then show ?thesis using law None save [of w1] by simp
    next
      case (Some e)
      then obtain wk1 e' where "apply_events ?env ?ctx w wk ?fl = (w1, wk1, Some e')"
        using apply_events_error [of wk ?ctx w ?fl w1 e] ab law pj by auto
      then have False
        using run ld page pj False by (simp add: processAsyncBatch_def Let_def select_loop_plain delivered_None)
      then show ?thesis ..
    qed
  qed
qed

text \<open>A failed rebuild loses events.  When Rebuild returns an error, the read model has been cleared
  and rebuilt only up to the checkpoint the rebuilder reached, but the worker is set running again at
  the position it had before.  Its next successful batch - here after another append - applies the
  events behind that old position to the partial model and stores their position as the checkpoint, so
  the handled events between the rebuilder's checkpoint and the old position are missing from the read
  model for good, also after a restart.\<close>

theorem failed_rebuild_skips_events:
  assumes txn: "transactional pj step" and ready: "mem_ready w" and clr: "clears_to clear m0"
    and fuel: "length (mem_events w) < fuel" and pj: "aw_projection wk = pj" and size: "0 < op_BatchSize (aw_options wk)"
    and failed: "Rebuild fuel (mem_projection_env (\<lambda>_. None) None summary) (Some clear) DefaultRebuildOptions w wk =
      Some (w1, wk1, Some err)"
    and page: "next_page (append_events uuid now sid es v w1) wk1 \<noteq> []"
    and batch: "processAsyncBatch (mem_projection_env (\<lambda>_. None) None summary) (append_events uuid now sid es v w1) wk1 =
      (w2, wk2, None)"
  shows "mw_model w2 =
      fold step (filter (\<lambda>e. shouldHandleEvent pj (se_Type e)) (next_page (append_events uuid now sid es v w1) wk1))
        (projected None pj step m0 w (checkpoint_of (pj_Name pj) w1)) \<and>
    checkpoint_of (pj_Name pj) w2 = se_GlobalPosition (last (next_page (append_events uuid now sid es v w1) wk1)) \<and>
    (\<forall>e \<in> set (next_page (append_events uuid now sid es v w1) wk1). aw_lastPosition wk < se_GlobalPosition e) \<and>
    aw_paused wk1 = aw_paused wk"
proof -
  have faith: "faithful_decrypt None" by (simp add: faithful_decrypt_def)
  have out: "mem_events w1 = mem_events w \<and> in_sync None pj step m0 w1 \<and> aw_paused wk1 = aw_paused wk \<and>
      aw_projection wk1 = pj \<and> aw_options wk1 = aw_options wk \<and> aw_lastPosition wk1 = aw_lastPosition wk"
    by (rule Rebuild_outcome [OF txn ready faith clr fuel pj, of "\<lambda>_. None" summary]) (use failed in auto)
  let ?w = "append_events uuid now sid es v w1"
  have rd: "mem_ready ?w" using out Append_extends by (auto simp: in_sync_def mem_ready_def append_events_def)
  have mdl: "mw_model ?w = projected None pj step m0 w (checkpoint_of (pj_Name pj) w1)"
    using out by (simp add: in_sync_def projected_def append_events_def)
  have pos: "aw_lastPosition wk < se_GlobalPosition e" if "e \<in> set (next_page ?w wk1)" for e
    using that out by (auto simp: next_page_def dest: in_set_takeD)
  have "aw_projection wk1 = pj" "0 < op_BatchSize (aw_options wk1)" using out size by simp_all
  from mem_batch_success [OF txn rd this page batch] show ?thesis using mdl pos out by simp
qed

definition demo_picky :: "(nat memory_world) projection" where
  "demo_picky = atomic_projection ''counter'' [] (\<lambda>m es. if length es > 1 then Some ''deadlock'' else None) (\<lambda>e m. m + 1)"

definition demo_picky_worker :: "(nat memory_world) async_worker" where
  "demo_picky_worker = (NewAsyncWorker demo_picky (DefaultAsyncOptions\<lparr>op_BatchSize := 1\<rparr>))\<lparr>aw_lastPosition := 2\<rparr>"

definition demo_failed :: "nat memory_world" where
  "demo_failed = demo_restarted\<lparr>mw_checkpoints := [], mw_model := 0\<rparr>"

definition demo_failed_worker :: "(nat memory_world) async_worker" where
  "demo_failed_worker = restore_worker False (setState (demo_picky_worker\<lparr>aw_paused := True\<rparr>) ProjectionStateRebuilding)"

lemma demo_rebuild_fails:
  "Rebuild 3 demo_penv (Some demo_clear) DefaultRebuildOptions demo_restarted demo_picky_worker =
     Some (demo_failed, demo_failed_worker, Some (Wrap ''failed to process batch'' (AppError ''deadlock'')))"
proof -
  have load: "loadEventsFromPosition demo_penv demo_failed 0 1000 = Inr (ma_globalEvents demo_adapter)"
    using mem_batch_load [of demo_failed 1000 "\<lambda>_. None" "\<lambda>_. None" None "\<lambda>s. s" 0] demo_ready
    by (simp add: demo_failed_def demo_restarted_def demo_world_def loadEventsFromPosition_def demo_penv_def
        mem_ready_def mem_events_def demo_adapter_log mk_stored_def) (simp add: mem_projection_env_def)
  have env: "pv_ctx demo_penv w = None" "pv_checkpoints demo_penv = Some mem_checkpoint_ops" for w
    by (simp_all add: demo_penv_def mem_projection_env_def)
  have del: "ck_Delete mem_checkpoint_ops (demo_restarted\<lparr>mw_model := 0\<rparr>) ''counter'' = (demo_failed, None)"
    by (simp add: mem_checkpoint_ops_def Ckpt_Delete_def demo_failed_def demo_restarted_def)
  have pb: "rebuild_processAsyncBatch demo_penv demo_picky demo_failed (ma_globalEvents demo_adapter) =
      (demo_failed, Some (AppError ''deadlock''))"
    by (simp add: rebuild_processAsyncBatch_def ShouldHandleEventType_def demo_picky_def demo_adapter_log
        atomic_projection_def Let_def)
  have "rebuild_loop 3 demo_penv 1000 ''counter'' (rebuild_processAsyncBatch demo_penv demo_picky) 0 0 demo_failed =
      Some (demo_failed, Some (Wrap ''failed to process batch'' (AppError ''deadlock'')))"
    using load pb by (simp add: eval_nat_numeral env up_to_def batch_failure_def demo_adapter_log Let_def)
  then have "RebuildAsync 3 demo_penv 1000 (Some demo_clear) demo_picky DefaultRebuildOptions demo_restarted =
      Some (demo_failed, Some (Wrap ''failed to process batch'' (AppError ''deadlock'')))"
    using del
    by (simp add: RebuildAsync_def clearReadModel_def DefaultRebuildOptions_def demo_clear_def rebuild_def env)
      (simp add: demo_picky_def)
  moreover have "aw_projection demo_picky_worker = demo_picky" "\<not> aw_paused demo_picky_worker"
    by (simp_all add: demo_picky_worker_def NewAsyncWorker_def)
  ultimately show ?thesis by (simp add: Rebuild_def Let_def demo_failed_worker_def)
qed

theorem failed_rebuild_skips_events_witness:
  "\<exists>w2 wk2. processAsyncBatch demo_penv (append_events demo_uuid 9 ''Order-1'' [demo_event] 2 demo_failed) demo_failed_worker =
      (w2, wk2, None) \<and> checkpoint_of ''counter'' w2 = 3 \<and> mw_model w2 = 1"
proof -
  let ?w = "append_events demo_uuid 9 ''Order-1'' [demo_event] 2 demo_failed"
  let ?new = "mk_stored (demo_uuid 0) ''Order-1'' 9 3 3 demo_event"
  have txn: "transactional demo_picky (\<lambda>e m. m + 1)"
    unfolding demo_picky_def by (rule atomic_projection_transactional)
  have rdy: "mem_ready demo_restarted" "mem_events demo_restarted = ma_globalEvents demo_adapter" "mem_ready demo_failed"
    using demo_ready by (simp_all add: demo_restarted_def demo_failed_def demo_world_def mem_events_def mem_ready_def)
  have len: "length (mem_events demo_restarted) < 3" by (simp add: rdy demo_adapter_log)
  have wk: "aw_projection demo_picky_worker = demo_picky" "0 < op_BatchSize (aw_options demo_picky_worker)"
    by (simp_all add: demo_picky_worker_def NewAsyncWorker_def)
  have log: "mem_events ?w = ma_globalEvents demo_adapter @ [?new]"
    by (simp add: append_events_def mem_events_def demo_failed_def demo_restarted_def demo_world_def demo_adapter_def
        Append_def appendLocked_def checkAppendLocked_def NewAdapter_def CheckVersion_def Let_def mk_stored_def notifySubscribers_def)
  have page: "next_page ?w demo_failed_worker = [?new]"
    unfolding next_page_def log
    by (simp add: demo_failed_worker_def demo_picky_worker_def NewAsyncWorker_def demo_adapter_log mk_stored_def)
  have rd: "mem_ready ?w" using rdy(3) Append_extends by (auto simp: mem_ready_def append_events_def)
  have fwk: "aw_projection demo_failed_worker = demo_picky" "0 < op_BatchSize (aw_options demo_failed_worker)"
    "aw_lastPosition demo_failed_worker = 2"
    by (simp_all add: demo_failed_worker_def demo_picky_worker_def NewAsyncWorker_def)
  have ld: "pv_Load demo_penv (batch_ctx demo_penv ?w d) ?w (aw_lastPosition demo_failed_worker)
      (op_BatchSize (aw_options demo_failed_worker)) = Inr [?new]" for d
    unfolding page [symmetric] next_page_def demo_penv_def
    by (rule mem_batch_load [OF rd fwk(2)]) (simp add: batch_ctx_now mem_projection_env_def)
  have "pv_Decrypt demo_penv = None" by (simp add: demo_penv_def)
  then have "snd (snd (processAsyncBatch demo_penv ?w demo_failed_worker)) = None"
    using ld fwk(1)
    by (simp add: processAsyncBatch_def Let_def select_loop_plain delivered_None apply_events_def
        shouldHandleEvent_def ShouldHandleEventType_def demo_picky_def)
      (simp add: atomic_projection_def)
  then obtain w2 wk2 where pb: "processAsyncBatch demo_penv ?w demo_failed_worker = (w2, wk2, None)"
    by (metis prod.collapse)
  have "mw_model w2 = fold (\<lambda>e m. m + 1) (filter (\<lambda>e. shouldHandleEvent demo_picky (se_Type e)) (next_page ?w demo_failed_worker))
        (projected None demo_picky (\<lambda>e m. m + 1) 0 demo_restarted (checkpoint_of (pj_Name demo_picky) demo_failed)) \<and>
      checkpoint_of (pj_Name demo_picky) w2 = se_GlobalPosition (last (next_page ?w demo_failed_worker))"
    using failed_rebuild_skips_events [OF txn rdy(1) demo_clear len wk demo_rebuild_fails [unfolded demo_penv_def] _
        pb [unfolded demo_penv_def]] page by simp
  moreover have "checkpoint_of (pj_Name demo_picky) demo_failed = 0" by (simp add: checkpoint_of_def demo_failed_def)
  moreover have "projected None demo_picky (\<lambda>e m. m + 1) 0 demo_restarted 0 = 0"
    by (simp add: projected_def rdy demo_adapter_log mk_stored_def)
  ultimately show ?thesis
    using pb page
    by (simp add: shouldHandleEvent_def ShouldHandleEventType_def demo_picky_def)
qed

text \<open>The rebuilder decrypts every event it loads, so one event that cannot be decrypted fails the
  rebuild of every projection, also of one that does not handle it - while the worker passes it by.\<close>

theorem rebuild_needs_unhandled_events:
  assumes "mem_ready w" and "e \<in> set (take 1000 (mem_events w))" and "d e = Inl derr"
    and "\<forall>e \<in> set (take 1000 (mem_events w)). \<not> shouldHandleEvent pj (se_Type e)" and "0 < fuel"
  shows "(\<exists>w' err. RebuildAsync fuel (mem_projection_env (\<lambda>_. None) (Some d) summary) 1000 None pj DefaultRebuildOptions w =
      Some (w', Some (Wrap ''failed to load events'' err))) \<and>
    select_loop (Some d) (shouldHandleEvent pj) 0 (take 1000 (mem_events w)) = Inr (take 1000 (mem_events w), [])"
proof
  let ?env = "mem_projection_env (\<lambda>_. None) (Some d) summary"
  let ?w = "fst (ck_Delete mem_checkpoint_ops w (pj_Name pj))"
  have w: "mem_ready ?w" "mem_events ?w = mem_events w"
    using mem_world.del_cp [OF assms(1) refl, of "pj_Name pj"] by simp_all
  have all: "filter (\<lambda>e. 0 < se_GlobalPosition e) (mem_events ?w) = mem_events w"
    using mem_world.positive [OF w(1)] by (simp add: filter_id_conv w(2))
  have bad: "\<exists>err. decrypt_all (Some d) es = Inl err" if "e \<in> set es" for es
    using that by (induction es) (auto simp: assms(3) split: sum.splits)
  obtain err where err: "decrypt_all (Some d) (take 1000 (mem_events w)) = Inl err" using bad [OF assms(2)] by blast
  have "loadEventsFromPosition ?env ?w 0 1000 = Inl err"
    using mem_batch_load [OF w(1), of 1000 "\<lambda>_. None" "\<lambda>_. None" "Some d" summary 0] err unfolding all
    by (simp add: loadEventsFromPosition_def) (simp add: mem_projection_env_def)
  then have "rebuild_loop fuel ?env 1000 (pj_Name pj) f 0 0 ?w = Some (?w, Some (Wrap ''failed to load events'' err))" for f
    using assms(5) by (cases fuel) (simp_all, simp add: mem_projection_env_def)
  then show "\<exists>w' err. RebuildAsync fuel ?env 1000 None pj DefaultRebuildOptions w = Some (w', Some (Wrap ''failed to load events'' err))"
    by (simp add: RebuildAsync_def clearReadModel_def DefaultRebuildOptions_def rebuild_def) (simp add: mem_projection_env_def)
  have "select_loop (Some d) (shouldHandleEvent pj) i es = Inr (es, [])"
    if "\<forall>e \<in> set es. \<not> shouldHandleEvent pj (se_Type e)" for i es
    using that by (induction es arbitrary: i) auto
  then show "select_loop (Some d) (shouldHandleEvent pj) 0 (take 1000 (mem_events w)) = Inr (take 1000 (mem_events w), [])"
    using assms(4) by blast
qed

end
