(* ===== verification/Projection_Control.thy ===== *)
theory Projection_Control
  imports Projection_Engine
begin

text \<open>
  The projection engine around its workers (\<^verbatim>\<open>projection_engine.go\<close>): registration, starting and
  stopping, pausing, resuming and restarting by name, status reports, inline projections inside an
  append and the delivery to live projections.

  Goroutines the engine starts are recorded in \<open>en_launched\<close> with the argument \<^verbatim>\<open>resumeFirst\<close> of
  their supervisor; what a launched worker does is \<^verbatim>\<open>superviseAsyncWorker\<close> in the theory of the
  engine.  A nil projection is \<open>None\<close>.
\<close>

section \<open>State\<close>

record 'w live_worker =
  lw_projection :: "'w projection"
  lw_state :: projection_state
  lw_stopped :: bool
  lw_eventCh :: "stored_event list"
  lw_buffer :: int
  lw_lastError :: "error option"
  lw_transitions :: "(projection_state \<times> projection_state \<times> error option) list"

datatype launched = SupervisorOf string bool | LiveWorkerOf string

record 'w projection_engine =
  en_inline :: "'w projection list"
  en_async :: "(string, 'w async_worker) gomap"
  en_live :: "(string, 'w live_worker) gomap"
  en_checkpoints :: bool
  en_running :: bool
  en_stopping :: bool
  en_launched :: "launched list"

definition NewProjectionEngine :: "bool \<Rightarrow> 'w projection_engine" where
  "NewProjectionEngine withCheckpointStore =
     \<lparr>en_inline = [], en_async = [], en_live = [], en_checkpoints = withCheckpointStore,
      en_running = False, en_stopping = False, en_launched = []\<rparr>"

definition live_setState :: "'w live_worker \<Rightarrow> projection_state \<Rightarrow> 'w live_worker" where
  "live_setState wk st =
     (let old = lw_state wk; wk' = wk\<lparr>lw_state := st\<rparr>
      in if old \<noteq> st then wk'\<lparr>lw_transitions := lw_transitions wk' @ [(old, st, None)]\<rparr> else wk')"

section \<open>Registration\<close>

definition validateProjection :: "'w projection option \<Rightarrow> error option" where
  "validateProjection projection =
     (case projection of
        None \<Rightarrow> Some ErrNilProjection
      | Some p \<Rightarrow> if pj_Name p = [] then Some ErrEmptyProjectionName else None)"

definition RegisterInline :: "'w projection_engine \<Rightarrow> 'w projection option \<Rightarrow> 'w projection_engine \<times> error option" where
  "RegisterInline e projection =
     (case (validateProjection projection, projection) of
        (None, Some p) \<Rightarrow>
          if \<exists>q \<in> set (en_inline e). pj_Name q = pj_Name p
          then (e, Some (Wrap (pj_Name p) ErrProjectionAlreadyRegistered))
          else (e\<lparr>en_inline := en_inline e @ [p]\<rparr>, None)
      | (err, _) \<Rightarrow> (e, err))"

definition RegisterAsync ::
  "'w projection_engine \<Rightarrow> 'w projection option \<Rightarrow> async_options list \<Rightarrow> 'w projection_engine \<times> error option" where
  "RegisterAsync e projection opts =
     (case (validateProjection projection, projection) of
        (None, Some p) \<Rightarrow>
          let options = (if length opts > 0 then hd opts else DefaultAsyncOptions)
          in (case map_of (en_async e) (pj_Name p) of
                Some _ \<Rightarrow> (e, Some (Wrap (pj_Name p) ErrProjectionAlreadyRegistered))
              | None \<Rightarrow> (e\<lparr>en_async := AList.update (pj_Name p) (NewAsyncWorker p options) (en_async e)\<rparr>, None))
      | (err, _) \<Rightarrow> (e, err))"

definition RegisterLive ::
  "'w projection_engine \<Rightarrow> 'w projection option \<Rightarrow> int list \<Rightarrow> 'w projection_engine \<times> error option" where
  "RegisterLive e projection bufferSizes =
     (case (validateProjection projection, projection) of
        (None, Some p) \<Rightarrow>
          let size = (if length bufferSizes > 0 then hd bufferSizes else 1000);
              size' = (if size \<le> 0 then 1000 else size)
          in (case map_of (en_live e) (pj_Name p) of
                Some _ \<Rightarrow> (e, Some (Wrap (pj_Name p) ErrProjectionAlreadyRegistered))
              | None \<Rightarrow>
                  (e\<lparr>en_live := AList.update (pj_Name p)
                      \<lparr>lw_projection = p, lw_state = ProjectionStateStopped, lw_stopped = False, lw_eventCh = [],
                       lw_buffer = size', lw_lastError = None, lw_transitions = []\<rparr> (en_live e)\<rparr>, None))
      | (err, _) \<Rightarrow> (e, err))"

fun remove_inline :: "string \<Rightarrow> 'w projection list \<Rightarrow> 'w projection list" where
  "remove_inline name [] = []"
| "remove_inline name (p # ps) = (if pj_Name p = name then ps else p # remove_inline name ps)"

text \<open>An async or live worker that is removed keeps running until it sees its closed stop channel;
  the engine no longer knows it.\<close>

definition Unregister :: "'w projection_engine \<Rightarrow> string \<Rightarrow> 'w projection_engine \<times> error option" where
  "Unregister e name =
     (if name = [] then (e, Some ErrEmptyProjectionName)
      else if \<exists>p \<in> set (en_inline e). pj_Name p = name
      then (e\<lparr>en_inline := remove_inline name (en_inline e)\<rparr>, None)
      else if map_of (en_async e) name \<noteq> None then (e\<lparr>en_async := AList.delete name (en_async e)\<rparr>, None)
      else if map_of (en_live e) name \<noteq> None then (e\<lparr>en_live := AList.delete name (en_live e)\<rparr>, None)
      else (e, Some (Wrap name ErrProjectionNotFound)))"

section \<open>Life cycle\<close>

definition launchSupervisor :: "'w projection_engine \<Rightarrow> string \<Rightarrow> bool \<Rightarrow> 'w projection_engine \<times> bool" where
  "launchSupervisor e name resumeFirst =
     (case map_of (en_async e) name of
        None \<Rightarrow> (e, False)
      | Some worker \<Rightarrow>
          if aw_supervising worker then (e, False)
          else if en_stopping e then (e, False)
          else (e\<lparr>en_async := AList.update name (worker\<lparr>aw_supervising := True\<rparr>) (en_async e),
                  en_launched := en_launched e @ [SupervisorOf name resumeFirst]\<rparr>, True))"

definition Engine_Start :: "'w projection_engine \<Rightarrow> 'w projection_engine \<times> error option" where
  "Engine_Start e =
     (if en_running e then (e, Some ErrProjectionEngineAlreadyRunning)
      else if \<not> en_checkpoints e then (e, Some ErrNoCheckpointStore)
      else
        let e1 = e\<lparr>en_running := True, en_stopping := False\<rparr>;
            e2 = fold (\<lambda>name en. fst (launchSupervisor en name False)) (map fst (en_async e1)) e1
        in (e2\<lparr>en_launched := en_launched e2 @ map LiveWorkerOf (map fst (en_live e2))\<rparr>, None))"

text \<open>\<open>joined\<close> is \<^verbatim>\<open>ctx.Err()\<close> when the context ends before every worker has returned.\<close>

definition Engine_Stop :: "ctx \<Rightarrow> 'w projection_engine \<Rightarrow> 'w projection_engine \<times> error option" where
  "Engine_Stop joined e =
     (if \<not> en_running e then (e, None)
      else (case joined of
              None \<Rightarrow>
                (e\<lparr>en_stopping := True, en_running := False, en_launched := [],
                   en_async := map (\<lambda>(n, wk). (n, wk\<lparr>aw_supervising := False\<rparr>)) (en_async e)\<rparr>, None)
            | Some err \<Rightarrow> (e\<lparr>en_stopping := True, en_running := False\<rparr>, Some err)))"

definition Pause :: "'w projection_engine \<Rightarrow> string \<Rightarrow> 'w projection_engine \<times> error option" where
  "Pause e name =
     (case map_of (en_async e) name of
        Some w \<Rightarrow> (e\<lparr>en_async := AList.update name (worker_pause w) (en_async e)\<rparr>, None)
      | None \<Rightarrow>
          (case map_of (en_live e) name of
             Some w \<Rightarrow> (e\<lparr>en_live := AList.update name (live_setState w ProjectionStatePaused) (en_live e)\<rparr>, None)
           | None \<Rightarrow> (e, Some (Wrap name ErrProjectionNotFound))))"

definition Resume :: "'w projection_engine \<Rightarrow> string \<Rightarrow> 'w projection_engine \<times> error option" where
  "Resume e name =
     (case map_of (en_async e) name of
        Some w \<Rightarrow> (e\<lparr>en_async := AList.update name (worker_resume w) (en_async e)\<rparr>, None)
      | None \<Rightarrow>
          (case map_of (en_live e) name of
             Some w \<Rightarrow> (e\<lparr>en_live := AList.update name (live_setState w ProjectionStateRunning) (en_live e)\<rparr>, None)
           | None \<Rightarrow> (e, Some (Wrap name ErrProjectionNotFound))))"

definition Restart :: "'w projection_engine \<Rightarrow> string \<Rightarrow> 'w projection_engine \<times> error option" where
  "Restart e name =
     (case map_of (en_async e) name of
        None \<Rightarrow> (e, Some (Wrap name ErrProjectionNotFound))
      | Some worker \<Rightarrow>
          if \<not> en_running e \<or> en_stopping e then (e, None)
          else if aw_state worker \<noteq> ProjectionStateFaulted then (e, None)
          else (fst (launchSupervisor e name True), None))"

section \<open>Status\<close>

record projection_status =
  ps_Name :: string
  ps_State :: projection_state
  ps_LastPosition :: nat
  ps_EventsProcessed :: nat
  ps_LastProcessedAt :: time
  ps_Error :: "error option"

definition getStatus :: "'w async_worker \<Rightarrow> projection_status" where
  "getStatus w =
     \<lparr>ps_Name = pj_Name (aw_projection w), ps_State = aw_state w, ps_LastPosition = aw_lastPosition w,
      ps_EventsProcessed = aw_eventsProcessed w, ps_LastProcessedAt = aw_lastProcessedAt w, ps_Error = aw_lastError w\<rparr>"

definition live_getStatus :: "'w live_worker \<Rightarrow> projection_status" where
  "live_getStatus w =
     \<lparr>ps_Name = pj_Name (lw_projection w), ps_State = lw_state w, ps_LastPosition = 0, ps_EventsProcessed = 0,
      ps_LastProcessedAt = 0, ps_Error = lw_lastError w\<rparr>"

definition inline_status :: "string \<Rightarrow> projection_status" where
  "inline_status name =
     \<lparr>ps_Name = name, ps_State = ProjectionStateRunning, ps_LastPosition = 0, ps_EventsProcessed = 0,
      ps_LastProcessedAt = 0, ps_Error = None\<rparr>"

definition GetStatus :: "'w projection_engine \<Rightarrow> string \<Rightarrow> error + projection_status" where
  "GetStatus e name =
     (case map_of (en_async e) name of
        Some w \<Rightarrow> Inr (getStatus w)
      | None \<Rightarrow>
          (case map_of (en_live e) name of
             Some w \<Rightarrow> Inr (live_getStatus w)
           | None \<Rightarrow>
               if \<exists>p \<in> set (en_inline e). pj_Name p = name then Inr (inline_status name)
               else Inl (Wrap name ErrProjectionNotFound)))"

definition GetAllStatuses :: "'w projection_engine \<Rightarrow> projection_status list" where
  "GetAllStatuses e =
     map (getStatus \<circ> snd) (en_async e) @ map (live_getStatus \<circ> snd) (en_live e) @
     map (\<lambda>p. inline_status (pj_Name p)) (en_inline e)"

section \<open>Inline projections\<close>

definition applyInline ::
  "'w projection_env \<Rightarrow> 'w projection \<Rightarrow> 'w \<Rightarrow> stored_event \<Rightarrow> 'w \<times> error option" where
  "applyInline env p w event =
     (case pj_Apply p (pv_ctx env) w event of
        (w', Some (GoPanic r)) \<Rightarrow>
          (w', Some (ProjectionError (pj_Name p) (se_Type event) (se_GlobalPosition event)
                       (panicked_event (pv_panicSummary env) event r)))
      | (w', r) \<Rightarrow> (w', r))"

fun anyInlineHandles :: "'w projection list \<Rightarrow> string \<Rightarrow> bool" where
  "anyInlineHandles [] eventType \<longleftrightarrow> False"
| "anyInlineHandles (p # ps) eventType \<longleftrightarrow> shouldHandleEvent p eventType \<or> anyInlineHandles ps eventType"

fun inline_loop ::
  "'w projection_env \<Rightarrow> 'w projection list \<Rightarrow> 'w \<Rightarrow> stored_event \<Rightarrow> 'w \<times> error option" where
  "inline_loop env [] w event = (w, None)"
| "inline_loop env (p # ps) w event =
     (if \<not> shouldHandleEvent p (se_Type event) then inline_loop env ps w event
      else (case applyInline env p w event of
              (w', Some err) \<Rightarrow> (w', Some (Wrap (''inline projection '' @ pj_Name p @ '' failed'') err))
            | (w', None) \<Rightarrow> inline_loop env ps w' event))"

fun ProcessInlineProjections ::
  "'w projection_env \<Rightarrow> 'w projection list \<Rightarrow> 'w \<Rightarrow> stored_event list \<Rightarrow> 'w \<times> error option" where
  "ProcessInlineProjections env projections w [] = (w, None)"
| "ProcessInlineProjections env projections w (event # events) =
     (if \<not> anyInlineHandles projections (se_Type event) then ProcessInlineProjections env projections w events
      else (case (case pv_Decrypt env of None \<Rightarrow> Inr event | Some d \<Rightarrow> d event) of
              Inl err \<Rightarrow>
                (w, Some (Wrap (''inline projection decrypt event at position '' @ itoa (int (se_GlobalPosition event))) err))
            | Inr event' \<Rightarrow>
                (case inline_loop env projections w event' of
                   (w', Some err) \<Rightarrow> (w', Some err)
                 | (w', None) \<Rightarrow> ProcessInlineProjections env projections w' events)))"

section \<open>Live projections\<close>

fun liveWorkersHandling :: "'w live_worker list \<Rightarrow> string \<Rightarrow> string list" where
  "liveWorkersHandling [] eventType = []"
| "liveWorkersHandling (w # ws) eventType =
     (if shouldHandleEvent (lw_projection w) eventType
      then pj_Name (lw_projection w) # liveWorkersHandling ws eventType else liveWorkersHandling ws eventType)"

text \<open>The events that are fanned out: decrypted where some live worker handles them, dropped where
  that fails.\<close>

fun live_decrypt ::
  "(stored_event \<Rightarrow> error + stored_event) option \<Rightarrow> 'w live_worker list \<Rightarrow> stored_event list \<Rightarrow> stored_event list" where
  "live_decrypt None workers events = events"
| "live_decrypt (Some d) workers [] = []"
| "live_decrypt (Some d) workers (ev # events) =
     (if length (liveWorkersHandling workers (se_Type ev)) = 0 then ev # live_decrypt (Some d) workers events
      else (case d ev of
              Inl err \<Rightarrow> live_decrypt (Some d) workers events
            | Inr dec \<Rightarrow> dec # live_decrypt (Some d) workers events))"

text \<open>What the select of a blocking send ends with: the send (into the buffer, or as soon as the
  worker makes room), the worker's closed stop channel, or the end of the context.\<close>

datatype send_outcome = Sent | WorkerGone | CtxDone

fun live_deliver ::
  "(string \<Rightarrow> stored_event \<Rightarrow> send_outcome) \<Rightarrow> 'w live_worker \<Rightarrow> stored_event list \<Rightarrow> 'w live_worker \<times> bool" where
  "live_deliver select w [] = (w, True)"
| "live_deliver select w (event # events) =
     (if \<not> shouldHandleEvent (lw_projection w) (se_Type event) then live_deliver select w events
      else (case select (pj_Name (lw_projection w)) event of
              Sent \<Rightarrow> live_deliver select (w\<lparr>lw_eventCh := lw_eventCh w @ [event]\<rparr>) events
            | WorkerGone \<Rightarrow> (w, True)
            | CtxDone \<Rightarrow> (w, False)))"

fun notify_loop ::
  "(string \<Rightarrow> stored_event \<Rightarrow> send_outcome) \<Rightarrow> stored_event list \<Rightarrow> (string, 'w live_worker) gomap \<Rightarrow>
   (string, 'w live_worker) gomap" where
  "notify_loop select events [] = []"
| "notify_loop select events ((name, w) # rest) =
     (if lw_state w \<noteq> ProjectionStateRunning then (name, w) # notify_loop select events rest
      else (case live_deliver select w events of
              (w', True) \<Rightarrow> (name, w') # notify_loop select events rest
            | (w', False) \<Rightarrow> (name, w') # rest))"

definition NotifyLiveProjections ::
  "(stored_event \<Rightarrow> error + stored_event) option \<Rightarrow> (string \<Rightarrow> stored_event \<Rightarrow> send_outcome) \<Rightarrow>
   'w projection_engine \<Rightarrow> stored_event list \<Rightarrow> 'w projection_engine" where
  "NotifyLiveProjections decrypt select e events =
     e\<lparr>en_live := notify_loop select (live_decrypt decrypt (map snd (en_live e)) events) (en_live e)\<rparr>"

text \<open>A panic of the projection is recovered and logged, and so has no further effect.\<close>

definition deliverLiveEvent :: "'w \<Rightarrow> 'w live_worker \<Rightarrow> stored_event \<Rightarrow> 'w" where
  "deliverLiveEvent w worker event = fst (pj_OnEvent (lw_projection worker) w event)"

definition drainLiveWorker :: "'w \<Rightarrow> 'w live_worker \<Rightarrow> 'w \<times> 'w live_worker" where
  "drainLiveWorker w worker =
     (fold (\<lambda>event w. deliverLiveEvent w worker event) (lw_eventCh worker) w, worker\<lparr>lw_eventCh := []\<rparr>)"

text \<open>What the live worker's select receives.\<close>

datatype live_input = LStop | LCancel | LEvent

fun live_loop :: "'w \<Rightarrow> 'w live_worker \<Rightarrow> live_input list \<Rightarrow> 'w \<times> 'w live_worker" where
  "live_loop w worker [] = (w, worker)"
| "live_loop w worker (LStop # rest) =
     (case drainLiveWorker w worker of (w', worker') \<Rightarrow> (w', live_setState worker' ProjectionStateStopped))"
| "live_loop w worker (LCancel # rest) = (w, live_setState worker ProjectionStateStopped)"
| "live_loop w worker (LEvent # rest) =
     (case lw_eventCh worker of
        [] \<Rightarrow> live_loop w worker rest
      | event # queue \<Rightarrow> live_loop (deliverLiveEvent w worker event) (worker\<lparr>lw_eventCh := queue\<rparr>) rest)"

definition runLiveWorker :: "'w \<Rightarrow> 'w live_worker \<Rightarrow> live_input list \<Rightarrow> 'w \<times> 'w live_worker" where
  "runLiveWorker w worker inputs = live_loop w (live_setState worker ProjectionStateRunning) inputs"

section \<open>Properties\<close>

lemma live_setState_sel [simp]:
  "lw_projection (live_setState wk st) = lw_projection wk" "lw_eventCh (live_setState wk st) = lw_eventCh wk"
  by (simp_all add: live_setState_def Let_def)

lemma worker_resume_sel [simp]:
  "aw_state (worker_resume wk) = ProjectionStateRunning" "aw_supervising (worker_resume wk) = aw_supervising wk"
  by (simp_all add: worker_resume_def setState_def notifyStateObserver_def Let_def)

text \<open>Resuming hides a fault.  A worker that faulted for good has no goroutine any more.  Restart
  launches one, but if Resume is called first - as an operator would after a Pause - the worker is
  reported running although nothing runs it, and Restart, which acts on faulted workers only, becomes a
  no-op that returns nil: until the engine is stopped and started again the projection stands still.\<close>

theorem resume_hides_fault:
  assumes "map_of (en_async e) name = Some wk" and "aw_state wk = ProjectionStateFaulted" and "\<not> aw_supervising wk"
    and "en_running e" and "\<not> en_stopping e"
  shows "en_launched (fst (Restart e name)) = en_launched e @ [SupervisorOf name True] \<and>
    Resume e name = (fst (Resume e name), None) \<and>
    (\<exists>s. GetStatus (fst (Resume e name)) name = Inr s \<and> ps_State s = ProjectionStateRunning) \<and>
    Restart (fst (Resume e name)) name = (fst (Resume e name), None) \<and>
    en_launched (fst (Restart (fst (Resume e name)) name)) = en_launched e"
proof -
  have "Resume e name = (e\<lparr>en_async := AList.update name (worker_resume wk) (en_async e)\<rparr>, None)"
    using assms(1) by (simp add: Resume_def)
  then show ?thesis
    using assms by (simp add: Restart_def launchSupervisor_def GetStatus_def getStatus_def update_conv')
qed

definition demo_null_projection :: "string \<Rightarrow> 'w projection" where
  "demo_null_projection name =
     \<lparr>pj_Name = name, pj_HandledEvents = [], pj_Apply = \<lambda>c w e. (w, None), pj_ApplyBatch = \<lambda>c w es. (w, None),
      pj_OnEvent = \<lambda>w e. (w, None)\<rparr>"

definition demo_engine :: "unit projection_engine" where
  "demo_engine = (NewProjectionEngine True)\<lparr>en_running := True,
     en_async := [(''orders'', setError (NewAsyncWorker (demo_null_projection ''orders'') DefaultAsyncOptions) (AppError ''bad''))]\<rparr>"

theorem resume_hides_fault_witness:
  "en_launched (fst (Restart demo_engine ''orders'')) = [SupervisorOf ''orders'' True] \<and>
   en_launched (fst (Restart (fst (Resume demo_engine ''orders'')) ''orders'')) = []"
proof -
  let ?wk = "setError (NewAsyncWorker (demo_null_projection ''orders'') DefaultAsyncOptions) (AppError ''bad'') :: unit async_worker"
  have "map_of (en_async demo_engine) ''orders'' = Some ?wk" "aw_state ?wk = ProjectionStateFaulted" "\<not> aw_supervising ?wk"
    "en_running demo_engine" "\<not> en_stopping demo_engine" "en_launched demo_engine = []"
    by (simp_all add: demo_engine_def NewProjectionEngine_def setError_def notifyStateObserver_def NewAsyncWorker_def Let_def)
  note facts = this
  show ?thesis using resume_hides_fault [OF facts(1-5)] facts(6) by (metis append_Nil)
qed

lemma live_loop_drains:
  "fst (live_loop w worker (replicate k LEvent @ [LStop])) =
     fold (\<lambda>event w. fst (pj_OnEvent (lw_projection worker) w event)) (lw_eventCh worker) w"
proof (induction k arbitrary: w worker)
  case 0
  show ?case by (simp add: drainLiveWorker_def deliverLiveEvent_def)
next
  case (Suc k)
  show ?case
  proof (cases "lw_eventCh worker")
    case (Cons event queue)
    then show ?thesis using Suc.IH [of "deliverLiveEvent w worker event" "worker\<lparr>lw_eventCh := queue\<rparr>"]
      by (simp add: deliverLiveEvent_def)
  qed (simp add: Suc.IH)
qed

lemma live_deliver_all:
  "live_deliver (\<lambda>_ _. Sent) wk events =
     (wk\<lparr>lw_eventCh := lw_eventCh wk @ filter (\<lambda>e. shouldHandleEvent (lw_projection wk) (se_Type e)) events\<rparr>, True)"
  by (induction events arbitrary: wk) simp_all

lemma notify_loop_sent:
  "notify_loop (\<lambda>_ _. Sent) events ws = map (\<lambda>(name, wk). (name, if lw_state wk \<noteq> ProjectionStateRunning then wk
     else fst (live_deliver (\<lambda>_ _. Sent) wk events))) ws"
  by (induction ws) (auto simp: live_deliver_all)

text \<open>A running live projection receives every event it handles, once and in order, also those still
  buffered when it is stopped.\<close>

theorem live_events_delivered:
  assumes "map_of (en_live e) name = Some wk" and "lw_state wk = ProjectionStateRunning"
  shows "\<exists>wk'. map_of (en_live (NotifyLiveProjections None (\<lambda>_ _. Sent) e events)) name = Some wk' \<and>
    fst (runLiveWorker w wk' (replicate k LEvent @ [LStop])) =
      fold (\<lambda>event w. fst (pj_OnEvent (lw_projection wk) w event))
        (lw_eventCh wk @ filter (\<lambda>e. shouldHandleEvent (lw_projection wk) (se_Type e)) events) w"
  using assms
  by (auto simp: NotifyLiveProjections_def notify_loop_sent live_deliver_all runLiveWorker_def live_loop_drains map_of_map)

end
