(* ===== verification/Subjects.thy ===== *)
theory Subjects
  imports Store_Laws Feed
begin

text \<open>
  Data-subject discovery (\<^verbatim>\<open>subject.go\<close>, \<^verbatim>\<open>subjectindex.go\<close>): the one rule by which every
  consumer attributes a stored event to its data subjects, the footprint of a subject resolved
  by a scan of the whole store or through a subject index, the in-memory subject index, and its
  backfill from history.

  An event store with its adapter is a \<open>bound_store\<close> on a state \<open>'a\<close> that holds everything
  the store reads: the adapter's log and the key provider, so that what can be decrypted depends
  on the state.  The loops over the whole store are \<open>scan_loop\<close> of the feed theory.  Sets
  (\<^verbatim>\<open>map[string]struct{}\<close>) are lists without repetition; the order of a list is the order in
  which the map is visited.  Log lines are left out.
\<close>

section \<open>An event store and its adapter\<close>

type_synonym subject_tagger = "string \<Rightarrow> bytes \<Rightarrow> metadata \<Rightarrow> string list"

record ('d, 'a) bound_store =
  bs_lib :: "'d go_lib"
  bs_store :: "'a \<Rightarrow> 'd event_store"
  bs_ops :: "'a adapter_ops"
  bs_sub :: "('a \<Rightarrow> nat \<Rightarrow> int \<Rightarrow> error + stored_event list) option"

definition bs_codec :: "('d, 'a) bound_store \<Rightarrow> codec" where
  "bs_codec B = gl_codec (bs_lib B)"

definition bs_load_from :: "('d, 'a) bound_store \<Rightarrow> 'a \<Rightarrow> nat \<Rightarrow> int \<Rightarrow> error + stored_event list" where
  "bs_load_from B a = LoadEventsFromPosition (map_option (\<lambda>load. load a) (bs_sub B))"

text \<open>The head of every scan loop: cancellation, then one batch, its error wrapped.\<close>

definition scan_page ::
  "ctx \<Rightarrow> ('d, 'a) bound_store \<Rightarrow> 'a \<Rightarrow> int \<Rightarrow> (error \<Rightarrow> error) \<Rightarrow> nat \<Rightarrow> error + stored_event list" where
  "scan_page ctx B a batchSize wrap position =
     (case ctx of
        Some e \<Rightarrow> Inl e
      | None \<Rightarrow>
          (case bs_load_from B a position batchSize of Inl e \<Rightarrow> Inl (wrap e) | Inr batch \<Rightarrow> Inr batch))"

section \<open>Attribution of one event\<close>

record subject_attribution =
  at_subjects :: "string list"
  at_derived :: bool
  at_undecryptable :: bool

definition attributed :: "subject_attribution \<Rightarrow> bool" where
  "attributed t \<longleftrightarrow> length (at_subjects t) > 0"

definition containsString :: "string list \<Rightarrow> string \<Rightarrow> bool" where
  "containsString ss s = list_ex (\<lambda>x. x = s) ss"

definition at_to :: "subject_attribution \<Rightarrow> string \<Rightarrow> bool" where
  "at_to t subjectID = containsString (at_subjects t) subjectID"

definition at_toOther :: "subject_attribution \<Rightarrow> string \<Rightarrow> bool" where
  "at_toOther t subjectID = list_ex (\<lambda>s. s \<noteq> subjectID) (at_subjects t)"

text \<open>Empty ids dropped, repetitions removed: the loop of \<^verbatim>\<open>setSubjectTags\<close>.\<close>

definition cleanSubjects :: "string list \<Rightarrow> string list" where
  "cleanSubjects ss = merge_tags ss []"

definition taggerPlaintext ::
  "'d go_lib \<Rightarrow> 'd event_store \<Rightarrow> stored_event \<Rightarrow> (bytes \<times> metadata) option" where
  "taggerPlaintext gl s se =
     (if \<not> IsEncrypted (se_Metadata se) then Some (se_Data se, se_Metadata se)
      else if es_encryption s = None then None
      else (case DecryptStoredEvent gl s se of
              Inl err \<Rightarrow> None
            | Inr dec \<Rightarrow>
                if IsEncrypted (se_Metadata dec) then None else Some (se_Data dec, se_Metadata dec)))"

definition attributeSubjects ::
  "'d go_lib \<Rightarrow> 'd event_store \<Rightarrow> subject_tagger option \<Rightarrow> stored_event \<Rightarrow> subject_attribution" where
  "attributeSubjects gl s tagger se =
     (let tags = GetSubjectTags (gl_codec gl) (se_Metadata se)
      in if length tags > 0
         then \<lparr>at_subjects = tags, at_derived = False, at_undecryptable = False\<rparr>
         else (case (case tagger of None \<Rightarrow> es_subjectTagger s | Some t \<Rightarrow> Some t) of
           None \<Rightarrow> \<lparr>at_subjects = [], at_derived = False, at_undecryptable = False\<rparr>
         | Some tag \<Rightarrow>
             (case taggerPlaintext gl s se of
                None \<Rightarrow> \<lparr>at_subjects = [], at_derived = False, at_undecryptable = True\<rparr>
              | Some (data, md) \<Rightarrow>
                  let derived = cleanSubjects (tag (se_Type se) data md)
                  in if length derived = 0
                     then \<lparr>at_subjects = [], at_derived = False, at_undecryptable = False\<rparr>
                     else \<lparr>at_subjects = derived, at_derived = True, at_undecryptable = False\<rparr>)))"

definition SubjectFilter :: "codec \<Rightarrow> string \<Rightarrow> stored_event \<Rightarrow> bool" where
  "SubjectFilter cd subjectID e = eventTagsSubject cd (se_Metadata e) subjectID"

fun streamSharedWithOthers ::
  "'d go_lib \<Rightarrow> 'd event_store \<Rightarrow> subject_tagger option \<Rightarrow> stored_event list \<Rightarrow> string \<Rightarrow> bool" where
  "streamSharedWithOthers gl s tagger [] subjectID = False"
| "streamSharedWithOthers gl s tagger (e # es) subjectID =
     (if at_toOther (attributeSubjects gl s tagger e) subjectID then True
      else streamSharedWithOthers gl s tagger es subjectID)"

section \<open>Footprints\<close>

record subject_footprint =
  fp_SubjectID :: string
  fp_Streams :: "string list"
  fp_StreamEventCounts :: "(string, int) gomap"
  fp_EventCount :: int
  fp_SharedStreams :: "string list"
  fp_KeyIDs :: "string list"
  fp_CleartextEvents :: int
  fp_Partial :: bool

definition ExclusiveStreams :: "subject_footprint option \<Rightarrow> string list" where
  "ExclusiveStreams fpo =
     (case fpo of
        None \<Rightarrow> []
      | Some fp \<Rightarrow>
          if length (fp_Streams fp) = 0 then []
          else if length (fp_SharedStreams fp) = 0 then fp_Streams fp
          else filter (\<lambda>s. s \<notin> set (fp_SharedStreams fp)) (fp_Streams fp))"

text \<open>The events an erasure attributed to its subject, by stream and version; \<open>None\<close> is the
  nil memo, which ignores writes.\<close>

type_synonym erasure_matches = "(string \<times> int) list option"

definition matches_add :: "erasure_matches \<Rightarrow> stored_event \<Rightarrow> erasure_matches" where
  "matches_add m se = map_option (List.insert (se_StreamID se, se_Version se)) m"

definition matches_has :: "erasure_matches \<Rightarrow> stored_event \<Rightarrow> bool" where
  "matches_has m se = (case m of None \<Rightarrow> False | Some ms \<Rightarrow> (se_StreamID se, se_Version se) \<in> set ms)"

record footprint_builder =
  fb_fp :: subject_footprint
  fb_streamSet :: "string list"
  fb_sharedSet :: "string list"
  fb_keySet :: "string list"
  fb_matched :: erasure_matches

definition newFootprintBuilder :: "string \<Rightarrow> erasure_matches \<Rightarrow> footprint_builder" where
  "newFootprintBuilder subjectID matched =
     \<lparr>fb_fp = \<lparr>fp_SubjectID = subjectID, fp_Streams = [], fp_StreamEventCounts = [], fp_EventCount = 0,
        fp_SharedStreams = [], fp_KeyIDs = [], fp_CleartextEvents = 0, fp_Partial = False\<rparr>,
      fb_streamSet = [], fb_sharedSet = [], fb_keySet = [], fb_matched = matched\<rparr>"

definition count_of :: "(string, int) gomap \<Rightarrow> string \<Rightarrow> int" where
  "count_of m k = (case map_of m k of None \<Rightarrow> 0 | Some n \<Rightarrow> n)"

definition fb_record :: "stored_event \<Rightarrow> footprint_builder \<Rightarrow> footprint_builder" where
  "fb_record se b =
     (let sid = se_StreamID se; fp = fb_fp b;
          fp' = fp\<lparr>fp_EventCount := fp_EventCount fp + 1,
            fp_StreamEventCounts :=
              AList.update sid (count_of (fp_StreamEventCounts fp) sid + 1) (fp_StreamEventCounts fp)\<rparr>;
          b' = b\<lparr>fb_matched := matches_add (fb_matched b) se, fb_streamSet := List.insert sid (fb_streamSet b)\<rparr>
      in if HasEncryptionEnvelope (se_Metadata se)
         then b'\<lparr>fb_fp := fp', fb_keySet := List.insert (GetEncryptionKeyID (se_Metadata se)) (fb_keySet b)\<rparr>
         else b'\<lparr>fb_fp := fp'\<lparr>fp_CleartextEvents := fp_CleartextEvents fp + 1\<rparr>\<rparr>)"

definition sortedSet :: "string list \<Rightarrow> string list" where
  "sortedSet m = sort m"

definition sampleSet :: "string list \<Rightarrow> nat \<Rightarrow> string list" where
  "sampleSet m n = (let xs = sortedSet m in if length xs > n then take n xs else xs)"

definition finalize :: "footprint_builder \<Rightarrow> subject_footprint" where
  "finalize b = (fb_fp b)\<lparr>fp_Streams := sortedSet (fb_streamSet b),
     fp_SharedStreams := sortedSet (fb_sharedSet b), fp_KeyIDs := sortedSet (fb_keySet b)\<rparr>"

section \<open>The resolver\<close>

record subject_resolver =
  sr_batchSize :: int
  sr_index :: "(ctx \<Rightarrow> string \<Rightarrow> error + string list) option"
  sr_authoritative :: bool
  sr_tagger :: "subject_tagger option"

definition WithResolverBatchSize :: "int \<Rightarrow> subject_resolver \<Rightarrow> subject_resolver" where
  "WithResolverBatchSize n r = (if n > 0 then r\<lparr>sr_batchSize := n\<rparr> else r)"

definition WithResolverIndex ::
  "(ctx \<Rightarrow> string \<Rightarrow> error + string list) option \<Rightarrow> subject_resolver \<Rightarrow> subject_resolver" where
  "WithResolverIndex idx r = (if idx \<noteq> None then r\<lparr>sr_index := idx\<rparr> else r)"

definition WithAuthoritativeIndex :: "subject_resolver \<Rightarrow> subject_resolver" where
  "WithAuthoritativeIndex r = r\<lparr>sr_authoritative := True\<rparr>"

definition WithResolverTagger :: "subject_tagger option \<Rightarrow> subject_resolver \<Rightarrow> subject_resolver" where
  "WithResolverTagger tagger r = (if tagger \<noteq> None then r\<lparr>sr_tagger := tagger\<rparr> else r)"

definition NewSubjectResolver :: "(subject_resolver \<Rightarrow> subject_resolver) list \<Rightarrow> subject_resolver" where
  "NewSubjectResolver opts = fold (\<lambda>opt r. opt r) opts
     \<lparr>sr_batchSize = 1000, sr_index = None, sr_authoritative = False, sr_tagger = None\<rparr>"

definition resolver_attribute ::
  "('d, 'a) bound_store \<Rightarrow> 'a \<Rightarrow> subject_tagger option \<Rightarrow> stored_event \<Rightarrow> subject_attribution" where
  "resolver_attribute B a tagger se = attributeSubjects (bs_lib B) (bs_store B a) tagger se"

definition loadFootprintStream ::
  "('d, 'a) bound_store \<Rightarrow> 'a \<Rightarrow> string \<Rightarrow> error + stored_event list option" where
  "loadFootprintStream B a streamID =
     (case LoadRaw (bs_ops B) a streamID 0 of
        Inl err \<Rightarrow>
          if errors_Is err ErrStreamNotFound then Inr None else Inl (Wrap ''mink: load stream'' err)
      | Inr stored \<Rightarrow> Inr (Some stored))"

definition collect_event ::
  "(stored_event \<Rightarrow> subject_attribution) \<Rightarrow> string \<Rightarrow> stored_event \<Rightarrow> footprint_builder \<times> bool \<Rightarrow>
   footprint_builder \<times> bool" where
  "collect_event att subjectID se bs =
     (let t = att se
      in (if at_to t subjectID then fb_record se (fst bs) else fst bs,
          snd bs \<or> at_toOther t subjectID))"

definition collectIndexedStream ::
  "(stored_event \<Rightarrow> subject_attribution) \<Rightarrow> string \<Rightarrow> string \<Rightarrow> stored_event list \<Rightarrow> footprint_builder \<Rightarrow>
   footprint_builder" where
  "collectIndexedStream att subjectID streamID stored b0 =
     (let (b, shared) = fold (collect_event att subjectID) stored (b0, False)
      in if streamID \<in> set (fb_streamSet b) \<and> shared
         then b\<lparr>fb_sharedSet := List.insert streamID (fb_sharedSet b)\<rparr> else b)"

fun index_loop ::
  "('d, 'a) bound_store \<Rightarrow> 'a \<Rightarrow> (stored_event \<Rightarrow> subject_attribution) \<Rightarrow> string \<Rightarrow> string list \<Rightarrow>
   footprint_builder \<Rightarrow> error + footprint_builder" where
  "index_loop B a att subjectID [] b = Inr b"
| "index_loop B a att subjectID (streamID # streams) b =
     (case loadFootprintStream B a streamID of
        Inl err \<Rightarrow> Inl err
      | Inr None \<Rightarrow> index_loop B a att subjectID streams b
      | Inr (Some stored) \<Rightarrow>
          index_loop B a att subjectID streams (collectIndexedStream att subjectID streamID stored b))"

definition resolveByIndex ::
  "ctx \<Rightarrow> ('d, 'a) bound_store \<Rightarrow> subject_resolver \<Rightarrow> (ctx \<Rightarrow> string \<Rightarrow> error + string list) \<Rightarrow> 'a \<Rightarrow> string \<Rightarrow>
   footprint_builder \<Rightarrow> error + (subject_footprint \<times> erasure_matches)" where
  "resolveByIndex ctx B r idx a subjectID b =
     (case idx ctx subjectID of
        Inl err \<Rightarrow> Inl (Wrap ''mink: subject index'' err)
      | Inr streams \<Rightarrow>
          (case index_loop B a (resolver_attribute B a (sr_tagger r)) subjectID streams b of
             Inl err \<Rightarrow> Inl err
           | Inr b' \<Rightarrow> Inr ((finalize b')\<lparr>fp_Partial := \<not> sr_authoritative r\<rparr>, fb_matched b')))"

definition attribute_event ::
  "(stored_event \<Rightarrow> subject_attribution) \<Rightarrow> string \<Rightarrow> stored_event \<Rightarrow> footprint_builder \<Rightarrow> footprint_builder" where
  "attribute_event att subjectID se b =
     (let t = att se
      in if at_to t subjectID then fb_record se b
         else if \<not> attributed t then b\<lparr>fb_fp := (fb_fp b)\<lparr>fp_Partial := True\<rparr>\<rparr>
         else b)"

fun detectSharedStreams ::
  "ctx \<Rightarrow> ('d, 'a) bound_store \<Rightarrow> subject_tagger option \<Rightarrow> 'a \<Rightarrow> string \<Rightarrow> string list \<Rightarrow> footprint_builder \<Rightarrow>
   error + footprint_builder" where
  "detectSharedStreams ctx B tagger a subjectID [] b = Inr b"
| "detectSharedStreams ctx B tagger a subjectID (streamID # streams) b =
     (case ctx of
        Some err \<Rightarrow> Inl err
      | None \<Rightarrow>
          (case loadFootprintStream B a streamID of
             Inl err \<Rightarrow> Inl err
           | Inr None \<Rightarrow> detectSharedStreams ctx B tagger a subjectID streams b
           | Inr (Some stored) \<Rightarrow>
               detectSharedStreams ctx B tagger a subjectID streams
                 (if streamSharedWithOthers (bs_lib B) (bs_store B a) tagger stored subjectID
                  then b\<lparr>fb_sharedSet := List.insert streamID (fb_sharedSet b)\<rparr> else b)))"

text \<open>The result is \<open>None\<close> only when the fuel of the scan is used up.\<close>

definition resolveByScan ::
  "nat \<Rightarrow> ctx \<Rightarrow> ('d, 'a) bound_store \<Rightarrow> subject_resolver \<Rightarrow> 'a \<Rightarrow> string \<Rightarrow> footprint_builder \<Rightarrow>
   (error + (subject_footprint \<times> erasure_matches)) option" where
  "resolveByScan fuel ctx B r a subjectID b =
     (if bs_sub B = None then Some (Inl ErrExportScanNotSupported)
      else (case scan_loop fuel (scan_page ctx B a (sr_batchSize r) (Wrap ''mink: subject scan''))
                   se_GlobalPosition
                   (\<lambda>se b. (attribute_event (resolver_attribute B a (sr_tagger r)) subjectID se b, None)) 0 b of
              None \<Rightarrow> None
            | Some (b', Some err) \<Rightarrow> Some (Inl err)
            | Some (b', None) \<Rightarrow>
                (case detectSharedStreams ctx B (sr_tagger r) a subjectID (fb_streamSet b') b' of
                   Inl err \<Rightarrow> Some (Inl err)
                 | Inr b'' \<Rightarrow> Some (Inr (finalize b'', fb_matched b'')))))"

definition resolve ::
  "nat \<Rightarrow> ctx \<Rightarrow> ('d, 'a) bound_store \<Rightarrow> subject_resolver \<Rightarrow> 'a \<Rightarrow> string \<Rightarrow> erasure_matches \<Rightarrow>
   (error + (subject_footprint \<times> erasure_matches)) option" where
  "resolve fuel ctx B r a subjectID matched =
     (if subjectID = [] then Some (Inl ErrSubjectIDRequired)
      else let b = newFootprintBuilder subjectID matched
           in (case sr_index r of
                 Some idx \<Rightarrow> Some (resolveByIndex ctx B r idx a subjectID b)
               | None \<Rightarrow> resolveByScan fuel ctx B r a subjectID b))"

definition Resolve ::
  "nat \<Rightarrow> ctx \<Rightarrow> ('d, 'a) bound_store \<Rightarrow> subject_resolver \<Rightarrow> 'a \<Rightarrow> string \<Rightarrow>
   (error + subject_footprint) option" where
  "Resolve fuel ctx B r a subjectID =
     map_option (\<lambda>res. case res of Inl e \<Rightarrow> Inl e | Inr (fp, m) \<Rightarrow> Inr fp)
       (resolve fuel ctx B r a subjectID None)"

section \<open>The in-memory subject index\<close>

type_synonym memory_subject_index = "(string, string list) gomap"

definition NewMemorySubjectIndex :: memory_subject_index where
  "NewMemorySubjectIndex = []"

definition index_streams :: "memory_subject_index \<Rightarrow> string \<Rightarrow> string list" where
  "index_streams m s = (case map_of m s of None \<Rightarrow> [] | Some ss \<Rightarrow> ss)"

fun index_subject_loop :: "string \<Rightarrow> string list \<Rightarrow> memory_subject_index \<Rightarrow> memory_subject_index" where
  "index_subject_loop streamID [] m = m"
| "index_subject_loop streamID (s # ss) m =
     (if s = [] then index_subject_loop streamID ss m
      else index_subject_loop streamID ss (AList.update s (List.insert streamID (index_streams m s)) m))"

definition IndexSubjects ::
  "ctx \<Rightarrow> memory_subject_index \<Rightarrow> string \<Rightarrow> string list \<Rightarrow> memory_subject_index \<times> error option" where
  "IndexSubjects ctx m streamID subjectIDs =
     (case ctx of
        Some err \<Rightarrow> (m, Some err)
      | None \<Rightarrow>
          if streamID = [] \<or> length subjectIDs = 0 then (m, None)
          else (index_subject_loop streamID subjectIDs m, None))"

definition StreamsBySubject :: "memory_subject_index \<Rightarrow> ctx \<Rightarrow> string \<Rightarrow> error + string list" where
  "StreamsBySubject m ctx subjectID =
     (case ctx of Some err \<Rightarrow> Inl err | None \<Rightarrow> Inr (sort (index_streams m subjectID)))"

definition DeleteSubject ::
  "ctx \<Rightarrow> memory_subject_index \<Rightarrow> string \<Rightarrow> memory_subject_index \<times> error option" where
  "DeleteSubject ctx m subjectID =
     (case ctx of
        Some err \<Rightarrow> (m, Some err)
      | None \<Rightarrow> if subjectID = [] then (m, None) else (AList.delete subjectID m, None))"

section \<open>Backfill\<close>

record backfill_report =
  br_Scanned :: int
  br_Indexed :: int
  br_Untagged :: int
  br_Undecryptable :: int

text \<open>A writer is the \<^verbatim>\<open>IndexSubjects\<close> method on its own state \<open>'i\<close>.\<close>

type_synonym 'i index_writer = "'i \<Rightarrow> string \<Rightarrow> string list \<Rightarrow> 'i \<times> error option"

definition subjectsOf ::
  "(stored_event \<Rightarrow> subject_attribution) \<Rightarrow> stored_event \<Rightarrow> backfill_report \<Rightarrow> backfill_report \<times> string list" where
  "subjectsOf att se rep =
     (let t = att se
      in (if at_undecryptable t then rep\<lparr>br_Undecryptable := br_Undecryptable rep + 1\<rparr> else rep, at_subjects t))"

definition indexEvent ::
  "ctx \<Rightarrow> 'i index_writer \<Rightarrow> (stored_event \<Rightarrow> subject_attribution) \<Rightarrow> stored_event \<Rightarrow> 'i \<times> backfill_report \<Rightarrow>
   ('i \<times> backfill_report) \<times> error option" where
  "indexEvent ctx writer att se st =
     (let (i, rep) = st
      in (case ctx of
            Some err \<Rightarrow> ((i, rep), Some err)
          | None \<Rightarrow>
              let (rep', subjects) = subjectsOf att se (rep\<lparr>br_Scanned := br_Scanned rep + 1\<rparr>)
              in if length subjects = 0 then ((i, rep'\<lparr>br_Untagged := br_Untagged rep' + 1\<rparr>), None)
                 else (case writer i (se_StreamID se) subjects of
                         (i', Some err) \<Rightarrow> ((i', rep'), Some (Wrap ''mink: backfill index stream'' err))
                       | (i', None) \<Rightarrow> ((i', rep'\<lparr>br_Indexed := br_Indexed rep' + 1\<rparr>), None))))"

definition BackfillSubjectIndexWithReport ::
  "nat \<Rightarrow> ctx \<Rightarrow> ('d, 'a) bound_store \<Rightarrow> subject_tagger option \<Rightarrow> 'i index_writer option \<Rightarrow> int \<Rightarrow> 'a \<Rightarrow> 'i \<Rightarrow>
   (('i \<times> backfill_report) \<times> error option) option" where
  "BackfillSubjectIndexWithReport fuel ctx B tagger writer batchSize a i =
     (let rep = \<lparr>br_Scanned = 0, br_Indexed = 0, br_Untagged = 0, br_Undecryptable = 0\<rparr>
      in (case writer of
            None \<Rightarrow> Some ((i, rep), Some (Errorf ''mink: BackfillSubjectIndex requires a tagger and a writer''))
          | Some w \<Rightarrow>
              if tagger = None
              then Some ((i, rep), Some (Errorf ''mink: BackfillSubjectIndex requires a tagger and a writer''))
              else if bs_sub B = None then Some ((i, rep), Some ErrSubscriptionNotSupported)
              else scan_loop fuel
                     (scan_page ctx B a (if batchSize \<le> 0 then 1000 else batchSize) (Wrap ''mink: backfill scan''))
                     se_GlobalPosition
                     (indexEvent ctx w (resolver_attribute B a tagger)) 0 (i, rep)))"

definition BackfillSubjectIndex ::
  "nat \<Rightarrow> ctx \<Rightarrow> ('d, 'a) bound_store \<Rightarrow> subject_tagger option \<Rightarrow> 'i index_writer option \<Rightarrow> int \<Rightarrow> 'a \<Rightarrow> 'i \<Rightarrow>
   ('i \<times> int \<times> error option) option" where
  "BackfillSubjectIndex fuel ctx B tagger writer batchSize a i =
     map_option (\<lambda>((i', rep), err). (i', br_Scanned rep, err))
       (BackfillSubjectIndexWithReport fuel ctx B tagger writer batchSize a i)"

end
