(* ===== verification/Erasure.thy ===== *)
theory Erasure
  imports Subjects Retry_Policy
begin

text \<open>
  Data erasure (\<^verbatim>\<open>eraser.go\<close>, \<^verbatim>\<open>verify.go\<close>): key discovery by footprint, stream or scan, the
  shared-key guard, revocation, reconciliation, propagation to read models, sibling stores and
  hooks, the erasure marker, verification and the certificate.

  The eraser works on two states: \<open>'a\<close> is the event store's (the log and the key provider),
  \<open>'x\<close> is everything outside it (read models, sibling stores, the certificate sink, the
  subject index), reached only through the functions the eraser is configured with.  The
  revocation state of a key is a reading of \<open>'a\<close>; the promotion of an expired soft revocation
  inside that reading changes no later reading at the same time.  The notes of a result or a
  certificate are values of \<open>erasure_note\<close>, one constructor per message with the values formatted
  into it.  Log lines are left out.
\<close>

section \<open>Requests, results and configuration\<close>

datatype erasure_note =
    LegacyStreamsNote nat nat
  | UntaggedSkippedNote nat nat
  | SharedStreamsNote nat nat "string list"
  | IndexRetainedNote
  | RecoverableNote nat
  | UnattributedNote nat nat
  | ResidualStoreNote string int
  | UncheckedStoresNote "string list"
  | CleartextNote nat
  | SharedStreamsCountNote nat nat
  | VacuousVerifyNote
  | MarkerMissingNote
  | ReadModelsNote nat
  | EventVerificationFailedNote
  | ResidualCountFailedNote
  | VacuousCertificateNote
  | NothingToEraseNote
  | KeysFailedNote nat
  | StoreNotErasedNote string
  | StoreSkippedSharedNote string int

record erasure_request =
  rq_SubjectID :: string
  rq_Streams :: "string list"
  rq_Filter :: "(stored_event \<Rightarrow> bool) option"
  rq_KeyIDs :: "string list"
  rq_FromTime :: "time option"
  rq_ToTime :: "time option"

text \<open>The message \<^verbatim>\<open>Err\<close> of an outcome is the error it renders, if any.\<close>

record erasure_outcome =
  eo_Name :: string
  eo_Erased :: int
  eo_Skipped :: bool
  eo_FootprintAware :: bool
  eo_SharedStreamsSkipped :: int
  eo_Err :: "error option"

record erasure_result =
  rs_SubjectID :: string
  rs_KeysRevoked :: "string list"
  rs_Streams :: "string list"
  rs_SharedStreams :: "string list"
  rs_EventsScanned :: int
  rs_MarkerWritten :: bool
  rs_Partial :: bool
  rs_RedactedReadModels :: "string list"
  rs_ResidualReadModels :: "string list"
  rs_SideEffects :: "string list"
  rs_SubjectStores :: "erasure_outcome list"
  rs_KeysFailed :: "string list"
  rs_CleartextEvents :: int
  rs_Notes :: "erasure_note list"
  rs_SubjectIndexPurged :: bool
  rs_ErasedAt :: time
  rs_Errors :: "error list"
  rs_attributed :: erasure_matches

definition new_result :: "string \<Rightarrow> time \<Rightarrow> erasure_result" where
  "new_result subjectID now =
     \<lparr>rs_SubjectID = subjectID, rs_KeysRevoked = [], rs_Streams = [], rs_SharedStreams = [], rs_EventsScanned = 0,
      rs_MarkerWritten = False, rs_Partial = False, rs_RedactedReadModels = [], rs_ResidualReadModels = [],
      rs_SideEffects = [], rs_SubjectStores = [], rs_KeysFailed = [], rs_CleartextEvents = 0, rs_Notes = [],
      rs_SubjectIndexPurged = False, rs_ErasedAt = now, rs_Errors = [], rs_attributed = Some []\<rparr>"

definition Failed :: "erasure_result \<Rightarrow> bool" where
  "Failed r \<longleftrightarrow>
     (if length (rs_Errors r) > 0 \<or> rs_Partial r \<or> length (rs_ResidualReadModels r) > 0 then True
      else list_ex eo_Skipped (rs_SubjectStores r))"

record erasure_context =
  ec_SubjectID :: string
  ec_Streams :: "string list"
  ec_KeysRevoked :: "string list"

record erasure_certificate =
  ct_SubjectID :: string
  ct_VerifiedAt :: time
  ct_Verified :: bool
  ct_EventsChecked :: int
  ct_KeysRevoked :: nat
  ct_Partial :: bool
  ct_SideEffects :: "string list"
  ct_StoresVerified :: "string list"
  ct_StoresUnchecked :: "string list"
  ct_Notes :: "erasure_note list"

type_synonym 'x erase_op = "'x \<Rightarrow> string \<Rightarrow> subject_footprint \<Rightarrow> 'x \<times> erasure_outcome \<times> error option"
type_synonym 'x count_op = "'x \<Rightarrow> string \<Rightarrow> subject_footprint \<Rightarrow> error + int"

text \<open>A sibling store: its counter if it is a \<^verbatim>\<open>SubjectResidualCounter\<close>, and the operations of
  the copy that \<^verbatim>\<open>withDerivedAggregateIDs\<close> returns if it is a \<^verbatim>\<open>derivedAggregateIDEnabler\<close>.\<close>

record 'x subject_erasable =
  sb_Name :: string
  sb_Erase :: "'x erase_op"
  sb_Count :: "'x count_op option"
  sb_Derived :: "('x erase_op \<times> 'x count_op option) option"

record 'x data_eraser =
  de_batchSize :: int
  de_markerStream :: string
  de_resolver :: "subject_resolver option"
  de_redactors :: "(string \<times> ('x \<Rightarrow> string \<Rightarrow> 'x \<times> error option)) list"
  de_rebuilders :: "(string \<times> ('x \<Rightarrow> 'x \<times> error option)) list"
  de_certSink :: "('x \<Rightarrow> erasure_certificate \<Rightarrow> 'x \<times> error option) option"
  de_hooks :: "(string \<times> ('x \<Rightarrow> erasure_context \<Rightarrow> 'x \<times> error option)) list"
  de_sharedKeyGuard :: bool
  de_allowSharedKey :: bool
  de_strictAccountability :: bool
  de_subjectStores :: "'x subject_erasable list"
  de_derivedAggregateIDs :: bool
  de_indexPurger :: "('x \<Rightarrow> string \<Rightarrow> 'x \<times> error option) option"

text \<open>What the eraser calls on the event store's side: the store itself, the provider's
  revocation, the marker event as a value of the store's dynamic type and its decoding, the
  randomness of an append.\<close>

record ('d, 'a) eraser_env =
  ev_store :: "('d, 'a) bound_store"
  ev_RevokeKey :: "'a \<Rightarrow> string \<Rightarrow> 'a \<times> error option"
  ev_RevocationState :: "'a \<Rightarrow> string \<Rightarrow> error + RevocationState"
  ev_marker :: "string \<Rightarrow> time \<Rightarrow> nat \<Rightarrow> 'd"
  ev_unmarshalMarker :: "bytes \<Rightarrow> string option"
  ev_entropy :: "nat \<Rightarrow> entropy"

text \<open>The marker-subject cache of the eraser.\<close>

record marker_cache =
  mc_markedSubjects :: "string list"
  mc_markedLoaded :: bool

definition WithEraseBatchSize :: "int \<Rightarrow> 'x data_eraser \<Rightarrow> 'x data_eraser" where
  "WithEraseBatchSize n e = (if n > 0 then e\<lparr>de_batchSize := n\<rparr> else e)"

definition WithErasureMarker :: "string \<Rightarrow> 'x data_eraser \<Rightarrow> 'x data_eraser" where
  "WithErasureMarker streamID e = e\<lparr>de_markerStream := streamID\<rparr>"

definition WithEraseSubjectResolver :: "subject_resolver \<Rightarrow> 'x data_eraser \<Rightarrow> 'x data_eraser" where
  "WithEraseSubjectResolver r e = e\<lparr>de_resolver := Some r\<rparr>"

definition WithSharedKeyGuard :: "'x data_eraser \<Rightarrow> 'x data_eraser" where
  "WithSharedKeyGuard e = e\<lparr>de_sharedKeyGuard := True\<rparr>"

definition AllowSharedKeyRevocation :: "'x data_eraser \<Rightarrow> 'x data_eraser" where
  "AllowSharedKeyRevocation e = e\<lparr>de_allowSharedKey := True\<rparr>"

definition WithStrictAccountability :: "'x data_eraser \<Rightarrow> 'x data_eraser" where
  "WithStrictAccountability e = e\<lparr>de_strictAccountability := True\<rparr>"

definition WithSubjectStore :: "'x subject_erasable list \<Rightarrow> 'x data_eraser \<Rightarrow> 'x data_eraser" where
  "WithSubjectStore stores e = e\<lparr>de_subjectStores := de_subjectStores e @ stores\<rparr>"

definition WithDerivedAggregateIDs :: "'x data_eraser \<Rightarrow> 'x data_eraser" where
  "WithDerivedAggregateIDs e = e\<lparr>de_derivedAggregateIDs := True\<rparr>"

definition withDerivedAggregateIDs :: "'x subject_erasable \<Rightarrow> 'x subject_erasable" where
  "withDerivedAggregateIDs s =
     (case sb_Derived s of None \<Rightarrow> s | Some (er, ct) \<Rightarrow> s\<lparr>sb_Erase := er, sb_Count := ct\<rparr>)"

definition WithReadModelRedactor ::
  "(string \<times> ('x \<Rightarrow> string \<Rightarrow> 'x \<times> error option)) list \<Rightarrow> 'x data_eraser \<Rightarrow> 'x data_eraser" where
  "WithReadModelRedactor redactors e = e\<lparr>de_redactors := de_redactors e @ redactors\<rparr>"

definition WithReadModelRebuilder ::
  "(string \<times> ('x \<Rightarrow> 'x \<times> error option)) list \<Rightarrow> 'x data_eraser \<Rightarrow> 'x data_eraser" where
  "WithReadModelRebuilder rebuilders e = e\<lparr>de_rebuilders := de_rebuilders e @ rebuilders\<rparr>"

definition WithErasureHook ::
  "(string \<times> ('x \<Rightarrow> erasure_context \<Rightarrow> 'x \<times> error option)) list \<Rightarrow> 'x data_eraser \<Rightarrow> 'x data_eraser" where
  "WithErasureHook hooks e = e\<lparr>de_hooks := de_hooks e @ hooks\<rparr>"

definition WithCertificateSink ::
  "('x \<Rightarrow> erasure_certificate \<Rightarrow> 'x \<times> error option) option \<Rightarrow> 'x data_eraser \<Rightarrow> 'x data_eraser" where
  "WithCertificateSink sink e = e\<lparr>de_certSink := sink\<rparr>"

definition WithSubjectIndexPurge ::
  "('x \<Rightarrow> string \<Rightarrow> 'x \<times> error option) option \<Rightarrow> 'x data_eraser \<Rightarrow> 'x data_eraser" where
  "WithSubjectIndexPurge p e = (if p \<noteq> None then e\<lparr>de_indexPurger := p\<rparr> else e)"

definition NewDataEraser :: "('x data_eraser \<Rightarrow> 'x data_eraser) list \<Rightarrow> 'x data_eraser" where
  "NewDataEraser opts =
     (let e = fold (\<lambda>opt e. opt e) opts
        \<lparr>de_batchSize = 1000, de_markerStream = [], de_resolver = None, de_redactors = [], de_rebuilders = [],
         de_certSink = None, de_hooks = [], de_sharedKeyGuard = False, de_allowSharedKey = False,
         de_strictAccountability = False, de_subjectStores = [], de_derivedAggregateIDs = False, de_indexPurger = None\<rparr>
      in if de_derivedAggregateIDs e
         then e\<lparr>de_subjectStores := map withDerivedAggregateIDs (de_subjectStores e)\<rparr> else e)"

section \<open>Key discovery\<close>

definition eraser_tagger :: "'x data_eraser \<Rightarrow> subject_tagger option" where
  "eraser_tagger e = (case de_resolver e of Some r \<Rightarrow> sr_tagger r | None \<Rightarrow> None)"

definition eraser_attribute ::
  "('d, 'a) eraser_env \<Rightarrow> 'x data_eraser \<Rightarrow> 'a \<Rightarrow> stored_event \<Rightarrow> subject_attribution" where
  "eraser_attribute ev e a se =
     attributeSubjects (bs_lib (ev_store ev)) (bs_store (ev_store ev) a) (eraser_tagger e) se"

definition validateRequest :: "erasure_request \<Rightarrow> error option" where
  "validateRequest req =
     (if rq_SubjectID req = [] then Some ErrErasureSubjectRequired
      else if length (rq_Streams req) = 0 \<and> rq_Filter req = None \<and> length (rq_KeyIDs req) = 0
      then Some ErrNoErasureSources else None)"

definition eraser_matches :: "stored_event \<Rightarrow> erasure_request \<Rightarrow> bool" where
  "eraser_matches se req =
     (if (case rq_FromTime req of None \<Rightarrow> False | Some t \<Rightarrow> se_Timestamp se < t) then False
      else if (case rq_ToTime req of None \<Rightarrow> False | Some t \<Rightarrow> se_Timestamp se > t) then False
      else if (case rq_Filter req of None \<Rightarrow> False | Some f \<Rightarrow> \<not> f se) then False
      else True)"

text \<open>What key discovery accumulates: the result and the two sets \<^verbatim>\<open>Erase\<close> closes over.\<close>

record erase_acc =
  ea_result :: erasure_result
  ea_keySet :: "string list"
  ea_streamSet :: "string list"

definition collect_key :: "stored_event \<Rightarrow> erase_acc \<Rightarrow> erase_acc" where
  "collect_key se acc =
     (let r = (ea_result acc)\<lparr>rs_EventsScanned := rs_EventsScanned (ea_result acc) + 1\<rparr>;
          streams = List.insert (se_StreamID se) (ea_streamSet acc)
      in if \<not> HasEncryptionEnvelope (se_Metadata se)
         then acc\<lparr>ea_result := r\<lparr>rs_CleartextEvents := rs_CleartextEvents r + 1\<rparr>, ea_streamSet := streams\<rparr>
         else acc\<lparr>ea_result := r, ea_streamSet := streams,
                  ea_keySet := List.insert (GetEncryptionKeyID (se_Metadata se)) (ea_keySet acc)\<rparr>)"

definition remember :: "stored_event \<Rightarrow> erase_acc \<Rightarrow> erase_acc" where
  "remember se acc =
     acc\<lparr>ea_result := (ea_result acc)\<lparr>rs_attributed := matches_add (rs_attributed (ea_result acc)) se\<rparr>\<rparr>"

record stream_key_tally =
  tk_scoped :: bool
  tk_matched :: bool
  tk_untagged :: nat
  tk_shared :: bool

definition tally_note :: "string \<Rightarrow> subject_attribution \<Rightarrow> stream_key_tally \<Rightarrow> stream_key_tally" where
  "tally_note subjectID t k =
     (let k' = (if attributed t then k\<lparr>tk_scoped := True\<rparr> else k)
      in if at_toOther t subjectID then k'\<lparr>tk_shared := True\<rparr> else k')"

definition ownedBySubject :: "string \<Rightarrow> subject_attribution \<Rightarrow> stream_key_tally \<Rightarrow> stream_key_tally \<times> bool" where
  "ownedBySubject subjectID t k =
     (if at_to t subjectID then (k, True)
      else if \<not> attributed t then (k\<lparr>tk_untagged := tk_untagged k + 1\<rparr>, False)
      else (k, False))"

definition attributeStream ::
  "(stored_event \<Rightarrow> subject_attribution) \<Rightarrow> stored_event list \<Rightarrow> string \<Rightarrow> stream_key_tally \<Rightarrow>
   stream_key_tally \<times> subject_attribution list" where
  "attributeStream att stored subjectID k =
     (let ats = map att stored in (fold (tally_note subjectID) ats k, ats))"

fun collect_stream_loop ::
  "erasure_request \<Rightarrow> (stored_event \<times> subject_attribution) list \<Rightarrow> stream_key_tally \<times> erase_acc \<Rightarrow>
   stream_key_tally \<times> erase_acc" where
  "collect_stream_loop req [] st = st"
| "collect_stream_loop req ((se, t) # rest) (k, acc) =
     (if \<not> eraser_matches se req then collect_stream_loop req rest (k, acc)
      else if tk_scoped k
      then (case ownedBySubject (rq_SubjectID req) t k of
              (k', False) \<Rightarrow> collect_stream_loop req rest (k', acc)
            | (k', True) \<Rightarrow>
                collect_stream_loop req rest (k'\<lparr>tk_matched := True\<rparr>, collect_key se (remember se acc)))
      else collect_stream_loop req rest (k\<lparr>tk_matched := True\<rparr>, collect_key se acc))"

definition collectStreamKeys ::
  "(stored_event \<Rightarrow> subject_attribution) \<Rightarrow> stored_event list \<Rightarrow> erasure_request \<Rightarrow> erase_acc \<Rightarrow>
   stream_key_tally \<times> erase_acc" where
  "collectStreamKeys att stored req acc =
     (let (k, ats) = attributeStream att stored (rq_SubjectID req)
            \<lparr>tk_scoped = False, tk_matched = False, tk_untagged = 0, tk_shared = False\<rparr>
      in collect_stream_loop req (zip stored ats) (k, acc))"

record stream_scope_counts =
  sc_legacyStreams :: nat
  sc_mixedStreams :: nat
  sc_untaggedSkipped :: nat

definition scope_add :: "stream_key_tally \<Rightarrow> stream_scope_counts \<Rightarrow> stream_scope_counts" where
  "scope_add t c =
     (let c' = (if \<not> tk_scoped t then c\<lparr>sc_legacyStreams := sc_legacyStreams c + 1\<rparr> else c)
      in if tk_untagged t > 0
         then c'\<lparr>sc_mixedStreams := sc_mixedStreams c' + 1, sc_untaggedSkipped := sc_untaggedSkipped c' + tk_untagged t\<rparr>
         else c')"

definition scope_annotate :: "stream_scope_counts \<Rightarrow> nat \<Rightarrow> erasure_result \<Rightarrow> erasure_result" where
  "scope_annotate c listed r =
     (let r' = (if sc_legacyStreams c > 0
                then r\<lparr>rs_Notes := rs_Notes r @ [LegacyStreamsNote (sc_legacyStreams c) listed]\<rparr> else r)
      in if sc_untaggedSkipped c > 0
         then r'\<lparr>rs_Partial := True,
                 rs_Notes := rs_Notes r' @ [UntaggedSkippedNote (sc_untaggedSkipped c) (sc_mixedStreams c)]\<rparr>
         else r')"

definition NewErasureError :: "string \<Rightarrow> error \<Rightarrow> error" where
  "NewErasureError subjectID cause = ErasureError subjectID cause"

definition loadErasureStream ::
  "('d, 'a) eraser_env \<Rightarrow> 'a \<Rightarrow> string \<Rightarrow> string \<Rightarrow> error + stored_event list option" where
  "loadErasureStream ev a subjectID streamID =
     (case LoadRaw (bs_ops (ev_store ev)) a streamID 0 of
        Inl err \<Rightarrow>
          if errors_Is err ErrStreamNotFound then Inr None
          else Inl (NewErasureError subjectID (Wrap ''failed to load stream'' err))
      | Inr stored \<Rightarrow> Inr (Some stored))"

fun discover_stream_loop ::
  "ctx \<Rightarrow> ('d, 'a) eraser_env \<Rightarrow> 'x data_eraser \<Rightarrow> 'a \<Rightarrow> erasure_request \<Rightarrow> string list \<Rightarrow>
   stream_scope_counts \<times> string list \<times> erase_acc \<Rightarrow> error + (stream_scope_counts \<times> string list \<times> erase_acc)" where
  "discover_stream_loop ctx ev e a req [] st = Inr st"
| "discover_stream_loop ctx ev e a req (streamID # streams) (scope, sharedSet, acc) =
     (case ctx of
        Some err \<Rightarrow> Inl err
      | None \<Rightarrow>
          (case loadErasureStream ev a (rq_SubjectID req) streamID of
             Inl err \<Rightarrow> Inl err
           | Inr None \<Rightarrow> discover_stream_loop ctx ev e a req streams (scope, sharedSet, acc)
           | Inr (Some stored) \<Rightarrow>
               (case collectStreamKeys (eraser_attribute ev e a) stored req acc of
                  (tally, acc') \<Rightarrow>
                    discover_stream_loop ctx ev e a req streams
                      (scope_add tally scope,
                       (if tk_matched tally \<and> tk_shared tally then List.insert streamID sharedSet else sharedSet),
                       acc'))))"

definition discoverKeysByStream ::
  "ctx \<Rightarrow> ('d, 'a) eraser_env \<Rightarrow> 'x data_eraser \<Rightarrow> 'a \<Rightarrow> erasure_request \<Rightarrow> erase_acc \<Rightarrow> error + erase_acc" where
  "discoverKeysByStream ctx ev e a req acc =
     (case discover_stream_loop ctx ev e a req (rq_Streams req)
             (\<lparr>sc_legacyStreams = 0, sc_mixedStreams = 0, sc_untaggedSkipped = 0\<rparr>, [], acc) of
        Inl err \<Rightarrow> Inl err
      | Inr (scope, sharedSet, acc') \<Rightarrow>
          Inr (acc'\<lparr>ea_result := scope_annotate scope (length (rq_Streams req))
                      ((ea_result acc')\<lparr>rs_SharedStreams := sortedSet sharedSet\<rparr>)\<rparr>))"

definition collect_scan_key ::
  "(stored_event \<Rightarrow> subject_attribution) \<Rightarrow> erasure_request \<Rightarrow> stored_event \<Rightarrow> string list \<times> erase_acc \<Rightarrow>
   string list \<times> erase_acc" where
  "collect_scan_key att req se st =
     (let (matchedStreams, acc) = st
      in if \<not> eraser_matches se req then st
         else (List.insert (se_StreamID se) matchedStreams,
               collect_key se
                 (if rs_attributed (ea_result acc) \<noteq> None \<and> at_to (att se) (rq_SubjectID req)
                  then remember se acc else acc)))"

fun sharedStreamsOf_loop ::
  "ctx \<Rightarrow> ('d, 'a) eraser_env \<Rightarrow> 'x data_eraser \<Rightarrow> 'a \<Rightarrow> string \<Rightarrow> string list \<Rightarrow> string list \<Rightarrow> error + string list" where
  "sharedStreamsOf_loop ctx ev e a subjectID [] shared = Inr shared"
| "sharedStreamsOf_loop ctx ev e a subjectID (streamID # streams) shared =
     (case ctx of
        Some err \<Rightarrow> Inl err
      | None \<Rightarrow>
          (case LoadRaw (bs_ops (ev_store ev)) a streamID 0 of
             Inl err \<Rightarrow>
               if errors_Is err ErrStreamNotFound then sharedStreamsOf_loop ctx ev e a subjectID streams shared
               else Inl (NewErasureError subjectID (Wrap ''failed to load stream'' err))
           | Inr stored \<Rightarrow>
               sharedStreamsOf_loop ctx ev e a subjectID streams
                 (if streamSharedWithOthers (bs_lib (ev_store ev)) (bs_store (ev_store ev) a) (eraser_tagger e) stored subjectID
                  then List.insert streamID shared else shared)))"

definition sharedStreamsOf ::
  "ctx \<Rightarrow> ('d, 'a) eraser_env \<Rightarrow> 'x data_eraser \<Rightarrow> 'a \<Rightarrow> string \<Rightarrow> string list \<Rightarrow> error + string list" where
  "sharedStreamsOf ctx ev e a subjectID streams =
     (case sharedStreamsOf_loop ctx ev e a subjectID streams [] of
        Inl err \<Rightarrow> Inl err
      | Inr shared \<Rightarrow> Inr (sortedSet shared))"

definition discoverKeysByScan ::
  "nat \<Rightarrow> ctx \<Rightarrow> ('d, 'a) eraser_env \<Rightarrow> 'x data_eraser \<Rightarrow> 'a \<Rightarrow> erasure_request \<Rightarrow> erase_acc \<Rightarrow>
   (error + erase_acc) option" where
  "discoverKeysByScan fuel ctx ev e a req acc =
     (if bs_sub (ev_store ev) = None
      then Some (Inl (NewErasureError (rq_SubjectID req) ErrErasureScanNotSupported))
      else (case scan_loop fuel
                   (scan_page ctx (ev_store ev) a (de_batchSize e)
                      (\<lambda>err. NewErasureError (rq_SubjectID req) (Wrap ''failed to scan events'' err)))
                   se_GlobalPosition
                   (\<lambda>se st. (collect_scan_key (eraser_attribute ev e a) req se st, None)) 0 ([], acc) of
              None \<Rightarrow> None
            | Some (st, Some err) \<Rightarrow> Some (Inl err)
            | Some ((matchedStreams, acc'), None) \<Rightarrow>
                (case sharedStreamsOf ctx ev e a (rq_SubjectID req) matchedStreams of
                   Inl err \<Rightarrow> Some (Inl err)
                 | Inr shared \<Rightarrow>
                     Some (Inr (acc'\<lparr>ea_result := (ea_result acc')\<lparr>rs_SharedStreams := shared\<rparr>\<rparr>)))))"

definition discoverKeys ::
  "nat \<Rightarrow> ctx \<Rightarrow> ('d, 'a) eraser_env \<Rightarrow> 'x data_eraser \<Rightarrow> 'a \<Rightarrow> erasure_request \<Rightarrow> erase_acc \<Rightarrow>
   (error + erase_acc) option" where
  "discoverKeys fuel ctx ev e a req acc =
     (if length (rq_Streams req) > 0 then Some (discoverKeysByStream ctx ev e a req acc)
      else discoverKeysByScan fuel ctx ev e a req acc)"

section \<open>The shared-key guard and revocation\<close>

definition shared_key_event ::
  "(stored_event \<Rightarrow> subject_attribution) \<Rightarrow> string \<Rightarrow> string list \<Rightarrow> stored_event \<Rightarrow> string list \<times> string list \<Rightarrow>
   string list \<times> string list" where
  "shared_key_event att target keySet se st =
     (let (shared, others) = st
      in if \<not> HasEncryptionEnvelope (se_Metadata se) then st
         else let keyID = GetEncryptionKeyID (se_Metadata se)
              in if keyID \<notin> set keySet then st
                 else let t = att se; co = filter (\<lambda>s. s \<noteq> target) (at_subjects t)
                      in (if attributed t \<and> co = [] then shared else List.insert keyID shared,
                          fold List.insert co others))"

definition detectSharedKeys ::
  "nat \<Rightarrow> ctx \<Rightarrow> ('d, 'a) eraser_env \<Rightarrow> 'x data_eraser \<Rightarrow> 'a \<Rightarrow> string \<Rightarrow> string list \<Rightarrow>
   (error + error option) option" where
  "detectSharedKeys fuel ctx ev e a target keySet =
     (if bs_sub (ev_store ev) = None
      then Some (Inl (NewErasureError target (Wrap ''shared-key guard needs event scanning'' ErrErasureScanNotSupported)))
      else (case scan_loop fuel
                   (scan_page ctx (ev_store ev) a (de_batchSize e) (\<lambda>err. NewErasureError target (Wrap ''shared-key scan'' err)))
                   se_GlobalPosition
                   (\<lambda>se st. (shared_key_event (eraser_attribute ev e a) target keySet se st, None)) 0 ([], []) of
              None \<Rightarrow> None
            | Some (st, Some err) \<Rightarrow> Some (Inl err)
            | Some ((shared, others), None) \<Rightarrow>
                if length shared = 0 then Some (Inr None)
                else Some (Inr (Some (SharedKeyError target (sortedSet shared) (sampleSet others 10) (length others))))))"

text \<open>Revoke each key; the loop ends at a provider that cannot revoke at all.\<close>

fun revoke_loop ::
  "('d, 'a) eraser_env \<Rightarrow> string \<Rightarrow> string list \<Rightarrow> 'a \<Rightarrow> erasure_result \<Rightarrow> 'a \<times> (error + erasure_result)" where
  "revoke_loop ev subjectID [] a r = (a, Inr r)"
| "revoke_loop ev subjectID (keyID # keys) a r =
     (case ev_RevokeKey ev a keyID of
        (a', Some err) \<Rightarrow>
          if errors_Is err ErrRevocationUnsupported
          then (a', Inl (NewErasureError subjectID ErrRevocationUnsupported))
          else revoke_loop ev subjectID keys a'
                 (r\<lparr>rs_Errors := rs_Errors r @ [Wrap ''revoke key'' err], rs_KeysFailed := rs_KeysFailed r @ [keyID]\<rparr>)
      | (a', None) \<Rightarrow> revoke_loop ev subjectID keys a' (r\<lparr>rs_KeysRevoked := rs_KeysRevoked r @ [keyID]\<rparr>))"

fun revoke_late_loop :: "('d, 'a) eraser_env \<Rightarrow> string list \<Rightarrow> 'a \<Rightarrow> erasure_result \<Rightarrow> 'a \<times> erasure_result" where
  "revoke_late_loop ev [] a r = (a, r)"
| "revoke_late_loop ev (k # keys) a r =
     (case ev_RevokeKey ev a k of
        (a', Some err) \<Rightarrow>
          revoke_late_loop ev keys a'
            (r\<lparr>rs_Errors := rs_Errors r @ [Wrap ''revoke late key'' err], rs_KeysFailed := rs_KeysFailed r @ [k]\<rparr>)
      | (a', None) \<Rightarrow> revoke_late_loop ev keys a' (r\<lparr>rs_KeysRevoked := rs_KeysRevoked r @ [k]\<rparr>))"

definition sort_keys :: "erasure_result \<Rightarrow> erasure_result" where
  "sort_keys r = r\<lparr>rs_KeysRevoked := sort (rs_KeysRevoked r), rs_KeysFailed := sort (rs_KeysFailed r)\<rparr>"

definition reconcileAfterRevoke ::
  "nat \<Rightarrow> ctx \<Rightarrow> ('d, 'a) eraser_env \<Rightarrow> 'x data_eraser \<Rightarrow> subject_resolver \<Rightarrow> string \<Rightarrow> string list \<Rightarrow> 'a \<Rightarrow>
   erasure_result \<Rightarrow> ('a \<times> erasure_result) option" where
  "reconcileAfterRevoke fuel ctx ev e resolver subjectID keySet a r =
     (case Resolve fuel ctx (ev_store ev) resolver a subjectID of
        None \<Rightarrow> None
      | Some (Inl err) \<Rightarrow> Some (a, r\<lparr>rs_Errors := rs_Errors r @ [Wrap ''post-revoke re-resolve'' err]\<rparr>)
      | Some (Inr fp) \<Rightarrow>
          let newKeys = filter (\<lambda>k. k \<notin> set keySet) (fp_KeyIDs fp);
              late = (let (a', r') = revoke_late_loop ev newKeys a r
                      in (a', (sort_keys r')\<lparr>rs_Partial := True,
                            rs_Errors := rs_Errors r' @ [Errorf ''subject had events appended during erasure'']\<rparr>))
          in if length newKeys = 0 then Some (a, r)
             else if de_sharedKeyGuard e \<and> \<not> de_allowSharedKey e
             then (case detectSharedKeys fuel ctx ev e a subjectID newKeys of
                     None \<Rightarrow> None
                   | Some (Inl derr) \<Rightarrow>
                       Some (a, r\<lparr>rs_Errors := rs_Errors r @ [Wrap ''post-revoke shared-key check'' derr], rs_Partial := True\<rparr>)
                   | Some (Inr (Some serr)) \<Rightarrow> Some (a, r\<lparr>rs_Errors := rs_Errors r @ [serr], rs_Partial := True\<rparr>)
                   | Some (Inr None) \<Rightarrow> Some late)
             else Some late)"

end
