(* ===== verification/Retention.thy ===== *)
theory Retention
  imports Erasure
begin

text \<open>
  Retention sweeps (\<^verbatim>\<open>retention.go\<close>): policies and their matchers, the scan with its resume
  frontier and scan cap, the shared-key guard, the revocation and the report.

  The state has three parts: \<open>'a\<close> is the event store's (as in the eraser, whose environment is
  reused for the reads and the revocation), \<open>'x\<close> what the policies' \<^verbatim>\<open>Apply\<close> hooks act on, and
  \<open>'k\<close> the checkpoint store.  The clock is read once per sweep and is an argument.
\<close>

section \<open>Policies\<close>

datatype RetentionAction = ActionShred | ActionRedactFields | ActionAnonymize | ActionUnknown int

fun RetentionAction_String :: "RetentionAction \<Rightarrow> string" where
  "RetentionAction_String ActionShred = ''Shred''"
| "RetentionAction_String ActionRedactFields = ''RedactFields''"
| "RetentionAction_String ActionAnonymize = ''Anonymize''"
| "RetentionAction_String (ActionUnknown n) = ''Unknown''"

record 'x retention_policy =
  rp_Name :: string
  rp_Category :: string
  rp_StreamPrefix :: string
  rp_EventTypes :: "string list"
  rp_TenantID :: string
  rp_MaxAge :: duration
  rp_Action :: RetentionAction
  rp_Fields :: "string list"
  rp_Apply :: "('x \<Rightarrow> stored_event \<Rightarrow> 'x \<times> error option) option"

definition policy_unscoped :: "'x retention_policy \<Rightarrow> bool" where
  "policy_unscoped p \<longleftrightarrow>
     rp_Category p = [] \<and> rp_StreamPrefix p = [] \<and> length (rp_EventTypes p) = 0 \<and>
     rp_TenantID p = [] \<and> rp_MaxAge p \<le> 0"

definition policy_Validate :: "'x retention_policy \<Rightarrow> error option" where
  "policy_Validate p =
     (if policy_unscoped p then Some (Wrap ''mink: retention policy'' ErrRetentionUnscopedPolicy)
      else if (rp_Action p = ActionRedactFields \<or> rp_Action p = ActionAnonymize) \<and> rp_Apply p = None
      then Some (Errorf ''mink: retention policy has no Apply hook'') else None)"

text \<open>The text before the first hyphen, unless the hyphen comes first or is missing.\<close>

definition streamCategory :: "string \<Rightarrow> string" where
  "streamCategory streamID =
     (let i = length (takeWhile (\<lambda>c. c \<noteq> CHR ''-'') streamID)
      in if 0 < i \<and> i < length streamID then take i streamID else streamID)"

definition matchesStatic :: "'x retention_policy \<Rightarrow> stored_event \<Rightarrow> bool" where
  "matchesStatic p se =
     (if rp_Category p \<noteq> [] \<and> streamCategory (se_StreamID se) \<noteq> rp_Category p then False
      else if rp_StreamPrefix p \<noteq> [] \<and> \<not> hasPrefix (se_StreamID se) (rp_StreamPrefix p) then False
      else if rp_TenantID p \<noteq> [] \<and> md_TenantID (se_Metadata se) \<noteq> rp_TenantID p then False
      else if length (rp_EventTypes p) > 0 \<and> \<not> containsString (rp_EventTypes p) (se_Type se) then False
      else True)"

definition ageEligible :: "'x retention_policy \<Rightarrow> stored_event \<Rightarrow> time \<Rightarrow> bool" where
  "ageEligible p se now \<longleftrightarrow> rp_MaxAge p \<le> 0 \<or> now - se_Timestamp se \<ge> rp_MaxAge p"

section \<open>The report and the manager\<close>

record retention_report =
  rr_DryRun :: bool
  rr_Scanned :: int
  rr_Truncated :: bool
  rr_Matched :: int
  rr_Acted :: int
  rr_Skipped :: int
  rr_UnencryptedMatches :: int
  rr_KeysToRevoke :: "string list"
  rr_SharedKeysSkipped :: "string list"
  rr_KeysRevoked :: "string list"
  rr_Errors :: "error list"

definition new_retention_report :: "bool \<Rightarrow> retention_report" where
  "new_retention_report dryRun =
     \<lparr>rr_DryRun = dryRun, rr_Scanned = 0, rr_Truncated = False, rr_Matched = 0, rr_Acted = 0, rr_Skipped = 0,
      rr_UnencryptedMatches = 0, rr_KeysToRevoke = [], rr_SharedKeysSkipped = [], rr_KeysRevoked = [], rr_Errors = []\<rparr>"

definition Report_Failed :: "retention_report \<Rightarrow> bool" where
  "Report_Failed r \<longleftrightarrow> length (rr_Errors r) > 0"

record 'k retention_checkpoint =
  rc_name :: string
  rc_GetCheckpoint :: "'k \<Rightarrow> string \<Rightarrow> error + nat"
  rc_SetCheckpoint :: "'k \<Rightarrow> string \<Rightarrow> nat \<Rightarrow> 'k \<times> error option"

record ('x, 'k) retention_manager =
  rm_policies :: "'x retention_policy list"
  rm_batchSize :: int
  rm_checkpoint :: "'k retention_checkpoint option"
  rm_maxScan :: int
  rm_allowSharedKey :: bool

definition WithRetentionBatchSize :: "int \<Rightarrow> ('x, 'k) retention_manager \<Rightarrow> ('x, 'k) retention_manager" where
  "WithRetentionBatchSize n m = (if n > 0 then m\<lparr>rm_batchSize := n\<rparr> else m)"

text \<open>A checkpoint store is a pair of operations; \<open>None\<close> is the nil store.\<close>

definition WithRetentionCheckpoint ::
  "(('k \<Rightarrow> string \<Rightarrow> error + nat) \<times> ('k \<Rightarrow> string \<Rightarrow> nat \<Rightarrow> 'k \<times> error option)) option \<Rightarrow> string \<Rightarrow>
   ('x, 'k) retention_manager \<Rightarrow> ('x, 'k) retention_manager" where
  "WithRetentionCheckpoint store name m =
     (case store of
        None \<Rightarrow> m
      | Some (getCp, setCp) \<Rightarrow>
          if name \<noteq> []
          then m\<lparr>rm_checkpoint := Some \<lparr>rc_name = name, rc_GetCheckpoint = getCp, rc_SetCheckpoint = setCp\<rparr>\<rparr> else m)"

definition WithRetentionMaxScan :: "int \<Rightarrow> ('x, 'k) retention_manager \<Rightarrow> ('x, 'k) retention_manager" where
  "WithRetentionMaxScan n m = (if n > 0 then m\<lparr>rm_maxScan := n\<rparr> else m)"

definition WithAllowSharedKeyRevocation :: "('x, 'k) retention_manager \<Rightarrow> ('x, 'k) retention_manager" where
  "WithAllowSharedKeyRevocation m = m\<lparr>rm_allowSharedKey := True\<rparr>"

definition NewRetentionManager ::
  "'x retention_policy list \<Rightarrow> (('x, 'k) retention_manager \<Rightarrow> ('x, 'k) retention_manager) list \<Rightarrow>
   ('x, 'k) retention_manager" where
  "NewRetentionManager policies opts = fold (\<lambda>o' m. o' m) opts
     \<lparr>rm_policies = policies, rm_batchSize = 1000, rm_checkpoint = None, rm_maxScan = 0, rm_allowSharedKey = False\<rparr>"

definition Manager_Validate :: "('x, 'k) retention_manager \<Rightarrow> error list" where
  "Manager_Validate m = List.map_filter policy_Validate (rm_policies m)"

section \<open>Paging\<close>

text \<open>The scan loop that also ends at a page shorter than the batch size, over a step that may
  stop it (\<^verbatim>\<open>break scan\<close>).\<close>

fun foldB :: "('e \<Rightarrow> 's \<Rightarrow> 's \<times> bool) \<Rightarrow> 'e list \<Rightarrow> 's \<Rightarrow> 's \<times> bool" where
  "foldB f [] s = (s, False)"
| "foldB f (e # es) s = (case f e s of (s', True) \<Rightarrow> (s', True) | (s', False) \<Rightarrow> foldB f es s')"

fun short_scan ::
  "nat \<Rightarrow> (nat \<Rightarrow> error + 'e list) \<Rightarrow> ('e \<Rightarrow> nat) \<Rightarrow> int \<Rightarrow> ('e \<Rightarrow> 's \<Rightarrow> 's \<times> bool) \<Rightarrow> nat \<Rightarrow> 's \<Rightarrow>
   ('s \<times> error option) option" where
  "short_scan 0 load pos n f position s = None"
| "short_scan (Suc fuel) load pos n f position s =
     (case load position of
        Inl err \<Rightarrow> Some (s, Some err)
      | Inr batch \<Rightarrow>
          if batch = [] then Some (s, None)
          else (case foldB f batch s of
                  (s', True) \<Rightarrow> Some (s', None)
                | (s', False) \<Rightarrow>
                    if int (length batch) < n then Some (s', None)
                    else short_scan fuel load pos n f (pos (last batch)) s'))"

section \<open>Shred candidates\<close>

record shred_candidates =
  sh_matches :: "(string, int) gomap"
  sh_frontier :: "(string, nat) gomap"
  sh_floor :: nat
  sh_any :: bool

definition newShredCandidates :: shred_candidates where
  "newShredCandidates = \<lparr>sh_matches = [], sh_frontier = [], sh_floor = 0, sh_any = False\<rparr>"

definition shred_add :: "string \<Rightarrow> nat \<Rightarrow> shred_candidates \<Rightarrow> shred_candidates" where
  "shred_add keyID frontier c =
     (let c1 = (if map_of (sh_frontier c) keyID \<noteq> None then c
                else c\<lparr>sh_frontier := AList.update keyID frontier (sh_frontier c),
                       sh_floor := (if \<not> sh_any c \<or> frontier < sh_floor c then frontier else sh_floor c),
                       sh_any := True\<rparr>)
      in c1\<lparr>sh_matches := AList.update keyID
              ((case map_of (sh_matches c1) keyID of None \<Rightarrow> 0 | Some n \<Rightarrow> n) + 1) (sh_matches c1)\<rparr>)"

definition shred_keys :: "shred_candidates \<Rightarrow> string list" where
  "shred_keys c = map fst (sh_matches c)"

definition shred_settled :: "shred_candidates \<Rightarrow> nat \<Rightarrow> nat" where
  "shred_settled c frontier = (if sh_any c \<and> sh_floor c < frontier then sh_floor c else frontier)"

section \<open>One event\<close>

text \<open>What the scan threads through the events: the hooks' state, the candidates, the report and
  the resume frontier.\<close>

record 'x sweep =
  sw_ext :: 'x
  sw_shred :: shred_candidates
  sw_report :: retention_report
  sw_frontier :: nat
  sw_frozen :: bool

definition act :: "'x retention_policy \<Rightarrow> stored_event \<Rightarrow> nat \<Rightarrow> bool \<Rightarrow> 'x sweep \<Rightarrow> 'x sweep" where
  "act p se frontier dryRun sw =
     (let r = sw_report sw
      in case rp_Action p of
           ActionShred \<Rightarrow>
             if \<not> HasEncryptionEnvelope (se_Metadata se)
             then sw\<lparr>sw_report := r\<lparr>rr_UnencryptedMatches := rr_UnencryptedMatches r + 1,
                                   rr_Skipped := (if dryRun then rr_Skipped r else rr_Skipped r + 1)\<rparr>\<rparr>
             else sw\<lparr>sw_shred := shred_add (GetEncryptionKeyID (se_Metadata se)) frontier (sw_shred sw)\<rparr>
         | ActionUnknown n \<Rightarrow> sw
         | _ \<Rightarrow>
             if dryRun then sw
             else (case rp_Apply p of
                     None \<Rightarrow> sw\<lparr>sw_report := r\<lparr>rr_Skipped := rr_Skipped r + 1\<rparr>\<rparr>
                   | Some hook \<Rightarrow>
                       (case hook (sw_ext sw) se of
                          (x', Some err) \<Rightarrow>
                            sw\<lparr>sw_ext := x', sw_report := r\<lparr>rr_Errors := rr_Errors r @ [Wrap ''policy apply'' err]\<rparr>\<rparr>
                        | (x', None) \<Rightarrow> sw\<lparr>sw_ext := x', sw_report := r\<lparr>rr_Acted := rr_Acted r + 1\<rparr>\<rparr>)))"

fun policy_loop ::
  "time \<Rightarrow> bool \<Rightarrow> stored_event \<Rightarrow> 'x retention_policy list \<Rightarrow> 'x sweep \<times> bool \<Rightarrow> 'x sweep \<times> bool" where
  "policy_loop now dryRun se [] st = st"
| "policy_loop now dryRun se (p # ps) (sw, pending) =
     (if \<not> matchesStatic p se then policy_loop now dryRun se ps (sw, pending)
      else if ageEligible p se now
      then policy_loop now dryRun se ps
             (act p se (sw_frontier sw) dryRun
                (sw\<lparr>sw_report := (sw_report sw)\<lparr>rr_Matched := rr_Matched (sw_report sw) + 1\<rparr>\<rparr>), pending)
      else policy_loop now dryRun se ps (sw, True))"

definition sweep_event ::
  "'x retention_policy list \<Rightarrow> time \<Rightarrow> bool \<Rightarrow> int \<Rightarrow> nat \<Rightarrow> stored_event \<Rightarrow> 'x sweep \<Rightarrow> 'x sweep \<times> bool" where
  "sweep_event active now dryRun maxScan startPos se sw0 =
     (let sw1 = sw0\<lparr>sw_report := (sw_report sw0)\<lparr>rr_Scanned := rr_Scanned (sw_report sw0) + 1\<rparr>\<rparr>;
          (sw2, pending) = policy_loop now dryRun se active (sw1, False);
          sw3 = (if sw_frozen sw2 then sw2
                 else if pending then sw2\<lparr>sw_frozen := True\<rparr>
                 else sw2\<lparr>sw_frontier := se_GlobalPosition se\<rparr>)
      in if maxScan > 0 \<and> rr_Scanned (sw_report sw3) \<ge> maxScan \<and>
            shred_settled (sw_shred sw3) (sw_frontier sw3) > startPos
         then (sw3\<lparr>sw_report := (sw_report sw3)\<lparr>rr_Truncated := True\<rparr>\<rparr>, True)
         else (sw3, False))"

section \<open>The shared-key guard and the revocation\<close>

definition coveredByShred :: "stored_event \<Rightarrow> 'x retention_policy list \<Rightarrow> time \<Rightarrow> bool" where
  "coveredByShred se policies now \<longleftrightarrow>
     list_ex (\<lambda>p. rp_Action p = ActionShred \<and> matchesStatic p se \<and> ageEligible p se now) policies"

definition tallyOutOfScopeKeys ::
  "string list \<Rightarrow> 'x retention_policy list \<Rightarrow> time \<Rightarrow> stored_event \<Rightarrow> (string, nat) gomap \<Rightarrow> (string, nat) gomap" where
  "tallyOutOfScopeKeys candidates policies now se outOfScope =
     (if \<not> HasEncryptionEnvelope (se_Metadata se) then outOfScope
      else let keyID = GetEncryptionKeyID (se_Metadata se)
           in if keyID \<notin> set candidates then outOfScope
              else if \<not> coveredByShred se policies now
              then AList.update keyID (Suc (case map_of outOfScope keyID of None \<Rightarrow> 0 | Some n \<Rightarrow> n)) outOfScope
              else outOfScope)"

definition detectSharedShredKeys ::
  "nat \<Rightarrow> ctx \<Rightarrow> ('d, 'a) eraser_env \<Rightarrow> int \<Rightarrow> 'a \<Rightarrow> string list \<Rightarrow> 'x retention_policy list \<Rightarrow> time \<Rightarrow>
   (error + (string, nat) gomap) option" where
  "detectSharedShredKeys fuel ctx ev batchSize a candidates policies now =
     (case short_scan fuel
             (scan_page ctx (ev_store ev) a batchSize (Wrap ''mink: retention shared-key scan''))
             se_GlobalPosition batchSize
             (\<lambda>se os. (tallyOutOfScopeKeys candidates policies now se os, False)) 0 [] of
        None \<Rightarrow> None
      | Some (os, Some err) \<Rightarrow> Some (Inl err)
      | Some (os, None) \<Rightarrow> Some (Inr os))"

fun guard_loop :: "(string, nat) gomap \<Rightarrow> string list \<Rightarrow> retention_report \<Rightarrow> retention_report" where
  "guard_loop outOfScope [] r = r"
| "guard_loop outOfScope (k # ks) r =
     (case map_of outOfScope k of
        Some n \<Rightarrow>
          guard_loop outOfScope ks
            (r\<lparr>rr_SharedKeysSkipped := rr_SharedKeysSkipped r @ [k],
               rr_Errors := rr_Errors r @ [RetentionSharedKeyError k n]\<rparr>)
      | None \<Rightarrow> guard_loop outOfScope ks (r\<lparr>rr_KeysToRevoke := rr_KeysToRevoke r @ [k]\<rparr>))"

definition guardSharedKeys ::
  "nat \<Rightarrow> ctx \<Rightarrow> ('d, 'a) eraser_env \<Rightarrow> ('x, 'k) retention_manager \<Rightarrow> 'a \<Rightarrow> string list \<Rightarrow> 'x retention_policy list \<Rightarrow>
   time \<Rightarrow> retention_report \<Rightarrow> (error + retention_report) option" where
  "guardSharedKeys fuel ctx ev m a candidates policies now r =
     (case (if rm_allowSharedKey m then Some (Inr [])
            else detectSharedShredKeys fuel ctx ev (rm_batchSize m) a candidates policies now) of
        None \<Rightarrow> None
      | Some (Inl err) \<Rightarrow> Some (Inl err)
      | Some (Inr outOfScope) \<Rightarrow>
          let r' = guard_loop outOfScope candidates r
          in Some (Inr (r'\<lparr>rr_KeysToRevoke := sort (rr_KeysToRevoke r'),
                           rr_SharedKeysSkipped := sort (rr_SharedKeysSkipped r')\<rparr>)))"

fun retention_revoke_loop ::
  "('d, 'a) eraser_env \<Rightarrow> string list \<Rightarrow> 'a \<Rightarrow> retention_report \<Rightarrow> 'a \<times> retention_report" where
  "retention_revoke_loop ev [] a r = (a, r)"
| "retention_revoke_loop ev (k # ks) a r =
     (case ev_RevokeKey ev a k of
        (a', Some err) \<Rightarrow>
          retention_revoke_loop ev ks a' (r\<lparr>rr_Errors := rr_Errors r @ [Wrap ''revoke key'' err]\<rparr>)
      | (a', None) \<Rightarrow> retention_revoke_loop ev ks a' (r\<lparr>rr_KeysRevoked := rr_KeysRevoked r @ [k]\<rparr>))"

definition retention_revoke :: "('d, 'a) eraser_env \<Rightarrow> 'a \<Rightarrow> retention_report \<Rightarrow> 'a \<times> retention_report" where
  "retention_revoke ev a r =
     (if length (rr_KeysToRevoke r) = 0 then (a, r)
      else if es_encryption (bs_store (ev_store ev) a) = None
      then (a, r\<lparr>rr_Errors := rr_Errors r @ [ErrErasureNotConfigured]\<rparr>)
      else (case retention_revoke_loop ev (rr_KeysToRevoke r) a r of
              (a', r') \<Rightarrow> (a', r'\<lparr>rr_KeysRevoked := sort (rr_KeysRevoked r')\<rparr>)))"

section \<open>The sweep\<close>

text \<open>The accounting after the revocation: matches of a revoked key were acted on, those of any
  other key are residual and hold the frontier back.\<close>

fun settle_loop ::
  "(string, nat) gomap \<Rightarrow> (string, int) gomap \<Rightarrow> retention_report \<times> nat \<Rightarrow> retention_report \<times> nat" where
  "settle_loop frontiers [] st = st"
| "settle_loop frontiers ((k, n) # ms) (r, frontier) =
     (if k \<in> set (rr_KeysRevoked r)
      then settle_loop frontiers ms (r\<lparr>rr_Acted := rr_Acted r + n\<rparr>, frontier)
      else let f = (case map_of frontiers k of None \<Rightarrow> 0 | Some f \<Rightarrow> f)
           in settle_loop frontiers ms (r\<lparr>rr_Skipped := rr_Skipped r + n\<rparr>, if f < frontier then f else frontier))"

fun policy_errors_loop :: "'x retention_policy list \<Rightarrow> retention_report \<Rightarrow> retention_report" where
  "policy_errors_loop [] r = r"
| "policy_errors_loop (p # ps) r =
     policy_errors_loop ps (case policy_Validate p of None \<Rightarrow> r | Some err \<Rightarrow> r\<lparr>rr_Errors := rr_Errors r @ [err]\<rparr>)"

definition active_policies :: "('x, 'k) retention_manager \<Rightarrow> 'x retention_policy list" where
  "active_policies m = filter (\<lambda>p. \<not> policy_unscoped p) (rm_policies m)"

definition sweep_scan ::
  "nat \<Rightarrow> ctx \<Rightarrow> ('d, 'a) eraser_env \<Rightarrow> ('x, 'k) retention_manager \<Rightarrow> time \<Rightarrow> bool \<Rightarrow> int \<Rightarrow> nat \<Rightarrow> 'a \<Rightarrow> 'x sweep \<Rightarrow>
   ('x sweep \<times> error option) option" where
  "sweep_scan fuel ctx ev m now dryRun maxScan startPos a sw =
     short_scan fuel (scan_page ctx (ev_store ev) a (rm_batchSize m) (Wrap ''mink: retention scan''))
       se_GlobalPosition (rm_batchSize m) (sweep_event (active_policies m) now dryRun maxScan startPos) startPos sw"

text \<open>Everything after the scan.\<close>

definition sweep_finish ::
  "nat \<Rightarrow> ctx \<Rightarrow> ('d, 'a) eraser_env \<Rightarrow> ('x, 'k) retention_manager \<Rightarrow> time \<Rightarrow> bool \<Rightarrow> nat \<Rightarrow> 'a \<times> 'k \<Rightarrow> 'x sweep \<Rightarrow>
   (('a \<times> 'k) \<times> (error + retention_report)) option" where
  "sweep_finish fuel ctx ev m now dryRun startPos st sw =
     (case st of (a, k) \<Rightarrow>
      let r0 = sw_report sw;
          r1 = (if rr_UnencryptedMatches r0 > 0
                then r0\<lparr>rr_Errors := rr_Errors r0 @ [Wrap ''matched events'' ErrRetentionUnencryptedMatches]\<rparr> else r0)
      in (case (if length (sh_matches (sw_shred sw)) > 0
                then guardSharedKeys fuel ctx ev m a (shred_keys (sw_shred sw)) (active_policies m) now r1
                else Some (Inr r1)) of
            None \<Rightarrow> None
          | Some (Inl err) \<Rightarrow> Some ((a, k), Inl err)
          | Some (Inr r2) \<Rightarrow>
              let (a', r4, frontier) =
                    (if length (sh_matches (sw_shred sw)) > 0 \<and> \<not> dryRun
                     then (case retention_revoke ev a r2 of (a', r3) \<Rightarrow>
                             (a', settle_loop (sh_frontier (sw_shred sw)) (sh_matches (sw_shred sw)) (r3, sw_frontier sw)))
                     else (a, r2, sw_frontier sw))
              in (case rm_checkpoint m of
                    None \<Rightarrow> Some ((a', k), Inr r4)
                  | Some c \<Rightarrow>
                      if \<not> dryRun \<and> frontier > startPos
                      then (case rc_SetCheckpoint c k (rc_name c) frontier of
                              (k', Some err) \<Rightarrow>
                                Some ((a', k'), Inr (r4\<lparr>rr_Errors := rr_Errors r4 @ [Wrap ''mink: retention write checkpoint'' err]\<rparr>))
                            | (k', None) \<Rightarrow> Some ((a', k'), Inr r4))
                      else Some ((a', k), Inr r4))))"

definition retention_run ::
  "nat \<Rightarrow> ctx \<Rightarrow> ('d, 'a) eraser_env \<Rightarrow> ('x, 'k) retention_manager \<Rightarrow> time \<Rightarrow> bool \<Rightarrow> 'a \<times> 'x \<times> 'k \<Rightarrow>
   (('a \<times> 'x \<times> 'k) \<times> (error + retention_report)) option" where
  "retention_run fuel ctx ev m now dryRun st =
     (case st of (a, x, k) \<Rightarrow>
      if bs_sub (ev_store ev) = None then Some (st, Inl ErrExportScanNotSupported)
      else
      let r0 = policy_errors_loop (rm_policies m) (new_retention_report dryRun);
          uncapped = rm_maxScan m > 0 \<and> rm_checkpoint m = None;
          r1 = (if uncapped then r0\<lparr>rr_Errors := rr_Errors r0 @ [ErrRetentionMaxScanNeedsCheckpoint]\<rparr> else r0);
          maxScan = (if uncapped then 0 else rm_maxScan m)
      in (case (case rm_checkpoint m of None \<Rightarrow> Inr 0 | Some c \<Rightarrow> rc_GetCheckpoint c k (rc_name c)) of
            Inl err \<Rightarrow> Some (st, Inl (Wrap ''mink: retention read checkpoint'' err))
          | Inr startPos \<Rightarrow>
              (case sweep_scan fuel ctx ev m now dryRun maxScan startPos a
                      \<lparr>sw_ext = x, sw_shred = newShredCandidates, sw_report = r1, sw_frontier = startPos, sw_frozen = False\<rparr> of
                 None \<Rightarrow> None
               | Some (sw, Some err) \<Rightarrow> Some ((a, sw_ext sw, k), Inl err)
               | Some (sw, None) \<Rightarrow>
                   (case sweep_finish fuel ctx ev m now dryRun startPos (a, k) sw of
                      None \<Rightarrow> None
                    | Some ((a', k'), out) \<Rightarrow> Some ((a', sw_ext sw, k'), out)))))"

definition Retention_Apply ::
  "nat \<Rightarrow> ctx \<Rightarrow> ('d, 'a) eraser_env \<Rightarrow> ('x, 'k) retention_manager \<Rightarrow> time \<Rightarrow> 'a \<times> 'x \<times> 'k \<Rightarrow>
   (('a \<times> 'x \<times> 'k) \<times> (error + retention_report)) option" where
  "Retention_Apply fuel ctx ev m now = retention_run fuel ctx ev m now False"

definition DryRun ::
  "nat \<Rightarrow> ctx \<Rightarrow> ('d, 'a) eraser_env \<Rightarrow> ('x, 'k) retention_manager \<Rightarrow> time \<Rightarrow> 'a \<times> 'x \<times> 'k \<Rightarrow>
   (('a \<times> 'x \<times> 'k) \<times> (error + retention_report)) option" where
  "DryRun fuel ctx ev m now = retention_run fuel ctx ev m now True"

end
