(* ===== verification/Erasure_Certificate.thy ===== *)
theory Erasure_Certificate
  imports Erasure
begin

text \<open>
  The second half of an erasure: propagation to read models, sibling stores and hooks, the
  erasure marker, verification of the subject's events and sibling stores, the certificate, the
  purge of the subject index, and \<^verbatim>\<open>Erase\<close> and \<^verbatim>\<open>Verify\<close> themselves.  The type
  registrations and subject-index writes the append of the marker may make are not kept.
\<close>

section \<open>Propagation\<close>

definition footprint_from :: "erasure_result \<Rightarrow> string \<Rightarrow> subject_footprint" where
  "footprint_from r subjectID =
     \<lparr>fp_SubjectID = subjectID, fp_Streams = rs_Streams r, fp_StreamEventCounts = [], fp_EventCount = 0,
      fp_SharedStreams = rs_SharedStreams r, fp_KeyIDs = rs_KeysRevoked r, fp_CleartextEvents = 0, fp_Partial = False\<rparr>"

definition read_model_done :: "string \<Rightarrow> string \<Rightarrow> error option \<Rightarrow> erasure_result \<Rightarrow> erasure_result" where
  "read_model_done what name err r =
     (case err of
        Some e \<Rightarrow> r\<lparr>rs_Errors := rs_Errors r @ [Wrap what e], rs_ResidualReadModels := rs_ResidualReadModels r @ [name]\<rparr>
      | None \<Rightarrow> r\<lparr>rs_RedactedReadModels := rs_RedactedReadModels r @ [name]\<rparr>)"

fun redact_loop ::
  "(string \<times> ('x \<Rightarrow> string \<Rightarrow> 'x \<times> error option)) list \<Rightarrow> string \<Rightarrow> 'x \<Rightarrow> erasure_result \<Rightarrow> 'x \<times> erasure_result" where
  "redact_loop [] subjectID x r = (x, r)"
| "redact_loop ((name, redact) # rest) subjectID x r =
     (case redact x subjectID of
        (x', err) \<Rightarrow> redact_loop rest subjectID x' (read_model_done ''redact read model'' name err r))"

fun rebuild_models ::
  "(string \<times> ('x \<Rightarrow> 'x \<times> error option)) list \<Rightarrow> 'x \<Rightarrow> erasure_result \<Rightarrow> 'x \<times> erasure_result" where
  "rebuild_models [] x r = (x, r)"
| "rebuild_models ((name, rb) # rest) x r =
     (case rb x of (x', err) \<Rightarrow> rebuild_models rest x' (read_model_done ''rebuild read model'' name err r))"

definition redactReadModels :: "'x data_eraser \<Rightarrow> string \<Rightarrow> 'x \<Rightarrow> erasure_result \<Rightarrow> 'x \<times> erasure_result" where
  "redactReadModels e subjectID x r =
     (case redact_loop (de_redactors e) subjectID x r of (x', r') \<Rightarrow> rebuild_models (de_rebuilders e) x' r')"

fun erase_store_loop ::
  "'x subject_erasable list \<Rightarrow> string \<Rightarrow> subject_footprint \<Rightarrow> 'x \<Rightarrow> string list \<Rightarrow> erasure_result \<Rightarrow>
   'x \<times> string list \<times> erasure_result" where
  "erase_store_loop [] subjectID fp x skipped r = (x, skipped, r)"
| "erase_store_loop (s # ss) subjectID fp x skipped r =
     (case sb_Erase s x subjectID fp of
        (x', outcome0, err) \<Rightarrow>
          let outcome1 = (if eo_Name outcome0 = [] then outcome0\<lparr>eo_Name := sb_Name s\<rparr> else outcome0);
              outcome = (case err of None \<Rightarrow> outcome1 | Some e \<Rightarrow> outcome1\<lparr>eo_Err := Some e\<rparr>);
              r1 = (case err of None \<Rightarrow> r | Some e \<Rightarrow> r\<lparr>rs_Errors := rs_Errors r @ [Wrap ''subject store'' e]\<rparr>)
          in erase_store_loop ss subjectID fp x'
               (if eo_SharedStreamsSkipped outcome > 0 then skipped @ [eo_Name outcome] else skipped)
               (r1\<lparr>rs_SubjectStores := rs_SubjectStores r1 @ [outcome]\<rparr>))"

definition eraseSubjectStores :: "'x data_eraser \<Rightarrow> string \<Rightarrow> 'x \<Rightarrow> erasure_result \<Rightarrow> 'x \<times> erasure_result" where
  "eraseSubjectStores e subjectID x r =
     (if length (de_subjectStores e) = 0 then (x, r)
      else (case erase_store_loop (de_subjectStores e) subjectID (footprint_from r subjectID) x [] r of
              (x', skippedShared, r') \<Rightarrow>
                (x', if length skippedShared > 0
                     then r'\<lparr>rs_Notes := rs_Notes r' @
                            [SharedStreamsNote (length (rs_SharedStreams r')) (length (rs_Streams r')) skippedShared]\<rparr>
                     else r')))"

fun hook_loop ::
  "(string \<times> ('x \<Rightarrow> erasure_context \<Rightarrow> 'x \<times> error option)) list \<Rightarrow> erasure_context \<Rightarrow> 'x \<Rightarrow> erasure_result \<Rightarrow>
   'x \<times> erasure_result" where
  "hook_loop [] ec x r = (x, r)"
| "hook_loop ((name, run) # rest) ec x r =
     (case run x ec of
        (x', Some err) \<Rightarrow> hook_loop rest ec x' (r\<lparr>rs_Errors := rs_Errors r @ [Wrap ''erasure hook'' err]\<rparr>)
      | (x', None) \<Rightarrow> hook_loop rest ec x' (r\<lparr>rs_SideEffects := rs_SideEffects r @ [name]\<rparr>))"

definition runErasureHooks :: "'x data_eraser \<Rightarrow> string \<Rightarrow> 'x \<Rightarrow> erasure_result \<Rightarrow> 'x \<times> erasure_result" where
  "runErasureHooks e subjectID x r =
     hook_loop (de_hooks e)
       \<lparr>ec_SubjectID = subjectID, ec_Streams = rs_Streams r, ec_KeysRevoked = rs_KeysRevoked r\<rparr> x r"

section \<open>The marker\<close>

definition erasureMarkerSubjectKey :: string where "erasureMarkerSubjectKey = ''$erasure_marker_subject''"
definition erasureMarkerEventType :: string where "erasureMarkerEventType = ''ErasureMarker''"

definition marker_subject :: "('d, 'a) eraser_env \<Rightarrow> stored_event \<Rightarrow> string option" where
  "marker_subject ev se =
     (if se_Type se \<noteq> erasureMarkerEventType then None
      else let s = custom_or_empty (se_Metadata se) erasureMarkerSubjectKey
           in if s \<noteq> [] then Some s
              else (case ev_unmarshalMarker ev (se_Data se) of
                      None \<Rightarrow> None
                    | Some m \<Rightarrow> if m \<noteq> [] then Some m else None))"

definition markerExists ::
  "('d, 'a) eraser_env \<Rightarrow> 'x data_eraser \<Rightarrow> 'a \<Rightarrow> marker_cache \<Rightarrow> string \<Rightarrow> marker_cache \<times> bool" where
  "markerExists ev e a mc subjectID =
     (if mc_markedLoaded mc then (mc, subjectID \<in> set (mc_markedSubjects mc))
      else (case LoadRaw (bs_ops (ev_store ev)) a (de_markerStream e) 0 of
              Inl err \<Rightarrow> (mc, False)
            | Inr stored \<Rightarrow>
                let marked = fold (\<lambda>se ms. case marker_subject ev se of None \<Rightarrow> ms | Some s \<Rightarrow> List.insert s ms) stored []
                in (\<lparr>mc_markedSubjects = marked, mc_markedLoaded = True\<rparr>, subjectID \<in> set marked)))"

definition appendMarker ::
  "('d, 'a) eraser_env \<Rightarrow> 'x data_eraser \<Rightarrow> string \<Rightarrow> 'a \<Rightarrow> marker_cache \<Rightarrow> erasure_result \<Rightarrow>
   'a \<times> marker_cache \<times> error option" where
  "appendMarker ev e subjectID a mc r =
     (case markerExists ev e a mc subjectID of
        (mc', True) \<Rightarrow> (a, mc', None)
      | (mc', False) \<Rightarrow>
          let marker = ev_marker ev subjectID (rs_ErasedAt r) (length (rs_KeysRevoked r));
              md = WithCustom empty_metadata erasureMarkerSubjectKey subjectID
          in (case Store_Append (bs_lib (ev_store ev)) (ev_entropy ev) (bs_ops (ev_store ev)) (bs_store (ev_store ev) a) a
                     (de_markerStream e) [marker] [WithAppendMetadata md] of
                (s', a', idx, Some err) \<Rightarrow> (a', mc', Some err)
              | (s', a', idx, None) \<Rightarrow>
                  (a', mc'\<lparr>mc_markedSubjects := List.insert subjectID (mc_markedSubjects mc')\<rparr>, None)))"

section \<open>Verification\<close>

record verification_report =
  vr_SubjectID :: string
  vr_Verified :: bool
  vr_EventsChecked :: int
  vr_RedactedEvents :: int
  vr_Vacuous :: bool
  vr_UnattributedRecoverable :: "string list"
  vr_UnattributedRedacted :: "string list"
  vr_ResidualEncrypted :: "string list"
  vr_ResidualRecoverable :: "string list"
  vr_ResidualCleartext :: "string list"
  vr_ResidualStores :: "(string \<times> int) list"
  vr_UncheckedStores :: "string list"
  vr_Notes :: "erasure_note list"
  vr_Partial :: bool

definition new_report :: "string \<Rightarrow> bool \<Rightarrow> verification_report" where
  "new_report subjectID partial =
     \<lparr>vr_SubjectID = subjectID, vr_Verified = False, vr_EventsChecked = 0, vr_RedactedEvents = 0, vr_Vacuous = False,
      vr_UnattributedRecoverable = [], vr_UnattributedRedacted = [], vr_ResidualEncrypted = [],
      vr_ResidualRecoverable = [], vr_ResidualCleartext = [], vr_ResidualStores = [], vr_UncheckedStores = [],
      vr_Notes = [], vr_Partial = partial\<rparr>"

definition vr_clean :: "verification_report \<Rightarrow> bool" where
  "vr_clean r \<longleftrightarrow>
     length (vr_ResidualEncrypted r) = 0 \<and> length (vr_ResidualRecoverable r) = 0 \<and>
     length (vr_ResidualCleartext r) = 0 \<and> length (vr_ResidualStores r) = 0 \<and> \<not> vr_Partial r"

definition revocationState :: "('d, 'a) eraser_env \<Rightarrow> 'a \<Rightarrow> metadata \<Rightarrow> RevocationState" where
  "revocationState ev a m =
     (if es_encryption (bs_store (ev_store ev) a) = None then NotRevoked
      else (case ev_RevocationState ev a (GetEncryptionKeyID m) of Inl err \<Rightarrow> NotRevoked | Inr st \<Rightarrow> st))"

definition recordChecked ::
  "('d, 'a) eraser_env \<Rightarrow> 'a \<Rightarrow> string \<Rightarrow> metadata \<Rightarrow> verification_report \<Rightarrow> verification_report" where
  "recordChecked ev a ref m r0 =
     (let r = r0\<lparr>vr_EventsChecked := vr_EventsChecked r0 + 1\<rparr>
      in if \<not> HasEncryptionEnvelope m then r\<lparr>vr_ResidualCleartext := vr_ResidualCleartext r @ [ref]\<rparr>
         else (case revocationState ev a m of
                 Revoked \<Rightarrow> r\<lparr>vr_RedactedEvents := vr_RedactedEvents r + 1\<rparr>
               | SoftRevoked \<Rightarrow> r\<lparr>vr_ResidualRecoverable := vr_ResidualRecoverable r @ [ref]\<rparr>
               | NotRevoked \<Rightarrow> r\<lparr>vr_ResidualEncrypted := vr_ResidualEncrypted r @ [ref]\<rparr>))"

definition recordUnattributed ::
  "('d, 'a) eraser_env \<Rightarrow> 'a \<Rightarrow> string \<Rightarrow> metadata \<Rightarrow> verification_report \<Rightarrow> verification_report" where
  "recordUnattributed ev a ref m r =
     (if HasEncryptionEnvelope m \<and> revocationState ev a m = Revoked
      then r\<lparr>vr_UnattributedRedacted := vr_UnattributedRedacted r @ [ref]\<rparr>
      else r\<lparr>vr_UnattributedRecoverable := vr_UnattributedRecoverable r @ [ref], vr_Partial := True\<rparr>)"

definition event_ref :: "stored_event \<Rightarrow> string" where
  "event_ref se = se_StreamID se @ ''@'' @ itoa (se_Version se)"

definition verify_event ::
  "('d, 'a) eraser_env \<Rightarrow> 'x data_eraser \<Rightarrow> 'a \<Rightarrow> string \<Rightarrow> erasure_matches \<Rightarrow> stored_event \<Rightarrow> verification_report \<Rightarrow>
   verification_report" where
  "verify_event ev e a subjectID matched se rep =
     (if matches_has matched se then recordChecked ev a (event_ref se) (se_Metadata se) rep
      else let t = eraser_attribute ev e a se
           in if at_to t subjectID then recordChecked ev a (event_ref se) (se_Metadata se) rep
              else if \<not> attributed t then recordUnattributed ev a (event_ref se) (se_Metadata se) rep
              else rep)"

fun verifyStreams ::
  "('d, 'a) eraser_env \<Rightarrow> 'x data_eraser \<Rightarrow> 'a \<Rightarrow> string \<Rightarrow> erasure_matches \<Rightarrow> string list \<Rightarrow> verification_report \<Rightarrow>
   verification_report \<times> error option" where
  "verifyStreams ev e a subjectID matched [] rep = (rep, None)"
| "verifyStreams ev e a subjectID matched (streamID # streams) rep =
     (case LoadRaw (bs_ops (ev_store ev)) a streamID 0 of
        Inl err \<Rightarrow>
          if errors_Is err ErrStreamNotFound then verifyStreams ev e a subjectID matched streams rep
          else (rep, Some (NewErasureError subjectID (Wrap ''load stream'' err)))
      | Inr stored \<Rightarrow>
          verifyStreams ev e a subjectID matched streams (fold (verify_event ev e a subjectID matched) stored rep))"

fun countSubjectResiduals ::
  "'x subject_erasable list \<Rightarrow> 'x \<Rightarrow> string \<Rightarrow> subject_footprint \<Rightarrow> string list \<Rightarrow> verification_report \<Rightarrow>
   string list \<times> verification_report \<times> error option" where
  "countSubjectResiduals [] x subjectID fp verified rep = (verified, rep, None)"
| "countSubjectResiduals (s # ss) x subjectID fp verified rep =
     (case sb_Count s of
        None \<Rightarrow>
          countSubjectResiduals ss x subjectID fp verified
            (rep\<lparr>vr_UncheckedStores := vr_UncheckedStores rep @ [sb_Name s]\<rparr>)
      | Some counter \<Rightarrow>
          (case counter x subjectID fp of
             Inl err \<Rightarrow>
               if errors_Is err ErrResidualCountUnsupported
               then countSubjectResiduals ss x subjectID fp verified
                      (rep\<lparr>vr_UncheckedStores := vr_UncheckedStores rep @ [sb_Name s]\<rparr>)
               else (verified, rep, Some (Wrap ''count residual rows in subject store'' err))
           | Inr n \<Rightarrow>
               if n > 0
               then countSubjectResiduals ss x subjectID fp verified
                      (rep\<lparr>vr_ResidualStores := vr_ResidualStores rep @ [(sb_Name s, n)]\<rparr>)
               else countSubjectResiduals ss x subjectID fp (verified @ [sb_Name s]) rep))"

definition residualNotes :: "verification_report \<Rightarrow> erasure_note list" where
  "residualNotes rep =
     (if length (vr_ResidualRecoverable rep) > 0 then [RecoverableNote (length (vr_ResidualRecoverable rep))] else []) @
     (if length (vr_UnattributedRecoverable rep) + length (vr_UnattributedRedacted rep) > 0
      then [UnattributedNote (length (vr_UnattributedRecoverable rep)) (length (vr_UnattributedRedacted rep))] else []) @
     map (\<lambda>(name, n). ResidualStoreNote name n) (vr_ResidualStores rep) @
     (if length (vr_UncheckedStores rep) > 0 then [UncheckedStoresNote (vr_UncheckedStores rep)] else [])"

definition Verify ::
  "nat \<Rightarrow> ctx \<Rightarrow> ('d, 'a) eraser_env \<Rightarrow> 'x data_eraser \<Rightarrow> 'a \<Rightarrow> 'x \<Rightarrow> string \<Rightarrow> (error + verification_report) option" where
  "Verify fuel ctx ev e a x subjectID =
     (if subjectID = [] then Some (Inl ErrErasureSubjectRequired)
      else (case de_resolver e of
        None \<Rightarrow> Some (Inl (NewErasureError subjectID (Errorf ''Verify requires a subject resolver'')))
      | Some resolver \<Rightarrow>
          (case Resolve fuel ctx (ev_store ev) resolver a subjectID of
             None \<Rightarrow> None
           | Some (Inl err) \<Rightarrow> Some (Inl (NewErasureError subjectID err))
           | Some (Inr fp) \<Rightarrow>
               (case verifyStreams ev e a subjectID None (fp_Streams fp) (new_report subjectID (fp_Partial fp)) of
                  (rep, Some err) \<Rightarrow> Some (Inl err)
                | (rep, None) \<Rightarrow>
                    (case countSubjectResiduals (de_subjectStores e) x subjectID fp [] rep of
                       (counted, rep1, Some err) \<Rightarrow> Some (Inl (NewErasureError subjectID err))
                     | (counted, rep1, None) \<Rightarrow>
                         let notes = (if length (vr_ResidualCleartext rep1) > 0
                                      then [CleartextNote (length (vr_ResidualCleartext rep1))] else []) @
                               residualNotes rep1 @
                               (if length (fp_SharedStreams fp) > 0 \<and> (length counted > 0 \<or> length (vr_ResidualStores rep1) > 0)
                                then [SharedStreamsCountNote (length (fp_SharedStreams fp)) (length (fp_Streams fp))] else []);
                             rep2 = rep1\<lparr>vr_Notes := vr_Notes rep1 @ notes\<rparr>
                         in Some (Inr (if vr_EventsChecked rep2 = 0
                              then rep2\<lparr>vr_Vacuous := True, vr_Verified := False, vr_Notes := vr_Notes rep2 @ [VacuousVerifyNote]\<rparr>
                              else rep2\<lparr>vr_Verified := vr_clean rep2\<rparr>)))))))"

section \<open>The certificate\<close>

text \<open>The draft is the certificate with its running verdict.\<close>

record certificate_draft =
  cd_cert :: erasure_certificate
  cd_verified :: bool

definition cert_note :: "erasure_note \<Rightarrow> certificate_draft \<Rightarrow> certificate_draft" where
  "cert_note n d = d\<lparr>cd_cert := (cd_cert d)\<lparr>ct_Notes := ct_Notes (cd_cert d) @ [n]\<rparr>\<rparr>"

definition cert_block :: "erasure_note \<Rightarrow> certificate_draft \<Rightarrow> certificate_draft" where
  "cert_block n d = (cert_note n d)\<lparr>cd_verified := False\<rparr>"

definition attestableStores :: "string list \<Rightarrow> erasure_outcome list \<Rightarrow> string list" where
  "attestableStores storesVerified outcomes =
     (let skippedShared = map eo_Name (filter (\<lambda>o'. eo_SharedStreamsSkipped o' > 0) outcomes)
      in if length skippedShared = 0 then storesVerified
         else filter (\<lambda>name. name \<notin> set skippedShared) storesVerified)"

definition attestEvidence ::
  "('d, 'a) eraser_env \<Rightarrow> 'x data_eraser \<Rightarrow> 'a \<Rightarrow> 'x \<Rightarrow> string \<Rightarrow> erasure_result \<Rightarrow> certificate_draft \<Rightarrow>
   verification_report \<times> erasure_result \<times> certificate_draft" where
  "attestEvidence ev e a x subjectID r d =
     (case verifyStreams ev e a subjectID (rs_attributed r) (rs_Streams r) (new_report subjectID (rs_Partial r)) of
        (vr, verr) \<Rightarrow>
          let (r1, d1) = (case verr of
                None \<Rightarrow> (r, d)
              | Some err \<Rightarrow> (r\<lparr>rs_Errors := rs_Errors r @ [Wrap ''certificate event verification'' err]\<rparr>,
                             cert_block EventVerificationFailedNote d));
              d2 = d1\<lparr>cd_cert := (cd_cert d1)\<lparr>ct_Partial := ct_Partial (cd_cert d1) \<or> vr_Partial vr\<rparr>\<rparr>
          in (case countSubjectResiduals (de_subjectStores e) x subjectID (footprint_from r1 subjectID) [] vr of
                (storesVerified, vr1, cerr) \<Rightarrow>
                  let (r2, d3) = (case cerr of
                        None \<Rightarrow> (r1, d2)
                      | Some err \<Rightarrow> (r1\<lparr>rs_Errors := rs_Errors r1 @ [Wrap ''certificate residual count'' err]\<rparr>,
                                     cert_block ResidualCountFailedNote d2));
                      cert = (cd_cert d3)\<lparr>ct_EventsChecked := vr_EventsChecked vr1,
                               ct_StoresVerified := attestableStores storesVerified (rs_SubjectStores r2),
                               ct_StoresUnchecked := vr_UncheckedStores vr1,
                               ct_Notes := ct_Notes (cd_cert d3) @ residualNotes vr1\<rparr>
                  in (vr1, r2, d3\<lparr>cd_cert := cert, cd_verified := (cd_verified d3 \<and> vr_clean vr1)\<rparr>)))"

definition gateVacuous :: "int \<Rightarrow> erasure_result \<Rightarrow> certificate_draft \<Rightarrow> certificate_draft" where
  "gateVacuous eventsChecked r d =
     (if eventsChecked > 0 then d
      else if length (rs_KeysRevoked r) > 0 \<or> length (rs_KeysFailed r) > 0 \<or> length (rs_Streams r) > 0
      then cert_block VacuousCertificateNote d
      else cert_note NothingToEraseNote d)"

definition gateKeyOutcome :: "erasure_result \<Rightarrow> certificate_draft \<Rightarrow> certificate_draft" where
  "gateKeyOutcome r d =
     (let d1 = (if length (rs_KeysFailed r) > 0 then cert_block (KeysFailedNote (length (rs_KeysFailed r))) d else d);
          d2 = (if rs_CleartextEvents r > 0 then cert_note (CleartextNote (nat (rs_CleartextEvents r))) d1 else d1)
      in d2\<lparr>cd_cert := (cd_cert d2)\<lparr>ct_Notes := ct_Notes (cd_cert d2) @ rs_Notes r\<rparr>\<rparr>)"

definition gate_store :: "erasure_outcome \<Rightarrow> certificate_draft \<Rightarrow> certificate_draft" where
  "gate_store ss d =
     (if eo_Err ss \<noteq> None \<or> eo_Skipped ss then cert_block (StoreNotErasedNote (eo_Name ss)) d
      else if eo_SharedStreamsSkipped ss > 0
      then cert_block (StoreSkippedSharedNote (eo_Name ss) (eo_SharedStreamsSkipped ss)) d
      else d)"

definition gateSubjectStores :: "erasure_outcome list \<Rightarrow> certificate_draft \<Rightarrow> certificate_draft" where
  "gateSubjectStores outcomes d = fold gate_store outcomes d"

definition buildCertificate ::
  "('d, 'a) eraser_env \<Rightarrow> 'x data_eraser \<Rightarrow> time \<Rightarrow> 'a \<Rightarrow> 'x \<Rightarrow> string \<Rightarrow> erasure_result \<Rightarrow>
   erasure_certificate \<times> erasure_result" where
  "buildCertificate ev e now a x subjectID r =
     (let d0 = \<lparr>cd_cert = \<lparr>ct_SubjectID = subjectID, ct_VerifiedAt = now, ct_Verified = False, ct_EventsChecked = 0,
                  ct_KeysRevoked = length (rs_KeysRevoked r), ct_Partial = rs_Partial r,
                  ct_SideEffects = rs_SideEffects r, ct_StoresVerified = [], ct_StoresUnchecked = [], ct_Notes = []\<rparr>,
                cd_verified = True\<rparr>;
          (vr, r1, d1) = attestEvidence ev e a x subjectID r d0;
          d2 = gateKeyOutcome r1 (gateVacuous (vr_EventsChecked vr) r1 d1);
          d3 = (if de_markerStream e \<noteq> [] \<and> \<not> rs_MarkerWritten r1 then cert_block MarkerMissingNote d2 else d2);
          d4 = gateSubjectStores (rs_SubjectStores r1) d3;
          d5 = (if length (rs_ResidualReadModels r1) > 0
                then cert_block (ReadModelsNote (length (rs_ResidualReadModels r1))) d4 else d4)
      in ((cd_cert d5)\<lparr>ct_Verified := cd_verified d5\<rparr>, r1))"

definition emitCertificate ::
  "('d, 'a) eraser_env \<Rightarrow> 'x data_eraser \<Rightarrow> ('x \<Rightarrow> erasure_certificate \<Rightarrow> 'x \<times> error option) \<Rightarrow> time \<Rightarrow> 'a \<Rightarrow> 'x \<Rightarrow>
   string \<Rightarrow> erasure_result \<Rightarrow> 'x \<times> erasure_certificate \<times> erasure_result \<times> error option" where
  "emitCertificate ev e sink now a x subjectID r =
     (case buildCertificate ev e now a x subjectID r of
        (cert, r1) \<Rightarrow>
          (case sink x cert of
             (x', Some err) \<Rightarrow> (x', cert, r1\<lparr>rs_Errors := rs_Errors r1 @ [Wrap ''certificate sink'' err]\<rparr>, Some err)
           | (x', None) \<Rightarrow> (x', cert, r1, None)))"

definition purgeSubjectIndex ::
  "('x \<Rightarrow> string \<Rightarrow> 'x \<times> error option) \<Rightarrow> string \<Rightarrow> bool \<Rightarrow> 'x \<Rightarrow> erasure_result \<Rightarrow> 'x \<times> erasure_result" where
  "purgeSubjectIndex purge subjectID verified x r =
     (if Failed r \<or> \<not> verified then (x, r\<lparr>rs_Notes := rs_Notes r @ [IndexRetainedNote]\<rparr>)
      else (case purge x subjectID of
              (x', Some err) \<Rightarrow> (x', r\<lparr>rs_Errors := rs_Errors r @ [Wrap ''purge subject index'' err]\<rparr>)
            | (x', None) \<Rightarrow> (x', r\<lparr>rs_SubjectIndexPurged := True\<rparr>)))"

section \<open>Erase\<close>

text \<open>The footprint of a request that names only the subject.\<close>

definition erase_resolve ::
  "nat \<Rightarrow> ctx \<Rightarrow> ('d, 'a) eraser_env \<Rightarrow> 'x data_eraser \<Rightarrow> time \<Rightarrow> 'a \<Rightarrow> erasure_request \<Rightarrow>
   (error + (erase_acc \<times> bool)) option" where
  "erase_resolve fuel ctx ev e now a req =
     (let r = new_result (rq_SubjectID req) now
      in (case de_resolver e of
            Some resolver \<Rightarrow>
              if length (rq_Streams req) = 0 \<and> rq_Filter req = None \<and> length (rq_KeyIDs req) = 0
              then (case resolve fuel ctx (ev_store ev) resolver a (rq_SubjectID req) (rs_attributed r) of
                      None \<Rightarrow> None
                    | Some (Inl err) \<Rightarrow> Some (Inl (NewErasureError (rq_SubjectID req) err))
                    | Some (Inr (fp, ms)) \<Rightarrow>
                        Some (Inr (\<lparr>ea_result = r\<lparr>rs_SharedStreams := fp_SharedStreams fp, rs_EventsScanned := fp_EventCount fp,
                                      rs_CleartextEvents := fp_CleartextEvents fp, rs_Partial := fp_Partial fp,
                                      rs_attributed := ms\<rparr>,
                                    ea_keySet = fp_KeyIDs fp, ea_streamSet = fp_Streams fp\<rparr>, True)))
              else Some (Inr (\<lparr>ea_result = r, ea_keySet = [], ea_streamSet = []\<rparr>, False))
          | None \<Rightarrow> Some (Inr (\<lparr>ea_result = r, ea_keySet = [], ea_streamSet = []\<rparr>, False))))"

text \<open>Everything before the irreversible revocation: nothing is changed by it.\<close>

definition erase_plan ::
  "nat \<Rightarrow> ctx \<Rightarrow> ('d, 'a) eraser_env \<Rightarrow> 'x data_eraser \<Rightarrow> time \<Rightarrow> 'a \<Rightarrow> erasure_request \<Rightarrow>
   (error + (erase_acc \<times> bool)) option" where
  "erase_plan fuel ctx ev e now a req =
     (if rq_SubjectID req = [] then Some (Inl ErrErasureSubjectRequired)
      else if es_encryption (bs_store (ev_store ev) a) = None
      then Some (Inl (NewErasureError (rq_SubjectID req) ErrErasureNotConfigured))
      else (case erase_resolve fuel ctx ev e now a req of
        None \<Rightarrow> None
      | Some (Inl err) \<Rightarrow> Some (Inl err)
      | Some (Inr (acc0, resolved)) \<Rightarrow>
          (case (if resolved then None else validateRequest req) of
             Some err \<Rightarrow> Some (Inl err)
           | None \<Rightarrow>
               let acc1 = acc0\<lparr>ea_keySet := fold List.insert (filter (\<lambda>k. k \<noteq> []) (rq_KeyIDs req)) (ea_keySet acc0)\<rparr>
               in (case (if length (rq_Streams req) > 0 \<or> rq_Filter req \<noteq> None
                         then discoverKeys fuel ctx ev e a req acc1 else Some (Inr acc1)) of
                     None \<Rightarrow> None
                   | Some (Inl err) \<Rightarrow> Some (Inl err)
                   | Some (Inr acc) \<Rightarrow>
                       if de_sharedKeyGuard e \<and> \<not> de_allowSharedKey e \<and> length (ea_keySet acc) > 0
                       then (case detectSharedKeys fuel ctx ev e a (rq_SubjectID req) (ea_keySet acc) of
                               None \<Rightarrow> None
                             | Some (Inl err) \<Rightarrow> Some (Inl err)
                             | Some (Inr (Some serr)) \<Rightarrow> Some (Inl serr)
                             | Some (Inr None) \<Rightarrow> Some (Inr (acc, resolved)))
                       else Some (Inr (acc, resolved))))))"

text \<open>The zero value of a certificate, which nothing reads when no purge is configured.\<close>

definition zero_certificate :: erasure_certificate where
  "zero_certificate =
     \<lparr>ct_SubjectID = [], ct_VerifiedAt = 0, ct_Verified = False, ct_EventsChecked = 0, ct_KeysRevoked = 0,
      ct_Partial = False, ct_SideEffects = [], ct_StoresVerified = [], ct_StoresUnchecked = [], ct_Notes = []\<rparr>"

text \<open>Everything after the reconciliation.  The error, that of strict accountability, is returned
  together with the result.\<close>

definition erase_finish ::
  "('d, 'a) eraser_env \<Rightarrow> 'x data_eraser \<Rightarrow> time \<Rightarrow> string \<Rightarrow> 'a \<Rightarrow> 'x \<Rightarrow> marker_cache \<Rightarrow> erasure_result \<Rightarrow>
   ('a \<times> 'x \<times> marker_cache) \<times> erasure_result \<times> error option" where
  "erase_finish ev e now subjectID a x mc r0 =
     (case redactReadModels e subjectID x r0 of (x1, r1) \<Rightarrow>
      (case eraseSubjectStores e subjectID x1 r1 of (x2, r2) \<Rightarrow>
      (case runErasureHooks e subjectID x2 r2 of (x3, r3) \<Rightarrow>
      (case (if de_markerStream e = [] then (a, mc, r3, None)
             else (case appendMarker ev e subjectID a mc r3 of
                     (a', mc', Some err) \<Rightarrow> (a', mc', r3\<lparr>rs_Errors := rs_Errors r3 @ [Wrap ''append erasure marker'' err]\<rparr>, Some err)
                   | (a', mc', None) \<Rightarrow> (a', mc', r3\<lparr>rs_MarkerWritten := True\<rparr>, None))) of
         (a', mc', r4, merr) \<Rightarrow>
           if merr \<noteq> None \<and> de_strictAccountability e
           then ((a', x3, mc'), r4,
                 Some (NewErasureError subjectID (Wrap ''strict accountability: append erasure marker'' (the merr))))
           else
           (case (case de_certSink e of
                    Some sink \<Rightarrow> emitCertificate ev e sink now a' x3 subjectID r4
                  | None \<Rightarrow>
                      (case de_indexPurger e of
                         Some _ \<Rightarrow> (case buildCertificate ev e now a' x3 subjectID r4 of (cert, r) \<Rightarrow> (x3, cert, r, None))
                       | None \<Rightarrow> (x3, zero_certificate, r4, None))) of
              (x4, cert, r5, cerr) \<Rightarrow>
                if cerr \<noteq> None \<and> de_strictAccountability e
                then ((a', x4, mc'), r5, Some (NewErasureError subjectID (Wrap ''strict accountability'' (the cerr))))
                else (case de_indexPurger e of
                        None \<Rightarrow> ((a', x4, mc'), r5, None)
                      | Some purge \<Rightarrow>
                          (case purgeSubjectIndex purge subjectID (ct_Verified cert) x4 r5 of
                             (x5, r6) \<Rightarrow> ((a', x5, mc'), r6, None))))))))"

definition Erase ::
  "nat \<Rightarrow> ctx \<Rightarrow> ('d, 'a) eraser_env \<Rightarrow> 'x data_eraser \<Rightarrow> time \<Rightarrow> 'a \<times> 'x \<times> marker_cache \<Rightarrow> erasure_request \<Rightarrow>
   (('a \<times> 'x \<times> marker_cache) \<times> (error + (erasure_result \<times> error option))) option" where
  "Erase fuel ctx ev e now st req =
     (case st of (a, x, mc) \<Rightarrow>
      (case erase_plan fuel ctx ev e now a req of
         None \<Rightarrow> None
       | Some (Inl err) \<Rightarrow> Some (st, Inl err)
       | Some (Inr (acc, resolved)) \<Rightarrow>
           (case revoke_loop ev (rq_SubjectID req) (ea_keySet acc) a (ea_result acc) of
              (a1, Inl err) \<Rightarrow> Some ((a1, x, mc), Inl err)
            | (a1, Inr r) \<Rightarrow>
                let r1 = (sort_keys r)\<lparr>rs_Streams := sortedSet (ea_streamSet acc)\<rparr>
                in (case (case (resolved, de_resolver e) of
                            (True, Some resolver) \<Rightarrow>
                              reconcileAfterRevoke fuel ctx ev e resolver (rq_SubjectID req) (ea_keySet acc) a1 r1
                          | _ \<Rightarrow> Some (a1, r1)) of
                      None \<Rightarrow> None
                    | Some (a2, r2) \<Rightarrow>
                        (case erase_finish ev e now (rq_SubjectID req) a2 x mc r2 of
                           (st', r3, serr) \<Rightarrow> Some (st', Inr (r3, serr)))))))"

end
