(* ===== verification/Subject_Laws.thy ===== *)
theory Subject_Laws
  imports Subjects "HOL-Library.Multiset"
begin

text \<open>
  What a resolved footprint is.  \<open>footprint_of\<close> specifies the footprint of a subject over a
  log under an attribution; the locale \<open>scannable_store\<close> states what the resolver relies on
  (reads of one stream, pages of the log), and inside it both the scan and the index path are
  shown to compute it.  The in-memory adapter with the in-memory key provider is an instance.
\<close>

section \<open>The specification\<close>

definition mine :: "(stored_event \<Rightarrow> subject_attribution) \<Rightarrow> string \<Rightarrow> stored_event \<Rightarrow> bool" where
  "mine att s e = at_to (att e) s"

definition others_in :: "(stored_event \<Rightarrow> subject_attribution) \<Rightarrow> string \<Rightarrow> stored_event list \<Rightarrow> string \<Rightarrow> bool" where
  "others_in att s g sid \<longleftrightarrow> (\<exists>e \<in> set g. se_StreamID e = sid \<and> at_toOther (att e) s)"

abbreviation enveloped :: "stored_event \<Rightarrow> bool" where
  "enveloped e \<equiv> HasEncryptionEnvelope (se_Metadata e)"

abbreviation key_of :: "stored_event \<Rightarrow> string" where
  "key_of e \<equiv> GetEncryptionKeyID (se_Metadata e)"

text \<open>Everything but \<^verbatim>\<open>Partial\<close>, which the two paths decide differently.\<close>

definition footprint_of ::
  "(stored_event \<Rightarrow> subject_attribution) \<Rightarrow> string \<Rightarrow> stored_event list \<Rightarrow> subject_footprint \<Rightarrow> bool" where
  "footprint_of att s g fp \<longleftrightarrow>
     fp_SubjectID fp = s \<and>
     fp_Streams fp = sorted_list_of_set (se_StreamID ` {e \<in> set g. mine att s e}) \<and>
     (\<forall>sid. count_of (fp_StreamEventCounts fp) sid =
        int (length (filter (\<lambda>e. mine att s e \<and> se_StreamID e = sid) g))) \<and>
     fp_EventCount fp = int (length (filter (mine att s) g)) \<and>
     fp_SharedStreams fp =
       sorted_list_of_set {sid \<in> se_StreamID ` {e \<in> set g. mine att s e}. others_in att s g sid} \<and>
     fp_KeyIDs fp = sorted_list_of_set (key_of ` {e \<in> set g. mine att s e \<and> enveloped e}) \<and>
     fp_CleartextEvents fp = int (length (filter (\<lambda>e. mine att s e \<and> \<not> enveloped e) g))"

section \<open>The builder\<close>

lemma sortedSet_eq: "distinct xs \<Longrightarrow> sortedSet xs = sorted_list_of_set (set xs)"
  by (simp add: sortedSet_def sorted_list_of_set_sort_remdups distinct_remdups_id)

lemma set_fold_insert_list: "set (fold List.insert xs acc) = set xs \<union> set acc"
  by (induction xs arbitrary: acc) auto

lemma distinct_fold_insert_list: "distinct acc \<Longrightarrow> distinct (fold List.insert xs acc)"
  by (induction xs arbitrary: acc) auto

lemma fb_record_fields [simp]:
  "fb_streamSet (fb_record e b) = List.insert (se_StreamID e) (fb_streamSet b)"
  "fb_sharedSet (fb_record e b) = fb_sharedSet b"
  "fb_keySet (fb_record e b) = (if enveloped e then List.insert (key_of e) (fb_keySet b) else fb_keySet b)"
  "fb_matched (fb_record e b) = matches_add (fb_matched b) e"
  "fp_SubjectID (fb_fp (fb_record e b)) = fp_SubjectID (fb_fp b)"
  "fp_EventCount (fb_fp (fb_record e b)) = fp_EventCount (fb_fp b) + 1"
  "fp_CleartextEvents (fb_fp (fb_record e b)) = fp_CleartextEvents (fb_fp b) + (if enveloped e then 0 else 1)"
  "fp_Partial (fb_fp (fb_record e b)) = fp_Partial (fb_fp b)"
  "count_of (fp_StreamEventCounts (fb_fp (fb_record e b))) sid =
     count_of (fp_StreamEventCounts (fb_fp b)) sid + (if se_StreamID e = sid then 1 else 0)"
  by (auto simp: fb_record_def Let_def count_of_def update_conv)

lemma fb_record_shared: "fb_record e (b\<lparr>fb_sharedSet := x\<rparr>) = (fb_record e b)\<lparr>fb_sharedSet := x\<rparr>"
  by (simp add: fb_record_def Let_def)

lemma fold_record_shared:
  "fold fb_record es (b\<lparr>fb_sharedSet := x\<rparr>) = (fold fb_record es b)\<lparr>fb_sharedSet := x\<rparr>"
  by (induction es arbitrary: b) (simp_all add: fb_record_shared)

lemma fold_record_fields:
  "set (fb_streamSet (fold fb_record es b)) = se_StreamID ` set es \<union> set (fb_streamSet b)"
  "distinct (fb_streamSet b) \<Longrightarrow> distinct (fb_streamSet (fold fb_record es b))"
  "fb_sharedSet (fold fb_record es b) = fb_sharedSet b"
  "set (fb_keySet (fold fb_record es b)) = key_of ` {e \<in> set es. enveloped e} \<union> set (fb_keySet b)"
  "distinct (fb_keySet b) \<Longrightarrow> distinct (fb_keySet (fold fb_record es b))"
  "fp_SubjectID (fb_fp (fold fb_record es b)) = fp_SubjectID (fb_fp b)"
  "fp_EventCount (fb_fp (fold fb_record es b)) = fp_EventCount (fb_fp b) + int (length es)"
  "fp_CleartextEvents (fb_fp (fold fb_record es b)) =
     fp_CleartextEvents (fb_fp b) + int (length (filter (\<lambda>e. \<not> enveloped e) es))"
  "fp_Partial (fb_fp (fold fb_record es b)) = fp_Partial (fb_fp b)"
  "count_of (fp_StreamEventCounts (fb_fp (fold fb_record es b))) sid =
     count_of (fp_StreamEventCounts (fb_fp b)) sid + int (length (filter (\<lambda>e. se_StreamID e = sid) es))"
  by (induction es arbitrary: b) auto

lemma fold_record_matched:
  "fb_matched b = Some ms \<Longrightarrow> \<exists>ms'. fb_matched (fold fb_record es b) = Some ms' \<and>
     set ms' = (\<lambda>e. (se_StreamID e, se_Version e)) ` set es \<union> set ms"
proof (induction es arbitrary: b ms)
  case (Cons e es)
  from Cons.prems have "fb_matched (fb_record e b) = Some (List.insert (se_StreamID e, se_Version e) ms)"
    by (simp add: matches_add_def)
  from Cons.IH [OF this] show ?case by auto
qed simp

lemma newFootprintBuilder_fields [simp]:
  "fb_streamSet (newFootprintBuilder s m) = []" "fb_sharedSet (newFootprintBuilder s m) = []"
  "fb_keySet (newFootprintBuilder s m) = []" "fb_matched (newFootprintBuilder s m) = m"
  "fp_SubjectID (fb_fp (newFootprintBuilder s m)) = s" "fp_EventCount (fb_fp (newFootprintBuilder s m)) = 0"
  "fp_CleartextEvents (fb_fp (newFootprintBuilder s m)) = 0" "\<not> fp_Partial (fb_fp (newFootprintBuilder s m))"
  "count_of (fp_StreamEventCounts (fb_fp (newFootprintBuilder s m))) sid = 0"
  by (simp_all add: newFootprintBuilder_def count_of_def)

text \<open>A builder that recorded the subject's events of the log in any order, and whose shared set
  holds the subject's streams with a co-tenant, finalizes to the footprint.\<close>

lemma finalize_footprint:
  assumes es: "mset es = mset (filter (mine att s) g)"
    and b: "b = (fold fb_record es (newFootprintBuilder s m))\<lparr>fb_sharedSet := sh\<rparr>"
    and sh: "distinct sh" "set sh = {sid \<in> se_StreamID ` {e \<in> set g. mine att s e}. others_in att s g sid}"
  shows "footprint_of att s g (finalize b)" and "footprint_of att s g ((finalize b)\<lparr>fp_Partial := p\<rparr>)"
proof -
  have set_es: "set es = {e \<in> set g. mine att s e}" using mset_eq_setD [OF es] by auto
  have len: "length (filter P es) = length (filter (\<lambda>e. mine att s e \<and> P e) g)" for P
  proof -
    have "mset (filter P es) = mset (filter P (filter (mine att s) g))" using es by (simp only: mset_filter)
    then have "length (filter P es) = length (filter P (filter (mine att s) g))" by (rule mset_eq_length)
    then show ?thesis by (simp add: conj_commute)
  qed
  have tot: "length es = length (filter (mine att s) g)" using es by (rule mset_eq_length)
  have keys: "{e \<in> set es. enveloped e} = {e \<in> set g. mine att s e \<and> enveloped e}" by (auto simp: set_es)
  note flds = fold_record_fields [where es = es and b = "newFootprintBuilder s m"]
  show "footprint_of att s g (finalize b)"
    unfolding footprint_of_def finalize_def b
    using flds sh by (simp add: sortedSet_eq set_es keys len tot)
  then show "footprint_of att s g ((finalize b)\<lparr>fp_Partial := p\<rparr>)" by (simp add: footprint_of_def)
qed

section \<open>The loops\<close>

lemma at_to_iff: "at_to t s \<longleftrightarrow> s \<in> set (at_subjects t)"
  by (auto simp: at_to_def containsString_def list_ex_iff)

lemma mine_attributed: "mine att s e \<Longrightarrow> attributed (att e)"
  by (auto simp: mine_def at_to_iff attributed_def)

lemma fb_record_partial:
  "fb_record e (b\<lparr>fb_fp := (fb_fp b)\<lparr>fp_Partial := p\<rparr>\<rparr>) = (fb_record e b)\<lparr>fb_fp := (fb_fp (fb_record e b))\<lparr>fp_Partial := p\<rparr>\<rparr>"
  by (simp add: fb_record_def Let_def)

lemma fold_attribute:
  "fold (attribute_event att s) es b =
     (let c = fold fb_record (filter (mine att s) es) b
      in if \<exists>e \<in> set es. \<not> attributed (att e) then c\<lparr>fb_fp := (fb_fp c)\<lparr>fp_Partial := True\<rparr>\<rparr> else c)"
proof (induction es arbitrary: b)
  case (Cons e es)
  have rec: "fold fb_record xs (b\<lparr>fb_fp := (fb_fp b)\<lparr>fp_Partial := p\<rparr>\<rparr>) =
      (fold fb_record xs b)\<lparr>fb_fp := (fb_fp (fold fb_record xs b))\<lparr>fp_Partial := p\<rparr>\<rparr>" for xs b p
    by (induction xs arbitrary: b) (simp_all add: fb_record_partial)
  consider "mine att s e" | "\<not> mine att s e" "\<not> attributed (att e)" | "\<not> mine att s e" "attributed (att e)" by blast
  then show ?case
  proof cases
    case 1
    then show ?thesis using mine_attributed [OF 1] Cons.IH [of "fb_record e b"]
      by (simp add: attribute_event_def mine_def Let_def)
  next
    case 2
    then show ?thesis using Cons.IH [of "b\<lparr>fb_fp := (fb_fp b)\<lparr>fp_Partial := True\<rparr>\<rparr>"]
      by (simp add: attribute_event_def mine_def Let_def rec)
  next
    case 3
    then show ?thesis using Cons.IH [of b] by (simp add: attribute_event_def mine_def Let_def)
  qed
qed simp

lemma fold_collect:
  "fold (collect_event att s) es (b, sh) =
     (fold fb_record (filter (mine att s) es) b, sh \<or> (\<exists>e \<in> set es. at_toOther (att e) s))"
  by (induction es arbitrary: b sh) (auto simp: collect_event_def mine_def Let_def)

lemma shared_stream_iff:
  "streamSharedWithOthers gl s tagger es subj \<longleftrightarrow> (\<exists>e \<in> set es. at_toOther (attributeSubjects gl s tagger e) subj)"
  by (induction es) auto

lemma others_in_stream:
  "(\<exists>e \<in> set (stream_events g sid). at_toOther (att e) s) \<longleftrightarrow> others_in att s g sid"
  by (auto simp: others_in_def stream_events_def)

lemma mset_by_stream:
  "distinct ss \<Longrightarrow>
   mset (concat (map (stream_events xs) ss)) = mset (filter (\<lambda>e. se_StreamID e \<in> set ss) xs)"
proof (induction ss)
  case (Cons sid ss)
  have "mset (filter (\<lambda>e. se_StreamID e = sid \<or> se_StreamID e \<in> set ss) xs) =
      mset (filter (\<lambda>e. se_StreamID e = sid) xs) + mset (filter (\<lambda>e. se_StreamID e \<in> set ss) xs)"
    using Cons.prems by (induction xs) auto
  then show ?case using Cons by (simp add: stream_events_def)
qed simp

section \<open>The store contract\<close>

locale scannable_store =
  fixes B :: "('d, 'a) bound_store"
    and ok :: "'a \<Rightarrow> bool"
    and log :: "'a \<Rightarrow> stored_event list"
  assumes stream_read: "ok a \<Longrightarrow> sid \<noteq> [] \<Longrightarrow> ao_Load (bs_ops B) a sid 0 = Inr (stream_events (log a) sid)"
    and has_feed: "bs_sub B \<noteq> None"
    and read_page: "ok a \<Longrightarrow> 0 < limit \<Longrightarrow>
      bs_load_from B a p limit = Inr (take (nat limit) (filter (\<lambda>e. p < se_GlobalPosition e) (log a)))"
    and ascending_log: "ok a \<Longrightarrow> sorted_wrt (<) (map se_GlobalPosition (log a))"
    and positive_log: "ok a \<Longrightarrow> e \<in> set (log a) \<Longrightarrow> 0 < se_GlobalPosition e"
    and named_streams: "ok a \<Longrightarrow> e \<in> set (log a) \<Longrightarrow> se_StreamID e \<noteq> []"

sublocale scannable_store \<subseteq> feed: position_feed ok log se_GlobalPosition "bs_load_from B"
  by unfold_locales (simp_all add: read_page ascending_log)

context scannable_store
begin

lemma scan_log:
  assumes "ok a" and "0 < n" and "length (log a) < fuel"
  shows "scan_loop fuel (scan_page None B a n w) se_GlobalPosition f 0 s = Some (foldE f (log a) s)"
proof -
  have "scan_page None B a n w = (\<lambda>p. bs_load_from B a p n)"
    by (rule ext) (simp add: scan_page_def read_page [OF assms(1,2)])
  then show ?thesis
    using feed.scan_whole_store [OF assms(1,2) _ assms(3), of f s] positive_log [OF assms(1)] by simp
qed

lemma load_stream: "ok a \<Longrightarrow> sid \<noteq> [] \<Longrightarrow> loadFootprintStream B a sid = Inr (Some (stream_events (log a) sid))"
  by (simp add: loadFootprintStream_def LoadRaw_def stream_read)

lemma detect_shared:
  assumes "ok a" and "[] \<notin> set ss" and "distinct (fb_sharedSet b)"
  shows "\<exists>sh. detectSharedStreams None B tagger a s ss b = Inr (b\<lparr>fb_sharedSet := sh\<rparr>) \<and> distinct sh \<and>
    set sh = set (fb_sharedSet b) \<union> {sid \<in> set ss. others_in (resolver_attribute B a tagger) s (log a) sid}"
  using assms(2,3)
proof (induction ss arbitrary: b)
  case Nil
  show ?case by (rule exI [of _ "fb_sharedSet b"]) (use Nil in simp)
next
  case (Cons sid ss)
  define b' where "b' = (if others_in (resolver_attribute B a tagger) s (log a) sid
    then b\<lparr>fb_sharedSet := List.insert sid (fb_sharedSet b)\<rparr> else b)"
  have ne: "sid \<noteq> []" using Cons.prems by auto
  have "streamSharedWithOthers (bs_lib B) (bs_store B a) tagger (stream_events (log a) sid) s \<longleftrightarrow>
      others_in (resolver_attribute B a tagger) s (log a) sid"
    unfolding shared_stream_iff others_in_stream [symmetric] resolver_attribute_def ..
  then have step: "detectSharedStreams None B tagger a s (sid # ss) b = detectSharedStreams None B tagger a s ss b'"
    using load_stream [OF assms(1) ne] by (simp add: b'_def)
  have "distinct (fb_sharedSet b')" using Cons.prems by (simp add: b'_def)
  then obtain sh where sh: "detectSharedStreams None B tagger a s ss b' = Inr (b'\<lparr>fb_sharedSet := sh\<rparr>)" "distinct sh"
    "set sh = set (fb_sharedSet b') \<union> {sid \<in> set ss. others_in (resolver_attribute B a tagger) s (log a) sid}"
    using Cons.IH [of b'] Cons.prems by auto
  show ?case
    unfolding step by (rule exI [of _ sh]) (use sh in \<open>auto simp: b'_def\<close>)
qed

lemma scan_resolves:
  assumes "ok a" and "0 < sr_batchSize r" and "length (log a) < fuel" and "s \<noteq> []" and "sr_index r = None"
  shows "\<exists>fp ms. resolve fuel None B r a s m = Some (Inr (fp, ms)) \<and>
    footprint_of (resolver_attribute B a (sr_tagger r)) s (log a) fp \<and>
    (fp_Partial fp \<longleftrightarrow> (\<exists>e \<in> set (log a). \<not> attributed (resolver_attribute B a (sr_tagger r) e))) \<and>
    ms = fb_matched (fold fb_record (filter (mine (resolver_attribute B a (sr_tagger r)) s) (log a)) (newFootprintBuilder s m))"
proof -
  let ?att = "resolver_attribute B a (sr_tagger r)"
  let ?c = "fold fb_record (filter (mine ?att s) (log a)) (newFootprintBuilder s m)"
  let ?p = "\<exists>e \<in> set (log a). \<not> attributed (?att e)"
  define b where "b = (if ?p then ?c\<lparr>fb_fp := (fb_fp ?c)\<lparr>fp_Partial := True\<rparr>\<rparr> else ?c)"
  have scan: "scan_loop fuel (scan_page None B a (sr_batchSize r) (Wrap ''mink: subject scan'')) se_GlobalPosition
      (\<lambda>se b. (attribute_event ?att s se b, None)) 0 (newFootprintBuilder s m) = Some (b, None)"
    using foldE_total [of "log a" "\<lambda>se b. (attribute_event ?att s se b, None)"]
    by (simp add: scan_log [OF assms(1-3)] fold_attribute Let_def b_def)
  have flds: "fb_streamSet b = fb_streamSet ?c" "fb_sharedSet b = []" "fb_matched b = fb_matched ?c"
    by (simp_all add: b_def fold_record_fields)
  have streams: "set (fb_streamSet b) = se_StreamID ` {e \<in> set (log a). mine ?att s e}"
    by (simp add: flds fold_record_fields)
  then have "[] \<notin> set (fb_streamSet b)" using named_streams [OF assms(1)] by force
  then obtain sh where sh: "detectSharedStreams None B (sr_tagger r) a s (fb_streamSet b) b = Inr (b\<lparr>fb_sharedSet := sh\<rparr>)"
    "distinct sh" "set sh = {sid \<in> se_StreamID ` {e \<in> set (log a). mine ?att s e}. others_in ?att s (log a) sid}"
    using detect_shared [OF assms(1), of "fb_streamSet b" b "sr_tagger r" s] by (auto simp: flds(2) streams)
  have partial: "fp_Partial (fb_fp ?c) = False" by (simp add: fold_record_fields)
  have fin: "finalize (b\<lparr>fb_sharedSet := sh\<rparr>) = (finalize (?c\<lparr>fb_sharedSet := sh\<rparr>))\<lparr>fp_Partial := ?p\<rparr>"
    using partial by (simp add: b_def finalize_def)
  have "footprint_of ?att s (log a) (finalize (b\<lparr>fb_sharedSet := sh\<rparr>))"
    unfolding fin by (rule finalize_footprint(2) [OF refl refl sh(2,3)])
  moreover have "fp_Partial (finalize (b\<lparr>fb_sharedSet := sh\<rparr>)) = ?p" by (simp add: fin)
  moreover have "resolve fuel None B r a s m = Some (Inr (finalize (b\<lparr>fb_sharedSet := sh\<rparr>), fb_matched ?c))"
    using assms(4,5) has_feed by (simp add: resolve_def resolveByScan_def scan sh(1) flds(3))
  ultimately show ?thesis by blast
qed

text \<open>The index path on the streams \<open>ss\<close> the index lists.\<close>

lemma index_loop_log:
  assumes "ok a" and "[] \<notin> set ss" and "distinct (fb_sharedSet b)"
    and "set (fb_streamSet b) \<subseteq> se_StreamID ` {e \<in> set (log a). mine att s e}"
  shows "\<exists>sh. index_loop B a att s ss b =
      Inr ((fold fb_record (filter (mine att s) (concat (map (stream_events (log a)) ss))) b)\<lparr>fb_sharedSet := sh\<rparr>) \<and>
    distinct sh \<and>
    set sh = set (fb_sharedSet b) \<union>
      {sid \<in> set ss. sid \<in> se_StreamID ` {e \<in> set (log a). mine att s e} \<and> others_in att s (log a) sid}"
  using assms(2-4)
proof (induction ss arbitrary: b)
  case Nil
  show ?case by (rule exI [of _ "fb_sharedSet b"]) (use Nil in simp)
next
  case (Cons sid ss)
  let ?own = "se_StreamID ` {e \<in> set (log a). mine att s e}"
  let ?es = "stream_events (log a) sid"
  define c where "c = fold fb_record (filter (mine att s) ?es) b"
  define x where "x = (if sid \<in> ?own \<and> others_in att s (log a) sid
    then List.insert sid (fb_sharedSet b) else fb_sharedSet b)"
  have ne: "sid \<noteq> []" using Cons.prems by auto
  have own: "sid \<in> set (fb_streamSet c) \<longleftrightarrow> sid \<in> ?own"
    using Cons.prems(3) by (auto simp: c_def fold_record_fields stream_events_def)
  have c_shared: "fb_sharedSet c = fb_sharedSet b" by (simp add: c_def fold_record_fields)
  have "collectIndexedStream att s sid ?es b = c\<lparr>fb_sharedSet := x\<rparr>"
    using own c_shared others_in_stream [of "log a" sid att s]
    by (auto simp: collectIndexedStream_def fold_collect Let_def x_def simp flip: c_def)
  then have step: "index_loop B a att s (sid # ss) b = index_loop B a att s ss (c\<lparr>fb_sharedSet := x\<rparr>)"
    by (simp add: load_stream [OF assms(1) ne])
  have sub: "set (fb_streamSet (c\<lparr>fb_sharedSet := x\<rparr>)) \<subseteq> ?own"
    using Cons.prems(3) by (auto simp: c_def fold_record_fields stream_events_def)
  have "distinct (fb_sharedSet (c\<lparr>fb_sharedSet := x\<rparr>))" using Cons.prems(2) by (simp add: x_def)
  then obtain sh where sh: "index_loop B a att s ss (c\<lparr>fb_sharedSet := x\<rparr>) =
      Inr ((fold fb_record (filter (mine att s) (concat (map (stream_events (log a)) ss))) (c\<lparr>fb_sharedSet := x\<rparr>))\<lparr>fb_sharedSet := sh\<rparr>)"
    "distinct sh" "set sh = set x \<union> {sid \<in> set ss. sid \<in> ?own \<and> others_in att s (log a) sid}"
    using Cons.IH [OF _ _ sub] Cons.prems(1) by auto
  have "set sh = set (fb_sharedSet b) \<union> {sid' \<in> set (sid # ss). sid' \<in> ?own \<and> others_in att s (log a) sid'}"
    unfolding sh(3) x_def by auto
  then show ?case
    unfolding step using sh(1,2) by (intro exI [of _ sh]) (simp add: fold_record_shared c_def)
qed

lemma index_resolves:
  assumes "ok a" and "s \<noteq> []" and "sr_index r = Some idx" and "idx None s = Inr ss"
    and "distinct ss" and "[] \<notin> set ss"
    and cov: "se_StreamID ` {e \<in> set (log a). mine (resolver_attribute B a (sr_tagger r)) s e} \<subseteq> set ss"
  shows "\<exists>fp ms. resolve fuel None B r a s m = Some (Inr (fp, ms)) \<and>
    footprint_of (resolver_attribute B a (sr_tagger r)) s (log a) fp \<and>
    (fp_Partial fp \<longleftrightarrow> \<not> sr_authoritative r)"
proof -
  let ?att = "resolver_attribute B a (sr_tagger r)"
  let ?b0 = "newFootprintBuilder s m"
  let ?es = "filter (mine ?att s) (concat (map (stream_events (log a)) ss))"
  obtain sh where sh: "index_loop B a ?att s ss ?b0 = Inr ((fold fb_record ?es ?b0)\<lparr>fb_sharedSet := sh\<rparr>)" "distinct sh"
    "set sh = {sid \<in> set ss. sid \<in> se_StreamID ` {e \<in> set (log a). mine ?att s e} \<and> others_in ?att s (log a) sid}"
    using index_loop_log [OF assms(1,6), of ?b0 ?att s] by auto
  have shared: "set sh = {sid \<in> se_StreamID ` {e \<in> set (log a). mine ?att s e}. others_in ?att s (log a) sid}"
    unfolding sh(3) using cov by auto
  have "mset ?es = mset (filter (mine ?att s) (filter (\<lambda>e. se_StreamID e \<in> set ss) (log a)))"
    using mset_by_stream [OF assms(5), of "log a"] by (simp only: mset_filter)
  also have "filter (mine ?att s) (filter (\<lambda>e. se_StreamID e \<in> set ss) (log a)) = filter (mine ?att s) (log a)"
    unfolding filter_filter by (rule filter_cong) (use cov in auto)
  finally have "footprint_of ?att s (log a)
      ((finalize ((fold fb_record ?es ?b0)\<lparr>fb_sharedSet := sh\<rparr>))\<lparr>fp_Partial := \<not> sr_authoritative r\<rparr>)"
    by (rule finalize_footprint(2) [OF _ refl sh(2) shared])
  then show ?thesis
    using assms(2-4) by (auto simp: resolve_def resolveByIndex_def sh(1))
qed

end

section \<open>The in-memory index and the backfill\<close>

definition index_ok :: "memory_subject_index \<Rightarrow> bool" where
  "index_ok m \<longleftrightarrow> (\<forall>s. distinct (index_streams m s) \<and> [] \<notin> set (index_streams m s))"

lemma index_streams_update:
  "index_streams (AList.update s xs m) s' = (if s' = s then xs else index_streams m s')"
  by (simp add: index_streams_def update_conv)

lemma index_subject_loop_streams:
  "set (index_streams (index_subject_loop sid ss m) s) =
     set (index_streams m s) \<union> (if s \<noteq> [] \<and> s \<in> set ss then {sid} else {})"
  by (induction ss arbitrary: m) (auto simp: index_streams_update)

lemma index_subject_loop_ok:
  assumes "index_ok m" and "sid \<noteq> []"
  shows "index_ok (index_subject_loop sid ss m)"
  using assms(1)
proof (induction ss arbitrary: m)
  case (Cons s ss)
  from Cons.prems assms(2) have "index_ok (AList.update s (List.insert sid (index_streams m s)) m)"
    by (simp add: index_ok_def index_streams_update)
  then show ?case using Cons by simp
qed simp

lemma undecryptable_unattributed: "at_undecryptable (attributeSubjects gl s t e) \<Longrightarrow> at_subjects (attributeSubjects gl s t e) = []"
  by (auto simp: attributeSubjects_def Let_def split: option.splits if_splits)

text \<open>Every event is indexed or untagged, except the one whose index write failed.\<close>

definition report_ok :: "backfill_report \<Rightarrow> int \<Rightarrow> bool" where
  "report_ok rep lost \<longleftrightarrow>
     br_Scanned rep = br_Indexed rep + br_Untagged rep + lost \<and> 0 \<le> br_Indexed rep \<and>
     0 \<le> br_Undecryptable rep \<and> br_Undecryptable rep \<le> br_Untagged rep"

lemma indexEvent_report:
  assumes "report_ok (snd st) 0"
    and "indexEvent ctx wr (resolver_attribute B a tagger) e st = ((i', rep'), err)"
  shows "if err = None then report_ok rep' 0 else report_ok rep' 0 \<or> report_ok rep' 1"
  using assms undecryptable_unattributed [of "bs_lib B" "bs_store B a" tagger e]
  by (auto simp: indexEvent_def subjectsOf_def report_ok_def resolver_attribute_def Let_def
      split: prod.splits option.splits if_splits)

lemma foldE_invariant:
  assumes "\<And>e s s' err. P s \<Longrightarrow> f e s = (s', err) \<Longrightarrow> if err = None then P s' else Q s'" and "P s"
    and "foldE f es s = (s', err)"
  shows "if err = None then P s' else Q s'"
  using assms(2,3)
proof (induction es arbitrary: s)
  case (Cons e es)
  obtain s1 err1 where s1: "f e s = (s1, err1)" by (rule prod.exhaust)
  then show ?case using Cons assms(1) [OF Cons.prems(1) s1] by (cases err1) auto
qed auto

lemma scan_invariant:
  assumes "\<And>e s s' err. P s \<Longrightarrow> f e s = (s', err) \<Longrightarrow> if err = None then P s' else Q s'"
    and "\<And>s. P s \<Longrightarrow> Q s" and "P s"
    and "scan_loop fuel load pos f p s = Some (s', err)"
  shows "if err = None then P s' else Q s'"
  using assms(3,4)
proof (induction fuel arbitrary: p s)
  case (Suc fuel)
  show ?case
  proof (cases "load p")
    case (Inr batch)
    show ?thesis
    proof (cases "batch = []")
      case False
      obtain s1 err1 where s1: "foldE f batch s = (s1, err1)" by (rule prod.exhaust)
      have inv: "if err1 = None then P s1 else Q s1"
        by (rule foldE_invariant [where P = P and Q = Q and f = f, OF _ Suc.prems(1) s1]) (rule assms(1))
      show ?thesis
      proof (cases err1)
        case None
        have "P s1" using inv None by simp
        moreover have "scan_loop fuel load pos f (pos (last batch)) s1 = Some (s', err)"
          using Suc.prems(2) Inr False s1 None by simp
        ultimately show ?thesis by (rule Suc.IH)
      qed (use Suc.prems(2) Inr False s1 inv in auto)
    qed (use Suc.prems Inr in auto)
  qed (use Suc.prems assms(2) in auto)
qed simp

definition index_event ::
  "(stored_event \<Rightarrow> subject_attribution) \<Rightarrow> stored_event \<Rightarrow> memory_subject_index \<times> backfill_report \<Rightarrow>
   memory_subject_index \<times> backfill_report" where
  "index_event att e st = fst (indexEvent None (IndexSubjects None) att e st)"

lemma indexEvent_memory: "indexEvent None (IndexSubjects None) att e st = (index_event att e st, None)"
  by (auto simp: index_event_def indexEvent_def subjectsOf_def IndexSubjects_def Let_def split: prod.splits)

lemma index_event_fields:
  "fst (index_event att e (m, rep)) =
     (if at_subjects (att e) = [] \<or> se_StreamID e = [] then m
      else index_subject_loop (se_StreamID e) (at_subjects (att e)) m)"
  "br_Untagged (snd (index_event att e (m, rep))) = br_Untagged rep + (if attributed (att e) then 0 else 1)"
  by (auto simp: index_event_def indexEvent_def subjectsOf_def IndexSubjects_def attributed_def Let_def
      split: prod.splits)

lemma fold_index_event:
  assumes "\<forall>e \<in> set es. se_StreamID e \<noteq> []" and "index_ok (fst st)" and "s \<noteq> []"
  shows "index_ok (fst (fold (index_event att) es st)) \<and>
    se_StreamID ` {e \<in> set es. mine att s e} \<union> set (index_streams (fst st) s)
      \<subseteq> set (index_streams (fst (fold (index_event att) es st)) s) \<and>
    br_Untagged (snd (fold (index_event att) es st)) =
      br_Untagged (snd st) + int (length (filter (\<lambda>e. \<not> attributed (att e)) es))"
  using assms(1,2)
proof (induction es arbitrary: st)
  case (Cons e es)
  obtain m rep where st: "st = (m, rep)" by (rule prod.exhaust)
  define st' where "st' = index_event att e st"
  have ne: "se_StreamID e \<noteq> []" using Cons.prems by simp
  have m': "fst st' = (if at_subjects (att e) = [] then m
      else index_subject_loop (se_StreamID e) (at_subjects (att e)) m)"
    and u': "br_Untagged (snd st') = br_Untagged rep + (if attributed (att e) then 0 else 1)"
    using ne by (simp_all add: st'_def st index_event_fields)
  have ok': "index_ok (fst st')" using Cons.prems ne index_subject_loop_ok by (simp add: m' st)
  have sub': "set (index_streams m s) \<union> (if mine att s e then {se_StreamID e} else {}) \<subseteq> set (index_streams (fst st') s)"
    using assms(3) by (auto simp: m' index_subject_loop_streams mine_def at_to_iff)
  have "index_ok (fst (fold (index_event att) es st')) \<and>
    se_StreamID ` {e \<in> set es. mine att s e} \<union> set (index_streams (fst st') s)
      \<subseteq> set (index_streams (fst (fold (index_event att) es st')) s) \<and>
    br_Untagged (snd (fold (index_event att) es st')) =
      br_Untagged (snd st') + int (length (filter (\<lambda>e. \<not> attributed (att e)) es))"
    using Cons.IH [of st'] Cons.prems(1) ok' by simp
  moreover have "fold (index_event att) (e # es) st = fold (index_event att) es st'" by (simp add: st'_def)
  ultimately show ?case using sub' unfolding u' by (auto simp: st)
qed simp

section \<open>The in-memory event store with the in-memory key provider\<close>

record gdpr_world =
  gw_adapter :: memory_adapter
  gw_keys :: local_provider

text \<open>The store as configured, its provider being the current state of the keys.\<close>

definition world_store :: "aead \<Rightarrow> time \<Rightarrow> 'd event_store \<Rightarrow> gdpr_world \<Rightarrow> 'd event_store" where
  "world_store g now s w =
     s\<lparr>es_encryption := map_option (\<lambda>c. c\<lparr>fe_provider := Some (local_ops g now (gw_keys w))\<rparr>) (es_encryption s)\<rparr>"

definition world_ops :: "(nat \<Rightarrow> string) \<Rightarrow> time \<Rightarrow> gdpr_world adapter_ops" where
  "world_ops uuid now =
     \<lparr>ao_Append = \<lambda>w sid rs v. (let (a', r) = ao_Append (mem_store_ops uuid now) (gw_adapter w) sid rs v
                               in (w\<lparr>gw_adapter := a'\<rparr>, r)),
      ao_Load = \<lambda>w. Load None (gw_adapter w),
      ao_RewriteEventData = None\<rparr>"

definition mem_bound ::
  "aead \<Rightarrow> (nat \<Rightarrow> string) \<Rightarrow> time \<Rightarrow> 'd go_lib \<Rightarrow> 'd event_store \<Rightarrow> ('d, gdpr_world) bound_store" where
  "mem_bound g uuid now gl s =
     \<lparr>bs_lib = gl, bs_store = world_store g now s, bs_ops = world_ops uuid now,
      bs_sub = Some (\<lambda>w. LoadFromPosition None (gw_adapter w))\<rparr>"

definition world_ok :: "gdpr_world \<Rightarrow> bool" where
  "world_ok w \<longleftrightarrow> mem_inv (gw_adapter w) \<and> \<not> ma_closed (gw_adapter w)"

definition world_log :: "gdpr_world \<Rightarrow> stored_event list" where
  "world_log w = ma_globalEvents (gw_adapter w)"

interpretation mem_scan: scannable_store "mem_bound g uuid now gl s" world_ok world_log
  for g uuid now gl s
proof (unfold_locales, goal_cases)
  case (1 w sid) then show ?case by (simp add: mem_bound_def world_ops_def world_ok_def world_log_def Load_all)
next
  case 2 then show ?case by (simp add: mem_bound_def)
next
  case (3 w limit p) then show ?case
    using mem_feed.load_page [of "gw_adapter w" limit p]
    by (simp add: mem_bound_def bs_load_from_def LoadEventsFromPosition_def world_ok_def world_log_def feed_ready_def)
next
  case (4 w) then show ?case by (simp add: world_ok_def world_log_def sorted_positions)
next
  case (5 w e) then show ?case
    using positive_positions [of "gw_adapter w" e] by (simp add: world_ok_def world_log_def)
next
  case (6 w e) then show ?case
    by (auto simp: world_ok_def world_log_def mem_inv_def log_ok_def stream_events_def filter_empty_conv)
qed

end
