(* ===== verification/Erasure_Laws.thy ===== *)
theory Erasure_Laws
  imports Erasure_Certificate Subject_Laws
begin

text \<open>
  Laws of an erasure.  The locale \<open>key_vault\<close> adds to the scannable store what the eraser relies on
  when it revokes a key: revocation touches neither the log nor another key, is final, and can only
  take away the attribution of an event, never add one.  The in-memory store with the in-memory key
  provider is an instance.  The later phases of an erasure are shown to keep what the revocation
  phase recorded, and a verified certificate to imply the state of every key it covers.
\<close>

section \<open>What the phases keep of the result\<close>

definition extends :: "erasure_result \<Rightarrow> erasure_result \<Rightarrow> bool" where
  "extends r r' \<longleftrightarrow>
     rs_KeysRevoked r' = rs_KeysRevoked r \<and> rs_KeysFailed r' = rs_KeysFailed r \<and> rs_Streams r' = rs_Streams r \<and>
     rs_attributed r' = rs_attributed r \<and> rs_Partial r' = rs_Partial r \<and>
     rs_SubjectIndexPurged r' = rs_SubjectIndexPurged r \<and>
     (\<exists>errs. rs_Errors r' = rs_Errors r @ errs)"

lemma extends_refl [simp]: "extends r r"
  by (simp add: extends_def)

lemma extends_trans [trans]: "extends r r' \<Longrightarrow> extends r' r'' \<Longrightarrow> extends r r''"
  by (auto simp: extends_def)

lemma extends_errors: "extends r r' \<Longrightarrow> rs_Errors r' = [] \<Longrightarrow> rs_Errors r = []"
  by (auto simp: extends_def)

lemma extends_read_model: "extends r (read_model_done what name err r)"
  by (auto simp: extends_def read_model_done_def split: option.splits)

lemma redact_loop_extends: "redact_loop rs s x r = (x', r') \<Longrightarrow> extends r r'"
proof (induction rs s x r rule: redact_loop.induct)
  case (2 name redact rest s x r)
  then show ?case using extends_read_model extends_trans by (fastforce split: prod.splits)
qed simp

lemma rebuild_models_extends: "rebuild_models rs x r = (x', r') \<Longrightarrow> extends r r'"
proof (induction rs x r rule: rebuild_models.induct)
  case (2 name rb rest x r)
  then show ?case using extends_read_model extends_trans by (fastforce split: prod.splits)
qed simp

lemma redactReadModels_extends: "redactReadModels e s x r = (x', r') \<Longrightarrow> extends r r'"
  using redact_loop_extends rebuild_models_extends extends_trans
  by (fastforce simp: redactReadModels_def split: prod.splits)

lemma erase_store_loop_extends: "erase_store_loop ss s fp x sk r = (x', sk', r') \<Longrightarrow> extends r r'"
proof (induction ss arbitrary: x sk r)
  case (Cons st ss)
  obtain x1 o0 err where er: "sb_Erase st x s fp = (x1, o0, err)" by (rule prod_cases3)
  let ?r1 = "case err of None \<Rightarrow> r | Some e \<Rightarrow> r\<lparr>rs_Errors := rs_Errors r @ [Wrap ''subject store'' e]\<rparr>"
  obtain o2 sk2 where step: "erase_store_loop (st # ss) s fp x sk r =
      erase_store_loop ss s fp x1 sk2 (?r1\<lparr>rs_SubjectStores := rs_SubjectStores ?r1 @ [o2]\<rparr>)"
    by (simp add: er Let_def)
  have "extends r (?r1\<lparr>rs_SubjectStores := rs_SubjectStores ?r1 @ [o2]\<rparr>)"
    by (auto simp: extends_def split: option.splits)
  also have "extends (?r1\<lparr>rs_SubjectStores := rs_SubjectStores ?r1 @ [o2]\<rparr>) r'"
    using Cons.IH [of x1 sk2] Cons.prems unfolding step by blast
  finally show ?case .
qed simp

lemma eraseSubjectStores_extends: "eraseSubjectStores e s x r = (x', r') \<Longrightarrow> extends r r'"
  using erase_store_loop_extends
  by (fastforce simp: eraseSubjectStores_def extends_def split: prod.splits if_splits)

lemma hook_loop_extends: "hook_loop hs ec x r = (x', r') \<Longrightarrow> extends r r'"
proof (induction hs ec x r rule: hook_loop.induct)
  case (2 name run rest ec x r)
  obtain x1 err where er: "run x ec = (x1, err)" by (rule prod.exhaust)
  show ?case
  proof (cases err)
    case None
    have "extends r (r\<lparr>rs_SideEffects := rs_SideEffects r @ [name]\<rparr>)" by (simp add: extends_def)
    then show ?thesis using 2(1) [OF er [symmetric] None] 2(3) er None extends_trans by auto
  next
    case (Some e)
    have "extends r (r\<lparr>rs_Errors := rs_Errors r @ [Wrap ''erasure hook'' e]\<rparr>)" by (simp add: extends_def)
    then show ?thesis using 2(2) [OF er [symmetric] Some] 2(3) er Some extends_trans by auto
  qed
qed simp

lemma runErasureHooks_extends: "runErasureHooks e s x r = (x', r') \<Longrightarrow> extends r r'"
  unfolding runErasureHooks_def by (rule hook_loop_extends)

section \<open>Certificates\<close>

lemma cert_verdicts [simp]:
  "cd_verified (cert_note n d) = cd_verified d" "\<not> cd_verified (cert_block n d)"
  by (simp_all add: cert_note_def cert_block_def)

lemma gateVacuous_verified: "cd_verified (gateVacuous n r d) \<Longrightarrow> cd_verified d"
  by (auto simp: gateVacuous_def split: if_splits)

lemma gateKeyOutcome_verified: "cd_verified (gateKeyOutcome r d) \<Longrightarrow> cd_verified d \<and> rs_KeysFailed r = []"
  by (auto simp: gateKeyOutcome_def Let_def split: if_splits)

lemma gateSubjectStores_verified: "cd_verified (gateSubjectStores os d) \<Longrightarrow> cd_verified d"
  unfolding gateSubjectStores_def
proof (induction os arbitrary: d)
  case (Cons ss os)
  then have "cd_verified (gate_store ss d)" by simp
  then show ?case by (simp add: gate_store_def split: if_splits)
qed simp

lemma countSubjectResiduals_clean:
  "countSubjectResiduals ss x s fp ver rep = (ver', rep', err) \<Longrightarrow> vr_clean rep' \<Longrightarrow> vr_clean rep"
  by (induction ss x s fp ver rep rule: countSubjectResiduals.induct)
    (auto simp: vr_clean_def split: option.splits sum.splits if_splits)

lemma attestEvidence_verified:
  assumes "attestEvidence ev e a x s r d = (vr, r', d')"
  shows "extends r r'"
    and "cd_verified d' \<Longrightarrow> \<exists>rep. verifyStreams ev e a s (rs_attributed r) (rs_Streams r) (new_report s (rs_Partial r)) = (rep, None) \<and>
      vr_clean rep"
proof -
  obtain rep verr where v: "verifyStreams ev e a s (rs_attributed r) (rs_Streams r) (new_report s (rs_Partial r)) = (rep, verr)"
    by (rule prod.exhaust)
  show "extends r r'"
    using assms by (auto simp: attestEvidence_def v extends_def Let_def split: prod.splits option.splits)
  assume "cd_verified d'"
  then have "verr = None \<and> vr_clean vr"
    using assms by (auto simp: attestEvidence_def v Let_def split: prod.splits option.splits)
  moreover from this have "vr_clean rep"
    using assms countSubjectResiduals_clean
    by (fastforce simp: attestEvidence_def v Let_def split: prod.splits option.splits)
  ultimately show "\<exists>rep. verifyStreams ev e a s (rs_attributed r) (rs_Streams r) (new_report s (rs_Partial r)) = (rep, None) \<and> vr_clean rep"
    using v by blast
qed

lemma buildCertificate_verified:
  assumes "buildCertificate ev e now a x s r = (cert, r')"
  shows "extends r r'"
    and "ct_Verified cert \<Longrightarrow> \<exists>rep. verifyStreams ev e a s (rs_attributed r) (rs_Streams r) (new_report s (rs_Partial r)) = (rep, None) \<and>
      vr_clean rep"
    and "ct_Verified cert \<Longrightarrow> rs_KeysFailed r = []"
proof -
  define d0 where "d0 = \<lparr>cd_cert = \<lparr>ct_SubjectID = s, ct_VerifiedAt = now, ct_Verified = False, ct_EventsChecked = 0,
                  ct_KeysRevoked = length (rs_KeysRevoked r), ct_Partial = rs_Partial r,
                  ct_SideEffects = rs_SideEffects r, ct_StoresVerified = [], ct_StoresUnchecked = [], ct_Notes = []\<rparr>,
                cd_verified = True\<rparr>"
  obtain vr r1 d1 where at: "attestEvidence ev e a x s r d0 = (vr, r1, d1)" by (rule prod_cases3)
  define d2 where "d2 = gateKeyOutcome r1 (gateVacuous (vr_EventsChecked vr) r1 d1)"
  define d3 where "d3 = (if de_markerStream e \<noteq> [] \<and> \<not> rs_MarkerWritten r1 then cert_block MarkerMissingNote d2 else d2)"
  define d4 where "d4 = gateSubjectStores (rs_SubjectStores r1) d3"
  define d5 where "d5 = (if length (rs_ResidualReadModels r1) > 0
    then cert_block (ReadModelsNote (length (rs_ResidualReadModels r1))) d4 else d4)"
  have "(cert, r') = ((cd_cert d5)\<lparr>ct_Verified := cd_verified d5\<rparr>, r1)"
    unfolding assms [symmetric] d2_def d3_def d4_def d5_def
    by (simp only: buildCertificate_def Let_def at [unfolded d0_def] prod.case)
  then have c: "ct_Verified cert = cd_verified d5" "r' = r1" by simp_all
  show ext: "extends r r'" using attestEvidence_verified(1) [OF at] c by simp
  {
    assume "ct_Verified cert"
    then have "cd_verified d4" using c by (simp add: d5_def split: if_splits)
    then have "cd_verified d3" unfolding d4_def by (rule gateSubjectStores_verified)
    then have "cd_verified d2" by (simp add: d3_def split: if_splits)
    then have "cd_verified d1 \<and> rs_KeysFailed r1 = []"
      unfolding d2_def using gateKeyOutcome_verified gateVacuous_verified by blast
  } note v = this
  show "ct_Verified cert \<Longrightarrow> \<exists>rep. verifyStreams ev e a s (rs_attributed r) (rs_Streams r) (new_report s (rs_Partial r)) = (rep, None) \<and>
      vr_clean rep"
    using v attestEvidence_verified(2) [OF at] by blast
  show "ct_Verified cert \<Longrightarrow> rs_KeysFailed r = []" using v ext c by (simp add: extends_def)
qed

lemma recordChecked_clean:
  "vr_clean (recordChecked ev a ref m rep) \<Longrightarrow>
   vr_clean rep \<and> HasEncryptionEnvelope m \<and> revocationState ev a m = Revoked"
  by (auto simp: recordChecked_def vr_clean_def Let_def split: if_splits RevocationState.splits)

lemma recordUnattributed_clean: "vr_clean (recordUnattributed ev a ref m rep) \<Longrightarrow> vr_clean rep"
  by (auto simp: recordUnattributed_def vr_clean_def split: if_splits)

lemma verify_event_clean:
  assumes "vr_clean (verify_event ev e a s ms se rep)"
  shows "vr_clean rep"
    and "matches_has ms se \<or> at_to (eraser_attribute ev e a se) s \<Longrightarrow>
      enveloped se \<and> revocationState ev a (se_Metadata se) = Revoked"
  using assms by (auto simp: verify_event_def Let_def dest: recordChecked_clean recordUnattributed_clean split: if_splits)

lemma verify_stream_clean:
  assumes "vr_clean (fold (verify_event ev e a s ms) es rep)"
  shows "vr_clean rep"
    and "se \<in> set es \<Longrightarrow> matches_has ms se \<or> at_to (eraser_attribute ev e a se) s \<Longrightarrow>
      enveloped se \<and> revocationState ev a (se_Metadata se) = Revoked"
proof -
  have "vr_clean rep \<and> (\<forall>se \<in> set es. matches_has ms se \<or> at_to (eraser_attribute ev e a se) s \<longrightarrow>
      enveloped se \<and> revocationState ev a (se_Metadata se) = Revoked)"
    using assms
  proof (induction es arbitrary: rep)
    case (Cons se es)
    then have "vr_clean (verify_event ev e a s ms se rep)" by simp
    from verify_event_clean [OF this] Cons show ?case by auto
  qed simp
  then show "vr_clean rep"
    and "se \<in> set es \<Longrightarrow> matches_has ms se \<or> at_to (eraser_attribute ev e a se) s \<Longrightarrow>
      enveloped se \<and> revocationState ev a (se_Metadata se) = Revoked" by blast+
qed

text \<open>A clean verification without error has seen every stream it could load.\<close>

lemma verifyStreams_clean:
  assumes "verifyStreams ev e a s ms ss rep = (rep', None)" and "vr_clean rep'" and "sid \<in> set ss"
    and "LoadRaw (bs_ops (ev_store ev)) a sid 0 = Inr stored" and "se \<in> set stored"
    and "matches_has ms se \<or> at_to (eraser_attribute ev e a se) s"
  shows "enveloped se \<and> revocationState ev a (se_Metadata se) = Revoked"
proof -
  have clean: "vr_clean rep" if "verifyStreams ev e a s ms ss rep = (rep', None)" for ss rep
    using that assms(2) verify_stream_clean(1)
    by (induction ss arbitrary: rep) (fastforce split: sum.splits if_splits)+
  show ?thesis
    using assms(1,3)
  proof (induction ss arbitrary: rep)
    case (Cons sid' ss)
    show ?case
    proof (cases "sid' = sid")
      case True
      then have "verifyStreams ev e a s ms ss (fold (verify_event ev e a s ms) stored rep) = (rep', None)"
        using Cons.prems(1) assms(4) by simp
      from verify_stream_clean(2) [OF clean [OF this] assms(5,6)] show ?thesis .
    next
      case False
      then show ?thesis using Cons by (auto split: sum.splits if_splits)
    qed
  qed simp
qed

section \<open>The last phases\<close>

lemma Store_Append_state:
  assumes "Store_Append gl ens ops s a sid evs opts = (s', a', idx, err)"
  shows "a' = a \<or> (\<exists>rs v out. ao_Append ops a sid rs v = (a', out))"
  using assms by (auto simp: Store_Append_def Let_def split: option.splits if_splits prod.splits sum.splits)

lemma appendMarker_state:
  assumes "appendMarker ev e s a mc r = (a', mc', err)"
  shows "a' = a \<or> (\<exists>rs v out. ao_Append (bs_ops (ev_store ev)) a (de_markerStream e) rs v = (a', out))"
proof -
  obtain mc1 b where me: "markerExists ev e a mc s = (mc1, b)" by (rule prod.exhaust)
  let ?evs = "[ev_marker ev s (rs_ErasedAt r) (length (rs_KeysRevoked r))]"
  let ?opts = "[WithAppendMetadata (WithCustom empty_metadata erasureMarkerSubjectKey s)]"
  obtain s2 a2 idx err2 where ap: "Store_Append (bs_lib (ev_store ev)) (ev_entropy ev) (bs_ops (ev_store ev))
      (bs_store (ev_store ev) a) a (de_markerStream e) ?evs ?opts = (s2, a2, idx, err2)" by (rule prod_cases4)
  have "a' = a \<or> a' = a2"
    using assms by (simp add: appendMarker_def me ap Let_def split: bool.splits option.splits)
  then show ?thesis using Store_Append_state [OF ap] by blast
qed

text \<open>The phases after the revocation, as one step: the store side is the marker's append, the result
  is extended, and a purged index means that a certificate over exactly this state was verified.\<close>

lemma erase_finish_cases:
  assumes "erase_finish ev e now s a x mc r = ((a', x', mc'), r', err)"
  obtains r4 x3 where
    "a' = a \<or> (\<exists>rs v out. ao_Append (bs_ops (ev_store ev)) a (de_markerStream e) rs v = (a', out))"
    "extends r r4"
    "rs_KeysRevoked r' = rs_KeysRevoked r4" "rs_Partial r' = rs_Partial r4"
    "\<exists>errs. rs_Errors r' = rs_Errors r4 @ errs"
    "\<not> rs_SubjectIndexPurged r \<Longrightarrow> rs_SubjectIndexPurged r' \<Longrightarrow> \<exists>cert r5. buildCertificate ev e now a' x3 s r4 = (cert, r5) \<and> ct_Verified cert"
proof -
  obtain x1 r1 where p1: "redactReadModels e s x r = (x1, r1)" by (rule prod.exhaust)
  obtain x2 r2 where p2: "eraseSubjectStores e s x1 r1 = (x2, r2)" by (rule prod.exhaust)
  obtain x3 r3 where p3: "runErasureHooks e s x2 r2 = (x3, r3)" by (rule prod.exhaust)
  have e3: "extends r r3"
    using redactReadModels_extends [OF p1] eraseSubjectStores_extends [OF p2] runErasureHooks_extends [OF p3]
      extends_trans by blast
  let ?m = "if de_markerStream e = [] then (a, mc, r3, None)
     else (case appendMarker ev e s a mc r3 of
             (a', mc', Some err) \<Rightarrow> (a', mc', r3\<lparr>rs_Errors := rs_Errors r3 @ [Wrap ''append erasure marker'' err]\<rparr>, Some err)
           | (a', mc', None) \<Rightarrow> (a', mc', r3\<lparr>rs_MarkerWritten := True\<rparr>, None))"
  obtain a4 mc4 r4 merr where p4: "?m = (a4, mc4, r4, merr)" by (rule prod_cases4)
  have a4: "a4 = a \<or> (\<exists>rs v out. ao_Append (bs_ops (ev_store ev)) a (de_markerStream e) rs v = (a4, out))"
  proof (cases "de_markerStream e = []")
    case False
    obtain a2 mc2 err2 where am: "appendMarker ev e s a mc r3 = (a2, mc2, err2)" by (rule prod_cases3)
    have "a4 = a2" using p4 False by (simp add: am split: option.splits)
    then show ?thesis using appendMarker_state [OF am] by simp
  qed (use p4 in simp)
  have "extends r3 r4" using p4 by (auto simp: extends_def split: if_splits prod.splits option.splits)
  with e3 have e4: "extends r r4" by (rule extends_trans)
  have np: "rs_SubjectIndexPurged r4 = rs_SubjectIndexPurged r" using e4 by (simp add: extends_def)
  define c where "c = (case de_certSink e of
      Some sink \<Rightarrow> emitCertificate ev e sink now a4 x3 s r4
    | None \<Rightarrow> (case de_indexPurger e of
         Some _ \<Rightarrow> (case buildCertificate ev e now a4 x3 s r4 of (cert, r) \<Rightarrow> (x3, cert, r, None))
       | None \<Rightarrow> (x3, zero_certificate, r4, None)))"
  obtain x5 cert r5 cerr where p5: "c = (x5, cert, r5, cerr)" by (rule prod_cases4)
  obtain bc br where b: "buildCertificate ev e now a4 x3 s r4 = (bc, br)" by (rule prod.exhaust)
  have e5: "extends r4 r5"
    using p5 buildCertificate_verified(1) [OF b]
    by (auto simp: c_def emitCertificate_def b extends_def split: option.splits prod.splits)
  have cert: "de_indexPurger e \<noteq> None \<Longrightarrow> cert = bc"
    using p5 by (auto simp: c_def emitCertificate_def b split: option.splits prod.splits)
  have fin: "((a', x', mc'), r', err) =
      (if merr \<noteq> None \<and> de_strictAccountability e
       then ((a4, x3, mc4), r4,
             Some (NewErasureError s (Wrap ''strict accountability: append erasure marker'' (the merr))))
       else if cerr \<noteq> None \<and> de_strictAccountability e
       then ((a4, x5, mc4), r5, Some (NewErasureError s (Wrap ''strict accountability'' (the cerr))))
       else (case de_indexPurger e of
               None \<Rightarrow> ((a4, x5, mc4), r5, None)
             | Some purge \<Rightarrow>
                 (case purgeSubjectIndex purge s (ct_Verified cert) x5 r5 of (x6, r6) \<Rightarrow> ((a4, x6, mc4), r6, None))))"
    unfolding assms(1) [symmetric] erase_finish_def p1 p2 p3 prod.case p4
    unfolding c_def [symmetric] p5 prod.case ..
  have np5: "rs_SubjectIndexPurged r5 = rs_SubjectIndexPurged r" using e5 np by (simp add: extends_def)
  show thesis
  proof (rule that [of r4 x3])
    show "a' = a \<or> (\<exists>rs v out. ao_Append (bs_ops (ev_store ev)) a (de_markerStream e) rs v = (a', out))"
      using fin a4 by (auto split: if_splits option.splits prod.splits)
    show "extends r r4" by (fact e4)
    show "rs_KeysRevoked r' = rs_KeysRevoked r4" "rs_Partial r' = rs_Partial r4" "\<exists>errs. rs_Errors r' = rs_Errors r4 @ errs"
      using fin e5 by (auto simp: extends_def purgeSubjectIndex_def split: if_splits option.splits prod.splits)
    assume "\<not> rs_SubjectIndexPurged r" "rs_SubjectIndexPurged r'"
    then have "de_indexPurger e \<noteq> None \<and> ct_Verified cert \<and> a' = a4"
      using fin np np5 by (auto simp: purgeSubjectIndex_def split: if_splits option.splits prod.splits)
    then show "\<exists>cert r5. buildCertificate ev e now a' x3 s r4 = (cert, r5) \<and> ct_Verified cert"
      using cert b by blast
  qed
qed

section \<open>The shared-key guard\<close>

definition exclusive :: "subject_attribution \<Rightarrow> string \<Rightarrow> bool" where
  "exclusive t s \<longleftrightarrow> attributed t \<and> \<not> at_toOther t s"

lemma shared_key_event_set:
  "set (fst (shared_key_event att s ks se st)) =
     set (fst st) \<union> (if enveloped se \<and> key_of se \<in> set ks \<and> \<not> exclusive (att se) s then {key_of se} else {})"
  by (cases st) (auto simp: shared_key_event_def exclusive_def at_toOther_def list_ex_iff filter_empty_conv Let_def)

lemma fold_shared_key_set:
  "set (fst (fold (shared_key_event att s ks) es st)) =
     set (fst st) \<union> key_of ` {se \<in> set es. enveloped se \<and> key_of se \<in> set ks \<and> \<not> exclusive (att se) s}"
  by (induction es arbitrary: st) (auto simp: shared_key_event_set)

section \<open>Revocation\<close>

locale key_vault = scannable_store "ev_store ev" ok log
  for ev :: "('d, 'a) eraser_env" and ok :: "'a \<Rightarrow> bool" and log :: "'a \<Rightarrow> stored_event list" +
  assumes revoke_store: "ok a \<Longrightarrow> ev_RevokeKey ev a k = (a', err) \<Longrightarrow> ok a' \<and> log a' = log a \<and>
      (es_encryption (bs_store (ev_store ev) a') = None \<longleftrightarrow> es_encryption (bs_store (ev_store ev) a) = None)"
    and revoke_sets: "ok a \<Longrightarrow> ev_RevokeKey ev a k = (a', None) \<Longrightarrow> ev_RevocationState ev a' k = Inr Revoked"
    and revoke_final: "ok a \<Longrightarrow> ev_RevocationState ev a k = Inr Revoked \<Longrightarrow> ev_RevokeKey ev a k' = (a', err) \<Longrightarrow>
      ev_RevocationState ev a' k = Inr Revoked"
    and revoke_frame: "ok a \<Longrightarrow> k' \<noteq> k \<Longrightarrow> ev_RevokeKey ev a k = (a', err) \<Longrightarrow>
      ev_RevocationState ev a' k' = ev_RevocationState ev a k'"
    and attribute_frame: "ok a \<Longrightarrow> k \<noteq> key_of e \<Longrightarrow> ev_RevokeKey ev a k = (a', err) \<Longrightarrow>
      attributeSubjects (bs_lib (ev_store ev)) (bs_store (ev_store ev) a') t e =
      attributeSubjects (bs_lib (ev_store ev)) (bs_store (ev_store ev) a) t e"
    and attribute_mono: "ok a \<Longrightarrow> ev_RevokeKey ev a k = (a', err) \<Longrightarrow>
      at_to (attributeSubjects (bs_lib (ev_store ev)) (bs_store (ev_store ev) a') t e) s \<Longrightarrow>
      at_to (attributeSubjects (bs_lib (ev_store ev)) (bs_store (ev_store ev) a) t e) s"
    and append_store: "ok a \<Longrightarrow> ao_Append (bs_ops (ev_store ev)) a sid rs v = (a', out) \<Longrightarrow>
      ok a' \<and> (\<exists>new. log a' = log a @ new) \<and> ev_RevocationState ev a' = ev_RevocationState ev a \<and>
      (es_encryption (bs_store (ev_store ev) a') = None \<longleftrightarrow> es_encryption (bs_store (ev_store ev) a) = None)"
begin

text \<open>What a run of revocations does to the state.\<close>

definition revoked_run :: "string list \<Rightarrow> 'a \<Rightarrow> 'a \<Rightarrow> bool" where
  "revoked_run ks a a' \<longleftrightarrow>
     ok a' \<and> log a' = log a \<and>
     (es_encryption (bs_store (ev_store ev) a') = None \<longleftrightarrow> es_encryption (bs_store (ev_store ev) a) = None) \<and>
     (\<forall>k. k \<notin> set ks \<longrightarrow> ev_RevocationState ev a' k = ev_RevocationState ev a k) \<and>
     (\<forall>k. ev_RevocationState ev a k = Inr Revoked \<longrightarrow> ev_RevocationState ev a' k = Inr Revoked) \<and>
     (\<forall>t e. key_of e \<notin> set ks \<longrightarrow>
        attributeSubjects (bs_lib (ev_store ev)) (bs_store (ev_store ev) a') t e =
        attributeSubjects (bs_lib (ev_store ev)) (bs_store (ev_store ev) a) t e) \<and>
     (\<forall>t e s. at_to (attributeSubjects (bs_lib (ev_store ev)) (bs_store (ev_store ev) a') t e) s \<longrightarrow>
        at_to (attributeSubjects (bs_lib (ev_store ev)) (bs_store (ev_store ev) a) t e) s)"

lemma revoked_run_refl: "ok a \<Longrightarrow> revoked_run ks a a"
  by (simp add: revoked_run_def)

lemma revoked_run_step:
  assumes "ok a" and "ev_RevokeKey ev a k = (a1, err)" and "revoked_run ks a1 a'"
  shows "revoked_run (k # ks) a a'"
proof -
  note st = revoke_store [OF assms(1,2)]
  show ?thesis
    unfolding revoked_run_def
  proof (intro conjI allI impI)
    fix k' assume "k' \<notin> set (k # ks)"
    then show "ev_RevocationState ev a' k' = ev_RevocationState ev a k'"
      using revoke_frame [OF assms(1) _ assms(2), of k'] assms(3) by (simp add: revoked_run_def)
  next
    fix k' assume "ev_RevocationState ev a k' = Inr Revoked"
    from revoke_final [OF assms(1) this assms(2)] show "ev_RevocationState ev a' k' = Inr Revoked"
      using assms(3) by (simp add: revoked_run_def)
  next
    fix t and e :: stored_event assume "key_of e \<notin> set (k # ks)"
    then show "attributeSubjects (bs_lib (ev_store ev)) (bs_store (ev_store ev) a') t e =
        attributeSubjects (bs_lib (ev_store ev)) (bs_store (ev_store ev) a) t e"
      using attribute_frame [OF assms(1) _ assms(2), of e t] assms(3) by (auto simp: revoked_run_def)
  next
    fix t e s assume "at_to (attributeSubjects (bs_lib (ev_store ev)) (bs_store (ev_store ev) a') t e) s"
    then show "at_to (attributeSubjects (bs_lib (ev_store ev)) (bs_store (ev_store ev) a) t e) s"
      using attribute_mono [OF assms(1,2), of t e s] assms(3) by (simp add: revoked_run_def)
  qed (use st assms(3) in \<open>simp_all add: revoked_run_def\<close>)
qed

lemma revoke_loop_run: "ok a \<Longrightarrow> revoke_loop ev s ks a r = (a', out) \<Longrightarrow> revoked_run ks a a'"
proof (induction ks arbitrary: a r)
  case Nil
  then show ?case by (simp add: revoked_run_refl)
next
  case (Cons k ks)
  obtain a1 err where st: "ev_RevokeKey ev a k = (a1, err)" by (rule prod.exhaust)
  have "ok a1" using revoke_store [OF Cons.prems(1) st] by simp
  then have "revoked_run ks a1 a'"
    using Cons.IH Cons.prems(2) st by (auto simp: revoked_run_refl split: option.splits if_splits)
  with Cons.prems(1) st show ?case by (rule revoked_run_step)
qed

lemma revoke_late_run: "ok a \<Longrightarrow> revoke_late_loop ev ks a r = (a', r') \<Longrightarrow> revoked_run ks a a'"
proof (induction ks arbitrary: a r)
  case Nil
  then show ?case by (simp add: revoked_run_refl)
next
  case (Cons k ks)
  obtain a1 err where st: "ev_RevokeKey ev a k = (a1, err)" by (rule prod.exhaust)
  have "ok a1" using revoke_store [OF Cons.prems(1) st] by simp
  then have "revoked_run ks a1 a'"
    using Cons.IH Cons.prems(2) st by (auto split: option.splits)
  with Cons.prems(1) st show ?case by (rule revoked_run_step)
qed

text \<open>The result of the revocation loop: every key is revoked or reported as failed.\<close>

lemma revoke_loop_result:
  assumes "ok a" and "revoke_loop ev s ks a r = (a', Inr r')"
  shows "\<exists>rev fail errs. r' = r\<lparr>rs_KeysRevoked := rs_KeysRevoked r @ rev, rs_KeysFailed := rs_KeysFailed r @ fail,
      rs_Errors := rs_Errors r @ errs\<rparr> \<and>
    set rev \<union> set fail = set ks \<and> (errs = [] \<longleftrightarrow> fail = []) \<and> (\<forall>k \<in> set rev. ev_RevocationState ev a' k = Inr Revoked)"
  using assms
proof (induction ks arbitrary: a r)
  case Nil
  then show ?case by (intro exI [of _ "[]"]) simp
next
  case (Cons k ks)
  obtain a1 err where st: "ev_RevokeKey ev a k = (a1, err)" by (rule prod.exhaust)
  have ok1: "ok a1" using revoke_store [OF Cons.prems(1) st] by simp
  show ?case
  proof (cases err)
    case None
    let ?r1 = "r\<lparr>rs_KeysRevoked := rs_KeysRevoked r @ [k]\<rparr>"
    have run: "revoke_loop ev s ks a1 ?r1 = (a', Inr r')" using Cons.prems(2) st None by simp
    obtain rev fail errs where ih: "r' = ?r1\<lparr>rs_KeysRevoked := rs_KeysRevoked ?r1 @ rev,
        rs_KeysFailed := rs_KeysFailed ?r1 @ fail, rs_Errors := rs_Errors ?r1 @ errs\<rparr>"
      "set rev \<union> set fail = set ks" "errs = [] \<longleftrightarrow> fail = []" "\<forall>k \<in> set rev. ev_RevocationState ev a' k = Inr Revoked"
      using Cons.IH [OF ok1 run] by blast
    have "ev_RevocationState ev a1 k = Inr Revoked" using revoke_sets [OF Cons.prems(1)] st None by simp
    then have "ev_RevocationState ev a' k = Inr Revoked"
      using revoke_loop_run [OF ok1 run] by (simp add: revoked_run_def)
    then show ?thesis using ih by (intro exI [of _ "k # rev"] exI [of _ fail] exI [of _ errs]) auto
  next
    case (Some e)
    let ?r1 = "r\<lparr>rs_Errors := rs_Errors r @ [Wrap ''revoke key'' e], rs_KeysFailed := rs_KeysFailed r @ [k]\<rparr>"
    have run: "revoke_loop ev s ks a1 ?r1 = (a', Inr r')" using Cons.prems(2) st Some by (simp split: if_splits)
    obtain rev fail errs where ih: "r' = ?r1\<lparr>rs_KeysRevoked := rs_KeysRevoked ?r1 @ rev,
        rs_KeysFailed := rs_KeysFailed ?r1 @ fail, rs_Errors := rs_Errors ?r1 @ errs\<rparr>"
      "set rev \<union> set fail = set ks" "errs = [] \<longleftrightarrow> fail = []" "\<forall>k \<in> set rev. ev_RevocationState ev a' k = Inr Revoked"
      using Cons.IH [OF ok1 run] by blast
    then show ?thesis
      by (intro exI [of _ rev] exI [of _ "k # fail"] exI [of _ "Wrap ''revoke key'' e # errs"]) auto
  qed
qed

lemma detect_shared_keys:
  assumes "ok a" and "0 < de_batchSize e" and "length (log a) < fuel"
  shows "\<exists>out. detectSharedKeys fuel None ev e a s ks = Some (Inr out)"
    and "detectSharedKeys fuel None ev e a s ks = Some (Inr None) \<Longrightarrow>
      \<forall>se \<in> set (log a). enveloped se \<longrightarrow> key_of se \<in> set ks \<longrightarrow> exclusive (eraser_attribute ev e a se) s"
proof -
  let ?f = "shared_key_event (eraser_attribute ev e a) s ks"
  obtain sh ot where st: "fold ?f (log a) ([], []) = (sh, ot)" by (rule prod.exhaust)
  have scan: "scan_loop fuel (scan_page None (ev_store ev) a (de_batchSize e) w) se_GlobalPosition
      (\<lambda>se st. (?f se st, None)) 0 ([], []) = Some ((sh, ot), None)" for w
    using foldE_total [of "log a" "\<lambda>se st. (?f se st, None)" ?f "([], [])"] by (simp add: scan_log [OF assms] st)
  have run: "detectSharedKeys fuel None ev e a s ks =
      Some (Inr (if length sh = 0 then None else Some (SharedKeyError s (sortedSet sh) (sampleSet ot 10) (length ot))))"
    using has_feed by (simp add: detectSharedKeys_def scan)
  then show "\<exists>out. detectSharedKeys fuel None ev e a s ks = Some (Inr out)" by blast
  assume "detectSharedKeys fuel None ev e a s ks = Some (Inr None)"
  then have "sh = []" using run by (simp split: if_splits)
  then have "key_of ` {se \<in> set (log a). enveloped se \<and> key_of se \<in> set ks \<and> \<not> exclusive (eraser_attribute ev e a se) s} = {}"
    using fold_shared_key_set [of "eraser_attribute ev e a" s ks "log a" "([], [])"] st by simp
  then show "\<forall>se \<in> set (log a). enveloped se \<longrightarrow> key_of se \<in> set ks \<longrightarrow> exclusive (eraser_attribute ev e a se) s"
    by blast
qed

lemma guarded_plan:
  assumes "ok a" and "0 < de_batchSize e" and "length (log a) < fuel" and "de_sharedKeyGuard e" and "\<not> de_allowSharedKey e"
    and "erase_plan fuel None ev e now a req = Some (Inr (acc, resolved))"
    and "se \<in> set (log a)" and "enveloped se" and "key_of se \<in> set (ea_keySet acc)"
  shows "exclusive (eraser_attribute ev e a se) (rq_SubjectID req)"
proof -
  have "ea_keySet acc \<noteq> []" using assms(9) by auto
  then have "detectSharedKeys fuel None ev e a (rq_SubjectID req) (ea_keySet acc) = Some (Inr None)"
    using assms(4-6) by (auto simp: erase_plan_def Let_def split: if_splits option.splits sum.splits prod.splits)
  from detect_shared_keys(2) [OF assms(1-3) this] assms(7-9) show ?thesis by blast
qed

text \<open>The reconciliation after the revocation.\<close>

lemma reconcile_cases:
  assumes "ok a" and "reconcileAfterRevoke fuel ctx ev e resolver s ks a r = Some (a', r')"
  obtains nks where "revoked_run nks a a'"
    "de_sharedKeyGuard e \<and> \<not> de_allowSharedKey e \<Longrightarrow> nks \<noteq> [] \<Longrightarrow> detectSharedKeys fuel ctx ev e a s nks = Some (Inr None)"
    "\<exists>errs. rs_Errors r' = rs_Errors r @ errs"
    "rs_Errors r' = rs_Errors r \<Longrightarrow> r' = r"
    "rs_Streams r' = rs_Streams r" "rs_attributed r' = rs_attributed r"
    "rs_SubjectIndexPurged r' = rs_SubjectIndexPurged r"
    "rs_Partial r \<Longrightarrow> rs_Partial r'"
proof -
  obtain res where res: "Resolve fuel ctx (ev_store ev) resolver a s = Some res"
    using assms(2) by (auto simp: reconcileAfterRevoke_def split: option.splits)
  define nks where "nks = (case res of Inl _ \<Rightarrow> [] | Inr fp \<Rightarrow> filter (\<lambda>k. k \<notin> set ks) (fp_KeyIDs fp))"
  obtain a1 r1 where lt: "revoke_late_loop ev nks a r = (a1, r1)" by (rule prod.exhaust)
  have late_r: "\<exists>errs. rs_Errors r1 = rs_Errors r @ errs" "rs_Streams r1 = rs_Streams r"
    "rs_attributed r1 = rs_attributed r" "rs_SubjectIndexPurged r1 = rs_SubjectIndexPurged r"
    using lt by (induction nks arbitrary: a r) (fastforce split: prod.splits option.splits)+
  let ?r1 = "(sort_keys r1)\<lparr>rs_Partial := True, rs_Errors := rs_Errors r1 @ [Errorf ''subject had events appended during erasure'']\<rparr>"
  consider (keep) errs where "a' = a" "r' = r \<or> (errs \<noteq> [] \<and> (r' = r\<lparr>rs_Errors := rs_Errors r @ errs\<rparr> \<or>
        r' = r\<lparr>rs_Errors := rs_Errors r @ errs, rs_Partial := True\<rparr>))"
    | (late) "nks \<noteq> []" "a' = a1" "r' = ?r1"
      "de_sharedKeyGuard e \<and> \<not> de_allowSharedKey e \<Longrightarrow> detectSharedKeys fuel ctx ev e a s nks = Some (Inr None)"
  proof (cases res)
    case (Inl err)
    then show ?thesis using assms(2) keep [of "[Wrap ''post-revoke re-resolve'' err]"]
      by (simp add: reconcileAfterRevoke_def res)
  next
    case (Inr fp)
    then have nks: "nks = filter (\<lambda>k. k \<notin> set ks) (fp_KeyIDs fp)" by (simp add: nks_def)
    have run: "(if length nks = 0 then Some (a, r)
       else if de_sharedKeyGuard e \<and> \<not> de_allowSharedKey e
       then (case detectSharedKeys fuel ctx ev e a s nks of
               None \<Rightarrow> None
             | Some (Inl derr) \<Rightarrow> Some (a, r\<lparr>rs_Errors := rs_Errors r @ [Wrap ''post-revoke shared-key check'' derr], rs_Partial := True\<rparr>)
             | Some (Inr (Some serr)) \<Rightarrow> Some (a, r\<lparr>rs_Errors := rs_Errors r @ [serr], rs_Partial := True\<rparr>)
             | Some (Inr None) \<Rightarrow> Some (a1, ?r1))
       else Some (a1, ?r1)) = Some (a', r')"
      using assms(2)
      by (simp only: reconcileAfterRevoke_def res Inr Let_def nks [symmetric] lt option.case sum.case prod.case)
    show ?thesis
    proof (cases "nks = []")
      case True
      then show ?thesis using run by (intro keep [of "[]"]) simp_all
    next
      case ne: False
      show ?thesis
      proof (cases "de_sharedKeyGuard e \<and> \<not> de_allowSharedKey e")
        case False
        then show ?thesis using run ne by (intro late) (auto simp del: de_Morgan_conj)
      next
        case True
        let ?d = "detectSharedKeys fuel ctx ev e a s nks"
        consider "?d = None" | derr where "?d = Some (Inl derr)" | serr where "?d = Some (Inr (Some serr))"
          | "?d = Some (Inr None)"
          by (metis option.exhaust sum.exhaust)
        then show ?thesis
        proof cases
          case 1
          then show ?thesis using run ne True by simp
        next
          case (2 derr)
          then show ?thesis using run ne True
            by (intro keep [of "[Wrap ''post-revoke shared-key check'' derr]"]) simp_all
        next
          case (3 serr)
          then show ?thesis using run ne True by (intro keep [of "[serr]"]) simp_all
        next
          case 4
          then show ?thesis using run ne True by (intro late) simp_all
        qed
      qed
    qed
  qed
  then show thesis
  proof cases
    case keep
    then show thesis by (intro that [of "[]"]) (auto simp: revoked_run_refl [OF assms(1)])
  next
    case late
    show thesis
      by (rule that [of nks])
        (use late late_r revoke_late_run [OF assms(1) lt] in \<open>auto simp: sort_keys_def\<close>)
  qed
qed

end

end
