(* ===== verification/Subject_Properties.thy ===== *)
theory Subject_Properties
  imports Subject_Laws
begin

text \<open>
  Properties of data-subject discovery on the in-memory event store: the scan finds exactly the
  events attributed to the subject and says when it cannot know, the index path agrees with the
  scan after a backfill with the same tagger, and the backfill's report adds up.
\<close>

section \<open>A store with two subjects\<close>

definition demo_tagger :: subject_tagger where
  "demo_tagger ty data md = [md_UserID md]"

definition demo_user_event :: "string \<Rightarrow> event_record" where
  "demo_user_event u = demo_event\<lparr>er_Metadata := empty_metadata\<lparr>md_UserID := u\<rparr>\<rparr>"

definition demo_gdpr :: gdpr_world where
  "demo_gdpr = \<lparr>gw_adapter = fst (Append None demo_uuid 7 NewAdapter ''Order-1'' [demo_user_event ''u1'', demo_user_event ''u2''] 0),
     gw_keys = empty_provider\<rparr>"

abbreviation demo_bound :: "(string, gdpr_world) bound_store" where
  "demo_bound \<equiv> mem_bound demo_gcm demo_uuid 7 text_lib text_store"

definition demo_first :: stored_event where
  "demo_first = mk_stored (demo_uuid 0) ''Order-1'' 7 1 1 (demo_user_event ''u1'')"

definition demo_second :: stored_event where
  "demo_second = mk_stored (demo_uuid 1) ''Order-1'' 7 2 2 (demo_user_event ''u2'')"

lemmas demo_stored_defs = demo_first_def demo_second_def

lemma demo_gdpr_log: "world_log demo_gdpr = [demo_first, demo_second]" "world_ok demo_gdpr"
proof -
  show "world_log demo_gdpr = [demo_first, demo_second]"
    by (simp add: demo_stored_defs demo_gdpr_def world_log_def Append_def appendLocked_def checkAppendLocked_def NewAdapter_def
        CheckVersion_def mk_stored_def notifySubscribers_def Let_def)
  have "mem_inv (gw_adapter demo_gdpr)" using Append_inv [OF NewAdapter_inv] by (simp add: demo_gdpr_def)
  moreover have "\<not> ma_closed (gw_adapter demo_gdpr)"
    by (simp add: demo_gdpr_def Append_def appendLocked_def checkAppendLocked_def NewAdapter_def CheckVersion_def
        notifySubscribers_def Let_def)
  ultimately show "world_ok demo_gdpr" by (simp add: world_ok_def)
qed

abbreviation demo_att :: "stored_event \<Rightarrow> subject_attribution" where
  "demo_att \<equiv> resolver_attribute demo_bound demo_gdpr (Some demo_tagger)"

lemma demo_attribution:
  "demo_att (demo_first) = \<lparr>at_subjects = [''u1''], at_derived = True, at_undecryptable = False\<rparr>"
  "demo_att (demo_second) = \<lparr>at_subjects = [''u2''], at_derived = True, at_undecryptable = False\<rparr>"
  by (simp_all add: resolver_attribute_def attributeSubjects_def taggerPlaintext_def demo_stored_defs mk_stored_def demo_user_event_def
      demo_event_def demo_tagger_def cleanSubjects_def GetSubjectTags_def IsEncrypted_def custom_get_def
      custom_entries_def empty_metadata_def Let_def)

lemma demo_stream [simp]: "se_StreamID demo_first = ''Order-1''" "se_StreamID demo_second = ''Order-1''"
 
  by (simp_all add: demo_stored_defs mk_stored_def)

lemma demo_cleartext: "\<not> enveloped demo_first" "\<not> enveloped demo_second"
  by (simp_all add: demo_stored_defs mk_stored_def demo_user_event_def demo_event_def HasEncryptionEnvelope_def
      IsEncrypted_def custom_get_def custom_entries_def empty_metadata_def)

lemma scan_Resolve:
  assumes "world_ok w" and "0 < sr_batchSize r" and "length (world_log w) < fuel" and "subj \<noteq> []"
    and "sr_index r = None"
  shows "\<exists>fp. Resolve fuel None (mem_bound g uuid now gl s) r w subj = Some (Inr fp) \<and>
    footprint_of (resolver_attribute (mem_bound g uuid now gl s) w (sr_tagger r)) subj (world_log w) fp \<and>
    (fp_Partial fp \<longleftrightarrow>
       (\<exists>e \<in> set (world_log w). \<not> attributed (resolver_attribute (mem_bound g uuid now gl s) w (sr_tagger r) e)))"
  using mem_scan.scan_resolves [OF assms, of g uuid now gl s None] by (auto simp: Resolve_def)

section \<open>Properties\<close>

text \<open>C32: the scan-backed resolver is exact.  On the in-memory store, with any batch size and
  more fuel than events, \<^verbatim>\<open>Resolve\<close> returns exactly the streams, counts, keys and cleartext
  events of the events attributed to the subject - by tag, or by the tagger from their plaintext -
  and the streams it shares with others; and it reports the footprint as partial exactly when some
  event of the log can be attributed to nobody.\<close>

theorem scan_footprint_exact:
  assumes "world_ok w" and "0 < sr_batchSize r" and "length (world_log w) < fuel" and "subj \<noteq> []"
    and "sr_index r = None"
  shows "\<exists>fp. Resolve fuel None (mem_bound g uuid now gl s) r w subj = Some (Inr fp) \<and>
    footprint_of (resolver_attribute (mem_bound g uuid now gl s) w (sr_tagger r)) subj (world_log w) fp \<and>
    (fp_Partial fp \<longleftrightarrow>
       (\<exists>e \<in> set (world_log w). \<not> attributed (resolver_attribute (mem_bound g uuid now gl s) w (sr_tagger r) e)))"
  using assms by (rule scan_Resolve)

theorem scan_footprint_exact_witness:
  "\<exists>fp. Resolve 3 None demo_bound (NewSubjectResolver [WithResolverTagger (Some demo_tagger)]) demo_gdpr ''u1'' = Some (Inr fp) \<and>
     fp_Streams fp = [''Order-1''] \<and> fp_EventCount fp = 1 \<and> fp_SharedStreams fp = [''Order-1''] \<and>
     fp_CleartextEvents fp = 1 \<and> \<not> fp_Partial fp"
proof -
  let ?r = "NewSubjectResolver [WithResolverTagger (Some demo_tagger)]"
  have r: "0 < sr_batchSize ?r" "sr_index ?r = None" "sr_tagger ?r = Some demo_tagger"
    by (simp_all add: NewSubjectResolver_def WithResolverTagger_def)
  have "\<exists>fp. Resolve 3 None demo_bound ?r demo_gdpr ''u1'' = Some (Inr fp) \<and>
      footprint_of demo_att ''u1'' (world_log demo_gdpr) fp \<and>
      (fp_Partial fp \<longleftrightarrow> (\<exists>e \<in> set (world_log demo_gdpr). \<not> attributed (demo_att e)))"
    using scan_footprint_exact [OF demo_gdpr_log(2) r(1) _ _ r(2), of 3 "''u1''" demo_gcm demo_uuid 7 text_lib text_store]
    by (simp add: demo_gdpr_log(1) r(3))
  then obtain fp where fp: "Resolve 3 None demo_bound ?r demo_gdpr ''u1'' = Some (Inr fp)"
    "footprint_of demo_att ''u1'' (world_log demo_gdpr) fp"
    "fp_Partial fp \<longleftrightarrow> (\<exists>e \<in> set (world_log demo_gdpr). \<not> attributed (demo_att e))" by blast
  have mine: "mine demo_att ''u1'' (demo_first)" "\<not> mine demo_att ''u1'' (demo_second)"
    by (simp_all add: mine_def at_to_iff demo_attribution)
  have own: "{e \<in> set (world_log demo_gdpr). mine demo_att ''u1'' e} = {demo_first}"
    using mine by (auto simp: demo_gdpr_log(1))
  have oth: "{sid \<in> se_StreamID ` {demo_first}. others_in demo_att ''u1'' (world_log demo_gdpr) sid} = {''Order-1''}"
    by (auto simp: others_in_def demo_gdpr_log(1) demo_attribution at_toOther_def demo_stream)
  show ?thesis
    using fp(1) fp(2,3) mine unfolding footprint_of_def own oth
    by (auto simp: demo_gdpr_log(1) demo_attribution attributed_def demo_cleartext)
qed

definition same_extent :: "subject_footprint \<Rightarrow> subject_footprint \<Rightarrow> bool" where
  "same_extent fp fp' \<longleftrightarrow>
     fp_SubjectID fp = fp_SubjectID fp' \<and> fp_Streams fp = fp_Streams fp' \<and>
     count_of (fp_StreamEventCounts fp) = count_of (fp_StreamEventCounts fp') \<and>
     fp_EventCount fp = fp_EventCount fp' \<and> fp_SharedStreams fp = fp_SharedStreams fp' \<and>
     fp_KeyIDs fp = fp_KeyIDs fp' \<and> fp_CleartextEvents fp = fp_CleartextEvents fp'"

lemma footprints_agree: "footprint_of att s g fp \<Longrightarrow> footprint_of att s g fp' \<Longrightarrow> same_extent fp fp'"
  by (simp add: footprint_of_def same_extent_def fun_eq_iff)

lemma backfill_scan:
  assumes "world_ok w" and "length (world_log w) < fuel"
  shows "BackfillSubjectIndexWithReport fuel None (mem_bound g uuid now gl s) (Some t) (Some wr) n w i =
    Some (foldE (indexEvent None wr (resolver_attribute (mem_bound g uuid now gl s) w (Some t))) (world_log w)
      (i, \<lparr>br_Scanned = 0, br_Indexed = 0, br_Untagged = 0, br_Undecryptable = 0\<rparr>))"
  using assms by (simp add: BackfillSubjectIndexWithReport_def Let_def mem_scan.has_feed mem_scan.scan_log)

lemma backfill_memory:
  assumes "world_ok w" and "length (world_log w) < fuel" and "index_ok i" and "subj \<noteq> []"
  shows "\<exists>i' rep. BackfillSubjectIndexWithReport fuel None (mem_bound g uuid now gl s) (Some t)
      (Some (IndexSubjects None)) n w i = Some ((i', rep), None) \<and> index_ok i' \<and>
    se_StreamID ` {e \<in> set (world_log w). mine (resolver_attribute (mem_bound g uuid now gl s) w (Some t)) subj e}
      \<subseteq> set (index_streams i' subj) \<and>
    (br_Untagged rep = 0 \<longleftrightarrow>
      (\<forall>e \<in> set (world_log w). attributed (resolver_attribute (mem_bound g uuid now gl s) w (Some t) e)))"
proof -
  let ?B = "mem_bound g uuid now gl s"
  let ?att = "resolver_attribute ?B w (Some t)"
  let ?rep0 = "\<lparr>br_Scanned = 0, br_Indexed = 0, br_Untagged = 0, br_Undecryptable = 0\<rparr>"
  obtain i' rep where st: "fold (index_event ?att) (world_log w) (i, ?rep0) = (i', rep)" by (rule prod.exhaust)
  have "foldE (indexEvent None (IndexSubjects None) ?att) (world_log w) (i, ?rep0) = ((i', rep), None)"
    using foldE_total [of "world_log w" "indexEvent None (IndexSubjects None) ?att" "index_event ?att" "(i, ?rep0)"]
    by (simp add: indexEvent_memory st)
  then have "BackfillSubjectIndexWithReport fuel None ?B (Some t) (Some (IndexSubjects None)) n w i = Some ((i', rep), None)"
    by (simp add: backfill_scan [OF assms(1,2)])
  moreover have "index_ok i' \<and> se_StreamID ` {e \<in> set (world_log w). mine ?att subj e} \<union> set (index_streams i subj)
      \<subseteq> set (index_streams i' subj) \<and>
    br_Untagged rep = 0 + int (length (filter (\<lambda>e. \<not> attributed (?att e)) (world_log w)))"
    using fold_index_event [of "world_log w" "(i, ?rep0)" subj ?att] mem_scan.named_streams [OF assms(1)] assms(3,4)
    by (simp add: st)
  ultimately show ?thesis by (auto simp: filter_empty_conv)
qed

text \<open>C33: the index path is the scan path.  Backfilling any well-formed in-memory index with a
  tagger always completes, and then an index-backed resolver with the same tagger that is declared
  authoritative returns, for every subject, the same footprint as the scan-backed resolver; the
  scan reports it as partial exactly when the backfill reported untagged events, which is the
  condition under which the declaration is documented to be unsafe.\<close>

theorem index_resolve_equals_scan:
  assumes "world_ok w" and "length (world_log w) < fuel" and "index_ok i" and "subj \<noteq> []"
  shows "\<exists>i' rep fp fp'.
    BackfillSubjectIndexWithReport fuel None (mem_bound g uuid now gl s) (Some t) (Some (IndexSubjects None)) n w i =
      Some ((i', rep), None) \<and>
    Resolve fuel None (mem_bound g uuid now gl s) (NewSubjectResolver [WithResolverTagger (Some t)]) w subj = Some (Inr fp) \<and>
    Resolve fuel None (mem_bound g uuid now gl s)
      (NewSubjectResolver [WithResolverIndex (Some (StreamsBySubject i')), WithAuthoritativeIndex,
         WithResolverTagger (Some t)]) w subj = Some (Inr fp') \<and>
    same_extent fp fp' \<and> \<not> fp_Partial fp' \<and> (fp_Partial fp \<longleftrightarrow> br_Untagged rep \<noteq> 0)"
proof -
  let ?B = "mem_bound g uuid now gl s"
  let ?att = "resolver_attribute ?B w (Some t)"
  obtain i' rep where b: "BackfillSubjectIndexWithReport fuel None ?B (Some t) (Some (IndexSubjects None)) n w i =
      Some ((i', rep), None)" "index_ok i'"
    "se_StreamID ` {e \<in> set (world_log w). mine ?att subj e} \<subseteq> set (index_streams i' subj)"
    "br_Untagged rep = 0 \<longleftrightarrow> (\<forall>e \<in> set (world_log w). attributed (?att e))"
    using backfill_memory [OF assms, of g uuid now gl s t n] by auto
  let ?r = "NewSubjectResolver [WithResolverTagger (Some t)]"
  let ?ri = "NewSubjectResolver [WithResolverIndex (Some (StreamsBySubject i')), WithAuthoritativeIndex,
    WithResolverTagger (Some t)]"
  have r: "0 < sr_batchSize ?r" "sr_index ?r = None" "sr_tagger ?r = Some t"
    and ri: "sr_index ?ri = Some (StreamsBySubject i')" "sr_tagger ?ri = Some t" "sr_authoritative ?ri"
    by (simp_all add: NewSubjectResolver_def WithResolverTagger_def WithResolverIndex_def WithAuthoritativeIndex_def)
  obtain fp where fp: "Resolve fuel None ?B ?r w subj = Some (Inr fp)" "footprint_of ?att subj (world_log w) fp"
    "fp_Partial fp \<longleftrightarrow> (\<exists>e \<in> set (world_log w). \<not> attributed (?att e))"
    using scan_Resolve [OF assms(1) r(1) assms(2,4) r(2), of g uuid now gl s] unfolding r(3) by blast
  have idx: "StreamsBySubject i' None subj = Inr (sort (index_streams i' subj))" by (simp add: StreamsBySubject_def)
  obtain fp' where fp': "Resolve fuel None ?B ?ri w subj = Some (Inr fp')" "footprint_of ?att subj (world_log w) fp'"
    "\<not> fp_Partial fp'"
    using mem_scan.index_resolves [OF assms(1,4) ri(1) idx, of g uuid now gl s fuel None] b(2,3)
    by (auto simp: Resolve_def ri(2,3) index_ok_def)
  show ?thesis
    using b(1,4) fp(1,3) fp'(1,3) footprints_agree [OF fp(2) fp'(2)] by blast
qed

theorem index_resolve_equals_scan_witness:
  "\<exists>i' rep fp fp'.
    BackfillSubjectIndexWithReport 3 None demo_bound (Some demo_tagger) (Some (IndexSubjects None)) 1 demo_gdpr
      NewMemorySubjectIndex = Some ((i', rep), None) \<and>
    Resolve 3 None demo_bound (NewSubjectResolver [WithResolverTagger (Some demo_tagger)]) demo_gdpr ''u1'' = Some (Inr fp) \<and>
    Resolve 3 None demo_bound
      (NewSubjectResolver [WithResolverIndex (Some (StreamsBySubject i')), WithAuthoritativeIndex,
         WithResolverTagger (Some demo_tagger)]) demo_gdpr ''u1'' = Some (Inr fp') \<and>
    same_extent fp fp' \<and> \<not> fp_Partial fp'"
proof -
  have "index_ok NewMemorySubjectIndex" by (simp add: index_ok_def NewMemorySubjectIndex_def index_streams_def)
  from index_resolve_equals_scan [OF demo_gdpr_log(2) _ this, of 3 "''u1''" demo_gcm demo_uuid 7 text_lib text_store demo_tagger 1]
  show ?thesis by (simp add: demo_gdpr_log(1)) blast
qed

text \<open>The backfill's report adds up, for every store, writer and outcome.  Every event scanned
  is counted as indexed or untagged, except the one whose index write failed and ended the run; the
  undecryptable events are among the untagged; and after a run without error the three counts add
  up exactly.\<close>

theorem backfill_report_adds_up:
  assumes "BackfillSubjectIndexWithReport fuel ctx B tagger writer n a i = Some ((i', rep), err)"
  shows "br_Indexed rep + br_Untagged rep \<le> br_Scanned rep \<and>
    br_Scanned rep \<le> br_Indexed rep + br_Untagged rep + 1 \<and>
    0 \<le> br_Undecryptable rep \<and> br_Undecryptable rep \<le> br_Untagged rep \<and>
    (err = None \<longrightarrow> br_Scanned rep = br_Indexed rep + br_Untagged rep)"
proof -
  let ?rep0 = "\<lparr>br_Scanned = 0, br_Indexed = 0, br_Untagged = 0, br_Undecryptable = 0\<rparr>"
  let ?P = "\<lambda>st. report_ok (snd st) 0" and ?Q = "\<lambda>st. report_ok (snd st) 0 \<or> report_ok (snd st) 1"
  have init: "report_ok ?rep0 0" by (simp add: report_ok_def)
  consider (early) "rep = ?rep0" "err \<noteq> None"
    | (scan) wr where "scan_loop fuel (scan_page ctx B a (if n \<le> 0 then 1000 else n) (Wrap ''mink: backfill scan''))
        se_GlobalPosition (indexEvent ctx wr (resolver_attribute B a tagger)) 0 (i, ?rep0) = Some ((i', rep), err)"
    using assms by (auto simp: BackfillSubjectIndexWithReport_def Let_def split: option.splits if_splits)
  then have "if err = None then ?P (i', rep) else ?Q (i', rep)"
  proof cases
    case scan
    show ?thesis
      by (rule scan_invariant [where P = ?P and Q = ?Q, OF _ _ _ scan])
        (use init in \<open>auto dest: indexEvent_report split: if_splits\<close>)
  qed (use init in simp)
  then show ?thesis by (auto simp: report_ok_def split: if_splits)
qed

text \<open>An index that refuses every write: one event scanned, none indexed, none untagged.\<close>

theorem backfill_report_adds_up_witness:
  "\<exists>rep err. BackfillSubjectIndexWithReport 3 None demo_bound (Some demo_tagger)
       (Some (\<lambda>i sid ss. (i, Some (Errorf ''down'')))) 0 demo_gdpr () = Some (((), rep), Some err) \<and>
     br_Scanned rep \<le> br_Indexed rep + br_Untagged rep + 1 \<and> br_Scanned rep = 1"
proof -
  let ?wr = "\<lambda>i sid ss. (i, Some (Errorf ''down''))"
  let ?rep0 = "\<lparr>br_Scanned = 0, br_Indexed = 0, br_Untagged = 0, br_Undecryptable = 0\<rparr>"
  have "foldE (indexEvent None ?wr demo_att) (world_log demo_gdpr) ((), ?rep0) =
      (((), ?rep0\<lparr>br_Scanned := 1\<rparr>), Some (Wrap ''mink: backfill index stream'' (Errorf ''down'')))"
    by (simp add: demo_gdpr_log(1) indexEvent_def subjectsOf_def demo_attribution)
  then have run: "BackfillSubjectIndexWithReport 3 None demo_bound (Some demo_tagger) (Some ?wr) 0 demo_gdpr () =
      Some (((), ?rep0\<lparr>br_Scanned := 1\<rparr>), Some (Wrap ''mink: backfill index stream'' (Errorf ''down'')))"
    by (subst backfill_scan) (simp_all add: demo_gdpr_log)
  from backfill_report_adds_up [OF run] run show ?thesis by auto
qed

end
