(* ===== verification/Erasure_Properties.thy ===== *)
theory Erasure_Properties
  imports Erasure_Laws Subject_Properties
begin

text \<open>
  What an erasure guarantees: the shared-key guard protects the keys of others on every path, an
  erasure that reports no failure has revoked every key of the subject, and an index is purged only
  after every event of the subject was proven unrecoverable.  The in-memory event store with the
  in-memory key provider is the instance the properties are stated for.
\<close>

section \<open>The shape of a run\<close>

lemma Erase_cases:
  assumes "Erase fuel ctx ev e now (a, x, mc) req = Some ((a', x', mc'), out)"
  obtains (refused) err where "erase_plan fuel ctx ev e now a req = Some (Inl err)" "out = Inl err" "a' = a" "x' = x" "mc' = mc"
  | (unsupported) acc resolved err where "erase_plan fuel ctx ev e now a req = Some (Inr (acc, resolved))"
      "revoke_loop ev (rq_SubjectID req) (ea_keySet acc) a (ea_result acc) = (a', Inl err)" "out = Inl err" "x' = x"
  | (finished) acc resolved a1 r a2 r2 r3 serr where "erase_plan fuel ctx ev e now a req = Some (Inr (acc, resolved))"
      "revoke_loop ev (rq_SubjectID req) (ea_keySet acc) a (ea_result acc) = (a1, Inr r)"
      "a2 = a1 \<and> r2 = (sort_keys r)\<lparr>rs_Streams := sortedSet (ea_streamSet acc)\<rparr> \<or>
       resolved \<and> (\<exists>resolver. reconcileAfterRevoke fuel ctx ev e resolver (rq_SubjectID req) (ea_keySet acc) a1
          ((sort_keys r)\<lparr>rs_Streams := sortedSet (ea_streamSet acc)\<rparr>) = Some (a2, r2))"
      "erase_finish ev e now (rq_SubjectID req) a2 x mc r2 = ((a', x', mc'), r3, serr)" "out = Inr (r3, serr)"
proof -
  have "erase_plan fuel ctx ev e now a req \<noteq> None"
  proof
    assume "erase_plan fuel ctx ev e now a req = None"
    then show False using assms by (simp add: Erase_def)
  qed
  then obtain pl where pl: "erase_plan fuel ctx ev e now a req = Some pl" by (rule not_None_eq [THEN iffD1, THEN exE])
  show thesis
  proof (cases pl)
    case (Inl err)
    have "Some ((a, x, mc), Inl err) = Some ((a', x', mc'), out)"
      using assms by (simp only: Erase_def prod.case pl Inl option.case sum.case)
    then show thesis using pl Inl by (intro refused [of err]) auto
  next
    case (Inr ar)
    obtain acc resolved where ar: "ar = (acc, resolved)" by (rule prod.exhaust)
    obtain a1 ro where rl: "revoke_loop ev (rq_SubjectID req) (ea_keySet acc) a (ea_result acc) = (a1, ro)" by (rule prod.exhaust)
    show thesis
    proof (cases ro)
      case (Inl err)
      have "Some ((a1, x, mc), Inl err) = Some ((a', x', mc'), out)"
        using assms by (simp only: Erase_def prod.case pl Inr ar rl Inl option.case sum.case)
      then show thesis using pl Inr ar rl Inl by (intro unsupported [of acc resolved err]) auto
    next
      case r: (Inr r)
      let ?r1 = "(sort_keys r)\<lparr>rs_Streams := sortedSet (ea_streamSet acc)\<rparr>"
      define rc where "rc = (case (resolved, de_resolver e) of
          (True, Some resolver) \<Rightarrow> reconcileAfterRevoke fuel ctx ev e resolver (rq_SubjectID req) (ea_keySet acc) a1 ?r1
        | _ \<Rightarrow> Some (a1, ?r1))"
      have run: "(case rc of None \<Rightarrow> None | Some (a2, r2) \<Rightarrow>
          (case erase_finish ev e now (rq_SubjectID req) a2 x mc r2 of (st', r3, serr) \<Rightarrow> Some (st', Inr (r3, serr)))) =
          Some ((a', x', mc'), out)"
        using assms by (simp only: Erase_def prod.case pl Inr ar rl r Let_def option.case sum.case rc_def)
      then obtain a2 r2 where rec: "rc = Some (a2, r2)" by (auto split: option.splits)
      obtain st' r3 serr where fin: "erase_finish ev e now (rq_SubjectID req) a2 x mc r2 = (st', r3, serr)" by (rule prod_cases3)
      have o: "st' = (a', x', mc')" "out = Inr (r3, serr)" using run unfolding rec option.case prod.case fin by simp_all
      have rc2: "a2 = a1 \<and> r2 = ?r1 \<or> resolved \<and> (\<exists>resolver. reconcileAfterRevoke fuel ctx ev e resolver (rq_SubjectID req) (ea_keySet acc) a1 ?r1 = Some (a2, r2))"
        using rec by (auto simp: rc_def split: bool.splits option.splits)
      show thesis by (rule finished [OF _ _ rc2 fin [unfolded o(1)] o(2)]) (simp_all add: pl Inr ar rl r)
    qed
  qed
qed

section \<open>Stream-scoped discovery\<close>

text \<open>The keys a request that lists streams may revoke: those of the subject's own events in a listed
  stream, and every key of a listed stream in which no event can be attributed to anyone.\<close>

definition key_in_scope ::
  "(stored_event \<Rightarrow> subject_attribution) \<Rightarrow> stored_event list \<Rightarrow> erasure_request \<Rightarrow> string \<Rightarrow> bool" where
  "key_in_scope att g req k \<longleftrightarrow>
     (\<exists>se \<in> set g. se_StreamID se \<in> set (rq_Streams req) \<and> enveloped se \<and> key_of se = k \<and>
        (mine att (rq_SubjectID req) se \<or>
         (\<forall>e \<in> set g. se_StreamID e = se_StreamID se \<longrightarrow> \<not> attributed (att e))))"

lemma collect_key_keys:
  "set (ea_keySet (collect_key se acc)) = set (ea_keySet acc) \<union> (if enveloped se then {key_of se} else {})"
  by (auto simp: collect_key_def Let_def)

lemma remember_keys [simp]: "ea_keySet (remember se acc) = ea_keySet acc"
  by (simp add: remember_def)

lemma tally_fold:
  "tk_scoped (fold (tally_note s) ts k) \<longleftrightarrow> tk_scoped k \<or> (\<exists>t \<in> set ts. attributed t)"
  by (induction ts arbitrary: k) (auto simp: tally_note_def Let_def)

lemma collect_stream_loop_keys:
  assumes "collect_stream_loop req xs (k, acc) = (k', acc')" and "key \<in> set (ea_keySet acc')"
  shows "key \<in> set (ea_keySet acc) \<or>
    (\<exists>(se, t) \<in> set xs. key_of se = key \<and> enveloped se \<and> (tk_scoped k \<longrightarrow> at_to t (rq_SubjectID req)))"
  using assms(1)
proof (induction xs arbitrary: k acc)
  case (Cons x xs)
  obtain se t where x: "x = (se, t)" by (rule prod.exhaust)
  consider (skip) k1 where "collect_stream_loop req xs (k1, acc) = (k', acc')" "tk_scoped k1 = tk_scoped k"
    | (take) k1 acc1 where "collect_stream_loop req xs (k1, acc1) = (k', acc')" "tk_scoped k1 = tk_scoped k"
        "set (ea_keySet acc1) = set (ea_keySet acc) \<union> (if enveloped se then {key_of se} else {})"
        "tk_scoped k \<longrightarrow> at_to t (rq_SubjectID req)"
    using Cons.prems
    by (auto simp: x ownedBySubject_def collect_key_keys split: if_splits)
  then show ?case
  proof cases
    case skip
    from Cons.IH [OF skip(1)] skip(2) show ?thesis by auto
  next
    case take
    from Cons.IH [OF take(1)] take(2-4) show ?thesis by (auto simp: x split: if_splits)
  qed
qed (use assms(2) in simp)

lemma collectStreamKeys_keys:
  assumes "collectStreamKeys att stored req acc = (k', acc')" and "key \<in> set (ea_keySet acc')"
  shows "key \<in> set (ea_keySet acc) \<or>
    (\<exists>se \<in> set stored. key_of se = key \<and> enveloped se \<and>
       (mine att (rq_SubjectID req) se \<or> (\<forall>e \<in> set stored. \<not> attributed (att e))))"
proof -
  let ?k = "fold (tally_note (rq_SubjectID req)) (map att stored)
    \<lparr>tk_scoped = False, tk_matched = False, tk_untagged = 0, tk_shared = False\<rparr>"
  have z: "zip stored (map att stored) = map (\<lambda>e. (e, att e)) stored" by (induction stored) auto
  have "collect_stream_loop req (map (\<lambda>e. (e, att e)) stored) (?k, acc) = (k', acc')"
    using assms by (simp add: collectStreamKeys_def attributeStream_def z Let_def)
  from collect_stream_loop_keys [OF this assms(2)] show ?thesis
    unfolding tally_fold mine_def by auto
qed

lemma erase_finish_state:
  assumes "erase_finish ev e now s a x mc r = ((a', x', mc'), r', err)"
  shows "a' = a \<or> (\<exists>rs v out. ao_Append (bs_ops (ev_store ev)) a (de_markerStream e) rs v = (a', out))"
  by (rule erase_finish_cases [OF assms])

context key_vault
begin

lemma finish_state:
  assumes "ok a" and "a' = a \<or> (\<exists>rs v out. ao_Append (bs_ops (ev_store ev)) a sid rs v = (a', out))"
  shows "ok a'" and "\<exists>new. log a' = log a @ new" and "ev_RevocationState ev a' = ev_RevocationState ev a"
    and "es_encryption (bs_store (ev_store ev) a') = None \<longleftrightarrow> es_encryption (bs_store (ev_store ev) a) = None"
  using assms append_store [OF assms(1)] by fastforce+

lemma reconciled_run:
  assumes "ok a1"
    and "a2 = a1 \<and> r2 = r1 \<or> b \<and> (\<exists>resolver. reconcileAfterRevoke fuel ctx ev e resolver s ks a1 r1 = Some (a2, r2))"
  obtains nks where "revoked_run nks a1 a2"
    "de_sharedKeyGuard e \<and> \<not> de_allowSharedKey e \<Longrightarrow> nks \<noteq> [] \<Longrightarrow> detectSharedKeys fuel ctx ev e a1 s nks = Some (Inr None)"
    "\<exists>errs. rs_Errors r2 = rs_Errors r1 @ errs" "rs_Errors r2 = rs_Errors r1 \<Longrightarrow> r2 = r1"
    "rs_Streams r2 = rs_Streams r1" "rs_attributed r2 = rs_attributed r1" "rs_SubjectIndexPurged r2 = rs_SubjectIndexPurged r1"
  using assms(2)
proof
  assume "a2 = a1 \<and> r2 = r1"
  then show thesis using that [of "[]"] revoked_run_refl [OF assms(1)] by simp
next
  assume "b \<and> (\<exists>resolver. reconcileAfterRevoke fuel ctx ev e resolver s ks a1 r1 = Some (a2, r2))"
  then obtain resolver where rec: "reconcileAfterRevoke fuel ctx ev e resolver s ks a1 r1 = Some (a2, r2)" by blast
  show thesis by (rule reconcile_cases [OF assms(1) rec]) (rule that)
qed

lemma guarded_keys_kept:
  assumes "ok a" and "0 < de_batchSize e" and "length (log a) < fuel" and guard: "de_sharedKeyGuard e" "\<not> de_allowSharedKey e"
    and run: "Erase fuel None ev e now (a, x, mc) req = Some ((a', x', mc'), out)"
    and se: "se \<in> set (log a)" "enveloped se" "\<not> exclusive (eraser_attribute ev e a se) (rq_SubjectID req)"
  shows "ev_RevocationState ev a' (key_of se) = ev_RevocationState ev a (key_of se)"
proof -
  have key: "key_of se \<notin> set (ea_keySet acc)" if "erase_plan fuel None ev e now a req = Some (Inr (acc, resolved))" for acc resolved
    using guarded_plan [OF assms(1-3) guard that se(1,2)] se(3) by blast
  from run show ?thesis
  proof (cases rule: Erase_cases)
    case refused
    then show ?thesis by simp
  next
    case (unsupported acc resolved err)
    from revoke_loop_run [OF assms(1) unsupported(2)] key [OF unsupported(1)] show ?thesis by (simp add: revoked_run_def)
  next
    case (finished acc resolved a1 r a2 r2 r3 serr)
    note run1 = revoke_loop_run [OF assms(1) finished(2)]
    note key1 = key [OF finished(1)]
    have ok1: "ok a1" "log a1 = log a" using run1 by (simp_all add: revoked_run_def)
    have att: "eraser_attribute ev e a1 se = eraser_attribute ev e a se"
      using run1 key1 by (simp add: revoked_run_def eraser_attribute_def)
    obtain nks where nks: "revoked_run nks a1 a2"
      "nks \<noteq> [] \<Longrightarrow> detectSharedKeys fuel None ev e a1 (rq_SubjectID req) nks = Some (Inr None)"
      using reconciled_run [OF ok1(1) finished(3)] guard by metis
    have fuel1: "length (log a1) < fuel" using assms(3) ok1 by simp
    have "key_of se \<notin> set nks"
    proof
      assume k: "key_of se \<in> set nks"
      then have "nks \<noteq> []" by auto
      from detect_shared_keys(2) [OF ok1(1) assms(2) fuel1 nks(2) [OF this]] k se att ok1(2) show False by auto
    qed
    then have "ev_RevocationState ev a2 (key_of se) = ev_RevocationState ev a (key_of se)"
      using nks(1) run1 key1 by (simp add: revoked_run_def)
    moreover have "ev_RevocationState ev a' = ev_RevocationState ev a2"
    proof -
      have "ok a2" using nks(1) by (simp add: revoked_run_def)
      then show ?thesis by (rule finish_state(3)) (rule erase_finish_state [OF finished(4)])
    qed
    ultimately show ?thesis by simp
  qed
qed

text \<open>A request that names only the subject, resolved by a scan.\<close>

lemma subject_plan:
  assumes "ok a" and "length (log a) < fuel" and rv: "de_resolver e = Some rv" "sr_index rv = None" "0 < sr_batchSize rv"
    and req: "rq_SubjectID req \<noteq> []" "rq_Streams req = []" "rq_Filter req = None" "rq_KeyIDs req = []"
    and cfg: "es_encryption (bs_store (ev_store ev) a) \<noteq> None" and batch: "0 < de_batchSize e"
  shows "\<exists>acc. set (ea_keySet acc) = key_of ` {se \<in> set (log a). mine (eraser_attribute ev e a) (rq_SubjectID req) se \<and> enveloped se} \<and>
    set (ea_streamSet acc) = se_StreamID ` {se \<in> set (log a). mine (eraser_attribute ev e a) (rq_SubjectID req) se} \<and>
    (\<forall>se \<in> set (log a). mine (eraser_attribute ev e a) (rq_SubjectID req) se \<longrightarrow> matches_has (rs_attributed (ea_result acc)) se) \<and>
    rs_Errors (ea_result acc) = [] \<and> rs_KeysRevoked (ea_result acc) = [] \<and> \<not> rs_SubjectIndexPurged (ea_result acc) \<and>
    (erase_plan fuel None ev e now a req = Some (Inr (acc, True)) \<or>
     (\<exists>err. erase_plan fuel None ev e now a req = Some (Inl err)))"
proof -
  let ?s = "rq_SubjectID req"
  let ?att = "eraser_attribute ev e a"
  have att: "resolver_attribute (ev_store ev) a (sr_tagger rv) = ?att"
    by (rule ext) (simp add: resolver_attribute_def eraser_attribute_def eraser_tagger_def rv(1))
  let ?c = "fold fb_record (filter (mine ?att ?s) (log a)) (newFootprintBuilder ?s (Some []))"
  obtain fp where fp: "resolve fuel None (ev_store ev) rv a ?s (Some []) = Some (Inr (fp, fb_matched ?c))"
    "footprint_of ?att ?s (log a) fp"
    using scan_resolves [OF assms(1) rv(3) assms(2) req(1) rv(2), of "Some []"] unfolding att by blast
  obtain ms where ms: "fb_matched ?c = Some ms"
    "set ms = (\<lambda>e. (se_StreamID e, se_Version e)) ` set (filter (mine ?att ?s) (log a))"
    using fold_record_matched [where b = "newFootprintBuilder ?s (Some [])" and ms = "[]"
        and es = "filter (mine ?att ?s) (log a)"] by auto
  define acc where "acc = \<lparr>ea_result = (new_result ?s now)\<lparr>rs_SharedStreams := fp_SharedStreams fp, rs_EventsScanned := fp_EventCount fp,
      rs_CleartextEvents := fp_CleartextEvents fp, rs_Partial := fp_Partial fp, rs_attributed := Some ms\<rparr>,
    ea_keySet = fp_KeyIDs fp, ea_streamSet = fp_Streams fp\<rparr>"
  have res: "erase_resolve fuel None ev e now a req = Some (Inr (acc, True))"
    using req fp(1) by (simp add: erase_resolve_def rv(1) acc_def ms(1) new_result_def Let_def)
  obtain out where det: "detectSharedKeys fuel None ev e a ?s (ea_keySet acc) = Some (Inr out)"
    using detect_shared_keys(1) [OF assms(1) batch assms(2)] by blast
  have "erase_plan fuel None ev e now a req = Some (Inr (acc, True)) \<or>
     (\<exists>err. erase_plan fuel None ev e now a req = Some (Inl err))"
    using req cfg det by (cases out) (auto simp: erase_plan_def res Let_def)
  moreover have "set (ea_keySet acc) = key_of ` {se \<in> set (log a). mine ?att ?s se \<and> enveloped se}"
    "set (ea_streamSet acc) = se_StreamID ` {se \<in> set (log a). mine ?att ?s se}"
    using fp(2) by (simp_all add: acc_def footprint_of_def)
  moreover have "\<forall>se \<in> set (log a). mine ?att ?s se \<longrightarrow> matches_has (rs_attributed (ea_result acc)) se"
    using ms(2) by (auto simp: acc_def matches_has_def)
  ultimately show ?thesis by (intro exI [of _ acc]) (simp add: acc_def new_result_def)
qed

lemma subject_erase:
  assumes "ok a" and "length (log a) < fuel" and rv: "de_resolver e = Some rv" "sr_index rv = None" "0 < sr_batchSize rv"
    and req: "rq_SubjectID req \<noteq> []" "rq_Streams req = []" "rq_Filter req = None" "rq_KeyIDs req = []"
    and cfg: "es_encryption (bs_store (ev_store ev) a) \<noteq> None" and batch: "0 < de_batchSize e"
    and run: "Erase fuel None ev e now (a, x, mc) req = Some ((a', x', mc'), Inr (r, serr))"
    and se: "se \<in> set (log a)" "mine (eraser_attribute ev e a) (rq_SubjectID req) se"
  shows "\<not> Failed r \<Longrightarrow> enveloped se \<Longrightarrow> key_of se \<in> set (rs_KeysRevoked r) \<and> ev_RevocationState ev a' (key_of se) = Inr Revoked"
    and "rs_SubjectIndexPurged r \<Longrightarrow> enveloped se \<and> ev_RevocationState ev a' (key_of se) = Inr Revoked"
proof -
  let ?s = "rq_SubjectID req"
  obtain acc where acc: "set (ea_keySet acc) = key_of ` {se \<in> set (log a). mine (eraser_attribute ev e a) ?s se \<and> enveloped se}"
    "set (ea_streamSet acc) = se_StreamID ` {se \<in> set (log a). mine (eraser_attribute ev e a) ?s se}"
    "matches_has (rs_attributed (ea_result acc)) se"
    "rs_Errors (ea_result acc) = []" "rs_KeysRevoked (ea_result acc) = []" "\<not> rs_SubjectIndexPurged (ea_result acc)"
    "\<And>p. erase_plan fuel None ev e now a req = Some (Inr p) \<Longrightarrow> p = (acc, True)"
    using subject_plan [OF assms(1,2) rv req cfg batch, of now] se by fastforce
  from run obtain a1 r0 a2 r2 where st: "revoke_loop ev ?s (ea_keySet acc) a (ea_result acc) = (a1, Inr r0)"
    "a2 = a1 \<and> r2 = (sort_keys r0)\<lparr>rs_Streams := sortedSet (ea_streamSet acc)\<rparr> \<or>
       True \<and> (\<exists>resolver. reconcileAfterRevoke fuel None ev e resolver ?s (ea_keySet acc) a1
          ((sort_keys r0)\<lparr>rs_Streams := sortedSet (ea_streamSet acc)\<rparr>) = Some (a2, r2))"
    "erase_finish ev e now ?s a2 x mc r2 = ((a', x', mc'), r, serr)"
  proof (cases rule: Erase_cases)
    case (finished acc' resolved a1 r0 a2 r2 r3 serr')
    then show thesis using acc(7) [OF finished(1)] that by simp
  qed simp_all
  let ?r1 = "(sort_keys r0)\<lparr>rs_Streams := sortedSet (ea_streamSet acc)\<rparr>"
  note run1 = revoke_loop_run [OF assms(1) st(1)]
  have ok1: "ok a1" "log a1 = log a" using run1 by (simp_all add: revoked_run_def)
  obtain rev fail errs where rl: "r0 = (ea_result acc)\<lparr>rs_KeysRevoked := rev, rs_KeysFailed := rs_KeysFailed (ea_result acc) @ fail,
      rs_Errors := errs\<rparr>"
    "set rev \<union> set fail = set (ea_keySet acc)" "errs = [] \<longleftrightarrow> fail = []" "\<forall>k \<in> set rev. ev_RevocationState ev a1 k = Inr Revoked"
    using revoke_loop_result [OF assms(1) st(1)] acc(4,5) by auto
  obtain nks where nks: "revoked_run nks a1 a2" "\<exists>errs. rs_Errors r2 = rs_Errors ?r1 @ errs"
    "rs_Errors r2 = rs_Errors ?r1 \<Longrightarrow> r2 = ?r1" "rs_Streams r2 = rs_Streams ?r1"
    "rs_attributed r2 = rs_attributed ?r1" "rs_SubjectIndexPurged r2 = rs_SubjectIndexPurged ?r1"
    by (rule reconciled_run [OF ok1(1) st(2)]) (rule that)
  obtain r4 x3 sid where fin: "a' = a2 \<or> (\<exists>rs v out. ao_Append (bs_ops (ev_store ev)) a2 sid rs v = (a', out))"
    "extends r2 r4" "rs_KeysRevoked r = rs_KeysRevoked r4" "\<exists>errs. rs_Errors r = rs_Errors r4 @ errs"
    "\<not> rs_SubjectIndexPurged r2 \<Longrightarrow> rs_SubjectIndexPurged r \<Longrightarrow> \<exists>cert r5. buildCertificate ev e now a' x3 ?s r4 = (cert, r5) \<and> ct_Verified cert"
    by (rule erase_finish_cases [OF st(3)]) (rule that)
  have ok2: "ok a2" "log a2 = log a" using nks(1) ok1 by (simp_all add: revoked_run_def)
  note fs = finish_state [OF ok2(1) fin(1)]
  show "key_of se \<in> set (rs_KeysRevoked r) \<and> ev_RevocationState ev a' (key_of se) = Inr Revoked" if "\<not> Failed r" "enveloped se"
  proof -
    have "rs_Errors r = []" using that(1) by (auto simp: Failed_def split: if_splits)
    then have "rs_Errors r2 = []" using fin(2,4) extends_errors by auto
    then have "r2 = ?r1" and e0: "errs = []" using nks(2,3) by (auto simp: rl(1) sort_keys_def)
    then have "rs_KeysRevoked r = sort rev" using fin(2,3) by (simp add: extends_def rl(1) sort_keys_def)
    moreover have k: "key_of se \<in> set rev" using rl(2,3) e0 acc(1) se that(2) by auto
    moreover have "ev_RevocationState ev a2 (key_of se) = Inr Revoked"
      using rl(4) k nks(1) by (simp add: revoked_run_def)
    ultimately show ?thesis using fs(3) by simp
  qed
  show "enveloped se \<and> ev_RevocationState ev a' (key_of se) = Inr Revoked" if purged: "rs_SubjectIndexPurged r"
  proof -
    have "\<not> rs_SubjectIndexPurged r2" using nks(6) acc(6) by (simp add: rl(1) sort_keys_def)
    then obtain cert r5 where c: "buildCertificate ev e now a' x3 ?s r4 = (cert, r5)" "ct_Verified cert"
      using fin(5) purged by blast
    obtain rep where v: "verifyStreams ev e a' ?s (rs_attributed r4) (rs_Streams r4) (new_report ?s (rs_Partial r4)) = (rep, None)"
      "vr_clean rep" using buildCertificate_verified(2) [OF c] by blast
    have r4: "rs_attributed r4 = rs_attributed (ea_result acc)" "rs_Streams r4 = sortedSet (ea_streamSet acc)"
      using fin(2) nks(4,5) by (simp_all add: extends_def rl(1) sort_keys_def)
    have "se_StreamID se \<in> set (rs_Streams r4)" using acc(2) se by (simp add: r4 sortedSet_def)
    moreover have "LoadRaw (bs_ops (ev_store ev)) a' (se_StreamID se) 0 = Inr (stream_events (log a') (se_StreamID se))"
      using stream_read [OF fs(1)] named_streams [OF assms(1) se(1)] by (simp add: LoadRaw_def)
    moreover have "se \<in> set (stream_events (log a') (se_StreamID se))"
      using fs(2) ok2(2) se(1) by (auto simp: stream_events_def)
    moreover have "matches_has (rs_attributed r4) se" using acc(3) by (simp add: r4)
    ultimately have "enveloped se \<and> revocationState ev a' (se_Metadata se) = Revoked"
      using verifyStreams_clean [OF v] by blast
    then show ?thesis by (auto simp: revocationState_def split: if_splits sum.splits)
  qed
qed

lemma reconcile_total:
  assumes "ok a" and "length (log a) < fuel" and "sr_index rv = None" and "0 < sr_batchSize rv" and "s \<noteq> []" and "0 < de_batchSize e"
  shows "reconcileAfterRevoke fuel None ev e rv s ks a r \<noteq> None"
proof -
  obtain fp where fp: "Resolve fuel None (ev_store ev) rv a s = Some (Inr fp)"
    using scan_resolves [OF assms(1,4,2,5,3), of None] by (auto simp: Resolve_def)
  let ?nks = "filter (\<lambda>k. k \<notin> set ks) (fp_KeyIDs fp)"
  obtain out where "detectSharedKeys fuel None ev e a s ?nks = Some (Inr out)"
    using detect_shared_keys(1) [OF assms(1,6,2)] by blast
  then show ?thesis by (cases out) (simp_all add: reconcileAfterRevoke_def fp Let_def)
qed

lemma subject_erase_total:
  assumes "ok a" and "length (log a) < fuel" and rv: "de_resolver e = Some rv" "sr_index rv = None" "0 < sr_batchSize rv"
    and req: "rq_SubjectID req \<noteq> []" "rq_Streams req = []" "rq_Filter req = None" "rq_KeyIDs req = []"
    and cfg: "es_encryption (bs_store (ev_store ev) a) \<noteq> None" and batch: "0 < de_batchSize e"
  shows "\<exists>st' out. Erase fuel None ev e now (a, x, mc) req = Some (st', out)"
proof -
  obtain p where p: "erase_plan fuel None ev e now a req = Some p"
    using subject_plan [OF assms, of now] by blast
  show ?thesis
  proof (cases p)
    case (Inl err)
    then show ?thesis by (simp only: Erase_def prod.case p option.case sum.case) blast
  next
    case (Inr ar)
    obtain acc resolved where ar: "ar = (acc, resolved)" by (rule prod.exhaust)
    obtain a1 ro where rl: "revoke_loop ev (rq_SubjectID req) (ea_keySet acc) a (ea_result acc) = (a1, ro)" by (rule prod.exhaust)
    have ok1: "ok a1" "length (log a1) < fuel"
      using revoke_loop_run [OF assms(1) rl] assms(2) by (simp_all add: revoked_run_def)
    show ?thesis
    proof (cases ro)
      case (Inl err)
      then show ?thesis by (simp only: Erase_def prod.case p Inr ar rl option.case sum.case) blast
    next
      case r: (Inr r)
      let ?r1 = "(sort_keys r)\<lparr>rs_Streams := sortedSet (ea_streamSet acc)\<rparr>"
      obtain ar2 where "(case (resolved, de_resolver e) of
          (True, Some resolver) \<Rightarrow> reconcileAfterRevoke fuel None ev e resolver (rq_SubjectID req) (ea_keySet acc) a1 ?r1
        | _ \<Rightarrow> Some (a1, ?r1)) = Some ar2"
      proof (cases resolved)
        case True
        obtain q where "reconcileAfterRevoke fuel None ev e rv (rq_SubjectID req) (ea_keySet acc) a1 ?r1 = Some q"
          using reconcile_total [OF ok1 rv(2,3) req(1) batch] by (meson not_None_eq)
        then show thesis using that [of q] True rv(1) by simp
      qed (use that in simp)
      moreover obtain a2 r2 where "ar2 = (a2, r2)" by (rule prod.exhaust)
      moreover obtain st' r3 serr where "erase_finish ev e now (rq_SubjectID req) a2 x mc r2 = (st', r3, serr)" by (rule prod_cases3)
      ultimately show ?thesis by (simp only: Erase_def prod.case p Inr ar rl r Let_def option.case sum.case) blast
    qed
  qed
qed

text \<open>A request that lists streams.\<close>

lemma discover_stream_keys:
  assumes "ok a" and "discover_stream_loop ctx ev e a req ss (sc, sh, acc) = Inr (sc', sh', acc')"
    and "set ss \<subseteq> set (rq_Streams req)" and "k \<in> set (ea_keySet acc')"
  shows "k \<in> set (ea_keySet acc) \<or> key_in_scope (eraser_attribute ev e a) (log a) req k"
  using assms(2,3)
proof (induction ss arbitrary: sc sh acc)
  case Nil
  then show ?case using assms(4) by simp
next
  case (Cons sid ss)
  show ?case
  proof (cases "sid = []")
    case True
    then show ?thesis using Cons.prems
      by (auto simp: loadErasureStream_def LoadRaw_def split: option.splits)
  next
    case False
    let ?stored = "stream_events (log a) sid"
    obtain tl acc1 where ck: "collectStreamKeys (eraser_attribute ev e a) ?stored req acc = (tl, acc1)" by (rule prod.exhaust)
    have ld: "loadErasureStream ev a (rq_SubjectID req) sid = Inr (Some ?stored)"
      using stream_read [OF assms(1) False] False by (simp add: loadErasureStream_def LoadRaw_def)
    obtain sh1 where step: "discover_stream_loop ctx ev e a req ss (scope_add tl sc, sh1, acc1) = Inr (sc', sh', acc')"
      using Cons.prems(1) by (cases ctx) (simp_all add: ld ck)
    have "k \<in> set (ea_keySet acc1) \<or> key_in_scope (eraser_attribute ev e a) (log a) req k"
      using Cons.IH [OF step] Cons.prems(2) by simp
    moreover have "key_in_scope (eraser_attribute ev e a) (log a) req k" if kk: "k \<in> set (ea_keySet acc1)" "k \<notin> set (ea_keySet acc)"
    proof -
      obtain se where se: "se \<in> set ?stored" "enveloped se" "key_of se = k"
        "mine (eraser_attribute ev e a) (rq_SubjectID req) se \<or> (\<forall>e' \<in> set ?stored. \<not> attributed (eraser_attribute ev e a e'))"
        using collectStreamKeys_keys [OF ck kk(1)] kk(2) by blast
      then show ?thesis
        using Cons.prems(2) unfolding key_in_scope_def by (intro bexI [of _ se]) (auto simp: stream_events_def)
    qed
    ultimately show ?thesis by blast
  qed
qed

lemma stream_unresolved:
  assumes "rq_Streams req \<noteq> []"
  shows "erase_resolve fuel ctx ev e now a req =
      Some (Inr (\<lparr>ea_result = new_result (rq_SubjectID req) now, ea_keySet = [], ea_streamSet = []\<rparr>, False))"
    and "erase_plan fuel ctx ev e now a req = Some (Inr (acc, resolved)) \<Longrightarrow> \<not> resolved"
proof -
  show res: "erase_resolve fuel ctx ev e now a req =
      Some (Inr (\<lparr>ea_result = new_result (rq_SubjectID req) now, ea_keySet = [], ea_streamSet = []\<rparr>, False))"
    using assms by (simp add: erase_resolve_def Let_def split: option.splits)
  show "\<not> resolved" if "erase_plan fuel ctx ev e now a req = Some (Inr (acc, resolved))"
    using that by (auto simp: erase_plan_def res Let_def split: if_splits option.splits sum.splits)
qed

lemma stream_plan_keys:
  assumes "ok a" and "rq_Streams req \<noteq> []" and "erase_plan fuel ctx ev e now a req = Some (Inr (acc, resolved))"
    and "k \<in> set (ea_keySet acc)"
  shows "k \<in> set (rq_KeyIDs req) \<or> key_in_scope (eraser_attribute ev e a) (log a) req k"
proof -
  let ?acc0 = "\<lparr>ea_result = new_result (rq_SubjectID req) now, ea_keySet = [], ea_streamSet = []\<rparr>"
  let ?acc1 = "?acc0\<lparr>ea_keySet := fold List.insert (filter (\<lambda>k. k \<noteq> []) (rq_KeyIDs req)) []\<rparr>"
  note res = stream_unresolved(1) [OF assms(2), of fuel ctx e now a]
  have "discoverKeysByStream ctx ev e a req ?acc1 = Inr acc"
    using assms(2,3)
    by (auto simp: erase_plan_def res discoverKeys_def Let_def split: if_splits option.splits sum.splits)
  then obtain sc sh acc' where d: "discover_stream_loop ctx ev e a req (rq_Streams req)
      (\<lparr>sc_legacyStreams = 0, sc_mixedStreams = 0, sc_untaggedSkipped = 0\<rparr>, [], ?acc1) = Inr (sc, sh, acc')"
    "ea_keySet acc' = ea_keySet acc"
    by (auto simp: discoverKeysByStream_def split: sum.splits)
  from discover_stream_keys [OF assms(1) d(1)] assms(4) d(2) show "k \<in> set (rq_KeyIDs req) \<or> key_in_scope (eraser_attribute ev e a) (log a) req k"
    by (auto simp: set_fold_insert_list)
qed

lemma stream_erase_scope:
  assumes "ok a" and "rq_Streams req \<noteq> []"
    and run: "Erase fuel ctx ev e now (a, x, mc) req = Some ((a', x', mc'), out)"
    and "ev_RevocationState ev a' k \<noteq> ev_RevocationState ev a k"
  shows "k \<in> set (rq_KeyIDs req) \<or> key_in_scope (eraser_attribute ev e a) (log a) req k"
  using run
proof (cases rule: Erase_cases)
  case refused
  then show ?thesis using assms(4) by simp
next
  case (unsupported acc resolved err)
  then have "k \<in> set (ea_keySet acc)"
    using revoke_loop_run [OF assms(1) unsupported(2)] assms(4) by (auto simp: revoked_run_def)
  from stream_plan_keys [OF assms(1,2) unsupported(1) this] show ?thesis .
next
  case (finished acc resolved a1 r a2 r2 r3 serr)
  have a2: "a2 = a1" using finished(3) stream_unresolved(2) [OF assms(2) finished(1)] by simp
  note run1 = revoke_loop_run [OF assms(1) finished(2)]
  have "ok a2" using run1 by (simp add: a2 revoked_run_def)
  from finish_state(3) [OF this erase_finish_state [OF finished(4)]]
  have "ev_RevocationState ev a' = ev_RevocationState ev a1" by (simp add: a2)
  then have "k \<in> set (ea_keySet acc)" using run1 assms(4) by (auto simp: revoked_run_def)
  from stream_plan_keys [OF assms(1,2) finished(1) this] show ?thesis .
qed

end

section \<open>The in-memory instance\<close>

definition mem_env ::
  "aead \<Rightarrow> (nat \<Rightarrow> string) \<Rightarrow> time \<Rightarrow> 'd go_lib \<Rightarrow> 'd event_store \<Rightarrow> (string \<Rightarrow> time \<Rightarrow> nat \<Rightarrow> 'd) \<Rightarrow>
   (bytes \<Rightarrow> string option) \<Rightarrow> (nat \<Rightarrow> entropy) \<Rightarrow> ('d, gdpr_world) eraser_env" where
  "mem_env g uuid now gl s mk um en =
     \<lparr>ev_store = mem_bound g uuid now gl s,
      ev_RevokeKey = \<lambda>w k. (let (p, err) = RevokeKey (gw_keys w) k in (w\<lparr>gw_keys := p\<rparr>, err)),
      ev_RevocationState = \<lambda>w k. snd (RevocationState_of now (gw_keys w) k),
      ev_marker = mk, ev_unmarshalMarker = um, ev_entropy = en\<rparr>"

lemma RevokeKey_cases:
  assumes "RevokeKey p k = (p', err)"
  obtains (same) "p' = p" "err = None \<Longrightarrow> k \<in> set (lp_revoked p) \<and> \<not> lp_closed p"
  | (shred) "\<not> lp_closed p" "err = None" "p' = p\<lparr>lp_keys := AList.delete k (lp_keys p),
      lp_softRevoked := AList.delete k (lp_softRevoked p), lp_revoked := k # lp_revoked p\<rparr>"
  using assms by (auto simp: RevokeKey_def split: if_splits option.splits)

lemma RevokeKey_pair: "RevokeKey p k = (fst (RevokeKey p k), snd (RevokeKey p k))"
  by simp

lemma stateLocked_frame:
  assumes "map_of (lp_softRevoked p') k = map_of (lp_softRevoked p) k" and "k \<in> set (lp_revoked p') \<longleftrightarrow> k \<in> set (lp_revoked p)"
    and "map_of (lp_keys p') k = map_of (lp_keys p) k" and "lp_closed p' = lp_closed p"
  shows "snd (stateLocked now p' k) = snd (stateLocked now p k)"
    and "snd (RevocationState_of now p' k) = snd (RevocationState_of now p k)"
    and "snd (getKey now p' k) = snd (getKey now p k)"
proof -
  show st: "snd (stateLocked now p' k) = snd (stateLocked now p k)"
    using assms by (simp add: stateLocked_def promoteIfExpiredLocked_def delete_conv Let_def split: option.split)
  then show "snd (RevocationState_of now p' k) = snd (RevocationState_of now p k)"
    using assms(4) by (auto simp: RevocationState_of_def split: prod.splits)
  have "map_of (lp_keys (fst (stateLocked now p' k))) k = map_of (lp_keys (fst (stateLocked now p k))) k"
    using assms by (simp add: stateLocked_def promoteIfExpiredLocked_def delete_conv Let_def split: option.split)
  then show "snd (getKey now p' k) = snd (getKey now p k)"
    using st assms(4) by (auto simp: getKey_def split: prod.splits option.splits)
qed

lemma DecryptDataKey_snd:
  "snd (DecryptDataKey g now p k c) =
     (case snd (getKey now p k) of
        Inl e \<Rightarrow> Inl e
      | Inr key \<Rightarrow>
          (case AESGCMDecrypt g key c k of
             Inl e \<Rightarrow> Inl (NewDecryptionError k [] (Wrap ''failed to decrypt DEK'' e))
           | Inr plaintext \<Rightarrow> Inr plaintext))"
  by (auto simp: DecryptDataKey_def split: prod.splits sum.splits)

lemma revoked_state:
  assumes "k \<in> set (lp_revoked p)" and "\<not> lp_closed p"
  shows "snd (RevocationState_of now p k) = Inr Revoked" and "\<exists>e. snd (getKey now p k) = Inl e"
  using assms
  by (auto simp: RevocationState_of_def getKey_def stateLocked_def promoteIfExpiredLocked_def Let_def split: option.splits)

lemma RevokeKey_effect:
  assumes "RevokeKey p k = (p', err)"
  shows "k' \<noteq> k \<Longrightarrow> snd (RevocationState_of now p' k') = snd (RevocationState_of now p k')"
    and "k' \<noteq> k \<Longrightarrow> snd (DecryptDataKey g now p' k' c) = snd (DecryptDataKey g now p k' c)"
    and "err = None \<Longrightarrow> snd (RevocationState_of now p' k) = Inr Revoked"
    and "p' \<noteq> p \<Longrightarrow> \<exists>e. snd (DecryptDataKey g now p' k c) = Inl e"
    and "snd (RevocationState_of now p k') = Inr Revoked \<Longrightarrow> snd (RevocationState_of now p' k') = Inr Revoked"
proof -
  have frame: "snd (RevocationState_of now p' k') = snd (RevocationState_of now p k')"
    "snd (getKey now p' k') = snd (getKey now p k')" if "k' \<noteq> k" for k'
    using assms that by (cases rule: RevokeKey_cases; intro stateLocked_frame; simp add: delete_conv)+
  have sets: "\<not> lp_closed p' \<and> k \<in> set (lp_revoked p')" if "err = None \<or> p' \<noteq> p"
    using assms that by (cases rule: RevokeKey_cases) auto
  show "k' \<noteq> k \<Longrightarrow> snd (RevocationState_of now p' k') = snd (RevocationState_of now p k')" by (rule frame)
  show "k' \<noteq> k \<Longrightarrow> snd (DecryptDataKey g now p' k' c) = snd (DecryptDataKey g now p k' c)"
    by (simp add: DecryptDataKey_snd frame)
  show "err = None \<Longrightarrow> snd (RevocationState_of now p' k) = Inr Revoked" using sets revoked_state(1) by blast
  show "p' \<noteq> p \<Longrightarrow> \<exists>e. snd (DecryptDataKey g now p' k c) = Inl e"
    using sets revoked_state(2) [of k p' now] by (auto simp: DecryptDataKey_snd)
  show "snd (RevocationState_of now p k') = Inr Revoked \<Longrightarrow> snd (RevocationState_of now p' k') = Inr Revoked"
    using sets revoked_state(1) [of k p' now] frame by (cases "k' = k"; cases "p' = p") auto
qed

lemma decryptFields_provider:
  assumes "\<And>c. po_DecryptDataKey P' (GetEncryptionKeyID m) c = po_DecryptDataKey P (GetEncryptionKeyID m) c"
  shows "decryptFields cd (c\<lparr>fe_provider := Some P'\<rparr>) sid ty data m = decryptFields cd (c\<lparr>fe_provider := Some P\<rparr>) sid ty data m"
  using assms by (simp add: decryptFields_def Let_def cong: option.case_cong sum.case_cong)

text \<open>Without its data key an encrypted event is never handed to the tagger.\<close>

lemma decryptFields_keyless:
  assumes "\<And>c. \<exists>e. po_DecryptDataKey P (GetEncryptionKeyID m) c = Inl e" and "IsEncrypted m"
  shows "(\<exists>e. decryptFields cd (c\<lparr>fe_provider := Some P\<rparr>) sid ty data m = Inl e) \<or>
    decryptFields cd (c\<lparr>fe_provider := Some P\<rparr>) sid ty data m = Inr data"
proof (cases "cd_DecodeString cd (custom_or_empty m encryptedDEKKey)")
  case (Some dek)
  obtain e where "po_DecryptDataKey P (GetEncryptionKeyID m) dek = Inl e" using assms(1) by blast
  then show ?thesis using Some assms(2) by (simp add: decryptFields_def Let_def split: option.split)
qed (use assms(2) in \<open>simp add: decryptFields_def Let_def\<close>)

lemma world_attribute:
  assumes "RevokeKey (gw_keys w) k = (p', err)"
  defines "w' \<equiv> w\<lparr>gw_keys := p'\<rparr>"
  shows "k \<noteq> key_of e \<Longrightarrow> attributeSubjects gl (world_store g now s w') t e = attributeSubjects gl (world_store g now s w) t e"
    and "at_to (attributeSubjects gl (world_store g now s w') t e) subj \<Longrightarrow> at_to (attributeSubjects gl (world_store g now s w) t e) subj"
proof -
  have tg: "es_subjectTagger (world_store g now s w') = es_subjectTagger (world_store g now s w)"
    by (simp add: world_store_def)
  have att: "attributeSubjects gl (world_store g now s w') t e = attributeSubjects gl (world_store g now s w) t e"
    if "taggerPlaintext gl (world_store g now s w') e = taggerPlaintext gl (world_store g now s w) e"
    unfolding attributeSubjects_def tg that ..
  have same: "taggerPlaintext gl (world_store g now s w') e = taggerPlaintext gl (world_store g now s w) e"
    if "k \<noteq> key_of e \<or> p' = gw_keys w"
  proof -
    have "po_DecryptDataKey (local_ops g now p') (key_of e) c = po_DecryptDataKey (local_ops g now (gw_keys w)) (key_of e) c" for c
      using that RevokeKey_effect(2) [OF assms(1), of "key_of e"] by (auto simp: local_ops_def)
    from decryptFields_provider [OF this, of "gl_codec gl"] show ?thesis
      by (cases "es_encryption s") (simp_all add: taggerPlaintext_def DecryptStoredEvent_def world_store_def w'_def)
  qed
  show "k \<noteq> key_of e \<Longrightarrow> attributeSubjects gl (world_store g now s w') t e = attributeSubjects gl (world_store g now s w) t e"
    using att same by blast
  assume own: "at_to (attributeSubjects gl (world_store g now s w') t e) subj"
  show "at_to (attributeSubjects gl (world_store g now s w) t e) subj"
  proof (cases "k \<noteq> key_of e \<or> p' = gw_keys w \<or> \<not> IsEncrypted (se_Metadata e)")
    case True
    then have "taggerPlaintext gl (world_store g now s w') e = taggerPlaintext gl (world_store g now s w) e"
      using same by (auto simp: taggerPlaintext_def)
    then show ?thesis using att own by simp
  next
    case False
    have "\<exists>er. po_DecryptDataKey (local_ops g now p') (key_of e) c = Inl er" for c
      using False RevokeKey_effect(4) [OF assms(1)] by (simp add: local_ops_def)
    note keyless = decryptFields_keyless [OF this, of "gl_codec gl" _ "se_StreamID e" "se_Type e" "se_Data e"]
    have "taggerPlaintext gl (world_store g now s w') e = None"
    proof (cases "es_encryption s")
      case (Some c)
      show ?thesis using keyless [of c] False
        by (auto simp: Some taggerPlaintext_def DecryptStoredEvent_def world_store_def w'_def)
    qed (use False in \<open>simp add: taggerPlaintext_def world_store_def w'_def\<close>)
    then have "GetSubjectTags (gl_codec gl) (se_Metadata e) \<noteq> []"
      using own by (auto simp: attributeSubjects_def at_to_iff Let_def split: if_splits option.splits)
    then show ?thesis using own by (simp add: attributeSubjects_def Let_def)
  qed
qed

lemma mem_env_simps [simp]:
  "ev_store (mem_env g uuid now gl s mk um en) = mem_bound g uuid now gl s"
  "ev_RevokeKey (mem_env g uuid now gl s mk um en) w k = (w\<lparr>gw_keys := fst (RevokeKey (gw_keys w) k)\<rparr>, snd (RevokeKey (gw_keys w) k))"
  "ev_RevocationState (mem_env g uuid now gl s mk um en) w k = snd (RevocationState_of now (gw_keys w) k)"
  "bs_lib (mem_bound g uuid now gl s) = gl" "bs_store (mem_bound g uuid now gl s) = world_store g now s"
  "bs_ops (mem_bound g uuid now gl s) = world_ops uuid now"
  by (simp_all add: mem_env_def mem_bound_def split: prod.splits)

lemma world_encryption: "es_encryption (world_store g now s w) = None \<longleftrightarrow> es_encryption s = None"
  by (simp add: world_store_def)

lemma world_append:
  assumes "world_ok w" and "ao_Append (world_ops uuid now) w sid rs v = (w', out)"
  shows "world_ok w'" and "\<exists>new. world_log w' = world_log w @ new" and "gw_keys w' = gw_keys w"
proof -
  obtain a' r where ap: "ao_Append (mem_store_ops uuid now) (gw_adapter w) sid rs v = (a', r)" by (rule prod.exhaust)
  then have w': "w' = w\<lparr>gw_adapter := a'\<rparr>" using assms(2) by (simp add: world_ops_def)
  obtain drops where run: "Append None uuid now (gw_adapter w) sid rs v = (a', drops, r)"
    using ap by (auto simp: mem_store_ops_def split: prod.splits)
  have ok: "mem_inv (gw_adapter w)" "\<not> ma_closed (gw_adapter w)" using assms(1) by (simp_all add: world_ok_def)
  have "mem_inv a' \<and> \<not> ma_closed a' \<and> (\<exists>new. ma_globalEvents a' = ma_globalEvents (gw_adapter w) @ new)"
  proof (cases r)
    case (Inl er)
    from ok(1) run have "a' = gw_adapter w" by (cases rule: Append_cases) (auto simp: Inl)
    then show ?thesis using ok by simp
  next
    case (Inr sts)
    from Append_success_log [OF ok(1) run [unfolded Inr]] show ?thesis by (auto simp: log_append_def)
  qed
  then show "world_ok w'" "\<exists>new. world_log w' = world_log w @ new" "gw_keys w' = gw_keys w"
    by (auto simp: w' world_ok_def world_log_def)
qed

interpretation mem_vault: key_vault "mem_env g uuid now gl s mk um en" world_ok world_log
  for g uuid now gl s mk um en
proof (rule key_vault.intro, goal_cases)
  case 1
  show ?case unfolding mem_env_simps by (rule mem_scan.scannable_store_axioms)
next
  case 2
  show ?case
  proof (unfold_locales, goal_cases)
    case (1 w k w' err)
    then show ?case by (auto simp: world_ok_def world_log_def world_encryption)
  next
    case (2 w k w')
    then show ?case using RevokeKey_effect(3) [OF RevokeKey_pair, of "gw_keys w" k] by auto
  next
    case (3 w k k' w' err)
    then show ?case using RevokeKey_effect(5) [OF RevokeKey_pair, of now "gw_keys w" k k'] by auto
  next
    case (4 w k' k w' err)
    then show ?case using RevokeKey_effect(1) [OF RevokeKey_pair, of k' k now "gw_keys w"] by auto
  next
    case (5 w k e w' err t)
    then show ?case using world_attribute(1) [OF RevokeKey_pair, of k e gl g now s w t] by auto
  next
    case (6 w k w' err t e subj)
    then show ?case using world_attribute(2) [OF RevokeKey_pair, of gl g now s w k t e subj] by auto
  next
    case (7 w sid rs v w' out)
    then show ?case using world_append [of w uuid now sid rs v w' out] by (simp add: fun_eq_iff world_encryption)
  qed
qed

end
