(* ===== verification/Erasure_Guarantees.thy ===== *)
theory Erasure_Guarantees
  imports Erasure_Properties
begin

text \<open>
  The guarantees of an erasure on the in-memory event store and key provider, each with a run of
  the eraser on a small store in which two subjects share a stream and a key.
\<close>

section \<open>A store with a shared key\<close>

definition sealed_metadata :: "string \<Rightarrow> string \<Rightarrow> metadata" where
  "sealed_metadata u k =
     WithCustom (WithCustom (WithCustom (WithCustom empty_metadata encryptedFieldsKey ''[]'') encryptionKeyIDKey k)
       encryptedDEKKey ''dek'') subjectTagsKey (encode_strings demo_codec [u])"

definition sealed_event :: "string \<Rightarrow> string \<Rightarrow> event_record" where
  "sealed_event u k = demo_event\<lparr>er_Metadata := sealed_metadata u k\<rparr>"

definition vault_keys :: local_provider where
  "vault_keys = empty_provider\<lparr>lp_keys := [(''k1'', replicate 32 CHR ''x''), (''k2'', replicate 32 CHR ''y'')]\<rparr>"

definition demo_vault :: gdpr_world where
  "demo_vault = \<lparr>gw_adapter = fst (Append None demo_uuid 7 NewAdapter ''Order-1''
     [sealed_event ''u1'' ''k1'', sealed_event ''u2'' ''k2'', sealed_event ''u2'' ''k1''] 0), gw_keys = vault_keys\<rparr>"

definition vault_1 :: stored_event where
  "vault_1 = mk_stored (demo_uuid 0) ''Order-1'' 7 1 1 (sealed_event ''u1'' ''k1'')"
definition vault_2 :: stored_event where
  "vault_2 = mk_stored (demo_uuid 1) ''Order-1'' 7 2 2 (sealed_event ''u2'' ''k2'')"
definition vault_3 :: stored_event where
  "vault_3 = mk_stored (demo_uuid 2) ''Order-1'' 7 3 3 (sealed_event ''u2'' ''k1'')"

lemmas vault_events = vault_1_def vault_2_def vault_3_def

definition vault_store :: "string event_store" where
  "vault_store = text_store\<lparr>es_encryption := Some demo_config\<rparr>"

abbreviation vault_env :: "(string, gdpr_world) eraser_env" where
  "vault_env \<equiv> mem_env demo_gcm demo_uuid 7 text_lib vault_store (\<lambda>s t n. s) (\<lambda>b. None) (\<lambda>i. demo_entropy)"

lemma demo_vault_log: "world_log demo_vault = [vault_1, vault_2, vault_3]" "world_ok demo_vault"
proof -
  show "world_log demo_vault = [vault_1, vault_2, vault_3]"
    by (simp add: vault_events demo_vault_def world_log_def Append_def appendLocked_def checkAppendLocked_def NewAdapter_def
        CheckVersion_def mk_stored_def notifySubscribers_def numeral_2_eq_2 Let_def)
  have "mem_inv (gw_adapter demo_vault)" using Append_inv [OF NewAdapter_inv] by (simp add: demo_vault_def)
  moreover have "\<not> ma_closed (gw_adapter demo_vault)"
    by (simp add: demo_vault_def Append_def appendLocked_def checkAppendLocked_def NewAdapter_def CheckVersion_def
        notifySubscribers_def Let_def)
  ultimately show "world_ok demo_vault" by (simp add: world_ok_def)
qed

lemma sealed_metadata_read:
  "GetSubjectTags demo_codec (sealed_metadata u k) = [u]"
  "GetEncryptionKeyID (sealed_metadata u k) = k"
  "k \<noteq> [] \<Longrightarrow> HasEncryptionEnvelope (sealed_metadata u k)"
  using decode_encode_strings [OF demo_codec_laws, of "[u]"]
  by (simp_all add: sealed_metadata_def GetSubjectTags_def GetEncryptionKeyID_def HasEncryptionEnvelope_def
      IsEncrypted_def custom_or_empty_def custom_get_WithCustom metadata_keys)

lemma vault_fields [simp]:
  "se_Metadata vault_1 = sealed_metadata ''u1'' ''k1''" "se_Metadata vault_2 = sealed_metadata ''u2'' ''k2''"
  "se_Metadata vault_3 = sealed_metadata ''u2'' ''k1''"
  "se_StreamID vault_1 = ''Order-1''" "se_StreamID vault_2 = ''Order-1''" "se_StreamID vault_3 = ''Order-1''"
  "se_Version vault_1 = 1" "se_Version vault_2 = 2" "se_Version vault_3 = 3"
  by (simp_all add: vault_events mk_stored_def sealed_event_def demo_event_def)

lemma vault_attribution:
  assumes "GetSubjectTags demo_codec (se_Metadata se) = [u]"
  shows "attributeSubjects text_lib s t se = \<lparr>at_subjects = [u], at_derived = False, at_undecryptable = False\<rparr>"
  using assms by (simp add: attributeSubjects_def text_lib_def)

section \<open>Two runs\<close>

definition demo_eraser :: "unit data_eraser" where
  "demo_eraser = NewDataEraser [WithEraseSubjectResolver (NewSubjectResolver []), WithSubjectIndexPurge (Some (\<lambda>x s. (x, None)))]"

definition guarded_eraser :: "unit data_eraser" where
  "guarded_eraser = NewDataEraser [WithEraseSubjectResolver (NewSubjectResolver []), WithSharedKeyGuard]"

definition demo_request :: erasure_request where
  "demo_request = \<lparr>rq_SubjectID = ''u1'', rq_Streams = [], rq_Filter = None, rq_KeyIDs = [], rq_FromTime = None, rq_ToTime = None\<rparr>"

abbreviation no_markers :: marker_cache where
  "no_markers \<equiv> \<lparr>mc_markedSubjects = [], mc_markedLoaded = False\<rparr>"

lemma demo_eraser_fields [simp]:
  "de_resolver demo_eraser = Some (NewSubjectResolver [])" "\<not> de_sharedKeyGuard demo_eraser"
  "de_subjectStores demo_eraser = []" "de_redactors demo_eraser = []" "de_rebuilders demo_eraser = []"
  "de_hooks demo_eraser = []" "de_certSink demo_eraser = None" "de_markerStream demo_eraser = []"
  "de_indexPurger demo_eraser = Some (\<lambda>x s. (x, None))" "de_batchSize demo_eraser = 1000"
  "de_resolver guarded_eraser = Some (NewSubjectResolver [])" "de_sharedKeyGuard guarded_eraser"
  "\<not> de_allowSharedKey guarded_eraser" "de_batchSize guarded_eraser = 1000"
  by (simp_all add: demo_eraser_def guarded_eraser_def NewDataEraser_def Let_def WithEraseSubjectResolver_def
      WithSubjectIndexPurge_def WithSharedKeyGuard_def)

lemma demo_request_fields [simp]:
  "rq_SubjectID demo_request = ''u1''" "rq_Streams demo_request = []" "rq_Filter demo_request = None"
  "rq_KeyIDs demo_request = []"
  by (simp_all add: demo_request_def)

definition shredded :: gdpr_world where
  "shredded = demo_vault\<lparr>gw_keys := fst (RevokeKey vault_keys ''k1'')\<rparr>"

lemma shredded_log: "world_log shredded = [vault_1, vault_2, vault_3]" "world_ok shredded"
  using demo_vault_log by (simp_all add: shredded_def world_log_def world_ok_def)

lemma demo_mine:
  "mine (resolver_attribute (mem_bound g uuid now text_lib s) w t) ''u1'' vault_1"
  "\<not> mine (resolver_attribute (mem_bound g uuid now text_lib s) w t) ''u1'' vault_2"
  "\<not> mine (resolver_attribute (mem_bound g uuid now text_lib s) w t) ''u1'' vault_3"
  by (simp_all add: mine_def at_to_iff resolver_attribute_def vault_attribution sealed_metadata_read)

text \<open>Both before and after the revocation the footprint has one stream and one key.\<close>

lemma demo_resolve:
  assumes "world_log w = [vault_1, vault_2, vault_3]" and "world_ok w"
  shows "\<exists>fp ms. resolve 4 None (mem_bound demo_gcm demo_uuid 7 text_lib vault_store) (NewSubjectResolver []) w ''u1'' m = Some (Inr (fp, ms)) \<and>
    fp_KeyIDs fp = [''k1''] \<and> fp_Streams fp = [''Order-1''] \<and> \<not> fp_Partial fp \<and> ms = matches_add m vault_1"
proof -
  let ?B = "mem_bound demo_gcm demo_uuid 7 text_lib vault_store"
  let ?r = "NewSubjectResolver []"
  let ?att = "resolver_attribute ?B w (sr_tagger ?r)"
  have r: "0 < sr_batchSize ?r" "sr_index ?r = None" "length (world_log w) < 4"
    using assms(1) by (simp_all add: NewSubjectResolver_def)
  obtain fp where fp: "resolve 4 None ?B ?r w ''u1'' m = Some (Inr (fp, fb_matched (fold fb_record
      (filter (mine ?att ''u1'') (world_log w)) (newFootprintBuilder ''u1'' m))))"
    "footprint_of ?att ''u1'' (world_log w) fp" "fp_Partial fp \<longleftrightarrow> (\<exists>e \<in> set (world_log w). \<not> attributed (?att e))"
    using mem_scan.scan_resolves [OF assms(2) r(1,3) _ r(2), of "''u1''" demo_gcm demo_uuid 7 text_lib vault_store m] by auto
  have env: "enveloped vault_1" by (simp add: sealed_metadata_read)
  have own: "{e \<in> set (world_log w). mine ?att ''u1'' e} = {vault_1}"
    "{e \<in> set (world_log w). mine ?att ''u1'' e \<and> enveloped e} = {vault_1}"
    using demo_mine env by (auto simp: assms(1))
  have "fp_KeyIDs fp = [''k1'']" "fp_Streams fp = [''Order-1'']"
    using fp(2) unfolding footprint_of_def own by (simp_all add: sealed_metadata_read)
  moreover have "\<not> fp_Partial fp"
    using fp(3) by (simp add: assms(1) attributed_def resolver_attribute_def vault_attribution sealed_metadata_read)
  ultimately show ?thesis using fp(1) by (simp add: assms(1) demo_mine)
qed

lemma demo_plan:
  "\<exists>acc. erase_plan 4 None vault_env demo_eraser 7 demo_vault demo_request = Some (Inr (acc, True)) \<and>
     ea_keySet acc = [''k1''] \<and> ea_streamSet acc = [''Order-1''] \<and> rs_Errors (ea_result acc) = [] \<and>
     rs_KeysFailed (ea_result acc) = [] \<and> rs_KeysRevoked (ea_result acc) = [] \<and> \<not> rs_Partial (ea_result acc) \<and>
     rs_SubjectStores (ea_result acc) = [] \<and> rs_ResidualReadModels (ea_result acc) = [] \<and>
     rs_attributed (ea_result acc) = Some [(''Order-1'', 1)]"
proof -
  obtain fp ms where fp: "resolve 4 None (mem_bound demo_gcm demo_uuid 7 text_lib vault_store) (NewSubjectResolver [])
      demo_vault ''u1'' (Some []) = Some (Inr (fp, ms))"
    "fp_KeyIDs fp = [''k1'']" "fp_Streams fp = [''Order-1'']" "\<not> fp_Partial fp" "ms = matches_add (Some []) vault_1"
    using demo_resolve [OF demo_vault_log] by blast
  show ?thesis
    using fp by (simp add: erase_plan_def erase_resolve_def new_result_def world_encryption vault_store_def
        matches_add_def Let_def)
qed

lemma demo_vault_keys: "gw_keys demo_vault = vault_keys"
  by (simp add: demo_vault_def)

lemma demo_revoke: "RevokeKey vault_keys ''k1'' = (gw_keys shredded, None)"
  by (simp add: shredded_def vault_keys_def empty_provider_def RevokeKey_def)

lemma demo_revoke_loop:
  "revoke_loop vault_env u [''k1''] demo_vault r = (shredded, Inr (r\<lparr>rs_KeysRevoked := rs_KeysRevoked r @ [''k1'']\<rparr>))"
proof -
  have "demo_vault\<lparr>gw_keys := gw_keys shredded\<rparr> = shredded" by (simp add: shredded_def)
  then have "ev_RevokeKey vault_env demo_vault ''k1'' = (shredded, None)"
    unfolding mem_env_simps demo_vault_keys demo_revoke prod.sel by simp
  then show ?thesis by simp
qed

lemma shredded_states:
  "snd (RevocationState_of 7 (gw_keys shredded) ''k1'') = Inr Revoked"
  "snd (RevocationState_of 7 (gw_keys demo_vault) ''k1'') = Inr NotRevoked"
  by (simp_all add: shredded_def demo_vault_def vault_keys_def empty_provider_def RevokeKey_def RevocationState_of_def
      stateLocked_def promoteIfExpiredLocked_def)

lemma demo_reconcile: "reconcileAfterRevoke 4 None vault_env demo_eraser (NewSubjectResolver []) ''u1'' [''k1''] shredded r = Some (shredded, r)"
proof -
  obtain fp ms where "resolve 4 None (mem_bound demo_gcm demo_uuid 7 text_lib vault_store) (NewSubjectResolver [])
      shredded ''u1'' None = Some (Inr (fp, ms))" "fp_KeyIDs fp = [''k1'']"
    using demo_resolve [OF shredded_log] by blast
  then show ?thesis by (simp add: reconcileAfterRevoke_def Resolve_def Let_def)
qed

lemma demo_load:
  assumes "world_log w = [vault_1, vault_2, vault_3]" and "world_ok w"
  shows "LoadRaw (world_ops demo_uuid 7) w ''Order-1'' 0 = Inr [vault_1, vault_2, vault_3]"
  using mem_scan.stream_read [OF assms(2), of "''Order-1''" demo_gcm demo_uuid 7 text_lib vault_store]
  by (simp add: LoadRaw_def assms(1) stream_events_def)

lemma demo_verify:
  assumes "rs_attributed r = Some [(''Order-1'', 1)]" and "rs_Streams r = [''Order-1'']" and "\<not> rs_Partial r"
    and "rs_KeysFailed r = []" and "rs_SubjectStores r = []" and "rs_ResidualReadModels r = []"
  shows "\<exists>cert. buildCertificate vault_env demo_eraser 7 shredded () ''u1'' r = (cert, r) \<and> ct_Verified cert"
proof -
  note ld = demo_load [OF shredded_log]
  have v1: "verify_event vault_env demo_eraser shredded ''u1'' (Some [(''Order-1'', 1)]) vault_1 rep =
      rep\<lparr>vr_EventsChecked := vr_EventsChecked rep + 1, vr_RedactedEvents := vr_RedactedEvents rep + 1\<rparr>" for rep
    by (simp add: verify_event_def matches_has_def recordChecked_def revocationState_def world_encryption vault_store_def
        shredded_states sealed_metadata_read)
  have v23: "verify_event vault_env demo_eraser shredded ''u1'' (Some [(''Order-1'', 1)]) vault_2 rep = rep"
    "verify_event vault_env demo_eraser shredded ''u1'' (Some [(''Order-1'', 1)]) vault_3 rep = rep" for rep
    by (simp_all add: verify_event_def matches_has_def eraser_attribute_def vault_attribution sealed_metadata_read
        at_to_iff attributed_def)
  have "verifyStreams vault_env demo_eraser shredded ''u1'' (Some [(''Order-1'', 1)]) [''Order-1''] (new_report ''u1'' False) =
      ((new_report ''u1'' False)\<lparr>vr_EventsChecked := 1, vr_RedactedEvents := 1\<rparr>, None)"
    by (simp add: ld v1 v23 new_report_def)
  then show ?thesis
    using assms by (auto simp: buildCertificate_def attestEvidence_def gateVacuous_def gateKeyOutcome_def gateSubjectStores_def
        vr_clean_def new_report_def cert_note_def Let_def)
qed

lemma demo_erase:
  "\<exists>r. Erase 4 None vault_env demo_eraser 7 (demo_vault, (), no_markers) demo_request =
      Some ((shredded, (), no_markers), Inr (r, None)) \<and> \<not> Failed r \<and> rs_SubjectIndexPurged r"
proof -
  obtain acc where plan: "erase_plan 4 None vault_env demo_eraser 7 demo_vault demo_request = Some (Inr (acc, True))"
    "ea_keySet acc = [''k1'']" "ea_streamSet acc = [''Order-1'']" "rs_Errors (ea_result acc) = []"
    "rs_KeysFailed (ea_result acc) = []" "rs_KeysRevoked (ea_result acc) = []" "\<not> rs_Partial (ea_result acc)"
    "rs_SubjectStores (ea_result acc) = []" "rs_ResidualReadModels (ea_result acc) = []"
    "rs_attributed (ea_result acc) = Some [(''Order-1'', 1)]"
    using demo_plan by blast
  let ?r0 = "(ea_result acc)\<lparr>rs_KeysRevoked := [''k1'']\<rparr>"
  let ?r1 = "(sort_keys ?r0)\<lparr>rs_Streams := sortedSet [''Order-1'']\<rparr>"
  have rl: "revoke_loop vault_env ''u1'' [''k1''] demo_vault (ea_result acc) = (shredded, Inr ?r0)"
    using plan(6) by (simp only: demo_revoke_loop append_Nil)
  obtain cert where cert: "buildCertificate vault_env demo_eraser 7 shredded () ''u1'' ?r1 = (cert, ?r1)" "ct_Verified cert"
    using demo_verify [of ?r1] plan by (auto simp: sort_keys_def sortedSet_def)
  have nf: "\<not> Failed ?r1" using plan by (simp add: Failed_def sort_keys_def)
  have fin: "erase_finish vault_env demo_eraser 7 ''u1'' shredded () no_markers ?r1 =
      ((shredded, (), no_markers), ?r1\<lparr>rs_SubjectIndexPurged := True\<rparr>, None)"
    using cert nf by (simp add: erase_finish_def redactReadModels_def eraseSubjectStores_def runErasureHooks_def purgeSubjectIndex_def)
  have "Erase 4 None vault_env demo_eraser 7 (demo_vault, (), no_markers) demo_request =
      Some ((shredded, (), no_markers), Inr (?r1\<lparr>rs_SubjectIndexPurged := True\<rparr>, None))"
    by (simp only: Erase_def prod.case plan(1-3) demo_request_fields option.case sum.case rl Let_def demo_eraser_fields
        bool.case demo_reconcile fin)
  moreover have "\<not> Failed (?r1\<lparr>rs_SubjectIndexPurged := True\<rparr>)" using plan by (simp add: Failed_def sort_keys_def)
  ultimately show ?thesis by (intro exI [of _ "?r1\<lparr>rs_SubjectIndexPurged := True\<rparr>"]) simp
qed

text \<open>An eraser with no options, on the shared stream: the key of the subject's own event is the only
  one collected.\<close>

definition plain_eraser :: "unit data_eraser" where
  "plain_eraser = NewDataEraser []"

lemma demo_stream_keys:
  fixes acc :: erase_acc
  assumes "ea_keySet acc = []"
  shows "\<exists>k acc'. collectStreamKeys (eraser_attribute vault_env plain_eraser demo_vault) [vault_1, vault_2, vault_3]
      (demo_request\<lparr>rq_Streams := [''Order-1'']\<rparr>) acc = (k, acc') \<and> ea_keySet acc' = [''k1'']"
proof -
  have "eraser_matches se (demo_request\<lparr>rq_Streams := [''Order-1'']\<rparr>)" for se
    by (simp add: eraser_matches_def demo_request_def)
  then show ?thesis
    using assms by (simp add: collectStreamKeys_def attributeStream_def eraser_attribute_def vault_attribution sealed_metadata_read
        tally_note_def attributed_def at_toOther_def ownedBySubject_def at_to_iff collect_key_def Let_def)
qed

lemma demo_stream_erase:
  "\<exists>st out. Erase 4 None vault_env plain_eraser 7 (demo_vault, (), no_markers) (demo_request\<lparr>rq_Streams := [''Order-1'']\<rparr>) =
     Some ((shredded, st), out)"
proof -
  let ?req = "demo_request\<lparr>rq_Streams := [''Order-1'']\<rparr>"
  have ld: "LoadRaw (world_ops demo_uuid 7) demo_vault ''Order-1'' 0 = Inr [vault_1, vault_2, vault_3]"
    using demo_load [OF demo_vault_log] .
  have e: "de_resolver plain_eraser = None" "\<not> de_sharedKeyGuard plain_eraser"
    by (simp_all add: plain_eraser_def NewDataEraser_def Let_def)
  obtain k acc where ck: "collectStreamKeys (eraser_attribute vault_env plain_eraser demo_vault) [vault_1, vault_2, vault_3] ?req
      \<lparr>ea_result = new_result ''u1'' 7, ea_keySet = [], ea_streamSet = []\<rparr> = (k, acc)" "ea_keySet acc = [''k1'']"
    using demo_stream_keys [of "\<lparr>ea_result = new_result ''u1'' 7, ea_keySet = [], ea_streamSet = []\<rparr>"] by auto
  obtain acc' where plan: "erase_plan 4 None vault_env plain_eraser 7 demo_vault ?req = Some (Inr (acc', False))"
    "ea_keySet acc' = [''k1'']"
    using ck by (simp add: erase_plan_def erase_resolve_def e world_encryption vault_store_def validateRequest_def discoverKeys_def
        discoverKeysByStream_def loadErasureStream_def ld Let_def)
  obtain r where rl: "revoke_loop vault_env ''u1'' [''k1''] demo_vault (ea_result acc') = (shredded, Inr r)"
    by (simp only: demo_revoke_loop)
  have fin: "\<exists>st r'. erase_finish vault_env plain_eraser 7 ''u1'' shredded () no_markers r0 = ((shredded, st), r', None)" for r0
    by (simp add: erase_finish_def redactReadModels_def eraseSubjectStores_def runErasureHooks_def plain_eraser_def NewDataEraser_def Let_def)
  then obtain st r' where "erase_finish vault_env plain_eraser 7 ''u1'' shredded () no_markers
      ((sort_keys r)\<lparr>rs_Streams := sortedSet (ea_streamSet acc')\<rparr>) = ((shredded, st), r', None)" by blast
  then show ?thesis
    using plan rl by (cases st) (simp add: Erase_def e Let_def)
qed

section \<open>Properties\<close>

text \<open>C20: the shared-key guard holds on every path.  With the guard set and not overridden, an erasure
  of any shape - by footprint, streams, filter or key ids, with any resolver, including the late keys
  of its reconciliation and whatever its hooks do - leaves the revocation state of every key unchanged
  that also protects an event attributed to another subject, or one that nobody can attribute.\<close>

theorem shared_key_never_revoked:
  assumes "world_ok w" and "0 < de_batchSize e" and "length (world_log w) < fuel"
    and "de_sharedKeyGuard e" and "\<not> de_allowSharedKey e"
    and "Erase fuel None (mem_env g uuid now gl s mk um en) e t (w, x, mc) req = Some ((w', x', mc'), out)"
    and "se \<in> set (world_log w)" and "enveloped se"
    and "\<not> exclusive (eraser_attribute (mem_env g uuid now gl s mk um en) e w se) (rq_SubjectID req)"
  shows "snd (RevocationState_of now (gw_keys w') (key_of se)) = snd (RevocationState_of now (gw_keys w) (key_of se))"
  using mem_vault.guarded_keys_kept [OF assms] by simp

theorem shared_key_never_revoked_witness:
  "\<exists>w' x' mc' out. Erase 4 None vault_env guarded_eraser 7 (demo_vault, (), no_markers) demo_request = Some ((w', x', mc'), out) \<and>
     snd (RevocationState_of 7 (gw_keys w') ''k1'') = Inr NotRevoked"
proof -
  have r: "sr_index (NewSubjectResolver []) = None" "0 < sr_batchSize (NewSubjectResolver [])"
    by (simp_all add: NewSubjectResolver_def)
  have "\<exists>st' out. Erase 4 None vault_env guarded_eraser 7 (demo_vault, (), no_markers) demo_request = Some (st', out)"
    by (rule mem_vault.subject_erase_total [OF demo_vault_log(2) _ _ r])
      (simp_all add: demo_vault_log(1) r world_encryption vault_store_def)
  then obtain w' x' mc' out where run: "Erase 4 None vault_env guarded_eraser 7 (demo_vault, (), no_markers) demo_request = Some ((w', x', mc'), out)"
    by (metis prod_cases3)
  have "snd (RevocationState_of 7 (gw_keys w') (key_of vault_3)) = snd (RevocationState_of 7 (gw_keys demo_vault) (key_of vault_3))"
    by (rule shared_key_never_revoked [OF demo_vault_log(2) _ _ _ _ run])
      (simp_all add: demo_vault_log(1) sealed_metadata_read exclusive_def at_toOther_def eraser_attribute_def vault_attribution)
  then show ?thesis using run by (simp add: sealed_metadata_read shredded_states)
qed

text \<open>C19: an erasure that does not report a failure is complete.  On the in-memory store, erasing a
  subject through a scan-backed resolver always returns, whatever read models, sibling stores, hooks,
  marker and certificate sink are configured; and if the result it returns is not \<^verbatim>\<open>Failed\<close>, the key of
  every enveloped event that was attributed to the subject is listed as revoked and is permanently
  revoked.\<close>

theorem unfailed_erasure_revokes_all:
  assumes "world_ok w" and "length (world_log w) < fuel" and "de_resolver e = Some rv" and "sr_index rv = None"
    and "0 < sr_batchSize rv" and "rq_SubjectID req \<noteq> []" and "rq_Streams req = []" and "rq_Filter req = None"
    and "rq_KeyIDs req = []" and "es_encryption s \<noteq> None" and "0 < de_batchSize e"
  shows "\<exists>w' x' mc' out. Erase fuel None (mem_env g uuid now gl s mk um en) e t (w, x, mc) req = Some ((w', x', mc'), out) \<and>
    (\<forall>r serr se. out = Inr (r, serr) \<and> \<not> Failed r \<and> se \<in> set (world_log w) \<and> enveloped se \<and>
        mine (eraser_attribute (mem_env g uuid now gl s mk um en) e w) (rq_SubjectID req) se \<longrightarrow>
      key_of se \<in> set (rs_KeysRevoked r) \<and> snd (RevocationState_of now (gw_keys w') (key_of se)) = Inr Revoked)"
proof -
  let ?ev = "mem_env g uuid now gl s mk um en"
  have cfg: "es_encryption (bs_store (ev_store ?ev) w) \<noteq> None" using assms(10) by (simp add: world_encryption)
  obtain w' x' mc' out where run: "Erase fuel None ?ev e t (w, x, mc) req = Some ((w', x', mc'), out)"
    using mem_vault.subject_erase_total [OF assms(1-9) cfg assms(11)] by (metis prod_cases3)
  have "key_of se \<in> set (rs_KeysRevoked r) \<and> snd (RevocationState_of now (gw_keys w') (key_of se)) = Inr Revoked"
    if "out = Inr (r, serr)" "\<not> Failed r" "se \<in> set (world_log w)" "enveloped se" "mine (eraser_attribute ?ev e w) (rq_SubjectID req) se"
    for r serr se
    using mem_vault.subject_erase(1) [OF assms(1-9) cfg assms(11) run [unfolded that(1)] that(3,5,2,4)] by simp
  with run show ?thesis by blast
qed

theorem unfailed_erasure_revokes_all_witness:
  "\<exists>w' r. Erase 4 None vault_env demo_eraser 7 (demo_vault, (), no_markers) demo_request = Some ((w', (), no_markers), Inr (r, None)) \<and>
     \<not> Failed r \<and> ''k1'' \<in> set (rs_KeysRevoked r) \<and> snd (RevocationState_of 7 (gw_keys w') ''k1'') = Inr Revoked"
proof -
  obtain r where run: "Erase 4 None vault_env demo_eraser 7 (demo_vault, (), no_markers) demo_request =
      Some ((shredded, (), no_markers), Inr (r, None))" "\<not> Failed r" using demo_erase by blast
  have rv: "sr_index (NewSubjectResolver []) = None" "0 < sr_batchSize (NewSubjectResolver [])"
    by (simp_all add: NewSubjectResolver_def)
  have "mine (eraser_attribute vault_env demo_eraser demo_vault) ''u1'' vault_1"
    by (simp add: mine_def at_to_iff eraser_attribute_def vault_attribution sealed_metadata_read)
  moreover have "vault_1 \<in> set (world_log demo_vault)" "enveloped vault_1" by (simp_all add: demo_vault_log sealed_metadata_read)
  moreover have "\<exists>w' x' mc' out. Erase 4 None vault_env demo_eraser 7 (demo_vault, (), no_markers) demo_request = Some ((w', x', mc'), out) \<and>
    (\<forall>r serr se. out = Inr (r, serr) \<and> \<not> Failed r \<and> se \<in> set (world_log demo_vault) \<and> enveloped se \<and>
        mine (eraser_attribute vault_env demo_eraser demo_vault) (rq_SubjectID demo_request) se \<longrightarrow>
      key_of se \<in> set (rs_KeysRevoked r) \<and> snd (RevocationState_of 7 (gw_keys w') (key_of se)) = Inr Revoked)"
    by (rule unfailed_erasure_revokes_all [OF demo_vault_log(2) _ _ rv]) (simp_all add: demo_vault_log vault_store_def)
  ultimately have "key_of vault_1 \<in> set (rs_KeysRevoked r) \<and> snd (RevocationState_of 7 (gw_keys shredded) (key_of vault_1)) = Inr Revoked"
    unfolding run(1) demo_request_fields using run(2) by blast
  then have "''k1'' \<in> set (rs_KeysRevoked r) \<and> snd (RevocationState_of 7 (gw_keys shredded) ''k1'') = Inr Revoked"
    by (simp only: vault_fields sealed_metadata_read)
  then show ?thesis using run by blast
qed

text \<open>C21: an erasure by subject id purges the index only when proven.  When an erasure that names only
  the subject - no streams, filter or key ids, which narrow what is erased and verified - through a
  scan-backed resolver reports the index as purged, every event attributed to the subject carries a
  complete encryption envelope and its key is permanently revoked: nothing of the subject is left in
  the log that could still be decrypted or read.\<close>

theorem purged_index_means_erased:
  assumes "world_ok w" and "length (world_log w) < fuel" and "de_resolver e = Some rv" and "sr_index rv = None"
    and "0 < sr_batchSize rv" and "rq_SubjectID req \<noteq> []" and "rq_Streams req = []" and "rq_Filter req = None"
    and "rq_KeyIDs req = []" and "es_encryption s \<noteq> None" and "0 < de_batchSize e"
    and "Erase fuel None (mem_env g uuid now gl s mk um en) e t (w, x, mc) req = Some ((w', x', mc'), Inr (r, serr))"
    and "rs_SubjectIndexPurged r" and "se \<in> set (world_log w)"
    and "mine (eraser_attribute (mem_env g uuid now gl s mk um en) e w) (rq_SubjectID req) se"
  shows "enveloped se \<and> snd (RevocationState_of now (gw_keys w') (key_of se)) = Inr Revoked"
proof -
  have cfg: "es_encryption (bs_store (ev_store (mem_env g uuid now gl s mk um en)) w) \<noteq> None"
    using assms(10) by (simp add: world_encryption)
  from mem_vault.subject_erase(2) [OF assms(1-9) cfg assms(11,12,14,15,13)] show ?thesis by simp
qed

theorem purged_index_means_erased_witness:
  "\<exists>w' r. Erase 4 None vault_env demo_eraser 7 (demo_vault, (), no_markers) demo_request = Some ((w', (), no_markers), Inr (r, None)) \<and>
     rs_SubjectIndexPurged r \<and> enveloped vault_1 \<and> snd (RevocationState_of 7 (gw_keys w') (key_of vault_1)) = Inr Revoked"
proof -
  obtain r where run: "Erase 4 None vault_env demo_eraser 7 (demo_vault, (), no_markers) demo_request =
      Some ((shredded, (), no_markers), Inr (r, None))" "rs_SubjectIndexPurged r" using demo_erase by blast
  have rv: "sr_index (NewSubjectResolver []) = None" "0 < sr_batchSize (NewSubjectResolver [])"
    by (simp_all add: NewSubjectResolver_def)
  have "enveloped vault_1 \<and> snd (RevocationState_of 7 (gw_keys shredded) (key_of vault_1)) = Inr Revoked"
    by (rule purged_index_means_erased [OF demo_vault_log(2) _ _ rv _ _ _ _ _ _ run])
      (simp_all add: demo_vault_log(1) vault_store_def mine_def at_to_iff eraser_attribute_def vault_attribution sealed_metadata_read)
  then show ?thesis using run by blast
qed

text \<open>An erasure by streams does not reach beyond the subject.  A key whose revocation state
  changes is one the request names, one of the subject's own events in a listed stream, or one found in
  a listed stream in which no event can be attributed to anyone - never a key that only co-tenants of a
  listed stream use.\<close>

theorem stream_erasure_scoped:
  assumes "world_ok w" and "rq_Streams req \<noteq> []"
    and "Erase fuel ctx (mem_env g uuid now gl s mk um en) e t (w, x, mc) req = Some ((w', x', mc'), out)"
    and "snd (RevocationState_of now (gw_keys w') k) \<noteq> snd (RevocationState_of now (gw_keys w) k)"
  shows "k \<in> set (rq_KeyIDs req) \<or>
    key_in_scope (eraser_attribute (mem_env g uuid now gl s mk um en) e w) (world_log w) req k"
  using mem_vault.stream_erase_scope [OF assms(1-3)] assms(4) by simp

theorem stream_erasure_scoped_witness:
  "\<exists>w' x' mc' out. Erase 4 None vault_env plain_eraser 7 (demo_vault, (), no_markers) (demo_request\<lparr>rq_Streams := [''Order-1'']\<rparr>) =
       Some ((w', x', mc'), out) \<and>
     snd (RevocationState_of 7 (gw_keys w') ''k1'') \<noteq> snd (RevocationState_of 7 (gw_keys demo_vault) ''k1'') \<and>
     key_in_scope (eraser_attribute vault_env plain_eraser demo_vault) (world_log demo_vault) (demo_request\<lparr>rq_Streams := [''Order-1'']\<rparr>) ''k1''"
proof -
  let ?req = "demo_request\<lparr>rq_Streams := [''Order-1'']\<rparr>"
  obtain st out where run: "Erase 4 None vault_env plain_eraser 7 (demo_vault, (), no_markers) ?req = Some ((shredded, st), out)"
    using demo_stream_erase by blast
  obtain x' mc' where st: "st = (x', mc')" by (cases st)
  have changed: "snd (RevocationState_of 7 (gw_keys shredded) ''k1'') \<noteq> snd (RevocationState_of 7 (gw_keys demo_vault) ''k1'')"
    by (simp add: shredded_states)
  from stream_erasure_scoped [OF demo_vault_log(2) _ run [unfolded st] changed]
  have "key_in_scope (eraser_attribute vault_env plain_eraser demo_vault) (world_log demo_vault) ?req ''k1''" by simp
  then show ?thesis using run changed st by blast
qed

end
