(* ===== verification/Retention_Laws.thy ===== *)
theory Retention_Laws
  imports Retention Erasure_Guarantees
begin

text \<open>
  The parts of a retention sweep: the scan visits the rest of the log, the guard splits the
  candidates by coverage, the revocation keeps to the keys it is given, and the frontier never
  passes an event that a later sweep would still have to act on.
\<close>

section \<open>The scan\<close>

lemma foldB_append:
  "foldB f (xs @ ys) s = (case foldB f xs s of (s', True) \<Rightarrow> (s', True) | (s', False) \<Rightarrow> foldB f ys s')"
  by (induction xs arbitrary: s) (auto split: prod.splits bool.splits)

lemma foldB_total: "foldB (\<lambda>e s. (g e s, False)) es s = (fold g es s, False)"
  by (induction es arbitrary: s) auto

text \<open>A property of the processed part and the state, kept by every step.\<close>

lemma foldB_invariant:
  assumes "\<And>es e s s' b. P es s \<Longrightarrow> f e s = (s', b) \<Longrightarrow> P (es @ [e]) s'" and "P pre s"
  shows "\<exists>k \<le> length es. P (pre @ take k es) (fst (foldB f es s)) \<and> (\<not> snd (foldB f es s) \<longrightarrow> k = length es)"
  using assms(2)
proof (induction es arbitrary: pre s)
  case (Cons e es)
  obtain s1 b where s1: "f e s = (s1, b)" by (rule prod.exhaust)
  have step: "P (pre @ [e]) s1" using assms(1) [OF Cons.prems s1] .
  show ?case
  proof (cases b)
    case True
    then show ?thesis using s1 step by (intro exI [of _ 1]) simp
  next
    case False
    from Cons.IH [OF step] obtain k where "k \<le> length es" "P ((pre @ [e]) @ take k es) (fst (foldB f es s1))"
      "\<not> snd (foldB f es s1) \<longrightarrow> k = length es" by blast
    then show ?thesis using s1 False by (intro exI [of _ "Suc k"]) simp
  qed
qed simp

context position_feed
begin

lemma short_scan_visits:
  assumes "ok a" and "0 < n" and "length (filter (\<lambda>e. p < pos e) (events a)) < fuel"
  shows "short_scan fuel (\<lambda>p. load a p n) pos n f p s =
    Some (fst (foldB f (filter (\<lambda>e. p < pos e) (events a)) s), None)"
  using assms(3)
proof (induction fuel arbitrary: p s)
  case (Suc fuel)
  let ?rest = "filter (\<lambda>e. p < pos e) (events a)"
  let ?batch = "take (nat n) ?rest"
  have ld: "load a p n = Inr ?batch" using assms(1,2) by (rule load_page)
  show ?case
  proof (cases "?rest = []")
    case ne: False
    let ?q = "pos (last ?batch)"
    have bne: "?batch \<noteq> []" using ne assms(2) by simp
    have split: "foldB f ?rest s = (case foldB f ?batch s of (s', True) \<Rightarrow> (s', True) | (s', False) \<Rightarrow> foldB f (drop (nat n) ?rest) s')"
      using foldB_append [of f ?batch "drop (nat n) ?rest" s] by simp
    obtain s1 b where s1: "foldB f ?batch s = (s1, b)" by (rule prod.exhaust)
    show ?thesis
    proof (cases "b \<or> int (length ?batch) < n")
      case True
      have res: "short_scan (Suc fuel) (\<lambda>p. load a p n) pos n f p s = Some (s1, None)"
        using True bne by (cases b) (simp_all only: short_scan.simps ld sum.case if_False s1 prod.case bool.case if_True simp_thms)
      have "drop (nat n) ?rest = []" if "\<not> b" using True that by simp
      then have "foldB f ?rest s = (s1, b)" unfolding split s1 by (cases b) simp_all
      then show ?thesis using res by (simp only: fst_conv)
    next
      case False
      have "last ?batch \<in> set ?rest" using bne by (meson in_set_takeD last_in_set)
      then have pq: "p \<le> ?q" by simp
      have srt: "sorted_wrt (<) (map pos ?rest)"
        using ascending [OF assms(1)] by (simp add: sorted_wrt_map sorted_wrt_filter)
      have "filter (\<lambda>e. ?q < pos e) (events a) = filter (\<lambda>e. ?q < pos e) ?rest"
        using pq by (rule filter_gt_trans [symmetric])
      also have "\<dots> = drop (nat n) ?rest"
        using assms(2) by (intro filter_gt_after_take [OF srt _ ne]) simp
      finally have rest': "filter (\<lambda>e. ?q < pos e) (events a) = drop (nat n) ?rest" .
      have "0 < length ?rest" "0 < nat n" using ne assms(2) by auto
      then have "length (drop (nat n) ?rest) < fuel" using Suc.prems by (simp only: length_drop)
      then have "short_scan fuel (\<lambda>p. load a p n) pos n f ?q s1 = Some (fst (foldB f (drop (nat n) ?rest) s1), None)"
        using Suc.IH [of ?q s1] unfolding rest' by blast
      then show ?thesis using False s1 bne by (simp only: short_scan.simps ld sum.case if_False split) simp
    qed
  qed (simp add: ld)
qed simp

end

context scannable_store
begin

lemma short_scan_log:
  assumes "ok a" and "0 < n" and "length (log a) < fuel"
  shows "short_scan fuel (scan_page None B a n w) se_GlobalPosition n f p s =
    Some (fst (foldB f (filter (\<lambda>e. p < se_GlobalPosition e) (log a)) s), None)"
proof -
  have "scan_page None B a n w = (\<lambda>p. bs_load_from B a p n)"
    by (rule ext) (simp add: scan_page_def read_page [OF assms(1,2)])
  moreover have "length (filter (\<lambda>e. p < se_GlobalPosition e) (log a)) < fuel"
    using assms(3) by (meson le_less_trans length_filter_le)
  ultimately show ?thesis using feed.short_scan_visits [OF assms(1,2), of p fuel f s] by simp
qed

end

section \<open>The guard\<close>

lemma tally_keys:
  "dom (map_of (tallyOutOfScopeKeys cs ps now se os)) =
     dom (map_of os) \<union> (if enveloped se \<and> key_of se \<in> set cs \<and> \<not> coveredByShred se ps now then {key_of se} else {})"
  by (auto simp: tallyOutOfScopeKeys_def Let_def update_conv')

lemma fold_tally_keys:
  "dom (map_of (fold (tallyOutOfScopeKeys cs ps now) es os)) =
     dom (map_of os) \<union> key_of ` {se \<in> set es. enveloped se \<and> key_of se \<in> set cs \<and> \<not> coveredByShred se ps now}"
  by (induction es arbitrary: os) (auto simp: tally_keys)

lemma guard_loop_eq:
  "\<exists>errs. guard_loop os ks r = r\<lparr>rr_KeysToRevoke := rr_KeysToRevoke r @ filter (\<lambda>k. k \<notin> dom (map_of os)) ks,
     rr_SharedKeysSkipped := rr_SharedKeysSkipped r @ filter (\<lambda>k. k \<in> dom (map_of os)) ks,
     rr_Errors := rr_Errors r @ errs\<rparr> \<and> (errs = [] \<longleftrightarrow> (\<forall>k \<in> set ks. k \<notin> dom (map_of os)))"
proof (induction ks arbitrary: r)
  case (Cons k ks)
  show ?case
  proof (cases "map_of os k")
    case None
    let ?r = "r\<lparr>rr_KeysToRevoke := rr_KeysToRevoke r @ [k]\<rparr>"
    from Cons.IH [of ?r] None show ?thesis by (auto simp: dom_def)
  next
    case (Some n)
    let ?r = "r\<lparr>rr_SharedKeysSkipped := rr_SharedKeysSkipped r @ [k], rr_Errors := rr_Errors r @ [RetentionSharedKeyError k n]\<rparr>"
    from Cons.IH [of ?r] obtain errs where "guard_loop os ks ?r = ?r\<lparr>rr_KeysToRevoke := rr_KeysToRevoke ?r @ filter (\<lambda>k. k \<notin> dom (map_of os)) ks,
      rr_SharedKeysSkipped := rr_SharedKeysSkipped ?r @ filter (\<lambda>k. k \<in> dom (map_of os)) ks,
      rr_Errors := rr_Errors ?r @ errs\<rparr>" by blast
    then show ?thesis using Some by (intro exI [of _ "RetentionSharedKeyError k n # errs"]) (auto simp: dom_def)
  qed
qed simp

section \<open>One event\<close>

lemma shred_add_frontier:
  "map_of (sh_frontier (shred_add key f c)) k =
     (if k = key \<and> map_of (sh_frontier c) k = None then Some f else map_of (sh_frontier c) k)"
  by (auto simp: shred_add_def Let_def update_conv)

lemma shred_add_matches: "dom (map_of (sh_matches (shred_add key f c))) = insert key (dom (map_of (sh_matches c)))"
  by (auto simp: shred_add_def Let_def update_conv split: option.splits if_splits)

definition shreds :: "'x retention_policy list \<Rightarrow> time \<Rightarrow> stored_event \<Rightarrow> bool" where
  "shreds ps now e \<longleftrightarrow> coveredByShred e ps now \<and> enveloped e"

definition pending_on :: "'x retention_policy list \<Rightarrow> time \<Rightarrow> stored_event \<Rightarrow> bool" where
  "pending_on ps now e \<longleftrightarrow> (\<exists>p \<in> set ps. matchesStatic p e \<and> \<not> ageEligible p e now)"

text \<open>The fields of the report that the guard and the revocation fill in.\<close>

definition same_keys :: "retention_report \<Rightarrow> retention_report \<Rightarrow> bool" where
  "same_keys r r' \<longleftrightarrow> rr_KeysToRevoke r' = rr_KeysToRevoke r \<and> rr_SharedKeysSkipped r' = rr_SharedKeysSkipped r \<and>
     rr_KeysRevoked r' = rr_KeysRevoked r"

lemma act_fields:
  "sw_frontier (act p se f dry sw) = sw_frontier sw" "sw_frozen (act p se f dry sw) = sw_frozen sw"
  "sw_shred (act p se f dry sw) =
     (if rp_Action p = ActionShred \<and> enveloped se then shred_add (key_of se) f (sw_shred sw) else sw_shred sw)"
  "same_keys (sw_report sw) (sw_report (act p se f dry sw))"
  "rr_Scanned (sw_report (act p se f dry sw)) = rr_Scanned (sw_report sw)"
  by (auto simp: act_def same_keys_def Let_def split: RetentionAction.split option.split prod.split)

lemma policy_loop_fields:
  assumes "policy_loop now dry se ps (sw, pd) = (sw', pd')"
  shows "sw_frontier sw' = sw_frontier sw" and "sw_frozen sw' = sw_frozen sw"
    and "pd' \<longleftrightarrow> pd \<or> pending_on ps now se"
    and "map_of (sh_frontier (sw_shred sw')) k =
      (if shreds ps now se \<and> k = key_of se \<and> map_of (sh_frontier (sw_shred sw)) k = None then Some (sw_frontier sw)
       else map_of (sh_frontier (sw_shred sw)) k)"
    and "dom (map_of (sh_matches (sw_shred sw'))) =
      dom (map_of (sh_matches (sw_shred sw))) \<union> (if shreds ps now se then {key_of se} else {})"
    and "same_keys (sw_report sw) (sw_report sw')" and "rr_Scanned (sw_report sw') = rr_Scanned (sw_report sw)"
proof -
  have "sw_frontier sw' = sw_frontier sw \<and> sw_frozen sw' = sw_frozen sw \<and> (pd' \<longleftrightarrow> pd \<or> pending_on ps now se) \<and>
    (\<forall>k. map_of (sh_frontier (sw_shred sw')) k =
      (if shreds ps now se \<and> k = key_of se \<and> map_of (sh_frontier (sw_shred sw)) k = None then Some (sw_frontier sw)
       else map_of (sh_frontier (sw_shred sw)) k)) \<and>
    dom (map_of (sh_matches (sw_shred sw'))) =
      dom (map_of (sh_matches (sw_shred sw))) \<union> (if shreds ps now se then {key_of se} else {}) \<and>
    same_keys (sw_report sw) (sw_report sw') \<and> rr_Scanned (sw_report sw') = rr_Scanned (sw_report sw)"
    using assms
  proof (induction ps arbitrary: sw pd)
    case Nil
    then show ?case by (auto simp: shreds_def coveredByShred_def pending_on_def same_keys_def)
  next
    case (Cons p ps)
    let ?sw1 = "act p se (sw_frontier sw) dry (sw\<lparr>sw_report := (sw_report sw)\<lparr>rr_Matched := rr_Matched (sw_report sw) + 1\<rparr>\<rparr>)"
    have cov: "shreds (p # ps) now se \<longleftrightarrow>
        (rp_Action p = ActionShred \<and> matchesStatic p se \<and> ageEligible p se now \<and> enveloped se) \<or> shreds ps now se"
      by (auto simp: shreds_def coveredByShred_def)
    have pnd: "pending_on (p # ps) now se \<longleftrightarrow> matchesStatic p se \<and> \<not> ageEligible p se now \<or> pending_on ps now se"
      by (simp add: pending_on_def)
    consider (skip) "\<not> matchesStatic p se" | (hit) "matchesStatic p se" "ageEligible p se now"
      | (young) "matchesStatic p se" "\<not> ageEligible p se now" by blast
    then show ?case
    proof cases
      case skip
      then show ?thesis using Cons.IH [of sw pd] Cons.prems unfolding cov pnd by simp
    next
      case hit
      have run: "policy_loop now dry se ps (?sw1, pd) = (sw', pd')" using Cons.prems hit by simp
      have keys: "same_keys (sw_report sw) (sw_report ?sw1)"
        using act_fields(4) [of "sw\<lparr>sw_report := (sw_report sw)\<lparr>rr_Matched := rr_Matched (sw_report sw) + 1\<rparr>\<rparr>"]
        by (simp add: same_keys_def)
      show ?thesis
        using Cons.IH [OF run] hit keys unfolding cov pnd
        by (auto simp: act_fields shred_add_frontier shred_add_matches same_keys_def)
    next
      case young
      then show ?thesis using Cons.IH [of sw True] Cons.prems unfolding cov pnd by simp
    qed
  qed
  then show "sw_frontier sw' = sw_frontier sw" "sw_frozen sw' = sw_frozen sw" "pd' \<longleftrightarrow> pd \<or> pending_on ps now se"
    "map_of (sh_frontier (sw_shred sw')) k =
      (if shreds ps now se \<and> k = key_of se \<and> map_of (sh_frontier (sw_shred sw)) k = None then Some (sw_frontier sw)
       else map_of (sh_frontier (sw_shred sw)) k)"
    "dom (map_of (sh_matches (sw_shred sw'))) =
      dom (map_of (sh_matches (sw_shred sw))) \<union> (if shreds ps now se then {key_of se} else {})"
    "same_keys (sw_report sw) (sw_report sw')" "rr_Scanned (sw_report sw') = rr_Scanned (sw_report sw)"
    by blast+
qed

section \<open>The frontier\<close>

text \<open>What holds of the events already scanned: up to the frontier none is pending, the key of every
  shred match is a candidate, and the frontier remembered for it lies before the match.\<close>

definition sweep_inv :: "'x retention_policy list \<Rightarrow> time \<Rightarrow> nat \<Rightarrow> stored_event list \<Rightarrow> 'x sweep \<Rightarrow> bool" where
  "sweep_inv ps now p0 es sw \<longleftrightarrow>
     dom (map_of (sh_matches (sw_shred sw))) = dom (map_of (sh_frontier (sw_shred sw))) \<and>
     (\<forall>k f. map_of (sh_frontier (sw_shred sw)) k = Some f \<longrightarrow> f \<le> sw_frontier sw) \<and>
     (\<forall>e \<in> set es. se_GlobalPosition e \<le> sw_frontier sw \<longrightarrow> \<not> pending_on ps now e) \<and>
     (\<not> sw_frozen sw \<longrightarrow> (\<forall>e \<in> set es. se_GlobalPosition e \<le> sw_frontier sw)) \<and>
     (\<forall>e \<in> set es. shreds ps now e \<longrightarrow>
        (\<exists>f. map_of (sh_frontier (sw_shred sw)) (key_of e) = Some f \<and> f < se_GlobalPosition e)) \<and>
     (\<forall>n. p0 < n \<longrightarrow> (\<forall>e \<in> set es. se_GlobalPosition e < n) \<longrightarrow> sw_frontier sw < n)"

lemma sweep_event_inv:
  assumes inv: "sweep_inv ps now p0 es sw" and run: "sweep_event ps now dry mx sp se sw = (sw', b)"
    and "\<forall>e \<in> set es. se_GlobalPosition e < se_GlobalPosition se" and "p0 < se_GlobalPosition se"
  shows "sweep_inv ps now p0 (es @ [se]) sw'" and "same_keys (sw_report sw) (sw_report sw')"
proof -
  let ?sw1 = "sw\<lparr>sw_report := (sw_report sw)\<lparr>rr_Scanned := rr_Scanned (sw_report sw) + 1\<rparr>\<rparr>"
  obtain sw2 pd where lp: "policy_loop now dry se ps (?sw1, False) = (sw2, pd)" by (rule prod.exhaust)
  note fl = policy_loop_fields [OF lp]
  have before: "sw_frontier sw < se_GlobalPosition se" using inv assms(3,4) by (simp add: sweep_inv_def)
  define sw3 where "sw3 = (if sw_frozen sw2 then sw2 else if pd then sw2\<lparr>sw_frozen := True\<rparr>
      else sw2\<lparr>sw_frontier := se_GlobalPosition se\<rparr>)"
  have sw': "sw_shred sw' = sw_shred sw2" "sw_frontier sw' = sw_frontier sw3" "same_keys (sw_report sw2) (sw_report sw')"
    "sw_frozen sw' = sw_frozen sw3"
    using run lp by (auto simp: sweep_event_def sw3_def same_keys_def Let_def split: if_splits)
  show "same_keys (sw_report sw) (sw_report sw')" using sw'(3) fl(6) by (simp add: same_keys_def)
  have fr: "sw_frontier sw' = sw_frontier sw \<and> sw_frozen sw' \<or>
      sw_frontier sw' = se_GlobalPosition se \<and> \<not> pending_on ps now se \<and> \<not> sw_frozen sw"
    using fl(1,2,3) by (simp add: sw'(2,4) sw3_def)
  have mf: "map_of (sh_frontier (sw_shred sw')) k =
      (if shreds ps now se \<and> k = key_of se \<and> map_of (sh_frontier (sw_shred sw)) k = None then Some (sw_frontier sw)
       else map_of (sh_frontier (sw_shred sw)) k)" for k
    unfolding sw'(1) fl(4) by auto
  show "sweep_inv ps now p0 (es @ [se]) sw'"
    unfolding sweep_inv_def
  proof (intro conjI allI ballI impI)
    show "dom (map_of (sh_matches (sw_shred sw'))) = dom (map_of (sh_frontier (sw_shred sw')))"
      using inv fl(5) unfolding sweep_inv_def dom_def mf by (auto simp: sw'(1) dom_def split: if_splits)
  next
    fix k f assume "map_of (sh_frontier (sw_shred sw')) k = Some f"
    then have "f \<le> sw_frontier sw" using inv by (auto simp: mf sweep_inv_def split: if_splits)
    then show "f \<le> sw_frontier sw'" using fr before by auto
  next
    fix e assume "e \<in> set (es @ [se])" "se_GlobalPosition e \<le> sw_frontier sw'"
    then show "\<not> pending_on ps now e"
      using inv fr before assms(3) by (auto simp: sweep_inv_def)
  next
    fix e assume "\<not> sw_frozen sw'" "e \<in> set (es @ [se])"
    then show "se_GlobalPosition e \<le> sw_frontier sw'" using fr assms(3) by auto
  next
    fix e assume e: "e \<in> set (es @ [se])" "shreds ps now e"
    show "\<exists>f. map_of (sh_frontier (sw_shred sw')) (key_of e) = Some f \<and> f < se_GlobalPosition e"
    proof (cases "e \<in> set es")
      case True
      then obtain f where "map_of (sh_frontier (sw_shred sw)) (key_of e) = Some f" "f < se_GlobalPosition e"
        using inv e(2) by (auto simp: sweep_inv_def)
      then show ?thesis by (auto simp: mf)
    next
      case False
      then have "e = se" using e(1) by simp
      then show ?thesis
        using inv e(2) before
        by (cases "map_of (sh_frontier (sw_shred sw)) (key_of se)") (fastforce simp: mf sweep_inv_def intro: le_less_trans)+
    qed
  next
    fix n assume "p0 < n" "\<forall>e \<in> set (es @ [se]). se_GlobalPosition e < n"
    then show "sw_frontier sw' < n" using inv fr by (auto simp: sweep_inv_def)
  qed
qed

text \<open>The whole scan, wherever it stops: what lies up to the frontier was scanned.\<close>

lemma sweep_scan_inv:
  assumes "sorted_wrt (<) (map se_GlobalPosition es)" and "\<forall>e \<in> set es. p0 < se_GlobalPosition e"
    and "sw = fst (foldB (sweep_event ps now dry mx sp) es (\<lparr>sw_ext = x, sw_shred = newShredCandidates,
      sw_report = r, sw_frontier = p0, sw_frozen = False\<rparr>))"
  shows "same_keys r (sw_report sw)"
    and "dom (map_of (sh_matches (sw_shred sw))) = dom (map_of (sh_frontier (sw_shred sw)))"
    and "\<forall>e \<in> set es. se_GlobalPosition e \<le> sw_frontier sw \<longrightarrow> \<not> pending_on ps now e \<and>
      (shreds ps now e \<longrightarrow> (\<exists>f. map_of (sh_frontier (sw_shred sw)) (key_of e) = Some f \<and> f < se_GlobalPosition e))"
    and "p0 < n \<Longrightarrow> \<forall>e \<in> set es. se_GlobalPosition e < n \<Longrightarrow> sw_frontier sw < n"
proof -
  let ?f = "sweep_event ps now dry mx sp"
  let ?sw0 = "\<lparr>sw_ext = x, sw_shred = newShredCandidates, sw_report = r, sw_frontier = p0, sw_frozen = False\<rparr>"
  let ?P = "\<lambda>es sw. sorted_wrt (<) (map se_GlobalPosition es) \<and> (\<forall>e \<in> set es. p0 < se_GlobalPosition e) \<longrightarrow>
    sweep_inv ps now p0 es sw \<and> same_keys r (sw_report sw)"
  have step: "?P (es @ [e]) s'" if P: "?P es s" and f: "?f e s = (s', b)" for es e s s' b
  proof (intro impI)
    assume srt: "sorted_wrt (<) (map se_GlobalPosition (es @ [e])) \<and> (\<forall>x \<in> set (es @ [e]). p0 < se_GlobalPosition x)"
    then have "sorted_wrt (<) (map se_GlobalPosition es)" "\<forall>x \<in> set es. p0 < se_GlobalPosition x"
      "\<forall>x \<in> set es. se_GlobalPosition x < se_GlobalPosition e" "p0 < se_GlobalPosition e"
      by (simp_all add: sorted_wrt_append)
    then show "sweep_inv ps now p0 (es @ [e]) s' \<and> same_keys r (sw_report s')"
      using P sweep_event_inv [OF _ f, of p0 es] by (simp add: same_keys_def)
  qed
  have init: "?P [] ?sw0"
    by (simp add: sweep_inv_def newShredCandidates_def same_keys_def)
  have "\<exists>k \<le> length es. ?P ([] @ take k es) (fst (foldB ?f es ?sw0)) \<and> (\<not> snd (foldB ?f es ?sw0) \<longrightarrow> k = length es)"
    by (rule foldB_invariant [where P = ?P and f = ?f and pre = "[]"]) (erule (1) step, rule init)
  then obtain k where k: "k \<le> length es" "?P (take k es) sw" unfolding assms(3) append_Nil by blast
  have es: "sorted_wrt (<) (map se_GlobalPosition (take k es @ drop k es))" using assms(1) by simp
  have "sorted_wrt (<) (map se_GlobalPosition (take k es))" "\<forall>e \<in> set (take k es). p0 < se_GlobalPosition e"
    using es assms(2) by (auto simp: sorted_wrt_append simp del: append_take_drop_id dest: in_set_takeD)
  then have inv: "sweep_inv ps now p0 (take k es) sw" "same_keys r (sw_report sw)" using k(2) by blast+
  show "same_keys r (sw_report sw)" by (rule inv(2))
  show "dom (map_of (sh_matches (sw_shred sw))) = dom (map_of (sh_frontier (sw_shred sw)))"
    using inv(1) by (simp add: sweep_inv_def)
  show "p0 < n \<Longrightarrow> \<forall>e \<in> set es. se_GlobalPosition e < n \<Longrightarrow> sw_frontier sw < n"
    using inv(1) in_set_takeD [of _ k es] unfolding sweep_inv_def by meson
  have later: "sw_frontier sw < se_GlobalPosition e" if "e \<in> set (drop k es)" for e
  proof -
    have "p0 < se_GlobalPosition e" using that assms(2) by (meson in_set_dropD)
    moreover have "\<forall>x \<in> set (take k es). se_GlobalPosition x < se_GlobalPosition e"
      using es that by (simp add: sorted_wrt_append del: append_take_drop_id)
    ultimately show ?thesis using inv(1) by (simp add: sweep_inv_def)
  qed
  show "\<forall>e \<in> set es. se_GlobalPosition e \<le> sw_frontier sw \<longrightarrow> \<not> pending_on ps now e \<and>
      (shreds ps now e \<longrightarrow> (\<exists>f. map_of (sh_frontier (sw_shred sw)) (key_of e) = Some f \<and> f < se_GlobalPosition e))"
  proof (intro ballI impI)
    fix e assume "e \<in> set es" "se_GlobalPosition e \<le> sw_frontier sw"
    then have "e \<in> set (take k es)" using later by (metis append_take_drop_id set_append Un_iff not_le)
    then show "\<not> pending_on ps now e \<and>
      (shreds ps now e \<longrightarrow> (\<exists>f. map_of (sh_frontier (sw_shred sw)) (key_of e) = Some f \<and> f < se_GlobalPosition e))"
      using inv(1) \<open>se_GlobalPosition e \<le> sw_frontier sw\<close> by (simp add: sweep_inv_def)
  qed
qed

text \<open>The accounting holds the frontier back before the first match of every unrevoked key.\<close>

lemma settle_loop_fields:
  assumes "settle_loop fr ms (r, f) = (r', f')"
  shows "same_keys r r'" and "f' \<le> f"
    and "(k, n) \<in> set ms \<Longrightarrow> k \<notin> set (rr_KeysRevoked r) \<Longrightarrow> map_of fr k = Some g \<Longrightarrow> f' \<le> g"
proof -
  have "same_keys r r' \<and> f' \<le> f \<and>
    (\<forall>k n g. (k, n) \<in> set ms \<longrightarrow> k \<notin> set (rr_KeysRevoked r) \<longrightarrow> map_of fr k = Some g \<longrightarrow> f' \<le> g)"
    using assms
  proof (induction ms arbitrary: r f)
    case Nil
    then show ?case by (simp add: same_keys_def)
  next
    case (Cons kn ms)
    obtain k n where kn: "kn = (k, n)" by (rule prod.exhaust)
    show ?case
    proof (cases "k \<in> set (rr_KeysRevoked r)")
      case True
      then show ?thesis
        using Cons.IH [of "r\<lparr>rr_Acted := rr_Acted r + n\<rparr>" f] Cons.prems by (auto simp: kn same_keys_def)
    next
      case False
      let ?g = "case map_of fr k of None \<Rightarrow> 0 | Some f \<Rightarrow> f"
      have "settle_loop fr ms (r\<lparr>rr_Skipped := rr_Skipped r + n\<rparr>, if ?g < f then ?g else f) = (r', f')"
        using Cons.prems False by (simp add: kn Let_def)
      from Cons.IH [OF this] show ?thesis by (auto simp: kn same_keys_def split: if_splits)
    qed
  qed
  then show "same_keys r r'" "f' \<le> f"
    "(k, n) \<in> set ms \<Longrightarrow> k \<notin> set (rr_KeysRevoked r) \<Longrightarrow> map_of fr k = Some g \<Longrightarrow> f' \<le> g" by blast+
qed

section \<open>The parts of a sweep, named\<close>

text \<open>The shared-key guard's verdict on a candidate.\<close>

definition approved :: "('x, 'k) retention_manager \<Rightarrow> stored_event list \<Rightarrow> time \<Rightarrow> string \<Rightarrow> bool" where
  "approved m es now k \<longleftrightarrow> rm_allowSharedKey m \<or>
     (\<forall>se \<in> set es. enveloped se \<longrightarrow> key_of se = k \<longrightarrow> coveredByShred se (active_policies m) now)"

definition resumes :: "('x, 'k) retention_manager \<Rightarrow> 'k \<Rightarrow> nat \<Rightarrow> bool" where
  "resumes m k p0 \<longleftrightarrow> (case rm_checkpoint m of None \<Rightarrow> p0 = 0 | Some c \<Rightarrow> rc_GetCheckpoint c k (rc_name c) = Inr p0)"

definition persisted :: "('x, 'k) retention_manager \<Rightarrow> bool \<Rightarrow> nat \<Rightarrow> nat \<Rightarrow> 'k \<Rightarrow> 'k" where
  "persisted m dry p0 fr k = (case rm_checkpoint m of
     None \<Rightarrow> k | Some c \<Rightarrow> if \<not> dry \<and> p0 < fr then fst (rc_SetCheckpoint c k (rc_name c) fr) else k)"

definition scan_cap :: "('x, 'k) retention_manager \<Rightarrow> int" where
  "scan_cap m = (if rm_maxScan m > 0 \<and> rm_checkpoint m = None then 0 else rm_maxScan m)"

definition sweep_start :: "('x, 'k) retention_manager \<Rightarrow> bool \<Rightarrow> retention_report" where
  "sweep_start m dry = (let r0 = policy_errors_loop (rm_policies m) (new_retention_report dry)
     in if rm_maxScan m > 0 \<and> rm_checkpoint m = None
        then r0\<lparr>rr_Errors := rr_Errors r0 @ [ErrRetentionMaxScanNeedsCheckpoint]\<rparr> else r0)"

definition swept :: "('x, 'k) retention_manager \<Rightarrow> time \<Rightarrow> bool \<Rightarrow> nat \<Rightarrow> stored_event list \<Rightarrow> 'x \<Rightarrow> 'x sweep" where
  "swept m now dry p0 es x = fst (foldB (sweep_event (active_policies m) now dry (scan_cap m) p0)
     (filter (\<lambda>e. p0 < se_GlobalPosition e) es)
     \<lparr>sw_ext = x, sw_shred = newShredCandidates, sw_report = sweep_start m dry, sw_frontier = p0, sw_frozen = False\<rparr>)"

text \<open>The counters of the scan.\<close>

definition same_scan :: "retention_report \<Rightarrow> retention_report \<Rightarrow> bool" where
  "same_scan r r' \<longleftrightarrow> rr_Scanned r' = rr_Scanned r \<and> rr_Matched r' = rr_Matched r \<and>
     rr_UnencryptedMatches r' = rr_UnencryptedMatches r \<and> rr_Truncated r' = rr_Truncated r"

lemma policy_errors_loop_eq:
  "policy_errors_loop ps r = r\<lparr>rr_Errors := rr_Errors r @ List.map_filter policy_Validate ps\<rparr>"
  by (induction ps arbitrary: r) (auto simp: map_filter_simps split: option.splits)

lemma sweep_start_keys:
  "rr_KeysToRevoke (sweep_start m dry) = rr_KeysToRevoke (new_retention_report dry)"
  "rr_SharedKeysSkipped (sweep_start m dry) = rr_SharedKeysSkipped (new_retention_report dry)"
  "rr_KeysRevoked (sweep_start m dry) = rr_KeysRevoked (new_retention_report dry)"
  by (simp_all add: sweep_start_def policy_errors_loop_eq Let_def)

lemma settle_loop_scan: "settle_loop fr ms (r, f) = (r', f') \<Longrightarrow> same_scan r r'"
  by (induction fr ms "(r, f)" arbitrary: r f rule: settle_loop.induct)
    (fastforce simp: same_scan_def Let_def split: if_splits)+

section \<open>The revocation\<close>

context key_vault
begin

lemma detect_shared_shred:
  assumes "ok a" and "0 < n" and "length (log a) < fuel"
  shows "\<exists>os. detectSharedShredKeys fuel None ev n a cs ps now = Some (Inr os) \<and>
    dom (map_of os) = key_of ` {se \<in> set (log a). enveloped se \<and> key_of se \<in> set cs \<and> \<not> coveredByShred se ps now}"
proof -
  have "filter (\<lambda>e. 0 < se_GlobalPosition e) (log a) = log a"
    using positive_log [OF assms(1)] by (simp add: filter_id_conv)
  then show ?thesis
    by (simp add: detectSharedShredKeys_def short_scan_log [OF assms] foldB_total fold_tally_keys)
qed

text \<open>The guard always decides, and approves a key only if every event under it is covered.\<close>

lemma guard_decides:
  assumes "ok a" and "0 < rm_batchSize m" and "length (log a) < fuel"
  obtains errs where "guardSharedKeys fuel None ev m a cs ps now r = Some (Inr (r\<lparr>
      rr_KeysToRevoke := sort (rr_KeysToRevoke r @ filter (\<lambda>k. rm_allowSharedKey m \<or>
        (\<forall>se \<in> set (log a). enveloped se \<longrightarrow> key_of se = k \<longrightarrow> coveredByShred se ps now)) cs),
      rr_SharedKeysSkipped := sort (rr_SharedKeysSkipped r @ filter (\<lambda>k. \<not> (rm_allowSharedKey m \<or>
        (\<forall>se \<in> set (log a). enveloped se \<longrightarrow> key_of se = k \<longrightarrow> coveredByShred se ps now))) cs),
      rr_Errors := rr_Errors r @ errs\<rparr>))"
proof -
  obtain os where os: "(if rm_allowSharedKey m then Some (Inr []) else
      detectSharedShredKeys fuel None ev (rm_batchSize m) a cs ps now) = Some (Inr os)"
    "dom (map_of os) = (if rm_allowSharedKey m then {} else
      key_of ` {se \<in> set (log a). enveloped se \<and> key_of se \<in> set cs \<and> \<not> coveredByShred se ps now})"
    using detect_shared_shred [OF assms, of cs ps now] by (cases "rm_allowSharedKey m") auto
  have mem: "k \<notin> dom (map_of os) \<longleftrightarrow> rm_allowSharedKey m \<or>
      (\<forall>se \<in> set (log a). enveloped se \<longrightarrow> key_of se = k \<longrightarrow> coveredByShred se ps now)" if "k \<in> set cs" for k
    using that unfolding os(2) by auto
  have flt: "filter (\<lambda>k. k \<notin> dom (map_of os)) cs = filter (\<lambda>k. rm_allowSharedKey m \<or>
      (\<forall>se \<in> set (log a). enveloped se \<longrightarrow> key_of se = k \<longrightarrow> coveredByShred se ps now)) cs"
    "filter (\<lambda>k. k \<in> dom (map_of os)) cs = filter (\<lambda>k. \<not> (rm_allowSharedKey m \<or>
      (\<forall>se \<in> set (log a). enveloped se \<longrightarrow> key_of se = k \<longrightarrow> coveredByShred se ps now))) cs"
    using mem by (intro filter_cong; blast)+
  from guard_loop_eq [of os cs r] obtain errs where g: "guard_loop os cs r =
      r\<lparr>rr_KeysToRevoke := rr_KeysToRevoke r @ filter (\<lambda>k. k \<notin> dom (map_of os)) cs,
        rr_SharedKeysSkipped := rr_SharedKeysSkipped r @ filter (\<lambda>k. k \<in> dom (map_of os)) cs,
        rr_Errors := rr_Errors r @ errs\<rparr>" by blast
  show thesis
    by (rule that [of errs]) (simp add: guardSharedKeys_def os(1) g flt Let_def)
qed

lemma retention_revoke_loop_run:
  assumes "ok a" and "retention_revoke_loop ev ks a r = (a', r')"
  shows "revoked_run ks a a'"
    and "\<exists>rev errs. r' = r\<lparr>rr_KeysRevoked := rr_KeysRevoked r @ rev, rr_Errors := rr_Errors r @ errs\<rparr> \<and>
      set rev \<subseteq> set ks \<and> (\<forall>k \<in> set rev. ev_RevocationState ev a' k = Inr Revoked)"
proof -
  have "revoked_run ks a a' \<and>
    (\<exists>rev errs. r' = r\<lparr>rr_KeysRevoked := rr_KeysRevoked r @ rev, rr_Errors := rr_Errors r @ errs\<rparr> \<and>
      set rev \<subseteq> set ks \<and> (\<forall>k \<in> set rev. ev_RevocationState ev a' k = Inr Revoked))"
    using assms
  proof (induction ks arbitrary: a r)
    case Nil
    then show ?case by (auto simp: revoked_run_refl intro!: exI [of _ "[]"])
  next
    case (Cons k ks)
    obtain a1 err where st: "ev_RevokeKey ev a k = (a1, err)" by (rule prod.exhaust)
    have ok1: "ok a1" using revoke_store [OF Cons.prems(1) st] by simp
    define r1 where "r1 = (case err of None \<Rightarrow> r\<lparr>rr_KeysRevoked := rr_KeysRevoked r @ [k]\<rparr>
      | Some e \<Rightarrow> r\<lparr>rr_Errors := rr_Errors r @ [Wrap ''revoke key'' e]\<rparr>)"
    have run: "retention_revoke_loop ev ks a1 r1 = (a', r')"
      using Cons.prems(2) st by (simp add: r1_def split: option.splits)
    from Cons.IH [OF ok1 run] obtain rev errs where ih: "revoked_run ks a1 a'"
      "r' = r1\<lparr>rr_KeysRevoked := rr_KeysRevoked r1 @ rev, rr_Errors := rr_Errors r1 @ errs\<rparr>"
      "set rev \<subseteq> set ks" "\<forall>k \<in> set rev. ev_RevocationState ev a' k = Inr Revoked" by blast
    note whole = revoked_run_step [OF Cons.prems(1) st ih(1)]
    show ?case
    proof (cases err)
      case None
      have "ev_RevocationState ev a1 k = Inr Revoked" using revoke_sets [OF Cons.prems(1)] st None by simp
      then have "ev_RevocationState ev a' k = Inr Revoked" using ih(1) by (simp add: revoked_run_def)
      then show ?thesis
        using ih whole None by (auto simp: r1_def intro!: exI [of _ "k # rev"] exI [of _ errs])
    next
      case (Some e)
      then show ?thesis
        using ih whole by (auto simp: r1_def intro!: exI [of _ rev] exI [of _ "Wrap ''revoke key'' e # errs"])
    qed
  qed
  then show "revoked_run ks a a'"
    "\<exists>rev errs. r' = r\<lparr>rr_KeysRevoked := rr_KeysRevoked r @ rev, rr_Errors := rr_Errors r @ errs\<rparr> \<and>
      set rev \<subseteq> set ks \<and> (\<forall>k \<in> set rev. ev_RevocationState ev a' k = Inr Revoked)" by blast+
qed

lemma retention_revoke_run:
  assumes "ok a" and "retention_revoke ev a r = (a', r')" and "rr_KeysRevoked r = []"
  shows "revoked_run (rr_KeysToRevoke r) a a'"
    and "\<exists>rev errs. r' = r\<lparr>rr_KeysRevoked := rev, rr_Errors := rr_Errors r @ errs\<rparr> \<and>
      set rev \<subseteq> set (rr_KeysToRevoke r) \<and> (\<forall>k \<in> set rev. ev_RevocationState ev a' k = Inr Revoked)"
proof -
  obtain a1 r1 where lp: "retention_revoke_loop ev (rr_KeysToRevoke r) a r = (a1, r1)" by (rule prod.exhaust)
  note run = retention_revoke_loop_run [OF assms(1) lp]
  from run(2) obtain rev errs where rev: "r1 = r\<lparr>rr_KeysRevoked := rr_KeysRevoked r @ rev, rr_Errors := rr_Errors r @ errs\<rparr>"
    "set rev \<subseteq> set (rr_KeysToRevoke r)" "\<forall>k \<in> set rev. ev_RevocationState ev a1 k = Inr Revoked" by blast
  have "(a', r') = (if rr_KeysToRevoke r = [] then (a, r)
      else if es_encryption (bs_store (ev_store ev) a) = None then (a, r\<lparr>rr_Errors := rr_Errors r @ [ErrErasureNotConfigured]\<rparr>)
      else (a1, r1\<lparr>rr_KeysRevoked := sort (rr_KeysRevoked r1)\<rparr>))"
    using assms(2) by (simp only: retention_revoke_def lp prod.case length_0_conv)
  then consider "(a', r') = (a, r)" | "(a', r') = (a, r\<lparr>rr_Errors := rr_Errors r @ [ErrErasureNotConfigured]\<rparr>)"
    | "(a', r') = (a1, r1\<lparr>rr_KeysRevoked := sort (rr_KeysRevoked r1)\<rparr>)" by presburger
  then have "revoked_run (rr_KeysToRevoke r) a a' \<and> (\<exists>rev errs. r' = r\<lparr>rr_KeysRevoked := rev, rr_Errors := rr_Errors r @ errs\<rparr> \<and>
      set rev \<subseteq> set (rr_KeysToRevoke r) \<and> (\<forall>k \<in> set rev. ev_RevocationState ev a' k = Inr Revoked))"
  proof cases
    case 1
    then show ?thesis
      using assms(1,3) by (intro conjI exI [of _ "[]"]) (simp_all add: revoked_run_refl)
  next
    case 2
    then show ?thesis
      using assms(1,3)
      by (intro conjI exI [of _ "[]"] exI [of _ "[ErrErasureNotConfigured]"]) (simp_all add: revoked_run_refl)
  next
    case 3
    then show ?thesis
      using run(1) rev assms(3) by (intro conjI exI [of _ "sort rev"] exI [of _ errs]) simp_all
  qed
  then show "revoked_run (rr_KeysToRevoke r) a a'"
    "\<exists>rev errs. r' = r\<lparr>rr_KeysRevoked := rev, rr_Errors := rr_Errors r @ errs\<rparr> \<and>
      set rev \<subseteq> set (rr_KeysToRevoke r) \<and> (\<forall>k \<in> set rev. ev_RevocationState ev a' k = Inr Revoked)" by blast+
qed

text \<open>Everything after the scan, in one equation: which keys are approved, what is revoked, and where
  the sweep resumes next time.\<close>

lemma sweep_finish_outcome:
  assumes "ok a" and "0 < rm_batchSize m" and "length (log a) < fuel"
    and fresh: "same_keys (new_retention_report dry) (sw_report sw)"
    and sh: "dom (map_of (sh_matches (sw_shred sw))) = dom (map_of (sh_frontier (sw_shred sw)))"
  obtains a' r fr where "sweep_finish fuel None ev m now dry p0 (a, k) sw = Some ((a', persisted m dry p0 fr k), Inr r)"
    and "rr_KeysToRevoke r = sort (filter (approved m (log a) now) (shred_keys (sw_shred sw)))"
    and "rr_SharedKeysSkipped r = sort (filter (\<lambda>k. \<not> approved m (log a) now k) (shred_keys (sw_shred sw)))"
    and "same_scan (sw_report sw) r" and "revoked_run (rr_KeysToRevoke r) a a'" and "fr \<le> sw_frontier sw"
    and "dry \<Longrightarrow> a' = a"
    and "\<not> dry \<Longrightarrow> \<forall>key f. map_of (sh_frontier (sw_shred sw)) key = Some f \<longrightarrow>
      ev_RevocationState ev a' key = Inr Revoked \<or> fr \<le> f"
proof -
  let ?sh = "sw_shred sw"
  let ?any = "length (sh_matches ?sh) > 0"
  let ?r0 = "sw_report sw"
  define r1 where "r1 = (if rr_UnencryptedMatches ?r0 > 0
      then ?r0\<lparr>rr_Errors := rr_Errors ?r0 @ [Wrap ''matched events'' ErrRetentionUnencryptedMatches]\<rparr> else ?r0)"
  have r1: "same_scan ?r0 r1" "rr_KeysToRevoke r1 = []" "rr_SharedKeysSkipped r1 = []" "rr_KeysRevoked r1 = []"
    using fresh by (simp_all add: r1_def same_scan_def same_keys_def new_retention_report_def)
  define K where "K = sort (filter (approved m (log a) now) (shred_keys ?sh))"
  define S where "S = sort (filter (\<lambda>k. \<not> approved m (log a) now k) (shred_keys ?sh))"
  obtain r2 where r2: "(if ?any then guardSharedKeys fuel None ev m a (shred_keys ?sh) (active_policies m) now r1
      else Some (Inr r1)) = Some (Inr r2)" "same_scan r1 r2" "rr_KeysToRevoke r2 = K" "rr_SharedKeysSkipped r2 = S"
      "rr_KeysRevoked r2 = []"
  proof (cases ?any)
    case True
    obtain errs where g: "guardSharedKeys fuel None ev m a (shred_keys ?sh) (active_policies m) now r1 = Some (Inr (r1\<lparr>
        rr_KeysToRevoke := sort (rr_KeysToRevoke r1 @ filter (approved m (log a) now) (shred_keys ?sh)),
        rr_SharedKeysSkipped := sort (rr_SharedKeysSkipped r1 @ filter (\<lambda>k. \<not> approved m (log a) now k) (shred_keys ?sh)),
        rr_Errors := rr_Errors r1 @ errs\<rparr>))"
      unfolding approved_def by (rule guard_decides [OF assms(1-3)])
    show thesis
      by (rule that [OF trans [OF if_P g]]) (use True r1 in \<open>simp_all add: K_def S_def same_scan_def\<close>)
  next
    case False
    then show thesis by (intro that [of r1]) (simp_all add: r1 K_def S_def shred_keys_def same_scan_def)
  qed
  obtain a3 r3 where rv: "retention_revoke ev a r2 = (a3, r3)" by (rule prod.exhaust)
  from retention_revoke_run [OF assms(1) rv r2(5)] obtain rev errs where run: "revoked_run K a a3"
    "r3 = r2\<lparr>rr_KeysRevoked := rev, rr_Errors := rr_Errors r2 @ errs\<rparr>" "\<forall>k \<in> set rev. ev_RevocationState ev a3 k = Inr Revoked"
    unfolding r2(3) by blast
  obtain r4 f4 where st: "settle_loop (sh_frontier ?sh) (sh_matches ?sh) (r3, sw_frontier sw) = (r4, f4)" by (rule prod.exhaust)
  define go where "go \<longleftrightarrow> ?any \<and> \<not> dry"
  define a' where "a' = (if go then a3 else a)"
  define r where "r = (if go then r4 else r2)"
  define fr where "fr = (if go then f4 else sw_frontier sw)"
  have step: "(if ?any \<and> \<not> dry then (case retention_revoke ev a r2 of (a', r3) \<Rightarrow>
        (a', settle_loop (sh_frontier ?sh) (sh_matches ?sh) (r3, sw_frontier sw))) else (a, r2, sw_frontier sw)) = (a', r, fr)"
    by (simp add: a'_def r_def fr_def go_def rv st)
  have k: "same_keys r3 r4" "same_scan r3 r4" using settle_loop_fields(1) [OF st] settle_loop_scan [OF st] by blast+
  have fin: "sweep_finish fuel None ev m now dry p0 (a, k) sw = (case rm_checkpoint m of
        None \<Rightarrow> Some ((a', k), Inr r)
      | Some c \<Rightarrow> if \<not> dry \<and> fr > p0
          then (case rc_SetCheckpoint c k (rc_name c) fr of
                  (k', Some err) \<Rightarrow> Some ((a', k'), Inr (r\<lparr>rr_Errors := rr_Errors r @ [Wrap ''mink: retention write checkpoint'' err]\<rparr>))
                | (k', None) \<Rightarrow> Some ((a', k'), Inr r))
          else Some ((a', k), Inr r))"
    unfolding sweep_finish_def Let_def prod.case r1_def [symmetric] r2(1) option.case sum.case step by (rule refl)
  obtain errs' where out: "sweep_finish fuel None ev m now dry p0 (a, k) sw =
      Some ((a', persisted m dry p0 fr k), Inr (r\<lparr>rr_Errors := rr_Errors r @ errs'\<rparr>))"
  proof (cases "\<exists>c k' err. rm_checkpoint m = Some c \<and> \<not> dry \<and> p0 < fr \<and> rc_SetCheckpoint c k (rc_name c) fr = (k', Some err)")
    case True
    then obtain c k' err where "rm_checkpoint m = Some c" "\<not> dry" "p0 < fr" "rc_SetCheckpoint c k (rc_name c) fr = (k', Some err)"
      by blast
    then show thesis by (intro that [of "[Wrap ''mink: retention write checkpoint'' err]"]) (unfold fin persisted_def, simp)
  next
    case False
    show thesis
      by (rule that [of "[]"], unfold fin persisted_def) (use False in \<open>auto split: option.splits prod.splits\<close>)
  qed
  show thesis
  proof (rule that [OF out])
    show "rr_KeysToRevoke (r\<lparr>rr_Errors := rr_Errors r @ errs'\<rparr>) = sort (filter (approved m (log a) now) (shred_keys ?sh))"
      using k(1) r2(3) run(2) by (simp add: r_def same_keys_def K_def)
    then show "revoked_run (rr_KeysToRevoke (r\<lparr>rr_Errors := rr_Errors r @ errs'\<rparr>)) a a'"
      using run(1) assms(1) by (simp add: a'_def K_def revoked_run_refl)
    show "rr_SharedKeysSkipped (r\<lparr>rr_Errors := rr_Errors r @ errs'\<rparr>) = sort (filter (\<lambda>k. \<not> approved m (log a) now k) (shred_keys ?sh))"
      using k(1) r2(4) run(2) by (simp add: r_def same_keys_def S_def)
    show "same_scan ?r0 (r\<lparr>rr_Errors := rr_Errors r @ errs'\<rparr>)"
      using k(2) r1(1) r2(2) run(2) by (simp add: r_def same_scan_def)
    show "fr \<le> sw_frontier sw" using settle_loop_fields(2) [OF st] by (simp add: fr_def)
    show "a' = a" if dry using that by (simp add: a'_def go_def)
    show "\<forall>key f. map_of (sh_frontier ?sh) key = Some f \<longrightarrow> ev_RevocationState ev a' key = Inr Revoked \<or> fr \<le> f" if nd: "\<not> dry"
    proof (intro allI impI)
      fix key f assume f: "map_of (sh_frontier ?sh) key = Some f"
      then have "key \<in> dom (map_of (sh_matches ?sh))" unfolding sh by blast
      then obtain n where n: "(key, n) \<in> set (sh_matches ?sh)" by (meson domD map_of_SomeD)
      then have go: go using nd by (auto simp: go_def)
      show "ev_RevocationState ev a' key = Inr Revoked \<or> fr \<le> f"
      proof (cases "key \<in> set rev")
        case True
        then show ?thesis using run(3) go by (simp add: a'_def)
      next
        case False
        then show ?thesis using settle_loop_fields(3) [OF st n _ f] run(2) go by (simp add: fr_def)
      qed
    qed
  qed
qed

text \<open>The scan of a sweep, evaluated.\<close>

lemma retention_run_swept:
  assumes "ok a" and "0 < rm_batchSize m" and "length (log a) < fuel" and start: "resumes m k p0"
  shows "retention_run fuel None ev m now dry (a, x, k) =
    (case sweep_finish fuel None ev m now dry p0 (a, k) (swept m now dry p0 (log a) x) of
       None \<Rightarrow> None
     | Some ((a', k'), out) \<Rightarrow> Some ((a', sw_ext (swept m now dry p0 (log a) x), k'), out))"
proof -
  have scan: "sweep_scan fuel None ev m now dry (scan_cap m) p0 a
      \<lparr>sw_ext = x, sw_shred = newShredCandidates, sw_report = sweep_start m dry, sw_frontier = p0, sw_frozen = False\<rparr> =
      Some (swept m now dry p0 (log a) x, None)"
    unfolding sweep_scan_def short_scan_log [OF assms(1-3)] swept_def by (rule refl)
  have start': "(case rm_checkpoint m of None \<Rightarrow> Inr 0 | Some c \<Rightarrow> rc_GetCheckpoint c k (rc_name c)) = Inr p0"
    using start by (auto simp: resumes_def split: option.splits)
  show ?thesis
    using scan has_feed unfolding sweep_start_def scan_cap_def
    by (simp only: retention_run_def prod.case Let_def start' sum.case option.case simp_thms if_False)
qed

text \<open>A whole sweep.  It always returns; \<open>p0\<close> is where it started and \<open>fr\<close> where the next one will.\<close>

lemma retention_run_outcome:
  assumes "ok a" and "0 < rm_batchSize m" and "length (log a) < fuel" and start: "resumes m k p0"
  obtains a' x' r fr sw where "retention_run fuel None ev m now dry (a, x, k) = Some ((a', x', persisted m dry p0 fr k), Inr r)"
    and "sw = swept m now dry p0 (log a) x" and "x' = sw_ext sw" and "same_scan (sw_report sw) r"
    and "rr_KeysToRevoke r = sort (filter (approved m (log a) now) (shred_keys (sw_shred sw)))"
    and "rr_SharedKeysSkipped r = sort (filter (\<lambda>k. \<not> approved m (log a) now k) (shred_keys (sw_shred sw)))"
    and "revoked_run (rr_KeysToRevoke r) a a'" and "dry \<Longrightarrow> a' = a"
    and "p0 < fr \<Longrightarrow> \<exists>e \<in> set (log a). fr \<le> se_GlobalPosition e"
    and "\<not> dry \<Longrightarrow> \<forall>e \<in> set (log a). p0 < se_GlobalPosition e \<and> se_GlobalPosition e \<le> fr \<longrightarrow>
      \<not> pending_on (active_policies m) now e \<and>
      (shreds (active_policies m) now e \<longrightarrow> ev_RevocationState ev a' (key_of e) = Inr Revoked)"
proof -
  let ?es = "filter (\<lambda>e. p0 < se_GlobalPosition e) (log a)"
  define sw where "sw = swept m now dry p0 (log a) x"
  have srt: "sorted_wrt (<) (map se_GlobalPosition ?es)"
    using ascending_log [OF assms(1)] by (simp add: sorted_wrt_map sorted_wrt_filter)
  note inv = sweep_scan_inv [OF srt _ sw_def [unfolded swept_def]]
  have keys: "same_keys (new_retention_report dry) (sw_report sw)"
    using inv(1) by (simp add: same_keys_def sweep_start_keys)
  obtain a' r fr where fin: "sweep_finish fuel None ev m now dry p0 (a, k) sw = Some ((a', persisted m dry p0 fr k), Inr r)"
    "rr_KeysToRevoke r = sort (filter (approved m (log a) now) (shred_keys (sw_shred sw)))"
    "rr_SharedKeysSkipped r = sort (filter (\<lambda>k. \<not> approved m (log a) now k) (shred_keys (sw_shred sw)))"
    "same_scan (sw_report sw) r" "revoked_run (rr_KeysToRevoke r) a a'" "fr \<le> sw_frontier sw" "dry \<Longrightarrow> a' = a"
    "\<not> dry \<Longrightarrow> \<forall>key f. map_of (sh_frontier (sw_shred sw)) key = Some f \<longrightarrow> ev_RevocationState ev a' key = Inr Revoked \<or> fr \<le> f"
    by (rule sweep_finish_outcome [OF assms(1-3) keys inv(2), where now = now and k = k and ?p0.0 = p0]) auto
  have run: "retention_run fuel None ev m now dry (a, x, k) = Some ((a', sw_ext sw, persisted m dry p0 fr k), Inr r)"
    unfolding retention_run_swept [OF assms] sw_def [symmetric] fin(1) by simp
  show thesis
  proof (rule that [OF run sw_def refl fin(4,2,3,5)])
    show "a' = a" if dry using that fin(7) by blast
    show "\<exists>e \<in> set (log a). fr \<le> se_GlobalPosition e" if "p0 < fr"
    proof (rule ccontr)
      assume "\<not> ?thesis"
      then have "\<forall>e \<in> set ?es. se_GlobalPosition e < fr" by auto
      then show False using inv(4) [of fr] that fin(6) by simp
    qed
    show "\<forall>e \<in> set (log a). p0 < se_GlobalPosition e \<and> se_GlobalPosition e \<le> fr \<longrightarrow>
      \<not> pending_on (active_policies m) now e \<and>
      (shreds (active_policies m) now e \<longrightarrow> ev_RevocationState ev a' (key_of e) = Inr Revoked)" if "\<not> dry"
    proof (intro ballI impI)
      fix e assume e: "e \<in> set (log a)" "p0 < se_GlobalPosition e \<and> se_GlobalPosition e \<le> fr"
      then have "\<not> pending_on (active_policies m) now e \<and> (shreds (active_policies m) now e \<longrightarrow>
          (\<exists>f. map_of (sh_frontier (sw_shred sw)) (key_of e) = Some f \<and> f < se_GlobalPosition e))"
        using inv(3) fin(6) by auto
      then show "\<not> pending_on (active_policies m) now e \<and>
          (shreds (active_policies m) now e \<longrightarrow> ev_RevocationState ev a' (key_of e) = Inr Revoked)"
        using fin(8) [OF that] e(2) by fastforce
    qed
  qed
qed

end

end
