(* ===== verification/Retention_Properties.thy ===== *)
theory Retention_Properties
  imports Retention_Laws
begin

text \<open>
  What a retention sweep guarantees on the in-memory event store, key provider and checkpoint store:
  it shreds no event outside its policies, never resumes past unfinished work of a Shred policy,
  and a dry run previews exactly what the sweep would do.
\<close>

section \<open>A dry run and a sweep see the same\<close>

definition same_preview :: "'x sweep \<Rightarrow> 'x sweep \<Rightarrow> bool" where
  "same_preview s t \<longleftrightarrow> sw_shred t = sw_shred s \<and> sw_frontier t = sw_frontier s \<and> sw_frozen t = sw_frozen s \<and>
     same_scan (sw_report s) (sw_report t)"

lemma act_preview:
  "same_preview s t \<Longrightarrow> same_preview (act p se f True s) (act p se f False t)"
  by (auto simp: act_def same_preview_def same_scan_def Let_def split: RetentionAction.split option.split prod.split)

lemma act_dry_ext: "sw_ext (act p se f True sw) = sw_ext sw"
  by (auto simp: act_def Let_def split: RetentionAction.split)

lemma policy_loop_dry_ext: "sw_ext (fst (policy_loop now True se ps (sw, pd))) = sw_ext sw"
  by (induction ps arbitrary: sw pd) (simp_all add: act_dry_ext)

lemma policy_loop_preview:
  "same_preview s t \<Longrightarrow>
   same_preview (fst (policy_loop now True se ps (s, pd))) (fst (policy_loop now False se ps (t, pd))) \<and>
   snd (policy_loop now True se ps (s, pd)) = snd (policy_loop now False se ps (t, pd))"
proof (induction ps arbitrary: s t pd)
  case (Cons p ps)
  let ?m = "\<lambda>sw::'a sweep. sw\<lparr>sw_report := (sw_report sw)\<lparr>rr_Matched := rr_Matched (sw_report sw) + 1\<rparr>\<rparr>"
  have "same_preview (?m s) (?m t)" using Cons.prems by (simp add: same_preview_def same_scan_def)
  then have "same_preview (act p se (sw_frontier s) True (?m s)) (act p se (sw_frontier t) False (?m t))"
    using act_preview [of "?m s" "?m t" p se "sw_frontier s"] Cons.prems by (simp only: same_preview_def)
  then show ?case using Cons.IH Cons.prems by simp
qed simp

lemma sweep_event_preview:
  assumes "same_preview s t"
  shows "same_preview (fst (sweep_event ps now True mx sp se s)) (fst (sweep_event ps now False mx sp se t)) \<and>
    snd (sweep_event ps now True mx sp se s) = snd (sweep_event ps now False mx sp se t)"
proof -
  let ?m = "\<lambda>sw::'a sweep. sw\<lparr>sw_report := (sw_report sw)\<lparr>rr_Scanned := rr_Scanned (sw_report sw) + 1\<rparr>\<rparr>"
  have "same_preview (?m s) (?m t)" using assms by (simp add: same_preview_def same_scan_def)
  from policy_loop_preview [OF this, of now se ps False]
  show ?thesis
    by (cases "policy_loop now True se ps (?m s, False)"; cases "policy_loop now False se ps (?m t, False)")
      (simp add: sweep_event_def same_preview_def same_scan_def Let_def)
qed

lemma foldB_related:
  assumes "\<And>e s t. R s t \<Longrightarrow> R (fst (f e s)) (fst (g e t)) \<and> snd (f e s) = snd (g e t)" and "R s t"
  shows "R (fst (foldB f es s)) (fst (foldB g es t))"
  using assms(2)
proof (induction es arbitrary: s t)
  case (Cons e es)
  from assms(1) [OF Cons.prems, of e] Cons.IH show ?case
    by (cases "f e s"; cases "g e t") (auto split: bool.splits)
qed simp

lemma swept_preview: "same_preview (swept m now True p0 es x) (swept m now False p0 es y)"
  unfolding swept_def
proof (rule foldB_related [where R = same_preview])
  show "same_preview s t \<Longrightarrow> same_preview (fst (sweep_event (active_policies m) now True (scan_cap m) p0 e s))
      (fst (sweep_event (active_policies m) now False (scan_cap m) p0 e t)) \<and>
    snd (sweep_event (active_policies m) now True (scan_cap m) p0 e s) =
    snd (sweep_event (active_policies m) now False (scan_cap m) p0 e t)" for e and s t :: "'a sweep"
    by (rule sweep_event_preview)
qed (simp add: same_preview_def same_scan_def sweep_start_def policy_errors_loop_eq new_retention_report_def Let_def)

lemma swept_dry_ext: "sw_ext (swept m now True p0 es x) = x"
proof -
  have "sw_ext (fst (sweep_event ps now True mx sp se s)) = sw_ext s" for ps mx sp se and s :: "'a sweep"
    using policy_loop_dry_ext [of now se ps "s\<lparr>sw_report := (sw_report s)\<lparr>rr_Scanned := rr_Scanned (sw_report s) + 1\<rparr>\<rparr>" False]
    by (cases "policy_loop now True se ps (s\<lparr>sw_report := (sw_report s)\<lparr>rr_Scanned := rr_Scanned (sw_report s) + 1\<rparr>\<rparr>, False)")
      (simp add: sweep_event_def Let_def)
  then have "swept m now True p0 es x = swept m now True p0 es x \<and> sw_ext (swept m now True p0 es x) = x"
    unfolding swept_def by (intro foldB_related [where R = "\<lambda>s t. s = t \<and> sw_ext s = x"]) auto
  then show ?thesis by blast
qed

section \<open>The in-memory checkpoint\<close>

definition mem_retention_checkpoint :: "string \<Rightarrow> memory_adapter retention_checkpoint" where
  "mem_retention_checkpoint name = \<lparr>rc_name = name, rc_GetCheckpoint = GetCheckpoint None, rc_SetCheckpoint = SetCheckpoint None\<rparr>"

lemma checkpoint_after_set:
  "\<not> ma_closed k \<Longrightarrow> GetCheckpoint None (fst (SetCheckpoint None k name p)) name = Inr p"
  "ma_closed (fst (SetCheckpoint None k name p)) = ma_closed k"
  by (simp_all add: GetCheckpoint_def SetCheckpoint_def guarded_def update_conv')

lemma unread_checkpoint:
  assumes "rm_checkpoint m = Some c" and "rc_GetCheckpoint c k (rc_name c) = Inl err" and "bs_sub (ev_store ev) \<noteq> None"
  shows "retention_run fuel ctx ev m now dry (a, x, k) = Some ((a, x, k), Inl (Wrap ''mink: retention read checkpoint'' err))"
  using assms by (simp add: retention_run_def Let_def)

section \<open>Reachable states\<close>

text \<open>The states of a store, its keys and a checkpoint under any interleaving of appends, revocations
  and sweeps of one manager, on a clock that does not run backwards.\<close>

inductive retention_step ::
  "('x, memory_adapter) retention_manager \<Rightarrow> 'd event_store \<Rightarrow> time \<times> gdpr_world \<times> 'x \<times> memory_adapter \<Rightarrow>
   time \<times> gdpr_world \<times> 'x \<times> memory_adapter \<Rightarrow> bool" for m s where
  retain_append: "t \<le> t' \<Longrightarrow> ao_Append (world_ops uuid t') w sid rs v = (w', out) \<Longrightarrow>
    retention_step m s (t, w, x, k) (t', w', x, k)"
| retain_revoke: "t \<le> t' \<Longrightarrow> RevokeKey (gw_keys w) key = (p, err) \<Longrightarrow>
    retention_step m s (t, w, x, k) (t', w\<lparr>gw_keys := p\<rparr>, x, k)"
| retain_sweep: "t \<le> t' \<Longrightarrow> length (world_log w) < fuel \<Longrightarrow>
    retention_run fuel None (mem_env g uuid t' gl s mk um en) m t' dry (w, x, k) = Some ((w', x', k'), out) \<Longrightarrow>
    retention_step m s (t, w, x, k) (t', w', x', k')"

inductive_cases retention_stepE: "retention_step m s st st'"

definition checkpoint_settled :: "('x, memory_adapter) retention_manager \<Rightarrow> string \<Rightarrow> time \<times> gdpr_world \<times> 'x \<times> memory_adapter \<Rightarrow> bool" where
  "checkpoint_settled m name st \<longleftrightarrow> (case st of (t, w, x, k) \<Rightarrow>
     world_ok w \<and>
     (let p = (case map_of (ma_checkpoints k) name of None \<Rightarrow> 0 | Some p \<Rightarrow> p)
      in (p = 0 \<or> (\<exists>e \<in> set (world_log w). p \<le> se_GlobalPosition e)) \<and>
         (\<forall>e \<in> set (world_log w). se_GlobalPosition e \<le> p \<longrightarrow>
            \<not> pending_on (active_policies m) t e \<and>
            (shreds (active_policies m) t e \<longrightarrow> snd (RevocationState_of t (gw_keys w) (key_of e)) = Inr Revoked))))"

lemma ageEligible_mono: "t \<le> t' \<Longrightarrow> ageEligible p e t \<Longrightarrow> ageEligible p e t'"
  by (auto simp: ageEligible_def)

lemma not_pending_mono:
  assumes "\<not> pending_on ps t e" and "t \<le> t'"
  shows "\<not> pending_on ps t' e" and "shreds ps t' e \<longleftrightarrow> shreds ps t e"
proof -
  have "ageEligible p e t" "ageEligible p e t'" if "p \<in> set ps" "matchesStatic p e" for p
    using assms that ageEligible_mono [of t t' p e] by (auto simp: pending_on_def)
  then show "\<not> pending_on ps t' e" "shreds ps t' e \<longleftrightarrow> shreds ps t e"
    by (auto simp: pending_on_def shreds_def coveredByShred_def list_ex_iff)
qed

lemma revoked_stays:
  assumes "snd (RevocationState_of t p key) = Inr Revoked" and "t \<le> t'"
  shows "snd (RevocationState_of t' p key) = Inr Revoked"
  using assms by (auto simp: RevocationState_of_def stateLocked_def promoteIfExpiredLocked_def Let_def split: if_splits option.splits)

abbreviation resume_point :: "memory_adapter \<Rightarrow> string \<Rightarrow> nat" where
  "resume_point k name \<equiv> case map_of (ma_checkpoints k) name of None \<Rightarrow> 0 | Some p \<Rightarrow> p"

lemma settled_frame:
  assumes "checkpoint_settled m name (t, w, x, k)" and "t \<le> t'" and "world_ok w'" and new: "world_log w' = world_log w @ new"
    and keys: "\<And>key. snd (RevocationState_of t' (gw_keys w) key) = Inr Revoked \<Longrightarrow> snd (RevocationState_of t' (gw_keys w') key) = Inr Revoked"
  shows "checkpoint_settled m name (t', w', x', k)"
proof -
  let ?p = "resume_point k name"
  have old: "world_ok w" "?p = 0 \<or> (\<exists>e \<in> set (world_log w). ?p \<le> se_GlobalPosition e)"
    "\<And>e. e \<in> set (world_log w) \<Longrightarrow> se_GlobalPosition e \<le> ?p \<Longrightarrow> \<not> pending_on (active_policies m) t e \<and>
      (shreds (active_policies m) t e \<longrightarrow> snd (RevocationState_of t (gw_keys w) (key_of e)) = Inr Revoked)"
    using assms(1) unfolding checkpoint_settled_def Let_def prod.case by blast+
  have fresh: "?p < se_GlobalPosition e" if "e \<in> set new" for e
  proof (cases "?p = 0")
    case True
    then show ?thesis using mem_scan.positive_log [OF assms(3), of e] that by (simp add: new)
  next
    case False
    with old(2) obtain e0 where "e0 \<in> set (world_log w)" "?p \<le> se_GlobalPosition e0" by metis
    then show ?thesis using that mem_scan.ascending_log [OF assms(3)] by (fastforce simp: new sorted_wrt_append)
  qed
  show ?thesis
    unfolding checkpoint_settled_def Let_def prod.case
  proof (intro conjI ballI impI)
    show "world_ok w'" by (rule assms(3))
    show "?p = 0 \<or> (\<exists>e \<in> set (world_log w'). ?p \<le> se_GlobalPosition e)" using old(2) by (auto simp: new)
    fix e assume e: "e \<in> set (world_log w')" "se_GlobalPosition e \<le> ?p"
    then have "e \<in> set (world_log w)" using fresh [of e] by (auto simp: new)
    note at_t = old(3) [OF this e(2)]
    show "\<not> pending_on (active_policies m) t' e" using at_t assms(2) not_pending_mono(1) by blast
    assume "shreds (active_policies m) t' e"
    then show "snd (RevocationState_of t' (gw_keys w') (key_of e)) = Inr Revoked"
      using at_t assms(2) not_pending_mono(2) revoked_stays keys by blast
  qed
qed

lemma settled_sweep:
  assumes "checkpoint_settled m name (t, w, x, k)" and "t \<le> t'" and "rm_checkpoint m = Some (mem_retention_checkpoint name)"
    and "0 < rm_batchSize m" and "length (world_log w) < fuel"
    and run: "retention_run fuel None (mem_env g uuid t' gl s mk um en) m t' dry (w, x, k) = Some ((w', x', k'), out)"
  shows "checkpoint_settled m name (t', w', x', k')"
proof (cases "ma_closed k")
  case True
  have "retention_run fuel None (mem_env g uuid t' gl s mk um en) m t' dry (w, x, k) =
      Some ((w, x, k), Inl (Wrap ''mink: retention read checkpoint'' ErrAdapterClosed))"
    by (rule unread_checkpoint [OF assms(3)])
      (simp_all add: mem_retention_checkpoint_def GetCheckpoint_def guarded_def True mem_scan.has_feed)
  then have "(w', x', k') = (w, x, k)" using run by simp
  moreover have "world_ok w" using assms(1) by (simp add: checkpoint_settled_def)
  ultimately show ?thesis using settled_frame [OF assms(1,2), of w "[]"] by simp
next
  case False
  let ?p = "resume_point k name"
  have ok: "world_ok w" using assms(1) by (simp add: checkpoint_settled_def)
  have start: "resumes m k ?p"
    using False by (simp add: resumes_def assms(3) mem_retention_checkpoint_def GetCheckpoint_def guarded_def)
  obtain w1 x1 r fr sw where out: "retention_run fuel None (mem_env g uuid t' gl s mk um en) m t' dry (w, x, k) =
      Some ((w1, x1, persisted m dry ?p fr k), Inr r)"
    and rv: "key_vault.revoked_run (mem_env g uuid t' gl s mk um en) world_ok world_log (rr_KeysToRevoke r) w w1"
    and fr: "?p < fr \<Longrightarrow> \<exists>e \<in> set (world_log w). fr \<le> se_GlobalPosition e"
      "\<not> dry \<Longrightarrow> \<forall>e \<in> set (world_log w). ?p < se_GlobalPosition e \<and> se_GlobalPosition e \<le> fr \<longrightarrow>
        \<not> pending_on (active_policies m) t' e \<and> (shreds (active_policies m) t' e \<longrightarrow>
          ev_RevocationState (mem_env g uuid t' gl s mk um en) w1 (key_of e) = Inr Revoked)"
    by (rule mem_vault.retention_run_outcome [OF ok assms(4,5) start, where g = g and uuid = uuid and nowa = t' and gl = gl
        and s = s and mk = mk and um = um and en = en and now = t' and dry = dry and x = x]) blast
  have w': "w' = w1" "k' = persisted m dry ?p fr k" using run out by auto
  have rv': "world_ok w1" "world_log w1 = world_log w"
    "\<And>key. snd (RevocationState_of t' (gw_keys w) key) = Inr Revoked \<Longrightarrow> snd (RevocationState_of t' (gw_keys w1) key) = Inr Revoked"
    using rv unfolding mem_vault.revoked_run_def by simp_all
  have kept: "checkpoint_settled m name (t', w1, x', k)"
    by (rule settled_frame [OF assms(1,2) rv'(1) _ rv'(3), of "[]"]) (simp_all add: rv'(2))
  show ?thesis
  proof (cases "\<not> dry \<and> ?p < fr")
    case True
    then have "resume_point k' name = fr"
      using False by (simp add: w' persisted_def assms(3) mem_retention_checkpoint_def SetCheckpoint_def update_conv')
    then show ?thesis
      using kept fr True unfolding checkpoint_settled_def Let_def prod.case w'(1)
      by (auto simp: rv'(2) not_le [symmetric])
  next
    case False
    then have "k' = k" by (auto simp: w' persisted_def assms(3))
    then show ?thesis using kept by (simp add: w')
  qed
qed

lemma settled_step:
  assumes "retention_step m s st st'" and "rm_checkpoint m = Some (mem_retention_checkpoint name)" and "0 < rm_batchSize m"
    and "checkpoint_settled m name st"
  shows "checkpoint_settled m name st'"
  using assms(1)
proof (cases rule: retention_step.cases)
  case (retain_append t t' uuid w sid rs v w' out x k)
  have "world_ok w" using assms(4) by (simp add: retain_append checkpoint_settled_def)
  note ap = world_append [OF this retain_append(4)]
  obtain new where new: "world_log w' = world_log w @ new" using ap(2) by blast
  show ?thesis
    unfolding retain_append(2)
    by (rule settled_frame [OF assms(4) [unfolded retain_append(1)] retain_append(3) ap(1) new]) (simp add: ap(3))
next
  case (retain_revoke t t' w key p err x k)
  have "world_ok w" using assms(4) by (simp add: retain_revoke checkpoint_settled_def)
  then have "world_ok (w\<lparr>gw_keys := p\<rparr>)" "world_log (w\<lparr>gw_keys := p\<rparr>) = world_log w @ []"
    by (simp_all add: world_ok_def world_log_def)
  then show ?thesis
    unfolding retain_revoke(2)
    by (rule settled_frame [OF assms(4) [unfolded retain_revoke(1)] retain_revoke(3)])
      (use RevokeKey_effect(5) [OF retain_revoke(4)] in simp)
next
  case (retain_sweep t t' w fuel g uuid gl mk um en dry x k w' x' k' out)
  from settled_sweep [OF assms(4) [unfolded retain_sweep(1)] retain_sweep(3) assms(2,3) retain_sweep(4,5)]
  show ?thesis unfolding retain_sweep(2) .
qed

section \<open>Hooks that fail\<close>

text \<open>The part of a sweep of failing redaction or anonymization hooks: nothing is collected, nothing
  is acted on, and the frontier still moves with every event.\<close>

definition hooks_fail :: "'x retention_policy list \<Rightarrow> bool" where
  "hooks_fail ps \<longleftrightarrow> (\<forall>p \<in> set ps. (rp_Action p = ActionRedactFields \<or> rp_Action p = ActionAnonymize) \<and>
     (\<exists>h. rp_Apply p = Some h \<and> (\<forall>x e. \<exists>x' err. h x e = (x', Some err))))"

lemma failing_act:
  assumes "hooks_fail [p]"
  obtains x' err where "act p se f False sw = sw\<lparr>sw_ext := x',
    sw_report := (sw_report sw)\<lparr>rr_Errors := rr_Errors (sw_report sw) @ [err]\<rparr>\<rparr>"
proof -
  obtain h where h: "rp_Apply p = Some h" "\<forall>x e. \<exists>x' err. h x e = (x', Some err)" using assms by (auto simp: hooks_fail_def)
  then obtain x' err where "h (sw_ext sw) se = (x', Some err)" by blast
  then show thesis using assms h(1) by (intro that [of "Wrap ''policy apply'' err" x']) (auto simp: act_def hooks_fail_def Let_def)
qed

definition same_but_errors :: "'x sweep \<Rightarrow> 'x sweep \<Rightarrow> bool" where
  "same_but_errors sw sw' \<longleftrightarrow> sw_shred sw' = sw_shred sw \<and> sw_frontier sw' = sw_frontier sw \<and> sw_frozen sw' = sw_frozen sw \<and>
     rr_Acted (sw_report sw') = rr_Acted (sw_report sw) \<and> rr_UnencryptedMatches (sw_report sw') = rr_UnencryptedMatches (sw_report sw) \<and>
     (rr_Errors (sw_report sw) \<noteq> [] \<longrightarrow> rr_Errors (sw_report sw') \<noteq> [])"

lemma failing_policies:
  assumes "hooks_fail ps" and "\<not> pending_on ps now se" and "policy_loop now False se ps (sw, pd) = (sw', pd')"
  shows "pd' = pd \<and> same_but_errors sw sw' \<and> ((\<exists>p \<in> set ps. matchesStatic p se) \<longrightarrow> rr_Errors (sw_report sw') \<noteq> [])"
  using assms
proof (induction ps arbitrary: sw)
  case Nil
  then show ?case by (simp add: same_but_errors_def)
next
  case (Cons p ps)
  have rest: "hooks_fail ps" "\<not> pending_on ps now se" "hooks_fail [p]"
    using Cons.prems(1,2) by (auto simp: hooks_fail_def pending_on_def)
  show ?case
  proof (cases "matchesStatic p se")
    case True
    then have age: "ageEligible p se now" using Cons.prems(2) by (auto simp: pending_on_def)
    let ?sw = "sw\<lparr>sw_report := (sw_report sw)\<lparr>rr_Matched := rr_Matched (sw_report sw) + 1\<rparr>\<rparr>"
    obtain x' err where a: "act p se (sw_frontier sw) False ?sw = ?sw\<lparr>sw_ext := x',
        sw_report := (sw_report ?sw)\<lparr>rr_Errors := rr_Errors (sw_report ?sw) @ [err]\<rparr>\<rparr>" by (rule failing_act [OF rest(3)])
    have "policy_loop now False se ps (act p se (sw_frontier sw) False ?sw, pd) = (sw', pd')"
      using Cons.prems(3) True age by simp
    from Cons.IH [OF rest(1,2) this] show ?thesis by (auto simp: a same_but_errors_def)
  next
    case False
    then show ?thesis using Cons.IH [OF rest(1,2)] Cons.prems(3) by simp
  qed
qed

lemma failing_sweep:
  assumes "hooks_fail ps" and "\<forall>e \<in> set es. \<not> pending_on ps now e" and "mx \<le> 0"
    and "sw0 = \<lparr>sw_ext = x, sw_shred = newShredCandidates, sw_report = new_retention_report False, sw_frontier = p0, sw_frozen = False\<rparr>"
  shows "\<exists>sw. foldB (sweep_event ps now False mx sp) es sw0 = (sw, False) \<and> sw_shred sw = newShredCandidates \<and>
    sw_frontier sw = (if es = [] then p0 else se_GlobalPosition (last es)) \<and> rr_Acted (sw_report sw) = 0 \<and>
    rr_UnencryptedMatches (sw_report sw) = 0 \<and> \<not> sw_frozen sw \<and>
    ((\<exists>e \<in> set es. \<exists>p \<in> set ps. matchesStatic p e) \<longrightarrow> rr_Errors (sw_report sw) \<noteq> [])"
  using assms(2)
proof (induction es rule: rev_induct)
  case Nil
  then show ?case by (simp add: assms(4) new_retention_report_def)
next
  case (snoc e es)
  then obtain sw where sw: "foldB (sweep_event ps now False mx sp) es sw0 = (sw, False)" "sw_shred sw = newShredCandidates"
    "rr_Acted (sw_report sw) = 0" "rr_UnencryptedMatches (sw_report sw) = 0" "\<not> sw_frozen sw"
    "(\<exists>e \<in> set es. \<exists>p \<in> set ps. matchesStatic p e) \<longrightarrow> rr_Errors (sw_report sw) \<noteq> []"
    by auto
  let ?sw1 = "sw\<lparr>sw_report := (sw_report sw)\<lparr>rr_Scanned := rr_Scanned (sw_report sw) + 1\<rparr>\<rparr>"
  obtain sw2 pd where lp: "policy_loop now False e ps (?sw1, False) = (sw2, pd)" by (rule prod.exhaust)
  have "\<not> pending_on ps now e" using snoc.prems by simp
  note st = failing_policies [OF assms(1) this lp]
  have "sweep_event ps now False mx sp e sw = (sw2\<lparr>sw_frontier := se_GlobalPosition e\<rparr>, False)"
    using lp st sw(5) assms(3) by (simp add: sweep_event_def same_but_errors_def Let_def)
  then show ?case using sw st by (auto simp: foldB_append same_but_errors_def)
qed

lemma valid_start:
  assumes "\<forall>p \<in> set (rm_policies m). policy_Validate p = None" and "rm_checkpoint m \<noteq> None"
  shows "sweep_start m dry = new_retention_report dry" and "active_policies m = rm_policies m"
proof -
  have "List.map_filter policy_Validate (rm_policies m) = []"
    using assms(1) by (induction "rm_policies m") (auto simp: map_filter_def)
  then show "sweep_start m dry = new_retention_report dry"
    using assms(2) by (simp add: sweep_start_def policy_errors_loop_eq Let_def)
  show "active_policies m = rm_policies m"
    using assms(1) by (auto simp: active_policies_def policy_Validate_def filter_id_conv split: if_splits)
qed

lemma uneventful_finish:
  assumes "sw_shred sw = newShredCandidates" and "rr_UnencryptedMatches (sw_report sw) = 0"
    and "rm_checkpoint m = Some (mem_retention_checkpoint name)" and "\<not> ma_closed k"
  shows "sweep_finish fuel ctx ev m now False p0 (a, k) sw =
    Some ((a, if p0 < sw_frontier sw then fst (SetCheckpoint None k name (sw_frontier sw)) else k), Inr (sw_report sw))"
  using assms by (simp add: sweep_finish_def newShredCandidates_def mem_retention_checkpoint_def SetCheckpoint_def Let_def)

section \<open>A sweep over the demonstration store\<close>

definition order_policy :: "RetentionAction \<Rightarrow> (unit \<Rightarrow> stored_event \<Rightarrow> unit \<times> error option) option \<Rightarrow> unit retention_policy" where
  "order_policy ac h = \<lparr>rp_Name = ''orders'', rp_Category = ''Order'', rp_StreamPrefix = [], rp_EventTypes = [], rp_TenantID = [],
     rp_MaxAge = 1, rp_Action = ac, rp_Fields = [], rp_Apply = h\<rparr>"

definition order_keeper :: "(unit, memory_adapter) retention_manager" where
  "order_keeper = NewRetentionManager [order_policy ActionShred None]
     [WithRetentionCheckpoint (Some (GetCheckpoint None, SetCheckpoint None)) ''retention'']"

definition failing_keeper :: "(unit, memory_adapter) retention_manager" where
  "failing_keeper = NewRetentionManager [order_policy ActionRedactFields (Some (\<lambda>x e. (x, Some (Errorf ''redact''))))]
     [WithRetentionCheckpoint (Some (GetCheckpoint None, SetCheckpoint None)) ''retention'']"

lemma keeper_fields [simp]:
  "rm_policies order_keeper = [order_policy ActionShred None]" "rm_batchSize order_keeper = 1000"
  "rm_checkpoint order_keeper = Some (mem_retention_checkpoint ''retention'')" "rm_maxScan order_keeper = 0"
  "\<not> rm_allowSharedKey order_keeper"
  "rm_policies failing_keeper = [order_policy ActionRedactFields (Some (\<lambda>x e. (x, Some (Errorf ''redact''))))]"
  "rm_batchSize failing_keeper = 1000" "rm_checkpoint failing_keeper = Some (mem_retention_checkpoint ''retention'')"
  "rm_maxScan failing_keeper = 0"
  by (simp_all add: order_keeper_def failing_keeper_def NewRetentionManager_def WithRetentionCheckpoint_def mem_retention_checkpoint_def)

text \<open>The first and the third event share a key across two streams.\<close>

definition billing_vault :: gdpr_world where
  "billing_vault = \<lparr>gw_adapter = fst (Append None demo_uuid 7 (fst (Append None demo_uuid 7 NewAdapter ''Order-1''
       [sealed_event ''u1'' ''k1'', sealed_event ''u2'' ''k2''] 0)) ''Invoice-1'' [sealed_event ''u2'' ''k1''] 0),
     gw_keys = vault_keys\<rparr>"

lemma billing_ok: "world_ok billing_vault"
proof -
  have "mem_inv (gw_adapter billing_vault)" by (simp add: billing_vault_def Append_inv NewAdapter_inv)
  moreover have "\<not> ma_closed (gw_adapter billing_vault)" by code_simp
  ultimately show ?thesis by (simp add: world_ok_def)
qed

section \<open>Properties\<close>

text \<open>C23: a retention sweep shreds nothing outside its policies.  Unless shared-key revocation was
  explicitly allowed, a key that protects even one event which no Shred policy of the manager covers
  at sweep time - its matchers do not fit, or it is too young - keeps its revocation state, wherever in
  the store that event lies and however far the sweep's checkpoint has advanced.\<close>

theorem retention_spares_uncovered:
  assumes "world_ok w" and "0 < rm_batchSize m" and "length (world_log w) < fuel" and "\<not> rm_allowSharedKey m"
    and "retention_run fuel None (mem_env g uuid now gl s mk um en) m t dry (w, x, k) = Some ((w', x', k'), out)"
    and "se \<in> set (world_log w)" and "enveloped se" and "\<not> coveredByShred se (active_policies m) t"
  shows "snd (RevocationState_of now (gw_keys w') (key_of se)) = snd (RevocationState_of now (gw_keys w) (key_of se))"
proof (cases "\<exists>p0. resumes m k p0")
  case True
  then obtain p0 where p0: "resumes m k p0" by blast
  obtain w1 x1 r fr where out: "retention_run fuel None (mem_env g uuid now gl s mk um en) m t dry (w, x, k) =
      Some ((w1, x1, persisted m dry p0 fr k), Inr r)"
    and rv: "key_vault.revoked_run (mem_env g uuid now gl s mk um en) world_ok world_log (rr_KeysToRevoke r) w w1"
    and keys: "set (rr_KeysToRevoke r) \<subseteq> {key. approved m (world_log w) t key}"
    by (rule mem_vault.retention_run_outcome [OF assms(1-3) p0, where g = g and uuid = uuid and nowa = now and gl = gl
        and s = s and mk = mk and um = um and en = en and now = t and dry = dry and x = x]) auto
  have "key_of se \<notin> set (rr_KeysToRevoke r)" using keys assms(4,6-8) by (auto simp: approved_def)
  then show ?thesis using out assms(5) rv unfolding mem_vault.revoked_run_def by simp
next
  case False
  then obtain c where c: "rm_checkpoint m = Some c" by (cases "rm_checkpoint m") (auto simp: resumes_def)
  obtain err where "rc_GetCheckpoint c k (rc_name c) = Inl err"
    using False c by (cases "rc_GetCheckpoint c k (rc_name c)") (auto simp: resumes_def)
  moreover have "bs_sub (ev_store (mem_env g uuid now gl s mk um en)) \<noteq> None" unfolding mem_env_simps by (rule mem_scan.has_feed)
  ultimately have "Some ((w', x', k'), out) = Some ((w, x, k), Inl (Wrap ''mink: retention read checkpoint'' err))"
    unfolding assms(5) [symmetric] by (rule unread_checkpoint [OF c])
  then show ?thesis by simp
qed

theorem retention_spares_uncovered_witness:
  "\<exists>w' x' k' out. retention_run 4 None vault_env order_keeper 9 False (billing_vault, (), NewAdapter) = Some ((w', x', k'), out) \<and>
     snd (RevocationState_of 7 (gw_keys w') ''k1'') = Inr NotRevoked \<and> snd (RevocationState_of 7 (gw_keys w') ''k2'') = Inr Revoked"
proof -
  have "case retention_run 4 None vault_env order_keeper 9 False (billing_vault, (), NewAdapter) of
      Some ((w', x', k'), out) \<Rightarrow> snd (RevocationState_of 7 (gw_keys w') ''k2'') = Inr Revoked | _ \<Rightarrow> False"
    by code_simp
  then obtain w' x' k' out where run: "retention_run 4 None vault_env order_keeper 9 False (billing_vault, (), NewAdapter) =
      Some ((w', x', k'), out)" "snd (RevocationState_of 7 (gw_keys w') ''k2'') = Inr Revoked"
    by (auto split: option.splits prod.splits)
  define se where "se = last (world_log billing_vault)"
  have se: "se \<in> set (world_log billing_vault)" "enveloped se" "\<not> coveredByShred se (active_policies order_keeper) 9"
    "key_of se = ''k1''" "length (world_log billing_vault) < 4"
    unfolding se_def by code_simp+
  have "snd (RevocationState_of 7 (gw_keys w') (key_of se)) = snd (RevocationState_of 7 (gw_keys billing_vault) (key_of se))"
    by (rule retention_spares_uncovered [OF billing_ok _ se(5) _ run(1) se(1-3)]) simp_all
  moreover have "snd (RevocationState_of 7 (gw_keys billing_vault) ''k1'') = Inr NotRevoked" by code_simp
  ultimately show ?thesis using run se(4) by auto
qed

text \<open>C22: nothing a Shred policy still has to do is left behind the checkpoint.  However appends,
  revocations, sweeps and dry runs interleave on a clock that does not run backwards, starting without a
  checkpoint: every event at or before the persisted checkpoint is old enough for every policy whose
  matchers fit it, and if one of those policies shreds and the event is encrypted, its key is permanently
  revoked.  Refused keys, failed revocations, truncated sweeps and young events therefore never get lost.\<close>

theorem settled_behind_checkpoint:
  assumes "(retention_step m s)\<^sup>*\<^sup>* (t0, w0, x0, k0) (t, w, x, k)"
    and "rm_checkpoint m = Some (mem_retention_checkpoint name)" and "0 < rm_batchSize m"
    and "world_ok w0" and "map_of (ma_checkpoints k0) name = None"
    and "GetCheckpoint None k name = Inr p" and "se \<in> set (world_log w)" and "se_GlobalPosition se \<le> p"
    and "pol \<in> set (active_policies m)" and "matchesStatic pol se"
  shows "ageEligible pol se t \<and>
    (rp_Action pol = ActionShred \<and> enveloped se \<longrightarrow> snd (RevocationState_of t (gw_keys w) (key_of se)) = Inr Revoked)"
proof -
  have "checkpoint_settled m name (t0, w0, x0, k0)"
    using assms(4,5) mem_scan.positive_log [OF assms(4)] by (fastforce simp: checkpoint_settled_def Let_def)
  with assms(1) have settled: "checkpoint_settled m name (t, w, x, k)"
    by (induction rule: rtranclp_induct) (blast intro: settled_step [OF _ assms(2,3)])+
  have "resume_point k name = p" using assms(6) by (auto simp: GetCheckpoint_def guarded_def split: if_splits)
  then have ev: "\<not> pending_on (active_policies m) t se"
    "shreds (active_policies m) t se \<Longrightarrow> snd (RevocationState_of t (gw_keys w) (key_of se)) = Inr Revoked"
    using settled assms(7,8) by (auto simp: checkpoint_settled_def Let_def)
  have age: "ageEligible pol se t" using ev(1) assms(9,10) by (auto simp: pending_on_def)
  then have "shreds (active_policies m) t se" if "rp_Action pol = ActionShred" "enveloped se"
    using that assms(9,10) by (auto simp: shreds_def coveredByShred_def list_ex_iff)
  then show ?thesis using age ev(2) by blast
qed

theorem settled_behind_checkpoint_witness:
  "\<exists>w k. (retention_step order_keeper vault_store)\<^sup>*\<^sup>* (7, demo_vault, (), NewAdapter) (9, w, (), k) \<and>
     GetCheckpoint None k ''retention'' = Inr 3 \<and> snd (RevocationState_of 9 (gw_keys w) ''k2'') = Inr Revoked"
proof -
  let ?env = "mem_env demo_gcm demo_uuid 9 text_lib vault_store (\<lambda>s t n. s) (\<lambda>b. None) (\<lambda>i. demo_entropy)"
  have "case retention_run 4 None ?env order_keeper 9 False (demo_vault, (), NewAdapter) of
      Some ((w, x, k), out) \<Rightarrow> GetCheckpoint None k ''retention'' = Inr 3 \<and> world_log w = world_log demo_vault | _ \<Rightarrow> False"
    by code_simp
  then obtain w k out where run: "retention_run 4 None ?env order_keeper 9 False (demo_vault, (), NewAdapter) = Some ((w, (), k), out)"
    "GetCheckpoint None k ''retention'' = Inr 3" "world_log w = world_log demo_vault"
    by (auto split: option.splits prod.splits)
  have step: "(retention_step order_keeper vault_store)\<^sup>*\<^sup>* (7, demo_vault, (), NewAdapter) (9, w, (), k)"
    using retain_sweep [OF _ _ run(1), of 7] by (auto simp: demo_vault_log(1))
  have ev: "vault_2 \<in> set (world_log w)" by (simp add: run(3) demo_vault_log(1))
  have fits: "order_policy ActionShred None \<in> set (active_policies order_keeper)"
    "matchesStatic (order_policy ActionShred None) vault_2" "se_GlobalPosition vault_2 \<le> 3"
    "map_of (ma_checkpoints NewAdapter) ''retention'' = None"
    by (simp_all add: active_policies_def policy_unscoped_def order_policy_def matchesStatic_def streamCategory_def
        vault_2_def mk_stored_def NewAdapter_def)
  have "snd (RevocationState_of 9 (gw_keys w) (key_of vault_2)) = Inr Revoked"
    using settled_behind_checkpoint [OF step keeper_fields(3) _ demo_vault_log(2) fits(4) run(2) ev fits(3,1,2)]
    by (simp add: order_policy_def sealed_metadata_read)
  then show ?thesis using step run(2) by (auto simp: sealed_metadata_read)
qed

text \<open>A dry run changes nothing and previews the sweep.  From the same state, both return; the
  dry run leaves the store, the keys, the hooks' state and the checkpoint as they are, and its report
  names exactly the keys the sweep sets out to revoke and those it refuses as shared, with the same
  counts of scanned, matched and unencrypted events and the same truncation.\<close>

theorem dry_run_previews:
  assumes "world_ok w" and "0 < rm_batchSize m" and "length (world_log w) < fuel" and "resumes m k p0"
  shows "\<exists>st rd ra. DryRun fuel None (mem_env g uuid now gl s mk um en) m t (w, x, k) = Some ((w, x, k), Inr rd) \<and>
    Retention_Apply fuel None (mem_env g uuid now gl s mk um en) m t (w, x, k) = Some (st, Inr ra) \<and>
    rr_KeysToRevoke rd = rr_KeysToRevoke ra \<and> rr_SharedKeysSkipped rd = rr_SharedKeysSkipped ra \<and>
    rr_Scanned rd = rr_Scanned ra \<and> rr_Matched rd = rr_Matched ra \<and>
    rr_UnencryptedMatches rd = rr_UnencryptedMatches ra \<and> rr_Truncated rd = rr_Truncated ra"
proof -
  have run: "\<exists>w' r fr. retention_run fuel None (mem_env g uuid now gl s mk um en) m t dry (w, x, k) =
      Some ((w', sw_ext (swept m t dry p0 (world_log w) x), persisted m dry p0 fr k), Inr r) \<and> (dry \<longrightarrow> w' = w) \<and>
      same_scan (sw_report (swept m t dry p0 (world_log w) x)) r \<and>
      rr_KeysToRevoke r = sort (filter (approved m (world_log w) t) (shred_keys (sw_shred (swept m t dry p0 (world_log w) x)))) \<and>
      rr_SharedKeysSkipped r = sort (filter (\<lambda>k. \<not> approved m (world_log w) t k) (shred_keys (sw_shred (swept m t dry p0 (world_log w) x))))" for dry
    by (rule mem_vault.retention_run_outcome [OF assms, where g = g and uuid = uuid and nowa = now and gl = gl
        and s = s and mk = mk and um = um and en = en and now = t and dry = dry and x = x]) blast
  have same: "same_scan (sw_report (swept m t True p0 (world_log w) x)) (sw_report (swept m t False p0 (world_log w) x))"
    "sw_shred (swept m t False p0 (world_log w) x) = sw_shred (swept m t True p0 (world_log w) x)"
    using swept_preview [of m t p0 "world_log w" x x] by (simp_all add: same_preview_def)
  have kept: "persisted m True p0 fr k = k" for fr by (simp add: persisted_def split: option.splits)
  from run [of True] run [of False] show ?thesis
    using same unfolding DryRun_def Retention_Apply_def same_scan_def swept_dry_ext kept by auto
qed

theorem dry_run_previews_witness:
  "\<exists>rd. DryRun 4 None vault_env order_keeper 9 (billing_vault, (), NewAdapter) = Some ((billing_vault, (), NewAdapter), Inr rd)"
proof -
  have "resumes order_keeper NewAdapter 0"
    by (simp add: resumes_def mem_retention_checkpoint_def GetCheckpoint_def guarded_def NewAdapter_def)
  moreover have "length (world_log billing_vault) < 4" by code_simp
  ultimately show ?thesis
    using dry_run_previews [OF billing_ok, of order_keeper 4 NewAdapter 0 demo_gcm demo_uuid 7 text_lib vault_store "\<lambda>s t n. s" "\<lambda>b. None"
        "\<lambda>i. demo_entropy" 9 "()"] by auto
qed

text \<open>A redaction or anonymization whose hook fails is never retried.  When every policy redacts
  or anonymizes, every hook fails, and no event is too young, a sweep acts on nothing and reports a failure
  if any event matched - but still moves its checkpoint past all of them: the next sweep, at any later
  time, scans nothing, calls no hook and returns a clean report.\<close>

theorem failed_hook_never_retried:
  assumes "world_ok w" and "0 < rm_batchSize m" and "length (world_log w) < fuel" and "rm_maxScan m \<le> 0"
    and "rm_checkpoint m = Some (mem_retention_checkpoint name)" and "\<not> ma_closed k" and "resumes m k 0"
    and "\<forall>p \<in> set (rm_policies m). policy_Validate p = None" and "hooks_fail (rm_policies m)"
    and "\<forall>e \<in> set (world_log w). \<not> pending_on (rm_policies m) t e"
    and "e \<in> set (world_log w)" and "p \<in> set (rm_policies m)" and "matchesStatic p e"
  shows "\<exists>x' k' r. Retention_Apply fuel None (mem_env g uuid now gl s mk um en) m t (w, x, k) = Some ((w, x', k'), Inr r) \<and>
    Report_Failed r \<and> rr_Acted r = 0 \<and>
    Retention_Apply fuel None (mem_env g uuid now gl s mk um en) m t' (w, x', k') = Some ((w, x', k'), Inr (new_retention_report False))"
proof -
  let ?ev = "mem_env g uuid now gl s mk um en"
  have cp: "rm_checkpoint m \<noteq> None" using assms(5) by simp
  note st = valid_start [OF assms(8) cp]
  have cap: "scan_cap m \<le> 0" using assms(4) by (simp add: scan_cap_def)
  have all: "filter (\<lambda>e. 0 < se_GlobalPosition e) (world_log w) = world_log w"
    using mem_scan.positive_log [OF assms(1)] by (simp add: filter_id_conv)
  define sw where "sw = swept m t False 0 (world_log w) x"
  have sw: "sw_shred sw = newShredCandidates" "sw_frontier sw = se_GlobalPosition (last (world_log w))"
    "rr_Acted (sw_report sw) = 0" "rr_UnencryptedMatches (sw_report sw) = 0" "rr_Errors (sw_report sw) \<noteq> []"
    using failing_sweep [OF assms(9,10) cap refl, of 0 x 0] assms(11-13)
    by (auto simp: sw_def swept_def all st)
  let ?q = "sw_frontier sw"
  let ?k = "fst (SetCheckpoint None k name ?q)"
  have "world_log w \<noteq> []" using assms(11) by auto
  from mem_scan.positive_log [OF assms(1) last_in_set [OF this]] have q: "0 < ?q" by (simp add: sw(2))
  have run: "Retention_Apply fuel None ?ev m t (w, x, k) = Some ((w, sw_ext sw, ?k), Inr (sw_report sw))"
    unfolding Retention_Apply_def mem_vault.retention_run_swept [OF assms(1-3,7)] sw_def [symmetric]
      uneventful_finish [OF sw(1,4) assms(5,6)] using q by simp
  have "\<forall>e \<in> set (world_log w). se_GlobalPosition e \<le> ?q"
    using mem_scan.ascending_log [OF assms(1)] unfolding sw(2)
    by (cases "world_log w" rule: rev_cases) (auto simp: sorted_wrt_append)
  then have "filter (\<lambda>e. ?q < se_GlobalPosition e) (world_log w) = []" by (auto simp: filter_empty_conv)
  then have sw2: "swept m t' False ?q (world_log w) (sw_ext sw) = \<lparr>sw_ext = sw_ext sw, sw_shred = newShredCandidates,
      sw_report = new_retention_report False, sw_frontier = ?q, sw_frozen = False\<rparr>"
    by (simp add: swept_def st)
  have "resumes m ?k ?q" using checkpoint_after_set(1) [OF assms(6)] by (simp add: resumes_def assms(5) mem_retention_checkpoint_def)
  note again = mem_vault.retention_run_swept [OF assms(1-3) this]
  have open_k: "\<not> ma_closed ?k" using assms(6) by (simp add: checkpoint_after_set(2))
  let ?s = "\<lparr>sw_ext = sw_ext sw, sw_shred = newShredCandidates, sw_report = new_retention_report False, sw_frontier = ?q, sw_frozen = False\<rparr>"
  have "rr_UnencryptedMatches (sw_report ?s) = 0" "sw_shred ?s = newShredCandidates" by (simp_all add: new_retention_report_def)
  note fin = uneventful_finish [OF this(2,1) assms(5) open_k]
  have "Retention_Apply fuel None ?ev m t' (w, sw_ext sw, ?k) = Some ((w, sw_ext sw, ?k), Inr (new_retention_report False))"
    unfolding Retention_Apply_def again sw2 fin by simp
  then show ?thesis using run sw by (auto simp: Report_Failed_def)
qed

theorem failed_hook_never_retried_witness:
  "\<exists>x' k' r. Retention_Apply 4 None vault_env failing_keeper 9 (demo_vault, (), NewAdapter) = Some ((demo_vault, x', k'), Inr r) \<and>
     Report_Failed r \<and> rr_Acted r = 0 \<and>
     Retention_Apply 4 None vault_env failing_keeper 10 (demo_vault, x', k') = Some ((demo_vault, x', k'), Inr (new_retention_report False))"
proof (rule failed_hook_never_retried [OF demo_vault_log(2), where name = "''retention''" and e = vault_1
      and p = "order_policy ActionRedactFields (Some (\<lambda>x e. (x, Some (Errorf ''redact''))))"])
  show "\<forall>e \<in> set (world_log demo_vault). \<not> pending_on (rm_policies failing_keeper) 9 e"
    by (simp add: demo_vault_log(1) pending_on_def order_policy_def ageEligible_def vault_events mk_stored_def)
qed (simp_all add: demo_vault_log(1) resumes_def mem_retention_checkpoint_def GetCheckpoint_def guarded_def NewAdapter_def
    hooks_fail_def order_policy_def policy_Validate_def policy_unscoped_def matchesStatic_def streamCategory_def)

end
