(* ===== verification/Audit_Trail.thy ===== *)
theory Audit_Trail
  imports Command_Bus "HOL-Library.Multiset"
begin

text \<open>
  The command audit trail: entries and queries (\<^verbatim>\<open>adapters/audit.go\<close>), the in-memory store
  (\<^verbatim>\<open>adapters/memory/audit.go\<close> and its part of \<^verbatim>\<open>subject_footprint.go\<close>) and the middleware that
  writes one entry per dispatched command (\<^verbatim>\<open>audit.go\<close>).

  A zero time of a query is \<open>None\<close>, a nil metadata map is \<open>None\<close>.  The middleware acts on the
  world \<open>'w\<close> of the command bus: the store, the clock, the id generator, the \<^verbatim>\<open>OnError\<close> hook and
  the logger's warning are operations on it, and the text of an error is the argument \<open>errText\<close>.
\<close>

section \<open>Entries and queries\<close>

record audit_entry =
  ae_ID :: string
  ae_CommandType :: string
  ae_CommandID :: string
  ae_AggregateID :: string
  ae_Actor :: string
  ae_TenantID :: string
  ae_CorrelationID :: string
  ae_CausationID :: string
  ae_Error :: string
  ae_Version :: int
  ae_DurationMs :: int
  ae_Timestamp :: time
  ae_Success :: bool
  ae_Metadata :: "(string, string) gomap option"

datatype AuditOrder = AuditOrderTimestampDesc | AuditOrderTimestampAsc

record audit_query =
  aq_CommandType :: string
  aq_Actor :: string
  aq_TenantID :: string
  aq_AggregateID :: string
  aq_CorrelationID :: string
  aq_From :: "time option"
  aq_To :: "time option"
  aq_Success :: "bool option"
  aq_Limit :: int
  aq_Offset :: int
  aq_Order :: AuditOrder

definition CopyAuditEntry :: "audit_entry option \<Rightarrow> audit_entry option" where
  "CopyAuditEntry entry =
     (case entry of
        None \<Rightarrow> None
      | Some e \<Rightarrow> Some (e\<lparr>ae_Metadata := (case ae_Metadata e of None \<Rightarrow> None | Some m \<Rightarrow> Some (map (\<lambda>(k, v). (k, v)) m))\<rparr>))"

lemma CopyAuditEntry_id [simp]: "CopyAuditEntry e = e"
  by (simp add: CopyAuditEntry_def split: option.split)

definition matchesAuditQuery :: "audit_entry \<Rightarrow> audit_query \<Rightarrow> bool" where
  "matchesAuditQuery entry q =
     (if aq_CommandType q \<noteq> [] \<and> ae_CommandType entry \<noteq> aq_CommandType q then False
      else if aq_Actor q \<noteq> [] \<and> ae_Actor entry \<noteq> aq_Actor q then False
      else if aq_TenantID q \<noteq> [] \<and> ae_TenantID entry \<noteq> aq_TenantID q then False
      else if aq_AggregateID q \<noteq> [] \<and> ae_AggregateID entry \<noteq> aq_AggregateID q then False
      else if aq_CorrelationID q \<noteq> [] \<and> ae_CorrelationID entry \<noteq> aq_CorrelationID q then False
      else if (case aq_From q of None \<Rightarrow> False | Some t \<Rightarrow> ae_Timestamp entry < t) then False
      else if (case aq_To q of None \<Rightarrow> False | Some t \<Rightarrow> \<not> ae_Timestamp entry < t) then False
      else if (case aq_Success q of None \<Rightarrow> False | Some b \<Rightarrow> ae_Success entry \<noteq> b) then False
      else True)"

section \<open>The in-memory store\<close>

record audit_store =
  as_entries :: "audit_entry list"

definition NewAuditStore :: audit_store where
  "NewAuditStore = \<lparr>as_entries = []\<rparr>"

definition Audit_Initialize :: "ctx \<Rightarrow> audit_store \<Rightarrow> audit_store \<times> error option" where
  "Audit_Initialize ctx s = (s, None)"

definition Audit_Close :: "audit_store \<Rightarrow> audit_store \<times> error option" where
  "Audit_Close s = (s, None)"

definition Audit_Append :: "ctx \<Rightarrow> audit_store \<Rightarrow> audit_entry option \<Rightarrow> audit_store \<times> error option" where
  "Audit_Append ctx s entry =
     (case entry of
        None \<Rightarrow> (s, Some ErrNilAuditEntry)
      | Some e \<Rightarrow>
          (case ctx of
             Some err \<Rightarrow> (s, Some err)
           | None \<Rightarrow> (s\<lparr>as_entries := as_entries s @ [the (CopyAuditEntry (Some e))]\<rparr>, None)))"

definition audit_filter :: "audit_store \<Rightarrow> audit_query \<Rightarrow> audit_entry list" where
  "audit_filter s q = filter (\<lambda>e. matchesAuditQuery e q) (as_entries s)"

text \<open>\<^verbatim>\<open>sort.SliceStable\<close> with a comparison function.\<close>

fun insert_stable :: "('a \<Rightarrow> 'a \<Rightarrow> bool) \<Rightarrow> 'a \<Rightarrow> 'a list \<Rightarrow> 'a list" where
  "insert_stable lt x [] = [x]"
| "insert_stable lt x (y # ys) = (if lt y x then y # insert_stable lt x ys else x # y # ys)"

definition sort_stable :: "('a \<Rightarrow> 'a \<Rightarrow> bool) \<Rightarrow> 'a list \<Rightarrow> 'a list" where
  "sort_stable lt xs = foldr (insert_stable lt) xs []"

definition audit_less :: "AuditOrder \<Rightarrow> audit_entry \<Rightarrow> audit_entry \<Rightarrow> bool" where
  "audit_less order a b =
     (if ae_Timestamp a \<noteq> ae_Timestamp b
      then if order = AuditOrderTimestampAsc then ae_Timestamp a < ae_Timestamp b else ae_Timestamp a > ae_Timestamp b
      else if order = AuditOrderTimestampAsc then ae_ID a < ae_ID b else ae_ID a > ae_ID b)"

definition Audit_Find :: "ctx \<Rightarrow> audit_store \<Rightarrow> audit_query \<Rightarrow> error + audit_entry list" where
  "Audit_Find ctx s q =
     (let matched = sort_stable (audit_less (aq_Order q)) (audit_filter s q)
      in if aq_Offset q > 0 \<and> aq_Offset q \<ge> int (length matched) then Inr []
         else let page = (if aq_Offset q > 0 then drop (nat (aq_Offset q)) matched else matched)
              in Inr (if aq_Limit q > 0 \<and> aq_Limit q < int (length page) then take (nat (aq_Limit q)) page else page))"

definition Audit_Count :: "ctx \<Rightarrow> audit_store \<Rightarrow> audit_query \<Rightarrow> error + nat" where
  "Audit_Count ctx s q = Inr (length (filter (\<lambda>e. matchesAuditQuery e q) (as_entries s)))"

definition audit_purge :: "(audit_entry \<Rightarrow> bool) \<Rightarrow> audit_store \<Rightarrow> audit_store \<times> nat" where
  "audit_purge gone s =
     (s\<lparr>as_entries := filter (\<lambda>e. \<not> gone e) (as_entries s)\<rparr>, length (filter gone (as_entries s)))"

definition Audit_Cleanup :: "time \<Rightarrow> ctx \<Rightarrow> audit_store \<Rightarrow> duration \<Rightarrow> audit_store \<times> (error + nat)" where
  "Audit_Cleanup now ctx s olderThan =
     (let cutoff = now - olderThan; (s', n) = audit_purge (\<lambda>e. ae_Timestamp e < cutoff) s in (s', Inr n))"

definition DeleteAuditBySubject :: "ctx \<Rightarrow> audit_store \<Rightarrow> string \<Rightarrow> audit_store \<times> (error + nat)" where
  "DeleteAuditBySubject ctx s subjectID =
     (if subjectID = [] then (s, Inr 0)
      else let (s', n) = audit_purge (\<lambda>e. ae_Actor e = subjectID \<or> ae_AggregateID e = subjectID) s in (s', Inr n))"

definition DeleteAuditByAggregateIDs :: "ctx \<Rightarrow> audit_store \<Rightarrow> string list \<Rightarrow> audit_store \<times> (error + nat)" where
  "DeleteAuditByAggregateIDs ctx s aggregateIDs =
     (case idSet aggregateIDs of
        None \<Rightarrow> (s, Inr 0)
      | Some st \<Rightarrow>
          (case ctx of
             Some e \<Rightarrow> (s, Inl e)
           | None \<Rightarrow> (let (s', n) = audit_purge (\<lambda>e. ae_AggregateID e \<in> set st) s in (s', Inr n))))"

definition CountAuditBySubject :: "ctx \<Rightarrow> audit_store \<Rightarrow> string \<Rightarrow> string list \<Rightarrow> error + nat" where
  "CountAuditBySubject ctx s subjectID aggregateIDs =
     (let st = idSet aggregateIDs
      in if subjectID = [] \<and> st = None then Inr 0
         else (case ctx of
                 Some e \<Rightarrow> Inl e
               | None \<Rightarrow> Inr (length (filter (\<lambda>e. (subjectID \<noteq> [] \<and> ae_Actor e = subjectID) \<or>
                   (case st of None \<Rightarrow> False | Some ids \<Rightarrow> ae_AggregateID e \<in> set ids)) (as_entries s)))))"

definition Audit_Len :: "audit_store \<Rightarrow> nat" where
  "Audit_Len s = length (as_entries s)"

definition Audit_Clear :: "audit_store \<Rightarrow> audit_store" where
  "Audit_Clear s = s\<lparr>as_entries := []\<rparr>"

section \<open>The middleware\<close>

definition MaxAuditFieldLength :: nat where [simp]: "MaxAuditFieldLength = 255"

definition WithActor :: "'w go_context \<Rightarrow> string \<Rightarrow> 'w go_context" where
  "WithActor ctx actor = ctx\<lparr>cx_actor := actor\<rparr>"

definition ActorFromContext :: "'w go_context \<Rightarrow> string" where
  "ActorFromContext ctx = cx_actor ctx"

definition defaultActorFunc :: "'w go_context \<Rightarrow> 'c \<Rightarrow> string" where
  "defaultActorFunc ctx cmd = ActorFromContext ctx"

record ('w, 'c) audit_config =
  ac_Store :: "('w go_context \<Rightarrow> 'w \<Rightarrow> audit_entry \<Rightarrow> 'w \<times> error option) option"
  ac_ActorFunc :: "('w go_context \<Rightarrow> 'c \<Rightarrow> string) option"
  ac_SkipCommands :: "string list"
  ac_FailClosed :: bool
  ac_IncludeMetadata :: bool
  ac_MetadataFilter :: "((string, string) gomap \<Rightarrow> (string, string) gomap option) option"
  ac_Warn :: "'w \<Rightarrow> audit_entry \<Rightarrow> error \<Rightarrow> 'w"
  ac_OnError :: "('w go_context \<Rightarrow> 'w \<Rightarrow> audit_entry \<Rightarrow> error \<Rightarrow> 'w) option"
  ac_now :: "'w \<Rightarrow> time"
  ac_idgen :: "'w \<Rightarrow> 'w \<times> string"

definition copyMetadataMap :: "(string, string) gomap \<Rightarrow> (string, string) gomap option" where
  "copyMetadataMap m = (if length m = 0 then None else Some (map (\<lambda>(k, v). (k, v)) m))"

definition boundAuditEntry :: "audit_entry \<Rightarrow> audit_entry" where
  "boundAuditEntry e = e\<lparr>
     ae_CommandType := truncateUTF8Bytes (ae_CommandType e) MaxAuditFieldLength,
     ae_CommandID := truncateUTF8Bytes (ae_CommandID e) MaxAuditFieldLength,
     ae_AggregateID := truncateUTF8Bytes (ae_AggregateID e) MaxAuditFieldLength,
     ae_Actor := truncateUTF8Bytes (ae_Actor e) MaxAuditFieldLength,
     ae_TenantID := truncateUTF8Bytes (ae_TenantID e) MaxAuditFieldLength,
     ae_CorrelationID := truncateUTF8Bytes (ae_CorrelationID e) MaxAuditFieldLength,
     ae_CausationID := truncateUTF8Bytes (ae_CausationID e) MaxAuditFieldLength\<rparr>"

definition foldAuditFailure :: "command_result \<Rightarrow> error option \<Rightarrow> error \<Rightarrow> command_result \<times> error option" where
  "foldAuditFailure result err auditErr =
     (case err of
        Some e \<Rightarrow> (result, Some (Joined e auditErr))
      | None \<Rightarrow>
          if IsError result
          then (case cr_Error result of
                  Some re \<Rightarrow> (result, Some (Joined re auditErr))
                | None \<Rightarrow> (result, Some auditErr))
          else (NewErrorResult (Some auditErr), Some auditErr))"

text \<open>\<^verbatim>\<open>Duration.Milliseconds\<close> truncates towards zero.\<close>

definition Milliseconds :: "duration \<Rightarrow> int" where
  "Milliseconds d = (if d \<ge> 0 then d div 1000000 else - ((- d) div 1000000))"

definition audit_metadata :: "'c command_ops \<Rightarrow> ('w, 'c) audit_config \<Rightarrow> 'c \<Rightarrow> (string, string) gomap option" where
  "audit_metadata co config cmd =
     (if ac_IncludeMetadata config
      then (case co_MetadataMap co cmd of
              None \<Rightarrow> None
            | Some m \<Rightarrow>
                (case (copyMetadataMap m, ac_MetadataFilter config) of
                   (Some cp, Some f) \<Rightarrow> (case f cp of None \<Rightarrow> None | Some m' \<Rightarrow> if length m' = 0 then None else Some m')
                 | (cp, _) \<Rightarrow> cp))
      else None)"

definition new_audit_entry ::
  "(error \<Rightarrow> string) \<Rightarrow> 'c command_ops \<Rightarrow> ('w, 'c) audit_config \<Rightarrow> 'w go_context \<Rightarrow> 'c \<Rightarrow> time \<Rightarrow> time \<Rightarrow> string \<Rightarrow>
   command_result \<Rightarrow> error option \<Rightarrow> audit_entry" where
  "new_audit_entry errText co config ctx cmd t0 t1 auditID result err =
     \<lparr>ae_ID = auditID, ae_CommandType = co_CommandType co cmd,
      ae_CommandID = (case co_CommandID co cmd of None \<Rightarrow> [] | Some i \<Rightarrow> i),
      ae_AggregateID = (if cr_AggregateID result = []
                        then (case co_AggregateID co cmd of None \<Rightarrow> [] | Some i \<Rightarrow> i) else cr_AggregateID result),
      ae_Actor = (case ac_ActorFunc config of None \<Rightarrow> defaultActorFunc | Some f \<Rightarrow> f) ctx cmd,
      ae_TenantID = cx_tenantID ctx, ae_CorrelationID = cx_correlationID ctx, ae_CausationID = cx_causationID ctx,
      ae_Error = (case err of Some e \<Rightarrow> errText e | None \<Rightarrow> (case cr_Error result of Some e \<Rightarrow> errText e | None \<Rightarrow> [])),
      ae_Version = cr_Version result, ae_DurationMs = Milliseconds (t1 - t0), ae_Timestamp = t1,
      ae_Success = (err = None \<and> IsSuccess result), ae_Metadata = audit_metadata co config cmd\<rparr>"

text \<open>A panic of the handler unwinds through the middleware: no entry is written.\<close>

definition AuditMiddleware ::
  "(error \<Rightarrow> string) \<Rightarrow> 'c command_ops \<Rightarrow> ('w, 'c) audit_config \<Rightarrow> ('w, 'c) middleware" where
  "AuditMiddleware errText co config nxt ctx w cmd =
     (case ac_Store config of
        None \<Rightarrow>
          if \<not> ac_FailClosed config then nxt ctx w cmd
          else (case nxt ctx w cmd of
                  (w1, result, err) \<Rightarrow>
                    if panicked err then (w1, result, err)
                    else if co_CommandType co cmd \<in> set (ac_SkipCommands config) then (w1, result, err)
                    else (w1, foldAuditFailure result err ErrNilAuditStore))
      | Some add \<Rightarrow>
          if co_CommandType co cmd \<in> set (ac_SkipCommands config) then nxt ctx w cmd
          else
            let t0 = ac_now config w
            in (case nxt ctx w cmd of
                  (w1, result, err) \<Rightarrow>
                    if panicked err then (w1, result, err)
                    else
                      let t1 = ac_now config w1;
                          (w2, auditID) = ac_idgen config w1;
                          entry = boundAuditEntry (new_audit_entry errText co config ctx cmd t0 t1 auditID result err)
                      in (case add ctx w2 entry of
                            (w3, None) \<Rightarrow> (w3, result, err)
                          | (w3, Some appendErr) \<Rightarrow>
                              let w4 = (case ac_OnError config of None \<Rightarrow> w3 | Some f \<Rightarrow> f ctx w3 entry appendErr)
                              in if ac_FailClosed config then (w4, foldAuditFailure result err appendErr)
                                 else (ac_Warn config w4 entry appendErr, result, err))))"

section \<open>Queries\<close>

lemma mset_insert_stable: "mset (insert_stable lt x ys) = add_mset x (mset ys)"
  by (induction ys) auto

lemma mset_sort_stable: "mset (sort_stable lt xs) = mset xs"
  unfolding sort_stable_def by (induction xs) (simp_all add: mset_insert_stable)

lemma set_insert_stable: "set (insert_stable lt x ys) = insert x (set ys)"
  by (induction ys) auto

lemma set_sort_stable [simp]: "set (sort_stable lt xs) = set xs"
  using mset_eq_setD [OF mset_sort_stable] .

text \<open>For a comparison that is a strict weak order on the elements the result is sorted.\<close>

lemma sorted_insert_stable:
  assumes "\<And>a b c. {a, b, c} \<subseteq> S \<Longrightarrow> \<not> lt b a \<Longrightarrow> \<not> lt c b \<Longrightarrow> \<not> lt c a" and "\<And>a b. {a, b} \<subseteq> S \<Longrightarrow> lt a b \<Longrightarrow> \<not> lt b a"
    and "set (x # ys) \<subseteq> S" and "sorted_wrt (\<lambda>a b. \<not> lt b a) ys"
  shows "sorted_wrt (\<lambda>a b. \<not> lt b a) (insert_stable lt x ys)"
  using assms(3,4)
proof (induction ys)
  case (Cons y ys)
  show ?case
  proof (cases "lt y x")
    case True
    then show ?thesis using Cons assms(2) [OF _ True] by (simp add: set_insert_stable)
  next
    case False
    then have "\<not> lt z x" if "z \<in> set ys" for z using assms(1) [OF _ False] Cons.prems that by auto
    then show ?thesis using Cons.prems False by simp
  qed
qed simp

lemma sorted_sort_stable:
  assumes "\<And>a b c. {a, b, c} \<subseteq> set xs \<Longrightarrow> \<not> lt b a \<Longrightarrow> \<not> lt c b \<Longrightarrow> \<not> lt c a"
    and "\<And>a b. {a, b} \<subseteq> set xs \<Longrightarrow> lt a b \<Longrightarrow> \<not> lt b a"
  shows "sorted_wrt (\<lambda>a b. \<not> lt b a) (sort_stable lt xs)"
proof -
  have "sorted_wrt (\<lambda>a b. \<not> lt b a) (foldr (insert_stable lt) ys [])" if "set ys \<subseteq> set xs" for ys
    using that
  proof (induction ys)
    case (Cons y ys)
    have "set (foldr (insert_stable lt) ys []) = set ys" using set_sort_stable [of lt ys] by (simp add: sort_stable_def)
    then have "set (y # foldr (insert_stable lt) ys []) \<subseteq> set xs" using Cons.prems by simp
    moreover have "sorted_wrt (\<lambda>a b. \<not> lt b a) (foldr (insert_stable lt) ys [])" using Cons by simp
    ultimately have "sorted_wrt (\<lambda>a b. \<not> lt b a) (insert_stable lt y (foldr (insert_stable lt) ys []))"
      using assms by (intro sorted_insert_stable [where S = "set xs"])
    then show ?case by simp
  qed simp
  then show ?thesis unfolding sort_stable_def by simp
qed

lemma audit_less_order:
  "\<not> audit_less d b a \<Longrightarrow> \<not> audit_less d c b \<Longrightarrow> \<not> audit_less d c a" "audit_less d a b \<Longrightarrow> \<not> audit_less d b a"
  by (cases d; auto simp: audit_less_def split: if_splits)+

lemma Find_page:
  "0 \<le> off \<Longrightarrow> 0 < n \<Longrightarrow> Audit_Find ctx s (q\<lparr>aq_Offset := off, aq_Limit := n\<rparr>) =
     Inr (take (nat n) (drop (nat off) (sort_stable (audit_less (aq_Order q)) (audit_filter s q))))"
proof -
  assume "0 \<le> off" "0 < n"
  moreover have "audit_filter s (q\<lparr>aq_Offset := off, aq_Limit := n\<rparr>) = audit_filter s q"
    by (simp add: audit_filter_def matchesAuditQuery_def cong: if_cong)
  moreover have "(if off > 0 \<and> off \<ge> int (length xs) then [] else let page = if off > 0 then drop (nat off) xs else xs
      in if n > 0 \<and> n < int (length page) then take (nat n) page else page) = take (nat n) (drop (nat off) xs)" for xs :: "audit_entry list"
    using \<open>0 \<le> off\<close> \<open>0 < n\<close> by (auto simp: Let_def)
  ultimately show ?thesis by (auto simp: Audit_Find_def Let_def)
qed

lemma concat_pages: "concat (map (\<lambda>i. take m (drop (i * m) xs)) [0..<k]) = take (k * m) xs"
  by (induction k) (simp_all add: take_add [of "_ * m" m] add.commute [of m])

text \<open>Paging through the audit trail visits every matching entry exactly once, in order.  The
  pages of a query of any positive size, read at consecutive offsets, together are the matching entries
  in the requested order - newest or oldest first, ties broken by id - and their number is what \<^verbatim>\<open>Count\<close>
  reports.\<close>

theorem audit_pages_partition:
  assumes "0 < n" and "length (audit_filter s q) \<le> k * nat n"
  shows "\<exists>es. concat (map (\<lambda>i. case Audit_Find ctx s (q\<lparr>aq_Offset := int i * n, aq_Limit := n\<rparr>) of Inr p \<Rightarrow> p | Inl e \<Rightarrow> []) [0..<k]) = es \<and>
    mset es = filter_mset (\<lambda>e. matchesAuditQuery e q) (mset (as_entries s)) \<and>
    sorted_wrt (\<lambda>a b. \<not> audit_less (aq_Order q) b a) es \<and> Audit_Count ctx s q = Inr (length es)"
proof -
  let ?es = "sort_stable (audit_less (aq_Order q)) (audit_filter s q)"
  have len: "length ?es = length (audit_filter s q)" by (metis mset_sort_stable size_mset)
  have page: "Audit_Find ctx s (q\<lparr>aq_Offset := int i * n, aq_Limit := n\<rparr>) = Inr (take (nat n) (drop (i * nat n) ?es))" for i
    using Find_page [of "int i * n" n ctx s q] assms(1) by (simp add: nat_mult_distrib)
  have "concat (map (\<lambda>i. case Audit_Find ctx s (q\<lparr>aq_Offset := int i * n, aq_Limit := n\<rparr>) of Inr p \<Rightarrow> p | Inl e \<Rightarrow> []) [0..<k]) = ?es"
    using assms(2) by (simp add: page len concat_pages)
  moreover have "mset ?es = filter_mset (\<lambda>e. matchesAuditQuery e q) (mset (as_entries s))"
    by (simp add: mset_sort_stable audit_filter_def)
  moreover have "sorted_wrt (\<lambda>a b. \<not> audit_less (aq_Order q) b a) ?es"
    by (rule sorted_sort_stable) (auto dest: audit_less_order)
  moreover have "Audit_Count ctx s q = Inr (length ?es)" unfolding len by (simp add: Audit_Count_def audit_filter_def)
  ultimately show ?thesis by blast
qed

definition demo_entry :: "string \<Rightarrow> time \<Rightarrow> string \<Rightarrow> audit_entry" where
  "demo_entry i t actor = \<lparr>ae_ID = i, ae_CommandType = ''Pay'', ae_CommandID = [], ae_AggregateID = ''a1'', ae_Actor = actor,
     ae_TenantID = [], ae_CorrelationID = [], ae_CausationID = [], ae_Error = [], ae_Version = 1, ae_DurationMs = 0,
     ae_Timestamp = t, ae_Success = True, ae_Metadata = None\<rparr>"

definition demo_trail :: audit_store where
  "demo_trail = \<lparr>as_entries = [demo_entry ''1'' 5 ''u1'', demo_entry ''2'' 9 ''u2'', demo_entry ''3'' 9 ''u1'']\<rparr>"

definition all_entries :: audit_query where
  "all_entries = \<lparr>aq_CommandType = [], aq_Actor = [], aq_TenantID = [], aq_AggregateID = [], aq_CorrelationID = [],
     aq_From = None, aq_To = None, aq_Success = None, aq_Limit = 0, aq_Offset = 0, aq_Order = AuditOrderTimestampDesc\<rparr>"

theorem audit_pages_partition_witness:
  "mset (concat (map (\<lambda>i. case Audit_Find None demo_trail (all_entries\<lparr>aq_Offset := int i * 2, aq_Limit := 2\<rparr>) of Inr p \<Rightarrow> p | Inl e \<Rightarrow> []) [0..<2])) =
     filter_mset (\<lambda>e. matchesAuditQuery e all_entries) (mset (as_entries demo_trail))"
proof -
  have "length (audit_filter demo_trail all_entries) \<le> 2 * nat 2" by code_simp
  from audit_pages_partition [OF _ this, of None] show ?thesis by force
qed

section \<open>What the middleware guarantees\<close>

lemma length_bound: "length (truncateUTF8Bytes s MaxAuditFieldLength) \<le> MaxAuditFieldLength"
  by (rule length_truncate)

text \<open>Fail-open: the store never changes the outcome of a command.\<close>

lemma fail_open_transparent:
  assumes "\<not> ac_FailClosed config" and "AuditMiddleware errText co config nxt ctx w cmd = (w', r', e')"
  shows "\<exists>w1. nxt ctx w cmd = (w1, r', e')"
  using assms by (auto simp: AuditMiddleware_def Let_def split: option.splits prod.splits if_splits)

text \<open>C31: under the fail-closed policy a reported success was audited.  If the middleware returns a
  successful result for a command that is not on the skip list, the handler returned exactly that result
  and the audit store accepted an entry that records it as a success of this command, with its bounded
  fields at most 255 bytes long.\<close>

theorem fail_closed_success_audited:
  assumes "AuditMiddleware errText co config nxt ctx w cmd = (w', r', None)" and "ac_FailClosed config"
    and "co_CommandType co cmd \<notin> set (ac_SkipCommands config)" and "IsSuccess r'"
  shows "\<exists>add w1 w2 entry. ac_Store config = Some add \<and> nxt ctx w cmd = (w1, r', None) \<and>
    add ctx w2 entry = (w', None) \<and> ae_Success entry \<and> ae_Version entry = cr_Version r' \<and>
    ae_CommandType entry = truncateUTF8Bytes (co_CommandType co cmd) 255 \<and> length (ae_Actor entry) \<le> 255 \<and>
    length (ae_AggregateID entry) \<le> 255 \<and> length (ae_CommandID entry) \<le> 255 \<and> length (ae_TenantID entry) \<le> 255 \<and>
    length (ae_CorrelationID entry) \<le> 255 \<and> length (ae_CausationID entry) \<le> 255"
proof -
  have fold_fails: "\<exists>e. snd (foldAuditFailure r e1 ae) = Some e" for r e1 ae
    by (auto simp: foldAuditFailure_def split: option.splits)
  obtain w1 r err where nx: "nxt ctx w cmd = (w1, r, err)" by (rule prod_cases3)
  have np: "\<not> panicked None" by simp
  obtain add where store: "ac_Store config = Some add"
    using assms(1-3) nx fold_fails [of r err ErrNilAuditStore]
    by (cases "ac_Store config") (auto simp: AuditMiddleware_def split: if_splits)
  obtain w2 i where idg: "ac_idgen config w1 = (w2, i)" by (rule prod.exhaust)
  let ?e0 = "new_audit_entry errText co config ctx cmd (ac_now config w) (ac_now config w1) i r err"
  obtain w3 ae where ap: "add ctx w2 (boundAuditEntry ?e0) = (w3, ae)" by (rule prod.exhaust)
  have "ae = None \<and> r = r' \<and> err = None \<and> w3 = w'"
    using assms(1-3) fold_fails [of r err "the ae"]
    by (cases ae) (auto simp: AuditMiddleware_def store nx idg ap Let_def split: if_splits)
  then have "add ctx w2 (boundAuditEntry ?e0) = (w', None)" "nxt ctx w cmd = (w1, r', None)" "r = r'" "err = None"
    using ap nx by auto
  then show ?thesis
    using store assms(4) length_bound
    by (intro exI [of _ add] exI [of _ w1] exI [of _ w2] exI [of _ "boundAuditEntry ?e0"])
      (simp add: boundAuditEntry_def new_audit_entry_def)
qed

text \<open>A world that holds only an audit store.\<close>

definition mem_audit_config :: "(audit_store, string) audit_config" where
  "mem_audit_config = \<lparr>ac_Store = Some (\<lambda>ctx s e. Audit_Append (cx_Err ctx s) s (Some e)), ac_ActorFunc = None, ac_SkipCommands = [],
     ac_FailClosed = True, ac_IncludeMetadata = False, ac_MetadataFilter = None, ac_Warn = (\<lambda>s e err. s), ac_OnError = None,
     ac_now = (\<lambda>s. int (length (as_entries s))), ac_idgen = (\<lambda>s. (s, ''id''))\<rparr>"

definition demo_command_ops :: "string command_ops" where
  "demo_command_ops = \<lparr>co_CommandType = (\<lambda>c. c), co_Validate = (\<lambda>c. None), co_AggregateID = (\<lambda>c. None), co_CorrelationID = (\<lambda>c. None),
     co_CausationID = (\<lambda>c. None), co_CommandID = (\<lambda>c. None), co_MetadataMap = (\<lambda>c. None)\<rparr>"

definition actor_context :: "string \<Rightarrow> audit_store go_context" where
  "actor_context actor = \<lparr>cx_Err = (\<lambda>s. None), cx_correlationID = [], cx_causationID = [], cx_tenantID = [], cx_actor = actor\<rparr>"

abbreviation pay_handler :: "(audit_store, string) middleware_func" where
  "pay_handler \<equiv> \<lambda>ctx s c. (s, NewSuccessResult ''a1'' 3, None)"

lemma pay_audited:
  "AuditMiddleware (\<lambda>e. []) demo_command_ops mem_audit_config pay_handler (actor_context actor) NewAuditStore ''Pay'' =
     (\<lparr>as_entries = [boundAuditEntry (new_audit_entry (\<lambda>e. []) demo_command_ops mem_audit_config (actor_context actor) ''Pay'' 0 0 ''id''
        (NewSuccessResult ''a1'' 3) None)]\<rparr>, NewSuccessResult ''a1'' 3, None)"
  by (simp add: AuditMiddleware_def mem_audit_config_def Audit_Append_def NewAuditStore_def actor_context_def Let_def)

theorem fail_closed_success_audited_witness:
  "\<exists>add w1 w2 entry s. ac_Store mem_audit_config = Some add \<and>
     pay_handler (actor_context ''u1'') NewAuditStore ''Pay'' = (w1, NewSuccessResult ''a1'' 3, None) \<and>
     add (actor_context ''u1'') w2 entry = (s, None) \<and> ae_Success entry"
proof -
  have h: "ac_FailClosed mem_audit_config" "co_CommandType demo_command_ops ''Pay'' \<notin> set (ac_SkipCommands mem_audit_config)"
    "IsSuccess (NewSuccessResult ''a1'' 3)"
    by (simp_all add: mem_audit_config_def IsSuccess_def NewSuccessResult_def)
  from fail_closed_success_audited [OF pay_audited [of "''u1''"] h] show ?thesis by blast
qed

end
