(* ===== verification/Subject_Erasers.thy ===== *)
theory Subject_Erasers
  imports Audit_Trail Erasure_Guarantees Outbox_Store Saga_Store
begin

text \<open>
  The erasers of the sibling stores (\<^verbatim>\<open>subjecterasers.go\<close>): which ids of a footprint they purge and
  count by, the purge with its fallbacks, and the five built-in erasers as values of the eraser's
  \<open>subject_erasable\<close>.

  A store is a part of the world \<open>'x\<close>; the optional interfaces it implements are the fields of
  \<open>sibling_ops\<close>, \<open>None\<close> for one it does not have.
\<close>

section \<open>Footprint ids\<close>

text \<open>The part after the first hyphen, unless a part is empty.\<close>

definition derivedAggregateID :: "string \<Rightarrow> string option" where
  "derivedAggregateID streamID =
     (let i = length (takeWhile (\<lambda>c. c \<noteq> CHR ''-'') streamID)
      in if i = 0 \<or> length streamID \<le> i \<or> i = length streamID - 1 then None else Some (drop (Suc i) streamID))"

fun footprint_collect :: "bool \<Rightarrow> string list \<Rightarrow> string list" where
  "footprint_collect derived [] = []"
| "footprint_collect derived (s # ss) =
     s # (if \<not> derived then [] else case derivedAggregateID s of None \<Rightarrow> [] | Some agg \<Rightarrow> [agg]) @ footprint_collect derived ss"

fun footprint_dedup :: "string list \<Rightarrow> string list \<Rightarrow> string list" where
  "footprint_dedup seen [] = []"
| "footprint_dedup seen (i # ids) =
     (if i = [] then footprint_dedup seen ids
      else if i \<in> set seen then footprint_dedup seen ids
      else i # footprint_dedup (i # seen) ids)"

definition footprintIDs :: "string \<Rightarrow> subject_footprint option \<Rightarrow> bool \<Rightarrow> string list" where
  "footprintIDs subjectID fp derived = footprint_dedup [] (subjectID # footprint_collect derived (ExclusiveStreams fp))"

definition SubjectFootprintIDs :: "string \<Rightarrow> subject_footprint option \<Rightarrow> string list" where
  "SubjectFootprintIDs subjectID fp = footprintIDs subjectID fp False"

definition SubjectFootprintIDsWithDerived :: "string \<Rightarrow> subject_footprint option \<Rightarrow> string list" where
  "SubjectFootprintIDsWithDerived subjectID fp = footprintIDs subjectID fp True"

definition sharedStreamCount :: "subject_footprint option \<Rightarrow> int" where
  "sharedStreamCount fpo =
     (case fpo of None \<Rightarrow> 0 | Some fp \<Rightarrow> int (length (fp_Streams fp)) - int (length (ExclusiveStreams fpo)))"

definition footprintIDSet :: "string \<Rightarrow> subject_footprint option \<Rightarrow> bool \<Rightarrow> string list" where
  "footprintIDSet subjectID fp derived =
     (if derived then SubjectFootprintIDsWithDerived subjectID fp else SubjectFootprintIDs subjectID fp)"

section \<open>Erasers\<close>

record 'x sibling_ops =
  so_Footprint :: "('x \<Rightarrow> string list \<Rightarrow> 'x \<times> (error + nat)) option"
  so_Legacy :: "('x \<Rightarrow> string \<Rightarrow> 'x \<times> (error + nat)) option"
  so_Counter :: "('x \<Rightarrow> string \<Rightarrow> string list \<Rightarrow> error + nat) option"

definition new_outcome :: "string \<Rightarrow> erasure_outcome" where
  "new_outcome name = \<lparr>eo_Name = name, eo_Erased = 0, eo_Skipped = False, eo_FootprintAware = False,
     eo_SharedStreamsSkipped = 0, eo_Err = None\<rparr>"

definition purgeByFootprint ::
  "string \<Rightarrow> string \<Rightarrow> subject_footprint option \<Rightarrow> string list \<Rightarrow> 'x sibling_ops \<Rightarrow> 'x \<Rightarrow> 'x \<times> erasure_outcome \<times> error option" where
  "purgeByFootprint name subjectID fp ids ops x =
     (case so_Footprint ops of
        Some footprint \<Rightarrow>
          (case footprint x ids of
             (x', Inl err) \<Rightarrow> (x', new_outcome name, Some err)
           | (x', Inr n) \<Rightarrow> (x', (new_outcome name)\<lparr>eo_Erased := int n, eo_FootprintAware := True,
                                   eo_SharedStreamsSkipped := sharedStreamCount fp\<rparr>, None))
      | None \<Rightarrow>
          (case so_Legacy ops of
             Some legacy \<Rightarrow>
               (case legacy x subjectID of
                  (x', Inl err) \<Rightarrow> (x', new_outcome name, Some err)
                | (x', Inr n) \<Rightarrow> (x', (new_outcome name)\<lparr>eo_Erased := int n\<rparr>, None))
           | None \<Rightarrow> (x, (new_outcome name)\<lparr>eo_Skipped := True\<rparr>, None)))"

definition sibling_count :: "bool \<Rightarrow> 'x sibling_ops \<Rightarrow> 'x count_op" where
  "sibling_count derived ops x subjectID fp =
     (case so_Counter ops of
        None \<Rightarrow> Inl ErrResidualCountUnsupported
      | Some counter \<Rightarrow> (case counter x subjectID (footprintIDSet subjectID (Some fp) derived) of
                           Inl e \<Rightarrow> Inl e | Inr n \<Rightarrow> Inr (int n)))"

definition audit_EraseSubject :: "bool \<Rightarrow> 'x sibling_ops \<Rightarrow> 'x erase_op" where
  "audit_EraseSubject derived ops x subjectID fp =
     (if so_Footprint ops = None \<and> so_Legacy ops = None then (x, (new_outcome ''audit'')\<lparr>eo_Skipped := True\<rparr>, None)
      else
        (case (case so_Footprint ops of
                 None \<Rightarrow> (x, new_outcome ''audit'', None)
               | Some purge \<Rightarrow>
                   (case purge x (footprintIDSet subjectID (Some fp) derived) of
                      (x1, Inl err) \<Rightarrow> (x1, new_outcome ''audit'', Some err)
                    | (x1, Inr n) \<Rightarrow> (x1, (new_outcome ''audit'')\<lparr>eo_Erased := int n, eo_FootprintAware := True,
                                           eo_SharedStreamsSkipped := sharedStreamCount (Some fp)\<rparr>, None))) of
           (x1, out, Some err) \<Rightarrow> (x1, out, Some err)
         | (x1, out, None) \<Rightarrow>
             (case so_Legacy ops of
                None \<Rightarrow> (x1, out, None)
              | Some legacy \<Rightarrow>
                  (case legacy x1 subjectID of
                     (x2, Inl err) \<Rightarrow> (x2, out, Some err)
                   | (x2, Inr n) \<Rightarrow> (x2, out\<lparr>eo_Erased := eo_Erased out + int n\<rparr>, None)))))"

definition NewAuditSubjectEraser :: "'x sibling_ops \<Rightarrow> 'x subject_erasable" where
  "NewAuditSubjectEraser ops =
     \<lparr>sb_Name = ''audit'', sb_Erase = audit_EraseSubject False ops, sb_Count = Some (sibling_count False ops),
      sb_Derived = Some (audit_EraseSubject True ops, Some (sibling_count True ops))\<rparr>"

definition store_EraseSubject :: "string \<Rightarrow> bool \<Rightarrow> 'x sibling_ops \<Rightarrow> 'x erase_op" where
  "store_EraseSubject name derived ops x subjectID fp =
     purgeByFootprint name subjectID (Some fp) (footprintIDSet subjectID (Some fp) derived) ops x"

definition store_eraser :: "string \<Rightarrow> 'x sibling_ops \<Rightarrow> 'x subject_erasable" where
  "store_eraser name ops =
     \<lparr>sb_Name = name, sb_Erase = store_EraseSubject name False ops, sb_Count = Some (sibling_count False ops),
      sb_Derived = Some (store_EraseSubject name True ops, Some (sibling_count True ops))\<rparr>"

definition NewSagaSubjectEraser :: "'x sibling_ops \<Rightarrow> 'x subject_erasable" where
  "NewSagaSubjectEraser ops = store_eraser ''saga'' ops"

definition NewOutboxSubjectEraser :: "'x sibling_ops \<Rightarrow> 'x subject_erasable" where
  "NewOutboxSubjectEraser ops = store_eraser ''outbox'' ops"

definition NewIdempotencySubjectEraser :: "'x sibling_ops \<Rightarrow> 'x subject_erasable" where
  "NewIdempotencySubjectEraser ops = store_eraser ''idempotency'' ops"

text \<open>The snapshot eraser deletes what it can and returns the first error.\<close>

fun snapshot_loop ::
  "('x \<Rightarrow> string \<Rightarrow> 'x \<times> error option) \<Rightarrow> string list \<Rightarrow> 'x \<Rightarrow> erasure_outcome \<Rightarrow> error option \<Rightarrow> 'x \<times> erasure_outcome \<times> error option" where
  "snapshot_loop del [] x out firstErr = (x, out, firstErr)"
| "snapshot_loop del (s # ss) x out firstErr =
     (case del x s of
        (x', Some err) \<Rightarrow> snapshot_loop del ss x' out (case firstErr of None \<Rightarrow> Some err | Some e \<Rightarrow> Some e)
      | (x', None) \<Rightarrow> snapshot_loop del ss x' (out\<lparr>eo_Erased := eo_Erased out + 1\<rparr>) firstErr)"

definition snapshot_EraseSubject :: "('x \<Rightarrow> string \<Rightarrow> 'x \<times> error option) \<Rightarrow> 'x erase_op" where
  "snapshot_EraseSubject del x subjectID fp =
     (let out = (new_outcome ''snapshot'')\<lparr>eo_FootprintAware := True\<rparr>
      in if length (fp_Streams fp) = 0 then (x, out, None) else snapshot_loop del (fp_Streams fp) x out None)"

fun snapshot_count :: "('x \<Rightarrow> string \<Rightarrow> error + snapshot_record option) \<Rightarrow> string list \<Rightarrow> 'x \<Rightarrow> int \<Rightarrow> error + int" where
  "snapshot_count load [] x n = Inr n"
| "snapshot_count load (s # ss) x n =
     (case load x s of
        Inl err \<Rightarrow> Inl err
      | Inr snap \<Rightarrow> snapshot_count load ss x (if snap \<noteq> None then n + 1 else n))"

definition NewSnapshotSubjectEraser ::
  "('x \<Rightarrow> string \<Rightarrow> 'x \<times> error option) \<Rightarrow> ('x \<Rightarrow> string \<Rightarrow> error + snapshot_record option) \<Rightarrow> 'x subject_erasable" where
  "NewSnapshotSubjectEraser del load =
     \<lparr>sb_Name = ''snapshot'', sb_Erase = snapshot_EraseSubject del,
      sb_Count = Some (\<lambda>x subjectID fp. if length (fp_Streams fp) = 0 then Inr 0 else snapshot_count load (fp_Streams fp) x 0),
      sb_Derived = None\<rparr>"

section \<open>The in-memory stores\<close>

record sibling_world =
  sib_audit :: audit_store
  sib_sagas :: saga_store
  sib_outbox :: outbox_store
  sib_idem :: idempotency_store
  sib_snapshots :: memory_adapter

definition audit_ops :: "sibling_world sibling_ops" where
  "audit_ops =
     \<lparr>so_Footprint = Some (\<lambda>x ids. let (s, r) = DeleteAuditByAggregateIDs None (sib_audit x) ids in (x\<lparr>sib_audit := s\<rparr>, r)),
      so_Legacy = Some (\<lambda>x sid. let (s, r) = DeleteAuditBySubject None (sib_audit x) sid in (x\<lparr>sib_audit := s\<rparr>, r)),
      so_Counter = Some (\<lambda>x sid ids. CountAuditBySubject None (sib_audit x) sid ids)\<rparr>"

definition saga_ops :: "sibling_world sibling_ops" where
  "saga_ops =
     \<lparr>so_Footprint = Some (\<lambda>x ids. let (s, r) = DeleteSagasByCorrelationIDs None (sib_sagas x) ids in (x\<lparr>sib_sagas := s\<rparr>, r)),
      so_Legacy = Some (\<lambda>x sid. let (s, r) = DeleteSagasBySubject None (sib_sagas x) sid in (x\<lparr>sib_sagas := s\<rparr>, r)),
      so_Counter = Some (\<lambda>x sid ids. CountSagasByCorrelationIDs None (sib_sagas x) ids)\<rparr>"

definition outbox_ops :: "sibling_world sibling_ops" where
  "outbox_ops =
     \<lparr>so_Footprint = Some (\<lambda>x ids. let (s, r) = DeleteOutboxByAggregateIDs None (sib_outbox x) ids in (x\<lparr>sib_outbox := s\<rparr>, r)),
      so_Legacy = Some (\<lambda>x sid. let (s, r) = DeleteOutboxBySubject None (sib_outbox x) sid in (x\<lparr>sib_outbox := s\<rparr>, r)),
      so_Counter = Some (\<lambda>x sid ids. CountOutboxByAggregateIDs None (sib_outbox x) ids)\<rparr>"

definition idempotency_ops :: "sibling_world sibling_ops" where
  "idempotency_ops =
     \<lparr>so_Footprint = Some (\<lambda>x ids. let (s, r) = DeleteIdempotencyByAggregateIDs None (sib_idem x) ids in (x\<lparr>sib_idem := s\<rparr>, r)),
      so_Legacy = Some (\<lambda>x sid. let (s, n) = DeleteIdempotencyBySubject (sib_idem x) sid in (x\<lparr>sib_idem := s\<rparr>, Inr n)),
      so_Counter = Some (\<lambda>x sid ids. CountIdempotencyByAggregateIDs None (sib_idem x) ids)\<rparr>"

definition snapshot_delete :: "sibling_world \<Rightarrow> string \<Rightarrow> sibling_world \<times> error option" where
  "snapshot_delete x sid = (let (a, err) = DeleteSnapshot None (sib_snapshots x) sid in (x\<lparr>sib_snapshots := a\<rparr>, err))"

definition snapshot_load :: "sibling_world \<Rightarrow> string \<Rightarrow> error + snapshot_record option" where
  "snapshot_load x sid = LoadSnapshot None (sib_snapshots x) sid"

definition builtin_erasers :: "sibling_world subject_erasable list" where
  "builtin_erasers =
     [NewAuditSubjectEraser audit_ops, NewSagaSubjectEraser saga_ops, NewOutboxSubjectEraser outbox_ops,
      NewIdempotencySubjectEraser idempotency_ops, NewSnapshotSubjectEraser snapshot_delete snapshot_load]"

text \<open>The list the eraser works with, with or without \<^verbatim>\<open>WithDerivedAggregateIDs\<close>.\<close>

definition mem_erasers :: "bool \<Rightarrow> sibling_world subject_erasable list" where
  "mem_erasers derived = (if derived then map withDerivedAggregateIDs builtin_erasers else builtin_erasers)"

section \<open>Erasers that prove themselves\<close>

text \<open>What the data eraser may rely on: an eraser does not fail, its counter reports zero right after
  it has run, and no other eraser brings rows back.\<close>

locale sibling_erasers =
  fixes stores :: "'x subject_erasable list"
    and ok :: "'x \<Rightarrow> bool"
  assumes erases: "s \<in> set stores \<Longrightarrow> ok x \<Longrightarrow> sb_Erase s x sid fp = (x', out, err) \<Longrightarrow>
      ok x' \<and> err = None \<and> (\<exists>c. sb_Count s = Some c \<and> c x' sid fp = Inr 0)"
    and keeps: "s \<in> set stores \<Longrightarrow> s' \<in> set stores \<Longrightarrow> ok x \<Longrightarrow> sb_Count s' = Some c \<Longrightarrow> c x sid fp = Inr 0 \<Longrightarrow>
      sb_Erase s x sid fp = (x', out, err) \<Longrightarrow> c x' sid fp = Inr 0"
begin

definition clean :: "'x subject_erasable list \<Rightarrow> 'x \<Rightarrow> string \<Rightarrow> subject_footprint \<Rightarrow> bool" where
  "clean ss x sid fp \<longleftrightarrow> (\<forall>s \<in> set ss. \<exists>c. sb_Count s = Some c \<and> c x sid fp = Inr 0)"

lemma loop_cleans:
  assumes "set dn \<subseteq> set stores" and "set ss \<subseteq> set stores" and "ok x" and "clean dn x sid fp"
    and "erase_store_loop ss sid fp x sk r = (x', sk', r')"
  shows "ok x' \<and> clean (dn @ ss) x' sid fp \<and> rs_Errors r' = rs_Errors r"
  using assms
proof (induction ss arbitrary: dn x sk r)
  case (Cons s ss)
  obtain x1 out err where er: "sb_Erase s x sid fp = (x1, out, err)" by (rule prod_cases3)
  have s: "s \<in> set stores" using Cons.prems(2) by simp
  note e = erases [OF s Cons.prems(3) er]
  have dn: "clean (dn @ [s]) x1 sid fp"
    using Cons.prems(1,4) keeps [OF s _ Cons.prems(3) _ _ er] e by (fastforce simp: clean_def)
  obtain sk2 o2 where step: "erase_store_loop (s # ss) sid fp x sk r =
      erase_store_loop ss sid fp x1 sk2 (r\<lparr>rs_SubjectStores := rs_SubjectStores r @ [o2]\<rparr>)"
    using e by (auto simp: er Let_def)
  have "ok x' \<and> clean ((dn @ [s]) @ ss) x' sid fp \<and>
      rs_Errors r' = rs_Errors (r\<lparr>rs_SubjectStores := rs_SubjectStores r @ [o2]\<rparr>)"
    using Cons.IH [OF _ _ _ dn] Cons.prems e unfolding step by simp
  then show ?case by simp
qed simp

lemma clean_counts:
  "clean ss x sid fp \<Longrightarrow> countSubjectResiduals ss x sid fp vd rep = (vd @ map sb_Name ss, rep, None)"
proof (induction ss arbitrary: vd)
  case (Cons s ss)
  then obtain c where "sb_Count s = Some c" "c x sid fp = Inr 0" by (auto simp: clean_def)
  then show ?case using Cons by (simp add: clean_def)
qed simp

lemma erased_stores_count_zero:
  assumes "ok x" and "erase_store_loop stores sid fp x sk r = (x', sk', r')"
  shows "countSubjectResiduals stores x' sid fp [] rep = (map sb_Name stores, rep, None)" and "rs_Errors r' = rs_Errors r"
  using loop_cleans [of "[]" stores, OF _ _ assms(1) _ assms(2)] clean_counts [of stores x' sid fp "[]" rep]
  by (simp_all add: clean_def)

end

section \<open>The built-in erasers\<close>

lemma CountAudit_eq:
  "CountAuditBySubject None s sid ids =
     Inr (length (filter (\<lambda>e. sid \<noteq> [] \<and> ae_Actor e = sid \<or> ae_AggregateID e \<in> set ids - {[]}) (as_entries s)))"
proof (cases "idSet ids")
  case None
  then have "i \<in> set ids - {[]} \<longleftrightarrow> False" for i by (auto simp: idSet_None_iff)
  then show ?thesis by (simp add: CountAuditBySubject_def None del: Diff_iff)
next
  case (Some st)
  then show ?thesis by (simp add: CountAuditBySubject_def idSet_Some [OF Some])
qed

lemma DeleteAudit_eq:
  "DeleteAuditByAggregateIDs None s ids =
     (\<lparr>as_entries = filter (\<lambda>e. ae_AggregateID e \<notin> set ids - {[]}) (as_entries s)\<rparr>,
      Inr (length (filter (\<lambda>e. ae_AggregateID e \<in> set ids - {[]}) (as_entries s))))"
proof (cases "idSet ids")
  case None
  then have "i \<in> set ids - {[]} \<longleftrightarrow> False" for i by (auto simp: idSet_None_iff)
  then show ?thesis by (cases s) (simp add: DeleteAuditByAggregateIDs_def None del: Diff_iff)
next
  case (Some st)
  then show ?thesis by (simp add: DeleteAuditByAggregateIDs_def audit_purge_def idSet_Some [OF Some])
qed

text \<open>What each eraser leaves: \<open>ids\<close> are the footprint ids.\<close>

definition audit_kept :: "string \<Rightarrow> string list \<Rightarrow> audit_entry \<Rightarrow> bool" where
  "audit_kept sid ids e \<longleftrightarrow> ae_AggregateID e \<notin> set ids - {[]} \<and> (sid = [] \<or> ae_Actor e \<noteq> sid \<and> ae_AggregateID e \<noteq> sid)"

lemma audit_erase:
  "\<exists>out. audit_EraseSubject derived audit_ops x sid fp =
     (x\<lparr>sib_audit := \<lparr>as_entries = filter (audit_kept sid (footprintIDSet sid (Some fp) derived)) (as_entries (sib_audit x))\<rparr>\<rparr>, out, None)"
  by (auto simp: audit_EraseSubject_def audit_ops_def DeleteAudit_eq DeleteAuditBySubject_def audit_purge_def audit_kept_def [abs_def]
      conj_commute intro!: arg_cong [where f = "\<lambda>y. x\<lparr>sib_audit := y\<rparr>"])

lemma audit_count_after:
  "sibling_count derived audit_ops (x\<lparr>sib_audit := \<lparr>as_entries = filter (audit_kept sid (footprintIDSet sid (Some fp) derived)) es\<rparr>\<rparr>) sid fp = Inr 0"
  by (auto simp: sibling_count_def audit_ops_def CountAudit_eq audit_kept_def filter_empty_conv)

text \<open>The three stores that are keyed by an owner share the law of their footprint purge.\<close>

lemma store_erase:
  "\<exists>out. store_EraseSubject n derived saga_ops x sid fp =
     (x\<lparr>sib_sagas := fst (DeleteSagasByCorrelationIDs None (sib_sagas x) (footprintIDSet sid (Some fp) derived))\<rparr>, out, None)"
  "\<exists>out. store_EraseSubject n derived outbox_ops x sid fp =
     (x\<lparr>sib_outbox := fst (DeleteOutboxByAggregateIDs None (sib_outbox x) (footprintIDSet sid (Some fp) derived))\<rparr>, out, None)"
  "\<exists>out. store_EraseSubject n derived idempotency_ops x sid fp =
     (x\<lparr>sib_idem := fst (DeleteIdempotencyByAggregateIDs None (sib_idem x) (footprintIDSet sid (Some fp) derived))\<rparr>, out, None)"
proof -
  let ?ids = "footprintIDSet sid (Some fp) derived"
  show "\<exists>out. store_EraseSubject n derived saga_ops x sid fp = (x\<lparr>sib_sagas := fst (DeleteSagasByCorrelationIDs None (sib_sagas x) ?ids)\<rparr>, out, None)"
    using saga_footprint.del_count [of "sib_sagas x" ?ids]
    by (cases "DeleteSagasByCorrelationIDs None (sib_sagas x) ?ids") (simp add: store_EraseSubject_def purgeByFootprint_def saga_ops_def)
  show "\<exists>out. store_EraseSubject n derived outbox_ops x sid fp = (x\<lparr>sib_outbox := fst (DeleteOutboxByAggregateIDs None (sib_outbox x) ?ids)\<rparr>, out, None)"
    using outbox_footprint.del_count [of "sib_outbox x" ?ids]
    by (cases "DeleteOutboxByAggregateIDs None (sib_outbox x) ?ids") (simp add: store_EraseSubject_def purgeByFootprint_def outbox_ops_def)
  show "\<exists>out. store_EraseSubject n derived idempotency_ops x sid fp = (x\<lparr>sib_idem := fst (DeleteIdempotencyByAggregateIDs None (sib_idem x) ?ids)\<rparr>, out, None)"
    using idem_footprint.del_count [of "sib_idem x" ?ids]
    by (cases "DeleteIdempotencyByAggregateIDs None (sib_idem x) ?ids") (simp add: store_EraseSubject_def purgeByFootprint_def idempotency_ops_def)
qed

lemma store_count_after:
  "sibling_count derived saga_ops (x\<lparr>sib_sagas := fst (DeleteSagasByCorrelationIDs None s (footprintIDSet sid (Some fp) derived))\<rparr>) sid fp = Inr 0"
  "sibling_count derived outbox_ops (x\<lparr>sib_outbox := fst (DeleteOutboxByAggregateIDs None ob (footprintIDSet sid (Some fp) derived))\<rparr>) sid fp = Inr 0"
  "sibling_count derived idempotency_ops (x\<lparr>sib_idem := fst (DeleteIdempotencyByAggregateIDs None i (footprintIDSet sid (Some fp) derived))\<rparr>) sid fp = Inr 0"
  by (simp_all add: sibling_count_def saga_ops_def outbox_ops_def idempotency_ops_def saga_footprint.purge_then_count_zero
      outbox_footprint.purge_then_count_zero idem_footprint.purge_then_count_zero)

lemma map_of_delete_all: "map_of (fold AList.delete ss m) k = (if k \<in> set ss then None else map_of m k)"
  by (induction ss arbitrary: m) (auto simp: delete_conv')

lemma snapshot_loop_run:
  "\<not> ma_closed (sib_snapshots x) \<Longrightarrow> \<exists>out'. snapshot_loop snapshot_delete ss x out None =
     (x\<lparr>sib_snapshots := (sib_snapshots x)\<lparr>ma_snapshots := fold AList.delete ss (ma_snapshots (sib_snapshots x))\<rparr>\<rparr>, out', None)"
proof (induction ss arbitrary: x out)
  case (Cons s ss)
  let ?x = "x\<lparr>sib_snapshots := (sib_snapshots x)\<lparr>ma_snapshots := AList.delete s (ma_snapshots (sib_snapshots x))\<rparr>\<rparr>"
  have "snapshot_delete x s = (?x, None)" using Cons.prems by (simp add: snapshot_delete_def DeleteSnapshot_def)
  then show ?case using Cons.IH [of ?x] Cons.prems by simp
qed simp

lemma snapshot_erase:
  assumes "\<not> ma_closed (sib_snapshots x)"
  shows "\<exists>out. snapshot_EraseSubject snapshot_delete x sid fp =
     (x\<lparr>sib_snapshots := (sib_snapshots x)\<lparr>ma_snapshots := fold AList.delete (fp_Streams fp) (ma_snapshots (sib_snapshots x))\<rparr>\<rparr>, out, None)"
  using snapshot_loop_run [OF assms, of "fp_Streams fp"] by (auto simp: snapshot_EraseSubject_def Let_def)

lemma snapshot_count_zero:
  assumes "\<not> ma_closed (sib_snapshots x)" and "\<forall>s \<in> set ss. map_of (ma_snapshots (sib_snapshots x)) s = None"
  shows "snapshot_count snapshot_load ss x n = Inr n"
  using assms(2) by (induction ss) (use assms(1) in \<open>simp_all add: snapshot_load_def LoadSnapshot_def guarded_def\<close>)

text \<open>An eraser writes its own store only, and its counter reads it only.\<close>

definition mem_ops :: "bool \<Rightarrow> (sibling_world erase_op \<times> sibling_world count_op) list" where
  "mem_ops d =
     [(audit_EraseSubject d audit_ops, sibling_count d audit_ops), (store_EraseSubject ''saga'' d saga_ops, sibling_count d saga_ops),
      (store_EraseSubject ''outbox'' d outbox_ops, sibling_count d outbox_ops),
      (store_EraseSubject ''idempotency'' d idempotency_ops, sibling_count d idempotency_ops),
      (snapshot_EraseSubject snapshot_delete, \<lambda>x sid fp. if length (fp_Streams fp) = 0 then Inr 0 else snapshot_count snapshot_load (fp_Streams fp) x 0)]"

lemma mem_erasers_ops: "map (\<lambda>s. (sb_Erase s, sb_Count s)) (mem_erasers d) = map (\<lambda>(e, c). (e, Some c)) (mem_ops d)"
  by (simp add: mem_erasers_def builtin_erasers_def mem_ops_def NewAuditSubjectEraser_def NewSagaSubjectEraser_def
      NewOutboxSubjectEraser_def NewIdempotencySubjectEraser_def NewSnapshotSubjectEraser_def store_eraser_def withDerivedAggregateIDs_def)

lemma mem_eraser_op: "s \<in> set (mem_erasers d) \<Longrightarrow> \<exists>c. sb_Count s = Some c \<and> (sb_Erase s, c) \<in> set (mem_ops d)"
proof -
  assume "s \<in> set (mem_erasers d)"
  then have "(sb_Erase s, sb_Count s) \<in> set (map (\<lambda>s. (sb_Erase s, sb_Count s)) (mem_erasers d))" by auto
  then show ?thesis unfolding mem_erasers_ops by auto
qed

lemma count_frames:
  "sibling_count d audit_ops (x\<lparr>sib_sagas := a\<rparr>) = sibling_count d audit_ops x"
  "sibling_count d audit_ops (x\<lparr>sib_outbox := b\<rparr>) = sibling_count d audit_ops x"
  "sibling_count d audit_ops (x\<lparr>sib_idem := c\<rparr>) = sibling_count d audit_ops x"
  "sibling_count d audit_ops (x\<lparr>sib_snapshots := m\<rparr>) = sibling_count d audit_ops x"
  "sibling_count d saga_ops (x\<lparr>sib_audit := s\<rparr>) = sibling_count d saga_ops x"
  "sibling_count d saga_ops (x\<lparr>sib_outbox := b\<rparr>) = sibling_count d saga_ops x"
  "sibling_count d saga_ops (x\<lparr>sib_idem := c\<rparr>) = sibling_count d saga_ops x"
  "sibling_count d saga_ops (x\<lparr>sib_snapshots := m\<rparr>) = sibling_count d saga_ops x"
  "sibling_count d outbox_ops (x\<lparr>sib_audit := s\<rparr>) = sibling_count d outbox_ops x"
  "sibling_count d outbox_ops (x\<lparr>sib_sagas := a\<rparr>) = sibling_count d outbox_ops x"
  "sibling_count d outbox_ops (x\<lparr>sib_idem := c\<rparr>) = sibling_count d outbox_ops x"
  "sibling_count d outbox_ops (x\<lparr>sib_snapshots := m\<rparr>) = sibling_count d outbox_ops x"
  "sibling_count d idempotency_ops (x\<lparr>sib_audit := s\<rparr>) = sibling_count d idempotency_ops x"
  "sibling_count d idempotency_ops (x\<lparr>sib_sagas := a\<rparr>) = sibling_count d idempotency_ops x"
  "sibling_count d idempotency_ops (x\<lparr>sib_outbox := b\<rparr>) = sibling_count d idempotency_ops x"
  "sibling_count d idempotency_ops (x\<lparr>sib_snapshots := m\<rparr>) = sibling_count d idempotency_ops x"
  by (rule ext, simp add: sibling_count_def audit_ops_def saga_ops_def outbox_ops_def idempotency_ops_def)+

lemma snapshot_count_frame:
  assumes "sib_snapshots x' = sib_snapshots x"
  shows "snapshot_count snapshot_load ss x' n = snapshot_count snapshot_load ss x n"
  by (induction ss arbitrary: n) (simp_all add: snapshot_load_def assms split: sum.split)

lemma snapshot_count_frames:
  "snapshot_count snapshot_load ss (x\<lparr>sib_audit := s\<rparr>) n = snapshot_count snapshot_load ss x n"
  "snapshot_count snapshot_load ss (x\<lparr>sib_sagas := a\<rparr>) n = snapshot_count snapshot_load ss x n"
  "snapshot_count snapshot_load ss (x\<lparr>sib_outbox := b\<rparr>) n = snapshot_count snapshot_load ss x n"
  "snapshot_count snapshot_load ss (x\<lparr>sib_idem := c\<rparr>) n = snapshot_count snapshot_load ss x n"
  by (rule snapshot_count_frame; simp)+

lemma mem_op_cases:
  assumes "(er, ct) \<in> set (mem_ops d)"
  obtains (audit) "er = audit_EraseSubject d audit_ops" "ct = sibling_count d audit_ops"
    | (saga) "er = store_EraseSubject ''saga'' d saga_ops" "ct = sibling_count d saga_ops"
    | (outbox) "er = store_EraseSubject ''outbox'' d outbox_ops" "ct = sibling_count d outbox_ops"
    | (idem) "er = store_EraseSubject ''idempotency'' d idempotency_ops" "ct = sibling_count d idempotency_ops"
    | (snap) "er = snapshot_EraseSubject snapshot_delete"
      "ct = (\<lambda>x sid fp. if length (fp_Streams fp) = 0 then Inr 0 else snapshot_count snapshot_load (fp_Streams fp) x 0)"
  using assms by (auto simp: mem_ops_def)

lemma mem_erase_own:
  assumes "(er, ct) \<in> set (mem_ops d)" and "\<not> ma_closed (sib_snapshots x)" and "er x sid fp = (x', out, err)"
  shows "err = None \<and> ct x' sid fp = Inr 0 \<and> \<not> ma_closed (sib_snapshots x')"
  using assms(1)
proof (cases rule: mem_op_cases)
  case audit
  then show ?thesis using assms(2,3) audit_erase [of d x sid fp] by (auto simp: audit_count_after)
next
  case saga
  then show ?thesis using assms(2,3) store_erase(1) [of "''saga''" d x sid fp] by (auto simp: store_count_after)
next
  case outbox
  then show ?thesis using assms(2,3) store_erase(2) [of "''outbox''" d x sid fp] by (auto simp: store_count_after)
next
  case idem
  then show ?thesis using assms(2,3) store_erase(3) [of "''idempotency''" d x sid fp] by (auto simp: store_count_after)
next
  case snap
  then show ?thesis
    using assms(2,3) snapshot_erase [OF assms(2), of sid fp] by (auto simp: snapshot_count_zero map_of_delete_all)
qed

text \<open>An eraser that leaves the store of a counter alone leaves its count alone.\<close>

lemma count_frame:
  assumes "(er, ct) \<in> set (mem_ops d)" and "ct x sid fp = Inr 0"
  shows "ct = sibling_count d audit_ops \<or> ct (x\<lparr>sib_audit := s\<rparr>) sid fp = Inr 0"
    and "ct = sibling_count d saga_ops \<or> ct (x\<lparr>sib_sagas := a\<rparr>) sid fp = Inr 0"
    and "ct = sibling_count d outbox_ops \<or> ct (x\<lparr>sib_outbox := b\<rparr>) sid fp = Inr 0"
    and "ct = sibling_count d idempotency_ops \<or> ct (x\<lparr>sib_idem := c\<rparr>) sid fp = Inr 0"
    and "ct = (\<lambda>x sid fp. if length (fp_Streams fp) = 0 then Inr 0 else snapshot_count snapshot_load (fp_Streams fp) x 0) \<or>
      ct (x\<lparr>sib_snapshots := m\<rparr>) sid fp = Inr 0"
proof -
  note facts = count_frames snapshot_count_frames simp_thms
  from assms(1) have "(ct = sibling_count d audit_ops \<or> ct (x\<lparr>sib_audit := s\<rparr>) sid fp = Inr 0) \<and>
    (ct = sibling_count d saga_ops \<or> ct (x\<lparr>sib_sagas := a\<rparr>) sid fp = Inr 0) \<and>
    (ct = sibling_count d outbox_ops \<or> ct (x\<lparr>sib_outbox := b\<rparr>) sid fp = Inr 0) \<and>
    (ct = sibling_count d idempotency_ops \<or> ct (x\<lparr>sib_idem := c\<rparr>) sid fp = Inr 0) \<and>
    (ct = (\<lambda>x sid fp. if length (fp_Streams fp) = 0 then Inr 0 else snapshot_count snapshot_load (fp_Streams fp) x 0) \<or>
      ct (x\<lparr>sib_snapshots := m\<rparr>) sid fp = Inr 0)"
  proof (cases rule: mem_op_cases)
    case audit
    show ?thesis using assms(2) unfolding audit(2) by (simp only: facts)
  next
    case saga
    show ?thesis using assms(2) unfolding saga(2) by (simp only: facts)
  next
    case outbox
    show ?thesis using assms(2) unfolding outbox(2) by (simp only: facts)
  next
    case idem
    show ?thesis using assms(2) unfolding idem(2) by (simp only: facts)
  next
    case snap
    show ?thesis using assms(2) unfolding snap(2) by (simp only: facts)
  qed
  then show "ct = sibling_count d audit_ops \<or> ct (x\<lparr>sib_audit := s\<rparr>) sid fp = Inr 0"
    "ct = sibling_count d saga_ops \<or> ct (x\<lparr>sib_sagas := a\<rparr>) sid fp = Inr 0"
    "ct = sibling_count d outbox_ops \<or> ct (x\<lparr>sib_outbox := b\<rparr>) sid fp = Inr 0"
    "ct = sibling_count d idempotency_ops \<or> ct (x\<lparr>sib_idem := c\<rparr>) sid fp = Inr 0"
    "ct = (\<lambda>x sid fp. if length (fp_Streams fp) = 0 then Inr 0 else snapshot_count snapshot_load (fp_Streams fp) x 0) \<or>
      ct (x\<lparr>sib_snapshots := m\<rparr>) sid fp = Inr 0"
    by - (elim conjE; assumption)+
qed

lemma mem_erase_other:
  assumes "(er, ct) \<in> set (mem_ops d)" and "(er', ct') \<in> set (mem_ops d)" and "\<not> ma_closed (sib_snapshots x)"
    and run: "er x sid fp = (x', out, err)" and "ct' x sid fp = Inr 0"
  shows "ct' x' sid fp = Inr 0"
proof -
  have own: "ct x' sid fp = Inr 0" using mem_erase_own [OF assms(1,3,4)] by blast
  note frame = count_frame [OF assms(2,5)]
  from assms(1) show ?thesis
  proof (cases rule: mem_op_cases)
    case audit
    then show ?thesis using frame(1) own run audit_erase [of d x sid fp] by auto
  next
    case saga
    then show ?thesis using frame(2) own run store_erase(1) [of "''saga''" d x sid fp] by auto
  next
    case outbox
    then show ?thesis using frame(3) own run store_erase(2) [of "''outbox''" d x sid fp] by auto
  next
    case idem
    then show ?thesis using frame(4) own run store_erase(3) [of "''idempotency''" d x sid fp] by auto
  next
    case snap
    then show ?thesis using frame(5) own run snapshot_erase [OF assms(3), of sid fp] by auto
  qed
qed

interpretation mem_siblings: sibling_erasers "mem_erasers d" "\<lambda>x. \<not> ma_closed (sib_snapshots x)" for d
proof (unfold_locales, goal_cases)
  case (1 s x sid fp x' out err)
  from mem_eraser_op [OF 1(1)] obtain c where "sb_Count s = Some c" "(sb_Erase s, c) \<in> set (mem_ops d)" by blast
  then show ?case using mem_erase_own [of "sb_Erase s" c, OF _ 1(2,3)] by blast
next
  case (2 s s' x c sid fp x' out err)
  from mem_eraser_op [OF 2(1)] mem_eraser_op [OF 2(2)] 2(4) obtain c0 where
    "(sb_Erase s, c0) \<in> set (mem_ops d)" "(sb_Erase s', c) \<in> set (mem_ops d)" by auto
  from mem_erase_other [OF this 2(3,6,5)] show ?case .
qed

section \<open>The whole run\<close>

lemma erase_store_loop_footprint:
  "erase_store_loop ss sid fp x sk r = (x', sk', r') \<Longrightarrow> footprint_from r' i = footprint_from r i"
proof (induction ss arbitrary: x sk r)
  case (Cons s ss)
  obtain x1 out err where er: "sb_Erase s x sid fp = (x1, out, err)" by (rule prod_cases3)
  let ?r1 = "case err of None \<Rightarrow> r | Some e \<Rightarrow> r\<lparr>rs_Errors := rs_Errors r @ [Wrap ''subject store'' e]\<rparr>"
  obtain o2 sk2 where step: "erase_store_loop (s # ss) sid fp x sk r =
      erase_store_loop ss sid fp x1 sk2 (?r1\<lparr>rs_SubjectStores := rs_SubjectStores ?r1 @ [o2]\<rparr>)"
    by (simp add: er Let_def)
  from Cons.IH [OF Cons.prems [unfolded step]] show ?case by (simp add: footprint_from_def split: option.splits)
qed simp

lemma mem_eraser_names: "map sb_Name (mem_erasers d) = [''audit'', ''saga'', ''outbox'', ''idempotency'', ''snapshot'']"
  by (simp add: mem_erasers_def builtin_erasers_def NewAuditSubjectEraser_def NewSagaSubjectEraser_def
      NewOutboxSubjectEraser_def NewIdempotencySubjectEraser_def NewSnapshotSubjectEraser_def store_eraser_def withDerivedAggregateIDs_def)

lemma stores_run:
  assumes "de_subjectStores e = mem_erasers d" and "eraseSubjectStores e sid x r = (x', r')"
  obtains sk r1 where "erase_store_loop (mem_erasers d) sid (footprint_from r sid) x [] r = (x', sk, r1)"
    and "footprint_from r' sid = footprint_from r1 sid" and "rs_Errors r' = rs_Errors r1"
proof -
  obtain x1 sk r1 where lp: "erase_store_loop (mem_erasers d) sid (footprint_from r sid) x [] r = (x1, sk, r1)" by (rule prod_cases3)
  have "length (mem_erasers d) \<noteq> 0" using mem_eraser_names [of d] by (metis list.distinct(1) length_0_conv length_map)
  then have "(x', r') = (x1, if length sk > 0
      then r1\<lparr>rs_Notes := rs_Notes r1 @ [SharedStreamsNote (length (rs_SharedStreams r1)) (length (rs_Streams r1)) sk]\<rparr> else r1)"
    using assms(2) unfolding eraseSubjectStores_def assms(1) lp prod.case by simp
  then show thesis using lp by (intro that [of sk r1]) (auto simp: footprint_from_def)
qed

lemma loop_step:
  assumes "sb_Erase s x sid fp = (x1, out, err)"
  obtains sk2 r2 where "erase_store_loop (s # ss) sid fp x sk r = erase_store_loop ss sid fp x1 sk2 r2"
  using assms by (simp add: Let_def)

text \<open>What is left in each store.\<close>

lemma mem_loop_effect:
  assumes "\<not> ma_closed (sib_snapshots x)" and "erase_store_loop (mem_erasers d) sid fp x sk r = (x', sk', r')"
  shows "as_entries (sib_audit x') = filter (audit_kept sid (footprintIDSet sid (Some fp) d)) (as_entries (sib_audit x))"
    and "sib_sagas x' = fst (DeleteSagasByCorrelationIDs None (sib_sagas x) (footprintIDSet sid (Some fp) d))"
    and "sib_outbox x' = fst (DeleteOutboxByAggregateIDs None (sib_outbox x) (footprintIDSet sid (Some fp) d))"
    and "sib_idem x' = fst (DeleteIdempotencyByAggregateIDs None (sib_idem x) (footprintIDSet sid (Some fp) d))"
proof -
  obtain s1 s2 s3 s4 s5 where ss: "mem_erasers d = [s1, s2, s3, s4, s5]"
    and ers: "sb_Erase s1 = audit_EraseSubject d audit_ops" "sb_Erase s2 = store_EraseSubject ''saga'' d saga_ops"
      "sb_Erase s3 = store_EraseSubject ''outbox'' d outbox_ops" "sb_Erase s4 = store_EraseSubject ''idempotency'' d idempotency_ops"
      "sb_Erase s5 = snapshot_EraseSubject snapshot_delete"
    by (cases d; simp add: mem_erasers_def builtin_erasers_def NewAuditSubjectEraser_def NewSagaSubjectEraser_def
        NewOutboxSubjectEraser_def NewIdempotencySubjectEraser_def NewSnapshotSubjectEraser_def store_eraser_def withDerivedAggregateIDs_def)
  let ?ids = "footprintIDSet sid (Some fp) d"
  let ?x1 = "x\<lparr>sib_audit := \<lparr>as_entries = filter (audit_kept sid ?ids) (as_entries (sib_audit x))\<rparr>\<rparr>"
  let ?x2 = "?x1\<lparr>sib_sagas := fst (DeleteSagasByCorrelationIDs None (sib_sagas ?x1) ?ids)\<rparr>"
  let ?x3 = "?x2\<lparr>sib_outbox := fst (DeleteOutboxByAggregateIDs None (sib_outbox ?x2) ?ids)\<rparr>"
  let ?x4 = "?x3\<lparr>sib_idem := fst (DeleteIdempotencyByAggregateIDs None (sib_idem ?x3) ?ids)\<rparr>"
  have "\<not> ma_closed (sib_snapshots ?x4)" using assms(1) by simp
  then obtain m o5 where e5: "sb_Erase s5 ?x4 sid fp = (?x4\<lparr>sib_snapshots := m\<rparr>, o5, None)"
    unfolding ers(5) using snapshot_erase by blast
  obtain o1 o2 o3 o4 where e: "sb_Erase s1 x sid fp = (?x1, o1, None)" "sb_Erase s2 ?x1 sid fp = (?x2, o2, None)"
    "sb_Erase s3 ?x2 sid fp = (?x3, o3, None)" "sb_Erase s4 ?x3 sid fp = (?x4, o4, None)"
    unfolding ers using audit_erase [of d x sid fp] store_erase(1) [of "''saga''" d ?x1 sid fp]
      store_erase(2) [of "''outbox''" d ?x2 sid fp] store_erase(3) [of "''idempotency''" d ?x3 sid fp] by blast
  obtain sk5 r5 where "erase_store_loop (mem_erasers d) sid fp x sk r = (?x4\<lparr>sib_snapshots := m\<rparr>, sk5, r5)"
    unfolding ss by (metis loop_step [OF e(1)] loop_step [OF e(2)] loop_step [OF e(3)] loop_step [OF e(4)] loop_step [OF e5] erase_store_loop.simps(1))
  then have x': "x' = ?x4\<lparr>sib_snapshots := m\<rparr>" using assms(2) by simp
  show "as_entries (sib_audit x') = filter (audit_kept sid ?ids) (as_entries (sib_audit x))"
    "sib_sagas x' = fst (DeleteSagasByCorrelationIDs None (sib_sagas x) ?ids)"
    "sib_outbox x' = fst (DeleteOutboxByAggregateIDs None (sib_outbox x) ?ids)"
    "sib_idem x' = fst (DeleteIdempotencyByAggregateIDs None (sib_idem x) ?ids)"
    unfolding x' by simp_all
qed

lemma set_footprint_dedup: "set (footprint_dedup seen ids) = set ids - {[]} - set seen"
  by (induction seen ids rule: footprint_dedup.induct) auto

lemma set_footprint_ids:
  "set (footprintIDSet sid (Some fp) False) = insert sid (set (ExclusiveStreams (Some fp))) - {[]}"
proof -
  have "footprint_collect False ss = ss" for ss by (induction ss) simp_all
  then show ?thesis
    by (simp add: footprintIDSet_def SubjectFootprintIDs_def footprintIDs_def set_footprint_dedup del: footprint_dedup.simps)
qed

lemma shared_not_purged:
  assumes "s \<in> set (fp_SharedStreams fp)" and "s \<noteq> sid"
  shows "s \<notin> set (footprintIDSet sid (Some fp) False)"
  using assms by (auto simp: set_footprint_ids ExclusiveStreams_def split: if_splits)

section \<open>Properties\<close>

text \<open>C24: the sibling stores of an erasure prove themselves clean.  With the five built-in erasers
  over in-memory stores, with or without derived aggregate ids, whatever the stores hold and whatever
  footprint the erasure has: the purge reports no error, and the residual count the certificate is built
  from finds every one of the five stores verified, with nothing residual and nothing unchecked.\<close>

theorem sibling_erasure_verified:
  assumes "de_subjectStores e = mem_erasers d" and "\<not> ma_closed (sib_snapshots x)" and "eraseSubjectStores e sid x r = (x', r')"
  shows "countSubjectResiduals (de_subjectStores e) x' sid (footprint_from r' sid) [] rep =
      ([''audit'', ''saga'', ''outbox'', ''idempotency'', ''snapshot''], rep, None) \<and> rs_Errors r' = rs_Errors r"
proof -
  obtain sk r1 where lp: "erase_store_loop (mem_erasers d) sid (footprint_from r sid) x [] r = (x', sk, r1)"
    and r': "footprint_from r' sid = footprint_from r1 sid" "rs_Errors r' = rs_Errors r1"
    by (rule stores_run [OF assms(1,3)])
  show ?thesis
    using mem_siblings.erased_stores_count_zero(1) [OF assms(2) lp, of rep] mem_siblings.erased_stores_count_zero(2) [OF assms(2) lp]
    unfolding assms(1) r' erase_store_loop_footprint [OF lp] mem_eraser_names by blast
qed

definition demo_siblings :: sibling_world where
  "demo_siblings = \<lparr>sib_audit = demo_trail, sib_sagas = NewSagaStore, sib_outbox = NewOutboxStore, sib_idem = NewIdempotencyStore,
     sib_snapshots = NewAdapter\<rparr>"

definition sibling_eraser :: "sibling_world data_eraser" where
  "sibling_eraser = NewDataEraser [WithSubjectStore builtin_erasers]"

lemma sibling_eraser_stores: "de_subjectStores sibling_eraser = mem_erasers False"
  by (simp add: sibling_eraser_def NewDataEraser_def WithSubjectStore_def mem_erasers_def Let_def)

theorem sibling_erasure_verified_witness:
  "\<exists>x' r'. eraseSubjectStores sibling_eraser ''u1'' demo_siblings (new_result ''u1'' 7) = (x', r') \<and>
     countSubjectResiduals (de_subjectStores sibling_eraser) x' ''u1'' (footprint_from r' ''u1'') [] (new_report ''u1'' False) =
       ([''audit'', ''saga'', ''outbox'', ''idempotency'', ''snapshot''], new_report ''u1'' False, None)"
proof -
  obtain x' r' where run: "eraseSubjectStores sibling_eraser ''u1'' demo_siblings (new_result ''u1'' 7) = (x', r')" by (rule prod.exhaust)
  have "\<not> ma_closed (sib_snapshots demo_siblings)" by (simp add: demo_siblings_def NewAdapter_def)
  from sibling_erasure_verified [OF sibling_eraser_stores this run] run show ?thesis by blast
qed

text \<open>A co-tenant's rows survive.  Without derived aggregate ids, an erasure deletes no outbox
  message, saga, idempotency record or audit entry that is keyed by a stream the subject shares with
  someone else (unless that stream is named like the subject, or the subject is the entry's actor).\<close>

theorem co_tenant_rows_survive:
  assumes "de_subjectStores e = mem_erasers False" and "\<not> ma_closed (sib_snapshots x)"
    and "eraseSubjectStores e sid x r = (x', r')" and "s \<in> set (rs_SharedStreams r)" and "s \<noteq> sid"
    and "gm_wf (os_messages (sib_outbox x))" and "gm_wf (st_sagas (sib_sagas x))" and "gm_wf (is_records (sib_idem x))"
  shows "(\<forall>k m. map_of (os_messages (sib_outbox x)) k = Some m \<and> om_AggregateID m = s \<longrightarrow>
        map_of (os_messages (sib_outbox x')) k = Some m) \<and>
      (\<forall>k g. map_of (st_sagas (sib_sagas x)) k = Some g \<and> sg_CorrelationID g = s \<longrightarrow>
        map_of (st_sagas (sib_sagas x')) k = Some g) \<and>
      (\<forall>k i. map_of (is_records (sib_idem x)) k = Some i \<and> ir_AggregateID i = s \<longrightarrow>
        map_of (is_records (sib_idem x')) k = Some i) \<and>
      (\<forall>a. a \<in> set (as_entries (sib_audit x)) \<and> ae_AggregateID a = s \<and> ae_Actor a \<noteq> sid \<longrightarrow> a \<in> set (as_entries (sib_audit x')))"
proof -
  let ?fp = "footprint_from r sid"
  obtain sk r1 where lp: "erase_store_loop (mem_erasers False) sid ?fp x [] r = (x', sk, r1)" by (rule stores_run [OF assms(1,3)])
  have s: "s \<notin> set (footprintIDSet sid (Some ?fp) False)"
    using assms(4,5) by (intro shared_not_purged) (simp_all add: footprint_from_def)
  note eff = mem_loop_effect [OF assms(2) lp]
  show ?thesis
    unfolding eff
    using s assms(5-8) outbox_footprint.purge_keeps_others saga_footprint.purge_keeps_others idem_footprint.purge_keeps_others
    by (auto simp: audit_kept_def)
qed

theorem co_tenant_rows_survive_witness:
  "\<exists>x' r'. eraseSubjectStores sibling_eraser ''u2'' demo_siblings ((new_result ''u2'' 7)\<lparr>rs_Streams := [''a1''], rs_SharedStreams := [''a1'']\<rparr>) = (x', r') \<and>
     demo_entry ''1'' 5 ''u1'' \<in> set (as_entries (sib_audit x'))"
proof -
  let ?r = "(new_result ''u2'' 7)\<lparr>rs_Streams := [''a1''], rs_SharedStreams := [''a1'']\<rparr>"
  obtain x' r' where run: "eraseSubjectStores sibling_eraser ''u2'' demo_siblings ?r = (x', r')" by (rule prod.exhaust)
  have "\<forall>a. a \<in> set (as_entries (sib_audit demo_siblings)) \<and> ae_AggregateID a = ''a1'' \<and> ae_Actor a \<noteq> ''u2'' \<longrightarrow> a \<in> set (as_entries (sib_audit x'))"
    using co_tenant_rows_survive [OF sibling_eraser_stores _ run, of "''a1''"]
    by (simp add: demo_siblings_def NewAdapter_def NewSagaStore_def NewOutboxStore_def NewIdempotencyStore_def)
  then show ?thesis using run by (auto simp: demo_siblings_def demo_trail_def demo_entry_def)
qed

text \<open>An over-long subject id is not erased from the audit trail.  The middleware truncates the
  actor to 255 bytes before it stores the entry, while the eraser and the counter compare the stored actor
  with the full subject id: the entries a subject with a longer id caused survive the erasure, and the
  residual count still reports the audit store as clean.\<close>

theorem long_actor_survives_erasure:
  assumes "de_subjectStores e = mem_erasers d" and "\<not> ma_closed (sib_snapshots x)" and "eraseSubjectStores e sid x r = (x', r')"
    and "255 < length sid" and "ae_Actor a = sid" and "boundAuditEntry a \<in> set (as_entries (sib_audit x))"
    and "ae_AggregateID (boundAuditEntry a) \<notin> set (footprintIDSet sid (Some (footprint_from r sid)) d)"
  shows "boundAuditEntry a \<in> set (as_entries (sib_audit x')) \<and>
    ''audit'' \<in> set (fst (countSubjectResiduals (de_subjectStores e) x' sid (footprint_from r' sid) [] rep))"
proof -
  let ?fp = "footprint_from r sid"
  obtain sk r1 where lp: "erase_store_loop (mem_erasers d) sid ?fp x [] r = (x', sk, r1)"
    and r': "footprint_from r' sid = footprint_from r1 sid" by (rule stores_run [OF assms(1,3)])
  have "length (truncateUTF8Bytes y 255) \<noteq> length sid" for y
    using length_truncate [of y 255] assms(4) by linarith
  then have "ae_Actor (boundAuditEntry a) \<noteq> sid" "ae_AggregateID (boundAuditEntry a) \<noteq> sid"
    by (auto simp: boundAuditEntry_def)
  then have "boundAuditEntry a \<in> set (as_entries (sib_audit x'))"
    unfolding mem_loop_effect(1) [OF assms(2) lp] using assms(6,7) by (simp add: audit_kept_def)
  moreover have "countSubjectResiduals (de_subjectStores e) x' sid (footprint_from r' sid) [] rep =
      ([''audit'', ''saga'', ''outbox'', ''idempotency'', ''snapshot''], rep, None)"
    using mem_siblings.erased_stores_count_zero(1) [OF assms(2) lp, of rep]
    unfolding assms(1) r' erase_store_loop_footprint [OF lp] mem_eraser_names .
  ultimately show ?thesis by simp
qed

definition long_subject :: string where
  "long_subject = replicate 300 CHR ''u''"

definition long_entry :: audit_entry where
  "long_entry = new_audit_entry (\<lambda>e. []) demo_command_ops mem_audit_config (actor_context long_subject) ''Pay'' 0 0 ''id'' (NewSuccessResult ''a1'' 3) None"

theorem long_actor_survives_erasure_witness:
  "\<exists>s x' r'. AuditMiddleware (\<lambda>e. []) demo_command_ops mem_audit_config pay_handler (actor_context long_subject) NewAuditStore ''Pay'' =
       (s, NewSuccessResult ''a1'' 3, None) \<and>
     eraseSubjectStores sibling_eraser long_subject (demo_siblings\<lparr>sib_audit := s\<rparr>) (new_result long_subject 7) = (x', r') \<and>
     boundAuditEntry long_entry \<in> set (as_entries (sib_audit x'))"
proof -
  let ?s = "\<lparr>as_entries = [boundAuditEntry long_entry]\<rparr>"
  let ?x = "demo_siblings\<lparr>sib_audit := ?s\<rparr>"
  obtain x' r' where run: "eraseSubjectStores sibling_eraser long_subject ?x (new_result long_subject 7) = (x', r')" by (rule prod.exhaust)
  have len: "length long_subject = 300" by (simp add: long_subject_def)
  have actor: "ae_Actor long_entry = long_subject"
    by (simp add: long_entry_def new_audit_entry_def mem_audit_config_def defaultActorFunc_def ActorFromContext_def actor_context_def)
  have agg: "ae_AggregateID (boundAuditEntry long_entry) = ''a1''"
    by (simp add: boundAuditEntry_def long_entry_def new_audit_entry_def NewSuccessResult_def truncateUTF8Bytes_def)
  have ids: "set (footprintIDSet long_subject (Some (footprint_from (new_result long_subject 7) long_subject)) False) \<subseteq> {long_subject}"
    by (auto simp: set_footprint_ids ExclusiveStreams_def footprint_from_def new_result_def)
  have "length ''a1'' \<noteq> length long_subject" unfolding len by simp
  then have "''a1'' \<noteq> long_subject" by metis
  then have "boundAuditEntry long_entry \<in> set (as_entries (sib_audit x'))"
    using long_actor_survives_erasure [OF sibling_eraser_stores _ run _ actor] ids len agg
    by (auto simp: demo_siblings_def NewAdapter_def)
  moreover have "AuditMiddleware (\<lambda>e. []) demo_command_ops mem_audit_config pay_handler (actor_context long_subject) NewAuditStore ''Pay'' =
       (?s, NewSuccessResult ''a1'' 3, None)"
    unfolding pay_audited long_entry_def by (rule refl)
  ultimately show ?thesis using run by blast
qed

end
