(* ===== verification/Data_Export.thy ===== *)
theory Data_Export
  imports Retention_Laws "HOL-Library.Multiset"
begin

text \<open>
  The export of a subject's data (\<^verbatim>\<open>export.go\<close>): requests, the built-in filters, the export by
  streams and by scan, the redaction of events whose key is gone, and both entry points.

  The event store is a \<open>bound_store\<close> as in the resolver.  \<open>xp_IsRevoked\<close> is the encryption
  configuration's \<^verbatim>\<open>IsRevoked\<close> and \<open>xp_Marshal\<close> is \<^verbatim>\<open>json.Marshal\<close> of a payload.  The
  handler acts on a state \<open>'h\<close> of its own.  Go iterates the set of streams of a result in an
  unspecified order; here it is the order of first occurrence.
\<close>

section \<open>Requests and results\<close>

type_synonym export_filter = "stored_event \<Rightarrow> bool"

record export_request =
  xq_SubjectID :: string
  xq_Streams :: "string list"
  xq_Filter :: "export_filter option"
  xq_FromTime :: "time option"
  xq_ToTime :: "time option"

record exported_metadata =
  xm_CorrelationID :: string
  xm_CausationID :: string
  xm_TenantID :: string
  xm_SchemaVersion :: int

record 'd exported_event =
  xe_StreamID :: string
  xe_EventType :: string
  xe_Data :: "'d option"
  xe_RawData :: "bytes option"
  xe_Metadata :: exported_metadata
  xe_Version :: int
  xe_GlobalPosition :: nat
  xe_Timestamp :: time
  xe_Redacted :: bool

record 'd export_result =
  xr_SubjectID :: string
  xr_Events :: "'d exported_event list"
  xr_Streams :: "string list"
  xr_TotalEvents :: int
  xr_RedactedCount :: int
  xr_ExportedAt :: time
  xr_Partial :: bool

record ('d, 'a) data_exporter =
  xp_store :: "('d, 'a) bound_store"
  xp_batchSize :: int
  xp_resolver :: "subject_resolver option"
  xp_IsRevoked :: "'a \<Rightarrow> string \<Rightarrow> error + bool"
  xp_Marshal :: "'d \<Rightarrow> bytes option"

definition WithExportBatchSize :: "int \<Rightarrow> ('d, 'a) data_exporter \<Rightarrow> ('d, 'a) data_exporter" where
  "WithExportBatchSize n e = (if n > 0 then e\<lparr>xp_batchSize := n\<rparr> else e)"

definition WithExportSubjectResolver :: "subject_resolver option \<Rightarrow> ('d, 'a) data_exporter \<Rightarrow> ('d, 'a) data_exporter" where
  "WithExportSubjectResolver r e = e\<lparr>xp_resolver := r\<rparr>"

definition NewDataExporter ::
  "('d, 'a) bound_store \<Rightarrow> ('a \<Rightarrow> string \<Rightarrow> error + bool) \<Rightarrow> ('d \<Rightarrow> bytes option) \<Rightarrow>
   (('d, 'a) data_exporter \<Rightarrow> ('d, 'a) data_exporter) list \<Rightarrow> ('d, 'a) data_exporter" where
  "NewDataExporter store isRevoked marshal opts = fold (\<lambda>opt e. opt e) opts
     \<lparr>xp_store = store, xp_batchSize = 1000, xp_resolver = None, xp_IsRevoked = isRevoked, xp_Marshal = marshal\<rparr>"

section \<open>Filters\<close>

definition matchNothing :: export_filter where
  "matchNothing e = False"

definition FilterByTenantID :: "string \<Rightarrow> export_filter" where
  "FilterByTenantID tenantID = (if tenantID = [] then matchNothing else (\<lambda>e. md_TenantID (se_Metadata e) = tenantID))"

definition FilterByUserID :: "string \<Rightarrow> export_filter" where
  "FilterByUserID userID = (if userID = [] then matchNothing else (\<lambda>e. md_UserID (se_Metadata e) = userID))"

definition FilterByStreamPrefix :: "string \<Rightarrow> export_filter" where
  "FilterByStreamPrefix pre = (if pre = [] then matchNothing else (\<lambda>e. hasPrefix (se_StreamID e) pre))"

definition FilterByStreams :: "string list \<Rightarrow> export_filter" where
  "FilterByStreams ids =
     (let st = filter (\<lambda>i. i \<noteq> []) ids in if length st = 0 then matchNothing else (\<lambda>e. se_StreamID e \<in> set st))"

definition FilterByStreamCategory :: "string \<Rightarrow> export_filter" where
  "FilterByStreamCategory category =
     (if category = [] then matchNothing else (\<lambda>e. streamCategory (se_StreamID e) = category))"

definition FilterByMetadata :: "string \<Rightarrow> string \<Rightarrow> export_filter" where
  "FilterByMetadata key val =
     (if key = [] \<or> val = [] then matchNothing else (\<lambda>e. custom_or_empty (se_Metadata e) key = val))"

definition FilterByEventTypes :: "string list \<Rightarrow> export_filter" where
  "FilterByEventTypes types = (\<lambda>e. se_Type e \<in> set types)"

definition SubjectOrUntaggedFilter :: "codec \<Rightarrow> string \<Rightarrow> export_filter" where
  "SubjectOrUntaggedFilter cd subjectID =
     (if subjectID = [] then matchNothing
      else (\<lambda>e. let tags = GetSubjectTags cd (se_Metadata e) in length tags = 0 \<or> containsString tags subjectID))"

fun combine_all :: "export_filter option list \<Rightarrow> stored_event \<Rightarrow> bool" where
  "combine_all [] e = True"
| "combine_all (f # fs) e = (case f of None \<Rightarrow> False | Some g \<Rightarrow> if \<not> g e then False else combine_all fs e)"

definition CombineFilters :: "export_filter option list \<Rightarrow> export_filter" where
  "CombineFilters filters = (if length filters = 0 then matchNothing else combine_all filters)"

section \<open>One event\<close>

definition exporter_tagger :: "('d, 'a) data_exporter \<Rightarrow> subject_tagger option" where
  "exporter_tagger e = (case xp_resolver e of Some r \<Rightarrow> sr_tagger r | None \<Rightarrow> None)"

definition exporter_attribute :: "('d, 'a) data_exporter \<Rightarrow> 'a \<Rightarrow> stored_event \<Rightarrow> subject_attribution" where
  "exporter_attribute e a se = attributeSubjects (bs_lib (xp_store e)) (bs_store (xp_store e) a) (exporter_tagger e) se"

definition attributedToFilter :: "('d, 'a) data_exporter \<Rightarrow> 'a \<Rightarrow> string \<Rightarrow> export_filter" where
  "attributedToFilter e a subjectID se = at_to (exporter_attribute e a se) subjectID"

definition subjectOrUnattributableFilter :: "('d, 'a) data_exporter \<Rightarrow> 'a \<Rightarrow> string \<Rightarrow> export_filter" where
  "subjectOrUnattributableFilter e a subjectID se =
     (let t = exporter_attribute e a se in \<not> attributed t \<or> at_to t subjectID)"

definition matchesRequest :: "stored_event \<Rightarrow> export_request \<Rightarrow> bool" where
  "matchesRequest se req =
     (if (case xq_FromTime req of None \<Rightarrow> False | Some t \<Rightarrow> se_Timestamp se < t) then False
      else if (case xq_ToTime req of None \<Rightarrow> False | Some t \<Rightarrow> se_Timestamp se > t) then False
      else if (case xq_Filter req of None \<Rightarrow> False | Some f \<Rightarrow> \<not> f se) then False
      else True)"

definition newExportedMetadata :: "metadata \<Rightarrow> exported_metadata" where
  "newExportedMetadata m =
     \<lparr>xm_CorrelationID = md_CorrelationID m, xm_CausationID = md_CausationID m, xm_TenantID = md_TenantID m,
      xm_SchemaVersion = GetSchemaVersion m\<rparr>"

definition new_exported :: "stored_event \<Rightarrow> 'd exported_event" where
  "new_exported se =
     \<lparr>xe_StreamID = se_StreamID se, xe_EventType = se_Type se, xe_Data = None, xe_RawData = Some (se_Data se),
      xe_Metadata = newExportedMetadata (se_Metadata se), xe_Version = se_Version se,
      xe_GlobalPosition = se_GlobalPosition se, xe_Timestamp = se_Timestamp se, xe_Redacted = False\<rparr>"

text \<open>The revocation status of a key, memoized: an error is not cached and counts as not revoked.\<close>

definition cached_revoked :: "(string \<Rightarrow> error + bool) \<Rightarrow> string \<Rightarrow> (string, bool) gomap \<Rightarrow> (string, bool) gomap \<times> bool" where
  "cached_revoked isRevoked keyID cache =
     (case map_of cache keyID of
        Some r \<Rightarrow> (cache, r)
      | None \<Rightarrow> (case isRevoked keyID of
                   Inr r \<Rightarrow> (AList.update keyID r cache, r)
                 | Inl e \<Rightarrow> (cache, False)))"

definition processStoredEvent ::
  "('d, 'a) data_exporter \<Rightarrow> 'a \<Rightarrow> stored_event \<Rightarrow> (string, bool) gomap \<Rightarrow> (string, bool) gomap \<times> (error + 'd exported_event)" where
  "processStoredEvent e a se cache =
     (let B = xp_store e;
          x = new_exported se;
          (cache', revoked) =
            (if es_encryption (bs_store B a) \<noteq> None \<and> IsEncrypted (se_Metadata se)
             then cached_revoked (xp_IsRevoked e a) (GetEncryptionKeyID (se_Metadata se)) cache else (cache, False))
      in if revoked then (cache', Inr (x\<lparr>xe_Redacted := True, xe_Data := None\<rparr>))
         else (case ProcessStoredEvent (bs_lib B) (bs_store B a) se of
                 Inl err \<Rightarrow>
                   if errors_Is err ErrKeyRevoked \<or> errors_Is err ErrKeyNotFound
                   then (cache', Inr (x\<lparr>xe_Redacted := True, xe_Data := None\<rparr>))
                   else if errors_Is err ErrDecryptionFailed
                   then (cache', Inr (x\<lparr>xe_Redacted := True, xe_Data := None\<rparr>))
                   else (cache', Inl (ExportError [] (Wrap ''failed to process event'' err)))
               | Inr event \<Rightarrow> (cache', Inr (x\<lparr>xe_Data := Some (ev_Data event), xe_RawData := xp_Marshal e (ev_Data event)\<rparr>))))"

section \<open>The export\<close>

type_synonym ('d, 'h) export_handler = "'h \<Rightarrow> 'd exported_event \<Rightarrow> 'h \<times> error option"

definition export_event ::
  "('d, 'a) data_exporter \<Rightarrow> 'a \<Rightarrow> export_request \<Rightarrow> ('d, 'h) export_handler \<Rightarrow> stored_event \<Rightarrow>
   (string, bool) gomap \<times> 'h \<Rightarrow> ((string, bool) gomap \<times> 'h) \<times> error option" where
  "export_event e a req handler se st =
     (case st of (cache, h) \<Rightarrow>
      if \<not> matchesRequest se req then (st, None)
      else (case processStoredEvent e a se cache of
              (cache', Inl err) \<Rightarrow> ((cache', h), Some err)
            | (cache', Inr x) \<Rightarrow> (case handler h x of (h', err) \<Rightarrow> ((cache', h'), err))))"

fun exportFromStreams ::
  "ctx \<Rightarrow> ('d, 'a) data_exporter \<Rightarrow> 'a \<Rightarrow> export_request \<Rightarrow> ('d, 'h) export_handler \<Rightarrow> string list \<Rightarrow>
   (string, bool) gomap \<times> 'h \<Rightarrow> ((string, bool) gomap \<times> 'h) \<times> error option" where
  "exportFromStreams ctx e a req handler [] st = (st, None)"
| "exportFromStreams ctx e a req handler (sid # sids) st =
     (case ctx of
        Some err \<Rightarrow> (st, Some err)
      | None \<Rightarrow>
          (case LoadRaw (bs_ops (xp_store e)) a sid 0 of
             Inl err \<Rightarrow>
               if errors_Is err ErrStreamNotFound then exportFromStreams ctx e a req handler sids st
               else (st, Some (ExportError (xq_SubjectID req) (Wrap ''failed to load stream'' err)))
           | Inr stored \<Rightarrow>
               (case foldE (export_event e a req handler) stored st of
                  (st', Some err) \<Rightarrow> (st', Some err)
                | (st', None) \<Rightarrow> exportFromStreams ctx e a req handler sids st')))"

definition exportFromScan ::
  "nat \<Rightarrow> ctx \<Rightarrow> ('d, 'a) data_exporter \<Rightarrow> 'a \<Rightarrow> export_request \<Rightarrow> ('d, 'h) export_handler \<Rightarrow>
   (string, bool) gomap \<times> 'h \<Rightarrow> (((string, bool) gomap \<times> 'h) \<times> error option) option" where
  "exportFromScan fuel ctx e a req handler st =
     (if bs_sub (xp_store e) = None then Some (st, Some ErrExportScanNotSupported)
      else scan_loop fuel
             (scan_page ctx (xp_store e) a (xp_batchSize e)
                (\<lambda>err. ExportError (xq_SubjectID req) (Wrap ''failed to scan events'' err)))
             se_GlobalPosition (export_event e a req handler) 0 st)"

definition processEvents ::
  "nat \<Rightarrow> ctx \<Rightarrow> ('d, 'a) data_exporter \<Rightarrow> 'a \<Rightarrow> export_request \<Rightarrow> ('d, 'h) export_handler \<Rightarrow> 'h \<Rightarrow>
   ('h \<times> error option) option" where
  "processEvents fuel ctx e a req handler h =
     map_option (\<lambda>((cache, h'), err). (h', err))
       (if length (xq_Streams req) > 0
        then let req' = (if xq_Filter req = None
                         then req\<lparr>xq_Filter := Some (subjectOrUnattributableFilter e a (xq_SubjectID req))\<rparr> else req)
             in Some (exportFromStreams ctx e a req' handler (xq_Streams req') ([], h))
        else exportFromScan fuel ctx e a req handler ([], h))"

definition export_validateRequest :: "export_request \<Rightarrow> error option" where
  "export_validateRequest req =
     (if xq_SubjectID req = [] then Some ErrSubjectIDRequired
      else if length (xq_Streams req) = 0 \<and> xq_Filter req = None then Some ErrNoExportSources
      else None)"

definition collect_exported :: "'d export_result \<Rightarrow> 'd exported_event \<Rightarrow> 'd export_result \<times> error option" where
  "collect_exported r x =
     (r\<lparr>xr_Events := xr_Events r @ [x],
        xr_Streams := (if xe_StreamID x \<in> set (xr_Streams r) then xr_Streams r else xr_Streams r @ [xe_StreamID x]),
        xr_TotalEvents := xr_TotalEvents r + 1,
        xr_RedactedCount := (if xe_Redacted x then xr_RedactedCount r + 1 else xr_RedactedCount r)\<rparr>, None)"

text \<open>The request with the resolved streams and filter, and whether the footprint is partial.\<close>

definition export_resolve ::
  "nat \<Rightarrow> ctx \<Rightarrow> ('d, 'a) data_exporter \<Rightarrow> 'a \<Rightarrow> export_request \<Rightarrow>
   (error + (export_request \<times> bool) option) option" where
  "export_resolve fuel ctx e a req =
     (case xp_resolver e of
        Some r \<Rightarrow>
          if length (xq_Streams req) = 0 \<and> xq_Filter req = None
          then (case Resolve fuel ctx (xp_store e) r a (xq_SubjectID req) of
                  None \<Rightarrow> None
                | Some (Inl err) \<Rightarrow> Some (Inl (ExportError (xq_SubjectID req) err))
                | Some (Inr fp) \<Rightarrow>
                    Some (Inr (Some (req\<lparr>xq_Streams := fp_Streams fp,
                      xq_Filter := Some (attributedToFilter e a (xq_SubjectID req))\<rparr>, fp_Partial fp))))
          else Some (Inr None)
      | None \<Rightarrow> Some (Inr None))"

definition Export ::
  "nat \<Rightarrow> ctx \<Rightarrow> ('d, 'a) data_exporter \<Rightarrow> time \<Rightarrow> 'a \<Rightarrow> export_request \<Rightarrow> (error + 'd export_result) option" where
  "Export fuel ctx e now a req =
     (if xq_SubjectID req = [] then Some (Inl ErrSubjectIDRequired)
      else (case export_resolve fuel ctx e a req of
        None \<Rightarrow> None
      | Some (Inl err) \<Rightarrow> Some (Inl err)
      | Some (Inr res) \<Rightarrow>
          (case (case res of Some _ \<Rightarrow> None | None \<Rightarrow> export_validateRequest req) of
             Some err \<Rightarrow> Some (Inl err)
           | None \<Rightarrow>
               let (req', partial) = (case res of Some p \<Rightarrow> p | None \<Rightarrow> (req, False));
                   result = \<lparr>xr_SubjectID = xq_SubjectID req, xr_Events = [], xr_Streams = [], xr_TotalEvents = 0,
                             xr_RedactedCount = 0, xr_ExportedAt = now, xr_Partial = partial\<rparr>
               in if res \<noteq> None \<and> length (xq_Streams req') = 0 then Some (Inr result)
                  else (case processEvents fuel ctx e a req' collect_exported result of
                          None \<Rightarrow> None
                        | Some (_, Some err) \<Rightarrow> Some (Inl err)
                        | Some (r, None) \<Rightarrow> Some (Inr r)))))"

text \<open>\<open>None\<close> is a nil handler.\<close>

definition ExportStream ::
  "nat \<Rightarrow> ctx \<Rightarrow> ('d, 'a) data_exporter \<Rightarrow> 'a \<Rightarrow> export_request \<Rightarrow> ('d, 'h) export_handler option \<Rightarrow> 'h \<Rightarrow>
   ('h \<times> error option) option" where
  "ExportStream fuel ctx e a req ho h =
     (if xq_SubjectID req = [] then Some (h, Some ErrSubjectIDRequired)
      else (case ho of
        None \<Rightarrow> Some (h, Some (ExportError (xq_SubjectID req) (Errorf ''handler is required'')))
      | Some handler \<Rightarrow>
          (case export_resolve fuel ctx e a req of
             None \<Rightarrow> None
           | Some (Inl err) \<Rightarrow> Some (h, Some err)
           | Some (Inr (Some (req', partial))) \<Rightarrow>
               if partial then Some (h, Some (ExportError (xq_SubjectID req) ErrExportPartialFootprint))
               else if length (xq_Streams req') = 0 then Some (h, None)
               else processEvents fuel ctx e a req' handler h
           | Some (Inr None) \<Rightarrow>
               (case export_validateRequest req of
                  Some err \<Rightarrow> Some (h, Some err)
                | None \<Rightarrow> processEvents fuel ctx e a req handler h))))"

section \<open>What an exported event shows\<close>

text \<open>The part of the log between the two times of a request.\<close>

definition in_window :: "export_request \<Rightarrow> stored_event \<Rightarrow> bool" where
  "in_window req se = matchesRequest se (req\<lparr>xq_Filter := None\<rparr>)"

lemma matchesRequest_filtered: "xq_Filter req = Some f \<Longrightarrow> matchesRequest se req \<longleftrightarrow> in_window req se \<and> f se"
  by (auto simp: matchesRequest_def in_window_def)

lemma in_window_update [simp]:
  "in_window (req\<lparr>xq_Filter := f\<rparr>) se = in_window req se" "in_window (req\<lparr>xq_Streams := ss\<rparr>) se = in_window req se"
  by (simp_all add: in_window_def matchesRequest_def)

text \<open>An event that stops the export: it cannot be processed, and not for want of its key.\<close>

definition unreadable :: "('d, 'a) data_exporter \<Rightarrow> 'a \<Rightarrow> stored_event \<Rightarrow> bool" where
  "unreadable e a se \<longleftrightarrow> (\<exists>err. ProcessStoredEvent (bs_lib (xp_store e)) (bs_store (xp_store e) a) se = Inl err \<and>
     \<not> errors_Is err ErrKeyRevoked \<and> \<not> errors_Is err ErrKeyNotFound \<and> \<not> errors_Is err ErrDecryptionFailed)"

definition cache_ok :: "('d, 'a) data_exporter \<Rightarrow> 'a \<Rightarrow> (string, bool) gomap \<Rightarrow> bool" where
  "cache_ok e a cache \<longleftrightarrow> (\<forall>k b. map_of cache k = Some b \<longrightarrow> xp_IsRevoked e a k = Inr b)"

text \<open>An exported event renders a stored one: its coordinates, type, time and metadata; redacted if its key
  is revoked, and then with the stored bytes only; otherwise with the processed payload and nothing else.\<close>

definition rendered :: "('d, 'a) data_exporter \<Rightarrow> 'a \<Rightarrow> stored_event \<Rightarrow> 'd exported_event \<Rightarrow> bool" where
  "rendered e a se x \<longleftrightarrow>
     xe_StreamID x = se_StreamID se \<and> xe_EventType x = se_Type se \<and> xe_Version x = se_Version se \<and>
     xe_GlobalPosition x = se_GlobalPosition se \<and> xe_Timestamp x = se_Timestamp se \<and>
     xe_Metadata x = newExportedMetadata (se_Metadata se) \<and>
     (es_encryption (bs_store (xp_store e) a) \<noteq> None \<and> IsEncrypted (se_Metadata se) \<and>
        xp_IsRevoked e a (GetEncryptionKeyID (se_Metadata se)) = Inr True \<longrightarrow> xe_Redacted x) \<and>
     (xe_Redacted x \<longrightarrow> xe_Data x = None \<and> xe_RawData x = Some (se_Data se)) \<and>
     (\<not> xe_Redacted x \<longrightarrow> (\<exists>event. ProcessStoredEvent (bs_lib (xp_store e)) (bs_store (xp_store e) a) se = Inr event \<and>
        xe_Data x = Some (ev_Data event) \<and> xe_RawData x = xp_Marshal e (ev_Data event)))"

lemma cached_revoked_ok:
  assumes "cache_ok e a cache" and "cached_revoked (xp_IsRevoked e a) k cache = (cache', r)"
  shows "cache_ok e a cache'" and "xp_IsRevoked e a k = Inr True \<Longrightarrow> r"
  using assms by (auto simp: cached_revoked_def cache_ok_def update_conv' split: option.splits sum.splits if_splits)

lemma processStoredEvent_rendered:
  assumes "cache_ok e a cache" and "processStoredEvent e a se cache = (cache', out)"
  shows "cache_ok e a cache'" and "out = Inr x \<Longrightarrow> rendered e a se x"
proof -
  let ?enc = "es_encryption (bs_store (xp_store e) a) \<noteq> None \<and> IsEncrypted (se_Metadata se)"
  let ?k = "GetEncryptionKeyID (se_Metadata se)"
  obtain c1 r1 where cr: "(if ?enc then cached_revoked (xp_IsRevoked e a) ?k cache else (cache, False)) = (c1, r1)" by (rule prod.exhaust)
  have c1: "cache_ok e a c1" "?enc \<Longrightarrow> xp_IsRevoked e a ?k = Inr True \<Longrightarrow> r1"
    using assms(1) cr cached_revoked_ok [OF assms(1)] by (auto split: if_splits)
  have out: "(cache', out) = (if r1 then (c1, Inr ((new_exported se)\<lparr>xe_Redacted := True, xe_Data := None\<rparr>))
      else (case ProcessStoredEvent (bs_lib (xp_store e)) (bs_store (xp_store e) a) se of
              Inl err \<Rightarrow>
                if errors_Is err ErrKeyRevoked \<or> errors_Is err ErrKeyNotFound
                then (c1, Inr ((new_exported se)\<lparr>xe_Redacted := True, xe_Data := None\<rparr>))
                else if errors_Is err ErrDecryptionFailed
                then (c1, Inr ((new_exported se)\<lparr>xe_Redacted := True, xe_Data := None\<rparr>))
                else (c1, Inl (ExportError [] (Wrap ''failed to process event'' err)))
            | Inr event \<Rightarrow> (c1, Inr ((new_exported se)\<lparr>xe_Data := Some (ev_Data event), xe_RawData := xp_Marshal e (ev_Data event)\<rparr>))))"
    using assms(2) unfolding processStoredEvent_def Let_def cr prod.case by simp
  show "cache_ok e a cache'" using out c1(1) by (auto split: if_splits sum.splits)
  show "rendered e a se x" if "out = Inr x"
    using out c1(2) that by (auto simp: rendered_def new_exported_def split: if_splits sum.splits)
qed

lemma processStoredEvent_unreadable: "processStoredEvent e a se cache = (cache', Inl err) \<Longrightarrow> unreadable e a se"
  by (auto simp: processStoredEvent_def unreadable_def Let_def split: if_splits sum.splits prod.splits)

lemma foldE_export_fails:
  "foldE (export_event e a req collect_exported) es (c, r) = ((c', r'), Some err) \<Longrightarrow>
   \<exists>se \<in> set es. matchesRequest se req \<and> unreadable e a se"
proof (induction es arbitrary: c r)
  case (Cons se es)
  obtain c1 r1 err1 where s: "export_event e a req collect_exported se (c, r) = ((c1, r1), err1)" by (metis prod.exhaust)
  show ?case
  proof (cases err1)
    case None
    then show ?thesis using Cons s by auto
  next
    case (Some _)
    then have "matchesRequest se req \<and> unreadable e a se"
      using s by (auto simp: export_event_def collect_exported_def processStoredEvent_unreadable split: if_splits prod.splits sum.splits)
    then show ?thesis by auto
  qed
qed simp

lemma foldE_export:
  assumes "cache_ok e a c" and "foldE (export_event e a req collect_exported) es (c, r) = ((c', r'), None)"
  shows "\<exists>xs. cache_ok e a c' \<and> list_all2 (rendered e a) (filter (\<lambda>se. matchesRequest se req) es) xs \<and>
    xr_Events r' = xr_Events r @ xs \<and> xr_Partial r' = xr_Partial r \<and> xr_TotalEvents r' = xr_TotalEvents r + int (length xs)"
  using assms
proof (induction es arbitrary: c r)
  case (Cons se es)
  show ?case
  proof (cases "matchesRequest se req")
    case False
    then have "export_event e a req collect_exported se (c, r) = ((c, r), None)" by (simp add: export_event_def)
    then show ?thesis using Cons False by simp
  next
    case True
    obtain c1 out where p: "processStoredEvent e a se c = (c1, out)" by (rule prod.exhaust)
    obtain x where x: "out = Inr x" using Cons.prems(2) True by (cases out) (simp_all add: export_event_def [of e a req collect_exported se] p)
    obtain r1 where r1: "collect_exported r x = (r1, None)" "xr_Events r1 = xr_Events r @ [x]" "xr_Partial r1 = xr_Partial r"
      "xr_TotalEvents r1 = xr_TotalEvents r + 1"
      by (simp add: collect_exported_def)
    have "export_event e a req collect_exported se (c, r) = ((c1, r1), None)" by (simp add: export_event_def True p x r1(1))
    then have run: "foldE (export_event e a req collect_exported) es (c1, r1) = ((c', r'), None)" using Cons.prems(2) by simp
    from Cons.IH [OF processStoredEvent_rendered(1) [OF Cons.prems(1) p] run] obtain xs where "cache_ok e a c'"
      "list_all2 (rendered e a) (filter (\<lambda>se. matchesRequest se req) es) xs" "xr_Events r' = xr_Events r1 @ xs"
      "xr_Partial r' = xr_Partial r1" "xr_TotalEvents r' = xr_TotalEvents r1 + int (length xs)" by blast
    then show ?thesis
      using True processStoredEvent_rendered(2) [OF Cons.prems(1) p x] r1 by (intro exI [of _ "x # xs"]) simp
  qed
qed simp

context scannable_store
begin

lemma streams_export:
  assumes "ok a" and "xp_store e = B" and "cache_ok e a c" and "exportFromStreams None e a req collect_exported sids (c, r) = ((c', r'), None)"
  shows "\<exists>xs. cache_ok e a c' \<and> list_all2 (rendered e a)
      (concat (map (\<lambda>sid. filter (\<lambda>se. matchesRequest se req) (stream_events (log a) sid)) sids)) xs \<and>
    xr_Events r' = xr_Events r @ xs \<and> xr_Partial r' = xr_Partial r \<and> xr_TotalEvents r' = xr_TotalEvents r + int (length xs)"
  using assms(3,4)
proof (induction sids arbitrary: c r)
  case (Cons sid sids)
  have ne: "sid \<noteq> []" using Cons.prems(2) by (auto simp: LoadRaw_def split: if_splits)
  obtain c1 r1 err where f: "foldE (export_event e a req collect_exported) (stream_events (log a) sid) (c, r) = ((c1, r1), err)"
    by (metis prod.exhaust)
  have run: "err = None" "exportFromStreams None e a req collect_exported sids (c1, r1) = ((c', r'), None)"
    using Cons.prems(2) by (cases err; simp add: LoadRaw_def ne assms(2) stream_read [OF assms(1) ne] f)+
  from foldE_export [OF Cons.prems(1) f [unfolded run(1)]] obtain xs where xs: "cache_ok e a c1"
    "list_all2 (rendered e a) (filter (\<lambda>se. matchesRequest se req) (stream_events (log a) sid)) xs"
    "xr_Events r1 = xr_Events r @ xs" "xr_Partial r1 = xr_Partial r" "xr_TotalEvents r1 = xr_TotalEvents r + int (length xs)" by blast
  from Cons.IH [OF xs(1) run(2)] obtain ys where "cache_ok e a c'" "list_all2 (rendered e a)
      (concat (map (\<lambda>sid. filter (\<lambda>se. matchesRequest se req) (stream_events (log a) sid)) sids)) ys"
    "xr_Events r' = xr_Events r1 @ ys" "xr_Partial r' = xr_Partial r1" "xr_TotalEvents r' = xr_TotalEvents r1 + int (length ys)" by blast
  then show ?case using xs by (intro exI [of _ "xs @ ys"]) (simp add: list_all2_appendI)
qed (simp add: exI [of _ "[]"])

lemma streams_export_fails:
  assumes "ok a" and "xp_store e = B" and "[] \<notin> set sids"
    and "exportFromStreams None e a req collect_exported sids (c, r) = ((c', r'), Some err)"
  shows "\<exists>se \<in> set (log a). matchesRequest se req \<and> unreadable e a se"
  using assms(3,4)
proof (induction sids arbitrary: c r)
  case (Cons sid sids)
  have ne: "sid \<noteq> []" using Cons.prems by auto
  obtain c1 r1 err1 where f: "foldE (export_event e a req collect_exported) (stream_events (log a) sid) (c, r) = ((c1, r1), err1)"
    by (metis prod.exhaust)
  show ?case
  proof (cases err1)
    case None
    then show ?thesis using Cons by (simp add: LoadRaw_def ne assms(2) stream_read [OF assms(1) ne] f)
  next
    case (Some _)
    then show ?thesis using foldE_export_fails [OF f [unfolded Some]] by (auto simp: stream_events_def)
  qed
qed simp

text \<open>The events of the footprint's streams that match are the subject's events of the log.\<close>

lemma footprint_events:
  assumes "distinct sids" and "\<And>se. se \<in> set (log a) \<Longrightarrow> P se \<Longrightarrow> se_StreamID se \<in> set sids"
  shows "mset (concat (map (\<lambda>sid. filter P (stream_events (log a) sid)) sids)) = mset (filter P (log a))"
proof -
  have "concat (map (\<lambda>sid. filter P (stream_events (log a) sid)) sids) = filter P (concat (map (stream_events (log a)) sids))"
    by (simp add: filter_concat comp_def)
  then have "mset (concat (map (\<lambda>sid. filter P (stream_events (log a) sid)) sids)) =
      mset (filter P (filter (\<lambda>e. se_StreamID e \<in> set sids) (log a)))"
    by (metis mset_by_stream [OF assms(1)] mset_filter)
  also have "filter P (filter (\<lambda>e. se_StreamID e \<in> set sids) (log a)) = filter P (log a)"
    using assms(2) by (auto intro: filter_cong)
  finally show ?thesis .
qed

lemma subject_export:
  assumes "ok a" and "xp_store e = B" and rv: "xp_resolver e = Some rv" "sr_index rv = None" "0 < sr_batchSize rv"
    and "length (log a) < fuel" and req: "xq_SubjectID req \<noteq> []" "xq_Streams req = []" "xq_Filter req = None"
  shows "\<exists>out. Export fuel None e now a req = Some out \<and>
    (\<forall>r. out = Inr r \<longrightarrow>
       (\<exists>ses. mset ses = mset (filter (\<lambda>se. in_window req se \<and> mine (exporter_attribute e a) (xq_SubjectID req) se) (log a)) \<and>
          list_all2 (rendered e a) ses (xr_Events r)) \<and>
       xr_TotalEvents r = int (length (xr_Events r)) \<and>
       (xr_Partial r \<longleftrightarrow> (\<exists>se \<in> set (log a). \<not> attributed (exporter_attribute e a se)))) \<and>
    (\<forall>err. out = Inl err \<longrightarrow>
       (\<exists>se \<in> set (log a). in_window req se \<and> mine (exporter_attribute e a) (xq_SubjectID req) se \<and> unreadable e a se))"
proof -
  let ?s = "xq_SubjectID req"
  let ?own = "\<lambda>se. in_window req se \<and> mine (exporter_attribute e a) ?s se"
  have att: "resolver_attribute B a (sr_tagger rv) = exporter_attribute e a"
    by (rule ext) (simp add: resolver_attribute_def exporter_attribute_def exporter_tagger_def rv(1) assms(2))
  obtain fp ms where res0: "resolve fuel None B rv a ?s None = Some (Inr (fp, ms))"
    and fp: "footprint_of (exporter_attribute e a) ?s (log a) fp"
      "fp_Partial fp \<longleftrightarrow> (\<exists>se \<in> set (log a). \<not> attributed (exporter_attribute e a se))"
    using scan_resolves [OF assms(1) rv(3) assms(6) req(1) rv(2), of None] unfolding att by blast
  have ss: "set (fp_Streams fp) = se_StreamID ` {se \<in> set (log a). mine (exporter_attribute e a) ?s se}" "distinct (fp_Streams fp)"
    using fp(1) by (simp_all add: footprint_of_def)
  define q where "q = req\<lparr>xq_Streams := fp_Streams fp, xq_Filter := Some (attributedToFilter e a ?s)\<rparr>"
  define r0 where "r0 = \<lparr>xr_SubjectID = ?s, xr_Events = [] :: 'd exported_event list, xr_Streams = [], xr_TotalEvents = 0,
    xr_RedactedCount = 0, xr_ExportedAt = now, xr_Partial = fp_Partial fp\<rparr>"
  have own: "(\<lambda>se. matchesRequest se q) = ?own"
    by (rule ext) (simp add: q_def matchesRequest_filtered attributedToFilter_def mine_def)
  have q: "xq_Filter q = Some (attributedToFilter e a ?s)" "xq_Streams q = fp_Streams fp" by (simp_all add: q_def)
  have res: "export_resolve fuel None e a req = Some (Inr (Some (q, fp_Partial fp)))"
    by (simp add: export_resolve_def rv(1) req assms(2) Resolve_def res0 q_def)
  have all: "mset (concat (map (\<lambda>sid. filter ?own (stream_events (log a) sid)) (fp_Streams fp))) = mset (filter ?own (log a))"
    using ss by (intro footprint_events) auto
  show ?thesis
  proof (cases "fp_Streams fp = []")
    case True
    then have "Export fuel None e now a req = Some (Inr r0)" by (simp add: Export_def req res q(2) r0_def)
    moreover have "filter ?own (log a) = []" using all True by simp
    ultimately show ?thesis using fp(2) by (auto simp: r0_def)
  next
    case False
    obtain c' r' err where run: "exportFromStreams None e a q collect_exported (fp_Streams fp) ([], r0) = ((c', r'), err)" by (metis prod.exhaust)
    have ne: "[] \<notin> set (fp_Streams fp)" using named_streams [OF assms(1)] unfolding ss(1) by force
    have ex: "Export fuel None e now a req = Some (case err of Some x \<Rightarrow> Inl x | None \<Rightarrow> Inr r')"
      using False q by (simp add: Export_def req res processEvents_def run flip: r0_def split: option.splits)
    show ?thesis
    proof (cases err)
      case None
      from streams_export [OF assms(1,2) _ run [unfolded None]] obtain xs where
        "list_all2 (rendered e a) (concat (map (\<lambda>sid. filter ?own (stream_events (log a) sid)) (fp_Streams fp))) xs"
        "xr_Events r' = xr_Events r0 @ xs" "xr_Partial r' = xr_Partial r0" "xr_TotalEvents r' = xr_TotalEvents r0 + int (length xs)"
        unfolding own by (auto simp: cache_ok_def)
      then show ?thesis using ex None all fp(2) by (auto simp: r0_def)
    next
      case (Some x)
      from streams_export_fails [OF assms(1,2) ne run [unfolded Some]]
      show ?thesis using ex Some unfolding fun_cong [OF own] by auto
    qed
  qed
qed

lemma stream_export_sources:
  assumes "ok a" and "xp_store e = B" and "exportFromStreams None e a req collect_exported sids ([], r) = ((c', r'), None)"
    and "x \<in> set (xr_Events r')" and "xr_Events r = []"
  shows "\<exists>se \<in> set (log a). rendered e a se x \<and> matchesRequest se req"
proof -
  let ?ses = "concat (map (\<lambda>sid. filter (\<lambda>se. matchesRequest se req) (stream_events (log a) sid)) sids)"
  from streams_export [OF assms(1,2) _ assms(3)] assms(5) have "list_all2 (rendered e a) ?ses (xr_Events r')"
    by (auto simp: cache_ok_def)
  then obtain i where "i < length ?ses" "rendered e a (?ses ! i) x"
    using assms(4) unfolding list_all2_conv_all_nth in_set_conv_nth by auto
  moreover from this(1) have "?ses ! i \<in> set ?ses" by (rule nth_mem)
  ultimately show ?thesis unfolding stream_events_def by auto
qed

lemma scan_export_sources:
  assumes "ok a" and "xp_store e = B" and "0 < xp_batchSize e" and "length (log a) < fuel"
    and "exportFromScan fuel None e a req collect_exported ([], r) = Some ((c', r'), None)"
    and "x \<in> set (xr_Events r')" and "xr_Events r = []"
  shows "\<exists>se \<in> set (log a). rendered e a se x \<and> matchesRequest se req"
proof -
  let ?ses = "filter (\<lambda>se. matchesRequest se req) (log a)"
  have "foldE (export_event e a req collect_exported) (log a) ([], r) = ((c', r'), None)"
    using assms(5) has_feed by (simp add: exportFromScan_def assms(2) scan_log [OF assms(1,3,4)])
  from foldE_export [OF _ this] assms(7) have "list_all2 (rendered e a) ?ses (xr_Events r')" by (auto simp: cache_ok_def)
  then obtain i where "i < length ?ses" "rendered e a (?ses ! i) x"
    using assms(6) unfolding list_all2_conv_all_nth in_set_conv_nth by auto
  moreover from this(1) have "?ses ! i \<in> set ?ses" by (rule nth_mem)
  ultimately show ?thesis by auto
qed

lemma processed_sources:
  assumes "ok a" and "xp_store e = B" and "0 < xp_batchSize e" and "length (log a) < fuel"
    and "processEvents fuel None e a req collect_exported r = Some (r', None)"
    and "x \<in> set (xr_Events r')" and "xr_Events r = []" and "xq_Streams req = [] \<Longrightarrow> xq_Filter req \<noteq> None"
  shows "\<exists>se \<in> set (log a). rendered e a se x \<and> in_window req se \<and>
    (case xq_Filter req of Some f \<Rightarrow> f se | None \<Rightarrow> subjectOrUnattributableFilter e a (xq_SubjectID req) se)"
proof (cases "xq_Streams req = []")
  case True
  then obtain c' f where run: "exportFromScan fuel None e a req collect_exported ([], r) = Some ((c', r'), None)" "xq_Filter req = Some f"
    using assms(5,8) by (auto simp: processEvents_def)
  from scan_export_sources [OF assms(1-4) run(1) assms(6,7)] show ?thesis by (auto simp: run(2) matchesRequest_filtered)
next
  case False
  define f where "f = (case xq_Filter req of Some f \<Rightarrow> f | None \<Rightarrow> subjectOrUnattributableFilter e a (xq_SubjectID req))"
  define q where "q = (if xq_Filter req = None then req\<lparr>xq_Filter := Some f\<rparr> else req)"
  have q: "xq_Filter q = Some f" "in_window q = in_window req" by (auto simp: q_def f_def fun_eq_iff)
  obtain c' where run: "exportFromStreams None e a q collect_exported (xq_Streams q) ([], r) = ((c', r'), None)"
    using assms(5) False by (auto simp: processEvents_def q_def f_def Let_def split: if_splits prod.splits)
  from stream_export_sources [OF assms(1,2) run assms(6,7)]
  show ?thesis by (auto simp: matchesRequest_filtered [OF q(1)] q(2) f_def split: option.splits)
qed

lemma export_sources:
  assumes "ok a" and "xp_store e = B" and "0 < xp_batchSize e" and "length (log a) < fuel"
    and "Export fuel None e now a req = Some (Inr r)" and "x \<in> set (xr_Events r)"
  shows "\<exists>se \<in> set (log a). rendered e a se x \<and> in_window req se \<and>
    (case xq_Filter req of Some f \<Rightarrow> f se
     | None \<Rightarrow> \<not> attributed (exporter_attribute e a se) \<or> mine (exporter_attribute e a) (xq_SubjectID req) se)"
proof -
  obtain res where res: "export_resolve fuel None e a req = Some (Inr res)"
    using assms(5) by (auto simp: Export_def split: if_splits option.splits sum.splits)
  show ?thesis
  proof (cases res)
    case None
    obtain r0 where p: "processEvents fuel None e a req collect_exported r0 = Some (r, None)" "xr_Events r0 = []"
      and v: "export_validateRequest req = None"
      using assms(5) by (auto simp: Export_def res None split: if_splits option.splits prod.splits)
    have "xq_Streams req = [] \<Longrightarrow> xq_Filter req \<noteq> None" using v by (auto simp: export_validateRequest_def split: if_splits)
    from processed_sources [OF assms(1-4) p(1) assms(6) p(2) this]
    show ?thesis by (auto simp: subjectOrUnattributableFilter_def mine_def Let_def split: option.splits)
  next
    case (Some p)
    obtain q partial where qp: "p = (q, partial)" by (rule prod.exhaust)
    have q: "xq_Filter q = Some (attributedToFilter e a (xq_SubjectID req))" "in_window q = in_window req" "xq_Filter req = None"
      using res Some qp by (auto simp: export_resolve_def fun_eq_iff split: option.splits if_splits sum.splits)
    obtain r0 where p: "processEvents fuel None e a q collect_exported r0 = Some (r, None)" "xr_Events r0 = []"
      using assms(5,6) by (auto simp: Export_def res Some qp Let_def split: if_splits option.splits prod.splits)
    from processed_sources [OF assms(1-4) p(1) assms(6) p(2)]
    show ?thesis using q by (auto simp: attributedToFilter_def mine_def)
  qed
qed

end

section \<open>An exporter on the store with a shared key\<close>

definition mem_exporter ::
  "aead \<Rightarrow> (nat \<Rightarrow> string) \<Rightarrow> time \<Rightarrow> 'd go_lib \<Rightarrow> 'd event_store \<Rightarrow> ('d \<Rightarrow> bytes option) \<Rightarrow>
   (('d, gdpr_world) data_exporter \<Rightarrow> ('d, gdpr_world) data_exporter) list \<Rightarrow> ('d, gdpr_world) data_exporter" where
  "mem_exporter g uuid now gl s marshal opts =
     NewDataExporter (mem_bound g uuid now gl s) (\<lambda>w k. snd (IsRevoked now (gw_keys w) k)) marshal opts"

definition demo_exporter :: "(string, gdpr_world) data_exporter" where
  "demo_exporter = mem_exporter demo_gcm demo_uuid 7 text_lib vault_store Some [WithExportSubjectResolver (Some (NewSubjectResolver []))]"

definition demo_export :: export_request where
  "demo_export = \<lparr>xq_SubjectID = ''u1'', xq_Streams = [], xq_Filter = None, xq_FromTime = None, xq_ToTime = Some 7\<rparr>"

lemma demo_exporter_fields [simp]:
  "xp_store demo_exporter = mem_bound demo_gcm demo_uuid 7 text_lib vault_store" "xp_batchSize demo_exporter = 1000"
  "xp_resolver demo_exporter = Some (NewSubjectResolver [])" "xp_IsRevoked demo_exporter w k = snd (IsRevoked 7 (gw_keys w) k)"
  by (simp_all add: demo_exporter_def mem_exporter_def NewDataExporter_def WithExportSubjectResolver_def)

lemma demo_export_fields [simp]:
  "xq_SubjectID demo_export = ''u1''" "xq_Streams demo_export = []" "xq_Filter demo_export = None"
  by (simp_all add: demo_export_def)

lemma demo_exported:
  "exporter_attribute demo_exporter w = resolver_attribute (mem_bound demo_gcm demo_uuid 7 text_lib vault_store) w None"
  "in_window demo_export vault_1"
  "processStoredEvent demo_exporter shredded vault_1 [] = ([(''k1'', True)], Inr ((new_exported vault_1)\<lparr>xe_Redacted := True, xe_Data := None\<rparr>))"
proof -
  show "exporter_attribute demo_exporter w = resolver_attribute (mem_bound demo_gcm demo_uuid 7 text_lib vault_store) w None"
    by (rule ext) (simp add: exporter_attribute_def resolver_attribute_def exporter_tagger_def NewSubjectResolver_def)
  show "in_window demo_export vault_1"
    by (simp add: in_window_def matchesRequest_def demo_export_def vault_events mk_stored_def)
  have "es_encryption (bs_store (mem_bound demo_gcm demo_uuid 7 text_lib vault_store) shredded) \<noteq> None"
    by (simp add: mem_bound_def world_store_def vault_store_def)
  moreover have "IsEncrypted (sealed_metadata ''u1'' ''k1'')"
    using sealed_metadata_read(3) [of "''k1''"] by (simp add: HasEncryptionEnvelope_def)
  moreover have "snd (IsRevoked 7 (gw_keys shredded) ''k1'') = Inr True" by code_simp
  ultimately show "processStoredEvent demo_exporter shredded vault_1 [] =
      ([(''k1'', True)], Inr ((new_exported vault_1)\<lparr>xe_Redacted := True, xe_Data := None\<rparr>))"
    by (simp add: processStoredEvent_def cached_revoked_def sealed_metadata_read Let_def)
qed

text \<open>The export of the first subject after his key was revoked: one event, redacted.\<close>

lemma demo_export_run:
  "\<exists>r x. Export 4 None demo_exporter 7 shredded demo_export = Some (Inr r) \<and> xr_TotalEvents r = 1 \<and> \<not> xr_Partial r \<and> xr_Events r = [x]"
proof -
  let ?B = "mem_bound demo_gcm demo_uuid 7 text_lib vault_store"
  obtain fp ms where fp: "resolve 4 None ?B (NewSubjectResolver []) shredded ''u1'' None = Some (Inr (fp, ms))"
    "fp_Streams fp = [''Order-1'']" "\<not> fp_Partial fp"
    using demo_resolve [OF shredded_log] by blast
  define q where "q = demo_export\<lparr>xq_Streams := [''Order-1''], xq_Filter := Some (attributedToFilter demo_exporter shredded ''u1'')\<rparr>"
  have q: "xq_Filter q = Some (attributedToFilter demo_exporter shredded ''u1'')" "xq_Streams q = [''Order-1'']" by (simp_all add: q_def)
  have res: "export_resolve 4 None demo_exporter shredded demo_export = Some (Inr (Some (q, False)))"
    using fp by (simp add: export_resolve_def Resolve_def q_def)
  have m: "matchesRequest vault_1 q" "\<not> matchesRequest vault_2 q" "\<not> matchesRequest vault_3 q"
    using demo_mine demo_exported(2) unfolding matchesRequest_filtered [OF q(1)]
    by (simp_all add: attributedToFilter_def demo_exported(1) mine_def q_def)
  have load: "LoadRaw (world_ops demo_uuid 7) shredded ''Order-1'' 0 = Inr [vault_1, vault_2, vault_3]"
    using mem_scan.stream_read [OF shredded_log(2), of "''Order-1''"] by (simp add: LoadRaw_def shredded_log(1) stream_events_def)
  show ?thesis
    by (simp add: Export_def res processEvents_def q load export_event_def m demo_exported(3) collect_exported_def Let_def)
qed

section \<open>Properties\<close>

text \<open>C25: an export by subject is complete and exact.  With a scan-backed resolver and more fuel
  than events, \<^verbatim>\<open>Export\<close> of a request that names only the subject (and possibly a time window)
  always returns.  A returned result holds exactly the subject's events of the window, each once and
  each rendered faithfully: redacted without data when its key is revoked, otherwise with the
  processed payload.  The result is partial exactly when some event of the log can be attributed to
  nobody.  The export fails only when one of the subject's own events cannot be processed for a
  reason other than its key.\<close>

theorem subject_export_exact:
  assumes "world_ok w" and "xp_store e = mem_bound g uuid now gl s"
    and "xp_resolver e = Some rv" and "sr_index rv = None" and "0 < sr_batchSize rv"
    and "length (world_log w) < fuel" and "xq_SubjectID req \<noteq> []" and "xq_Streams req = []" and "xq_Filter req = None"
  shows "\<exists>out. Export fuel None e t w req = Some out \<and>
    (\<forall>r. out = Inr r \<longrightarrow>
       (\<exists>ses. mset ses = mset (filter (\<lambda>se. in_window req se \<and> mine (exporter_attribute e w) (xq_SubjectID req) se) (world_log w)) \<and>
          list_all2 (rendered e w) ses (xr_Events r)) \<and>
       xr_TotalEvents r = int (length (xr_Events r)) \<and>
       (xr_Partial r \<longleftrightarrow> (\<exists>se \<in> set (world_log w). \<not> attributed (exporter_attribute e w se)))) \<and>
    (\<forall>err. out = Inl err \<longrightarrow>
       (\<exists>se \<in> set (world_log w). in_window req se \<and> mine (exporter_attribute e w) (xq_SubjectID req) se \<and> unreadable e w se))"
  using assms by (rule mem_scan.subject_export)

theorem subject_export_exact_witness:
  "\<exists>r. Export 4 None demo_exporter 7 shredded demo_export = Some (Inr r) \<and> xr_TotalEvents r = 1 \<and> \<not> xr_Partial r \<and>
     (\<exists>ses. mset ses = mset (filter (\<lambda>se. in_window demo_export se \<and> mine (exporter_attribute demo_exporter shredded) ''u1'' se)
          [vault_1, vault_2, vault_3]) \<and>
        list_all2 (rendered demo_exporter shredded) ses (xr_Events r))"
proof -
  obtain r where r: "Export 4 None demo_exporter 7 shredded demo_export = Some (Inr r)" "xr_TotalEvents r = 1" "\<not> xr_Partial r"
    using demo_export_run by blast
  show ?thesis
    using subject_export_exact [OF shredded_log(2) demo_exporter_fields(1,3), of 4 demo_export 7] r
    by (auto simp: NewSubjectResolver_def shredded_log(1))
qed

text \<open>C26: an export shows nothing of others and nothing that was shredded.  Whatever way the
  request selects events, every exported event renders an event of the log inside the window: it has
  that event's stream, type, version, position, time and metadata, and either is redacted and carries
  the stored bytes only, or carries that event's processed payload.  If the caller gave no filter of his
  own, the event is attributed to the subject or to nobody.  If it was encrypted under a key that the
  provider reports as revoked, the exported event is redacted.\<close>

theorem export_confined:
  assumes "world_ok w" and "xp_store e = mem_bound g uuid now gl s" and "0 < xp_batchSize e"
    and "length (world_log w) < fuel" and "Export fuel None e t w req = Some (Inr r)" and "x \<in> set (xr_Events r)"
  shows "\<exists>se \<in> set (world_log w). rendered e w se x \<and> in_window req se \<and>
    (xq_Filter req = None \<longrightarrow>
       \<not> attributed (exporter_attribute e w se) \<or> mine (exporter_attribute e w) (xq_SubjectID req) se) \<and>
    (es_encryption s \<noteq> None \<and> IsEncrypted (se_Metadata se) \<and>
       xp_IsRevoked e w (GetEncryptionKeyID (se_Metadata se)) = Inr True \<longrightarrow>
     xe_Redacted x \<and> xe_Data x = None \<and> xe_RawData x = Some (se_Data se))"
proof -
  have enc: "es_encryption (bs_store (xp_store e) w) \<noteq> None \<longleftrightarrow> es_encryption s \<noteq> None"
    by (simp add: assms(2) mem_bound_def world_store_def)
  obtain se where se: "se \<in> set (world_log w)" "rendered e w se x" "in_window req se"
    "case xq_Filter req of Some f \<Rightarrow> f se
     | None \<Rightarrow> \<not> attributed (exporter_attribute e w se) \<or> mine (exporter_attribute e w) (xq_SubjectID req) se"
    using mem_scan.export_sources [OF assms] by blast
  have "es_encryption s \<noteq> None \<and> IsEncrypted (se_Metadata se) \<and>
       xp_IsRevoked e w (GetEncryptionKeyID (se_Metadata se)) = Inr True \<longrightarrow>
     xe_Redacted x \<and> xe_Data x = None \<and> xe_RawData x = Some (se_Data se)"
    using se(2) enc by (auto simp: rendered_def)
  then show ?thesis using se by (intro bexI [of _ se]) auto
qed

theorem export_confined_witness:
  "\<exists>r x. Export 4 None demo_exporter 7 shredded demo_export = Some (Inr r) \<and> xr_Events r = [x] \<and>
     (\<exists>se \<in> {vault_1, vault_2, vault_3}. rendered demo_exporter shredded se x \<and>
        (\<not> attributed (exporter_attribute demo_exporter shredded se) \<or> mine (exporter_attribute demo_exporter shredded) ''u1'' se) \<and>
        (IsEncrypted (se_Metadata se) \<and> xp_IsRevoked demo_exporter shredded (GetEncryptionKeyID (se_Metadata se)) = Inr True \<longrightarrow>
           xe_Redacted x \<and> xe_Data x = None \<and> xe_RawData x = Some (se_Data se)))"
proof -
  obtain r x where r: "Export 4 None demo_exporter 7 shredded demo_export = Some (Inr r)" and x: "xr_Events r = [x]"
    using demo_export_run by blast
  show ?thesis
    using export_confined [OF shredded_log(2) demo_exporter_fields(1) _ _ r, of x] r x
    by (auto simp: shredded_log(1) vault_store_def)
qed

end
