(* ===== verification/Repository.thy ===== *)
theory Repository
  imports Audit_Trail Complex_Main "HOL-Library.List_Lexorder" "HOL-Library.Char_ord" "HOL-Library.Sublist"
begin

text \<open>
  The in-memory read-model repository (\<^verbatim>\<open>repository.go\<close>): queries and their builder, filters
  compiled once and evaluated by reflection, ordering with the id as tie-breaker, paging, and the
  operations that change the stored models.

  \<^item> A value of type \<^verbatim>\<open>interface{}\<close> is a \<open>go_value\<close>: its dynamic type by name, and its contents.
    A \<^verbatim>\<open>time.Time\<close> is its instant; channels and functions do not occur in read models, and two pointers
    are equal when what they point to is.  A
    \<^verbatim>\<open>float64\<close> is a rational, an infinity or NaN, and \<open>float64_of_int\<close> is the conversion of an
    integer, which rounds to nearest even beyond 53 bits.
  \<^item> The layout of a struct type is the list of its fields as \<^verbatim>\<open>reflect\<close> presents them; \<open>fd_Embeds\<close>
    is the struct type of a field, reached through pointers, if it has one.  \<open>rt_Index\<close> is the index that
    \<^verbatim>\<open>fieldIndexFor\<close> computes once for the type of the models.
  \<^item> Models are shared by pointer: the heap is a list of values and a pointer is a position in it.
    \<open>rw_data\<close> holds the pointers the repository stores, in the order one \<^verbatim>\<open>range\<close> loop visits them.
    Nil model pointers are left out.
  \<^item> \<^verbatim>\<open>LIKE\<close> patterns and texts are compared rune by rune.  Field names and the names filters use are
    ASCII, the letters \<open>ToLower\<close> knows.
\<close>

section \<open>Values\<close>

datatype go_float = FNaN | FNegInf | FFin rat | FPosInf

datatype go_value =
    VNil
  | VInt string int
  | VUint string int
  | VFloat string go_float
  | VStr string string
  | VBool string bool
  | VTime time
  | VPtr string "go_value option"
  | VSlice string "go_value list option"
  | VArray string "go_value list"
  | VStruct string "go_value list"
  | VMap string "(string \<times> go_value) list option"

fun bit_length :: "nat \<Rightarrow> nat" where
  "bit_length n = (if n = 0 then 0 else Suc (bit_length (n div 2)))"

declare bit_length.simps [simp del]

text \<open>The \<^verbatim>\<open>float64\<close> nearest to an integer, ties to even; it is an integer itself.\<close>

definition float64_of_int :: "int \<Rightarrow> int" where
  "float64_of_int x =
     (let m = nat \<bar>x\<bar>; s = bit_length m - 53; q = m div 2 ^ s; r = m mod 2 ^ s;
          up = (2 * r > 2 ^ s \<or> (2 * r = 2 ^ s \<and> odd q))
      in sgn x * int ((if up then q + 1 else q) * 2 ^ s))"

fun toFloat :: "go_value \<Rightarrow> go_float option" where
  "toFloat (VInt ty x) = Some (FFin (of_int (float64_of_int x)))"
| "toFloat (VUint ty x) = Some (FFin (of_int (float64_of_int x)))"
| "toFloat (VFloat ty f) = Some f"
| "toFloat v = None"

fun toTime :: "go_value \<Rightarrow> time option" where
  "toTime (VTime t) = Some t"
| "toTime v = None"

fun toSlice :: "go_value \<Rightarrow> go_value list option" where
  "toSlice (VSlice ty None) = Some []"
| "toSlice (VSlice ty (Some vs)) = Some vs"
| "toSlice (VArray ty vs) = Some vs"
| "toSlice v = None"

fun float_less :: "go_float \<Rightarrow> go_float \<Rightarrow> bool" where
  "float_less FNegInf FPosInf = True"
| "float_less FNegInf (FFin b) = True"
| "float_less (FFin a) FPosInf = True"
| "float_less (FFin a) (FFin b) = (a < b)"
| "float_less a b = False"

definition compareOrdered :: "go_value \<Rightarrow> go_value \<Rightarrow> int option" where
  "compareOrdered a b =
     (case toTime a of
        Some ta \<Rightarrow> (case toTime b of
                     Some tb \<Rightarrow> Some (if ta < tb then -1 else if ta > tb then 1 else 0)
                   | None \<Rightarrow> None)
      | None \<Rightarrow>
          (case toFloat a of
             Some af \<Rightarrow> (case toFloat b of
                          Some bf \<Rightarrow> Some (if float_less af bf then -1 else if float_less bf af then 1 else 0)
                        | None \<Rightarrow> None)
           | None \<Rightarrow>
               (case (a, b) of
                  (VStr tya s, VStr tyb t) \<Rightarrow>
                    if tya = ''string'' \<and> tyb = ''string'' then Some (if s < t then -1 else if s > t then 1 else 0) else None
                | _ \<Rightarrow> None)))"

text \<open>\<^verbatim>\<open>reflect.DeepEqual\<close>.\<close>

fun deep_equal :: "go_value \<Rightarrow> go_value \<Rightarrow> bool"
  and deep_equals :: "go_value list \<Rightarrow> go_value list \<Rightarrow> bool"
  and deep_entries :: "(string \<times> go_value) list \<Rightarrow> (string \<times> go_value) list \<Rightarrow> bool" where
  "deep_equal VNil w = (w = VNil)"
| "deep_equal (VInt t x) w = (w = VInt t x)"
| "deep_equal (VUint t x) w = (w = VUint t x)"
| "deep_equal (VFloat t f) w = (w = VFloat t f \<and> f \<noteq> FNaN)"
| "deep_equal (VStr t s) w = (w = VStr t s)"
| "deep_equal (VBool t b) w = (w = VBool t b)"
| "deep_equal (VTime t) w = (w = VTime t)"
| "deep_equal (VPtr t None) w = (w = VPtr t None)"
| "deep_equal (VPtr t (Some v)) w = (case w of VPtr t' (Some v') \<Rightarrow> t = t' \<and> deep_equal v v' | _ \<Rightarrow> False)"
| "deep_equal (VSlice t None) w = (w = VSlice t None)"
| "deep_equal (VSlice t (Some vs)) w = (case w of VSlice t' (Some vs') \<Rightarrow> t = t' \<and> deep_equals vs vs' | _ \<Rightarrow> False)"
| "deep_equal (VArray t vs) w = (case w of VArray t' vs' \<Rightarrow> t = t' \<and> deep_equals vs vs' | _ \<Rightarrow> False)"
| "deep_equal (VStruct t vs) w = (case w of VStruct t' vs' \<Rightarrow> t = t' \<and> deep_equals vs vs' | _ \<Rightarrow> False)"
| "deep_equal (VMap t None) w = (w = VMap t None)"
| "deep_equal (VMap t (Some m)) w =
     (case w of VMap t' (Some m') \<Rightarrow> t = t' \<and> length m = length m' \<and> deep_entries m m' | _ \<Rightarrow> False)"
| "deep_equals [] ws = (ws = [])"
| "deep_equals (v # vs) ws = (case ws of w # ws' \<Rightarrow> deep_equal v w \<and> deep_equals vs ws' | [] \<Rightarrow> False)"
| "deep_entries [] m' = True"
| "deep_entries ((k, v) # m) m' = ((case map_of m' k of None \<Rightarrow> False | Some v' \<Rightarrow> deep_equal v v') \<and> deep_entries m m')"

definition valuesEqual :: "go_value \<Rightarrow> go_value \<Rightarrow> bool" where
  "valuesEqual a b = (case compareOrdered a b of Some cmp \<Rightarrow> cmp = 0 | None \<Rightarrow> deep_equal a b)"

fun isNilValue :: "go_value \<Rightarrow> bool" where
  "isNilValue VNil = True"
| "isNilValue (VPtr ty p) = (p = None)"
| "isNilValue (VSlice ty s) = (s = None)"
| "isNilValue (VMap ty m) = (m = None)"
| "isNilValue v = False"

definition matchContains :: "go_value \<Rightarrow> go_value \<Rightarrow> bool" where
  "matchContains val target =
     (case val of
        VStr ty s \<Rightarrow> if ty = ''string''
                     then (case target of VStr ty' sub \<Rightarrow> ty' = ''string'' \<and> sublist sub s | _ \<Rightarrow> False) else False
      | _ \<Rightarrow> (case toSlice val of Some items \<Rightarrow> list_ex (\<lambda>item. valuesEqual item target) items | None \<Rightarrow> False))"

section \<open>Fields\<close>

record field_desc =
  fd_Name :: string
  fd_PkgPath :: string
  fd_JSONTag :: string
  fd_Anonymous :: bool
  fd_Embeds :: "string option"

type_synonym field_index = "(string, nat list) gomap"

definition ToLower :: "string \<Rightarrow> string" where
  "ToLower s = map (\<lambda>c. if of_char c \<in> {65::nat..90} then char_of (of_char c + 32 :: nat) else c) s"

definition put_absent :: "string \<Rightarrow> nat list \<Rightarrow> field_index \<Rightarrow> field_index" where
  "put_absent key idx m = (if map_of m key \<noteq> None then m else AList.update key idx m)"

definition index_field ::
  "nat list \<Rightarrow> nat \<times> field_desc \<Rightarrow> (string \<times> nat list) list \<times> field_index \<Rightarrow> (string \<times> nat list) list \<times> field_index" where
  "index_field pre f st =
     (case f of (i, sf) \<Rightarrow> case st of (nextLevel, m) \<Rightarrow>
      let idx = pre @ [i] in
      (case (if fd_Anonymous sf then fd_Embeds sf else None) of
         Some ft \<Rightarrow> (nextLevel @ [(ft, idx)], m)
       | None \<Rightarrow>
           if fd_PkgPath sf \<noteq> [] then (nextLevel, m)
           else let tag = takeWhile (\<lambda>c. c \<noteq> CHR '','') (fd_JSONTag sf);
                    m1 = (if tag \<noteq> [] \<and> tag \<noteq> ''-'' then put_absent tag idx m else m);
                    lname = ToLower (fd_Name sf)
                in (nextLevel, if lname \<noteq> [] then put_absent lname idx m1 else m1)))"

definition index_node ::
  "(string \<Rightarrow> field_desc list) \<Rightarrow> string \<times> nat list \<Rightarrow> (string \<times> nat list) list \<times> field_index \<Rightarrow>
   (string \<times> nat list) list \<times> field_index" where
  "index_node structs n st = fold (index_field (snd n)) (enumerate 0 (structs (fst n))) st"

text \<open>The levels of the embedding tree; the fuel bounds their number.\<close>

fun buildFieldIndex ::
  "nat \<Rightarrow> (string \<Rightarrow> field_desc list) \<Rightarrow> (string \<times> nat list) list \<Rightarrow> field_index \<Rightarrow> field_index option" where
  "buildFieldIndex fuel structs [] m = Some m"
| "buildFieldIndex 0 structs (n # level) m = None"
| "buildFieldIndex (Suc fuel) structs (n # level) m =
     (case fold (index_node structs) (n # level) ([], m) of (nextLevel, m') \<Rightarrow> buildFieldIndex fuel structs nextLevel m')"

definition fieldIndexFor :: "nat \<Rightarrow> (string \<Rightarrow> field_desc list) \<Rightarrow> string \<Rightarrow> field_index option" where
  "fieldIndexFor fuel structs t = buildFieldIndex fuel structs [(t, [])] []"

record read_type =
  rt_IsStruct :: bool
  rt_Index :: field_index

definition lookup_field :: "field_index \<Rightarrow> string \<Rightarrow> nat list option" where
  "lookup_field m field = (case map_of m field of Some idx \<Rightarrow> Some idx | None \<Rightarrow> map_of m (ToLower field))"

fun deref_ptrs :: "go_value \<Rightarrow> go_value option" where
  "deref_ptrs (VPtr ty None) = None"
| "deref_ptrs (VPtr ty (Some v)) = deref_ptrs v"
| "deref_ptrs v = Some v"

fun fieldByIndexPath :: "go_value \<Rightarrow> nat list \<Rightarrow> go_value option" where
  "fieldByIndexPath v [] = Some v"
| "fieldByIndexPath v (i # idx) =
     (case deref_ptrs v of
        Some (VStruct ty vs) \<Rightarrow> if i < length vs then fieldByIndexPath (vs ! i) idx else None
      | _ \<Rightarrow> None)"

definition fieldValue :: "read_type \<Rightarrow> go_value \<Rightarrow> string \<Rightarrow> go_value option" where
  "fieldValue rt model field =
     (case deref_ptrs model of
        Some (VStruct ty vs) \<Rightarrow>
          (case lookup_field (rt_Index rt) field of
             None \<Rightarrow> None
           | Some idx \<Rightarrow> fieldByIndexPath (VStruct ty vs) idx)
      | _ \<Rightarrow> None)"

section \<open>Errors and queries\<close>

datatype repo_error =
    ErrNotFound
  | ErrAlreadyExists
  | ErrInvalidQuery
  | ErrUnknownFilterField
  | ErrNullColumn
  | ErrColumnValueRange
  | InvalidQuery string
  | UnknownFilterFieldError string
  | NullColumnError string string string string
  | ColumnValueRangeError string string string string

fun repo_Is :: "repo_error \<Rightarrow> repo_error \<Rightarrow> bool" where
  "repo_Is ErrUnknownFilterField t = (t \<in> {ErrUnknownFilterField, ErrInvalidQuery})"
| "repo_Is (InvalidQuery msg) t = (t \<in> {InvalidQuery msg, ErrInvalidQuery})"
| "repo_Is (UnknownFilterFieldError f) t = (t \<in> {UnknownFilterFieldError f, ErrUnknownFilterField, ErrInvalidQuery})"
| "repo_Is (NullColumnError c f g e) t = (t \<in> {NullColumnError c f g e, ErrNullColumn})"
| "repo_Is (ColumnValueRangeError c f g v) t = (t \<in> {ColumnValueRangeError c f g v, ErrColumnValueRange})"
| "repo_Is e t = (t = e)"

datatype FilterOp =
    FilterOpEq | FilterOpNe | FilterOpGt | FilterOpGte | FilterOpLt | FilterOpLte | FilterOpIn | FilterOpNotIn
  | FilterOpLike | FilterOpIsNull | FilterOpIsNotNull | FilterOpContains | FilterOpBetween | FilterOpOther string

record query_filter =
  qf_Field :: string
  qf_Op :: FilterOp
  qf_Value :: go_value

record order_by =
  ob_Field :: string
  ob_Desc :: bool

record query =
  qy_Filters :: "query_filter list"
  qy_OrderBy :: "order_by list"
  qy_Limit :: int
  qy_Offset :: int
  qy_IncludeCount :: bool

definition NewQuery :: query where
  "NewQuery = \<lparr>qy_Filters = [], qy_OrderBy = [], qy_Limit = 0, qy_Offset = 0, qy_IncludeCount = False\<rparr>"

definition Where :: "string \<Rightarrow> FilterOp \<Rightarrow> go_value \<Rightarrow> query \<Rightarrow> query" where
  "Where field op val q = q\<lparr>qy_Filters := qy_Filters q @ [\<lparr>qf_Field = field, qf_Op = op, qf_Value = val\<rparr>]\<rparr>"

definition And :: "string \<Rightarrow> FilterOp \<Rightarrow> go_value \<Rightarrow> query \<Rightarrow> query" where
  "And field op val q = Where field op val q"

definition OrderByAsc :: "string \<Rightarrow> query \<Rightarrow> query" where
  "OrderByAsc field q = q\<lparr>qy_OrderBy := qy_OrderBy q @ [\<lparr>ob_Field = field, ob_Desc = False\<rparr>]\<rparr>"

definition OrderByDesc :: "string \<Rightarrow> query \<Rightarrow> query" where
  "OrderByDesc field q = q\<lparr>qy_OrderBy := qy_OrderBy q @ [\<lparr>ob_Field = field, ob_Desc = True\<rparr>]\<rparr>"

definition WithLimit :: "int \<Rightarrow> query \<Rightarrow> query" where
  "WithLimit limit q = q\<lparr>qy_Limit := limit\<rparr>"

definition WithOffset :: "int \<Rightarrow> query \<Rightarrow> query" where
  "WithOffset offset q = q\<lparr>qy_Offset := offset\<rparr>"

definition WithPagination :: "int \<Rightarrow> int \<Rightarrow> query \<Rightarrow> query" where
  "WithPagination page pageSize q =
     (let offset = signed_take_bit 63 ((page - 1) * pageSize)
      in q\<lparr>qy_Limit := pageSize, qy_Offset := (if offset < 0 then 0 else offset)\<rparr>)"

definition WithCount :: "query \<Rightarrow> query" where
  "WithCount q = q\<lparr>qy_IncludeCount := True\<rparr>"

section \<open>Filters\<close>

datatype like_token = AnySeq | AnyOne | Literal nat

definition compileLike :: "string \<Rightarrow> like_token list" where
  "compileLike pattern =
     map (\<lambda>(r, bs). if r = of_char (CHR ''%'') then AnySeq else if r = of_char (CHR ''_'') then AnyOne else Literal r) (runes pattern)"

text \<open>The match of the compiled, anchored expression on the runes of a text.\<close>

fun like_match :: "like_token list \<Rightarrow> nat list \<Rightarrow> bool" where
  "like_match [] s = (s = [])"
| "like_match (Literal c # ts) s = (case s of [] \<Rightarrow> False | d # s' \<Rightarrow> c = d \<and> like_match ts s')"
| "like_match (AnyOne # ts) s = (case s of [] \<Rightarrow> False | d # s' \<Rightarrow> like_match ts s')"
| "like_match (AnySeq # ts) [] = like_match ts []"
| "like_match (AnySeq # ts) (d # s) = (like_match ts (d # s) \<or> like_match (AnySeq # ts) s)"

record compiledFilter =
  cf_field :: string
  cf_op :: FilterOp
  cf_value :: go_value
  cf_re :: "like_token list"
  cf_set :: "go_value list"
  cf_lo :: go_value
  cf_hi :: go_value

definition compileFilter :: "query_filter \<Rightarrow> repo_error + compiledFilter" where
  "compileFilter f =
     (let cf = \<lparr>cf_field = qf_Field f, cf_op = qf_Op f, cf_value = qf_Value f, cf_re = [], cf_set = [], cf_lo = VNil, cf_hi = VNil\<rparr>
      in (case qf_Op f of
            FilterOpLike \<Rightarrow>
              (case qf_Value f of
                 VStr ty pattern \<Rightarrow>
                   if ty = ''string'' then Inr (cf\<lparr>cf_re := compileLike pattern\<rparr>)
                   else Inl (InvalidQuery ''LIKE requires a string value'')
               | _ \<Rightarrow> Inl (InvalidQuery ''LIKE requires a string value''))
          | FilterOpBetween \<Rightarrow>
              (case toSlice (qf_Value f) of
                 Some [lo, hi] \<Rightarrow> Inr (cf\<lparr>cf_lo := lo, cf_hi := hi\<rparr>)
               | _ \<Rightarrow> Inl (InvalidQuery ''BETWEEN requires a [low, high] value''))
          | FilterOpOther op \<Rightarrow> Inl (InvalidQuery ''unsupported filter operator'')
          | op \<Rightarrow>
              if op \<in> {FilterOpIn, FilterOpNotIn}
              then (case toSlice (qf_Value f) of
                      None \<Rightarrow> Inl (InvalidQuery ''requires a slice value'')
                    | Some items \<Rightarrow> if length items = 0 then Inl (InvalidQuery ''requires a non-empty slice'')
                                     else Inr (cf\<lparr>cf_set := items\<rparr>))
              else Inr cf))"

fun compileFilters :: "query_filter list \<Rightarrow> repo_error + compiledFilter list" where
  "compileFilters [] = Inr []"
| "compileFilters (f # fs) =
     (case compileFilter f of
        Inl err \<Rightarrow> Inl err
      | Inr cf \<Rightarrow> (case compileFilters fs of Inl err \<Rightarrow> Inl err | Inr cfs \<Rightarrow> Inr (cf # cfs)))"

definition matchCompiled :: "read_type \<Rightarrow> go_value \<Rightarrow> compiledFilter \<Rightarrow> bool" where
  "matchCompiled rt model cf =
     (case (cf_op cf, fieldValue rt model (cf_field cf)) of
        (FilterOpIsNull, None) \<Rightarrow> True
      | (FilterOpIsNull, Some val) \<Rightarrow> isNilValue val
      | (FilterOpIsNotNull, None) \<Rightarrow> False
      | (FilterOpIsNotNull, Some val) \<Rightarrow> \<not> isNilValue val
      | (op, None) \<Rightarrow> op = FilterOpNe
      | (FilterOpEq, Some val) \<Rightarrow> valuesEqual val (cf_value cf)
      | (FilterOpNe, Some val) \<Rightarrow> \<not> valuesEqual val (cf_value cf)
      | (FilterOpGt, Some val) \<Rightarrow> (case compareOrdered val (cf_value cf) of None \<Rightarrow> False | Some cmp \<Rightarrow> cmp > 0)
      | (FilterOpGte, Some val) \<Rightarrow> (case compareOrdered val (cf_value cf) of None \<Rightarrow> False | Some cmp \<Rightarrow> cmp \<ge> 0)
      | (FilterOpLt, Some val) \<Rightarrow> (case compareOrdered val (cf_value cf) of None \<Rightarrow> False | Some cmp \<Rightarrow> cmp < 0)
      | (FilterOpLte, Some val) \<Rightarrow> (case compareOrdered val (cf_value cf) of None \<Rightarrow> False | Some cmp \<Rightarrow> cmp \<le> 0)
      | (FilterOpIn, Some val) \<Rightarrow> list_ex (\<lambda>item. valuesEqual val item) (cf_set cf)
      | (FilterOpNotIn, Some val) \<Rightarrow> \<not> list_ex (\<lambda>item. valuesEqual val item) (cf_set cf)
      | (FilterOpLike, Some val) \<Rightarrow>
          (case val of VStr ty s \<Rightarrow> if ty = ''string'' then like_match (cf_re cf) (map fst (runes s)) else False | _ \<Rightarrow> False)
      | (FilterOpContains, Some val) \<Rightarrow> matchContains val (cf_value cf)
      | (FilterOpBetween, Some val) \<Rightarrow>
          (case (compareOrdered val (cf_lo cf), compareOrdered val (cf_hi cf)) of
             (Some lo, Some hi) \<Rightarrow> lo \<ge> 0 \<and> hi \<le> 0
           | _ \<Rightarrow> False)
      | (FilterOpOther op, Some val) \<Rightarrow> False)"

fun matchesCompiled :: "read_type \<Rightarrow> go_value \<Rightarrow> compiledFilter list \<Rightarrow> bool" where
  "matchesCompiled rt model [] = True"
| "matchesCompiled rt model (cf # cfs) = (if \<not> matchCompiled rt model cf then False else matchesCompiled rt model cfs)"

fun unknown_field :: "field_index \<Rightarrow> query_filter list \<Rightarrow> repo_error option" where
  "unknown_field idx [] = None"
| "unknown_field idx (f # fs) =
     (if map_of idx (qf_Field f) \<noteq> None then unknown_field idx fs
      else if map_of idx (ToLower (qf_Field f)) \<noteq> None then unknown_field idx fs
      else Some (UnknownFilterFieldError (qf_Field f)))"

definition validateFilterFields :: "read_type \<Rightarrow> query_filter list \<Rightarrow> repo_error option" where
  "validateFilterFields rt filters =
     (if length filters = 0 then None else if \<not> rt_IsStruct rt then None else unknown_field (rt_Index rt) filters)"

section \<open>The repository\<close>

type_synonym addr = nat

record repository =
  rp_type :: read_type
  rp_getID :: "go_value \<Rightarrow> string"

record repo_world =
  rw_heap :: "go_value list"
  rw_data :: "(string, addr) gomap"

definition deref :: "go_value list \<Rightarrow> addr \<Rightarrow> go_value" where
  "deref h p = (if p < length h then h ! p else VNil)"

definition copyModel :: "go_value list \<Rightarrow> addr \<Rightarrow> go_value list \<times> addr" where
  "copyModel h p = (h @ [deref h p], length h)"

fun copy_all :: "go_value list \<Rightarrow> addr list \<Rightarrow> go_value list \<times> addr list" where
  "copy_all h [] = (h, [])"
| "copy_all h (p # ps) = (case copyModel h p of (h1, q) \<Rightarrow> case copy_all h1 ps of (h2, qs) \<Rightarrow> (h2, q # qs))"

definition NewInMemoryRepository :: "read_type \<Rightarrow> (go_value \<Rightarrow> string) \<Rightarrow> repository \<times> (string, addr) gomap" where
  "NewInMemoryRepository rt getID = (\<lparr>rp_type = rt, rp_getID = getID\<rparr>, [])"

text \<open>\<open>None\<close> stands for a type without \<^verbatim>\<open>GetID\<close>.\<close>

definition NewInMemoryRepositoryFor :: "read_type \<Rightarrow> (go_value \<Rightarrow> string) option \<Rightarrow> repository \<times> (string, addr) gomap" where
  "NewInMemoryRepositoryFor rt GetID = NewInMemoryRepository rt (case GetID of Some f \<Rightarrow> f | None \<Rightarrow> (\<lambda>m. []))"

definition Repo_Get :: "repo_world \<Rightarrow> string \<Rightarrow> repo_world \<times> (repo_error + addr)" where
  "Repo_Get w key =
     (case map_of (rw_data w) key of
        Some model \<Rightarrow> (case copyModel (rw_heap w) model of (h, q) \<Rightarrow> (w\<lparr>rw_heap := h\<rparr>, Inr q))
      | None \<Rightarrow> (w, Inl ErrNotFound))"

fun get_many :: "(string, addr) gomap \<Rightarrow> string list \<Rightarrow> addr list" where
  "get_many data [] = []"
| "get_many data (key # ids) = (case map_of data key of Some p \<Rightarrow> p # get_many data ids | None \<Rightarrow> get_many data ids)"

definition Repo_GetMany :: "repo_world \<Rightarrow> string list \<Rightarrow> repo_world \<times> (repo_error + addr list)" where
  "Repo_GetMany w ids = (case copy_all (rw_heap w) (get_many (rw_data w) ids) of (h, qs) \<Rightarrow> (w\<lparr>rw_heap := h\<rparr>, Inr qs))"

definition matchingModels :: "repository \<Rightarrow> repo_world \<Rightarrow> query \<Rightarrow> repo_error + addr list" where
  "matchingModels rp w q =
     (case validateFilterFields (rp_type rp) (qy_Filters q) of
        Some err \<Rightarrow> Inl err
      | None \<Rightarrow>
          (case compileFilters (qy_Filters q) of
             Inl err \<Rightarrow> Inl err
           | Inr compiled \<Rightarrow> Inr (filter (\<lambda>p. matchesCompiled (rp_type rp) (deref (rw_heap w) p) compiled) (map snd (rw_data w)))))"

text \<open>One step of the comparison that \<^verbatim>\<open>orderModels\<close> sorts by, on the keys and ids of two models.\<close>

fun dec_less :: "order_by list \<Rightarrow> go_value list \<times> string \<Rightarrow> go_value list \<times> string \<Rightarrow> bool" where
  "dec_less (ob # obs) (a # ka, i) (b # kb, j) =
     (case compareOrdered a b of
        None \<Rightarrow> dec_less obs (ka, i) (kb, j)
      | Some cmp \<Rightarrow> if cmp = 0 then dec_less obs (ka, i) (kb, j)
                    else if ob_Desc ob then cmp > 0 else cmp < 0)"
| "dec_less obs (ka, i) (kb, j) = (i < j)"

definition order_keys :: "repository \<Rightarrow> order_by list \<Rightarrow> go_value \<Rightarrow> go_value list \<times> string" where
  "order_keys rp orderBy m =
     (map (\<lambda>ob. case fieldValue (rp_type rp) m (ob_Field ob) of Some v \<Rightarrow> v | None \<Rightarrow> VNil) orderBy, rp_getID rp m)"

definition orderModels :: "repository \<Rightarrow> go_value list \<Rightarrow> order_by list \<Rightarrow> addr list \<Rightarrow> addr list" where
  "orderModels rp h orderBy models =
     (if length orderBy = 0
      then sort_stable (\<lambda>p q. rp_getID rp (deref h p) < rp_getID rp (deref h q)) models
      else map fst (sort_stable (\<lambda>a b. dec_less orderBy (snd a) (snd b))
                     (map (\<lambda>m. (m, order_keys rp orderBy (deref h m))) models)))"

definition query_page :: "query \<Rightarrow> 'a list \<Rightarrow> 'a list" where
  "query_page q matched =
     (if qy_Offset q > 0 \<and> qy_Offset q \<ge> int (length matched) then []
      else let rest = (if qy_Offset q > 0 then drop (nat (qy_Offset q)) matched else matched)
           in if qy_Limit q > 0 \<and> qy_Limit q < int (length rest) then take (nat (qy_Limit q)) rest else rest)"

definition Repo_Find :: "repository \<Rightarrow> repo_world \<Rightarrow> query \<Rightarrow> repo_world \<times> (repo_error + addr list)" where
  "Repo_Find rp w q =
     (case matchingModels rp w q of
        Inl err \<Rightarrow> (w, Inl err)
      | Inr matched \<Rightarrow>
          (case copy_all (rw_heap w) (query_page q (orderModels rp (rw_heap w) (qy_OrderBy q) matched)) of
             (h, results) \<Rightarrow> (w\<lparr>rw_heap := h\<rparr>, Inr results)))"

definition Repo_FindOne :: "repository \<Rightarrow> repo_world \<Rightarrow> query \<Rightarrow> repo_world \<times> (repo_error + addr)" where
  "Repo_FindOne rp w q =
     (case Repo_Find rp w (q\<lparr>qy_Limit := 1\<rparr>) of
        (w', Inl err) \<Rightarrow> (w', Inl err)
      | (w', Inr []) \<Rightarrow> (w', Inl ErrNotFound)
      | (w', Inr (r # rs)) \<Rightarrow> (w', Inr r))"

definition Repo_Count :: "repository \<Rightarrow> repo_world \<Rightarrow> query \<Rightarrow> repo_error + int" where
  "Repo_Count rp w q =
     (if length (qy_Filters q) = 0 then Inr (int (length (rw_data w)))
      else (case matchingModels rp w q of Inl err \<Rightarrow> Inl err | Inr matched \<Rightarrow> Inr (int (length matched))))"

definition Repo_Insert :: "repository \<Rightarrow> repo_world \<Rightarrow> addr \<Rightarrow> repo_world \<times> repo_error option" where
  "Repo_Insert rp w model =
     (let key = rp_getID rp (deref (rw_heap w) model)
      in if map_of (rw_data w) key \<noteq> None then (w, Some ErrAlreadyExists)
         else (w\<lparr>rw_data := AList.update key model (rw_data w)\<rparr>, None))"

definition Repo_Update :: "repo_world \<Rightarrow> string \<Rightarrow> (go_value \<Rightarrow> go_value) \<Rightarrow> repo_world \<times> repo_error option" where
  "Repo_Update w key updateFn =
     (case map_of (rw_data w) key of
        None \<Rightarrow> (w, Some ErrNotFound)
      | Some model \<Rightarrow> (w\<lparr>rw_heap := (rw_heap w)[model := updateFn (deref (rw_heap w) model)]\<rparr>, None))"

definition Repo_Upsert :: "repository \<Rightarrow> repo_world \<Rightarrow> addr \<Rightarrow> repo_world \<times> repo_error option" where
  "Repo_Upsert rp w model =
     (w\<lparr>rw_data := AList.update (rp_getID rp (deref (rw_heap w) model)) model (rw_data w)\<rparr>, None)"

definition Repo_Delete :: "repo_world \<Rightarrow> string \<Rightarrow> repo_world \<times> repo_error option" where
  "Repo_Delete w key =
     (if map_of (rw_data w) key = None then (w, Some ErrNotFound)
      else (w\<lparr>rw_data := AList.delete key (rw_data w)\<rparr>, None))"

definition Repo_DeleteMany :: "repository \<Rightarrow> repo_world \<Rightarrow> query \<Rightarrow> repo_world \<times> (repo_error + int)" where
  "Repo_DeleteMany rp w q =
     (if length (qy_Filters q) = 0 then (w\<lparr>rw_data := []\<rparr>, Inr (int (length (rw_data w))))
      else (case validateFilterFields (rp_type rp) (qy_Filters q) of
        Some err \<Rightarrow> (w, Inl err)
      | None \<Rightarrow>
          (case compileFilters (qy_Filters q) of
             Inl err \<Rightarrow> (w, Inl err)
           | Inr compiled \<Rightarrow>
               let toDelete = map fst (filter (\<lambda>(key, p). matchesCompiled (rp_type rp) (deref (rw_heap w) p) compiled) (rw_data w))
               in (w\<lparr>rw_data := fold AList.delete toDelete (rw_data w)\<rparr>, Inr (int (length toDelete))))))"

definition Repo_Clear :: "repo_world \<Rightarrow> repo_world \<times> repo_error option" where
  "Repo_Clear w = (w\<lparr>rw_data := []\<rparr>, None)"

definition Repo_Len :: "repo_world \<Rightarrow> nat" where
  "Repo_Len w = length (rw_data w)"

definition Repo_Exists :: "repo_world \<Rightarrow> string \<Rightarrow> repo_error + bool" where
  "Repo_Exists w key = Inr (map_of (rw_data w) key \<noteq> None)"

definition Repo_GetAll :: "repo_world \<Rightarrow> repo_world \<times> (repo_error + addr list)" where
  "Repo_GetAll w = (case copy_all (rw_heap w) (map snd (rw_data w)) of (h, results) \<Rightarrow> (w\<lparr>rw_heap := h\<rparr>, Inr results))"

end
