(* ===== verification/Repository_Laws.thy ===== *)
theory Repository_Laws
  imports Repository
begin

text \<open>
  Laws of the in-memory repository: the field index of acyclic types is computed, comparisons of
  values of one kind form a total preorder, so every column of one kind can be sorted, and copies of
  models are fresh.  The properties are that paging is exact and does not depend on the order in
  which the map is visited, that \<^verbatim>\<open>DeleteMany\<close> removes what \<^verbatim>\<open>Count\<close> counts, and that filters on
  integers are exact up to 53 bits.
\<close>

section \<open>Integers as floats\<close>

lemma bit_length_le: "m < 2 ^ k \<Longrightarrow> bit_length m \<le> k"
proof (induction k arbitrary: m)
  case (Suc k)
  show ?case
  proof (cases "m = 0")
    case False
    then show ?thesis using Suc.IH [of "m div 2"] Suc.prems by (subst bit_length.simps) (simp add: less_mult_imp_div_less)
  qed (simp add: bit_length.simps)
qed (simp add: bit_length.simps)

lemma float64_exact: "\<bar>x\<bar> \<le> 2 ^ 53 \<Longrightarrow> float64_of_int x = x"
proof -
  assume x: "\<bar>x\<bar> \<le> 2 ^ 53"
  define m where "m = nat \<bar>x\<bar>"
  have xm: "x = sgn x * int m" by (simp add: m_def sgn_mult_abs)
  have m: "m \<le> 2 ^ 53" using x by (simp add: m_def nat_le_iff)
  show ?thesis
  proof (cases "m = 2 ^ 53")
    case False
    then have "bit_length m - 53 = 0" using bit_length_le [of m 53] m by simp
    then show ?thesis using xm by (simp add: float64_of_int_def Let_def flip: m_def)
  next
    case True
    have "bit_length m \<le> 54" using bit_length_le [of m 54] m by simp
    then consider "bit_length m - 53 = 0" | "bit_length m - 53 = 1" by linarith
    then show ?thesis
    proof cases
      case 1
      then show ?thesis using xm by (simp add: float64_of_int_def Let_def flip: m_def)
    next
      case 2
      have "even m" "int (m div 2 * 2) = int m" using True by simp_all
      then show ?thesis using xm 2 by (simp add: float64_of_int_def Let_def even_iff_mod_2_eq_zero del: of_nat_mult flip: m_def)
    qed
  qed
qed

section \<open>Comparison\<close>

text \<open>The kinds of value that compare with each other; a NaN compares as equal to every number.\<close>

datatype kclass = KTime | KNumber | KNaN | KString | KPlain

definition vclass :: "go_value \<Rightarrow> kclass" where
  "vclass v =
     (if toTime v \<noteq> None then KTime
      else (case toFloat v of
              Some f \<Rightarrow> if f = FNaN then KNaN else KNumber
            | None \<Rightarrow> (case v of VStr ty s \<Rightarrow> if ty = ''string'' then KString else KPlain | _ \<Rightarrow> KPlain)))"

definition cmp :: "go_value \<Rightarrow> go_value \<Rightarrow> int" where
  "cmp a b = (case compareOrdered a b of None \<Rightarrow> 0 | Some c \<Rightarrow> c)"

lemma vclass_cases:
  obtains (time) t where "vclass v = KTime" "toTime v = Some t"
  | (number) f where "vclass v = KNumber" "toTime v = None" "toFloat v = Some f" "f \<noteq> FNaN"
  | (nan) "vclass v = KNaN"
  | (str) s where "vclass v = KString" "v = VStr ''string'' s"
  | (plain) "vclass v = KPlain" "toTime v = None" "toFloat v = None" "\<And>s. v \<noteq> VStr ''string'' s"
proof (cases v)
  case (VFloat ty f)
  then show thesis using number nan by (cases "f = FNaN") (auto simp: vclass_def)
next
  case (VStr ty s)
  then show thesis using str plain by (cases "ty = ''string''") (auto simp: vclass_def)
qed (use time number plain in \<open>auto simp: vclass_def\<close>)

lemma compare_plain: "vclass a = KPlain \<Longrightarrow> compareOrdered a b = None"
  by (cases a rule: vclass_cases) (auto simp: compareOrdered_def split: go_value.splits if_splits)

lemma float_less_asym: "float_less a b \<Longrightarrow> \<not> float_less b a"
  by (cases a; cases b) auto

lemma float_less_negtrans: "b \<noteq> FNaN \<Longrightarrow> \<not> float_less b a \<Longrightarrow> \<not> float_less c b \<Longrightarrow> \<not> float_less c a"
  by (cases a; cases b; cases c) auto

lemma cmp_class:
  "toTime a = Some s \<Longrightarrow> toTime b = Some t \<Longrightarrow> cmp a b = (if s < t then -1 else if s > t then 1 else 0)"
  "toTime a = None \<Longrightarrow> toFloat a = Some f \<Longrightarrow> toFloat b = Some g \<Longrightarrow>
     cmp a b = (if float_less f g then -1 else if float_less g f then 1 else 0)"
  "cmp (VStr ''string'' x) (VStr ''string'' y) = (if x < y then -1 else if x > y then 1 else 0)"
  "vclass a = KPlain \<Longrightarrow> cmp a b = 0"
  by (simp add: cmp_def compareOrdered_def, simp add: cmp_def compareOrdered_def, simp add: cmp_def compareOrdered_def,
      simp add: cmp_def compare_plain)

lemma cmp_antisym:
  assumes "vclass a = vclass b" and "vclass a \<noteq> KNaN"
  shows "cmp b a = - cmp a b"
  using assms float_less_asym
  by (cases a rule: vclass_cases; cases b rule: vclass_cases) (auto simp: cmp_class)

lemma cmp_trans:
  assumes "vclass a = vclass b" and "vclass b = vclass c" and "vclass a \<noteq> KNaN" and "cmp a b \<le> 0" and "cmp b c \<le> 0"
  shows "cmp a c \<le> 0"
proof (cases a rule: vclass_cases)
  case (number fa)
  obtain fb fc where f: "toTime b = None" "toFloat b = Some fb" "fb \<noteq> FNaN" "toTime c = None" "toFloat c = Some fc"
    using assms(1,2) number(1) by (cases b rule: vclass_cases; cases c rule: vclass_cases) auto
  have le: "(if float_less f g then -1 else if float_less g f then 1 else 0 :: int) \<le> 0 \<longleftrightarrow> \<not> float_less g f" for f g
    using float_less_asym [of f g] by auto
  show ?thesis
    using assms(4,5) float_less_negtrans [of fb fa fc] f number by (simp add: cmp_class le)
qed (use assms in \<open>cases b rule: vclass_cases; cases c rule: vclass_cases; auto simp: cmp_class split: if_splits\<close>)+

section \<open>Ordering\<close>

text \<open>Two lists of sort keys with the same kinds, none of them NaN.\<close>

definition aligned :: "go_value list \<Rightarrow> go_value list \<Rightarrow> bool" where
  "aligned ka kb \<longleftrightarrow> list_all2 (\<lambda>a b. vclass a = vclass b \<and> vclass a \<noteq> KNaN) ka kb"

lemma aligned_Cons [simp]:
  "aligned (a # ka) kb \<longleftrightarrow> (\<exists>b kb'. kb = b # kb' \<and> vclass a = vclass b \<and> vclass a \<noteq> KNaN \<and> aligned ka kb')"
  "aligned [] kb \<longleftrightarrow> kb = []"
  by (simp_all add: aligned_def list_all2_Cons1)

lemma dec_less_Cons:
  "dec_less (ob # obs) (a # ka, i) (b # kb, j) \<longleftrightarrow>
     (let c = (if ob_Desc ob then - cmp a b else cmp a b) in c < 0 \<or> (c = 0 \<and> dec_less obs (ka, i) (kb, j)))"
  by (auto simp: cmp_def Let_def split: option.splits)

declare dec_less.simps(1) [simp del]

lemma dec_less_asym: "aligned ka kb \<Longrightarrow> dec_less obs (ka, i) (kb, j) \<Longrightarrow> \<not> dec_less obs (kb, j) (ka, i)"
  and dec_less_total: "aligned ka kb \<Longrightarrow> i \<noteq> j \<Longrightarrow> dec_less obs (ka, i) (kb, j) \<or> dec_less obs (kb, j) (ka, i)"
proof (induction obs arbitrary: ka kb)
  case (Cons ob obs)
  have step: "ka = [] \<and> kb = [] \<or> (\<exists>a ka' b kb'. ka = a # ka' \<and> kb = b # kb' \<and> aligned ka' kb' \<and> cmp b a = - cmp a b)"
    if "aligned ka kb" for ka kb
    using that by (cases ka) (auto intro: cmp_antisym)
  {
    case 1
    from step [OF 1(1)] show ?case
      using 1 Cons.IH(1) by (elim disjE exE conjE) (auto simp: dec_less_Cons Let_def split: if_splits)
  next
    case 2
    from step [OF 2(1)] show ?case
      using 2 Cons.IH(2) by (elim disjE exE conjE) (auto simp: dec_less_Cons Let_def split: if_splits)
  }
qed auto

lemma lex_negtrans:
  fixes u v w :: int
  assumes "\<not> (u < 0 \<or> (u = 0 \<and> P))" and "\<not> (v < 0 \<or> (v = 0 \<and> Q))" and "0 \<le> u \<Longrightarrow> 0 \<le> v \<Longrightarrow> 0 \<le> w"
    and "0 \<le> v \<Longrightarrow> w \<le> 0 \<Longrightarrow> u \<le> 0" and "w \<le> 0 \<Longrightarrow> 0 \<le> u \<Longrightarrow> v \<le> 0" and "\<not> P \<Longrightarrow> \<not> Q \<Longrightarrow> \<not> R"
  shows "\<not> (w < 0 \<or> (w = 0 \<and> R))"
  using assms by (cases "w = 0") auto

lemma dec_less_negtrans:
  "aligned ka kb \<Longrightarrow> aligned kb kc \<Longrightarrow> \<not> dec_less obs (kb, j) (ka, i) \<Longrightarrow> \<not> dec_less obs (kc, k) (kb, j) \<Longrightarrow>
   \<not> dec_less obs (kc, k) (ka, i)"
proof (induction obs arbitrary: ka kb kc)
  case (Cons ob obs)
  show ?case
  proof (cases ka)
    case ka: (Cons a ka')
    obtain b kb' where kb: "kb = b # kb'" "vclass a = vclass b" "vclass a \<noteq> KNaN" "aligned ka' kb'" using Cons.prems(1) ka by auto
    obtain c kc' where kc: "kc = c # kc'" "vclass b = vclass c" "aligned kb' kc'" using Cons.prems(2) kb(1) by auto
    have anti: "cmp b a = - cmp a b" "cmp c b = - cmp b c" "cmp c a = - cmp a c"
      using kb(2,3) kc(2) by (simp_all only: cmp_antisym [of a b] cmp_antisym [of b c] cmp_antisym [of a c] simp_thms)
    have cl: "vclass b = vclass a" "vclass c = vclass a" using kb(2) kc(2) by simp_all
    have le: "cmp x y \<le> 0 \<Longrightarrow> cmp y z \<le> 0 \<Longrightarrow> cmp x z \<le> 0" if "vclass x = vclass a" "vclass y = vclass a" "vclass z = vclass a" for x y z
      using that kb(3) by (intro cmp_trans [of x y z]) simp_all
    note le = le [OF refl cl] le [OF cl refl] le [OF cl(2) refl cl(1)] le [OF cl(2,1) refl] le [OF refl cl(2,1)] le [OF cl(1) refl cl(2)]
    note ih = Cons.IH [OF kb(4) kc(3)]
    show ?thesis
    proof (cases "ob_Desc ob")
      case True
      show ?thesis
        using Cons.prems(3,4) unfolding ka kb(1) kc(1) dec_less_Cons Let_def if_P [OF True]
        by (rule lex_negtrans) (use le anti in linarith, use le anti in linarith, use le anti in linarith, rule ih)
    next
      case False
      show ?thesis
        using Cons.prems(3,4) unfolding ka kb(1) kc(1) dec_less_Cons Let_def if_not_P [OF False]
        by (rule lex_negtrans) (use le anti in linarith, use le anti in linarith, use le anti in linarith, rule ih)
    qed
  qed (use Cons.prems in auto)
qed auto

lemma sorted_unique:
  assumes "sorted_wrt lt xs" and "sorted_wrt lt ys" and "mset xs = mset ys" and "\<And>a b. lt a b \<Longrightarrow> a \<in> set xs \<Longrightarrow> b \<in> set xs \<Longrightarrow> \<not> lt b a"
  shows "xs = ys"
  using assms
proof (induction xs arbitrary: ys)
  case (Cons x xs)
  obtain y ys' where ys: "ys = y # ys'" using Cons.prems(3) by (cases ys) auto
  have st: "set (x # xs) = set ys" using Cons.prems(3) by (rule mset_eq_setD)
  have "x = y"
  proof (rule ccontr)
    assume "x \<noteq> y"
    then have "lt x y" "lt y x" using Cons.prems(1,2) st unfolding ys by auto
    then show False using Cons.prems(4) [of x y] st ys by auto
  qed
  have "xs = ys'" by (rule Cons.IH) (use Cons.prems ys \<open>x = y\<close> in auto)
  then show ?case using ys \<open>x = y\<close> by simp
qed simp

lemma sort_stable_map: "map f (sort_stable (\<lambda>a b. lt (f a) (f b)) xs) = sort_stable lt (map f xs)"
proof -
  have "map f (insert_stable (\<lambda>a b. lt (f a) (f b)) x ys) = insert_stable lt (f x) (map f ys)" for x ys
    by (induction ys) simp_all
  then show ?thesis unfolding sort_stable_def by (induction xs) simp_all
qed

section \<open>Stored models\<close>

definition repo_ok :: "repository \<Rightarrow> repo_world \<Rightarrow> bool" where
  "repo_ok rp w \<longleftrightarrow> gm_wf (rw_data w) \<and>
     (\<forall>(key, p) \<in> set (rw_data w). p < length (rw_heap w) \<and> rp_getID rp (deref (rw_heap w) p) = key)"

definition contents :: "repo_world \<Rightarrow> go_value list" where
  "contents w = map (\<lambda>(key, p). deref (rw_heap w) p) (rw_data w)"

definition valid_query :: "repository \<Rightarrow> query \<Rightarrow> bool" where
  "valid_query rp q \<longleftrightarrow> validateFilterFields (rp_type rp) (qy_Filters q) = None \<and> \<not> isl (compileFilters (qy_Filters q))"

definition selects :: "repository \<Rightarrow> query \<Rightarrow> go_value \<Rightarrow> bool" where
  "selects rp q v = (case compileFilters (qy_Filters q) of Inl err \<Rightarrow> False | Inr compiled \<Rightarrow> matchesCompiled (rp_type rp) v compiled)"

text \<open>The order of two models under a query, and the models whose order-by columns hold values of one kind.\<close>

definition model_less :: "repository \<Rightarrow> order_by list \<Rightarrow> go_value \<Rightarrow> go_value \<Rightarrow> bool" where
  "model_less rp obs a b = dec_less obs (order_keys rp obs a) (order_keys rp obs b)"

definition sortable_by :: "repository \<Rightarrow> order_by list \<Rightarrow> go_value list \<Rightarrow> bool" where
  "sortable_by rp obs vs \<longleftrightarrow> (\<forall>a \<in> set vs. \<forall>b \<in> set vs. aligned (fst (order_keys rp obs a)) (fst (order_keys rp obs b)))"

lemma distinct_ids: "repo_ok rp w \<Longrightarrow> distinct (map (rp_getID rp) (contents w))"
proof -
  assume ok: "repo_ok rp w"
  then have "map (rp_getID rp) (contents w) = map fst (rw_data w)" by (auto simp: contents_def repo_ok_def)
  then show ?thesis using ok by (simp add: repo_ok_def)
qed

lemma copy_all_fresh:
  "\<forall>p \<in> set ps. p < length h \<Longrightarrow> copy_all h ps = (h @ map (deref h) ps, [length h..<length h + length ps])"
proof (induction ps arbitrary: h)
  case (Cons p ps)
  have "map (deref (h @ [deref h p])) ps = map (deref h) ps" using Cons.prems by (auto simp: deref_def nth_append)
  moreover have "[length h..<length h + length (p # ps)] = length h # [Suc (length h)..<Suc (length h) + length ps]"
    by (simp add: upt_conv_Cons del: upt_Suc)
  moreover have "\<forall>x \<in> set ps. x < length (h @ [deref h p])" using Cons.prems by auto
  ultimately show ?case using Cons.IH [of "h @ [deref h p]"] by (simp add: copyModel_def del: upt_Suc)
qed simp

lemma copied_values:
  assumes "\<forall>p \<in> set ps. p < length h" and "copy_all h ps = (h', qs)"
  shows "map (deref h') qs = map (deref h) ps"
proof -
  have "map (deref (h @ vs)) [length h..<length h + length vs] = vs" for vs
    by (rule nth_equalityI) (simp_all add: deref_def)
  from this [of "map (deref h) ps"] show ?thesis using assms(2) by (simp add: copy_all_fresh [OF assms(1)])
qed

lemma orderModels_values:
  "map (deref h) (orderModels rp h obs ms) = sort_stable (model_less rp obs) (map (deref h) ms)"
  "set (orderModels rp h obs ms) = set ms"
proof -
  let ?dec = "\<lambda>m. (m, order_keys rp obs (deref h m))"
  have "map fst (sort_stable (\<lambda>a b. dec_less obs (snd a) (snd b)) (map ?dec ms)) =
      sort_stable (\<lambda>p q. model_less rp obs (deref h p) (deref h q)) ms"
    using sort_stable_map [of ?dec "\<lambda>a b. dec_less obs (snd a) (snd b)" ms, symmetric] by (simp add: model_less_def comp_def)
  then have ord: "orderModels rp h obs ms = sort_stable (\<lambda>p q. model_less rp obs (deref h p) (deref h q)) ms"
    by (auto simp: orderModels_def model_less_def order_keys_def)
  show "map (deref h) (orderModels rp h obs ms) = sort_stable (model_less rp obs) (map (deref h) ms)"
    unfolding ord by (rule sort_stable_map)
  show "set (orderModels rp h obs ms) = set ms" unfolding ord by simp
qed

lemma sorted_models:
  assumes "sortable_by rp obs vs" and "distinct (map (rp_getID rp) vs)"
  shows "sorted_wrt (model_less rp obs) (sort_stable (model_less rp obs) vs)"
    and "\<And>a b. model_less rp obs a b \<Longrightarrow> a \<in> set vs \<Longrightarrow> b \<in> set vs \<Longrightarrow> \<not> model_less rp obs b a"
proof -
  let ?ss = "sort_stable (model_less rp obs) vs"
  have al: "aligned (fst (order_keys rp obs a)) (fst (order_keys rp obs b))" if "a \<in> set vs" "b \<in> set vs" for a b
    using assms(1) that by (simp add: sortable_by_def)
  have split: "order_keys rp obs v = (fst (order_keys rp obs v), rp_getID rp v)" for v by (simp add: order_keys_def)
  show asym: "\<not> model_less rp obs b a" if "model_less rp obs a b" "a \<in> set vs" "b \<in> set vs" for a b
    using dec_less_asym [OF al [OF that(2,3)], of obs] that(1) unfolding model_less_def by (metis split)
  have neg: "\<not> model_less rp obs c a" if "\<not> model_less rp obs b a" "\<not> model_less rp obs c b" "{a, b, c} \<subseteq> set vs" for a b c
    using dec_less_negtrans [OF al al, of a b c obs] that unfolding model_less_def by (metis split insert_subset)
  have tot: "model_less rp obs a b" if "\<not> model_less rp obs b a" "rp_getID rp a \<noteq> rp_getID rp b" "a \<in> set vs" "b \<in> set vs" for a b
    using dec_less_total [OF al [OF that(3,4)] that(2), of obs] that(1) unfolding model_less_def by (metis split)
  have "sorted_wrt (\<lambda>a b. \<not> model_less rp obs b a) ?ss"
    by (rule sorted_sort_stable) ((rule neg; assumption), (erule asym; simp))
  moreover have "sorted_wrt (\<lambda>a b. rp_getID rp a \<noteq> rp_getID rp b) ?ss"
  proof -
    have "distinct (map (rp_getID rp) ?ss)" using assms(2) by (metis mset_map mset_sort_stable mset_eq_imp_distinct_iff)
    then show ?thesis by (simp add: sorted_wrt_iff_nth_less distinct_conv_nth)
  qed
  ultimately have "sorted_wrt (\<lambda>a b. \<not> model_less rp obs b a \<and> rp_getID rp a \<noteq> rp_getID rp b) ?ss"
    by (simp add: sorted_wrt_iff_nth_less)
  then show "sorted_wrt (model_less rp obs) ?ss"
    using tot by (auto elim: sorted_wrt_mono_rel [rotated])
qed

lemma matchingModels_valid:
  assumes "valid_query rp q"
  shows "\<exists>ms. matchingModels rp w q = Inr ms \<and> map (deref (rw_heap w)) ms = filter (selects rp q) (contents w) \<and> set ms \<subseteq> snd ` set (rw_data w)"
proof -
  obtain cs where cs: "compileFilters (qy_Filters q) = Inr cs" using assms by (cases "compileFilters (qy_Filters q)") (auto simp: valid_query_def)
  have "map (deref h) (filter (\<lambda>p. P (deref h p)) (map snd d)) = filter P (map (\<lambda>(key, p). deref h p) d)" for h P and d :: "(string, addr) gomap"
    by (induction d) auto
  moreover have "selects rp q = (\<lambda>v. matchesCompiled (rp_type rp) v cs)" by (rule ext) (simp add: selects_def cs)
  ultimately show ?thesis using assms by (auto simp: matchingModels_def valid_query_def cs contents_def)
qed

definition find_values :: "repository \<Rightarrow> repo_world \<Rightarrow> query \<Rightarrow> go_value list" where
  "find_values rp w q = (case Repo_Find rp w q of (w', Inr ps) \<Rightarrow> map (deref (rw_heap w')) ps | (w', Inl err) \<Rightarrow> [])"

lemma query_page_subset: "set (query_page q xs) \<subseteq> set xs"
  by (auto simp: query_page_def Let_def dest: in_set_takeD in_set_dropD split: if_splits)

lemma query_page_map: "map f (query_page q xs) = query_page q (map f xs)"
  by (cases "qy_Offset q > 0"; cases "qy_Offset q < int (length xs)") (auto simp: query_page_def Let_def take_map drop_map)

lemma query_page_take:
  "0 \<le> off \<Longrightarrow> 0 < n \<Longrightarrow> query_page (q\<lparr>qy_Offset := off, qy_Limit := n\<rparr>) xs = take (nat n) (drop (nat off) xs)"
  by (auto simp: query_page_def Let_def)

lemma page_selection [simp]:
  "selects rp (q\<lparr>qy_Offset := off, qy_Limit := n\<rparr>) = selects rp q"
  "valid_query rp (q\<lparr>qy_Offset := off, qy_Limit := n\<rparr>) = valid_query rp q"
  by (simp_all add: selects_def valid_query_def fun_eq_iff)

lemma found_values:
  assumes "repo_ok rp w" and "valid_query rp q"
  shows "find_values rp w q = query_page q (sort_stable (model_less rp (qy_OrderBy q)) (filter (selects rp q) (contents w)))"
proof -
  obtain ms where ms: "matchingModels rp w q = Inr ms" "map (deref (rw_heap w)) ms = filter (selects rp q) (contents w)"
    "set ms \<subseteq> snd ` set (rw_data w)"
    using matchingModels_valid [OF assms(2)] by blast
  let ?ps = "query_page q (orderModels rp (rw_heap w) (qy_OrderBy q) ms)"
  obtain h' qs where c: "copy_all (rw_heap w) ?ps = (h', qs)" by (rule prod.exhaust)
  have "set ?ps \<subseteq> set ms" using query_page_subset orderModels_values(2) by fastforce
  then have "\<forall>p \<in> set ?ps. p < length (rw_heap w)" using ms(3) assms(1) by (fastforce simp: repo_ok_def)
  from copied_values [OF this c] show ?thesis
    by (simp add: find_values_def Repo_Find_def ms(1) c query_page_map orderModels_values(1) ms(2))
qed

section \<open>Changes\<close>

text \<open>Every change keeps the models under their own ids; an update must not change the id itself.\<close>

lemma repo_ok_kept:
  assumes "repo_ok rp w"
  shows "p < length (rw_heap w) \<Longrightarrow> repo_ok rp (fst (Repo_Insert rp w p))"
    and "p < length (rw_heap w) \<Longrightarrow> repo_ok rp (fst (Repo_Upsert rp w p))"
    and "repo_ok rp (fst (Repo_Delete w key))"
    and "repo_ok rp (fst (Repo_Clear w))"
  using assms
  by (auto simp: repo_ok_def Repo_Insert_def Repo_Upsert_def Repo_Delete_def Repo_Clear_def Let_def distinct_update AList.distinct_delete
      dest!: set_update_subset [THEN subsetD] set_delete_subset [THEN subsetD])

lemma repo_ok_Update:
  assumes "repo_ok rp w" and "\<And>v. rp_getID rp (f v) = rp_getID rp v"
  shows "repo_ok rp (fst (Repo_Update w key f))"
  using assms by (auto simp: repo_ok_def Repo_Update_def deref_def nth_list_update split: option.splits)

text \<open>A found model is a copy: assigning to it changes no stored model.\<close>

lemma found_models_isolated:
  assumes "repo_ok rp w" and "Repo_Find rp w q = (w', Inr ps)" and "p \<in> set ps"
  shows "contents (w'\<lparr>rw_heap := (rw_heap w')[p := v]\<rparr>) = contents w"
proof -
  obtain ms where ms: "matchingModels rp w q = Inr ms" using assms(2) by (auto simp: Repo_Find_def split: sum.splits)
  let ?qs = "query_page q (orderModels rp (rw_heap w) (qy_OrderBy q) ms)"
  have "set ms \<subseteq> snd ` set (rw_data w)" using ms by (auto simp: matchingModels_def split: option.splits sum.splits)
  then have "\<forall>x \<in> set ?qs. x < length (rw_heap w)"
    using query_page_subset [of q "orderModels rp (rw_heap w) (qy_OrderBy q) ms"] orderModels_values(2) [of rp "rw_heap w" "qy_OrderBy q" ms] assms(1)
    by (fastforce simp: repo_ok_def)
  then have w': "w' = w\<lparr>rw_heap := rw_heap w @ map (deref (rw_heap w)) ?qs\<rparr>" and p: "length (rw_heap w) \<le> p"
    using assms(2,3) by (auto simp: Repo_Find_def ms copy_all_fresh)
  have "deref ((rw_heap w @ map (deref (rw_heap w)) ?qs)[p := v]) x = deref (rw_heap w) x" if "x < length (rw_heap w)" for x
    using that p by (simp add: deref_def nth_append)
  then show ?thesis using assms(1) by (auto simp: contents_def w' repo_ok_def)
qed

section \<open>Removal\<close>

lemma delete_many_data:
  assumes "gm_wf d"
  shows "fold AList.delete (map fst (filter (\<lambda>(key, p). P p) d)) d = filter (\<lambda>(key, p). \<not> P p) d"
proof -
  have "fold AList.delete ks d = filter (\<lambda>(key, p). key \<notin> set ks) d" for ks
    by (induction ks arbitrary: d) (auto simp: AList.delete_eq intro!: filter_cong split: prod.splits)
  moreover have "filter (\<lambda>(key, p). key \<notin> fst ` set (filter (\<lambda>(key, p). P p) d)) d = filter (\<lambda>(key, p). \<not> P p) d"
    by (intro filter_cong) (auto simp: image_iff dest: eq_key_imp_eq_value [OF assms])
  ultimately show ?thesis by simp
qed

lemma compileFilters_invalid: "compileFilters fs = Inl err \<Longrightarrow> repo_Is err ErrInvalidQuery"
  by (induction fs) (auto simp: compileFilter_def Let_def split: sum.splits FilterOp.splits go_value.splits option.splits list.splits if_splits)

lemma unknown_field_invalid: "unknown_field idx fs = Some err \<Longrightarrow> repo_Is err ErrInvalidQuery"
  by (induction fs) (auto split: if_splits)

section \<open>The field index\<close>

text \<open>No struct embeds itself, directly or through others: the rank of an embedded type is smaller.\<close>

definition embeds_below :: "(string \<Rightarrow> nat) \<Rightarrow> (string \<Rightarrow> field_desc list) \<Rightarrow> bool" where
  "embeds_below rank structs \<longleftrightarrow>
     (\<forall>t. \<forall>sf \<in> set (structs t). \<forall>ft. fd_Anonymous sf \<and> fd_Embeds sf = Some ft \<longrightarrow> rank ft < rank t)"

lemma enumerate_mem: "(i, x) \<in> set (enumerate n xs) \<Longrightarrow> x \<in> set xs"
  by (auto simp: in_set_enumerate_eq)

text \<open>The keys a field is entered under: its JSON name and its lower-case name.\<close>

definition answers :: "field_desc \<Rightarrow> string \<Rightarrow> bool" where
  "answers sf k \<longleftrightarrow> fd_PkgPath sf = [] \<and>
     (k = takeWhile (\<lambda>c. c \<noteq> CHR '','') (fd_JSONTag sf) \<or> k = ToLower (fd_Name sf))"

text \<open>A property of the queued nodes and one of the entries, kept by the fields of a level.\<close>

lemma index_field_keeps:
  assumes "index_field pre (i, sf) (nl, m) = (nl', m')"
  shows "map_of m k = Some idx \<Longrightarrow> map_of m' k = Some idx"
    and "map_of m' k = Some idx \<Longrightarrow> map_of m k = Some idx \<or> (idx = pre @ [i] \<and> answers sf k)"
    and "set nl' \<subseteq> set nl \<union> {(ft, pre @ [i]) | ft. fd_Anonymous sf \<and> fd_Embeds sf = Some ft}"
    and "fd_PkgPath sf = [] \<Longrightarrow> \<not> fd_Anonymous sf \<Longrightarrow> fd_Name sf \<noteq> [] \<Longrightarrow> map_of m' (ToLower (fd_Name sf)) \<noteq> None"
  using assms by (auto simp: index_field_def put_absent_def update_conv' answers_def ToLower_def Let_def split: option.splits if_splits)

lemma index_fields_keep:
  "fold (index_field pre) fs (nl, m) = (nl', m') \<Longrightarrow>
     (map_of m k = Some idx \<longrightarrow> map_of m' k = Some idx) \<and>
     (map_of m' k = Some idx \<longrightarrow> map_of m k = Some idx \<or> (\<exists>(i, sf) \<in> set fs. idx = pre @ [i] \<and> answers sf k)) \<and>
     (\<forall>(ft, p) \<in> set nl'. (ft, p) \<in> set nl \<or> (\<exists>(i, sf) \<in> set fs. fd_Anonymous sf \<and> fd_Embeds sf = Some ft)) \<and>
     (\<forall>(i, sf) \<in> set fs. fd_PkgPath sf = [] \<and> \<not> fd_Anonymous sf \<and> fd_Name sf \<noteq> [] \<longrightarrow> map_of m' (ToLower (fd_Name sf)) \<noteq> None)"
proof (induction fs arbitrary: nl m k idx)
  case (Cons f fs)
  obtain i sf where f: "f = (i, sf)" by (rule prod.exhaust)
  obtain nl1 m1 where s: "index_field pre (i, sf) (nl, m) = (nl1, m1)" by (rule prod.exhaust)
  have rest: "fold (index_field pre) fs (nl1, m1) = (nl', m')" using Cons.prems by (simp add: f s)
  note ih = Cons.IH [OF rest] and st = index_field_keeps [OF s]
  have kept: "map_of m1 k' \<noteq> None \<Longrightarrow> map_of m' k' \<noteq> None" for k' using ih by blast
  have "map_of m k = Some idx \<longrightarrow> map_of m' k = Some idx" using ih st(1) by blast
  moreover have "map_of m' k = Some idx \<longrightarrow> map_of m k = Some idx \<or> (\<exists>(i, sf) \<in> set (f # fs). idx = pre @ [i] \<and> answers sf k)"
    using ih [of k idx] st(2) [of k idx] unfolding f by auto
  moreover have "\<forall>(ft, p) \<in> set nl'. (ft, p) \<in> set nl \<or> (\<exists>(i, sf) \<in> set (f # fs). fd_Anonymous sf \<and> fd_Embeds sf = Some ft)"
    using ih st(3) unfolding f by fastforce
  moreover have "\<forall>(i, sf) \<in> set (f # fs). fd_PkgPath sf = [] \<and> \<not> fd_Anonymous sf \<and> fd_Name sf \<noteq> [] \<longrightarrow> map_of m' (ToLower (fd_Name sf)) \<noteq> None"
    using ih kept st(4) unfolding f by auto
  ultimately show ?case by blast
qed auto

lemmas index_fields_kept = index_fields_keep [THEN conjunct1, rule_format]
  and index_fields_new = index_fields_keep [THEN conjunct2, THEN conjunct1, rule_format]
  and index_fields_queued = index_fields_keep [THEN conjunct2, THEN conjunct2, THEN conjunct1]
  and index_fields_found = index_fields_keep [THEN conjunct2, THEN conjunct2, THEN conjunct2]

lemma index_nodes_keep:
  "fold (index_node structs) level (nl, m) = (nl', m') \<Longrightarrow>
     (map_of m k = Some idx \<longrightarrow> map_of m' k = Some idx) \<and>
     (\<forall>(ft, p) \<in> set nl'. (ft, p) \<in> set nl \<or>
        (\<exists>(t, q) \<in> set level. \<exists>sf \<in> set (structs t). fd_Anonymous sf \<and> fd_Embeds sf = Some ft))"
proof (induction level arbitrary: nl m)
  case (Cons n level)
  obtain t q where n: "n = (t, q)" by (rule prod.exhaust)
  obtain nl1 m1 where s: "fold (index_field q) (enumerate 0 (structs t)) (nl, m) = (nl1, m1)" by (rule prod.exhaust)
  have "index_node structs n (nl, m) = (nl1, m1)" by (simp add: n index_node_def s)
  then have rest: "fold (index_node structs) level (nl1, m1) = (nl', m')" using Cons.prems by simp
  show ?case
    using Cons.IH [OF rest] index_fields_keep [OF s, of k idx] enumerate_mem unfolding n by fastforce
qed auto

lemma buildFieldIndex_total:
  assumes "embeds_below rank structs" and "\<forall>(t, p) \<in> set level. rank t < fuel"
  shows "\<exists>m'. buildFieldIndex fuel structs level m = Some m' \<and> (\<forall>k idx. map_of m k = Some idx \<longrightarrow> map_of m' k = Some idx)"
  using assms(2)
proof (induction fuel arbitrary: level m)
  case (Suc fuel)
  show ?case
  proof (cases level)
    case (Cons n ns)
    obtain nl m1 where s: "fold (index_node structs) level ([], m) = (nl, m1)" by (rule prod.exhaust)
    note keep = index_nodes_keep [OF s]
    have "\<forall>(t, p) \<in> set nl. rank t < fuel"
      using keep assms(1) Suc.prems unfolding embeds_below_def by fastforce
    from Suc.IH [OF this, of m1] keep show ?thesis using s unfolding Cons by (auto simp del: fold.simps)
  qed auto
next
  case 0
  then have "level = []" by (cases level) auto
  then show ?case by simp
qed

text \<open>A type that embeds a pointer to itself has no index: the loop over its levels never ends.\<close>

definition self_embedding :: "string \<Rightarrow> field_desc list" where
  "self_embedding t = [\<lparr>fd_Name = ''Node'', fd_PkgPath = [], fd_JSONTag = [], fd_Anonymous = True, fd_Embeds = Some ''Node''\<rparr>]"

lemma self_embedding_diverges: "fieldIndexFor fuel self_embedding ''Node'' = None"
proof -
  have "buildFieldIndex fuel self_embedding [(t, p)] m = None" for t p m
    by (induction fuel arbitrary: t p m) (simp_all add: index_node_def index_field_def self_embedding_def)
  then show ?thesis by (simp add: fieldIndexFor_def)
qed

section \<open>A repository of users\<close>

definition user_fields :: "string \<Rightarrow> field_desc list" where
  "user_fields t =
     (if t = ''User''
      then [\<lparr>fd_Name = ''Audit'', fd_PkgPath = [], fd_JSONTag = [], fd_Anonymous = True, fd_Embeds = Some ''Audit''\<rparr>,
            \<lparr>fd_Name = ''ID'', fd_PkgPath = [], fd_JSONTag = ''id'', fd_Anonymous = False, fd_Embeds = None\<rparr>,
            \<lparr>fd_Name = ''Age'', fd_PkgPath = [], fd_JSONTag = ''age,omitempty'', fd_Anonymous = False, fd_Embeds = None\<rparr>]
      else if t = ''Audit''
      then [\<lparr>fd_Name = ''ID'', fd_PkgPath = [], fd_JSONTag = [], fd_Anonymous = False, fd_Embeds = None\<rparr>,
            \<lparr>fd_Name = ''Tenant'', fd_PkgPath = [], fd_JSONTag = ''tenant'', fd_Anonymous = False, fd_Embeds = None\<rparr>]
      else [])"

definition user_index :: field_index where
  "user_index = [(''id'', [1]), (''age'', [2]), (''tenant'', [0, 1])]"

definition user :: "string \<Rightarrow> int \<Rightarrow> go_value" where
  "user i n = VStruct ''User'' [VStruct ''Audit'' [VStr ''string'' ''row'', VStr ''string'' ''acme''], VStr ''string'' i, VInt ''int'' n]"

fun user_id :: "go_value \<Rightarrow> string" where
  "user_id (VStruct ty [a, VStr ty' i, n]) = i"
| "user_id v = []"

definition users :: repository where
  "users = \<lparr>rp_type = \<lparr>rt_IsStruct = True, rt_Index = user_index\<rparr>, rp_getID = user_id\<rparr>"

definition demo_users :: repo_world where
  "demo_users = \<lparr>rw_heap = [user ''a'' 30, user ''b'' 41, user ''c'' 30], rw_data = [(''c'', 2), (''b'', 1), (''a'', 0)]\<rparr>"

definition by_age :: query where
  "by_age = OrderByDesc ''age'' (Where ''tenant'' FilterOpEq (VStr ''string'' ''acme'') NewQuery)"

lemma user_index_built: "fieldIndexFor 2 user_fields ''User'' = Some user_index"
  by code_simp

lemma demo_users_ok: "repo_ok users demo_users"
  by (simp add: repo_ok_def demo_users_def users_def user_def deref_def)

lemma by_age_valid: "valid_query users by_age" by code_simp

lemma demo_contents:
  "contents demo_users = [user ''c'' 30, user ''b'' 41, user ''a'' 30]"
  "filter (selects users by_age) (contents demo_users) = [user ''c'' 30, user ''b'' 41, user ''a'' 30]"
  by code_simp+

section \<open>Properties\<close>

text \<open>C27: paging through a query is exact and does not depend on the map's iteration order.  For a
  valid query whose order-by columns hold values of one kind each, the pages of any size read at
  consecutive offsets together are the models that satisfy the filters, each once, strictly ascending
  in the requested order with the id as tie-breaker; every order in which the map may be visited gives
  the same pages; and \<^verbatim>\<open>Count\<close> returns their number.\<close>

theorem repo_pages_exact:
  assumes "repo_ok rp w" and "valid_query rp q" and "sortable_by rp (qy_OrderBy q) (filter (selects rp q) (contents w))"
    and "0 < n" and "length (contents w) \<le> k * nat n"
  shows "\<exists>vs.
    (\<forall>w'. rw_heap w' = rw_heap w \<and> mset (rw_data w') = mset (rw_data w) \<longrightarrow>
       concat (map (\<lambda>i. find_values rp w' (q\<lparr>qy_Offset := int i * n, qy_Limit := n\<rparr>)) [0..<k]) = vs) \<and>
    mset vs = mset (filter (selects rp q) (contents w)) \<and> sorted_wrt (model_less rp (qy_OrderBy q)) vs \<and>
    Repo_Count rp w q = Inr (int (length vs))"
proof -
  let ?lt = "model_less rp (qy_OrderBy q)"
  let ?match = "\<lambda>w. filter (selects rp q) (contents w)"
  let ?vs = "sort_stable ?lt (?match w)"
  have len: "length ?vs = length (?match w)" by (metis mset_sort_stable size_mset)
  have ids: "distinct (map (rp_getID rp) (?match w))"
    using distinct_ids [OF assms(1)] by (simp add: distinct_map_filter)
  note srt = sorted_models [OF assms(3) ids]
  have "concat (map (\<lambda>i. find_values rp w' (q\<lparr>qy_Offset := int i * n, qy_Limit := n\<rparr>)) [0..<k]) = ?vs"
    if w': "rw_heap w' = rw_heap w" "mset (rw_data w') = mset (rw_data w)" for w'
  proof -
    have "mset (contents w') = mset (contents w)" using w' by (simp add: contents_def)
    then have same: "mset (?match w') = mset (?match w)" by (simp add: mset_filter)
    have ok: "repo_ok rp w'"
      using assms(1) w' mset_eq_setD [OF w'(2)] mset_eq_imp_distinct_iff [of "map fst (rw_data w')" "map fst (rw_data w)"]
      by (simp add: repo_ok_def)
    have "sortable_by rp (qy_OrderBy q) (?match w')" "distinct (map (rp_getID rp) (?match w'))"
      using assms(3) mset_eq_setD [OF same] distinct_ids [OF ok] by (simp_all add: sortable_by_def distinct_map_filter)
    note srt' = sorted_models [OF this]
    have eq: "sort_stable ?lt (?match w') = ?vs"
    proof (rule sorted_unique [OF srt'(1) srt(1)])
      show "mset (sort_stable ?lt (?match w')) = mset ?vs" by (simp only: mset_sort_stable same)
      show "\<not> ?lt b a" if "?lt a b" "a \<in> set (sort_stable ?lt (?match w'))" "b \<in> set (sort_stable ?lt (?match w'))" for a b
        using srt'(2) [OF that(1)] that(2,3) by simp
    qed
    have "find_values rp w' (q\<lparr>qy_Offset := int i * n, qy_Limit := n\<rparr>) = take (nat n) (drop (i * nat n) ?vs)" for i
      using found_values [OF ok, of "q\<lparr>qy_Offset := int i * n, qy_Limit := n\<rparr>"] assms(2,4) eq
      by (simp add: query_page_take nat_mult_distrib)
    moreover have "length ?vs \<le> k * nat n" using assms(5) length_filter_le [of "selects rp q" "contents w"] unfolding len by linarith
    ultimately show ?thesis by (simp add: concat_pages)
  qed
  moreover have "Repo_Count rp w q = Inr (int (length ?vs))"
  proof (cases "qy_Filters q = []")
    case True
    then show ?thesis unfolding len by (simp add: Repo_Count_def selects_def contents_def)
  next
    case False
    from matchingModels_valid [OF assms(2), of w] obtain ms where "matchingModels rp w q = Inr ms" "length ms = length (?match w)"
      by (metis length_map)
    then show ?thesis using False unfolding len by (simp add: Repo_Count_def)
  qed
  ultimately show ?thesis using srt(1) mset_sort_stable by blast
qed

theorem repo_pages_exact_witness:
  "\<exists>vs. concat (map (\<lambda>i. find_values users demo_users (by_age\<lparr>qy_Offset := int i * 2, qy_Limit := 2\<rparr>)) [0..<2]) = vs \<and>
     mset vs = mset [user ''c'' 30, user ''b'' 41, user ''a'' 30] \<and>
     sorted_wrt (model_less users (qy_OrderBy by_age)) vs \<and> Repo_Count users demo_users by_age = Inr (int (length vs))"
proof -
  have "sortable_by users (qy_OrderBy by_age) (filter (selects users by_age) (contents demo_users))"
    unfolding demo_contents(2) by (simp add: sortable_by_def order_keys_def by_age_def OrderByDesc_def Where_def NewQuery_def users_def
        user_def user_index_def fieldValue_def lookup_field_def vclass_def)
  moreover have "length (contents demo_users) \<le> 2 * nat 2" by (simp add: demo_contents(1))
  ultimately show ?thesis
    using repo_pages_exact [OF demo_users_ok by_age_valid, of 2 2] unfolding demo_contents(2) by auto
qed

text \<open>C28: bulk removal removes exactly what the query counts.  \<^verbatim>\<open>DeleteMany\<close> either fails with an
  invalid-query error - for instance for a mistyped field - and changes nothing, as \<^verbatim>\<open>Count\<close> fails with
  the same error; or it returns the number \<^verbatim>\<open>Count\<close> returned before, exactly the models that satisfy
  the filters are gone, and the query then counts none.\<close>

theorem delete_many_exact:
  assumes "repo_ok rp w" and "Repo_DeleteMany rp w q = (w', out)"
  shows "(\<exists>err. out = Inl err \<and> w' = w \<and> Repo_Count rp w q = Inl err \<and> repo_Is err ErrInvalidQuery) \<or>
    (\<exists>n. out = Inr n \<and> Repo_Count rp w q = Inr n \<and> Repo_Count rp w' q = Inr 0 \<and> repo_ok rp w' \<and>
       rw_heap w' = rw_heap w \<and> rw_data w' = filter (\<lambda>(key, p). \<not> selects rp q (deref (rw_heap w) p)) (rw_data w))"
proof (cases "valid_query rp q")
  case False
  then show ?thesis
    using assms(2) compileFilters_invalid unknown_field_invalid
    by (auto simp: Repo_DeleteMany_def Repo_Count_def matchingModels_def valid_query_def validateFilterFields_def
        split: option.splits sum.splits if_splits)
next
  case True
  obtain cs where cs: "compileFilters (qy_Filters q) = Inr cs" using True by (cases "compileFilters (qy_Filters q)") (auto simp: valid_query_def)
  have sel: "selects rp q v = matchesCompiled (rp_type rp) v cs" for v by (simp add: selects_def cs)
  have none: "qy_Filters q = [] \<Longrightarrow> cs = []" using cs by simp
  have wf: "gm_wf (rw_data w)" using assms(1) by (simp add: repo_ok_def)
  let ?d = "filter (\<lambda>(key, p). \<not> selects rp q (deref (rw_heap w) p)) (rw_data w)"
  let ?n = "int (length (filter (\<lambda>(key, p). selects rp q (deref (rw_heap w) p)) (rw_data w)))"
  have "Repo_DeleteMany rp w q = (w\<lparr>rw_data := ?d\<rparr>, Inr ?n)"
  proof (cases "qy_Filters q = []")
    case empty: True
    then show ?thesis by (simp add: Repo_DeleteMany_def sel none case_prod_beta)
  next
    case False
    then show ?thesis
      using True delete_many_data [OF wf, of "\<lambda>p. selects rp q (deref (rw_heap w) p)"]
      by (simp add: Repo_DeleteMany_def valid_query_def cs sel)
  qed
  then have w': "w' = w\<lparr>rw_data := ?d\<rparr>" "out = Inr ?n" using assms(2) by simp_all
  have cnt: "Repo_Count rp w1 q = Inr (int (length (filter (\<lambda>(key, p). selects rp q (deref (rw_heap w1) p)) (rw_data w1))))" for w1
    using True by (auto simp: Repo_Count_def matchingModels_def valid_query_def cs none sel filter_map comp_def case_prod_unfold)
  have "filter (\<lambda>(key, p). selects rp q (deref (rw_heap w) p)) ?d = []" by (auto simp: filter_empty_conv)
  then have "Repo_Count rp w' q = Inr 0" by (simp add: cnt w'(1))
  moreover have "repo_ok rp w'" using assms(1) gm_wf_filter [OF wf] by (auto simp: repo_ok_def w'(1))
  ultimately show ?thesis using w' cnt [of w] by simp
qed

theorem delete_many_exact_witness:
  "\<exists>w'. Repo_DeleteMany users demo_users by_age = (w', Inr 3) \<and> rw_data w' = [] \<and> Repo_Count users w' by_age = Inr 0"
proof -
  obtain w' out where d: "Repo_DeleteMany users demo_users by_age = (w', out)" by (rule prod.exhaust)
  have "case Repo_DeleteMany users demo_users by_age of (w', out) \<Rightarrow> out = Inr 3 \<and> rw_data w' = []" by code_simp
  then have r: "out = Inr 3" "rw_data w' = []" using d by simp_all
  show ?thesis using delete_many_exact [OF demo_users_ok d] d r by auto
qed

text \<open>C29: the field index of a read-model type is computed, and outer fields shadow embedded ones.
  For struct types that do not embed themselves, with fuel for one level more than the rank of the
  type, \<^verbatim>\<open>buildFieldIndex\<close> returns an index, in which every exported field declared in the type
  itself is found under its lower-case name at a path of length one, which leads to a field of the type
  itself that has this JSON name or lower-case name, whatever the embedded structs declare.\<close>

theorem field_index_computed:
  assumes "embeds_below rank structs" and "rank t < fuel"
  shows "\<exists>m. fieldIndexFor fuel structs t = Some m \<and>
    (\<forall>sf \<in> set (structs t). fd_PkgPath sf = [] \<and> \<not> fd_Anonymous sf \<and> fd_Name sf \<noteq> [] \<longrightarrow>
       (\<exists>j < length (structs t). lookup_field m (ToLower (fd_Name sf)) = Some [j] \<and> answers (structs t ! j) (ToLower (fd_Name sf))))"
proof -
  obtain n where fuel: "fuel = Suc n" using assms(2) by (cases fuel) auto
  obtain nl m1 where s: "fold (index_field []) (enumerate 0 (structs t)) ([], []) = (nl, m1)" by (rule prod.exhaust)
  have "rank ft < n" if "(ft, p) \<in> set nl" for ft p
  proof -
    from bspec [OF index_fields_queued [OF s] that] obtain i sf where sf: "(i, sf) \<in> set (enumerate 0 (structs t))"
      "fd_Anonymous sf" "fd_Embeds sf = Some ft" by auto
    have "rank ft < rank t"
      using assms(1) enumerate_mem [OF sf(1)] sf(2,3) by (simp add: embeds_below_def)
    then show ?thesis using assms(2) fuel by simp
  qed
  then have "\<forall>(ft, p) \<in> set nl. rank ft < n" by blast
  from buildFieldIndex_total [OF assms(1) this, of m1] obtain m where m: "buildFieldIndex n structs nl m1 = Some m"
    "\<And>k idx. map_of m1 k = Some idx \<Longrightarrow> map_of m k = Some idx" by blast
  have "\<exists>j < length (structs t). lookup_field m (ToLower (fd_Name sf)) = Some [j] \<and> answers (structs t ! j) (ToLower (fd_Name sf))"
    if sf: "sf \<in> set (structs t)" "fd_PkgPath sf = []" "\<not> fd_Anonymous sf" "fd_Name sf \<noteq> []" for sf
  proof -
    obtain i where "i < length (structs t)" "structs t ! i = sf" using sf(1) unfolding in_set_conv_nth by blast
    then have "(i, sf) \<in> set (enumerate 0 (structs t))" by (simp add: in_set_enumerate_eq)
    then obtain idx where idx: "map_of m1 (ToLower (fd_Name sf)) = Some idx"
      using bspec [OF index_fields_found [OF s]] sf by fastforce
    from index_fields_new [OF s idx] obtain j sf' where "(j, sf') \<in> set (enumerate 0 (structs t))" "idx = [j]"
      "answers sf' (ToLower (fd_Name sf))" by auto
    then show ?thesis using m(2) [OF idx] by (auto simp: lookup_field_def in_set_enumerate_eq)
  qed
  then show ?thesis using m(1) by (auto simp: fieldIndexFor_def fuel index_node_def s)
qed

theorem field_index_computed_witness:
  "\<exists>m j. fieldIndexFor 2 user_fields ''User'' = Some m \<and> lookup_field m ''id'' = Some [j] \<and> answers (user_fields ''User'' ! j) ''id''"
proof -
  have rank: "embeds_below (\<lambda>t. if t = ''User'' then 1 else 0) user_fields" by (auto simp: embeds_below_def user_fields_def)
  have "ToLower ''ID'' = ''id''" by code_simp
  moreover obtain m where m: "fieldIndexFor 2 user_fields ''User'' = Some m"
    "\<forall>sf \<in> set (user_fields ''User''). fd_PkgPath sf = [] \<and> \<not> fd_Anonymous sf \<and> fd_Name sf \<noteq> [] \<longrightarrow>
       (\<exists>j < length (user_fields ''User''). lookup_field m (ToLower (fd_Name sf)) = Some [j] \<and>
          answers (user_fields ''User'' ! j) (ToLower (fd_Name sf)))"
    using field_index_computed [OF rank, of "''User''" 2] by auto
  moreover have "user_fields ''User'' ! 1 \<in> set (user_fields ''User'')" "fd_PkgPath (user_fields ''User'' ! 1) = []"
    "\<not> fd_Anonymous (user_fields ''User'' ! 1)" "fd_Name (user_fields ''User'' ! 1) = ''ID''"
    by (simp_all add: user_fields_def)
  ultimately show ?thesis by fastforce
qed

text \<open>The comparison of integers an operator stands for.\<close>

fun int_op :: "FilterOp \<Rightarrow> (int \<Rightarrow> int \<Rightarrow> bool) option" where
  "int_op FilterOpEq = Some (=)"
| "int_op FilterOpNe = Some (\<noteq>)"
| "int_op FilterOpGt = Some (>)"
| "int_op FilterOpGte = Some (\<ge>)"
| "int_op FilterOpLt = Some (<)"
| "int_op FilterOpLte = Some (\<le>)"
| "int_op op = None"

text \<open>The integer a value holds, whatever its integer type.\<close>

fun int_value :: "go_value \<Rightarrow> int option" where
  "int_value (VInt t x) = Some x"
| "int_value (VUint t x) = Some x"
| "int_value v = None"

lemma compare_ints:
  assumes "int_value v = Some x" and "int_value u = Some y" and "\<bar>x\<bar> \<le> 2 ^ 53" and "\<bar>y\<bar> \<le> 2 ^ 53"
  shows "compareOrdered v u = Some (if x < y then -1 else if x > y then 1 else 0)"
  using assms by (cases v; cases u) (simp_all add: compareOrdered_def float64_exact)

text \<open>C30: filters on integers are exact up to 53 bits and not beyond.  Filters compare numbers as
  \<^verbatim>\<open>float64\<close>; for a field and an operand of magnitude at most \<open>2 ^ 53\<close> the six comparison operators decide
  the comparison of the integers, whatever their integer types, and the bound is sharp: the filter
  \<^verbatim>\<open>=\<close> takes \<open>2 ^ 53 + 1\<close> for \<open>2 ^ 53\<close>.\<close>

theorem integer_filters_exact:
  assumes "fieldValue rt m f = Some v" and "int_value v = Some x" and "int_value u = Some y"
    and "\<bar>x\<bar> \<le> 2 ^ 53" and "\<bar>y\<bar> \<le> 2 ^ 53" and "int_op op = Some R"
  shows "(\<exists>cf. compileFilter \<lparr>qf_Field = f, qf_Op = op, qf_Value = u\<rparr> = Inr cf \<and> (matchCompiled rt m cf \<longleftrightarrow> R x y)) \<and>
    valuesEqual (VInt t (2 ^ 53 + 1)) (VInt t' (2 ^ 53))"
proof -
  have "bit_length 9007199254740993 = 54" by (simp add: bit_length.simps)
  then have "float64_of_int 9007199254740993 = 9007199254740992" by (simp add: float64_of_int_def Let_def)
  moreover have "float64_of_int 9007199254740992 = 9007199254740992" by (rule float64_exact) simp
  ultimately have "valuesEqual (VInt t (2 ^ 53 + 1)) (VInt t' (2 ^ 53))" by (simp add: valuesEqual_def compareOrdered_def)
  moreover have "\<exists>cf. compileFilter \<lparr>qf_Field = f, qf_Op = op, qf_Value = u\<rparr> = Inr cf \<and> (matchCompiled rt m cf \<longleftrightarrow> R x y)"
    using assms(6)
    by (cases op) (simp_all add: compileFilter_def matchCompiled_def assms(1) valuesEqual_def compare_ints [OF assms(2-5)] Let_def, auto)
  ultimately show ?thesis by blast
qed

theorem integer_filters_exact_witness:
  "\<exists>cf. compileFilter \<lparr>qf_Field = ''Age'', qf_Op = FilterOpGte, qf_Value = VUint ''uint64'' 30\<rparr> = Inr cf \<and>
     (matchCompiled (rp_type users) (user ''a'' 30) cf \<longleftrightarrow> (30::int) \<ge> 30)"
proof -
  have "fieldValue (rp_type users) (user ''a'' 30) ''Age'' = Some (VInt ''int'' 30)" by code_simp
  from integer_filters_exact [OF this, of 30 "VUint ''uint64'' 30" 30 FilterOpGte "(\<ge>)"] show ?thesis by simp
qed

end
