(* ===== verification/Spec2Isabelle.thy ===== *)
theory Spec2Isabelle
  imports Saga_Properties Outbox_Processor Schema_Registry Rebuild_Properties Projection_Control
    Retention_Properties Subject_Erasers Data_Export Repository_Laws
begin

text \<open>
  A verification development of mink, an event-sourcing and CQRS library for Go.

  \<^bold>\<open>The program.\<close>  Commands enter a bus that runs them through middleware to a handler
  (\<^verbatim>\<open>bus.go\<close>, \<^verbatim>\<open>middleware.go\<close>, \<^verbatim>\<open>handler.go\<close>, \<^verbatim>\<open>idempotency.go\<close>).  A handler loads an
  aggregate by replaying its stream, lets it decide, and saves the events it raised against the
  version it loaded (\<^verbatim>\<open>store.go\<close>, \<^verbatim>\<open>aggregate.go\<close>, \<^verbatim>\<open>event.go\<close>).  On the way to storage events
  are serialized, stamped with a schema version and field-encrypted under keys that can be revoked;
  on the way back they are decrypted and upcast (\<^verbatim>\<open>serializer.go\<close>, \<^verbatim>\<open>versioning.go\<close>,
  \<^verbatim>\<open>schema_registry.go\<close>, \<^verbatim>\<open>encryption.go\<close>, \<^verbatim>\<open>encryption/\<close>).  Storage is an adapter: streams with
  optimistic concurrency, one global log, subscriptions, an outbox written with the events, saga
  states, idempotency records and checkpoints (\<^verbatim>\<open>adapters/adapter.go\<close>, \<^verbatim>\<open>adapters/memory/\<close>).  Behind
  the log run the outbox processor, which delivers messages (\<^verbatim>\<open>outbox.go\<close>, \<^verbatim>\<open>outbox_processor.go\<close>), the
  saga manager, which turns events into commands (\<^verbatim>\<open>saga.go\<close>, \<^verbatim>\<open>saga_manager.go\<close>), and the projection
  engine, which turns events into read models and can rebuild them (\<^verbatim>\<open>projection.go\<close>,
  \<^verbatim>\<open>projection_engine.go\<close>, \<^verbatim>\<open>rebuilder.go\<close>); read models are queried through repositories
  (\<^verbatim>\<open>repository.go\<close>).  Beside them stand the services for personal data: the discovery of a
  subject's events by tags and taggers (\<^verbatim>\<open>subject.go\<close>, \<^verbatim>\<open>subjectindex.go\<close>), erasure by revoking keys
  with a verified certificate (\<^verbatim>\<open>eraser.go\<close>, \<^verbatim>\<open>verify.go\<close>, \<^verbatim>\<open>subjecterasure.go\<close>,
  \<^verbatim>\<open>subjecterasers.go\<close>), retention policies (\<^verbatim>\<open>retention.go\<close>), export (\<^verbatim>\<open>export.go\<close>) and the audit
  trail of commands (\<^verbatim>\<open>audit.go\<close>).

  \<^bold>\<open>How the code is modelled.\<close>  A struct is a record, an enumeration a datatype, a method a function
  with the source's name that returns the changed state beside its results; a name that another file
  uses too carries a prefix.  Errors are values of one datatype with \<^verbatim>\<open>errors.Is\<close> as a function over
  it, a panic is the error \<open>GoPanic\<close>.  A context is the value \<^verbatim>\<open>ctx.Err()\<close> returns, the clock and
  \<^verbatim>\<open>uuid\<close> are arguments.  Maps that the code iterates over are association lists, so results are
  stated for every iteration order the list can have.  A mutex-protected method is one step;
  goroutines are step relations (\<open>mem_step\<close>, the saga lifecycle) or runs over the list of what their
  select receives, with the steps of other goroutines in between (\<open>worker_input\<close>).  What lies outside
  the repository - JSON, base64, AES-GCM, reflection, the application's handlers, publishers, sagas
  and projections - is an argument, with what the code relies on as a named hypothesis.  Durations
  of the retry policies are 64-bit words, since their overflow matters; counters of stored events
  are natural numbers.  A Go string is the list of its bytes; where the code works on runes (\<^verbatim>\<open>LIKE\<close> patterns,
  comments in SQL) it is decoded as UTF-8 by \<open>runes\<close>.

  \<^bold>\<open>The theories.\<close>
  \<^item> \<open>Prelude\<close>: Go maps, strings, \<^verbatim>\<open>strconv\<close>, sorted lists; shared by all.
  \<^item> \<open>Adapter_Common\<close>: errors, event records, the version check \<open>CheckVersion\<close>, the feed filter.
  \<^item> \<open>Memory_Adapter\<close>, \<open>Event_Log\<close>: the in-memory event store, and its refinement of an abstract log:
    the invariant \<open>mem_inv\<close> of every reachable state, appends as log appends, no lost updates, atomic
    \<open>AppendWithOutbox\<close>, subscriptions without gap or duplicate.
  \<^item> \<open>Feed\<close>: position reads and the paged scan, over the locale \<open>position_feed\<close>.
  \<^item> \<open>Footprint\<close>, \<open>Outbox_Store\<close>, \<open>Outbox_Processor\<close>: the outbox, its claims, its GDPR erasure (locale
    for the footprint contract), batches, dead letters and routing.
  \<^item> \<open>Idempotency\<close>: keys, the middleware and its store under interleaving.
  \<^item> \<open>Event_Model\<close>, \<open>Versioning\<close>, \<open>Schema_Registry\<close>, \<open>Serializer\<close>: event vocabulary, upcaster chains,
    compatibility of schemas, serialization.
  \<^item> \<open>Key_Provider\<close>, \<open>Field_Encryption\<close>, \<open>Sealing\<close>: envelope encryption, key revocation, sealing of
    JSON fields at paths; round trip, binding to stream and path, permanence of crypto-shredding.
  \<^item> \<open>Event_Store\<close>, \<open>Store_Laws\<close>: the event store over an adapter (locale), aggregates, round trips
    through stamping and encryption, unforgeable reserved metadata.
  \<^item> \<open>Command_Bus\<close>: bus, middleware, handlers; a command takes effect wholly or not at all.
  \<^item> \<open>Saga_Store\<close>, \<open>Saga_Manager\<close>, \<open>Saga_Laws\<close>, \<open>Saga_Properties\<close>: sagas, their store (locale
    \<open>saga_backend\<close>) and manager; the event loop refines the lifecycle of a saga.
  \<^item> \<open>Retry_Policy\<close>, \<open>Projection_Engine\<close>, \<open>Projection_Control\<close>: policies, workers, supervision, the
    engine's operations.
  \<^item> \<open>Projection_Laws\<close>, \<open>Projection_Properties\<close>: the locales \<open>projection_world\<close> and \<open>txn_projection\<close>,
    interpreted on the in-memory store; exactly-once projection, catching up, faults.
  \<^item> \<open>Rebuilder\<close>, \<open>Rebuild_Properties\<close>: rebuilding read models and what a rebuild leaves behind.
  \<^item> \<open>Subjects\<close>, \<open>Subject_Laws\<close>, \<open>Subject_Properties\<close>: attribution of events, footprints by scan and by
    index, the backfill of the index, over the locale \<open>scannable_store\<close>; the scan is exact and the
    index agrees with it.
  \<^item> \<open>Erasure\<close>, \<open>Erasure_Certificate\<close>, \<open>Erasure_Laws\<close>, \<open>Erasure_Properties\<close>, \<open>Erasure_Guarantees\<close>: key
    discovery, the shared-key guard, revocation, side effects, verification and certificate, over the
    locale \<open>key_vault\<close>; an unfailed erasure revokes every key of the subject, a guarded one no key of
    others, and a purged index means a verified erasure.
  \<^item> \<open>Retention\<close>, \<open>Retention_Laws\<close>, \<open>Retention_Properties\<close>: policies and the sweep with its checkpoint;
    what lies behind the checkpoint is settled, keys of uncovered events are spared.
  \<^item> \<open>Audit_Trail\<close>, \<open>Subject_Erasers\<close>: the audit store, its queries and the middleware; the erasers of the
    five sibling stores over the locale \<open>sibling_erasers\<close>, whose residual counts are zero afterwards.
  \<^item> \<open>Data_Export\<close>: requests, filters, export by streams, scan and footprint, redaction; an export by
    subject is exact, and no export shows others' events or shredded data.
  \<^item> \<open>Repository\<close>, \<open>Repository_Laws\<close>: the in-memory repository on a heap of models, with reflection on
    struct fields; exact and deterministic paging, exact bulk removal, the field index, and the 53 bits
    up to which integer filters are exact.

  Each property is a theorem after a text that states it; properties named after what goes wrong show
  a behaviour that departs from the documentation or the evident intent, and the manifest lists them
  as findings.

  \<^bold>\<open>Bounds and fuel.\<close>  The paged scan and the rebuild loop take fuel, one unit for each batch and one
  for the empty batch that ends them; the theorems ask for more fuel than the log has events and
  prove that the loops then return; so do the scans of the resolver, eraser, retention manager and
  exporter.  The field index of a struct type takes one unit for each level of embedding.  Loops over retries, attempts and lists recurse on what remains.

  \<^bold>\<open>Not modelled.\<close>  The PostgreSQL adapter is SQL, whose meaning is the database's; the contracts it
  shares are proved of the in-memory adapter.  Clients of key services and message brokers, binary
  serializers, metrics, tracing, the command-line tool, test support and examples are glue around
  third-party code.  Filtered subscriptions (\<^verbatim>\<open>subscription.go\<close>) wrap the adapters' subscriptions in
  goroutines; the copying of a stream under a new key (\<^verbatim>\<open>keylifecycle.go\<close>) and keyed pseudonyms
  (\<^verbatim>\<open>anonymize.go\<close>) are calls of the event store and of HMAC.  Logging, metrics and
  progress callbacks are left out everywhere.  A process that dies inside an operation is not a
  step of the model: the projection engine, for one, applies a batch and then stores the checkpoint,
  and a crash between the two repeats the batch.
\<close>

end
